(* ===== verification/Prelude.thy ===== *)
theory Prelude
  imports Main "HOL-Library.Word"
begin

text \<open>
  Shared vocabulary of the development: results (\<open>Result\<close> of Rust as a sum, the error on the
  left), the \<open>?\<close> operator, collecting an iterator of results, machine integers and their checked
  conversions, decimal rendering, and stateful operations with their weakest preconditions.
  The collection \<open>result_simps\<close> holds the rules with which the component proofs walk through
  a handler that is a chain of \<open>?\<close>.
\<close>

named_theorems result_simps \<open>rewriting rules for results and the question-mark operator\<close>

section \<open>Results\<close>

text \<open>
  \<open>Result<T, E>\<close> is \<open>'e + 'a\<close>: \<open>Err e\<close> is \<open>Inl e\<close>, \<open>Ok x\<close> is \<open>Inr x\<close>.
  \<open>and_then m k\<close> is \<open>k(m?)\<close>: an error returns at once.
\<close>

abbreviation Err :: "'e \<Rightarrow> 'e + 'a" where "Err \<equiv> Inl"
abbreviation Ok :: "'a \<Rightarrow> 'e + 'a" where "Ok \<equiv> Inr"

definition and_then :: "'e + 'a \<Rightarrow> ('a \<Rightarrow> 'e + 'b) \<Rightarrow> 'e + 'b" where
  "and_then m k = (case m of Inl e \<Rightarrow> Inl e | Inr x \<Rightarrow> k x)"

definition ensure :: "bool \<Rightarrow> 'e \<Rightarrow> 'e + unit" where
  "ensure b e = (if b then Ok () else Err e)"

definition map_err :: "('e \<Rightarrow> 'f) \<Rightarrow> 'e + 'a \<Rightarrow> 'f + 'a" where
  "map_err f m = (case m of Inl e \<Rightarrow> Inl (f e) | Inr x \<Rightarrow> Inr x)"

definition ok_or :: "'e \<Rightarrow> 'a option \<Rightarrow> 'e + 'a" where
  "ok_or e m = (case m of None \<Rightarrow> Inl e | Some x \<Rightarrow> Inr x)"

definition transpose_opt :: "('e + 'a) option \<Rightarrow> 'e + 'a option" where
  "transpose_opt m =
     (case m of None \<Rightarrow> Inr None | Some (Inl e) \<Rightarrow> Inl e | Some (Inr x) \<Rightarrow> Inr (Some x))"

definition is_ok :: "'e + 'a \<Rightarrow> bool" where
  "is_ok m = (case m of Inl _ \<Rightarrow> False | Inr _ \<Rightarrow> True)"

text \<open>\<open>iter.map(f).collect::<Result<Vec<_>, _>>()\<close>: the first error wins, later elements are not reached.\<close>

fun collect_results :: "('a \<Rightarrow> 'e + 'b) \<Rightarrow> 'a list \<Rightarrow> 'e + 'b list" where
  "collect_results f [] = Inr []"
| "collect_results f (x # xs) =
     (case f x of
        Inl e \<Rightarrow> Inl e
      | Inr y \<Rightarrow> (case collect_results f xs of Inl e \<Rightarrow> Inl e | Inr ys \<Rightarrow> Inr (y # ys)))"

lemma and_then_Inl [simp, result_simps]: "and_then (Inl e) k = Inl e"
  by (simp add: and_then_def)

lemma and_then_Inr [simp, result_simps]: "and_then (Inr x) k = k x"
  by (simp add: and_then_def)

lemma and_then_eq_Inr [result_simps]: "and_then m k = Inr y \<longleftrightarrow> (\<exists>x. m = Inr x \<and> k x = Inr y)"
  by (cases m) auto

lemma and_then_eq_Inl [result_simps]:
  "and_then m k = Inl e \<longleftrightarrow> m = Inl e \<or> (\<exists>x. m = Inr x \<and> k x = Inl e)"
  by (cases m) auto

lemma and_then_cong [fundef_cong]:
  "m = m' \<Longrightarrow> (\<And>x. m' = Inr x \<Longrightarrow> k x = k' x) \<Longrightarrow> and_then m k = and_then m' k'"
  by (cases m') auto

lemma ensure_True [simp, result_simps]: "ensure True e = Inr ()"
  by (simp add: ensure_def)

lemma ensure_False [simp, result_simps]: "ensure False e = Inl e"
  by (simp add: ensure_def)

lemma ensure_eq_Inr [simp, result_simps]: "ensure b e = Inr u \<longleftrightarrow> b"
  by (simp add: ensure_def)

lemma ensure_eq_Inl [simp, result_simps]: "ensure b e = Inl e' \<longleftrightarrow> \<not> b \<and> e' = e"
  by (auto simp: ensure_def)

lemma map_err_eq_Inr [simp, result_simps]: "map_err f m = Inr x \<longleftrightarrow> m = Inr x"
  by (cases m) (auto simp: map_err_def)

lemma map_err_eq_Inl [simp, result_simps]: "map_err f m = Inl e \<longleftrightarrow> (\<exists>e'. m = Inl e' \<and> e = f e')"
  by (cases m) (auto simp: map_err_def)

lemma map_err_simps [simp]: "map_err f (Inl e) = Inl (f e)" "map_err f (Inr x) = Inr x"
  by (simp_all add: map_err_def)

lemma ok_or_eq_Inr [simp, result_simps]: "ok_or e m = Inr x \<longleftrightarrow> m = Some x"
  by (cases m) (auto simp: ok_or_def)

lemma ok_or_eq_Inl [simp, result_simps]: "ok_or e m = Inl e' \<longleftrightarrow> m = None \<and> e' = e"
  by (cases m) (auto simp: ok_or_def)

lemma ok_or_simps [simp]: "ok_or e None = Inl e" "ok_or e (Some x) = Inr x"
  by (simp_all add: ok_or_def)

lemma transpose_opt_simps [simp]:
  "transpose_opt None = Inr None"
  "transpose_opt (Some (Inl e)) = Inl e"
  "transpose_opt (Some (Inr x)) = Inr (Some x)"
  by (simp_all add: transpose_opt_def)

lemma transpose_opt_eq_Inr [result_simps]:
  "transpose_opt m = Inr r \<longleftrightarrow> (m = None \<and> r = None) \<or> (\<exists>x. m = Some (Inr x) \<and> r = Some x)"
  by (auto simp: transpose_opt_def split: option.splits sum.splits)

lemma is_ok_simps [simp]: "is_ok (Inl e) = False" "is_ok (Inr x) = True"
  by (simp_all add: is_ok_def)

lemma is_ok_iff: "is_ok m \<longleftrightarrow> (\<exists>x. m = Inr x)"
  by (cases m) auto

lemma collect_results_eq_Inr:
  "collect_results f xs = Inr ys \<longleftrightarrow> list_all2 (\<lambda>x y. f x = Inr y) xs ys"
proof (induction xs arbitrary: ys)
  case Nil
  then show ?case by auto
next
  case (Cons x xs)
  show ?case
    by (auto simp: list_all2_Cons1 Cons.IH [symmetric] split: sum.splits)
qed

lemma collect_results_length: "collect_results f xs = Inr ys \<Longrightarrow> length ys = length xs"
  by (auto simp: collect_results_eq_Inr list_all2_lengthD)

lemma collect_results_map:
  "(\<And>x. x \<in> set xs \<Longrightarrow> f x = Inr (g x)) \<Longrightarrow> collect_results f xs = Inr (map g xs)"
  by (induction xs) auto

lemma collect_results_Inl:
  "collect_results f xs = Inl e \<Longrightarrow> \<exists>x \<in> set xs. f x = Inl e"
  by (induction xs) (auto split: sum.splits)

lemma collect_results_cong:
  "xs = ys \<Longrightarrow> (\<And>x. x \<in> set ys \<Longrightarrow> f x = g x) \<Longrightarrow> collect_results f xs = collect_results g ys"
  by (induction xs arbitrary: ys) (auto split: sum.splits)

text \<open>A \<open>for\<close> loop whose body only checks: the first failing check returns.\<close>

fun check_each :: "('a \<Rightarrow> 'e + unit) \<Rightarrow> 'a list \<Rightarrow> 'e + unit" where
  "check_each f [] = Ok ()"
| "check_each f (x # xs) = and_then (f x) (\<lambda>_. check_each f xs)"

lemma check_each_Inr [simp]: "check_each f xs = Inr () \<longleftrightarrow> (\<forall>x \<in> set xs. f x = Inr ())"
  by (induction xs) (auto simp: and_then_eq_Inr)

section \<open>Stateful operations\<close>

text \<open>
  A method on \<open>&mut self\<close> that returns a \<open>Result\<close> is a function from the state to a result and
  the new state; the state an error leaves behind is part of the value. \<open>act_bind\<close> sequences two of
  them with \<open>?\<close>, \<open>act_each\<close> is a \<open>for\<close> loop whose body may fail, and \<open>transaction\<close> rolls back
  what an error wrote.
\<close>

type_synonym ('s, 'e, 'a) action = "'s \<Rightarrow> ('e + 'a) \<times> 's"

definition act_return :: "'a \<Rightarrow> ('s, 'e, 'a) action" where
  "act_return x s = (Inr x, s)"

definition act_lift :: "'e + 'a \<Rightarrow> ('s, 'e, 'a) action" where
  "act_lift r s = (r, s)"

definition act_update :: "('s \<Rightarrow> 's) \<Rightarrow> ('s, 'e, unit) action" where
  "act_update f s = (Inr (), f s)"

definition act_read :: "('s \<Rightarrow> 'a) \<Rightarrow> ('s, 'e, 'a) action" where
  "act_read f s = (Inr (f s), s)"

definition act_try :: "('s \<Rightarrow> 'e + 'a) \<Rightarrow> ('s, 'e, 'a) action" where
  "act_try f s = (f s, s)"

definition act_bind :: "('s, 'e, 'a) action \<Rightarrow> ('a \<Rightarrow> ('s, 'e, 'b) action) \<Rightarrow> ('s, 'e, 'b) action" where
  "act_bind m k s = (case m s of (Inl e, s') \<Rightarrow> (Inl e, s') | (Inr x, s') \<Rightarrow> k x s')"

definition act_map_err :: "('e \<Rightarrow> 'f) \<Rightarrow> ('s, 'e, 'a) action \<Rightarrow> ('s, 'f, 'a) action" where
  "act_map_err f m s = (case m s of (r, s') \<Rightarrow> (map_err f r, s'))"

text \<open>Run an operation on a part of the state.\<close>

definition act_zoom :: "('s \<Rightarrow> 't) \<Rightarrow> ('t \<Rightarrow> 's \<Rightarrow> 's) \<Rightarrow> ('t, 'e, 'a) action \<Rightarrow> ('s, 'e, 'a) action" where
  "act_zoom get put m s = (case m (get s) of (r, t) \<Rightarrow> (r, put t s))"

fun act_each :: "('a \<Rightarrow> ('s, 'e, unit) action) \<Rightarrow> 'a list \<Rightarrow> ('s, 'e, unit) action" where
  "act_each f [] = act_return ()"
| "act_each f (x # xs) = act_bind (f x) (\<lambda>_. act_each f xs)"

fun act_collect :: "('a \<Rightarrow> ('s, 'e, 'b) action) \<Rightarrow> 'a list \<Rightarrow> ('s, 'e, 'b list) action" where
  "act_collect f [] = act_return []"
| "act_collect f (x # xs) =
     act_bind (f x) (\<lambda>y. act_bind (act_collect f xs) (\<lambda>ys. act_return (y # ys)))"

definition transaction :: "('s, 'e, 'a) action \<Rightarrow> ('s, 'e, 'a) action" where
  "transaction m s = (case m s of (Inl e, _) \<Rightarrow> (Inl e, s) | (Inr x, s') \<Rightarrow> (Inr x, s'))"

text \<open>
  The weakest precondition of an operation for a postcondition of its success and one of its
  failure. Its rules walk through a handler; a proof about a handler unfolds the handler, rewrites
  with \<open>wp_simps\<close> and is left with the conditions of the branches.
\<close>

definition wp :: "('s, 'e, 'a) action \<Rightarrow> ('a \<Rightarrow> 's \<Rightarrow> bool) \<Rightarrow> ('e \<Rightarrow> 's \<Rightarrow> bool) \<Rightarrow> 's \<Rightarrow> bool" where
  "wp m Q E s \<longleftrightarrow> (case m s of (Inl e, s') \<Rightarrow> E e s' | (Inr x, s') \<Rightarrow> Q x s')"

named_theorems wp_simps \<open>weakest preconditions of the operations\<close>

lemma wp_return [wp_simps]: "wp (act_return x) Q E = Q x"
  by (simp add: wp_def act_return_def fun_eq_iff)

lemma wp_lift [wp_simps]: "wp (act_lift r) Q E = (\<lambda>s. case r of Inl e \<Rightarrow> E e s | Inr x \<Rightarrow> Q x s)"
  by (simp add: wp_def act_lift_def fun_eq_iff)

lemma wp_update [wp_simps]: "wp (act_update f) Q E = (\<lambda>s. Q () (f s))"
  by (simp add: wp_def act_update_def fun_eq_iff)

lemma wp_read [wp_simps]: "wp (act_read f) Q E = (\<lambda>s. Q (f s) s)"
  by (simp add: wp_def act_read_def fun_eq_iff)

lemma wp_try [wp_simps]: "wp (act_try f) Q E = (\<lambda>s. case f s of Inl e \<Rightarrow> E e s | Inr x \<Rightarrow> Q x s)"
  by (simp add: wp_def act_try_def fun_eq_iff)

lemma wp_bind [wp_simps]: "wp (act_bind m k) Q E = wp m (\<lambda>x. wp (k x) Q E) E"
  by (auto simp: wp_def act_bind_def fun_eq_iff split: sum.splits prod.splits)

lemma wp_map_err [wp_simps]: "wp (act_map_err f m) Q E = wp m Q (\<lambda>e. E (f e))"
  by (auto simp: wp_def act_map_err_def map_err_def fun_eq_iff split: sum.splits prod.splits)

lemma wp_transaction [wp_simps]: "wp (transaction m) Q E = (\<lambda>s. wp m Q (\<lambda>e _. E e s) s)"
  by (auto simp: wp_def transaction_def fun_eq_iff split: sum.splits prod.splits)

lemma wp_zoom [wp_simps]:
  "wp (act_zoom get put m) Q E = (\<lambda>s. wp m (\<lambda>x t. Q x (put t s)) (\<lambda>e t. E e (put t s)) (get s))"
  by (auto simp: wp_def act_zoom_def fun_eq_iff split: sum.splits prod.splits)

lemma wp_if [wp_simps]: "wp (if b then m else n) Q E = (if b then wp m Q E else wp n Q E)"
  by simp

lemma wp_fun_if [wp_simps]: "(if b then f else g) s = (if b then f s else g s)"
  by simp

lemma wp_mono:
  "wp m Q E s \<Longrightarrow> (\<And>x s'. Q x s' \<Longrightarrow> Q' x s') \<Longrightarrow> (\<And>e s'. E e s' \<Longrightarrow> E' e s') \<Longrightarrow> wp m Q' E' s"
  by (auto simp: wp_def split: sum.splits prod.splits)

lemma wp_conj: "wp m Q E s \<Longrightarrow> wp m Q' E' s \<Longrightarrow> wp m (\<lambda>x s'. Q x s' \<and> Q' x s') (\<lambda>e s'. E e s' \<and> E' e s') s"
  by (auto simp: wp_def split: sum.splits prod.splits)

lemma wp_True: "wp m (\<lambda>_ _. True) (\<lambda>_ _. True) s"
  by (auto simp: wp_def split: sum.splits prod.splits)

lemma wp_okD: "wp m Q E s \<Longrightarrow> m s = (Inr x, s') \<Longrightarrow> Q x s'"
  by (simp add: wp_def)

lemma wp_errD: "wp m Q E s \<Longrightarrow> m s = (Inl e, s') \<Longrightarrow> E e s'"
  by (simp add: wp_def)

lemma wp_I: "(\<And>x s'. m s = (Inr x, s') \<Longrightarrow> Q x s') \<Longrightarrow> (\<And>e s'. m s = (Inl e, s') \<Longrightarrow> E e s') \<Longrightarrow> wp m Q E s"
  by (auto simp: wp_def split: sum.splits prod.splits)

lemma wp_snd: "wp m (\<lambda>_. P) (\<lambda>_. P) s \<longleftrightarrow> P (snd (m s))"
  by (auto simp: wp_def split: sum.splits prod.splits)

text \<open>A \<open>for\<close> loop keeps an invariant that its body keeps.\<close>

lemma wp_each_inv:
  assumes body: "\<And>x s. x \<in> set xs \<Longrightarrow> I s \<Longrightarrow> wp (f x) (\<lambda>_. I) E s" and "I s"
  shows "wp (act_each f xs) (\<lambda>_. I) E s"
  using assms
proof (induction xs arbitrary: s)
  case Nil
  then show ?case by (simp add: wp_simps)
next
  case (Cons x xs)
  have "wp (f x) (\<lambda>_. I) E s" using Cons.prems by simp
  then show ?case
    by (auto simp: wp_simps elim!: wp_mono intro!: Cons.IH Cons.prems)
qed

text \<open>An operation that succeeds keeps a property of the state.\<close>

definition keeps :: "('s \<Rightarrow> bool) \<Rightarrow> ('s, 'e, 'a) action \<Rightarrow> bool" where
  "keeps I m \<longleftrightarrow> (\<forall>s. I s \<longrightarrow> wp m (\<lambda>_. I) (\<lambda>_ _. True) s)"

named_theorems keeps_intros \<open>operations that keep a property, built from such operations\<close>

lemma keepsI: "(\<And>s. I s \<Longrightarrow> wp m (\<lambda>_. I) (\<lambda>_ _. True) s) \<Longrightarrow> keeps I m"
  by (simp add: keeps_def)

lemma keepsD: "keeps I m \<Longrightarrow> I s \<Longrightarrow> m s = (Inr x, s') \<Longrightarrow> I s'"
  by (auto simp: keeps_def wp_def)

lemma keeps_return [keeps_intros]: "keeps I (act_return x)"
  by (simp add: keeps_def wp_simps)

lemma keeps_lift [keeps_intros]: "keeps I (act_lift r)"
  by (simp add: keeps_def wp_simps split: sum.split)

lemma keeps_read [keeps_intros]: "keeps I (act_read f)"
  by (simp add: keeps_def wp_simps)

lemma keeps_try [keeps_intros]: "keeps I (act_try f)"
  by (simp add: keeps_def wp_simps split: sum.split)

lemma keeps_update: "(\<And>s. I s \<Longrightarrow> I (f s)) \<Longrightarrow> keeps I (act_update f)"
  by (simp add: keeps_def wp_simps)

text \<open>The continuation may use what the first operation returned.\<close>

lemma keeps_bind_ok:
  "keeps I m \<Longrightarrow> (\<And>x s s'. m s = (Inr x, s') \<Longrightarrow> keeps I (k x)) \<Longrightarrow> keeps I (act_bind m k)"
  unfolding keeps_def wp_simps
  by (fastforce simp: wp_def split: prod.splits sum.splits)

lemma keeps_bind [keeps_intros]: "keeps I m \<Longrightarrow> (\<And>x. keeps I (k x)) \<Longrightarrow> keeps I (act_bind m k)"
  by (rule keeps_bind_ok)

lemma keeps_map_err [keeps_intros]: "keeps I m \<Longrightarrow> keeps I (act_map_err f m)"
  by (simp add: keeps_def wp_simps)

lemma keeps_each [keeps_intros]: "(\<And>x. x \<in> set xs \<Longrightarrow> keeps I (f x)) \<Longrightarrow> keeps I (act_each f xs)"
  by (induction xs) (auto intro: keeps_intros)

lemma keeps_if [keeps_intros]: "(b \<Longrightarrow> keeps I m) \<Longrightarrow> (\<not> b \<Longrightarrow> keeps I n) \<Longrightarrow> keeps I (if b then m else n)"
  by simp

lemma keeps_transaction [keeps_intros]: "keeps I m \<Longrightarrow> keeps I (transaction m)"
  by (simp add: keeps_def wp_simps)

lemma transaction_rollback: "transaction m s = (Inl e, s') \<Longrightarrow> s' = s"
  by (auto simp: transaction_def split: sum.splits prod.splits)

lemma act_bind_ok: "act_bind m k s = (Inr y, s'') \<longleftrightarrow> (\<exists>x s'. m s = (Inr x, s') \<and> k x s' = (Inr y, s''))"
  by (auto simp: act_bind_def split: sum.splits prod.splits)

lemma act_map_err_ok: "act_map_err f m s = (Inr x, s') \<longleftrightarrow> m s = (Inr x, s')"
  by (auto simp: act_map_err_def split: prod.splits)

lemma transaction_ok: "transaction m s = (Inr y, s') \<longleftrightarrow> m s = (Inr y, s')"
  by (auto simp: transaction_def split: sum.splits prod.splits)

lemma map_eq_image: "map f xs = map g ys \<Longrightarrow> f ` set xs = g ` set ys"
  by (metis list.set_map)

section \<open>Machine integers\<close>

text \<open>
  \<open>u64\<close> is a 64-bit word. An SQLite \<open>INTEGER\<close> column read as \<open>i64\<close> is an \<open>int\<close> that the
  conversions below keep in the range of \<open>i64\<close>; \<open>usize\<close> (64 bits on the targets) counts things
  in memory and is a \<open>nat\<close>.
\<close>

type_synonym u64 = "64 word"
type_synonym i64 = int

definition i64_max :: int where "i64_max = 9223372036854775807"
definition i64_min :: int where "i64_min = -9223372036854775808"

definition in_i64 :: "int \<Rightarrow> bool" where
  "in_i64 i \<longleftrightarrow> i64_min \<le> i \<and> i \<le> i64_max"

text \<open>\<open>i64::try_from(u64)\<close>, \<open>i64::try_from(usize)\<close>, \<open>u64::try_from(i64)\<close>, \<open>usize::try_from(i64)\<close>, \<open>i64::checked_add(1)\<close>, \<open>u64::checked_add(1)\<close>.\<close>

definition i64_of_u64 :: "u64 \<Rightarrow> i64 option" where
  "i64_of_u64 w = (if uint w \<le> i64_max then Some (uint w) else None)"

definition i64_of_usize :: "nat \<Rightarrow> i64 option" where
  "i64_of_usize n = (if int n \<le> i64_max then Some (int n) else None)"

definition u64_of_i64 :: "i64 \<Rightarrow> u64 option" where
  "u64_of_i64 i = (if i < 0 then None else Some (word_of_int i))"

definition usize_of_i64 :: "i64 \<Rightarrow> nat option" where
  "usize_of_i64 i = (if i < 0 then None else Some (nat i))"

text \<open>\<open>usize\<close> addition that a \<open>checked_add\<close> guards; a \<open>usize\<close> has 64 bits.\<close>

definition usize_checked_add :: "nat \<Rightarrow> nat \<Rightarrow> nat option" where
  "usize_checked_add a b = (if a + b < 2 ^ 64 then Some (a + b) else None)"

definition i64_succ :: "i64 \<Rightarrow> i64 option" where
  "i64_succ i = (if i = i64_max then None else Some (i + 1))"

definition u64_succ :: "u64 \<Rightarrow> u64 option" where
  "u64_succ w = (if w = - 1 then None else Some (w + 1))"

lemma uint_pos: "0 < uint w \<longleftrightarrow> w \<noteq> 0"
  by (simp add: less_le uint_0_iff)

lemma i64_of_u64_eq_Some: "i64_of_u64 w = Some i \<longleftrightarrow> i = uint w \<and> uint w \<le> i64_max"
  by (auto simp: i64_of_u64_def)

lemma u64_of_i64_uint: "u64_of_i64 (uint w) = Some w"
  by (simp add: u64_of_i64_def)

lemma i64_round_trip: "i64_of_u64 w = Some i \<Longrightarrow> u64_of_i64 i = Some w"
  by (simp add: i64_of_u64_eq_Some u64_of_i64_uint)

lemma u64_of_i64_eq_Some:
  "i \<le> i64_max \<Longrightarrow> u64_of_i64 i = Some w \<longleftrightarrow> 0 \<le> i \<and> uint w = i"
  by (auto simp: u64_of_i64_def i64_max_def uint_word_of_int take_bit_int_eq_self)

lemma u64_of_i64_Some_uint:
  "u64_of_i64 i = Some w \<Longrightarrow> i \<le> i64_max \<Longrightarrow> uint w = i"
  by (simp add: u64_of_i64_eq_Some)

lemma in_i64_uint: "i64_of_u64 w = Some i \<Longrightarrow> in_i64 i"
  by (simp add: i64_of_u64_eq_Some in_i64_def i64_min_def order_trans [OF _ uint_ge_0])

lemma i64_succ_eq_Some: "i64_succ i = Some j \<longleftrightarrow> i \<noteq> i64_max \<and> j = i + 1"
  by (auto simp: i64_succ_def)

lemma uint_succ_le: "uint w \<le> i64_max \<Longrightarrow> uint (w + 1) = uint w + 1" for w :: u64
  by (simp add: i64_max_def uint_word_ariths take_bit_int_eq_self)

section \<open>Decimal rendering\<close>

text \<open>\<open>Display\<close> of unsigned and signed integers.\<close>

definition digit_char :: "nat \<Rightarrow> char" where
  "digit_char d = char_of (48 + d)"

fun show_nat :: "nat \<Rightarrow> string" where
  "show_nat n = (if n < 10 then [digit_char n] else show_nat (n div 10) @ [digit_char (n mod 10)])"

declare show_nat.simps [simp del]

definition show_int :: "int \<Rightarrow> string" where
  "show_int i = (if i < 0 then ''-'' @ show_nat (nat (- i)) else show_nat (nat i))"

definition show_u64 :: "u64 \<Rightarrow> string" where
  "show_u64 w = show_nat (unat w)"

lemma show_nat_nonempty [simp]: "show_nat n \<noteq> []"
  by (subst show_nat.simps) simp

lemma show_int_nonempty [simp]: "show_int i \<noteq> []"
  by (simp add: show_int_def)

end
