(* ===== verification/Rust_Text.thy ===== *)
theory Rust_Text
  imports Prelude "HOL-Library.Sublist" "HOL-Library.List_Lexorder" "HOL-Library.Char_ord"
begin

text \<open>
  Rust's \<open>String\<close> and \<open>str\<close>: a \<open>string\<close> is the UTF-8 byte sequence, one \<open>char\<close> per byte, so
  \<open>length\<close> is \<open>len()\<close>, the lexicographic order is \<open>Ord for str\<close> and also SQLite's \<open>BINARY\<close>
  collation. Modelled here: \<open>trim\<close> over Unicode white space, the check "non-empty with no
  surrounding white space" used all over the code, character boundaries, truncation at a boundary,
  \<open>chars().count()\<close> and \<open>to_ascii_lowercase\<close>.
\<close>

section \<open>White space and trim\<close>

text \<open>
  The characters with the Unicode property \<open>White_Space\<close>, as UTF-8: U+0009 to U+000D, U+0020,
  U+0085, U+00A0, U+1680, U+2000 to U+200A, U+2028, U+2029, U+202F, U+205F and U+3000.
\<close>

definition white_space :: "string list" where
  "white_space =
     [[CHR 0x09], [CHR 0x0A], [CHR 0x0B], [CHR 0x0C], [CHR 0x0D], [CHR 0x20],
      [CHR 0xC2, CHR 0x85], [CHR 0xC2, CHR 0xA0], [CHR 0xE1, CHR 0x9A, CHR 0x80],
      [CHR 0xE2, CHR 0x80, CHR 0x80], [CHR 0xE2, CHR 0x80, CHR 0x81], [CHR 0xE2, CHR 0x80, CHR 0x82],
      [CHR 0xE2, CHR 0x80, CHR 0x83], [CHR 0xE2, CHR 0x80, CHR 0x84], [CHR 0xE2, CHR 0x80, CHR 0x85],
      [CHR 0xE2, CHR 0x80, CHR 0x86], [CHR 0xE2, CHR 0x80, CHR 0x87], [CHR 0xE2, CHR 0x80, CHR 0x88],
      [CHR 0xE2, CHR 0x80, CHR 0x89], [CHR 0xE2, CHR 0x80, CHR 0x8A], [CHR 0xE2, CHR 0x80, CHR 0xA8],
      [CHR 0xE2, CHR 0x80, CHR 0xA9], [CHR 0xE2, CHR 0x80, CHR 0xAF], [CHR 0xE2, CHR 0x81, CHR 0x9F],
      [CHR 0xE3, CHR 0x80, CHR 0x80]]"

text \<open>Drop the words of \<open>ws\<close> from the front for as long as one of them is a prefix.\<close>

function strip_front :: "string list \<Rightarrow> string \<Rightarrow> string" where
  "strip_front ws s =
     (case find (\<lambda>w. w \<noteq> [] \<and> prefix w s) ws of
        None \<Rightarrow> s
      | Some w \<Rightarrow> strip_front ws (drop (length w) s))"
  by pat_completeness auto
termination
proof (relation "measure (length \<circ> snd)")
  fix ws s w
  assume "find (\<lambda>w. w \<noteq> [] \<and> prefix w s) ws = Some w"
  then have "w \<noteq> []" "prefix w s" by (auto simp: find_Some_iff)
  then show "((ws, drop (length w) s), (ws, s)) \<in> measure (length \<circ> snd)"
    by (auto simp: prefix_def)
qed simp

declare strip_front.simps [simp del]

definition trim_start :: "string \<Rightarrow> string" where
  "trim_start s = strip_front white_space s"

definition trim_end :: "string \<Rightarrow> string" where
  "trim_end s = rev (strip_front (map rev white_space) (rev s))"

definition trim :: "string \<Rightarrow> string" where
  "trim s = trim_end (trim_start s)"

text \<open>\<open>value.is_empty() || value.trim() != value\<close> is the guard of every identifier and detail.\<close>

definition unpadded :: "string \<Rightarrow> bool" where
  "unpadded s \<longleftrightarrow> s \<noteq> [] \<and> trim s = s"

definition starts_with_any :: "string list \<Rightarrow> string \<Rightarrow> bool" where
  "starts_with_any ws s \<longleftrightarrow> (\<exists>w \<in> set ws. w \<noteq> [] \<and> prefix w s)"

lemma find_prefix_None: "find (\<lambda>w. w \<noteq> [] \<and> prefix w s) ws = None \<longleftrightarrow> \<not> starts_with_any ws s"
  by (auto simp: find_None_iff starts_with_any_def)

lemma strip_front_id: "\<not> starts_with_any ws s \<Longrightarrow> strip_front ws s = s"
  by (subst strip_front.simps) (simp add: find_prefix_None [symmetric])

lemma strip_front_not_starts: "\<not> starts_with_any ws (strip_front ws s)"
proof (induction ws s rule: strip_front.induct)
  case (1 ws s)
  show ?case
  proof (cases "find (\<lambda>w. w \<noteq> [] \<and> prefix w s) ws")
    case None
    then show ?thesis by (simp add: strip_front_id find_prefix_None)
  next
    case (Some w)
    with 1 show ?thesis by (subst strip_front.simps) simp
  qed
qed

lemma strip_front_suffix: "suffix (strip_front ws s) s"
proof (induction ws s rule: strip_front.induct)
  case (1 ws s)
  show ?case
  proof (cases "find (\<lambda>w. w \<noteq> [] \<and> prefix w s) ws")
    case None
    then show ?thesis by (subst strip_front.simps) simp
  next
    case (Some w)
    with 1 have "suffix (strip_front ws (drop (length w) s)) (drop (length w) s)" by simp
    with Some show ?thesis
      by (subst strip_front.simps) (auto intro: suffix_order.trans suffix_drop)
  qed
qed

lemma strip_front_fixed: "strip_front ws s = s \<longleftrightarrow> \<not> starts_with_any ws s"
  using strip_front_not_starts [of ws s] strip_front_id [of ws s] by auto

lemma starts_with_any_prefix: "starts_with_any ws s \<Longrightarrow> prefix s t \<Longrightarrow> starts_with_any ws t"
  by (auto simp: starts_with_any_def intro: prefix_order.trans)

lemma trim_end_prefix: "prefix (trim_end s) s"
  using strip_front_suffix [of "map rev white_space" "rev s"]
  by (auto simp: trim_end_def suffix_def prefix_def) (metis rev_append rev_rev_ident)

lemma trim_not_starts: "\<not> starts_with_any white_space (trim s)"
  using strip_front_not_starts [of white_space s] trim_end_prefix [of "trim_start s"]
  by (auto simp: trim_def trim_start_def dest: starts_with_any_prefix)

lemma trim_not_ends: "\<not> starts_with_any (map rev white_space) (rev (trim s))"
  by (simp add: trim_def trim_end_def strip_front_not_starts)

lemma trim_fixed_iff:
  "trim s = s \<longleftrightarrow> \<not> starts_with_any white_space s \<and> \<not> starts_with_any (map rev white_space) (rev s)"
  using trim_not_starts [of s] trim_not_ends [of s]
  by (auto simp: trim_def trim_end_def trim_start_def strip_front_id rev_swap)

lemma trim_idem [simp]: "trim (trim s) = trim s"
  by (simp add: trim_fixed_iff trim_not_starts trim_not_ends)

lemma trim_Nil [simp]: "trim [] = []"
  by (simp add: trim_fixed_iff starts_with_any_def)

lemma unpadded_trim_nonempty: "unpadded s \<Longrightarrow> trim s \<noteq> []"
  by (simp add: unpadded_def)

text \<open>
  A string whose first and last byte are printable ASCII is not padded: what the witnesses and
  the literals of the code need.
\<close>

definition plain_char :: "char \<Rightarrow> bool" where
  "plain_char c \<longleftrightarrow> 33 \<le> (of_char c :: nat) \<and> (of_char c :: nat) \<le> 126"

lemma white_space_no_plain_hd: "w \<in> set white_space \<Longrightarrow> \<not> plain_char (hd w) \<and> w \<noteq> []"
  by (auto simp: white_space_def plain_char_def)

lemma white_space_no_plain_last: "w \<in> set white_space \<Longrightarrow> \<not> plain_char (last w)"
  by (auto simp: white_space_def plain_char_def)

lemma unpadded_plain:
  assumes "s \<noteq> []" "plain_char (hd s)" "plain_char (last s)"
  shows "unpadded s"
proof -
  have "\<not> starts_with_any white_space s"
    using assms white_space_no_plain_hd by (fastforce simp: starts_with_any_def prefix_def)
  moreover have "\<not> starts_with_any (map rev white_space) (rev s)"
  proof
    assume "starts_with_any (map rev white_space) (rev s)"
    then obtain w where w: "w \<in> set white_space" "prefix (rev w) (rev s)"
      by (auto simp: starts_with_any_def)
    then have "suffix w s" by (simp add: suffix_to_prefix)
    moreover have "w \<noteq> []" using w(1) white_space_no_plain_hd by blast
    ultimately have "last s = last w" by (auto simp: suffix_def)
    with assms(3) white_space_no_plain_last w(1) show False by fastforce
  qed
  ultimately show ?thesis using assms(1) by (simp add: unpadded_def trim_fixed_iff)
qed

lemma unpadded_append:
  assumes "unpadded (a # s)" "plain_char a" "t \<noteq> []" "plain_char (last t)"
  shows "unpadded (a # s @ t)"
  using assms by (intro unpadded_plain) auto

section \<open>Character boundaries\<close>

text \<open>
  \<open>str::is_char_boundary\<close>: the ends, and every byte that is not a UTF-8 continuation byte.
  \<open>boundary_below\<close> is the loop \<open>while !value.is_char_boundary(end) { end -= 1; }\<close>.
\<close>

definition continuation_byte :: "char \<Rightarrow> bool" where
  "continuation_byte c \<longleftrightarrow> 128 \<le> (of_char c :: nat) \<and> (of_char c :: nat) < 192"

definition is_char_boundary :: "string \<Rightarrow> nat \<Rightarrow> bool" where
  "is_char_boundary s i \<longleftrightarrow>
     i = 0 \<or> i = length s \<or> (i < length s \<and> \<not> continuation_byte (s ! i))"

fun boundary_below :: "string \<Rightarrow> nat \<Rightarrow> nat" where
  "boundary_below s 0 = 0"
| "boundary_below s (Suc n) = (if is_char_boundary s (Suc n) then Suc n else boundary_below s n)"

lemma boundary_below_le: "boundary_below s n \<le> n"
  by (induction n) auto

lemma boundary_below_boundary: "is_char_boundary s (boundary_below s n)"
  by (induction n) (auto simp: is_char_boundary_def)

lemma boundary_below_greatest:
  "is_char_boundary s k \<Longrightarrow> k \<le> n \<Longrightarrow> k \<le> boundary_below s n"
proof (induction n)
  case (Suc n)
  then show ?case by (cases "k = Suc n") (auto simp: le_Suc_eq)
qed simp

definition char_count :: "string \<Rightarrow> nat" where
  "char_count s = length (filter (\<lambda>c. \<not> continuation_byte c) s)"

lemma char_count_le: "char_count s \<le> length s"
  by (simp add: char_count_def)

definition to_ascii_lowercase :: "string \<Rightarrow> string" where
  "to_ascii_lowercase s =
     map (\<lambda>c. let n = (of_char c :: nat) in if 65 \<le> n \<and> n \<le> 90 then char_of (n + 32) else c) s"

end
