(* ===== verification/Json.thy ===== *)
theory Json
  imports Rust_Text
begin

text \<open>
  \<open>BTreeMap\<close> as a list of pairs in strictly increasing key order, and \<open>serde_json::Value\<close>. The
  crate is built without \<open>preserve_order\<close>, so the \<open>Map\<close> of a JSON object is a \<open>BTreeMap\<close> too,
  and \<open>json!\<close> builds an object by inserting its pairs one after the other.
\<close>

section \<open>BTreeMap\<close>

type_synonym ('k, 'v) btree = "('k \<times> 'v) list"

definition btree_inv :: "('k::linorder, 'v) btree \<Rightarrow> bool" where
  "btree_inv m \<longleftrightarrow> sorted_wrt (<) (map fst m)"

fun btree_insert :: "'k::linorder \<Rightarrow> 'v \<Rightarrow> ('k, 'v) btree \<Rightarrow> ('k, 'v) btree" where
  "btree_insert k v [] = [(k, v)]"
| "btree_insert k v ((k', v') # m) =
     (if k < k' then (k, v) # (k', v') # m
      else if k = k' then (k, v) # m
      else (k', v') # btree_insert k v m)"

definition btree_get :: "('k, 'v) btree \<Rightarrow> 'k \<Rightarrow> 'v option" where
  "btree_get m k = map_of m k"

definition btree_of :: "('k::linorder \<times> 'v) list \<Rightarrow> ('k, 'v) btree" where
  "btree_of kvs = foldl (\<lambda>m (k, v). btree_insert k v m) [] kvs"

lemma btree_inv_Nil [simp]: "btree_inv []"
  by (simp add: btree_inv_def)

lemma btree_inv_Cons [simp]:
  "btree_inv ((k, v) # m) \<longleftrightarrow> (\<forall>k' \<in> fst ` set m. k < k') \<and> btree_inv m"
  by (simp add: btree_inv_def)

lemma btree_insert_keys: "fst ` set (btree_insert k v m) = insert k (fst ` set m)"
  by (induction k v m rule: btree_insert.induct) auto

lemma btree_insert_inv: "btree_inv m \<Longrightarrow> btree_inv (btree_insert k v m)"
  by (induction k v m rule: btree_insert.induct) (auto simp: btree_insert_keys)

lemma btree_get_insert: "btree_get (btree_insert k v m) j = (if j = k then Some v else btree_get m j)"
  by (induction k v m rule: btree_insert.induct) (auto simp: btree_get_def)

lemma btree_inv_distinct: "btree_inv m \<Longrightarrow> distinct (map fst m)"
  by (simp add: btree_inv_def strict_sorted_iff)

lemma btree_of_inv: "btree_inv (btree_of kvs)"
proof -
  have "btree_inv m \<Longrightarrow> btree_inv (foldl (\<lambda>m (k, v). btree_insert k v m) m kvs)" for m
    by (induction kvs arbitrary: m) (auto simp: btree_insert_inv)
  then show ?thesis by (simp add: btree_of_def)
qed

lemma btree_get_of: "btree_get (btree_of kvs) k = map_of (rev kvs) k"
proof -
  have "btree_get (foldl (\<lambda>m (k, v). btree_insert k v m) m kvs) k
      = (case map_of (rev kvs) k of None \<Rightarrow> btree_get m k | Some v \<Rightarrow> Some v)" for m
    by (induction kvs arbitrary: m) (auto simp: btree_get_insert map_add_def split: option.splits)
  then show ?thesis by (simp add: btree_of_def btree_get_def split: option.splits)
qed

text \<open>The interface a client of an ordered map relies on, with what repeated insertion gives.\<close>

locale ordered_map =
  fixes ins :: "'k \<Rightarrow> 'v \<Rightarrow> 'm \<Rightarrow> 'm"
    and get :: "'m \<Rightarrow> 'k \<Rightarrow> 'v option"
    and keys :: "'m \<Rightarrow> 'k list"
    and invar :: "'m \<Rightarrow> bool"
  assumes get_ins: "get (ins k v m) j = (if j = k then Some v else get m j)"
    and keys_ins: "set (keys (ins k v m)) = insert k (set (keys m))"
    and invar_ins: "invar m \<Longrightarrow> invar (ins k v m)"
    and keys_distinct: "invar m \<Longrightarrow> distinct (keys m)"
begin

lemma ins_many_keys: "set (keys (fold (\<lambda>(k, v). ins k v) kvs m)) = fst ` set kvs \<union> set (keys m)"
  by (induction kvs arbitrary: m) (auto simp: keys_ins)

lemma ins_many_invar: "invar m \<Longrightarrow> invar (fold (\<lambda>(k, v). ins k v) kvs m)"
  by (induction kvs arbitrary: m) (auto simp: invar_ins)

lemma ins_new_length: "invar m \<Longrightarrow> k \<notin> set (keys m) \<Longrightarrow> length (keys (ins k v m)) = Suc (length (keys m))"
  using keys_distinct [of m] keys_distinct [of "ins k v m"] keys_ins [of k v m] invar_ins [of m k v]
  by (metis List.finite_set card_insert_disjoint distinct_card)

end

interpretation btree: ordered_map btree_insert btree_get "map fst" btree_inv
  by unfold_locales (auto simp: btree_get_insert btree_insert_keys btree_insert_inv btree_inv_distinct)

section \<open>JSON values\<close>

text \<open>
  \<open>serde_json::Value\<close>. A \<open>Number\<close> is an unsigned, a negative or a floating-point number (the
  last by its bits, the code never computes with one).
\<close>

datatype json_number = PosInt u64 | NegInt u64 | Float u64

datatype json =
    JNull
  | JBool bool
  | JNumber json_number
  | JString string
  | JArray "json list"
  | JObject "(string, json) btree"

definition jobject :: "(string \<times> json) list \<Rightarrow> json" where
  "jobject kvs = JObject (btree_of kvs)"

definition jnat :: "nat \<Rightarrow> json" where
  "jnat n = JNumber (PosInt (of_nat n))"

definition ju64 :: "u64 \<Rightarrow> json" where
  "ju64 w = JNumber (PosInt w)"

definition jopt :: "('a \<Rightarrow> json) \<Rightarrow> 'a option \<Rightarrow> json" where
  "jopt f m = (case m of None \<Rightarrow> JNull | Some x \<Rightarrow> f x)"

text \<open>
  A field with \<open>skip_serializing_if = "Option::is_none"\<close> contributes no pair when it is absent.
\<close>

definition jskip :: "string \<Rightarrow> ('a \<Rightarrow> json) \<Rightarrow> 'a option \<Rightarrow> (string \<times> json) list" where
  "jskip k f m = (case m of None \<Rightarrow> [] | Some x \<Rightarrow> [(k, f x)])"

text \<open>\<open>Value::get\<close> with a string key, \<open>as_str\<close>, \<open>as_object\<close>, \<open>as_u64\<close>.\<close>

fun json_get :: "json \<Rightarrow> string \<Rightarrow> json option" where
  "json_get (JObject m) k = btree_get m k"
| "json_get _ k = None"

fun json_as_str :: "json \<Rightarrow> string option" where
  "json_as_str (JString s) = Some s"
| "json_as_str _ = None"

fun json_as_object :: "json \<Rightarrow> (string, json) btree option" where
  "json_as_object (JObject m) = Some m"
| "json_as_object _ = None"

fun json_as_u64 :: "json \<Rightarrow> u64 option" where
  "json_as_u64 (JNumber (PosInt w)) = Some w"
| "json_as_u64 _ = None"

lemma jobject_get: "json_get (jobject kvs) k = map_of (rev kvs) k"
  by (simp add: jobject_def btree_get_of)

end
