(* ===== verification/Domain_Ids.thy ===== *)
theory Domain_Ids
  imports Rust_Text
begin

text \<open>
  \<open>crates/domain/src/id.rs\<close> and the identity types of \<open>prompt.rs\<close>: opaque identifiers, authority
  counters, engine stamps, digests and prompt manifests, with the validation each constructor runs.
  In Rust a field is private and \<open>Deserialize\<close> goes through \<open>new\<close>, so every value in the program
  was accepted by \<open>new\<close>: \<open>*_valid\<close> states that, and the stores keep it as an invariant of their rows.
\<close>

section \<open>Opaque identifiers\<close>

datatype id_error = InvalidOpaqueId string | ZeroAuthorityCounter string

text \<open>\<open>Display for IdError\<close>, from the \<open>#[error]\<close> attributes.\<close>

fun id_error_text :: "id_error \<Rightarrow> string" where
  "id_error_text (InvalidOpaqueId kind) = kind @ '' must be non-empty and have no surrounding whitespace''"
| "id_error_text (ZeroAuthorityCounter kind) = kind @ '' must be greater than zero''"

text \<open>The body the macro \<open>opaque_id!\<close> gives to every \<open>new\<close>.\<close>

definition opaque_id_check :: "string \<Rightarrow> string \<Rightarrow> id_error + string" where
  "opaque_id_check kind value =
     (if value = [] \<or> trim value \<noteq> value then Err (InvalidOpaqueId kind) else Ok value)"

datatype session_id = SessionId (session_id_str: string)
datatype lineage_id = LineageId (lineage_id_str: string)
datatype foreground_turn_id = ForegroundTurnId (foreground_turn_id_str: string)
datatype tool_call_id = ToolCallId (tool_call_id_str: string)
datatype invocation_id = InvocationId (invocation_id_str: string)
datatype delegation_id = DelegationId (delegation_id_str: string)
datatype delegation_worker_id = DelegationWorkerId (delegation_worker_id_str: string)
datatype completion_event_id = CompletionEventId (completion_event_id_str: string)
datatype delivery_claim_id = DeliveryClaimId (delivery_claim_id_str: string)

definition opaque_id_new :: "string \<Rightarrow> (string \<Rightarrow> 'i) \<Rightarrow> string \<Rightarrow> id_error + 'i" where
  "opaque_id_new kind mk value = and_then (opaque_id_check kind value) (\<lambda>v. Ok (mk v))"

definition session_id_new :: "string \<Rightarrow> id_error + session_id" where
  "session_id_new = opaque_id_new ''session id'' SessionId"

definition lineage_id_new :: "string \<Rightarrow> id_error + lineage_id" where
  "lineage_id_new = opaque_id_new ''lineage id'' LineageId"

definition foreground_turn_id_new :: "string \<Rightarrow> id_error + foreground_turn_id" where
  "foreground_turn_id_new = opaque_id_new ''foreground turn id'' ForegroundTurnId"

definition tool_call_id_new :: "string \<Rightarrow> id_error + tool_call_id" where
  "tool_call_id_new = opaque_id_new ''tool call id'' ToolCallId"

definition invocation_id_new :: "string \<Rightarrow> id_error + invocation_id" where
  "invocation_id_new = opaque_id_new ''invocation id'' InvocationId"

definition delegation_id_new :: "string \<Rightarrow> id_error + delegation_id" where
  "delegation_id_new = opaque_id_new ''delegation id'' DelegationId"

definition delegation_worker_id_new :: "string \<Rightarrow> id_error + delegation_worker_id" where
  "delegation_worker_id_new = opaque_id_new ''delegation worker id'' DelegationWorkerId"

definition completion_event_id_new :: "string \<Rightarrow> id_error + completion_event_id" where
  "completion_event_id_new = opaque_id_new ''completion event id'' CompletionEventId"

definition delivery_claim_id_new :: "string \<Rightarrow> id_error + delivery_claim_id" where
  "delivery_claim_id_new = opaque_id_new ''delivery claim id'' DeliveryClaimId"

lemmas id_new_defs =
  session_id_new_def lineage_id_new_def foreground_turn_id_new_def tool_call_id_new_def
  invocation_id_new_def delegation_id_new_def delegation_worker_id_new_def
  completion_event_id_new_def delivery_claim_id_new_def

lemma opaque_id_new_eq_Inr: "opaque_id_new kind mk v = Inr i \<longleftrightarrow> unpadded v \<and> i = mk v"
  by (auto simp: opaque_id_new_def opaque_id_check_def unpadded_def split: if_splits)

lemma opaque_id_new_Inr: "unpadded v \<Longrightarrow> opaque_id_new kind mk v = Inr (mk v)"
  by (simp add: opaque_id_new_eq_Inr)

lemma opaque_id_new_Inl: "\<not> unpadded v \<Longrightarrow> opaque_id_new kind mk v = Inl (InvalidOpaqueId kind)"
  by (auto simp: opaque_id_new_def opaque_id_check_def unpadded_def)

lemma id_new_Inr [simp]:
  "session_id_new v = Inr si \<longleftrightarrow> unpadded v \<and> si = SessionId v"
  "lineage_id_new v = Inr li \<longleftrightarrow> unpadded v \<and> li = LineageId v"
  "foreground_turn_id_new v = Inr fi \<longleftrightarrow> unpadded v \<and> fi = ForegroundTurnId v"
  "tool_call_id_new v = Inr ti \<longleftrightarrow> unpadded v \<and> ti = ToolCallId v"
  "invocation_id_new v = Inr ii \<longleftrightarrow> unpadded v \<and> ii = InvocationId v"
  "delegation_id_new v = Inr di \<longleftrightarrow> unpadded v \<and> di = DelegationId v"
  "delegation_worker_id_new v = Inr wi \<longleftrightarrow> unpadded v \<and> wi = DelegationWorkerId v"
  "completion_event_id_new v = Inr ci \<longleftrightarrow> unpadded v \<and> ci = CompletionEventId v"
  "delivery_claim_id_new v = Inr dc \<longleftrightarrow> unpadded v \<and> dc = DeliveryClaimId v"
  by (simp_all add: id_new_defs opaque_id_new_eq_Inr)

lemma id_new_ok:
  "unpadded v \<Longrightarrow> session_id_new v = Inr (SessionId v)"
  "unpadded v \<Longrightarrow> lineage_id_new v = Inr (LineageId v)"
  "unpadded v \<Longrightarrow> foreground_turn_id_new v = Inr (ForegroundTurnId v)"
  "unpadded v \<Longrightarrow> tool_call_id_new v = Inr (ToolCallId v)"
  "unpadded v \<Longrightarrow> invocation_id_new v = Inr (InvocationId v)"
  "unpadded v \<Longrightarrow> delegation_id_new v = Inr (DelegationId v)"
  "unpadded v \<Longrightarrow> delegation_worker_id_new v = Inr (DelegationWorkerId v)"
  "unpadded v \<Longrightarrow> completion_event_id_new v = Inr (CompletionEventId v)"
  "unpadded v \<Longrightarrow> delivery_claim_id_new v = Inr (DeliveryClaimId v)"
  by simp_all

section \<open>Authority counters\<close>

datatype owner_generation = OwnerGeneration (owner_generation_get: u64)
datatype fencing_token = FencingToken (fencing_token_get: u64)

definition owner_generation_new :: "u64 \<Rightarrow> id_error + owner_generation" where
  "owner_generation_new value =
     (if value = 0 then Err (ZeroAuthorityCounter ''owner generation'') else Ok (OwnerGeneration value))"

definition fencing_token_new :: "u64 \<Rightarrow> id_error + fencing_token" where
  "fencing_token_new value =
     (if value = 0 then Err (ZeroAuthorityCounter ''fencing token'') else Ok (FencingToken value))"

lemma owner_generation_new_Inr [simp]:
  "owner_generation_new w = Inr g \<longleftrightarrow> w \<noteq> 0 \<and> g = OwnerGeneration w"
  by (auto simp: owner_generation_new_def)

lemma fencing_token_new_Inr [simp]:
  "fencing_token_new w = Inr t \<longleftrightarrow> w \<noteq> 0 \<and> t = FencingToken w"
  by (auto simp: fencing_token_new_def)

text \<open>The derived \<open>Ord\<close> of the counters is the order of the numbers.\<close>

instantiation owner_generation :: linorder
begin

definition less_eq_owner_generation :: "owner_generation \<Rightarrow> owner_generation \<Rightarrow> bool" where
  "less_eq_owner_generation a b \<longleftrightarrow> owner_generation_get a \<le> owner_generation_get b"

definition less_owner_generation :: "owner_generation \<Rightarrow> owner_generation \<Rightarrow> bool" where
  "less_owner_generation a b \<longleftrightarrow> owner_generation_get a < owner_generation_get b"

instance
  by standard (auto simp: less_eq_owner_generation_def less_owner_generation_def owner_generation.expand)

end

instantiation fencing_token :: linorder
begin

definition less_eq_fencing_token :: "fencing_token \<Rightarrow> fencing_token \<Rightarrow> bool" where
  "less_eq_fencing_token a b \<longleftrightarrow> fencing_token_get a \<le> fencing_token_get b"

definition less_fencing_token :: "fencing_token \<Rightarrow> fencing_token \<Rightarrow> bool" where
  "less_fencing_token a b \<longleftrightarrow> fencing_token_get a < fencing_token_get b"

instance
  by standard (auto simp: less_eq_fencing_token_def less_fencing_token_def fencing_token.expand)

end

section \<open>Prompt manifests\<close>

datatype prompt_manifest_error = ZeroRevision | InvalidEngineId | InvalidDigest

fun prompt_manifest_error_text :: "prompt_manifest_error \<Rightarrow> string" where
  "prompt_manifest_error_text ZeroRevision = ''prompt manifest revision must be greater than zero''"
| "prompt_manifest_error_text InvalidEngineId =
     ''engine id must be non-empty and have no surrounding whitespace''"
| "prompt_manifest_error_text InvalidDigest =
     ''manifest digest must be a lowercase SHA-256 hex string''"

datatype engine_id = EngineId (engine_id_str: string)
datatype manifest_digest = ManifestDigest (manifest_digest_str: string)

definition engine_id_new :: "string \<Rightarrow> prompt_manifest_error + engine_id" where
  "engine_id_new value =
     (if value = [] \<or> trim value \<noteq> value then Err InvalidEngineId else Ok (EngineId value))"

definition lower_hex_digit :: "char \<Rightarrow> bool" where
  "lower_hex_digit c \<longleftrightarrow>
     (let n = (of_char c :: nat) in (48 \<le> n \<and> n \<le> 57) \<or> (97 \<le> n \<and> n \<le> 102))"

definition digest_ok :: "string \<Rightarrow> bool" where
  "digest_ok value \<longleftrightarrow> length value = 64 \<and> list_all lower_hex_digit value"

definition manifest_digest_new :: "string \<Rightarrow> prompt_manifest_error + manifest_digest" where
  "manifest_digest_new value =
     (if length value \<noteq> 64 \<or> \<not> list_all lower_hex_digit value then Err InvalidDigest
      else Ok (ManifestDigest value))"

record prompt_manifest =
  pm_revision :: u64
  pm_engine :: engine_id
  pm_system_prompt :: manifest_digest
  pm_tool_catalog :: manifest_digest

definition prompt_manifest_new ::
  "u64 \<Rightarrow> engine_id \<Rightarrow> manifest_digest \<Rightarrow> manifest_digest \<Rightarrow> prompt_manifest_error + prompt_manifest"
where
  "prompt_manifest_new revision engine system_prompt tool_catalog =
     (if revision = 0 then Err ZeroRevision
      else Ok \<lparr>pm_revision = revision, pm_engine = engine,
               pm_system_prompt = system_prompt, pm_tool_catalog = tool_catalog\<rparr>)"

lemma engine_id_new_Inr [simp]: "engine_id_new v = Inr e \<longleftrightarrow> unpadded v \<and> e = EngineId v"
  by (auto simp: engine_id_new_def unpadded_def)

lemma manifest_digest_new_Inr [simp]:
  "manifest_digest_new v = Inr d \<longleftrightarrow> digest_ok v \<and> d = ManifestDigest v"
  by (auto simp: manifest_digest_new_def digest_ok_def)

lemma prompt_manifest_new_Inr [simp]:
  "prompt_manifest_new r e s t = Inr m \<longleftrightarrow>
     r \<noteq> 0 \<and> m = \<lparr>pm_revision = r, pm_engine = e, pm_system_prompt = s, pm_tool_catalog = t\<rparr>"
  by (auto simp: prompt_manifest_new_def)

text \<open>A manifest every part of which was made by its constructor.\<close>

definition manifest_valid :: "prompt_manifest \<Rightarrow> bool" where
  "manifest_valid m \<longleftrightarrow> pm_revision m \<noteq> 0 \<and> unpadded (engine_id_str (pm_engine m))
     \<and> digest_ok (manifest_digest_str (pm_system_prompt m))
     \<and> digest_ok (manifest_digest_str (pm_tool_catalog m))"

end
