(* ===== verification/Domain_Conversation.thy ===== *)
theory Domain_Conversation
  imports Json Domain_Ids
begin

text \<open>
  \<open>crates/domain/src/conversation.rs\<close> and \<open>effect.rs\<close>: semantic messages, the validation state
  machine of \<open>Conversation::new\<close>, approval records, planned calls and their terminals.
  Proved here: the state machine accepts exactly the conversations of a grammar of turns, an error
  names the first message that is not legal, and validation composes over concatenation.
\<close>

section \<open>Messages\<close>

text \<open>\<open>ToolArguments(BTreeMap<String, Value>)\<close>.\<close>

type_synonym tool_arguments = "(string, json) btree"

record tool_call =
  tc_id :: tool_call_id
  tc_name :: string
  tc_arguments :: tool_arguments

datatype tool_result_status = Succeeded | Failed | Cancelled | Rejected | OutcomeUnknown | Observed

record tool_result =
  tr_call_id :: tool_call_id
  tr_status :: tool_result_status
  tr_content :: string
  tr_execution_key :: "string option"

datatype semantic_message =
    User (user_content: string) (user_display: "string option")
  | AssistantToolRequest (request_content: "string option") (request_calls: "tool_call list")
      (request_reasoning: "string option") (request_replay: "json option")
  | ToolResultBatch (batch_results: "tool_result list")
  | Assistant (assistant_content: string) (assistant_reasoning: "string option")
      (assistant_replay: "json option")

datatype conversation_error =
    UnexpectedMessage nat string string
  | EmptyToolRequest nat
  | DuplicateToolCall nat tool_call_id
  | EmptyToolName nat
  | ToolResultOrderMismatch nat
  | MissingToolResultBatch

fun conversation_error_text :: "conversation_error \<Rightarrow> string" where
  "conversation_error_text (UnexpectedMessage index expected actual) =
     ''message '' @ show_nat index @ '' has kind '' @ actual @ ''; expected '' @ expected"
| "conversation_error_text (EmptyToolRequest index) =
     ''assistant tool request at message '' @ show_nat index @ '' contains no calls''"
| "conversation_error_text (DuplicateToolCall index call_id) =
     ''assistant tool request at message '' @ show_nat index @ '' contains duplicate call id ''
       @ tool_call_id_str call_id"
| "conversation_error_text (EmptyToolName index) =
     ''assistant tool request at message '' @ show_nat index @ '' contains an empty tool name''"
| "conversation_error_text (ToolResultOrderMismatch index) =
     ''tool result batch at message '' @ show_nat index @ '' does not match assistant call order''"
| "conversation_error_text MissingToolResultBatch =
     ''conversation ends with an unresolved assistant tool request''"

section \<open>Validation\<close>

datatype validation_state =
    Start
  | AwaitingAssistant
  | AwaitingToolResults "tool_call_id list"
  | AfterToolResults
  | AfterAssistant

fun message_kind :: "semantic_message \<Rightarrow> string" where
  "message_kind (User _ _) = ''user''"
| "message_kind (AssistantToolRequest _ _ _ _) = ''assistant_tool_request''"
| "message_kind (ToolResultBatch _) = ''tool_result_batch''"
| "message_kind (Assistant _ _ _) = ''assistant''"

fun expected_message :: "validation_state \<Rightarrow> string" where
  "expected_message Start = ''user''"
| "expected_message AfterAssistant = ''user''"
| "expected_message AwaitingAssistant = ''assistant or assistant_tool_request''"
| "expected_message AfterToolResults = ''assistant or assistant_tool_request''"
| "expected_message (AwaitingToolResults _) = ''tool_result_batch''"

text \<open>The loop of \<open>validate_calls\<close>, with the set of the identities seen so far.\<close>

fun validate_calls_loop ::
  "nat \<Rightarrow> tool_call_id set \<Rightarrow> tool_call list \<Rightarrow> conversation_error + unit" where
  "validate_calls_loop index seen [] = Ok ()"
| "validate_calls_loop index seen (call # calls) =
     (if tc_name call = [] then Err (EmptyToolName index)
      else if tc_id call \<in> seen then Err (DuplicateToolCall index (tc_id call))
      else validate_calls_loop index (insert (tc_id call) seen) calls)"

definition validate_calls :: "nat \<Rightarrow> tool_call list \<Rightarrow> conversation_error + unit" where
  "validate_calls index calls =
     (if calls = [] then Err (EmptyToolRequest index) else validate_calls_loop index {} calls)"

fun validation_step ::
  "nat \<Rightarrow> validation_state \<Rightarrow> semantic_message \<Rightarrow> conversation_error + validation_state" where
  "validation_step index Start (User _ _) = Ok AwaitingAssistant"
| "validation_step index AfterAssistant (User _ _) = Ok AwaitingAssistant"
| "validation_step index AwaitingAssistant (Assistant _ _ _) = Ok AfterAssistant"
| "validation_step index AfterToolResults (Assistant _ _ _) = Ok AfterAssistant"
| "validation_step index AwaitingAssistant (AssistantToolRequest _ calls _ _) =
     and_then (validate_calls index calls) (\<lambda>_. Ok (AwaitingToolResults (map tc_id calls)))"
| "validation_step index AfterToolResults (AssistantToolRequest _ calls _ _) =
     and_then (validate_calls index calls) (\<lambda>_. Ok (AwaitingToolResults (map tc_id calls)))"
| "validation_step index (AwaitingToolResults expected) (ToolResultBatch results) =
     (if map tr_call_id results \<noteq> expected then Err (ToolResultOrderMismatch index)
      else Ok AfterToolResults)"
| "validation_step index current actual =
     Err (UnexpectedMessage index (expected_message current) (message_kind actual))"

fun validation_run ::
  "nat \<Rightarrow> validation_state \<Rightarrow> semantic_message list \<Rightarrow> conversation_error + validation_state" where
  "validation_run index state [] = Ok state"
| "validation_run index state (message # messages) =
     and_then (validation_step index state message)
       (\<lambda>state'. validation_run (Suc index) state' messages)"

fun awaits_results :: "validation_state \<Rightarrow> bool" where
  "awaits_results (AwaitingToolResults _) = True"
| "awaits_results _ = False"

definition conversation_new :: "semantic_message list \<Rightarrow> conversation_error + semantic_message list" where
  "conversation_new messages =
     and_then (validation_run 0 Start messages)
       (\<lambda>state. if awaits_results state then Err MissingToolResultBatch else Ok messages)"

section \<open>The grammar of conversations\<close>

text \<open>
  A conversation is a sequence of turns: a user message, any number of tool rounds (a request and
  the batch that answers it in call order), and an assistant message. The last turn may stop after
  its user message or after a complete round.
\<close>

definition calls_legal :: "tool_call list \<Rightarrow> bool" where
  "calls_legal calls \<longleftrightarrow>
     calls \<noteq> [] \<and> distinct (map tc_id calls) \<and> list_all (\<lambda>c. tc_name c \<noteq> []) calls"

inductive legal :: "semantic_message list \<Rightarrow> bool" and in_turn :: "semantic_message list \<Rightarrow> bool" where
  legal_empty: "legal []"
| legal_user: "in_turn ms \<Longrightarrow> legal (User c d # ms)"
| in_turn_open: "in_turn []"
| in_turn_done: "legal ms \<Longrightarrow> in_turn (Assistant c r p # ms)"
| in_turn_round: "calls_legal calls \<Longrightarrow> map tr_call_id results = map tc_id calls \<Longrightarrow> in_turn ms \<Longrightarrow>
    in_turn (AssistantToolRequest c calls r p # ToolResultBatch results # ms)"

inductive_simps legal_Nil [simp]: "legal []"
inductive_simps legal_Cons: "legal (m # ms)"
inductive_simps in_turn_Nil [simp]: "in_turn []"
inductive_simps in_turn_Cons: "in_turn (m # ms)"

lemma validate_calls_loop_Inr:
  "validate_calls_loop i seen calls = Inr u \<longleftrightarrow>
     distinct (map tc_id calls) \<and> set (map tc_id calls) \<inter> seen = {}
       \<and> list_all (\<lambda>c. tc_name c \<noteq> []) calls"
  by (induction i seen calls rule: validate_calls_loop.induct) auto

lemma validate_calls_Inr [simp]: "validate_calls i calls = Inr u \<longleftrightarrow> calls_legal calls"
  by (auto simp: validate_calls_def calls_legal_def validate_calls_loop_Inr)

text \<open>What each state still accepts, as a language.\<close>

fun accepts :: "validation_state \<Rightarrow> semantic_message list \<Rightarrow> bool" where
  "accepts Start ms = legal ms"
| "accepts AfterAssistant ms = legal ms"
| "accepts AwaitingAssistant ms = in_turn ms"
| "accepts AfterToolResults ms = in_turn ms"
| "accepts (AwaitingToolResults expected) ms =
     (\<exists>results ms'. ms = ToolResultBatch results # ms' \<and> map tr_call_id results = expected \<and> in_turn ms')"

lemma accepts_Nil: "accepts st [] \<longleftrightarrow> \<not> awaits_results st"
  by (cases st) auto

lemma accepts_Cons:
  "accepts st (m # ms) \<longleftrightarrow> (\<exists>st'. validation_step i st m = Inr st' \<and> accepts st' ms)"
  by (cases st; cases m)
     (auto simp: legal_Cons in_turn_Cons and_then_eq_Inr split: if_splits)

lemma accepts_run:
  "accepts st ms \<longleftrightarrow> (\<exists>st'. validation_run i st ms = Inr st' \<and> \<not> awaits_results st')"
proof (induction ms arbitrary: i st)
  case Nil
  then show ?case by (simp add: accepts_Nil)
next
  case (Cons m ms)
  show ?case
    unfolding accepts_Cons [of st m ms i]
    by (auto simp: and_then_eq_Inr Cons.IH [of _ "Suc i"])
qed

lemma conversation_new_Inr: "conversation_new ms = Inr ms' \<longleftrightarrow> legal ms \<and> ms' = ms"
  using accepts_run [of Start ms 0]
  by (auto simp: conversation_new_def and_then_eq_Inr split: if_splits)

lemma conversation_new_legal: "legal ms \<Longrightarrow> conversation_new ms = Inr ms"
  by (simp add: conversation_new_Inr)

lemma conversation_new_is_ok: "is_ok (conversation_new ms) \<longleftrightarrow> legal ms"
  by (auto simp: is_ok_iff conversation_new_Inr)

subsection \<open>Composition\<close>

lemma validation_run_append:
  "validation_run i st (xs @ ys) =
     and_then (validation_run i st xs) (\<lambda>st'. validation_run (i + length xs) st' ys)"
proof (induction xs arbitrary: i st)
  case Nil
  then show ?case by simp
next
  case (Cons x xs)
  then show ?case by (cases "validation_step i st x") auto
qed

text \<open>A conversation in which every turn is finished.\<close>

fun closed_after :: "semantic_message list \<Rightarrow> bool" where
  "closed_after [] = True"
| "closed_after [m] = (case m of Assistant _ _ _ \<Rightarrow> True | _ \<Rightarrow> False)"
| "closed_after (m # ms) = closed_after ms"

lemma closed_after_last: "ms \<noteq> [] \<Longrightarrow> closed_after ms \<longleftrightarrow> (\<exists>c r p. last ms = Assistant c r p)"
  by (induction ms rule: closed_after.induct) (auto split: semantic_message.splits)

lemma legal_append_aux:
  "(legal xs \<longrightarrow> closed_after xs \<longrightarrow> legal ys \<longrightarrow> legal (xs @ ys))
   \<and> (in_turn xs \<longrightarrow> xs \<noteq> [] \<longrightarrow> closed_after xs \<longrightarrow> legal ys \<longrightarrow> in_turn (xs @ ys))"
proof (induction "length xs" arbitrary: xs rule: less_induct)
  case less
  show ?case
  proof (cases xs)
    case Nil
    then show ?thesis by simp
  next
    case (Cons m ms)
    have IH: "legal zs \<longrightarrow> closed_after zs \<longrightarrow> legal ys \<longrightarrow> legal (zs @ ys)"
      "in_turn zs \<longrightarrow> zs \<noteq> [] \<longrightarrow> closed_after zs \<longrightarrow> legal ys \<longrightarrow> in_turn (zs @ ys)"
      if "length zs < length xs" for zs
      using less [OF that] by auto
    have rest: "closed_after zs" if "closed_after (z # zs)" for z zs
      using that by (cases zs) auto
    show ?thesis
      using IH [of ms] IH [of "tl ms"] Cons rest [of m ms] rest [of "hd ms" "tl ms"]
      by (cases "ms = []"; cases "tl ms = []")
         (auto simp: legal_Cons in_turn_Cons split: semantic_message.splits)
  qed
qed

lemma legal_append: "legal xs \<Longrightarrow> closed_after xs \<Longrightarrow> legal ys \<Longrightarrow> legal (xs @ ys)"
  using legal_append_aux by blast

subsection \<open>Errors name the first illegal message\<close>

fun error_index :: "conversation_error \<Rightarrow> nat option" where
  "error_index (UnexpectedMessage i _ _) = Some i"
| "error_index (EmptyToolRequest i) = Some i"
| "error_index (DuplicateToolCall i _) = Some i"
| "error_index (EmptyToolName i) = Some i"
| "error_index (ToolResultOrderMismatch i) = Some i"
| "error_index MissingToolResultBatch = None"

lemma validate_calls_error_index: "validate_calls i calls = Inl e \<Longrightarrow> error_index e = Some i"
proof -
  have "validate_calls_loop i seen calls = Inl e \<Longrightarrow> error_index e = Some i" for seen
    by (induction i seen calls rule: validate_calls_loop.induct) (auto split: if_splits)
  then show "validate_calls i calls = Inl e \<Longrightarrow> error_index e = Some i"
    by (auto simp: validate_calls_def split: if_splits)
qed

lemma validation_step_error_index: "validation_step i st m = Inl e \<Longrightarrow> error_index e = Some i"
  by (cases st; cases m) (auto simp: and_then_eq_Inl dest: validate_calls_error_index split: if_splits)

lemma validation_run_error:
  "validation_run i st ms = Inl e \<Longrightarrow>
     \<exists>k st'. k < length ms \<and> error_index e = Some (i + k) \<and> validation_run i st (take k ms) = Inr st'
       \<and> validation_step (i + k) st' (ms ! k) = Inl e"
proof (induction ms arbitrary: i st)
  case Nil
  then show ?case by simp
next
  case (Cons m ms)
  show ?case
  proof (cases "validation_step i st m")
    case (Inl e')
    with Cons.prems show ?thesis
      by (auto dest: validation_step_error_index intro!: exI [of _ 0])
  next
    case (Inr st1)
    with Cons.prems Cons.IH [of "Suc i" st1] obtain k st' where
      "k < length ms" "error_index e = Some (Suc i + k)"
      "validation_run (Suc i) st1 (take k ms) = Inr st'"
      "validation_step (Suc i + k) st' (ms ! k) = Inl e"
      by auto
    with Inr show ?thesis by (auto intro!: exI [of _ "Suc k"])
  qed
qed

text \<open>Every state can still be completed to a legal conversation.\<close>

fun completion_of :: "validation_state \<Rightarrow> semantic_message list" where
  "completion_of AwaitingAssistant = [Assistant [] None None]"
| "completion_of (AwaitingToolResults expected) =
     [ToolResultBatch (map (\<lambda>i. \<lparr>tr_call_id = i, tr_status = Observed, tr_content = [],
                                tr_execution_key = None\<rparr>) expected)]"
| "completion_of _ = []"

lemma accepts_completion: "accepts st (completion_of st)"
  by (cases st) (auto simp: in_turn_Cons comp_def)

lemma extendable_iff: "(\<exists>ys. legal (xs @ ys)) \<longleftrightarrow> (\<exists>st. validation_run 0 Start xs = Inr st)"
proof
  assume "\<exists>ys. legal (xs @ ys)"
  then obtain ys where "accepts Start (xs @ ys)" by auto
  then show "\<exists>st. validation_run 0 Start xs = Inr st"
    unfolding accepts_run [of Start _ 0] validation_run_append by (auto simp: and_then_eq_Inr)
next
  assume "\<exists>st. validation_run 0 Start xs = Inr st"
  then obtain st where st: "validation_run 0 Start xs = Inr st" ..
  obtain st' where "validation_run (length xs) st (completion_of st) = Inr st'" "\<not> awaits_results st'"
    using accepts_completion [of st] unfolding accepts_run [of st _ "length xs"] by auto
  with st have "accepts Start (xs @ completion_of st)"
    unfolding accepts_run [of Start _ 0] validation_run_append by simp
  then show "\<exists>ys. legal (xs @ ys)" by auto
qed

lemma conversation_new_error_cases:
  assumes "conversation_new ms = Inl e"
  shows "case error_index e of
      Some k \<Rightarrow> k < length ms \<and> (\<exists>ys. legal (take k ms @ ys)) \<and> \<not> (\<exists>ys. legal (take (Suc k) ms @ ys))
    | None \<Rightarrow> (\<exists>ys. legal (ms @ ys)) \<and> \<not> legal ms"
proof (cases "validation_run 0 Start ms")
  case (Inl e')
  with assms have run: "validation_run 0 Start ms = Inl e" by (simp add: conversation_new_def)
  from validation_run_error [OF run] obtain k st' where k: "k < length ms" "error_index e = Some k"
    "validation_run 0 Start (take k ms) = Inr st'" "validation_step k st' (ms ! k) = Inl e"
    by auto
  have "validation_run 0 Start (take (Suc k) ms) = Inl e"
    using k by (simp add: take_Suc_conv_app_nth validation_run_append)
  with k show ?thesis by (simp add: extendable_iff)
next
  case (Inr st)
  with assms have "e = MissingToolResultBatch" by (auto simp: conversation_new_def split: if_splits)
  moreover have "\<not> legal ms" using assms by (auto dest: conversation_new_legal)
  ultimately show ?thesis using Inr by (auto simp: extendable_iff)
qed

section \<open>Properties\<close>

text \<open>
  C5. \<open>Conversation::new\<close> accepts a sequence of messages exactly when it is a sequence of turns of
  the grammar \<open>legal\<close>, and returns the messages unchanged.
\<close>

theorem conversation_new_accepts_the_grammar:
  "conversation_new messages = Ok accepted \<longleftrightarrow> legal messages \<and> accepted = messages"
  by (rule conversation_new_Inr)

text \<open>
  A rejection by \<open>Conversation::new\<close> names the first illegal message: what comes before it can be
  continued to a legal conversation, what ends with it cannot. The one error without an index says
  that the messages are legal so far but end in an unanswered tool request.
\<close>

theorem conversation_error_names_first_illegal_message:
  assumes "conversation_new messages = Err e"
  shows "case error_index e of
      Some k \<Rightarrow> k < length messages \<and> (\<exists>rest. legal (take k messages @ rest))
                \<and> \<not> (\<exists>rest. legal (take (Suc k) messages @ rest))
    | None \<Rightarrow> (\<exists>rest. legal (messages @ rest)) \<and> \<not> legal messages"
  using assms by (rule conversation_new_error_cases)

theorem conversation_error_names_first_illegal_message_witness:
  "case error_index (UnexpectedMessage 1 ''assistant or assistant_tool_request'' ''user'') of
      Some k \<Rightarrow> k < length [User ''a'' None, User ''b'' None]
                \<and> (\<exists>rest. legal (take k [User ''a'' None, User ''b'' None] @ rest))
                \<and> \<not> (\<exists>rest. legal (take (Suc k) [User ''a'' None, User ''b'' None] @ rest))
    | None \<Rightarrow> (\<exists>rest. legal ([User ''a'' None, User ''b'' None] @ rest))
              \<and> \<not> legal [User ''a'' None, User ''b'' None]"
  by (rule conversation_error_names_first_illegal_message) (simp add: conversation_new_def)

section \<open>Effects\<close>

datatype tool_effect =
    ReadOnly | ModelInference | LocalMutation | ExternalMutation | ProcessControl | CredentialUse

record approval_record =
  ap_required :: bool
  ap_decision :: string
  ap_principal :: string

definition approval_denied :: "approval_record \<Rightarrow> bool" where
  "approval_denied a \<longleftrightarrow> ap_decision a = ''deny''"

definition approval_pending :: "approval_record \<Rightarrow> bool" where
  "approval_pending a \<longleftrightarrow> ap_decision a = ''pending''"

record planned_tool_call =
  pl_call_id :: tool_call_id
  pl_name :: string
  pl_arguments :: tool_arguments
  pl_invocation_id :: invocation_id
  pl_effect :: tool_effect
  pl_approval :: "approval_record option"

record tool_terminal =
  tt_call_id :: tool_call_id
  tt_name :: string
  tt_status :: tool_result_status
  tt_content :: string
  tt_invocation_id :: invocation_id
  tt_effect :: tool_effect
  tt_receipt :: "string option"

definition plan_pending :: "planned_tool_call \<Rightarrow> bool" where
  "plan_pending p = (case pl_approval p of None \<Rightarrow> False | Some a \<Rightarrow> approval_pending a)"

definition plan_denied :: "planned_tool_call \<Rightarrow> bool" where
  "plan_denied p = (case pl_approval p of None \<Rightarrow> False | Some a \<Rightarrow> approval_denied a)"

text \<open>\<open>status_name\<close> and \<open>parse_status\<close> of the runtime, and the wire names of the effects.\<close>

fun status_name :: "tool_result_status \<Rightarrow> string" where
  "status_name Succeeded = ''succeeded''"
| "status_name Failed = ''failed''"
| "status_name Cancelled = ''cancelled''"
| "status_name Rejected = ''rejected''"
| "status_name OutcomeUnknown = ''outcome_unknown''"
| "status_name Observed = ''observed''"

lemma status_name_inject: "status_name a = status_name b \<Longrightarrow> a = b"
  by (cases a; cases b) auto

end
