(* ===== verification/Protocol.thy ===== *)
theory Protocol
  imports Domain_Lifecycle
begin

text \<open>
  \<open>crates/protocol/src/{lib,delegation,foreground}.rs\<close>: wire records exchanged between the kernel,
  the stores and the providers, and the JSON values that \<open>serde_json::to_value\<close> and \<open>json!\<close> build
  from them (read off the \<open>serde\<close> attributes: tags, renamings, skipped fields).
\<close>

section \<open>Sessions\<close>

datatype transport_kind =
  ChatCompletions | AnthropicMessages | CodexResponses | CodexAppServer | BedrockConverse | GeminiNative

datatype model_reasoning_effort =
    EffortNone | EffortMinimal | EffortLow | EffortMedium | EffortHigh | EffortXhigh | EffortMax | EffortUltra

fun reasoning_effort_str :: "model_reasoning_effort \<Rightarrow> string" where
  "reasoning_effort_str EffortNone = ''none''"
| "reasoning_effort_str EffortMinimal = ''minimal''"
| "reasoning_effort_str EffortLow = ''low''"
| "reasoning_effort_str EffortMedium = ''medium''"
| "reasoning_effort_str EffortHigh = ''high''"
| "reasoning_effort_str EffortXhigh = ''xhigh''"
| "reasoning_effort_str EffortMax = ''max''"
| "reasoning_effort_str EffortUltra = ''ultra''"

datatype codex_authority_profile = HermesOwnedEffectsV1

fun authority_profile_str :: "codex_authority_profile \<Rightarrow> string" where
  "authority_profile_str HermesOwnedEffectsV1 = ''hermes_owned_effects_v1''"

datatype engine_config =
    EngineDirect
  | EngineCodexAppServer (ec_reasoning_effort: model_reasoning_effort)
      (ec_authority_profile: codex_authority_profile)

record session_config =
  sc_session_id :: session_id
  sc_lineage_id :: lineage_id
  sc_prompt_manifest :: prompt_manifest
  sc_engine_config :: engine_config
  sc_transport :: transport_kind
  sc_provider_adapter :: string
  sc_base_url :: string
  sc_api_key_env :: "string option"
  sc_model :: string
  sc_tool_root :: string
  sc_system_prompt :: string
  sc_tools :: "json list"

record session_snapshot =
  ss_config :: session_config
  ss_owner_generation :: owner_generation
  ss_conversation :: "semantic_message list"

record session_summary =
  sm_session_id :: session_id
  sm_provider_adapter :: string
  sm_model :: string
  sm_owner_generation :: owner_generation
  sm_message_count :: nat

record pending_effect =
  pe_execution_scope :: string
  pe_plan :: planned_tool_call

section \<open>Durable lifecycle records\<close>

record delegation_snapshot =
  dn_spec :: delegation_spec
  dn_owner_generation :: owner_generation
  dn_state :: delegation_state
  dn_created_at_ms :: u64
  dn_updated_at_ms :: u64

record delegation_completion =
  dm_event_id :: completion_event_id
  dm_delegation_id :: delegation_id
  dm_spec :: delegation_spec
  dm_outcome :: delegation_terminal
  dm_completed_at_ms :: u64

record foreground_turn_snapshot =
  fn_spec :: foreground_turn_spec
  fn_provider_prompt :: string
  fn_owner_generation :: owner_generation
  fn_state :: foreground_turn_state
  fn_started_at_ms :: u64
  fn_updated_at_ms :: u64

section \<open>Provider requests and events\<close>

record provider_function_call =
  pf_name :: string
  pf_arguments :: string

record provider_tool_call =
  pt_id :: string
  pt_kind :: string
  pt_function :: provider_function_call

datatype provider_message =
    PSystem (ps_content: string)
  | PUser (pu_content: string)
  | PAssistant (pa_content: "string option") (pa_reasoning: "string option")
      (pa_tool_calls: "provider_tool_call list") (pa_provider_replay: "json option")
  | PTool (po_tool_call_id: string) (po_status: string) (po_content: string) (po_execution_key: string)

fun provider_role :: "provider_message \<Rightarrow> string" where
  "provider_role (PSystem _) = ''system''"
| "provider_role (PUser _) = ''user''"
| "provider_role (PAssistant _ _ _ _) = ''assistant''"
| "provider_role (PTool _ _ _ _) = ''tool''"

record chat_completions_request =
  cr_model :: string
  cr_messages :: "provider_message list"
  cr_tools :: "json list"

record agent_turn_request =
  ar_execution_scope :: string
  ar_transport :: transport_kind
  ar_model :: string
  ar_system_prompt :: "string option"
  ar_conversation :: "provider_message list"
  ar_tools :: "json list"

datatype provider_event =
    EvMessageStart
  | EvTextDelta string
  | EvReasoningDelta string
  | EvToolCallDelta nat "string option" "string option" string
  | EvUsage u64 u64 u64 u64
  | EvCompleted "string option" "json option"
  | EvError "string option"
  | EvCancelled "string option"
  | EvMalformed "string option"

section \<open>Outcomes\<close>

record provider_request_record =
  pq_attempt_id :: string
  pq_transport :: transport_kind
  pq_request :: json

record usage =
  us_prompt_tokens :: u64
  us_completion_tokens :: u64
  us_total_tokens :: u64
  us_cached_tokens :: u64

definition usage_default :: usage where
  "usage_default = \<lparr>us_prompt_tokens = 0, us_completion_tokens = 0, us_total_tokens = 0, us_cached_tokens = 0\<rparr>"

datatype terminal_status =
    StatusCompleted | StatusIncomplete | StatusFailed | StatusCancelled | StatusInterrupted
  | StatusFixtureProjected

record terminal_outcome =
  to_status :: terminal_status
  to_final_response :: "string option"
  to_finish_reason :: "string option"
  to_reason :: "string option"
  to_visible_output :: "bool option"

record contract_outcome =
  co_provider_requests :: "provider_request_record list"
  co_semantic_conversation :: "semantic_message list"
  co_persistence_intents :: "json list"
  co_public_events :: "json list"
  co_usage :: usage
  co_terminal_outcome :: terminal_outcome

section \<open>JSON of the wire types\<close>

fun tool_effect_name :: "tool_effect \<Rightarrow> string" where
  "tool_effect_name ReadOnly = ''read_only''"
| "tool_effect_name ModelInference = ''model_inference''"
| "tool_effect_name LocalMutation = ''local_mutation''"
| "tool_effect_name ExternalMutation = ''external_mutation''"
| "tool_effect_name ProcessControl = ''process_control''"
| "tool_effect_name CredentialUse = ''credential_use''"

definition json_of_effect :: "tool_effect \<Rightarrow> json" where
  "json_of_effect e = JString (tool_effect_name e)"

definition json_of_approval :: "approval_record \<Rightarrow> json" where
  "json_of_approval a =
     jobject [(''required'', JBool (ap_required a)), (''decision'', JString (ap_decision a)),
              (''principal'', JString (ap_principal a))]"

definition json_of_usage :: "usage \<Rightarrow> json" where
  "json_of_usage u =
     jobject [(''prompt_tokens'', ju64 (us_prompt_tokens u)),
              (''completion_tokens'', ju64 (us_completion_tokens u)),
              (''total_tokens'', ju64 (us_total_tokens u)),
              (''cached_tokens'', ju64 (us_cached_tokens u))]"

definition json_of_provider_tool_call :: "provider_tool_call \<Rightarrow> json" where
  "json_of_provider_tool_call c =
     jobject [(''id'', JString (pt_id c)), (''type'', JString (pt_kind c)),
              (''function'', jobject [(''name'', JString (pf_name (pt_function c))),
                                     (''arguments'', JString (pf_arguments (pt_function c)))])]"

fun json_of_provider_message :: "provider_message \<Rightarrow> json" where
  "json_of_provider_message (PSystem content) =
     jobject [(''role'', JString ''system''), (''content'', JString content)]"
| "json_of_provider_message (PUser content) =
     jobject [(''role'', JString ''user''), (''content'', JString content)]"
| "json_of_provider_message (PAssistant content reasoning calls replay) =
     jobject ([(''role'', JString ''assistant''), (''content'', jopt JString content)]
       @ jskip ''reasoning'' JString reasoning
       @ (if calls = [] then [] else [(''tool_calls'', JArray (map json_of_provider_tool_call calls))])
       @ jskip ''provider_replay'' id replay)"
| "json_of_provider_message (PTool tool_call_id status content execution_key) =
     jobject [(''role'', JString ''tool''), (''tool_call_id'', JString tool_call_id),
              (''status'', JString status), (''content'', JString content),
              (''execution_key'', JString execution_key)]"

definition json_of_chat_request :: "chat_completions_request \<Rightarrow> json" where
  "json_of_chat_request r =
     jobject [(''model'', JString (cr_model r)),
              (''messages'', JArray (map json_of_provider_message (cr_messages r))),
              (''tools'', JArray (cr_tools r))]"

end
