(* ===== verification/Ports.thy ===== *)
theory Ports
  imports Protocol
begin

text \<open>
  \<open>crates/ports/src/lib.rs\<close>: the traits between the kernel and its adapters. A trait object is a
  record of operations over the state of the implementation, and an error enum is a datatype with
  its \<open>Display\<close> text. The futures of the asynchronous methods are run to their result; the events
  of a provider attempt are the finite list that its stream yields before it ends.
\<close>

section \<open>Providers and tool brokers\<close>

datatype attempt_error_policy = StopPolicy | FallbackBeforeVisibleOutput

datatype provider_error = ProviderError string

fun provider_error_text :: "provider_error \<Rightarrow> string" where
  "provider_error_text (ProviderError message) = ''provider error: '' @ message"

record provider_attempt =
  at_attempt_id :: string
  at_error_policy :: attempt_error_policy
  at_events :: "(provider_error + provider_event) list"

record 'p provider =
  pv_stream :: "chat_completions_request \<Rightarrow> ('p, provider_error, provider_attempt) action"
  pv_remaining_attempts :: "'p \<Rightarrow> nat option"

datatype tool_broker_error = ToolBrokerError string

fun tool_broker_error_text :: "tool_broker_error \<Rightarrow> string" where
  "tool_broker_error_text (ToolBrokerError message) = ''tool broker error: '' @ message"

record 'b tool_broker =
  tb_plan :: "tool_call list \<Rightarrow> invocation_id list \<Rightarrow> ('b, tool_broker_error, planned_tool_call list) action"
  tb_resolve_approvals :: "planned_tool_call list \<Rightarrow> ('b, tool_broker_error, planned_tool_call list) action"
  tb_execute :: "planned_tool_call list \<Rightarrow> ('b, tool_broker_error, tool_terminal list) action"

text \<open>The default method of the trait, for brokers without asynchronous gates.\<close>

definition default_resolve_approvals ::
  "planned_tool_call list \<Rightarrow> ('b, tool_broker_error, planned_tool_call list) action" where
  "default_resolve_approvals calls = act_return calls"

section \<open>Sessions\<close>

datatype session_store_error =
    SessionAlreadyExists session_id
  | SessionNotFound session_id
  | SessionConflict session_id u64 u64
  | SessionInvalid string
  | SessionStorage string

fun session_store_error_text :: "session_store_error \<Rightarrow> string" where
  "session_store_error_text (SessionAlreadyExists sid) = ''session already exists: '' @ session_id_str sid"
| "session_store_error_text (SessionNotFound sid) = ''session not found: '' @ session_id_str sid"
| "session_store_error_text (SessionConflict sid expected actual) =
     ''session '' @ session_id_str sid @ '' write conflict: expected generation '' @ show_u64 expected
       @ '', actual '' @ show_u64 actual"
| "session_store_error_text (SessionInvalid m) = ''invalid session state: '' @ m"
| "session_store_error_text (SessionStorage m) = ''session storage failed: '' @ m"

record 's session_store =
  so_create :: "session_config \<Rightarrow> ('s, session_store_error, session_snapshot) action"
  so_load :: "session_id \<Rightarrow> ('s, session_store_error, session_snapshot) action"
  so_append :: "session_id \<Rightarrow> owner_generation \<Rightarrow> semantic_message list
    \<Rightarrow> ('s, session_store_error, session_snapshot) action"
  so_list :: "('s, session_store_error, session_summary list) action"

section \<open>Foreground turns\<close>

datatype foreground_store_error =
    TurnAlreadyExists foreground_turn_id
  | TurnSessionBusy session_id
  | TurnSessionNotFound session_id
  | TurnNotFound foreground_turn_id
  | TurnGenerationConflict session_id u64 u64
  | TurnNotRunning foreground_turn_id string
  | TurnInvalid string
  | TurnStorage string

fun foreground_store_error_text :: "foreground_store_error \<Rightarrow> string" where
  "foreground_store_error_text (TurnAlreadyExists t) =
     ''foreground turn already exists: '' @ foreground_turn_id_str t"
| "foreground_store_error_text (TurnSessionBusy sid) =
     ''session already has a running foreground turn: '' @ session_id_str sid"
| "foreground_store_error_text (TurnSessionNotFound sid) = ''session not found: '' @ session_id_str sid"
| "foreground_store_error_text (TurnNotFound t) =
     ''foreground turn not found: '' @ foreground_turn_id_str t"
| "foreground_store_error_text (TurnGenerationConflict sid expected actual) =
     ''session '' @ session_id_str sid @ '' write conflict: expected generation '' @ show_u64 expected
       @ '', actual '' @ show_u64 actual"
| "foreground_store_error_text (TurnNotRunning t state) =
     ''foreground turn '' @ foreground_turn_id_str t @ '' cannot transition from state '' @ state"
| "foreground_store_error_text (TurnInvalid m) = ''invalid foreground turn state: '' @ m"
| "foreground_store_error_text (TurnStorage m) = ''foreground turn storage failed: '' @ m"

record 's foreground_turn_store =
  fo_start :: "foreground_turn_spec \<Rightarrow> string \<Rightarrow> owner_generation \<Rightarrow> u64
    \<Rightarrow> ('s, foreground_store_error, foreground_turn_snapshot) action"
  fo_start_with_deliveries :: "foreground_turn_spec \<Rightarrow> string \<Rightarrow> owner_generation
    \<Rightarrow> (completion_event_id \<times> delivery_claim_id) list \<Rightarrow> u64
    \<Rightarrow> ('s, foreground_store_error, foreground_turn_snapshot) action"
  fo_complete :: "foreground_turn_id \<Rightarrow> owner_generation \<Rightarrow> semantic_message list \<Rightarrow> u64
    \<Rightarrow> ('s, foreground_store_error, session_snapshot) action"
  fo_terminate :: "foreground_turn_id \<Rightarrow> owner_generation \<Rightarrow> foreground_turn_terminal \<Rightarrow> u64
    \<Rightarrow> ('s, foreground_store_error, foreground_turn_snapshot) action"
  fo_latest :: "session_id \<Rightarrow> ('s, foreground_store_error, foreground_turn_snapshot option) action"
  fo_reconcile_running :: "string \<Rightarrow> u64 \<Rightarrow> ('s, foreground_store_error, foreground_turn_snapshot list) action"

section \<open>Delegations\<close>

datatype delegation_store_error =
    DelegationAlreadyExists delegation_id
  | DelegationNotFound delegation_id
  | DelegationNotClaimable delegation_id string
  | DelegationGenerationConflict delegation_id u64 u64
  | DelegationFencingConflict delegation_id u64 "u64 option"
  | DelegationInvalid string
  | DelegationStorage string

text \<open>\<open>Debug\<close> of an \<open>Option<u64>\<close>.\<close>

definition debug_opt_u64 :: "u64 option \<Rightarrow> string" where
  "debug_opt_u64 m = (case m of None \<Rightarrow> ''None'' | Some w \<Rightarrow> ''Some('' @ show_u64 w @ '')'')"

fun delegation_store_error_text :: "delegation_store_error \<Rightarrow> string" where
  "delegation_store_error_text (DelegationAlreadyExists d) =
     ''delegation already exists: '' @ delegation_id_str d"
| "delegation_store_error_text (DelegationNotFound d) = ''delegation not found: '' @ delegation_id_str d"
| "delegation_store_error_text (DelegationNotClaimable d state) =
     ''delegation '' @ delegation_id_str d @ '' cannot transition from state '' @ state"
| "delegation_store_error_text (DelegationGenerationConflict d expected actual) =
     ''delegation '' @ delegation_id_str d @ '' write conflict: expected generation ''
       @ show_u64 expected @ '', actual '' @ show_u64 actual"
| "delegation_store_error_text (DelegationFencingConflict d expected actual) =
     ''delegation '' @ delegation_id_str d @ '' fencing conflict: expected token ''
       @ show_u64 expected @ '', actual '' @ debug_opt_u64 actual"
| "delegation_store_error_text (DelegationInvalid m) = ''invalid delegation state: '' @ m"
| "delegation_store_error_text (DelegationStorage m) = ''delegation storage failed: '' @ m"

record 's delegation_store =
  de_create :: "delegation_spec \<Rightarrow> u64 \<Rightarrow> ('s, delegation_store_error, delegation_snapshot) action"
  de_create_with_child :: "session_config \<Rightarrow> delegation_spec \<Rightarrow> u64
    \<Rightarrow> ('s, delegation_store_error, delegation_snapshot) action"
  de_load :: "delegation_id \<Rightarrow> ('s, delegation_store_error, delegation_snapshot) action"
  de_list_for_parent :: "session_id \<Rightarrow> nat \<Rightarrow> ('s, delegation_store_error, delegation_snapshot list) action"
  de_pending :: "nat \<Rightarrow> ('s, delegation_store_error, delegation_snapshot list) action"
  de_claim :: "delegation_id \<Rightarrow> owner_generation \<Rightarrow> delegation_worker_id \<Rightarrow> u64 \<Rightarrow> u64
    \<Rightarrow> ('s, delegation_store_error, delegation_snapshot) action"
  de_heartbeat :: "delegation_id \<Rightarrow> owner_generation \<Rightarrow> fencing_token \<Rightarrow> u64 \<Rightarrow> u64
    \<Rightarrow> ('s, delegation_store_error, delegation_snapshot) action"
  de_cancel :: "delegation_id \<Rightarrow> owner_generation \<Rightarrow> string \<Rightarrow> u64
    \<Rightarrow> ('s, delegation_store_error, delegation_snapshot) action"
  de_finish :: "delegation_id \<Rightarrow> owner_generation \<Rightarrow> fencing_token \<Rightarrow> delegation_terminal \<Rightarrow> u64
    \<Rightarrow> ('s, delegation_store_error, delegation_completion) action"
  de_complete_child :: "delegation_id \<Rightarrow> delegation_authority \<Rightarrow> owner_generation \<Rightarrow> semantic_message list
    \<Rightarrow> string \<Rightarrow> u64 \<Rightarrow> ('s, delegation_store_error, delegation_completion) action"
  de_reconcile_expired :: "u64 \<Rightarrow> ('s, delegation_store_error, delegation_completion list) action"
  de_reconcile_running :: "string \<Rightarrow> u64 \<Rightarrow> ('s, delegation_store_error, delegation_completion list) action"
  de_available_completions :: "u64 \<Rightarrow> nat \<Rightarrow> ('s, delegation_store_error, delegation_completion list) action"
  de_available_completions_for :: "session_id \<Rightarrow> u64 \<Rightarrow> nat
    \<Rightarrow> ('s, delegation_store_error, delegation_completion list) action"
  de_claim_completion :: "completion_event_id \<Rightarrow> delivery_claim_id \<Rightarrow> u64 \<Rightarrow> u64
    \<Rightarrow> ('s, delegation_store_error, delegation_completion option) action"
  de_acknowledge_completion :: "completion_event_id \<Rightarrow> delivery_claim_id \<Rightarrow> u64
    \<Rightarrow> ('s, delegation_store_error, bool) action"
  de_release_completion :: "completion_event_id \<Rightarrow> delivery_claim_id
    \<Rightarrow> ('s, delegation_store_error, bool) action"

section \<open>The effect ledger\<close>

datatype effect_ledger_error =
    LedgerAlreadyRecorded string
  | LedgerMissingPlan string
  | LedgerPlanMismatch string
  | LedgerAlreadyTerminal string
  | LedgerInvalid string
  | LedgerStorage string

fun effect_ledger_error_text :: "effect_ledger_error \<Rightarrow> string" where
  "effect_ledger_error_text (LedgerAlreadyRecorded k) = ''effect execution key is already recorded: '' @ k"
| "effect_ledger_error_text (LedgerMissingPlan k) = ''effect execution key has no durable plan: '' @ k"
| "effect_ledger_error_text (LedgerPlanMismatch k) =
     ''effect terminal does not match its durable plan: '' @ k"
| "effect_ledger_error_text (LedgerAlreadyTerminal k) =
     ''effect execution key already has a terminal disposition: '' @ k"
| "effect_ledger_error_text (LedgerInvalid m) = ''invalid effect ledger state: '' @ m"
| "effect_ledger_error_text (LedgerStorage m) = ''effect ledger storage failed: '' @ m"

record 'l effect_ledger =
  el_record_plans :: "string \<Rightarrow> planned_tool_call list \<Rightarrow> ('l, effect_ledger_error, unit) action"
  el_record_approvals :: "planned_tool_call list \<Rightarrow> ('l, effect_ledger_error, unit) action"
  el_record_terminals :: "tool_terminal list \<Rightarrow> ('l, effect_ledger_error, unit) action"
  el_pending :: "('l, effect_ledger_error, pending_effect list) action"

end
