(* ===== verification/Runtime_ToolHost.thy ===== *)
theory Runtime_ToolHost
  imports Ports "HOL-Library.Multiset"
begin

text \<open>
  \<open>crates/runtime/src/lib.rs\<close>, the boundary around a tool broker: \<open>RuntimeError\<close>, the allocation
  of invocation identities, the three validations (plans, approval resolutions, terminals) and the
  operations of \<open>ToolHost\<close>. Proved here: what each validation accepts, as a relation between plans
  and results, and what the host guarantees about any broker at all.
\<close>

section \<open>Errors\<close>

datatype runtime_event_observer_error = RuntimeEventObserverError string

datatype runtime_error =
    InvalidTurn string
  | RuntimeProvider provider_error
  | RuntimeToolBroker tool_broker_error
  | RuntimeIdentifier id_error
  | RuntimeConversation conversation_error
  | RuntimeJson string
  | RuntimeEventObserver runtime_event_observer_error

fun runtime_error_text :: "runtime_error \<Rightarrow> string" where
  "runtime_error_text (InvalidTurn m) = ''invalid turn: '' @ m"
| "runtime_error_text (RuntimeProvider e) = provider_error_text e"
| "runtime_error_text (RuntimeToolBroker e) = tool_broker_error_text e"
| "runtime_error_text (RuntimeIdentifier e) = id_error_text e"
| "runtime_error_text (RuntimeConversation e) = conversation_error_text e"
| "runtime_error_text (RuntimeJson m) = m"
| "runtime_error_text (RuntimeEventObserver (RuntimeEventObserverError m)) =
     ''runtime event observer failed: '' @ m"

section \<open>Invocation identities\<close>

definition invocation_text :: "string \<Rightarrow> tool_call \<Rightarrow> string" where
  "invocation_text execution_scope call = execution_scope @ '':'' @ tool_call_id_str (tc_id call)"

text \<open>One iteration; \<open>seen.insert\<close> of a known identity is a failure and changes nothing.\<close>

definition allocate_invocation_id ::
  "string \<Rightarrow> tool_call \<Rightarrow> (invocation_id set, runtime_error, invocation_id) action" where
  "allocate_invocation_id execution_scope call =
     act_bind (act_lift (map_err RuntimeIdentifier (invocation_id_new (invocation_text execution_scope call))))
       (\<lambda>invocation. act_bind (act_read (\<lambda>seen. invocation \<in> seen))
         (\<lambda>known. if known
           then act_lift (Err (InvalidTurn (''provider reused tool call id ''
                  @ tool_call_id_str (tc_id call) @ '' within one turn'')))
           else act_bind (act_update (insert invocation)) (\<lambda>_. act_return invocation)))"

definition allocate_invocation_ids ::
  "string \<Rightarrow> tool_call list \<Rightarrow> (invocation_id set, runtime_error, invocation_id list) action" where
  "allocate_invocation_ids execution_scope calls =
     act_collect (allocate_invocation_id execution_scope) calls"

section \<open>Validations\<close>

definition validate_plans ::
  "tool_call list \<Rightarrow> invocation_id list \<Rightarrow> planned_tool_call list \<Rightarrow> runtime_error + unit" where
  "validate_plans calls invocation_ids plans =
     (if map tc_id calls \<noteq> map pl_call_id plans \<or> invocation_ids \<noteq> map pl_invocation_id plans
      then Err (InvalidTurn ''tool plans must preserve kernel invocation identities and model-call order'')
      else Ok ())"

definition validate_resolved_call :: "planned_tool_call \<Rightarrow> planned_tool_call \<Rightarrow> runtime_error + unit" where
  "validate_resolved_call planned resolved =
     (if pl_call_id planned \<noteq> pl_call_id resolved \<or> pl_name planned \<noteq> pl_name resolved
         \<or> pl_arguments planned \<noteq> pl_arguments resolved
         \<or> pl_invocation_id planned \<noteq> pl_invocation_id resolved \<or> pl_effect planned \<noteq> pl_effect resolved
      then Err (InvalidTurn ''approval resolution mutated a frozen tool plan'')
      else case (pl_approval planned, pl_approval resolved) of
        (None, None) \<Rightarrow> Ok ()
      | (Some before, Some after) \<Rightarrow>
          if approval_pending before then
            if approval_pending after \<or> ap_decision after \<notin> {''allow'', ''deny''}
               \<or> ap_required before \<noteq> ap_required after \<or> ap_principal before \<noteq> ap_principal after
            then Err (InvalidTurn ''pending approval did not resolve to a matching allow or deny decision'')
            else Ok ()
          else if before = after then Ok ()
          else Err (InvalidTurn ''approval resolution changed a non-pending requirement'')
      | _ \<Rightarrow> Err (InvalidTurn ''approval resolution changed a non-pending requirement''))"

fun validate_resolved_calls :: "(planned_tool_call \<times> planned_tool_call) list \<Rightarrow> runtime_error + unit" where
  "validate_resolved_calls [] = Ok ()"
| "validate_resolved_calls ((planned, resolved) # rest) =
     and_then (validate_resolved_call planned resolved) (\<lambda>_. validate_resolved_calls rest)"

definition validate_approval_resolution ::
  "planned_tool_call list \<Rightarrow> planned_tool_call list \<Rightarrow> runtime_error + unit" where
  "validate_approval_resolution planned resolved =
     (if length planned \<noteq> length resolved
      then Err (InvalidTurn ''approval resolution must preserve every planned tool call'')
      else validate_resolved_calls (zip planned resolved))"

text \<open>\<open>HashMap\<close> collected from an iterator: a later pair replaces an earlier one with the same key.\<close>

definition hash_map :: "('a \<Rightarrow> 'k) \<Rightarrow> 'a list \<Rightarrow> 'k \<Rightarrow> 'a option" where
  "hash_map key xs = map_of (rev (map (\<lambda>x. (key x, x)) xs))"

fun validate_terminals_loop ::
  "(tool_call_id \<Rightarrow> planned_tool_call option) \<Rightarrow> tool_call_id set \<Rightarrow> tool_terminal list
     \<Rightarrow> runtime_error + unit" where
  "validate_terminals_loop plans_by_id actual [] = Ok ()"
| "validate_terminals_loop plans_by_id actual (terminal # terminals) =
     (if tt_call_id terminal \<in> actual
      then Err (InvalidTurn ''tool terminals must contain each planned call exactly once'')
      else case plans_by_id (tt_call_id terminal) of
        None \<Rightarrow> Err (InvalidTurn (''tool terminal '' @ tool_call_id_str (tt_call_id terminal)
                  @ '' has no matching plan''))
      | Some plan \<Rightarrow>
          if tt_name terminal \<noteq> pl_name plan \<or> tt_invocation_id terminal \<noteq> pl_invocation_id plan
             \<or> tt_effect terminal \<noteq> pl_effect plan
          then Err (InvalidTurn ''tool terminal mutated a frozen tool plan'')
          else validate_terminals_loop plans_by_id (insert (tt_call_id terminal) actual) terminals)"

definition validate_terminals :: "planned_tool_call list \<Rightarrow> tool_terminal list \<Rightarrow> runtime_error + unit" where
  "validate_terminals plans terminals =
     (if length terminals \<noteq> length plans
      then Err (InvalidTurn ''tool terminals must contain each planned call exactly once'')
      else validate_terminals_loop (hash_map pl_call_id plans) {} terminals)"

section \<open>The tool host\<close>

record 'b tool_host =
  th_tools :: 'b
  th_execution_scope :: string
  th_seen_invocation_ids :: "invocation_id set"

definition tool_host_new :: "'b \<Rightarrow> string \<Rightarrow> runtime_error + 'b tool_host" where
  "tool_host_new tools execution_scope =
     (if execution_scope = [] then Err (InvalidTurn ''tool host execution scope must be non-empty'')
      else Ok \<lparr>th_tools = tools, th_execution_scope = execution_scope, th_seen_invocation_ids = {}\<rparr>)"

definition on_tools :: "('b, tool_broker_error, 'a) action \<Rightarrow> ('b tool_host, runtime_error, 'a) action" where
  "on_tools m = act_map_err RuntimeToolBroker (act_zoom th_tools (\<lambda>b h. h\<lparr>th_tools := b\<rparr>) m)"

definition tool_host_plan ::
  "'b tool_broker \<Rightarrow> tool_call list \<Rightarrow> ('b tool_host, runtime_error, planned_tool_call list) action" where
  "tool_host_plan broker calls =
     act_bind (act_read th_execution_scope) (\<lambda>scope.
     act_bind (act_zoom th_seen_invocation_ids (\<lambda>seen h. h\<lparr>th_seen_invocation_ids := seen\<rparr>)
                 (allocate_invocation_ids scope calls)) (\<lambda>invocation_ids.
     act_bind (on_tools (tb_plan broker calls invocation_ids)) (\<lambda>planned.
     act_bind (act_lift (validate_plans calls invocation_ids planned)) (\<lambda>_.
     act_return planned))))"

definition tool_host_resolve_approvals ::
  "'b tool_broker \<Rightarrow> planned_tool_call list \<Rightarrow> ('b tool_host, runtime_error, planned_tool_call list) action" where
  "tool_host_resolve_approvals broker planned =
     act_bind (on_tools (tb_resolve_approvals broker planned)) (\<lambda>resolved.
     act_bind (act_lift (validate_approval_resolution planned resolved)) (\<lambda>_.
     act_return resolved))"

definition tool_host_execute ::
  "'b tool_broker \<Rightarrow> planned_tool_call list \<Rightarrow> ('b tool_host, runtime_error, tool_terminal list) action" where
  "tool_host_execute broker resolved =
     act_bind (on_tools (tb_execute broker resolved)) (\<lambda>completed.
     act_bind (act_lift (validate_terminals resolved completed)) (\<lambda>_.
     act_return completed))"

section \<open>What the validations accept\<close>

text \<open>A resolution of a plan: everything frozen but a pending approval, which is decided.\<close>

fun approval_resolves :: "approval_record option \<Rightarrow> approval_record option \<Rightarrow> bool" where
  "approval_resolves (Some before) after =
     (if approval_pending before
      then after \<in> {Some (before\<lparr>ap_decision := ''allow''\<rparr>), Some (before\<lparr>ap_decision := ''deny''\<rparr>)}
      else after = Some before)"
| "approval_resolves None after = (after = None)"

definition resolution_of :: "planned_tool_call \<Rightarrow> planned_tool_call \<Rightarrow> bool" where
  "resolution_of planned resolved \<longleftrightarrow>
     (\<exists>a. approval_resolves (pl_approval planned) a \<and> resolved = planned\<lparr>pl_approval := a\<rparr>)"

text \<open>A terminal that reports on a plan without changing what was frozen.\<close>

definition terminal_of :: "planned_tool_call \<Rightarrow> tool_terminal \<Rightarrow> bool" where
  "terminal_of plan terminal \<longleftrightarrow>
     tt_call_id terminal = pl_call_id plan \<and> tt_name terminal = pl_name plan
       \<and> tt_invocation_id terminal = pl_invocation_id plan \<and> tt_effect terminal = pl_effect plan"

lemma validate_plans_Inr [simp]:
  "validate_plans calls ids plans = Inr u \<longleftrightarrow>
     map pl_call_id plans = map tc_id calls \<and> map pl_invocation_id plans = ids"
  by (auto simp: validate_plans_def)

lemma pending_decision_cases:
  "(\<not> approval_pending after \<and> ap_decision after \<in> {''allow'', ''deny''}
      \<and> ap_required before = ap_required after \<and> ap_principal before = ap_principal after)
   \<longleftrightarrow> after \<in> {before\<lparr>ap_decision := ''allow''\<rparr>, before\<lparr>ap_decision := ''deny''\<rparr>}"
  by (cases before; cases after) (auto simp: approval_pending_def)

lemma validate_resolved_call_Inr [simp]:
  "validate_resolved_call p r = Inr u \<longleftrightarrow> resolution_of p r"
proof -
  have frozen: "(\<exists>a. approval_resolves (pl_approval p) a \<and> r = p\<lparr>pl_approval := a\<rparr>) \<longleftrightarrow>
      approval_resolves (pl_approval p) (pl_approval r) \<and> pl_call_id p = pl_call_id r \<and> pl_name p = pl_name r
        \<and> pl_arguments p = pl_arguments r \<and> pl_invocation_id p = pl_invocation_id r \<and> pl_effect p = pl_effect r"
    by (cases p; cases r) auto
  have resolves [simp]: "approval_resolves (Some b) (Some a) \<longleftrightarrow>
      (if approval_pending b then \<not> (approval_pending a \<or> ap_decision a \<notin> {''allow'', ''deny''}
               \<or> ap_required b \<noteq> ap_required a \<or> ap_principal b \<noteq> ap_principal a) else b = a)" for a b
    using pending_decision_cases [of a b] by auto
  moreover have [simp]: "\<not> approval_resolves (Some b) None" for b by simp
  ultimately show ?thesis
    unfolding resolution_of_def frozen
    by (cases "pl_approval p"; cases "pl_approval r") (auto simp: validate_resolved_call_def simp del: approval_resolves.simps(1) split: if_splits)
qed

lemma validate_resolved_calls_Inr:
  "validate_resolved_calls ps = Inr u \<longleftrightarrow> (\<forall>(p, r) \<in> set ps. resolution_of p r)"
  by (induction ps rule: validate_resolved_calls.induct) (auto simp: and_then_eq_Inr)

lemma validate_approval_resolution_Inr [simp]:
  "validate_approval_resolution planned resolved = Inr u \<longleftrightarrow> list_all2 resolution_of planned resolved"
  by (auto simp: validate_approval_resolution_def validate_resolved_calls_Inr list_all2_iff)

lemma approval_resolves_not_pending: "approval_resolves before (Some after) \<Longrightarrow> \<not> approval_pending after"
  by (cases before) (auto simp: approval_pending_def split: if_splits)

lemma resolution_not_pending: "resolution_of p r \<Longrightarrow> \<not> plan_pending r"
  by (auto simp: resolution_of_def plan_pending_def dest: approval_resolves_not_pending split: option.splits)

lemma resolution_frozen:
  "resolution_of p r \<Longrightarrow> pl_call_id r = pl_call_id p \<and> pl_name r = pl_name p
     \<and> pl_arguments r = pl_arguments p \<and> pl_invocation_id r = pl_invocation_id p
     \<and> pl_effect r = pl_effect p"
  by (auto simp: resolution_of_def)

lemma resolutions_frozen:
  assumes "list_all2 resolution_of planned resolved"
  shows "map pl_call_id resolved = map pl_call_id planned"
    "map pl_invocation_id resolved = map pl_invocation_id planned"
    "list_all (\<lambda>r. \<not> plan_pending r) resolved"
  using assms
  by (induction rule: list_all2_induct) (auto simp: resolution_frozen resolution_not_pending)

lemma hash_map_SomeD: "hash_map key xs k = Some x \<Longrightarrow> x \<in> set xs \<and> key x = k"
  by (auto simp: hash_map_def dest!: map_of_SomeD)

lemma hash_map_None: "hash_map key xs k = None \<longleftrightarrow> k \<notin> key ` set xs"
  by (simp add: hash_map_def map_of_eq_None_iff image_image)

lemma hash_map_distinct:
  assumes "distinct (map key xs)"
  shows "hash_map key xs k = Some x \<longleftrightarrow> x \<in> set xs \<and> key x = k"
proof -
  have "distinct (map fst (rev (map (\<lambda>x. (key x, x)) xs)))"
    using assms by (simp add: rev_map [symmetric] comp_def distinct_rev)
  then have "hash_map key xs k = Some x \<longleftrightarrow> (k, x) \<in> set (rev (map (\<lambda>x. (key x, x)) xs))"
    unfolding hash_map_def by (rule map_of_eq_Some_iff)
  then show ?thesis by auto
qed

lemma validate_terminals_loop_Inr:
  "validate_terminals_loop m actual ts = Inr u \<longleftrightarrow>
     distinct (map tt_call_id ts) \<and> set (map tt_call_id ts) \<inter> actual = {}
       \<and> (\<forall>t \<in> set ts. \<exists>p. m (tt_call_id t) = Some p \<and> tt_name t = pl_name p
            \<and> tt_invocation_id t = pl_invocation_id p \<and> tt_effect t = pl_effect p)"
  by (induction m actual ts rule: validate_terminals_loop.induct) (auto split: option.splits)

lemma validate_terminals_ids:
  assumes "validate_terminals plans ts = Inr u"
  shows "distinct (map pl_call_id plans)" "mset (map tt_call_id ts) = mset (map pl_call_id plans)"
proof -
  from assms have len: "length ts = length plans" and dt: "distinct (map tt_call_id ts)"
    and "\<forall>t \<in> set ts. \<exists>p. hash_map pl_call_id plans (tt_call_id t) = Some p"
    by (auto simp: validate_terminals_def validate_terminals_loop_Inr split: if_splits)
  then have "tt_call_id t \<in> pl_call_id ` set plans" if "t \<in> set ts" for t
    using that by (metis hash_map_SomeD image_eqI)
  then have sub: "set (map tt_call_id ts) \<subseteq> set (map pl_call_id plans)" by auto
  have c: "card (set (map tt_call_id ts)) = length plans"
    using distinct_card [OF dt] len by simp
  also have le: "card (set (map tt_call_id ts)) \<le> card (set (map pl_call_id plans))"
    by (rule card_mono) (use sub in auto)
  finally show dp: "distinct (map pl_call_id plans)"
    using card_length [of "map pl_call_id plans"] by (intro card_distinct) (use c le in simp)
  have "set (map tt_call_id ts) = set (map pl_call_id plans)"
    using sub c distinct_card [OF dp] by (intro card_subset_eq) auto
  with dt dp show "mset (map tt_call_id ts) = mset (map pl_call_id plans)"
    by (metis set_eq_iff_mset_eq_distinct)
qed

lemma validate_terminals_Inr:
  "validate_terminals plans ts = Inr u \<longleftrightarrow>
     distinct (map pl_call_id plans) \<and> mset (map tt_call_id ts) = mset (map pl_call_id plans)
       \<and> (\<forall>t \<in> set ts. \<exists>p \<in> set plans. terminal_of p t)"
proof (cases "distinct (map pl_call_id plans) \<and> mset (map tt_call_id ts) = mset (map pl_call_id plans)")
  case True
  then have "length ts = length plans" by (metis length_map mset_eq_length)
  moreover have "distinct (map tt_call_id ts)" using True by (metis mset_eq_imp_distinct_iff)
  ultimately show ?thesis
    using True
    by (simp add: validate_terminals_def validate_terminals_loop_Inr terminal_of_def hash_map_distinct)
       metis
next
  case False
  then show ?thesis using validate_terminals_ids [of plans ts u] by auto
qed

section \<open>What the host guarantees\<close>

definition kernel_invocation :: "string \<Rightarrow> tool_call_id \<Rightarrow> invocation_id" where
  "kernel_invocation scope call_id = InvocationId (scope @ '':'' @ tool_call_id_str call_id)"

lemma kernel_invocation_inj: "kernel_invocation scope a = kernel_invocation scope b \<longleftrightarrow> a = b"
  by (auto simp: kernel_invocation_def tool_call_id.expand)

lemma allocate_one_wp:
  "wp (allocate_invocation_id scope call) Q E seen =
     (let k = kernel_invocation scope (tc_id call) in
      if \<not> unpadded (invocation_id_str k) then E (RuntimeIdentifier (InvalidOpaqueId ''invocation id'')) seen
      else if k \<in> seen then E (InvalidTurn (''provider reused tool call id ''
                  @ tool_call_id_str (tc_id call) @ '' within one turn'')) seen
      else Q k (insert k seen))"
proof (cases "unpadded (invocation_text scope call)")
  case True
  then show ?thesis
    by (simp add: wp_simps allocate_invocation_id_def id_new_ok invocation_text_def kernel_invocation_def Let_def)
next
  case False
  then show ?thesis
    by (simp add: wp_simps allocate_invocation_id_def invocation_text_def kernel_invocation_def
          invocation_id_new_def opaque_id_new_Inl Let_def)
qed

lemma allocate_wp:
  "wp (allocate_invocation_ids scope calls)
     (\<lambda>ids seen'. ids = map (kernel_invocation scope \<circ> tc_id) calls \<and> distinct ids
        \<and> set ids \<inter> seen = {} \<and> seen' = seen \<union> set ids)
     (\<lambda>_ seen'. seen \<subseteq> seen') seen"
  unfolding allocate_invocation_ids_def
proof (induction calls arbitrary: seen)
  case Nil
  then show ?case by (simp add: wp_simps)
next
  case (Cons call calls)
  have "wp (act_collect (allocate_invocation_id scope) calls)
          (\<lambda>ys seen'. ys = map (kernel_invocation scope \<circ> tc_id) calls \<and> k \<notin> set ys \<and> distinct ys
             \<and> set ys \<inter> seen = {} \<and> seen' = insert k (seen \<union> set ys))
          (\<lambda>_ seen'. seen \<subseteq> seen') (insert k seen)" for k
    by (rule wp_mono [OF Cons.IH]) auto
  then show ?case
    by (simp add: wp_simps allocate_one_wp Let_def comp_def)
qed

lemma tool_host_plan_wp:
  "wp (tool_host_plan broker calls)
     (\<lambda>planned h'. \<exists>ids. ids = map (kernel_invocation (th_execution_scope h) \<circ> tc_id) calls
        \<and> map pl_call_id planned = map tc_id calls \<and> map pl_invocation_id planned = ids
        \<and> distinct ids \<and> set ids \<inter> th_seen_invocation_ids h = {}
        \<and> th_seen_invocation_ids h' = th_seen_invocation_ids h \<union> set ids
        \<and> th_execution_scope h' = th_execution_scope h)
     (\<lambda>_ _. True) h"
  unfolding tool_host_plan_def on_tools_def
  by (simp add: wp_simps)
     (rule wp_mono [OF allocate_wp], auto intro!: wp_I split: sum.splits)

lemma tool_host_plan_ok:
  assumes "tool_host_plan broker calls h = (Inr planned, h')"
  shows "map pl_call_id planned = map tc_id calls"
    "map pl_invocation_id planned = map (kernel_invocation (th_execution_scope h) \<circ> tc_id) calls"
    "distinct (map pl_invocation_id planned)"
    "set (map pl_invocation_id planned) \<inter> th_seen_invocation_ids h = {}"
    "th_seen_invocation_ids h' = th_seen_invocation_ids h \<union> set (map pl_invocation_id planned)"
    "th_execution_scope h' = th_execution_scope h"
  using wp_okD [OF tool_host_plan_wp assms] by (metis)+

lemma tool_host_plan_distinct_calls:
  assumes "tool_host_plan broker calls h = (Inr planned, h')"
  shows "distinct (map tc_id calls)"
  using tool_host_plan_ok(2,3) [OF assms] by (metis distinct_map map_map)

lemma tool_host_resolve_ok:
  "tool_host_resolve_approvals broker planned h = (Inr resolved, h') \<Longrightarrow> list_all2 resolution_of planned resolved"
  by (auto simp: tool_host_resolve_approvals_def act_bind_ok act_lift_def act_return_def)

lemma tool_host_execute_ok:
  "tool_host_execute broker resolved h = (Inr completed, h') \<Longrightarrow> validate_terminals resolved completed = Inr ()"
  by (auto simp: tool_host_execute_def act_bind_ok act_lift_def act_return_def)

text \<open>The host forwards to the broker and touches nothing else but the set of identities.\<close>

lemma tool_host_resolve_frame:
  "snd (tool_host_resolve_approvals broker planned h)
     = h\<lparr>th_tools := snd (tb_resolve_approvals broker planned (th_tools h))\<rparr>"
  by (auto simp: tool_host_resolve_approvals_def on_tools_def act_bind_def act_map_err_def act_zoom_def
        act_lift_def act_return_def map_err_def split: prod.splits sum.splits)

lemma tool_host_execute_frame:
  "snd (tool_host_execute broker resolved h)
     = h\<lparr>th_tools := snd (tb_execute broker resolved (th_tools h))\<rparr>"
  by (auto simp: tool_host_execute_def on_tools_def act_bind_def act_map_err_def act_zoom_def
        act_lift_def act_return_def map_err_def split: prod.splits sum.splits)

lemma tool_host_plans_ok:
  "act_collect (tool_host_plan broker) batches h = (Inr plans, h') \<Longrightarrow>
     map (map pl_call_id) plans = map (map tc_id) batches
     \<and> map pl_invocation_id (concat plans) = map (kernel_invocation (th_execution_scope h) \<circ> pl_call_id) (concat plans)
     \<and> distinct (map pl_invocation_id (concat plans))
     \<and> set (map pl_invocation_id (concat plans)) \<inter> th_seen_invocation_ids h = {}"
proof (induction batches arbitrary: h plans)
  case Nil
  then show ?case by (simp add: act_return_def)
next
  case (Cons calls batches)
  then obtain planned h1 plans' where one: "tool_host_plan broker calls h = (Inr planned, h1)"
    and more: "act_collect (tool_host_plan broker) batches h1 = (Inr plans', h')"
    and plans: "plans = planned # plans'"
    by (auto simp: act_bind_ok act_return_def)
  note first = tool_host_plan_ok [OF one] and rest = Cons.IH [OF more]
  have "map pl_invocation_id planned = map (kernel_invocation (th_execution_scope h) \<circ> pl_call_id) planned"
    using first(1,2) by (metis map_map)
  moreover
  have "distinct (map pl_invocation_id (concat plans'))"
    "set (map pl_invocation_id (concat plans')) \<inter> th_seen_invocation_ids h1 = {}"
    using rest by blast+
  with first(3-5) have "distinct (map pl_invocation_id planned @ map pl_invocation_id (concat plans'))"
    "set (map pl_invocation_id planned @ map pl_invocation_id (concat plans')) \<inter> th_seen_invocation_ids h = {}"
    by (auto simp del: list.set_map set_concat)
  ultimately show ?case
    using first(1,6) rest by (simp add: plans del: list.set_map set_concat)
qed

text \<open>A broker for the examples: everything reads, and the terminals come in reverse order.\<close>

definition sample_plan :: "tool_call \<Rightarrow> invocation_id \<Rightarrow> planned_tool_call" where
  "sample_plan call invocation =
     \<lparr>pl_call_id = tc_id call, pl_name = tc_name call, pl_arguments = tc_arguments call,
      pl_invocation_id = invocation, pl_effect = ReadOnly,
      pl_approval = Some \<lparr>ap_required = True, ap_decision = ''pending'', ap_principal = ''user''\<rparr>\<rparr>"

definition sample_terminal :: "planned_tool_call \<Rightarrow> tool_terminal" where
  "sample_terminal plan =
     \<lparr>tt_call_id = pl_call_id plan, tt_name = pl_name plan, tt_status = Succeeded, tt_content = ''ok'',
      tt_invocation_id = pl_invocation_id plan, tt_effect = pl_effect plan, tt_receipt = None\<rparr>"

definition sample_allow :: "planned_tool_call \<Rightarrow> planned_tool_call" where
  "sample_allow plan = plan\<lparr>pl_approval := map_option (ap_decision_update (\<lambda>_. ''allow'')) (pl_approval plan)\<rparr>"

definition sample_broker :: "unit tool_broker" where
  "sample_broker =
     \<lparr>tb_plan = (\<lambda>calls ids. act_return (map2 sample_plan calls ids)),
      tb_resolve_approvals = (\<lambda>plans. act_return (map sample_allow plans)),
      tb_execute = (\<lambda>plans. act_return (rev (map sample_terminal plans)))\<rparr>"

definition sample_call :: "string \<Rightarrow> tool_call" where
  "sample_call i = \<lparr>tc_id = ToolCallId i, tc_name = ''read'', tc_arguments = []\<rparr>"

definition sample_host :: "unit tool_host" where
  "sample_host = \<lparr>th_tools = (), th_execution_scope = ''s'', th_seen_invocation_ids = {}\<rparr>"

lemmas sample_defs =
  sample_plan_def sample_terminal_def sample_allow_def sample_broker_def sample_call_def sample_host_def

lemmas act_eval =
  act_bind_def act_return_def act_lift_def act_read_def act_update_def act_zoom_def act_map_err_def act_try_def

section \<open>Properties\<close>

text \<open>
  C3. Whatever the broker does and however many batches one turn plans, the invocation identities of
  all plans of the turn are pairwise distinct, each is the execution scope and the call's own
  identity, and every batch of plans has the calls it was asked for, in their order.
\<close>

theorem tool_host_invocations_unique:
  assumes "tool_host_new tools scope = Ok host"
    and "act_collect (tool_host_plan broker) batches host = (Ok plans, host')"
  shows "distinct (map pl_invocation_id (concat plans))
     \<and> map pl_invocation_id (concat plans) = map (kernel_invocation scope \<circ> pl_call_id) (concat plans)
     \<and> map (map pl_call_id) plans = map (map tc_id) batches"
proof -
  have "th_execution_scope host = scope" using assms(1) by (auto simp: tool_host_new_def split: if_splits)
  then show ?thesis using tool_host_plans_ok [OF assms(2)] by simp
qed

theorem tool_host_invocations_unique_witness:
  "let plans = map (\<lambda>i. [sample_plan (sample_call i) (InvocationId (''s:'' @ i))]) [''a'', ''b''] in
   distinct (map pl_invocation_id (concat plans))
     \<and> map pl_invocation_id (concat plans) = map (kernel_invocation ''s'' \<circ> pl_call_id) (concat plans)
     \<and> map (map pl_call_id) plans = map (map tc_id) [[sample_call ''a''], [sample_call ''b'']]"
  unfolding Let_def
  by (rule tool_host_invocations_unique [of "()" _ sample_host sample_broker _ _
        "sample_host\<lparr>th_seen_invocation_ids := {InvocationId ''s:b'', InvocationId ''s:a''}\<rparr>"])
     (simp_all add: sample_defs tool_host_new_def tool_host_plan_def allocate_invocation_ids_def
        allocate_invocation_id_def invocation_text_def on_tools_def id_new_ok unpadded_plain plain_char_def
        validate_plans_def act_eval)

text \<open>
  C4. What approval resolution returns is the planned batch with every pending approval decided by
  \<open>allow\<close> or \<open>deny\<close> and nothing else changed: no broker can alter, drop or add a call, or rewrite a
  decision that was already taken.
\<close>

theorem resolution_freezes_plans:
  assumes "tool_host_resolve_approvals broker planned host = (Ok resolved, host')"
  shows "list_all2 resolution_of planned resolved \<and> list_all (\<lambda>plan. \<not> plan_pending plan) resolved"
  using tool_host_resolve_ok [OF assms] by (simp add: resolutions_frozen(3))

theorem resolution_freezes_plans_witness:
  "list_all2 resolution_of [sample_plan (sample_call ''a'') (InvocationId ''s:a'')]
       [sample_allow (sample_plan (sample_call ''a'') (InvocationId ''s:a''))]
     \<and> list_all (\<lambda>plan. \<not> plan_pending plan) [sample_allow (sample_plan (sample_call ''a'') (InvocationId ''s:a''))]"
  by (rule resolution_freezes_plans [of sample_broker _ sample_host])
     (simp add: sample_defs tool_host_resolve_approvals_def on_tools_def validate_approval_resolution_def
        validate_resolved_call_def approval_pending_def act_eval)

text \<open>
  The terminals the host accepts are exactly one per planned call, in any order, each reporting on
  its plan with the name, invocation identity and effect that were frozen.
\<close>

theorem execution_answers_each_plan_once:
  assumes "tool_host_execute broker resolved host = (Ok completed, host')"
  shows "distinct (map pl_call_id resolved) \<and> mset (map tt_call_id completed) = mset (map pl_call_id resolved)
     \<and> (\<forall>terminal \<in> set completed. \<exists>plan \<in> set resolved. terminal_of plan terminal)"
  using tool_host_execute_ok [OF assms] unfolding validate_terminals_Inr .

theorem execution_answers_each_plan_once_witness:
  "let resolved = map (\<lambda>i. sample_plan (sample_call i) (InvocationId i)) [''a'', ''b''];
       completed = rev (map sample_terminal resolved) in
   distinct (map pl_call_id resolved) \<and> mset (map tt_call_id completed) = mset (map pl_call_id resolved)
     \<and> (\<forall>terminal \<in> set completed. \<exists>plan \<in> set resolved. terminal_of plan terminal)"
  unfolding Let_def
  by (rule execution_answers_each_plan_once [of sample_broker _ sample_host])
     (simp add: sample_defs tool_host_execute_def on_tools_def validate_terminals_def hash_map_def act_eval)

end
