(* ===== verification/Runtime_Project.thy ===== *)
theory Runtime_Project
  imports Runtime_ToolHost
begin

text \<open>
  \<open>crates/runtime/src/lib.rs\<close>, between semantic and provider-facing conversations:
  \<open>project_conversation\<close>, \<open>semanticize\<close> and their helpers. The text codec of \<open>serde_json\<close> and
  the \<open>Debug\<close> text of a string are parameters. Proved here: a projected conversation reads back as
  the same conversation up to what a provider never sees, and what was read back projects to the
  same provider messages again.
\<close>

section \<open>Text of JSON values\<close>

text \<open>
  \<open>rt_to_string\<close> is \<open>serde_json::to_string\<close>, \<open>rt_parse_object\<close> is \<open>from_str\<close> at
  \<open>BTreeMap<String, Value>\<close> (an error by its text), \<open>rt_debug_str\<close> is \<open>{:?}\<close> of a string.
\<close>

record runtime_text =
  rt_to_string :: "json \<Rightarrow> string + string"
  rt_parse_object :: "string \<Rightarrow> string + tool_arguments"
  rt_debug_str :: "string \<Rightarrow> string"

text \<open>What \<open>serde_json\<close> documents: a rendered object parses to itself, and rendering is never empty.\<close>

definition text_round_trip :: "runtime_text \<Rightarrow> tool_arguments \<Rightarrow> bool" where
  "text_round_trip rt args \<longleftrightarrow>
     (case rt_to_string rt (JObject args) of
        Inl _ \<Rightarrow> False
      | Inr s \<Rightarrow> s \<noteq> [] \<and> rt_parse_object rt s = Inr args)"

section \<open>Statuses\<close>

fun parse_status :: "runtime_text \<Rightarrow> string \<Rightarrow> runtime_error + tool_result_status" where
  "parse_status rt value =
     (if value = ''succeeded'' then Ok Succeeded
      else if value = ''failed'' then Ok Failed
      else if value = ''cancelled'' then Ok Cancelled
      else if value = ''rejected'' then Ok Rejected
      else if value = ''outcome_unknown'' then Ok OutcomeUnknown
      else if value = ''observed'' then Ok Observed
      else Err (InvalidTurn (''unknown tool terminal status '' @ rt_debug_str rt value)))"

declare parse_status.simps [simp del]

lemma parse_status_name [simp]: "parse_status rt (status_name s) = Ok s"
  by (cases s) (simp_all add: parse_status.simps)

section \<open>Semantic to provider\<close>

definition provider_call_of :: "runtime_text \<Rightarrow> tool_call \<Rightarrow> string + provider_tool_call" where
  "provider_call_of rt call =
     and_then (rt_to_string rt (JObject (tc_arguments call))) (\<lambda>arguments.
       Ok \<lparr>pt_id = tool_call_id_str (tc_id call), pt_kind = ''function'',
           pt_function = \<lparr>pf_name = tc_name call, pf_arguments = arguments\<rparr>\<rparr>)"

text \<open>\<open>(!s.is_empty()).then(|| s.to_owned())\<close>.\<close>

definition non_empty :: "string \<Rightarrow> string option" where
  "non_empty s = (if s = [] then None else Some s)"

definition provider_tool_request ::
  "runtime_text \<Rightarrow> string \<Rightarrow> string \<Rightarrow> tool_call list \<Rightarrow> json option \<Rightarrow> runtime_error + provider_message" where
  "provider_tool_request rt content reasoning calls provider_replay =
     and_then (map_err RuntimeJson (collect_results (provider_call_of rt) calls)) (\<lambda>tool_calls.
       Ok (PAssistant (non_empty content) (non_empty reasoning) tool_calls provider_replay))"

definition project_result :: "tool_result \<Rightarrow> runtime_error + provider_message" where
  "project_result result =
     and_then (ok_or (InvalidTurn (''persisted tool result '' @ tool_call_id_str (tr_call_id result)
                 @ '' has no execution key'')) (tr_execution_key result)) (\<lambda>execution_key.
       Ok (PTool (tool_call_id_str (tr_call_id result)) (status_name (tr_status result))
             (tr_content result) execution_key))"

lemma project_result_Some:
  "tr_execution_key r = Some key \<Longrightarrow> project_result r =
     Inr (PTool (tool_call_id_str (tr_call_id r)) (status_name (tr_status r)) (tr_content r) key)"
  by (simp add: project_result_def)

definition opt_str :: "string option \<Rightarrow> string" where
  "opt_str m = (case m of None \<Rightarrow> [] | Some s \<Rightarrow> s)"

fun project_message :: "runtime_text \<Rightarrow> semantic_message \<Rightarrow> runtime_error + provider_message list" where
  "project_message rt (User content _) = Ok [PUser content]"
| "project_message rt (Assistant content reasoning replay) = Ok [PAssistant (Some content) reasoning [] replay]"
| "project_message rt (AssistantToolRequest content calls reasoning replay) =
     and_then (provider_tool_request rt (opt_str content) (opt_str reasoning) calls replay) (\<lambda>m. Ok [m])"
| "project_message rt (ToolResultBatch results) = collect_results project_result results"

definition project_conversation ::
  "runtime_text \<Rightarrow> semantic_message list \<Rightarrow> runtime_error + provider_message list" where
  "project_conversation rt messages =
     and_then (map_err RuntimeConversation (conversation_new messages)) (\<lambda>_.
     and_then (collect_results (project_message rt) messages) (\<lambda>projected. Ok (concat projected)))"

section \<open>Provider to semantic\<close>

definition semantic_call_of :: "runtime_text \<Rightarrow> provider_tool_call \<Rightarrow> runtime_error + tool_call" where
  "semantic_call_of rt call =
     and_then (map_err RuntimeIdentifier (tool_call_id_new (pt_id call))) (\<lambda>call_id.
     and_then (map_err RuntimeJson (rt_parse_object rt (pf_arguments (pt_function call)))) (\<lambda>arguments.
       Ok \<lparr>tc_id = call_id, tc_name = pf_name (pt_function call), tc_arguments = arguments\<rparr>))"

text \<open>The inner \<open>while let\<close>: the tool messages at the front, and what follows them.\<close>

fun take_tool_results ::
  "runtime_text \<Rightarrow> provider_message list \<Rightarrow> runtime_error + tool_result list \<times> provider_message list" where
  "take_tool_results rt (PTool tool_call_id status content execution_key # messages) =
     and_then (map_err RuntimeIdentifier (tool_call_id_new tool_call_id)) (\<lambda>call_id.
     and_then (parse_status rt status) (\<lambda>st.
     and_then (take_tool_results rt messages) (\<lambda>(results, rest).
       Ok (\<lparr>tr_call_id = call_id, tr_status = st, tr_content = content,
            tr_execution_key = Some execution_key\<rparr> # results, rest))))"
| "take_tool_results rt messages = Ok ([], messages)"

lemma take_tool_results_shorter:
  "take_tool_results rt ms = Inr (results, rest) \<Longrightarrow> length rest \<le> length ms"
  by (induction rt ms arbitrary: results rule: take_tool_results.induct)
     (auto simp: and_then_eq_Inr intro: le_SucI)

function semanticize_loop :: "runtime_text \<Rightarrow> provider_message list \<Rightarrow> runtime_error + semantic_message list" where
  "semanticize_loop rt [] = Ok []"
| "semanticize_loop rt (PSystem _ # messages) = semanticize_loop rt messages"
| "semanticize_loop rt (PUser content # messages) =
     and_then (semanticize_loop rt messages) (\<lambda>semantic. Ok (User content None # semantic))"
| "semanticize_loop rt (PAssistant content reasoning tool_calls replay # messages) =
     (if tool_calls = [] then
        and_then (semanticize_loop rt messages) (\<lambda>semantic. Ok (Assistant (opt_str content) reasoning replay # semantic))
      else
        and_then (collect_results (semantic_call_of rt) tool_calls) (\<lambda>calls.
        and_then (take_tool_results rt messages) (\<lambda>batch.
          if map tr_call_id (fst batch) \<noteq> map tc_id calls
          then Err (InvalidTurn ''tool results must be complete and ordered like assistant calls'')
          else and_then (semanticize_loop rt (snd batch)) (\<lambda>semantic.
            Ok (AssistantToolRequest content calls reasoning replay # ToolResultBatch (fst batch) # semantic)))))"
| "semanticize_loop rt (PTool _ _ _ _ # messages) =
     Err (InvalidTurn ''provider conversation contains an orphaned tool result'')"
  by pat_completeness auto
termination
  by (relation "measure (length \<circ> snd)") (auto dest: take_tool_results_shorter)

definition semanticize :: "runtime_text \<Rightarrow> provider_message list \<Rightarrow> runtime_error + semantic_message list" where
  "semanticize rt messages =
     and_then (semanticize_loop rt messages) (\<lambda>semantic. map_err RuntimeConversation (conversation_new semantic))"

section \<open>Provider results\<close>

definition provider_tool_result :: "runtime_text \<Rightarrow> tool_terminal \<Rightarrow> runtime_error + provider_message" where
  "provider_tool_result rt terminal =
     and_then
       (if tt_status terminal = Succeeded then Ok (tt_content terminal)
        else map_err RuntimeJson (rt_to_string rt (jobject
          [(''execution_key'', JString (invocation_id_str (tt_invocation_id terminal))),
           (''message'', JString (tt_content terminal)),
           (''status'', JString (status_name (tt_status terminal)))])))
       (\<lambda>content. Ok (PTool (tool_call_id_str (tt_call_id terminal)) (status_name (tt_status terminal))
                        content (invocation_id_str (tt_invocation_id terminal))))"

section \<open>Reading a projection back\<close>

text \<open>
  What a provider does not see: the display form of a user message, and the difference between an
  absent and an empty text next to a tool request.
\<close>

fun provider_view :: "semantic_message \<Rightarrow> semantic_message" where
  "provider_view (User content _) = User content None"
| "provider_view (AssistantToolRequest content calls reasoning replay) =
     AssistantToolRequest (non_empty (opt_str content)) calls (non_empty (opt_str reasoning)) replay"
| "provider_view m = m"

text \<open>
  A message the runtime can project: identities made by their constructors, arguments that the
  codec renders and reads back, results with an execution key.
\<close>

fun projectable :: "runtime_text \<Rightarrow> semantic_message \<Rightarrow> bool" where
  "projectable rt (AssistantToolRequest _ calls _ _) =
     list_all (\<lambda>c. unpadded (tool_call_id_str (tc_id c)) \<and> text_round_trip rt (tc_arguments c)) calls"
| "projectable rt (ToolResultBatch results) =
     list_all (\<lambda>r. unpadded (tool_call_id_str (tr_call_id r)) \<and> tr_execution_key r \<noteq> None) results"
| "projectable rt _ = True"

lemma non_empty_simps [simp]:
  "opt_str (non_empty s) = s" "opt_str None = []" "opt_str (Some s) = s" "non_empty [] = None"
  by (simp_all add: non_empty_def opt_str_def)

lemma provider_view_idem [simp]: "provider_view (provider_view m) = provider_view m"
  by (cases m) simp_all

lemma project_message_view: "project_message rt (provider_view m) = project_message rt m"
  by (cases m) simp_all

lemma legal_view:
  "legal ms \<Longrightarrow> legal (map provider_view ms)"
  "in_turn ms \<Longrightarrow> in_turn (map provider_view ms)"
  by (induction rule: legal_in_turn.inducts) (auto intro: legal_in_turn.intros)

lemma call_round_trip:
  assumes "unpadded (tool_call_id_str (tc_id c))" "text_round_trip rt (tc_arguments c)"
  obtains pc where "provider_call_of rt c = Inr pc" "semantic_call_of rt pc = Inr c"
    "pt_kind pc = ''function''"
proof -
  obtain s where "rt_to_string rt (JObject (tc_arguments c)) = Inr s" "rt_parse_object rt s = Inr (tc_arguments c)"
    using assms(2) by (auto simp: text_round_trip_def split: sum.splits)
  then show ?thesis
    by (intro that [of "\<lparr>pt_id = tool_call_id_str (tc_id c), pt_kind = ''function'',
                 pt_function = \<lparr>pf_name = tc_name c, pf_arguments = s\<rparr>\<rparr>"])
       (simp_all add: provider_call_of_def semantic_call_of_def id_new_ok assms(1))
qed

lemma calls_round_trip:
  assumes "list_all (\<lambda>c. unpadded (tool_call_id_str (tc_id c)) \<and> text_round_trip rt (tc_arguments c)) calls"
  obtains pcs where "collect_results (provider_call_of rt) calls = Inr pcs"
    "collect_results (semantic_call_of rt) pcs = Inr calls" "pcs = [] \<longleftrightarrow> calls = []"
  using assms
proof (induction calls arbitrary: thesis)
  case Nil
  then show ?case by simp
next
  case (Cons c calls)
  obtain pcs where "collect_results (provider_call_of rt) calls = Inr pcs"
    "collect_results (semantic_call_of rt) pcs = Inr calls"
    using Cons by auto
  moreover obtain pc where "provider_call_of rt c = Inr pc" "semantic_call_of rt pc = Inr c"
    using Cons.prems(2) call_round_trip [of c rt] by auto
  ultimately show ?case using Cons.prems(1) [of "pc # pcs"] by simp
qed

definition no_tool_head :: "provider_message list \<Rightarrow> bool" where
  "no_tool_head ms \<longleftrightarrow> (\<forall>a b c d rest. ms \<noteq> PTool a b c d # rest)"

lemma take_no_tool_head: "no_tool_head ms \<Longrightarrow> take_tool_results rt ms = Inr ([], ms)"
  by (cases ms; cases "hd ms") (auto simp: no_tool_head_def)

lemma results_round_trip:
  assumes "list_all (\<lambda>r. unpadded (tool_call_id_str (tr_call_id r)) \<and> tr_execution_key r \<noteq> None) rs"
  obtains pms where "collect_results project_result rs = Inr pms"
    "\<And>rest. no_tool_head rest \<Longrightarrow> take_tool_results rt (pms @ rest) = Inr (rs, rest)"
  using assms
proof (induction rs arbitrary: thesis)
  case Nil
  then show ?case by (simp add: take_no_tool_head)
next
  case (Cons r rs)
  then obtain pms where "collect_results project_result rs = Inr pms"
    "\<And>rest. no_tool_head rest \<Longrightarrow> take_tool_results rt (pms @ rest) = Inr (rs, rest)"
    by auto
  moreover obtain key where key: "tr_execution_key r = Some key" and "unpadded (tool_call_id_str (tr_call_id r))"
    using Cons.prems(2) by auto
  moreover note project_result_Some [OF key]
  ultimately show ?case
    by (intro Cons.prems(1) [of "PTool (tool_call_id_str (tr_call_id r)) (status_name (tr_status r)) (tr_content r) key # pms"])
       (simp_all add: id_new_ok)
qed

lemma project_semanticize_loop:
  "legal ms \<Longrightarrow> list_all (projectable rt) ms \<Longrightarrow>
     \<exists>pss. collect_results (project_message rt) ms = Inr pss
       \<and> semanticize_loop rt (concat pss) = Inr (map provider_view ms)"
  "in_turn ms \<Longrightarrow> list_all (projectable rt) ms \<Longrightarrow>
     \<exists>pss. collect_results (project_message rt) ms = Inr pss
       \<and> semanticize_loop rt (concat pss) = Inr (map provider_view ms) \<and> no_tool_head (concat pss)"
proof (induction rule: legal_in_turn.inducts)
  case (in_turn_round calls results ms c r p)
  obtain pcs where "collect_results (provider_call_of rt) calls = Inr pcs"
    "collect_results (semantic_call_of rt) pcs = Inr calls" "pcs = [] \<longleftrightarrow> calls = []"
    using in_turn_round.prems calls_round_trip [of rt calls] by auto
  moreover obtain pms where "collect_results project_result results = Inr pms"
    "\<And>rest. no_tool_head rest \<Longrightarrow> take_tool_results rt (pms @ rest) = Inr (results, rest)"
    using in_turn_round.prems results_round_trip [of results] by auto
  ultimately show ?case
    using in_turn_round
    by (auto simp: provider_tool_request_def calls_legal_def no_tool_head_def)
qed (auto simp: no_tool_head_def)

lemma project_semanticize:
  assumes "legal ms" "list_all (projectable rt) ms"
  obtains pms where "project_conversation rt ms = Inr pms" "semanticize rt pms = Inr (map provider_view ms)"
proof -
  obtain pss where pss: "collect_results (project_message rt) ms = Inr pss"
    "semanticize_loop rt (concat pss) = Inr (map provider_view ms)"
    using project_semanticize_loop(1) [OF assms] by blast
  show ?thesis
    by (rule that [of "concat pss"])
       (use pss legal_view(1) [OF assms(1)] in
         \<open>simp_all add: project_conversation_def semanticize_def conversation_new_legal assms\<close>)
qed

lemma project_view:
  assumes "legal ms"
  shows "project_conversation rt (map provider_view ms) = project_conversation rt ms"
proof -
  have "collect_results (project_message rt) (map provider_view ms) = collect_results (project_message rt) ms"
    by (induction ms) (simp_all add: project_message_view split: sum.split)
  then show ?thesis
    using assms by (simp add: project_conversation_def conversation_new_legal legal_view)
qed

section \<open>Projecting what was read\<close>

text \<open>
  The messages a turn appends: an assistant message has its text, a tool request no empty text, and
  every call is a function call.
\<close>

fun turn_shaped :: "provider_message \<Rightarrow> bool" where
  "turn_shaped (PSystem _) = False"
| "turn_shaped (PAssistant content reasoning calls _) =
     (if calls = [] then content \<noteq> None
      else content \<noteq> Some [] \<and> reasoning \<noteq> Some [] \<and> list_all (\<lambda>c. pt_kind c = ''function'') calls)"
| "turn_shaped _ = True"

text \<open>The arguments of every call are the text the codec gives for the value it reads from them.\<close>

definition text_stable :: "runtime_text \<Rightarrow> string \<Rightarrow> bool" where
  "text_stable rt s =
     (case rt_parse_object rt s of Inl _ \<Rightarrow> False | Inr args \<Rightarrow> rt_to_string rt (JObject args) = Inr s)"

fun arguments_stable :: "runtime_text \<Rightarrow> provider_message \<Rightarrow> bool" where
  "arguments_stable rt (PAssistant _ _ calls _) =
     list_all (\<lambda>c. text_stable rt (pf_arguments (pt_function c))) calls"
| "arguments_stable rt _ = True"

lemma parse_status_Inr: "parse_status rt v = Inr st \<Longrightarrow> v = status_name st"
  by (auto simp: parse_status.simps split: if_splits)

lemma take_tool_results_project:
  "take_tool_results rt ms = Inr (rs, rest) \<Longrightarrow>
     \<exists>pms. collect_results project_result rs = Inr pms \<and> ms = pms @ rest"
proof (induction ms arbitrary: rs)
  case Nil
  then show ?case by simp
next
  case (Cons m ms)
  show ?case
  proof (cases m)
    case (PTool i v c k)
    with Cons.prems obtain st rs' where st: "parse_status rt v = Inr st" and rs: "rs =
        \<lparr>tr_call_id = ToolCallId i, tr_status = st, tr_content = c, tr_execution_key = Some k\<rparr> # rs'"
      and rest: "take_tool_results rt ms = Inr (rs', rest)"
      by (auto simp: and_then_eq_Inr)
    obtain pms where "collect_results project_result rs' = Inr pms" "ms = pms @ rest"
      using Cons.IH [OF rest] by auto
    then show ?thesis
      by (auto simp: rs PTool project_result_Some parse_status_Inr [OF st])
  qed (use Cons.prems in auto)
qed

lemma semantic_call_project:
  "semantic_call_of rt pc = Inr c \<Longrightarrow> pt_kind pc = ''function'' \<Longrightarrow>
     text_stable rt (pf_arguments (pt_function pc)) \<Longrightarrow> provider_call_of rt c = Inr pc"
  by (cases pc, cases "pt_function pc")
     (auto simp: semantic_call_of_def provider_call_of_def and_then_eq_Inr text_stable_def)

lemma semantic_calls_project:
  "collect_results (semantic_call_of rt) pcs = Inr cs \<Longrightarrow> list_all (\<lambda>c. pt_kind c = ''function'') pcs \<Longrightarrow>
     list_all (\<lambda>c. text_stable rt (pf_arguments (pt_function c))) pcs \<Longrightarrow>
     collect_results (provider_call_of rt) cs = Inr pcs"
proof (induction pcs arbitrary: cs)
  case Nil
  then show ?case by simp
next
  case (Cons pc pcs)
  then show ?case by (auto split: sum.splits simp: semantic_call_project)
qed

lemma non_empty_opt_str: "m \<noteq> Some [] \<Longrightarrow> non_empty (opt_str m) = m"
  by (cases m) (auto simp: non_empty_def)

lemma semanticize_loop_project:
  "semanticize_loop rt ms = Inr sem \<Longrightarrow> list_all turn_shaped ms \<Longrightarrow> list_all (arguments_stable rt) ms \<Longrightarrow>
     \<exists>pss. collect_results (project_message rt) sem = Inr pss \<and> concat pss = ms"
proof (induction rt ms arbitrary: sem rule: semanticize_loop.induct)
  case (4 rt content reasoning calls replay ms)
  show ?case
  proof (cases "calls = []")
    case True
    with 4 show ?thesis by (fastforce simp: and_then_eq_Inr opt_str_def)
  next
    case False
    with "4.prems"(1) obtain cs rs rest sem' where
      cs: "collect_results (semantic_call_of rt) calls = Inr cs"
      and rs: "take_tool_results rt ms = Inr (rs, rest)"
      and rest: "semanticize_loop rt rest = Inr sem'"
      and sem: "sem = AssistantToolRequest content cs reasoning replay # ToolResultBatch rs # sem'"
      and order: "map tr_call_id rs = map tc_id cs"
      by (auto simp: and_then_eq_Inr split: if_splits)
    obtain pms where pms: "collect_results project_result rs = Inr pms" "ms = pms @ rest"
      using take_tool_results_project [OF rs] by auto
    obtain pss where pss: "collect_results (project_message rt) sem' = Inr pss" "concat pss = rest"
      using "4.IH"(2) [OF False cs rs, of sem'] order rest pms(2) "4.prems" by auto
    have "collect_results (provider_call_of rt) cs = Inr calls"
      using semantic_calls_project [OF cs] "4.prems" False by simp
    then show ?thesis
      using "4.prems" False pms pss by (auto simp: sem provider_tool_request_def non_empty_opt_str)
  qed
qed (fastforce simp: and_then_eq_Inr)+

lemma semanticize_project:
  assumes "semanticize rt ms = Inr sem" "list_all turn_shaped ms" "list_all (arguments_stable rt) ms"
  shows "project_conversation rt sem = Inr ms"
proof -
  have sem: "semanticize_loop rt ms = Inr sem" "legal sem"
    using assms(1) by (auto simp: semanticize_def and_then_eq_Inr conversation_new_Inr)
  then obtain pss where "collect_results (project_message rt) sem = Inr pss" "concat pss = ms"
    using semanticize_loop_project [OF sem(1) assms(2,3)] by auto
  then show ?thesis
    using sem by (simp add: project_conversation_def conversation_new_legal)
qed

section \<open>Properties\<close>

text \<open>A codec for the examples, which knows the empty object only.\<close>

definition sample_text :: runtime_text where
  "sample_text =
     \<lparr>rt_to_string = (\<lambda>j. if j = JObject [] then Ok ''{}'' else Err ''unsupported''),
      rt_parse_object = (\<lambda>s. if s = ''{}'' then Ok [] else Err ''unsupported''),
      rt_debug_str = (\<lambda>s. s)\<rparr>"

definition sample_history :: "semantic_message list" where
  "sample_history =
     [User ''hi'' (Some ''Hi''), AssistantToolRequest None [sample_call ''a''] None None,
      ToolResultBatch [\<lparr>tr_call_id = ToolCallId ''a'', tr_status = Failed, tr_content = ''no'',
                        tr_execution_key = Some ''s:a''\<rparr>],
      Assistant ''done'' None None]"

lemma sample_history_legal: "legal sample_history"
  by (simp add: sample_history_def legal_Cons in_turn_Cons calls_legal_def sample_call_def)

text \<open>
  C6. A legal conversation projects to provider messages, and reading these back gives the same
  conversation, up to what a provider never sees (the display form of a user message, an empty text
  beside a tool request). Projecting what was read gives the same provider messages again.
\<close>

theorem projection_reads_back:
  assumes "legal messages" "list_all (projectable rt) messages"
  shows "\<exists>projected. project_conversation rt messages = Ok projected
     \<and> semanticize rt projected = Ok (map provider_view messages)
     \<and> project_conversation rt (map provider_view messages) = Ok projected"
proof -
  obtain projected where "project_conversation rt messages = Inr projected"
    "semanticize rt projected = Inr (map provider_view messages)"
    using project_semanticize [OF assms] .
  then show ?thesis by (simp add: project_view [OF assms(1)])
qed

theorem projection_reads_back_witness:
  "\<exists>projected. project_conversation sample_text sample_history = Ok projected
     \<and> semanticize sample_text projected = Ok (map provider_view sample_history)
     \<and> project_conversation sample_text (map provider_view sample_history) = Ok projected"
  by (rule projection_reads_back [OF sample_history_legal])
     (simp add: sample_history_def sample_text_def sample_call_def text_round_trip_def unpadded_plain plain_char_def)

text \<open>
  A provider history of the shape a turn builds, with arguments the codec renders as they were,
  survives persistence: the semantic conversation read from it projects back to exactly these
  provider messages.
\<close>

theorem history_replays_unchanged:
  assumes "semanticize rt messages = Ok semantic"
    and "list_all turn_shaped messages" "list_all (arguments_stable rt) messages"
  shows "project_conversation rt semantic = Ok messages"
  using assms by (rule semanticize_project)

theorem history_replays_unchanged_witness:
  "project_conversation sample_text
     [User ''hi'' None, AssistantToolRequest None [sample_call ''a''] None None,
      ToolResultBatch [\<lparr>tr_call_id = ToolCallId ''a'', tr_status = Failed, tr_content = ''no'',
                        tr_execution_key = Some ''s:a''\<rparr>]]
   = Ok [PUser ''hi'',
         PAssistant None None [\<lparr>pt_id = ''a'', pt_kind = ''function'',
           pt_function = \<lparr>pf_name = ''read'', pf_arguments = ''{}''\<rparr>\<rparr>] None,
         PTool ''a'' ''failed'' ''no'' ''s:a'']"
  by (rule history_replays_unchanged)
     (simp_all add: semanticize_def sample_text_def text_stable_def semantic_call_of_def id_new_ok
        unpadded_plain plain_char_def parse_status.simps sample_call_def conversation_new_def
        validate_calls_def)

end
