(* ===== verification/Runtime_Turn.thy ===== *)
theory Runtime_Turn
  imports Runtime_Project
begin

text \<open>
  \<open>crates/runtime/src/lib.rs\<close>, the turn: \<open>run_turn_with_limit_observed\<close> and what it calls. One
  provider attempt is a fold over the events of its stream; an attempt ends the turn, asks for the
  next attempt after a provider failure, or runs a tool round. \<open>turn_loop\<close> recurses on the attempts
  the budget has left, so the turn always returns.
\<close>

section \<open>State\<close>

record partial_tool_call =
  pc_id :: "string option"
  pc_name :: "string option"
  pc_arguments :: string

definition partial_default :: partial_tool_call where
  "partial_default = \<lparr>pc_id = None, pc_name = None, pc_arguments = []\<rparr>"

datatype attempt_terminal =
    AttemptCompleted string "json option"
  | AttemptError string
  | AttemptCancelled string
  | AttemptMalformed string

text \<open>The local variables of one attempt.\<close>

record attempt_state =
  as_text :: string
  as_reasoning :: string
  as_partial_calls :: "(nat, partial_tool_call) btree"
  as_terminal :: "attempt_terminal option"
  as_visible_output :: bool

definition attempt_start :: attempt_state where
  "attempt_start = \<lparr>as_text = [], as_reasoning = [], as_partial_calls = [], as_terminal = None,
                    as_visible_output = False\<rparr>"

text \<open>
  The local variables of the turn, with the three objects it borrows: the provider, the broker (in
  the tool host) and the event observer. \<open>tu_events\<close> is \<open>PublicEventLog.events\<close>.
\<close>

record ('p, 'b, 'o) turn_state =
  tu_provider :: 'p
  tu_host :: "'b tool_host"
  tu_observer :: 'o
  tu_events :: "json list"
  tu_raw_messages :: "provider_message list"
  tu_provider_requests :: "provider_request_record list"
  tu_persistence_intents :: "json list"
  tu_usage :: usage

record ('p, 'b, 'o) turn_ports =
  tp_text :: runtime_text
  tp_provider :: "'p provider"
  tp_tools :: "'b tool_broker"
  tp_observe :: "json \<Rightarrow> ('o, runtime_event_observer_error, unit) action"

type_synonym ('p, 'b, 'o, 'a) turn_action = "(('p, 'b, 'o) turn_state, runtime_error, 'a) action"

text \<open>\<open>NoopEventObserver\<close>.\<close>

definition noop_observe :: "json \<Rightarrow> (unit, runtime_event_observer_error, unit) action" where
  "noop_observe event = act_return ()"

text \<open>\<open>PublicEventLog::push\<close>: an event is logged only when the observer took it.\<close>

definition push_event :: "('p, 'b, 'o) turn_ports \<Rightarrow> json \<Rightarrow> ('p, 'b, 'o, unit) turn_action" where
  "push_event ports event =
     act_bind (act_map_err RuntimeEventObserver
                (act_zoom tu_observer (\<lambda>obs s. s\<lparr>tu_observer := obs\<rparr>) (tp_observe ports event)))
       (\<lambda>_. act_update (\<lambda>s. s\<lparr>tu_events := tu_events s @ [event]\<rparr>))"

definition push_intent :: "json \<Rightarrow> ('p, 'b, 'o, unit) turn_action" where
  "push_intent intent = act_update (\<lambda>s. s\<lparr>tu_persistence_intents := tu_persistence_intents s @ [intent]\<rparr>)"

definition push_messages :: "provider_message list \<Rightarrow> ('p, 'b, 'o, unit) turn_action" where
  "push_messages ms = act_update (\<lambda>s. s\<lparr>tu_raw_messages := tu_raw_messages s @ ms\<rparr>)"

definition on_host :: "('b tool_host, runtime_error, 'a) action \<Rightarrow> ('p, 'b, 'o, 'a) turn_action" where
  "on_host m = act_zoom tu_host (\<lambda>h s. s\<lparr>tu_host := h\<rparr>) m"

section \<open>The stream of one attempt\<close>

definition merge_stable_fragment ::
  "string option \<Rightarrow> string option \<Rightarrow> nat \<Rightarrow> string \<Rightarrow> runtime_error + string option" where
  "merge_stable_fragment current incoming index field =
     (case incoming of
        None \<Rightarrow> Ok current
      | Some new \<Rightarrow>
          (case current of
             Some old \<Rightarrow>
               if old \<noteq> new
               then Err (InvalidTurn (''tool call '' @ show_nat index @ '' changed '' @ field @ '' mid-stream''))
               else Ok current
           | None \<Rightarrow> Ok (Some new)))"

definition merge_tool_call_delta ::
  "nat \<Rightarrow> string option \<Rightarrow> string option \<Rightarrow> string \<Rightarrow> attempt_state \<Rightarrow> runtime_error + attempt_state" where
  "merge_tool_call_delta index call_id name arguments_delta a =
     (let partial = (case btree_get (as_partial_calls a) index of None \<Rightarrow> partial_default | Some p \<Rightarrow> p) in
      and_then (merge_stable_fragment (pc_id partial) call_id index ''id'') (\<lambda>call_id'.
      and_then (merge_stable_fragment (pc_name partial) name index ''name'') (\<lambda>name'.
        Ok (a\<lparr>as_visible_output := True,
             as_partial_calls := btree_insert index
               \<lparr>pc_id = call_id', pc_name = name', pc_arguments = pc_arguments partial @ arguments_delta\<rparr>
               (as_partial_calls a)\<rparr>))))"

definition add_usage :: "usage \<Rightarrow> usage \<Rightarrow> usage" where
  "add_usage acc u =
     \<lparr>us_prompt_tokens = us_prompt_tokens acc + us_prompt_tokens u,
      us_completion_tokens = us_completion_tokens acc + us_completion_tokens u,
      us_total_tokens = us_total_tokens acc + us_total_tokens u,
      us_cached_tokens = us_cached_tokens acc + us_cached_tokens u\<rparr>"

definition or_default :: "string \<Rightarrow> string option \<Rightarrow> string" where
  "or_default d m = (case m of None \<Rightarrow> d | Some s \<Rightarrow> s)"

text \<open>The arms of the \<open>match event\<close>.\<close>

fun attempt_event ::
  "('p, 'b, 'o) turn_ports \<Rightarrow> string \<Rightarrow> provider_event \<Rightarrow> attempt_state
     \<Rightarrow> ('p, 'b, 'o, attempt_state) turn_action" where
  "attempt_event ports attempt_id EvMessageStart a =
     act_bind (push_event ports (jobject [(''type'', JString ''message.start''),
                                          (''attempt_id'', JString attempt_id)]))
       (\<lambda>_. act_return a)"
| "attempt_event ports attempt_id (EvTextDelta delta) a =
     act_bind (push_event ports (jobject [(''type'', JString ''message.delta''),
                                          (''attempt_id'', JString attempt_id), (''text'', JString delta)]))
       (\<lambda>_. act_return (a\<lparr>as_visible_output := True, as_text := as_text a @ delta\<rparr>))"
| "attempt_event ports attempt_id (EvReasoningDelta delta) a =
     act_bind (push_event ports (jobject [(''type'', JString ''reasoning.delta''),
                                          (''attempt_id'', JString attempt_id), (''text'', JString delta)]))
       (\<lambda>_. act_return (a\<lparr>as_visible_output := True, as_reasoning := as_reasoning a @ delta\<rparr>))"
| "attempt_event ports attempt_id (EvToolCallDelta index call_id name arguments_delta) a =
     act_bind (act_lift (merge_tool_call_delta index call_id name arguments_delta a)) (\<lambda>a'.
     act_bind (push_event ports (jobject [(''type'', JString ''tool_call.delta''),
                 (''attempt_id'', JString attempt_id), (''index'', jnat index),
                 (''id'', jopt JString call_id), (''name'', jopt JString name),
                 (''arguments_delta'', JString arguments_delta)]))
       (\<lambda>_. act_return a'))"
| "attempt_event ports attempt_id (EvUsage prompt_tokens completion_tokens total_tokens cached_tokens) a =
     (let u = \<lparr>us_prompt_tokens = prompt_tokens, us_completion_tokens = completion_tokens,
               us_total_tokens = total_tokens, us_cached_tokens = cached_tokens\<rparr> in
      act_bind (act_update (\<lambda>s. s\<lparr>tu_usage := add_usage (tu_usage s) u\<rparr>)) (\<lambda>_.
      act_bind (push_event ports (jobject [(''type'', JString ''usage''),
                  (''attempt_id'', JString attempt_id), (''usage'', json_of_usage u)]))
        (\<lambda>_. act_return a)))"
| "attempt_event ports attempt_id (EvCompleted finish_reason provider_data) a =
     act_return (a\<lparr>as_terminal := Some (AttemptCompleted (or_default ''stop'' finish_reason) provider_data)\<rparr>)"
| "attempt_event ports attempt_id (EvError reason) a =
     act_return (a\<lparr>as_terminal := Some (AttemptError (or_default ''provider_error'' reason))\<rparr>)"
| "attempt_event ports attempt_id (EvCancelled reason) a =
     act_return (a\<lparr>as_terminal := Some (AttemptCancelled (or_default ''cancelled'' reason))\<rparr>)"
| "attempt_event ports attempt_id (EvMalformed reason) a =
     act_return (a\<lparr>as_terminal := Some (AttemptMalformed (or_default ''malformed_provider_stream'' reason))\<rparr>)"

text \<open>The loop over \<open>attempt.events\<close>.\<close>

fun attempt_events ::
  "('p, 'b, 'o) turn_ports \<Rightarrow> string \<Rightarrow> (provider_error + provider_event) list \<Rightarrow> attempt_state
     \<Rightarrow> ('p, 'b, 'o, attempt_state) turn_action" where
  "attempt_events ports attempt_id [] a = act_return a"
| "attempt_events ports attempt_id (Inl e # events) a = act_lift (Err (RuntimeProvider e))"
| "attempt_events ports attempt_id (Inr event # events) a =
     (if as_terminal a \<noteq> None
      then act_lift (Err (InvalidTurn (''provider attempt '' @ attempt_id
             @ '' emitted an event after its terminal'')))
      else act_bind (attempt_event ports attempt_id event a) (attempt_events ports attempt_id events))"

section \<open>Complete tool calls\<close>

definition finish_tool_call :: "runtime_text \<Rightarrow> nat \<times> partial_tool_call \<Rightarrow> runtime_error + tool_call" where
  "finish_tool_call rt entry =
     (case entry of (index, partial) \<Rightarrow>
       and_then (ok_or (InvalidTurn (''tool call at index '' @ show_nat index @ '' has no id'')) (pc_id partial)) (\<lambda>call_id.
       and_then (ok_or (InvalidTurn (''tool call '' @ call_id @ '' has no name'')) (pc_name partial)) (\<lambda>name.
       and_then
         (if pc_arguments partial = [] then Ok []
          else map_err (\<lambda>error. InvalidTurn (''tool call '' @ call_id @ '' has malformed JSON arguments: '' @ error))
                 (rt_parse_object rt (pc_arguments partial))) (\<lambda>arguments.
       and_then (map_err RuntimeIdentifier (tool_call_id_new call_id)) (\<lambda>tid.
         Ok \<lparr>tc_id = tid, tc_name = name, tc_arguments = arguments\<rparr>)))))"

definition finish_tool_calls :: "runtime_text \<Rightarrow> (nat, partial_tool_call) btree \<Rightarrow> runtime_error + tool_call list" where
  "finish_tool_calls rt partial_calls =
     (if map fst partial_calls \<noteq> [0..<length partial_calls]
      then Err (InvalidTurn ''tool call indexes must be contiguous from zero'')
      else collect_results (finish_tool_call rt) partial_calls)"

section \<open>Intents\<close>

definition json_of_arguments :: "tool_arguments \<Rightarrow> json" where
  "json_of_arguments args = JObject args"

definition jcall_id :: "tool_call_id \<Rightarrow> json" where
  "jcall_id c = JString (tool_call_id_str c)"

definition jkey :: "invocation_id \<Rightarrow> json" where
  "jkey i = JString (invocation_id_str i)"

definition planned_intent :: "planned_tool_call \<Rightarrow> json" where
  "planned_intent call =
     jobject ([(''type'', JString ''tool_planned''), (''call_id'', jcall_id (pl_call_id call)),
               (''name'', JString (pl_name call)), (''arguments'', json_of_arguments (pl_arguments call)),
               (''execution_key'', jkey (pl_invocation_id call)), (''effect'', json_of_effect (pl_effect call))]
       @ jskip ''approval'' json_of_approval (pl_approval call))"

definition terminal_intent :: "tool_terminal \<Rightarrow> json" where
  "terminal_intent terminal =
     jobject ([(''type'', JString (''tool_'' @ status_name (tt_status terminal))),
               (''call_id'', jcall_id (tt_call_id terminal)),
               (''execution_key'', jkey (tt_invocation_id terminal)),
               (''effect'', json_of_effect (tt_effect terminal)),
               (''content'', JString (tt_content terminal))]
       @ jskip ''receipt'' JString (tt_receipt terminal))"

section \<open>The tool round\<close>

definition approval_request_event :: "planned_tool_call \<Rightarrow> approval_record \<Rightarrow> json" where
  "approval_request_event call approval =
     jobject ([(''type'', JString ''approval.request''), (''call_id'', jcall_id (pl_call_id call)),
               (''requirement'', json_of_approval approval)]
       @ (if approval_pending approval
          then [(''name'', JString (pl_name call)), (''arguments'', json_of_arguments (pl_arguments call)),
                (''effect'', json_of_effect (pl_effect call))]
          else []))"

text \<open>The loop over \<open>planned\<close>: one request per approval record.\<close>

definition request_approval :: "('p, 'b, 'o) turn_ports \<Rightarrow> planned_tool_call \<Rightarrow> ('p, 'b, 'o, unit) turn_action" where
  "request_approval ports call =
     (case pl_approval call of
        None \<Rightarrow> act_return ()
      | Some approval \<Rightarrow> push_event ports (approval_request_event call approval))"

definition tool_start_event :: "planned_tool_call \<Rightarrow> json" where
  "tool_start_event call =
     jobject [(''type'', JString ''tool.start''), (''call_id'', jcall_id (pl_call_id call)),
              (''name'', JString (pl_name call)), (''execution_key'', jkey (pl_invocation_id call))]"

text \<open>The loop over \<open>resolved\<close>.\<close>

definition announce_resolved :: "('p, 'b, 'o) turn_ports \<Rightarrow> planned_tool_call \<Rightarrow> ('p, 'b, 'o, unit) turn_action" where
  "announce_resolved ports call =
     act_bind (push_intent (planned_intent call)) (\<lambda>_.
     act_bind
       (case pl_approval call of
          None \<Rightarrow> act_return ()
        | Some approval \<Rightarrow>
            push_event ports (jobject [(''type'', JString ''approval.resolved''),
              (''call_id'', jcall_id (pl_call_id call)), (''decision'', JString (ap_decision approval))])) (\<lambda>_.
     if plan_denied call then act_return ()
     else
       act_bind (push_intent (jobject [(''type'', JString ''tool_started''),
                   (''call_id'', jcall_id (pl_call_id call)), (''execution_key'', jkey (pl_invocation_id call))]))
         (\<lambda>_. push_event ports (tool_start_event call))))"

text \<open>The loop over \<open>completed\<close>.\<close>

definition announce_terminal :: "('p, 'b, 'o) turn_ports \<Rightarrow> tool_terminal \<Rightarrow> ('p, 'b, 'o, unit) turn_action" where
  "announce_terminal ports terminal =
     act_bind (push_intent (terminal_intent terminal)) (\<lambda>_.
     push_event ports (jobject [(''type'', JString ''tool.complete''),
       (''call_id'', jcall_id (tt_call_id terminal)), (''name'', JString (tt_name terminal)),
       (''status'', JString (status_name (tt_status terminal))),
       (''execution_key'', jkey (tt_invocation_id terminal))]))"

text \<open>Terminals arrive in completion order and are put into the order of the calls.\<close>

definition order_terminals ::
  "planned_tool_call list \<Rightarrow> tool_terminal list \<Rightarrow> runtime_error + tool_terminal list" where
  "order_terminals resolved completed =
     collect_results (\<lambda>plan. ok_or (InvalidTurn (''tool '' @ tool_call_id_str (pl_call_id plan)
                                    @ '' has no terminal outcome''))
                        (hash_map tt_call_id completed (pl_call_id plan))) resolved"

definition result_batch_intent :: "tool_terminal list \<Rightarrow> json" where
  "result_batch_intent ordered =
     jobject [(''type'', JString ''append_tool_result_batch''),
       (''results'', JArray (map (\<lambda>terminal. jobject
          [(''call_id'', jcall_id (tt_call_id terminal)), (''name'', JString (tt_name terminal)),
           (''status'', JString (status_name (tt_status terminal))),
           (''content'', JString (tt_content terminal)),
           (''execution_key'', jkey (tt_invocation_id terminal))]) ordered))]"

definition run_tool_round ::
  "('p, 'b, 'o) turn_ports \<Rightarrow> tool_call list \<Rightarrow> ('p, 'b, 'o, unit) turn_action" where
  "run_tool_round ports calls =
     act_bind (on_host (tool_host_plan (tp_tools ports) calls)) (\<lambda>planned.
     act_bind (act_each (request_approval ports) planned) (\<lambda>_.
     act_bind (on_host (tool_host_resolve_approvals (tp_tools ports) planned)) (\<lambda>resolved.
     act_bind (act_each (announce_resolved ports) resolved) (\<lambda>_.
     act_bind (on_host (tool_host_execute (tp_tools ports) resolved)) (\<lambda>completed.
     act_bind (act_each (announce_terminal ports) completed) (\<lambda>_.
     act_bind (act_lift (order_terminals resolved completed)) (\<lambda>ordered.
     act_bind (act_lift (collect_results (provider_tool_result (tp_text ports)) ordered)) (\<lambda>provider_results.
     act_bind (push_messages provider_results) (\<lambda>_.
     act_bind (push_intent (result_batch_intent ordered)) (\<lambda>_.
     push_event ports (jobject [(''type'', JString ''tool_result_batch.complete''),
       (''call_ids'', JArray (map (\<lambda>terminal. jcall_id (tt_call_id terminal)) ordered))])))))))))))"

section \<open>The attempt\<close>

text \<open>\<open>Some outcome\<close> is \<open>break outcome\<close>, \<open>None\<close> goes on with the next iteration of the loop.\<close>

definition failed_outcome :: "terminal_status \<Rightarrow> string \<Rightarrow> bool option \<Rightarrow> terminal_outcome" where
  "failed_outcome status reason visible =
     \<lparr>to_status = status, to_final_response = None, to_finish_reason = None, to_reason = Some reason,
      to_visible_output = visible\<rparr>"

definition attempt_failed_event :: "string \<Rightarrow> string \<Rightarrow> string \<Rightarrow> json" where
  "attempt_failed_event kind attempt_id reason =
     jobject [(''type'', JString kind), (''attempt_id'', JString attempt_id), (''reason'', JString reason)]"

definition finish_final_message ::
  "('p, 'b, 'o) turn_ports \<Rightarrow> string \<Rightarrow> attempt_state \<Rightarrow> string \<Rightarrow> json option
     \<Rightarrow> ('p, 'b, 'o, terminal_outcome option) turn_action" where
  "finish_final_message ports attempt_id a finish_reason provider_data =
     (let assistant = PAssistant (Some (as_text a)) (non_empty (as_reasoning a)) [] provider_data in
      act_bind (push_messages [assistant]) (\<lambda>_.
      act_bind (push_intent (jobject [(''type'', JString ''append_assistant''),
                               (''message'', json_of_provider_message assistant)])) (\<lambda>_.
      act_bind (push_event ports (jobject [(''type'', JString ''message.complete''),
                  (''attempt_id'', JString attempt_id), (''content'', JString (as_text a)),
                  (''finish_reason'', JString finish_reason)])) (\<lambda>_.
      act_return (Some
        \<lparr>to_status = (if finish_reason = ''stop'' then StatusCompleted else StatusIncomplete),
         to_final_response = Some (as_text a), to_finish_reason = Some finish_reason,
         to_reason = None, to_visible_output = None\<rparr>)))))"

definition finish_with_calls ::
  "('p, 'b, 'o) turn_ports \<Rightarrow> attempt_state \<Rightarrow> json option
     \<Rightarrow> ('p, 'b, 'o, terminal_outcome option) turn_action" where
  "finish_with_calls ports a provider_data =
     act_bind (act_lift (finish_tool_calls (tp_text ports) (as_partial_calls a))) (\<lambda>calls.
     act_bind (act_lift (provider_tool_request (tp_text ports) (as_text a) (as_reasoning a) calls provider_data)) (\<lambda>assistant.
     act_bind (push_messages [assistant]) (\<lambda>_.
     act_bind (push_intent (jobject [(''type'', JString ''append_assistant_tool_request''),
                              (''message'', json_of_provider_message assistant)])) (\<lambda>_.
     act_bind (run_tool_round ports calls) (\<lambda>_.
     act_return None)))))"

definition handle_terminal ::
  "('p, 'b, 'o) turn_ports \<Rightarrow> string \<Rightarrow> attempt_error_policy \<Rightarrow> attempt_state
     \<Rightarrow> ('p, 'b, 'o, terminal_outcome option) turn_action" where
  "handle_terminal ports attempt_id error_policy a =
     (case as_terminal a of
        None \<Rightarrow>
          act_bind (push_event ports (attempt_failed_event ''provider.stream_failed'' attempt_id ''truncated''))
            (\<lambda>_. act_return (Some (failed_outcome StatusFailed ''provider_stream_truncated''
                                    (Some (as_visible_output a)))))
      | Some (AttemptError reason) \<Rightarrow>
          act_bind (push_event ports (attempt_failed_event ''provider.attempt_failed'' attempt_id reason))
            (\<lambda>_. if error_policy = FallbackBeforeVisibleOutput \<and> \<not> as_visible_output a
                 then act_return None
                 else act_return (Some (failed_outcome
                        (if as_visible_output a then StatusInterrupted else StatusFailed) reason
                        (Some (as_visible_output a)))))
      | Some (AttemptCancelled reason) \<Rightarrow>
          act_bind (push_event ports (attempt_failed_event ''provider.cancelled'' attempt_id reason))
            (\<lambda>_. act_return (Some (failed_outcome StatusCancelled reason None)))
      | Some (AttemptMalformed reason) \<Rightarrow>
          act_bind (push_event ports (attempt_failed_event ''provider.protocol_error'' attempt_id reason))
            (\<lambda>_. act_return (Some (failed_outcome StatusFailed reason None)))
      | Some (AttemptCompleted finish_reason provider_data) \<Rightarrow>
          if as_partial_calls a = []
          then finish_final_message ports attempt_id a finish_reason provider_data
          else finish_with_calls ports a provider_data)"

definition chat_request :: "agent_turn_request \<Rightarrow> provider_message list \<Rightarrow> chat_completions_request" where
  "chat_request request raw_messages =
     \<lparr>cr_model = ar_model request,
      cr_messages = (case ar_system_prompt request of None \<Rightarrow> [] | Some prompt \<Rightarrow> [PSystem prompt]) @ raw_messages,
      cr_tools = ar_tools request\<rparr>"

text \<open>One iteration of the loop.\<close>

definition run_attempt ::
  "('p, 'b, 'o) turn_ports \<Rightarrow> agent_turn_request \<Rightarrow> ('p, 'b, 'o, terminal_outcome option) turn_action" where
  "run_attempt ports request =
     act_bind (act_read (\<lambda>s. chat_request request (tu_raw_messages s))) (\<lambda>provider_request.
     act_bind (act_map_err RuntimeProvider (act_zoom tu_provider (\<lambda>p s. s\<lparr>tu_provider := p\<rparr>)
                 (pv_stream (tp_provider ports) provider_request))) (\<lambda>attempt.
     act_bind (act_update (\<lambda>s. s\<lparr>tu_provider_requests := tu_provider_requests s @
                 [\<lparr>pq_attempt_id = at_attempt_id attempt, pq_transport = ar_transport request,
                   pq_request = json_of_chat_request provider_request\<rparr>]\<rparr>)) (\<lambda>_.
     act_bind (push_event ports (jobject [(''type'', JString ''provider.attempt_started''),
                                          (''attempt_id'', JString (at_attempt_id attempt))])) (\<lambda>_.
     act_bind (attempt_events ports (at_attempt_id attempt) (at_events attempt) attempt_start) (\<lambda>a.
     handle_terminal ports (at_attempt_id attempt) (at_error_policy attempt) a)))))"

text \<open>\<open>remaining\<close> is \<open>max_attempts - attempt_count\<close>.\<close>

fun turn_loop ::
  "('p, 'b, 'o) turn_ports \<Rightarrow> agent_turn_request \<Rightarrow> nat \<Rightarrow> nat
     \<Rightarrow> ('p, 'b, 'o, terminal_outcome) turn_action" where
  "turn_loop ports request max_attempts 0 =
     act_lift (Err (InvalidTurn (''turn exceeded '' @ show_nat max_attempts @ '' provider attempts'')))"
| "turn_loop ports request max_attempts (Suc remaining) =
     act_bind (run_attempt ports request) (\<lambda>outcome.
       case outcome of
         Some terminal \<Rightarrow> act_return terminal
       | None \<Rightarrow> turn_loop ports request max_attempts remaining)"

section \<open>The turn\<close>

definition validate_request :: "agent_turn_request \<Rightarrow> runtime_error + unit" where
  "validate_request request =
     (if ar_transport request \<noteq> ChatCompletions
      then Err (InvalidTurn ''the offline agent runtime currently supports chat_completions only'')
      else if ar_model request = [] then Err (InvalidTurn ''model must be non-empty'')
      else if ar_execution_scope request = [] then Err (InvalidTurn ''execution scope must be non-empty'')
      else if ar_conversation request = []
              \<or> (case last (ar_conversation request) of PUser _ \<Rightarrow> False | _ \<Rightarrow> True)
      then Err (InvalidTurn ''conversation must be non-empty and end with a user message'')
      else Ok ())"

definition initial_intent :: "provider_message \<Rightarrow> json" where
  "initial_intent message =
     jobject [(''type'', JString (''append_'' @ provider_role message)),
              (''message'', json_of_provider_message message)]"

definition turn_start ::
  "agent_turn_request \<Rightarrow> 'p \<Rightarrow> 'b tool_host \<Rightarrow> 'o \<Rightarrow> ('p, 'b, 'o) turn_state" where
  "turn_start request p h obs =
     \<lparr>tu_provider = p, tu_host = h, tu_observer = obs, tu_events = [],
      tu_raw_messages = ar_conversation request, tu_provider_requests = [],
      tu_persistence_intents = map initial_intent (ar_conversation request), tu_usage = usage_default\<rparr>"

definition finish_turn ::
  "('p, 'b, 'o) turn_ports \<Rightarrow> terminal_outcome \<Rightarrow> ('p, 'b, 'o, contract_outcome) turn_action" where
  "finish_turn ports terminal_outcome =
     act_bind (act_try (\<lambda>s. case pv_remaining_attempts (tp_provider ports) (tu_provider s) of
         None \<Rightarrow> Ok ()
       | Some remaining \<Rightarrow>
           ensure (remaining = 0) (InvalidTurn (''terminal outcome left '' @ show_nat remaining
             @ '' unused provider attempt(s)'')))) (\<lambda>_.
     act_bind (act_try (\<lambda>s. semanticize (tp_text ports) (tu_raw_messages s))) (\<lambda>semantic_conversation.
     act_read (\<lambda>s. \<lparr>co_provider_requests = tu_provider_requests s,
                    co_semantic_conversation = semantic_conversation,
                    co_persistence_intents = tu_persistence_intents s,
                    co_public_events = tu_events s, co_usage = tu_usage s,
                    co_terminal_outcome = terminal_outcome\<rparr>)))"

definition run_turn_with_limit_observed ::
  "('p, 'b, 'o) turn_ports \<Rightarrow> agent_turn_request \<Rightarrow> nat \<Rightarrow> ('p \<times> 'b \<times> 'o, runtime_error, contract_outcome) action" where
  "run_turn_with_limit_observed ports request max_attempts = (\<lambda>(p, b, obs).
     case
       (if max_attempts = 0
        then Err (InvalidTurn ''turn provider-attempt budget must be greater than zero'')
        else and_then (validate_request request) (\<lambda>_. tool_host_new b (ar_execution_scope request)))
     of
       Inl e \<Rightarrow> (Inl e, (p, b, obs))
     | Inr host \<Rightarrow>
         (case act_bind (turn_loop ports request max_attempts max_attempts) (finish_turn ports)
                 (turn_start request p host obs) of
            (r, s) \<Rightarrow> (r, (tu_provider s, th_tools (tu_host s), tu_observer s))))"

definition max_attempts_per_turn :: nat where "max_attempts_per_turn = 128"

definition run_turn_observed ::
  "('p, 'b, 'o) turn_ports \<Rightarrow> agent_turn_request \<Rightarrow> ('p \<times> 'b \<times> 'o, runtime_error, contract_outcome) action" where
  "run_turn_observed ports request = run_turn_with_limit_observed ports request max_attempts_per_turn"

definition quiet :: "runtime_text \<Rightarrow> 'p provider \<Rightarrow> 'b tool_broker \<Rightarrow> ('p, 'b, unit) turn_ports" where
  "quiet rt p b = \<lparr>tp_text = rt, tp_provider = p, tp_tools = b, tp_observe = noop_observe\<rparr>"

definition run_turn_with_limit ::
  "runtime_text \<Rightarrow> 'p provider \<Rightarrow> 'b tool_broker \<Rightarrow> agent_turn_request \<Rightarrow> nat
     \<Rightarrow> ('p \<times> 'b, runtime_error, contract_outcome) action" where
  "run_turn_with_limit rt provider tools request max_attempts =
     act_zoom (\<lambda>(p, b). (p, b, ())) (\<lambda>(p, b, _) _. (p, b))
       (run_turn_with_limit_observed (quiet rt provider tools) request max_attempts)"

definition run_turn ::
  "runtime_text \<Rightarrow> 'p provider \<Rightarrow> 'b tool_broker \<Rightarrow> agent_turn_request
     \<Rightarrow> ('p \<times> 'b, runtime_error, contract_outcome) action" where
  "run_turn rt provider tools request =
     run_turn_with_limit rt provider tools request max_attempts_per_turn"

end
