(* ===== verification/Turn_Properties.thy ===== *)
theory Turn_Properties
  imports Runtime_Turn
begin

text \<open>
  What the turn guarantees. A property of the turn's local state that its primitive steps keep is
  kept by a whole attempt: the locale \<open>turn_invariant\<close> states the primitive steps as its laws and
  proves the rest once; its interpretations give the agreement of log and observer and
  the shape of the conversation. The bound on provider requests also holds for turns that fail; it rests on the
  operations that leave the provider alone on every exit (\<open>provider_apart\<close>).
\<close>

lemma push_event_ok:
  "push_event ports event s = (Inr u, s') \<longleftrightarrow>
     (\<exists>obs. tp_observe ports event (tu_observer s) = (Inr (), obs)
        \<and> s' = s\<lparr>tu_observer := obs, tu_events := tu_events s @ [event]\<rparr>)"
  by (auto simp: push_event_def act_bind_def act_map_err_def act_zoom_def act_update_def map_err_def
      split: prod.splits sum.splits)

section \<open>Properties kept by an attempt\<close>

locale turn_invariant =
  fixes ports :: "('p, 'b, 'o) turn_ports"
    and I :: "('p, 'b, 'o) turn_state \<Rightarrow> bool"
    and ok_messages :: "provider_message list \<Rightarrow> bool"
  assumes keeps_push_event: "keeps I (push_event ports event)"
    and intents: "I s \<Longrightarrow> I (s\<lparr>tu_persistence_intents := js\<rparr>)"
    and messages: "I s \<Longrightarrow> ok_messages ms \<Longrightarrow> I (s\<lparr>tu_raw_messages := tu_raw_messages s @ ms\<rparr>)"
    and usage: "I s \<Longrightarrow> I (s\<lparr>tu_usage := u\<rparr>)"
    and host: "I s \<Longrightarrow> I (s\<lparr>tu_host := h\<rparr>)"
    and ok_final: "ok_messages [PAssistant (Some text) (non_empty reasoning) [] replay]"
    and ok_request: "provider_tool_request (tp_text ports) text reasoning calls replay = Inr message \<Longrightarrow>
        calls \<noteq> [] \<Longrightarrow> ok_messages [message]"
    and ok_results: "collect_results (provider_tool_result (tp_text ports)) ts = Inr ms \<Longrightarrow> ok_messages ms"
begin

lemma keeps_on_host: "keeps I (on_host m)"
  by (rule keepsI) (auto simp: on_host_def wp_simps host intro: wp_I)

lemma keeps_push_intent: "keeps I (push_intent intent)"
  unfolding push_intent_def by (rule keeps_update) (rule intents)

lemma keeps_push_messages: "ok_messages ms \<Longrightarrow> keeps I (push_messages ms)"
  unfolding push_messages_def by (rule keeps_update) (rule messages)

lemma keeps_usage: "keeps I (act_update (\<lambda>s. s\<lparr>tu_usage := f s\<rparr>))"
  by (rule keeps_update) (rule usage)

lemmas keeps_steps = keeps_push_event keeps_push_intent keeps_usage keeps_on_host keeps_intros

lemma keeps_attempt_event: "keeps I (attempt_event ports attempt_id event a)"
  by (cases event) (auto simp: Let_def intro!: keeps_steps)

lemma keeps_attempt_events: "keeps I (attempt_events ports attempt_id events a)"
proof (induction events arbitrary: a)
  case Nil
  then show ?case by (auto intro: keeps_intros)
next
  case (Cons event events)
  then show ?case by (cases event) (auto intro!: keeps_attempt_event keeps_intros)
qed

lemma keeps_tool_round: "keeps I (run_tool_round ports calls)"
  unfolding run_tool_round_def request_approval_def announce_resolved_def announce_terminal_def
  by (intro keeps_steps keeps_bind_ok [of I "act_lift (collect_results f ordered)" for f ordered])
     (auto simp: act_lift_def split: option.split intro!: keeps_steps keeps_push_messages ok_results)

lemma keeps_final: "keeps I (finish_final_message ports attempt_id a finish_reason provider_data)"
  unfolding finish_final_message_def Let_def
  by (intro keeps_steps keeps_push_messages ok_final)

lemma keeps_with_calls:
  assumes "as_partial_calls a \<noteq> []"
  shows "keeps I (finish_with_calls ports a provider_data)"
  unfolding finish_with_calls_def
proof (rule keeps_bind_ok)
  fix calls s s'
  assume "act_lift (finish_tool_calls (tp_text ports) (as_partial_calls a)) s = (Inr calls, s')"
  then have calls: "calls \<noteq> []"
    using assms by (auto simp: act_lift_def finish_tool_calls_def split: if_splits dest: collect_results_length)
  show "keeps I (act_bind (act_lift (provider_tool_request (tp_text ports) (as_text a) (as_reasoning a)
      calls provider_data)) (\<lambda>assistant. act_bind (push_messages [assistant]) (\<lambda>_.
     act_bind (push_intent (jobject [(''type'', JString ''append_assistant_tool_request''),
                              (''message'', json_of_provider_message assistant)])) (\<lambda>_.
     act_bind (run_tool_round ports calls) (\<lambda>_. act_return None)))))"
    by (rule keeps_bind_ok)
       (auto simp: act_lift_def calls intro!: keeps_steps keeps_push_messages keeps_tool_round ok_request)
qed (rule keeps_lift)

lemma keeps_handle_terminal: "keeps I (handle_terminal ports attempt_id error_policy a)"
  unfolding handle_terminal_def
  by (auto split: option.split attempt_terminal.split
      intro!: keeps_final keeps_with_calls keeps_steps)

end

text \<open>One attempt taken apart: the stream, the record of the request, and the rest of the attempt.\<close>

definition opened :: "agent_turn_request \<Rightarrow> provider_attempt \<Rightarrow> 'p \<Rightarrow> ('p, 'b, 'o) turn_state \<Rightarrow> ('p, 'b, 'o) turn_state" where
  "opened request attempt p s =
     s\<lparr>tu_provider := p,
       tu_provider_requests := tu_provider_requests s @
         [\<lparr>pq_attempt_id = at_attempt_id attempt, pq_transport = ar_transport request,
           pq_request = json_of_chat_request (chat_request request (tu_raw_messages s))\<rparr>]\<rparr>"

definition rest_of_attempt ::
  "('p, 'b, 'o) turn_ports \<Rightarrow> provider_attempt \<Rightarrow> ('p, 'b, 'o, terminal_outcome option) turn_action" where
  "rest_of_attempt ports attempt =
     act_bind (push_event ports (jobject [(''type'', JString ''provider.attempt_started''),
                                          (''attempt_id'', JString (at_attempt_id attempt))])) (\<lambda>_.
     act_bind (attempt_events ports (at_attempt_id attempt) (at_events attempt) attempt_start) (\<lambda>a.
     handle_terminal ports (at_attempt_id attempt) (at_error_policy attempt) a))"

lemma run_attempt_ok:
  assumes "run_attempt ports request s = (Inr outcome, s')"
  obtains attempt p where
    "pv_stream (tp_provider ports) (chat_request request (tu_raw_messages s)) (tu_provider s) = (Inr attempt, p)"
    "rest_of_attempt ports attempt (opened request attempt p s) = (Inr outcome, s')"
  using assms
  by (auto simp: run_attempt_def rest_of_attempt_def opened_def act_bind_def act_read_def act_update_def
      act_map_err_def act_zoom_def map_err_def split: prod.splits sum.splits)

lemma opened_provider: "tu_provider (opened request attempt p s) = p"
  by (simp add: opened_def)

lemma rest_of_attempt_ok:
  "rest_of_attempt ports attempt s = (Inr outcome, s') \<longleftrightarrow>
     (\<exists>s1 a s2. push_event ports (jobject [(''type'', JString ''provider.attempt_started''),
                                     (''attempt_id'', JString (at_attempt_id attempt))]) s = (Inr (), s1)
        \<and> attempt_events ports (at_attempt_id attempt) (at_events attempt) attempt_start s1 = (Inr a, s2)
        \<and> handle_terminal ports (at_attempt_id attempt) (at_error_policy attempt) a s2 = (Inr outcome, s'))"
  by (auto simp: rest_of_attempt_def act_bind_ok)

context turn_invariant
begin

lemma keeps_rest_of_attempt: "keeps I (rest_of_attempt ports attempt)"
  unfolding rest_of_attempt_def
  by (intro keeps_bind keeps_push_event keeps_attempt_events keeps_handle_terminal)

end

text \<open>A property that also survives the opening of a stream holds all through the loop.\<close>

locale turn_loop_invariant = turn_invariant +
  fixes request :: agent_turn_request
  assumes open_stream: "I s \<Longrightarrow> I (opened request attempt p s)"
begin

lemma keeps_run_attempt: "keeps I (run_attempt ports request)"
  by (rule keepsI, rule wp_I)
     (auto elim!: run_attempt_ok dest: keepsD [OF keeps_rest_of_attempt] open_stream)

lemma keeps_turn_loop: "keeps I (turn_loop ports request max_attempts remaining)"
  by (induction remaining) (auto intro!: keeps_intros keeps_run_attempt split: option.split)

end

section \<open>Interpretations\<close>

text \<open>After its stream was opened, an attempt makes no other provider request.\<close>

interpretation fixed_requests:
  turn_invariant ports "\<lambda>s. tu_provider_requests s = rs" "\<lambda>_. True" for ports rs
  by unfold_locales
     (auto simp: push_event_ok intro!: keepsI wp_I)

text \<open>The log is what the observer accepted, in order.\<close>

definition observed :: "('p, 'b, 'o) turn_ports \<Rightarrow> 'o \<Rightarrow> ('p, 'b, 'o) turn_state \<Rightarrow> bool" where
  "observed ports obs s \<longleftrightarrow> act_each (tp_observe ports) (tu_events s) obs = (Inr (), tu_observer s)"

lemma act_each_append_ok:
  "act_each f xs s = (Inr (), s') \<Longrightarrow> act_each f (xs @ ys) s = act_each f ys s'"
  by (induction xs arbitrary: s) (auto simp: act_return_def act_bind_def split: prod.splits sum.splits)

interpretation observed_log:
  turn_loop_invariant ports "observed ports obs" "\<lambda>_. True" request for ports obs request
  by unfold_locales
     (auto simp: push_event_ok observed_def opened_def act_each_append_ok act_bind_def act_return_def
        intro!: keepsI wp_I)

text \<open>
  The conversation only grows, by messages of the shape a turn appends, and every request that was
  sent is the rendering of an earlier stage of it.
\<close>

definition grown :: "agent_turn_request \<Rightarrow> ('p, 'b, 'o) turn_state \<Rightarrow> bool" where
  "grown request s \<longleftrightarrow>
     (\<exists>new. tu_raw_messages s = ar_conversation request @ new \<and> list_all turn_shaped new)
     \<and> list_all (\<lambda>r. \<exists>ms. prefix (ar_conversation request) ms \<and> prefix ms (tu_raw_messages s)
          \<and> pq_request r = json_of_chat_request (chat_request request ms)) (tu_provider_requests s)"

lemma grown_messages:
  assumes "grown request s" "list_all turn_shaped ms"
  shows "grown request (s\<lparr>tu_raw_messages := tu_raw_messages s @ ms\<rparr>)"
proof -
  obtain new where "tu_raw_messages s = ar_conversation request @ new" "list_all turn_shaped new"
    using assms by (auto simp: grown_def)
  then have "tu_raw_messages s @ ms = ar_conversation request @ (new @ ms)" "list_all turn_shaped (new @ ms)"
    using assms by simp_all
  moreover have "prefix xs (tu_raw_messages s @ ms)" if "prefix xs (tu_raw_messages s)" for xs
    using that by (rule prefix_prefix)
  ultimately show ?thesis
    using assms(1) unfolding grown_def by (fastforce elim!: list.pred_mono_strong)
qed

lemma provider_call_kind: "provider_call_of rt c = Inr pc \<Longrightarrow> pt_kind pc = ''function''"
  by (auto simp: provider_call_of_def and_then_eq_Inr)

lemma provider_tool_request_shaped:
  assumes "provider_tool_request rt text reasoning calls replay = Inr m" "calls \<noteq> []"
  shows "turn_shaped m"
proof -
  obtain pcs where m: "m = PAssistant (non_empty text) (non_empty reasoning) pcs replay"
    and pcs: "collect_results (provider_call_of rt) calls = Inr pcs"
    using assms(1) by (auto simp: provider_tool_request_def and_then_eq_Inr)
  have "list_all (\<lambda>c. pt_kind c = ''function'') pcs"
    using pcs by (auto simp: collect_results_eq_Inr list_all2_conv_all_nth list_all_length dest: provider_call_kind)
  moreover have "pcs \<noteq> []" using collect_results_length [OF pcs] assms(2) by auto
  ultimately show ?thesis by (simp add: m non_empty_def)
qed

lemma provider_result_shaped: "provider_tool_result rt t = Inr m \<Longrightarrow> turn_shaped m"
  by (auto simp: provider_tool_result_def and_then_eq_Inr)

lemma provider_results_shaped:
  "collect_results (provider_tool_result rt) ts = Inr ms \<Longrightarrow> list_all turn_shaped ms"
  by (auto simp: collect_results_eq_Inr list_all2_conv_all_nth list_all_length dest: provider_result_shaped)

interpretation growing_conversation:
  turn_loop_invariant ports "grown request" "list_all turn_shaped" request for ports request
proof unfold_locales
  show "grown request (opened request attempt p s)" if "grown request s" for s attempt p
    using that by (auto simp: grown_def opened_def intro!: exI [of _ "tu_raw_messages s"])
  show "grown request (s\<lparr>tu_raw_messages := tu_raw_messages s @ ms\<rparr>)"
    if "grown request s" "list_all turn_shaped ms" for s ms
    using that by (rule grown_messages)
qed (auto simp: push_event_ok grown_def non_empty_def provider_results_shaped
      dest: provider_tool_request_shaped intro!: keepsI wp_I)

section \<open>The turn taken apart\<close>

lemma run_turn_ok:
  assumes "run_turn_with_limit_observed ports request max_attempts (p, b, obs) = (Inr out, (p', b', obs'))"
  obtains host s where
    "validate_request request = Inr ()" "tool_host_new b (ar_execution_scope request) = Inr host"
    "turn_loop ports request max_attempts max_attempts (turn_start request p host obs)
       = (Inr (co_terminal_outcome out), s)"
    "semanticize (tp_text ports) (tu_raw_messages s) = Inr (co_semantic_conversation out)"
    "co_provider_requests out = tu_provider_requests s" "co_public_events out = tu_events s"
    "co_persistence_intents out = tu_persistence_intents s" "co_usage out = tu_usage s"
    "p' = tu_provider s" "b' = th_tools (tu_host s)" "obs' = tu_observer s"
    "pv_remaining_attempts (tp_provider ports) p' \<in> {None, Some 0}"
  using assms
  by (fastforce simp: run_turn_with_limit_observed_def finish_turn_def act_bind_ok act_try_def act_read_def
      and_then_eq_Inr and_then_eq_Inl
      split: sum.splits prod.splits if_splits option.splits)

lemma run_attempt_requests:
  assumes "run_attempt ports request s = (Inr outcome, s')"
  shows "length (tu_provider_requests s') = Suc (length (tu_provider_requests s))"
  using assms
proof (rule run_attempt_ok)
  fix attempt p
  assume "rest_of_attempt ports attempt (opened request attempt p s) = (Inr outcome, s')"
  from keepsD [OF fixed_requests.keeps_rest_of_attempt refl this] show ?thesis
    by (simp add: opened_def)
qed

lemma turn_loop_requests:
  "turn_loop ports request max_attempts remaining s = (Inr terminal, s') \<Longrightarrow>
     length (tu_provider_requests s) < length (tu_provider_requests s')
       \<and> length (tu_provider_requests s') \<le> length (tu_provider_requests s) + remaining"
proof (induction remaining arbitrary: s)
  case 0
  then show ?case by (simp add: act_lift_def)
next
  case (Suc remaining)
  then obtain outcome s1 where one: "run_attempt ports request s = (Inr outcome, s1)"
    and rest: "(case outcome of Some t \<Rightarrow> act_return t | None \<Rightarrow> turn_loop ports request max_attempts remaining) s1
      = (Inr terminal, s')"
    by (auto simp: act_bind_ok)
  show ?case
    using run_attempt_requests [OF one] rest Suc.IH [of s1]
    by (cases outcome) (auto simp: act_return_def)
qed

section \<open>What an attempt cannot do\<close>

text \<open>
  Between two openings of a stream nothing touches the provider, whether it succeeds or fails, and no
  failure of an attempt is the one that the loop reports when the budget is used up.
\<close>

definition plain_error :: "runtime_error \<Rightarrow> bool" where
  "plain_error e \<longleftrightarrow> (\<forall>text. e \<noteq> InvalidTurn (''tu'' @ text))"

definition plain_failure :: "runtime_error + 'a \<Rightarrow> bool" where
  "plain_failure r \<longleftrightarrow> (\<forall>e. r = Inl e \<longrightarrow> plain_error e)"

definition provider_apart :: "('p, 'b, 'o, 'a) turn_action \<Rightarrow> bool" where
  "provider_apart m \<longleftrightarrow> (\<forall>s. tu_provider (snd (m s)) = tu_provider s \<and> plain_failure (fst (m s)))"

named_theorems apart_intros \<open>operations that leave the provider alone\<close>

lemma plain_failure_simps [simp]:
  "plain_failure (Inr x)" "plain_failure (Inl e) \<longleftrightarrow> plain_error e"
  by (simp_all add: plain_failure_def)

lemma plain_error_simps [simp]:
  "plain_error (RuntimeProvider pe)" "plain_error (RuntimeToolBroker be)" "plain_error (RuntimeIdentifier ie)"
  "plain_error (RuntimeConversation ce)" "plain_error (RuntimeJson je)" "plain_error (RuntimeEventObserver oe)"
  "plain_error (InvalidTurn m) \<longleftrightarrow> take 2 m \<noteq> ''tu''"
proof -
  have "take 2 m = ''tu'' \<longleftrightarrow> (\<exists>text. m = ''tu'' @ text)"
    by (metis append_take_drop_id append_eq_conv_conj length_Cons list.size(3) numeral_2_eq_2)
  then show "plain_error (InvalidTurn m) \<longleftrightarrow> take 2 m \<noteq> ''tu''" by (simp add: plain_error_def)
qed (simp_all add: plain_error_def)

lemma plain_failure_and_then: "plain_failure m \<Longrightarrow> (\<And>x. m = Inr x \<Longrightarrow> plain_failure (k x)) \<Longrightarrow> plain_failure (and_then m k)"
  by (cases m) simp_all

lemma plain_failure_map_err: "(\<And>e. plain_error (f e)) \<Longrightarrow> plain_failure (map_err f m)"
  by (cases m) (simp_all add: map_err_def)

lemma plain_failure_ok_or: "plain_error e \<Longrightarrow> plain_failure (ok_or e m)"
  by (cases m) (simp_all add: ok_or_def)

lemma plain_failure_collect: "(\<And>x. plain_failure (f x)) \<Longrightarrow> plain_failure (collect_results f xs)"
  by (auto simp: plain_failure_def dest: collect_results_Inl)

lemmas plain_intros = plain_failure_and_then plain_failure_map_err plain_failure_ok_or plain_failure_collect

lemma plain_results:
  "plain_failure (merge_tool_call_delta index call_id name arguments_delta a)" "plain_failure (finish_tool_calls rt partial)"
  "plain_failure (provider_tool_request rt content reasoning calls replay)" "plain_failure (order_terminals resolved completed)"
  "plain_failure (provider_tool_result rt terminal)"
proof -
  have merge: "plain_failure (merge_stable_fragment current incoming index field)" for current incoming field
    by (simp add: merge_stable_fragment_def split: option.split)
  show "plain_failure (merge_tool_call_delta index call_id name arguments_delta a)"
    by (auto simp: merge_tool_call_delta_def Let_def intro!: plain_intros merge)
  show "plain_failure (finish_tool_calls rt partial)"
    by (auto simp: finish_tool_calls_def finish_tool_call_def split: prod.split intro!: plain_intros)
qed (auto simp: provider_tool_request_def order_terminals_def provider_tool_result_def intro!: plain_intros)

lemma plain_semanticize: "plain_failure (semanticize rt messages)"
proof -
  have status: "plain_failure (parse_status rt status)" for rt status
    by (simp add: parse_status.simps)
  have batch: "plain_failure (take_tool_results rt messages)" for rt messages
    by (induction rt messages rule: take_tool_results.induct) (auto intro!: plain_intros status)
  have call: "plain_failure (semantic_call_of rt call)" for rt call
    by (auto simp: semantic_call_of_def intro!: plain_intros)
  have "plain_failure (semanticize_loop rt messages)"
    by (induction rt messages rule: semanticize_loop.induct) (auto intro!: plain_intros batch call)
  then show ?thesis by (auto simp: semanticize_def intro!: plain_intros)
qed

lemma apart_basic [apart_intros]:
  "provider_apart (act_return x)" "plain_failure r \<Longrightarrow> provider_apart (act_lift r)"
  "(\<And>s. tu_provider (f s) = tu_provider s) \<Longrightarrow> provider_apart (act_update f)"
  by (simp_all add: provider_apart_def act_return_def act_lift_def act_update_def)

lemma apart_bind [apart_intros]:
  assumes "provider_apart m" "\<And>x. provider_apart (k x)"
  shows "provider_apart (act_bind m k)"
  using assms by (auto simp: provider_apart_def act_bind_def split: prod.split sum.split) (metis fst_conv snd_conv plain_failure_simps(2))+

lemma apart_each [apart_intros]: "(\<And>x. provider_apart (f x)) \<Longrightarrow> provider_apart (act_each f xs)"
  by (induction xs) (auto intro!: apart_intros)

lemma apart_push [apart_intros]:
  "provider_apart (push_event ports event)" "provider_apart (push_intent intent)" "provider_apart (push_messages ms)"
proof -
  have "provider_apart (act_map_err RuntimeEventObserver (act_zoom tu_observer (\<lambda>obs s. s\<lparr>tu_observer := obs\<rparr>) (tp_observe ports event)))"
    by (auto simp: provider_apart_def act_map_err_def act_zoom_def intro!: plain_failure_map_err split: prod.split)
  then show "provider_apart (push_event ports event)" unfolding push_event_def by (auto intro!: apart_intros)
qed (auto simp: push_intent_def push_messages_def intro!: apart_intros)

text \<open>The host fails with other errors too.\<close>

lemma apart_host: "(\<And>h. plain_failure (fst (m h))) \<Longrightarrow> provider_apart (on_host m)"
  by (auto simp: provider_apart_def on_host_def act_zoom_def split: prod.split) (metis fst_conv)

lemma plain_bind: "(\<And>s. plain_failure (fst (m s))) \<Longrightarrow> (\<And>x s. plain_failure (fst (k x s))) \<Longrightarrow> plain_failure (fst (act_bind m k s))"
  by (auto simp: act_bind_def split: prod.split sum.split) (metis fst_conv plain_failure_simps(2))

lemma plain_on_tools: "plain_failure (fst (on_tools m h))"
  by (auto simp: on_tools_def act_map_err_def intro!: plain_failure_map_err split: prod.split)

lemma plain_validations:
  "plain_failure (validate_plans calls ids plans)" "plain_failure (validate_approval_resolution planned resolved)"
  "plain_failure (validate_terminals plans terminals)"
proof -
  show "plain_failure (validate_plans calls ids plans)" by (simp add: validate_plans_def)
  have one: "plain_failure (validate_resolved_call p q)" for p q
    by (simp add: validate_resolved_call_def split: option.split)
  have "plain_failure (validate_resolved_calls pairs)" for pairs
    by (induction pairs rule: validate_resolved_calls.induct) (auto intro!: plain_intros one)
  then show "plain_failure (validate_approval_resolution planned resolved)" by (simp add: validate_approval_resolution_def)
  have "plain_failure (validate_terminals_loop plans_by_id actual terminals)" for plans_by_id actual
    by (induction plans_by_id actual terminals rule: validate_terminals_loop.induct) (auto split: option.split)
  then show "plain_failure (validate_terminals plans terminals)" by (simp add: validate_terminals_def)
qed

lemma plain_host:
  "plain_failure (fst (tool_host_plan broker calls h))" "plain_failure (fst (tool_host_resolve_approvals broker planned h))"
  "plain_failure (fst (tool_host_execute broker resolved h))"
proof -
  have one: "plain_failure (fst (allocate_invocation_id scope call seen))" for scope call seen
    unfolding allocate_invocation_id_def
    by (auto simp: act_lift_def act_read_def act_update_def act_return_def intro!: plain_bind plain_intros)
  have "plain_failure (fst (allocate_invocation_ids scope calls seen))" for scope seen
    unfolding allocate_invocation_ids_def
    by (induction calls arbitrary: seen) (auto simp: act_return_def intro!: plain_bind one)
  then have zoom: "plain_failure (fst (act_zoom get put (allocate_invocation_ids scope calls) h))" for get put scope and h :: "'a tool_host"
    by (auto simp: act_zoom_def split: prod.split) (metis fst_conv)
  show "plain_failure (fst (tool_host_plan broker calls h))"
    unfolding tool_host_plan_def
    by (intro plain_bind zoom plain_on_tools) (simp_all add: act_read_def act_lift_def act_return_def plain_validations)
qed (auto simp: tool_host_resolve_approvals_def tool_host_execute_def act_lift_def act_return_def
       intro!: plain_bind plain_on_tools plain_validations)

lemma apart_event: "provider_apart (attempt_event ports attempt_id event a)"
  by (cases event) (auto simp: Let_def intro!: apart_intros plain_results)

lemma apart_events: "provider_apart (attempt_events ports attempt_id events a)"
  by (induction ports attempt_id events a rule: attempt_events.induct) (auto intro!: apart_intros apart_event)

lemma apart_rest: "provider_apart (rest_of_attempt ports attempt)"
proof -
  have "provider_apart (request_approval ports call)" "provider_apart (announce_resolved ports call)"
    "provider_apart (announce_terminal ports terminal)" for call terminal
    by (auto simp: request_approval_def announce_resolved_def announce_terminal_def intro!: apart_intros split: option.split)
  then have round: "provider_apart (run_tool_round ports calls)" for calls
    unfolding run_tool_round_def by (auto intro!: apart_intros apart_host plain_host plain_results plain_failure_collect)
  have "provider_apart (handle_terminal ports attempt_id policy a)" for attempt_id policy a
    by (auto simp: handle_terminal_def finish_final_message_def finish_with_calls_def Let_def
        intro!: apart_intros round plain_results split: option.split attempt_terminal.split)
  then show ?thesis unfolding rest_of_attempt_def by (auto intro!: apart_intros apart_events)
qed

section \<open>The order of results\<close>

lemma order_terminals_ok:
  assumes "validate_terminals resolved completed = Inr u"
  obtains ordered where "order_terminals resolved completed = Inr ordered"
    "map tt_call_id ordered = map pl_call_id resolved" "mset ordered = mset completed"
proof -
  have ids: "mset (map tt_call_id completed) = mset (map pl_call_id resolved)"
    and dp: "distinct (map pl_call_id resolved)"
    using assms by (auto simp: validate_terminals_Inr)
  have dt: "distinct (map tt_call_id completed)" using ids dp by (metis mset_eq_imp_distinct_iff)
  have ids_set: "tt_call_id ` set completed = pl_call_id ` set resolved"
    using mset_eq_setD [OF ids] by simp
  define pick where "pick p = the (hash_map tt_call_id completed (pl_call_id p))" for p :: planned_tool_call
  have pick: "hash_map tt_call_id completed (pl_call_id p) = Some (pick p)" if "p \<in> set resolved" for p
    using that ids_set hash_map_None [of tt_call_id completed "pl_call_id p"] unfolding pick_def by force
  have pick_id: "pick p \<in> set completed \<and> tt_call_id (pick p) = pl_call_id p" if "p \<in> set resolved" for p
    using hash_map_SomeD [OF pick [OF that]] .
  have "order_terminals resolved completed = Inr (map pick resolved)"
    unfolding order_terminals_def by (rule collect_results_map) (simp add: pick)
  moreover have same: "map tt_call_id (map pick resolved) = map pl_call_id resolved"
    using pick_id by simp
  moreover have "mset (map pick resolved) = mset completed"
  proof -
    have d: "distinct (map pick resolved)" using same dp by (metis distinct_map)
    have sub: "set (map pick resolved) \<subseteq> set completed" using pick_id by auto
    have "card (set (map pick resolved)) = card (set completed)"
      using distinct_card [OF d] distinct_card [of completed] dt ids
      by (metis distinct_map length_map mset_eq_length)
    then have "set (map pick resolved) = set completed" using sub by (intro card_subset_eq) auto
    then show ?thesis using d dt by (metis distinct_map set_eq_iff_mset_eq_distinct)
  qed
  ultimately show ?thesis using that by blast
qed

text \<open>What neither an event nor an intent touches.\<close>

lemma push_event_messages: "keeps (\<lambda>s. tu_raw_messages s = raw) (push_event ports event)"
  by (rule keepsI, rule wp_I) (auto simp: push_event_ok)

lemma push_intent_messages: "keeps (\<lambda>s. tu_raw_messages s = raw) (push_intent intent)"
  by (rule keepsI) (simp add: push_intent_def wp_simps)

lemma on_host_messages: "keeps (\<lambda>s. tu_raw_messages s = raw) (on_host m)"
  by (rule keepsI) (auto simp: on_host_def wp_simps intro: wp_I)

lemmas keeps_messages = push_event_messages push_intent_messages on_host_messages keeps_intros

lemma request_approvals_messages: "keeps (\<lambda>s. tu_raw_messages s = raw) (act_each (request_approval ports) planned)"
  by (auto simp: request_approval_def split: option.split intro!: keeps_messages)

lemma announce_resolved_messages: "keeps (\<lambda>s. tu_raw_messages s = raw) (act_each (announce_resolved ports) resolved)"
  by (auto simp: announce_resolved_def split: option.split intro!: keeps_messages)

lemma announce_terminals_messages: "keeps (\<lambda>s. tu_raw_messages s = raw) (act_each (announce_terminal ports) completed)"
  by (auto simp: announce_terminal_def intro!: keeps_messages)

lemma on_host_ok: "on_host m s = (Inr x, s') \<Longrightarrow> \<exists>h. m (tu_host s) = (Inr x, h)"
  by (auto simp: on_host_def act_zoom_def split: prod.splits)

lemma provider_result_id:
  "provider_tool_result rt t = Inr m \<Longrightarrow>
     \<exists>content. m = PTool (tool_call_id_str (tt_call_id t)) (status_name (tt_status t)) content
                    (invocation_id_str (tt_invocation_id t))"
  by (auto simp: provider_tool_result_def and_then_eq_Inr)

definition answers :: "tool_call list \<Rightarrow> provider_message list \<Rightarrow> bool" where
  "answers calls results \<longleftrightarrow>
     list_all2 (\<lambda>call m. case m of PTool i _ _ _ \<Rightarrow> i = tool_call_id_str (tc_id call) | _ \<Rightarrow> False) calls results"

lemma provider_results_answer:
  assumes "collect_results (provider_tool_result rt) ts = Inr ms" "map tt_call_id ts = map tc_id calls"
  shows "answers calls ms"
  using assms
proof (induction ts arbitrary: ms calls)
  case Nil
  then show ?case by (simp add: answers_def)
next
  case (Cons t ts)
  then obtain m ms' c cs where "ms = m # ms'" "calls = c # cs" "provider_tool_result rt t = Inr m"
    "collect_results (provider_tool_result rt) ts = Inr ms'" "map tt_call_id ts = map tc_id cs"
    "tt_call_id t = tc_id c"
    by (auto split: sum.splits)
  then show ?case
    using Cons.IH [of ms' cs] provider_result_id [of rt t m] by (auto simp: answers_def)
qed

lemma tool_round_answers:
  assumes "run_tool_round ports calls s = (Inr u, s')"
  obtains results where "tu_raw_messages s' = tu_raw_messages s @ results" "answers calls results"
proof -
  obtain planned s1 s2 resolved s3 s4 completed s5 s6 ordered results s7 s8 s9 where
    1: "on_host (tool_host_plan (tp_tools ports) calls) s = (Inr planned, s1)" and
    2: "act_each (request_approval ports) planned s1 = (Inr (), s2)" and
    3: "on_host (tool_host_resolve_approvals (tp_tools ports) planned) s2 = (Inr resolved, s3)" and
    4: "act_each (announce_resolved ports) resolved s3 = (Inr (), s4)" and
    5: "on_host (tool_host_execute (tp_tools ports) resolved) s4 = (Inr completed, s5)" and
    6: "act_each (announce_terminal ports) completed s5 = (Inr (), s6)" and
    7: "order_terminals resolved completed = Inr ordered" and
    8: "collect_results (provider_tool_result (tp_text ports)) ordered = Inr results" and
    9: "push_messages results s6 = (Inr (), s7)" and
    10: "push_intent (result_batch_intent ordered) s7 = (Inr (), s8)" and
    11: "push_event ports s9 s8 = (Inr u, s')"
    using assms by (auto simp: run_tool_round_def act_bind_ok act_lift_def)
  have "tu_raw_messages s6 = tu_raw_messages s"
    using keepsD [OF on_host_messages refl 1] keepsD [OF request_approvals_messages refl 2]
      keepsD [OF on_host_messages refl 3] keepsD [OF announce_resolved_messages refl 4]
      keepsD [OF on_host_messages refl 5] keepsD [OF announce_terminals_messages refl 6] by simp
  moreover have "tu_raw_messages s' = tu_raw_messages s7"
    using keepsD [OF push_intent_messages refl 10] keepsD [OF push_event_messages refl 11] by simp
  moreover have "tu_raw_messages s7 = tu_raw_messages s6 @ results"
    using 9 by (auto simp: push_messages_def act_update_def)
  moreover have "answers calls results"
  proof (rule provider_results_answer [OF 8])
    have "map pl_call_id planned = map tc_id calls" using on_host_ok [OF 1] tool_host_plan_ok(1) by blast
    moreover have "map pl_call_id resolved = map pl_call_id planned"
      using on_host_ok [OF 3] tool_host_resolve_ok resolutions_frozen(1) by blast
    moreover have "map tt_call_id ordered = map pl_call_id resolved"
      using on_host_ok [OF 5] tool_host_execute_ok order_terminals_ok [of resolved completed "()"] 7 by (metis sum.inject(2))
    ultimately show "map tt_call_id ordered = map tc_id calls" by simp
  qed
  ultimately show ?thesis using that by simp
qed

section \<open>When the loop goes on\<close>

text \<open>Events a user can see, and the events that end an attempt.\<close>

fun visible_event :: "provider_event \<Rightarrow> bool" where
  "visible_event (EvTextDelta _) = True"
| "visible_event (EvReasoningDelta _) = True"
| "visible_event (EvToolCallDelta _ _ _ _) = True"
| "visible_event _ = False"

fun event_terminal :: "provider_event \<Rightarrow> attempt_terminal option" where
  "event_terminal (EvCompleted finish data) = Some (AttemptCompleted (or_default ''stop'' finish) data)"
| "event_terminal (EvError reason) = Some (AttemptError (or_default ''provider_error'' reason))"
| "event_terminal (EvCancelled reason) = Some (AttemptCancelled (or_default ''cancelled'' reason))"
| "event_terminal (EvMalformed reason) =
     Some (AttemptMalformed (or_default ''malformed_provider_stream'' reason))"
| "event_terminal _ = None"

lemma attempt_event_ok:
  "attempt_event ports attempt_id event a s = (Inr a', s') \<Longrightarrow>
     as_visible_output a' = (as_visible_output a \<or> visible_event event)
     \<and> as_terminal a' = (case event_terminal event of None \<Rightarrow> as_terminal a | Some t \<Rightarrow> Some t)
     \<and> tu_raw_messages s' = tu_raw_messages s"
  by (cases event)
     (auto simp: act_bind_ok act_return_def push_event_ok act_lift_def act_update_def Let_def
        merge_tool_call_delta_def and_then_eq_Inr split: option.splits)

text \<open>A stream that was read to its end: no transport error, and a terminal event only at the end.\<close>

lemma attempt_events_ok:
  "attempt_events ports attempt_id events a s = (Inr a', s') \<Longrightarrow> as_terminal a = None \<Longrightarrow>
     \<exists>es. events = map Inr es
       \<and> as_visible_output a' = (as_visible_output a \<or> list_ex visible_event es)
       \<and> as_terminal a' = (if es = [] then None else event_terminal (last es))
       \<and> list_all (\<lambda>e. event_terminal e = None) (butlast es)
       \<and> tu_raw_messages s' = tu_raw_messages s"
proof (induction events arbitrary: a s)
  case Nil
  then show ?case by (auto simp: act_return_def)
next
  case (Cons x events)
  from Cons.prems obtain e a1 s1 where x: "x = Inr e"
    and one: "attempt_event ports attempt_id e a s = (Inr a1, s1)"
    and rest: "attempt_events ports attempt_id events a1 s1 = (Inr a', s')"
    by (cases x) (auto simp: act_lift_def act_bind_ok)
  note step = attempt_event_ok [OF one]
  show ?case
  proof (cases "event_terminal e")
    case None
    with step Cons.prems(2) have "as_terminal a1 = None" by simp
    with Cons.IH [OF rest] obtain es where es: "events = map Inr es"
      "as_visible_output a' = (as_visible_output a1 \<or> list_ex visible_event es)"
      "as_terminal a' = (if es = [] then None else event_terminal (last es))"
      "list_all (\<lambda>e. event_terminal e = None) (butlast es)" "tu_raw_messages s' = tu_raw_messages s1"
      by auto
    with step None show ?thesis by (intro exI [of _ "e # es"]) (auto simp: x)
  next
    case (Some t)
    with step have t: "as_terminal a1 = Some t" by simp
    with rest have "events = []"
      by (cases events; cases "hd events") (auto simp: act_lift_def)
    with step rest Some t x show ?thesis by (intro exI [of _ "[e]"]) (auto simp: act_return_def)
  qed
qed

lemma handle_terminal_next:
  assumes "handle_terminal ports attempt_id policy a s = (Inr None, s')"
  shows "(\<exists>reason. as_terminal a = Some (AttemptError reason) \<and> policy = FallbackBeforeVisibleOutput
            \<and> \<not> as_visible_output a \<and> tu_raw_messages s' = tu_raw_messages s)
     \<or> (\<exists>finish data. as_terminal a = Some (AttemptCompleted finish data)
            \<and> (\<exists>calls message results. provider_tool_request (tp_text ports) (as_text a) (as_reasoning a) calls data = Inr message
                 \<and> calls \<noteq> [] \<and> answers calls results
                 \<and> tu_raw_messages s' = tu_raw_messages s @ message # results))"
proof -
  consider (err) reason where "as_terminal a = Some (AttemptError reason)"
    | (complete) finish data where "as_terminal a = Some (AttemptCompleted finish data)"
    using assms
    by (auto simp: handle_terminal_def act_bind_ok act_return_def split: option.splits attempt_terminal.splits)
  then show ?thesis
  proof cases
    case err
    with assms show ?thesis
      by (auto simp: handle_terminal_def act_bind_ok act_return_def push_event_ok split: if_splits)
  next
    case complete
    with assms have ne: "as_partial_calls a \<noteq> []" and with_calls: "finish_with_calls ports a data s = (Inr None, s')"
      by (auto simp: handle_terminal_def finish_final_message_def Let_def act_bind_ok act_return_def split: if_splits)
    then obtain calls message s1 s2 where
      calls: "finish_tool_calls (tp_text ports) (as_partial_calls a) = Inr calls" and
      message: "provider_tool_request (tp_text ports) (as_text a) (as_reasoning a) calls data = Inr message" and
      1: "push_intent (jobject [(''type'', JString ''append_assistant_tool_request''),
             (''message'', json_of_provider_message message)]) (s\<lparr>tu_raw_messages := tu_raw_messages s @ [message]\<rparr>)
           = (Inr (), s1)" and
      2: "run_tool_round ports calls s1 = (Inr (), s')"
      by (auto simp: finish_with_calls_def act_bind_ok act_lift_def act_return_def push_messages_def act_update_def)
    have "calls \<noteq> []"
      using calls ne by (auto simp: finish_tool_calls_def split: if_splits dest: collect_results_length)
    moreover obtain results where "tu_raw_messages s' = tu_raw_messages s1 @ results" "answers calls results"
      using tool_round_answers [OF 2] .
    moreover have "tu_raw_messages s1 = tu_raw_messages s @ [message]"
      using keepsD [OF push_intent_messages refl 1] by simp
    ultimately show ?thesis using complete message by auto
  qed
qed

section \<open>A turn to run\<close>

text \<open>
  A scripted provider: the first attempt asks for one tool call, the second answers; the observer
  records what it gets.
\<close>

definition sample_provider :: "provider_attempt list provider" where
  "sample_provider =
     \<lparr>pv_stream = (\<lambda>request attempts. case attempts of
          [] \<Rightarrow> (Inl (ProviderError ''no attempt''), [])
        | attempt # rest \<Rightarrow> (Inr attempt, rest)),
      pv_remaining_attempts = (\<lambda>attempts. Some (length attempts))\<rparr>"

definition sample_attempts :: "provider_attempt list" where
  "sample_attempts =
     [\<lparr>at_attempt_id = ''1'', at_error_policy = FallbackBeforeVisibleOutput, at_events = [Inr (EvError None)]\<rparr>,
      \<lparr>at_attempt_id = ''2'', at_error_policy = StopPolicy,
       at_events = [Inr (EvToolCallDelta 0 (Some ''a'') (Some ''read'') []), Inr (EvCompleted None None)]\<rparr>,
      \<lparr>at_attempt_id = ''3'', at_error_policy = StopPolicy,
       at_events = [Inr (EvTextDelta ''ok''), Inr (EvCompleted None None)]\<rparr>]"

definition sample_ports :: "(provider_attempt list, unit, json list) turn_ports" where
  "sample_ports = \<lparr>tp_text = sample_text, tp_provider = sample_provider, tp_tools = sample_broker,
                   tp_observe = (\<lambda>event seen. (Inr (), seen @ [event]))\<rparr>"

definition sample_request :: agent_turn_request where
  "sample_request =
     \<lparr>ar_execution_scope = ''s'', ar_transport = ChatCompletions, ar_model = ''m'', ar_system_prompt = None,
      ar_conversation = [PUser ''hi''], ar_tools = []\<rparr>"

definition sample_outcome :: contract_outcome where
  "sample_outcome = projr (fst (run_turn_with_limit_observed sample_ports sample_request 3 (sample_attempts, (), [])))"

definition sample_final :: "provider_attempt list \<times> unit \<times> json list" where
  "sample_final = snd (run_turn_with_limit_observed sample_ports sample_request 3 (sample_attempts, (), []))"

lemma sample_is_ok: "is_ok (fst (run_turn_with_limit_observed sample_ports sample_request 3 (sample_attempts, (), [])))"
  by (simp add: run_turn_with_limit_observed_def sample_request_def validate_request_def tool_host_new_def
      numeral_eq_Suc turn_start_def run_attempt_def sample_ports_def sample_provider_def sample_attempts_def
      act_eval push_event_def attempt_start_def handle_terminal_def or_default_def
      merge_tool_call_delta_def btree_get_def partial_default_def merge_stable_fragment_def
      finish_with_calls_def finish_tool_calls_def finish_tool_call_def id_new_ok unpadded_plain plain_char_def
      provider_tool_request_def provider_call_of_def sample_text_def non_empty_def push_messages_def push_intent_def
      run_tool_round_def on_host_def tool_host_plan_def on_tools_def sample_broker_def
      allocate_invocation_ids_def allocate_invocation_id_def invocation_text_def validate_plans_def
      sample_plan_def request_approval_def tool_host_resolve_approvals_def sample_allow_def
      validate_approval_resolution_def validate_resolved_call_def approval_pending_def
      announce_resolved_def plan_denied_def approval_denied_def tool_host_execute_def sample_terminal_def
      validate_terminals_def hash_map_def announce_terminal_def order_terminals_def provider_tool_result_def
      finish_final_message_def finish_turn_def semanticize_def semantic_call_of_def conversation_new_def
      parse_status.simps validate_calls_def upt_rec chat_request_def opt_str_def Let_def)

lemma sample_run:
  "run_turn_with_limit_observed sample_ports sample_request 3 (sample_attempts, (), [])
     = (Ok sample_outcome, (fst sample_final, (), snd (snd sample_final)))"
  using sample_is_ok unfolding sample_outcome_def sample_final_def
  by (auto simp: is_ok_iff prod_eq_iff)

section \<open>Properties\<close>

text \<open>What an attempt does to the provider, whether it succeeds or fails: one request, nothing else.\<close>

lemma run_attempt_sends:
  assumes sends: "\<And>request p. sent (snd (pv_stream (tp_provider ports) request p)) = sent p @ [request]"
    and run: "run_attempt ports request s = (r, s')"
  shows "sent (tu_provider s') = sent (tu_provider s) @ [chat_request request (tu_raw_messages s)]" "plain_failure r"
    "\<And>outcome. r = Inr outcome \<Longrightarrow> map pq_request (tu_provider_requests s')
       = map pq_request (tu_provider_requests s) @ [json_of_chat_request (chat_request request (tu_raw_messages s))]"
proof -
  let ?q = "chat_request request (tu_raw_messages s)"
  have "sent (tu_provider s') = sent (tu_provider s) @ [?q] \<and> plain_failure r
    \<and> (\<forall>outcome. r = Inr outcome \<longrightarrow> map pq_request (tu_provider_requests s') = map pq_request (tu_provider_requests s) @ [json_of_chat_request ?q])"
  proof (cases "pv_stream (tp_provider ports) ?q (tu_provider s)")
    case (Pair streamed p)
    have sent_p: "sent p = sent (tu_provider s) @ [?q]" using sends [of ?q "tu_provider s"] Pair by simp
    show ?thesis
    proof (cases streamed)
      case (Inl e)
      then have "r = Inl (RuntimeProvider e)" "s' = s\<lparr>tu_provider := p\<rparr>"
        using run Pair by (simp_all add: run_attempt_def act_bind_def act_read_def act_map_err_def act_zoom_def map_err_def)
      then show ?thesis using sent_p by simp
    next
      case (Inr attempt)
      then have rest: "rest_of_attempt ports attempt (opened request attempt p s) = (r, s')"
        using run Pair by (simp add: run_attempt_def rest_of_attempt_def opened_def act_bind_def [of "act_read _"] act_bind_def [of "act_map_err _ _"]
            act_bind_def [of "act_update _"] act_read_def act_update_def act_map_err_def act_zoom_def map_err_def)
      have "tu_provider s' = p" "plain_failure r"
        using apart_rest [of ports attempt] rest unfolding provider_apart_def by (metis fst_conv snd_conv opened_provider)+
      moreover have "tu_provider_requests s' = tu_provider_requests (opened request attempt p s)" if "r = Inr outcome" for outcome
        using keepsD [OF fixed_requests.keeps_rest_of_attempt refl] rest that by blast
      ultimately show ?thesis using sent_p by (auto simp: opened_def)
    qed
  qed
  then show "sent (tu_provider s') = sent (tu_provider s) @ [?q]" "plain_failure r"
    "\<And>outcome. r = Inr outcome \<Longrightarrow> map pq_request (tu_provider_requests s')
       = map pq_request (tu_provider_requests s) @ [json_of_chat_request ?q]" by simp_all
qed

definition budget_error :: "nat \<Rightarrow> runtime_error" where
  "budget_error max_attempts = InvalidTurn (''turn exceeded '' @ show_nat max_attempts @ '' provider attempts'')"

lemma turn_loop_sends:
  assumes sends: "\<And>request p. sent (snd (pv_stream (tp_provider ports) request p)) = sent p @ [request]"
  shows "turn_loop ports request max_attempts remaining s = (r, s') \<Longrightarrow>
     \<exists>requests. sent (tu_provider s') = sent (tu_provider s) @ requests \<and> length requests \<le> remaining
       \<and> (requests = [] \<longleftrightarrow> remaining = 0) \<and> (r = Inl (budget_error max_attempts) \<longleftrightarrow> (\<exists>e. r = Inl e \<and> \<not> plain_error e))
       \<and> (r = Inl (budget_error max_attempts) \<longrightarrow> length requests = remaining)
       \<and> (\<forall>terminal. r = Inr terminal \<longrightarrow> requests \<noteq> [] \<and>
            map pq_request (tu_provider_requests s') = map pq_request (tu_provider_requests s) @ map json_of_chat_request requests)"
proof (induction remaining arbitrary: s)
  case 0
  then show ?case by (auto simp: act_lift_def budget_error_def plain_error_def)
next
  case (Suc remaining)
  let ?q = "chat_request request (tu_raw_messages s)"
  obtain r1 s1 where one: "run_attempt ports request s = (r1, s1)" by (cases "run_attempt ports request s")
  note sent_one = run_attempt_sends [OF sends one]
  have budget: "\<not> plain_error (budget_error max_attempts)" by (simp add: budget_error_def)
  show ?case
  proof (cases "r1 = Inr None")
    case True
    then have "turn_loop ports request max_attempts remaining s1 = (r, s')" using Suc.prems one by (simp add: act_bind_def)
    from Suc.IH [OF this] obtain requests where
      rest: "sent (tu_provider s') = sent (tu_provider s1) @ requests" "length requests \<le> remaining"
        "r = Inl (budget_error max_attempts) \<longleftrightarrow> (\<exists>e. r = Inl e \<and> \<not> plain_error e)"
        "r = Inl (budget_error max_attempts) \<longrightarrow> length requests = remaining"
        "\<forall>terminal. r = Inr terminal \<longrightarrow> requests \<noteq> [] \<and>
            map pq_request (tu_provider_requests s') = map pq_request (tu_provider_requests s1) @ map json_of_chat_request requests"
      by blast
    show ?thesis using rest sent_one(1) sent_one(3) [OF True] by (intro exI [of _ "?q # requests"]) simp
  next
    case False
    then have "s' = s1" "\<And>terminal. r = Inr terminal \<Longrightarrow> \<exists>outcome. r1 = Inr outcome" "plain_failure r"
      using Suc.prems one sent_one(2) by (auto simp: act_bind_def act_return_def split: sum.splits option.splits)
    then show ?thesis
      using sent_one(1,3) budget by (intro exI [of _ "[?q]"]) (auto simp: plain_failure_def)
  qed
qed

text \<open>
  C7. Whatever the provider, the tools and the observer do, and however the turn ends, it sends at most \<open>max_attempts\<close>
  requests to the provider; \<open>sent\<close> is any record a provider keeps of the requests it gets. A turn that is refused
  at its start sends none and every other turn at least one. A turn that returns an outcome lists exactly the requests it
  sent, and left no scripted attempt unused. A turn that fails because the budget is exceeded has used it up.
\<close>

theorem turn_respects_attempt_budget:
  assumes "\<And>request p. sent (snd (pv_stream (tp_provider ports) request p)) = sent p @ [request]"
  shows "case run_turn_with_limit_observed ports request max_attempts (p, b, obs) of (r, (p', b', obs')) \<Rightarrow>
     \<exists>requests. sent p' = sent p @ requests \<and> length requests \<le> max_attempts
       \<and> (requests = [] \<longleftrightarrow> max_attempts = 0 \<or> \<not> is_ok (validate_request request))
       \<and> (case r of
            Inr outcome \<Rightarrow> requests \<noteq> [] \<and> map pq_request (co_provider_requests outcome) = map json_of_chat_request requests
              \<and> pv_remaining_attempts (tp_provider ports) p' \<in> {None, Some 0}
          | Inl e \<Rightarrow> e = InvalidTurn (''turn exceeded '' @ show_nat max_attempts @ '' provider attempts'')
              \<longrightarrow> length requests = max_attempts)"
proof (cases "max_attempts = 0 \<or> \<not> is_ok (validate_request request)")
  case True
  then obtain e where "run_turn_with_limit_observed ports request max_attempts (p, b, obs) = (Inl e, (p, b, obs))"
    "max_attempts \<noteq> 0 \<longrightarrow> validate_request request = Inl e"
    by (cases "max_attempts = 0"; cases "validate_request request") (auto simp: run_turn_with_limit_observed_def)
  moreover have "plain_failure (validate_request request)" by (simp add: validate_request_def)
  ultimately show ?thesis using True by (auto simp: plain_failure_def plain_error_def)
next
  case False
  then have valid: "validate_request request = Inr ()" by (auto simp: is_ok_iff)
  then have "ar_execution_scope request \<noteq> []" by (auto simp: validate_request_def split: if_splits)
  then obtain host where host: "tool_host_new b (ar_execution_scope request) = Inr host" by (simp add: tool_host_new_def)
  obtain r s where loop: "turn_loop ports request max_attempts max_attempts (turn_start request p host obs) = (r, s)"
    by (cases "turn_loop ports request max_attempts max_attempts (turn_start request p host obs)")
  obtain requests where sends: "sent (tu_provider s) = sent p @ requests" "length requests \<le> max_attempts" "requests \<noteq> []"
      "r = Inl (budget_error max_attempts) \<longrightarrow> length requests = max_attempts"
      "\<forall>terminal. r = Inr terminal \<longrightarrow> map pq_request (tu_provider_requests s) = map json_of_chat_request requests"
    using turn_loop_sends [of sent ports, OF assms loop] False by (auto simp: turn_start_def)
  show ?thesis
  proof (cases r)
    case (Inl e)
    then have "run_turn_with_limit_observed ports request max_attempts (p, b, obs) = (Inl e, (tu_provider s, th_tools (tu_host s), tu_observer s))"
      using False valid host loop by (simp add: run_turn_with_limit_observed_def act_bind_def)
    then show ?thesis using sends False Inl by (auto simp: budget_error_def)
  next
    case (Inr terminal)
    obtain r' s' where end_turn: "finish_turn ports terminal s = (r', s')" by (cases "finish_turn ports terminal s")
    have same: "s' = s" "plain_failure r'" and ok: "\<And>outcome. r' = Inr outcome \<Longrightarrow>
        co_provider_requests outcome = tu_provider_requests s \<and> pv_remaining_attempts (tp_provider ports) (tu_provider s) \<in> {None, Some 0}"
      using end_turn plain_semanticize [of "tp_text ports" "tu_raw_messages s"]
      by (auto simp: finish_turn_def act_bind_def act_try_def act_read_def ensure_def plain_failure_def split: prod.splits sum.splits option.splits if_splits)
    have "run_turn_with_limit_observed ports request max_attempts (p, b, obs) = (r', (tu_provider s, th_tools (tu_host s), tu_observer s))"
      using False valid host loop Inr end_turn same(1) by (simp add: run_turn_with_limit_observed_def act_bind_def)
    then show ?thesis using sends False Inr same(2) ok by (auto simp: plain_failure_def plain_error_def split: sum.split)
  qed
qed

text \<open>Any provider can keep such a record.\<close>

definition recording :: "'p provider \<Rightarrow> ('p \<times> chat_completions_request list) provider" where
  "recording provider =
     \<lparr>pv_stream = (\<lambda>request (p, sent). case pv_stream provider request p of (r, p') \<Rightarrow> (r, (p', sent @ [request]))),
      pv_remaining_attempts = pv_remaining_attempts provider \<circ> fst\<rparr>"

lemma recording_records: "snd (snd (pv_stream (recording provider) request p)) = snd p @ [request]"
  by (simp add: recording_def split: prod.split)

definition recorded_ports :: "(provider_attempt list \<times> chat_completions_request list, unit, json list) turn_ports" where
  "recorded_ports = \<lparr>tp_text = sample_text, tp_provider = recording sample_provider, tp_tools = sample_broker,
                     tp_observe = (\<lambda>event seen. (Inr (), seen @ [event]))\<rparr>"

theorem turn_respects_attempt_budget_witness:
  "\<exists>p' b' obs'. run_turn_with_limit_observed recorded_ports sample_request 1 ((sample_attempts, []), (), [])
       = (Err (budget_error 1), (p', b', obs')) \<and> length (snd p') = 1"
proof -
  obtain p' b' obs' where run: "run_turn_with_limit_observed recorded_ports sample_request 1 ((sample_attempts, []), (), [])
       = (Err (budget_error 1), (p', b', obs'))"
    by (simp add: run_turn_with_limit_observed_def sample_request_def validate_request_def tool_host_new_def
      turn_start_def run_attempt_def recorded_ports_def recording_def sample_provider_def sample_attempts_def
      act_eval push_event_def attempt_start_def handle_terminal_def or_default_def numeral_eq_Suc budget_error_def)
  have "snd (snd (pv_stream (tp_provider recorded_ports) request p)) = snd p @ [request]" for request p
    by (simp add: recorded_ports_def recording_records)
  from turn_respects_attempt_budget [where sent = snd and ports = recorded_ports and request = sample_request and max_attempts = 1
      and p = "(sample_attempts, [])" and b = "()" and obs = "[]", OF this] run
  have "length (snd p') = 1" by (auto simp: budget_error_def)
  then show ?thesis using run by blast
qed

text \<open>
  The observer of a live turn sees exactly the returned event log: feeding it the events of the
  outcome in their order takes it from its initial to its final state, without a failure.
\<close>

theorem observer_sees_the_returned_log:
  assumes "run_turn_with_limit_observed ports request max_attempts (p, b, obs) = (Ok outcome, (p', b', obs'))"
  shows "act_each (tp_observe ports) (co_public_events outcome) obs = (Ok (), obs')"
  using assms
proof (rule run_turn_ok)
  fix host s
  assume run: "turn_loop ports request max_attempts max_attempts (turn_start request p host obs)
       = (Inr (co_terminal_outcome outcome), s)"
    and "co_public_events outcome = tu_events s" "obs' = tu_observer s"
  moreover have "observed ports obs (turn_start request p host obs)"
    by (simp add: observed_def turn_start_def act_return_def)
  ultimately show ?thesis
    using keepsD [OF observed_log.keeps_turn_loop] by (simp add: observed_def)
qed

theorem observer_sees_the_returned_log_witness:
  "act_each (tp_observe sample_ports) (co_public_events sample_outcome) [] = (Ok (), snd (snd sample_final))"
  by (rule observer_sees_the_returned_log [of _ sample_request 3 sample_attempts "()" _ _
        "fst sample_final" "()"]) (rule sample_run)

text \<open>
  C1. The conversation a turn returns is legal and was read from a provider history that extends the
  requested one by messages of the shape \<open>turn_shaped\<close>; every request the turn sent is the rendering of a
  stage of that history, so no request rewrites what an earlier one contained.
\<close>

theorem turn_only_extends_the_conversation:
  assumes "run_turn_with_limit_observed ports request max_attempts (p, b, obs) = (Ok outcome, (p', b', obs'))"
  shows "legal (co_semantic_conversation outcome)
     \<and> (\<exists>new. list_all turn_shaped new
          \<and> semanticize (tp_text ports) (ar_conversation request @ new) = Ok (co_semantic_conversation outcome)
          \<and> list_all (\<lambda>record. \<exists>stage. prefix (ar_conversation request) stage
                \<and> prefix stage (ar_conversation request @ new)
                \<and> pq_request record = json_of_chat_request (chat_request request stage))
              (co_provider_requests outcome))"
  using assms
proof (rule run_turn_ok)
  fix host s
  assume run: "turn_loop ports request max_attempts max_attempts (turn_start request p host obs)
       = (Inr (co_terminal_outcome outcome), s)"
    and sem: "semanticize (tp_text ports) (tu_raw_messages s) = Inr (co_semantic_conversation outcome)"
    and requests: "co_provider_requests outcome = tu_provider_requests s"
  have "grown request (turn_start request p host obs)" by (simp add: grown_def turn_start_def)
  from keepsD [OF growing_conversation.keeps_turn_loop this run] have "grown request s" .
  moreover have "legal (co_semantic_conversation outcome)"
    using sem by (auto simp: semanticize_def and_then_eq_Inr conversation_new_Inr)
  ultimately show ?thesis using sem requests by (auto simp: grown_def)
qed

theorem turn_only_extends_the_conversation_witness:
  "legal (co_semantic_conversation sample_outcome)
     \<and> (\<exists>new. list_all turn_shaped new
          \<and> semanticize (tp_text sample_ports) (ar_conversation sample_request @ new) = Ok (co_semantic_conversation sample_outcome)
          \<and> list_all (\<lambda>record. \<exists>stage. prefix (ar_conversation sample_request) stage
                \<and> prefix stage (ar_conversation sample_request @ new)
                \<and> pq_request record = json_of_chat_request (chat_request sample_request stage))
              (co_provider_requests sample_outcome))"
  by (rule turn_only_extends_the_conversation [of _ _ 3 sample_attempts "()" "[]" _
        "fst sample_final" "()" "snd (snd sample_final)"]) (rule sample_run)

text \<open>
  In whatever order a broker completes the calls, a tool round appends exactly one result per
  call to the conversation, in the order of the calls.
\<close>

theorem tool_round_results_in_call_order:
  assumes "run_tool_round ports calls s = (Ok u, s')"
  shows "\<exists>results. tu_raw_messages s' = tu_raw_messages s @ results \<and> answers calls results"
  using tool_round_answers [OF assms] by blast

definition sample_state :: "(provider_attempt list, unit, json list) turn_state" where
  "sample_state = turn_start sample_request sample_attempts sample_host []"

lemma sample_round_is_ok: "is_ok (fst (run_tool_round sample_ports (map sample_call [''a'', ''b'']) sample_state))"
  by (simp add: sample_state_def turn_start_def sample_request_def sample_ports_def sample_defs act_eval
      push_event_def push_messages_def push_intent_def run_tool_round_def on_host_def tool_host_plan_def on_tools_def
      allocate_invocation_ids_def allocate_invocation_id_def invocation_text_def validate_plans_def
      id_new_ok unpadded_plain plain_char_def request_approval_def tool_host_resolve_approvals_def
      validate_approval_resolution_def validate_resolved_call_def approval_pending_def
      announce_resolved_def plan_denied_def approval_denied_def tool_host_execute_def
      validate_terminals_def hash_map_def announce_terminal_def order_terminals_def provider_tool_result_def)

theorem tool_round_results_in_call_order_witness:
  "\<exists>results. tu_raw_messages (snd (run_tool_round sample_ports (map sample_call [''a'', ''b'']) sample_state))
       = tu_raw_messages sample_state @ results \<and> answers (map sample_call [''a'', ''b'']) results"
  by (rule tool_round_results_in_call_order [of sample_ports _ _ "()"])
     (use sample_round_is_ok in \<open>auto simp: is_ok_iff prod_eq_iff\<close>)


lemma sample_attempt_goes_on:
  "run_attempt sample_ports sample_request sample_state
     = (Ok None, snd (run_attempt sample_ports sample_request sample_state))"
  by (simp add: sample_state_def turn_start_def sample_request_def sample_ports_def sample_provider_def
      sample_attempts_def sample_host_def run_attempt_def act_eval push_event_def attempt_start_def
      handle_terminal_def or_default_def chat_request_def)


end
