(* ===== verification/Sqlite_Schema.thy ===== *)
theory Sqlite_Schema
  imports Ports "HOL-Library.Product_Lexorder"
begin

text \<open>
  The database of \<open>apps/hermesd/src/adapters/sqlite.rs\<close>: the tables that the schema script creates
  at version 8, as lists of rows in insertion order, with the constraints of their columns, and the
  statements the stores use. A statement that breaks a constraint fails; SQLite's own text of such
  a failure, disk errors and lock timeouts are outside of the model. A column of type \<open>INTEGER\<close> is
  an integer; \<open>TEXT\<close> compares bytewise.

  The text codecs of \<open>serde_json\<close> are the parameter \<open>serde\<close>: one encoder and one decoder per type
  that the stores write into a \<open>*_json\<close> column. SHA-256 and \<open>{:?}\<close> of a text, which depends on the
  tables of Unicode, are parameters there too.
\<close>

section \<open>Codecs\<close>

record 'a codec =
  cd_enc :: "'a \<Rightarrow> string + string"
  cd_dec :: "string \<Rightarrow> string + 'a"

text \<open>The codec writes \<open>x\<close> as a text from which it reads \<open>x\<close> again.\<close>

definition encodes :: "'a codec \<Rightarrow> 'a \<Rightarrow> bool" where
  "encodes c x \<longleftrightarrow> (case cd_enc c x of Inl _ \<Rightarrow> False | Inr s \<Rightarrow> cd_dec c s = Inr x)"

lemma encodesE: "encodes c x \<Longrightarrow> (\<And>s. cd_enc c x = Inr s \<Longrightarrow> cd_dec c s = Inr x \<Longrightarrow> P) \<Longrightarrow> P"
  by (auto simp: encodes_def split: sum.splits)

record serde =
  sx_arguments :: "tool_arguments codec"
  sx_effect :: "tool_effect codec"
  sx_approval :: "approval_record codec"
  sx_message :: "semantic_message codec"
  sx_tools :: "json list codec"
  sx_transport :: "transport_kind codec"
  sx_engine_config :: "engine_config codec"
  sx_delegation_terminal :: "delegation_terminal codec"
  sx_completion :: "delegation_completion codec"
  sx_foreground_terminal :: "foreground_turn_terminal codec"
  sx_sha256 :: "string \<Rightarrow> string"
  sx_debug_str :: "string \<Rightarrow> string"

section \<open>Rows\<close>

record session_row =
  sr_session_id :: string
  sr_lineage_id :: string
  sr_owner_generation :: i64
  sr_engine_id :: string
  sr_prompt_revision :: i64
  sr_system_prompt_digest :: string
  sr_tool_catalog_digest :: string
  sr_transport_json :: string
  sr_provider_adapter :: string
  sr_base_url :: string
  sr_api_key_env :: "string option"
  sr_model :: string
  sr_tool_root :: string
  sr_system_prompt :: string
  sr_tools_json :: string
  sr_engine_config_json :: string
  sr_message_count :: i64
  sr_created_at :: i64
  sr_updated_at :: i64

record message_row =
  mr_session_id :: string
  mr_sequence :: i64
  mr_message_json :: string

record effect_row =
  er_execution_key :: string
  er_execution_scope :: string
  er_call_id :: string
  er_name :: string
  er_arguments_json :: string
  er_effect_json :: string
  er_approval_json :: "string option"
  er_status :: string
  er_content :: "string option"
  er_receipt :: "string option"
  er_planned_at :: i64
  er_completed_at :: "i64 option"

record delegation_row =
  dr_delegation_id :: string
  dr_completion_event_id :: string
  dr_parent_session_id :: string
  dr_child_session_id :: string
  dr_goal :: string
  dr_context :: "string option"
  dr_state :: string
  dr_owner_generation :: i64
  dr_worker_id :: "string option"
  dr_fencing_token :: i64
  dr_lease_expires_at_ms :: "i64 option"
  dr_terminal_json :: "string option"
  dr_created_at_ms :: i64
  dr_updated_at_ms :: i64
  dr_cancellation_reason :: "string option"
  dr_cancellation_requested_at_ms :: "i64 option"

record completion_row =
  cr_event_id :: string
  cr_delegation_id :: string
  cr_payload_json :: string
  cr_delivery_state :: string
  cr_delivery_claim_id :: "string option"
  cr_delivery_claim_expires_at_ms :: "i64 option"
  cr_delivery_attempts :: i64
  cr_created_at_ms :: i64
  cr_delivered_at_ms :: "i64 option"

record turn_row =
  tn_turn_id :: string
  tn_session_id :: string
  tn_owner_generation :: i64
  tn_prompt :: string
  tn_state :: string
  tn_terminal_json :: "string option"
  tn_started_at_ms :: i64
  tn_updated_at_ms :: i64
  tn_provider_prompt :: string

record binding_row =
  br_session_id :: string
  br_owner_generation :: i64
  br_worker_kind :: string
  br_binding_json :: string
  br_updated_at :: i64

record database =
  db_sessions :: "session_row list"
  db_messages :: "message_row list"
  db_effects :: "effect_row list"
  db_delegations :: "delegation_row list"
  db_completions :: "completion_row list"
  db_turns :: "turn_row list"
  db_bindings :: "binding_row list"

definition empty_database :: database where
  "empty_database = \<lparr>db_sessions = [], db_messages = [], db_effects = [], db_delegations = [],
                     db_completions = [], db_turns = [], db_bindings = []\<rparr>"

type_synonym ('e, 'a) db_action = "(database, 'e, 'a) action"

section \<open>Constraints\<close>

text \<open>The \<open>CHECK\<close> clauses, one predicate per table.\<close>

definition session_check :: "session_row \<Rightarrow> bool" where
  "session_check r \<longleftrightarrow> 0 < sr_owner_generation r \<and> 0 < sr_prompt_revision r \<and> 0 \<le> sr_message_count r"

definition message_check :: "message_row \<Rightarrow> bool" where
  "message_check r \<longleftrightarrow> 0 \<le> mr_sequence r"

definition effect_check :: "effect_row \<Rightarrow> bool" where
  "effect_check r \<longleftrightarrow>
     (er_status r = ''planned'' \<and> er_content r = None \<and> er_completed_at r = None)
     \<or> (er_status r \<noteq> ''planned'' \<and> er_content r \<noteq> None \<and> er_completed_at r \<noteq> None)"

definition delegation_check :: "delegation_row \<Rightarrow> bool" where
  "delegation_check r \<longleftrightarrow>
     0 < dr_owner_generation r \<and> 0 \<le> dr_fencing_token r \<and> 0 \<le> dr_created_at_ms r
     \<and> dr_created_at_ms r \<le> dr_updated_at_ms r
     \<and> dr_state r \<in> {''pending'', ''running'', ''completed'', ''failed'', ''cancelled'', ''outcome_unknown''}
     \<and> ((dr_state r = ''pending'' \<and> dr_worker_id r = None \<and> dr_fencing_token r = 0
           \<and> dr_lease_expires_at_ms r = None \<and> dr_terminal_json r = None)
        \<or> (dr_state r = ''running'' \<and> dr_worker_id r \<noteq> None \<and> 0 < dr_fencing_token r
           \<and> dr_lease_expires_at_ms r \<noteq> None \<and> dr_terminal_json r = None)
        \<or> (dr_state r \<in> {''completed'', ''failed'', ''cancelled'', ''outcome_unknown''}
           \<and> 0 < dr_fencing_token r \<and> dr_lease_expires_at_ms r = None \<and> dr_terminal_json r \<noteq> None))"

definition completion_check :: "completion_row \<Rightarrow> bool" where
  "completion_check r \<longleftrightarrow>
     0 \<le> cr_delivery_attempts r \<and> 0 \<le> cr_created_at_ms r
     \<and> cr_delivery_state r \<in> {''pending'', ''delivered''}
     \<and> (cr_delivery_claim_id r = None \<longleftrightarrow> cr_delivery_claim_expires_at_ms r = None)
     \<and> ((cr_delivery_state r = ''pending'' \<and> cr_delivered_at_ms r = None)
        \<or> (cr_delivery_state r = ''delivered'' \<and> cr_delivered_at_ms r \<noteq> None
           \<and> cr_delivery_claim_id r = None \<and> cr_delivery_claim_expires_at_ms r = None))"

text \<open>SQLite's \<open>length\<close> of a text counts the characters before the first NUL.\<close>

definition sql_nonempty :: "string \<Rightarrow> bool" where
  "sql_nonempty s \<longleftrightarrow> s \<noteq> [] \<and> hd s \<noteq> CHR 0x00"

definition turn_check :: "turn_row \<Rightarrow> bool" where
  "turn_check r \<longleftrightarrow>
     0 < tn_owner_generation r \<and> sql_nonempty (tn_prompt r)
     \<and> 0 \<le> tn_started_at_ms r \<and> tn_started_at_ms r \<le> tn_updated_at_ms r
     \<and> tn_state r \<in> {''running'', ''completed'', ''interrupted'', ''failed'', ''outcome_unknown''}
     \<and> (tn_state r = ''running'' \<longleftrightarrow> tn_terminal_json r = None)"

definition binding_check :: "binding_row \<Rightarrow> bool" where
  "binding_check r \<longleftrightarrow> 0 < br_owner_generation r"

section \<open>Statements\<close>

text \<open>
  \<open>INSERT\<close> of one row: the checks of the row, the uniqueness constraints against the rows that are
  there, and the foreign keys, in \<open>fits\<close>.
\<close>

definition sql_insert :: "('r \<Rightarrow> bool) \<Rightarrow> ('r \<Rightarrow> 'r list \<Rightarrow> bool) \<Rightarrow> 'r \<Rightarrow> 'r list \<Rightarrow> string + 'r list" where
  "sql_insert check fits row rows =
     (if \<not> check row then Err ''CHECK constraint failed''
      else if \<not> fits row rows then Err ''UNIQUE or FOREIGN KEY constraint failed''
      else Ok (rows @ [row]))"

text \<open>\<open>UPDATE .. SET .. WHERE\<close>: the number of rows it changed and the new table.\<close>

definition sql_update :: "('r \<Rightarrow> bool) \<Rightarrow> ('r \<Rightarrow> bool) \<Rightarrow> ('r \<Rightarrow> 'r) \<Rightarrow> 'r list \<Rightarrow> string + nat \<times> 'r list" where
  "sql_update check matches change rows =
     (if list_all (\<lambda>r. matches r \<longrightarrow> check (change r)) rows
      then Ok (length (filter matches rows), map (\<lambda>r. if matches r then change r else r) rows)
      else Err ''CHECK constraint failed'')"

text \<open>A statement on one table of the database, as an action.\<close>

definition run_insert ::
  "(database \<Rightarrow> 'r list) \<Rightarrow> ('r list \<Rightarrow> database \<Rightarrow> database) \<Rightarrow> ('r \<Rightarrow> bool) \<Rightarrow> (database \<Rightarrow> 'r \<Rightarrow> 'r list \<Rightarrow> bool)
     \<Rightarrow> (string \<Rightarrow> 'e) \<Rightarrow> 'r \<Rightarrow> ('e, unit) db_action" where
  "run_insert get put check fits err row d =
     (case sql_insert check (fits d) row (get d) of
        Inl e \<Rightarrow> (Inl (err e), d)
      | Inr rows \<Rightarrow> (Inr (), put rows d))"

definition run_update ::
  "(database \<Rightarrow> 'r list) \<Rightarrow> ('r list \<Rightarrow> database \<Rightarrow> database) \<Rightarrow> ('r \<Rightarrow> bool) \<Rightarrow> (string \<Rightarrow> 'e)
     \<Rightarrow> ('r \<Rightarrow> bool) \<Rightarrow> ('r \<Rightarrow> 'r) \<Rightarrow> ('e, nat) db_action" where
  "run_update get put check err matches change d =
     (case sql_update check matches change (get d) of
        Inl e \<Rightarrow> (Inl (err e), d)
      | Inr (n, rows) \<Rightarrow> (Inr n, put rows d))"

definition has_session :: "database \<Rightarrow> string \<Rightarrow> bool" where
  "has_session d sid \<longleftrightarrow> (\<exists>r \<in> set (db_sessions d). sr_session_id r = sid)"

definition insert_session :: "(string \<Rightarrow> 'e) \<Rightarrow> session_row \<Rightarrow> ('e, unit) db_action" where
  "insert_session = run_insert db_sessions (\<lambda>rows d. d\<lparr>db_sessions := rows\<rparr>) session_check
     (\<lambda>_ r rows. sr_session_id r \<notin> sr_session_id ` set rows)"

definition update_sessions :: "(string \<Rightarrow> 'e) \<Rightarrow> (session_row \<Rightarrow> bool) \<Rightarrow> (session_row \<Rightarrow> session_row) \<Rightarrow> ('e, nat) db_action" where
  "update_sessions = run_update db_sessions (\<lambda>rows d. d\<lparr>db_sessions := rows\<rparr>) session_check"

definition insert_message :: "(string \<Rightarrow> 'e) \<Rightarrow> message_row \<Rightarrow> ('e, unit) db_action" where
  "insert_message = run_insert db_messages (\<lambda>rows d. d\<lparr>db_messages := rows\<rparr>) message_check
     (\<lambda>d r rows. (mr_session_id r, mr_sequence r) \<notin> (\<lambda>m. (mr_session_id m, mr_sequence m)) ` set rows
        \<and> has_session d (mr_session_id r))"

definition insert_effect :: "(string \<Rightarrow> 'e) \<Rightarrow> effect_row \<Rightarrow> ('e, unit) db_action" where
  "insert_effect = run_insert db_effects (\<lambda>rows d. d\<lparr>db_effects := rows\<rparr>) effect_check
     (\<lambda>_ r rows. er_execution_key r \<notin> er_execution_key ` set rows)"

definition update_effects :: "(string \<Rightarrow> 'e) \<Rightarrow> (effect_row \<Rightarrow> bool) \<Rightarrow> (effect_row \<Rightarrow> effect_row) \<Rightarrow> ('e, nat) db_action" where
  "update_effects = run_update db_effects (\<lambda>rows d. d\<lparr>db_effects := rows\<rparr>) effect_check"

definition insert_delegation :: "(string \<Rightarrow> 'e) \<Rightarrow> delegation_row \<Rightarrow> ('e, unit) db_action" where
  "insert_delegation = run_insert db_delegations (\<lambda>rows d. d\<lparr>db_delegations := rows\<rparr>) delegation_check
     (\<lambda>d r rows. dr_delegation_id r \<notin> dr_delegation_id ` set rows
        \<and> dr_completion_event_id r \<notin> dr_completion_event_id ` set rows
        \<and> dr_child_session_id r \<notin> dr_child_session_id ` set rows
        \<and> has_session d (dr_parent_session_id r) \<and> has_session d (dr_child_session_id r))"

definition update_delegations ::
  "(string \<Rightarrow> 'e) \<Rightarrow> (delegation_row \<Rightarrow> bool) \<Rightarrow> (delegation_row \<Rightarrow> delegation_row) \<Rightarrow> ('e, nat) db_action" where
  "update_delegations = run_update db_delegations (\<lambda>rows d. d\<lparr>db_delegations := rows\<rparr>) delegation_check"

definition insert_completion_row :: "(string \<Rightarrow> 'e) \<Rightarrow> completion_row \<Rightarrow> ('e, unit) db_action" where
  "insert_completion_row = run_insert db_completions (\<lambda>rows d. d\<lparr>db_completions := rows\<rparr>) completion_check
     (\<lambda>d r rows. cr_event_id r \<notin> cr_event_id ` set rows
        \<and> cr_delegation_id r \<notin> cr_delegation_id ` set rows
        \<and> cr_delegation_id r \<in> dr_delegation_id ` set (db_delegations d))"

definition update_completions ::
  "(string \<Rightarrow> 'e) \<Rightarrow> (completion_row \<Rightarrow> bool) \<Rightarrow> (completion_row \<Rightarrow> completion_row) \<Rightarrow> ('e, nat) db_action" where
  "update_completions = run_update db_completions (\<lambda>rows d. d\<lparr>db_completions := rows\<rparr>) completion_check"

definition insert_turn :: "(string \<Rightarrow> 'e) \<Rightarrow> turn_row \<Rightarrow> ('e, unit) db_action" where
  "insert_turn = run_insert db_turns (\<lambda>rows d. d\<lparr>db_turns := rows\<rparr>) turn_check
     (\<lambda>d r rows. tn_turn_id r \<notin> tn_turn_id ` set rows
        \<and> (tn_state r = ''running'' \<longrightarrow>
             (\<forall>t \<in> set rows. tn_session_id t = tn_session_id r \<longrightarrow> tn_state t \<noteq> ''running''))
        \<and> has_session d (tn_session_id r))"

definition update_turns :: "(string \<Rightarrow> 'e) \<Rightarrow> (turn_row \<Rightarrow> bool) \<Rightarrow> (turn_row \<Rightarrow> turn_row) \<Rightarrow> ('e, nat) db_action" where
  "update_turns = run_update db_turns (\<lambda>rows d. d\<lparr>db_turns := rows\<rparr>) turn_check"

text \<open>\<open>SELECT .. WHERE key = ?\<close>, \<open>.optional()\<close>.\<close>

definition select_row :: "(database \<Rightarrow> 'r list) \<Rightarrow> ('r \<Rightarrow> bool) \<Rightarrow> ('e, 'r option) db_action" where
  "select_row get matches = act_read (\<lambda>d. find matches (get d))"

section \<open>Sample codecs\<close>

text \<open>Codecs for the examples.\<close>

definition sample_codec :: "('a \<times> string) list \<Rightarrow> 'a codec" where
  "sample_codec table =
     \<lparr>cd_enc = (\<lambda>x. case map_of table x of None \<Rightarrow> Err ''unsupported'' | Some s \<Rightarrow> Ok s),
      cd_dec = (\<lambda>s. case map_of (map prod.swap table) s of None \<Rightarrow> Err ''invalid'' | Some x \<Rightarrow> Ok x)\<rparr>"

definition sample_delegation :: delegation_spec where
  "sample_delegation =
     \<lparr>ds_delegation_id = DelegationId ''d'', ds_completion_event_id = CompletionEventId ''e'',
      ds_parent_session_id = SessionId ''p'', ds_child_session_id = SessionId ''c'', ds_goal = ''g'', ds_context = None\<rparr>"

definition sample_completion :: "delegation_terminal \<Rightarrow> u64 \<Rightarrow> delegation_completion" where
  "sample_completion outcome at =
     \<lparr>dm_event_id = CompletionEventId ''e'', dm_delegation_id = DelegationId ''d'', dm_spec = sample_delegation,
      dm_outcome = outcome, dm_completed_at_ms = at\<rparr>"

definition sample_expiry :: delegation_terminal where
  "sample_expiry = DelegationOutcomeUnknown ''worker lease expired at 9; no terminal outcome was durably recorded''"

definition sample_serde :: serde where
  "sample_serde =
     \<lparr>sx_arguments = sample_codec [([], ''{}'')], sx_effect = sample_codec [(ReadOnly, ''r'')],
      sx_approval = sample_codec
        [(\<lparr>ap_required = True, ap_decision = ''pending'', ap_principal = ''user''\<rparr>, ''p''),
         (\<lparr>ap_required = True, ap_decision = ''allow'', ap_principal = ''user''\<rparr>, ''a'')],
      sx_message = sample_codec [(User ''hi'' None, ''u''), (Assistant ''ok'' None None, ''a'')],
      sx_tools = sample_codec [([], ''[]'')], sx_transport = sample_codec [(ChatCompletions, ''c'')],
      sx_engine_config = sample_codec [(EngineDirect, ''d'')],
      sx_delegation_terminal = sample_codec
        [(DelegationCompleted ''done'', ''d''), (DelegationCancelled ''stop'', ''c''), (sample_expiry, ''x'')],
      sx_completion = sample_codec
        [(sample_completion (DelegationCompleted ''done'') 4, ''m''), (sample_completion (DelegationCancelled ''stop'') 5, ''k''),
         (sample_completion sample_expiry 9, ''n'')],
      sx_foreground_terminal = sample_codec [(TurnCompleted, ''c''), (TurnFailed ''bad'', ''f''), (TurnOutcomeUnknown ''x'', ''u'')],
      sx_sha256 = (\<lambda>_. replicate 64 (CHR ''a'')), sx_debug_str = (\<lambda>s. s)\<rparr>"

end
