(* ===== verification/Effect_Ledger.thy ===== *)
theory Effect_Ledger
  imports Runtime_ToolHost Sqlite_Schema
begin

text \<open>
  \<open>SqliteEffectLedger\<close> of \<open>apps/hermesd/src/adapters/sqlite.rs\<close>: the write-ahead ledger of tool
  effects. Proved here: every operation keeps the rows readable, an operation that fails leaves the
  database as it was, and seen through the map from execution keys to entries the operations are the
  partial functions of an abstract ledger: plans are added once, approvals decided once, terminals
  attached once, and \<open>pending\<close> lists exactly the entries without a terminal.
\<close>

section \<open>Recording plans\<close>

text \<open>The first key that occurs a second time: the loops over \<open>keys.insert\<close>.\<close>

fun duplicate_key :: "('a \<Rightarrow> 'k) \<Rightarrow> 'k set \<Rightarrow> 'a list \<Rightarrow> 'k option" where
  "duplicate_key key seen [] = None"
| "duplicate_key key seen (x # xs) =
     (if key x \<in> seen then Some (key x) else duplicate_key key (insert (key x) seen) xs)"

lemma duplicate_key_None:
  "duplicate_key key seen xs = None \<longleftrightarrow> distinct (map key xs) \<and> set (map key xs) \<inter> seen = {}"
  by (induction key seen xs rule: duplicate_key.induct) auto

definition key_str :: "invocation_id \<Rightarrow> string" where
  "key_str = invocation_id_str"

definition no_duplicates :: "string \<Rightarrow> ('a \<Rightarrow> invocation_id) \<Rightarrow> 'a list \<Rightarrow> effect_ledger_error + unit" where
  "no_duplicates batch key xs =
     (case duplicate_key key {} xs of
        Some k \<Rightarrow> Err (LedgerInvalid (''duplicate execution key in '' @ batch @ '' batch: '' @ key_str k))
      | None \<Rightarrow> Ok ())"

definition find_effect :: "invocation_id \<Rightarrow> (effect_ledger_error, effect_row option) db_action" where
  "find_effect k = select_row db_effects (\<lambda>r. er_execution_key r = key_str k)"

definition ensure_unrecorded :: "planned_tool_call \<Rightarrow> (effect_ledger_error, unit) db_action" where
  "ensure_unrecorded plan =
     act_bind (find_effect (pl_invocation_id plan)) (\<lambda>found.
       if found \<noteq> None then act_lift (Err (LedgerAlreadyRecorded (key_str (pl_invocation_id plan))))
       else act_return ())"

text \<open>\<open>now plan\<close> is \<open>unixepoch()\<close> at the moment that row is written.\<close>

definition planned_row ::
  "serde \<Rightarrow> (planned_tool_call \<Rightarrow> i64) \<Rightarrow> string \<Rightarrow> planned_tool_call \<Rightarrow> string + effect_row" where
  "planned_row sx now scope plan =
     and_then (cd_enc (sx_arguments sx) (pl_arguments plan)) (\<lambda>arguments.
     and_then (cd_enc (sx_effect sx) (pl_effect plan)) (\<lambda>effect.
     and_then (transpose_opt (map_option (cd_enc (sx_approval sx)) (pl_approval plan))) (\<lambda>approval.
       Ok \<lparr>er_execution_key = key_str (pl_invocation_id plan), er_execution_scope = scope,
           er_call_id = tool_call_id_str (pl_call_id plan), er_name = pl_name plan,
           er_arguments_json = arguments, er_effect_json = effect, er_approval_json = approval,
           er_status = ''planned'', er_content = None, er_receipt = None,
           er_planned_at = now plan, er_completed_at = None\<rparr>)))"

definition insert_plan ::
  "serde \<Rightarrow> (planned_tool_call \<Rightarrow> i64) \<Rightarrow> string \<Rightarrow> planned_tool_call \<Rightarrow> (effect_ledger_error, unit) db_action" where
  "insert_plan sx now scope plan =
     act_bind (act_lift (map_err LedgerStorage (planned_row sx now scope plan))) (insert_effect LedgerStorage)"

definition record_plans ::
  "serde \<Rightarrow> (planned_tool_call \<Rightarrow> i64) \<Rightarrow> string \<Rightarrow> planned_tool_call list \<Rightarrow> (effect_ledger_error, unit) db_action" where
  "record_plans sx now scope plans =
     (if scope = [] then act_lift (Err (LedgerInvalid ''execution scope must be non-empty''))
      else if plans = [] then act_lift (Err (LedgerInvalid ''cannot record an empty plan batch''))
      else act_bind (act_lift (no_duplicates ''plan'' pl_invocation_id plans)) (\<lambda>_.
        transaction
          (act_bind (act_each ensure_unrecorded plans) (\<lambda>_.
           act_each (insert_plan sx now scope) plans))))"

section \<open>Recording approvals\<close>

definition invalid :: "string + 'a \<Rightarrow> effect_ledger_error + 'a" where
  "invalid = map_err LedgerInvalid"

text \<open>What the loop over \<open>resolved_plans\<close> does with a recorded plan: the update it asks for.\<close>

definition approval_update ::
  "serde \<Rightarrow> planned_tool_call \<Rightarrow> effect_row \<Rightarrow> effect_ledger_error + (invocation_id \<times> string) option" where
  "approval_update sx plan row =
     (let key = key_str (pl_invocation_id plan) in
      if er_status row \<noteq> ''planned'' then Err (LedgerAlreadyTerminal key)
      else
        and_then (invalid (cd_dec (sx_arguments sx) (er_arguments_json row))) (\<lambda>arguments.
        and_then (invalid (cd_dec (sx_effect sx) (er_effect_json row))) (\<lambda>effect.
        if er_call_id row \<noteq> tool_call_id_str (pl_call_id plan) \<or> er_name row \<noteq> pl_name plan
           \<or> arguments \<noteq> pl_arguments plan \<or> effect \<noteq> pl_effect plan
        then Err (LedgerPlanMismatch key)
        else
          and_then (invalid (transpose_opt (map_option (cd_dec (sx_approval sx)) (er_approval_json row)))) (\<lambda>recorded.
          case (recorded, pl_approval plan) of
            (None, None) \<Rightarrow> Ok None
          | (Some before, Some after) \<Rightarrow>
              if approval_pending before then
                if approval_pending after \<or> ap_decision after \<notin> {''allow'', ''deny''}
                   \<or> ap_required before \<noteq> ap_required after \<or> ap_principal before \<noteq> ap_principal after
                then Err (LedgerPlanMismatch key)
                else and_then (map_err LedgerStorage (cd_enc (sx_approval sx) after))
                       (\<lambda>json. Ok (Some (pl_invocation_id plan, json)))
              else if before = after then Ok None
              else Err (LedgerPlanMismatch key)
          | _ \<Rightarrow> Err (LedgerPlanMismatch key)))))"

fun approval_updates ::
  "serde \<Rightarrow> invocation_id set \<Rightarrow> planned_tool_call list
     \<Rightarrow> (effect_ledger_error, (invocation_id \<times> string) list) db_action" where
  "approval_updates sx seen [] = act_return []"
| "approval_updates sx seen (plan # plans) =
     (if pl_invocation_id plan \<in> seen
      then act_lift (Err (LedgerInvalid (''duplicate execution key in approval batch: ''
             @ key_str (pl_invocation_id plan))))
      else
        act_bind (find_effect (pl_invocation_id plan)) (\<lambda>found.
        act_bind (act_lift (ok_or (LedgerMissingPlan (key_str (pl_invocation_id plan))) found)) (\<lambda>row.
        act_bind (act_lift (approval_update sx plan row)) (\<lambda>update.
        act_bind (approval_updates sx (insert (pl_invocation_id plan) seen) plans) (\<lambda>updates.
        act_return (case update of None \<Rightarrow> updates | Some u \<Rightarrow> u # updates))))))"

definition is_planned :: "invocation_id \<Rightarrow> effect_row \<Rightarrow> bool" where
  "is_planned k r \<longleftrightarrow> er_execution_key r = key_str k \<and> er_status r = ''planned''"

definition apply_approval :: "invocation_id \<times> string \<Rightarrow> (effect_ledger_error, unit) db_action" where
  "apply_approval u =
     (case u of (k, json) \<Rightarrow>
       act_bind (update_effects LedgerStorage (is_planned k) (\<lambda>r. r\<lparr>er_approval_json := Some json\<rparr>)) (\<lambda>updated.
         if updated \<noteq> 1 then act_lift (Err (LedgerAlreadyTerminal (key_str k))) else act_return ()))"

definition record_approvals :: "serde \<Rightarrow> planned_tool_call list \<Rightarrow> (effect_ledger_error, unit) db_action" where
  "record_approvals sx resolved_plans =
     (if resolved_plans = []
      then act_lift (Err (LedgerInvalid ''cannot resolve approvals for an empty plan batch''))
      else transaction
        (act_bind (approval_updates sx {} resolved_plans) (act_each apply_approval)))"

section \<open>Recording terminals\<close>

definition ensure_matching_plan :: "serde \<Rightarrow> tool_terminal \<Rightarrow> (effect_ledger_error, unit) db_action" where
  "ensure_matching_plan sx terminal =
     (let key = key_str (tt_invocation_id terminal) in
      act_bind (find_effect (tt_invocation_id terminal)) (\<lambda>found.
      act_bind (act_lift (ok_or (LedgerMissingPlan key) found)) (\<lambda>row.
      if er_status row \<noteq> ''planned'' then act_lift (Err (LedgerAlreadyTerminal key))
      else
        act_bind (act_lift (invalid (cd_dec (sx_effect sx) (er_effect_json row)))) (\<lambda>effect.
        if er_call_id row \<noteq> tool_call_id_str (tt_call_id terminal) \<or> er_name row \<noteq> tt_name terminal
           \<or> effect \<noteq> tt_effect terminal
        then act_lift (Err (LedgerPlanMismatch key))
        else act_return ()))))"

definition apply_terminal ::
  "(tool_terminal \<Rightarrow> i64) \<Rightarrow> tool_terminal \<Rightarrow> (effect_ledger_error, unit) db_action" where
  "apply_terminal now terminal =
     act_bind (update_effects LedgerStorage (is_planned (tt_invocation_id terminal))
        (\<lambda>r. r\<lparr>er_status := status_name (tt_status terminal), er_content := Some (tt_content terminal),
               er_receipt := tt_receipt terminal, er_completed_at := Some (now terminal)\<rparr>)) (\<lambda>updated.
       if updated \<noteq> 1 then act_lift (Err (LedgerAlreadyTerminal (key_str (tt_invocation_id terminal))))
       else act_return ())"

definition record_terminals ::
  "serde \<Rightarrow> (tool_terminal \<Rightarrow> i64) \<Rightarrow> tool_terminal list \<Rightarrow> (effect_ledger_error, unit) db_action" where
  "record_terminals sx now terminals =
     (if terminals = [] then act_lift (Err (LedgerInvalid ''cannot record an empty terminal batch''))
      else act_bind (act_lift (no_duplicates ''terminal'' tt_invocation_id terminals)) (\<lambda>_.
        transaction
          (act_bind (act_each (ensure_matching_plan sx) terminals) (\<lambda>_.
           act_each (apply_terminal now) terminals))))"

section \<open>Pending effects\<close>

definition pending_of_row :: "serde \<Rightarrow> effect_row \<Rightarrow> effect_ledger_error + pending_effect" where
  "pending_of_row sx row =
     and_then (map_err (LedgerInvalid \<circ> id_error_text) (tool_call_id_new (er_call_id row))) (\<lambda>call_id.
     and_then (invalid (cd_dec (sx_arguments sx) (er_arguments_json row))) (\<lambda>arguments.
     and_then (map_err (LedgerInvalid \<circ> id_error_text) (invocation_id_new (er_execution_key row))) (\<lambda>invocation.
     and_then (invalid (cd_dec (sx_effect sx) (er_effect_json row))) (\<lambda>effect.
     and_then (invalid (transpose_opt (map_option (cd_dec (sx_approval sx)) (er_approval_json row)))) (\<lambda>approval.
       Ok \<lparr>pe_execution_scope = er_execution_scope row,
           pe_plan = \<lparr>pl_call_id = call_id, pl_name = er_name row, pl_arguments = arguments,
                      pl_invocation_id = invocation, pl_effect = effect, pl_approval = approval\<rparr>\<rparr>)))))"

definition pending_effects :: "serde \<Rightarrow> (effect_ledger_error, pending_effect list) db_action" where
  "pending_effects sx =
     act_try (\<lambda>d. collect_results (pending_of_row sx)
       (sort_key (\<lambda>r. (er_planned_at r, er_execution_key r))
         (filter (\<lambda>r. er_status r = ''planned'') (db_effects d))))"

text \<open>The ledger as the kernel sees it.\<close>

definition sqlite_effect_ledger ::
  "serde \<Rightarrow> (planned_tool_call \<Rightarrow> i64) \<Rightarrow> (tool_terminal \<Rightarrow> i64) \<Rightarrow> database effect_ledger" where
  "sqlite_effect_ledger sx planned_at completed_at =
     \<lparr>el_record_plans = record_plans sx planned_at, el_record_approvals = record_approvals sx,
      el_record_terminals = record_terminals sx completed_at, el_pending = pending_effects sx\<rparr>"

section \<open>The abstract ledger\<close>

text \<open>
  An entry is a plan with the scope it was recorded under and, once it has one, its terminal
  disposition. Seen from the kernel the table is a map from execution keys to entries.
\<close>

record ledger_entry =
  le_scope :: string
  le_plan :: planned_tool_call
  le_outcome :: "(string \<times> string \<times> string option) option"

definition entry_of_row :: "serde \<Rightarrow> effect_row \<Rightarrow> ledger_entry option" where
  "entry_of_row sx row =
     (case pending_of_row sx row of
        Inl _ \<Rightarrow> None
      | Inr p \<Rightarrow> Some \<lparr>le_scope = pe_execution_scope p, le_plan = pe_plan p,
                     le_outcome = (if er_status row = ''planned'' then None
                       else Some (er_status row, the (er_content row), er_receipt row))\<rparr>)"

definition effect_at :: "database \<Rightarrow> string \<Rightarrow> effect_row option" where
  "effect_at d k = map_of (map (\<lambda>r. (er_execution_key r, r)) (db_effects d)) k"

definition ledger_of :: "serde \<Rightarrow> database \<Rightarrow> invocation_id \<Rightarrow> ledger_entry option" where
  "ledger_of sx d k = (case effect_at d (key_str k) of None \<Rightarrow> None | Some r \<Rightarrow> entry_of_row sx r)"

definition ledger_inv :: "serde \<Rightarrow> database \<Rightarrow> bool" where
  "ledger_inv sx d \<longleftrightarrow> distinct (map er_execution_key (db_effects d))
     \<and> (\<forall>r \<in> set (db_effects d). effect_check r \<and> is_ok (pending_of_row sx r))"

text \<open>A plan that the program can have built and that the codecs can store.\<close>

definition storable_plan :: "serde \<Rightarrow> planned_tool_call \<Rightarrow> bool" where
  "storable_plan sx p \<longleftrightarrow>
     unpadded (tool_call_id_str (pl_call_id p)) \<and> unpadded (invocation_id_str (pl_invocation_id p))
     \<and> encodes (sx_arguments sx) (pl_arguments p) \<and> encodes (sx_effect sx) (pl_effect p)
     \<and> (case pl_approval p of None \<Rightarrow> True | Some a \<Rightarrow> encodes (sx_approval sx) a)"

lemma key_str_inj [simp]: "key_str a = key_str b \<longleftrightarrow> a = b"
  by (auto simp: key_str_def invocation_id.expand)

lemma find_map_of: "find (\<lambda>r. key r = k) rows = map_of (map (\<lambda>r. (key r, r)) rows) k"
  by (induction rows) auto

lemma find_effect_eq: "find_effect k d = (Inr (effect_at d (key_str k)), d)"
  by (simp add: find_effect_def select_row_def act_read_def effect_at_def find_map_of)

lemma effect_at_None: "effect_at d k = None \<longleftrightarrow> k \<notin> er_execution_key ` set (db_effects d)"
  by (simp add: effect_at_def map_of_eq_None_iff image_image)

lemma effect_at_SomeD: "effect_at d k = Some r \<Longrightarrow> r \<in> set (db_effects d) \<and> er_execution_key r = k"
  by (auto simp: effect_at_def dest: map_of_SomeD)

lemma ledger_of_None:
  assumes "ledger_inv sx d"
  shows "ledger_of sx d k = None \<longleftrightarrow> effect_at d (key_str k) = None"
  using assms
  by (fastforce simp: ledger_of_def entry_of_row_def ledger_inv_def is_ok_iff split: option.splits sum.splits
      dest!: effect_at_SomeD)

text \<open>A recorded plan is read back as it was.\<close>

lemma planned_row_reads_back:
  assumes "storable_plan sx p"
  obtains row where "planned_row sx now scope p = Inr row"
    "pending_of_row sx row = Inr \<lparr>pe_execution_scope = scope, pe_plan = p\<rparr>" "effect_check row"
    "er_execution_key row = key_str (pl_invocation_id p)" "er_status row = ''planned''" "er_planned_at row = now p"
proof -
  obtain a where a: "cd_enc (sx_arguments sx) (pl_arguments p) = Inr a" "cd_dec (sx_arguments sx) a = Inr (pl_arguments p)"
    using assms by (auto simp: storable_plan_def elim: encodesE)
  obtain e where e: "cd_enc (sx_effect sx) (pl_effect p) = Inr e" "cd_dec (sx_effect sx) e = Inr (pl_effect p)"
    using assms by (auto simp: storable_plan_def elim: encodesE)
  obtain ap where ap: "transpose_opt (map_option (cd_enc (sx_approval sx)) (pl_approval p)) = Inr ap"
    "transpose_opt (map_option (cd_dec (sx_approval sx)) ap) = Inr (pl_approval p)"
    using assms by (cases "pl_approval p") (auto simp: storable_plan_def elim!: encodesE)
  have ids: "tool_call_id_new (tool_call_id_str (pl_call_id p)) = Inr (pl_call_id p)"
    "invocation_id_new (key_str (pl_invocation_id p)) = Inr (pl_invocation_id p)"
    using assms by (simp_all add: storable_plan_def id_new_ok key_str_def)
  show ?thesis
    by (rule that) (auto simp: planned_row_def pending_of_row_def a e ap ids invalid_def effect_check_def)
qed

text \<open>The effect of a batch of inserts.\<close>

lemma each_unrecorded:
  "act_each ensure_unrecorded plans d =
     (case find (\<lambda>p. effect_at d (key_str (pl_invocation_id p)) \<noteq> None) plans of
        None \<Rightarrow> (Inr (), d)
      | Some p \<Rightarrow> (Inl (LedgerAlreadyRecorded (key_str (pl_invocation_id p))), d))"
  by (induction plans)
     (auto simp: ensure_unrecorded_def find_effect_eq act_bind_def act_return_def act_lift_def)

lemma insert_effect_new:
  "effect_check row \<Longrightarrow> er_execution_key row \<notin> er_execution_key ` set (db_effects d) \<Longrightarrow>
     insert_effect err row d = (Inr (), d\<lparr>db_effects := db_effects d @ [row]\<rparr>)"
  by (simp add: insert_effect_def run_insert_def sql_insert_def)

definition row_of_plan :: "serde \<Rightarrow> (planned_tool_call \<Rightarrow> i64) \<Rightarrow> string \<Rightarrow> planned_tool_call \<Rightarrow> effect_row" where
  "row_of_plan sx now scope p = projr (planned_row sx now scope p)"

lemma row_of_plan:
  assumes "storable_plan sx p"
  shows "planned_row sx now scope p = Inr (row_of_plan sx now scope p)"
    "pending_of_row sx (row_of_plan sx now scope p) = Inr \<lparr>pe_execution_scope = scope, pe_plan = p\<rparr>"
    "effect_check (row_of_plan sx now scope p)"
    "er_execution_key (row_of_plan sx now scope p) = key_str (pl_invocation_id p)"
    "er_status (row_of_plan sx now scope p) = ''planned''"
    "er_planned_at (row_of_plan sx now scope p) = now p"
  using planned_row_reads_back [OF assms, of now scope] by (metis row_of_plan_def sum.sel(2))+

lemma each_insert:
  assumes "\<forall>p \<in> set plans. storable_plan sx p" "distinct (map pl_invocation_id plans)"
    "\<forall>p \<in> set plans. effect_at d (key_str (pl_invocation_id p)) = None"
  shows "act_each (insert_plan sx now scope) plans d
     = (Inr (), d\<lparr>db_effects := db_effects d @ map (row_of_plan sx now scope) plans\<rparr>)"
  using assms
proof (induction plans arbitrary: d)
  case Nil
  then show ?case by (simp add: act_return_def)
next
  case (Cons p plans)
  let ?d = "d\<lparr>db_effects := db_effects d @ [row_of_plan sx now scope p]\<rparr>"
  have p: "storable_plan sx p" using Cons.prems by simp
  have "insert_plan sx now scope p d = (Inr (), ?d)"
    using Cons.prems
    by (simp add: insert_plan_def row_of_plan [OF p] act_bind_def act_lift_def insert_effect_new effect_at_None)
  moreover have "act_each (insert_plan sx now scope) plans ?d
     = (Inr (), ?d\<lparr>db_effects := db_effects ?d @ map (row_of_plan sx now scope) plans\<rparr>)"
    by (rule Cons.IH) (use Cons.prems in \<open>auto simp: effect_at_None row_of_plan [OF p] image_iff\<close>)
  ultimately show ?case by (simp add: act_bind_def)
qed

definition plans_recordable :: "database \<Rightarrow> string \<Rightarrow> planned_tool_call list \<Rightarrow> bool" where
  "plans_recordable d scope plans \<longleftrightarrow>
     scope \<noteq> [] \<and> plans \<noteq> [] \<and> distinct (map pl_invocation_id plans)
       \<and> (\<forall>p \<in> set plans. effect_at d (key_str (pl_invocation_id p)) = None)"

lemma record_plans_eq:
  assumes "\<forall>p \<in> set plans. storable_plan sx p"
  shows "plans_recordable d scope plans \<Longrightarrow> record_plans sx now scope plans d
      = (Inr (), d\<lparr>db_effects := db_effects d @ map (row_of_plan sx now scope) plans\<rparr>)"
    "\<not> plans_recordable d scope plans \<Longrightarrow> \<exists>e. record_plans sx now scope plans d = (Inl e, d)"
proof -
  have dup: "no_duplicates b key xs = Inr () \<longleftrightarrow> distinct (map key xs)" for b and key :: "planned_tool_call \<Rightarrow> _" and xs
    using duplicate_key_None [of key "{}" xs] by (auto simp: no_duplicates_def split: option.splits)
  show "record_plans sx now scope plans d
      = (Inr (), d\<lparr>db_effects := db_effects d @ map (row_of_plan sx now scope) plans\<rparr>)"
    if "plans_recordable d scope plans"
  proof -
    have "find (\<lambda>p. effect_at d (key_str (pl_invocation_id p)) \<noteq> None) plans = None"
      using that by (auto simp: plans_recordable_def find_None_iff)
    then show ?thesis
      using that each_insert [OF assms, of d now scope] dup [of "''plan''" pl_invocation_id plans]
      by (simp add: record_plans_def plans_recordable_def act_bind_def act_lift_def transaction_def each_unrecorded)
  qed
  show "\<exists>e. record_plans sx now scope plans d = (Inl e, d)" if "\<not> plans_recordable d scope plans"
  proof (cases "scope = [] \<or> plans = [] \<or> \<not> distinct (map pl_invocation_id plans)")
    case True
    then show ?thesis
      using dup [of "''plan''" pl_invocation_id plans]
      by (cases "no_duplicates ''plan'' pl_invocation_id plans")
         (auto simp: record_plans_def act_bind_def act_lift_def)
  next
    case False
    with that have "find (\<lambda>p. effect_at d (key_str (pl_invocation_id p)) \<noteq> None) plans \<noteq> None"
      by (auto simp: plans_recordable_def find_None_iff)
    with False show ?thesis
      using dup [of "''plan''" pl_invocation_id plans]
      by (auto simp: record_plans_def act_bind_def act_lift_def transaction_def each_unrecorded)
  qed
qed

lemma ledger_inv_append:
  assumes "ledger_inv sx d" "\<forall>p \<in> set plans. storable_plan sx p" "plans_recordable d scope plans"
  shows "ledger_inv sx (d\<lparr>db_effects := db_effects d @ map (row_of_plan sx now scope) plans\<rparr>)"
proof -
  have keys: "map er_execution_key (map (row_of_plan sx now scope) plans) = map (key_str \<circ> pl_invocation_id) plans"
    using assms(2) by (simp add: row_of_plan)
  moreover have "distinct (map (key_str \<circ> pl_invocation_id) plans)"
    using assms(3) by (auto simp: plans_recordable_def distinct_map inj_on_def)
  ultimately show ?thesis
    using assms
    by (auto simp: ledger_inv_def plans_recordable_def effect_at_None row_of_plan image_iff simp del: map_map)
       metis
qed

lemma ledger_of_append:
  assumes "ledger_inv sx d" "\<forall>p \<in> set plans. storable_plan sx p" "plans_recordable d scope plans"
  shows "ledger_of sx (d\<lparr>db_effects := db_effects d @ map (row_of_plan sx now scope) plans\<rparr>) k =
     (case find (\<lambda>p. pl_invocation_id p = k) plans of
        Some p \<Rightarrow> Some \<lparr>le_scope = scope, le_plan = p, le_outcome = None\<rparr>
      | None \<Rightarrow> ledger_of sx d k)"
proof -
  have find: "map_of (map (\<lambda>p. (er_execution_key (row_of_plan sx now scope p), row_of_plan sx now scope p)) ps) (key_str k)
      = map_option (row_of_plan sx now scope) (find (\<lambda>p. pl_invocation_id p = k) ps)"
    if "\<forall>p \<in> set ps. storable_plan sx p" for ps
    using that by (induction ps) (auto simp: row_of_plan)
  have at: "effect_at (d\<lparr>db_effects := db_effects d @ map (row_of_plan sx now scope) plans\<rparr>) (key_str k) =
     (case effect_at d (key_str k) of
        Some r \<Rightarrow> Some r | None \<Rightarrow> map_option (row_of_plan sx now scope) (find (\<lambda>p. pl_invocation_id p = k) plans))"
    using find [OF assms(2)] by (simp add: effect_at_def map_add_def comp_def split: option.split)
  show ?thesis
  proof (cases "find (\<lambda>p. pl_invocation_id p = k) plans")
    case None
    then show ?thesis by (simp add: ledger_of_def at split: option.splits)
  next
    case (Some p)
    then have p: "p \<in> set plans" "pl_invocation_id p = k" by (auto simp: find_Some_iff)
    then have "effect_at d (key_str k) = None" using assms(3) by (auto simp: plans_recordable_def)
    moreover have "storable_plan sx p" using assms(2) p by simp
    ultimately show ?thesis
      using Some by (simp add: ledger_of_def at entry_of_row_def row_of_plan)
  qed
qed

section \<open>Updates of one row\<close>

lemma effect_at_map:
  assumes "\<And>r. er_execution_key (g r) = er_execution_key r"
  shows "effect_at (d\<lparr>db_effects := map g (db_effects d)\<rparr>) k = map_option g (effect_at d k)"
proof -
  have "map_of (map (\<lambda>r. (er_execution_key (g r), g r)) rows) k = map_option g (map_of (map (\<lambda>r. (er_execution_key r, r)) rows) k)" for rows
    by (induction rows) (auto simp: assms)
  then show ?thesis by (simp add: effect_at_def comp_def)
qed

lemma count_key:
  "distinct (map key rows) \<Longrightarrow> r \<in> set rows \<Longrightarrow> length (filter (\<lambda>x. key x = key r \<and> P x) rows) = (if P r then 1 else 0)"
proof (induction rows)
  case Nil
  then show ?case by simp
next
  case (Cons x rows)
  show ?case
  proof (cases "r = x")
    case True
    then have "\<forall>y \<in> set rows. key y \<noteq> key r" using Cons.prems by (auto simp: image_iff)
    then have "filter (\<lambda>x. key x = key r \<and> P x) rows = []" by (simp add: filter_empty_conv)
    then show ?thesis using True by simp
  next
    case False
    then show ?thesis using Cons by (auto simp: image_iff)
  qed
qed

text \<open>
  One update of the row that holds the plan \<open>k\<close>, where the change keeps the row readable.
\<close>

lemma update_planned:
  assumes inv: "ledger_inv sx d" and row: "effect_at d (key_str k) = Some r" and planned: "er_status r = ''planned''"
    and key: "\<And>x. er_execution_key (f x) = er_execution_key x"
    and check: "effect_check (f r)" and ok: "is_ok (pending_of_row sx (f r))"
  obtains d' where "update_effects err (is_planned k) f d = (Inr 1, d')" "ledger_inv sx d'"
    "\<And>k'. effect_at d' k' = (if k' = key_str k then Some (f r) else effect_at d k')"
    "d' = d\<lparr>db_effects := db_effects d'\<rparr>"
proof -
  let ?g = "\<lambda>x. if is_planned k x then f x else x"
  let ?d = "d\<lparr>db_effects := map ?g (db_effects d)\<rparr>"
  have dist: "distinct (map er_execution_key (db_effects d))" using inv by (simp add: ledger_inv_def)
  have r: "r \<in> set (db_effects d)" "er_execution_key r = key_str k" using effect_at_SomeD [OF row] by auto
  have only: "x = r" if "x \<in> set (db_effects d)" "is_planned k x" for x
    using that r dist by (auto simp: is_planned_def distinct_map inj_on_def)
  have "length (filter (is_planned k) (db_effects d)) = 1"
    using count_key [OF dist r(1), of "\<lambda>x. er_status x = ''planned''"] planned r(2)
    by (simp add: is_planned_def [abs_def])
  then have 1: "update_effects err (is_planned k) f d = (Inr 1, ?d)"
    using check only by (auto simp: update_effects_def run_update_def sql_update_def list_all_iff)
  have 2: "map er_execution_key (map ?g (db_effects d)) = map er_execution_key (db_effects d)"
    by (simp add: key)
  have 3: "ledger_inv sx ?d"
    unfolding ledger_inv_def
  proof
    show "distinct (map er_execution_key (db_effects ?d))" using 2 dist by (simp del: map_map)
    show "\<forall>x \<in> set (db_effects ?d). effect_check x \<and> is_ok (pending_of_row sx x)"
      using inv check ok only by (auto simp: ledger_inv_def)
  qed
  have at: "effect_at ?d k' = map_option ?g (effect_at d k')" for k'
    by (rule effect_at_map) (simp add: key)
  have 4: "effect_at ?d k' = (if k' = key_str k then Some (f r) else effect_at d k')" for k'
  proof (cases "effect_at d k'")
    case None
    then show ?thesis using row by (auto simp: at)
  next
    case (Some x)
    then have "k' = key_str k \<Longrightarrow> x = r \<and> is_planned k r" "k' \<noteq> key_str k \<Longrightarrow> \<not> is_planned k x"
      using row planned r(2) effect_at_SomeD [OF Some] by (auto simp: is_planned_def)
    then show ?thesis using Some by (auto simp: at)
  qed
  show ?thesis by (rule that [OF 1 3 4]) simp
qed

lemma effect_at_ok: "ledger_inv sx d \<Longrightarrow> effect_at d k = Some r \<Longrightarrow> \<exists>p. pending_of_row sx r = Inr p"
  by (auto simp: ledger_inv_def is_ok_iff dest!: effect_at_SomeD)

lemma ledger_of_row:
  "ledger_inv sx d \<Longrightarrow> effect_at d (key_str k) = Some r \<Longrightarrow> pending_of_row sx r = Inr p \<Longrightarrow>
     ledger_of sx d k = Some \<lparr>le_scope = pe_execution_scope p, le_plan = pe_plan p,
       le_outcome = (if er_status r = ''planned'' then None
                     else Some (er_status r, the (er_content r), er_receipt r))\<rparr>"
  by (simp add: ledger_of_def entry_of_row_def)

text \<open>The columns of a row in terms of the entry it holds.\<close>

lemma ledger_of_SomeD:
  assumes "ledger_inv sx d" "ledger_of sx d k = Some e"
  obtains r where "effect_at d (key_str k) = Some r"
    "pending_of_row sx r = Inr \<lparr>pe_execution_scope = le_scope e, pe_plan = le_plan e\<rparr>"
    "le_outcome e = None \<longleftrightarrow> er_status r = ''planned''"
    "pl_invocation_id (le_plan e) = k"
    "er_call_id r = tool_call_id_str (pl_call_id (le_plan e))" "er_name r = pl_name (le_plan e)"
    "cd_dec (sx_effect sx) (er_effect_json r) = Inr (pl_effect (le_plan e))"
    "cd_dec (sx_arguments sx) (er_arguments_json r) = Inr (pl_arguments (le_plan e))"
    "transpose_opt (map_option (cd_dec (sx_approval sx)) (er_approval_json r)) = Inr (pl_approval (le_plan e))"
proof -
  obtain r where r: "effect_at d (key_str k) = Some r"
    using assms(2) by (auto simp: ledger_of_def split: option.splits)
  moreover obtain p where p: "pending_of_row sx r = Inr p" using effect_at_ok [OF assms(1) r] by auto
  moreover have "er_execution_key r = key_str k" using effect_at_SomeD [OF r] by simp
  ultimately show ?thesis
    using assms(2) ledger_of_row [OF assms(1) r p]
    by (intro that [of r])
       (auto simp: pending_of_row_def and_then_eq_Inr invalid_def key_str_def split: if_splits)
qed

section \<open>Terminals\<close>

definition terminal_recordable :: "serde \<Rightarrow> database \<Rightarrow> tool_terminal \<Rightarrow> bool" where
  "terminal_recordable sx d t \<longleftrightarrow>
     (case ledger_of sx d (tt_invocation_id t) of
        None \<Rightarrow> False
      | Some e \<Rightarrow> le_outcome e = None \<and> pl_call_id (le_plan e) = tt_call_id t
                  \<and> pl_name (le_plan e) = tt_name t \<and> pl_effect (le_plan e) = tt_effect t)"

lemma ensure_matching_plan_eq:
  assumes "ledger_inv sx d"
  shows "\<exists>e. ensure_matching_plan sx t d = (if terminal_recordable sx d t then (Inr (), d) else (Inl e, d))"
proof (cases "ledger_of sx d (tt_invocation_id t)")
  case None
  then have "effect_at d (key_str (tt_invocation_id t)) = None" using ledger_of_None [OF assms] by simp
  then show ?thesis
    by (simp add: ensure_matching_plan_def Let_def find_effect_eq act_eval terminal_recordable_def None)
next
  case (Some e)
  obtain r where "effect_at d (key_str (tt_invocation_id t)) = Some r"
    "le_outcome e = None \<longleftrightarrow> er_status r = ''planned''"
    "er_call_id r = tool_call_id_str (pl_call_id (le_plan e))" "er_name r = pl_name (le_plan e)"
    "cd_dec (sx_effect sx) (er_effect_json r) = Inr (pl_effect (le_plan e))"
    by (rule ledger_of_SomeD [OF assms Some], rule that)
  then show ?thesis
    by (auto simp: ensure_matching_plan_def Let_def find_effect_eq act_eval terminal_recordable_def Some
        invalid_def tool_call_id.expand)
qed

lemma each_matching:
  assumes "ledger_inv sx d"
  shows "\<exists>e. act_each (ensure_matching_plan sx) ts d
     = (if \<forall>t \<in> set ts. terminal_recordable sx d t then (Inr (), d) else (Inl e, d))"
proof (induction ts)
  case Nil
  then show ?case by (simp add: act_return_def)
next
  case (Cons t ts)
  then show ?case using ensure_matching_plan_eq [OF assms, of t] by (auto simp: act_bind_def)
qed

definition outcome_of :: "tool_terminal \<Rightarrow> string \<times> string \<times> string option" where
  "outcome_of t = (status_name (tt_status t), tt_content t, tt_receipt t)"

lemma status_name_not_planned [simp]: "status_name s \<noteq> ''planned''"
  by (cases s) simp_all

lemma apply_terminal_ok:
  assumes inv: "ledger_inv sx d" and rec: "terminal_recordable sx d t"
  obtains d' where "apply_terminal now t d = (Inr (), d')" "ledger_inv sx d'" "d' = d\<lparr>db_effects := db_effects d'\<rparr>"
    "\<And>k. ledger_of sx d' k = (if k = tt_invocation_id t
        then map_option (\<lambda>e. e\<lparr>le_outcome := Some (outcome_of t)\<rparr>) (ledger_of sx d k) else ledger_of sx d k)"
proof -
  let ?f = "\<lambda>r. r\<lparr>er_status := status_name (tt_status t), er_content := Some (tt_content t),
               er_receipt := tt_receipt t, er_completed_at := Some (now t)\<rparr>"
  obtain e where e: "ledger_of sx d (tt_invocation_id t) = Some e" "le_outcome e = None"
    using rec by (auto simp: terminal_recordable_def split: option.splits)
  obtain r where r: "effect_at d (key_str (tt_invocation_id t)) = Some r"
    "pending_of_row sx r = Inr \<lparr>pe_execution_scope = le_scope e, pe_plan = le_plan e\<rparr>" "er_status r = ''planned''"
    by (rule ledger_of_SomeD [OF inv e(1)]) (use e(2) that in blast)
  have same: "pending_of_row sx (?f r) = pending_of_row sx r" by (simp add: pending_of_row_def)
  obtain d' where d': "update_effects LedgerStorage (is_planned (tt_invocation_id t)) ?f d = (Inr 1, d')"
    "ledger_inv sx d'" "\<And>k'. effect_at d' k' = (if k' = key_str (tt_invocation_id t) then Some (?f r) else effect_at d k')"
    "d' = d\<lparr>db_effects := db_effects d'\<rparr>"
    using update_planned [OF inv r(1,3), of ?f LedgerStorage] r(2) same by (auto simp: effect_check_def)
  show ?thesis
  proof (rule that [OF _ d'(2) d'(4)])
    show "apply_terminal now t d = (Inr (), d')" by (simp add: apply_terminal_def act_bind_def d'(1) act_return_def)
    show "ledger_of sx d' k = (if k = tt_invocation_id t
        then map_option (\<lambda>e. e\<lparr>le_outcome := Some (outcome_of t)\<rparr>) (ledger_of sx d k) else ledger_of sx d k)" for k
      using e r same by (auto simp: ledger_of_def d'(3) entry_of_row_def outcome_of_def)
  qed
qed

lemma each_terminal_ok:
  assumes "ledger_inv sx d" "distinct (map tt_invocation_id ts)" "\<forall>t \<in> set ts. terminal_recordable sx d t"
  shows "\<exists>d'. act_each (apply_terminal now) ts d = (Inr (), d') \<and> ledger_inv sx d'
     \<and> d' = d\<lparr>db_effects := db_effects d'\<rparr>
     \<and> (\<forall>k. ledger_of sx d' k = (case find (\<lambda>t. tt_invocation_id t = k) ts of
          None \<Rightarrow> ledger_of sx d k
        | Some t \<Rightarrow> map_option (\<lambda>e. e\<lparr>le_outcome := Some (outcome_of t)\<rparr>) (ledger_of sx d k)))"
  using assms
proof (induction ts arbitrary: d)
  case Nil
  then show ?case by (simp add: act_return_def)
next
  case (Cons t ts)
  obtain d1 where d1: "apply_terminal now t d = (Inr (), d1)" "ledger_inv sx d1" "d1 = d\<lparr>db_effects := db_effects d1\<rparr>"
    "\<And>k. ledger_of sx d1 k = (if k = tt_invocation_id t
        then map_option (\<lambda>e. e\<lparr>le_outcome := Some (outcome_of t)\<rparr>) (ledger_of sx d k) else ledger_of sx d k)"
    using apply_terminal_ok [OF Cons.prems(1)] Cons.prems(3) by (metis list.set_intros(1))
  have "\<forall>u \<in> set ts. terminal_recordable sx d1 u"
    using Cons.prems by (auto simp: terminal_recordable_def d1(4) image_iff)
  with Cons.IH [OF d1(2)] Cons.prems(2) obtain d2 where
    d2: "act_each (apply_terminal now) ts d1 = (Inr (), d2)" "ledger_inv sx d2" "d2 = d1\<lparr>db_effects := db_effects d2\<rparr>"
    "\<And>k. ledger_of sx d2 k = (case find (\<lambda>t. tt_invocation_id t = k) ts of
          None \<Rightarrow> ledger_of sx d1 k
        | Some t \<Rightarrow> map_option (\<lambda>e. e\<lparr>le_outcome := Some (outcome_of t)\<rparr>) (ledger_of sx d1 k))"
    by auto
  have none: "find (\<lambda>u. tt_invocation_id u = tt_invocation_id t) ts = None"
    using Cons.prems(2) by (auto simp: find_None_iff image_iff)
  have "d2 = d\<lparr>db_effects := db_effects d2\<rparr>" using d1(3) d2(3) by (metis database.surjective database.update_convs(3))
  then show ?case
    using d1(1) d2 none by (auto simp: act_bind_def d1(4) split: option.split)
qed

definition terminals_recordable :: "serde \<Rightarrow> database \<Rightarrow> tool_terminal list \<Rightarrow> bool" where
  "terminals_recordable sx d ts \<longleftrightarrow>
     ts \<noteq> [] \<and> distinct (map tt_invocation_id ts) \<and> (\<forall>t \<in> set ts. terminal_recordable sx d t)"

lemma record_terminals_ok:
  assumes "ledger_inv sx d" "terminals_recordable sx d ts"
  shows "\<exists>d'. record_terminals sx now ts d = (Inr (), d') \<and> ledger_inv sx d'
     \<and> d' = d\<lparr>db_effects := db_effects d'\<rparr>
     \<and> (\<forall>k. ledger_of sx d' k = (case find (\<lambda>t. tt_invocation_id t = k) ts of
          None \<Rightarrow> ledger_of sx d k
        | Some t \<Rightarrow> map_option (\<lambda>e. e\<lparr>le_outcome := Some (outcome_of t)\<rparr>) (ledger_of sx d k)))"
proof -
  have "no_duplicates ''terminal'' tt_invocation_id ts = Inr ()"
    using assms(2) duplicate_key_None [of tt_invocation_id "{}" ts]
    by (auto simp: no_duplicates_def terminals_recordable_def split: option.splits)
  moreover have "act_each (ensure_matching_plan sx) ts d = (Inr (), d)"
    using each_matching [OF assms(1), of ts] assms(2) by (auto simp: terminals_recordable_def)
  ultimately show ?thesis
    using each_terminal_ok [OF assms(1), of ts now] assms(2)
    by (auto simp: record_terminals_def act_bind_def act_lift_def transaction_def terminals_recordable_def)
qed

lemma record_terminals_err:
  assumes "ledger_inv sx d" "\<not> terminals_recordable sx d ts"
  shows "\<exists>e. record_terminals sx now ts d = (Inl e, d)"
proof (cases "ts = [] \<or> \<not> distinct (map tt_invocation_id ts)")
  case True
  then show ?thesis
    using duplicate_key_None [of tt_invocation_id "{}" ts]
    by (auto simp: record_terminals_def no_duplicates_def act_bind_def act_lift_def split: option.split)
next
  case False
  then have "no_duplicates ''terminal'' tt_invocation_id ts = Inr ()"
    using duplicate_key_None [of tt_invocation_id "{}" ts] by (auto simp: no_duplicates_def split: option.splits)
  moreover have not_all: "\<not> (\<forall>t \<in> set ts. terminal_recordable sx d t)" using False assms(2) by (auto simp: terminals_recordable_def)
  obtain e where "act_each (ensure_matching_plan sx) ts d
     = (if \<forall>t \<in> set ts. terminal_recordable sx d t then (Inr (), d) else (Inl e, d))"
    using each_matching [OF assms(1)] by blast
  then have "act_each (ensure_matching_plan sx) ts d = (Inl e, d)" using not_all by (simp only: if_False)
  ultimately show ?thesis using False
    by (simp add: record_terminals_def act_bind_def act_lift_def transaction_def)
qed

section \<open>Approvals\<close>

definition approval_recordable :: "serde \<Rightarrow> database \<Rightarrow> planned_tool_call \<Rightarrow> bool" where
  "approval_recordable sx d p \<longleftrightarrow>
     (case ledger_of sx d (pl_invocation_id p) of
        None \<Rightarrow> False
      | Some e \<Rightarrow> le_outcome e = None \<and> resolution_of (le_plan e) p)"

text \<open>The plan decides an approval that was recorded as pending.\<close>

definition decides :: "serde \<Rightarrow> database \<Rightarrow> planned_tool_call \<Rightarrow> bool" where
  "decides sx d p \<longleftrightarrow>
     (case ledger_of sx d (pl_invocation_id p) of None \<Rightarrow> False | Some e \<Rightarrow> plan_pending (le_plan e))"

definition approval_text :: "serde \<Rightarrow> planned_tool_call \<Rightarrow> string" where
  "approval_text sx p = projr (cd_enc (sx_approval sx) (the (pl_approval p)))"

lemma resolution_of_iff:
  "resolution_of p r \<longleftrightarrow> pl_call_id p = pl_call_id r \<and> pl_name p = pl_name r \<and> pl_arguments p = pl_arguments r
     \<and> pl_invocation_id p = pl_invocation_id r \<and> pl_effect p = pl_effect r
     \<and> approval_resolves (pl_approval p) (pl_approval r)"
  unfolding resolution_of_def by (cases p; cases r) auto

lemma approval_update_eq:
  assumes inv: "ledger_inv sx d" and e: "ledger_of sx d (pl_invocation_id p) = Some e" and p: "storable_plan sx p"
  obtains r where "effect_at d (key_str (pl_invocation_id p)) = Some r"
    "approval_recordable sx d p \<Longrightarrow> approval_update sx p r
       = Inr (if decides sx d p then Some (pl_invocation_id p, approval_text sx p) else None)"
    "\<not> approval_recordable sx d p \<Longrightarrow> \<exists>err. approval_update sx p r = Inl err"
proof -
  obtain r where r: "effect_at d (key_str (pl_invocation_id p)) = Some r"
    "le_outcome e = None \<longleftrightarrow> er_status r = ''planned''" "pl_invocation_id (le_plan e) = pl_invocation_id p"
    "er_call_id r = tool_call_id_str (pl_call_id (le_plan e))" "er_name r = pl_name (le_plan e)"
    "cd_dec (sx_effect sx) (er_effect_json r) = Inr (pl_effect (le_plan e))"
    "cd_dec (sx_arguments sx) (er_arguments_json r) = Inr (pl_arguments (le_plan e))"
    "transpose_opt (map_option (cd_dec (sx_approval sx)) (er_approval_json r)) = Inr (pl_approval (le_plan e))"
    by (rule ledger_of_SomeD [OF inv e], rule that)
  have enc: "cd_enc (sx_approval sx) a = Inr (approval_text sx p)" if "pl_approval p = Some a" for a
    using p that by (auto simp: storable_plan_def approval_text_def elim: encodesE)
  note defs = approval_update_def Let_def r invalid_def approval_recordable_def decides_def e resolution_of_iff
    plan_pending_def tool_call_id.expand
  have upd: "approval_update sx p r = Inr (if decides sx d p then Some (pl_invocation_id p, approval_text sx p) else None)"
    if "approval_recordable sx d p"
    using that enc pending_decision_cases
    by (cases "pl_approval (le_plan e)"; cases "pl_approval p") (auto simp: defs split: if_splits)
  have err: "\<exists>err. approval_update sx p r = Inl err" if "\<not> approval_recordable sx d p"
    using that pending_decision_cases
    by (cases "pl_approval (le_plan e)"; cases "pl_approval p") (auto simp: defs split: if_splits)
  show ?thesis by (rule that [OF r(1) upd err])
qed

definition approvals_recordable :: "serde \<Rightarrow> database \<Rightarrow> planned_tool_call list \<Rightarrow> bool" where
  "approvals_recordable sx d ps \<longleftrightarrow>
     ps \<noteq> [] \<and> distinct (map pl_invocation_id ps) \<and> (\<forall>p \<in> set ps. approval_recordable sx d p)"

lemma approval_updates_ok:
  assumes "ledger_inv sx d" "\<forall>p \<in> set ps. storable_plan sx p" "\<forall>p \<in> set ps. approval_recordable sx d p"
    "distinct (map pl_invocation_id ps)" "set (map pl_invocation_id ps) \<inter> seen = {}"
  shows "approval_updates sx seen ps d
     = (Inr (map (\<lambda>p. (pl_invocation_id p, approval_text sx p)) (filter (decides sx d) ps)), d)"
  using assms(2-)
proof (induction ps arbitrary: seen)
  case Nil
  then show ?case by (simp add: act_return_def)
next
  case (Cons p ps)
  obtain e where e: "ledger_of sx d (pl_invocation_id p) = Some e"
    using Cons.prems(2) by (auto simp: approval_recordable_def split: option.splits)
  obtain r where "effect_at d (key_str (pl_invocation_id p)) = Some r"
    "approval_update sx p r = Inr (if decides sx d p then Some (pl_invocation_id p, approval_text sx p) else None)"
    by (rule approval_update_eq [OF assms(1) e]) (use Cons.prems(1,2) in auto)
  moreover have "approval_updates sx (insert (pl_invocation_id p) seen) ps d
     = (Inr (map (\<lambda>p. (pl_invocation_id p, approval_text sx p)) (filter (decides sx d) ps)), d)"
    by (rule Cons.IH) (use Cons.prems in auto)
  ultimately show ?case using Cons.prems by (auto simp: find_effect_eq act_eval)
qed

lemma approval_updates_err:
  assumes "ledger_inv sx d" "\<forall>p \<in> set ps. storable_plan sx p"
    "\<not> ((\<forall>p \<in> set ps. approval_recordable sx d p) \<and> distinct (map pl_invocation_id ps)
        \<and> set (map pl_invocation_id ps) \<inter> seen = {})"
  shows "\<exists>e. approval_updates sx seen ps d = (Inl e, d)"
  using assms(2-)
proof (induction ps arbitrary: seen)
  case Nil
  then show ?case by simp
next
  case (Cons p ps)
  show ?case
  proof (cases "pl_invocation_id p \<in> seen \<or> ledger_of sx d (pl_invocation_id p) = None")
    case True
    then show ?thesis
      using ledger_of_None [OF assms(1), of "pl_invocation_id p"] by (auto simp: find_effect_eq act_eval)
  next
    case False
    then obtain e where e: "ledger_of sx d (pl_invocation_id p) = Some e" by auto
    obtain r where r: "effect_at d (key_str (pl_invocation_id p)) = Some r"
      "approval_recordable sx d p \<Longrightarrow> \<exists>u. approval_update sx p r = Inr u"
      "\<not> approval_recordable sx d p \<Longrightarrow> \<exists>err. approval_update sx p r = Inl err"
      by (rule approval_update_eq [OF assms(1) e]) (use Cons.prems(1) in auto)
    show ?thesis
    proof (cases "approval_recordable sx d p")
      case True
      have "\<exists>e. approval_updates sx (insert (pl_invocation_id p) seen) ps d = (Inl e, d)"
        by (rule Cons.IH) (use Cons.prems False True in auto)
      with False r True show ?thesis by (auto simp: find_effect_eq act_eval)
    next
      case False
      with r \<open>\<not> (pl_invocation_id p \<in> seen \<or> _)\<close> show ?thesis by (auto simp: find_effect_eq act_eval)
    qed
  qed
qed

lemma apply_approval_ok:
  assumes inv: "ledger_inv sx d" and p: "storable_plan sx p" and rec: "approval_recordable sx d p" and dec: "decides sx d p"
  obtains d' where "apply_approval (pl_invocation_id p, approval_text sx p) d = (Inr (), d')" "ledger_inv sx d'"
    "d' = d\<lparr>db_effects := db_effects d'\<rparr>"
    "\<And>k. ledger_of sx d' k = (if k = pl_invocation_id p
        then map_option (\<lambda>e. e\<lparr>le_plan := p\<rparr>) (ledger_of sx d k) else ledger_of sx d k)"
proof -
  let ?f = "\<lambda>r. r\<lparr>er_approval_json := Some (approval_text sx p)\<rparr>"
  obtain e where e: "ledger_of sx d (pl_invocation_id p) = Some e" "le_outcome e = None" "resolution_of (le_plan e) p"
    using rec by (auto simp: approval_recordable_def split: option.splits)
  obtain r where r: "effect_at d (key_str (pl_invocation_id p)) = Some r"
    "pending_of_row sx r = Inr \<lparr>pe_execution_scope = le_scope e, pe_plan = le_plan e\<rparr>" "er_status r = ''planned''"
    by (rule ledger_of_SomeD [OF inv e(1)]) (use e(2) that in blast)
  obtain a where a: "pl_approval p = Some a"
    using dec e by (auto simp: decides_def plan_pending_def resolution_of_iff split: option.splits if_splits)
  have dec_a: "cd_dec (sx_approval sx) (approval_text sx p) = Inr a"
    using p a by (auto simp: storable_plan_def approval_text_def elim: encodesE)
  have new: "pending_of_row sx (?f r) = Inr \<lparr>pe_execution_scope = le_scope e, pe_plan = p\<rparr>"
    using r(2) e(3) dec_a a
    by (cases p; cases "le_plan e") (auto simp: pending_of_row_def and_then_eq_Inr invalid_def resolution_of_iff)
  have check: "effect_check (?f r)"
    using inv effect_at_SomeD [OF r(1)] by (auto simp: ledger_inv_def effect_check_def)
  obtain d' where d': "update_effects LedgerStorage (is_planned (pl_invocation_id p)) ?f d = (Inr 1, d')"
    "ledger_inv sx d'" "\<And>k'. effect_at d' k' = (if k' = key_str (pl_invocation_id p) then Some (?f r) else effect_at d k')"
    "d' = d\<lparr>db_effects := db_effects d'\<rparr>"
    using update_planned [OF inv r(1,3), of ?f LedgerStorage] new check by auto
  show ?thesis
  proof (rule that [OF _ d'(2) d'(4)])
    show "apply_approval (pl_invocation_id p, approval_text sx p) d = (Inr (), d')"
      by (simp add: apply_approval_def act_bind_def d'(1) act_return_def)
    show "ledger_of sx d' k = (if k = pl_invocation_id p
        then map_option (\<lambda>e. e\<lparr>le_plan := p\<rparr>) (ledger_of sx d k) else ledger_of sx d k)" for k
      using e r new by (auto simp: ledger_of_def d'(3) entry_of_row_def)
  qed
qed

lemma each_approval_ok:
  assumes "ledger_inv sx d" "\<forall>p \<in> set ps. storable_plan sx p \<and> approval_recordable sx d p \<and> decides sx d p"
    "distinct (map pl_invocation_id ps)"
  shows "\<exists>d'. act_each apply_approval (map (\<lambda>p. (pl_invocation_id p, approval_text sx p)) ps) d = (Inr (), d')
     \<and> ledger_inv sx d' \<and> d' = d\<lparr>db_effects := db_effects d'\<rparr>
     \<and> (\<forall>k. ledger_of sx d' k = (case find (\<lambda>p. pl_invocation_id p = k) ps of
          None \<Rightarrow> ledger_of sx d k
        | Some p \<Rightarrow> map_option (\<lambda>e. e\<lparr>le_plan := p\<rparr>) (ledger_of sx d k)))"
  using assms
proof (induction ps arbitrary: d)
  case Nil
  then show ?case by (simp add: act_return_def)
next
  case (Cons p ps)
  have p: "storable_plan sx p" "approval_recordable sx d p" "decides sx d p" using Cons.prems(2) by auto
  obtain d1 where d1: "apply_approval (pl_invocation_id p, approval_text sx p) d = (Inr (), d1)" "ledger_inv sx d1"
    "d1 = d\<lparr>db_effects := db_effects d1\<rparr>"
    "\<And>k. ledger_of sx d1 k = (if k = pl_invocation_id p
        then map_option (\<lambda>e. e\<lparr>le_plan := p\<rparr>) (ledger_of sx d k) else ledger_of sx d k)"
    by (rule apply_approval_ok [OF Cons.prems(1) p], rule that)
  have "\<forall>q \<in> set ps. storable_plan sx q \<and> approval_recordable sx d1 q \<and> decides sx d1 q"
    using Cons.prems(2,3) by (auto simp: approval_recordable_def decides_def d1(4) image_iff)
  with Cons.IH [OF d1(2)] Cons.prems(3) obtain d2 where
    d2: "act_each apply_approval (map (\<lambda>p. (pl_invocation_id p, approval_text sx p)) ps) d1 = (Inr (), d2)"
    "ledger_inv sx d2" "d2 = d1\<lparr>db_effects := db_effects d2\<rparr>"
    "\<And>k. ledger_of sx d2 k = (case find (\<lambda>p. pl_invocation_id p = k) ps of
          None \<Rightarrow> ledger_of sx d1 k
        | Some p \<Rightarrow> map_option (\<lambda>e. e\<lparr>le_plan := p\<rparr>) (ledger_of sx d1 k))"
    by auto
  have none: "find (\<lambda>q. pl_invocation_id q = pl_invocation_id p) ps = None"
    using Cons.prems(3) by (auto simp: find_None_iff image_iff)
  have "d2 = d\<lparr>db_effects := db_effects d2\<rparr>" using d1(3) d2(3) by (metis database.surjective database.update_convs(3))
  then show ?case
    using d1(1) d2 none by (auto simp: act_bind_def d1(4) split: option.split)
qed

lemma find_filter_decides:
  "distinct (map pl_invocation_id ps) \<Longrightarrow> find (\<lambda>p. pl_invocation_id p = k) (filter P ps)
     = (case find (\<lambda>p. pl_invocation_id p = k) ps of None \<Rightarrow> None | Some p \<Rightarrow> if P p then Some p else None)"
proof (induction ps)
  case Nil
  then show ?case by simp
next
  case (Cons p ps)
  have "find (\<lambda>q. pl_invocation_id q = pl_invocation_id p) ps = None"
    using Cons.prems by (auto simp: find_None_iff image_iff)
  with Cons show ?case by (auto split: option.splits)
qed

text \<open>A plan whose recorded approval was not pending is recorded as it is already.\<close>

lemma undecided_same:
  "approval_recordable sx d p \<Longrightarrow> \<not> decides sx d p \<Longrightarrow> ledger_of sx d (pl_invocation_id p) = Some e \<Longrightarrow> le_plan e = p"
  by (cases p; cases "le_plan e")
     (auto simp: approval_recordable_def decides_def plan_pending_def resolution_of_iff split: option.splits if_splits)

lemma record_approvals_ok:
  assumes "ledger_inv sx d" "\<forall>p \<in> set ps. storable_plan sx p" "approvals_recordable sx d ps"
  shows "\<exists>d'. record_approvals sx ps d = (Inr (), d') \<and> ledger_inv sx d' \<and> d' = d\<lparr>db_effects := db_effects d'\<rparr>
     \<and> (\<forall>k. ledger_of sx d' k = (case find (\<lambda>p. pl_invocation_id p = k) ps of
          None \<Rightarrow> ledger_of sx d k
        | Some p \<Rightarrow> map_option (\<lambda>e. e\<lparr>le_plan := p\<rparr>) (ledger_of sx d k)))"
proof -
  let ?us = "map (\<lambda>p. (pl_invocation_id p, approval_text sx p)) (filter (decides sx d) ps)"
  have dist: "distinct (map pl_invocation_id ps)" and rec: "\<forall>p \<in> set ps. approval_recordable sx d p" and ne: "ps \<noteq> []"
    using assms(3) by (auto simp: approvals_recordable_def)
  have updates: "approval_updates sx {} ps d = (Inr ?us, d)"
    using approval_updates_ok [OF assms(1,2) rec dist] by simp
  have "distinct (map pl_invocation_id (filter (decides sx d) ps))" using dist by (rule distinct_map_filter)
  with each_approval_ok [OF assms(1), of "filter (decides sx d) ps"] assms(2) rec obtain d' where
    d': "act_each apply_approval ?us d = (Inr (), d')" "ledger_inv sx d'" "d' = d\<lparr>db_effects := db_effects d'\<rparr>"
    "\<And>k. ledger_of sx d' k = (case find (\<lambda>p. pl_invocation_id p = k) (filter (decides sx d) ps) of
          None \<Rightarrow> ledger_of sx d k
        | Some p \<Rightarrow> map_option (\<lambda>e. e\<lparr>le_plan := p\<rparr>) (ledger_of sx d k))"
    by auto
  have "map_option (\<lambda>e. e\<lparr>le_plan := p\<rparr>) (ledger_of sx d k) = ledger_of sx d k"
    if "find (\<lambda>p. pl_invocation_id p = k) ps = Some p" "\<not> decides sx d p" for k p
  proof -
    have p: "p \<in> set ps" "pl_invocation_id p = k" using that(1) by (auto simp: find_Some_iff)
    have "approval_recordable sx d p" using rec p(1) by blast
    then obtain e where e: "ledger_of sx d k = Some e" "approval_recordable sx d p"
      using p(2) by (cases "ledger_of sx d k") (auto simp: approval_recordable_def)
    then have "le_plan e = p" using undecided_same [OF e(2) that(2)] p(2) by simp
    then show ?thesis using e(1) by simp
  qed
  then have "ledger_of sx d' k = (case find (\<lambda>p. pl_invocation_id p = k) ps of
          None \<Rightarrow> ledger_of sx d k
        | Some p \<Rightarrow> map_option (\<lambda>e. e\<lparr>le_plan := p\<rparr>) (ledger_of sx d k))" for k
    using find_filter_decides [OF dist, of k "decides sx d"] by (auto simp: d'(4) split: option.split)
  moreover have "record_approvals sx ps d = (Inr (), d')"
    using updates d'(1) ne by (simp add: record_approvals_def transaction_def act_bind_def)
  ultimately show ?thesis using d'(2,3) by auto
qed

lemma record_approvals_err:
  assumes "ledger_inv sx d" "\<forall>p \<in> set ps. storable_plan sx p" "\<not> approvals_recordable sx d ps"
  shows "\<exists>e. record_approvals sx ps d = (Inl e, d)"
proof (cases "ps = []")
  case True
  then show ?thesis by (simp add: record_approvals_def act_lift_def)
next
  case False
  then obtain e where "approval_updates sx {} ps d = (Inl e, d)"
    using approval_updates_err [OF assms(1,2), of "{}"] assms(3) by (auto simp: approvals_recordable_def)
  then show ?thesis using False by (simp add: record_approvals_def transaction_def act_bind_def)
qed

section \<open>Pending effects of the abstract ledger\<close>

lemma pending_effects_ok:
  assumes inv: "ledger_inv sx d"
  obtains ps where "pending_effects sx d = (Inr ps, d)"
    "distinct (map (\<lambda>p. pl_invocation_id (pe_plan p)) ps)"
    "\<And>p. p \<in> set ps \<longleftrightarrow> ledger_of sx d (pl_invocation_id (pe_plan p))
        = Some \<lparr>le_scope = pe_execution_scope p, le_plan = pe_plan p, le_outcome = None\<rparr>"
proof -
  let ?rows = "sort_key (\<lambda>r. (er_planned_at r, er_execution_key r))
         (filter (\<lambda>r. er_status r = ''planned'') (db_effects d))"
  define read where "read r = projr (pending_of_row sx r)" for r
  have read: "pending_of_row sx r = Inr (read r)" if "r \<in> set (db_effects d)" for r
    using inv that by (auto simp: ledger_inv_def is_ok_iff read_def)
  have key: "key_str (pl_invocation_id (pe_plan (read r))) = er_execution_key r" if "r \<in> set (db_effects d)" for r
    using read [OF that] by (auto simp: pending_of_row_def and_then_eq_Inr key_str_def dest!: sym [of _ "read r"])
  have dist: "distinct (map er_execution_key (db_effects d))" using inv by (simp add: ledger_inv_def)
  have at: "effect_at d (er_execution_key r) = Some r" if "r \<in> set (db_effects d)" for r
    using that dist by (auto simp: effect_at_def comp_def intro!: map_of_is_SomeI)
  have 1: "pending_effects sx d = (Inr (map read ?rows), d)"
    using collect_results_map [of ?rows "pending_of_row sx" read] read
    by (simp add: pending_effects_def act_try_def)
  have "distinct (map er_execution_key ?rows)"
    using distinct_map_filter [OF dist, of "\<lambda>r. er_status r = ''planned''"] by (simp add: distinct_map)
  moreover have "map (\<lambda>p. key_str (pl_invocation_id (pe_plan p))) (map read ?rows) = map er_execution_key ?rows"
    by (simp add: key)
  ultimately have "distinct (map (\<lambda>p. key_str (pl_invocation_id (pe_plan p))) (map read ?rows))" by metis
  then have 2: "distinct (map (\<lambda>p. pl_invocation_id (pe_plan p)) (map read ?rows))"
    by (auto simp: distinct_map inj_on_def)
  have 3: "p \<in> set (map read ?rows) \<longleftrightarrow> ledger_of sx d (pl_invocation_id (pe_plan p))
        = Some \<lparr>le_scope = pe_execution_scope p, le_plan = pe_plan p, le_outcome = None\<rparr>" for p
  proof
    assume "p \<in> set (map read ?rows)"
    then obtain r where r: "r \<in> set (db_effects d)" "er_status r = ''planned''" "p = read r" by auto
    then show "ledger_of sx d (pl_invocation_id (pe_plan p))
        = Some \<lparr>le_scope = pe_execution_scope p, le_plan = pe_plan p, le_outcome = None\<rparr>"
      using ledger_of_row [OF inv _ read [OF r(1)]] at [OF r(1)] key [OF r(1)] by simp
  next
    assume l: "ledger_of sx d (pl_invocation_id (pe_plan p))
        = Some \<lparr>le_scope = pe_execution_scope p, le_plan = pe_plan p, le_outcome = None\<rparr>"
    obtain r where r: "effect_at d (key_str (pl_invocation_id (pe_plan p))) = Some r"
      "pending_of_row sx r = Inr p" "er_status r = ''planned''"
      by (rule ledger_of_SomeD [OF inv l]) (use that in \<open>cases p, auto\<close>)
    then show "p \<in> set (map read ?rows)"
      using effect_at_SomeD [OF r(1)] read [of r] by force
  qed
  show ?thesis by (rule that [OF 1 2 3])
qed

section \<open>Histories of the ledger\<close>

text \<open>One operation of the ledger, whether it succeeds or fails.\<close>

inductive ledger_step :: "serde \<Rightarrow> database \<Rightarrow> database \<Rightarrow> bool" for sx where
  step_plans: "list_all (storable_plan sx) plans \<Longrightarrow> record_plans sx now scope plans d = (r, d') \<Longrightarrow> ledger_step sx d d'"
| step_approvals: "list_all (storable_plan sx) plans \<Longrightarrow> record_approvals sx plans d = (r, d') \<Longrightarrow> ledger_step sx d d'"
| step_terminals: "record_terminals sx now' terminals d = (r, d') \<Longrightarrow> ledger_step sx d d'"
| step_pending: "pending_effects sx d = (r, d') \<Longrightarrow> ledger_step sx d d'"

text \<open>
  How an entry may change: nothing after its terminal; before it, the approval may be decided and
  the terminal attached, and all that was frozen stays.
\<close>

definition entry_evolves :: "ledger_entry \<Rightarrow> ledger_entry \<Rightarrow> bool" where
  "entry_evolves e e' \<longleftrightarrow>
     le_scope e' = le_scope e \<and> (\<exists>a. le_plan e' = (le_plan e)\<lparr>pl_approval := a\<rparr>)
     \<and> (\<not> plan_pending (le_plan e) \<longrightarrow> le_plan e' = le_plan e) \<and> (le_outcome e \<noteq> None \<longrightarrow> e' = e)"

lemma entry_evolves_refl: "entry_evolves e e"
  by (auto simp: entry_evolves_def intro: exI [of _ "pl_approval (le_plan e)"])

lemma entry_evolves_trans: "entry_evolves a b \<Longrightarrow> entry_evolves b c \<Longrightarrow> entry_evolves a c"
  by (auto simp: entry_evolves_def)

lemma resolution_evolves: "resolution_of p q \<Longrightarrow> \<not> plan_pending p \<Longrightarrow> q = p"
  by (auto simp: resolution_of_def plan_pending_def split: option.splits)

lemma pending_effects_same: "pending_effects sx d = (r, d') \<Longrightarrow> d' = d"
  by (auto simp: pending_effects_def act_try_def)

lemma ledger_step_keeps:
  assumes "ledger_step sx d d'" "ledger_inv sx d"
  shows "ledger_inv sx d' \<and> (\<forall>k e. ledger_of sx d k = Some e \<longrightarrow>
           (\<exists>e'. ledger_of sx d' k = Some e' \<and> entry_evolves e e'))"
  using assms
proof cases
  case (step_plans plans now scope r)
  have st: "\<forall>p \<in> set plans. storable_plan sx p" using step_plans by (simp add: list_all_iff)
  show ?thesis
  proof (cases "plans_recordable d scope plans")
    case True
    have d': "d' = d\<lparr>db_effects := db_effects d @ map (row_of_plan sx now scope) plans\<rparr>"
      using record_plans_eq(1) [OF st True, of now] step_plans(2) by simp
    have "ledger_of sx d' k = Some e" if e: "ledger_of sx d k = Some e" for k e
    proof -
      have "effect_at d (key_str k) \<noteq> None" using e ledger_of_None [OF assms(2), of k] by simp
      then have "find (\<lambda>p. pl_invocation_id p = k) plans = None"
        using True by (auto simp: plans_recordable_def find_None_iff)
      then show ?thesis using ledger_of_append [OF assms(2) st True] e by (simp add: d')
    qed
    then show ?thesis
      using ledger_inv_append [OF assms(2) st True] entry_evolves_refl d' by blast
  next
    case False
    then show ?thesis
      using record_plans_eq(2) [OF st False, of now] step_plans(2) assms(2) entry_evolves_refl by auto
  qed
next
  case (step_approvals plans r)
  have st: "\<forall>p \<in> set plans. storable_plan sx p" using step_approvals by (simp add: list_all_iff)
  show ?thesis
  proof (cases "approvals_recordable sx d plans")
    case True
    obtain d1 where d1: "record_approvals sx plans d = (Inr (), d1)" "ledger_inv sx d1"
      "\<forall>k. ledger_of sx d1 k = (case find (\<lambda>p. pl_invocation_id p = k) plans of
          None \<Rightarrow> ledger_of sx d k | Some p \<Rightarrow> map_option (\<lambda>e. e\<lparr>le_plan := p\<rparr>) (ledger_of sx d k))"
      using record_approvals_ok [OF assms(2) st True] by blast
    have "entry_evolves e (e\<lparr>le_plan := p\<rparr>)"
      if "ledger_of sx d k = Some e" "find (\<lambda>p. pl_invocation_id p = k) plans = Some p" for k e p
    proof -
      have "approval_recordable sx d p" "pl_invocation_id p = k"
        using that True by (auto simp: find_Some_iff approvals_recordable_def)
      then have "resolution_of (le_plan e) p" "le_outcome e = None"
        using that(1) by (auto simp: approval_recordable_def)
      then show ?thesis
        using resolution_evolves [of "le_plan e" p] by (auto simp: entry_evolves_def resolution_of_def)
    qed
    then show ?thesis
      using d1 step_approvals(2) entry_evolves_refl by (auto split: option.split)
  next
    case False
    then show ?thesis
      using record_approvals_err [OF assms(2) st False] step_approvals(2) assms(2) entry_evolves_refl by auto
  qed
next
  case (step_terminals now ts r)
  show ?thesis
  proof (cases "terminals_recordable sx d ts")
    case True
    obtain d1 where d1: "record_terminals sx now ts d = (Inr (), d1)" "ledger_inv sx d1"
      "\<forall>k. ledger_of sx d1 k = (case find (\<lambda>t. tt_invocation_id t = k) ts of
          None \<Rightarrow> ledger_of sx d k
        | Some t \<Rightarrow> map_option (\<lambda>e. e\<lparr>le_outcome := Some (outcome_of t)\<rparr>) (ledger_of sx d k))"
      using record_terminals_ok [OF assms(2) True] by blast
    have "entry_evolves e (e\<lparr>le_outcome := Some (outcome_of t)\<rparr>)"
      if "ledger_of sx d k = Some e" "find (\<lambda>t. tt_invocation_id t = k) ts = Some t" for k e t
    proof -
      have "terminal_recordable sx d t" "tt_invocation_id t = k"
        using that True by (auto simp: find_Some_iff terminals_recordable_def)
      then show ?thesis
        using that(1) by (auto simp: terminal_recordable_def entry_evolves_def intro: exI [of _ "pl_approval (le_plan e)"])
    qed
    then show ?thesis
      using d1 step_terminals entry_evolves_refl by (auto split: option.split)
  next
    case False
    then show ?thesis
      using record_terminals_err [OF assms(2) False, of now] step_terminals assms(2) entry_evolves_refl by auto
  qed
next
  case (step_pending r)
  then show ?thesis using pending_effects_same assms(2) entry_evolves_refl by blast
qed

lemma ledger_history:
  assumes "(ledger_step sx)\<^sup>*\<^sup>* d d'" "ledger_inv sx d"
  shows "ledger_inv sx d' \<and> (\<forall>k e. ledger_of sx d k = Some e \<longrightarrow>
           (\<exists>e'. ledger_of sx d' k = Some e' \<and> entry_evolves e e'))"
  using assms(1)
proof (induction rule: rtranclp_induct)
  case base
  then show ?case using assms(2) entry_evolves_refl by blast
next
  case (step y z)
  then have "ledger_inv sx y" by blast
  from ledger_step_keeps [OF step.hyps(2) this] show ?case
    using step.IH entry_evolves_trans by blast
qed

section \<open>Properties\<close>

text \<open>Rows for the examples.\<close>

definition sample_planned :: "string \<Rightarrow> planned_tool_call" where
  "sample_planned i = sample_plan (sample_call i) (InvocationId (''s:'' @ i))"

definition sample_ledger :: database where
  "sample_ledger = snd (record_plans sample_serde (\<lambda>_. 7) ''s'' [sample_planned ''a''] empty_database)"

lemma sample_storable: "storable_plan sample_serde (sample_planned ''a'')" "storable_plan sample_serde (sample_planned ''b'')"
  "storable_plan sample_serde (sample_allow (sample_planned ''a''))"
  by (simp_all add: storable_plan_def sample_planned_def sample_plan_def sample_call_def sample_allow_def sample_serde_def
      sample_codec_def encodes_def unpadded_plain plain_char_def)

lemma empty_ledger_inv: "ledger_inv sx empty_database"
  by (simp add: ledger_inv_def empty_database_def)

lemma empty_ledger_of: "ledger_of sx empty_database = (\<lambda>_. None)"
  by (rule ext) (simp add: ledger_of_def effect_at_def empty_database_def)

lemma sample_recordable: "plans_recordable empty_database ''s'' [sample_planned ''a'']"
  by (simp add: plans_recordable_def effect_at_def empty_database_def)

lemma sample_ledger_inv: "ledger_inv sample_serde sample_ledger"
  and sample_ledger_of: "ledger_of sample_serde sample_ledger k =
     (if k = InvocationId ''s:a'' then Some \<lparr>le_scope = ''s'', le_plan = sample_planned ''a'', le_outcome = None\<rparr> else None)"
proof -
  have d: "sample_ledger = empty_database\<lparr>db_effects := db_effects empty_database @
      map (row_of_plan sample_serde (\<lambda>_. 7) ''s'') [sample_planned ''a'']\<rparr>"
    using record_plans_eq(1) [OF _ sample_recordable, of sample_serde "\<lambda>_. 7"] sample_storable
    by (simp add: sample_ledger_def)
  show "ledger_inv sample_serde sample_ledger"
    unfolding d by (rule ledger_inv_append [OF empty_ledger_inv _ sample_recordable]) (simp add: sample_storable)
  show "ledger_of sample_serde sample_ledger k =
     (if k = InvocationId ''s:a'' then Some \<lparr>le_scope = ''s'', le_plan = sample_planned ''a'', le_outcome = None\<rparr> else None)"
    unfolding d using ledger_of_append [OF empty_ledger_inv _ sample_recordable, of sample_serde "\<lambda>_. 7" k] sample_storable
    by (auto simp: empty_ledger_of sample_planned_def sample_plan_def)
qed

lemma sample_keys:
  "pl_invocation_id (sample_planned ''a'') = InvocationId ''s:a''"
  "pl_invocation_id (sample_planned ''b'') = InvocationId ''s:b''"
  "pl_invocation_id (sample_allow (sample_planned ''a'')) = InvocationId ''s:a''"
  "tt_invocation_id (sample_terminal (sample_planned ''a'')) = InvocationId ''s:a''"
  "outcome_of (sample_terminal (sample_planned ''a'')) = (''succeeded'', ''ok'', None)"
  by (simp_all add: sample_planned_def sample_plan_def sample_allow_def sample_terminal_def outcome_of_def)

text \<open>
  \<open>record_plans\<close> refines the abstract ledger: on a readable database it succeeds exactly when the
  scope and the batch are not empty, the keys are distinct and none of them is recorded, and then
  adds exactly these plans; in every other case the database is as it was.
\<close>

theorem record_plans_refines:
  assumes "ledger_inv sx d" "list_all (storable_plan sx) plans"
  shows "case record_plans sx now scope plans d of (r, d') \<Rightarrow>
     ledger_inv sx d'
     \<and> (is_ok r \<longleftrightarrow> scope \<noteq> [] \<and> plans \<noteq> [] \<and> distinct (map pl_invocation_id plans)
          \<and> list_all (\<lambda>p. ledger_of sx d (pl_invocation_id p) = None) plans)
     \<and> (if is_ok r
        then ledger_of sx d' = (\<lambda>k. case find (\<lambda>p. pl_invocation_id p = k) plans of
               Some p \<Rightarrow> Some \<lparr>le_scope = scope, le_plan = p, le_outcome = None\<rparr>
             | None \<Rightarrow> ledger_of sx d k)
        else d' = d)"
proof -
  have st: "\<forall>p \<in> set plans. storable_plan sx p" using assms(2) by (simp add: list_all_iff)
  have iff: "scope \<noteq> [] \<and> plans \<noteq> [] \<and> distinct (map pl_invocation_id plans)
          \<and> list_all (\<lambda>p. ledger_of sx d (pl_invocation_id p) = None) plans \<longleftrightarrow> plans_recordable d scope plans"
    using ledger_of_None [OF assms(1)] by (simp add: plans_recordable_def list_all_iff)
  show ?thesis
  proof (cases "plans_recordable d scope plans")
    case True
    show ?thesis
      unfolding iff record_plans_eq(1) [OF st True] using True ledger_inv_append [OF assms(1) st True, of now]
        ledger_of_append [OF assms(1) st True, of now] by (simp add: fun_eq_iff)
  next
    case False
    then obtain e where "record_plans sx now scope plans d = (Inl e, d)"
      using record_plans_eq(2) [OF st False, of now] by blast
    then show ?thesis unfolding iff using False assms(1) by simp
  qed
qed

definition sample_refusal :: "(effect_ledger_error + unit) \<times> database" where
  "sample_refusal = record_plans sample_serde (\<lambda>_. 8) ''s'' [sample_planned ''b'', sample_planned ''a''] sample_ledger"

theorem record_plans_refines_witness:
  "case sample_refusal of (r, d') \<Rightarrow> ledger_inv sample_serde d' \<and> \<not> is_ok r \<and> d' = sample_ledger"
proof -
  have "\<not> list_all (\<lambda>p. ledger_of sample_serde sample_ledger (pl_invocation_id p) = None)
            [sample_planned ''b'', sample_planned ''a'']"
    by (simp add: sample_ledger_of sample_planned_def sample_plan_def)
  then show ?thesis
    using record_plans_refines [OF sample_ledger_inv, where plans = "[sample_planned ''b'', sample_planned ''a'']"
        and now = "\<lambda>_. 8" and scope = "''s''"]
    unfolding sample_refusal_def by (auto simp: sample_storable split: prod.splits if_splits)
qed

text \<open>
  \<open>record_approvals\<close> refines the abstract ledger: it succeeds exactly when every plan of the batch
  is recorded without a terminal and either decides the pending approval of the recorded plan or
  repeats it, and then the entries hold the resolved plans; otherwise the database is as it was.
\<close>

theorem record_approvals_refines:
  assumes "ledger_inv sx d" "list_all (storable_plan sx) plans"
  shows "case record_approvals sx plans d of (r, d') \<Rightarrow>
     ledger_inv sx d'
     \<and> (is_ok r \<longleftrightarrow> approvals_recordable sx d plans)
     \<and> (if is_ok r
        then ledger_of sx d' = (\<lambda>k. case find (\<lambda>p. pl_invocation_id p = k) plans of
               None \<Rightarrow> ledger_of sx d k
             | Some p \<Rightarrow> map_option (\<lambda>e. e\<lparr>le_plan := p\<rparr>) (ledger_of sx d k))
        else d' = d)"
proof -
  have st: "\<forall>p \<in> set plans. storable_plan sx p" using assms(2) by (simp add: list_all_iff)
  show ?thesis
  proof (cases "approvals_recordable sx d plans")
    case True
    then show ?thesis using record_approvals_ok [OF assms(1) st True] by (auto simp: fun_eq_iff)
  next
    case False
    then show ?thesis using record_approvals_err [OF assms(1) st False] assms(1) by auto
  qed
qed

theorem record_approvals_refines_witness:
  "case record_approvals sample_serde [sample_allow (sample_planned ''a'')] sample_ledger of (r, d') \<Rightarrow>
     ledger_inv sample_serde d' \<and> is_ok r
     \<and> ledger_of sample_serde d' (InvocationId ''s:a'')
         = Some \<lparr>le_scope = ''s'', le_plan = sample_allow (sample_planned ''a''), le_outcome = None\<rparr>"
proof -
  have "approvals_recordable sample_serde sample_ledger [sample_allow (sample_planned ''a'')]"
    by (simp add: approvals_recordable_def approval_recordable_def sample_ledger_of sample_allow_def sample_planned_def
        sample_plan_def resolution_of_iff approval_pending_def)
  then show ?thesis
    using record_approvals_refines [OF sample_ledger_inv, of "[sample_allow (sample_planned ''a'')]"]
    by (auto simp: sample_storable sample_ledger_of sample_keys split: prod.splits)
qed

text \<open>
  \<open>record_terminals\<close> refines the abstract ledger: it succeeds exactly when the keys of the batch
  are distinct and each is recorded without a terminal, with the same call, name and effect, and then
  attaches the terminals to these entries; otherwise the database is as it was. So no key ever gets
  a second terminal.
\<close>

theorem record_terminals_refines:
  assumes "ledger_inv sx d"
  shows "case record_terminals sx now ts d of (r, d') \<Rightarrow>
     ledger_inv sx d'
     \<and> (is_ok r \<longleftrightarrow> terminals_recordable sx d ts)
     \<and> (if is_ok r
        then ledger_of sx d' = (\<lambda>k. case find (\<lambda>t. tt_invocation_id t = k) ts of
               None \<Rightarrow> ledger_of sx d k
             | Some t \<Rightarrow> map_option (\<lambda>e. e\<lparr>le_outcome := Some (outcome_of t)\<rparr>) (ledger_of sx d k))
        else d' = d)"
proof (cases "terminals_recordable sx d ts")
  case True
  then show ?thesis using record_terminals_ok [OF assms True, of now] by (auto simp: fun_eq_iff)
next
  case False
  then show ?thesis using record_terminals_err [OF assms False, of now] assms by auto
qed

theorem record_terminals_refines_witness:
  "case record_terminals sample_serde (\<lambda>_. 9) [sample_terminal (sample_planned ''a'')] sample_ledger of (r, d') \<Rightarrow>
     ledger_inv sample_serde d' \<and> is_ok r
     \<and> ledger_of sample_serde d' (InvocationId ''s:a'')
         = Some \<lparr>le_scope = ''s'', le_plan = sample_planned ''a'', le_outcome = Some (''succeeded'', ''ok'', None)\<rparr>"
proof -
  have "terminals_recordable sample_serde sample_ledger [sample_terminal (sample_planned ''a'')]"
    by (simp add: terminals_recordable_def terminal_recordable_def sample_ledger_of sample_terminal_def
        sample_planned_def sample_plan_def)
  then show ?thesis
    using record_terminals_refines [OF sample_ledger_inv, where now = "\<lambda>_. 9" and ts = "[sample_terminal (sample_planned ''a'')]"]
    by (auto simp: sample_ledger_of sample_keys split: prod.splits)
qed

text \<open>
  \<open>pending\<close> never fails on a readable database and lists, without repetition, exactly the plans
  that have no terminal: what a crash can have interrupted.
\<close>

theorem pending_lists_unfinished_plans:
  assumes "ledger_inv sx d"
  shows "\<exists>ps. pending_effects sx d = (Ok ps, d)
     \<and> distinct (map (\<lambda>p. pl_invocation_id (pe_plan p)) ps)
     \<and> (\<forall>p. p \<in> set ps \<longleftrightarrow> ledger_of sx d (pl_invocation_id (pe_plan p))
          = Some \<lparr>le_scope = pe_execution_scope p, le_plan = pe_plan p, le_outcome = None\<rparr>)"
  by (rule pending_effects_ok [OF assms]) blast

theorem pending_lists_unfinished_plans_witness:
  "\<exists>ps. pending_effects sample_serde sample_ledger = (Ok ps, sample_ledger)
     \<and> distinct (map (\<lambda>p. pl_invocation_id (pe_plan p)) ps)
     \<and> (\<forall>p. p \<in> set ps \<longleftrightarrow> ledger_of sample_serde sample_ledger (pl_invocation_id (pe_plan p))
          = Some \<lparr>le_scope = pe_execution_scope p, le_plan = pe_plan p, le_outcome = None\<rparr>)"
  by (rule pending_lists_unfinished_plans [OF sample_ledger_inv])

text \<open>
  C10. Over any history of ledger operations, successful or not, no entry is lost: its scope and all
  that was frozen in its plan stay, an approval changes only while it is pending, and an entry with a
  terminal never changes again.
\<close>

theorem ledger_history_keeps_entries:
  assumes "(ledger_step sx)\<^sup>*\<^sup>* d d'" "ledger_inv sx d" "ledger_of sx d k = Some e"
  shows "ledger_inv sx d' \<and> (\<exists>e'. ledger_of sx d' k = Some e' \<and> entry_evolves e e')"
  using ledger_history [OF assms(1,2)] assms(3) by blast

theorem ledger_history_keeps_entries_witness:
  "ledger_inv sample_serde (snd sample_refusal)
     \<and> (\<exists>e'. ledger_of sample_serde (snd sample_refusal) (InvocationId ''s:a'') = Some e'
          \<and> entry_evolves \<lparr>le_scope = ''s'', le_plan = sample_planned ''a'', le_outcome = None\<rparr> e')"
proof (rule ledger_history_keeps_entries [OF _ sample_ledger_inv])
  have "ledger_step sample_serde sample_ledger (snd sample_refusal)"
    unfolding sample_refusal_def
    by (rule step_plans [of _ "[sample_planned ''b'', sample_planned ''a'']" "\<lambda>_. 8" "''s''"])
       (simp_all add: sample_storable prod_eq_iff)
  then show "(ledger_step sample_serde)\<^sup>*\<^sup>* sample_ledger (snd sample_refusal)" by simp
qed (simp add: sample_ledger_of)

end
