(* ===== verification/Journal.thy ===== *)
theory Journal
  imports Effect_Ledger
begin

text \<open>
  \<open>JournaledToolBroker\<close> of \<open>crates/runtime/src/lib.rs\<close>: a broker that writes the plans of a batch into
  the ledger before it returns them, the decided approvals before the batch runs, and the terminals
  after it ran. What it relies on is the interface \<open>durable_ledger\<close>, which the SQLite ledger
  implements; what it gives, under the tool host, is write-ahead journaling.
\<close>

section \<open>The broker\<close>

record ('b, 'l) journaled =
  jb_inner :: 'b
  jb_ledger :: 'l

definition journaled_new :: "string \<Rightarrow> tool_broker_error + string" where
  "journaled_new execution_scope =
     (if execution_scope = [] then Err (ToolBrokerError ''journal execution scope must be non-empty'')
      else Ok execution_scope)"

definition on_inner :: "('b, 'e, 'a) action \<Rightarrow> (('b, 'l) journaled, 'e, 'a) action" where
  "on_inner m = act_zoom jb_inner (\<lambda>b j. j\<lparr>jb_inner := b\<rparr>) m"

definition on_ledger :: "('l, effect_ledger_error, 'a) action \<Rightarrow> (('b, 'l) journaled, tool_broker_error, 'a) action" where
  "on_ledger m = act_map_err (ToolBrokerError \<circ> effect_ledger_error_text)
                   (act_zoom jb_ledger (\<lambda>l j. j\<lparr>jb_ledger := l\<rparr>) m)"

text \<open>
  The three operations, over what runs the inner broker and what writes the ledger: here the two are separate parts
  of the state, and in a live turn both use one database.
\<close>

definition journal_plan ::
  "('s, tool_broker_error, planned_tool_call list) action
     \<Rightarrow> (planned_tool_call list \<Rightarrow> ('s, tool_broker_error, unit) action) \<Rightarrow> tool_call list \<Rightarrow> invocation_id list
     \<Rightarrow> ('s, tool_broker_error, planned_tool_call list) action" where
  "journal_plan plan write calls invocation_ids =
     act_bind plan (\<lambda>plans.
     act_bind (act_lift (map_err (ToolBrokerError \<circ> runtime_error_text)
                           (validate_plans calls invocation_ids plans))) (\<lambda>_.
     act_bind (write plans) (\<lambda>_.
     act_return plans)))"

definition journal_resolve ::
  "('s, tool_broker_error, planned_tool_call list) action
     \<Rightarrow> (planned_tool_call list \<Rightarrow> ('s, tool_broker_error, unit) action) \<Rightarrow> planned_tool_call list
     \<Rightarrow> ('s, tool_broker_error, planned_tool_call list) action" where
  "journal_resolve resolve write calls =
     (let had_pending = list_ex plan_pending calls in
      act_bind resolve (\<lambda>resolved.
      act_bind (if had_pending then write resolved else act_return ()) (\<lambda>_.
      act_return resolved)))"

definition journal_execute ::
  "('s, tool_broker_error, tool_terminal list) action \<Rightarrow> (tool_terminal list \<Rightarrow> ('s, tool_broker_error, unit) action)
     \<Rightarrow> ('s, tool_broker_error, tool_terminal list) action" where
  "journal_execute execute write =
     act_bind execute (\<lambda>terminals.
     act_bind (write terminals) (\<lambda>_.
     act_return terminals))"

definition journaled_plan ::
  "'b tool_broker \<Rightarrow> 'l effect_ledger \<Rightarrow> string \<Rightarrow> tool_call list \<Rightarrow> invocation_id list
     \<Rightarrow> (('b, 'l) journaled, tool_broker_error, planned_tool_call list) action" where
  "journaled_plan inner ledger scope calls invocation_ids =
     journal_plan (on_inner (tb_plan inner calls invocation_ids))
       (\<lambda>plans. on_ledger (el_record_plans ledger scope plans)) calls invocation_ids"

definition journaled_resolve_approvals ::
  "'b tool_broker \<Rightarrow> 'l effect_ledger \<Rightarrow> planned_tool_call list
     \<Rightarrow> (('b, 'l) journaled, tool_broker_error, planned_tool_call list) action" where
  "journaled_resolve_approvals inner ledger calls =
     journal_resolve (on_inner (tb_resolve_approvals inner calls))
       (\<lambda>resolved. on_ledger (el_record_approvals ledger resolved)) calls"

definition journaled_execute ::
  "'b tool_broker \<Rightarrow> 'l effect_ledger \<Rightarrow> planned_tool_call list
     \<Rightarrow> (('b, 'l) journaled, tool_broker_error, tool_terminal list) action" where
  "journaled_execute inner ledger calls =
     journal_execute (on_inner (tb_execute inner calls)) (\<lambda>terminals. on_ledger (el_record_terminals ledger terminals))"

definition journaled_broker :: "'b tool_broker \<Rightarrow> 'l effect_ledger \<Rightarrow> string \<Rightarrow> ('b, 'l) journaled tool_broker" where
  "journaled_broker inner ledger scope =
     \<lparr>tb_plan = journaled_plan inner ledger scope,
      tb_resolve_approvals = journaled_resolve_approvals inner ledger,
      tb_execute = journaled_execute inner ledger\<rparr>"

section \<open>The interface of a durable ledger\<close>

text \<open>
  What the kernel relies on: an operation that fails changes nothing, plans are added to entries that
  were free, and approvals and terminals replace what the entries of their batch say.
\<close>

locale durable_ledger =
  fixes ops :: "'l effect_ledger"
    and entries :: "'l \<Rightarrow> invocation_id \<Rightarrow> ledger_entry option"
    and invar :: "'l \<Rightarrow> bool"
    and storable :: "planned_tool_call \<Rightarrow> bool"
  assumes plans_ok: "invar l \<Longrightarrow> list_all storable ps \<Longrightarrow> el_record_plans ops scope ps l = (Inr (), l') \<Longrightarrow>
      invar l' \<and> (\<forall>k. entries l' k = (case find (\<lambda>p. pl_invocation_id p = k) ps of
          Some p \<Rightarrow> Some \<lparr>le_scope = scope, le_plan = p, le_outcome = None\<rparr> | None \<Rightarrow> entries l k))"
    and approvals_ok: "invar l \<Longrightarrow> list_all storable ps \<Longrightarrow> el_record_approvals ops ps l = (Inr (), l') \<Longrightarrow>
      invar l' \<and> (\<forall>k. entries l' k = (case find (\<lambda>p. pl_invocation_id p = k) ps of
          Some p \<Rightarrow> map_option (\<lambda>e. e\<lparr>le_plan := p\<rparr>) (entries l k) | None \<Rightarrow> entries l k))"
    and terminals_ok: "invar l \<Longrightarrow> el_record_terminals ops ts l = (Inr (), l') \<Longrightarrow>
      invar l' \<and> (\<forall>k. entries l' k = (case find (\<lambda>t. tt_invocation_id t = k) ts of
          Some t \<Rightarrow> map_option (\<lambda>e. e\<lparr>le_outcome := Some (outcome_of t)\<rparr>) (entries l k) | None \<Rightarrow> entries l k))"
    and terminals_err: "invar l \<Longrightarrow> el_record_terminals ops ts l = (Inl e, l') \<Longrightarrow> l' = l"
begin

definition journaled_entries :: "('b, 'l) journaled tool_host \<Rightarrow> invocation_id \<Rightarrow> ledger_entry option" where
  "journaled_entries h = entries (jb_ledger (th_tools h))"

lemma plan_records:
  assumes inv: "invar (jb_ledger (th_tools h))"
    and run: "tool_host_plan (journaled_broker inner ops scope) calls h = (Inr planned, h')"
    and st: "list_all storable planned"
  shows "invar (jb_ledger (th_tools h'))"
    "p \<in> set planned \<Longrightarrow> journaled_entries h' (pl_invocation_id p) = Some \<lparr>le_scope = scope, le_plan = p, le_outcome = None\<rparr>"
proof -
  obtain l' where l': "el_record_plans ops scope planned (jb_ledger (th_tools h)) = (Inr (), l')"
    "jb_ledger (th_tools h') = l'"
    using run
    by (auto simp: tool_host_plan_def act_bind_ok act_lift_def act_return_def act_read_def on_tools_def
        act_map_err_def act_zoom_def journaled_broker_def journaled_plan_def journal_plan_def on_inner_def on_ledger_def
        split: prod.splits)
  show "invar (jb_ledger (th_tools h'))" using plans_ok [OF inv st l'(1)] l'(2) by simp
  assume p: "p \<in> set planned"
  have "distinct (map pl_invocation_id planned)" by (rule tool_host_plan_ok(3) [OF run])
  then have "find (\<lambda>q. pl_invocation_id q = pl_invocation_id p) planned = Some p"
    using p by (induction planned) (auto simp: image_iff)
  then show "journaled_entries h' (pl_invocation_id p) = Some \<lparr>le_scope = scope, le_plan = p, le_outcome = None\<rparr>"
    using plans_ok [OF inv st l'(1)] by (simp add: journaled_entries_def l'(2))
qed

lemma resolve_records:
  assumes inv: "invar (jb_ledger (th_tools h))"
    and recorded: "\<And>p. p \<in> set planned \<Longrightarrow>
      journaled_entries h (pl_invocation_id p) = Some \<lparr>le_scope = scope, le_plan = p, le_outcome = None\<rparr>"
    and dist: "distinct (map pl_invocation_id planned)"
    and run: "tool_host_resolve_approvals (journaled_broker inner ops scope) planned h = (Inr resolved, h')"
    and st: "list_all storable resolved"
  shows "invar (jb_ledger (th_tools h'))"
    "p \<in> set resolved \<Longrightarrow> journaled_entries h' (pl_invocation_id p) = Some \<lparr>le_scope = scope, le_plan = p, le_outcome = None\<rparr>"
proof -
  have res: "list_all2 resolution_of planned resolved" by (rule tool_host_resolve_ok [OF run])
  have ids: "map pl_invocation_id resolved = map pl_invocation_id planned" by (rule resolutions_frozen(2) [OF res])
  have from_plan: "\<exists>q \<in> set planned. resolution_of q p \<and> pl_invocation_id q = pl_invocation_id p" if "p \<in> set resolved" for p
    using that res by (fastforce simp: list_all2_conv_all_nth in_set_conv_nth dest: resolution_frozen)
  have step: "if list_ex plan_pending planned
     then el_record_approvals ops resolved (jb_ledger (th_tools h)) = (Inr (), jb_ledger (th_tools h'))
     else jb_ledger (th_tools h') = jb_ledger (th_tools h)"
    using run
    by (auto simp: tool_host_resolve_approvals_def act_bind_ok act_lift_def act_return_def on_tools_def Let_def
        act_map_err_def act_zoom_def journaled_broker_def journaled_resolve_approvals_def journal_resolve_def on_inner_def on_ledger_def
        split: prod.splits if_splits)
  show "invar (jb_ledger (th_tools h'))"
    using step approvals_ok [OF inv st] inv by (auto split: if_splits)
  assume p: "p \<in> set resolved"
  obtain q where q: "q \<in> set planned" "resolution_of q p" "pl_invocation_id q = pl_invocation_id p"
    using from_plan [OF p] by blast
  show "journaled_entries h' (pl_invocation_id p) = Some \<lparr>le_scope = scope, le_plan = p, le_outcome = None\<rparr>"
  proof (cases "list_ex plan_pending planned")
    case True
    have "find (\<lambda>q. pl_invocation_id q = pl_invocation_id p) resolved = Some p"
    proof -
      have "distinct (map pl_invocation_id resolved)" using dist ids by simp
      then show ?thesis using p by (induction resolved) (auto simp: image_iff)
    qed
    then show ?thesis
      using step True approvals_ok [OF inv st, of "jb_ledger (th_tools h')"] recorded [OF q(1)] q(3)
      by (simp add: journaled_entries_def)
  next
    case False
    then have "\<not> plan_pending q" using q(1) by (auto simp: list_ex_iff)
    then have "p = q" using resolution_evolves [OF q(2)] by simp
    then show ?thesis using step False recorded [OF q(1)] by (simp add: journaled_entries_def)
  qed
qed

lemma execute_records:
  assumes inv: "invar (jb_ledger (th_tools h))"
    and recorded: "\<And>p. p \<in> set resolved \<Longrightarrow>
      journaled_entries h (pl_invocation_id p) = Some \<lparr>le_scope = scope, le_plan = p, le_outcome = None\<rparr>"
    and run: "tool_host_execute (journaled_broker inner ops scope) resolved h = (r, h')"
    and p: "p \<in> set resolved"
  shows "\<exists>outcome. journaled_entries h' (pl_invocation_id p) = Some \<lparr>le_scope = scope, le_plan = p, le_outcome = outcome\<rparr>"
    "r = Inr completed \<Longrightarrow> \<exists>t \<in> set completed. tt_invocation_id t = pl_invocation_id p
        \<and> journaled_entries h' (pl_invocation_id p) = Some \<lparr>le_scope = scope, le_plan = p, le_outcome = Some (outcome_of t)\<rparr>"
proof -
  obtain r1 b' where inner: "tb_execute inner resolved (jb_inner (th_tools h)) = (r1, b')"
    by (cases "tb_execute inner resolved (jb_inner (th_tools h))")
  let ?l = "jb_ledger (th_tools h)"
  have failed: "jb_ledger (th_tools h') = ?l" if "r1 = Inl e" for e
    using run inner that
    by (auto simp: tool_host_execute_def act_bind_def on_tools_def act_map_err_def act_zoom_def
        journaled_broker_def journaled_execute_def journal_execute_def on_inner_def split: prod.splits)
  have ran: "jb_ledger (th_tools h') = snd (el_record_terminals ops ts ?l)
      \<and> (r = Inr completed \<longrightarrow> completed = ts \<and> fst (el_record_terminals ops ts ?l) = Inr ()
           \<and> validate_terminals resolved ts = Inr ())" if "r1 = Inr ts" for ts
    using run inner that
    by (cases "el_record_terminals ops ts ?l"; cases "fst (el_record_terminals ops ts ?l)")
       (auto simp: tool_host_execute_def act_bind_def on_tools_def act_map_err_def act_zoom_def act_lift_def act_return_def
         journaled_broker_def journaled_execute_def journal_execute_def on_inner_def on_ledger_def split: prod.splits sum.splits)
  show "\<exists>outcome. journaled_entries h' (pl_invocation_id p) = Some \<lparr>le_scope = scope, le_plan = p, le_outcome = outcome\<rparr>"
  proof (cases r1)
    case (Inl e)
    then show ?thesis using failed [OF Inl] recorded [OF p] by (simp add: journaled_entries_def)
  next
    case (Inr ts)
    show ?thesis
    proof (cases "el_record_terminals ops ts ?l")
      case (Pair r2 l2)
      then show ?thesis
        using ran [OF Inr] terminals_err [OF inv, of ts _ l2] terminals_ok [OF inv, of ts l2] recorded [OF p]
        by (cases r2) (auto simp: journaled_entries_def split: option.splits)
    qed
  qed
  assume ok: "r = Inr completed"
  obtain ts where ts: "r1 = Inr ts"
    using ok run inner
    by (cases r1) (auto simp: tool_host_execute_def act_bind_def on_tools_def act_map_err_def act_zoom_def
        journaled_broker_def journaled_execute_def journal_execute_def on_inner_def split: prod.splits)
  have valid: "validate_terminals resolved ts = Inr ()" and c: "completed = ts"
    and fin: "el_record_terminals ops ts ?l = (Inr (), jb_ledger (th_tools h'))"
    using ran [OF ts] ok by (auto simp: prod_eq_iff)
  have "pl_call_id p \<in> set (map tt_call_id ts)"
    using valid p mset_eq_setD [of "map tt_call_id ts" "map pl_call_id resolved"] by (auto simp: validate_terminals_Inr)
  then obtain t where t: "t \<in> set ts" "tt_call_id t = pl_call_id p" by auto
  then obtain q where "q \<in> set resolved" "terminal_of q t" using valid by (auto simp: validate_terminals_Inr)
  moreover have "distinct (map pl_call_id resolved)" using valid by (auto simp: validate_terminals_Inr)
  ultimately have "q = p" using p t(2) by (auto simp: terminal_of_def distinct_map inj_on_def)
  then have inv_t: "tt_invocation_id t = pl_invocation_id p" using \<open>terminal_of q t\<close> by (simp add: terminal_of_def)
  then obtain u where u: "find (\<lambda>u. tt_invocation_id u = pl_invocation_id p) ts = Some u"
    using t(1) by (cases "find (\<lambda>u. tt_invocation_id u = pl_invocation_id p) ts") (auto simp: find_None_iff)
  then have "u \<in> set ts" "tt_invocation_id u = pl_invocation_id p" by (auto simp: find_Some_iff)
  then show "\<exists>t \<in> set completed. tt_invocation_id t = pl_invocation_id p
        \<and> journaled_entries h' (pl_invocation_id p) = Some \<lparr>le_scope = scope, le_plan = p, le_outcome = Some (outcome_of t)\<rparr>"
    using terminals_ok [OF inv fin] recorded [OF p] u c by (auto simp: journaled_entries_def)
qed

end

section \<open>The SQLite ledger is a durable ledger\<close>

interpretation sqlite_ledger: durable_ledger "sqlite_effect_ledger sx planned_at completed_at"
  "ledger_of sx" "ledger_inv sx" "storable_plan sx"
  for sx planned_at completed_at
proof
  fix l ps scope l'
  assume inv: "ledger_inv sx l" and st: "list_all (storable_plan sx) ps"
    and ok: "el_record_plans (sqlite_effect_ledger sx planned_at completed_at) scope ps l = (Inr (), l')"
  have st: "\<forall>p \<in> set ps. storable_plan sx p" using st by (simp add: list_all_iff)
  have rec: "plans_recordable l scope ps"
    using ok record_plans_eq(2) [OF st, of l scope planned_at] by (auto simp: sqlite_effect_ledger_def)
  then have "l' = l\<lparr>db_effects := db_effects l @ map (row_of_plan sx planned_at scope) ps\<rparr>"
    using ok record_plans_eq(1) [OF st, of l scope planned_at] by (simp add: sqlite_effect_ledger_def)
  then show "ledger_inv sx l' \<and> (\<forall>k. ledger_of sx l' k = (case find (\<lambda>p. pl_invocation_id p = k) ps of
      Some p \<Rightarrow> Some \<lparr>le_scope = scope, le_plan = p, le_outcome = None\<rparr> | None \<Rightarrow> ledger_of sx l k))"
    using ledger_inv_append [OF inv st rec] ledger_of_append [OF inv st rec] by simp
next
  fix l ps l'
  assume inv: "ledger_inv sx l" and st: "list_all (storable_plan sx) ps"
    and ok: "el_record_approvals (sqlite_effect_ledger sx planned_at completed_at) ps l = (Inr (), l')"
  have st: "\<forall>p \<in> set ps. storable_plan sx p" using st by (simp add: list_all_iff)
  have rec: "approvals_recordable sx l ps"
    using ok record_approvals_err [OF inv st] by (force simp: sqlite_effect_ledger_def)
  show "ledger_inv sx l' \<and> (\<forall>k. ledger_of sx l' k = (case find (\<lambda>p. pl_invocation_id p = k) ps of
      Some p \<Rightarrow> map_option (\<lambda>e. e\<lparr>le_plan := p\<rparr>) (ledger_of sx l k) | None \<Rightarrow> ledger_of sx l k))"
    using record_approvals_ok [OF inv st rec] ok by (auto simp: sqlite_effect_ledger_def)
next
  fix l ts l'
  assume inv: "ledger_inv sx l"
    and ok: "el_record_terminals (sqlite_effect_ledger sx planned_at completed_at) ts l = (Inr (), l')"
  have rec: "terminals_recordable sx l ts"
    using ok record_terminals_err [OF inv, of ts completed_at] by (force simp: sqlite_effect_ledger_def)
  show "ledger_inv sx l' \<and> (\<forall>k. ledger_of sx l' k = (case find (\<lambda>t. tt_invocation_id t = k) ts of
      Some t \<Rightarrow> map_option (\<lambda>e. e\<lparr>le_outcome := Some (outcome_of t)\<rparr>) (ledger_of sx l k) | None \<Rightarrow> ledger_of sx l k))"
    using record_terminals_ok [OF inv rec, of completed_at] ok by (auto simp: sqlite_effect_ledger_def)
next
  fix l ts e l'
  assume inv: "ledger_inv sx l"
    and err: "el_record_terminals (sqlite_effect_ledger sx planned_at completed_at) ts l = (Inl e, l')"
  show "l' = l"
    using err record_terminals_ok [OF inv, of ts completed_at] record_terminals_err [OF inv, of ts completed_at]
    by (cases "terminals_recordable sx l ts") (auto simp: sqlite_effect_ledger_def)
qed

section \<open>Write-ahead journaling\<close>

text \<open>The journaled broker of the SQLite ledger under the tool host.\<close>

definition durable_broker ::
  "serde \<Rightarrow> (planned_tool_call \<Rightarrow> i64) \<Rightarrow> (tool_terminal \<Rightarrow> i64) \<Rightarrow> 'b tool_broker \<Rightarrow> string
     \<Rightarrow> ('b, database) journaled tool_broker" where
  "durable_broker sx planned_at completed_at inner scope =
     journaled_broker inner (sqlite_effect_ledger sx planned_at completed_at) scope"

definition durable_entries :: "serde \<Rightarrow> ('b, database) journaled tool_host \<Rightarrow> invocation_id \<Rightarrow> ledger_entry option" where
  "durable_entries sx h = ledger_of sx (jb_ledger (th_tools h))"

text \<open>
  C9. Write-ahead journaling, whatever the inner broker does: when the host comes to execute a
  resolved batch, every plan of it stands in the database under the scope, as resolved and without a
  terminal. After the execution the plan is still there; when the host accepted the terminals the
  entry carries the plan's terminal, and when anything failed the plan is not lost.
\<close>

theorem journal_is_write_ahead:
  assumes "ledger_inv sx (jb_ledger (th_tools host))"
    and "tool_host_plan (durable_broker sx planned_at completed_at inner scope) calls host = (Ok planned, host1)"
    and "tool_host_resolve_approvals (durable_broker sx planned_at completed_at inner scope) planned host1
           = (Ok resolved, host2)"
    and "tool_host_execute (durable_broker sx planned_at completed_at inner scope) resolved host2 = (outcome, host3)"
    and "list_all (storable_plan sx) (planned @ resolved)"
  shows "\<forall>plan \<in> set resolved.
     durable_entries sx host2 (pl_invocation_id plan) = Some \<lparr>le_scope = scope, le_plan = plan, le_outcome = None\<rparr>
     \<and> (case outcome of
          Inl _ \<Rightarrow> \<exists>recorded. durable_entries sx host3 (pl_invocation_id plan)
            = Some \<lparr>le_scope = scope, le_plan = plan, le_outcome = recorded\<rparr>
        | Inr completed \<Rightarrow> \<exists>t \<in> set completed. tt_invocation_id t = pl_invocation_id plan
            \<and> durable_entries sx host3 (pl_invocation_id plan)
                = Some \<lparr>le_scope = scope, le_plan = plan, le_outcome = Some (outcome_of t)\<rparr>)"
proof
  fix plan assume plan: "plan \<in> set resolved"
  note unfold = durable_broker_def and entries = sqlite_ledger.journaled_entries_def durable_entries_def
  have st: "list_all (storable_plan sx) planned" "list_all (storable_plan sx) resolved" using assms(5) by auto
  note p = sqlite_ledger.plan_records [OF assms(1) assms(2) [unfolded unfold] st(1)]
  note r = sqlite_ledger.resolve_records [OF p(1) p(2) tool_host_plan_ok(3) [OF assms(2)] assms(3) [unfolded unfold] st(2)]
  have recorded: "sqlite_ledger.journaled_entries sx host2 (pl_invocation_id q)
      = Some \<lparr>le_scope = scope, le_plan = q, le_outcome = None\<rparr>" if "q \<in> set resolved" for q
    by (rule r(2)) (simp_all add: that)
  note e = sqlite_ledger.execute_records [OF r(1) recorded assms(4) [unfolded unfold] plan]
  show "durable_entries sx host2 (pl_invocation_id plan) = Some \<lparr>le_scope = scope, le_plan = plan, le_outcome = None\<rparr>
     \<and> (case outcome of
          Inl _ \<Rightarrow> \<exists>recorded. durable_entries sx host3 (pl_invocation_id plan)
            = Some \<lparr>le_scope = scope, le_plan = plan, le_outcome = recorded\<rparr>
        | Inr completed \<Rightarrow> \<exists>t \<in> set completed. tt_invocation_id t = pl_invocation_id plan
            \<and> durable_entries sx host3 (pl_invocation_id plan)
                = Some \<lparr>le_scope = scope, le_plan = plan, le_outcome = Some (outcome_of t)\<rparr>)"
    using recorded [OF plan] e by (cases outcome) (simp_all add: entries)
qed

theorem journal_is_write_ahead_witness:
  "let scope = ''s''; broker = durable_broker sample_serde (\<lambda>_. 7) (\<lambda>_. 9) sample_broker scope;
       host1 = \<lparr>th_tools = \<lparr>jb_inner = (), jb_ledger = sample_ledger\<rparr>, th_execution_scope = scope,
                th_seen_invocation_ids = {InvocationId ''s:a''}\<rparr>;
       host2 = snd (tool_host_resolve_approvals broker [sample_planned ''a''] host1);
       (outcome, host3) = tool_host_execute broker [sample_allow (sample_planned ''a'')] host2 in
   \<forall>plan \<in> set [sample_allow (sample_planned ''a'')].
     durable_entries sample_serde host2 (pl_invocation_id plan) = Some \<lparr>le_scope = scope, le_plan = plan, le_outcome = None\<rparr>
     \<and> (case outcome of
          Inl _ \<Rightarrow> \<exists>recorded. durable_entries sample_serde host3 (pl_invocation_id plan)
            = Some \<lparr>le_scope = scope, le_plan = plan, le_outcome = recorded\<rparr>
        | Inr completed \<Rightarrow> \<exists>t \<in> set completed. tt_invocation_id t = pl_invocation_id plan
            \<and> durable_entries sample_serde host3 (pl_invocation_id plan)
                = Some \<lparr>le_scope = scope, le_plan = plan, le_outcome = Some (outcome_of t)\<rparr>)"
proof -
  let ?broker = "durable_broker sample_serde (\<lambda>_. 7) (\<lambda>_. 9) sample_broker ''s''"
  let ?host = "\<lparr>th_tools = \<lparr>jb_inner = (), jb_ledger = empty_database\<rparr>, th_execution_scope = ''s'',
               th_seen_invocation_ids = {}\<rparr>"
  let ?host1 = "\<lparr>th_tools = \<lparr>jb_inner = (), jb_ledger = sample_ledger\<rparr>, th_execution_scope = ''s'',
               th_seen_invocation_ids = {InvocationId ''s:a''}\<rparr>"
  let ?plan = "sample_planned ''a''"
  have "record_plans sample_serde (\<lambda>_. 7) ''s'' [?plan] empty_database = (Ok (), sample_ledger)"
    using record_plans_eq(1) [OF _ sample_recordable, of sample_serde "\<lambda>_. 7"] sample_storable
    by (simp add: sample_ledger_def)
  then have plan: "tool_host_plan ?broker [sample_call ''a''] ?host = (Ok [?plan], ?host1)"
    by (simp add: durable_broker_def journaled_broker_def journaled_plan_def journal_plan_def sample_broker_def tool_host_plan_def
        allocate_invocation_ids_def allocate_invocation_id_def invocation_text_def on_tools_def on_inner_def on_ledger_def
        sqlite_effect_ledger_def validate_plans_def id_new_ok unpadded_plain plain_char_def act_eval
        sample_planned_def sample_plan_def sample_call_def)
  have "approvals_recordable sample_serde sample_ledger [sample_allow ?plan]"
    by (simp add: approvals_recordable_def approval_recordable_def sample_ledger_of sample_allow_def sample_planned_def
        sample_plan_def resolution_of_iff approval_pending_def)
  then obtain d' where "record_approvals sample_serde [sample_allow ?plan] sample_ledger = (Ok (), d')"
    using record_approvals_ok [OF sample_ledger_inv, of "[sample_allow ?plan]"] sample_storable by auto
  then have "fst (tool_host_resolve_approvals ?broker [?plan] ?host1) = Ok [sample_allow ?plan]"
    by (simp add: durable_broker_def journaled_broker_def journaled_resolve_approvals_def journal_resolve_def sample_broker_def
        tool_host_resolve_approvals_def on_tools_def on_inner_def on_ledger_def sqlite_effect_ledger_def
        validate_approval_resolution_def validate_resolved_call_def approval_pending_def act_eval
        sample_planned_def sample_plan_def sample_call_def sample_allow_def)
  then have resolve: "tool_host_resolve_approvals ?broker [?plan] ?host1
      = (Ok [sample_allow ?plan], snd (tool_host_resolve_approvals ?broker [?plan] ?host1))"
    by (simp add: prod_eq_iff)
  show ?thesis
    unfolding Let_def case_prod_beta
    by (rule journal_is_write_ahead [OF _ plan resolve surjective_pairing])
       (simp_all add: empty_ledger_inv sample_storable)
qed

end
