(* ===== verification/Sqlite_Tables.thy ===== *)
theory Sqlite_Tables
  imports Sqlite_Schema "HOL-Library.Multiset"
begin

text \<open>
  Tables with a primary key: what the row of a key is after an insert or an update, how many rows a
  keyed update changes, and the order of rows that an \<open>ORDER BY\<close> gives. Shared by all stores.
\<close>

section \<open>The row of a key\<close>

definition row_at :: "('r \<Rightarrow> 'k) \<Rightarrow> 'r list \<Rightarrow> 'k \<Rightarrow> 'r option" where
  "row_at key rows k = find (\<lambda>r. key r = k) rows"

definition change_row :: "('r \<Rightarrow> 'k) \<Rightarrow> 'k \<Rightarrow> ('r \<Rightarrow> 'r) \<Rightarrow> 'r list \<Rightarrow> 'r list" where
  "change_row key k f rows = map (\<lambda>r. if key r = k then f r else r) rows"

lemma row_at_Some: "row_at key rows k = Some r \<Longrightarrow> r \<in> set rows \<and> key r = k"
  by (auto simp: row_at_def find_Some_iff)

lemma row_at_None: "row_at key rows k = None \<longleftrightarrow> k \<notin> key ` set rows"
  by (auto simp: row_at_def find_None_iff)

lemma row_at_eq:
  assumes "distinct (map key rows)"
  shows "row_at key rows k = Some r \<longleftrightarrow> r \<in> set rows \<and> key r = k"
  using assms by (induction rows) (auto simp: row_at_def image_iff)

lemma find_append: "find P (xs @ ys) = (case find P xs of None \<Rightarrow> find P ys | Some x \<Rightarrow> Some x)"
  by (induction xs) auto

lemma row_at_append:
  "row_at key (rows @ [row]) k = (case row_at key rows k of Some r \<Rightarrow> Some r | None \<Rightarrow> if key row = k then Some row else None)"
  by (simp add: row_at_def find_append split: option.split)

lemma row_at_change:
  "(\<And>r. key (f r) = key r) \<Longrightarrow>
     row_at key (change_row key k f rows) j = (if j = k then map_option f (row_at key rows j) else row_at key rows j)"
  by (induction rows) (auto simp: row_at_def change_row_def)

lemma keys_change: "(\<And>r. key (f r) = key r) \<Longrightarrow> map key (change_row key k f rows) = map key rows"
  by (simp add: change_row_def)

lemma set_change:
  "set (change_row key k f rows) = (\<lambda>r. if key r = k then f r else r) ` set rows"
  by (simp add: change_row_def)

lemma set_change_row:
  assumes "distinct (map key rows)" "row_at key rows k = Some raw"
  shows "set (change_row key k f rows) = insert (f raw) (set rows - {raw})"
proof -
  have "\<And>r. r \<in> set rows \<Longrightarrow> key r = k \<longleftrightarrow> r = raw"
    using assms by (auto simp: row_at_eq distinct_map inj_on_def)
  moreover have "raw \<in> set rows" using assms(2) row_at_Some by fast
  ultimately show ?thesis by (auto simp: set_change image_iff)
qed

lemma length_filter_unique:
  assumes "distinct xs" "x \<in> set xs" "\<And>y. y \<in> set xs \<Longrightarrow> P y \<longleftrightarrow> y = x"
  shows "length (filter P xs) = 1"
proof -
  have "{y. P y} \<inter> set xs = {x}" using assms by auto
  then show ?thesis using assms(1) by (simp add: distinct_length_filter)
qed

section \<open>Keyed updates\<close>

text \<open>An update whose condition includes the key changes the row of the key, or no row.\<close>

lemma keyed_update:
  assumes dist: "distinct (map key rows)" and key: "\<And>r. r \<in> set rows \<Longrightarrow> matches r \<Longrightarrow> key r = k"
  shows "sql_update check matches f rows =
     (case row_at key rows k of
        Some raw \<Rightarrow> if matches raw
          then if check (f raw) then Inr (1, change_row key k f rows) else Inl ''CHECK constraint failed''
          else Inr (0, rows)
      | None \<Rightarrow> Inr (0, rows))"
proof (cases "row_at key rows k")
  case None
  then have no: "\<not> matches r" if "r \<in> set rows" for r using key that by (auto simp: row_at_None image_iff)
  then have "map (\<lambda>r. if matches r then f r else r) rows = rows" by (simp add: map_idI)
  then show ?thesis using None no by (auto simp: sql_update_def list_all_iff filter_empty_conv)
next
  case (Some raw)
  then have raw: "raw \<in> set rows" "key raw = k" using row_at_Some by fast+
  then have only: "key r = k \<longleftrightarrow> r = raw" if "r \<in> set rows" for r
    using that dist by (auto simp: distinct_map inj_on_def)
  show ?thesis
  proof (cases "matches raw")
    case True
    then have m: "matches r \<longleftrightarrow> r = raw" if "r \<in> set rows" for r using only key that by blast
    have "length (filter matches rows) = 1"
      by (rule length_filter_unique [where x = raw]) (use dist raw m in \<open>auto simp: distinct_map\<close>)
    moreover have "map (\<lambda>r. if matches r then f r else r) rows = change_row key k f rows"
      unfolding change_row_def by (rule map_cong [OF refl]) (use m only in auto)
    moreover have "list_all (\<lambda>r. matches r \<longrightarrow> check (f r)) rows \<longleftrightarrow> check (f raw)"
      using m raw(1) by (auto simp: list_all_iff)
    ultimately show ?thesis using Some True by (simp add: sql_update_def)
  next
    case False
    then have no: "\<not> matches r" if "r \<in> set rows" for r using only key that by blast
    then have "map (\<lambda>r. if matches r then f r else r) rows = rows" by (simp add: map_idI)
    then show ?thesis using Some False no by (auto simp: sql_update_def list_all_iff filter_empty_conv)
  qed
qed

section \<open>Order\<close>

text \<open>Rows that come after all others in the order of their keys are sorted behind them.\<close>

lemma sort_key_append:
  fixes f :: "'a \<Rightarrow> 'k :: linorder"
  assumes "\<forall>x \<in> set xs. \<forall>y \<in> set ys. f x < f y" "sorted (map f ys)"
  shows "sort_key f (xs @ ys) = sort_key f xs @ ys"
proof (rule properties_for_sort_key)
  show "mset (sort_key f xs @ ys) = mset (xs @ ys)" by simp
  show "filter (\<lambda>x. f k = f x) (sort_key f xs @ ys) = filter (\<lambda>x. f k = f x) (xs @ ys)" for k
    by (simp add: sort_key_stable [of f "f k", unfolded eq_commute [of "f k"]] eq_commute)
  show "sorted (map f (sort_key f xs @ ys))"
    using assms by (auto simp: sorted_append less_imp_le)
qed

end
