(* ===== verification/History.thy ===== *)
theory History
  imports Main
begin

text \<open>
  What survives in a store that is changed by steps of many clients: an invariant of single steps, and
  a preorder along which the items of the store move, hold for whole histories. The stores give the
  steps and the preorder; the history lemmas are proved here once.
\<close>

locale durable_history =
  fixes step :: "'s \<Rightarrow> 's \<Rightarrow> bool"
    and items :: "'s \<Rightarrow> 'k \<Rightarrow> 'v option"
    and invar :: "'s \<Rightarrow> bool"
    and evolves :: "'v \<Rightarrow> 'v \<Rightarrow> bool"
  assumes step_invar: "step s s' \<Longrightarrow> invar s \<Longrightarrow> invar s'"
    and step_evolves: "step s s' \<Longrightarrow> invar s \<Longrightarrow> items s k = Some v \<Longrightarrow> \<exists>v'. items s' k = Some v' \<and> evolves v v'"
    and evolves_refl: "evolves v v"
    and evolves_trans: "evolves u v \<Longrightarrow> evolves v w \<Longrightarrow> evolves u w"
begin

lemma history_invar: "step\<^sup>*\<^sup>* s s' \<Longrightarrow> invar s \<Longrightarrow> invar s'"
  by (induction rule: rtranclp_induct) (auto dest: step_invar)

lemma history_evolves:
  assumes "step\<^sup>*\<^sup>* s s'" "invar s" "items s k = Some v"
  shows "\<exists>v'. items s' k = Some v' \<and> evolves v v'"
  using assms
proof (induction rule: rtranclp_induct)
  case base
  then show ?case using evolves_refl by blast
next
  case (step y z)
  then obtain v' where "items y k = Some v'" "evolves v v'" by blast
  moreover have "invar y" using history_invar step.hyps(1) step.prems(1) by blast
  ultimately show ?case using step_evolves [OF step.hyps(2)] evolves_trans by blast
qed

text \<open>An item from which the preorder leads only to itself is final.\<close>

lemma history_final:
  assumes "step\<^sup>*\<^sup>* s s'" "invar s" "items s k = Some v" "\<And>w. evolves v w \<Longrightarrow> w = v"
  shows "items s' k = Some v"
  using history_evolves [OF assms(1-3)] assms(4) by blast

end

end
