(* ===== verification/Session_Store.thy ===== *)
theory Session_Store
  imports Sqlite_Tables History
begin

text \<open>
  \<open>SqliteSessionStore\<close> of \<open>apps/hermesd/src/adapters/sqlite.rs\<close>: creation, loading, the
  compare-and-append of a turn and the listing of sessions. The abstract state is a partial function
  from session ids to snapshots; the operations are shown to refine it, and to be an instance of the
  interface \<open>session_repository\<close> that the other stores and the front ends rely on.
\<close>

section \<open>Conversions\<close>

definition session_to_i64 :: "u64 \<Rightarrow> string \<Rightarrow> session_store_error + i64" where
  "session_to_i64 value name = ok_or (SessionInvalid (name @ '' exceeds SQLite integer range'')) (i64_of_u64 value)"

definition session_usize_to_i64 :: "nat \<Rightarrow> string \<Rightarrow> session_store_error + i64" where
  "session_usize_to_i64 value name =
     ok_or (SessionInvalid (name @ '' exceeds SQLite integer range'')) (i64_of_usize value)"

definition session_u64_from_i64 :: "i64 \<Rightarrow> string \<Rightarrow> session_store_error + u64" where
  "session_u64_from_i64 value name = ok_or (SessionInvalid (name @ '' is negative'')) (u64_of_i64 value)"

definition session_usize_from_i64 :: "i64 \<Rightarrow> string \<Rightarrow> session_store_error + nat" where
  "session_usize_from_i64 value name =
     ok_or (SessionInvalid (name @ '' is negative or too large'')) (usize_of_i64 value)"

definition session_id_error :: "id_error + 'a \<Rightarrow> session_store_error + 'a" where
  "session_id_error = map_err (SessionInvalid \<circ> id_error_text)"

definition session_manifest_error :: "prompt_manifest_error + 'a \<Rightarrow> session_store_error + 'a" where
  "session_manifest_error = map_err (SessionInvalid \<circ> prompt_manifest_error_text)"

definition session_generation_from_i64 :: "i64 \<Rightarrow> session_store_error + owner_generation" where
  "session_generation_from_i64 value =
     and_then (session_u64_from_i64 value ''owner generation'') (\<lambda>w. session_id_error (owner_generation_new w))"

section \<open>Validation of a configuration\<close>

text \<open>\<open>Path::is_absolute\<close> on Unix.\<close>

definition is_absolute :: "string \<Rightarrow> bool" where
  "is_absolute path \<longleftrightarrow> (case path of [] \<Rightarrow> False | c # _ \<Rightarrow> c = CHR ''/'')"

definition supervised_codex :: "engine_config \<Rightarrow> bool" where
  "supervised_codex c = (case c of EngineCodexAppServer _ HermesOwnedEffectsV1 \<Rightarrow> True | EngineDirect \<Rightarrow> False)"

definition validate_transport :: "session_config \<Rightarrow> session_store_error + unit" where
  "validate_transport config =
     (if sc_transport config = CodexAppServer
      then
        and_then (ensure (sc_provider_adapter config = ''codex-app-server'')
          (SessionInvalid ''Codex app-server transport requires the codex-app-server adapter'')) (\<lambda>_.
        and_then (ensure (sc_base_url config = [] \<and> sc_api_key_env config = None)
          (SessionInvalid ''Codex app-server sessions cannot persist an API endpoint or credential'')) (\<lambda>_.
        ensure (supervised_codex (sc_engine_config config))
          (SessionInvalid ''Codex app-server session requires a supervised Codex engine configuration'')))
      else
        and_then (ensure (sc_engine_config config = EngineDirect)
          (SessionInvalid ''direct provider transport requires direct engine configuration'')) (\<lambda>_.
        ensure (\<not> (sc_base_url config = [] \<or> trim (sc_base_url config) \<noteq> sc_base_url config))
          (SessionInvalid ''base URL must be non-empty and have no surrounding whitespace'')))"

definition validate_config :: "serde \<Rightarrow> session_config \<Rightarrow> session_store_error + unit" where
  "validate_config sx config =
     and_then (ensure (lineage_id_str (sc_lineage_id config) = session_id_str (sc_session_id config))
       (SessionInvalid ''lineage branching is not implemented; lineage ID must equal session ID'')) (\<lambda>_.
     and_then (check_each (\<lambda>(name, value).
         ensure (\<not> (value = [] \<or> trim value \<noteq> value))
           (SessionInvalid (name @ '' must be non-empty and have no surrounding whitespace'')))
         [(''provider adapter'', sc_provider_adapter config), (''model'', sc_model config),
          (''tool root'', sc_tool_root config)]) (\<lambda>_.
     and_then (validate_transport config) (\<lambda>_.
     and_then (ensure (is_absolute (sc_tool_root config)) (SessionInvalid ''tool root must be an absolute path'')) (\<lambda>_.
     and_then (ensure (case sc_api_key_env config of None \<Rightarrow> True | Some name \<Rightarrow> \<not> (name = [] \<or> trim name \<noteq> name))
       (SessionInvalid ''API key environment variable must be non-empty and unpadded'')) (\<lambda>_.
     and_then (ensure (manifest_digest_str (pm_system_prompt (sc_prompt_manifest config))
           = sx_sha256 sx (sc_system_prompt config))
       (SessionInvalid ''system prompt does not match its frozen manifest digest'')) (\<lambda>_.
     and_then (map_err SessionStorage (cd_enc (sx_tools sx) (sc_tools config))) (\<lambda>tools.
     ensure (manifest_digest_str (pm_tool_catalog (sc_prompt_manifest config)) = sx_sha256 sx tools)
       (SessionInvalid ''tool catalog does not match its frozen manifest digest''))))))))"

section \<open>Loading\<close>

definition config_from_raw :: "serde \<Rightarrow> session_row \<Rightarrow> session_store_error + session_config" where
  "config_from_raw sx raw =
     and_then (session_id_error (session_id_new (sr_session_id raw))) (\<lambda>session_id.
     and_then (session_id_error (lineage_id_new (sr_lineage_id raw))) (\<lambda>lineage_id.
     and_then (session_u64_from_i64 (sr_prompt_revision raw) ''prompt revision'') (\<lambda>revision.
     and_then (session_manifest_error (engine_id_new (sr_engine_id raw))) (\<lambda>engine.
     and_then (session_manifest_error (manifest_digest_new (sr_system_prompt_digest raw))) (\<lambda>system_prompt.
     and_then (session_manifest_error (manifest_digest_new (sr_tool_catalog_digest raw))) (\<lambda>tool_catalog.
     and_then (session_manifest_error (prompt_manifest_new revision engine system_prompt tool_catalog)) (\<lambda>manifest.
     and_then (map_err (\<lambda>e. SessionInvalid (''stored engine configuration is invalid: '' @ e))
        (cd_dec (sx_engine_config sx) (sr_engine_config_json raw))) (\<lambda>engine_config.
     and_then (map_err (\<lambda>e. SessionInvalid (''stored transport is invalid: '' @ e))
        (cd_dec (sx_transport sx) (sr_transport_json raw))) (\<lambda>transport.
     and_then (map_err (\<lambda>e. SessionInvalid (''stored tool catalog is invalid: '' @ e))
        (cd_dec (sx_tools sx) (sr_tools_json raw))) (\<lambda>tools.
     let config =
       \<lparr>sc_session_id = session_id, sc_lineage_id = lineage_id, sc_prompt_manifest = manifest,
        sc_engine_config = engine_config, sc_transport = transport,
        sc_provider_adapter = sr_provider_adapter raw, sc_base_url = sr_base_url raw,
        sc_api_key_env = sr_api_key_env raw, sc_model = sr_model raw, sc_tool_root = sr_tool_root raw,
        sc_system_prompt = sr_system_prompt raw, sc_tools = tools\<rparr>
     in and_then (validate_config sx config) (\<lambda>_. Ok config)))))))))))"

definition find_session :: "string \<Rightarrow> database \<Rightarrow> session_row option" where
  "find_session sid d = find (\<lambda>r. sr_session_id r = sid) (db_sessions d)"

definition message_rows :: "string \<Rightarrow> database \<Rightarrow> message_row list" where
  "message_rows sid d = sort_key mr_sequence (filter (\<lambda>m. mr_session_id m = sid) (db_messages d))"

definition decode_message :: "serde \<Rightarrow> message_row \<Rightarrow> session_store_error + semantic_message" where
  "decode_message sx m =
     map_err (\<lambda>e. SessionInvalid (''stored semantic message is invalid: '' @ e))
       (cd_dec (sx_message sx) (mr_message_json m))"

definition load_snapshot :: "serde \<Rightarrow> session_id \<Rightarrow> database \<Rightarrow> session_store_error + session_snapshot" where
  "load_snapshot sx session_id d =
     and_then (ok_or (SessionNotFound session_id) (find_session (session_id_str session_id) d)) (\<lambda>raw.
     and_then (config_from_raw sx raw) (\<lambda>config.
     and_then (collect_results (decode_message sx) (message_rows (session_id_str session_id) d)) (\<lambda>conversation.
     and_then (session_usize_from_i64 (sr_message_count raw) ''message count'') (\<lambda>stored_count.
     and_then (ensure (stored_count = length conversation)
        (SessionInvalid (''session message count is '' @ show_nat stored_count @ '', but ''
           @ show_nat (length conversation) @ '' messages exist''))) (\<lambda>_.
     and_then (map_err (SessionInvalid \<circ> conversation_error_text) (conversation_new conversation)) (\<lambda>_.
     and_then (session_generation_from_i64 (sr_owner_generation raw)) (\<lambda>generation.
     Ok \<lparr>ss_config = config, ss_owner_generation = generation, ss_conversation = conversation\<rparr>)))))))"

definition session_load :: "serde \<Rightarrow> session_id \<Rightarrow> (session_store_error, session_snapshot) db_action" where
  "session_load sx session_id = act_try (load_snapshot sx session_id)"

section \<open>Creation\<close>

definition session_row_of :: "serde \<Rightarrow> i64 \<Rightarrow> session_config \<Rightarrow> owner_generation \<Rightarrow> session_store_error + session_row" where
  "session_row_of sx now config generation =
     and_then (map_err SessionStorage (cd_enc (sx_tools sx) (sc_tools config))) (\<lambda>tools_json.
     and_then (map_err SessionStorage (cd_enc (sx_transport sx) (sc_transport config))) (\<lambda>transport_json.
     and_then (map_err SessionStorage (cd_enc (sx_engine_config sx) (sc_engine_config config))) (\<lambda>engine_config_json.
     and_then (session_to_i64 (owner_generation_get generation) ''owner generation'') (\<lambda>owner_generation.
     and_then (session_to_i64 (pm_revision (sc_prompt_manifest config)) ''prompt revision'') (\<lambda>revision.
     Ok \<lparr>sr_session_id = session_id_str (sc_session_id config), sr_lineage_id = lineage_id_str (sc_lineage_id config),
         sr_owner_generation = owner_generation,
         sr_engine_id = engine_id_str (pm_engine (sc_prompt_manifest config)),
         sr_prompt_revision = revision,
         sr_system_prompt_digest = manifest_digest_str (pm_system_prompt (sc_prompt_manifest config)),
         sr_tool_catalog_digest = manifest_digest_str (pm_tool_catalog (sc_prompt_manifest config)),
         sr_transport_json = transport_json, sr_provider_adapter = sc_provider_adapter config,
         sr_base_url = sc_base_url config, sr_api_key_env = sc_api_key_env config, sr_model = sc_model config,
         sr_tool_root = sc_tool_root config, sr_system_prompt = sc_system_prompt config,
         sr_tools_json = tools_json, sr_engine_config_json = engine_config_json, sr_message_count = 0,
         sr_created_at = now, sr_updated_at = now\<rparr>)))))"

definition create_session_in_transaction ::
  "serde \<Rightarrow> i64 \<Rightarrow> session_config \<Rightarrow> (session_store_error, session_snapshot) db_action" where
  "create_session_in_transaction sx now config =
     act_bind (act_lift (validate_config sx config)) (\<lambda>_.
     act_bind (act_read (find_session (session_id_str (sc_session_id config)))) (\<lambda>existing.
     act_bind (act_lift (ensure (existing = None) (SessionAlreadyExists (sc_session_id config)))) (\<lambda>_.
     act_bind (act_lift (session_id_error (owner_generation_new 1))) (\<lambda>generation.
     act_bind (act_lift (session_row_of sx now config generation)) (\<lambda>row.
     act_bind (insert_session SessionStorage row) (\<lambda>_.
     act_return \<lparr>ss_config = config, ss_owner_generation = generation, ss_conversation = []\<rparr>))))))"

definition session_create :: "serde \<Rightarrow> i64 \<Rightarrow> session_config \<Rightarrow> (session_store_error, session_snapshot) db_action" where
  "session_create sx now config = transaction (create_session_in_transaction sx now config)"

section \<open>Appending a turn\<close>

definition is_user :: "semantic_message \<Rightarrow> bool" where
  "is_user m = (case m of User _ _ \<Rightarrow> True | _ \<Rightarrow> False)"

definition is_assistant :: "semantic_message \<Rightarrow> bool" where
  "is_assistant m = (case m of Assistant _ _ _ \<Rightarrow> True | _ \<Rightarrow> False)"

definition insert_turn_message ::
  "serde \<Rightarrow> session_id \<Rightarrow> nat \<Rightarrow> nat \<times> semantic_message \<Rightarrow> (session_store_error, unit) db_action" where
  "insert_turn_message sx session_id start = (\<lambda>(offset, message).
     act_bind (act_lift (ok_or (SessionInvalid ''session message count overflowed'') (usize_checked_add start offset))) (\<lambda>sequence.
     act_bind (act_lift (map_err SessionStorage (cd_enc (sx_message sx) message))) (\<lambda>message_json.
     act_bind (act_lift (session_usize_to_i64 sequence ''message sequence'')) (\<lambda>sequence.
     insert_message SessionStorage
       \<lparr>mr_session_id = session_id_str session_id, mr_sequence = sequence, mr_message_json = message_json\<rparr>))))"

definition append_turn_in_transaction ::
  "serde \<Rightarrow> i64 \<Rightarrow> session_id \<Rightarrow> owner_generation \<Rightarrow> semantic_message list
     \<Rightarrow> (session_store_error, session_snapshot) db_action" where
  "append_turn_in_transaction sx now session_id expected messages =
     act_bind (act_lift (ensure (messages \<noteq> []) (SessionInvalid ''cannot append an empty turn''))) (\<lambda>_.
     act_bind (act_lift (ensure (is_user (hd messages) \<and> is_assistant (last messages))
       (SessionInvalid ''an appended turn must begin with user and end with assistant''))) (\<lambda>_.
     act_bind (session_load sx session_id) (\<lambda>snapshot.
     act_bind (act_lift (ensure (ss_owner_generation snapshot = expected)
       (SessionConflict session_id (owner_generation_get expected)
          (owner_generation_get (ss_owner_generation snapshot))))) (\<lambda>_.
     let start = length (ss_conversation snapshot); conversation = ss_conversation snapshot @ messages in
     act_bind (act_lift (map_err (SessionInvalid \<circ> conversation_error_text) (conversation_new conversation))) (\<lambda>_.
     act_bind (act_each (insert_turn_message sx session_id start) (enumerate 0 messages)) (\<lambda>_.
     act_bind (act_lift (ok_or (SessionInvalid ''owner generation overflowed'')
        (u64_succ (owner_generation_get expected)))) (\<lambda>next_generation.
     act_bind (act_lift (session_to_i64 next_generation ''owner generation'')) (\<lambda>next_i64.
     act_bind (act_lift (session_usize_to_i64 (length conversation) ''message count'')) (\<lambda>count.
     act_bind (act_lift (session_to_i64 (owner_generation_get expected) ''owner generation'')) (\<lambda>expected_i64.
     act_bind (update_sessions SessionStorage
        (\<lambda>r. sr_session_id r = session_id_str session_id \<and> sr_owner_generation r = expected_i64)
        (\<lambda>r. r\<lparr>sr_owner_generation := next_i64, sr_message_count := count, sr_updated_at := now\<rparr>)) (\<lambda>updated.
     act_bind (act_lift (ensure (updated = 1)
       (SessionConflict session_id (owner_generation_get expected)
          (owner_generation_get (ss_owner_generation snapshot))))) (\<lambda>_.
     act_bind (act_lift (session_id_error (owner_generation_new next_generation))) (\<lambda>generation.
     act_return \<lparr>ss_config = ss_config snapshot, ss_owner_generation = generation,
                 ss_conversation = conversation\<rparr>)))))))))))))"

definition session_append ::
  "serde \<Rightarrow> i64 \<Rightarrow> session_id \<Rightarrow> owner_generation \<Rightarrow> semantic_message list
     \<Rightarrow> (session_store_error, session_snapshot) db_action" where
  "session_append sx now session_id expected messages =
     transaction (append_turn_in_transaction sx now session_id expected messages)"

section \<open>Listing\<close>

definition summary_of_row :: "session_row \<Rightarrow> session_store_error + session_summary" where
  "summary_of_row row =
     and_then (session_id_error (session_id_new (sr_session_id row))) (\<lambda>session_id.
     and_then (session_generation_from_i64 (sr_owner_generation row)) (\<lambda>generation.
     and_then (session_usize_from_i64 (sr_message_count row) ''message count'') (\<lambda>count.
     Ok \<lparr>sm_session_id = session_id, sm_provider_adapter = sr_provider_adapter row, sm_model = sr_model row,
         sm_owner_generation = generation, sm_message_count = count\<rparr>)))"

definition session_list :: "(session_store_error, session_summary list) db_action" where
  "session_list =
     act_try (\<lambda>d. collect_results summary_of_row
       (sort_key (\<lambda>r. (- sr_updated_at r, sr_session_id r)) (db_sessions d)))"

definition sqlite_session_store :: "serde \<Rightarrow> i64 \<Rightarrow> database session_store" where
  "sqlite_session_store sx now =
     \<lparr>so_create = session_create sx now, so_load = session_load sx, so_append = session_append sx now,
      so_list = session_list\<rparr>"

section \<open>The abstract state\<close>

text \<open>
  The sessions a client can load, and the invariant: ids are unique, every row can be loaded, the
  messages of a session are numbered from 0 without a gap, and no message is without its session.
\<close>

definition sessions_of :: "serde \<Rightarrow> database \<Rightarrow> session_id \<Rightarrow> session_snapshot option" where
  "sessions_of sx d sid = (case load_snapshot sx sid d of Inl _ \<Rightarrow> None | Inr s \<Rightarrow> Some s)"

definition session_row_ok :: "serde \<Rightarrow> database \<Rightarrow> session_row \<Rightarrow> bool" where
  "session_row_ok sx d r \<longleftrightarrow>
     session_check r \<and> sr_owner_generation r \<le> i64_max \<and> is_ok (load_snapshot sx (SessionId (sr_session_id r)) d)
     \<and> map mr_sequence (message_rows (sr_session_id r) d) = map int [0..<length (message_rows (sr_session_id r) d)]"

definition sessions_inv :: "serde \<Rightarrow> database \<Rightarrow> bool" where
  "sessions_inv sx d \<longleftrightarrow>
     distinct (map sr_session_id (db_sessions d))
     \<and> (\<forall>r \<in> set (db_sessions d). session_row_ok sx d r)
     \<and> (\<forall>m \<in> set (db_messages d). has_session d (mr_session_id m))"

text \<open>A configuration that its constructors built and that the codecs and columns can store.\<close>

definition storable_config :: "serde \<Rightarrow> session_config \<Rightarrow> bool" where
  "storable_config sx c \<longleftrightarrow>
     unpadded (session_id_str (sc_session_id c)) \<and> manifest_valid (sc_prompt_manifest c)
     \<and> uint (pm_revision (sc_prompt_manifest c)) \<le> i64_max
     \<and> encodes (sx_tools sx) (sc_tools c) \<and> encodes (sx_transport sx) (sc_transport c)
     \<and> encodes (sx_engine_config sx) (sc_engine_config c)"

definition storable_message :: "serde \<Rightarrow> semantic_message \<Rightarrow> bool" where
  "storable_message sx m \<longleftrightarrow> encodes (sx_message sx) m"

lemma find_session_Some: "find_session k d = Some r \<Longrightarrow> r \<in> set (db_sessions d) \<and> sr_session_id r = k"
  by (auto simp: find_session_def find_Some_iff)

lemma find_session_None: "find_session k d = None \<longleftrightarrow> k \<notin> sr_session_id ` set (db_sessions d)"
  by (auto simp: find_session_def find_None_iff)

lemma find_session_has: "has_session d k \<longleftrightarrow> find_session k d \<noteq> None"
  by (auto simp: has_session_def find_session_None)

lemma load_cong:
  "find_session (session_id_str k) d' = find_session (session_id_str k) d \<Longrightarrow>
   message_rows (session_id_str k) d' = message_rows (session_id_str k) d \<Longrightarrow>
   load_snapshot sx k d' = load_snapshot sx k d"
  by (simp add: load_snapshot_def)

lemma load_eq_Inr:
  "load_snapshot sx k d = Inr s \<longleftrightarrow> (\<exists>raw.
     find_session (session_id_str k) d = Some raw \<and> config_from_raw sx raw = Inr (ss_config s)
     \<and> collect_results (decode_message sx) (message_rows (session_id_str k) d) = Inr (ss_conversation s)
     \<and> sr_message_count raw = int (length (ss_conversation s)) \<and> legal (ss_conversation s)
     \<and> session_generation_from_i64 (sr_owner_generation raw) = Inr (ss_owner_generation s))"
  (is "?l \<longleftrightarrow> ?r")
proof
  show "?l \<Longrightarrow> ?r"
    by (auto simp: load_snapshot_def and_then_eq_Inr session_usize_from_i64_def usize_of_i64_def conversation_new_Inr
        split: if_splits)
  show "?r \<Longrightarrow> ?l"
    by (cases s) (auto simp: load_snapshot_def session_usize_from_i64_def usize_of_i64_def conversation_new_legal)
qed

lemma generation_from_row:
  "i \<le> i64_max \<Longrightarrow> session_generation_from_i64 i = Inr g \<longleftrightarrow> i = uint (owner_generation_get g) \<and> 0 < i"
  by (cases g)
     (auto simp: session_generation_from_i64_def session_id_error_def session_u64_from_i64_def and_then_eq_Inr
        u64_of_i64_eq_Some uint_pos)

lemma session_of_row:
  assumes "sessions_inv sx d" "sessions_of sx d k = Some s"
  shows "\<exists>raw. find_session (session_id_str k) d = Some raw \<and> raw \<in> set (db_sessions d)
     \<and> sr_session_id raw = session_id_str k \<and> config_from_raw sx raw = Inr (ss_config s)
     \<and> collect_results (decode_message sx) (message_rows (session_id_str k) d) = Inr (ss_conversation s)
     \<and> sr_message_count raw = int (length (ss_conversation s)) \<and> legal (ss_conversation s)
     \<and> sr_owner_generation raw = uint (owner_generation_get (ss_owner_generation s))
     \<and> 0 < sr_owner_generation raw \<and> sr_owner_generation raw \<le> i64_max \<and> session_check raw
     \<and> map mr_sequence (message_rows (session_id_str k) d) = map int [0..<length (ss_conversation s)]"
proof -
  have l: "load_snapshot sx k d = Inr s" using assms(2) by (simp add: sessions_of_def split: sum.splits)
  then obtain raw where raw: "find_session (session_id_str k) d = Some raw"
    "config_from_raw sx raw = Inr (ss_config s)"
    "collect_results (decode_message sx) (message_rows (session_id_str k) d) = Inr (ss_conversation s)"
    "sr_message_count raw = int (length (ss_conversation s))" "legal (ss_conversation s)"
    "session_generation_from_i64 (sr_owner_generation raw) = Inr (ss_owner_generation s)"
    unfolding load_eq_Inr by blast
  note mem = find_session_Some [OF raw(1)]
  with assms(1) have "session_row_ok sx d raw" by (simp add: sessions_inv_def)
  moreover have "length (ss_conversation s) = length (message_rows (session_id_str k) d)"
    by (rule collect_results_length [OF raw(3)])
  ultimately show ?thesis
    using raw mem generation_from_row [of "sr_owner_generation raw"] by (auto simp: session_row_ok_def)
qed

lemma sessions_of_None:
  assumes "sessions_inv sx d"
  shows "sessions_of sx d k = None \<longleftrightarrow> find_session (session_id_str k) d = None"
proof
  assume "find_session (session_id_str k) d = None"
  then show "sessions_of sx d k = None" by (simp add: sessions_of_def load_snapshot_def)
next
  assume none: "sessions_of sx d k = None"
  show "find_session (session_id_str k) d = None"
  proof (rule ccontr)
    assume "find_session (session_id_str k) d \<noteq> None"
    then obtain r where "r \<in> set (db_sessions d)" "sr_session_id r = session_id_str k"
      by (auto dest: find_session_Some)
    then have "is_ok (load_snapshot sx k d)"
      using assms by (auto simp: sessions_inv_def session_row_ok_def)
    with none show False by (auto simp: sessions_of_def is_ok_iff)
  qed
qed

section \<open>Creation refines the abstract state\<close>

definition new_session :: "session_config \<Rightarrow> session_snapshot" where
  "new_session c = \<lparr>ss_config = c, ss_owner_generation = OwnerGeneration 1, ss_conversation = []\<rparr>"

lemma message_rows_none:
  assumes "sessions_inv sx d" "find_session k d = None"
  shows "message_rows k d = []"
proof -
  have "\<not> has_session d k" using assms(2) by (simp add: find_session_has)
  then have "filter (\<lambda>m. mr_session_id m = k) (db_messages d) = []"
    using assms(1) by (auto simp: filter_empty_conv sessions_inv_def)
  then show ?thesis by (simp add: message_rows_def)
qed

lemma new_row_loads:
  assumes st: "storable_config sx c" and valid: "validate_config sx c = Inr ()"
  obtains row where "session_row_of sx now c (OwnerGeneration 1) = Inr row"
    "config_from_raw sx row = Inr c" "sr_session_id row = session_id_str (sc_session_id c)"
    "sr_message_count row = 0" "sr_owner_generation row = 1" "session_check row"
proof -
  obtain tools where t: "cd_enc (sx_tools sx) (sc_tools c) = Inr tools" "cd_dec (sx_tools sx) tools = Inr (sc_tools c)"
    using st by (auto simp: storable_config_def elim: encodesE)
  obtain transport where tr: "cd_enc (sx_transport sx) (sc_transport c) = Inr transport"
    "cd_dec (sx_transport sx) transport = Inr (sc_transport c)"
    using st by (auto simp: storable_config_def elim: encodesE)
  obtain engine where en: "cd_enc (sx_engine_config sx) (sc_engine_config c) = Inr engine"
    "cd_dec (sx_engine_config sx) engine = Inr (sc_engine_config c)"
    using st by (auto simp: storable_config_def elim: encodesE)
  have lineage: "lineage_id_str (sc_lineage_id c) = session_id_str (sc_session_id c)"
    using valid by (auto simp: validate_config_def and_then_eq_Inr)
  have man: "manifest_valid (sc_prompt_manifest c)" and sid: "unpadded (session_id_str (sc_session_id c))"
    and rev: "uint (pm_revision (sc_prompt_manifest c)) \<le> i64_max"
    using st by (simp_all add: storable_config_def)
  have row: "i64_of_u64 (pm_revision (sc_prompt_manifest c)) = Some (uint (pm_revision (sc_prompt_manifest c)))"
    "i64_of_u64 1 = Some 1" using rev by (simp_all add: i64_of_u64_eq_Some i64_max_def)
  have parts: "SessionId (session_id_str (sc_session_id c)) = sc_session_id c"
    "LineageId (session_id_str (sc_session_id c)) = sc_lineage_id c" using lineage by (metis session_id.collapse lineage_id.collapse)+
  have manifest: "prompt_manifest_new (pm_revision (sc_prompt_manifest c)) (pm_engine (sc_prompt_manifest c))
      (pm_system_prompt (sc_prompt_manifest c)) (pm_tool_catalog (sc_prompt_manifest c)) = Inr (sc_prompt_manifest c)"
    using man by (simp add: manifest_valid_def)
  have ids: "engine_id_new (engine_id_str e) = Inr e" if "unpadded (engine_id_str e)" for e using that by simp
  have digests: "manifest_digest_new (manifest_digest_str e) = Inr e" if "digest_ok (manifest_digest_str e)" for e
    using that by simp
  have c: "\<lparr>sc_session_id = sc_session_id c, sc_lineage_id = sc_lineage_id c, sc_prompt_manifest = sc_prompt_manifest c,
        sc_engine_config = sc_engine_config c, sc_transport = sc_transport c,
        sc_provider_adapter = sc_provider_adapter c, sc_base_url = sc_base_url c,
        sc_api_key_env = sc_api_key_env c, sc_model = sc_model c, sc_tool_root = sc_tool_root c,
        sc_system_prompt = sc_system_prompt c, sc_tools = sc_tools c\<rparr> = c" by simp
  have "\<exists>row. session_row_of sx now c (OwnerGeneration 1) = Inr row
    \<and> config_from_raw sx row = Inr c \<and> sr_session_id row = session_id_str (sc_session_id c)
    \<and> sr_message_count row = 0 \<and> sr_owner_generation row = 1 \<and> session_check row"
    using man by (simp add: session_row_of_def config_from_raw_def t tr en row session_to_i64_def session_id_error_def
          session_manifest_error_def session_u64_from_i64_def u64_of_i64_uint id_new_ok sid lineage parts ids digests
          manifest manifest_valid_def Let_def c valid session_check_def uint_pos)
  then show ?thesis using that by blast
qed

lemma add_session:
  assumes inv: "sessions_inv sx d" and new: "find_session (session_id_str (sc_session_id c)) d = None"
    and row: "config_from_raw sx row = Inr c" "sr_session_id row = session_id_str (sc_session_id c)"
      "sr_message_count row = 0" "sr_owner_generation row = 1" "session_check row"
  defines "d' \<equiv> d\<lparr>db_sessions := db_sessions d @ [row]\<rparr>"
  shows "insert_session err row d = (Inr (), d')" "sessions_inv sx d'"
    "sessions_of sx d' = (sessions_of sx d)(sc_session_id c \<mapsto> new_session c)"
proof -
  let ?k = "session_id_str (sc_session_id c)"
  have fresh: "?k \<notin> sr_session_id ` set (db_sessions d)" using new by (simp add: find_session_None)
  then show "insert_session err row d = (Inr (), d')"
    using row by (simp add: insert_session_def run_insert_def sql_insert_def d'_def)
  have find: "find_session k d' = (if k = ?k then Some row else find_session k d)" for k
    using new row(2) by (auto simp: find_session_def d'_def find_append split: option.split)
  have msgs: "message_rows k d' = message_rows k d" for k by (simp add: message_rows_def d'_def)
  have loads: "load_snapshot sx (sc_session_id c) d' = Inr (new_session c)"
    using row generation_from_row [of 1] message_rows_none [OF inv new]
    by (auto simp: load_eq_Inr find msgs new_session_def i64_max_def)
  have other: "load_snapshot sx k d' = load_snapshot sx k d" if "k \<noteq> sc_session_id c" for k
    by (rule load_cong) (use that in \<open>auto simp: find msgs intro: session_id.expand\<close>)
  show "sessions_of sx d' = (sessions_of sx d)(sc_session_id c \<mapsto> new_session c)"
    by (rule ext) (simp add: sessions_of_def loads other)
  have old: "session_row_ok sx d' r" if r: "r \<in> set (db_sessions d)" for r
  proof -
    have "SessionId (sr_session_id r) \<noteq> sc_session_id c" using r fresh by (metis image_eqI session_id.sel)
    then show ?thesis using inv r by (simp add: sessions_inv_def session_row_ok_def other msgs)
  qed
  have "session_row_ok sx d' row"
    using row message_rows_none [OF inv new] by (simp add: session_row_ok_def row(2) msgs loads i64_max_def)
  then show "sessions_inv sx d'"
    using inv old fresh row(2) by (auto simp: sessions_inv_def d'_def has_session_def)
qed

definition creatable :: "serde \<Rightarrow> database \<Rightarrow> session_config \<Rightarrow> bool" where
  "creatable sx d c \<longleftrightarrow> validate_config sx c = Ok () \<and> sessions_of sx d (sc_session_id c) = None"

lemma create_in_transaction:
  assumes inv: "sessions_inv sx d" and st: "storable_config sx c"
  shows "creatable sx d c \<Longrightarrow> \<exists>row. create_session_in_transaction sx now c d
        = (Inr (new_session c), d\<lparr>db_sessions := db_sessions d @ [row]\<rparr>)
      \<and> sessions_inv sx (d\<lparr>db_sessions := db_sessions d @ [row]\<rparr>)
      \<and> sessions_of sx (d\<lparr>db_sessions := db_sessions d @ [row]\<rparr>) = (sessions_of sx d)(sc_session_id c \<mapsto> new_session c)"
    "\<not> creatable sx d c \<Longrightarrow> \<exists>e. create_session_in_transaction sx now c d = (Inl e, d)"
proof -
  have gen: "session_id_error (owner_generation_new 1) = Inr (OwnerGeneration 1)" by (simp add: session_id_error_def)
  assume c: "creatable sx d c"
  then have none: "find_session (session_id_str (sc_session_id c)) d = None"
    using sessions_of_None [OF inv] by (simp add: creatable_def)
  have v: "validate_config sx c = Inr ()" using c by (simp add: creatable_def)
  obtain row where row: "session_row_of sx now c (OwnerGeneration 1) = Inr row"
    "config_from_raw sx row = Inr c" "sr_session_id row = session_id_str (sc_session_id c)"
    "sr_message_count row = 0" "sr_owner_generation row = 1" "session_check row"
    using new_row_loads [OF st v] by blast
  note add = add_session [OF inv none row(2-6)]
  show "\<exists>row. create_session_in_transaction sx now c d
        = (Inr (new_session c), d\<lparr>db_sessions := db_sessions d @ [row]\<rparr>)
      \<and> sessions_inv sx (d\<lparr>db_sessions := db_sessions d @ [row]\<rparr>)
      \<and> sessions_of sx (d\<lparr>db_sessions := db_sessions d @ [row]\<rparr>) = (sessions_of sx d)(sc_session_id c \<mapsto> new_session c)"
    by (rule exI [of _ row])
       (use add(1) [of SessionStorage] add(2,3) in \<open>simp add: create_session_in_transaction_def act_bind_def act_lift_def act_read_def act_return_def v none gen
          row(1) new_session_def\<close>)
next
  assume "\<not> creatable sx d c"
  then show "\<exists>e. create_session_in_transaction sx now c d = (Inl e, d)"
    using sessions_of_None [OF inv, of "sc_session_id c"]
    by (cases "validate_config sx c")
       (auto simp: creatable_def create_session_in_transaction_def act_bind_def act_lift_def act_read_def)
qed

section \<open>Appending refines the abstract state\<close>

lemma uint_succ: "w \<noteq> - 1 \<Longrightarrow> uint (w + 1) = uint w + 1" for w :: u64
proof -
  assume "w \<noteq> - 1"
  then have "uint w \<noteq> uint (- 1 :: u64)" by (simp add: word_uint_eq_iff)
  moreover have "uint (- 1 :: u64) = 18446744073709551615" by (simp add: unsigned_minus_1_eq_mask mask_eq_exp_minus_1)
  moreover have "uint w < 18446744073709551616" using uint_lt2p [of w] by simp
  ultimately show ?thesis by (simp add: uint_plus_if')
qed

lemma u64_succ_fits: "u64_succ w = Some v \<and> uint v \<le> i64_max \<longleftrightarrow> uint w < i64_max \<and> v = w + 1" for w :: u64
proof (cases "w = - 1")
  case True
  then show ?thesis by (auto simp: u64_succ_def i64_max_def unsigned_minus_1_eq_mask mask_eq_exp_minus_1)
next
  case False
  then show ?thesis by (auto simp: u64_succ_def uint_succ)
qed

definition message_row_of :: "serde \<Rightarrow> session_id \<Rightarrow> nat \<Rightarrow> nat \<times> semantic_message \<Rightarrow> message_row" where
  "message_row_of sx sid start = (\<lambda>(offset, message).
     \<lparr>mr_session_id = session_id_str sid, mr_sequence = int (start + offset),
      mr_message_json = projr (cd_enc (sx_message sx) message)\<rparr>)"

lemma message_row_of_simps [simp]:
  "mr_session_id (message_row_of sx sid start om) = session_id_str sid"
  "mr_sequence (message_row_of sx sid start om) = int (start + fst om)"
  by (simp_all add: message_row_of_def split: prod.split)

lemma decode_message_row: "storable_message sx m \<Longrightarrow> decode_message sx (message_row_of sx sid start (k, m)) = Inr m"
  by (auto simp: storable_message_def decode_message_def message_row_of_def elim!: encodesE)

lemma each_message:
  assumes "\<forall>m \<in> set ms. storable_message sx m"
    and "\<forall>r \<in> set (db_messages d). mr_session_id r = session_id_str sid \<longrightarrow> mr_sequence r < int (start + k)"
    and "has_session d (session_id_str sid)" and "int (start + k + length ms) \<le> i64_max"
  shows "act_each (insert_turn_message sx sid start) (enumerate k ms) d
     = (Inr (), d\<lparr>db_messages := db_messages d @ map (message_row_of sx sid start) (enumerate k ms)\<rparr>)"
  using assms
proof (induction ms arbitrary: k d)
  case Nil
  then show ?case by (simp add: act_return_def)
next
  case (Cons m ms)
  let ?row = "message_row_of sx sid start (k, m)"
  let ?d = "d\<lparr>db_messages := db_messages d @ [?row]\<rparr>"
  obtain j where j: "cd_enc (sx_message sx) m = Inr j"
    using Cons.prems(1) by (auto simp: storable_message_def elim: encodesE)
  have "usize_checked_add start k = Some (start + k)" "i64_of_usize (start + k) = Some (int (start + k))"
    using Cons.prems(4) by (auto simp: usize_checked_add_def i64_of_usize_def i64_max_def)
  moreover have "(session_id_str sid, int start + int k) \<notin> (\<lambda>r. (mr_session_id r, mr_sequence r)) ` set (db_messages d)"
    using Cons.prems(2) by force
  ultimately have "insert_turn_message sx sid start (k, m) d = (Inr (), ?d)"
    using Cons.prems(3)
    by (simp add: insert_turn_message_def act_bind_def act_lift_def j session_usize_to_i64_def insert_message_def
        run_insert_def sql_insert_def message_check_def message_row_of_def)
  moreover have "act_each (insert_turn_message sx sid start) (enumerate (Suc k) ms) ?d
     = (Inr (), ?d\<lparr>db_messages := db_messages ?d @ map (message_row_of sx sid start) (enumerate (Suc k) ms)\<rparr>)"
    by (rule Cons.IH) (use Cons.prems in \<open>fastforce simp: has_session_def\<close>)+
  ultimately show ?case by (simp add: act_bind_def)
qed

definition extended :: "session_snapshot \<Rightarrow> semantic_message list \<Rightarrow> session_snapshot" where
  "extended s ms = s\<lparr>ss_owner_generation := OwnerGeneration (owner_generation_get (ss_owner_generation s) + 1),
                     ss_conversation := ss_conversation s @ ms\<rparr>"

text \<open>The guards of the code, over the abstract state, with the bounds of the columns.\<close>

definition appendable :: "session_snapshot option \<Rightarrow> owner_generation \<Rightarrow> semantic_message list \<Rightarrow> bool" where
  "appendable found expected ms \<longleftrightarrow> (case found of None \<Rightarrow> False | Some s \<Rightarrow>
     ss_owner_generation s = expected \<and> ms \<noteq> [] \<and> is_user (hd ms) \<and> is_assistant (last ms)
     \<and> legal (ss_conversation s @ ms) \<and> uint (owner_generation_get expected) < i64_max
     \<and> int (length (ss_conversation s @ ms)) \<le> i64_max)"

text \<open>The database after a successful append.\<close>

definition append_row :: "i64 \<Rightarrow> session_snapshot \<Rightarrow> session_row \<Rightarrow> session_row" where
  "append_row now s r = r\<lparr>sr_owner_generation := uint (owner_generation_get (ss_owner_generation s)),
     sr_message_count := int (length (ss_conversation s)), sr_updated_at := now\<rparr>"

definition append_database :: "serde \<Rightarrow> i64 \<Rightarrow> session_id \<Rightarrow> session_snapshot \<Rightarrow> semantic_message list \<Rightarrow> database \<Rightarrow> database" where
  "append_database sx now sid s ms d =
     d\<lparr>db_sessions := map (\<lambda>r. if sr_session_id r = session_id_str sid then append_row now (extended s ms) r else r) (db_sessions d),
       db_messages := db_messages d @ map (message_row_of sx sid (length (ss_conversation s))) (enumerate 0 ms)\<rparr>"

lemma append_row_id [simp]: "sr_session_id (append_row now s r) = sr_session_id r"
  by (simp add: append_row_def)

lemma append_find:
  "find_session k (append_database sx now sid s ms d) =
     (if k = session_id_str sid then map_option (append_row now (extended s ms)) (find_session k d) else find_session k d)"
proof -
  have "find (\<lambda>r. sr_session_id r = k) (map (\<lambda>r. if sr_session_id r = q then append_row now t r else r) rows)
    = (if k = q then map_option (append_row now t) (find (\<lambda>r. sr_session_id r = k) rows)
       else find (\<lambda>r. sr_session_id r = k) rows)" for rows q t
    by (induction rows) auto
  then show ?thesis by (simp add: find_session_def append_database_def)
qed

lemma append_messages_other:
  "k \<noteq> session_id_str sid \<Longrightarrow> message_rows k (append_database sx now sid s ms d) = message_rows k d"
  by (simp add: message_rows_def append_database_def filter_empty_conv)

lemma append_messages:
  assumes "map mr_sequence (message_rows (session_id_str sid) d) = map int [0..<length (ss_conversation s)]"
  shows "message_rows (session_id_str sid) (append_database sx now sid s ms d)
    = message_rows (session_id_str sid) d @ map (message_row_of sx sid (length (ss_conversation s))) (enumerate 0 ms)"
proof -
  let ?n = "length (ss_conversation s)"
  have old: "mr_sequence r < int ?n" if "r \<in> set (db_messages d)" "mr_session_id r = session_id_str sid" for r
  proof -
    have "r \<in> set (message_rows (session_id_str sid) d)" using that by (simp add: message_rows_def)
    then have "mr_sequence r \<in> set (map int [0..<?n])" unfolding assms [symmetric] by simp
    then show ?thesis by auto
  qed
  have "sorted (map mr_sequence (map (message_row_of sx sid ?n) (enumerate 0 ms)))"
    by (simp add: sorted_iff_nth_mono nth_enumerate_eq)
  moreover have "filter (\<lambda>r. mr_session_id r = session_id_str sid) (map (message_row_of sx sid ?n) (enumerate 0 ms))
      = map (message_row_of sx sid ?n) (enumerate 0 ms)" by (simp add: filter_id_conv)
  ultimately show ?thesis
    unfolding message_rows_def append_database_def
    by (simp del: map_map) (rule sort_key_append, use old in \<open>fastforce\<close>)
qed

lemma append_loads:
  fixes now :: i64
  assumes inv: "sessions_inv sx d" and s: "sessions_of sx d sid = Some s" and ms: "\<forall>m \<in> set ms. storable_message sx m"
    and ok: "appendable (Some s) (ss_owner_generation s) ms"
  defines "d' \<equiv> append_database sx now sid s ms d"
  shows "load_snapshot sx sid d' = Inr (extended s ms)" "sessions_inv sx d'"
    "sessions_of sx d' = (sessions_of sx d)(sid \<mapsto> extended s ms)"
proof -
  let ?k = "session_id_str sid" and ?n = "length (ss_conversation s)" and ?g = "owner_generation_get (ss_owner_generation s)"
  obtain raw where raw: "find_session ?k d = Some raw" "raw \<in> set (db_sessions d)" "sr_session_id raw = ?k"
    "config_from_raw sx raw = Inr (ss_config s)"
    "collect_results (decode_message sx) (message_rows ?k d) = Inr (ss_conversation s)"
    "sr_owner_generation raw = uint ?g" "session_check raw"
    "map mr_sequence (message_rows ?k d) = map int [0..<?n]"
    using session_of_row [OF inv s] by blast
  have g: "uint (?g + 1) = uint ?g + 1" "uint ?g + 1 \<le> i64_max" "0 < uint ?g"
    using ok raw(6,7) by (auto simp: appendable_def session_check_def intro: uint_succ_le)
  note rows = append_messages [OF raw(8), of sx now ms]
  have "list_all2 (\<lambda>r m. decode_message sx r = Inr m) (map (message_row_of sx sid ?n) (enumerate 0 ms)) ms"
    using ms by (simp add: list_all2_conv_all_nth nth_enumerate_eq decode_message_row)
  then have decoded: "collect_results (decode_message sx) (message_rows ?k d') = Inr (ss_conversation s @ ms)"
    using raw(5) by (simp add: d'_def rows collect_results_eq_Inr list_all2_appendI)
  have row: "find_session ?k d' = Some (append_row now (extended s ms) raw)" by (simp add: d'_def append_find raw(1))
  have config: "config_from_raw sx (append_row now (extended s ms) raw) = Inr (ss_config s)"
    using raw(4) by (simp add: config_from_raw_def append_row_def)
  show load: "load_snapshot sx sid d' = Inr (extended s ms)"
    unfolding load_eq_Inr
    by (rule exI [of _ "append_row now (extended s ms) raw"])
       (use ok g row config decoded in \<open>simp add: extended_def appendable_def append_row_def generation_from_row\<close>)
  have other: "load_snapshot sx k d' = load_snapshot sx k d" if "k \<noteq> sid" for k
  proof -
    have "session_id_str k \<noteq> ?k" using that by (auto intro: session_id.expand)
    then show ?thesis by (intro load_cong) (simp_all add: d'_def append_find append_messages_other)
  qed
  show "sessions_of sx d' = (sessions_of sx d)(sid \<mapsto> extended s ms)"
    by (rule ext) (simp add: sessions_of_def load other)
  have ids: "map sr_session_id (db_sessions d') = map sr_session_id (db_sessions d)"
    by (simp add: d'_def append_database_def append_row_def)
  have seqs: "map mr_sequence (message_rows ?k d') = map int [0..<length (message_rows ?k d')]"
  proof -
    have l: "length (message_rows ?k d) = ?n" using raw(5) collect_results_length by force
    have new: "map mr_sequence (map (message_row_of sx sid ?n) (enumerate 0 ms)) = map int [?n..<?n + length ms]"
      by (rule nth_equalityI) (simp_all add: nth_enumerate_eq)
    have "[0..<?n + length ms] = [0..<?n] @ [?n..<?n + length ms]" by (rule upt_add_eq_append) simp
    then show ?thesis unfolding d'_def rows map_append raw(8) new by (simp only: length_append l length_map length_enumerate map_append)
  qed
  have "session_row_ok sx d' r" if r: "r \<in> set (db_sessions d')" for r
  proof (cases "sr_session_id r = ?k")
    case True
    obtain q where q: "q \<in> set (db_sessions d)" "sr_session_id q = ?k" "r = append_row now (extended s ms) q"
      using r True by (auto simp: d'_def append_database_def append_row_def split: if_splits)
    then have "q = raw" using inv raw(2,3) by (auto simp: sessions_inv_def distinct_map inj_on_def)
    then show ?thesis
      using q True raw(7) g load seqs
      by (simp add: session_row_ok_def append_row_def session_check_def extended_def)
  next
    case False
    then have "r \<in> set (db_sessions d)"
      using r by (auto simp: d'_def append_database_def append_row_def split: if_splits)
    moreover have "SessionId (sr_session_id r) \<noteq> sid" using False by auto
    ultimately show ?thesis
      using inv False by (simp add: sessions_inv_def session_row_ok_def other) (simp add: d'_def append_messages_other)
  qed
  moreover have "has_session d' k \<longleftrightarrow> has_session d k" for k
    using ids by (metis find_session_has find_session_None list.set_map)
  moreover have "has_session d ?k" using raw(1) by (simp add: find_session_has)
  ultimately show "sessions_inv sx d'"
    using inv ids by (auto simp: sessions_inv_def) (auto simp: d'_def append_database_def)
qed

lemma append_in_transaction_ok:
  assumes inv: "sessions_inv sx d" and s: "sessions_of sx d sid = Some s" and ms: "\<forall>m \<in> set ms. storable_message sx m"
    and ok: "appendable (Some s) expected ms"
  shows "append_turn_in_transaction sx now sid expected ms d = (Inr (extended s ms), append_database sx now sid s ms d)"
proof -
  let ?k = "session_id_str sid" and ?n = "length (ss_conversation s)" and ?g = "owner_generation_get expected"
  let ?d = "d\<lparr>db_messages := db_messages d @ map (message_row_of sx sid ?n) (enumerate 0 ms)\<rparr>"
  obtain raw where raw: "find_session ?k d = Some raw" "raw \<in> set (db_sessions d)" "sr_session_id raw = ?k"
    "sr_owner_generation raw = uint ?g" "session_check raw" "map mr_sequence (message_rows ?k d) = map int [0..<?n]"
    using session_of_row [OF inv s] ok by (auto simp: appendable_def)
  have g: "uint (?g + 1) = uint ?g + 1" "uint ?g + 1 \<le> i64_max" "0 < uint ?g"
    using ok raw(4,5) by (auto simp: appendable_def session_check_def intro: uint_succ_le)
  have succ: "u64_succ ?g = Some (?g + 1)" using u64_succ_fits [of ?g "?g + 1"] g by simp
  have load: "load_snapshot sx sid d = Inr s" using s by (simp add: sessions_of_def split: sum.splits)
  have old: "mr_sequence r < int ?n" if "r \<in> set (db_messages d)" "mr_session_id r = ?k" for r
  proof -
    have "r \<in> set (message_rows ?k d)" using that by (simp add: message_rows_def)
    then have "mr_sequence r \<in> set (map int [0..<?n])" unfolding raw(6) [symmetric] by simp
    then show ?thesis by auto
  qed
  have inserts: "act_each (insert_turn_message sx sid ?n) (enumerate 0 ms) d = (Inr (), ?d)"
    by (rule each_message) (use ms old raw(1) ok in \<open>auto simp: find_session_has appendable_def\<close>)
  have unique: "sr_session_id r = ?k \<and> sr_owner_generation r = uint ?g \<longleftrightarrow> r = raw" if "r \<in> set (db_sessions d)" for r
    using that inv raw(2-4) by (auto simp: sessions_inv_def distinct_map inj_on_def)
  have count: "length (filter (\<lambda>r. sr_session_id r = ?k \<and> sr_owner_generation r = uint ?g) (db_sessions d)) = 1"
    by (rule length_filter_unique) (use inv raw(2) unique in \<open>auto simp: sessions_inv_def distinct_map\<close>)
  have mapped: "map (\<lambda>r. if sr_session_id r = ?k \<and> sr_owner_generation r = uint ?g
        then r\<lparr>sr_owner_generation := uint ?g + 1, sr_message_count := int (?n + length ms), sr_updated_at := now\<rparr> else r)
      (db_sessions d)
    = map (\<lambda>r. if sr_session_id r = ?k then append_row now (extended s ms) r else r) (db_sessions d)"
  proof (rule map_cong [OF refl])
    fix r assume "r \<in> set (db_sessions d)"
    moreover have "sr_session_id r = ?k \<Longrightarrow> r = raw"
      using inv raw(2,3) calculation by (auto simp: sessions_inv_def distinct_map inj_on_def)
    ultimately show "(if sr_session_id r = ?k \<and> sr_owner_generation r = uint ?g
        then r\<lparr>sr_owner_generation := uint ?g + 1, sr_message_count := int (?n + length ms), sr_updated_at := now\<rparr> else r)
      = (if sr_session_id r = ?k then append_row now (extended s ms) r else r)"
      using raw(4) g ok by (auto simp: append_row_def extended_def appendable_def)
  qed
  have update: "update_sessions SessionStorage
        (\<lambda>r. sr_session_id r = ?k \<and> sr_owner_generation r = uint ?g)
        (\<lambda>r. r\<lparr>sr_owner_generation := uint ?g + 1, sr_message_count := int (?n + length ms), sr_updated_at := now\<rparr>) ?d
      = (Inr 1, append_database sx now sid s ms d)"
    unfolding append_database_def mapped [symmetric]
    using g inv count
    by (simp add: update_sessions_def run_update_def sql_update_def list_all_iff
        session_check_def sessions_inv_def session_row_ok_def)
  have "?g + 1 \<noteq> 0" using g by (simp flip: uint_pos)
  have res: "\<lparr>ss_config = ss_config s, ss_owner_generation = OwnerGeneration (?g + 1), ss_conversation = ss_conversation s @ ms\<rparr>
      = extended s ms" using ok by (auto simp: extended_def appendable_def)
  from \<open>?g + 1 \<noteq> 0\<close> have new: "owner_generation_new (?g + 1) = Inr (OwnerGeneration (?g + 1))" by simp
  show ?thesis
    using ok g
    by (simp add: new res append_turn_in_transaction_def act_bind_def act_lift_def act_try_def act_return_def session_load_def load
        appendable_def conversation_new_legal Let_def inserts succ session_to_i64_def session_usize_to_i64_def
        i64_of_u64_def i64_of_usize_def update [simplified] session_id_error_def)
qed

lemma append_in_transaction_Inr:
  assumes "append_turn_in_transaction sx now sid expected ms d = (Inr r, d')"
  shows "appendable (sessions_of sx d sid) expected ms"
proof -
  obtain s d1 n where s: "load_snapshot sx sid d = Inr s" and g: "ss_owner_generation s = expected"
    and ms: "ms \<noteq> []" "is_user (hd ms)" "is_assistant (last ms)" "legal (ss_conversation s @ ms)"
    and n: "u64_succ (owner_generation_get expected) = Some n"
    and n': "session_to_i64 n ''owner generation'' = Inr d1"
    and len: "int (length (ss_conversation s @ ms)) \<le> i64_max"
    using assms
    by (auto simp: append_turn_in_transaction_def act_bind_ok act_lift_def session_load_def act_try_def Let_def
        conversation_new_Inr session_usize_to_i64_def i64_of_usize_def split: if_splits)
  have "uint n \<le> i64_max" using n' by (auto simp: session_to_i64_def i64_of_u64_eq_Some)
  then have "uint (owner_generation_get expected) < i64_max" using n u64_succ_fits [of "owner_generation_get expected" n] by blast
  then show ?thesis using s g ms len by (simp add: sessions_of_def appendable_def)
qed

section \<open>The interface of a session repository\<close>

text \<open>
  What the front ends and the other stores rely on. \<open>ops\<close> is indexed by what the environment adds to
  a call, here the clock. A history is any sequence of calls of any clients, failing ones included.
\<close>

inductive session_step ::
  "('t \<Rightarrow> 's session_store) \<Rightarrow> (session_config \<Rightarrow> bool) \<Rightarrow> (semantic_message \<Rightarrow> bool) \<Rightarrow> 's \<Rightarrow> 's \<Rightarrow> bool"
  for ops fits_config fits_message where
  step_create: "fits_config c \<Longrightarrow> so_create (ops t) c s = (r, s') \<Longrightarrow> session_step ops fits_config fits_message s s'"
| step_load: "so_load (ops t) sid s = (r, s') \<Longrightarrow> session_step ops fits_config fits_message s s'"
| step_append: "list_all fits_message ms \<Longrightarrow> so_append (ops t) sid g ms s = (r, s') \<Longrightarrow>
    session_step ops fits_config fits_message s s'"
| step_list: "so_list (ops t) s = (r, s') \<Longrightarrow> session_step ops fits_config fits_message s s'"

definition snapshot_evolves :: "session_snapshot \<Rightarrow> session_snapshot \<Rightarrow> bool" where
  "snapshot_evolves old new \<longleftrightarrow> ss_config new = ss_config old \<and> prefix (ss_conversation old) (ss_conversation new)
     \<and> (new = old \<or> ss_owner_generation old < ss_owner_generation new)"

lemma snapshot_evolves_refl [simp]: "snapshot_evolves s s"
  by (simp add: snapshot_evolves_def)

lemma snapshot_evolves_trans: "snapshot_evolves a b \<Longrightarrow> snapshot_evolves b c \<Longrightarrow> snapshot_evolves a c"
  by (auto simp: snapshot_evolves_def intro: prefix_order.trans less_trans)

lemma snapshot_evolves_generation: "snapshot_evolves a b \<Longrightarrow> ss_owner_generation a \<le> ss_owner_generation b"
  by (auto simp: snapshot_evolves_def)

lemma extended_evolves:
  assumes "uint (owner_generation_get (ss_owner_generation s)) < i64_max"
  shows "snapshot_evolves s (extended s ms)" "ss_owner_generation s < ss_owner_generation (extended s ms)"
  using uint_succ_le [of "owner_generation_get (ss_owner_generation s)"] assms
  by (simp_all add: snapshot_evolves_def extended_def less_owner_generation_def word_less_def)

locale session_repository =
  fixes ops :: "'t \<Rightarrow> 's session_store"
    and sessions :: "'s \<Rightarrow> session_id \<Rightarrow> session_snapshot option"
    and invar :: "'s \<Rightarrow> bool"
    and fits_config :: "session_config \<Rightarrow> bool"
    and fits_message :: "semantic_message \<Rightarrow> bool"
  assumes create_ok: "invar s \<Longrightarrow> fits_config c \<Longrightarrow> so_create (ops t) c s = (Inr r, s') \<Longrightarrow>
      invar s' \<and> sessions s (sc_session_id c) = None \<and> sessions s' = (sessions s)(sc_session_id c \<mapsto> r)"
    and create_err: "so_create (ops t) c s = (Inl e, s') \<Longrightarrow> s' = s"
    and append_ok: "invar s \<Longrightarrow> list_all fits_message ms \<Longrightarrow> so_append (ops t) sid g ms s = (Inr r, s') \<Longrightarrow>
      invar s' \<and> appendable (sessions s sid) g ms \<and> r = extended (the (sessions s sid)) ms
      \<and> sessions s' = (sessions s)(sid \<mapsto> r)"
    and append_err: "so_append (ops t) sid g ms s = (Inl e, s') \<Longrightarrow> s' = s"
    and load_same: "so_load (ops t) sid s = (lr, s') \<Longrightarrow> s' = s"
    and list_same: "so_list (ops t) s = (ls, s') \<Longrightarrow> s' = s"
begin

lemma step_keeps:
  assumes "session_step ops fits_config fits_message s s'" "invar s"
  shows "invar s' \<and> (sessions s sid = Some old \<longrightarrow> (\<exists>new. sessions s' sid = Some new \<and> snapshot_evolves old new))"
  using assms
proof (cases rule: session_step.cases)
  case (step_create c t r)
  then show ?thesis
    using assms(2) create_ok [of s c t _ s'] create_err [of t c s _ s'] by (cases r) fastforce+
next
  case (step_append ms t k g r)
  then show ?thesis
    using assms(2) append_ok [of s ms t k g _ s'] append_err [of t k g ms s _ s'] extended_evolves(1) [of old ms]
    by (cases r) (fastforce simp: appendable_def)+
qed (auto dest: load_same list_same simp: assms(2))

end

sublocale session_repository \<subseteq> history: durable_history "session_step ops fits_config fits_message" sessions invar
  snapshot_evolves
  by unfold_locales (use step_keeps snapshot_evolves_trans in \<open>blast+ | simp\<close>)+

context session_repository
begin

text \<open>Of two clients that read the same generation only one can append.\<close>

lemma append_once:
  assumes inv: "invar s" and ms: "list_all fits_message ms"
    and first: "so_append (ops t) sid g ms s = (Inr r, s1)"
    and run: "(session_step ops fits_config fits_message)\<^sup>*\<^sup>* s1 s2"
    and ms': "list_all fits_message ms'"
  shows "\<exists>e. so_append (ops u) sid g ms' s2 = (Inl e, s2)"
    "\<exists>new. sessions s2 sid = Some new \<and> prefix (ss_conversation r) (ss_conversation new)"
proof -
  note ok = append_ok [OF inv ms first]
  then obtain new where new: "sessions s2 sid = Some new" "snapshot_evolves r new" and inv2: "invar s2"
    using history.history_evolves [OF run, of sid r] history.history_invar [OF run] by auto
  then show "\<exists>new. sessions s2 sid = Some new \<and> prefix (ss_conversation r) (ss_conversation new)"
    by (auto simp: snapshot_evolves_def)
  obtain old where old: "sessions s sid = Some old" "ss_owner_generation old = g" "uint (owner_generation_get g) < i64_max"
    using ok by (auto simp: appendable_def split: option.splits)
  have "g < ss_owner_generation new"
    using extended_evolves(2) [of old ms] old ok snapshot_evolves_generation [OF new(2)] by auto
  then have "\<not> appendable (sessions s2 sid) g ms'" using new(1) by (auto simp: appendable_def)
  then show "\<exists>e. so_append (ops u) sid g ms' s2 = (Inl e, s2)"
    using append_ok [OF inv2 ms', of u sid g] append_err [of u sid g ms' s2]
    by (cases "so_append (ops u) sid g ms' s2"; cases "fst (so_append (ops u) sid g ms' s2)") auto
qed

end

lemma transaction_cases: "transaction m s = (Inr x, s') \<Longrightarrow> m s = (Inr x, s')"
  by (simp add: transaction_ok)

interpretation sqlite_sessions: session_repository "sqlite_session_store sx" "sessions_of sx" "sessions_inv sx"
  "storable_config sx" "storable_message sx" for sx
proof
  fix s c t r s'
  assume inv: "sessions_inv sx s" and c: "storable_config sx c" and run: "so_create (sqlite_session_store sx t) c s = (Inr r, s')"
  then have body: "create_session_in_transaction sx t c s = (Inr r, s')"
    by (simp add: sqlite_session_store_def session_create_def transaction_ok)
  then have "creatable sx s c" using create_in_transaction(2) [OF inv c, of t] by fastforce
  then show "sessions_inv sx s' \<and> sessions_of sx s (sc_session_id c) = None
      \<and> sessions_of sx s' = (sessions_of sx s)(sc_session_id c \<mapsto> r)"
    using create_in_transaction(1) [OF inv c, of t] body by (auto simp: creatable_def)
next
  fix s ms t sid g r s'
  assume inv: "sessions_inv sx s" and ms: "list_all (storable_message sx) ms"
    and run: "so_append (sqlite_session_store sx t) sid g ms s = (Inr r, s')"
  then have body: "append_turn_in_transaction sx t sid g ms s = (Inr r, s')"
    by (simp add: sqlite_session_store_def session_append_def transaction_ok)
  note ok = append_in_transaction_Inr [OF this]
  then obtain old where old: "sessions_of sx s sid = Some old" by (auto simp: appendable_def split: option.splits)
  have ms: "\<forall>m \<in> set ms. storable_message sx m" using ms by (simp add: list_all_iff)
  have g: "g = ss_owner_generation old" using ok old by (simp add: appendable_def)
  show "sessions_inv sx s' \<and> appendable (sessions_of sx s sid) g ms \<and> r = extended (the (sessions_of sx s sid)) ms
      \<and> sessions_of sx s' = (sessions_of sx s)(sid \<mapsto> r)"
    using append_in_transaction_ok [OF inv old ms ok [unfolded old], of t] append_loads [OF inv old ms, of t] ok body old g
    by simp
qed (auto simp: sqlite_session_store_def session_create_def session_append_def session_load_def session_list_def act_try_def
       dest: transaction_rollback)

section \<open>Listing\<close>

definition summary_of :: "session_snapshot \<Rightarrow> session_summary" where
  "summary_of s =
     \<lparr>sm_session_id = sc_session_id (ss_config s), sm_provider_adapter = sc_provider_adapter (ss_config s),
      sm_model = sc_model (ss_config s), sm_owner_generation = ss_owner_generation s,
      sm_message_count = length (ss_conversation s)\<rparr>"

definition updated_at :: "database \<Rightarrow> session_id \<Rightarrow> i64" where
  "updated_at d sid = (case find_session (session_id_str sid) d of None \<Rightarrow> 0 | Some r \<Rightarrow> sr_updated_at r)"

lemma config_from_raw_Inr:
  "config_from_raw sx raw = Inr c \<Longrightarrow> sc_session_id c = SessionId (sr_session_id raw) \<and> unpadded (sr_session_id raw)
     \<and> sc_provider_adapter c = sr_provider_adapter raw \<and> sc_model c = sr_model raw"
  by (auto simp: config_from_raw_def and_then_eq_Inr session_id_error_def Let_def)

lemma row_snapshot:
  assumes "sessions_inv sx d" "r \<in> set (db_sessions d)"
  shows "\<exists>s. sessions_of sx d (SessionId (sr_session_id r)) = Some s \<and> summary_of_row r = Inr (summary_of s)
     \<and> sc_session_id (ss_config s) = SessionId (sr_session_id r) \<and> updated_at d (SessionId (sr_session_id r)) = sr_updated_at r"
proof -
  obtain s where s: "sessions_of sx d (SessionId (sr_session_id r)) = Some s"
    using assms by (auto simp: sessions_inv_def session_row_ok_def is_ok_iff sessions_of_def)
  then obtain raw where raw: "find_session (sr_session_id r) d = Some raw" "raw \<in> set (db_sessions d)"
      "sr_session_id raw = sr_session_id r" "config_from_raw sx raw = Inr (ss_config s)"
      "sr_message_count raw = int (length (ss_conversation s))"
      "sr_owner_generation raw = uint (owner_generation_get (ss_owner_generation s))"
      "0 < sr_owner_generation raw" "sr_owner_generation raw \<le> i64_max"
    using session_of_row [OF assms(1) s] by auto
  then have "raw = r" using assms by (auto simp: sessions_inv_def distinct_map inj_on_def)
  moreover from this have "session_generation_from_i64 (sr_owner_generation r) = Inr (ss_owner_generation s)"
    using raw(6-8) by (subst generation_from_row) auto
  ultimately show ?thesis
    using s raw config_from_raw_Inr [OF raw(4)]
    by (auto simp: summary_of_row_def session_id_error_def id_new_ok session_usize_from_i64_def usize_of_i64_def
        summary_of_def updated_at_def)
qed

lemma session_list_ok:
  assumes inv: "sessions_inv sx d"
  obtains summaries where "session_list d = (Inr summaries, d)" "distinct (map sm_session_id summaries)"
    "\<And>x. x \<in> set summaries \<longleftrightarrow> (\<exists>sid s. sessions_of sx d sid = Some s \<and> x = summary_of s)"
    "sorted_wrt (\<lambda>a b. updated_at d (sm_session_id b) \<le> updated_at d (sm_session_id a)) summaries"
proof -
  define rows where "rows = sort_key (\<lambda>r. (- sr_updated_at r, sr_session_id r)) (db_sessions d)"
  define snap where "snap r = the (sessions_of sx d (SessionId (sr_session_id r)))" for r :: session_row
  have rows: "set rows = set (db_sessions d)" by (simp add: rows_def)
  have snap: "sessions_of sx d (SessionId (sr_session_id r)) = Some (snap r)" "summary_of_row r = Inr (summary_of (snap r))"
     "sc_session_id (ss_config (snap r)) = SessionId (sr_session_id r)" "updated_at d (SessionId (sr_session_id r)) = sr_updated_at r"
    if "r \<in> set rows" for r
    using row_snapshot [OF inv, of r] that by (auto simp: rows snap_def)
  show ?thesis
  proof (rule that)
    show "session_list d = (Inr (map (\<lambda>r. summary_of (snap r)) rows), d)"
      using collect_results_map [of rows summary_of_row "\<lambda>r. summary_of (snap r)"] snap(2)
      by (simp add: session_list_def act_try_def rows_def)
    have "distinct (map sr_session_id rows)"
      using inv mset_map [of sr_session_id rows] mset_map [of sr_session_id "db_sessions d"]
      by (metis mset_eq_imp_distinct_iff mset_sort rows_def sessions_inv_def)
    then show "distinct (map sm_session_id (map (\<lambda>r. summary_of (snap r)) rows))"
      using snap(3) by (simp add: comp_def summary_of_def distinct_map inj_on_def)
    show "x \<in> set (map (\<lambda>r. summary_of (snap r)) rows) \<longleftrightarrow> (\<exists>sid s. sessions_of sx d sid = Some s \<and> x = summary_of s)" for x
    proof
      assume "\<exists>sid s. sessions_of sx d sid = Some s \<and> x = summary_of s"
      then obtain sid s where s: "sessions_of sx d sid = Some s" "x = summary_of s" by blast
      then obtain raw where "raw \<in> set (db_sessions d)" "sr_session_id raw = session_id_str sid"
        using session_of_row [OF inv s(1)] by blast
      then show "x \<in> set (map (\<lambda>r. summary_of (snap r)) rows)"
        using s by (auto simp: rows snap_def intro!: image_eqI [of _ _ raw])
    qed (use snap(1) in auto)
    have "sorted_wrt (\<lambda>a b. (- sr_updated_at a, sr_session_id a) \<le> (- sr_updated_at b, sr_session_id b)) rows"
      using sorted_sort_key [of "\<lambda>r. (- sr_updated_at r, sr_session_id r)" "db_sessions d"]
      by (simp add: rows_def sorted_map)
    then have "sorted_wrt (\<lambda>a b. sr_updated_at b \<le> sr_updated_at a) rows"
      by (rule sorted_wrt_mono_rel [rotated]) (auto simp: less_eq_prod_def)
    then show "sorted_wrt (\<lambda>a b. updated_at d (sm_session_id b) \<le> updated_at d (sm_session_id a))
        (map (\<lambda>r. summary_of (snap r)) rows)"
      unfolding sorted_wrt_map
      by (rule sorted_wrt_mono_rel [rotated]) (simp add: summary_of_def snap(3,4))
  qed
qed

section \<open>Properties\<close>

text \<open>A session for the examples, with the turn of one question and its answer.\<close>

definition sample_config :: "string \<Rightarrow> session_config" where
  "sample_config i =
     \<lparr>sc_session_id = SessionId i, sc_lineage_id = LineageId i,
      sc_prompt_manifest = \<lparr>pm_revision = 1, pm_engine = EngineId ''e'', pm_system_prompt = ManifestDigest (replicate 64 (CHR ''a'')),
        pm_tool_catalog = ManifestDigest (replicate 64 (CHR ''a''))\<rparr>,
      sc_engine_config = EngineDirect, sc_transport = ChatCompletions, sc_provider_adapter = ''openai'', sc_base_url = ''u'',
      sc_api_key_env = None, sc_model = ''m'', sc_tool_root = ''/'', sc_system_prompt = [], sc_tools = []\<rparr>"

definition sample_messages :: "semantic_message list" where
  "sample_messages = [User ''hi'' None, Assistant ''ok'' None None]"

definition sample_sessions :: database where
  "sample_sessions = snd (session_create sample_serde 5 (sample_config ''p'') empty_database)"

lemma sample_config_storable: "storable_config sample_serde (sample_config [c])" if "plain_char c"
  using that
  by (simp add: storable_config_def sample_config_def sample_serde_def sample_codec_def encodes_def manifest_valid_def
      unpadded_plain plain_char_def digest_ok_def lower_hex_digit_def i64_max_def list_all_iff)

lemma sample_config_valid: "validate_config sample_serde (sample_config i) = Ok ()"
proof -
  have "trim ''openai'' = ''openai''" "trim ''m'' = ''m''" "trim ''/'' = ''/''" "trim ''u'' = ''u''"
    using unpadded_plain [of "''openai''"] unpadded_plain [of "''m''"] unpadded_plain [of "''/''"] unpadded_plain [of "''u''"]
    by (simp_all add: unpadded_def plain_char_def)
  then show ?thesis
    by (simp add: validate_config_def sample_config_def sample_serde_def sample_codec_def validate_transport_def is_absolute_def)
qed

lemma sample_messages_storable: "list_all (storable_message sample_serde) sample_messages"
  by (simp add: sample_messages_def storable_message_def sample_serde_def sample_codec_def encodes_def)

lemma empty_sessions: "sessions_inv sx empty_database" "sessions_of sx empty_database = (\<lambda>_. None)"
  by (auto simp: sessions_inv_def empty_database_def sessions_of_def load_snapshot_def find_session_def)

lemma sample_sessions: "sessions_inv sample_serde sample_sessions"
  "sessions_of sample_serde sample_sessions = [SessionId ''p'' \<mapsto> new_session (sample_config ''p'')]"
proof -
  have c: "creatable sample_serde empty_database (sample_config ''p'')"
    by (simp add: creatable_def sample_config_valid empty_sessions)
  have st: "storable_config sample_serde (sample_config ''p'')" by (rule sample_config_storable) (simp add: plain_char_def)
  obtain row where "create_session_in_transaction sample_serde 5 (sample_config ''p'') empty_database
        = (Inr (new_session (sample_config ''p'')), empty_database\<lparr>db_sessions := db_sessions empty_database @ [row]\<rparr>)"
    "sessions_inv sample_serde (empty_database\<lparr>db_sessions := db_sessions empty_database @ [row]\<rparr>)"
    "sessions_of sample_serde (empty_database\<lparr>db_sessions := db_sessions empty_database @ [row]\<rparr>)
       = (sessions_of sample_serde empty_database)(sc_session_id (sample_config ''p'') \<mapsto> new_session (sample_config ''p''))"
    using create_in_transaction(1) [OF empty_sessions(1) st c, of 5] by blast
  then show "sessions_inv sample_serde sample_sessions"
    "sessions_of sample_serde sample_sessions = [SessionId ''p'' \<mapsto> new_session (sample_config ''p'')]"
    by (simp_all add: sample_sessions_def session_create_def transaction_def empty_sessions) (simp add: sample_config_def)
qed

lemma sample_appendable: "appendable (sessions_of sample_serde sample_sessions (SessionId ''p'')) (OwnerGeneration 1) sample_messages"
  by (simp add: sample_sessions appendable_def new_session_def sample_messages_def is_user_def is_assistant_def legal_Cons
      in_turn_Cons i64_max_def)

text \<open>
  \<open>create\<close> refines the abstract state: it succeeds exactly when the configuration passes
  \<open>validate_config\<close> and the id is free, and then the session can be loaded with that configuration,
  generation 1 and an empty conversation, and all other sessions are as they were; otherwise the
  database is unchanged.
\<close>

theorem session_create_refines:
  assumes "sessions_inv sx d" "storable_config sx config"
  shows "case session_create sx now config d of (r, d') \<Rightarrow>
     sessions_inv sx d' \<and> (is_ok r \<longleftrightarrow> creatable sx d config)
     \<and> (if is_ok r
        then r = Ok (new_session config) \<and> sessions_of sx d' = (sessions_of sx d)(sc_session_id config \<mapsto> new_session config)
        else d' = d)"
  using create_in_transaction [OF assms, of now] assms(1)
  by (cases "creatable sx d config") (auto simp: session_create_def transaction_def)

theorem session_create_refines_witness:
  "case session_create sample_serde 6 (sample_config ''p'') sample_sessions of (r, d') \<Rightarrow>
     sessions_inv sample_serde d' \<and> \<not> is_ok r \<and> d' = sample_sessions"
proof -
  have "\<not> creatable sample_serde sample_sessions (sample_config ''p'')"
    by (simp add: creatable_def sample_sessions sample_config_def)
  then show ?thesis
    using session_create_refines [OF sample_sessions(1) sample_config_storable, of "CHR ''p''" 6]
    by (auto simp: plain_char_def split: prod.splits if_splits)
qed

text \<open>
  C8. \<open>append\<close> is a compare-and-append: it succeeds exactly when the session exists at the expected
  generation, the messages start with a user and end with an assistant message, the extended
  conversation is legal, and generation and length still fit an SQLite integer. Then the session has
  the extended conversation and the next generation, and nothing else changed; otherwise the database
  is as it was, also when an insert in the middle of the batch fails.
\<close>

theorem session_append_refines:
  assumes "sessions_inv sx d" "list_all (storable_message sx) messages"
  shows "case session_append sx now sid expected messages d of (r, d') \<Rightarrow>
     sessions_inv sx d' \<and> (is_ok r \<longleftrightarrow> appendable (sessions_of sx d sid) expected messages)
     \<and> (if is_ok r
        then \<exists>s. sessions_of sx d sid = Some s \<and> r = Ok (extended s messages)
               \<and> sessions_of sx d' = (sessions_of sx d)(sid \<mapsto> extended s messages)
        else d' = d)"
proof (cases "append_turn_in_transaction sx now sid expected messages d")
  case (Pair r d')
  have ms: "\<forall>m \<in> set messages. storable_message sx m" using assms(2) by (simp add: list_all_iff)
  show ?thesis
  proof (cases "appendable (sessions_of sx d sid) expected messages")
    case True
    then obtain s where s: "sessions_of sx d sid = Some s" and ok: "appendable (Some s) (ss_owner_generation s) messages"
      "ss_owner_generation s = expected"
      by (auto simp: appendable_def split: option.splits)
    then show ?thesis
      using append_in_transaction_ok [OF assms(1) s ms, of expected now] append_loads [OF assms(1) s ms ok(1), of now] True
      by (simp add: session_append_def transaction_def)
  next
    case False
    then have "\<not> is_ok r" using append_in_transaction_Inr Pair by (auto simp: is_ok_iff)
    then show ?thesis using False Pair assms(1) by (cases r) (auto simp: session_append_def transaction_def)
  qed
qed

theorem session_append_refines_witness:
  "case session_append sample_serde 7 (SessionId ''p'') (OwnerGeneration 1) sample_messages sample_sessions of (r, d') \<Rightarrow>
     sessions_inv sample_serde d' \<and> is_ok r
     \<and> sessions_of sample_serde d' (SessionId ''p'') = Some (extended (new_session (sample_config ''p'')) sample_messages)"
  using session_append_refines [OF sample_sessions(1) sample_messages_storable, where now = 7 and
      sid = "SessionId ''p''" and expected = "OwnerGeneration 1"]
    sample_appendable
  by (auto simp: sample_sessions split: prod.splits)

text \<open>
  No lost update: once a client has appended to a session at some generation, then after any
  history of calls of any clients a second append at that generation fails and changes nothing, and
  the first client's conversation is still a prefix of the stored one.
\<close>

theorem no_lost_update:
  assumes "sessions_inv sx d" "list_all (storable_message sx) messages" "list_all (storable_message sx) late"
    and "session_append sx now sid generation messages d = (Ok snapshot, d1)"
    and "(session_step (sqlite_session_store sx) (storable_config sx) (storable_message sx))\<^sup>*\<^sup>* d1 d2"
  shows "(\<exists>e. session_append sx now' sid generation late d2 = (Err e, d2))
     \<and> (\<exists>s. sessions_of sx d2 sid = Some s \<and> prefix (ss_conversation snapshot) (ss_conversation s))"
proof -
  have "so_append (sqlite_session_store sx now) sid generation messages d = (Inr snapshot, d1)"
    using assms(4) by (simp add: sqlite_session_store_def)
  note once = sqlite_sessions.append_once [OF assms(1,2) this assms(5,3)]
  show ?thesis using once(1) [of now'] once(2) by (simp add: sqlite_session_store_def)
qed

theorem no_lost_update_witness:
  "let d1 = snd (session_append sample_serde 7 (SessionId ''p'') (OwnerGeneration 1) sample_messages sample_sessions) in
   (\<exists>e. session_append sample_serde 8 (SessionId ''p'') (OwnerGeneration 1) sample_messages d1 = (Err e, d1))
     \<and> (\<exists>s. sessions_of sample_serde d1 (SessionId ''p'') = Some s
          \<and> prefix (ss_conversation (extended (new_session (sample_config ''p'')) sample_messages)) (ss_conversation s))"
proof -
  have "append_turn_in_transaction sample_serde 7 (SessionId ''p'') (OwnerGeneration 1) sample_messages sample_sessions
     = (Ok (extended (new_session (sample_config ''p'')) sample_messages),
        append_database sample_serde 7 (SessionId ''p'') (new_session (sample_config ''p'')) sample_messages sample_sessions)"
    using sample_messages_storable sample_appendable sample_sessions
    by (intro append_in_transaction_ok) (simp_all add: list_all_iff)
  then have "session_append sample_serde 7 (SessionId ''p'') (OwnerGeneration 1) sample_messages sample_sessions
     = (Ok (extended (new_session (sample_config ''p'')) sample_messages),
        snd (session_append sample_serde 7 (SessionId ''p'') (OwnerGeneration 1) sample_messages sample_sessions))"
    by (simp add: session_append_def transaction_def)
  from no_lost_update [OF sample_sessions(1) sample_messages_storable sample_messages_storable this rtranclp.rtrancl_refl]
  show ?thesis unfolding Let_def .
qed

text \<open>
  \<open>list\<close> never fails on a readable database and agrees with \<open>load\<close>: one summary for each session
  that can be loaded, with its generation and number of messages, and no other, ordered by the time of
  the last update, the latest first.
\<close>

theorem session_list_agrees_with_load:
  assumes "sessions_inv sx d"
  shows "\<exists>summaries. session_list d = (Ok summaries, d) \<and> distinct (map sm_session_id summaries)
     \<and> (\<forall>x. x \<in> set summaries \<longleftrightarrow> (\<exists>sid s. sessions_of sx d sid = Some s \<and> x = summary_of s))
     \<and> sorted_wrt (\<lambda>a b. updated_at d (sm_session_id b) \<le> updated_at d (sm_session_id a)) summaries"
  by (rule session_list_ok [OF assms]) blast

theorem session_list_agrees_with_load_witness:
  "\<exists>summaries. session_list sample_sessions = (Ok summaries, sample_sessions) \<and> distinct (map sm_session_id summaries)
     \<and> (\<forall>x. x \<in> set summaries \<longleftrightarrow> (\<exists>sid s. sessions_of sample_serde sample_sessions sid = Some s \<and> x = summary_of s))
     \<and> sorted_wrt (\<lambda>a b. updated_at sample_sessions (sm_session_id b) \<le> updated_at sample_sessions (sm_session_id a)) summaries"
  by (rule session_list_agrees_with_load [OF sample_sessions(1)])

end
