(* ===== verification/Outbox.thy ===== *)
theory Outbox
  imports Sqlite_Tables
begin

text \<open>
  The outbox table \<open>delegation_completions\<close>, which the delegation store fills and both the delegation
  store and the foreground-turn store empty: the row of an event, the invariant of the table, and the
  \<open>SET\<close> clause that marks a completion as delivered.
\<close>

definition outbox :: "database \<Rightarrow> completion_event_id \<Rightarrow> completion_row option" where
  "outbox d event = row_at cr_event_id (db_completions d) (completion_event_id_str event)"

definition outbox_inv :: "database \<Rightarrow> bool" where
  "outbox_inv d \<longleftrightarrow> distinct (map cr_event_id (db_completions d)) \<and> (\<forall>r \<in> set (db_completions d). completion_check r)"

definition delivered :: "i64 \<Rightarrow> completion_row \<Rightarrow> completion_row" where
  "delivered at r = r\<lparr>cr_delivery_state := ''delivered'', cr_delivered_at_ms := Some at,
                      cr_delivery_claim_id := None, cr_delivery_claim_expires_at_ms := None\<rparr>"

lemma delivered_id [simp]: "cr_event_id (delivered at r) = cr_event_id r"
  by (simp add: delivered_def)

lemma delivered_check: "completion_check r \<Longrightarrow> cr_delivery_state r = ''pending'' \<Longrightarrow> completion_check (delivered at r)"
  by (auto simp: completion_check_def delivered_def)

lemma outbox_row: "outbox d event = Some r \<Longrightarrow> r \<in> set (db_completions d) \<and> cr_event_id r = completion_event_id_str event"
  unfolding outbox_def by (rule row_at_Some)

end
