(* ===== verification/Foreground_Store.thy ===== *)
theory Foreground_Store
  imports Session_Store Outbox
begin

text \<open>
  \<open>SqliteForegroundTurnStore\<close> of \<open>apps/hermesd/src/adapters/sqlite_foreground.rs\<close>: the claim of a
  session generation by a foreground turn, its atomic completion together with the messages of the
  turn, its termination without messages, and the reconciliation of turns that a crash left running.
\<close>

section \<open>Conversions and checks\<close>

definition turn_to_i64 :: "u64 \<Rightarrow> string \<Rightarrow> foreground_store_error + i64" where
  "turn_to_i64 value name = ok_or (TurnInvalid (name @ '' exceeds SQLite range'')) (i64_of_u64 value)"

definition turn_u64_from_i64 :: "i64 \<Rightarrow> string \<Rightarrow> foreground_store_error + u64" where
  "turn_u64_from_i64 value name = ok_or (TurnInvalid (name @ '' is negative'')) (u64_of_i64 value)"

definition turn_id_error :: "id_error + 'a \<Rightarrow> foreground_store_error + 'a" where
  "turn_id_error = map_err (TurnInvalid \<circ> id_error_text)"

definition turn_generation :: "i64 \<Rightarrow> foreground_store_error + owner_generation" where
  "turn_generation value = and_then (turn_u64_from_i64 value ''owner generation'') (\<lambda>w. turn_id_error (owner_generation_new w))"

fun turn_session_error :: "session_store_error \<Rightarrow> foreground_store_error" where
  "turn_session_error (SessionNotFound sid) = TurnSessionNotFound sid"
| "turn_session_error (SessionConflict sid expected actual) = TurnGenerationConflict sid expected actual"
| "turn_session_error (SessionInvalid message) = TurnInvalid message"
| "turn_session_error (SessionStorage message) = TurnStorage message"
| "turn_session_error (SessionAlreadyExists sid) =
     TurnInvalid (''unexpected duplicate session while mutating foreground turn: '' @ session_id_str sid)"

definition validate_turn_spec :: "foreground_turn_spec \<Rightarrow> foreground_store_error + unit" where
  "validate_turn_spec spec = ensure (trim (fs_prompt spec) \<noteq> []) (TurnInvalid ''prompt must be non-empty'')"

definition validate_provider_prompt :: "string \<Rightarrow> foreground_store_error + unit" where
  "validate_provider_prompt prompt =
     ensure (trim prompt \<noteq> []) (TurnInvalid ''foreground provider prompt must be non-empty'')"

definition validate_turn_reason :: "string \<Rightarrow> string \<Rightarrow> foreground_store_error + unit" where
  "validate_turn_reason reason name =
     ensure (\<not> (trim reason = [] \<or> trim reason \<noteq> reason))
       (TurnInvalid (name @ '' must be non-empty and have no surrounding whitespace''))"

fun validate_turn_terminal :: "foreground_turn_terminal \<Rightarrow> foreground_store_error + unit" where
  "validate_turn_terminal (TurnInterrupted reason) = validate_turn_reason reason ''terminal reason''"
| "validate_turn_terminal (TurnFailed reason) = validate_turn_reason reason ''terminal reason''"
| "validate_turn_terminal (TurnOutcomeUnknown reason) = validate_turn_reason reason ''terminal reason''"
| "validate_turn_terminal TurnCompleted = Ok ()"

definition ensure_session_generation :: "session_snapshot \<Rightarrow> owner_generation \<Rightarrow> foreground_store_error + unit" where
  "ensure_session_generation snapshot expected =
     ensure (ss_owner_generation snapshot = expected)
       (TurnGenerationConflict (sc_session_id (ss_config snapshot)) (owner_generation_get expected)
          (owner_generation_get (ss_owner_generation snapshot)))"

definition ensure_turn_generation :: "turn_row \<Rightarrow> owner_generation \<Rightarrow> foreground_store_error + unit" where
  "ensure_turn_generation raw expected =
     and_then (turn_u64_from_i64 (tn_owner_generation raw) ''owner generation'') (\<lambda>actual.
       if actual = owner_generation_get expected then Ok ()
       else and_then (turn_id_error (session_id_new (tn_session_id raw))) (\<lambda>sid.
         Err (TurnGenerationConflict sid (owner_generation_get expected) actual)))"

definition ensure_turn_running :: "turn_row \<Rightarrow> foreground_store_error + unit" where
  "ensure_turn_running raw =
     (if tn_state raw = ''running'' then Ok ()
      else and_then (turn_id_error (foreground_turn_id_new (tn_turn_id raw))) (\<lambda>turn_id.
        Err (TurnNotRunning turn_id (tn_state raw))))"

definition ensure_turn_timestamp :: "turn_row \<Rightarrow> u64 \<Rightarrow> foreground_store_error + unit" where
  "ensure_turn_timestamp raw completed_at_ms =
     and_then (turn_to_i64 completed_at_ms ''terminal timestamp'') (\<lambda>at.
       ensure (\<not> at < tn_updated_at_ms raw)
         (TurnInvalid ''terminal timestamp precedes the last foreground-turn mutation''))"

section \<open>Reading a turn\<close>

definition load_turn :: "foreground_turn_id \<Rightarrow> (foreground_store_error, turn_row) db_action" where
  "load_turn turn_id =
     act_try (\<lambda>d. ok_or (TurnNotFound turn_id) (row_at tn_turn_id (db_turns d) (foreground_turn_id_str turn_id)))"

definition turn_state_of_row :: "serde \<Rightarrow> foreground_turn_id \<Rightarrow> turn_row \<Rightarrow> foreground_store_error + foreground_turn_state" where
  "turn_state_of_row sx turn_id raw =
     (if tn_state raw = ''running''
      then and_then (ensure (tn_terminal_json raw = None)
             (TurnInvalid (''running foreground turn '' @ foreground_turn_id_str turn_id @ '' has terminal data''))) (\<lambda>_.
           Ok TurnRunning)
      else
        and_then (ok_or (TurnInvalid (''terminal foreground turn '' @ foreground_turn_id_str turn_id @ '' has no terminal data''))
          (tn_terminal_json raw)) (\<lambda>encoded.
        and_then (map_err TurnInvalid (cd_dec (sx_foreground_terminal sx) encoded)) (\<lambda>outcome.
        and_then (ensure (foreground_terminal_status outcome = tn_state raw)
          (TurnInvalid (''foreground turn '' @ foreground_turn_id_str turn_id @ '' state '' @ tn_state raw
             @ '' disagrees with terminal '' @ foreground_terminal_status outcome))) (\<lambda>_.
        and_then (turn_u64_from_i64 (tn_updated_at_ms raw) ''completion timestamp'') (\<lambda>at.
        Ok (TurnTerminal outcome at))))))"

definition turn_snapshot :: "serde \<Rightarrow> turn_row \<Rightarrow> foreground_store_error + foreground_turn_snapshot" where
  "turn_snapshot sx raw =
     and_then (validate_provider_prompt (tn_provider_prompt raw)) (\<lambda>_.
     and_then (turn_id_error (foreground_turn_id_new (tn_turn_id raw))) (\<lambda>turn_id.
     and_then (turn_state_of_row sx turn_id raw) (\<lambda>state.
     and_then (turn_id_error (session_id_new (tn_session_id raw))) (\<lambda>session_id.
     and_then (turn_generation (tn_owner_generation raw)) (\<lambda>generation.
     and_then (turn_u64_from_i64 (tn_started_at_ms raw) ''start timestamp'') (\<lambda>started.
     and_then (turn_u64_from_i64 (tn_updated_at_ms raw) ''update timestamp'') (\<lambda>updated.
     Ok \<lparr>fn_spec = \<lparr>fs_turn_id = turn_id, fs_session_id = session_id, fs_prompt = tn_prompt raw\<rparr>,
         fn_provider_prompt = tn_provider_prompt raw, fn_owner_generation = generation, fn_state = state,
         fn_started_at_ms = started, fn_updated_at_ms = updated\<rparr>)))))))"

definition read_turn :: "serde \<Rightarrow> foreground_turn_id \<Rightarrow> (foreground_store_error, foreground_turn_snapshot) db_action" where
  "read_turn sx turn_id = act_bind (load_turn turn_id) (\<lambda>raw. act_lift (turn_snapshot sx raw))"

section \<open>Starting a turn\<close>

definition deliver_claim ::
  "session_id \<Rightarrow> i64 \<Rightarrow> completion_event_id \<times> delivery_claim_id \<Rightarrow> (foreground_store_error, unit) db_action" where
  "deliver_claim session_id started_at = (\<lambda>(event_id, claim_id).
     act_bind (act_read (\<lambda>d. map dr_delegation_id
       (filter (\<lambda>r. dr_parent_session_id r = session_id_str session_id) (db_delegations d)))) (\<lambda>delegations.
     act_bind (update_completions TurnStorage
        (\<lambda>r. cr_event_id r = completion_event_id_str event_id \<and> cr_delivery_state r = ''pending''
           \<and> cr_delivery_claim_id r = Some (delivery_claim_id_str claim_id) \<and> cr_created_at_ms r \<le> started_at
           \<and> cr_delegation_id r \<in> set delegations)
        (delivered started_at)) (\<lambda>count.
     act_lift (ensure (count = 1)
       (TurnInvalid (''completion delivery claim is no longer owned: '' @ completion_event_id_str event_id))))))"

definition start_with_deliveries ::
  "serde \<Rightarrow> foreground_turn_spec \<Rightarrow> string \<Rightarrow> owner_generation \<Rightarrow> (completion_event_id \<times> delivery_claim_id) list
     \<Rightarrow> u64 \<Rightarrow> (foreground_store_error, foreground_turn_snapshot) db_action" where
  "start_with_deliveries sx spec provider_prompt expected claims started_at_ms =
     act_bind (act_lift (validate_turn_spec spec)) (\<lambda>_.
     act_bind (act_lift (validate_provider_prompt provider_prompt)) (\<lambda>_.
     act_bind (act_lift (turn_to_i64 started_at_ms ''start timestamp'')) (\<lambda>started_at.
     act_bind (transaction
       (act_bind (act_map_err turn_session_error (session_load sx (fs_session_id spec))) (\<lambda>session.
        act_bind (act_lift (ensure_session_generation session expected)) (\<lambda>_.
        act_bind (act_read (\<lambda>d. row_at tn_turn_id (db_turns d) (foreground_turn_id_str (fs_turn_id spec)))) (\<lambda>existing.
        act_bind (act_lift (ensure (existing = None) (TurnAlreadyExists (fs_turn_id spec)))) (\<lambda>_.
        act_bind (select_row db_turns
          (\<lambda>r. tn_session_id r = session_id_str (fs_session_id spec) \<and> tn_state r = ''running'')) (\<lambda>running.
        act_bind (act_lift (ensure (running = None) (TurnSessionBusy (fs_session_id spec)))) (\<lambda>_.
        act_bind (act_lift (turn_to_i64 (owner_generation_get expected) ''owner generation'')) (\<lambda>generation.
        act_bind (insert_turn TurnStorage
          \<lparr>tn_turn_id = foreground_turn_id_str (fs_turn_id spec), tn_session_id = session_id_str (fs_session_id spec),
           tn_owner_generation = generation, tn_prompt = fs_prompt spec, tn_state = ''running'', tn_terminal_json = None,
           tn_started_at_ms = started_at, tn_updated_at_ms = started_at, tn_provider_prompt = provider_prompt\<rparr>) (\<lambda>_.
        act_each (deliver_claim (fs_session_id spec) started_at) claims)))))))))) (\<lambda>_.
     act_return \<lparr>fn_spec = spec, fn_provider_prompt = provider_prompt, fn_owner_generation = expected,
                 fn_state = TurnRunning, fn_started_at_ms = started_at_ms, fn_updated_at_ms = started_at_ms\<rparr>))))"

definition start_turn ::
  "serde \<Rightarrow> foreground_turn_spec \<Rightarrow> string \<Rightarrow> owner_generation \<Rightarrow> u64
     \<Rightarrow> (foreground_store_error, foreground_turn_snapshot) db_action" where
  "start_turn sx spec provider_prompt expected started_at_ms =
     start_with_deliveries sx spec provider_prompt expected [] started_at_ms"

section \<open>Ending a turn\<close>

text \<open>The guards that \<open>complete\<close> and \<open>terminate\<close> share.\<close>

definition open_turn ::
  "foreground_turn_id \<Rightarrow> owner_generation \<Rightarrow> u64 \<Rightarrow> (foreground_store_error, turn_row \<times> session_id) db_action" where
  "open_turn turn_id expected completed_at_ms =
     act_bind (load_turn turn_id) (\<lambda>raw.
     act_bind (act_lift (ensure_turn_generation raw expected)) (\<lambda>_.
     act_bind (act_lift (ensure_turn_running raw)) (\<lambda>_.
     act_bind (act_lift (ensure_turn_timestamp raw completed_at_ms)) (\<lambda>_.
     act_bind (act_lift (turn_id_error (session_id_new (tn_session_id raw)))) (\<lambda>session_id.
     act_return (raw, session_id))))))"

definition close_turn ::
  "serde \<Rightarrow> foreground_turn_id \<Rightarrow> owner_generation \<Rightarrow> turn_row \<Rightarrow> foreground_turn_terminal \<Rightarrow> u64
     \<Rightarrow> (foreground_store_error, unit) db_action" where
  "close_turn sx turn_id expected raw outcome completed_at_ms =
     act_bind (act_lift (map_err TurnStorage (cd_enc (sx_foreground_terminal sx) outcome))) (\<lambda>terminal_json.
     act_bind (act_lift (turn_to_i64 completed_at_ms ''completion timestamp'')) (\<lambda>completed_at.
     act_bind (act_lift (turn_to_i64 (owner_generation_get expected) ''owner generation'')) (\<lambda>generation.
     act_bind (update_turns TurnStorage
        (\<lambda>r. tn_turn_id r = foreground_turn_id_str turn_id \<and> tn_state r = ''running'' \<and> tn_owner_generation r = generation)
        (\<lambda>r. r\<lparr>tn_state := foreground_terminal_status outcome, tn_terminal_json := Some terminal_json,
               tn_updated_at_ms := completed_at\<rparr>)) (\<lambda>updated.
     act_lift (ensure (updated = 1) (TurnNotRunning turn_id (tn_state raw)))))))"

definition complete_turn ::
  "serde \<Rightarrow> i64 \<Rightarrow> foreground_turn_id \<Rightarrow> owner_generation \<Rightarrow> semantic_message list \<Rightarrow> u64
     \<Rightarrow> (foreground_store_error, session_snapshot) db_action" where
  "complete_turn sx now turn_id expected messages completed_at_ms =
     transaction
       (act_bind (open_turn turn_id expected completed_at_ms) (\<lambda>(raw, session_id).
        act_bind (act_map_err turn_session_error (append_turn_in_transaction sx now session_id expected messages)) (\<lambda>snapshot.
        act_bind (close_turn sx turn_id expected raw TurnCompleted completed_at_ms) (\<lambda>_.
        act_return snapshot))))"

definition terminate_turn ::
  "serde \<Rightarrow> foreground_turn_id \<Rightarrow> owner_generation \<Rightarrow> foreground_turn_terminal \<Rightarrow> u64
     \<Rightarrow> (foreground_store_error, foreground_turn_snapshot) db_action" where
  "terminate_turn sx turn_id expected outcome completed_at_ms =
     act_bind (act_lift (ensure (outcome \<noteq> TurnCompleted)
       (TurnInvalid ''completed foreground turns must atomically append session messages''))) (\<lambda>_.
     act_bind (act_lift (validate_turn_terminal outcome)) (\<lambda>_.
     act_bind (transaction
       (act_bind (open_turn turn_id expected completed_at_ms) (\<lambda>(raw, session_id).
        act_bind (act_map_err turn_session_error (session_load sx session_id)) (\<lambda>session.
        act_bind (act_lift (ensure_session_generation session expected)) (\<lambda>_.
        close_turn sx turn_id expected raw outcome completed_at_ms))))) (\<lambda>_.
     read_turn sx turn_id)))"

section \<open>Looking back and reconciling\<close>

definition latest_turn :: "serde \<Rightarrow> session_id \<Rightarrow> (foreground_store_error, foreground_turn_snapshot option) db_action" where
  "latest_turn sx session_id =
     act_bind (act_read (\<lambda>d. map tn_turn_id (take 1 (rev (sort_key (\<lambda>r. (tn_started_at_ms r, tn_turn_id r))
        (filter (\<lambda>r. tn_session_id r = session_id_str session_id) (db_turns d))))))) (\<lambda>ids.
     case ids of
       [] \<Rightarrow> act_return None
     | key # _ \<Rightarrow>
         act_bind (act_lift (turn_id_error (foreground_turn_id_new key))) (\<lambda>turn_id.
         act_bind (read_turn sx turn_id) (\<lambda>snapshot. act_return (Some snapshot))))"

definition reconcile_turn ::
  "string \<Rightarrow> i64 \<Rightarrow> u64 \<Rightarrow> string \<Rightarrow> (foreground_store_error, unit) db_action" where
  "reconcile_turn terminal_json completed_at completed_at_ms key =
     act_bind (act_lift (turn_id_error (foreground_turn_id_new key))) (\<lambda>raw_id.
     act_bind (load_turn raw_id) (\<lambda>raw.
     act_bind (act_lift (ensure_turn_timestamp raw completed_at_ms)) (\<lambda>_.
     act_bind (update_turns TurnStorage
        (\<lambda>r. tn_turn_id r = key \<and> tn_state r = ''running'' \<and> tn_owner_generation r = tn_owner_generation raw)
        (\<lambda>r. r\<lparr>tn_state := ''outcome_unknown'', tn_terminal_json := Some terminal_json,
               tn_updated_at_ms := completed_at\<rparr>)) (\<lambda>updated.
     act_lift (ensure (updated = 1) (TurnNotRunning raw_id (tn_state raw)))))))"

definition read_turn_named :: "serde \<Rightarrow> string \<Rightarrow> (foreground_store_error, foreground_turn_snapshot) db_action" where
  "read_turn_named sx key =
     act_bind (act_lift (turn_id_error (foreground_turn_id_new key))) (\<lambda>turn_id. read_turn sx turn_id)"

definition reconcile_running_turns ::
  "serde \<Rightarrow> string \<Rightarrow> u64 \<Rightarrow> (foreground_store_error, foreground_turn_snapshot list) db_action" where
  "reconcile_running_turns sx reason completed_at_ms =
     act_bind (act_lift (validate_turn_reason reason ''reconciliation reason'')) (\<lambda>_.
     act_bind (act_lift (turn_to_i64 completed_at_ms ''reconciliation timestamp'')) (\<lambda>completed_at.
     act_bind (transaction
       (act_bind (act_read (\<lambda>d. map tn_turn_id (sort_key (\<lambda>r. (tn_started_at_ms r, tn_turn_id r))
          (filter (\<lambda>r. tn_state r = ''running'') (db_turns d))))) (\<lambda>ids.
        act_bind (act_lift (map_err TurnStorage
          (cd_enc (sx_foreground_terminal sx) (TurnOutcomeUnknown reason)))) (\<lambda>terminal_json.
        act_bind (act_each (reconcile_turn terminal_json completed_at completed_at_ms) ids) (\<lambda>_.
        act_return ids))))) (\<lambda>ids.
     act_collect (read_turn_named sx) ids)))"

definition sqlite_foreground_store :: "serde \<Rightarrow> i64 \<Rightarrow> database foreground_turn_store" where
  "sqlite_foreground_store sx now =
     \<lparr>fo_start = start_turn sx, fo_start_with_deliveries = start_with_deliveries sx,
      fo_complete = complete_turn sx now, fo_terminate = terminate_turn sx, fo_latest = latest_turn sx,
      fo_reconcile_running = reconcile_running_turns sx\<rparr>"

section \<open>The abstract state\<close>

text \<open>
  The turns a client can read, and the invariant: ids are unique, every row can be read, its session
  exists, and a session has at most one running turn.
\<close>

definition turn_at :: "database \<Rightarrow> foreground_turn_id \<Rightarrow> turn_row option" where
  "turn_at d tid = row_at tn_turn_id (db_turns d) (foreground_turn_id_str tid)"

definition turns_of :: "serde \<Rightarrow> database \<Rightarrow> foreground_turn_id \<Rightarrow> foreground_turn_snapshot option" where
  "turns_of sx d tid = (case turn_at d tid of None \<Rightarrow> None | Some raw \<Rightarrow>
     (case turn_snapshot sx raw of Inl _ \<Rightarrow> None | Inr s \<Rightarrow> Some s))"

definition turn_row_ok :: "serde \<Rightarrow> turn_row \<Rightarrow> bool" where
  "turn_row_ok sx r \<longleftrightarrow> turn_check r \<and> tn_owner_generation r \<le> i64_max \<and> tn_updated_at_ms r \<le> i64_max
     \<and> is_ok (turn_snapshot sx r)"

definition turns_inv :: "serde \<Rightarrow> database \<Rightarrow> bool" where
  "turns_inv sx d \<longleftrightarrow> distinct (map tn_turn_id (db_turns d))
     \<and> (\<forall>r \<in> set (db_turns d). turn_row_ok sx r \<and> has_session d (tn_session_id r))
     \<and> (\<forall>r \<in> set (db_turns d). \<forall>q \<in> set (db_turns d).
          tn_state r = ''running'' \<and> tn_state q = ''running'' \<and> tn_session_id r = tn_session_id q \<longrightarrow> r = q)"

definition turn_running :: "foreground_turn_snapshot \<Rightarrow> bool" where
  "turn_running s \<longleftrightarrow> fn_state s = TurnRunning"

definition turn_session :: "foreground_turn_snapshot \<Rightarrow> session_id" where
  "turn_session s = fs_session_id (fn_spec s)"

lemma turn_generation_Inr:
  "i \<le> i64_max \<Longrightarrow> turn_generation i = Inr g \<longleftrightarrow> i = uint (owner_generation_get g) \<and> 0 < i"
  by (cases g) (auto simp: turn_generation_def turn_id_error_def turn_u64_from_i64_def and_then_eq_Inr u64_of_i64_eq_Some uint_pos)

lemma turn_u64_Inr: "i \<le> i64_max \<Longrightarrow> turn_u64_from_i64 i name = Inr w \<longleftrightarrow> i = uint w"
  by (auto simp: turn_u64_from_i64_def u64_of_i64_eq_Some)

text \<open>What a readable row and its snapshot have in common.\<close>

definition row_shows :: "serde \<Rightarrow> turn_row \<Rightarrow> foreground_turn_snapshot \<Rightarrow> bool" where
  "row_shows sx raw s \<longleftrightarrow>
     trim (tn_provider_prompt raw) \<noteq> [] \<and> unpadded (tn_turn_id raw) \<and> unpadded (tn_session_id raw)
     \<and> fn_spec s = \<lparr>fs_turn_id = ForegroundTurnId (tn_turn_id raw), fs_session_id = SessionId (tn_session_id raw),
                    fs_prompt = tn_prompt raw\<rparr>
     \<and> fn_provider_prompt s = tn_provider_prompt raw
     \<and> tn_owner_generation raw = uint (owner_generation_get (fn_owner_generation s)) \<and> 0 < tn_owner_generation raw
     \<and> turn_state_of_row sx (ForegroundTurnId (tn_turn_id raw)) raw = Inr (fn_state s)
     \<and> tn_started_at_ms raw = uint (fn_started_at_ms s) \<and> tn_updated_at_ms raw = uint (fn_updated_at_ms s)"

lemma turn_snapshot_Inr:
  assumes "turn_check raw" "tn_owner_generation raw \<le> i64_max" "tn_updated_at_ms raw \<le> i64_max"
  shows "turn_snapshot sx raw = Inr s \<longleftrightarrow> row_shows sx raw s"
proof -
  have "tn_started_at_ms raw \<le> i64_max" using assms by (simp add: turn_check_def)
  then show ?thesis
    using assms(2,3)
    by (cases s)
       (auto simp: turn_snapshot_def row_shows_def and_then_eq_Inr validate_provider_prompt_def turn_id_error_def
          turn_generation_Inr turn_u64_Inr)
qed

lemma turn_of_row:
  assumes "turns_inv sx d" "turns_of sx d tid = Some s"
  obtains raw where "turn_at d tid = Some raw" "raw \<in> set (db_turns d)" "tn_turn_id raw = foreground_turn_id_str tid"
    "row_shows sx raw s" "turn_row_ok sx raw" "has_session d (tn_session_id raw)"
proof -
  obtain raw where raw: "turn_at d tid = Some raw" "turn_snapshot sx raw = Inr s"
    using assms(2) by (auto simp: turns_of_def split: option.splits sum.splits)
  then have mem: "raw \<in> set (db_turns d)" "tn_turn_id raw = foreground_turn_id_str tid"
    by (auto simp: turn_at_def dest: row_at_Some)
  then have ok: "turn_row_ok sx raw" "has_session d (tn_session_id raw)" using assms(1) by (auto simp: turns_inv_def)
  then have "row_shows sx raw s" using raw(2) turn_snapshot_Inr by (simp add: turn_row_ok_def)
  then show ?thesis using that raw mem ok by blast
qed

lemma turns_of_None: "turns_inv sx d \<Longrightarrow> turns_of sx d tid = None \<longleftrightarrow> turn_at d tid = None"
  by (fastforce simp: turns_of_def turns_inv_def turn_row_ok_def is_ok_iff turn_at_def dest!: row_at_Some split: option.splits sum.splits)

lemma row_running: "row_shows sx raw s \<Longrightarrow> tn_state raw = ''running'' \<longleftrightarrow> turn_running s"
  by (auto simp: row_shows_def turn_state_of_row_def turn_running_def and_then_eq_Inr split: if_splits)

text \<open>Only the tables of a store matter to its invariant and its abstract state.\<close>

lemma sessions_frame:
  assumes "db_sessions d' = db_sessions d" "db_messages d' = db_messages d"
  shows "sessions_of sx d' = sessions_of sx d" "sessions_inv sx d' = sessions_inv sx d" "has_session d' = has_session d"
proof -
  have load: "load_snapshot sx k d' = load_snapshot sx k d" for k
    by (rule load_cong) (simp_all add: find_session_def message_rows_def assms)
  show "has_session d' = has_session d" by (rule ext) (simp add: has_session_def assms)
  then show "sessions_of sx d' = sessions_of sx d" "sessions_inv sx d' = sessions_inv sx d"
    by (simp_all add: sessions_of_def sessions_inv_def session_row_ok_def load message_rows_def assms fun_eq_iff)
qed

lemma turns_frame:
  assumes "db_turns d' = db_turns d"
  shows "turns_of sx d' = turns_of sx d"
    "turns_inv sx d \<Longrightarrow> (\<And>k. has_session d k \<Longrightarrow> has_session d' k) \<Longrightarrow> turns_inv sx d'"
  by (simp_all add: turns_of_def turn_at_def turns_inv_def assms fun_eq_iff)

section \<open>Delivery of claimed completions\<close>

text \<open>The claim is the current one of a pending completion that is due to the session.\<close>

definition claim_owned :: "database \<Rightarrow> session_id \<Rightarrow> i64 \<Rightarrow> completion_event_id \<times> delivery_claim_id \<Rightarrow> bool" where
  "claim_owned d sid at = (\<lambda>(event, claim). case outbox d event of None \<Rightarrow> False | Some r \<Rightarrow>
     cr_delivery_state r = ''pending'' \<and> cr_delivery_claim_id r = Some (delivery_claim_id_str claim)
     \<and> cr_created_at_ms r \<le> at
     \<and> (\<exists>g \<in> set (db_delegations d). dr_delegation_id g = cr_delegation_id r \<and> dr_parent_session_id g = session_id_str sid))"

definition deliver_in :: "i64 \<Rightarrow> string \<Rightarrow> database \<Rightarrow> database" where
  "deliver_in at event d = d\<lparr>db_completions := change_row cr_event_id event (delivered at) (db_completions d)\<rparr>"

lemma deliver_claim_eq:
  assumes "outbox_inv d"
  shows "deliver_claim sid at (event, claim) d =
     (if claim_owned d sid at (event, claim) then (Inr (), deliver_in at (completion_event_id_str event) d)
      else (Inl (TurnInvalid (''completion delivery claim is no longer owned: '' @ completion_event_id_str event)), d))"
proof -
  let ?m = "\<lambda>r. cr_event_id r = completion_event_id_str event \<and> cr_delivery_state r = ''pending''
           \<and> cr_delivery_claim_id r = Some (delivery_claim_id_str claim) \<and> cr_created_at_ms r \<le> at
           \<and> cr_delegation_id r \<in> dr_delegation_id ` {g \<in> set (db_delegations d). dr_parent_session_id g = session_id_str sid}"
  have "distinct (map cr_event_id (db_completions d))" using assms by (simp add: outbox_inv_def)
  note update = keyed_update [OF this, of ?m "completion_event_id_str event" completion_check "delivered at"]
  have "completion_check (delivered at r)" if "outbox d event = Some r" "cr_delivery_state r = ''pending''" for r
  proof -
    have "completion_check r" using that(1) assms by (auto simp: outbox_def outbox_inv_def dest: row_at_Some)
    then show ?thesis using that(2) by (auto simp: completion_check_def delivered_def)
  qed
  moreover have "?m r \<longleftrightarrow> claim_owned d sid at (event, claim)" if "outbox d event = Some r" for r
    using that row_at_Some [of cr_event_id "db_completions d" "completion_event_id_str event" r]
    by (auto simp: claim_owned_def outbox_def image_iff)
  moreover have "\<not> claim_owned d sid at (event, claim)" if "outbox d event = None" using that by (simp add: claim_owned_def)
  ultimately show ?thesis
    using update
    by (auto simp: deliver_claim_def act_bind_def act_read_def act_lift_def update_completions_def run_update_def deliver_in_def
        outbox_def split: option.splits if_splits)
qed

lemma deliver_in_frame [simp]:
  "db_sessions (deliver_in at e d) = db_sessions d" "db_messages (deliver_in at e d) = db_messages d"
  "db_turns (deliver_in at e d) = db_turns d" "db_delegations (deliver_in at e d) = db_delegations d"
  "db_effects (deliver_in at e d) = db_effects d" "db_bindings (deliver_in at e d) = db_bindings d"
  by (simp_all add: deliver_in_def)

lemma deliver_in_outbox:
  "outbox (deliver_in at (completion_event_id_str event) d) e =
     (if e = event then map_option (delivered at) (outbox d e) else outbox d e)"
  by (auto simp: outbox_def deliver_in_def row_at_change completion_event_id.expand)

lemma deliver_in_inv:
  assumes "outbox_inv d" "claim_owned d sid at (event, claim)"
  shows "outbox_inv (deliver_in at (completion_event_id_str event) d)"
proof -
  obtain r where r: "outbox d event = Some r" "cr_delivery_state r = ''pending''"
    using assms(2) by (auto simp: claim_owned_def split: option.splits)
  have dist: "distinct (map cr_event_id (db_completions d))" using assms(1) by (simp add: outbox_inv_def)
  have "row_at cr_event_id (db_completions d) (completion_event_id_str event) = Some r" using r(1) by (simp add: outbox_def)
  from set_change_row [OF dist this, of "delivered at"]
  have "set (db_completions (deliver_in at (completion_event_id_str event) d)) = insert (delivered at r) (set (db_completions d) - {r})"
    by (simp add: deliver_in_def)
  moreover have "completion_check (delivered at r)"
    using delivered_check r(2) outbox_row [OF r(1)] assms(1) by (simp add: outbox_inv_def)
  ultimately show ?thesis
    using assms(1) dist by (auto simp: outbox_inv_def) (simp add: deliver_in_def keys_change)
qed

definition claims_owned :: "database \<Rightarrow> session_id \<Rightarrow> i64 \<Rightarrow> (completion_event_id \<times> delivery_claim_id) list \<Rightarrow> bool" where
  "claims_owned d sid at claims \<longleftrightarrow> distinct (map fst claims) \<and> list_all (claim_owned d sid at) claims"

lemma claim_owned_after:
  "claim_owned (deliver_in at (completion_event_id_str event) d) sid at c \<longleftrightarrow> claim_owned d sid at c \<and> fst c \<noteq> event"
  by (cases c) (auto simp: claim_owned_def deliver_in_outbox delivered_def split: option.splits)

lemma claims_owned_Cons:
  "claims_owned d sid at (c # cs) \<longleftrightarrow> claim_owned d sid at c
     \<and> claims_owned (deliver_in at (completion_event_id_str (fst c)) d) sid at cs"
  by (auto simp: claims_owned_def claim_owned_after list_all_iff image_iff)

fun deliver_all :: "i64 \<Rightarrow> (completion_event_id \<times> delivery_claim_id) list \<Rightarrow> database \<Rightarrow> database" where
  "deliver_all at [] d = d"
| "deliver_all at (c # cs) d = deliver_all at cs (deliver_in at (completion_event_id_str (fst c)) d)"

lemma each_deliver:
  assumes "outbox_inv d"
  shows "if claims_owned d sid at claims
     then act_each (deliver_claim sid at) claims d = (Inr (), deliver_all at claims d) \<and> outbox_inv (deliver_all at claims d)
     else \<exists>e d'. act_each (deliver_claim sid at) claims d = (Inl e, d')"
  using assms
proof (induction claims arbitrary: d)
  case Nil
  then show ?case by (simp add: claims_owned_def act_return_def)
next
  case (Cons c cs)
  obtain event claim where c: "c = (event, claim)" by (cases c)
  note one = deliver_claim_eq [OF Cons.prems, of sid at event claim]
  show ?case
  proof (cases "claim_owned d sid at c")
    case True
    have "outbox_inv (deliver_in at (completion_event_id_str event) d)"
      by (rule deliver_in_inv [OF Cons.prems]) (use True c in simp)
    from Cons.IH [OF this] show ?thesis
      using True one c by (simp add: claims_owned_Cons act_bind_def)
  next
    case False
    then show ?thesis using one c by (simp add: claims_owned_Cons act_bind_def)
  qed
qed

lemma deliver_all_frame [simp]:
  "db_sessions (deliver_all at cs d) = db_sessions d" "db_messages (deliver_all at cs d) = db_messages d"
  "db_turns (deliver_all at cs d) = db_turns d" "db_delegations (deliver_all at cs d) = db_delegations d"
  "db_effects (deliver_all at cs d) = db_effects d" "db_bindings (deliver_all at cs d) = db_bindings d"
  by (induction cs arbitrary: d) simp_all

lemma deliver_all_outbox:
  "distinct (map fst cs) \<Longrightarrow>
   outbox (deliver_all at cs d) e = (if e \<in> fst ` set cs then map_option (delivered at) (outbox d e) else outbox d e)"
  by (induction cs arbitrary: d) (auto simp: deliver_in_outbox)

section \<open>Starting refines the abstract state\<close>

definition started_turn :: "foreground_turn_spec \<Rightarrow> string \<Rightarrow> owner_generation \<Rightarrow> u64 \<Rightarrow> foreground_turn_snapshot" where
  "started_turn spec provider_prompt expected at =
     \<lparr>fn_spec = spec, fn_provider_prompt = provider_prompt, fn_owner_generation = expected,
      fn_state = TurnRunning, fn_started_at_ms = at, fn_updated_at_ms = at\<rparr>"

text \<open>The guards of the code over the abstract state, the \<open>CHECK\<close> on the prompt included.\<close>

definition startable ::
  "serde \<Rightarrow> database \<Rightarrow> foreground_turn_spec \<Rightarrow> string \<Rightarrow> owner_generation \<Rightarrow> u64 \<Rightarrow> bool" where
  "startable sx d spec provider_prompt expected at \<longleftrightarrow>
     trim (fs_prompt spec) \<noteq> [] \<and> sql_nonempty (fs_prompt spec) \<and> trim provider_prompt \<noteq> [] \<and> uint at \<le> i64_max
     \<and> (\<exists>s. sessions_of sx d (fs_session_id spec) = Some s \<and> ss_owner_generation s = expected)
     \<and> turns_of sx d (fs_turn_id spec) = None
     \<and> (\<forall>tid t. turns_of sx d tid = Some t \<and> turn_session t = fs_session_id spec \<longrightarrow> \<not> turn_running t)"

text \<open>A specification whose ids their constructors built.\<close>

definition spec_ids :: "foreground_turn_spec \<Rightarrow> bool" where
  "spec_ids spec \<longleftrightarrow> unpadded (foreground_turn_id_str (fs_turn_id spec)) \<and> unpadded (session_id_str (fs_session_id spec))"

definition started_row :: "foreground_turn_spec \<Rightarrow> string \<Rightarrow> owner_generation \<Rightarrow> u64 \<Rightarrow> turn_row" where
  "started_row spec provider_prompt expected at =
     \<lparr>tn_turn_id = foreground_turn_id_str (fs_turn_id spec), tn_session_id = session_id_str (fs_session_id spec),
      tn_owner_generation = uint (owner_generation_get expected), tn_prompt = fs_prompt spec, tn_state = ''running'',
      tn_terminal_json = None, tn_started_at_ms = uint at, tn_updated_at_ms = uint at, tn_provider_prompt = provider_prompt\<rparr>"

lemma running_row_iff:
  assumes "turns_inv sx d"
  shows "(\<forall>r \<in> set (db_turns d). tn_session_id r = session_id_str sid \<longrightarrow> tn_state r \<noteq> ''running'')
     \<longleftrightarrow> (\<forall>tid t. turns_of sx d tid = Some t \<and> turn_session t = sid \<longrightarrow> \<not> turn_running t)"
proof
  assume rows: "\<forall>r \<in> set (db_turns d). tn_session_id r = session_id_str sid \<longrightarrow> tn_state r \<noteq> ''running''"
  show "\<forall>tid t. turns_of sx d tid = Some t \<and> turn_session t = sid \<longrightarrow> \<not> turn_running t"
  proof (intro allI impI, elim conjE)
    fix tid t assume t: "turns_of sx d tid = Some t" "turn_session t = sid"
    obtain raw where raw: "raw \<in> set (db_turns d)" "row_shows sx raw t" using turn_of_row [OF assms t(1)] by blast
    then have "tn_session_id raw = session_id_str sid" using t(2) by (auto simp: row_shows_def turn_session_def)
    then show "\<not> turn_running t" using rows raw row_running by blast
  qed
next
  assume turns: "\<forall>tid t. turns_of sx d tid = Some t \<and> turn_session t = sid \<longrightarrow> \<not> turn_running t"
  show "\<forall>r \<in> set (db_turns d). tn_session_id r = session_id_str sid \<longrightarrow> tn_state r \<noteq> ''running''"
  proof (intro ballI impI)
    fix r assume r: "r \<in> set (db_turns d)" "tn_session_id r = session_id_str sid"
    have ok: "turn_row_ok sx r" using r(1) assms by (simp add: turns_inv_def)
    then obtain t where t: "turn_snapshot sx r = Inr t" by (auto simp: turn_row_ok_def is_ok_iff)
    then have shows_t: "row_shows sx r t" using ok turn_snapshot_Inr by (simp add: turn_row_ok_def)
    have "turn_at d (ForegroundTurnId (tn_turn_id r)) = Some r"
      using r(1) assms by (simp add: turn_at_def turns_inv_def row_at_eq)
    then have "turns_of sx d (ForegroundTurnId (tn_turn_id r)) = Some t" using t by (simp add: turns_of_def)
    moreover have "turn_session t = sid" using shows_t r(2) by (simp add: row_shows_def turn_session_def)
    ultimately show "tn_state r \<noteq> ''running''" using turns row_running [OF shows_t] by blast
  qed
qed

lemma started_row_shows:
  assumes "spec_ids spec" "trim provider_prompt \<noteq> []" "0 < uint (owner_generation_get expected)"
  shows "row_shows sx (started_row spec provider_prompt expected at) (started_turn spec provider_prompt expected at)"
  using assms by (cases spec) (simp add: row_shows_def started_row_def started_turn_def spec_ids_def turn_state_of_row_def)

definition started_in :: "turn_row \<Rightarrow> i64 \<Rightarrow> (completion_event_id \<times> delivery_claim_id) list \<Rightarrow> database \<Rightarrow> database" where
  "started_in row at claims d = deliver_all at claims (d\<lparr>db_turns := db_turns d @ [row]\<rparr>)"

lemma add_turn:
  assumes inv: "turns_inv sx d" and st: "startable sx d spec provider_prompt expected at" and ids: "spec_ids spec"
    and g: "0 < uint (owner_generation_get expected)" "uint (owner_generation_get expected) \<le> i64_max"
    and session: "has_session d (session_id_str (fs_session_id spec))"
  defines "row \<equiv> started_row spec provider_prompt expected at"
  defines "d' \<equiv> d\<lparr>db_turns := db_turns d @ [row]\<rparr>"
  shows "insert_turn err row d = (Inr (), d')" "turns_inv sx d'"
    "turns_of sx d' = (turns_of sx d)(fs_turn_id spec \<mapsto> started_turn spec provider_prompt expected at)"
proof -
  let ?tid = "foreground_turn_id_str (fs_turn_id spec)" and ?t = "started_turn spec provider_prompt expected at"
  have at: "uint at \<le> i64_max" and prompts: "trim provider_prompt \<noteq> []" "sql_nonempty (fs_prompt spec)"
    using st by (simp_all add: startable_def)
  have fresh: "?tid \<notin> tn_turn_id ` set (db_turns d)"
    using st turns_of_None [OF inv, of "fs_turn_id spec"] by (simp add: startable_def turn_at_def row_at_None)
  have idle: "\<forall>r \<in> set (db_turns d). tn_session_id r = session_id_str (fs_session_id spec) \<longrightarrow> tn_state r \<noteq> ''running''"
    unfolding running_row_iff [OF inv] using st unfolding startable_def by blast
  have check: "turn_check row" using g at prompts by (simp add: turn_check_def row_def started_row_def)
  then show "insert_turn err row d = (Inr (), d')"
    using fresh idle session
    by (auto simp: insert_turn_def run_insert_def sql_insert_def d'_def row_def started_row_def)
  have shows_t: "row_shows sx row ?t" using started_row_shows ids prompts(1) g(1) by (simp add: row_def)
  then have snap: "turn_snapshot sx row = Inr ?t"
    using check g at by (subst turn_snapshot_Inr) (simp_all add: row_def started_row_def)
  have id_row: "tn_turn_id row = ?tid" "tn_session_id row = session_id_str (fs_session_id spec)" "tn_owner_generation row \<le> i64_max"
    "tn_updated_at_ms row \<le> i64_max"
    using g at by (simp_all add: row_def started_row_def)
  have "has_session d' = has_session d" by (rule sessions_frame) (simp_all add: d'_def)
  moreover have "turn_row_ok sx row" using check snap id_row by (simp add: turn_row_ok_def)
  ultimately show "turns_inv sx d'"
    using inv fresh idle session id_row by (auto simp: turns_inv_def d'_def image_iff)
  have "row_at tn_turn_id (db_turns d) ?tid = None" using fresh by (simp add: row_at_None)
  then show "turns_of sx d' = (turns_of sx d)(fs_turn_id spec \<mapsto> ?t)"
    using snap id_row(1)
    by (auto simp: fun_eq_iff turns_of_def turn_at_def d'_def row_at_append foreground_turn_id.expand split: option.splits)
qed

lemma claims_owned_frame:
  assumes "db_completions d' = db_completions d" "db_delegations d' = db_delegations d"
  shows "claims_owned d' sid at cs = claims_owned d sid at cs" "outbox_inv d' = outbox_inv d" "outbox d' = outbox d"
proof -
  show out: "outbox d' = outbox d" by (rule ext) (simp add: outbox_def assms)
  have "claim_owned d' sid at c = claim_owned d sid at c" for c by (cases c) (simp add: claim_owned_def out assms split: option.split)
  then show "claims_owned d' sid at cs = claims_owned d sid at cs" "outbox_inv d' = outbox_inv d"
    by (simp_all add: claims_owned_def outbox_inv_def assms list_all_iff)
qed

text \<open>The three stores that share the database.\<close>

definition stores_inv :: "serde \<Rightarrow> database \<Rightarrow> bool" where
  "stores_inv sx d \<longleftrightarrow> sessions_inv sx d \<and> turns_inv sx d \<and> outbox_inv d"

lemma session_generation_fits:
  assumes "sessions_inv sx d" "sessions_of sx d sid = Some s"
  shows "0 < uint (owner_generation_get (ss_owner_generation s))" "uint (owner_generation_get (ss_owner_generation s)) \<le> i64_max"
    "has_session d (session_id_str sid)"
  using session_of_row [OF assms] by (auto simp: find_session_has)

lemma start_ok:
  assumes inv: "stores_inv sx d" and ids: "spec_ids spec" and st: "startable sx d spec provider_prompt expected at"
    and claims: "claims_owned d (fs_session_id spec) (uint at) claims"
  defines "d' \<equiv> started_in (started_row spec provider_prompt expected at) (uint at) claims d"
  shows "start_with_deliveries sx spec provider_prompt expected claims at d = (Inr (started_turn spec provider_prompt expected at), d')"
    "stores_inv sx d'" "sessions_of sx d' = sessions_of sx d"
    "turns_of sx d' = (turns_of sx d)(fs_turn_id spec \<mapsto> started_turn spec provider_prompt expected at)"
    "outbox d' e = (if e \<in> fst ` set claims then map_option (delivered (uint at)) (outbox d e) else outbox d e)"
proof -
  let ?row = "started_row spec provider_prompt expected at"
  let ?d = "d\<lparr>db_turns := db_turns d @ [?row]\<rparr>"
  have invs: "sessions_inv sx d" "turns_inv sx d" "outbox_inv d" using inv by (simp_all add: stores_inv_def)
  obtain s where s: "sessions_of sx d (fs_session_id spec) = Some s" "ss_owner_generation s = expected"
    using st by (auto simp: startable_def)
  note g = session_generation_fits [OF invs(1) s(1), unfolded s(2)]
  note add = add_turn [OF invs(2) st ids g]
  have load: "load_snapshot sx (fs_session_id spec) d = Inr s" using s by (simp add: sessions_of_def split: sum.splits)
  have fresh: "row_at tn_turn_id (db_turns d) (foreground_turn_id_str (fs_turn_id spec)) = None"
    using st turns_of_None [OF invs(2), of "fs_turn_id spec"] by (simp add: startable_def turn_at_def)
  have "\<forall>r \<in> set (db_turns d). tn_session_id r = session_id_str (fs_session_id spec) \<longrightarrow> tn_state r \<noteq> ''running''"
    unfolding running_row_iff [OF invs(2)] using st unfolding startable_def by blast
  then have idle: "find (\<lambda>r. tn_session_id r = session_id_str (fs_session_id spec) \<and> tn_state r = ''running'') (db_turns d) = None"
    by (auto simp: find_None_iff)
  have out: "outbox_inv ?d" and owned: "claims_owned ?d (fs_session_id spec) (uint at) claims"
    using claims_owned_frame [of ?d d] invs(3) claims by simp_all
  then have each: "act_each (deliver_claim (fs_session_id spec) (uint at)) claims ?d = (Inr (), d')" and out': "outbox_inv d'"
    using each_deliver [OF out, of "fs_session_id spec" "uint at" claims] by (simp_all add: d'_def started_in_def)
  have at: "i64_of_u64 at = Some (uint at)" "i64_of_u64 (owner_generation_get expected) = Some (uint (owner_generation_get expected))"
    using st g by (simp_all add: i64_of_u64_def startable_def)
  have row: "\<lparr>tn_turn_id = foreground_turn_id_str (fs_turn_id spec), tn_session_id = session_id_str (fs_session_id spec),
      tn_owner_generation = uint (owner_generation_get expected), tn_prompt = fs_prompt spec, tn_state = ''running'',
      tn_terminal_json = None, tn_started_at_ms = uint at, tn_updated_at_ms = uint at, tn_provider_prompt = provider_prompt\<rparr> = ?row"
    by (simp add: started_row_def)
  show "start_with_deliveries sx spec provider_prompt expected claims at d = (Inr (started_turn spec provider_prompt expected at), d')"
    using st s
    by (simp add: start_with_deliveries_def act_bind_def act_lift_def act_read_def act_return_def act_map_err_def act_try_def
        transaction_def select_row_def session_load_def validate_turn_spec_def validate_provider_prompt_def turn_to_i64_def
        ensure_session_generation_def load fresh idle at row add(1) each startable_def started_turn_def)
  have frame: "sessions_of sx d' = sessions_of sx d" "sessions_inv sx d' = sessions_inv sx d" "has_session d' = has_session d"
    by (rule sessions_frame; simp add: d'_def started_in_def)+
  show "sessions_of sx d' = sessions_of sx d" by (rule frame)
  have turns: "db_turns d' = db_turns ?d" by (simp add: d'_def started_in_def)
  have "turns_inv sx d'" using turns_frame(2) [OF turns add(2)] frame(3) sessions_frame(3) [of ?d d] by simp
  then show "stores_inv sx d'" using invs frame out' by (simp add: stores_inv_def)
  show "turns_of sx d' = (turns_of sx d)(fs_turn_id spec \<mapsto> started_turn spec provider_prompt expected at)"
    using turns_frame(1) [OF turns, of sx] add(3) by simp
  have "distinct (map fst claims)" using claims by (simp add: claims_owned_def)
  then show "outbox d' e = (if e \<in> fst ` set claims then map_option (delivered (uint at)) (outbox d e) else outbox d e)"
    using claims_owned_frame(3) [of ?d d] by (simp add: d'_def started_in_def deliver_all_outbox)
qed

lemma start_err:
  assumes inv: "stores_inv sx d" and ids: "spec_ids spec"
    and bad: "\<not> (startable sx d spec provider_prompt expected at \<and> claims_owned d (fs_session_id spec) (uint at) claims)"
  shows "\<exists>e. start_with_deliveries sx spec provider_prompt expected claims at d = (Inl e, d)"
proof -
  have invs: "sessions_inv sx d" "turns_inv sx d" "outbox_inv d" using inv by (simp_all add: stores_inv_def)
  let ?row = "started_row spec provider_prompt expected at"
  let ?d = "d\<lparr>db_turns := db_turns d @ [?row]\<rparr>"
  have good: "startable sx d spec provider_prompt expected at \<and> claims_owned d (fs_session_id spec) (uint at) claims"
    if started: "start_with_deliveries sx spec provider_prompt expected claims at d = (Inr r, d')" for r d'
  proof -
    obtain i j s d1 where run: "trim (fs_prompt spec) \<noteq> []" "trim provider_prompt \<noteq> []"
      "i64_of_u64 at = Some i" "load_snapshot sx (fs_session_id spec) d = Inr s" "ss_owner_generation s = expected"
      "row_at tn_turn_id (db_turns d) (foreground_turn_id_str (fs_turn_id spec)) = None"
      "find (\<lambda>r. tn_session_id r = session_id_str (fs_session_id spec) \<and> tn_state r = ''running'') (db_turns d) = None"
      "i64_of_u64 (owner_generation_get expected) = Some j"
      and ins: "insert_turn TurnStorage
          \<lparr>tn_turn_id = foreground_turn_id_str (fs_turn_id spec), tn_session_id = session_id_str (fs_session_id spec),
           tn_owner_generation = j, tn_prompt = fs_prompt spec, tn_state = ''running'', tn_terminal_json = None,
           tn_started_at_ms = i, tn_updated_at_ms = i, tn_provider_prompt = provider_prompt\<rparr> d = (Inr (), d1)"
        "act_each (deliver_claim (fs_session_id spec) i) claims d1 = (Inr (), d')"
      using started
      by (auto simp: start_with_deliveries_def act_bind_ok act_lift_def act_read_def act_return_def act_map_err_def act_try_def
        transaction_ok select_row_def session_load_def validate_turn_spec_def validate_provider_prompt_def turn_to_i64_def
        ensure_session_generation_def split: prod.splits)
    have ij: "i = uint at" "uint at \<le> i64_max" "j = uint (owner_generation_get expected)"
      using run by (auto simp: i64_of_u64_eq_Some)
    have s: "sessions_of sx d (fs_session_id spec) = Some s" using run(4) by (simp add: sessions_of_def)
    have "turn_check (started_row spec provider_prompt expected at)"
      using ins(1) by (auto simp: insert_turn_def run_insert_def sql_insert_def ij started_row_def split: if_splits sum.splits)
    then have nonempty: "sql_nonempty (fs_prompt spec)" by (simp add: turn_check_def started_row_def)
    have "\<forall>r \<in> set (db_turns d). tn_session_id r = session_id_str (fs_session_id spec) \<longrightarrow> tn_state r \<noteq> ''running''"
      using run(7) by (auto simp: find_None_iff)
    then have idle: "\<forall>tid t. turns_of sx d tid = Some t \<and> turn_session t = fs_session_id spec \<longrightarrow> \<not> turn_running t"
      unfolding running_row_iff [OF invs(2)] .
    have none: "turns_of sx d (fs_turn_id spec) = None" using run(6) by (simp add: turns_of_def turn_at_def)
    have st: "startable sx d spec provider_prompt expected at"
      unfolding startable_def using run(1,2,5) nonempty ij(2) s none idle by blast
    note g = session_generation_fits [OF invs(1) s, unfolded run(5)]
    note add = add_turn [OF invs(2) st ids g]
    have "act_each (deliver_claim (fs_session_id spec) (uint at)) claims ?d = (Inr (), d')"
      using ins add(1) [of TurnStorage] by (simp add: ij started_row_def)
    then have "claims_owned ?d (fs_session_id spec) (uint at) claims"
      using each_deliver [of ?d "fs_session_id spec" "uint at" claims] claims_owned_frame(2) [of ?d d] invs(3)
      by (auto split: if_splits)
    then show ?thesis using st claims_owned_frame(1) [of ?d d] by simp
  qed
  have same: "d' = d" if "start_with_deliveries sx spec provider_prompt expected claims at d = (Inl e, d')" for e d'
    using that
    by (auto simp: start_with_deliveries_def act_bind_def act_lift_def act_return_def transaction_def
        split: sum.splits prod.splits)
  show ?thesis
  proof (cases "start_with_deliveries sx spec provider_prompt expected claims at d")
    case (Pair r d')
    then show ?thesis using good same bad by (cases r) blast+
  qed
qed

section \<open>Ending a turn refines the abstract state\<close>

definition closable :: "foreground_turn_snapshot option \<Rightarrow> owner_generation \<Rightarrow> u64 \<Rightarrow> bool" where
  "closable found expected at \<longleftrightarrow> (case found of None \<Rightarrow> False | Some s \<Rightarrow>
     fn_owner_generation s = expected \<and> turn_running s \<and> fn_updated_at_ms s \<le> at \<and> uint at \<le> i64_max)"

definition closed :: "foreground_turn_terminal \<Rightarrow> u64 \<Rightarrow> foreground_turn_snapshot \<Rightarrow> foreground_turn_snapshot" where
  "closed outcome at s = s\<lparr>fn_state := TurnTerminal outcome at, fn_updated_at_ms := at\<rparr>"

definition closed_row :: "foreground_turn_terminal \<Rightarrow> string \<Rightarrow> i64 \<Rightarrow> turn_row \<Rightarrow> turn_row" where
  "closed_row outcome terminal_json at r =
     r\<lparr>tn_state := foreground_terminal_status outcome, tn_terminal_json := Some terminal_json, tn_updated_at_ms := at\<rparr>"

definition close_in :: "serde \<Rightarrow> foreground_turn_id \<Rightarrow> foreground_turn_terminal \<Rightarrow> u64 \<Rightarrow> database \<Rightarrow> database" where
  "close_in sx tid outcome at d =
     d\<lparr>db_turns := change_row tn_turn_id (foreground_turn_id_str tid)
          (closed_row outcome (projr (cd_enc (sx_foreground_terminal sx) outcome)) (uint at)) (db_turns d)\<rparr>"

lemma closed_row_simps [simp]:
  "tn_turn_id (closed_row outcome j at r) = tn_turn_id r" "tn_session_id (closed_row outcome j at r) = tn_session_id r"
  "tn_owner_generation (closed_row outcome j at r) = tn_owner_generation r"
  "tn_updated_at_ms (closed_row outcome j at r) = at" "tn_state (closed_row outcome j at r) = foreground_terminal_status outcome"
  by (simp_all add: closed_row_def)

lemma terminal_not_running [simp]: "foreground_terminal_status outcome \<noteq> ''running''"
  using foreground_terminal_status_cases [of outcome] by auto

lemma close_in_frame [simp]:
  "db_sessions (close_in sx tid outcome at d) = db_sessions d" "db_messages (close_in sx tid outcome at d) = db_messages d"
  "db_delegations (close_in sx tid outcome at d) = db_delegations d"
  "db_completions (close_in sx tid outcome at d) = db_completions d" "db_effects (close_in sx tid outcome at d) = db_effects d"
  by (simp_all add: close_in_def)

text \<open>The update that ends a running turn, whichever operation issues it.\<close>

lemma close_update:
  assumes inv: "turns_inv sx d" and s: "turns_of sx d tid = Some s" "turn_running s" "fn_updated_at_ms s \<le> at" "uint at \<le> i64_max"
    and enc: "cd_enc (sx_foreground_terminal sx) outcome = Inr j" "cd_dec (sx_foreground_terminal sx) j = Inr outcome"
  shows "update_turns err
        (\<lambda>r. tn_turn_id r = foreground_turn_id_str tid \<and> tn_state r = ''running''
           \<and> tn_owner_generation r = uint (owner_generation_get (fn_owner_generation s)))
        (closed_row outcome j (uint at)) d = (Inr 1, close_in sx tid outcome at d)"
    "turns_inv sx (close_in sx tid outcome at d)"
    "turns_of sx (close_in sx tid outcome at d) = (turns_of sx d)(tid \<mapsto> closed outcome at s)"
proof -
  let ?f = "closed_row outcome j (uint at)" and ?k = "foreground_turn_id_str tid"
  obtain raw where raw: "turn_at d tid = Some raw" "raw \<in> set (db_turns d)" "tn_turn_id raw = ?k" "row_shows sx raw s"
    "turn_row_ok sx raw" "has_session d (tn_session_id raw)" by (rule turn_of_row [OF inv s(1)])
  have dist: "distinct (map tn_turn_id (db_turns d))" using inv by (simp add: turns_inv_def)
  have at_raw: "row_at tn_turn_id (db_turns d) ?k = Some raw" using raw(1) by (simp add: turn_at_def)
  have run: "tn_state raw = ''running''" using row_running [OF raw(4)] s(2) by blast
  have gen: "tn_owner_generation raw = uint (owner_generation_get (fn_owner_generation s))" "tn_updated_at_ms raw = uint (fn_updated_at_ms s)"
    using raw(4) by (simp_all add: row_shows_def)
  have le: "tn_updated_at_ms raw \<le> uint at" using s(3) gen(2) by (simp add: word_le_def)
  have check: "turn_check (?f raw)"
    using raw(5) le run foreground_terminal_status_cases [of outcome]
    by (auto simp: turn_row_ok_def turn_check_def closed_row_def)
  have d': "close_in sx tid outcome at d = d\<lparr>db_turns := change_row tn_turn_id ?k ?f (db_turns d)\<rparr>"
    by (simp add: close_in_def enc(1))
  show "update_turns err (\<lambda>r. tn_turn_id r = ?k \<and> tn_state r = ''running''
           \<and> tn_owner_generation r = uint (owner_generation_get (fn_owner_generation s))) ?f d
      = (Inr 1, close_in sx tid outcome at d)"
    unfolding update_turns_def run_update_def
    by (subst keyed_update [OF dist, where k = ?k]) (use at_raw run gen check raw(3) in \<open>simp_all add: d'\<close>)
  have shows_t: "row_shows sx (?f raw) (closed outcome at s)"
    using raw(4) enc(2) s(4)
    by (simp add: row_shows_def closed_def closed_row_def turn_state_of_row_def turn_u64_Inr turn_u64_from_i64_def u64_of_i64_uint)
  have ok: "turn_row_ok sx (?f raw)"
    using check raw(5) shows_t s(4) turn_snapshot_Inr [OF check, of sx] by (auto simp: turn_row_ok_def is_ok_iff)
  have rows: "set (db_turns (close_in sx tid outcome at d)) = insert (?f raw) (set (db_turns d) - {raw})"
    using set_change_row [OF dist at_raw, of ?f] by (simp add: d')
  have keys: "map tn_turn_id (db_turns (close_in sx tid outcome at d)) = map tn_turn_id (db_turns d)"
    by (simp add: d' keys_change)
  have "has_session (close_in sx tid outcome at d) = has_session d" by (rule sessions_frame(3)) simp_all
  then show "turns_inv sx (close_in sx tid outcome at d)"
    unfolding turns_inv_def rows keys using inv ok raw(6) by (auto simp: turns_inv_def)
  have "turn_at (close_in sx tid outcome at d) k = (if k = tid then map_option ?f (turn_at d k) else turn_at d k)" for k
    by (auto simp: turn_at_def d' row_at_change foreground_turn_id.expand)
  moreover have "turn_snapshot sx (?f raw) = Inr (closed outcome at s)"
    using shows_t ok by (simp add: turn_snapshot_Inr turn_row_ok_def)
  ultimately show "turns_of sx (close_in sx tid outcome at d) = (turns_of sx d)(tid \<mapsto> closed outcome at s)"
    using raw(1) by (auto simp: fun_eq_iff turns_of_def)
qed

lemma open_turn_ok:
  assumes inv: "turns_inv sx d" and s: "turns_of sx d tid = Some s" and ok: "closable (Some s) expected at"
  shows "\<exists>raw. open_turn tid expected at d = (Inr (raw, turn_session s), d)"
proof -
  obtain raw where raw: "turn_at d tid = Some raw" "row_shows sx raw s" "turn_row_ok sx raw"
    by (rule turn_of_row [OF inv s])
  have "tn_state raw = ''running''" using row_running [OF raw(2)] ok by (simp add: closable_def)
  moreover have "turn_u64_from_i64 (tn_owner_generation raw) name = Inr (owner_generation_get expected)" for name
    using raw ok by (simp add: turn_u64_Inr turn_row_ok_def row_shows_def closable_def)
  moreover have "\<not> uint at < tn_updated_at_ms raw" using raw(2) ok by (simp add: row_shows_def closable_def word_le_def)
  moreover have "unpadded (tn_session_id raw)" "turn_session s = SessionId (tn_session_id raw)"
    using raw(2) by (auto simp: row_shows_def turn_session_def)
  ultimately show ?thesis
    using raw(1) ok
    by (simp add: open_turn_def load_turn_def turn_at_def act_bind_def act_try_def act_lift_def act_return_def
        ensure_turn_generation_def ensure_turn_running_def ensure_turn_timestamp_def turn_to_i64_def i64_of_u64_def
        closable_def turn_id_error_def id_new_ok)
qed

lemma open_turn_Inr:
  assumes inv: "turns_inv sx d" and run: "open_turn tid expected at d = (Inr (raw, sid), d')"
  shows "d' = d \<and> (\<exists>s. turns_of sx d tid = Some s \<and> closable (Some s) expected at \<and> sid = turn_session s)"
proof -
  have raw: "turn_at d tid = Some raw" "d' = d" "tn_state raw = ''running''" "sid = SessionId (tn_session_id raw)"
    "turn_u64_from_i64 (tn_owner_generation raw) ''owner generation'' = Inr (owner_generation_get expected)"
    "uint at \<le> i64_max" "tn_updated_at_ms raw \<le> uint at"
    using run
    by (auto simp: open_turn_def load_turn_def turn_at_def act_bind_ok act_try_def act_lift_def act_return_def
        ensure_turn_generation_def ensure_turn_running_def ensure_turn_timestamp_def turn_to_i64_def i64_of_u64_eq_Some
        turn_id_error_def and_then_eq_Inr split: if_splits)
  then have "raw \<in> set (db_turns d)" by (auto simp: turn_at_def dest: row_at_Some)
  then have ok: "turn_row_ok sx raw" using inv by (simp add: turns_inv_def)
  then obtain s where s: "turn_snapshot sx raw = Inr s" by (auto simp: turn_row_ok_def is_ok_iff)
  then have shows_s: "row_shows sx raw s" using ok turn_snapshot_Inr by (simp add: turn_row_ok_def)
  have "fn_owner_generation s = expected"
    using raw(5) shows_s ok by (intro owner_generation.expand) (auto simp: turn_u64_Inr turn_row_ok_def row_shows_def word_uint_eq_iff)
  moreover have "fn_updated_at_ms s \<le> at" using raw(7) shows_s by (simp add: row_shows_def word_le_def)
  ultimately show ?thesis
    using raw s shows_s row_running [OF shows_s]
    by (auto simp: turns_of_def closable_def row_shows_def turn_session_def)
qed

lemma close_turn_ok:
  assumes inv: "turns_inv sx d" and s: "turns_of sx d tid = Some s" and ok: "closable (Some s) expected at"
    and enc: "encodes (sx_foreground_terminal sx) outcome"
  shows "close_turn sx tid expected raw outcome at d = (Inr (), close_in sx tid outcome at d)"
    "turns_inv sx (close_in sx tid outcome at d)"
    "turns_of sx (close_in sx tid outcome at d) = (turns_of sx d)(tid \<mapsto> closed outcome at s)"
proof -
  obtain j where j: "cd_enc (sx_foreground_terminal sx) outcome = Inr j" "cd_dec (sx_foreground_terminal sx) j = Inr outcome"
    using enc by (auto elim: encodesE)
  have c: "turn_running s" "fn_updated_at_ms s \<le> at" "uint at \<le> i64_max" "fn_owner_generation s = expected"
    using ok by (simp_all add: closable_def)
  note close = close_update [OF inv s c(1-3) j]
  have "row_shows sx r s \<Longrightarrow> turn_row_ok sx r \<Longrightarrow> uint (owner_generation_get expected) \<le> i64_max" for r
    using c(4) by (auto simp: row_shows_def turn_row_ok_def)
  then have "i64_of_u64 (owner_generation_get expected) = Some (uint (owner_generation_get expected))"
    using turn_of_row [OF inv s] by (metis i64_of_u64_def)
  then show "close_turn sx tid expected raw outcome at d = (Inr (), close_in sx tid outcome at d)"
    using close(1) [of TurnStorage] j(1) c(3,4)
    by (simp add: close_turn_def act_bind_def act_lift_def turn_to_i64_def i64_of_u64_def closed_row_def [abs_def])
  show "turns_inv sx (close_in sx tid outcome at d)"
    "turns_of sx (close_in sx tid outcome at d) = (turns_of sx d)(tid \<mapsto> closed outcome at s)"
    by (rule close(2), rule close(3))
qed

subsection \<open>Completion and termination\<close>

lemma append_frame [simp]:
  "db_turns (append_database sx now sid s ms d) = db_turns d" "db_completions (append_database sx now sid s ms d) = db_completions d"
  "db_delegations (append_database sx now sid s ms d) = db_delegations d" "db_effects (append_database sx now sid s ms d) = db_effects d"
  by (simp_all add: append_database_def)

lemma append_has_session: "has_session (append_database sx now sid s ms d) = has_session d"
  by (rule ext) (auto simp: find_session_has append_find)

lemma completable_ok:
  fixes now :: i64
  assumes inv: "stores_inv sx d" and t: "turns_of sx d tid = Some t" "closable (Some t) expected at"
    and s: "sessions_of sx d (turn_session t) = Some s" "appendable (Some s) expected messages"
    and ms: "list_all (storable_message sx) messages" and enc: "encodes (sx_foreground_terminal sx) TurnCompleted"
  defines "d1 \<equiv> append_database sx now (turn_session t) s messages d"
  defines "d2 \<equiv> close_in sx tid TurnCompleted at d1"
  shows "complete_turn sx now tid expected messages at d = (Inr (extended s messages), d2)" "stores_inv sx d2"
    "sessions_of sx d2 = (sessions_of sx d)(turn_session t \<mapsto> extended s messages)"
    "turns_of sx d2 = (turns_of sx d)(tid \<mapsto> closed TurnCompleted at t)" "outbox d2 = outbox d"
proof -
  have invs: "sessions_inv sx d" "turns_inv sx d" "outbox_inv d" using inv by (simp_all add: stores_inv_def)
  have ms: "\<forall>m \<in> set messages. storable_message sx m" using ms by (simp add: list_all_iff)
  have g: "ss_owner_generation s = expected" using s(2) by (simp add: appendable_def)
  note append = append_in_transaction_ok [OF invs(1) s(1) ms s(2), of now]
    append_loads [OF invs(1) s(1) ms s(2) [folded g], of now]
  have inv1: "turns_inv sx d1" "turns_of sx d1 = turns_of sx d"
    using turns_frame [of d1 d] invs(2) append_has_session by (simp_all add: d1_def)
  have t1: "turns_of sx d1 tid = Some t" using inv1(2) t(1) by simp
  note close = close_turn_ok [OF inv1(1) t1 t(2) enc]
  obtain raw where open_t: "open_turn tid expected at d = (Inr (raw, turn_session t), d)" using open_turn_ok [OF invs(2) t] by blast
  show "complete_turn sx now tid expected messages at d = (Inr (extended s messages), d2)"
    using append(1) close(1) [of raw]
    by (simp add: complete_turn_def transaction_def act_bind_def act_map_err_def act_return_def open_t d1_def d2_def)
  have frame: "sessions_of sx d2 = sessions_of sx d1" "sessions_inv sx d2 = sessions_inv sx d1"
    by (rule sessions_frame; simp add: d2_def)+
  have out: "outbox d2 = outbox d" "outbox_inv d2 = outbox_inv d"
    using claims_owned_frame [of d2 d] by (simp_all add: d1_def d2_def)
  then show "stores_inv sx d2" using frame append(3) close(2) invs(3) by (simp add: stores_inv_def d1_def d2_def)
  show "sessions_of sx d2 = (sessions_of sx d)(turn_session t \<mapsto> extended s messages)"
    using frame(1) append(4) by (simp add: d1_def)
  show "turns_of sx d2 = (turns_of sx d)(tid \<mapsto> closed TurnCompleted at t)" using close(3) inv1(2) by (simp add: d2_def)
  show "outbox d2 = outbox d" by (rule out)
qed

lemma appendable_Some: "appendable found g ms \<Longrightarrow> \<exists>s. found = Some s \<and> appendable (Some s) g ms"
  by (cases found) (simp_all add: appendable_def)

lemma complete_turn_Inr:
  assumes inv: "stores_inv sx d" and run: "complete_turn sx now tid expected messages at d = (Inr r, d')"
  shows "\<exists>t. turns_of sx d tid = Some t \<and> closable (Some t) expected at
     \<and> appendable (sessions_of sx d (turn_session t)) expected messages"
proof -
  obtain raw sid d1 s d2 where "open_turn tid expected at d = (Inr (raw, sid), d1)"
    "append_turn_in_transaction sx now sid expected messages d1 = (Inr s, d2)"
    using run by (auto simp: complete_turn_def transaction_ok act_bind_ok act_map_err_ok split: prod.splits)
  then show ?thesis
    using open_turn_Inr [of sx d tid expected at raw sid d1] append_in_transaction_Inr inv by (auto simp: stores_inv_def)
qed

lemma read_turn_ok: "turns_of sx d tid = Some s \<Longrightarrow> read_turn sx tid d = (Inr s, d)"
  by (auto simp: read_turn_def load_turn_def act_bind_def act_try_def act_lift_def turns_of_def turn_at_def split: option.splits sum.splits)

definition terminal_detail_ok :: "foreground_turn_terminal \<Rightarrow> bool" where
  "terminal_detail_ok outcome \<longleftrightarrow> (case outcome of
     TurnCompleted \<Rightarrow> False | TurnInterrupted r \<Rightarrow> unpadded r | TurnFailed r \<Rightarrow> unpadded r | TurnOutcomeUnknown r \<Rightarrow> unpadded r)"

lemma validate_reason_Inr: "validate_turn_reason reason name = Inr () \<longleftrightarrow> unpadded reason"
  by (auto simp: validate_turn_reason_def unpadded_def)

lemma validate_reason_ok: "unpadded reason \<Longrightarrow> validate_turn_reason reason name = Inr ()"
  by (simp add: validate_reason_Inr)

lemma terminal_detail_Inr: "outcome \<noteq> TurnCompleted \<and> validate_turn_terminal outcome = Inr () \<longleftrightarrow> terminal_detail_ok outcome"
  by (cases outcome) (simp_all add: terminal_detail_ok_def validate_reason_Inr)

lemma terminate_ok:
  assumes inv: "stores_inv sx d" and t: "turns_of sx d tid = Some t" "closable (Some t) expected at"
    and s: "sessions_of sx d (turn_session t) = Some s" "ss_owner_generation s = expected"
    and detail: "terminal_detail_ok outcome" and enc: "encodes (sx_foreground_terminal sx) outcome"
  defines "d2 \<equiv> close_in sx tid outcome at d"
  shows "terminate_turn sx tid expected outcome at d = (Inr (closed outcome at t), d2)" "stores_inv sx d2"
    "sessions_of sx d2 = sessions_of sx d" "turns_of sx d2 = (turns_of sx d)(tid \<mapsto> closed outcome at t)" "outbox d2 = outbox d"
proof -
  have invs: "sessions_inv sx d" "turns_inv sx d" "outbox_inv d" using inv by (simp_all add: stores_inv_def)
  note close = close_turn_ok [OF invs(2) t enc]
  obtain raw where open_t: "open_turn tid expected at d = (Inr (raw, turn_session t), d)" using open_turn_ok [OF invs(2) t] by blast
  have load: "load_snapshot sx (turn_session t) d = Inr s" using s(1) by (simp add: sessions_of_def split: sum.splits)
  have valid: "outcome \<noteq> TurnCompleted" "validate_turn_terminal outcome = Inr ()" using detail terminal_detail_Inr by blast+
  have "read_turn sx tid d2 = (Inr (closed outcome at t), d2)" by (rule read_turn_ok) (simp add: d2_def close(3))
  then show "terminate_turn sx tid expected outcome at d = (Inr (closed outcome at t), d2)"
    using close(1) [of raw] valid s(2)
    by (simp add: terminate_turn_def transaction_def act_bind_def act_map_err_def act_lift_def act_try_def session_load_def
        open_t load ensure_session_generation_def d2_def)
  have frame: "sessions_of sx d2 = sessions_of sx d" "sessions_inv sx d2 = sessions_inv sx d"
    by (rule sessions_frame; simp add: d2_def)+
  have out: "outbox d2 = outbox d" "outbox_inv d2 = outbox_inv d"
    using claims_owned_frame [of d2 d] by (simp_all add: d2_def)
  then show "stores_inv sx d2" using frame close(2) invs by (simp add: stores_inv_def d2_def)
  show "sessions_of sx d2 = sessions_of sx d" "turns_of sx d2 = (turns_of sx d)(tid \<mapsto> closed outcome at t)" "outbox d2 = outbox d"
    using frame out close(3) by (simp_all add: d2_def)
qed

definition terminable :: "serde \<Rightarrow> database \<Rightarrow> foreground_turn_id \<Rightarrow> owner_generation \<Rightarrow> foreground_turn_terminal \<Rightarrow> u64 \<Rightarrow> bool" where
  "terminable sx d tid expected outcome at \<longleftrightarrow> terminal_detail_ok outcome
     \<and> (\<exists>t. turns_of sx d tid = Some t \<and> closable (Some t) expected at
          \<and> map_option ss_owner_generation (sessions_of sx d (turn_session t)) = Some expected)"

lemma terminate_err:
  assumes inv: "stores_inv sx d" and bad: "\<not> terminable sx d tid expected outcome at"
  shows "\<exists>e. terminate_turn sx tid expected outcome at d = (Inl e, d)"
proof (cases "terminal_detail_ok outcome")
  case False
  then show ?thesis
    using terminal_detail_Inr [of outcome]
    by (cases "validate_turn_terminal outcome") (auto simp: terminate_turn_def act_bind_def act_lift_def ensure_def)
next
  case True
  let ?body = "act_bind (open_turn tid expected at) (\<lambda>(raw, session_id).
        act_bind (act_map_err turn_session_error (session_load sx session_id)) (\<lambda>session.
        act_bind (act_lift (ensure_session_generation session expected)) (\<lambda>_.
        close_turn sx tid expected raw outcome at)))"
  have "\<not> is_ok (fst (?body d))"
  proof
    assume "is_ok (fst (?body d))"
    then obtain d' where "?body d = (Inr (), d')" by (cases "?body d") (auto simp: is_ok_iff)
    then obtain raw sid d1 s where "open_turn tid expected at d = (Inr (raw, sid), d1)" "load_snapshot sx sid d1 = Inr s"
      "ss_owner_generation s = expected"
      by (auto simp: act_bind_ok act_map_err_ok session_load_def act_try_def act_lift_def ensure_session_generation_def
          split: prod.splits)
    then show False
      using open_turn_Inr [of sx d tid expected at raw sid d1] inv True bad
      by (auto simp: terminable_def stores_inv_def sessions_of_def)
  qed
  moreover have "outcome \<noteq> TurnCompleted" "validate_turn_terminal outcome = Inr ()" using True terminal_detail_Inr by blast+
  ultimately show ?thesis
    by (cases "?body d"; cases "fst (?body d)")
       (auto simp: terminate_turn_def transaction_def act_lift_def act_bind_def [of "act_lift _"] act_bind_def [of "transaction _"])
qed

subsection \<open>Reconciliation\<close>

text \<open>What reconciliation makes of a turn.\<close>

definition reconciled :: "string \<Rightarrow> u64 \<Rightarrow> foreground_turn_snapshot \<Rightarrow> foreground_turn_snapshot" where
  "reconciled reason at s = (if turn_running s then closed (TurnOutcomeUnknown reason) at s else s)"

lemma reconciled_not_running [simp]: "\<not> turn_running (reconciled reason at t)"
  by (simp add: reconciled_def closed_def turn_running_def)

fun close_all :: "serde \<Rightarrow> string \<Rightarrow> u64 \<Rightarrow> string list \<Rightarrow> database \<Rightarrow> database" where
  "close_all sx reason at [] d = d"
| "close_all sx reason at (k # ks) d = close_all sx reason at ks (close_in sx (ForegroundTurnId k) (TurnOutcomeUnknown reason) at d)"

lemma reconcile_turn_eq:
  assumes inv: "turns_inv sx d" and t: "turns_of sx d (ForegroundTurnId k) = Some t" "turn_running t" and at: "uint at \<le> i64_max"
    and enc: "cd_enc (sx_foreground_terminal sx) (TurnOutcomeUnknown reason) = Inr j"
      "cd_dec (sx_foreground_terminal sx) j = Inr (TurnOutcomeUnknown reason)"
  shows "if fn_updated_at_ms t \<le> at
     then reconcile_turn j (uint at) at k d = (Inr (), close_in sx (ForegroundTurnId k) (TurnOutcomeUnknown reason) at d)
     else \<exists>e. reconcile_turn j (uint at) at k d = (Inl e, d)"
proof -
  obtain raw where raw: "turn_at d (ForegroundTurnId k) = Some raw" "row_shows sx raw t" "tn_turn_id raw = k"
    using turn_of_row [OF inv t(1)] by (metis foreground_turn_id.sel)
  have k: "foreground_turn_id_new k = Inr (ForegroundTurnId k)" using raw by (auto simp: row_shows_def)
  have load: "load_turn (ForegroundTurnId k) d = (Inr raw, d)" using raw(1) by (simp add: load_turn_def act_try_def turn_at_def)
  have gen: "tn_owner_generation raw = uint (owner_generation_get (fn_owner_generation t))" using raw(2) by (simp add: row_shows_def)
  have time: "ensure_turn_timestamp raw at = Inr () \<longleftrightarrow> fn_updated_at_ms t \<le> at"
    using raw(2) at
    by (simp add: ensure_turn_timestamp_def turn_to_i64_def i64_of_u64_def row_shows_def word_le_def not_less)
  show ?thesis
  proof (cases "fn_updated_at_ms t \<le> at")
    case True
    note close = close_update(1) [OF inv t True at enc, of TurnStorage]
    show ?thesis
      using True time close
      by (simp add: reconcile_turn_def act_bind_def act_lift_def k turn_id_error_def load gen closed_row_def [abs_def])
  next
    case False
    then obtain e where "ensure_turn_timestamp raw at = Inl e" using time by (cases "ensure_turn_timestamp raw at") auto
    then show ?thesis using False by (simp add: reconcile_turn_def act_bind_def act_lift_def k turn_id_error_def load)
  qed
qed

lemma each_reconcile:
  assumes "turns_inv sx d" "distinct ks" "uint at \<le> i64_max"
    and "\<forall>k \<in> set ks. \<exists>t. turns_of sx d (ForegroundTurnId k) = Some t \<and> turn_running t"
    and "cd_enc (sx_foreground_terminal sx) (TurnOutcomeUnknown reason) = Inr j"
      "cd_dec (sx_foreground_terminal sx) j = Inr (TurnOutcomeUnknown reason)"
  shows "if \<forall>k \<in> set ks. \<forall>t. turns_of sx d (ForegroundTurnId k) = Some t \<longrightarrow> fn_updated_at_ms t \<le> at
     then act_each (reconcile_turn j (uint at) at) ks d = (Inr (), close_all sx reason at ks d)
       \<and> turns_inv sx (close_all sx reason at ks d)
       \<and> turns_of sx (close_all sx reason at ks d) = (\<lambda>tid. if foreground_turn_id_str tid \<in> set ks
            then map_option (closed (TurnOutcomeUnknown reason) at) (turns_of sx d tid) else turns_of sx d tid)
     else \<exists>e d'. act_each (reconcile_turn j (uint at) at) ks d = (Inl e, d')"
  using assms(1,2,4)
proof (induction ks arbitrary: d)
  case Nil
  then show ?case by (simp add: act_return_def)
next
  case (Cons k ks)
  let ?tid = "ForegroundTurnId k" and ?o = "TurnOutcomeUnknown reason"
  let ?d = "close_in sx ?tid ?o at d"
  obtain t where t: "turns_of sx d ?tid = Some t" "turn_running t" using Cons.prems(3) by auto
  note one = reconcile_turn_eq [OF Cons.prems(1) t assms(3,5,6)]
  show ?case
  proof (cases "fn_updated_at_ms t \<le> at")
    case False
    then show ?thesis using one t(1) by (auto simp: act_bind_def)
  next
    case True
    note close = close_update(2,3) [OF Cons.prems(1) t True assms(3,5,6)]
    have "\<forall>k' \<in> set ks. \<exists>t. turns_of sx ?d (ForegroundTurnId k') = Some t \<and> turn_running t"
      using Cons.prems(2,3) close(2) by auto
    note IH = Cons.IH [OF close(1) _ this]
    have same: "turns_of sx ?d (ForegroundTurnId k') = turns_of sx d (ForegroundTurnId k')" if "k' \<in> set ks" for k'
      using that Cons.prems(2) close(2) by auto
    have others: "(\<forall>k' \<in> set ks. \<forall>t. turns_of sx ?d (ForegroundTurnId k') = Some t \<longrightarrow> fn_updated_at_ms t \<le> at)
       \<longleftrightarrow> (\<forall>k' \<in> set ks. \<forall>t. turns_of sx d (ForegroundTurnId k') = Some t \<longrightarrow> fn_updated_at_ms t \<le> at)"
      using same by simp
    have "turns_of sx ?d tid = (if tid = ?tid then Some (closed ?o at t) else turns_of sx d tid)" for tid using close(2) by simp
    then have "(if foreground_turn_id_str tid \<in> set ks then map_option (closed ?o at) (turns_of sx ?d tid) else turns_of sx ?d tid)
       = (if foreground_turn_id_str tid \<in> set (k # ks) then map_option (closed ?o at) (turns_of sx d tid) else turns_of sx d tid)" for tid
      using Cons.prems(2) t(1) by (cases tid) auto
    then show ?thesis using IH Cons.prems(2) one True t(1) others by (auto simp: act_bind_def fun_eq_iff)
  qed
qed

lemma close_all_frame [simp]:
  "db_sessions (close_all sx reason at ks d) = db_sessions d" "db_messages (close_all sx reason at ks d) = db_messages d"
  "db_delegations (close_all sx reason at ks d) = db_delegations d"
  "db_completions (close_all sx reason at ks d) = db_completions d"
  by (induction ks arbitrary: d) simp_all

definition reconcilable :: "serde \<Rightarrow> database \<Rightarrow> string \<Rightarrow> u64 \<Rightarrow> bool" where
  "reconcilable sx d reason at \<longleftrightarrow> unpadded reason \<and> uint at \<le> i64_max
     \<and> (\<forall>tid t. turns_of sx d tid = Some t \<and> turn_running t \<longrightarrow> fn_updated_at_ms t \<le> at)"

lemma running_keys:
  assumes inv: "turns_inv sx d"
  defines "ks \<equiv> map tn_turn_id (sort_key (\<lambda>r. (tn_started_at_ms r, tn_turn_id r)) (filter (\<lambda>r. tn_state r = ''running'') (db_turns d)))"
  shows "distinct ks"
    "\<And>tid. foreground_turn_id_str tid \<in> set ks \<longleftrightarrow> (\<exists>t. turns_of sx d tid = Some t \<and> turn_running t)"
    "\<And>k. k \<in> set ks \<Longrightarrow> unpadded k"
proof -
  let ?rows = "filter (\<lambda>r. tn_state r = ''running'') (db_turns d)"
  have dist: "distinct (map tn_turn_id (db_turns d))" using inv by (simp add: turns_inv_def)
  then have "distinct (map tn_turn_id ?rows)" by (rule distinct_map_filter)
  moreover have "mset ks = mset (map tn_turn_id ?rows)" by (simp add: ks_def)
  ultimately show "distinct ks" by (metis mset_eq_imp_distinct_iff)
  have shows_row: "\<exists>t. turns_of sx d (ForegroundTurnId (tn_turn_id r)) = Some t \<and> row_shows sx r t" if "r \<in> set (db_turns d)" for r
  proof -
    have ok: "turn_row_ok sx r" using that inv by (simp add: turns_inv_def)
    then obtain t where t: "turn_snapshot sx r = Inr t" by (auto simp: turn_row_ok_def is_ok_iff)
    then have "row_shows sx r t" using ok turn_snapshot_Inr by (simp add: turn_row_ok_def)
    moreover have "turn_at d (ForegroundTurnId (tn_turn_id r)) = Some r" using that dist by (simp add: turn_at_def row_at_eq)
    ultimately show ?thesis using t by (simp add: turns_of_def)
  qed
  show "foreground_turn_id_str tid \<in> set ks \<longleftrightarrow> (\<exists>t. turns_of sx d tid = Some t \<and> turn_running t)" for tid
  proof
    assume "foreground_turn_id_str tid \<in> set ks"
    then obtain r where "r \<in> set (db_turns d)" "tn_state r = ''running''" "tid = ForegroundTurnId (tn_turn_id r)"
      by (auto simp: ks_def) (metis foreground_turn_id.collapse)
    then show "\<exists>t. turns_of sx d tid = Some t \<and> turn_running t" using shows_row row_running by blast
  next
    assume "\<exists>t. turns_of sx d tid = Some t \<and> turn_running t"
    then obtain t where t: "turns_of sx d tid = Some t" "turn_running t" by blast
    obtain raw where "raw \<in> set (db_turns d)" "tn_turn_id raw = foreground_turn_id_str tid" "row_shows sx raw t"
      using turn_of_row [OF inv t(1)] by blast
    then show "foreground_turn_id_str tid \<in> set ks" using row_running t(2) by (force simp: ks_def)
  qed
  show "unpadded k" if "k \<in> set ks" for k
    using that shows_row by (auto simp: ks_def row_shows_def)
qed

lemma collect_read:
  assumes "\<forall>k \<in> set ks. unpadded k \<and> turns_of sx d (ForegroundTurnId k) = Some (f k)"
  shows "act_collect (read_turn_named sx) ks d = (Inr (map f ks), d)"
  using assms
  by (induction ks)
     (auto simp: act_return_def act_bind_def read_turn_named_def act_lift_def turn_id_error_def id_new_ok read_turn_ok)

lemma reconcile_running_ok:
  assumes inv: "stores_inv sx d" and ok: "reconcilable sx d reason at"
    and enc: "encodes (sx_foreground_terminal sx) (TurnOutcomeUnknown reason)"
  shows "\<exists>d' ts. reconcile_running_turns sx reason at d = (Inr ts, d') \<and> stores_inv sx d'
     \<and> sessions_of sx d' = sessions_of sx d \<and> outbox d' = outbox d
     \<and> turns_of sx d' = (\<lambda>tid. map_option (reconciled reason at) (turns_of sx d tid))
     \<and> set ts = {closed (TurnOutcomeUnknown reason) at t | tid t. turns_of sx d tid = Some t \<and> turn_running t}"
proof -
  let ?o = "TurnOutcomeUnknown reason"
  have invs: "sessions_inv sx d" "turns_inv sx d" "outbox_inv d" using inv by (simp_all add: stores_inv_def)
  define ks where "ks = map tn_turn_id (sort_key (\<lambda>r. (tn_started_at_ms r, tn_turn_id r)) (filter (\<lambda>r. tn_state r = ''running'') (db_turns d)))"
  note keys = running_keys [OF invs(2), folded ks_def]
  obtain j where j: "cd_enc (sx_foreground_terminal sx) ?o = Inr j" "cd_dec (sx_foreground_terminal sx) j = Inr ?o"
    using enc by (auto elim: encodesE)
  have at: "uint at \<le> i64_max" and reason: "unpadded reason" using ok by (simp_all add: reconcilable_def)
  have live: "\<forall>k \<in> set ks. \<exists>t. turns_of sx d (ForegroundTurnId k) = Some t \<and> turn_running t"
    using keys(2) by (metis foreground_turn_id.sel)
  have "\<forall>k \<in> set ks. \<forall>t. turns_of sx d (ForegroundTurnId k) = Some t \<longrightarrow> fn_updated_at_ms t \<le> at"
    using ok live by (fastforce simp: reconcilable_def)
  then have each: "act_each (reconcile_turn j (uint at) at) ks d = (Inr (), close_all sx reason at ks d)"
    "turns_inv sx (close_all sx reason at ks d)"
    "turns_of sx (close_all sx reason at ks d) = (\<lambda>tid. if foreground_turn_id_str tid \<in> set ks
            then map_option (closed ?o at) (turns_of sx d tid) else turns_of sx d tid)"
    using each_reconcile [OF invs(2) keys(1) at live j] by simp_all
  let ?d = "close_all sx reason at ks d" and ?f = "\<lambda>k. closed ?o at (the (turns_of sx d (ForegroundTurnId k)))"
  have "\<forall>k \<in> set ks. unpadded k \<and> turns_of sx ?d (ForegroundTurnId k) = Some (?f k)"
    using live keys(3) each(3) by fastforce
  from collect_read [OF this] have "reconcile_running_turns sx reason at d = (Inr (map ?f ks), ?d)"
    using each(1) at reason j(1)
    by (simp add: reconcile_running_turns_def act_bind_def act_lift_def act_read_def act_return_def transaction_def
        validate_reason_ok turn_to_i64_def i64_of_u64_def ks_def)
  moreover have frame: "sessions_of sx ?d = sessions_of sx d" "sessions_inv sx ?d = sessions_inv sx d"
    by (rule sessions_frame; simp)+
  moreover have out: "outbox ?d = outbox d" "outbox_inv ?d = outbox_inv d" by (rule claims_owned_frame; simp)+
  moreover have "stores_inv sx ?d" using invs frame out each(2) by (simp add: stores_inv_def)
  moreover have "turns_of sx ?d = (\<lambda>tid. map_option (reconciled reason at) (turns_of sx d tid))"
  proof (rule ext)
    fix tid
    show "turns_of sx ?d tid = map_option (reconciled reason at) (turns_of sx d tid)"
      using keys(2) [of tid] each(3) by (cases "turns_of sx d tid") (auto simp: reconciled_def)
  qed
  moreover have "set (map ?f ks) = {closed ?o at t | tid t. turns_of sx d tid = Some t \<and> turn_running t}"
  proof (intro equalityI subsetI)
    fix x assume "x \<in> set (map ?f ks)"
    then show "x \<in> {closed ?o at t | tid t. turns_of sx d tid = Some t \<and> turn_running t}" using live by fastforce
  next
    fix x assume "x \<in> {closed ?o at t | tid t. turns_of sx d tid = Some t \<and> turn_running t}"
    then obtain tid t where "x = closed ?o at t" "turns_of sx d tid = Some t" "turn_running t" by blast
    then show "x \<in> set (map ?f ks)"
      using keys(2) [of tid] by (cases tid) (auto intro!: image_eqI [of _ _ "foreground_turn_id_str tid"])
  qed
  ultimately show ?thesis by blast
qed

lemma reconcile_running_err:
  assumes inv: "stores_inv sx d" and bad: "\<not> reconcilable sx d reason at"
    and enc: "encodes (sx_foreground_terminal sx) (TurnOutcomeUnknown reason)"
  shows "\<exists>e. reconcile_running_turns sx reason at d = (Inl e, d)"
proof -
  have invs: "turns_inv sx d" using inv by (simp add: stores_inv_def)
  define ks where "ks = map tn_turn_id (sort_key (\<lambda>r. (tn_started_at_ms r, tn_turn_id r)) (filter (\<lambda>r. tn_state r = ''running'') (db_turns d)))"
  note keys = running_keys [OF invs, folded ks_def]
  obtain j where j: "cd_enc (sx_foreground_terminal sx) (TurnOutcomeUnknown reason) = Inr j"
    "cd_dec (sx_foreground_terminal sx) j = Inr (TurnOutcomeUnknown reason)" using enc by (auto elim: encodesE)
  show ?thesis
  proof (cases "unpadded reason \<and> uint at \<le> i64_max")
    case False
    then show ?thesis
      using validate_reason_Inr [of reason "''reconciliation reason''"]
      by (cases "validate_turn_reason reason ''reconciliation reason''")
         (auto simp: reconcile_running_turns_def act_bind_def act_lift_def turn_to_i64_def i64_of_u64_def)
  next
    case True
    then obtain tid t where late: "turns_of sx d tid = Some t" "turn_running t" "\<not> fn_updated_at_ms t \<le> at"
      using bad by (auto simp: reconcilable_def)
    have live: "\<forall>k \<in> set ks. \<exists>t. turns_of sx d (ForegroundTurnId k) = Some t \<and> turn_running t"
      using keys(2) by (metis foreground_turn_id.sel)
    have "foreground_turn_id_str tid \<in> set ks" using keys(2) late by blast
    then have "\<not> (\<forall>k \<in> set ks. \<forall>t. turns_of sx d (ForegroundTurnId k) = Some t \<longrightarrow> fn_updated_at_ms t \<le> at)"
      using late by (metis foreground_turn_id.collapse)
    then obtain e d' where "act_each (reconcile_turn j (uint at) at) ks d = (Inl e, d')"
      using each_reconcile [OF invs keys(1) conjunct2 [OF True] live j] by (auto split: if_splits)
    then show ?thesis
      using True j(1)
      by (simp add: reconcile_running_turns_def act_bind_def act_lift_def act_read_def transaction_def
          validate_reason_ok turn_to_i64_def i64_of_u64_def ks_def)
  qed
qed

section \<open>Histories\<close>

text \<open>
  The calls on sessions and foreground turns of any clients, in any order. A turn that has a terminal
  never changes again.
\<close>

inductive foreground_step :: "serde \<Rightarrow> database \<Rightarrow> database \<Rightarrow> bool" for sx where
  step_session: "session_step (sqlite_session_store sx) (storable_config sx) (storable_message sx) d d' \<Longrightarrow> foreground_step sx d d'"
| step_start: "spec_ids spec \<Longrightarrow> start_with_deliveries sx spec provider_prompt expected claims at d = (r, d') \<Longrightarrow>
    foreground_step sx d d'"
| step_complete: "list_all (storable_message sx) messages \<Longrightarrow> encodes (sx_foreground_terminal sx) TurnCompleted \<Longrightarrow>
    complete_turn sx now tid expected messages at d = (cr, d') \<Longrightarrow> foreground_step sx d d'"
| step_terminate: "encodes (sx_foreground_terminal sx) outcome \<Longrightarrow>
    terminate_turn sx tid expected outcome at d = (r, d') \<Longrightarrow> foreground_step sx d d'"
| step_reconcile: "encodes (sx_foreground_terminal sx) (TurnOutcomeUnknown reason) \<Longrightarrow>
    reconcile_running_turns sx reason at d = (rs, d') \<Longrightarrow> foreground_step sx d d'"
| step_latest: "latest_turn sx sid d = (ro, d') \<Longrightarrow> foreground_step sx d d'"

definition turn_evolves :: "foreground_turn_snapshot \<Rightarrow> foreground_turn_snapshot \<Rightarrow> bool" where
  "turn_evolves t u \<longleftrightarrow> u = t \<or> (turn_running t \<and> (\<exists>outcome at. u = closed outcome at t))"

lemma latest_same: "latest_turn sx sid d = (r, d') \<Longrightarrow> d' = d"
  by (auto simp: latest_turn_def act_bind_def act_read_def act_lift_def act_return_def read_turn_def load_turn_def act_try_def
      split: list.splits sum.splits prod.splits)

lemma has_session_append: "has_session (d\<lparr>db_sessions := db_sessions d @ [row]\<rparr>) k \<longleftrightarrow> has_session d k \<or> sr_session_id row = k"
  by (auto simp: has_session_def)

lemma session_step_frame:
  assumes "session_step (sqlite_session_store sx) (storable_config sx) (storable_message sx) d d'" "sessions_inv sx d"
  shows "db_turns d' = db_turns d \<and> db_completions d' = db_completions d \<and> db_delegations d' = db_delegations d
     \<and> (\<forall>k. has_session d k \<longrightarrow> has_session d' k)"
  using assms(1)
proof (cases rule: session_step.cases)
  case (step_create c t r)
  then show ?thesis
    using create_in_transaction [OF assms(2) step_create(1), of t]
    by (cases "creatable sx d c") (auto simp: sqlite_session_store_def session_create_def transaction_def has_session_append)
next
  case (step_append ms t sid g r)
  have ms: "\<forall>m \<in> set ms. storable_message sx m" using step_append(1) by (simp add: list_all_iff)
  show ?thesis
  proof (cases r)
    case (Inl e)
    then show ?thesis using step_append(2) by (auto simp: sqlite_session_store_def session_append_def dest: transaction_rollback)
  next
    case (Inr x)
    then have body: "append_turn_in_transaction sx t sid g ms d = (Inr x, d')"
      using step_append(2) by (simp add: sqlite_session_store_def session_append_def transaction_ok)
    from append_in_transaction_Inr [OF this] obtain s where s: "sessions_of sx d sid = Some s" "appendable (Some s) g ms"
      by (auto simp: appendable_def split: option.splits)
    have "d' = append_database sx t sid s ms d" using append_in_transaction_ok [OF assms(2) s(1) ms s(2), of t] body by simp
    then show ?thesis by (simp add: append_has_session)
  qed
qed (auto simp: sqlite_session_store_def session_load_def session_list_def act_try_def)

lemma session_step_keeps_stores:
  assumes "session_step (sqlite_session_store sx) (storable_config sx) (storable_message sx) d d'" "stores_inv sx d"
  shows "stores_inv sx d'" "turns_of sx d' = turns_of sx d"
proof -
  have invs: "sessions_inv sx d" "turns_inv sx d" "outbox_inv d" using assms(2) by (simp_all add: stores_inv_def)
  note frame = session_step_frame [OF assms(1) invs(1)]
  have "sessions_inv sx d'" using sqlite_sessions.step_keeps [OF assms(1) invs(1)] by blast
  moreover have "turns_inv sx d'" "turns_of sx d' = turns_of sx d" using turns_frame [of d' d] frame invs(2) by auto
  moreover have "outbox_inv d'" using claims_owned_frame(2) [of d' d] frame invs(3) by simp
  ultimately show "stores_inv sx d'" "turns_of sx d' = turns_of sx d" by (simp_all add: stores_inv_def)
qed

lemma foreground_step_keeps:
  assumes "foreground_step sx d d'" "stores_inv sx d"
  shows "stores_inv sx d' \<and> (turns_of sx d tid = Some t \<longrightarrow> (\<exists>u. turns_of sx d' tid = Some u \<and> turn_evolves t u))"
  using assms(1)
proof (cases rule: foreground_step.cases)
  case step_session
  then show ?thesis using session_step_keeps_stores [OF _ assms(2)] by (auto simp: turn_evolves_def)
next
  case (step_start spec provider_prompt expected claims at r)
  show ?thesis
  proof (cases "startable sx d spec provider_prompt expected at \<and> claims_owned d (fs_session_id spec) (uint at) claims")
    case True
    note ok = start_ok [OF assms(2) step_start(1) conjunct1 [OF True] conjunct2 [OF True]]
    have "turns_of sx d (fs_turn_id spec) = None" using True by (simp add: startable_def)
    then show ?thesis using ok step_start(2) by (auto simp: turn_evolves_def)
  next
    case False
    then have "d' = d" using start_err [OF assms(2) step_start(1) False] step_start(2) by auto
    then show ?thesis using assms(2) by (simp add: turn_evolves_def)
  qed
next
  case (step_complete messages now k expected at r)
  show ?thesis
  proof (cases r)
    case (Inl e)
    then have "d' = d" using step_complete(3) by (auto simp: complete_turn_def dest: transaction_rollback)
    then show ?thesis using assms(2) by (auto simp: turn_evolves_def)
  next
    case (Inr x)
    then obtain q s where q: "turns_of sx d k = Some q" "closable (Some q) expected at"
      "sessions_of sx d (turn_session q) = Some s" "appendable (Some s) expected messages"
      using complete_turn_Inr [OF assms(2) step_complete(3) [unfolded Inr]] appendable_Some by blast
    note ok = completable_ok [OF assms(2) q step_complete(1,2), of now]
    have "turn_running q" using q(2) by (simp add: closable_def)
    then show ?thesis using ok step_complete(3) q(1) by (auto simp: turn_evolves_def)
  qed
next
  case (step_terminate outcome k expected at r)
  show ?thesis
  proof (cases "terminable sx d k expected outcome at")
    case True
    then obtain q s where q: "turns_of sx d k = Some q" "closable (Some q) expected at"
      "sessions_of sx d (turn_session q) = Some s" "ss_owner_generation s = expected" "terminal_detail_ok outcome"
      by (auto simp: terminable_def)
    note ok = terminate_ok [OF assms(2) q step_terminate(1)]
    have "turn_running q" using q(2) by (simp add: closable_def)
    then show ?thesis using ok step_terminate(2) q(1) by (auto simp: turn_evolves_def)
  next
    case False
    then have "d' = d" using terminate_err [OF assms(2) False] step_terminate(2) by auto
    then show ?thesis using assms(2) by (simp add: turn_evolves_def)
  qed
next
  case (step_reconcile reason at rs)
  show ?thesis
  proof (cases "reconcilable sx d reason at")
    case True
    obtain ts where "reconcile_running_turns sx reason at d = (Inr ts, d')" "stores_inv sx d'"
      "turns_of sx d' = (\<lambda>tid. map_option (reconciled reason at) (turns_of sx d tid))"
      using reconcile_running_ok [OF assms(2) True step_reconcile(1)] step_reconcile(2) by auto
    then show ?thesis by (auto simp: turn_evolves_def reconciled_def)
  next
    case False
    then have "d' = d" using reconcile_running_err [OF assms(2) False step_reconcile(1)] step_reconcile(2) by auto
    then show ?thesis using assms(2) by (simp add: turn_evolves_def)
  qed
next
  case step_latest
  then have "d' = d" by (rule latest_same)
  then show ?thesis using assms(2) by (simp add: turn_evolves_def)
qed

interpretation foreground: durable_history "foreground_step sx" "turns_of sx" "stores_inv sx" turn_evolves for sx
proof
  fix u v w assume "turn_evolves u v" "turn_evolves v w"
  then show "turn_evolves u w" by (auto simp: turn_evolves_def closed_def turn_running_def)
qed (use foreground_step_keeps in \<open>blast+ | simp add: turn_evolves_def\<close>)+

section \<open>Properties\<close>

definition sample_spec :: foreground_turn_spec where
  "sample_spec = \<lparr>fs_turn_id = ForegroundTurnId ''t'', fs_session_id = SessionId ''p'', fs_prompt = ''q''\<rparr>"

definition sample_turn :: foreground_turn_snapshot where
  "sample_turn = started_turn sample_spec ''q'' (OwnerGeneration 1) 3"

definition sample_started :: database where
  "sample_started = snd (start_with_deliveries sample_serde sample_spec ''q'' (OwnerGeneration 1) [] 3 sample_sessions)"

lemma empty_stores: "stores_inv sx empty_database" "turns_of sx empty_database = (\<lambda>_. None)" "outbox empty_database = (\<lambda>_. None)"
proof -
  have "db_turns empty_database = []" "db_completions empty_database = []" by (simp_all add: empty_database_def)
  then show "stores_inv sx empty_database" "turns_of sx empty_database = (\<lambda>_. None)" "outbox empty_database = (\<lambda>_. None)"
    by (auto simp: stores_inv_def empty_sessions turns_inv_def outbox_inv_def turns_of_def turn_at_def outbox_def row_at_def)
qed

lemma sample_stores: "stores_inv sample_serde sample_sessions" "turns_of sample_serde sample_sessions = (\<lambda>_. None)"
proof -
  have "session_step (sqlite_session_store sample_serde) (storable_config sample_serde) (storable_message sample_serde)
     empty_database sample_sessions"
    unfolding sample_sessions_def
    by (rule session_step.step_create [where t = 5 and c = "sample_config ''p''"
          and r = "fst (session_create sample_serde 5 (sample_config ''p'') empty_database)"])
       (simp_all add: sample_config_storable plain_char_def sqlite_session_store_def)
  from session_step_keeps_stores [OF this empty_stores(1)]
  show "stores_inv sample_serde sample_sessions" "turns_of sample_serde sample_sessions = (\<lambda>_. None)"
    by (simp_all add: empty_stores)
qed

lemma sample_spec_ids: "spec_ids sample_spec"
  by (simp add: spec_ids_def sample_spec_def unpadded_plain plain_char_def)

lemma sample_startable: "startable sample_serde sample_sessions sample_spec ''q'' (OwnerGeneration 1) 3"
  using unpadded_trim_nonempty [of "''q''"]
  by (simp add: startable_def sample_spec_def sample_stores sample_sessions new_session_def i64_max_def unpadded_plain
      plain_char_def sql_nonempty_def)

lemma sample_started: "stores_inv sample_serde sample_started"
  "turns_of sample_serde sample_started = [ForegroundTurnId ''t'' \<mapsto> sample_turn]"
  "sessions_of sample_serde sample_started = [SessionId ''p'' \<mapsto> new_session (sample_config ''p'')]"
proof -
  have "claims_owned sample_sessions (fs_session_id sample_spec) (uint (3 :: u64)) []" by (simp add: claims_owned_def)
  note ok = start_ok [OF sample_stores(1) sample_spec_ids sample_startable this]
  have d: "sample_started = started_in (started_row sample_spec ''q'' (OwnerGeneration 1) 3) (uint (3 :: u64)) [] sample_sessions"
    by (simp add: sample_started_def ok(1))
  show "stores_inv sample_serde sample_started"
    "turns_of sample_serde sample_started = [ForegroundTurnId ''t'' \<mapsto> sample_turn]"
    "sessions_of sample_serde sample_started = [SessionId ''p'' \<mapsto> new_session (sample_config ''p'')]"
    using ok(2-4) by (simp_all add: d sample_stores(2) sample_turn_def sample_sessions(2)) (simp add: sample_spec_def)
qed

lemma sample_terminals: "encodes (sx_foreground_terminal sample_serde) TurnCompleted"
  "encodes (sx_foreground_terminal sample_serde) (TurnFailed ''bad'')" "encodes (sx_foreground_terminal sample_serde) (TurnOutcomeUnknown ''x'')"
  by (simp_all add: encodes_def sample_serde_def sample_codec_def)

lemma sample_closable: "closable (turns_of sample_serde sample_started (ForegroundTurnId ''t'')) (OwnerGeneration 1) 9"
  by (simp add: sample_started closable_def sample_turn_def started_turn_def turn_running_def i64_max_def)

text \<open>
  C11. Starting a turn is all or nothing: it succeeds exactly when the prompts are not blank, the session
  is at the expected generation and has no running turn, the turn id is new, and every delivery claim
  is the current claim of a pending completion for this session. Then the turn is running and exactly
  the claimed completions are delivered; otherwise the database is as it was, so no completion is
  consumed by a turn that did not start.
\<close>

theorem start_claims_session_and_deliveries:
  assumes "stores_inv sx d" "spec_ids spec"
  shows "case start_with_deliveries sx spec provider_prompt expected claims at d of (r, d') \<Rightarrow>
     stores_inv sx d' \<and> sessions_of sx d' = sessions_of sx d
     \<and> (is_ok r \<longleftrightarrow> startable sx d spec provider_prompt expected at
          \<and> claims_owned d (fs_session_id spec) (uint at) claims)
     \<and> (if is_ok r
        then r = Ok (started_turn spec provider_prompt expected at)
          \<and> turns_of sx d' = (turns_of sx d)(fs_turn_id spec \<mapsto> started_turn spec provider_prompt expected at)
          \<and> (\<forall>event. outbox d' event = (if event \<in> fst ` set claims
               then map_option (delivered (uint at)) (outbox d event) else outbox d event))
        else d' = d)"
proof (cases "startable sx d spec provider_prompt expected at \<and> claims_owned d (fs_session_id spec) (uint at) claims")
  case True
  from start_ok [OF assms conjunct1 [OF True] conjunct2 [OF True]] show ?thesis using True by simp
next
  case False
  from start_err [OF assms this] show ?thesis using False assms(1) by auto
qed

theorem start_claims_session_and_deliveries_witness:
  "case start_with_deliveries sample_serde sample_spec ''q'' (OwnerGeneration 1) [] 4 sample_started of (r, d') \<Rightarrow>
     stores_inv sample_serde d' \<and> \<not> is_ok r \<and> d' = sample_started"
proof -
  have "\<not> startable sample_serde sample_started sample_spec ''q'' (OwnerGeneration 1) 4"
    by (simp add: startable_def sample_started sample_spec_def)
  then show ?thesis
    using start_claims_session_and_deliveries [OF sample_started(1) sample_spec_ids, where provider_prompt = "''q''"
        and expected = "OwnerGeneration 1" and claims = "[]" and at = 4]
    by (auto split: prod.splits if_splits)
qed

text \<open>
  C12. Completing a turn is atomic across the two tables: it succeeds exactly when the turn is running at
  the expected generation, the timestamp is not before its last change, and the messages can be
  appended to its session at that generation; then the session has the messages and the turn is
  terminal, both or neither.
\<close>

theorem complete_appends_and_closes_atomically:
  assumes "stores_inv sx d" "list_all (storable_message sx) messages" "encodes (sx_foreground_terminal sx) TurnCompleted"
  shows "case complete_turn sx now tid expected messages at d of (r, d') \<Rightarrow>
     stores_inv sx d'
     \<and> (is_ok r \<longleftrightarrow> (\<exists>t. turns_of sx d tid = Some t \<and> closable (Some t) expected at
          \<and> appendable (sessions_of sx d (turn_session t)) expected messages))
     \<and> (if is_ok r
        then \<exists>t s. turns_of sx d tid = Some t \<and> sessions_of sx d (turn_session t) = Some s
          \<and> r = Ok (extended s messages)
          \<and> sessions_of sx d' = (sessions_of sx d)(turn_session t \<mapsto> extended s messages)
          \<and> turns_of sx d' = (turns_of sx d)(tid \<mapsto> closed TurnCompleted at t)
        else d' = d)"
proof (cases "\<exists>t. turns_of sx d tid = Some t \<and> closable (Some t) expected at
          \<and> appendable (sessions_of sx d (turn_session t)) expected messages")
  case True
  then obtain t s where t: "turns_of sx d tid = Some t" "closable (Some t) expected at"
    "sessions_of sx d (turn_session t) = Some s" "appendable (Some s) expected messages"
    using appendable_Some by blast
  from completable_ok [OF assms(1) t assms(2,3), of now] show ?thesis using True t(1,3) by simp
next
  case False
  then have "\<not> is_ok (fst (complete_turn sx now tid expected messages at d))"
    using complete_turn_Inr [OF assms(1)] by (auto simp: is_ok_iff prod_eq_iff) (metis prod.collapse)
  then show ?thesis
    using False assms(1) transaction_rollback
    by (cases "complete_turn sx now tid expected messages at d"; cases "fst (complete_turn sx now tid expected messages at d)")
       (auto simp: complete_turn_def dest: transaction_rollback)
qed

theorem complete_appends_and_closes_atomically_witness:
  "case complete_turn sample_serde 7 (ForegroundTurnId ''t'') (OwnerGeneration 1) sample_messages 9 sample_started of (r, d') \<Rightarrow>
     stores_inv sample_serde d' \<and> r = Ok (extended (new_session (sample_config ''p'')) sample_messages)
     \<and> turns_of sample_serde d' = [ForegroundTurnId ''t'' \<mapsto> closed TurnCompleted 9 sample_turn]"
proof -
  have session: "turn_session sample_turn = SessionId ''p''"
    by (simp add: turn_session_def sample_turn_def started_turn_def sample_spec_def)
  have "\<exists>t. turns_of sample_serde sample_started (ForegroundTurnId ''t'') = Some t \<and> closable (Some t) (OwnerGeneration 1) 9
     \<and> appendable (sessions_of sample_serde sample_started (turn_session t)) (OwnerGeneration 1) sample_messages"
    using sample_closable sample_appendable by (simp add: sample_started sample_sessions(2) session)
  then show ?thesis
    using complete_appends_and_closes_atomically [OF sample_started(1) sample_messages_storable sample_terminals(1),
        where now = 7 and tid = "ForegroundTurnId ''t''" and expected = "OwnerGeneration 1" and at = 9]
    by (auto simp: sample_started session split: prod.splits)
qed

text \<open>
  Terminating a turn never touches the conversation: it succeeds exactly when the outcome is not
  \<open>completed\<close> and has an unpadded reason, and turn and session are at the expected generation; then
  the turn carries the outcome, and no other turn and no session changed.
\<close>

theorem terminate_leaves_session_unchanged:
  assumes "stores_inv sx d" "encodes (sx_foreground_terminal sx) outcome"
  shows "case terminate_turn sx tid expected outcome at d of (r, d') \<Rightarrow>
     stores_inv sx d' \<and> sessions_of sx d' = sessions_of sx d
     \<and> (is_ok r \<longleftrightarrow> terminable sx d tid expected outcome at)
     \<and> (if is_ok r
        then \<exists>t. turns_of sx d tid = Some t \<and> r = Ok (closed outcome at t)
          \<and> turns_of sx d' = (turns_of sx d)(tid \<mapsto> closed outcome at t)
        else d' = d)"
proof (cases "terminable sx d tid expected outcome at")
  case True
  then obtain t s where t: "turns_of sx d tid = Some t" "closable (Some t) expected at"
    "sessions_of sx d (turn_session t) = Some s" "ss_owner_generation s = expected" "terminal_detail_ok outcome"
    by (auto simp: terminable_def)
  from terminate_ok [OF assms(1) t assms(2)] show ?thesis using True t(1) by simp
next
  case False
  from terminate_err [OF assms(1) this] show ?thesis using False assms(1) by auto
qed

theorem terminate_leaves_session_unchanged_witness:
  "case terminate_turn sample_serde (ForegroundTurnId ''t'') (OwnerGeneration 1) (TurnFailed ''bad'') 9 sample_started of (r, d') \<Rightarrow>
     r = Ok (closed (TurnFailed ''bad'') 9 sample_turn) \<and> sessions_of sample_serde d' = sessions_of sample_serde sample_started"
proof -
  have "turn_session sample_turn = SessionId ''p''"
    by (simp add: turn_session_def sample_turn_def started_turn_def sample_spec_def)
  then have "terminable sample_serde sample_started (ForegroundTurnId ''t'') (OwnerGeneration 1) (TurnFailed ''bad'') 9"
    using sample_closable
    by (simp add: terminable_def sample_started terminal_detail_ok_def unpadded_plain plain_char_def new_session_def)
  then show ?thesis
    using terminate_leaves_session_unchanged [OF sample_started(1) sample_terminals(2), where tid = "ForegroundTurnId ''t''"
        and expected = "OwnerGeneration 1" and at = 9]
    by (auto simp: sample_started split: prod.splits)
qed

text \<open>
  C13. Recovery: \<open>reconcile_running\<close> succeeds exactly when the reason is unpadded and the clock is not
  behind the last change of a running turn; then no turn is running any more, each one that was has an
  unknown outcome with the reason and is returned, and everything else is as it was.
\<close>

theorem reconcile_leaves_no_running_turn:
  assumes "stores_inv sx d" "encodes (sx_foreground_terminal sx) (TurnOutcomeUnknown reason)"
  shows "case reconcile_running_turns sx reason at d of (r, d') \<Rightarrow>
     stores_inv sx d' \<and> (is_ok r \<longleftrightarrow> reconcilable sx d reason at)
     \<and> (if is_ok r
        then turns_of sx d' = (\<lambda>tid. map_option (reconciled reason at) (turns_of sx d tid))
          \<and> (\<forall>tid t. turns_of sx d' tid = Some t \<longrightarrow> \<not> turn_running t)
          \<and> sessions_of sx d' = sessions_of sx d
          \<and> (\<exists>ts. r = Ok ts \<and> set ts = {closed (TurnOutcomeUnknown reason) at t | tid t. turns_of sx d tid = Some t \<and> turn_running t})
        else d' = d)"
proof (cases "reconcilable sx d reason at")
  case True
  then obtain d' ts where "reconcile_running_turns sx reason at d = (Inr ts, d')" "stores_inv sx d'"
     "sessions_of sx d' = sessions_of sx d" "turns_of sx d' = (\<lambda>tid. map_option (reconciled reason at) (turns_of sx d tid))"
     "set ts = {closed (TurnOutcomeUnknown reason) at t | tid t. turns_of sx d tid = Some t \<and> turn_running t}"
    using reconcile_running_ok [OF assms(1) True assms(2)] by blast
  then show ?thesis using True by auto
next
  case False
  from reconcile_running_err [OF assms(1) this assms(2)] show ?thesis using False assms(1) by auto
qed

theorem reconcile_leaves_no_running_turn_witness:
  "case reconcile_running_turns sample_serde ''x'' 9 sample_started of (r, d') \<Rightarrow>
     is_ok r \<and> turns_of sample_serde d' (ForegroundTurnId ''t'') = Some (closed (TurnOutcomeUnknown ''x'') 9 sample_turn)"
proof -
  have "reconcilable sample_serde sample_started ''x'' 9"
    by (simp add: reconcilable_def sample_started unpadded_plain plain_char_def i64_max_def sample_turn_def started_turn_def)
  then show ?thesis
    using reconcile_leaves_no_running_turn [OF sample_started(1) sample_terminals(3), where at = 9]
    by (auto simp: sample_started reconciled_def sample_turn_def started_turn_def turn_running_def split: prod.splits)
qed

text \<open>
  C14. Over any history of calls on sessions and turns, successful or not, by any clients: a session has
  at most one running turn at any time, no turn disappears, and a turn with a terminal never changes.
\<close>

theorem foreground_history_is_exclusive_and_final:
  assumes "(foreground_step sx)\<^sup>*\<^sup>* d d'" "stores_inv sx d"
  shows "stores_inv sx d'
     \<and> (\<forall>a b t u. turns_of sx d' a = Some t \<and> turns_of sx d' b = Some u \<and> turn_running t \<and> turn_running u
          \<and> turn_session t = turn_session u \<longrightarrow> a = b)
     \<and> (\<forall>tid t. turns_of sx d tid = Some t \<longrightarrow> (\<exists>u. turns_of sx d' tid = Some u \<and> (turn_running t \<or> u = t)))"
proof (intro conjI allI impI)
  show inv': "stores_inv sx d'" using foreground.history_invar assms by blast
  fix a b t u
  assume h: "turns_of sx d' a = Some t \<and> turns_of sx d' b = Some u \<and> turn_running t \<and> turn_running u
          \<and> turn_session t = turn_session u"
  have inv: "turns_inv sx d'" using inv' by (simp add: stores_inv_def)
  obtain r where r: "r \<in> set (db_turns d')" "tn_turn_id r = foreground_turn_id_str a" "row_shows sx r t"
    using turn_of_row [OF inv] h by blast
  obtain q where q: "q \<in> set (db_turns d')" "tn_turn_id q = foreground_turn_id_str b" "row_shows sx q u"
    using turn_of_row [OF inv] h by blast
  have "tn_session_id r = tn_session_id q" using r(3) q(3) h by (auto simp: row_shows_def turn_session_def)
  then have "r = q" using inv r(1) q(1) row_running [OF r(3)] row_running [OF q(3)] h by (simp add: turns_inv_def)
  then show "a = b" using r(2) q(2) by (simp add: foreground_turn_id.expand)
next
  fix tid t assume "turns_of sx d tid = Some t"
  from foreground.history_evolves [OF assms this]
  show "\<exists>u. turns_of sx d' tid = Some u \<and> (turn_running t \<or> u = t)" by (auto simp: turn_evolves_def)
qed

theorem foreground_history_is_exclusive_and_final_witness:
  "case terminate_turn sample_serde (ForegroundTurnId ''t'') (OwnerGeneration 1) (TurnFailed ''bad'') 9 sample_started of (r, d') \<Rightarrow>
     stores_inv sample_serde d' \<and> (\<exists>u. turns_of sample_serde d' (ForegroundTurnId ''t'') = Some u)"
proof -
  obtain r d' where run: "terminate_turn sample_serde (ForegroundTurnId ''t'') (OwnerGeneration 1) (TurnFailed ''bad'') 9 sample_started = (r, d')"
    by (rule prod.exhaust)
  have "foreground_step sample_serde sample_started d'"
    by (rule foreground_step.step_terminate [OF sample_terminals(2) run])
  then have "(foreground_step sample_serde)\<^sup>*\<^sup>* sample_started d'" by simp
  note history = foreground_history_is_exclusive_and_final [OF this sample_started(1)]
  have "turns_of sample_serde sample_started (ForegroundTurnId ''t'') = Some sample_turn" by (simp add: sample_started)
  then have "\<exists>u. turns_of sample_serde d' (ForegroundTurnId ''t'') = Some u" using history by blast
  then show ?thesis using run history by simp
qed

end
