(* ===== verification/Delegation_Store.thy ===== *)
theory Delegation_Store
  imports Foreground_Store
begin

text \<open>
  \<open>SqliteDelegationStore\<close> of \<open>apps/hermesd/src/adapters/sqlite_delegation.rs\<close>: background children with
  leases, fencing tokens and owner generations, and the outbox of their completions. A terminal
  disposition and its completion are written in one transaction; a completion is claimed for delivery
  for a while, acknowledged by the holder of the claim, or released by it. Proved here: every operation
  refines a small transition of the snapshot of one delegation.
\<close>

section \<open>Conversions and checks\<close>

definition delegation_to_i64 :: "u64 \<Rightarrow> string \<Rightarrow> delegation_store_error + i64" where
  "delegation_to_i64 value name = ok_or (DelegationInvalid (name @ '' exceeds SQLite integer range'')) (i64_of_u64 value)"

definition delegation_usize_to_i64 :: "nat \<Rightarrow> string \<Rightarrow> delegation_store_error + i64" where
  "delegation_usize_to_i64 value name =
     ok_or (DelegationInvalid (name @ '' exceeds SQLite integer range'')) (i64_of_usize value)"

definition delegation_u64_from_i64 :: "i64 \<Rightarrow> string \<Rightarrow> delegation_store_error + u64" where
  "delegation_u64_from_i64 value name = ok_or (DelegationInvalid (name @ '' is negative'')) (u64_of_i64 value)"

definition increment :: "i64 \<Rightarrow> string \<Rightarrow> delegation_store_error + i64" where
  "increment value name = ok_or (DelegationInvalid (name @ '' overflowed'')) (i64_succ value)"

definition delegation_id_error :: "id_error + 'a \<Rightarrow> delegation_store_error + 'a" where
  "delegation_id_error = map_err (DelegationInvalid \<circ> id_error_text)"

definition delegation_generation :: "i64 \<Rightarrow> delegation_store_error + owner_generation" where
  "delegation_generation value =
     and_then (delegation_u64_from_i64 value ''owner generation'') (\<lambda>w. delegation_id_error (owner_generation_new w))"

definition delegation_fencing_token :: "i64 \<Rightarrow> delegation_store_error + fencing_token" where
  "delegation_fencing_token value =
     and_then (delegation_u64_from_i64 value ''fencing token'') (\<lambda>w. delegation_id_error (fencing_token_new w))"

fun delegation_session_error :: "session_store_error \<Rightarrow> delegation_store_error" where
  "delegation_session_error (SessionStorage message) = DelegationStorage message"
| "delegation_session_error other = DelegationInvalid (session_store_error_text other)"

definition validate_delegation_spec :: "delegation_spec \<Rightarrow> delegation_store_error + unit" where
  "validate_delegation_spec spec =
     and_then (ensure (ds_parent_session_id spec \<noteq> ds_child_session_id spec)
       (DelegationInvalid ''delegation parent and child sessions must be distinct'')) (\<lambda>_.
     ensure (\<not> (ds_goal spec = [] \<or> trim (ds_goal spec) \<noteq> ds_goal spec))
       (DelegationInvalid ''delegation goal must be non-empty and have no surrounding whitespace''))"

definition terminal_detail :: "string \<Rightarrow> delegation_store_error + unit" where
  "terminal_detail detail =
     ensure (trim detail \<noteq> []) (DelegationInvalid ''non-completed delegation terminal detail must be non-empty'')"

fun validate_delegation_terminal :: "delegation_terminal \<Rightarrow> delegation_store_error + unit" where
  "validate_delegation_terminal (DelegationCompleted _) = Ok ()"
| "validate_delegation_terminal (DelegationFailed detail) = terminal_detail detail"
| "validate_delegation_terminal (DelegationCancelled detail) = terminal_detail detail"
| "validate_delegation_terminal (DelegationOutcomeUnknown detail) = terminal_detail detail"

definition validate_detail :: "string \<Rightarrow> string \<Rightarrow> delegation_store_error + unit" where
  "validate_detail detail name =
     ensure (\<not> (trim detail = [] \<or> trim detail \<noteq> detail))
       (DelegationInvalid (name @ '' must be non-empty and have no surrounding whitespace''))"

definition validate_lease :: "u64 \<Rightarrow> u64 \<Rightarrow> delegation_store_error + unit" where
  "validate_lease now_ms deadline_ms =
     ensure (\<not> deadline_ms \<le> now_ms)
       (DelegationInvalid ''delegation lease deadline must be later than the mutation timestamp'')"

definition validate_claim :: "u64 \<Rightarrow> u64 \<Rightarrow> delegation_store_error + unit" where
  "validate_claim now_ms deadline_ms =
     ensure (\<not> deadline_ms \<le> now_ms)
       (DelegationInvalid ''delivery claim deadline must be later than the claim timestamp'')"

definition ensure_delegation_generation :: "delegation_row \<Rightarrow> owner_generation \<Rightarrow> delegation_store_error + unit" where
  "ensure_delegation_generation raw expected =
     and_then (delegation_u64_from_i64 (dr_owner_generation raw) ''owner generation'') (\<lambda>actual.
       if actual \<noteq> owner_generation_get expected
       then and_then (delegation_id_error (delegation_id_new (dr_delegation_id raw))) (\<lambda>delegation_id.
         Err (DelegationGenerationConflict delegation_id (owner_generation_get expected) actual))
       else Ok ())"

definition ensure_running_fence :: "delegation_row \<Rightarrow> fencing_token \<Rightarrow> delegation_store_error + unit" where
  "ensure_running_fence raw expected =
     and_then (if 0 < dr_fencing_token raw
               then and_then (delegation_u64_from_i64 (dr_fencing_token raw) ''fencing token'') (\<lambda>w. Ok (Some w))
               else Ok None) (\<lambda>actual.
       if dr_state raw \<noteq> ''running'' \<or> actual \<noteq> Some (fencing_token_get expected)
       then and_then (delegation_id_error (delegation_id_new (dr_delegation_id raw))) (\<lambda>delegation_id.
         Err (DelegationFencingConflict delegation_id (fencing_token_get expected) actual))
       else Ok ())"

definition ensure_monotonic_timestamp :: "delegation_row \<Rightarrow> u64 \<Rightarrow> string \<Rightarrow> delegation_store_error + unit" where
  "ensure_monotonic_timestamp raw timestamp_ms name =
     and_then (delegation_u64_from_i64 (dr_updated_at_ms raw) ''previous update timestamp'') (\<lambda>previous.
       ensure (\<not> timestamp_ms < previous)
         (DelegationInvalid (name @ '' '' @ show_u64 timestamp_ms @ '' precedes the previous update at '' @ show_u64 previous)))"

definition ensure_active_lease :: "delegation_row \<Rightarrow> u64 \<Rightarrow> delegation_store_error + unit" where
  "ensure_active_lease raw mutation_at_ms =
     and_then (ok_or (DelegationInvalid ''running delegation has no lease deadline'') (dr_lease_expires_at_ms raw)) (\<lambda>deadline.
     and_then (delegation_to_i64 mutation_at_ms ''worker mutation timestamp'') (\<lambda>at.
       ensure (\<not> deadline \<le> at)
         (DelegationInvalid (''delegation worker lease expired at '' @ show_int deadline))))"

definition cancellation_from_raw :: "delegation_row \<Rightarrow> delegation_store_error + delegation_cancellation option" where
  "cancellation_from_raw raw =
     (case (dr_cancellation_reason raw, dr_cancellation_requested_at_ms raw) of
        (None, None) \<Rightarrow> Ok None
      | (Some reason, Some requested) \<Rightarrow>
          and_then (validate_detail reason ''stored delegation cancellation reason'') (\<lambda>_.
          and_then (delegation_u64_from_i64 requested ''cancellation timestamp'') (\<lambda>requested_at_ms.
          and_then (delegation_u64_from_i64 (dr_created_at_ms raw) ''creation timestamp'') (\<lambda>created_at_ms.
          and_then (delegation_u64_from_i64 (dr_updated_at_ms raw) ''update timestamp'') (\<lambda>updated_at_ms.
          and_then (ensure (\<not> (requested_at_ms < created_at_ms \<or> updated_at_ms < requested_at_ms))
            (DelegationInvalid ''stored cancellation timestamp is outside the delegation lifetime'')) (\<lambda>_.
          Ok (Some \<lparr>dc_reason = reason, dc_requested_at_ms = requested_at_ms\<rparr>))))))
      | _ \<Rightarrow> Err (DelegationInvalid ''stored cancellation reason and timestamp must be paired''))"

definition ensure_no_cancellation :: "delegation_row \<Rightarrow> delegation_store_error + unit" where
  "ensure_no_cancellation raw =
     ensure (\<not> (dr_cancellation_reason raw \<noteq> None \<or> dr_cancellation_requested_at_ms raw \<noteq> None))
       (DelegationInvalid (dr_state raw @ '' delegation retained a cancellation request''))"

definition ensure_legal_terminal :: "delegation_row \<Rightarrow> delegation_terminal \<Rightarrow> delegation_store_error + unit" where
  "ensure_legal_terminal raw outcome =
     and_then (cancellation_from_raw raw) (\<lambda>cancellation.
     case (cancellation, outcome) of
       (None, DelegationCancelled _) \<Rightarrow>
         Err (DelegationInvalid ''worker cannot cancel a delegation without durable operator intent'')
     | (None, _) \<Rightarrow> Ok ()
     | (Some c, _) \<Rightarrow>
         (if outcome = DelegationCancelled (dc_reason c) then Ok ()
          else and_then (delegation_id_error (delegation_id_new (dr_delegation_id raw))) (\<lambda>delegation_id.
            Err (DelegationNotClaimable delegation_id ''cancellation_requested''))))"

definition reconciliation_outcome :: "delegation_row \<Rightarrow> string \<Rightarrow> delegation_store_error + delegation_terminal" where
  "reconciliation_outcome raw unknown_reason =
     and_then (cancellation_from_raw raw) (\<lambda>cancellation.
     Ok (case cancellation of Some c \<Rightarrow> DelegationCancelled (dc_reason c) | None \<Rightarrow> DelegationOutcomeUnknown unknown_reason))"

section \<open>Reading a delegation\<close>

definition load_delegation :: "delegation_id \<Rightarrow> (delegation_store_error, delegation_row) db_action" where
  "load_delegation delegation_id =
     act_try (\<lambda>d. ok_or (DelegationNotFound delegation_id)
       (row_at dr_delegation_id (db_delegations d) (delegation_id_str delegation_id)))"

definition spec_from_raw :: "delegation_row \<Rightarrow> delegation_store_error + delegation_spec" where
  "spec_from_raw raw =
     and_then (delegation_id_error (delegation_id_new (dr_delegation_id raw))) (\<lambda>delegation_id.
     and_then (delegation_id_error (completion_event_id_new (dr_completion_event_id raw))) (\<lambda>event_id.
     and_then (delegation_id_error (session_id_new (dr_parent_session_id raw))) (\<lambda>parent.
     and_then (delegation_id_error (session_id_new (dr_child_session_id raw))) (\<lambda>child.
     let spec = \<lparr>ds_delegation_id = delegation_id, ds_completion_event_id = event_id, ds_parent_session_id = parent,
                 ds_child_session_id = child, ds_goal = dr_goal raw, ds_context = dr_context raw\<rparr>
     in and_then (validate_delegation_spec spec) (\<lambda>_. Ok spec)))))"

definition running_state :: "delegation_row \<Rightarrow> delegation_store_error + delegation_state" where
  "running_state raw =
     and_then (ok_or (DelegationInvalid ''running delegation has no worker id'') (dr_worker_id raw)) (\<lambda>worker.
     and_then (delegation_id_error (delegation_worker_id_new worker)) (\<lambda>worker_id.
     and_then (delegation_fencing_token (dr_fencing_token raw)) (\<lambda>token.
     and_then (ok_or (DelegationInvalid ''running delegation has no lease deadline'') (dr_lease_expires_at_ms raw)) (\<lambda>lease.
     and_then (delegation_u64_from_i64 lease ''lease deadline'') (\<lambda>lease_expires_at_ms.
     and_then (cancellation_from_raw raw) (\<lambda>cancellation.
     Ok (DelegationRunning worker_id token lease_expires_at_ms cancellation)))))))"

definition terminal_state :: "serde \<Rightarrow> delegation_row \<Rightarrow> delegation_store_error + delegation_state" where
  "terminal_state sx raw =
     and_then (ensure_no_cancellation raw) (\<lambda>_.
     and_then (ok_or (DelegationInvalid ''terminal delegation has no outcome'') (dr_terminal_json raw)) (\<lambda>encoded.
     and_then (map_err (\<lambda>e. DelegationInvalid (''stored delegation terminal is invalid: '' @ e))
       (cd_dec (sx_delegation_terminal sx) encoded)) (\<lambda>outcome.
     and_then (ensure (delegation_terminal_status outcome = dr_state raw)
       (DelegationInvalid (''delegation state '' @ dr_state raw @ '' disagrees with terminal ''
          @ delegation_terminal_status outcome))) (\<lambda>_.
     and_then (delegation_u64_from_i64 (dr_updated_at_ms raw) ''completion timestamp'') (\<lambda>at.
     Ok (DelegationTerminal outcome at))))))"

definition delegation_state_of_row :: "serde \<Rightarrow> delegation_row \<Rightarrow> delegation_store_error + delegation_state" where
  "delegation_state_of_row sx raw =
     (if dr_state raw = ''pending'' then and_then (ensure_no_cancellation raw) (\<lambda>_. Ok DelegationPending)
      else if dr_state raw = ''running'' then running_state raw
      else if dr_state raw \<in> {''completed'', ''failed'', ''cancelled'', ''outcome_unknown''} then terminal_state sx raw
      else Err (DelegationInvalid (''unknown delegation state '' @ sx_debug_str sx (dr_state raw))))"

definition delegation_snapshot_from_raw :: "serde \<Rightarrow> delegation_row \<Rightarrow> delegation_store_error + delegation_snapshot" where
  "delegation_snapshot_from_raw sx raw =
     and_then (spec_from_raw raw) (\<lambda>spec.
     and_then (delegation_state_of_row sx raw) (\<lambda>state.
     and_then (delegation_generation (dr_owner_generation raw)) (\<lambda>generation.
     and_then (delegation_u64_from_i64 (dr_created_at_ms raw) ''creation timestamp'') (\<lambda>created.
     and_then (delegation_u64_from_i64 (dr_updated_at_ms raw) ''update timestamp'') (\<lambda>updated.
     Ok \<lparr>dn_spec = spec, dn_owner_generation = generation, dn_state = state, dn_created_at_ms = created,
         dn_updated_at_ms = updated\<rparr>)))))"

definition completion_from_raw ::
  "delegation_row \<Rightarrow> delegation_terminal \<Rightarrow> u64 \<Rightarrow> delegation_store_error + delegation_completion" where
  "completion_from_raw raw outcome completed_at_ms =
     and_then (spec_from_raw raw) (\<lambda>spec.
     Ok \<lparr>dm_event_id = ds_completion_event_id spec, dm_delegation_id = ds_delegation_id spec, dm_spec = spec,
         dm_outcome = outcome, dm_completed_at_ms = completed_at_ms\<rparr>)"

definition delegation_load :: "serde \<Rightarrow> delegation_id \<Rightarrow> (delegation_store_error, delegation_snapshot) db_action" where
  "delegation_load sx delegation_id =
     act_bind (load_delegation delegation_id) (\<lambda>raw. act_lift (delegation_snapshot_from_raw sx raw))"

definition load_listed :: "serde \<Rightarrow> string \<Rightarrow> (delegation_store_error, delegation_snapshot) db_action" where
  "load_listed sx key =
     act_bind (act_lift (delegation_id_error (delegation_id_new key))) (\<lambda>delegation_id. delegation_load sx delegation_id)"

definition list_for_parent :: "serde \<Rightarrow> session_id \<Rightarrow> nat \<Rightarrow> (delegation_store_error, delegation_snapshot list) db_action" where
  "list_for_parent sx parent limit =
     act_bind (act_lift (ensure (limit \<noteq> 0) (DelegationInvalid ''delegation list limit must be greater than zero''))) (\<lambda>_.
     act_bind (act_lift (delegation_usize_to_i64 limit ''delegation list limit'')) (\<lambda>limit'.
     act_bind (act_read (\<lambda>d. map dr_delegation_id (take (nat limit')
       (rev (sort_key (\<lambda>r. (dr_created_at_ms r, dr_delegation_id r))
          (filter (\<lambda>r. dr_parent_session_id r = session_id_str parent) (db_delegations d))))))) (\<lambda>ids.
     act_collect (load_listed sx) ids)))"

definition pending_delegations :: "serde \<Rightarrow> nat \<Rightarrow> (delegation_store_error, delegation_snapshot list) db_action" where
  "pending_delegations sx limit =
     act_bind (act_lift (ensure (limit \<noteq> 0) (DelegationInvalid ''pending delegation limit must be greater than zero''))) (\<lambda>_.
     act_bind (act_lift (delegation_usize_to_i64 limit ''pending limit'')) (\<lambda>limit'.
     act_bind (act_read (\<lambda>d. map dr_delegation_id (take (nat limit')
       (sort_key (\<lambda>r. (dr_created_at_ms r, dr_delegation_id r))
          (filter (\<lambda>r. dr_state r = ''pending'') (db_delegations d)))))) (\<lambda>ids.
     act_collect (load_listed sx) ids)))"

section \<open>Creating a delegation\<close>

definition ensure_session_exists :: "session_id \<Rightarrow> string \<Rightarrow> (delegation_store_error, unit) db_action" where
  "ensure_session_exists session_id relation =
     act_bind (select_row db_sessions (\<lambda>r. sr_session_id r = session_id_str session_id)) (\<lambda>found.
     act_lift (ensure (found \<noteq> None)
       (DelegationInvalid (relation @ '' session does not exist: '' @ session_id_str session_id))))"

definition create_delegation_in_transaction ::
  "delegation_spec \<Rightarrow> u64 \<Rightarrow> (delegation_store_error, delegation_snapshot) db_action" where
  "create_delegation_in_transaction spec now_ms =
     act_bind (act_lift (validate_delegation_spec spec)) (\<lambda>_.
     act_bind (select_row db_delegations
       (\<lambda>r. dr_delegation_id r = delegation_id_str (ds_delegation_id spec)
          \<or> dr_completion_event_id r = completion_event_id_str (ds_completion_event_id spec))) (\<lambda>collision.
     act_bind (act_lift (ensure (collision = None) (DelegationAlreadyExists (ds_delegation_id spec)))) (\<lambda>_.
     act_bind (ensure_session_exists (ds_parent_session_id spec) ''parent'') (\<lambda>_.
     act_bind (ensure_session_exists (ds_child_session_id spec) ''child'') (\<lambda>_.
     act_bind (act_lift (delegation_to_i64 now_ms ''creation timestamp'')) (\<lambda>now.
     act_bind (insert_delegation DelegationStorage
       \<lparr>dr_delegation_id = delegation_id_str (ds_delegation_id spec),
        dr_completion_event_id = completion_event_id_str (ds_completion_event_id spec),
        dr_parent_session_id = session_id_str (ds_parent_session_id spec),
        dr_child_session_id = session_id_str (ds_child_session_id spec), dr_goal = ds_goal spec,
        dr_context = ds_context spec, dr_state = ''pending'', dr_owner_generation = 1, dr_worker_id = None,
        dr_fencing_token = 0, dr_lease_expires_at_ms = None, dr_terminal_json = None, dr_created_at_ms = now,
        dr_updated_at_ms = now, dr_cancellation_reason = None, dr_cancellation_requested_at_ms = None\<rparr>) (\<lambda>_.
     act_bind (act_lift (delegation_generation 1)) (\<lambda>generation.
     act_return \<lparr>dn_spec = spec, dn_owner_generation = generation, dn_state = DelegationPending,
                 dn_created_at_ms = now_ms, dn_updated_at_ms = now_ms\<rparr>))))))))"

definition delegation_create :: "delegation_spec \<Rightarrow> u64 \<Rightarrow> (delegation_store_error, delegation_snapshot) db_action" where
  "delegation_create spec now_ms =
     act_bind (act_lift (validate_delegation_spec spec)) (\<lambda>_.
     transaction (create_delegation_in_transaction spec now_ms))"

definition create_with_child ::
  "serde \<Rightarrow> i64 \<Rightarrow> session_config \<Rightarrow> delegation_spec \<Rightarrow> u64 \<Rightarrow> (delegation_store_error, delegation_snapshot) db_action" where
  "create_with_child sx now child_config spec now_ms =
     act_bind (act_lift (validate_delegation_spec spec)) (\<lambda>_.
     act_bind (act_lift (ensure (sc_session_id child_config = ds_child_session_id spec)
       (DelegationInvalid ''child session config does not match delegation child identity''))) (\<lambda>_.
     transaction
       (act_bind (ensure_session_exists (ds_parent_session_id spec) ''parent'') (\<lambda>_.
        act_bind (act_map_err delegation_session_error (create_session_in_transaction sx now child_config)) (\<lambda>_.
        create_delegation_in_transaction spec now_ms)))))"

section \<open>Claiming, leasing and finishing\<close>

text \<open>The check that every fenced update makes on the number of rows it changed.\<close>

definition ensure_one_updated :: "nat \<Rightarrow> delegation_id \<Rightarrow> u64 \<Rightarrow> delegation_row \<Rightarrow> delegation_store_error + unit" where
  "ensure_one_updated updated delegation_id expected raw =
     (if updated \<noteq> 1
      then and_then (delegation_u64_from_i64 (dr_owner_generation raw) ''owner generation'') (\<lambda>actual.
        Err (DelegationGenerationConflict delegation_id expected actual))
      else Ok ())"

definition delegation_claim ::
  "serde \<Rightarrow> delegation_id \<Rightarrow> owner_generation \<Rightarrow> delegation_worker_id \<Rightarrow> u64 \<Rightarrow> u64
     \<Rightarrow> (delegation_store_error, delegation_snapshot) db_action" where
  "delegation_claim sx delegation_id expected worker_id now_ms lease_expires_at_ms =
     act_bind (act_lift (validate_lease now_ms lease_expires_at_ms)) (\<lambda>_.
     act_bind (transaction
       (act_bind (load_delegation delegation_id) (\<lambda>raw.
        act_bind (act_lift (ensure_delegation_generation raw expected)) (\<lambda>_.
        act_bind (act_lift (ensure_monotonic_timestamp raw now_ms ''claim timestamp'')) (\<lambda>_.
        act_bind (act_lift (ensure_no_cancellation raw)) (\<lambda>_.
        act_bind (act_lift (ensure (dr_state raw = ''pending'') (DelegationNotClaimable delegation_id (dr_state raw)))) (\<lambda>_.
        act_bind (act_lift (increment (dr_owner_generation raw) ''owner generation'')) (\<lambda>next_generation.
        act_bind (act_lift (increment (dr_fencing_token raw) ''fencing token'')) (\<lambda>next_fence.
        act_bind (act_lift (delegation_to_i64 lease_expires_at_ms ''lease deadline'')) (\<lambda>lease.
        act_bind (act_lift (delegation_to_i64 now_ms ''claim timestamp'')) (\<lambda>now.
        act_bind (act_lift (delegation_to_i64 (owner_generation_get expected) ''expected generation'')) (\<lambda>generation.
        act_bind (update_delegations DelegationStorage
          (\<lambda>r. dr_delegation_id r = delegation_id_str delegation_id \<and> dr_state r = ''pending''
             \<and> dr_owner_generation r = generation)
          (\<lambda>r. r\<lparr>dr_state := ''running'', dr_owner_generation := next_generation,
                 dr_worker_id := Some (delegation_worker_id_str worker_id), dr_fencing_token := next_fence,
                 dr_lease_expires_at_ms := Some lease, dr_updated_at_ms := now\<rparr>)) (\<lambda>updated.
        act_lift (ensure_one_updated updated delegation_id (owner_generation_get expected) raw)))))))))))))) (\<lambda>_.
     delegation_load sx delegation_id))"

definition delegation_heartbeat ::
  "serde \<Rightarrow> delegation_id \<Rightarrow> owner_generation \<Rightarrow> fencing_token \<Rightarrow> u64 \<Rightarrow> u64
     \<Rightarrow> (delegation_store_error, delegation_snapshot) db_action" where
  "delegation_heartbeat sx delegation_id expected token now_ms lease_expires_at_ms =
     act_bind (act_lift (validate_lease now_ms lease_expires_at_ms)) (\<lambda>_.
     act_bind (transaction
       (act_bind (load_delegation delegation_id) (\<lambda>raw.
        act_bind (act_lift (ensure_delegation_generation raw expected)) (\<lambda>_.
        act_bind (act_lift (ensure_running_fence raw token)) (\<lambda>_.
        act_bind (act_lift (ensure_monotonic_timestamp raw now_ms ''heartbeat timestamp'')) (\<lambda>_.
        act_bind (act_lift (ensure_active_lease raw now_ms)) (\<lambda>_.
        act_bind (act_lift (ok_or (DelegationInvalid ''running delegation has no lease deadline'')
          (dr_lease_expires_at_ms raw))) (\<lambda>current_deadline.
        act_bind (act_lift (delegation_to_i64 lease_expires_at_ms ''lease deadline'')) (\<lambda>lease.
        act_bind (act_lift (ensure (\<not> lease \<le> current_deadline)
          (DelegationInvalid ''heartbeat must extend the current delegation lease''))) (\<lambda>_.
        act_bind (act_lift (increment (dr_owner_generation raw) ''owner generation'')) (\<lambda>next_generation.
        act_bind (act_lift (delegation_to_i64 now_ms ''heartbeat timestamp'')) (\<lambda>now.
        act_bind (act_lift (delegation_to_i64 (owner_generation_get expected) ''expected generation'')) (\<lambda>generation.
        act_bind (act_lift (delegation_to_i64 (fencing_token_get token) ''fencing token'')) (\<lambda>fence.
        act_bind (update_delegations DelegationStorage
          (\<lambda>r. dr_delegation_id r = delegation_id_str delegation_id \<and> dr_state r = ''running''
             \<and> dr_owner_generation r = generation \<and> dr_fencing_token r = fence)
          (\<lambda>r. r\<lparr>dr_owner_generation := next_generation, dr_lease_expires_at_ms := Some lease,
                 dr_updated_at_ms := now\<rparr>)) (\<lambda>updated.
        act_lift (ensure_one_updated updated delegation_id (owner_generation_get expected) raw)))))))))))))))) (\<lambda>_.
     delegation_load sx delegation_id))"

definition insert_completion :: "serde \<Rightarrow> delegation_completion \<Rightarrow> (delegation_store_error, unit) db_action" where
  "insert_completion sx completion =
     act_bind (act_lift (map_err DelegationStorage (cd_enc (sx_completion sx) completion))) (\<lambda>payload.
     act_bind (act_lift (delegation_to_i64 (dm_completed_at_ms completion) ''completion timestamp'')) (\<lambda>created_at.
     insert_completion_row DelegationStorage
       \<lparr>cr_event_id = completion_event_id_str (dm_event_id completion),
        cr_delegation_id = delegation_id_str (dm_delegation_id completion), cr_payload_json = payload,
        cr_delivery_state = ''pending'', cr_delivery_claim_id = None, cr_delivery_claim_expires_at_ms = None,
        cr_delivery_attempts = 0, cr_created_at_ms = created_at, cr_delivered_at_ms = None\<rparr>))"

text \<open>The \<open>SET\<close> clause with which a running delegation ends.\<close>

definition settled_row :: "delegation_terminal \<Rightarrow> i64 \<Rightarrow> string \<Rightarrow> i64 \<Rightarrow> delegation_row \<Rightarrow> delegation_row" where
  "settled_row outcome next_generation terminal_json at r =
     r\<lparr>dr_state := delegation_terminal_status outcome, dr_owner_generation := next_generation,
       dr_lease_expires_at_ms := None, dr_terminal_json := Some terminal_json, dr_cancellation_reason := None,
       dr_cancellation_requested_at_ms := None, dr_updated_at_ms := at\<rparr>"

text \<open>The guards that \<open>finish\<close> and \<open>complete_child\<close> share, and the writes they share.\<close>

definition open_delegation ::
  "delegation_id \<Rightarrow> delegation_authority \<Rightarrow> delegation_terminal \<Rightarrow> u64 \<Rightarrow> (delegation_store_error, delegation_row) db_action" where
  "open_delegation delegation_id authority outcome completed_at_ms =
     act_bind (load_delegation delegation_id) (\<lambda>raw.
     act_bind (act_lift (ensure_delegation_generation raw (da_owner_generation authority))) (\<lambda>_.
     act_bind (act_lift (ensure_running_fence raw (da_fencing_token authority))) (\<lambda>_.
     act_bind (act_lift (ensure_monotonic_timestamp raw completed_at_ms ''completion timestamp'')) (\<lambda>_.
     act_bind (act_lift (ensure_active_lease raw completed_at_ms)) (\<lambda>_.
     act_bind (act_lift (ensure_legal_terminal raw outcome)) (\<lambda>_.
     act_return raw))))))"

definition settle_delegation ::
  "serde \<Rightarrow> delegation_id \<Rightarrow> delegation_authority \<Rightarrow> delegation_row \<Rightarrow> delegation_terminal \<Rightarrow> u64
     \<Rightarrow> (delegation_store_error, delegation_completion) db_action" where
  "settle_delegation sx delegation_id authority raw outcome completed_at_ms =
     act_bind (act_lift (completion_from_raw raw outcome completed_at_ms)) (\<lambda>completion.
     act_bind (act_lift (increment (dr_owner_generation raw) ''owner generation'')) (\<lambda>next_generation.
     act_bind (act_lift (map_err DelegationStorage (cd_enc (sx_delegation_terminal sx) outcome))) (\<lambda>terminal_json.
     act_bind (act_lift (delegation_to_i64 completed_at_ms ''completion timestamp'')) (\<lambda>completed_at.
     act_bind (act_lift (delegation_to_i64 (owner_generation_get (da_owner_generation authority)) ''expected generation'')) (\<lambda>generation.
     act_bind (act_lift (delegation_to_i64 (fencing_token_get (da_fencing_token authority)) ''fencing token'')) (\<lambda>fence.
     act_bind (update_delegations DelegationStorage
        (\<lambda>r. dr_delegation_id r = delegation_id_str delegation_id \<and> dr_state r = ''running''
           \<and> dr_owner_generation r = generation \<and> dr_fencing_token r = fence)
        (settled_row outcome next_generation terminal_json completed_at)) (\<lambda>updated.
     act_bind (act_lift (ensure_one_updated updated delegation_id
        (owner_generation_get (da_owner_generation authority)) raw)) (\<lambda>_.
     act_bind (insert_completion sx completion) (\<lambda>_.
     act_return completion)))))))))"

definition delegation_finish ::
  "serde \<Rightarrow> delegation_id \<Rightarrow> owner_generation \<Rightarrow> fencing_token \<Rightarrow> delegation_terminal \<Rightarrow> u64
     \<Rightarrow> (delegation_store_error, delegation_completion) db_action" where
  "delegation_finish sx delegation_id expected token outcome completed_at_ms =
     (let authority = \<lparr>da_owner_generation = expected, da_fencing_token = token\<rparr> in
     act_bind (act_lift (validate_delegation_terminal outcome)) (\<lambda>_.
     transaction
       (act_bind (open_delegation delegation_id authority outcome completed_at_ms) (\<lambda>raw.
        settle_delegation sx delegation_id authority raw outcome completed_at_ms))))"

definition complete_child ::
  "serde \<Rightarrow> i64 \<Rightarrow> delegation_id \<Rightarrow> delegation_authority \<Rightarrow> owner_generation \<Rightarrow> semantic_message list \<Rightarrow> string \<Rightarrow> u64
     \<Rightarrow> (delegation_store_error, delegation_completion) db_action" where
  "complete_child sx now delegation_id authority child_generation child_messages summary completed_at_ms =
     (let outcome = DelegationCompleted summary in
     act_bind (act_lift (validate_delegation_terminal outcome)) (\<lambda>_.
     transaction
       (act_bind (open_delegation delegation_id authority outcome completed_at_ms) (\<lambda>raw.
        act_bind (act_lift (delegation_id_error (session_id_new (dr_child_session_id raw)))) (\<lambda>child_session_id.
        act_bind (act_map_err delegation_session_error
          (append_turn_in_transaction sx now child_session_id child_generation child_messages)) (\<lambda>_.
        settle_delegation sx delegation_id authority raw outcome completed_at_ms))))))"

section \<open>Cancelling\<close>

definition cancel_pending ::
  "serde \<Rightarrow> delegation_id \<Rightarrow> owner_generation \<Rightarrow> string \<Rightarrow> u64 \<Rightarrow> delegation_row \<Rightarrow> (delegation_store_error, unit) db_action" where
  "cancel_pending sx delegation_id expected reason requested_at_ms raw =
     (let outcome = DelegationCancelled reason in
     act_bind (act_lift (completion_from_raw raw outcome requested_at_ms)) (\<lambda>completion.
     act_bind (act_lift (increment (dr_owner_generation raw) ''owner generation'')) (\<lambda>next_generation.
     act_bind (act_lift (map_err DelegationStorage (cd_enc (sx_delegation_terminal sx) outcome))) (\<lambda>terminal_json.
     act_bind (act_lift (delegation_to_i64 requested_at_ms ''cancellation timestamp'')) (\<lambda>requested_at.
     act_bind (act_lift (delegation_to_i64 (owner_generation_get expected) ''expected generation'')) (\<lambda>generation.
     act_bind (update_delegations DelegationStorage
        (\<lambda>r. dr_delegation_id r = delegation_id_str delegation_id \<and> dr_state r = ''pending''
           \<and> dr_owner_generation r = generation)
        (\<lambda>r. r\<lparr>dr_state := ''cancelled'', dr_owner_generation := next_generation, dr_fencing_token := 1,
               dr_terminal_json := Some terminal_json, dr_updated_at_ms := requested_at\<rparr>)) (\<lambda>updated.
     act_bind (act_lift (ensure_one_updated updated delegation_id (owner_generation_get expected) raw)) (\<lambda>_.
     insert_completion sx completion))))))))"

definition request_cancellation ::
  "delegation_id \<Rightarrow> owner_generation \<Rightarrow> string \<Rightarrow> u64 \<Rightarrow> delegation_row \<Rightarrow> (delegation_store_error, unit) db_action" where
  "request_cancellation delegation_id expected reason requested_at_ms raw =
     (case (dr_cancellation_reason raw, dr_cancellation_requested_at_ms raw) of
        (Some existing, Some _) \<Rightarrow>
          act_lift (ensure (existing = reason) (DelegationNotClaimable delegation_id ''cancellation_requested''))
      | (None, None) \<Rightarrow>
          act_bind (act_lift (delegation_to_i64 requested_at_ms ''cancellation timestamp'')) (\<lambda>requested_at.
          act_bind (act_lift (delegation_to_i64 (owner_generation_get expected) ''expected generation'')) (\<lambda>generation.
          act_bind (update_delegations DelegationStorage
             (\<lambda>r. dr_delegation_id r = delegation_id_str delegation_id \<and> dr_state r = ''running''
                \<and> dr_owner_generation r = generation \<and> dr_cancellation_reason r = None
                \<and> dr_cancellation_requested_at_ms r = None)
             (\<lambda>r. r\<lparr>dr_cancellation_reason := Some reason, dr_cancellation_requested_at_ms := Some requested_at,
                    dr_updated_at_ms := requested_at\<rparr>)) (\<lambda>updated.
          act_lift (ensure_one_updated updated delegation_id (owner_generation_get expected) raw))))
      | _ \<Rightarrow> act_lift (Err (DelegationInvalid ''stored cancellation reason and timestamp must be paired'')))"

definition delegation_cancel ::
  "serde \<Rightarrow> delegation_id \<Rightarrow> owner_generation \<Rightarrow> string \<Rightarrow> u64
     \<Rightarrow> (delegation_store_error, delegation_snapshot) db_action" where
  "delegation_cancel sx delegation_id expected reason requested_at_ms =
     act_bind (act_lift (validate_detail reason ''delegation cancellation reason'')) (\<lambda>_.
     act_bind (transaction
       (act_bind (load_delegation delegation_id) (\<lambda>raw.
        act_bind (act_lift (ensure_delegation_generation raw expected)) (\<lambda>_.
        act_bind (act_lift (ensure_monotonic_timestamp raw requested_at_ms ''cancellation timestamp'')) (\<lambda>_.
        if dr_state raw = ''pending'' then cancel_pending sx delegation_id expected reason requested_at_ms raw
        else if dr_state raw = ''running''
        then act_bind (act_lift (ensure_active_lease raw requested_at_ms)) (\<lambda>_.
          request_cancellation delegation_id expected reason requested_at_ms raw)
        else act_lift (Err (DelegationNotClaimable delegation_id (dr_state raw)))))))) (\<lambda>_.
     delegation_load sx delegation_id))"

section \<open>Reconciling\<close>

definition reconcile_delegation ::
  "serde \<Rightarrow> (delegation_row \<Rightarrow> bool) \<Rightarrow> delegation_row \<Rightarrow> string \<Rightarrow> i64 \<Rightarrow> u64
     \<Rightarrow> (delegation_store_error, delegation_completion) db_action" where
  "reconcile_delegation sx due raw unknown_reason now now_ms =
     act_bind (act_lift (reconciliation_outcome raw unknown_reason)) (\<lambda>outcome.
     act_bind (act_lift (completion_from_raw raw outcome now_ms)) (\<lambda>completion.
     act_bind (act_lift (increment (dr_owner_generation raw) ''owner generation'')) (\<lambda>next_generation.
     act_bind (act_lift (map_err DelegationStorage (cd_enc (sx_delegation_terminal sx) outcome))) (\<lambda>terminal_json.
     act_bind (update_delegations DelegationStorage
        (\<lambda>r. dr_delegation_id r = dr_delegation_id raw \<and> dr_state r = ''running''
           \<and> dr_owner_generation r = dr_owner_generation raw \<and> dr_fencing_token r = dr_fencing_token raw \<and> due r)
        (settled_row outcome next_generation terminal_json now)) (\<lambda>updated.
     act_bind (act_lift (if updated \<noteq> 1
        then and_then (delegation_u64_from_i64 (dr_owner_generation raw) ''owner generation'') (\<lambda>actual.
          Err (DelegationGenerationConflict (dm_delegation_id completion) actual actual))
        else Ok ())) (\<lambda>_.
     act_bind (insert_completion sx completion) (\<lambda>_.
     act_return completion)))))))"

text \<open>\<open>lease_expires_at_ms <= ?\<close>, which is not true of NULL.\<close>

definition lease_due :: "i64 \<Rightarrow> delegation_row \<Rightarrow> bool" where
  "lease_due now r \<longleftrightarrow> (case dr_lease_expires_at_ms r of None \<Rightarrow> False | Some lease \<Rightarrow> lease \<le> now)"

definition reconcile_expired_row ::
  "serde \<Rightarrow> i64 \<Rightarrow> u64 \<Rightarrow> delegation_row \<Rightarrow> (delegation_store_error, delegation_completion) db_action" where
  "reconcile_expired_row sx now now_ms raw =
     act_bind (act_lift (ensure_monotonic_timestamp raw now_ms ''reconciliation timestamp'')) (\<lambda>_.
     act_bind (act_lift (ok_or (DelegationInvalid ''running delegation has no durable lease deadline'')
       (dr_lease_expires_at_ms raw))) (\<lambda>deadline.
     reconcile_delegation sx (lease_due now) raw
       (''worker lease expired at '' @ show_int deadline @ ''; no terminal outcome was durably recorded'') now now_ms))"

definition reconcile_expired :: "serde \<Rightarrow> u64 \<Rightarrow> (delegation_store_error, delegation_completion list) db_action" where
  "reconcile_expired sx now_ms =
     act_bind (act_lift (delegation_to_i64 now_ms ''reconciliation timestamp'')) (\<lambda>now.
     transaction
       (act_bind (act_read (\<lambda>d. sort_key (\<lambda>r. (the (dr_lease_expires_at_ms r), dr_delegation_id r))
          (filter (\<lambda>r. dr_state r = ''running'' \<and> lease_due now r) (db_delegations d)))) (\<lambda>expired.
        act_collect (reconcile_expired_row sx now now_ms) expired)))"

definition reconcile_running_row ::
  "serde \<Rightarrow> string \<Rightarrow> i64 \<Rightarrow> u64 \<Rightarrow> delegation_row \<Rightarrow> (delegation_store_error, delegation_completion) db_action" where
  "reconcile_running_row sx reason now now_ms raw =
     act_bind (act_lift (ensure_monotonic_timestamp raw now_ms ''reconciliation timestamp'')) (\<lambda>_.
     reconcile_delegation sx (\<lambda>_. True) raw reason now now_ms)"

definition reconcile_running :: "serde \<Rightarrow> string \<Rightarrow> u64 \<Rightarrow> (delegation_store_error, delegation_completion list) db_action" where
  "reconcile_running sx reason now_ms =
     act_bind (act_lift (validate_detail reason ''restart reconciliation reason'')) (\<lambda>_.
     act_bind (act_lift (delegation_to_i64 now_ms ''reconciliation timestamp'')) (\<lambda>now.
     transaction
       (act_bind (act_read (\<lambda>d. sort_key (\<lambda>r. (dr_updated_at_ms r, dr_delegation_id r))
          (filter (\<lambda>r. dr_state r = ''running'') (db_delegations d)))) (\<lambda>running.
        act_collect (reconcile_running_row sx reason now now_ms) running))))"

section \<open>Delivering completions\<close>

definition decode_completion :: "serde \<Rightarrow> string \<Rightarrow> delegation_store_error + delegation_completion" where
  "decode_completion sx encoded =
     map_err (\<lambda>e. DelegationInvalid (''stored delegation completion is invalid: '' @ e)) (cd_dec (sx_completion sx) encoded)"

text \<open>\<open>delivery_claim_id IS NULL OR delivery_claim_expires_at_ms <= ?\<close>.\<close>



definition claim_free :: "i64 \<Rightarrow> completion_row \<Rightarrow> bool" where
  "claim_free now r \<longleftrightarrow> cr_delivery_claim_id r = None
     \<or> (case cr_delivery_claim_expires_at_ms r of None \<Rightarrow> False | Some expires \<Rightarrow> expires \<le> now)"

definition available_completions :: "serde \<Rightarrow> u64 \<Rightarrow> nat \<Rightarrow> (delegation_store_error, delegation_completion list) db_action" where
  "available_completions sx now_ms limit =
     act_bind (act_lift (ensure (limit \<noteq> 0) (DelegationInvalid ''completion limit must be greater than zero''))) (\<lambda>_.
     act_bind (act_lift (delegation_to_i64 now_ms ''completion availability timestamp'')) (\<lambda>now.
     act_bind (act_lift (delegation_usize_to_i64 limit ''completion limit'')) (\<lambda>limit'.
     act_try (\<lambda>d. collect_results (decode_completion sx \<circ> cr_payload_json) (take (nat limit')
       (sort_key (\<lambda>r. (cr_created_at_ms r, cr_event_id r))
          (filter (\<lambda>r. cr_delivery_state r = ''pending'' \<and> claim_free now r) (db_completions d))))))))"

text \<open>The join is over the primary key of \<open>delegations\<close>: a completion meets at most one delegation.\<close>

definition due_to :: "database \<Rightarrow> session_id \<Rightarrow> completion_row \<Rightarrow> bool" where
  "due_to d parent r \<longleftrightarrow> (\<exists>g \<in> set (db_delegations d).
     dr_delegation_id g = cr_delegation_id r \<and> dr_parent_session_id g = session_id_str parent)"

definition available_completions_for ::
  "serde \<Rightarrow> session_id \<Rightarrow> u64 \<Rightarrow> nat \<Rightarrow> (delegation_store_error, delegation_completion list) db_action" where
  "available_completions_for sx parent now_ms limit =
     act_bind (act_lift (ensure (limit \<noteq> 0) (DelegationInvalid ''completion limit must be greater than zero''))) (\<lambda>_.
     act_bind (act_lift (delegation_to_i64 now_ms ''completion availability timestamp'')) (\<lambda>now.
     act_bind (act_lift (delegation_usize_to_i64 limit ''completion limit'')) (\<lambda>limit'.
     act_try (\<lambda>d. collect_results (decode_completion sx \<circ> cr_payload_json) (take (nat limit')
       (sort_key (\<lambda>r. (cr_created_at_ms r, cr_event_id r))
          (filter (\<lambda>r. cr_delivery_state r = ''pending'' \<and> due_to d parent r \<and> claim_free now r)
             (db_completions d))))))))"

definition claim_completion ::
  "serde \<Rightarrow> completion_event_id \<Rightarrow> delivery_claim_id \<Rightarrow> u64 \<Rightarrow> u64
     \<Rightarrow> (delegation_store_error, delegation_completion option) db_action" where
  "claim_completion sx event_id claim_id now_ms claim_expires_at_ms =
     act_bind (act_lift (validate_claim now_ms claim_expires_at_ms)) (\<lambda>_.
     transaction
       (act_bind (act_lift (delegation_to_i64 claim_expires_at_ms ''delivery claim deadline'')) (\<lambda>expires.
        act_bind (act_lift (delegation_to_i64 now_ms ''delivery claim timestamp'')) (\<lambda>now.
        act_bind (update_completions DelegationStorage
          (\<lambda>r. cr_event_id r = completion_event_id_str event_id \<and> cr_delivery_state r = ''pending'' \<and> claim_free now r)
          (\<lambda>r. r\<lparr>cr_delivery_claim_id := Some (delivery_claim_id_str claim_id),
                 cr_delivery_claim_expires_at_ms := Some expires,
                 cr_delivery_attempts := cr_delivery_attempts r + 1\<rparr>)) (\<lambda>updated.
        if updated \<noteq> 1 then act_return None
        else
          act_bind (act_try (\<lambda>d. ok_or (DelegationStorage ''Query returned no rows'')
            (row_at cr_event_id (db_completions d) (completion_event_id_str event_id)))) (\<lambda>row.
          act_bind (act_lift (decode_completion sx (cr_payload_json row))) (\<lambda>completion.
          act_return (Some completion)))))))) "

definition acknowledge_completion ::
  "completion_event_id \<Rightarrow> delivery_claim_id \<Rightarrow> u64 \<Rightarrow> (delegation_store_error, bool) db_action" where
  "acknowledge_completion event_id claim_id delivered_at_ms =
     act_bind (act_lift (delegation_to_i64 delivered_at_ms ''delivery timestamp'')) (\<lambda>delivered_at.
     act_bind (update_completions DelegationStorage
       (\<lambda>r. cr_event_id r = completion_event_id_str event_id \<and> cr_delivery_state r = ''pending''
          \<and> cr_delivery_claim_id r = Some (delivery_claim_id_str claim_id) \<and> cr_created_at_ms r \<le> delivered_at)
       (delivered delivered_at)) (\<lambda>updated.
     act_return (updated = 1)))"

definition release_completion ::
  "completion_event_id \<Rightarrow> delivery_claim_id \<Rightarrow> (delegation_store_error, bool) db_action" where
  "release_completion event_id claim_id =
     act_bind (update_completions DelegationStorage
       (\<lambda>r. cr_event_id r = completion_event_id_str event_id \<and> cr_delivery_state r = ''pending''
          \<and> cr_delivery_claim_id r = Some (delivery_claim_id_str claim_id))
       (\<lambda>r. r\<lparr>cr_delivery_claim_id := None, cr_delivery_claim_expires_at_ms := None\<rparr>)) (\<lambda>updated.
     act_return (updated = 1))"

definition sqlite_delegation_store :: "serde \<Rightarrow> i64 \<Rightarrow> database delegation_store" where
  "sqlite_delegation_store sx now =
     \<lparr>de_create = delegation_create, de_create_with_child = create_with_child sx now, de_load = delegation_load sx,
      de_list_for_parent = list_for_parent sx, de_pending = pending_delegations sx, de_claim = delegation_claim sx,
      de_heartbeat = delegation_heartbeat sx, de_cancel = delegation_cancel sx, de_finish = delegation_finish sx,
      de_complete_child = complete_child sx now, de_reconcile_expired = reconcile_expired sx,
      de_reconcile_running = reconcile_running sx, de_available_completions = available_completions sx,
      de_available_completions_for = available_completions_for sx, de_claim_completion = claim_completion sx,
      de_acknowledge_completion = acknowledge_completion, de_release_completion = release_completion\<rparr>"

end
