(* ===== verification/Delegation_Rows.thy ===== *)
theory Delegation_Rows
  imports Delegation_Store
begin

text \<open>
  The abstract state of the delegation store: the snapshot of each delegation, the invariant of the table,
  and what a row and its snapshot have in common in each state. The operations change one row at a time,
  so one lemma says what such a change does to the table and to the snapshots.
\<close>

section \<open>The abstract state\<close>

definition delegation_at :: "database \<Rightarrow> delegation_id \<Rightarrow> delegation_row option" where
  "delegation_at d k = row_at dr_delegation_id (db_delegations d) (delegation_id_str k)"

definition delegations_of :: "serde \<Rightarrow> database \<Rightarrow> delegation_id \<Rightarrow> delegation_snapshot option" where
  "delegations_of sx d k = (case delegation_at d k of None \<Rightarrow> None | Some raw \<Rightarrow>
     (case delegation_snapshot_from_raw sx raw of Inl _ \<Rightarrow> None | Inr s \<Rightarrow> Some s))"

text \<open>The columns fit \<open>i64\<close>.\<close>

definition row_in_range :: "delegation_row \<Rightarrow> bool" where
  "row_in_range r \<longleftrightarrow> dr_owner_generation r \<le> i64_max \<and> dr_updated_at_ms r \<le> i64_max \<and> dr_fencing_token r \<le> i64_max
     \<and> pred_option (\<lambda>i. i \<le> i64_max) (dr_lease_expires_at_ms r)
     \<and> pred_option (\<lambda>i. i \<le> i64_max) (dr_cancellation_requested_at_ms r)"

definition delegation_row_ok :: "serde \<Rightarrow> delegation_row \<Rightarrow> bool" where
  "delegation_row_ok sx r \<longleftrightarrow> delegation_check r \<and> row_in_range r \<and> is_ok (delegation_snapshot_from_raw sx r)"

definition delegations_inv :: "serde \<Rightarrow> database \<Rightarrow> bool" where
  "delegations_inv sx d \<longleftrightarrow> distinct (map dr_delegation_id (db_delegations d))
     \<and> distinct (map dr_completion_event_id (db_delegations d)) \<and> distinct (map dr_child_session_id (db_delegations d))
     \<and> (\<forall>r \<in> set (db_delegations d). delegation_row_ok sx r
          \<and> has_session d (dr_parent_session_id r) \<and> has_session d (dr_child_session_id r))"

section \<open>Rows and snapshots\<close>

lemma delegation_u64_Inr: "i \<le> i64_max \<Longrightarrow> delegation_u64_from_i64 i name = Inr w \<longleftrightarrow> i = uint w"
  by (auto simp: delegation_u64_from_i64_def u64_of_i64_eq_Some)

lemma delegation_u64_uint [simp]: "delegation_u64_from_i64 (uint w) name = Inr w"
  by (simp add: delegation_u64_from_i64_def u64_of_i64_uint)

lemma delegation_generation_Inr:
  "i \<le> i64_max \<Longrightarrow> delegation_generation i = Inr g \<longleftrightarrow> i = uint (owner_generation_get g) \<and> 0 < i"
  by (cases g)
     (auto simp: delegation_generation_def delegation_id_error_def delegation_u64_from_i64_def and_then_eq_Inr
        u64_of_i64_eq_Some uint_pos)

lemma delegation_fence_Inr:
  "i \<le> i64_max \<Longrightarrow> delegation_fencing_token i = Inr t \<longleftrightarrow> i = uint (fencing_token_get t) \<and> 0 < i"
  by (cases t)
     (auto simp: delegation_fencing_token_def delegation_id_error_def delegation_u64_from_i64_def and_then_eq_Inr
        u64_of_i64_eq_Some uint_pos)

lemma validate_detail_Inr: "validate_detail detail name = Inr u \<longleftrightarrow> unpadded detail"
  by (auto simp: validate_detail_def unpadded_def)

lemma delegation_id_error_Inr [simp]: "delegation_id_error m = Inr x \<longleftrightarrow> m = Inr x"
  by (simp add: delegation_id_error_def)

lemma delegation_to_i64_Inr: "delegation_to_i64 w name = Inr i \<longleftrightarrow> i = uint w \<and> uint w \<le> i64_max"
  by (auto simp: delegation_to_i64_def i64_of_u64_eq_Some)

lemma increment_Inr: "increment i name = Inr j \<longleftrightarrow> i \<noteq> i64_max \<and> j = i + 1"
  by (auto simp: increment_def i64_succ_eq_Some)

lemma row_created: "delegation_check r \<Longrightarrow> row_in_range r \<Longrightarrow> dr_created_at_ms r \<le> i64_max"
  by (simp add: delegation_check_def row_in_range_def)

definition delegation_shows :: "serde \<Rightarrow> delegation_row \<Rightarrow> delegation_snapshot \<Rightarrow> bool" where
  "delegation_shows sx raw s \<longleftrightarrow>
     spec_from_raw raw = Inr (dn_spec s) \<and> delegation_state_of_row sx raw = Inr (dn_state s)
     \<and> dr_owner_generation raw = uint (owner_generation_get (dn_owner_generation s)) \<and> 0 < dr_owner_generation raw
     \<and> dr_created_at_ms raw = uint (dn_created_at_ms s) \<and> dr_updated_at_ms raw = uint (dn_updated_at_ms s)"

lemma delegation_snapshot_Inr:
  assumes "delegation_check raw" "row_in_range raw"
  shows "delegation_snapshot_from_raw sx raw = Inr s \<longleftrightarrow> delegation_shows sx raw s"
  using row_created [OF assms] assms(2)
  by (cases s)
     (auto simp: delegation_snapshot_from_raw_def delegation_shows_def and_then_eq_Inr delegation_generation_Inr
        delegation_u64_Inr row_in_range_def)

lemma i64_word: "0 \<le> i \<Longrightarrow> i \<le> i64_max \<Longrightarrow> \<exists>w :: u64. i = uint w"
  by (rule exI [where x = "word_of_int i"]) (simp add: uint_word_of_int take_bit_int_eq_self i64_max_def)

lemma cancellation_Inr:
  assumes "delegation_check raw" "row_in_range raw"
  shows "cancellation_from_raw raw = Inr c \<longleftrightarrow>
     (case c of
        None \<Rightarrow> dr_cancellation_reason raw = None \<and> dr_cancellation_requested_at_ms raw = None
      | Some q \<Rightarrow> dr_cancellation_reason raw = Some (dc_reason q) \<and> unpadded (dc_reason q)
          \<and> dr_cancellation_requested_at_ms raw = Some (uint (dc_requested_at_ms q))
          \<and> dr_created_at_ms raw \<le> uint (dc_requested_at_ms q) \<and> uint (dc_requested_at_ms q) \<le> dr_updated_at_ms raw)"
proof (cases "dr_cancellation_reason raw")
  case None
  then show ?thesis by (auto simp: cancellation_from_raw_def split: option.splits)
next
  case (Some reason)
  show ?thesis
  proof (cases "dr_cancellation_requested_at_ms raw")
    case None
    then show ?thesis using Some by (auto simp: cancellation_from_raw_def split: option.splits)
  next
    case (Some at)
    note range = assms(2) [unfolded row_in_range_def Some, simplified]
    have "0 \<le> dr_created_at_ms raw" "0 \<le> dr_updated_at_ms raw" using assms(1) by (auto simp: delegation_check_def)
    then obtain cr up :: u64 where w: "dr_created_at_ms raw = uint cr" "dr_updated_at_ms raw = uint up"
      using i64_word row_created [OF assms] range by meson
    note conv = delegation_u64_Inr [of at]
    show ?thesis
      using Some \<open>dr_cancellation_reason raw = Some reason\<close> range w
      by (cases c; cases "the c")
         (auto simp: cancellation_from_raw_def and_then_eq_Inr validate_detail_Inr conv word_less_def word_uint_eq_iff [symmetric])
  qed
qed

text \<open>The three states of a delegation, on the row.\<close>

lemma row_pending: "delegation_state_of_row sx raw = Inr DelegationPending
    \<longleftrightarrow> dr_state raw = ''pending'' \<and> dr_cancellation_reason raw = None \<and> dr_cancellation_requested_at_ms raw = None"
  by (auto simp: delegation_state_of_row_def running_state_def terminal_state_def ensure_no_cancellation_def and_then_eq_Inr)

lemma delegation_row_running:
  assumes "row_in_range raw"
  shows "delegation_state_of_row sx raw = Inr (DelegationRunning worker token lease c) \<longleftrightarrow>
     dr_state raw = ''running'' \<and> dr_worker_id raw = Some (delegation_worker_id_str worker)
     \<and> unpadded (delegation_worker_id_str worker) \<and> dr_fencing_token raw = uint (fencing_token_get token)
     \<and> 0 < dr_fencing_token raw \<and> dr_lease_expires_at_ms raw = Some (uint lease) \<and> cancellation_from_raw raw = Inr c"
  using assms
  by (cases worker)
     (auto simp: delegation_state_of_row_def running_state_def terminal_state_def and_then_eq_Inr
        delegation_fence_Inr delegation_u64_Inr row_in_range_def)

lemma row_terminal:
  assumes "row_in_range raw"
  shows "delegation_state_of_row sx raw = Inr (DelegationTerminal outcome at) \<longleftrightarrow>
     dr_state raw = delegation_terminal_status outcome \<and> dr_cancellation_reason raw = None
     \<and> dr_cancellation_requested_at_ms raw = None \<and> dr_updated_at_ms raw = uint at
     \<and> (\<exists>j. dr_terminal_json raw = Some j \<and> cd_dec (sx_delegation_terminal sx) j = Inr outcome)"
  using assms delegation_terminal_status_cases [of outcome]
  by (auto simp: delegation_state_of_row_def running_state_def terminal_state_def and_then_eq_Inr ensure_no_cancellation_def
        delegation_u64_Inr row_in_range_def)

text \<open>Which state a row that can be read is in.\<close>

lemma row_state_name:
  assumes "delegation_shows sx raw s"
  shows "dr_state raw = ''pending'' \<longleftrightarrow> dn_state s = DelegationPending"
    "dr_state raw = ''running'' \<longleftrightarrow> (\<exists>w t l c. dn_state s = DelegationRunning w t l c)"
  using assms
  by (cases "dn_state s";
      auto simp: delegation_shows_def delegation_state_of_row_def running_state_def terminal_state_def and_then_eq_Inr split: if_splits)+

lemma spec_from_raw_Inr:
  "spec_from_raw raw = Inr spec \<longleftrightarrow>
     unpadded (dr_delegation_id raw) \<and> unpadded (dr_completion_event_id raw) \<and> unpadded (dr_parent_session_id raw)
     \<and> unpadded (dr_child_session_id raw) \<and> validate_delegation_spec spec = Inr ()
     \<and> spec = \<lparr>ds_delegation_id = DelegationId (dr_delegation_id raw),
               ds_completion_event_id = CompletionEventId (dr_completion_event_id raw),
               ds_parent_session_id = SessionId (dr_parent_session_id raw),
               ds_child_session_id = SessionId (dr_child_session_id raw), ds_goal = dr_goal raw, ds_context = dr_context raw\<rparr>"
  by (auto simp: spec_from_raw_def and_then_eq_Inr Let_def)

lemma spec_from_raw_cong:
  "dr_delegation_id raw' = dr_delegation_id raw \<Longrightarrow> dr_completion_event_id raw' = dr_completion_event_id raw \<Longrightarrow>
   dr_parent_session_id raw' = dr_parent_session_id raw \<Longrightarrow> dr_child_session_id raw' = dr_child_session_id raw \<Longrightarrow>
   dr_goal raw' = dr_goal raw \<Longrightarrow> dr_context raw' = dr_context raw \<Longrightarrow> spec_from_raw raw' = spec_from_raw raw"
  by (simp add: spec_from_raw_def)

section \<open>Changing one delegation\<close>

lemma delegation_of_row:
  assumes "delegations_inv sx d" "delegations_of sx d k = Some s"
  obtains raw where "delegation_at d k = Some raw" "raw \<in> set (db_delegations d)" "dr_delegation_id raw = delegation_id_str k"
    "delegation_shows sx raw s" "delegation_check raw" "row_in_range raw"
proof -
  obtain raw where raw: "delegation_at d k = Some raw" "delegation_snapshot_from_raw sx raw = Inr s"
    using assms(2) by (auto simp: delegations_of_def split: option.splits sum.splits)
  then have mem: "raw \<in> set (db_delegations d)" "dr_delegation_id raw = delegation_id_str k"
    by (auto simp: delegation_at_def dest: row_at_Some)
  then have ok: "delegation_check raw" "row_in_range raw" using assms(1) by (auto simp: delegations_inv_def delegation_row_ok_def)
  then show ?thesis using that raw mem delegation_snapshot_Inr by blast
qed

lemma delegations_of_None: "delegations_inv sx d \<Longrightarrow> delegations_of sx d k = None \<longleftrightarrow> delegation_at d k = None"
  by (fastforce simp: delegations_of_def delegations_inv_def delegation_row_ok_def is_ok_iff delegation_at_def
      dest!: row_at_Some split: option.splits sum.splits)

lemma delegations_of_shows:
  "delegation_at d k = Some raw \<Longrightarrow> delegation_check raw \<Longrightarrow> row_in_range raw \<Longrightarrow> delegation_shows sx raw s \<Longrightarrow>
   delegations_of sx d k = Some s"
  using delegation_snapshot_Inr [of raw sx s] by (simp add: delegations_of_def)

lemma delegations_frame:
  assumes "db_delegations d' = db_delegations d"
  shows "delegations_of sx d' = delegations_of sx d" "delegation_at d' = delegation_at d"
    "delegations_inv sx d \<Longrightarrow> (\<And>k. has_session d k \<Longrightarrow> has_session d' k) \<Longrightarrow> delegations_inv sx d'"
  by (simp_all add: delegations_of_def delegation_at_def delegations_inv_def assms fun_eq_iff)

text \<open>No statement changes what identifies a delegation.\<close>

definition same_identity :: "delegation_row \<Rightarrow> delegation_row \<Rightarrow> bool" where
  "same_identity r q \<longleftrightarrow> dr_delegation_id r = dr_delegation_id q \<and> dr_completion_event_id r = dr_completion_event_id q
     \<and> dr_parent_session_id r = dr_parent_session_id q \<and> dr_child_session_id r = dr_child_session_id q
     \<and> dr_goal r = dr_goal q \<and> dr_context r = dr_context q \<and> dr_created_at_ms r = dr_created_at_ms q"

lemma same_identity_spec: "same_identity r q \<Longrightarrow> spec_from_raw r = spec_from_raw q"
  by (rule spec_from_raw_cong) (simp_all add: same_identity_def)

definition change_delegation :: "delegation_id \<Rightarrow> (delegation_row \<Rightarrow> delegation_row) \<Rightarrow> database \<Rightarrow> database" where
  "change_delegation k f d = d\<lparr>db_delegations := change_row dr_delegation_id (delegation_id_str k) f (db_delegations d)\<rparr>"

lemma change_delegation_frame [simp]:
  "db_sessions (change_delegation k f d) = db_sessions d" "db_messages (change_delegation k f d) = db_messages d"
  "db_turns (change_delegation k f d) = db_turns d" "db_completions (change_delegation k f d) = db_completions d"
  "db_effects (change_delegation k f d) = db_effects d" "db_bindings (change_delegation k f d) = db_bindings d"
  "has_session (change_delegation k f d) = has_session d"
  by (simp_all add: change_delegation_def has_session_def fun_eq_iff)

lemma change_delegation_at:
  assumes "\<And>r. same_identity (f r) r"
  shows "delegation_at (change_delegation k f d) j = (if j = k then map_option f (delegation_at d j) else delegation_at d j)"
  using assms by (auto simp: delegation_at_def change_delegation_def row_at_change same_identity_def delegation_id.expand)

lemma change_delegation_ok:
  assumes inv: "delegations_inv sx d" and raw: "delegation_at d k = Some raw" and same: "\<And>r. same_identity (f r) r"
    and new: "delegation_check (f raw)" "row_in_range (f raw)" "delegation_shows sx (f raw) s'"
  shows "delegations_inv sx (change_delegation k f d)"
    "delegations_of sx (change_delegation k f d) = (delegations_of sx d)(k \<mapsto> s')"
proof -
  have dist: "distinct (map dr_delegation_id (db_delegations d))" using inv by (simp add: delegations_inv_def)
  have at_raw: "row_at dr_delegation_id (db_delegations d) (delegation_id_str k) = Some raw" using raw by (simp add: delegation_at_def)
  then have mem: "raw \<in> set (db_delegations d)" using row_at_Some by fast
  have set: "set (db_delegations (change_delegation k f d)) = insert (f raw) (set (db_delegations d) - {raw})"
    using set_change_row [OF dist at_raw] by (simp add: change_delegation_def)
  have snap: "delegation_snapshot_from_raw sx (f raw) = Inr s'" using delegation_snapshot_Inr [OF new(1,2)] new(3) by blast
  have "map g (db_delegations (change_delegation k f d)) = map g (db_delegations d)" if "\<And>r. g (f r) = g r" for g :: "delegation_row \<Rightarrow> string"
    using that by (simp add: change_delegation_def change_row_def)
  then have "map dr_delegation_id (db_delegations (change_delegation k f d)) = map dr_delegation_id (db_delegations d)"
    "map dr_completion_event_id (db_delegations (change_delegation k f d)) = map dr_completion_event_id (db_delegations d)"
    "map dr_child_session_id (db_delegations (change_delegation k f d)) = map dr_child_session_id (db_delegations d)"
    using same by (simp_all add: same_identity_def)
  moreover have "delegation_row_ok sx (f raw)" using new snap by (simp add: delegation_row_ok_def)
  moreover have "has_session d (dr_parent_session_id (f raw)) \<and> has_session d (dr_child_session_id (f raw))"
    using inv mem same [of raw] by (simp add: delegations_inv_def same_identity_def)
  ultimately show "delegations_inv sx (change_delegation k f d)" using inv set by (simp add: delegations_inv_def)
  show "delegations_of sx (change_delegation k f d) = (delegations_of sx d)(k \<mapsto> s')"
    using raw snap by (auto simp: fun_eq_iff delegations_of_def change_delegation_at [OF same])
qed

lemma update_delegation_eq:
  assumes inv: "delegations_inv sx d" and raw: "delegation_at d k = Some raw"
    and key: "\<And>r. matches r \<Longrightarrow> dr_delegation_id r = delegation_id_str k" and check: "matches raw \<Longrightarrow> delegation_check (f raw)"
  shows "update_delegations err matches f d = (if matches raw then (Inr 1, change_delegation k f d) else (Inr 0, d))"
proof -
  have "distinct (map dr_delegation_id (db_delegations d))" using inv by (simp add: delegations_inv_def)
  from keyed_update [OF this, of matches "delegation_id_str k" delegation_check f] show ?thesis
    using raw key check by (simp add: update_delegations_def run_update_def change_delegation_def delegation_at_def)
qed

end
