(* ===== verification/Delegation_Leases.thy ===== *)
theory Delegation_Leases
  imports Delegation_Rows
begin

text \<open>
  Claims and heartbeats refine transitions of one snapshot: \<open>claimable\<close> and \<open>fenced\<close> are the guards of
  the code over the snapshot, \<open>claimed\<close> and \<open>extended_lease\<close> what the code does to it.
\<close>

section \<open>The checks over the snapshot\<close>

definition next_generation :: "delegation_snapshot \<Rightarrow> owner_generation" where
  "next_generation s = OwnerGeneration (owner_generation_get (dn_owner_generation s) + 1)"

definition generation_left :: "delegation_snapshot \<Rightarrow> bool" where
  "generation_left s \<longleftrightarrow> uint (owner_generation_get (dn_owner_generation s)) < i64_max"

lemma uint_next_generation:
  "generation_left s \<Longrightarrow> uint (owner_generation_get (next_generation s)) = uint (owner_generation_get (dn_owner_generation s)) + 1"
  by (simp add: generation_left_def next_generation_def uint_succ_le)

text \<open>
  The facts about a row that a snapshot shows, in the form in which the operations meet them.
\<close>

definition shown_row :: "serde \<Rightarrow> delegation_row \<Rightarrow> delegation_snapshot \<Rightarrow> bool" where
  "shown_row sx raw s \<longleftrightarrow> delegation_shows sx raw s \<and> delegation_check raw \<and> row_in_range raw"

lemma row_columns:
  assumes "shown_row sx raw s"
  shows "dr_owner_generation raw = uint (owner_generation_get (dn_owner_generation s))" "0 < dr_owner_generation raw"
    "dr_created_at_ms raw = uint (dn_created_at_ms s)" "dr_updated_at_ms raw = uint (dn_updated_at_ms s)"
    "dr_owner_generation raw \<le> i64_max" "dr_updated_at_ms raw \<le> i64_max" "dr_created_at_ms raw \<le> dr_updated_at_ms raw"
    "0 \<le> dr_created_at_ms raw"
  using assms by (simp_all add: shown_row_def delegation_shows_def row_in_range_def delegation_check_def)

lemma row_states:
  assumes "shown_row sx raw s"
  shows "dr_state raw = ''pending'' \<longleftrightarrow> dn_state s = DelegationPending"
    "dr_state raw = ''running'' \<longleftrightarrow> (\<exists>w t l c. dn_state s = DelegationRunning w t l c)"
  using assms row_state_name [of sx raw s] by (simp_all add: shown_row_def)

lemma running_columns:
  assumes "shown_row sx raw s" "dn_state s = DelegationRunning w t l c"
  shows "dr_state raw = ''running''" "dr_lease_expires_at_ms raw = Some (uint l)" "dr_worker_id raw = Some (delegation_worker_id_str w)"
    "dr_fencing_token raw = uint (fencing_token_get t)" "0 < dr_fencing_token raw" "cancellation_from_raw raw = Inr c"
    "unpadded (delegation_worker_id_str w)" "uint l \<le> i64_max" "uint (fencing_token_get t) \<le> i64_max" "dr_terminal_json raw = None"
  using assms delegation_row_running [of raw sx w t l c]
  by (auto simp: shown_row_def delegation_shows_def row_in_range_def delegation_check_def)

lemma pending_columns:
  assumes "shown_row sx raw s" "dn_state s = DelegationPending"
  shows "dr_state raw = ''pending''" "dr_cancellation_reason raw = None" "dr_cancellation_requested_at_ms raw = None"
    "dr_fencing_token raw = 0" "dr_worker_id raw = None" "dr_lease_expires_at_ms raw = None" "dr_terminal_json raw = None"
  using assms by (auto simp: shown_row_def delegation_shows_def row_pending delegation_check_def)

lemma generation_ok:
  assumes "shown_row sx raw s"
  shows "ensure_delegation_generation raw expected = Inr u \<longleftrightarrow> dn_owner_generation s = expected"
  using row_columns(1) [OF assms]
  by (cases expected; cases "dn_owner_generation s") (auto simp: ensure_delegation_generation_def and_then_eq_Inr)

lemma timestamp_ok:
  assumes "shown_row sx raw s"
  shows "ensure_monotonic_timestamp raw at name = Inr u \<longleftrightarrow> dn_updated_at_ms s \<le> at"
  using row_columns(4) [OF assms] by (auto simp: ensure_monotonic_timestamp_def)

lemma fence_ok:
  assumes "shown_row sx raw s"
  shows "ensure_running_fence raw token = Inr u \<longleftrightarrow> (\<exists>w l c. dn_state s = DelegationRunning w token l c)"
proof (cases "dr_state raw = ''running''")
  case True
  then obtain w t l c where st: "dn_state s = DelegationRunning w t l c" using row_states(2) [OF assms] by blast
  then show ?thesis
    using True running_columns(4,5) [OF assms st] by (cases t; cases token) (auto simp: ensure_running_fence_def and_then_eq_Inr)
next
  case False
  then show ?thesis using row_states(2) [OF assms] by (auto simp: ensure_running_fence_def and_then_eq_Inr)
qed

lemma lease_ok:
  assumes "shown_row sx raw s" "dn_state s = DelegationRunning w t l c"
  shows "ensure_active_lease raw at = Inr u \<longleftrightarrow> at < l"
  using running_columns(2,8) [OF assms]
  by (auto simp: ensure_active_lease_def and_then_eq_Inr delegation_to_i64_Inr word_less_def)

lemma increment_ok:
  assumes "shown_row sx raw s"
  shows "increment (dr_owner_generation raw) name = Inr j \<longleftrightarrow>
    generation_left s \<and> j = uint (owner_generation_get (next_generation s))"
  using row_columns(1,5) [OF assms] by (auto simp: increment_Inr generation_left_def uint_next_generation [unfolded generation_left_def])

lemma generation_conversion:
  assumes "shown_row sx raw s" "dn_owner_generation s = expected"
  shows "delegation_to_i64 (owner_generation_get expected) name = Inr j \<longleftrightarrow> j = dr_owner_generation raw"
  using row_columns(1,5) [OF assms(1)] assms(2) by (auto simp: delegation_to_i64_Inr)

lemma shown_row:
  assumes "delegations_inv sx d" "delegations_of sx d k = Some s"
  obtains raw where "delegation_at d k = Some raw" "dr_delegation_id raw = delegation_id_str k" "shown_row sx raw s"
  using delegation_of_row [OF assms] unfolding shown_row_def by blast

section \<open>Claiming\<close>

definition claimable :: "delegation_snapshot option \<Rightarrow> owner_generation \<Rightarrow> u64 \<Rightarrow> u64 \<Rightarrow> bool" where
  "claimable found expected now_ms lease \<longleftrightarrow> now_ms < lease \<and> uint lease \<le> i64_max
     \<and> (case found of None \<Rightarrow> False | Some s \<Rightarrow> dn_owner_generation s = expected \<and> generation_left s
          \<and> dn_updated_at_ms s \<le> now_ms \<and> dn_state s = DelegationPending)"

definition claimed :: "delegation_worker_id \<Rightarrow> u64 \<Rightarrow> u64 \<Rightarrow> delegation_snapshot \<Rightarrow> delegation_snapshot" where
  "claimed worker now_ms lease s =
     s\<lparr>dn_owner_generation := next_generation s, dn_state := DelegationRunning worker (FencingToken 1) lease None,
       dn_updated_at_ms := now_ms\<rparr>"

definition claimed_row :: "i64 \<Rightarrow> string \<Rightarrow> i64 \<Rightarrow> i64 \<Rightarrow> i64 \<Rightarrow> delegation_row \<Rightarrow> delegation_row" where
  "claimed_row generation worker fence lease now r =
     r\<lparr>dr_state := ''running'', dr_owner_generation := generation, dr_worker_id := Some worker,
       dr_fencing_token := fence, dr_lease_expires_at_ms := Some lease, dr_updated_at_ms := now\<rparr>"

lemma claimed_row_identity: "same_identity (claimed_row generation worker fence lease now r) r"
  by (simp add: same_identity_def claimed_row_def)

lemma claimed_row_shows:
  assumes raw: "shown_row sx raw s" and guard: "claimable (Some s) expected now_ms lease"
    and worker: "unpadded (delegation_worker_id_str worker)"
  shows "shown_row sx (claimed_row (uint (owner_generation_get (next_generation s))) (delegation_worker_id_str worker) 1
      (uint lease) (uint now_ms) raw) (claimed worker now_ms lease s)"
proof -
  let ?r = "claimed_row (uint (owner_generation_get (next_generation s))) (delegation_worker_id_str worker) 1 (uint lease) (uint now_ms) raw"
  have g: "generation_left s" "uint (dn_updated_at_ms s) \<le> uint now_ms" "dn_state s = DelegationPending"
    "uint now_ms < uint lease" "uint lease \<le> i64_max"
    using guard by (auto simp: claimable_def word_le_def word_less_def)
  note cols = row_columns [OF raw] pending_columns [OF raw g(3)]
  have range: "row_in_range ?r"
    using g cols by (simp add: row_in_range_def claimed_row_def uint_next_generation generation_left_def i64_max_def)
  have check: "delegation_check ?r"
    using g cols by (simp add: delegation_check_def claimed_row_def uint_next_generation)
  have "delegation_state_of_row sx ?r = Inr (DelegationRunning worker (FencingToken 1) lease None)"
    unfolding delegation_row_running [OF range] cancellation_Inr [OF check range]
    using worker cols by (simp add: claimed_row_def)
  then show ?thesis
    using range check raw g cols same_identity_spec [OF claimed_row_identity]
    by (simp add: shown_row_def delegation_shows_def claimed_def) (simp add: claimed_row_def uint_next_generation)
qed

lemma change_shown:
  assumes "delegations_inv sx d" "delegation_at d k = Some raw" "\<And>r. same_identity (f r) r" "shown_row sx (f raw) s'"
  shows "delegations_inv sx (change_delegation k f d)"
    "delegations_of sx (change_delegation k f d) = (delegations_of sx d)(k \<mapsto> s')"
  using change_delegation_ok [OF assms(1-3), of s'] assms(4) by (simp_all add: shown_row_def)

lemma load_shown: "delegations_of sx d k = Some s \<Longrightarrow> delegation_load sx k d = (Inr s, d)"
  by (auto simp: delegations_of_def delegation_at_def delegation_load_def load_delegation_def act_bind_def act_try_def act_lift_def
      split: option.splits sum.splits)

lemma claim_ok:
  assumes inv: "delegations_inv sx d" and found: "delegations_of sx d k = Some s"
    and guard: "claimable (Some s) expected now_ms lease" and worker: "unpadded (delegation_worker_id_str worker)"
  defines "d' \<equiv> change_delegation k (claimed_row (uint (owner_generation_get (next_generation s))) (delegation_worker_id_str worker) 1
      (uint lease) (uint now_ms)) d"
  shows "delegation_claim sx k expected worker now_ms lease d = (Inr (claimed worker now_ms lease s), d')"
    "delegations_inv sx d'" "delegations_of sx d' = (delegations_of sx d)(k \<mapsto> claimed worker now_ms lease s)"
proof -
  obtain raw where raw: "delegation_at d k = Some raw" "dr_delegation_id raw = delegation_id_str k" "shown_row sx raw s"
    by (rule shown_row [OF inv found])
  note new = claimed_row_shows [OF raw(3) guard worker]
  note change = change_shown [OF inv raw(1) claimed_row_identity new, folded d'_def]
  show "delegations_inv sx d'" "delegations_of sx d' = (delegations_of sx d)(k \<mapsto> claimed worker now_ms lease s)"
    by (rule change)+
  have g: "generation_left s" "dn_updated_at_ms s \<le> now_ms" "dn_state s = DelegationPending" "dn_owner_generation s = expected"
    "now_ms < lease" "uint now_ms < uint lease" "uint lease \<le> i64_max"
    using guard by (auto simp: claimable_def word_less_def)
  note cols = row_columns [OF raw(3)] pending_columns [OF raw(3) g(3)]
  have conv: "delegation_to_i64 (owner_generation_get expected) name = Inr (dr_owner_generation raw)"
    "increment (dr_owner_generation raw) name = Inr (uint (owner_generation_get (next_generation s)))"
    "delegation_to_i64 lease name = Inr (uint lease)" "delegation_to_i64 now_ms name = Inr (uint now_ms)"
    "increment 0 name = Inr 1" for name
    using generation_conversion [OF raw(3) g(4)] increment_ok [OF raw(3)] g by (simp_all add: delegation_to_i64_Inr increment_Inr i64_max_def)
  have checks: "ensure_delegation_generation raw expected = Inr ()" "ensure_monotonic_timestamp raw now_ms name = Inr ()"
    "ensure_no_cancellation raw = Inr ()" for name
    using generation_ok [OF raw(3)] timestamp_ok [OF raw(3)] g cols by (simp_all add: ensure_no_cancellation_def)
  have update: "update_delegations DelegationStorage
      (\<lambda>r. dr_delegation_id r = delegation_id_str k \<and> dr_state r = ''pending'' \<and> dr_owner_generation r = dr_owner_generation raw)
      (claimed_row (uint (owner_generation_get (next_generation s))) (delegation_worker_id_str worker) 1 (uint lease) (uint now_ms)) d
    = (Inr 1, d')"
    using raw(2) cols new by (subst update_delegation_eq [OF inv raw(1)]) (simp_all add: d'_def shown_row_def)
  show "delegation_claim sx k expected worker now_ms lease d = (Inr (claimed worker now_ms lease s), d')"
    using raw(1) g(5) pending_columns [OF raw(3) g(3)] update [unfolded claimed_row_def] load_shown [of sx d' k] change(2)
    by (simp add: delegation_claim_def act_bind_def act_lift_def transaction_def load_delegation_def act_try_def
        delegation_at_def validate_lease_def checks conv ensure_one_updated_def not_le)
qed

text \<open>A handler that checks its arguments and then runs a transaction leaves the state alone when it fails.\<close>

lemma guarded_err:
  assumes "\<And>u d'. v = Inr () \<Longrightarrow> T d = (Inr u, d') \<Longrightarrow> False"
  shows "\<exists>e. act_bind (act_lift v) (\<lambda>_. transaction T) d = (Inl e, d)"
    "\<exists>e. act_bind (act_lift v) (\<lambda>_. act_bind (transaction T) K) d = (Inl e, d)"
  using assms by (auto simp: act_bind_def act_lift_def transaction_def split: sum.split prod.split)

lemma load_delegation_ok: "load_delegation k d = (Inr raw, d') \<longleftrightarrow> delegation_at d k = Some raw \<and> d' = d"
  by (auto simp: load_delegation_def act_try_def delegation_at_def)

text \<open>What a successful check tells, for a row that a client can read.\<close>

lemma found_row:
  assumes "delegations_inv sx d" "delegation_at d k = Some raw"
  obtains s where "delegations_of sx d k = Some s" "shown_row sx raw s"
  using assms delegations_of_None [OF assms(1), of k] shown_row [OF assms(1), of k]
  by (cases "delegations_of sx d k") auto

lemma claim_err:
  assumes inv: "delegations_inv sx d" and bad: "\<not> claimable (delegations_of sx d k) expected now_ms lease"
  shows "\<exists>e. delegation_claim sx k expected worker now_ms lease d = (Inl e, d)"
  unfolding delegation_claim_def
proof (rule guarded_err, goal_cases)
  case (1 u d')
  then obtain raw where raw: "delegation_at d k = Some raw" by (auto simp: act_bind_ok load_delegation_ok)
  then obtain s where s: "delegations_of sx d k = Some s" "shown_row sx raw s" by (rule found_row [OF inv])
  from 1 raw have "claimable (Some s) expected now_ms lease"
    by (auto simp: act_bind_ok load_delegation_ok act_lift_def generation_ok [OF s(2)] timestamp_ok [OF s(2)] row_states(1) [OF s(2)]
        increment_ok [OF s(2)] validate_lease_def delegation_to_i64_Inr claimable_def)
  then show ?case using bad s(1) by simp
qed

section \<open>Fenced writes: heartbeats\<close>

text \<open>The authority is current: the generation, the fencing token, a lease that has not expired.\<close>

definition fenced :: "delegation_snapshot \<Rightarrow> delegation_authority \<Rightarrow> u64 \<Rightarrow> bool" where
  "fenced s authority at \<longleftrightarrow> dn_owner_generation s = da_owner_generation authority \<and> dn_updated_at_ms s \<le> at
     \<and> (case dn_state s of DelegationRunning _ token lease _ \<Rightarrow> token = da_fencing_token authority \<and> at < lease | _ \<Rightarrow> False)"

definition extendable :: "delegation_snapshot option \<Rightarrow> delegation_authority \<Rightarrow> u64 \<Rightarrow> u64 \<Rightarrow> bool" where
  "extendable found authority now_ms lease \<longleftrightarrow> now_ms < lease \<and> uint lease \<le> i64_max
     \<and> (case found of None \<Rightarrow> False
        | Some s \<Rightarrow> fenced s authority now_ms \<and> generation_left s \<and> run_lease (dn_state s) < lease)"

definition extended_lease :: "u64 \<Rightarrow> u64 \<Rightarrow> delegation_snapshot \<Rightarrow> delegation_snapshot" where
  "extended_lease now_ms lease s =
     s\<lparr>dn_owner_generation := next_generation s,
       dn_state := DelegationRunning (run_worker (dn_state s)) (run_token (dn_state s)) lease (run_cancellation (dn_state s)),
       dn_updated_at_ms := now_ms\<rparr>"

definition extended_row :: "i64 \<Rightarrow> i64 \<Rightarrow> i64 \<Rightarrow> delegation_row \<Rightarrow> delegation_row" where
  "extended_row generation lease now r =
     r\<lparr>dr_owner_generation := generation, dr_lease_expires_at_ms := Some lease, dr_updated_at_ms := now\<rparr>"

lemma extended_row_identity: "same_identity (extended_row generation lease now r) r"
  by (simp add: same_identity_def extended_row_def)

lemma fencedE:
  assumes "fenced s authority at"
  obtains w l c where "dn_state s = DelegationRunning w (da_fencing_token authority) l c" "at < l"
    "dn_owner_generation s = da_owner_generation authority" "dn_updated_at_ms s \<le> at"
  using assms by (auto simp: fenced_def split: delegation_state.splits)

lemma extended_row_shows:
  assumes raw: "shown_row sx raw s" and guard: "extendable (Some s) authority now_ms lease"
  shows "shown_row sx (extended_row (uint (owner_generation_get (next_generation s))) (uint lease) (uint now_ms) raw)
      (extended_lease now_ms lease s)"
proof -
  let ?r = "extended_row (uint (owner_generation_get (next_generation s))) (uint lease) (uint now_ms) raw"
  obtain w l c where st: "dn_state s = DelegationRunning w (da_fencing_token authority) l c" "now_ms < l" "dn_updated_at_ms s \<le> now_ms"
    using guard by (auto simp: extendable_def elim: fencedE)
  have g: "generation_left s" "uint (dn_updated_at_ms s) \<le> uint now_ms" "uint now_ms < uint lease" "uint lease \<le> i64_max"
    using guard st(3) by (auto simp: extendable_def word_le_def word_less_def)
  note cols = row_columns [OF raw] running_columns [OF raw st(1)]
  have old: "delegation_check raw" "row_in_range raw" using raw by (simp_all add: shown_row_def)
  have range: "row_in_range ?r"
    using g cols old by (simp add: row_in_range_def extended_row_def uint_next_generation generation_left_def)
  have check: "delegation_check ?r"
    using g cols by (simp add: delegation_check_def extended_row_def uint_next_generation)
  have "cancellation_from_raw ?r = Inr c"
    using cols(14) g(2) cols(4) unfolding cancellation_Inr [OF check range] cancellation_Inr [OF old]
    by (auto simp: extended_row_def split: option.splits)
  then have "delegation_state_of_row sx ?r = Inr (DelegationRunning w (da_fencing_token authority) lease c)"
    unfolding delegation_row_running [OF range] using cols by (simp add: extended_row_def)
  then show ?thesis
    using range check raw g cols st(1) same_identity_spec [OF extended_row_identity]
    by (simp add: shown_row_def delegation_shows_def extended_lease_def) (simp add: extended_row_def uint_next_generation)
qed

lemma heartbeat_ok:
  assumes inv: "delegations_inv sx d" and found: "delegations_of sx d k = Some s"
    and guard: "extendable (Some s) \<lparr>da_owner_generation = expected, da_fencing_token = token\<rparr> now_ms lease"
  defines "d' \<equiv> change_delegation k (extended_row (uint (owner_generation_get (next_generation s))) (uint lease) (uint now_ms)) d"
  shows "delegation_heartbeat sx k expected token now_ms lease d = (Inr (extended_lease now_ms lease s), d')"
    "delegations_inv sx d'" "delegations_of sx d' = (delegations_of sx d)(k \<mapsto> extended_lease now_ms lease s)"
proof -
  obtain raw where raw: "delegation_at d k = Some raw" "dr_delegation_id raw = delegation_id_str k" "shown_row sx raw s"
    by (rule shown_row [OF inv found])
  note new = extended_row_shows [OF raw(3) guard]
  note change = change_shown [OF inv raw(1) extended_row_identity new, folded d'_def]
  show "delegations_inv sx d'" "delegations_of sx d' = (delegations_of sx d)(k \<mapsto> extended_lease now_ms lease s)"
    by (rule change)+
  obtain w l c where st: "dn_state s = DelegationRunning w token l c" "now_ms < l" "dn_updated_at_ms s \<le> now_ms"
    "dn_owner_generation s = expected"
    using guard by (auto simp: extendable_def elim: fencedE)
  have g: "generation_left s" "now_ms < lease" "l < lease" "uint l < uint lease" "uint now_ms < uint lease" "uint lease \<le> i64_max"
    using guard st(1) by (auto simp: extendable_def word_less_def)
  note cols = running_columns [OF raw(3) st(1)]
  have conv: "delegation_to_i64 (owner_generation_get expected) name = Inr (dr_owner_generation raw)"
    "increment (dr_owner_generation raw) name = Inr (uint (owner_generation_get (next_generation s)))"
    "delegation_to_i64 lease name = Inr (uint lease)" "delegation_to_i64 now_ms name = Inr (uint now_ms)"
    "delegation_to_i64 (fencing_token_get token) name = Inr (dr_fencing_token raw)" for name
    using generation_conversion [OF raw(3) st(4)] increment_ok [OF raw(3)] g cols by (simp_all add: delegation_to_i64_Inr)
  have checks: "ensure_delegation_generation raw expected = Inr ()" "ensure_monotonic_timestamp raw now_ms name = Inr ()"
    "ensure_running_fence raw token = Inr ()" "ensure_active_lease raw now_ms = Inr ()" for name
    using generation_ok [OF raw(3)] timestamp_ok [OF raw(3)] fence_ok [OF raw(3)] lease_ok [OF raw(3) st(1)] st by simp_all
  have update: "update_delegations DelegationStorage
      (\<lambda>r. dr_delegation_id r = delegation_id_str k \<and> dr_state r = ''running'' \<and> dr_owner_generation r = dr_owner_generation raw
         \<and> dr_fencing_token r = dr_fencing_token raw)
      (extended_row (uint (owner_generation_get (next_generation s))) (uint lease) (uint now_ms)) d = (Inr 1, d')"
    using raw(2) cols new by (subst update_delegation_eq [OF inv raw(1)]) (simp_all add: d'_def shown_row_def)
  show "delegation_heartbeat sx k expected token now_ms lease d = (Inr (extended_lease now_ms lease s), d')"
    using raw(1) g cols(2) update [unfolded extended_row_def] load_shown [of sx d' k] change(2)
    by (simp add: delegation_heartbeat_def act_bind_def act_lift_def transaction_def load_delegation_def act_try_def
        delegation_at_def validate_lease_def checks conv ensure_one_updated_def not_le)
qed

lemma heartbeat_err:
  assumes inv: "delegations_inv sx d"
    and bad: "\<not> extendable (delegations_of sx d k) \<lparr>da_owner_generation = expected, da_fencing_token = token\<rparr> now_ms lease"
  shows "\<exists>e. delegation_heartbeat sx k expected token now_ms lease d = (Inl e, d)"
  unfolding delegation_heartbeat_def
proof (rule guarded_err, goal_cases)
  case (1 u d')
  then obtain raw where raw: "delegation_at d k = Some raw" by (auto simp: act_bind_ok load_delegation_ok)
  then obtain s where s: "delegations_of sx d k = Some s" "shown_row sx raw s" by (rule found_row [OF inv])
  from 1 raw have run: "\<not> lease \<le> now_ms" "dn_owner_generation s = expected" "dn_updated_at_ms s \<le> now_ms"
    "ensure_running_fence raw token = Inr ()" "ensure_active_lease raw now_ms = Inr ()" "generation_left s" "uint lease \<le> i64_max"
    "\<exists>current. dr_lease_expires_at_ms raw = Some current \<and> \<not> uint lease \<le> current"
    by (auto simp: act_bind_ok load_delegation_ok act_lift_def generation_ok [OF s(2)] timestamp_ok [OF s(2)]
        increment_ok [OF s(2)] validate_lease_def delegation_to_i64_Inr)
  then obtain w l c where st: "dn_state s = DelegationRunning w token l c" using fence_ok [OF s(2)] by blast
  have "now_ms < l" using run(5) lease_ok [OF s(2) st] by blast
  moreover have "l < lease" using run(8) running_columns(2) [OF s(2) st] by (simp add: word_less_def)
  ultimately have "extendable (Some s) \<lparr>da_owner_generation = expected, da_fencing_token = token\<rparr> now_ms lease"
    using run st by (simp add: extendable_def fenced_def)
  then show ?case using bad s(1) by simp
qed

end
