(* ===== verification/Delegation_Outcomes.thy ===== *)
theory Delegation_Outcomes
  imports Delegation_Leases
begin

text \<open>
  Terminal dispositions and their completions: every completion of the outbox is the one of a terminal
  delegation, every terminal delegation has one, and the operations that end a delegation (\<open>finish\<close>,
  \<open>complete_child\<close>, \<open>cancel\<close> of a pending one, the reconciliations) write both or nothing.
\<close>

section \<open>Delegations and their completions\<close>

definition outcome_completion :: "delegation_snapshot \<Rightarrow> delegation_completion" where
  "outcome_completion s = \<lparr>dm_event_id = ds_completion_event_id (dn_spec s), dm_delegation_id = ds_delegation_id (dn_spec s),
     dm_spec = dn_spec s, dm_outcome = term_outcome (dn_state s), dm_completed_at_ms = term_at_ms (dn_state s)\<rparr>"

definition settled :: "delegation_terminal \<Rightarrow> u64 \<Rightarrow> delegation_snapshot \<Rightarrow> delegation_snapshot" where
  "settled outcome at s = s\<lparr>dn_owner_generation := next_generation s, dn_state := DelegationTerminal outcome at, dn_updated_at_ms := at\<rparr>"

text \<open>The row of the outbox that belongs to a terminal delegation.\<close>

definition completion_links :: "serde \<Rightarrow> delegation_id \<Rightarrow> delegation_snapshot \<Rightarrow> completion_row \<Rightarrow> bool" where
  "completion_links sx k s r \<longleftrightarrow> delegation_is_terminal (dn_state s) \<and> cr_delegation_id r = delegation_id_str k
     \<and> cr_event_id r = completion_event_id_str (ds_completion_event_id (dn_spec s))
     \<and> cd_dec (sx_completion sx) (cr_payload_json r) = Inr (outcome_completion s)
     \<and> cr_created_at_ms r = uint (term_at_ms (dn_state s))"

definition outbox_linked :: "serde \<Rightarrow> database \<Rightarrow> bool" where
  "outbox_linked sx d \<longleftrightarrow> distinct (map cr_delegation_id (db_completions d))
     \<and> (\<forall>r \<in> set (db_completions d). \<exists>k s. delegations_of sx d k = Some s \<and> completion_links sx k s r)
     \<and> (\<forall>k s. delegations_of sx d k = Some s \<and> delegation_is_terminal (dn_state s) \<longrightarrow>
          delegation_id_str k \<in> cr_delegation_id ` set (db_completions d))"

lemma linked_row: "outbox_linked sx d \<Longrightarrow> r \<in> set (db_completions d) \<Longrightarrow>
    \<exists>k s. delegations_of sx d k = Some s \<and> completion_links sx k s r"
  by (simp add: outbox_linked_def)

lemma linked_terminal: "outbox_linked sx d \<Longrightarrow> delegations_of sx d k = Some s \<Longrightarrow> delegation_is_terminal (dn_state s) \<Longrightarrow>
    delegation_id_str k \<in> cr_delegation_id ` set (db_completions d)"
  by (simp add: outbox_linked_def)

text \<open>The invariant of the tables the delegation store writes.\<close>

definition children_inv :: "serde \<Rightarrow> database \<Rightarrow> bool" where
  "children_inv sx d \<longleftrightarrow> delegations_inv sx d \<and> outbox_inv d \<and> outbox_linked sx d"

lemma spec_of_row:
  assumes "shown_row sx raw s"
  shows "dn_spec s = \<lparr>ds_delegation_id = DelegationId (dr_delegation_id raw),
       ds_completion_event_id = CompletionEventId (dr_completion_event_id raw),
       ds_parent_session_id = SessionId (dr_parent_session_id raw), ds_child_session_id = SessionId (dr_child_session_id raw),
       ds_goal = dr_goal raw, ds_context = dr_context raw\<rparr>"
  using assms by (simp add: shown_row_def delegation_shows_def spec_from_raw_Inr)

lemma spec_id: "delegations_inv sx d \<Longrightarrow> delegations_of sx d k = Some s \<Longrightarrow> ds_delegation_id (dn_spec s) = k"
  by (metis delegation_id.collapse delegation_spec.select_convs(1) shown_row spec_of_row)

text \<open>Two delegations never share a completion event.\<close>

lemma event_unique:
  assumes inv: "delegations_inv sx d" and "delegations_of sx d k = Some s" "delegations_of sx d j = Some t"
    "ds_completion_event_id (dn_spec s) = ds_completion_event_id (dn_spec t)"
  shows "j = k"
proof -
  obtain r q where r: "r \<in> set (db_delegations d)" "dr_delegation_id r = delegation_id_str k" "shown_row sx r s"
    and q: "q \<in> set (db_delegations d)" "dr_delegation_id q = delegation_id_str j" "shown_row sx q t"
    using delegation_of_row [OF inv assms(2)] delegation_of_row [OF inv assms(3)] unfolding shown_row_def by metis
  have "dr_completion_event_id r = dr_completion_event_id q"
    using assms(4) spec_of_row [OF r(3)] spec_of_row [OF q(3)] by simp
  then have "r = q" using inv r(1) q(1) by (auto simp: delegations_inv_def distinct_map inj_on_def)
  then show ?thesis using r(2) q(2) by (simp add: delegation_id.expand)
qed

lemma completion_from_raw_eq:
  "shown_row sx raw s \<Longrightarrow> completion_from_raw raw outcome at = Inr (outcome_completion (settled outcome at s))"
  by (simp add: completion_from_raw_def shown_row_def delegation_shows_def outcome_completion_def settled_def)

section \<open>Posting a completion\<close>

definition posted_row :: "serde \<Rightarrow> delegation_snapshot \<Rightarrow> completion_row" where
  "posted_row sx s =
     \<lparr>cr_event_id = completion_event_id_str (ds_completion_event_id (dn_spec s)),
      cr_delegation_id = delegation_id_str (ds_delegation_id (dn_spec s)),
      cr_payload_json = projr (cd_enc (sx_completion sx) (outcome_completion s)),
      cr_delivery_state = ''pending'', cr_delivery_claim_id = None, cr_delivery_claim_expires_at_ms = None,
      cr_delivery_attempts = 0, cr_created_at_ms = uint (term_at_ms (dn_state s)), cr_delivered_at_ms = None\<rparr>"

definition post_completion :: "serde \<Rightarrow> delegation_snapshot \<Rightarrow> database \<Rightarrow> database" where
  "post_completion sx s d = d\<lparr>db_completions := db_completions d @ [posted_row sx s]\<rparr>"

lemma post_completion_frame [simp]:
  "db_sessions (post_completion sx s d) = db_sessions d" "db_messages (post_completion sx s d) = db_messages d"
  "db_turns (post_completion sx s d) = db_turns d" "db_delegations (post_completion sx s d) = db_delegations d"
  "db_effects (post_completion sx s d) = db_effects d" "db_bindings (post_completion sx s d) = db_bindings d"
  "has_session (post_completion sx s d) = has_session d"
  by (simp_all add: post_completion_def has_session_def fun_eq_iff)

lemma settle_step:
  assumes inv: "children_inv sx d" and found: "delegations_of sx d k = Some s" and open': "\<not> delegation_is_terminal (dn_state s)"
    and raw: "delegation_at d k = Some raw" and same: "\<And>r. same_identity (f r) r"
    and new: "shown_row sx (f raw) (settled outcome at s)"
    and enc: "encodes (sx_completion sx) (outcome_completion (settled outcome at s))"
  defines "d1 \<equiv> change_delegation k f d"
  defines "d2 \<equiv> post_completion sx (settled outcome at s) d1"
  shows "insert_completion sx (outcome_completion (settled outcome at s)) d1 = (Inr (), d2)" "children_inv sx d2"
    "delegations_of sx d2 = (delegations_of sx d)(k \<mapsto> settled outcome at s)"
    "outbox d2 = (outbox d)(ds_completion_event_id (dn_spec s) \<mapsto> posted_row sx (settled outcome at s))"
proof -
  let ?s = "settled outcome at s"
  let ?row = "posted_row sx ?s"
  have invs: "delegations_inv sx d" "outbox_inv d" "outbox_linked sx d" using inv by (simp_all add: children_inv_def)
  note change = change_shown [OF invs(1) raw same new, folded d1_def]
  have spec: "dn_spec ?s = dn_spec s" "ds_delegation_id (dn_spec s) = k" "dn_state ?s = DelegationTerminal outcome at"
    using spec_id [OF invs(1) found] by (simp_all add: settled_def)
  have at: "uint at \<le> i64_max" using row_columns(4,6) [OF new] by (simp add: settled_def)
  obtain payload where p: "cd_enc (sx_completion sx) (outcome_completion ?s) = Inr payload"
      "cd_dec (sx_completion sx) payload = Inr (outcome_completion ?s)"
    using enc by (rule encodesE)
  have comp: "db_completions d1 = db_completions d" by (simp add: d1_def)
  have fresh: "cr_delegation_id r \<noteq> delegation_id_str k
      \<and> cr_event_id r \<noteq> completion_event_id_str (ds_completion_event_id (dn_spec s))" if "r \<in> set (db_completions d)" for r
  proof -
    obtain j t where t: "delegations_of sx d j = Some t" "completion_links sx j t r"
      using linked_row [OF invs(3) \<open>r \<in> set (db_completions d)\<close>] by blast
    have "j \<noteq> k" using t found open' by (auto simp: completion_links_def)
    moreover have "ds_completion_event_id (dn_spec t) \<noteq> ds_completion_event_id (dn_spec s)"
      using event_unique [OF invs(1) found t(1)] \<open>j \<noteq> k\<close> by metis
    ultimately show ?thesis using t(2) by (auto simp: completion_links_def delegation_id.expand completion_event_id.expand)
  qed
  have fresh': "delegation_id_str k \<notin> cr_delegation_id ` set (db_completions d)"
    "completion_event_id_str (ds_completion_event_id (dn_spec s)) \<notin> cr_event_id ` set (db_completions d)"
    by (metis fresh imageE)+
  have row: "\<lparr>cr_event_id = completion_event_id_str (dm_event_id (outcome_completion ?s)),
        cr_delegation_id = delegation_id_str (dm_delegation_id (outcome_completion ?s)), cr_payload_json = payload,
        cr_delivery_state = ''pending'', cr_delivery_claim_id = None, cr_delivery_claim_expires_at_ms = None,
        cr_delivery_attempts = 0, cr_created_at_ms = uint at, cr_delivered_at_ms = None\<rparr> = ?row"
    using spec p(1) by (simp add: posted_row_def outcome_completion_def)
  have check: "completion_check ?row" using spec by (simp add: completion_check_def posted_row_def)
  have key: "delegation_id_str k \<in> dr_delegation_id ` set (db_delegations d1)"
    using change_delegation_at [where d = d and k = k and j = k, OF same] raw same [of raw]
    by (auto simp: d1_def delegation_at_def same_identity_def dest!: row_at_Some intro: rev_image_eqI)
  have at': "i64_of_u64 at = Some (uint at)" "dm_completed_at_ms (outcome_completion ?s) = at"
    using at spec by (simp_all add: i64_of_u64_def outcome_completion_def)
  have ins: "insert_completion_row DelegationStorage ?row d1 = (Inr (), d2)"
    using check fresh' key spec comp
    by (simp add: insert_completion_row_def run_insert_def sql_insert_def d2_def post_completion_def posted_row_def)
  show "insert_completion sx (outcome_completion ?s) d1 = (Inr (), d2)"
    using ins row p(1) at' by (simp add: insert_completion_def act_bind_def act_lift_def delegation_to_i64_def)
  have frame: "delegations_of sx d2 = delegations_of sx d1" by (rule delegations_frame) (simp add: d2_def)
  show of_d2: "delegations_of sx d2 = (delegations_of sx d)(k \<mapsto> ?s)" using frame change(2) by simp
  have "delegations_inv sx d2" by (rule delegations_frame(3) [OF _ change(1)]) (simp_all add: d2_def)
  moreover have "outbox_inv d2"
    using invs(2) fresh' check spec comp by (auto simp: outbox_inv_def d2_def post_completion_def posted_row_def)
  moreover have "outbox_linked sx d2"
  proof -
    have "completion_links sx k ?s ?row" using spec p by (simp add: completion_links_def posted_row_def)
    moreover have "\<exists>j t. delegations_of sx d2 j = Some t \<and> completion_links sx j t r" if "r \<in> set (db_completions d)" for r
    proof -
      obtain j t where "delegations_of sx d j = Some t" "completion_links sx j t r"
        using linked_row [OF invs(3) \<open>r \<in> set (db_completions d)\<close>] by blast
      moreover have "j \<noteq> k" using calculation fresh [OF that] by (auto simp: completion_links_def)
      ultimately show ?thesis using of_d2 by auto
    qed
    ultimately show ?thesis
      using invs(3) fresh of_d2 spec comp
      by (auto simp: outbox_linked_def d2_def post_completion_def image_iff split: if_splits)
         (auto simp: posted_row_def image_iff)
  qed
  ultimately show "children_inv sx d2" by (simp add: children_inv_def)
  show "outbox d2 = (outbox d)(ds_completion_event_id (dn_spec s) \<mapsto> ?row)"
  proof
    fix e
    have "row_at cr_event_id (db_completions d) (completion_event_id_str (ds_completion_event_id (dn_spec s))) = None"
      using fresh'(2) by (simp add: row_at_None)
    then show "outbox d2 e = ((outbox d)(ds_completion_event_id (dn_spec s) \<mapsto> ?row)) e"
      using comp spec
      by (auto simp: outbox_def d2_def post_completion_def row_at_append posted_row_def completion_event_id.expand split: option.split)
  qed
qed

section \<open>Settling a running delegation\<close>

fun terminal_detail_given :: "delegation_terminal \<Rightarrow> bool" where
  "terminal_detail_given (DelegationCompleted _) \<longleftrightarrow> True"
| "terminal_detail_given (DelegationFailed detail) \<longleftrightarrow> trim detail \<noteq> []"
| "terminal_detail_given (DelegationCancelled detail) \<longleftrightarrow> trim detail \<noteq> []"
| "terminal_detail_given (DelegationOutcomeUnknown detail) \<longleftrightarrow> trim detail \<noteq> []"

lemma validate_terminal_Inr [simp]: "validate_delegation_terminal outcome = Inr u \<longleftrightarrow> terminal_detail_given outcome"
  by (cases outcome) (simp_all add: terminal_detail_def)

lemma validate_terminal_ok: "terminal_detail_given outcome \<Longrightarrow> validate_delegation_terminal outcome = Inr ()"
  by simp

text \<open>A requested cancellation can only end in that cancellation, and nothing else can.\<close>

definition legal_outcome :: "delegation_snapshot \<Rightarrow> delegation_terminal \<Rightarrow> bool" where
  "legal_outcome s outcome \<longleftrightarrow> (case run_cancellation (dn_state s) of
     None \<Rightarrow> (case outcome of DelegationCancelled _ \<Rightarrow> False | _ \<Rightarrow> True)
   | Some c \<Rightarrow> outcome = DelegationCancelled (dc_reason c))"

definition finishable :: "delegation_snapshot \<Rightarrow> delegation_authority \<Rightarrow> delegation_terminal \<Rightarrow> u64 \<Rightarrow> bool" where
  "finishable s authority outcome at \<longleftrightarrow>
     terminal_detail_given outcome \<and> fenced s authority at \<and> legal_outcome s outcome \<and> generation_left s"

lemma legal_ok:
  assumes "shown_row sx raw s" "dn_state s = DelegationRunning w t l c"
  shows "ensure_legal_terminal raw outcome = Inr u \<longleftrightarrow> legal_outcome s outcome"
  using running_columns(6) [OF assms] assms(2)
  by (cases c; cases outcome) (auto simp: ensure_legal_terminal_def legal_outcome_def and_then_eq_Inr)

lemma settled_row_identity: "same_identity (settled_row outcome generation j at r) r"
  by (simp add: same_identity_def settled_row_def)

lemma settled_row_shows:
  assumes raw: "shown_row sx raw s" and run: "dn_state s = DelegationRunning w t l c" and g: "generation_left s"
    and at: "dn_updated_at_ms s \<le> at" "uint at \<le> i64_max" and dec: "cd_dec (sx_delegation_terminal sx) j = Inr outcome"
  shows "shown_row sx (settled_row outcome (uint (owner_generation_get (next_generation s))) j (uint at) raw) (settled outcome at s)"
proof -
  let ?r = "settled_row outcome (uint (owner_generation_get (next_generation s))) j (uint at) raw"
  note cols = row_columns [OF raw] running_columns [OF raw run]
  have at': "uint (dn_updated_at_ms s) \<le> uint at" using at(1) by (simp add: word_le_def)
  have "row_in_range raw" using raw by (simp add: shown_row_def)
  then have range: "row_in_range ?r"
    using g at(2) cols by (simp add: row_in_range_def settled_row_def uint_next_generation generation_left_def)
  have check: "delegation_check ?r"
    using g at' cols delegation_terminal_status_cases [of outcome]
    by (simp add: delegation_check_def settled_row_def uint_next_generation)
  have "delegation_state_of_row sx ?r = Inr (DelegationTerminal outcome at)"
    unfolding row_terminal [OF range] using dec by (simp add: settled_row_def)
  then show ?thesis
    using range check raw g cols same_identity_spec [OF settled_row_identity]
    by (simp add: shown_row_def delegation_shows_def settled_def) (simp add: settled_row_def uint_next_generation)
qed

text \<open>The database after a running delegation has ended.\<close>

definition settle_in :: "serde \<Rightarrow> delegation_id \<Rightarrow> delegation_terminal \<Rightarrow> u64 \<Rightarrow> delegation_snapshot \<Rightarrow> database \<Rightarrow> database" where
  "settle_in sx k outcome at s d = post_completion sx (settled outcome at s)
     (change_delegation k (settled_row outcome (uint (owner_generation_get (next_generation s)))
        (projr (cd_enc (sx_delegation_terminal sx) outcome)) (uint at)) d)"

lemma settle_in_frame [simp]:
  "db_sessions (settle_in sx k outcome at s d) = db_sessions d" "db_messages (settle_in sx k outcome at s d) = db_messages d"
  "db_turns (settle_in sx k outcome at s d) = db_turns d" "db_effects (settle_in sx k outcome at s d) = db_effects d"
  "has_session (settle_in sx k outcome at s d) = has_session d"
  by (simp_all add: settle_in_def)

text \<open>Posting leaves the rows of the outbox that are there.\<close>

definition keeps_posted :: "database \<Rightarrow> database \<Rightarrow> bool" where
  "keeps_posted d d' \<longleftrightarrow> (\<forall>e r. outbox d e = Some r \<longrightarrow> outbox d' e = Some r)"

lemma keeps_posted_same: "db_completions d' = db_completions d \<Longrightarrow> keeps_posted d d'"
  by (simp add: keeps_posted_def outbox_def)

lemma keeps_posted_trans: "keeps_posted d d' \<Longrightarrow> keeps_posted d' d'' \<Longrightarrow> keeps_posted d d''"
  by (simp add: keeps_posted_def)

lemma post_keeps_posted: "keeps_posted d (post_completion sx s d)"
  by (auto simp: keeps_posted_def outbox_def post_completion_def row_at_append)

lemma settle_in_keeps_posted: "keeps_posted d (settle_in sx k outcome at s d)"
  unfolding settle_in_def by (rule keeps_posted_trans [OF keeps_posted_same post_keeps_posted]) simp

lemma settle_in_ok:
  assumes inv: "children_inv sx d" and found: "delegations_of sx d k = Some s"
    and run: "dn_state s = DelegationRunning w t l c" and g: "generation_left s"
    and at: "dn_updated_at_ms s \<le> at" "uint at \<le> i64_max"
    and enc: "encodes (sx_delegation_terminal sx) outcome" "encodes (sx_completion sx) (outcome_completion (settled outcome at s))"
    and matches: "\<And>r. matches r \<Longrightarrow> dr_delegation_id r = delegation_id_str k"
      "\<And>raw. delegation_at d k = Some raw \<Longrightarrow> matches raw"
  obtains j d1 where "cd_enc (sx_delegation_terminal sx) outcome = Inr j"
    "update_delegations err matches (settled_row outcome (uint (owner_generation_get (next_generation s))) j (uint at)) d = (Inr 1, d1)"
    "insert_completion sx (outcome_completion (settled outcome at s)) d1 = (Inr (), settle_in sx k outcome at s d)"
    "children_inv sx (settle_in sx k outcome at s d)"
    "delegations_of sx (settle_in sx k outcome at s d) = (delegations_of sx d)(k \<mapsto> settled outcome at s)"
    "outbox (settle_in sx k outcome at s d)
      = (outbox d)(ds_completion_event_id (dn_spec s) \<mapsto> posted_row sx (settled outcome at s))"
proof -
  have dinv: "delegations_inv sx d" using inv by (simp add: children_inv_def)
  obtain raw where raw: "delegation_at d k = Some raw" "dr_delegation_id raw = delegation_id_str k" "shown_row sx raw s"
    by (rule shown_row [OF dinv found])
  obtain j where j: "cd_enc (sx_delegation_terminal sx) outcome = Inr j" "cd_dec (sx_delegation_terminal sx) j = Inr outcome"
    using enc(1) by (rule encodesE)
  let ?f = "settled_row outcome (uint (owner_generation_get (next_generation s))) j (uint at)"
  note new = settled_row_shows [OF raw(3) run g at j(2)]
  have open': "\<not> delegation_is_terminal (dn_state s)" using run by simp
  note step = settle_step [OF inv found open' raw(1) settled_row_identity new enc(2)]
  have d2: "settle_in sx k outcome at s d = post_completion sx (settled outcome at s) (change_delegation k ?f d)"
    using j(1) by (simp add: settle_in_def)
  have "update_delegations err matches ?f d = (Inr 1, change_delegation k ?f d)"
    using matches(2) [OF raw(1)] new by (subst update_delegation_eq [OF dinv raw(1) matches(1)]) (simp_all add: shown_row_def)
  then show ?thesis using that [OF j(1)] step unfolding d2 by blast
qed

lemma open_delegation_ok:
  assumes inv: "delegations_inv sx d" and found: "delegations_of sx d k = Some s" and guard: "finishable s authority outcome at"
  obtains raw where "open_delegation k authority outcome at d = (Inr raw, d)" "delegation_at d k = Some raw"
    "dr_delegation_id raw = delegation_id_str k" "shown_row sx raw s"
proof -
  obtain raw where raw: "delegation_at d k = Some raw" "dr_delegation_id raw = delegation_id_str k" "shown_row sx raw s"
    by (rule shown_row [OF inv found])
  obtain w l c where st: "dn_state s = DelegationRunning w (da_fencing_token authority) l c" "at < l"
    "dn_owner_generation s = da_owner_generation authority" "dn_updated_at_ms s \<le> at"
    using guard by (auto simp: finishable_def elim: fencedE)
  have checks: "ensure_delegation_generation raw (da_owner_generation authority) = Inr ()"
    "ensure_monotonic_timestamp raw at name = Inr ()" "ensure_running_fence raw (da_fencing_token authority) = Inr ()"
    "ensure_active_lease raw at = Inr ()" "ensure_legal_terminal raw outcome = Inr ()" for name
    using generation_ok [OF raw(3)] timestamp_ok [OF raw(3)] fence_ok [OF raw(3)] lease_ok [OF raw(3) st(1)]
      legal_ok [OF raw(3) st(1)] st guard by (simp_all add: finishable_def)
  have "open_delegation k authority outcome at d = (Inr raw, d)"
    using raw(1) by (simp add: open_delegation_def act_bind_def act_lift_def act_return_def load_delegation_def act_try_def delegation_at_def checks)
  then show ?thesis using that raw by blast
qed

lemma open_delegation_Inr:
  assumes inv: "delegations_inv sx d" and run: "open_delegation k authority outcome at d = (Inr raw, d')"
  obtains s where "d' = d" "delegations_of sx d k = Some s" "shown_row sx raw s" "delegation_at d k = Some raw"
    "fenced s authority at" "legal_outcome s outcome"
proof -
  have raw: "delegation_at d k = Some raw" "d' = d"
    using run by (auto simp: open_delegation_def act_bind_ok load_delegation_ok act_lift_def act_return_def)
  then obtain s where s: "delegations_of sx d k = Some s" "shown_row sx raw s" using found_row [OF inv] by blast
  have guards: "dn_owner_generation s = da_owner_generation authority" "dn_updated_at_ms s \<le> at"
    "ensure_running_fence raw (da_fencing_token authority) = Inr ()" "ensure_active_lease raw at = Inr ()"
    "ensure_legal_terminal raw outcome = Inr ()"
    using run raw(1)
    by (auto simp: open_delegation_def act_bind_ok load_delegation_ok act_lift_def act_return_def generation_ok [OF s(2)] timestamp_ok [OF s(2)])
  then obtain w l c where st: "dn_state s = DelegationRunning w (da_fencing_token authority) l c" using fence_ok [OF s(2)] by blast
  have "fenced s authority at" using guards(1,2,4) st lease_ok [OF s(2) st] by (simp add: fenced_def)
  moreover have "legal_outcome s outcome" using guards(5) legal_ok [OF s(2) st] by blast
  ultimately show ?thesis using that raw s by blast
qed

lemma lease_fits:
  assumes "delegations_inv sx d" "delegations_of sx d k = Some s" "fenced s authority at"
  shows "uint at \<le> i64_max"
proof -
  obtain raw where raw: "shown_row sx raw s" using shown_row [OF assms(1,2)] by blast
  obtain w l c where st: "dn_state s = DelegationRunning w (da_fencing_token authority) l c" "at < l" using assms(3) by (rule fencedE)
  show ?thesis using running_columns(8) [OF raw st(1)] st(2) by (simp add: word_less_def)
qed

lemma settle_delegation_ok:
  assumes inv: "children_inv sx d" and found: "delegations_of sx d k = Some s" and guard: "finishable s authority outcome at"
    and enc: "encodes (sx_delegation_terminal sx) outcome" "encodes (sx_completion sx) (outcome_completion (settled outcome at s))"
    and raw: "delegation_at d k = Some raw" "shown_row sx raw s"
  shows "settle_delegation sx k authority raw outcome at d = (Inr (outcome_completion (settled outcome at s)), settle_in sx k outcome at s d)"
    "children_inv sx (settle_in sx k outcome at s d)"
    "delegations_of sx (settle_in sx k outcome at s d) = (delegations_of sx d)(k \<mapsto> settled outcome at s)"
    "outbox (settle_in sx k outcome at s d)
      = (outbox d)(ds_completion_event_id (dn_spec s) \<mapsto> posted_row sx (settled outcome at s))"
proof -
  have dinv: "delegations_inv sx d" using inv by (simp add: children_inv_def)
  have guard': "fenced s authority at" "generation_left s" using guard by (simp_all add: finishable_def)
  obtain w l c where st: "dn_state s = DelegationRunning w (da_fencing_token authority) l c"
    "dn_owner_generation s = da_owner_generation authority" "dn_updated_at_ms s \<le> at" using guard'(1) by (rule fencedE)
  have at: "uint at \<le> i64_max" by (rule lease_fits [OF dinv found guard'(1)])
  note cols = running_columns [OF raw(2) st(1)]
  have key: "dr_delegation_id raw = delegation_id_str k" using raw(1) by (auto simp: delegation_at_def dest: row_at_Some)
  let ?m = "\<lambda>r. dr_delegation_id r = delegation_id_str k \<and> dr_state r = ''running''
      \<and> dr_owner_generation r = dr_owner_generation raw \<and> dr_fencing_token r = dr_fencing_token raw"
  have m: "?m r \<Longrightarrow> dr_delegation_id r = delegation_id_str k" "delegation_at d k = Some q \<Longrightarrow> ?m q" for r q
    using raw(1) key cols(1) by auto
  obtain j d1 where j: "cd_enc (sx_delegation_terminal sx) outcome = Inr j"
    and upd: "update_delegations DelegationStorage ?m
      (settled_row outcome (uint (owner_generation_get (next_generation s))) j (uint at)) d = (Inr 1, d1)"
    and post: "insert_completion sx (outcome_completion (settled outcome at s)) d1 = (Inr (), settle_in sx k outcome at s d)"
    and res: "children_inv sx (settle_in sx k outcome at s d)"
    "delegations_of sx (settle_in sx k outcome at s d) = (delegations_of sx d)(k \<mapsto> settled outcome at s)"
    "outbox (settle_in sx k outcome at s d) = (outbox d)(ds_completion_event_id (dn_spec s) \<mapsto> posted_row sx (settled outcome at s))"
    by (rule settle_in_ok [OF inv found st(1) guard'(2) st(3) at enc m])
  have conv: "delegation_to_i64 (owner_generation_get (da_owner_generation authority)) name = Inr (dr_owner_generation raw)"
    "increment (dr_owner_generation raw) name = Inr (uint (owner_generation_get (next_generation s)))"
    "delegation_to_i64 at name = Inr (uint at)"
    "delegation_to_i64 (fencing_token_get (da_fencing_token authority)) name = Inr (dr_fencing_token raw)" for name
    using generation_conversion [OF raw(2) st(2)] increment_ok [OF raw(2)] guard'(2) cols at by (simp_all add: delegation_to_i64_Inr)
  show "settle_delegation sx k authority raw outcome at d = (Inr (outcome_completion (settled outcome at s)), settle_in sx k outcome at s d)"
    using upd post j
    by (simp add: settle_delegation_def act_bind_def act_lift_def act_return_def completion_from_raw_eq [OF raw(2)] conv ensure_one_updated_def)
  show "children_inv sx (settle_in sx k outcome at s d)"
    "delegations_of sx (settle_in sx k outcome at s d) = (delegations_of sx d)(k \<mapsto> settled outcome at s)"
    "outbox (settle_in sx k outcome at s d) = (outbox d)(ds_completion_event_id (dn_spec s) \<mapsto> posted_row sx (settled outcome at s))"
    by (fact res)+
qed

lemma settle_delegation_left:
  "settle_delegation sx k authority raw outcome at d = (Inr r, d') \<Longrightarrow> shown_row sx raw s \<Longrightarrow> generation_left s"
  by (auto simp: settle_delegation_def act_bind_ok act_lift_def increment_ok)

section \<open>Finishing\<close>

lemma finish_ok:
  assumes inv: "children_inv sx d" and found: "delegations_of sx d k = Some s"
    and guard: "finishable s \<lparr>da_owner_generation = expected, da_fencing_token = token\<rparr> outcome at"
    and enc: "encodes (sx_delegation_terminal sx) outcome" "encodes (sx_completion sx) (outcome_completion (settled outcome at s))"
  shows "delegation_finish sx k expected token outcome at d
     = (Inr (outcome_completion (settled outcome at s)), settle_in sx k outcome at s d)"
    "children_inv sx (settle_in sx k outcome at s d)"
    "delegations_of sx (settle_in sx k outcome at s d) = (delegations_of sx d)(k \<mapsto> settled outcome at s)"
    "outbox (settle_in sx k outcome at s d)
      = (outbox d)(ds_completion_event_id (dn_spec s) \<mapsto> posted_row sx (settled outcome at s))"
proof -
  have dinv: "delegations_inv sx d" using inv by (simp add: children_inv_def)
  obtain raw where raw: "open_delegation k \<lparr>da_owner_generation = expected, da_fencing_token = token\<rparr> outcome at d = (Inr raw, d)"
    "delegation_at d k = Some raw" "shown_row sx raw s"
    using open_delegation_ok [OF dinv found guard] by metis
  note settle = settle_delegation_ok [OF inv found guard enc raw(2,3)]
  have "terminal_detail_given outcome" using guard by (simp add: finishable_def)
  then show "delegation_finish sx k expected token outcome at d
     = (Inr (outcome_completion (settled outcome at s)), settle_in sx k outcome at s d)"
    using raw(1) settle(1) by (simp add: delegation_finish_def Let_def act_bind_def act_lift_def transaction_def validate_terminal_ok)
qed (use settle_delegation_ok [OF inv found guard enc] shown_row inv found in \<open>unfold children_inv_def; metis\<close>)+

lemma finish_err:
  assumes inv: "children_inv sx d"
    and bad: "\<And>s. delegations_of sx d k = Some s \<Longrightarrow>
      \<not> finishable s \<lparr>da_owner_generation = expected, da_fencing_token = token\<rparr> outcome at"
  shows "\<exists>e. delegation_finish sx k expected token outcome at d = (Inl e, d)"
  unfolding delegation_finish_def Let_def
proof (rule guarded_err(1), goal_cases)
  case (1 u d')
  have dinv: "delegations_inv sx d" using inv by (simp add: children_inv_def)
  obtain raw d1 where run: "open_delegation k \<lparr>da_owner_generation = expected, da_fencing_token = token\<rparr> outcome at d = (Inr raw, d1)"
    "settle_delegation sx k \<lparr>da_owner_generation = expected, da_fencing_token = token\<rparr> raw outcome at d1 = (Inr u, d')"
    using 1(2) by (auto simp: act_bind_ok)
  obtain s where s: "delegations_of sx d k = Some s" "shown_row sx raw s"
    "fenced s \<lparr>da_owner_generation = expected, da_fencing_token = token\<rparr> at" "legal_outcome s outcome"
    by (rule open_delegation_Inr [OF dinv run(1)])
  have "terminal_detail_given outcome" using 1(1) by simp
  then show ?case using bad [OF s(1)] s settle_delegation_left [OF run(2) s(2)] by (simp add: finishable_def)
qed

section \<open>Completing a child together with its turn\<close>

text \<open>Sessions, delegations and the outbox.\<close>

definition supervisor_inv :: "serde \<Rightarrow> database \<Rightarrow> bool" where
  "supervisor_inv sx d \<longleftrightarrow> stores_inv sx d \<and> children_inv sx d"

lemma children_frame:
  assumes "db_delegations d' = db_delegations d" "db_completions d' = db_completions d"
    "\<And>k. has_session d k \<Longrightarrow> has_session d' k" "children_inv sx d"
  shows "children_inv sx d'"
proof -
  have "delegations_inv sx d'" using delegations_frame(3) [OF assms(1)] assms(3,4) by (simp add: children_inv_def)
  moreover have "outbox_inv d'" using assms(2,4) by (simp add: children_inv_def outbox_inv_def)
  moreover have "outbox_linked sx d'"
    using assms(4) by (simp add: children_inv_def outbox_linked_def assms(2) delegations_frame(1) [OF assms(1)])
  ultimately show ?thesis by (simp add: children_inv_def)
qed

lemma supervisor_of_children:
  assumes "supervisor_inv sx d" "children_inv sx d'" "db_sessions d' = db_sessions d" "db_messages d' = db_messages d"
    "db_turns d' = db_turns d"
  shows "supervisor_inv sx d'" "sessions_of sx d' = sessions_of sx d" "turns_of sx d' = turns_of sx d"
proof -
  note frame = sessions_frame [OF assms(3,4)]
  have "turns_inv sx d'" using turns_frame(2) [OF assms(5)] assms(1) frame(3) by (simp add: supervisor_inv_def stores_inv_def)
  then show "supervisor_inv sx d'"
    using assms(1,2) frame by (simp add: supervisor_inv_def stores_inv_def children_inv_def)
  show "sessions_of sx d' = sessions_of sx d" by (rule frame)
  show "turns_of sx d' = turns_of sx d" by (rule turns_frame [OF assms(5)])
qed

lemma append_children:
  assumes "supervisor_inv sx d" "sessions_of sx d sid = Some c" "appendable (Some c) g ms" "\<forall>m \<in> set ms. storable_message sx m"
  shows "supervisor_inv sx (append_database sx now sid c ms d)"
    "sessions_of sx (append_database sx now sid c ms d) = (sessions_of sx d)(sid \<mapsto> extended c ms)"
    "delegations_of sx (append_database sx now sid c ms d) = delegations_of sx d"
    "delegation_at (append_database sx now sid c ms d) = delegation_at d"
    "turns_of sx (append_database sx now sid c ms d) = turns_of sx d"
proof -
  let ?d = "append_database sx now sid c ms d"
  have inv: "sessions_inv sx d" "turns_inv sx d" "outbox_inv d" "children_inv sx d"
    using assms(1) by (simp_all add: supervisor_inv_def stores_inv_def)
  have "ss_owner_generation c = g" using assms(3) by (simp add: appendable_def)
  note append = append_loads [OF inv(1) assms(2,4), of now] assms(3)
  have app: "sessions_inv sx ?d" "sessions_of sx ?d = (sessions_of sx d)(sid \<mapsto> extended c ms)"
    using append \<open>ss_owner_generation c = g\<close> by auto
  have "turns_inv sx ?d" using turns_frame(2) [of ?d d] inv(2) append_has_session by simp
  moreover have "children_inv sx ?d" by (rule children_frame [OF _ _ _ inv(4)]) (simp_all add: append_has_session)
  ultimately show "supervisor_inv sx ?d"
    using app(1) by (simp add: supervisor_inv_def stores_inv_def children_inv_def)
  show "sessions_of sx ?d = (sessions_of sx d)(sid \<mapsto> extended c ms)" by (rule app)
  show "delegations_of sx ?d = delegations_of sx d" "delegation_at ?d = delegation_at d" by (rule delegations_frame; simp)+
  show "turns_of sx ?d = turns_of sx d" by (rule turns_frame) simp
qed

definition child_session :: "delegation_snapshot \<Rightarrow> session_id" where
  "child_session s = ds_child_session_id (dn_spec s)"

lemma child_of_row: "shown_row sx raw s \<Longrightarrow>
    unpadded (dr_child_session_id raw) \<and> SessionId (dr_child_session_id raw) = child_session s"
  by (simp add: shown_row_def delegation_shows_def spec_from_raw_Inr child_session_def)

lemma complete_child_ok:
  fixes now :: i64
  assumes inv: "supervisor_inv sx d" and found: "delegations_of sx d k = Some s"
    and guard: "finishable s authority (DelegationCompleted summary) at"
    and child: "sessions_of sx d (child_session s) = Some c" "appendable (Some c) child_generation ms"
    and ms: "\<forall>m \<in> set ms. storable_message sx m"
    and enc: "encodes (sx_delegation_terminal sx) (DelegationCompleted summary)"
      "encodes (sx_completion sx) (outcome_completion (settled (DelegationCompleted summary) at s))"
  defines "outcome \<equiv> DelegationCompleted summary"
  defines "d' \<equiv> settle_in sx k outcome at s (append_database sx now (child_session s) c ms d)"
  shows "complete_child sx now k authority child_generation ms summary at d = (Inr (outcome_completion (settled outcome at s)), d')"
    "supervisor_inv sx d'" "delegations_of sx d' = (delegations_of sx d)(k \<mapsto> settled outcome at s)"
    "sessions_of sx d' = (sessions_of sx d)(child_session s \<mapsto> extended c ms)"
    "outbox d' = (outbox d)(ds_completion_event_id (dn_spec s) \<mapsto> posted_row sx (settled outcome at s))"
    "turns_of sx d' = turns_of sx d"
proof -
  let ?d1 = "append_database sx now (child_session s) c ms d"
  have invs: "children_inv sx d" "delegations_inv sx d" "sessions_inv sx d"
    using inv by (simp_all add: supervisor_inv_def children_inv_def stores_inv_def)
  obtain raw where raw: "open_delegation k authority outcome at d = (Inr raw, d)" "delegation_at d k = Some raw" "shown_row sx raw s"
    using open_delegation_ok [OF invs(2) found guard] unfolding outcome_def by metis
  note append = append_children [OF inv child ms, of now]
  have c1: "children_inv sx ?d1" using append(1) by (simp add: supervisor_inv_def)
  have at1: "delegation_at ?d1 k = Some raw" "delegations_of sx ?d1 k = Some s" using append(3,4) raw(2) found by simp_all
  note settle = settle_delegation_ok [OF c1 at1(2) guard enc at1(1) raw(3), folded outcome_def, folded d'_def]
  show "complete_child sx now k authority child_generation ms summary at d = (Inr (outcome_completion (settled outcome at s)), d')"
    using raw(1) append_in_transaction_ok [OF invs(3) child(1) ms child(2), of now] settle(1) child_of_row [OF raw(3)]
    by (simp add: complete_child_def Let_def act_bind_def act_lift_def transaction_def act_map_err_def outcome_def delegation_id_error_def id_new_ok)
  note sup = supervisor_of_children [OF append(1) settle(2)]
  show "supervisor_inv sx d'" "delegations_of sx d' = (delegations_of sx d)(k \<mapsto> settled outcome at s)"
    "sessions_of sx d' = (sessions_of sx d)(child_session s \<mapsto> extended c ms)" "turns_of sx d' = turns_of sx d"
    using sup settle(3) append(2,3,5) by (simp_all add: d'_def)
  have "outbox ?d1 = outbox d" by (rule claims_owned_frame) simp_all
  then show "outbox d' = (outbox d)(ds_completion_event_id (dn_spec s) \<mapsto> posted_row sx (settled outcome at s))"
    using settle(4) by simp
qed

lemma complete_child_err:
  assumes inv: "supervisor_inv sx d"
    and bad: "\<And>s. delegations_of sx d k = Some s \<Longrightarrow>
      \<not> (finishable s authority (DelegationCompleted summary) at
         \<and> appendable (sessions_of sx d (child_session s)) child_generation ms)"
  shows "\<exists>e. complete_child sx now k authority child_generation ms summary at d = (Inl e, d)"
  unfolding complete_child_def Let_def
proof (rule guarded_err(1), goal_cases)
  case (1 u d')
  have dinv: "delegations_inv sx d" using inv by (simp add: supervisor_inv_def children_inv_def)
  obtain raw d1 sid r d2 where run: "open_delegation k authority (DelegationCompleted summary) at d = (Inr raw, d1)"
    "session_id_new (dr_child_session_id raw) = Inr sid"
    "append_turn_in_transaction sx now sid child_generation ms d1 = (Inr r, d2)"
    "settle_delegation sx k authority raw (DelegationCompleted summary) at d2 = (Inr u, d')"
    using 1(2) by (auto simp: act_bind_ok act_map_err_ok act_lift_def)
  obtain s where s: "delegations_of sx d k = Some s" "shown_row sx raw s" "fenced s authority at"
    "legal_outcome s (DelegationCompleted summary)" "d1 = d"
    by (rule open_delegation_Inr [OF dinv run(1)])
  have "sid = child_session s" using run(2) child_of_row [OF s(2)] by simp
  moreover have "finishable s authority (DelegationCompleted summary) at"
    using s settle_delegation_left [OF run(4) s(2)] by (simp add: finishable_def)
  ultimately show ?case using bad [OF s(1)] append_in_transaction_Inr [OF run(3)] s(5) by simp
qed

section \<open>Cancelling\<close>

text \<open>
  A pending delegation is cancelled at once; a running one is asked to stop, once: the same request again
  changes nothing, a request with another reason is refused.
\<close>

definition cancel_result :: "owner_generation \<Rightarrow> string \<Rightarrow> u64 \<Rightarrow> delegation_snapshot \<Rightarrow> delegation_snapshot option" where
  "cancel_result expected reason at s =
     (if dn_owner_generation s \<noteq> expected \<or> at < dn_updated_at_ms s \<or> \<not> unpadded reason then None
      else case dn_state s of
        DelegationPending \<Rightarrow>
          if generation_left s \<and> uint at \<le> i64_max then Some (settled (DelegationCancelled reason) at s) else None
      | DelegationRunning worker token lease requested \<Rightarrow>
          if lease \<le> at then None
          else (case requested of
            None \<Rightarrow> Some (s\<lparr>dn_state := DelegationRunning worker token lease (Some \<lparr>dc_reason = reason, dc_requested_at_ms = at\<rparr>),
                           dn_updated_at_ms := at\<rparr>)
          | Some q \<Rightarrow> if dc_reason q = reason then Some s else None)
      | DelegationTerminal _ _ \<Rightarrow> None)"

definition cancelled_row :: "i64 \<Rightarrow> string \<Rightarrow> i64 \<Rightarrow> delegation_row \<Rightarrow> delegation_row" where
  "cancelled_row generation j at r =
     r\<lparr>dr_state := ''cancelled'', dr_owner_generation := generation, dr_fencing_token := 1,
       dr_terminal_json := Some j, dr_updated_at_ms := at\<rparr>"

definition requested_row :: "string \<Rightarrow> i64 \<Rightarrow> delegation_row \<Rightarrow> delegation_row" where
  "requested_row reason at r =
     r\<lparr>dr_cancellation_reason := Some reason, dr_cancellation_requested_at_ms := Some at, dr_updated_at_ms := at\<rparr>"

lemma cancel_row_identity: "same_identity (cancelled_row generation j at r) r" "same_identity (requested_row reason at r) r"
  by (simp_all add: same_identity_def cancelled_row_def requested_row_def)

lemma cancelled_row_shows:
  assumes raw: "shown_row sx raw s" and st: "dn_state s = DelegationPending" and g: "generation_left s"
    and at: "dn_updated_at_ms s \<le> at" "uint at \<le> i64_max"
    and dec: "cd_dec (sx_delegation_terminal sx) j = Inr (DelegationCancelled reason)"
  shows "shown_row sx (cancelled_row (uint (owner_generation_get (next_generation s))) j (uint at) raw)
      (settled (DelegationCancelled reason) at s)"
proof -
  let ?r = "cancelled_row (uint (owner_generation_get (next_generation s))) j (uint at) raw"
  note cols = row_columns [OF raw] pending_columns [OF raw st]
  have at': "uint (dn_updated_at_ms s) \<le> uint at" using at(1) by (simp add: word_le_def)
  have range: "row_in_range ?r"
    using g at(2) cols by (simp add: row_in_range_def cancelled_row_def uint_next_generation generation_left_def i64_max_def)
  have check: "delegation_check ?r" using g at' cols by (simp add: delegation_check_def cancelled_row_def uint_next_generation)
  have "delegation_state_of_row sx ?r = Inr (DelegationTerminal (DelegationCancelled reason) at)"
    unfolding row_terminal [OF range] using dec cols by (simp add: cancelled_row_def)
  then show ?thesis
    using range check raw g cols same_identity_spec [OF cancel_row_identity(1)]
    by (simp add: shown_row_def delegation_shows_def settled_def) (simp add: cancelled_row_def uint_next_generation)
qed

lemma requested_row_shows:
  assumes raw: "shown_row sx raw s" and st: "dn_state s = DelegationRunning w t l None" and at: "dn_updated_at_ms s \<le> at" "at < l"
    and reason: "unpadded reason"
  shows "shown_row sx (requested_row reason (uint at) raw)
      (s\<lparr>dn_state := DelegationRunning w t l (Some \<lparr>dc_reason = reason, dc_requested_at_ms = at\<rparr>), dn_updated_at_ms := at\<rparr>)"
proof -
  let ?r = "requested_row reason (uint at) raw"
  note cols = row_columns [OF raw] running_columns [OF raw st]
  have at': "uint (dn_updated_at_ms s) \<le> uint at" "uint at \<le> i64_max"
    using at cols(16) by (simp_all add: word_le_def word_less_def)
  have "row_in_range raw" using raw by (simp add: shown_row_def)
  then have range: "row_in_range ?r" using at' cols by (simp add: row_in_range_def requested_row_def)
  have check: "delegation_check ?r" using at' cols by (simp add: delegation_check_def requested_row_def)
  have "cancellation_from_raw ?r = Inr (Some \<lparr>dc_reason = reason, dc_requested_at_ms = at\<rparr>)"
    unfolding cancellation_Inr [OF check range] using reason at' cols by (simp add: requested_row_def)
  then have "delegation_state_of_row sx ?r = Inr (DelegationRunning w t l (Some \<lparr>dc_reason = reason, dc_requested_at_ms = at\<rparr>))"
    unfolding delegation_row_running [OF range] using cols by (simp add: requested_row_def)
  then show ?thesis
    using range check raw cols same_identity_spec [OF cancel_row_identity(2)]
    by (simp add: shown_row_def delegation_shows_def) (simp add: requested_row_def)
qed

lemma request_ok:
  assumes inv: "delegations_inv sx d" and raw: "delegation_at d k = Some raw" "shown_row sx raw s"
    and st: "dn_state s = DelegationRunning w t l None" and gen: "dn_owner_generation s = expected"
    and at: "dn_updated_at_ms s \<le> at" "at < l" and reason: "unpadded reason"
  defines "s' \<equiv> s\<lparr>dn_state := DelegationRunning w t l (Some \<lparr>dc_reason = reason, dc_requested_at_ms = at\<rparr>), dn_updated_at_ms := at\<rparr>"
  defines "d' \<equiv> change_delegation k (requested_row reason (uint at)) d"
  shows "request_cancellation k expected reason at raw d = (Inr (), d')" "delegations_inv sx d'"
    "delegations_of sx d' = (delegations_of sx d)(k \<mapsto> s')"
proof -
  note new = requested_row_shows [OF raw(2) st at reason, folded s'_def]
  note cols = running_columns [OF raw(2) st]
  have no: "dr_cancellation_reason raw = None" "dr_cancellation_requested_at_ms raw = None"
    using cols(6) by (auto simp: cancellation_from_raw_def and_then_eq_Inr split: option.splits)
  have at': "uint at \<le> i64_max" using at(2) cols(8) by (simp add: word_less_def)
  have key: "dr_delegation_id raw = delegation_id_str k" using raw(1) by (auto simp: delegation_at_def dest: row_at_Some)
  have update: "update_delegations DelegationStorage
      (\<lambda>r. dr_delegation_id r = delegation_id_str k \<and> dr_state r = ''running'' \<and> dr_owner_generation r = dr_owner_generation raw
         \<and> dr_cancellation_reason r = None \<and> dr_cancellation_requested_at_ms r = None)
      (requested_row reason (uint at)) d = (Inr 1, d')"
    using key cols(1) no new by (subst update_delegation_eq [OF inv raw(1)]) (simp_all add: d'_def shown_row_def)
  have conv: "delegation_to_i64 (owner_generation_get expected) name = Inr (dr_owner_generation raw)"
    "delegation_to_i64 at name = Inr (uint at)" for name
    using generation_conversion [OF raw(2) gen] at' by (simp_all add: delegation_to_i64_Inr)
  show "request_cancellation k expected reason at raw d = (Inr (), d')"
    using update [unfolded requested_row_def]
    by (simp add: request_cancellation_def no act_bind_def act_lift_def conv ensure_one_updated_def)
  show "delegations_inv sx d'" "delegations_of sx d' = (delegations_of sx d)(k \<mapsto> s')"
    using change_shown [OF inv raw(1) cancel_row_identity(2) new] by (simp_all add: d'_def)
qed

lemma outbox_linked_step:
  assumes inv: "children_inv sx d" and found: "delegations_of sx d k = Some s" and open': "\<not> delegation_is_terminal (dn_state s)"
    and d': "db_completions d' = db_completions d" "delegations_inv sx d'" "delegations_of sx d' = (delegations_of sx d)(k \<mapsto> s')"
    and open'': "\<not> delegation_is_terminal (dn_state s')"
  shows "children_inv sx d'"
proof -
  have linked: "outbox_linked sx d" using inv by (simp add: children_inv_def)
  have "\<exists>j t. delegations_of sx d' j = Some t \<and> completion_links sx j t r" if "r \<in> set (db_completions d)" for r
  proof -
    obtain j t where t: "delegations_of sx d j = Some t" "completion_links sx j t r"
      using linked_row [OF linked \<open>r \<in> set (db_completions d)\<close>] by blast
    then have "j \<noteq> k" using found open' by (auto simp: completion_links_def)
    then show ?thesis using t d'(3) by auto
  qed
  moreover have "delegation_id_str j \<in> cr_delegation_id ` set (db_completions d)"
    if "delegations_of sx d' j = Some t" "delegation_is_terminal (dn_state t)" for j t
    using that d'(3) open'' linked_terminal [OF linked] by (auto split: if_splits)
  moreover have "distinct (map cr_delegation_id (db_completions d))" using linked by (simp add: outbox_linked_def)
  ultimately have "outbox_linked sx d'" unfolding outbox_linked_def d'(1) by blast
  moreover have "outbox_inv d'" using inv d'(1) by (simp add: children_inv_def outbox_inv_def)
  ultimately show ?thesis using d'(2) by (simp add: children_inv_def)
qed

lemma cancel_pending_ok:
  assumes inv: "children_inv sx d" and found: "delegations_of sx d k = Some s"
    and raw: "delegation_at d k = Some raw" "shown_row sx raw s"
    and st: "dn_state s = DelegationPending" and gen: "dn_owner_generation s = expected" "generation_left s"
    and at: "dn_updated_at_ms s \<le> at" "uint at \<le> i64_max"
    and enc: "encodes (sx_delegation_terminal sx) (DelegationCancelled reason)"
      "encodes (sx_completion sx) (outcome_completion (settled (DelegationCancelled reason) at s))"
  obtains d' where "cancel_pending sx k expected reason at raw d = (Inr (), d')" "children_inv sx d'"
    "delegations_of sx d' = (delegations_of sx d)(k \<mapsto> settled (DelegationCancelled reason) at s)"
    "outbox d' = (outbox d)(ds_completion_event_id (dn_spec s) \<mapsto> posted_row sx (settled (DelegationCancelled reason) at s))"
    "db_sessions d' = db_sessions d" "db_messages d' = db_messages d" "db_turns d' = db_turns d" "keeps_posted d d'"
proof -
  let ?o = "DelegationCancelled reason"
  have dinv: "delegations_inv sx d" using inv by (simp add: children_inv_def)
  obtain j where j: "cd_enc (sx_delegation_terminal sx) ?o = Inr j" "cd_dec (sx_delegation_terminal sx) j = Inr ?o"
    using enc(1) by (rule encodesE)
  let ?f = "cancelled_row (uint (owner_generation_get (next_generation s))) j (uint at)"
  let ?d = "post_completion sx (settled ?o at s) (change_delegation k ?f d)"
  note new = cancelled_row_shows [OF raw(2) st gen(2) at j(2)]
  have open': "\<not> delegation_is_terminal (dn_state s)" using st by simp
  note step = settle_step [OF inv found open' raw(1) cancel_row_identity(1) new enc(2)]
  note cols = pending_columns [OF raw(2) st]
  have key: "dr_delegation_id raw = delegation_id_str k" using raw(1) by (auto simp: delegation_at_def dest: row_at_Some)
  have upd: "update_delegations DelegationStorage (\<lambda>r. dr_delegation_id r = delegation_id_str k \<and> dr_state r = ''pending''
      \<and> dr_owner_generation r = dr_owner_generation raw) ?f d = (Inr 1, change_delegation k ?f d)"
    using key cols(1) new by (subst update_delegation_eq [OF dinv raw(1)]) (simp_all add: shown_row_def)
  have conv: "delegation_to_i64 (owner_generation_get expected) name = Inr (dr_owner_generation raw)"
    "increment (dr_owner_generation raw) name = Inr (uint (owner_generation_get (next_generation s)))"
    "delegation_to_i64 at name = Inr (uint at)" for name
    using generation_conversion [OF raw(2) gen(1)] increment_ok [OF raw(2)] gen(2) at by (simp_all add: delegation_to_i64_Inr)
  have "cancel_pending sx k expected reason at raw d = (Inr (), ?d)"
    using upd [unfolded cancelled_row_def] step(1) [unfolded cancelled_row_def] j(1)
    by (simp add: cancel_pending_def Let_def act_bind_def act_lift_def completion_from_raw_eq [OF raw(2)] conv ensure_one_updated_def
        cancelled_row_def [abs_def])
  moreover have "keeps_posted d ?d" by (rule keeps_posted_trans [OF keeps_posted_same post_keeps_posted]) simp
  ultimately show ?thesis using step that by simp
qed

lemma cancel_ok:
  assumes inv: "children_inv sx d" and found: "delegations_of sx d k = Some s" and res: "cancel_result expected reason at s = Some s'"
    and enc: "dn_state s = DelegationPending \<Longrightarrow> encodes (sx_delegation_terminal sx) (DelegationCancelled reason)"
      "dn_state s = DelegationPending \<Longrightarrow> encodes (sx_completion sx) (outcome_completion (settled (DelegationCancelled reason) at s))"
  obtains d' where "delegation_cancel sx k expected reason at d = (Inr s', d')" "children_inv sx d'"
    "delegations_of sx d' = (delegations_of sx d)(k \<mapsto> s')"
    "outbox d' = (if dn_state s = DelegationPending
       then (outbox d)(ds_completion_event_id (dn_spec s) \<mapsto> posted_row sx s') else outbox d)"
    "db_sessions d' = db_sessions d" "db_messages d' = db_messages d" "db_turns d' = db_turns d" "keeps_posted d d'"
proof -
  have dinv: "delegations_inv sx d" using inv by (simp add: children_inv_def)
  obtain raw where raw: "delegation_at d k = Some raw" "shown_row sx raw s" by (rule shown_row [OF dinv found])
  have g: "dn_owner_generation s = expected" "dn_updated_at_ms s \<le> at" "unpadded reason"
    using res by (auto simp: cancel_result_def split: if_splits)
  have checks: "ensure_delegation_generation raw expected = Inr ()" "ensure_monotonic_timestamp raw at name = Inr ()"
    "validate_detail reason name = Inr ()" for name
    using generation_ok [OF raw(2)] timestamp_ok [OF raw(2)] g by (simp_all add: validate_detail_Inr)
  have start: "delegation_cancel sx k expected reason at d =
      act_bind (transaction
        (if dr_state raw = ''pending'' then cancel_pending sx k expected reason at raw
         else if dr_state raw = ''running''
         then act_bind (act_lift (ensure_active_lease raw at)) (\<lambda>_. request_cancellation k expected reason at raw)
         else act_lift (Err (DelegationNotClaimable k (dr_state raw))))) (\<lambda>_. delegation_load sx k) d"
    using raw(1)
    by (simp add: delegation_cancel_def act_bind_def act_lift_def transaction_def load_delegation_def act_try_def delegation_at_def checks)
  show ?thesis
  proof (cases "dn_state s")
    case DelegationPending
    then have s': "s' = settled (DelegationCancelled reason) at s" "generation_left s" "uint at \<le> i64_max"
      using res g by (auto simp: cancel_result_def split: if_splits)
    obtain d' where d': "cancel_pending sx k expected reason at raw d = (Inr (), d')" "children_inv sx d'"
      "delegations_of sx d' = (delegations_of sx d)(k \<mapsto> s')"
      "outbox d' = (outbox d)(ds_completion_event_id (dn_spec s) \<mapsto> posted_row sx s')"
      "db_sessions d' = db_sessions d" "db_messages d' = db_messages d" "db_turns d' = db_turns d" "keeps_posted d d'"
      using cancel_pending_ok [OF inv found raw DelegationPending g(1) s'(2) g(2) s'(3) enc] DelegationPending s'(1) by metis
    have "delegation_cancel sx k expected reason at d = (Inr s', d')"
      using start d'(1) row_states(1) [OF raw(2)] DelegationPending load_shown [of sx d' k] d'(3)
      by (simp add: act_bind_def transaction_def)
    then show ?thesis using that d' DelegationPending by simp
  next
    case (DelegationRunning w t l c)
    note cols = running_columns [OF raw(2) DelegationRunning]
    have lease: "at < l" using res g DelegationRunning by (auto simp: cancel_result_def split: if_splits)
    then have active: "ensure_active_lease raw at = Inr ()" using lease_ok [OF raw(2) DelegationRunning] by blast
    show ?thesis
    proof (cases c)
      case None
      then have s': "s' = s\<lparr>dn_state := DelegationRunning w t l (Some \<lparr>dc_reason = reason, dc_requested_at_ms = at\<rparr>), dn_updated_at_ms := at\<rparr>"
        using res DelegationRunning None by (auto simp: cancel_result_def split: if_splits)
      let ?d = "change_delegation k (requested_row reason (uint at)) d"
      note req = request_ok [OF dinv raw DelegationRunning [unfolded None] g(1,2) lease g(3), folded s']
      have "delegation_cancel sx k expected reason at d = (Inr s', ?d)"
        using start req(1) cols(1) active load_shown [of sx ?d k] req(3) by (simp add: act_bind_def act_lift_def transaction_def)
      moreover have "children_inv sx ?d"
        by (rule outbox_linked_step [OF inv found _ _ req(2,3)]) (use DelegationRunning s' in simp_all)
      moreover have "outbox ?d = outbox d" "keeps_posted d ?d" by (simp_all add: outbox_def fun_eq_iff keeps_posted_def)
      ultimately show ?thesis using that req(3) DelegationRunning by simp
    next
      case (Some q)
      then have s': "s' = s" "dc_reason q = reason"
        using res DelegationRunning Some by (auto simp: cancel_result_def split: if_splits)
      have "\<exists>at'. dr_cancellation_reason raw = Some reason \<and> dr_cancellation_requested_at_ms raw = Some at'"
        using cols(6) Some s'(2) by (auto simp: cancellation_from_raw_def and_then_eq_Inr split: option.splits)
      then have "request_cancellation k expected reason at raw d = (Inr (), d)"
        by (auto simp: request_cancellation_def act_lift_def)
      then have "delegation_cancel sx k expected reason at d = (Inr s', d)"
        using start cols(1) active load_shown [OF found] s'(1) by (simp add: act_bind_def act_lift_def transaction_def)
      moreover have "delegations_of sx d = (delegations_of sx d)(k \<mapsto> s')" "keeps_posted d d"
        using found s'(1) by (simp_all add: fun_upd_idem keeps_posted_def)
      ultimately show ?thesis using that inv DelegationRunning by simp
    qed
  next
    case (DelegationTerminal outcome at')
    then show ?thesis using res by (simp add: cancel_result_def split: if_splits)
  qed
qed

lemma cancel_err:
  assumes inv: "children_inv sx d" and bad: "\<And>s. delegations_of sx d k = Some s \<Longrightarrow> cancel_result expected reason at s = None"
  shows "\<exists>e. delegation_cancel sx k expected reason at d = (Inl e, d)"
  unfolding delegation_cancel_def
proof (rule guarded_err, goal_cases)
  case (1 u d')
  have dinv: "delegations_inv sx d" using inv by (simp add: children_inv_def)
  obtain raw where raw: "delegation_at d k = Some raw" using 1(2) by (auto simp: act_bind_ok load_delegation_ok)
  then obtain s where s: "delegations_of sx d k = Some s" "shown_row sx raw s" by (rule found_row [OF dinv])
  have g: "dn_owner_generation s = expected" "\<not> at < dn_updated_at_ms s" "unpadded reason"
    and body: "(if dr_state raw = ''pending'' then cancel_pending sx k expected reason at raw
         else if dr_state raw = ''running''
         then act_bind (act_lift (ensure_active_lease raw at)) (\<lambda>_. request_cancellation k expected reason at raw)
         else act_lift (Err (DelegationNotClaimable k (dr_state raw)))) d = (Inr u, d')"
    using 1 raw
    by (auto simp: act_bind_ok load_delegation_ok act_lift_def generation_ok [OF s(2)] timestamp_ok [OF s(2)] validate_detail_Inr not_less)
  have "cancel_result expected reason at s \<noteq> None"
  proof (cases "dn_state s")
    case DelegationPending
    then have "cancel_pending sx k expected reason at raw d = (Inr u, d')" using body row_states(1) [OF s(2)] by simp
    then have "generation_left s" "uint at \<le> i64_max"
      by (auto simp: cancel_pending_def Let_def act_bind_ok act_lift_def increment_ok [OF s(2)] delegation_to_i64_Inr)
    then show ?thesis using g DelegationPending by (simp add: cancel_result_def)
  next
    case (DelegationRunning w t l c)
    note cols = running_columns [OF s(2) DelegationRunning]
    have run: "ensure_active_lease raw at = Inr ()" "request_cancellation k expected reason at raw d = (Inr u, d')"
      using body cols(1) by (auto simp: act_bind_ok act_lift_def)
    have "at < l" using run(1) lease_ok [OF s(2) DelegationRunning] by blast
    moreover have "dc_reason q = reason" if "c = Some q" for q
    proof -
      have "\<exists>at'. dr_cancellation_reason raw = Some (dc_reason q) \<and> dr_cancellation_requested_at_ms raw = Some at'"
        using cols(6) that by (auto simp: cancellation_from_raw_def and_then_eq_Inr split: option.splits)
      then show ?thesis using run(2) by (auto simp: request_cancellation_def act_lift_def)
    qed
    ultimately show ?thesis using g DelegationRunning by (auto simp: cancel_result_def split: option.split)
  next
    case (DelegationTerminal outcome at')
    then show ?thesis using body row_states [OF s(2)] by (simp add: act_lift_def)
  qed
  then show ?case using bad [OF s(1)] by simp
qed

end
