(* ===== verification/Delegation_Reconcile.thy ===== *)
theory Delegation_Reconcile
  imports Delegation_Outcomes
begin

text \<open>
  The reconciliations end every running delegation, or every one whose lease has run out, in one
  transaction: a requested cancellation becomes the outcome, anything else is recorded as unknown.
\<close>

section \<open>One delegation\<close>

definition delegation_running :: "delegation_snapshot \<Rightarrow> bool" where
  "delegation_running s \<longleftrightarrow> (case dn_state s of DelegationRunning _ _ _ _ \<Rightarrow> True | _ \<Rightarrow> False)"

definition abandoned_outcome :: "(delegation_snapshot \<Rightarrow> string) \<Rightarrow> delegation_snapshot \<Rightarrow> delegation_terminal" where
  "abandoned_outcome unknown s = (case run_cancellation (dn_state s) of
     Some c \<Rightarrow> DelegationCancelled (dc_reason c) | None \<Rightarrow> DelegationOutcomeUnknown (unknown s))"

definition abandoned :: "(delegation_snapshot \<Rightarrow> string) \<Rightarrow> u64 \<Rightarrow> delegation_snapshot \<Rightarrow> delegation_snapshot" where
  "abandoned unknown at s = settled (abandoned_outcome unknown s) at s"

definition encodable_end :: "serde \<Rightarrow> delegation_snapshot \<Rightarrow> bool" where
  "encodable_end sx s \<longleftrightarrow> encodes (sx_delegation_terminal sx) (term_outcome (dn_state s))
     \<and> encodes (sx_completion sx) (outcome_completion s)"

definition abandonable :: "u64 \<Rightarrow> delegation_snapshot \<Rightarrow> bool" where
  "abandonable at s \<longleftrightarrow> dn_updated_at_ms s \<le> at \<and> generation_left s"

lemma delegation_runningE:
  assumes "delegation_running s"
  obtains w t l c where "dn_state s = DelegationRunning w t l c"
  using assms by (auto simp: delegation_running_def split: delegation_state.splits)

lemma reconcile_delegation_ok:
  assumes inv: "children_inv sx d" and found: "delegations_of sx d k = Some s"
    and raw: "delegation_at d k = Some raw" "shown_row sx raw s" and run: "delegation_running s"
    and ok: "abandonable at s" "uint at \<le> i64_max" and due: "due raw" and reason: "unknown s = reason"
    and enc: "encodable_end sx (abandoned unknown at s)"
  defines "d' \<equiv> settle_in sx k (abandoned_outcome unknown s) at s d"
  shows "reconcile_delegation sx due raw reason (uint at) at d = (Inr (outcome_completion (abandoned unknown at s)), d')"
    "children_inv sx d'" "delegations_of sx d' = (delegations_of sx d)(k \<mapsto> abandoned unknown at s)"
    "outbox d' = (outbox d)(ds_completion_event_id (dn_spec s) \<mapsto> posted_row sx (abandoned unknown at s))"
proof -
  let ?o = "abandoned_outcome unknown s"
  obtain w t l c where st: "dn_state s = DelegationRunning w t l c" using run by (rule delegation_runningE)
  note cols = running_columns [OF raw(2) st]
  have g: "generation_left s" "dn_updated_at_ms s \<le> at" using ok(1) by (simp_all add: abandonable_def)
  have enc': "encodes (sx_delegation_terminal sx) ?o" "encodes (sx_completion sx) (outcome_completion (settled ?o at s))"
    using enc by (simp_all add: encodable_end_def abandoned_def settled_def)
  have key: "dr_delegation_id raw = delegation_id_str k" using raw(1) by (auto simp: delegation_at_def dest: row_at_Some)
  let ?m = "\<lambda>r. dr_delegation_id r = dr_delegation_id raw \<and> dr_state r = ''running''
      \<and> dr_owner_generation r = dr_owner_generation raw \<and> dr_fencing_token r = dr_fencing_token raw \<and> due r"
  have m: "?m r \<Longrightarrow> dr_delegation_id r = delegation_id_str k" "delegation_at d k = Some q \<Longrightarrow> ?m q" for r q
    using raw(1) key cols(1) due by auto
  obtain j d1 where j: "cd_enc (sx_delegation_terminal sx) ?o = Inr j"
    and upd: "update_delegations DelegationStorage ?m
      (settled_row ?o (uint (owner_generation_get (next_generation s))) j (uint at)) d = (Inr 1, d1)"
    and post: "insert_completion sx (outcome_completion (settled ?o at s)) d1 = (Inr (), settle_in sx k ?o at s d)"
    and res: "children_inv sx (settle_in sx k ?o at s d)"
    "delegations_of sx (settle_in sx k ?o at s d) = (delegations_of sx d)(k \<mapsto> settled ?o at s)"
    "outbox (settle_in sx k ?o at s d) = (outbox d)(ds_completion_event_id (dn_spec s) \<mapsto> posted_row sx (settled ?o at s))"
    by (rule settle_in_ok [OF inv found st g ok(2) enc' m])
  have outcome: "reconciliation_outcome raw reason = Inr ?o"
    using cols(6) st reason by (auto simp: reconciliation_outcome_def abandoned_outcome_def split: option.split)
  have inc: "increment (dr_owner_generation raw) name = Inr (uint (owner_generation_get (next_generation s)))" for name
    using increment_ok [OF raw(2)] g(1) by simp
  show "reconcile_delegation sx due raw reason (uint at) at d = (Inr (outcome_completion (abandoned unknown at s)), d')"
    using upd post j
    by (simp add: reconcile_delegation_def act_bind_def act_lift_def act_return_def outcome completion_from_raw_eq [OF raw(2)] inc
        abandoned_def d'_def)
  show "children_inv sx d'" "delegations_of sx d' = (delegations_of sx d)(k \<mapsto> abandoned unknown at s)"
    "outbox d' = (outbox d)(ds_completion_event_id (dn_spec s) \<mapsto> posted_row sx (abandoned unknown at s))"
    using res by (simp_all add: d'_def abandoned_def)
qed

lemma reconcile_delegation_Inr:
  "reconcile_delegation sx due raw reason now at d = (Inr c, d') \<Longrightarrow> shown_row sx raw s \<Longrightarrow> generation_left s"
  by (auto simp: reconcile_delegation_def act_bind_ok act_lift_def increment_ok)

section \<open>All of them\<close>

lemma act_collect_each: "act_collect f xs d = (Inr ys, d') \<Longrightarrow> x \<in> set xs \<Longrightarrow> \<exists>d1 y d2. f x d1 = (Inr y, d2)"
  by (induction xs arbitrary: d ys) (auto simp: act_bind_ok act_return_def)

definition key_of :: "delegation_row \<Rightarrow> delegation_id" where
  "key_of r = DelegationId (dr_delegation_id r)"

lemma key_of_row: "delegation_at d k = Some raw \<Longrightarrow> key_of raw = k"
  by (auto simp: delegation_at_def key_of_def dest: row_at_Some)

text \<open>The rows were read before the loop: an iteration leaves the rows of the others as they were.\<close>

lemma each_abandoned:
  assumes step: "\<And>d raw s. children_inv sx d \<Longrightarrow> delegations_of sx d (key_of raw) = Some s \<Longrightarrow>
      delegation_at d (key_of raw) = Some raw \<Longrightarrow> raw \<in> set rows \<Longrightarrow>
      f raw d = (Inr (outcome_completion (abandoned unknown at s)), settle_in sx (key_of raw) (abandoned_outcome unknown s) at s d)
      \<and> children_inv sx (settle_in sx (key_of raw) (abandoned_outcome unknown s) at s d)
      \<and> delegations_of sx (settle_in sx (key_of raw) (abandoned_outcome unknown s) at s d)
          = (delegations_of sx d)(key_of raw \<mapsto> abandoned unknown at s)"
    and inv: "children_inv sx d" and dist: "distinct (map key_of rows)"
    and rows: "\<forall>raw \<in> set rows. delegation_at d (key_of raw) = Some raw"
  shows "\<exists>d'. act_collect f rows d
        = (Inr (map (\<lambda>raw. outcome_completion (abandoned unknown at (the (delegations_of sx d (key_of raw))))) rows), d')
      \<and> children_inv sx d'
      \<and> delegations_of sx d' = (\<lambda>k. if k \<in> key_of ` set rows then map_option (abandoned unknown at) (delegations_of sx d k)
                                   else delegations_of sx d k)
      \<and> db_sessions d' = db_sessions d \<and> db_messages d' = db_messages d \<and> db_turns d' = db_turns d \<and> keeps_posted d d'"
  using step inv dist rows
proof (induction rows arbitrary: d)
  case Nil
  then show ?case by (simp add: act_return_def keeps_posted_def)
next
  case (Cons raw rows)
  have dinv: "delegations_inv sx d" using Cons.prems(2) by (simp add: children_inv_def)
  have raw: "delegation_at d (key_of raw) = Some raw" using Cons.prems(4) by simp
  obtain s where s: "delegations_of sx d (key_of raw) = Some s" using found_row [OF dinv raw] by blast
  let ?d1 = "settle_in sx (key_of raw) (abandoned_outcome unknown s) at s d"
  have one: "f raw d = (Inr (outcome_completion (abandoned unknown at s)), ?d1)" "children_inv sx ?d1"
    "delegations_of sx ?d1 = (delegations_of sx d)(key_of raw \<mapsto> abandoned unknown at s)"
    using Cons.prems(1) [OF Cons.prems(2) s raw list.set_intros(1)] by blast+
  have other: "delegation_at ?d1 j = delegation_at d j" if "j \<noteq> key_of raw" for j
  proof -
    have "delegation_at (post_completion sx x e) = delegation_at e" for x e by (rule delegations_frame) simp
    then show ?thesis using that change_delegation_at [OF settled_row_identity] by (simp add: settle_in_def)
  qed
  have fresh: "key_of raw \<notin> key_of ` set rows" using Cons.prems(3) by simp
  have dist': "distinct (map key_of rows)" using Cons.prems(3) by simp
  have rest: "\<forall>q \<in> set rows. delegation_at ?d1 (key_of q) = Some q" using Cons.prems(4) other fresh by (auto simp: image_iff)
  obtain d' where d': "act_collect f rows ?d1
        = (Inr (map (\<lambda>q. outcome_completion (abandoned unknown at (the (delegations_of sx ?d1 (key_of q))))) rows), d')"
      "children_inv sx d'"
      "delegations_of sx d' = (\<lambda>k. if k \<in> key_of ` set rows then map_option (abandoned unknown at) (delegations_of sx ?d1 k)
                                   else delegations_of sx ?d1 k)"
      "db_sessions d' = db_sessions ?d1" "db_messages d' = db_messages ?d1" "db_turns d' = db_turns ?d1" "keeps_posted ?d1 d'"
    using Cons.IH [OF Cons.prems(1) [OF _ _ _ list.set_intros(2)] one(2) dist' rest] by blast
  have same: "map (\<lambda>q. outcome_completion (abandoned unknown at (the (delegations_of sx ?d1 (key_of q))))) rows
      = map (\<lambda>q. outcome_completion (abandoned unknown at (the (delegations_of sx d (key_of q))))) rows"
    using fresh one(3) by (auto simp: image_iff)
  have "act_collect f (raw # rows) d
      = (Inr (map (\<lambda>q. outcome_completion (abandoned unknown at (the (delegations_of sx d (key_of q))))) (raw # rows)), d')"
    using one(1) d'(1) s same by (simp add: act_bind_def act_return_def)
  moreover have "delegations_of sx d' = (\<lambda>k. if k \<in> key_of ` set (raw # rows) then map_option (abandoned unknown at) (delegations_of sx d k)
                                   else delegations_of sx d k)"
    using d'(3) one(3) fresh s by (auto simp: fun_eq_iff)
  moreover have "keeps_posted d d'" by (rule keeps_posted_trans [OF settle_in_keeps_posted d'(7)])
  ultimately show ?case using d'(2,4-6) by simp
qed

lemma delegations_of_at: "delegation_at d k = Some raw \<Longrightarrow>
    delegations_of sx d k = Some s \<longleftrightarrow> delegation_snapshot_from_raw sx raw = Inr s"
  by (auto simp: delegations_of_def split: sum.splits)

lemma table_rows:
  assumes "delegations_inv sx d" "r \<in> set (db_delegations d)"
  shows "delegation_at d (key_of r) = Some r"
  using assms by (simp add: delegation_at_def key_of_def row_at_eq delegations_inv_def)

text \<open>A reconciliation of the rows that a query selects, over the snapshots.\<close>

lemma reconcile_rows:
  assumes inv: "children_inv sx d"
    and sel: "\<And>raw s. shown_row sx raw s \<Longrightarrow> P raw \<longleftrightarrow> Q s"
    and ok: "\<And>k s. delegations_of sx d k = Some s \<Longrightarrow> Q s \<Longrightarrow> good s"
    and step: "\<And>d raw s. children_inv sx d \<Longrightarrow> delegations_of sx d (key_of raw) = Some s \<Longrightarrow> good s \<Longrightarrow> Q s \<Longrightarrow>
      delegation_at d (key_of raw) = Some raw \<Longrightarrow> shown_row sx raw s \<Longrightarrow>
      f raw d = (Inr (outcome_completion (abandoned unknown at s)), settle_in sx (key_of raw) (abandoned_outcome unknown s) at s d)
      \<and> children_inv sx (settle_in sx (key_of raw) (abandoned_outcome unknown s) at s d)
      \<and> delegations_of sx (settle_in sx (key_of raw) (abandoned_outcome unknown s) at s d)
          = (delegations_of sx d)(key_of raw \<mapsto> abandoned unknown at s)"
  shows "\<exists>cs d'. act_collect f (sort_key g (filter P (db_delegations d))) d = (Inr cs, d') \<and> children_inv sx d'
      \<and> delegations_of sx d' = (\<lambda>k. map_option (\<lambda>s. if Q s then abandoned unknown at s else s) (delegations_of sx d k))
      \<and> set cs = {outcome_completion (abandoned unknown at s) | k s. delegations_of sx d k = Some s \<and> Q s}
      \<and> db_sessions d' = db_sessions d \<and> db_messages d' = db_messages d \<and> db_turns d' = db_turns d \<and> keeps_posted d d'"
proof -
  let ?rows = "sort_key g (filter P (db_delegations d))"
  have dinv: "delegations_inv sx d" using inv by (simp add: children_inv_def)
  have "distinct (map dr_delegation_id (db_delegations d))" using dinv by (simp add: delegations_inv_def)
  then have dist: "distinct (map key_of ?rows)" by (auto simp: distinct_map inj_on_def key_of_def)
  have rows: "\<forall>raw \<in> set ?rows. delegation_at d (key_of raw) = Some raw" using table_rows [OF dinv] by simp
  have shown: "\<exists>s. delegations_of sx d (key_of raw) = Some s \<and> shown_row sx raw s \<and> Q s" if "raw \<in> set ?rows" for raw
  proof -
    have at: "delegation_at d (key_of raw) = Some raw" "P raw" using that rows by auto
    then obtain s where "delegations_of sx d (key_of raw) = Some s" "shown_row sx raw s" using found_row [OF dinv] by blast
    then show ?thesis using sel at(2) by blast
  qed
  have keys: "key_of raw = k \<and> raw \<in> set ?rows" if "delegations_of sx d k = Some s" "Q s" "delegation_at d k = Some raw" for k s raw
  proof -
    have "shown_row sx raw s" using shown_row [OF dinv that(1)] that(3) by auto
    then show ?thesis using that key_of_row sel by (auto simp: delegation_at_def dest: row_at_Some)
  qed
  have "f raw d0 = (Inr (outcome_completion (abandoned unknown at s)), settle_in sx (key_of raw) (abandoned_outcome unknown s) at s d0)
      \<and> children_inv sx (settle_in sx (key_of raw) (abandoned_outcome unknown s) at s d0)
      \<and> delegations_of sx (settle_in sx (key_of raw) (abandoned_outcome unknown s) at s d0)
          = (delegations_of sx d0)(key_of raw \<mapsto> abandoned unknown at s)"
    if h: "children_inv sx d0" "delegations_of sx d0 (key_of raw) = Some s" "delegation_at d0 (key_of raw) = Some raw" "raw \<in> set ?rows"
    for d0 raw s
  proof -
    obtain t where t: "delegations_of sx d (key_of raw) = Some t" "shown_row sx raw t" "Q t" using shown [OF h(4)] by blast
    have "delegation_at d (key_of raw) = Some raw" using rows h(4) by blast
    then have "t = s" using t(1) h(2) delegations_of_at [OF h(3)] delegations_of_at [of d "key_of raw" raw] by simp
    then show ?thesis using step [OF h(1,2) _ _ h(3)] ok [OF t(1,3)] t by simp
  qed
  from each_abandoned [OF this inv dist rows] obtain d' where d': "act_collect f ?rows d
        = (Inr (map (\<lambda>raw. outcome_completion (abandoned unknown at (the (delegations_of sx d (key_of raw))))) ?rows), d')"
      "children_inv sx d'"
      "delegations_of sx d' = (\<lambda>k. if k \<in> key_of ` set ?rows then map_option (abandoned unknown at) (delegations_of sx d k)
                                   else delegations_of sx d k)"
      "db_sessions d' = db_sessions d" "db_messages d' = db_messages d" "db_turns d' = db_turns d" "keeps_posted d d'"
    by blast
  have "delegations_of sx d' k = map_option (\<lambda>s. if Q s then abandoned unknown at s else s) (delegations_of sx d k)" for k
  proof (cases "delegations_of sx d k")
    case None
    then show ?thesis using d'(3) by auto
  next
    case (Some s)
    then obtain raw where raw: "delegation_at d k = Some raw" using shown_row [OF dinv] by blast
    have "Q s" if "k = key_of q" "q \<in> set ?rows" for q using shown [OF that(2)] Some that(1) by auto
    then have "k \<in> key_of ` set ?rows \<longleftrightarrow> Q s" using keys [OF Some _ raw] by blast
    then show ?thesis using d'(3) Some by simp
  qed
  moreover have "outcome_completion (abandoned unknown at (the (delegations_of sx d (key_of raw))))
      \<in> {outcome_completion (abandoned unknown at s) | k s. delegations_of sx d k = Some s \<and> Q s}" if "raw \<in> set ?rows" for raw
  proof -
    obtain s where s: "delegations_of sx d (key_of raw) = Some s" "Q s"
      using shown [OF \<open>raw \<in> set ?rows\<close>] by blast
    then have "the (delegations_of sx d (key_of raw)) = s" by simp
    then show ?thesis using s by blast
  qed
  moreover have "outcome_completion (abandoned unknown at s)
      \<in> (\<lambda>raw. outcome_completion (abandoned unknown at (the (delegations_of sx d (key_of raw))))) ` set ?rows"
    if s: "delegations_of sx d k = Some s" "Q s" for k s
  proof -
    obtain raw where raw: "delegation_at d k = Some raw" using shown_row [OF dinv s(1)] by blast
    show ?thesis by (rule image_eqI [where x = raw]) (use keys [OF s raw] s(1) in auto)
  qed
  ultimately show ?thesis using d' by (intro exI conjI) (assumption | (simp; fast) | (rule ext; simp))+
qed

section \<open>After a restart\<close>

definition restartable :: "serde \<Rightarrow> database \<Rightarrow> string \<Rightarrow> u64 \<Rightarrow> bool" where
  "restartable sx d reason at \<longleftrightarrow> unpadded reason \<and> uint at \<le> i64_max
     \<and> (\<forall>k s. delegations_of sx d k = Some s \<and> delegation_running s \<longrightarrow> abandonable at s)"

lemma row_selected_running: "shown_row sx raw s \<Longrightarrow> dr_state raw = ''running'' \<longleftrightarrow> delegation_running s"
  using row_states(2) [of sx raw s] by (auto simp: delegation_running_def split: delegation_state.splits)

lemma restart_ok:
  assumes inv: "children_inv sx d" and guard: "restartable sx d reason at"
    and enc: "\<forall>k s. delegations_of sx d k = Some s \<and> delegation_running s \<longrightarrow> encodable_end sx (abandoned (\<lambda>_. reason) at s)"
  shows "\<exists>cs d'. reconcile_running sx reason at d = (Inr cs, d') \<and> children_inv sx d'
      \<and> delegations_of sx d' = (\<lambda>k. map_option (\<lambda>s. if delegation_running s then abandoned (\<lambda>_. reason) at s else s) (delegations_of sx d k))
      \<and> set cs = {outcome_completion (abandoned (\<lambda>_. reason) at s) | k s. delegations_of sx d k = Some s \<and> delegation_running s}
      \<and> db_sessions d' = db_sessions d \<and> db_messages d' = db_messages d \<and> db_turns d' = db_turns d \<and> keeps_posted d d'"
proof -
  let ?u = "\<lambda>_. reason"
  let ?good = "\<lambda>s. abandonable at s \<and> encodable_end sx (abandoned ?u at s)"
  have at: "uint at \<le> i64_max" using guard by (simp add: restartable_def)
  have step: "reconcile_running_row sx reason (uint at) at raw d0
        = (Inr (outcome_completion (abandoned ?u at s)), settle_in sx (key_of raw) (abandoned_outcome ?u s) at s d0)
      \<and> children_inv sx (settle_in sx (key_of raw) (abandoned_outcome ?u s) at s d0)
      \<and> delegations_of sx (settle_in sx (key_of raw) (abandoned_outcome ?u s) at s d0)
          = (delegations_of sx d0)(key_of raw \<mapsto> abandoned ?u at s)"
    if h: "children_inv sx d0" "delegations_of sx d0 (key_of raw) = Some s" "?good s" "delegation_running s"
      "delegation_at d0 (key_of raw) = Some raw" "shown_row sx raw s" for d0 raw s
  proof -
    have "ensure_monotonic_timestamp raw at name = Inr ()" for name using timestamp_ok [OF h(6)] h(3) by (simp add: abandonable_def)
    then show ?thesis
      using reconcile_delegation_ok [where due = "\<lambda>_. True" and unknown = ?u and reason = reason, OF h(1,2,5,6,4) _ at TrueI refl] h(3)
      by (simp add: reconcile_running_row_def act_bind_def act_lift_def)
  qed
  have "\<exists>cs d'. act_collect (reconcile_running_row sx reason (uint at) at)
        (sort_key (\<lambda>r. (dr_updated_at_ms r, dr_delegation_id r)) (filter (\<lambda>r. dr_state r = ''running'') (db_delegations d))) d = (Inr cs, d')
      \<and> children_inv sx d'
      \<and> delegations_of sx d' = (\<lambda>k. map_option (\<lambda>s. if delegation_running s then abandoned ?u at s else s) (delegations_of sx d k))
      \<and> set cs = {outcome_completion (abandoned ?u at s) | k s. delegations_of sx d k = Some s \<and> delegation_running s}
      \<and> db_sessions d' = db_sessions d \<and> db_messages d' = db_messages d \<and> db_turns d' = db_turns d \<and> keeps_posted d d'"
    by (rule reconcile_rows [OF inv row_selected_running _ step])
       (use guard enc in \<open>auto simp: restartable_def\<close>)
  moreover have "validate_detail reason name = Inr ()" for name using guard by (simp add: restartable_def validate_detail_Inr)
  moreover have "delegation_to_i64 at name = Inr (uint at)" for name using at by (simp add: delegation_to_i64_Inr)
  ultimately show ?thesis
    by (auto simp: reconcile_running_def act_bind_def act_lift_def act_read_def transaction_def)
qed

lemma restart_err:
  assumes inv: "children_inv sx d" and bad: "\<not> restartable sx d reason at"
  shows "\<exists>e. reconcile_running sx reason at d = (Inl e, d)"
proof -
  have dinv: "delegations_inv sx d" using inv by (simp add: children_inv_def)
  have good: "restartable sx d reason at" if run: "reconcile_running sx reason at d = (Inr cs, d')" for cs d'
  proof -
    let ?rows = "sort_key (\<lambda>r. (dr_updated_at_ms r, dr_delegation_id r)) (filter (\<lambda>r. dr_state r = ''running'') (db_delegations d))"
    have body: "unpadded reason" "uint at \<le> i64_max" "act_collect (reconcile_running_row sx reason (uint at) at) ?rows d = (Inr cs, d')"
      using run by (auto simp: reconcile_running_def act_bind_ok act_lift_def act_read_def transaction_ok validate_detail_Inr delegation_to_i64_Inr)
    have "abandonable at s" if s: "delegations_of sx d k = Some s" "delegation_running s" for k s
    proof -
      obtain raw where raw: "delegation_at d k = Some raw" "shown_row sx raw s" using shown_row [OF dinv s(1)] by blast
      have "raw \<in> set ?rows" using raw s(2) row_selected_running [OF raw(2)] by (auto simp: delegation_at_def dest: row_at_Some)
      from act_collect_each [OF body(3) this] show ?thesis
        using raw(2) timestamp_ok [OF raw(2)] reconcile_delegation_Inr
        by (auto simp: reconcile_running_row_def act_bind_ok act_lift_def abandonable_def)
    qed
    then show ?thesis using body unfolding restartable_def by blast
  qed
  have "d' = d" if "reconcile_running sx reason at d = (Inl e, d')" for e d'
    using that by (auto simp: reconcile_running_def act_bind_def act_lift_def transaction_def split: sum.splits prod.splits)
  then show ?thesis using good bad by (cases "reconcile_running sx reason at d") (metis sum.exhaust)
qed

section \<open>Expired leases\<close>

definition expiry_reason :: "delegation_snapshot \<Rightarrow> string" where
  "expiry_reason s = ''worker lease expired at '' @ show_int (uint (run_lease (dn_state s)))
     @ ''; no terminal outcome was durably recorded''"

definition lease_expired :: "u64 \<Rightarrow> delegation_snapshot \<Rightarrow> bool" where
  "lease_expired at s \<longleftrightarrow> delegation_running s \<and> run_lease (dn_state s) \<le> at"

definition expirable :: "serde \<Rightarrow> database \<Rightarrow> u64 \<Rightarrow> bool" where
  "expirable sx d at \<longleftrightarrow> uint at \<le> i64_max
     \<and> (\<forall>k s. delegations_of sx d k = Some s \<and> lease_expired at s \<longrightarrow> abandonable at s)"

lemma row_selected_expired:
  assumes "shown_row sx raw s"
  shows "dr_state raw = ''running'' \<and> lease_due (uint at) raw \<longleftrightarrow> lease_expired at s"
proof (cases "delegation_running s")
  case True
  then obtain w t l c where "dn_state s = DelegationRunning w t l c" by (rule delegation_runningE)
  then show ?thesis
    using running_columns(1,2) [OF assms] True by (auto simp: lease_due_def lease_expired_def word_le_def)
next
  case False
  then show ?thesis using row_selected_running [OF assms] by (simp add: lease_expired_def)
qed

lemma expire_ok:
  assumes inv: "children_inv sx d" and guard: "expirable sx d at"
    and enc: "\<forall>k s. delegations_of sx d k = Some s \<and> lease_expired at s \<longrightarrow> encodable_end sx (abandoned expiry_reason at s)"
  shows "\<exists>cs d'. reconcile_expired sx at d = (Inr cs, d') \<and> children_inv sx d'
      \<and> delegations_of sx d' = (\<lambda>k. map_option (\<lambda>s. if lease_expired at s then abandoned expiry_reason at s else s) (delegations_of sx d k))
      \<and> set cs = {outcome_completion (abandoned expiry_reason at s) | k s. delegations_of sx d k = Some s \<and> lease_expired at s}
      \<and> db_sessions d' = db_sessions d \<and> db_messages d' = db_messages d \<and> db_turns d' = db_turns d \<and> keeps_posted d d'"
proof -
  let ?good = "\<lambda>s. abandonable at s \<and> encodable_end sx (abandoned expiry_reason at s)"
  have at: "uint at \<le> i64_max" using guard by (simp add: expirable_def)
  have step: "reconcile_expired_row sx (uint at) at raw d0
        = (Inr (outcome_completion (abandoned expiry_reason at s)), settle_in sx (key_of raw) (abandoned_outcome expiry_reason s) at s d0)
      \<and> children_inv sx (settle_in sx (key_of raw) (abandoned_outcome expiry_reason s) at s d0)
      \<and> delegations_of sx (settle_in sx (key_of raw) (abandoned_outcome expiry_reason s) at s d0)
          = (delegations_of sx d0)(key_of raw \<mapsto> abandoned expiry_reason at s)"
    if h: "children_inv sx d0" "delegations_of sx d0 (key_of raw) = Some s" "?good s" "lease_expired at s"
      "delegation_at d0 (key_of raw) = Some raw" "shown_row sx raw s" for d0 raw s
  proof -
    have run: "delegation_running s" using h(4) by (simp add: lease_expired_def)
    then obtain w t l c where st: "dn_state s = DelegationRunning w t l c" by (rule delegation_runningE)
    have lease: "dr_lease_expires_at_ms raw = Some (uint (run_lease (dn_state s)))" using running_columns(2) [OF h(6) st] st by simp
    have "ensure_monotonic_timestamp raw at name = Inr ()" for name using timestamp_ok [OF h(6)] h(3) by (simp add: abandonable_def)
    moreover have "lease_due (uint at) raw" using row_selected_expired [OF h(6)] h(4) by blast
    ultimately show ?thesis
      using reconcile_delegation_ok [where due = "lease_due (uint at)" and unknown = expiry_reason, OF h(1,2,5,6) run _ at _ refl] h(3)
      by (simp add: reconcile_expired_row_def act_bind_def act_lift_def lease expiry_reason_def)
  qed
  have "\<exists>cs d'. act_collect (reconcile_expired_row sx (uint at) at)
        (sort_key (\<lambda>r. (the (dr_lease_expires_at_ms r), dr_delegation_id r))
          (filter (\<lambda>r. dr_state r = ''running'' \<and> lease_due (uint at) r) (db_delegations d))) d = (Inr cs, d')
      \<and> children_inv sx d'
      \<and> delegations_of sx d' = (\<lambda>k. map_option (\<lambda>s. if lease_expired at s then abandoned expiry_reason at s else s) (delegations_of sx d k))
      \<and> set cs = {outcome_completion (abandoned expiry_reason at s) | k s. delegations_of sx d k = Some s \<and> lease_expired at s}
      \<and> db_sessions d' = db_sessions d \<and> db_messages d' = db_messages d \<and> db_turns d' = db_turns d \<and> keeps_posted d d'"
    by (rule reconcile_rows [OF inv row_selected_expired _ step])
       (use guard enc in \<open>auto simp: expirable_def\<close>)
  moreover have "delegation_to_i64 at name = Inr (uint at)" for name using at by (simp add: delegation_to_i64_Inr)
  ultimately show ?thesis
    by (auto simp: reconcile_expired_def act_bind_def act_lift_def act_read_def transaction_def)
qed

lemma expire_err:
  assumes inv: "children_inv sx d" and bad: "\<not> expirable sx d at"
  shows "\<exists>e. reconcile_expired sx at d = (Inl e, d)"
proof -
  have dinv: "delegations_inv sx d" using inv by (simp add: children_inv_def)
  have good: "expirable sx d at" if run: "reconcile_expired sx at d = (Inr cs, d')" for cs d'
  proof -
    let ?rows = "sort_key (\<lambda>r. (the (dr_lease_expires_at_ms r), dr_delegation_id r))
      (filter (\<lambda>r. dr_state r = ''running'' \<and> lease_due (uint at) r) (db_delegations d))"
    have body: "uint at \<le> i64_max" "act_collect (reconcile_expired_row sx (uint at) at) ?rows d = (Inr cs, d')"
      using run by (auto simp: reconcile_expired_def act_bind_ok act_lift_def act_read_def transaction_ok delegation_to_i64_Inr)
    have "abandonable at s" if s: "delegations_of sx d k = Some s" "lease_expired at s" for k s
    proof -
      obtain raw where raw: "delegation_at d k = Some raw" "shown_row sx raw s" using shown_row [OF dinv s(1)] by blast
      have "raw \<in> set ?rows" using raw(1) s(2) row_selected_expired [OF raw(2), of at] by (auto simp: delegation_at_def dest: row_at_Some)
      from act_collect_each [OF body(2) this] show ?thesis
        using raw(2) timestamp_ok [OF raw(2)] reconcile_delegation_Inr
        by (auto simp: reconcile_expired_row_def act_bind_ok act_lift_def abandonable_def)
    qed
    then show ?thesis using body unfolding expirable_def by blast
  qed
  have "d' = d" if "reconcile_expired sx at d = (Inl e, d')" for e d'
    using that by (auto simp: reconcile_expired_def act_bind_def act_lift_def transaction_def split: sum.splits prod.splits)
  then show ?thesis using good bad by (cases "reconcile_expired sx at d") (metis sum.exhaust)
qed

end
