(* ===== verification/Delegation_Creation.thy ===== *)
theory Delegation_Creation
  imports Delegation_Reconcile
begin

text \<open>
  Creating a delegation, alone or together with the session of its child, refines the addition of one
  pending delegation whose identity, completion event and child session nobody has used.
\<close>

definition new_delegation :: "delegation_spec \<Rightarrow> u64 \<Rightarrow> delegation_snapshot" where
  "new_delegation spec at = \<lparr>dn_spec = spec, dn_owner_generation = OwnerGeneration 1, dn_state = DelegationPending,
     dn_created_at_ms = at, dn_updated_at_ms = at\<rparr>"

text \<open>A specification whose ids their constructors built.\<close>

definition delegation_ids :: "delegation_spec \<Rightarrow> bool" where
  "delegation_ids spec \<longleftrightarrow> unpadded (delegation_id_str (ds_delegation_id spec))
     \<and> unpadded (completion_event_id_str (ds_completion_event_id spec))
     \<and> unpadded (session_id_str (ds_parent_session_id spec)) \<and> unpadded (session_id_str (ds_child_session_id spec))"

definition valid_delegation :: "delegation_spec \<Rightarrow> bool" where
  "valid_delegation spec \<longleftrightarrow> ds_parent_session_id spec \<noteq> ds_child_session_id spec \<and> unpadded (ds_goal spec)"

lemma validate_spec_Inr [simp]: "validate_delegation_spec spec = Inr u \<longleftrightarrow> valid_delegation spec"
  by (auto simp: validate_delegation_spec_def valid_delegation_def unpadded_def and_then_eq_Inr)

lemma validate_spec_ok: "valid_delegation spec \<Longrightarrow> validate_delegation_spec spec = Inr ()"
  by simp

definition unused_delegation :: "serde \<Rightarrow> database \<Rightarrow> delegation_spec \<Rightarrow> bool" where
  "unused_delegation sx d spec \<longleftrightarrow> delegations_of sx d (ds_delegation_id spec) = None
     \<and> (\<forall>k s. delegations_of sx d k = Some s \<longrightarrow>
          ds_completion_event_id (dn_spec s) \<noteq> ds_completion_event_id spec \<and> child_session s \<noteq> ds_child_session_id spec)"

definition added_row :: "delegation_spec \<Rightarrow> u64 \<Rightarrow> delegation_row" where
  "added_row spec at =
     \<lparr>dr_delegation_id = delegation_id_str (ds_delegation_id spec),
      dr_completion_event_id = completion_event_id_str (ds_completion_event_id spec),
      dr_parent_session_id = session_id_str (ds_parent_session_id spec),
      dr_child_session_id = session_id_str (ds_child_session_id spec), dr_goal = ds_goal spec,
      dr_context = ds_context spec, dr_state = ''pending'', dr_owner_generation = 1, dr_worker_id = None,
      dr_fencing_token = 0, dr_lease_expires_at_ms = None, dr_terminal_json = None, dr_created_at_ms = uint at,
      dr_updated_at_ms = uint at, dr_cancellation_reason = None, dr_cancellation_requested_at_ms = None\<rparr>"

definition add_delegation :: "delegation_spec \<Rightarrow> u64 \<Rightarrow> database \<Rightarrow> database" where
  "add_delegation spec at d = d\<lparr>db_delegations := db_delegations d @ [added_row spec at]\<rparr>"

lemma add_delegation_frame [simp]:
  "db_sessions (add_delegation spec at d) = db_sessions d" "db_messages (add_delegation spec at d) = db_messages d"
  "db_turns (add_delegation spec at d) = db_turns d" "db_completions (add_delegation spec at d) = db_completions d"
  "has_session (add_delegation spec at d) = has_session d"
  by (simp_all add: add_delegation_def has_session_def fun_eq_iff)

lemma added_row_shows:
  assumes "delegation_ids spec" "valid_delegation spec" "uint at \<le> i64_max"
  shows "shown_row sx (added_row spec at) (new_delegation spec at)"
proof -
  have "row_in_range (added_row spec at)" using assms(3) by (simp add: row_in_range_def added_row_def i64_max_def)
  moreover have "delegation_check (added_row spec at)" by (simp add: delegation_check_def added_row_def)
  moreover have "spec_from_raw (added_row spec at) = Inr spec"
    using assms(1,2) by (simp add: spec_from_raw_Inr added_row_def delegation_ids_def)
  moreover have "delegation_state_of_row sx (added_row spec at) = Inr DelegationPending" by (simp add: row_pending added_row_def)
  ultimately show ?thesis by (simp add: shown_row_def delegation_shows_def new_delegation_def) (simp add: added_row_def)
qed

text \<open>What is unused among the snapshots is unused among the rows.\<close>

lemma unused_rows:
  assumes inv: "delegations_inv sx d" and r: "r \<in> set (db_delegations d)"
  obtains s where "delegations_of sx d (DelegationId (dr_delegation_id r)) = Some s" "shown_row sx r s"
  using found_row [OF inv table_rows [OF inv r]] unfolding key_of_def .

lemma unused_iff:
  assumes inv: "delegations_inv sx d"
  shows "unused_delegation sx d spec \<longleftrightarrow> (\<forall>r \<in> set (db_delegations d).
     dr_delegation_id r \<noteq> delegation_id_str (ds_delegation_id spec)
     \<and> dr_completion_event_id r \<noteq> completion_event_id_str (ds_completion_event_id spec)
     \<and> dr_child_session_id r \<noteq> session_id_str (ds_child_session_id spec))" (is "?l \<longleftrightarrow> ?r")
proof
  assume l: ?l
  show ?r
  proof
    fix r assume "r \<in> set (db_delegations d)"
    then obtain s where s: "delegations_of sx d (DelegationId (dr_delegation_id r)) = Some s" "shown_row sx r s"
      by (rule unused_rows [OF inv])
    have "dr_delegation_id r \<noteq> delegation_id_str (ds_delegation_id spec)" using l s(1) by (auto simp: unused_delegation_def)
    moreover have used: "ds_completion_event_id (dn_spec s) \<noteq> ds_completion_event_id spec" "child_session s \<noteq> ds_child_session_id spec"
      using l s(1) unfolding unused_delegation_def by blast+
    ultimately show "dr_delegation_id r \<noteq> delegation_id_str (ds_delegation_id spec)
     \<and> dr_completion_event_id r \<noteq> completion_event_id_str (ds_completion_event_id spec)
     \<and> dr_child_session_id r \<noteq> session_id_str (ds_child_session_id spec)"
      using used spec_of_row [OF s(2)] by (auto simp: child_session_def completion_event_id.expand session_id.expand)
  qed
next
  assume r: ?r
  have "ds_completion_event_id (dn_spec s) \<noteq> ds_completion_event_id spec \<and> child_session s \<noteq> ds_child_session_id spec"
    if s: "delegations_of sx d k = Some s" for k s
  proof -
    obtain q where q: "q \<in> set (db_delegations d)" "shown_row sx q s" using delegation_of_row [OF inv s] unfolding shown_row_def by metis
    then have "CompletionEventId (dr_completion_event_id q) \<noteq> ds_completion_event_id spec"
      "SessionId (dr_child_session_id q) \<noteq> ds_child_session_id spec"
      using r by (metis completion_event_id.sel, metis session_id.sel)
    then show ?thesis using spec_of_row [OF q(2)] by (simp add: child_session_def)
  qed
  moreover have "delegations_of sx d (ds_delegation_id spec) = None"
    using r by (auto simp: delegations_of_None [OF inv] delegation_at_def row_at_None image_iff)
  ultimately show ?l by (simp add: unused_delegation_def)
qed

lemma add_delegation_ok:
  assumes inv: "children_inv sx d" and ids: "delegation_ids spec" and valid: "valid_delegation spec" and at: "uint at \<le> i64_max"
    and unused: "unused_delegation sx d spec"
    and sessions: "has_session d (session_id_str (ds_parent_session_id spec))" "has_session d (session_id_str (ds_child_session_id spec))"
  shows "create_delegation_in_transaction spec at d = (Inr (new_delegation spec at), add_delegation spec at d)"
    "children_inv sx (add_delegation spec at d)"
    "delegations_of sx (add_delegation spec at d) = (delegations_of sx d)(ds_delegation_id spec \<mapsto> new_delegation spec at)"
proof -
  let ?d = "add_delegation spec at d" and ?row = "added_row spec at"
  have dinv: "delegations_inv sx d" and linked: "outbox_linked sx d" using inv by (simp_all add: children_inv_def)
  note free = unused [unfolded unused_iff [OF dinv]]
  note shows' = added_row_shows [OF ids valid at]
  have row: "delegation_check ?row" "row_in_range ?row" "delegation_shows sx ?row (new_delegation spec at)"
    using shows' [of sx] by (simp_all add: shown_row_def)
  have snap: "delegation_snapshot_from_raw sx ?row = Inr (new_delegation spec at)" using delegation_snapshot_Inr [OF row(1,2)] row(3) by blast
  have cols: "dr_delegation_id ?row = delegation_id_str (ds_delegation_id spec)"
    "dr_completion_event_id ?row = completion_event_id_str (ds_completion_event_id spec)"
    "dr_child_session_id ?row = session_id_str (ds_child_session_id spec)"
    "dr_parent_session_id ?row = session_id_str (ds_parent_session_id spec)" by (simp_all add: added_row_def)
  have find: "find (\<lambda>r. dr_delegation_id r = delegation_id_str (ds_delegation_id spec)
          \<or> dr_completion_event_id r = completion_event_id_str (ds_completion_event_id spec)) (db_delegations d) = None"
    using free by (auto simp: find_None_iff)
  have exists: "find (\<lambda>r. sr_session_id r = session_id_str (ds_parent_session_id spec)) (db_sessions d) \<noteq> None"
    "find (\<lambda>r. sr_session_id r = session_id_str (ds_child_session_id spec)) (db_sessions d) \<noteq> None"
    using sessions by (simp_all add: find_session_has find_session_def)
  have ins: "insert_delegation DelegationStorage ?row d = (Inr (), ?d)"
    using row(1) free sessions
    by (auto simp: insert_delegation_def run_insert_def sql_insert_def add_delegation_def cols image_iff)
  have gen: "delegation_generation 1 = Inr (OwnerGeneration 1)" by (simp add: delegation_generation_Inr i64_max_def)
  show "create_delegation_in_transaction spec at d = (Inr (new_delegation spec at), ?d)"
    using valid find exists ins at gen
    by (simp add: create_delegation_in_transaction_def act_bind_def act_lift_def act_return_def select_row_def act_read_def
        ensure_session_exists_def validate_spec_ok delegation_to_i64_def i64_of_u64_def added_row_def new_delegation_def)
  have none: "delegation_at d (ds_delegation_id spec) = None"
    using free by (auto simp: delegation_at_def row_at_None image_iff)
  show of_d: "delegations_of sx ?d = (delegations_of sx d)(ds_delegation_id spec \<mapsto> new_delegation spec at)"
    using none snap
    by (auto simp: fun_eq_iff delegations_of_def delegation_at_def add_delegation_def row_at_append cols delegation_id.expand
        split: option.split)
  have "delegation_row_ok sx ?row" using row snap by (simp add: delegation_row_ok_def)
  moreover have "set (db_delegations ?d) = insert ?row (set (db_delegations d))" by (simp add: add_delegation_def)
  moreover have "distinct (map dr_delegation_id (db_delegations ?d)) \<and> distinct (map dr_completion_event_id (db_delegations ?d))
      \<and> distinct (map dr_child_session_id (db_delegations ?d))"
    using dinv free by (auto simp: add_delegation_def delegations_inv_def cols image_iff)
  ultimately have "delegations_inv sx ?d" using dinv sessions by (simp add: delegations_inv_def cols)
  moreover have "outbox_linked sx ?d"
  proof -
    have "delegations_of sx ?d k = Some s" if "delegations_of sx d k = Some s" for k s
      using that of_d unused by (auto simp: unused_delegation_def)
    then have "\<exists>k s. delegations_of sx ?d k = Some s \<and> completion_links sx k s r" if "r \<in> set (db_completions d)" for r
      using linked_row [OF linked \<open>r \<in> set (db_completions d)\<close>] by blast
    moreover have "delegation_id_str j \<in> cr_delegation_id ` set (db_completions d)"
      if "delegations_of sx ?d j = Some t" "delegation_is_terminal (dn_state t)" for j t
      using that of_d linked_terminal [OF linked] by (auto simp: new_delegation_def split: if_splits)
    moreover have "distinct (map cr_delegation_id (db_completions d))" using linked by (simp add: outbox_linked_def)
    ultimately show ?thesis unfolding outbox_linked_def add_delegation_frame by blast
  qed
  moreover have "outbox_inv ?d" using inv by (simp add: children_inv_def outbox_inv_def)
  ultimately show "children_inv sx ?d" by (simp add: children_inv_def)
qed

lemma create_delegation_Inr:
  assumes inv: "delegations_inv sx d" and run: "create_delegation_in_transaction spec at d = (Inr s, d')"
  shows "valid_delegation spec \<and> uint at \<le> i64_max \<and> unused_delegation sx d spec
     \<and> has_session d (session_id_str (ds_parent_session_id spec)) \<and> has_session d (session_id_str (ds_child_session_id spec))"
proof -
  have steps: "valid_delegation spec" "uint at \<le> i64_max"
    "find (\<lambda>r. dr_delegation_id r = delegation_id_str (ds_delegation_id spec)
          \<or> dr_completion_event_id r = completion_event_id_str (ds_completion_event_id spec)) (db_delegations d) = None"
    "insert_delegation DelegationStorage (added_row spec at) d = (Inr (), d')"
    using run
    by (auto simp: create_delegation_in_transaction_def act_bind_ok act_lift_def act_return_def select_row_def act_read_def
        ensure_session_exists_def delegation_to_i64_Inr added_row_def)
  then have fits: "\<forall>r \<in> set (db_delegations d). dr_child_session_id r \<noteq> session_id_str (ds_child_session_id spec)"
    "has_session d (session_id_str (ds_parent_session_id spec))" "has_session d (session_id_str (ds_child_session_id spec))"
    by (auto simp: insert_delegation_def run_insert_def sql_insert_def added_row_def image_iff split: if_splits)
  have "unused_delegation sx d spec" unfolding unused_iff [OF inv] using steps(3) fits(1) by (auto simp: find_None_iff)
  then show ?thesis using steps fits by blast
qed

section \<open>The two operations\<close>

definition creatable_delegation :: "serde \<Rightarrow> database \<Rightarrow> delegation_spec \<Rightarrow> u64 \<Rightarrow> bool" where
  "creatable_delegation sx d spec at \<longleftrightarrow> valid_delegation spec \<and> uint at \<le> i64_max \<and> unused_delegation sx d spec
     \<and> sessions_of sx d (ds_parent_session_id spec) \<noteq> None \<and> sessions_of sx d (ds_child_session_id spec) \<noteq> None"

definition creatable_pair :: "serde \<Rightarrow> database \<Rightarrow> session_config \<Rightarrow> delegation_spec \<Rightarrow> u64 \<Rightarrow> bool" where
  "creatable_pair sx d child spec at \<longleftrightarrow> valid_delegation spec \<and> uint at \<le> i64_max \<and> unused_delegation sx d spec
     \<and> sessions_of sx d (ds_parent_session_id spec) \<noteq> None
     \<and> sc_session_id child = ds_child_session_id spec \<and> creatable sx d child"

lemma has_session_iff: "sessions_inv sx d \<Longrightarrow> has_session d (session_id_str k) \<longleftrightarrow> sessions_of sx d k \<noteq> None"
  using sessions_of_None [of sx d k] find_session_has [of d "session_id_str k"] by simp

lemma create_ok:
  assumes inv: "supervisor_inv sx d" and ids: "delegation_ids spec" and guard: "creatable_delegation sx d spec at"
  shows "delegation_create spec at d = (Inr (new_delegation spec at), add_delegation spec at d)"
    "supervisor_inv sx (add_delegation spec at d)"
    "delegations_of sx (add_delegation spec at d) = (delegations_of sx d)(ds_delegation_id spec \<mapsto> new_delegation spec at)"
    "sessions_of sx (add_delegation spec at d) = sessions_of sx d"
proof -
  have invs: "sessions_inv sx d" "children_inv sx d" using inv by (simp_all add: supervisor_inv_def stores_inv_def)
  have g: "valid_delegation spec" "uint at \<le> i64_max" "unused_delegation sx d spec"
    "has_session d (session_id_str (ds_parent_session_id spec))" "has_session d (session_id_str (ds_child_session_id spec))"
    using guard has_session_iff [OF invs(1)] by (simp_all add: creatable_delegation_def)
  note add = add_delegation_ok [OF invs(2) ids g]
  show "delegation_create spec at d = (Inr (new_delegation spec at), add_delegation spec at d)"
    using add(1) g(1) by (simp add: delegation_create_def act_bind_def act_lift_def transaction_def validate_spec_ok)
  show "supervisor_inv sx (add_delegation spec at d)" "sessions_of sx (add_delegation spec at d) = sessions_of sx d"
    using supervisor_of_children [OF inv add(2)] by simp_all
  show "delegations_of sx (add_delegation spec at d) = (delegations_of sx d)(ds_delegation_id spec \<mapsto> new_delegation spec at)"
    by (rule add(3))
qed

lemma create_err:
  assumes inv: "supervisor_inv sx d" and bad: "\<not> creatable_delegation sx d spec at"
  shows "\<exists>e. delegation_create spec at d = (Inl e, d)"
  unfolding delegation_create_def
proof (rule guarded_err(1), goal_cases)
  case (1 u d')
  have invs: "sessions_inv sx d" "delegations_inv sx d" using inv by (simp_all add: supervisor_inv_def stores_inv_def children_inv_def)
  from create_delegation_Inr [OF invs(2) 1(2)] show ?case
    using bad has_session_iff [OF invs(1)] by (simp add: creatable_delegation_def)
qed

lemma create_with_child_ok:
  fixes now :: i64
  assumes inv: "supervisor_inv sx d" and ids: "delegation_ids spec" and st: "storable_config sx child"
    and guard: "creatable_pair sx d child spec at"
  obtains d' where "create_with_child sx now child spec at d = (Inr (new_delegation spec at), d')" "supervisor_inv sx d'"
    "delegations_of sx d' = (delegations_of sx d)(ds_delegation_id spec \<mapsto> new_delegation spec at)"
    "sessions_of sx d' = (sessions_of sx d)(ds_child_session_id spec \<mapsto> new_session child)"
    "outbox d' = outbox d" "turns_of sx d' = turns_of sx d"
proof -
  have invs: "sessions_inv sx d" "children_inv sx d" "turns_inv sx d" "outbox_inv d"
    using inv by (simp_all add: supervisor_inv_def stores_inv_def)
  have g: "valid_delegation spec" "uint at \<le> i64_max" "unused_delegation sx d spec" "sc_session_id child = ds_child_session_id spec"
    "has_session d (session_id_str (ds_parent_session_id spec))" "creatable sx d child"
    using guard has_session_iff [OF invs(1)] by (simp_all add: creatable_pair_def)
  obtain row where row: "create_session_in_transaction sx now child d = (Inr (new_session child), d\<lparr>db_sessions := db_sessions d @ [row]\<rparr>)"
    "sessions_inv sx (d\<lparr>db_sessions := db_sessions d @ [row]\<rparr>)"
    "sessions_of sx (d\<lparr>db_sessions := db_sessions d @ [row]\<rparr>) = (sessions_of sx d)(ds_child_session_id spec \<mapsto> new_session child)"
    using create_in_transaction(1) [OF invs(1) st g(6), of now] g(4) by auto
  let ?d1 = "d\<lparr>db_sessions := db_sessions d @ [row]\<rparr>"
  have mono: "has_session ?d1 k" if "has_session d k" for k using that by (simp add: has_session_append)
  have c1: "children_inv sx ?d1" by (rule children_frame [OF _ _ mono invs(2)]) simp_all
  have "turns_inv sx ?d1" by (rule turns_frame(2) [OF _ invs(3) mono]) simp_all
  moreover have "outbox_inv ?d1" using invs(4) by (simp add: outbox_inv_def)
  ultimately have sup1: "supervisor_inv sx ?d1" using row(2) c1 by (simp add: supervisor_inv_def stores_inv_def)
  have of1: "delegations_of sx ?d1 = delegations_of sx d" by (rule delegations_frame) simp
  have unused1: "unused_delegation sx ?d1 spec" using g(3) by (simp add: unused_delegation_def of1)
  have child1: "has_session ?d1 (session_id_str (ds_child_session_id spec))"
    unfolding has_session_iff [OF row(2)] row(3) by simp
  note add = add_delegation_ok [OF c1 ids g(1,2) unused1 mono [OF g(5)] child1]
  let ?d2 = "add_delegation spec at ?d1"
  note sup = supervisor_of_children [OF sup1 add(2)]
  have parent: "find (\<lambda>r. sr_session_id r = session_id_str (ds_parent_session_id spec)) (db_sessions d) \<noteq> None"
    using g(5) by (simp add: find_session_has find_session_def)
  have run: "create_with_child sx now child spec at d = (Inr (new_delegation spec at), ?d2)"
    using row(1) add(1) g(1,4) parent
    by (simp add: create_with_child_def act_bind_def act_lift_def transaction_def validate_spec_ok ensure_session_exists_def
        select_row_def act_read_def act_map_err_def)
  have "outbox ?d2 = outbox d" by (simp add: outbox_def fun_eq_iff)
  moreover have "turns_of sx ?d2 = turns_of sx d" by (rule turns_frame) simp
  ultimately show ?thesis using that [OF run] sup add(3) of1 row(3) by simp
qed

lemma create_with_child_err:
  assumes inv: "supervisor_inv sx d" and ids: "delegation_ids spec" and st: "storable_config sx child"
    and bad: "\<not> creatable_pair sx d child spec at"
  shows "\<exists>e. create_with_child sx now child spec at d = (Inl e, d)"
proof -
  have invs: "sessions_inv sx d" "children_inv sx d" using inv by (simp_all add: supervisor_inv_def stores_inv_def)
  have good: "creatable_pair sx d child spec at" if done': "create_with_child sx now child spec at d = (Inr s, d')" for s d'
  proof -
    obtain u d1 where run: "valid_delegation spec" "sc_session_id child = ds_child_session_id spec"
      "find (\<lambda>r. sr_session_id r = session_id_str (ds_parent_session_id spec)) (db_sessions d) \<noteq> None"
      "create_session_in_transaction sx now child d = (Inr u, d1)" "create_delegation_in_transaction spec at d1 = (Inr s, d')"
      using done'
      by (auto simp: create_with_child_def act_bind_ok act_lift_def transaction_ok ensure_session_exists_def select_row_def
          act_read_def act_map_err_ok)
    have cr: "creatable sx d child" using create_in_transaction(2) [OF invs(1) st, of now] run(4) by fastforce
    then obtain row where d1: "d1 = d\<lparr>db_sessions := db_sessions d @ [row]\<rparr>"
      using create_in_transaction(1) [OF invs(1) st, of now] run(4) by auto
    have c1: "children_inv sx d1" by (rule children_frame [OF _ _ _ invs(2)]) (simp_all add: d1 has_session_append)
    then have "delegations_inv sx d1" by (simp add: children_inv_def)
    from create_delegation_Inr [OF this run(5)]
    have "uint at \<le> i64_max" "unused_delegation sx d1 spec" by simp_all
    moreover have "delegations_of sx d1 = delegations_of sx d" by (rule delegations_frame) (simp add: d1)
    moreover have "sessions_of sx d (ds_parent_session_id spec) \<noteq> None"
      using run(3) has_session_iff [OF invs(1)] by (metis find_session_has find_session_def)
    ultimately show ?thesis using run(1,2) cr by (simp add: creatable_pair_def unused_delegation_def)
  qed
  have "d' = d" if "create_with_child sx now child spec at d = (Inl e, d')" for e d'
    using that by (auto simp: create_with_child_def act_bind_def act_lift_def transaction_def split: sum.splits prod.splits)
  then show ?thesis using good bad by (cases "create_with_child sx now child spec at d") (metis sum.exhaust)
qed

end
