(* ===== verification/Delegation_Delivery.thy ===== *)
theory Delegation_Delivery
  imports Delegation_Creation
begin

text \<open>
  Delivery of completions: a claim marks a pending completion for one consumer until a deadline, the
  holder of the claim acknowledges or releases it. Nothing of it touches what was posted.
\<close>

section \<open>Changing one row of the outbox\<close>

definition change_completion :: "completion_event_id \<Rightarrow> (completion_row \<Rightarrow> completion_row) \<Rightarrow> database \<Rightarrow> database" where
  "change_completion e f d = d\<lparr>db_completions := change_row cr_event_id (completion_event_id_str e) f (db_completions d)\<rparr>"

text \<open>What a delivery leaves alone.\<close>

definition same_posting :: "completion_row \<Rightarrow> completion_row \<Rightarrow> bool" where
  "same_posting r q \<longleftrightarrow> cr_event_id r = cr_event_id q \<and> cr_delegation_id r = cr_delegation_id q
     \<and> cr_payload_json r = cr_payload_json q \<and> cr_created_at_ms r = cr_created_at_ms q"

lemma change_completion_frame [simp]:
  "db_sessions (change_completion e f d) = db_sessions d" "db_messages (change_completion e f d) = db_messages d"
  "db_turns (change_completion e f d) = db_turns d" "db_delegations (change_completion e f d) = db_delegations d"
  "has_session (change_completion e f d) = has_session d"
  by (simp_all add: change_completion_def has_session_def fun_eq_iff)

lemma change_completion_outbox:
  assumes "\<And>r. same_posting (f r) r"
  shows "outbox (change_completion e f d) = (\<lambda>x. if x = e then map_option f (outbox d x) else outbox d x)"
  using assms by (auto simp: fun_eq_iff outbox_def change_completion_def row_at_change same_posting_def completion_event_id.expand)

lemma linked_change:
  assumes linked: "outbox_linked sx d" and same: "\<And>r. same_posting (g r) r"
    and rows: "db_completions d' = map g (db_completions d)" and del: "delegations_of sx d' = delegations_of sx d"
  shows "outbox_linked sx d'"
proof -
  have ids: "map cr_delegation_id (db_completions d') = map cr_delegation_id (db_completions d)"
    using same by (simp add: rows same_posting_def)
  then have set: "cr_delegation_id ` set (db_completions d') = cr_delegation_id ` set (db_completions d)" by (metis list.set_map)
  have "completion_links sx k s (g r) = completion_links sx k s r" for k s r
    using same [of r] by (simp add: completion_links_def same_posting_def)
  then have "\<forall>r \<in> set (db_completions d'). \<exists>k s. delegations_of sx d' k = Some s \<and> completion_links sx k s r"
    using linked by (simp add: rows del outbox_linked_def)
  moreover have "delegation_id_str k \<in> cr_delegation_id ` set (db_completions d')"
    if "delegations_of sx d' k = Some s" "delegation_is_terminal (dn_state s)" for k s
    using linked_terminal [OF linked] that by (simp add: set del)
  moreover have "distinct (map cr_delegation_id (db_completions d'))" using linked by (simp add: ids outbox_linked_def)
  ultimately show ?thesis unfolding outbox_linked_def by blast
qed

lemma change_completion_ok:
  assumes inv: "children_inv sx d" and row: "outbox d e = Some r" and same: "\<And>r. same_posting (f r) r" and check: "completion_check (f r)"
  shows "children_inv sx (change_completion e f d)"
proof -
  let ?d = "change_completion e f d"
  have invs: "delegations_inv sx d" "outbox_inv d" "outbox_linked sx d" using inv by (simp_all add: children_inv_def)
  have dist: "distinct (map cr_event_id (db_completions d))" using invs(2) by (simp add: outbox_inv_def)
  have at: "row_at cr_event_id (db_completions d) (completion_event_id_str e) = Some r" using row by (simp add: outbox_def)
  have rows: "set (db_completions ?d) = insert (f r) (set (db_completions d) - {r})"
    using set_change_row [OF dist at] by (simp add: change_completion_def)
  have "map cr_event_id (db_completions ?d) = map cr_event_id (db_completions d)"
    using same by (simp add: change_completion_def keys_change same_posting_def)
  then have "outbox_inv ?d" unfolding outbox_inv_def rows using invs(2) check by (simp add: outbox_inv_def)
  moreover have "delegations_inv sx ?d" by (rule delegations_frame(3) [OF _ invs(1)]) simp_all
  moreover have "outbox_linked sx ?d"
  proof (rule linked_change [OF invs(3), where g = "\<lambda>r. if cr_event_id r = completion_event_id_str e then f r else r"])
    show "delegations_of sx ?d = delegations_of sx d" by (rule delegations_frame) simp
    show "db_completions ?d = map (\<lambda>r. if cr_event_id r = completion_event_id_str e then f r else r) (db_completions d)"
      by (simp add: change_completion_def change_row_def)
  qed (use same in \<open>simp add: same_posting_def\<close>)
  ultimately show ?thesis by (simp add: children_inv_def)
qed

lemma update_completion_eq:
  assumes inv: "outbox_inv d" and key: "\<And>r. matches r \<Longrightarrow> cr_event_id r = completion_event_id_str e"
    and check: "\<And>r. outbox d e = Some r \<Longrightarrow> matches r \<Longrightarrow> completion_check (f r)"
  shows "update_completions err matches f d =
     (case outbox d e of
        Some r \<Rightarrow> if matches r then (Inr 1, change_completion e f d) else (Inr 0, d)
      | None \<Rightarrow> (Inr 0, d))"
proof -
  have "distinct (map cr_event_id (db_completions d))" using inv by (simp add: outbox_inv_def)
  from keyed_update [OF this, of matches "completion_event_id_str e" completion_check f] show ?thesis
    using key check
    by (auto simp: update_completions_def run_update_def change_completion_def outbox_def split: option.split)
qed

section \<open>Claims\<close>

definition claimed_completion :: "delivery_claim_id \<Rightarrow> u64 \<Rightarrow> completion_row \<Rightarrow> completion_row" where
  "claimed_completion claim expires r =
     r\<lparr>cr_delivery_claim_id := Some (delivery_claim_id_str claim), cr_delivery_claim_expires_at_ms := Some (uint expires),
       cr_delivery_attempts := cr_delivery_attempts r + 1\<rparr>"

definition claimable_completion :: "u64 \<Rightarrow> completion_row \<Rightarrow> bool" where
  "claimable_completion now r \<longleftrightarrow> cr_delivery_state r = ''pending'' \<and> claim_free (uint now) r"

lemma claimed_completion_simps [simp]:
  "same_posting (claimed_completion claim expires r) r"
  "completion_check r \<Longrightarrow> cr_delivery_state r = ''pending'' \<Longrightarrow> completion_check (claimed_completion claim expires r)"
  by (auto simp: same_posting_def claimed_completion_def completion_check_def)

lemma outbox_check: "outbox_inv d \<Longrightarrow> outbox d e = Some r \<Longrightarrow> completion_check r"
  using outbox_row by (auto simp: outbox_inv_def)

text \<open>The payload of a row is the completion of its delegation.\<close>

lemma outbox_payload:
  assumes "children_inv sx d" "outbox d e = Some r"
  obtains k s where "delegations_of sx d k = Some s" "completion_links sx k s r" "ds_completion_event_id (dn_spec s) = e"
    "decode_completion sx (cr_payload_json r) = Inr (outcome_completion s)"
proof -
  have "outbox_linked sx d" using assms(1) by (simp add: children_inv_def)
  from linked_row [OF this] obtain k s where s: "delegations_of sx d k = Some s" "completion_links sx k s r"
    using outbox_row [OF assms(2)] by blast
  then have "ds_completion_event_id (dn_spec s) = e"
    using outbox_row [OF assms(2)] by (simp add: completion_links_def completion_event_id.expand)
  then show ?thesis using that s by (simp add: decode_completion_def completion_links_def)
qed

definition valid_claim :: "u64 \<Rightarrow> u64 \<Rightarrow> bool" where
  "valid_claim now expires \<longleftrightarrow> now < expires \<and> uint expires \<le> i64_max"

lemma claim_completion_eq:
  assumes inv: "children_inv sx d"
  shows "claim_completion sx e claim now expires d =
     (if \<not> valid_claim now expires then (Inl (projl (fst (claim_completion sx e claim now expires d))), d)
      else case outbox d e of
        Some r \<Rightarrow> if claimable_completion now r
          then (Inr (Some (projr (decode_completion sx (cr_payload_json r)))), change_completion e (claimed_completion claim expires) d)
          else (Inr None, d)
      | None \<Rightarrow> (Inr None, d))"
proof (cases "valid_claim now expires")
  case False
  then have "\<exists>err. claim_completion sx e claim now expires d = (Inl err, d)"
    by (auto simp: claim_completion_def act_bind_def act_lift_def transaction_def validate_claim_def valid_claim_def
        delegation_to_i64_def i64_of_u64_def ensure_def split: sum.splits prod.splits)
  then show ?thesis using False by auto
next
  case True
  have oinv: "outbox_inv d" using inv by (simp add: children_inv_def)
  have at: "uint now \<le> i64_max" "uint expires \<le> i64_max" "\<not> expires \<le> now" using True by (auto simp: valid_claim_def word_less_def word_le_def)
  have upd: "update_completions DelegationStorage
      (\<lambda>r. cr_event_id r = completion_event_id_str e \<and> cr_delivery_state r = ''pending'' \<and> claim_free (uint now) r)
      (claimed_completion claim expires) d
    = (case outbox d e of
        Some r \<Rightarrow> if claimable_completion now r then (Inr 1, change_completion e (claimed_completion claim expires) d) else (Inr 0, d)
      | None \<Rightarrow> (Inr 0, d))"
    by (subst update_completion_eq [OF oinv])
       (auto simp: claimable_completion_def outbox_check [OF oinv] dest: outbox_row split: option.split)
  have row: "row_at cr_event_id (db_completions (change_completion e (claimed_completion claim expires) d)) (completion_event_id_str e)
      = map_option (claimed_completion claim expires) (outbox d e)"
    using change_completion_outbox [of "claimed_completion claim expires" e d] by (simp add: outbox_def fun_eq_iff)
  have pay: "cr_payload_json (claimed_completion claim expires r) = cr_payload_json r" for r by (simp add: claimed_completion_def)
  show ?thesis
  proof (cases "outbox d e")
    case None
    then show ?thesis
      using True at upd [unfolded claimed_completion_def [abs_def]]
      by (simp add: claim_completion_def act_bind_def act_lift_def act_return_def transaction_def validate_claim_def
          delegation_to_i64_def i64_of_u64_def)
  next
    case (Some r)
    obtain s where "decode_completion sx (cr_payload_json r) = Inr (outcome_completion s)" using outbox_payload [OF inv Some] by blast
    then show ?thesis
      using Some True at upd [unfolded claimed_completion_def [abs_def]] row [unfolded claimed_completion_def [abs_def]]
      by (simp add: claim_completion_def act_bind_def act_lift_def act_return_def act_try_def transaction_def validate_claim_def
          delegation_to_i64_def i64_of_u64_def claimed_completion_def [abs_def])
  qed
qed

section \<open>Acknowledging and releasing\<close>

definition claim_held :: "delivery_claim_id \<Rightarrow> completion_row \<Rightarrow> bool" where
  "claim_held claim r \<longleftrightarrow> cr_delivery_state r = ''pending'' \<and> cr_delivery_claim_id r = Some (delivery_claim_id_str claim)"

definition released :: "completion_row \<Rightarrow> completion_row" where
  "released r = r\<lparr>cr_delivery_claim_id := None, cr_delivery_claim_expires_at_ms := None\<rparr>"

lemma delivered_posting [simp]: "same_posting (delivered at r) r"
  by (simp add: same_posting_def delivered_def)

lemma released_simps [simp]:
  "same_posting (released r) r"
  "completion_check r \<Longrightarrow> cr_delivery_state r = ''pending'' \<Longrightarrow> completion_check (released r)"
  by (auto simp: same_posting_def released_def completion_check_def)

lemma acknowledge_eq:
  assumes inv: "outbox_inv d"
  shows "acknowledge_completion e claim at d =
     (if i64_max < uint at then (Inl (projl (fst (acknowledge_completion e claim at d))), d)
      else case outbox d e of
        Some r \<Rightarrow> if claim_held claim r \<and> cr_created_at_ms r \<le> uint at
          then (Inr True, change_completion e (delivered (uint at)) d) else (Inr False, d)
      | None \<Rightarrow> (Inr False, d))"
proof (cases "i64_max < uint at")
  case True
  then show ?thesis by (simp add: acknowledge_completion_def act_bind_def act_lift_def delegation_to_i64_def i64_of_u64_def)
next
  case False
  have "update_completions DelegationStorage
      (\<lambda>r. cr_event_id r = completion_event_id_str e \<and> cr_delivery_state r = ''pending''
         \<and> cr_delivery_claim_id r = Some (delivery_claim_id_str claim) \<and> cr_created_at_ms r \<le> uint at) (delivered (uint at)) d
    = (case outbox d e of
        Some r \<Rightarrow> if claim_held claim r \<and> cr_created_at_ms r \<le> uint at
          then (Inr 1, change_completion e (delivered (uint at)) d) else (Inr 0, d)
      | None \<Rightarrow> (Inr 0, d))"
    by (subst update_completion_eq [OF inv])
       (auto simp: claim_held_def delivered_check outbox_check [OF inv] dest: outbox_row split: option.split)
  then show ?thesis
    using False
    by (simp add: acknowledge_completion_def act_bind_def act_lift_def act_return_def delegation_to_i64_def i64_of_u64_def
        split: option.split)
qed

lemma release_eq:
  assumes inv: "outbox_inv d"
  shows "release_completion e claim d =
     (case outbox d e of
        Some r \<Rightarrow> if claim_held claim r then (Inr True, change_completion e released d) else (Inr False, d)
      | None \<Rightarrow> (Inr False, d))"
proof -
  have "update_completions DelegationStorage
      (\<lambda>r. cr_event_id r = completion_event_id_str e \<and> cr_delivery_state r = ''pending''
         \<and> cr_delivery_claim_id r = Some (delivery_claim_id_str claim)) released d
    = (case outbox d e of
        Some r \<Rightarrow> if claim_held claim r then (Inr 1, change_completion e released d) else (Inr 0, d)
      | None \<Rightarrow> (Inr 0, d))"
    by (subst update_completion_eq [OF inv])
       (auto simp: claim_held_def outbox_check [OF inv] dest: outbox_row split: option.split)
  then show ?thesis
    by (simp add: release_completion_def act_bind_def act_return_def released_def [abs_def] split: option.split)
qed

section \<open>What the deliveries give\<close>

lemma claim_taken:
  assumes inv: "children_inv sx d" and run: "claim_completion sx e claim now expires d = (Ok (Some m), d')"
  obtains r where "outbox d e = Some r" "claimable_completion now r" "valid_claim now expires"
    "d' = change_completion e (claimed_completion claim expires) d" "m = projr (decode_completion sx (cr_payload_json r))"
proof -
  note eq = trans [OF run [symmetric] claim_completion_eq [OF inv]]
  have valid: "valid_claim now expires"
  proof (rule ccontr)
    assume "\<not> valid_claim now expires"
    then show False using eq by simp
  qed
  then show ?thesis using eq that by (simp split: option.splits if_splits)
qed

lemma claim_refused:
  assumes inv: "children_inv sx d" and row: "outbox d e = Some r" "\<not> claimable_completion now r"
  shows "snd (claim_completion sx e claim now expires d) = d" "fst (claim_completion sx e claim now expires d) \<noteq> Ok (Some m)"
    "valid_claim now expires \<Longrightarrow> claim_completion sx e claim now expires d = (Ok None, d)"
proof -
  obtain x d' where run: "claim_completion sx e claim now expires d = (x, d')" by (rule prod.exhaust)
  note eq = trans [OF run [symmetric] claim_completion_eq [OF inv]]
  have "d' = d \<and> x \<noteq> Ok (Some m) \<and> (valid_claim now expires \<longrightarrow> x = Ok None)" using eq row by (simp split: if_splits)
  then show "snd (claim_completion sx e claim now expires d) = d" "fst (claim_completion sx e claim now expires d) \<noteq> Ok (Some m)"
    "valid_claim now expires \<Longrightarrow> claim_completion sx e claim now expires d = (Ok None, d)"
    by (simp_all add: run)
qed

lemma acknowledge_taken:
  assumes inv: "outbox_inv d" and run: "acknowledge_completion e claim at d = (Ok True, d')"
  obtains r where "outbox d e = Some r" "claim_held claim r" "d' = change_completion e (delivered (uint at)) d"
  using trans [OF run [symmetric] acknowledge_eq [OF inv]] that by (simp split: option.splits if_splits)

lemma acknowledge_refused:
  assumes inv: "outbox_inv d" and row: "outbox d e = Some r" "\<not> claim_held claim r"
  shows "snd (acknowledge_completion e claim at d) = d" "fst (acknowledge_completion e claim at d) \<noteq> Ok True"
proof -
  obtain x d' where run: "acknowledge_completion e claim at d = (x, d')" by (rule prod.exhaust)
  note eq = trans [OF run [symmetric] acknowledge_eq [OF inv]]
  have "d' = d \<and> x \<noteq> Ok True" using eq row by (simp split: if_splits)
  then show "snd (acknowledge_completion e claim at d) = d" "fst (acknowledge_completion e claim at d) \<noteq> Ok True"
    by (simp_all add: run)
qed

end
