(* ===== verification/Shared_Database.thy ===== *)
theory Shared_Database
  imports Delegation_Delivery
begin

text \<open>
  The session store, the foreground-turn store and the delegation store write one database, each through
  its own connection. Here their operations are the steps of one history: every store keeps the invariants
  of the others, and sessions, turns, delegations and completions only move forward.
\<close>

section \<open>How the items of the stores move\<close>

definition delegation_evolves :: "delegation_snapshot \<Rightarrow> delegation_snapshot \<Rightarrow> bool" where
  "delegation_evolves s t \<longleftrightarrow> dn_spec t = dn_spec s \<and> dn_created_at_ms t = dn_created_at_ms s
     \<and> owner_generation_get (dn_owner_generation s) \<le> owner_generation_get (dn_owner_generation t)
     \<and> dn_updated_at_ms s \<le> dn_updated_at_ms t
     \<and> (case dn_state s of
          DelegationPending \<Rightarrow> True
        | DelegationRunning worker token lease requested \<Rightarrow>
            (case dn_state t of
               DelegationPending \<Rightarrow> False
             | DelegationRunning worker' token' lease' requested' \<Rightarrow>
                 worker' = worker \<and> token' = token \<and> lease \<le> lease' \<and> (requested = None \<or> requested' = requested)
             | DelegationTerminal outcome _ \<Rightarrow>
                 (case requested of None \<Rightarrow> True | Some q \<Rightarrow> outcome = DelegationCancelled (dc_reason q)))
        | DelegationTerminal _ _ \<Rightarrow> t = s)"

lemma delegation_evolves_refl [simp]: "delegation_evolves s s"
  by (simp add: delegation_evolves_def split: delegation_state.split option.split)

lemma delegation_evolves_trans:
  assumes "delegation_evolves s t" "delegation_evolves t u"
  shows "delegation_evolves s u"
  using assms
  by (cases "dn_state s"; cases "dn_state t"; cases "dn_state u")
     (auto simp: delegation_evolves_def split: option.splits)

text \<open>A posting stays as it was posted; delivery is final.\<close>

definition row_evolves :: "completion_row \<Rightarrow> completion_row \<Rightarrow> bool" where
  "row_evolves r q \<longleftrightarrow> same_posting q r \<and> cr_delivery_attempts r \<le> cr_delivery_attempts q
     \<and> (cr_delivery_state r = ''delivered'' \<longrightarrow> q = r)"

lemma row_evolves_refl [simp]: "row_evolves r r"
  by (simp add: row_evolves_def same_posting_def)

lemma row_evolves_trans: "row_evolves a b \<Longrightarrow> row_evolves b c \<Longrightarrow> row_evolves a c"
  by (auto simp: row_evolves_def same_posting_def)

lemma generation_grows: "generation_left s \<Longrightarrow>
    owner_generation_get (dn_owner_generation s) \<le> owner_generation_get (next_generation s)"
  by (simp add: word_le_def uint_next_generation)

lemma claimed_evolves: "claimable (Some s) expected now lease \<Longrightarrow> delegation_evolves s (claimed worker now lease s)"
  by (auto simp: claimable_def delegation_evolves_def claimed_def generation_grows)

lemma extended_evolves_lease:
  assumes "extendable (Some s) authority now lease"
  shows "delegation_evolves s (extended_lease now lease s)"
proof -
  obtain w l c where "dn_state s = DelegationRunning w (da_fencing_token authority) l c" "dn_updated_at_ms s \<le> now"
    using assms by (auto simp: extendable_def elim: fencedE)
  then show ?thesis using assms by (simp add: extendable_def delegation_evolves_def extended_lease_def generation_grows less_imp_le)
qed

lemma settled_evolves:
  assumes "\<not> delegation_is_terminal (dn_state s)" "generation_left s" "dn_updated_at_ms s \<le> at"
    "\<And>q. run_cancellation (dn_state s) = Some q \<Longrightarrow> delegation_running s \<Longrightarrow> outcome = DelegationCancelled (dc_reason q)"
  shows "delegation_evolves s (settled outcome at s)"
  using assms
  by (auto simp: delegation_evolves_def settled_def generation_grows delegation_running_def split: delegation_state.split option.split)

lemma finished_evolves:
  assumes "finishable s authority outcome at"
  shows "delegation_evolves s (settled outcome at s)"
proof -
  have f: "fenced s authority at" "legal_outcome s outcome" "generation_left s" using assms by (simp_all add: finishable_def)
  obtain w l c where st: "dn_state s = DelegationRunning w (da_fencing_token authority) l c" "dn_updated_at_ms s \<le> at"
    using f(1) by (rule fencedE)
  show ?thesis by (rule settled_evolves) (use f st in \<open>auto simp: legal_outcome_def\<close>)
qed

lemma cancelled_evolves:
  assumes "cancel_result expected reason at s = Some t"
  shows "delegation_evolves s t"
proof (cases "dn_state s")
  case DelegationPending
  then show ?thesis
    using assms by (auto simp: cancel_result_def not_less delegation_running_def intro!: settled_evolves split: if_splits)
next
  case (DelegationRunning w k l c)
  then show ?thesis
    using assms by (auto simp: cancel_result_def delegation_evolves_def not_less split: if_splits option.splits)
next
  case (DelegationTerminal outcome at')
  then show ?thesis using assms by (auto simp: cancel_result_def split: if_splits)
qed

lemma abandoned_evolves:
  assumes "delegation_running s" "abandonable at s"
  shows "delegation_evolves s (abandoned unknown at s)"
proof -
  obtain w l k c where "dn_state s = DelegationRunning w l k c" using assms(1) by (rule delegation_runningE)
  then show ?thesis
    using assms by (auto simp: abandoned_def abandonable_def abandoned_outcome_def intro!: settled_evolves)
qed

section \<open>What the other stores leave alone\<close>

lemma deliver_all_rows:
  "db_completions (deliver_all at cs d)
     = map (\<lambda>r. if cr_event_id r \<in> (completion_event_id_str \<circ> fst) ` set cs then delivered at r else r) (db_completions d)"
proof (induction cs arbitrary: d)
  case Nil
  then show ?case by simp
next
  case (Cons c cs)
  have "delivered at (delivered at r) = delivered at r" for r by (simp add: delivered_def)
  then show ?case
    using Cons.IH [of "deliver_in at (completion_event_id_str (fst c)) d"]
    by (simp add: deliver_in_def change_row_def)
qed

definition foreground_frame :: "database \<Rightarrow> database \<Rightarrow> bool" where
  "foreground_frame d d' \<longleftrightarrow> db_delegations d' = db_delegations d \<and> (\<forall>k. has_session d k \<longrightarrow> has_session d' k)
     \<and> (\<exists>g. db_completions d' = map g (db_completions d) \<and> (\<forall>r. same_posting (g r) r)
          \<and> (\<forall>r \<in> set (db_completions d). row_evolves r (g r)))"

lemma same_frame:
  "db_delegations d' = db_delegations d \<Longrightarrow> db_completions d' = db_completions d \<Longrightarrow> (\<And>k. has_session d k \<Longrightarrow> has_session d' k) \<Longrightarrow>
   foreground_frame d d'"
  by (auto simp: foreground_frame_def same_posting_def intro!: exI [of _ "\<lambda>r. r"])

lemma keeps_collect: "(\<And>x. keeps I (f x)) \<Longrightarrow> keeps I (act_collect f xs)"
  by (induction xs) (auto intro: keeps_intros)

definition others :: "delegation_row list \<Rightarrow> completion_row list \<Rightarrow> session_row list \<Rightarrow> database \<Rightarrow> bool" where
  "others ds cs ss d \<longleftrightarrow> db_delegations d = ds \<and> db_completions d = cs \<and> db_sessions d = ss"

lemma keeps_update_turns: "keeps (others ds cs ss) (update_turns err matches f)"
  by (auto simp: keeps_def wp_def others_def update_turns_def run_update_def split: sum.split prod.split)

lemma reconcile_frame:
  assumes "reconcile_running_turns sx reason at d = (Inr ts, d')"
  shows "foreground_frame d d'"
proof -
  have read: "keeps I (read_turn_named sx key)" for I key
    unfolding read_turn_named_def read_turn_def load_turn_def by (intro keeps_intros)
  have one: "keeps (others ds cs ss) (reconcile_turn j i w key)" for ds cs ss j i w key
    unfolding reconcile_turn_def load_turn_def by (intro keeps_intros keeps_update_turns)
  have "keeps (others (db_delegations d) (db_completions d) (db_sessions d)) (reconcile_running_turns sx reason at)"
    unfolding reconcile_running_turns_def by (intro keeps_intros keeps_collect read one)
  from keepsD [OF this _ assms] have "others (db_delegations d) (db_completions d) (db_sessions d) d'" by (simp add: others_def)
  then show ?thesis by (intro same_frame) (simp_all add: others_def has_session_def)
qed

lemma foreground_frame_step:
  assumes "foreground_step sx d d'" "stores_inv sx d"
  shows "foreground_frame d d'"
  using assms(1)
proof (cases rule: foreground_step.cases)
  case step_session
  have "sessions_inv sx d" using assms(2) by (simp add: stores_inv_def)
  from session_step_frame [OF step_session this] show ?thesis by (intro same_frame) simp_all
next
  case (step_start spec provider_prompt expected claims at r)
  show ?thesis
  proof (cases "startable sx d spec provider_prompt expected at \<and> claims_owned d (fs_session_id spec) (uint at) claims")
    case True
    have d': "d' = started_in (started_row spec provider_prompt expected at) (uint at) claims d"
      using start_ok(1) [OF assms(2) step_start(1) conjunct1 [OF True] conjunct2 [OF True]] step_start(2) by simp
    let ?g = "\<lambda>r. if cr_event_id r \<in> (completion_event_id_str \<circ> fst) ` set claims then delivered (uint at) r else r"
    have evolves: "row_evolves r (?g r)" if r: "r \<in> set (db_completions d)" for r
    proof (cases "cr_event_id r \<in> (completion_event_id_str \<circ> fst) ` set claims")
      case True
      then obtain e c where c: "(e, c) \<in> set claims" "cr_event_id r = completion_event_id_str e" by auto
      have "distinct (map cr_event_id (db_completions d))" using assms(2) by (simp add: stores_inv_def outbox_inv_def)
      then have "outbox d e = Some r" using r c(2) by (simp add: outbox_def row_at_eq)
      moreover have "claim_owned d (fs_session_id spec) (uint at) (e, c)"
        using step_start c(1) \<open>startable sx d spec provider_prompt expected at \<and> claims_owned d (fs_session_id spec) (uint at) claims\<close>
        by (auto simp: claims_owned_def list_all_iff)
      ultimately have "cr_delivery_state r = ''pending''" by (simp add: claim_owned_def)
      then show ?thesis using True by (simp add: row_evolves_def) (simp add: delivered_def)
    qed (simp only: if_False row_evolves_refl)
    have rows: "db_completions d' = map ?g (db_completions d)" by (simp add: d' started_in_def deliver_all_rows)
    have same: "\<forall>r. same_posting (?g r) r" using delivered_posting by (simp add: same_posting_def)
    have rest: "db_delegations d' = db_delegations d" "has_session d' = has_session d"
      by (simp_all add: d' started_in_def has_session_def fun_eq_iff)
    show ?thesis
      unfolding foreground_frame_def
      by (intro conjI exI [where x = ?g] ballI evolves rows same allI impI) (simp_all add: rest)
  next
    case False
    then have "d' = d" using start_err [OF assms(2) step_start(1) False] step_start(2) by auto
    then show ?thesis by (intro same_frame) simp_all
  qed
next
  case (step_complete messages now k expected at r)
  show ?thesis
  proof (cases r)
    case (Inl e)
    then have "d' = d" using step_complete(3) by (auto simp: complete_turn_def dest: transaction_rollback)
    then show ?thesis by (intro same_frame) simp_all
  next
    case (Inr x)
    then obtain q s where q: "turns_of sx d k = Some q" "closable (Some q) expected at"
      "sessions_of sx d (turn_session q) = Some s" "appendable (Some s) expected messages"
      using complete_turn_Inr [OF assms(2) step_complete(3) [unfolded Inr]] appendable_Some by blast
    have "d' = close_in sx k TurnCompleted at (append_database sx now (turn_session q) s messages d)"
      using completable_ok(1) [OF assms(2) q step_complete(1,2), of now] step_complete(3) by simp
    then show ?thesis
      by (intro same_frame) (simp_all add: sessions_frame(3) [OF close_in_frame(1,2)] append_has_session)
  qed
next
  case (step_terminate outcome k expected at r)
  show ?thesis
  proof (cases "terminable sx d k expected outcome at")
    case True
    then obtain q s where q: "turns_of sx d k = Some q" "closable (Some q) expected at"
      "sessions_of sx d (turn_session q) = Some s" "ss_owner_generation s = expected" "terminal_detail_ok outcome"
      by (auto simp: terminable_def)
    have "d' = close_in sx k outcome at d" using terminate_ok(1) [OF assms(2) q step_terminate(1)] step_terminate(2) by simp
    then show ?thesis by (intro same_frame) (simp_all add: sessions_frame(3) [OF close_in_frame(1,2)])
  next
    case False
    then have "d' = d" using terminate_err [OF assms(2) False] step_terminate(2) by auto
    then show ?thesis by (intro same_frame) simp_all
  qed
next
  case (step_reconcile reason at rs)
  show ?thesis
  proof (cases rs)
    case (Inl e)
    have "\<not> reconcilable sx d reason at"
      using reconcile_running_ok [OF assms(2) _ step_reconcile(1), of at] step_reconcile(2) Inl by auto
    then have "d' = d" using reconcile_running_err [OF assms(2) _ step_reconcile(1), of at] step_reconcile(2) by auto
    then show ?thesis by (intro same_frame) simp_all
  next
    case (Inr ts)
    then show ?thesis using reconcile_frame step_reconcile(2) by simp
  qed
next
  case step_latest
  then have "d' = d" by (rule latest_same)
  then show ?thesis by (intro same_frame) simp_all
qed

text \<open>Sessions only grow, whoever appends to them.\<close>

lemma foreground_sessions:
  assumes "foreground_step sx d d'" "stores_inv sx d" "sessions_of sx d sid = Some t"
  shows "\<exists>u. sessions_of sx d' sid = Some u \<and> snapshot_evolves t u"
  using assms(1)
proof (cases rule: foreground_step.cases)
  case step_session
  have "sessions_inv sx d" using assms(2) by (simp add: stores_inv_def)
  then show ?thesis using sqlite_sessions.step_keeps [OF step_session] assms(3) by blast
next
  case (step_start spec provider_prompt expected claims at r)
  show ?thesis
  proof (cases "startable sx d spec provider_prompt expected at \<and> claims_owned d (fs_session_id spec) (uint at) claims")
    case True
    show ?thesis
      using start_ok(1,3) [OF assms(2) step_start(1) conjunct1 [OF True] conjunct2 [OF True]] step_start(2) assms(3) by simp
  next
    case False
    then have "d' = d" using start_err [OF assms(2) step_start(1) False] step_start(2) by auto
    then show ?thesis using assms(3) by simp
  qed
next
  case (step_complete messages now k expected at r)
  show ?thesis
  proof (cases r)
    case (Inl e)
    then have "d' = d" using step_complete(3) by (auto simp: complete_turn_def dest: transaction_rollback)
    then show ?thesis using assms(3) by simp
  next
    case (Inr x)
    then obtain q s where q: "turns_of sx d k = Some q" "closable (Some q) expected at"
      "sessions_of sx d (turn_session q) = Some s" "appendable (Some s) expected messages"
      using complete_turn_Inr [OF assms(2) step_complete(3) [unfolded Inr]] appendable_Some by blast
    note ok = completable_ok(1,3) [OF assms(2) q step_complete(1,2), of now]
    have "uint (owner_generation_get (ss_owner_generation s)) < i64_max" using q(4) by (auto simp: appendable_def)
    then have "snapshot_evolves s (extended s messages)" by (rule extended_evolves)
    then show ?thesis using ok step_complete(3) assms(3) q(3) by (cases "sid = turn_session q") auto
  qed
next
  case (step_terminate outcome k expected at r)
  show ?thesis
  proof (cases "terminable sx d k expected outcome at")
    case True
    then obtain q s where q: "turns_of sx d k = Some q" "closable (Some q) expected at"
      "sessions_of sx d (turn_session q) = Some s" "ss_owner_generation s = expected" "terminal_detail_ok outcome"
      by (auto simp: terminable_def)
    show ?thesis using terminate_ok(1,3) [OF assms(2) q step_terminate(1)] step_terminate(2) assms(3) by simp
  next
    case False
    then have "d' = d" using terminate_err [OF assms(2) False] step_terminate(2) by auto
    then show ?thesis using assms(3) by simp
  qed
next
  case (step_reconcile reason at rs)
  then have "sessions_of sx d' = sessions_of sx d"
    using reconcile_running_ok [OF assms(2) _ step_reconcile(1), of at] reconcile_running_err [OF assms(2) _ step_reconcile(1), of at]
    by (cases "reconcilable sx d reason at") auto
  then show ?thesis using assms(3) by simp
next
  case step_latest
  then have "d' = d" by (rule latest_same)
  then show ?thesis using assms(3) by simp
qed

section \<open>One history\<close>

text \<open>
  A step is one call of one client, with a clock of its own, successful or not. The premises say that
  the identities were built by their constructors and that the codecs can write what the call stores.
\<close>

definition end_encodable :: "serde \<Rightarrow> database \<Rightarrow> delegation_id \<Rightarrow> delegation_terminal \<Rightarrow> u64 \<Rightarrow> bool" where
  "end_encodable sx d k outcome at \<longleftrightarrow> (\<forall>s. delegations_of sx d k = Some s \<longrightarrow> encodable_end sx (settled outcome at s))"

inductive store_step :: "serde \<Rightarrow> database \<Rightarrow> database \<Rightarrow> bool" for sx where
  foreground: "foreground_step sx d d' \<Longrightarrow> store_step sx d d'"
| create: "delegation_ids spec \<Longrightarrow> delegation_create spec at d = (r, d') \<Longrightarrow> store_step sx d d'"
| create_child: "delegation_ids spec \<Longrightarrow> storable_config sx child \<Longrightarrow>
    create_with_child sx now child spec at d = (r, d') \<Longrightarrow> store_step sx d d'"
| claim: "unpadded (delegation_worker_id_str worker) \<Longrightarrow>
    delegation_claim sx k expected worker at lease d = (r, d') \<Longrightarrow> store_step sx d d'"
| heartbeat: "delegation_heartbeat sx k expected token at lease d = (r, d') \<Longrightarrow> store_step sx d d'"
| cancel: "end_encodable sx d k (DelegationCancelled reason) at \<Longrightarrow>
    delegation_cancel sx k expected reason at d = (r, d') \<Longrightarrow> store_step sx d d'"
| finish: "end_encodable sx d k outcome at \<Longrightarrow>
    delegation_finish sx k expected token outcome at d = (rc, d') \<Longrightarrow> store_step sx d d'"
| finish_child: "end_encodable sx d k (DelegationCompleted summary) at \<Longrightarrow> list_all (storable_message sx) messages \<Longrightarrow>
    complete_child sx now k authority generation messages summary at d = (rc, d') \<Longrightarrow> store_step sx d d'"
| expire: "\<forall>k s. delegations_of sx d k = Some s \<and> lease_expired at s \<longrightarrow> encodable_end sx (abandoned expiry_reason at s) \<Longrightarrow>
    reconcile_expired sx at d = (rs, d') \<Longrightarrow> store_step sx d d'"
| restart: "\<forall>k s. delegations_of sx d k = Some s \<and> delegation_running s \<longrightarrow> encodable_end sx (abandoned (\<lambda>_. reason) at s) \<Longrightarrow>
    reconcile_running sx reason at d = (rs, d') \<Longrightarrow> store_step sx d d'"
| claim_event: "claim_completion sx e claim_id at expires d = (ro, d') \<Longrightarrow> store_step sx d d'"
| acknowledge: "acknowledge_completion e claim_id at d = (rb, d') \<Longrightarrow> store_step sx d d'"
| release: "release_completion e claim_id d = (rb, d') \<Longrightarrow> store_step sx d d'"

definition stores_evolve :: "serde \<Rightarrow> database \<Rightarrow> database \<Rightarrow> bool" where
  "stores_evolve sx d d' \<longleftrightarrow>
     (\<forall>k s. delegations_of sx d k = Some s \<longrightarrow> (\<exists>t. delegations_of sx d' k = Some t \<and> delegation_evolves s t))
     \<and> (\<forall>e r. outbox d e = Some r \<longrightarrow> (\<exists>q. outbox d' e = Some q \<and> row_evolves r q))
     \<and> (\<forall>tid t. turns_of sx d tid = Some t \<longrightarrow> (\<exists>u. turns_of sx d' tid = Some u \<and> turn_evolves t u))
     \<and> (\<forall>sid s. sessions_of sx d sid = Some s \<longrightarrow> (\<exists>u. sessions_of sx d' sid = Some u \<and> snapshot_evolves s u))"

definition store_ok :: "serde \<Rightarrow> database \<Rightarrow> database \<Rightarrow> bool" where
  "store_ok sx d d' \<longleftrightarrow> supervisor_inv sx d' \<and> stores_evolve sx d d'"

lemma turn_evolves_refl [simp]: "turn_evolves t t"
  by (simp add: turn_evolves_def)

lemma store_ok_same: "supervisor_inv sx d \<Longrightarrow> store_ok sx d d"
  by (simp add: store_ok_def stores_evolve_def)

text \<open>The shape of almost every step of the delegation store: one delegation moves.\<close>

lemma store_ok_delegation:
  assumes inv: "supervisor_inv sx d" and d': "children_inv sx d'" "delegations_of sx d' = (delegations_of sx d)(k \<mapsto> t)"
    "keeps_posted d d'" and frame: "db_sessions d' = db_sessions d" "db_messages d' = db_messages d" "db_turns d' = db_turns d"
    and moves: "delegations_of sx d k = Some s" "delegation_evolves s t"
  shows "store_ok sx d d'"
  using supervisor_of_children [OF inv d'(1) frame] d'(2,3) moves
  by (auto simp: store_ok_def stores_evolve_def keeps_posted_def)

lemma store_ok_outbox:
  assumes inv: "supervisor_inv sx d" and row: "outbox d e = Some r" and f: "\<And>r. same_posting (f r) r" "completion_check (f r)"
    "row_evolves r (f r)"
  shows "store_ok sx d (change_completion e f d)"
proof -
  have c: "children_inv sx d" using inv by (simp add: supervisor_inv_def)
  note sup = supervisor_of_children [OF inv change_completion_ok [OF c row f(1,2)]]
  have "delegations_of sx (change_completion e f d) = delegations_of sx d" by (rule delegations_frame) simp
  then show ?thesis
    using sup row f(3) by (auto simp: store_ok_def stores_evolve_def change_completion_outbox [OF f(1)])
qed

lemma store_ok_foreground:
  assumes step: "foreground_step sx d d'" and inv: "supervisor_inv sx d"
  shows "store_ok sx d d'"
proof -
  have s: "stores_inv sx d" and c: "children_inv sx d" using inv by (simp_all add: supervisor_inv_def)
  note keep = foreground_step_keeps [OF step s]
  obtain g where frame: "db_delegations d' = db_delegations d" "\<And>k. has_session d k \<Longrightarrow> has_session d' k"
    and g: "db_completions d' = map g (db_completions d)" "\<And>r. same_posting (g r) r"
      "\<And>r. r \<in> set (db_completions d) \<Longrightarrow> row_evolves r (g r)"
    using foreground_frame_step [OF step s] unfolding foreground_frame_def by blast
  have del: "delegations_of sx d' = delegations_of sx d" by (rule delegations_frame [OF frame(1)])
  have "delegations_inv sx d'" by (rule delegations_frame(3) [OF frame(1)]) (use c frame(2) in \<open>simp_all add: children_inv_def\<close>)
  moreover have "outbox_inv d'" using keep by (simp add: stores_inv_def)
  moreover have "outbox_linked sx d'" by (rule linked_change [OF _ g(2,1) del]) (use c in \<open>simp add: children_inv_def\<close>)
  ultimately have sup: "supervisor_inv sx d'" using keep by (simp add: supervisor_inv_def children_inv_def)
  have "\<exists>q. outbox d' e = Some q \<and> row_evolves r q" if "outbox d e = Some r" for e r
  proof -
    have "cr_event_id (g x) = cr_event_id x" for x using g(2) [of x] by (simp add: same_posting_def)
    then have "row_at cr_event_id (map g rows) k = map_option g (row_at cr_event_id rows k)" for rows k
      by (induction rows) (simp_all add: row_at_def)
    then have "outbox d' e = Some (g r)" using that by (simp add: outbox_def g(1))
    then show ?thesis using g(3) outbox_row [OF that] by blast
  qed
  moreover have "\<exists>u. sessions_of sx d' sid = Some u \<and> snapshot_evolves t u" if "sessions_of sx d sid = Some t" for sid t
    using foreground_sessions [OF step s that] .
  ultimately show ?thesis using sup del keep foreground_step_keeps [OF step s] by (simp add: store_ok_def stores_evolve_def)
qed

lemma store_ok_reconciled:
  assumes inv: "supervisor_inv sx d" and d': "children_inv sx d'"
    "delegations_of sx d' = (\<lambda>k. map_option (\<lambda>s. if Q s then f s else s) (delegations_of sx d k))" "keeps_posted d d'"
    and frame: "db_sessions d' = db_sessions d" "db_messages d' = db_messages d" "db_turns d' = db_turns d"
    and moves: "\<And>k s. delegations_of sx d k = Some s \<Longrightarrow> Q s \<Longrightarrow> delegation_evolves s (f s)"
  shows "store_ok sx d d'"
  using supervisor_of_children [OF inv d'(1) frame] d'(2,3) moves
  by (auto simp: store_ok_def stores_evolve_def keeps_posted_def)

lemma fenced_open: "fenced s authority at \<Longrightarrow> \<not> delegation_is_terminal (dn_state s)"
  by (auto elim: fencedE)

lemma store_ok_finish:
  assumes inv: "supervisor_inv sx d" and enc: "end_encodable sx d k outcome at"
    and run: "delegation_finish sx k expected token outcome at d = (r, d')"
  shows "store_ok sx d d'"
proof -
  let ?a = "\<lparr>da_owner_generation = expected, da_fencing_token = token\<rparr>"
  have c: "children_inv sx d" using inv by (simp add: supervisor_inv_def)
  show ?thesis
  proof (cases "\<exists>s. delegations_of sx d k = Some s \<and> finishable s ?a outcome at")
    case True
    then obtain s where s: "delegations_of sx d k = Some s" "finishable s ?a outcome at" by blast
    have e: "encodes (sx_delegation_terminal sx) outcome" "encodes (sx_completion sx) (outcome_completion (settled outcome at s))"
      using enc s(1) by (simp_all add: end_encodable_def encodable_end_def settled_def)
    note ok = finish_ok [OF c s e]
    have "d' = settle_in sx k outcome at s d" using ok(1) run by simp
    then show ?thesis
      using store_ok_delegation [OF inv ok(2,3) settle_in_keeps_posted _ _ _ s(1) finished_evolves [OF s(2)]] by simp
  next
    case False
    then have "d' = d" using finish_err [OF c, of k expected token outcome at] run by auto
    then show ?thesis using store_ok_same [OF inv] by simp
  qed
qed

lemma store_ok_complete_child:
  assumes inv: "supervisor_inv sx d" and enc: "end_encodable sx d k (DelegationCompleted summary) at"
    and ms: "list_all (storable_message sx) messages"
    and run: "complete_child sx now k authority generation messages summary at d = (r, d')"
  shows "store_ok sx d d'"
proof (cases "\<exists>s. delegations_of sx d k = Some s \<and> finishable s authority (DelegationCompleted summary) at
      \<and> appendable (sessions_of sx d (child_session s)) generation messages")
  case True
  let ?o = "DelegationCompleted summary"
  obtain s c where s: "delegations_of sx d k = Some s" "finishable s authority ?o at"
    "sessions_of sx d (child_session s) = Some c" "appendable (Some c) generation messages"
    using True appendable_Some by metis
  have e: "encodes (sx_delegation_terminal sx) ?o" "encodes (sx_completion sx) (outcome_completion (settled ?o at s))"
    using enc s(1) by (simp_all add: end_encodable_def encodable_end_def settled_def)
  have ms': "\<forall>m \<in> set messages. storable_message sx m" using ms by (simp add: list_all_iff)
  note ok = complete_child_ok [OF inv s ms' e, of now]
  let ?d1 = "append_database sx now (child_session s) c messages d"
  have d': "d' = settle_in sx k ?o at s ?d1" using ok(1) run by simp
  have "keeps_posted ?d1 d'" unfolding d' by (rule settle_in_keeps_posted)
  then have "keeps_posted d d'" by (rule keeps_posted_trans [OF keeps_posted_same, rotated]) simp
  moreover have "uint (owner_generation_get (ss_owner_generation c)) < i64_max" using s(4) by (auto simp: appendable_def)
  then have "snapshot_evolves c (extended c messages)" by (rule extended_evolves)
  ultimately show ?thesis
    using ok(2-4,6) s(1,3) finished_evolves [OF s(2)]
    by (auto simp: store_ok_def stores_evolve_def keeps_posted_def d')
next
  case False
  then have "d' = d" using complete_child_err [OF inv, of k authority summary at generation messages now] run by auto
  then show ?thesis using store_ok_same [OF inv] by simp
qed

lemma store_ok_cancel:
  assumes inv: "supervisor_inv sx d" and enc: "end_encodable sx d k (DelegationCancelled reason) at"
    and run: "delegation_cancel sx k expected reason at d = (r, d')"
  shows "store_ok sx d d'"
proof -
  have c: "children_inv sx d" using inv by (simp add: supervisor_inv_def)
  show ?thesis
  proof (cases "\<exists>s t. delegations_of sx d k = Some s \<and> cancel_result expected reason at s = Some t")
    case True
    then obtain s t where s: "delegations_of sx d k = Some s" "cancel_result expected reason at s = Some t" by blast
    have e: "encodes (sx_delegation_terminal sx) (DelegationCancelled reason)"
      "encodes (sx_completion sx) (outcome_completion (settled (DelegationCancelled reason) at s))"
      using enc s(1) by (simp_all add: end_encodable_def encodable_end_def settled_def)
    obtain d2 where ok: "delegation_cancel sx k expected reason at d = (Inr t, d2)" "children_inv sx d2"
      "delegations_of sx d2 = (delegations_of sx d)(k \<mapsto> t)" "db_sessions d2 = db_sessions d" "db_messages d2 = db_messages d"
      "db_turns d2 = db_turns d" "keeps_posted d d2"
      using cancel_ok [OF c s e] by metis
    then have "d' = d2" using run by simp
    then show ?thesis using store_ok_delegation [OF inv ok(2,3,7,4-6) s(1) cancelled_evolves [OF s(2)]] by simp
  next
    case False
    then have "d' = d" using cancel_err [OF c, of k expected reason at] run by fastforce
    then show ?thesis using store_ok_same [OF inv] by simp
  qed
qed

lemma store_ok_lease:
  assumes inv: "supervisor_inv sx d" and s: "delegations_of sx d k = Some s" and t: "\<not> delegation_is_terminal (dn_state s)"
    "\<not> delegation_is_terminal (dn_state t)" "delegation_evolves s t"
    and d': "delegations_inv sx (change_delegation k f d)"
      "delegations_of sx (change_delegation k f d) = (delegations_of sx d)(k \<mapsto> t)"
  shows "store_ok sx d (change_delegation k f d)"
proof -
  have "children_inv sx d" using inv by (simp add: supervisor_inv_def)
  from outbox_linked_step [OF this s t(1) _ d' t(2)] have "children_inv sx (change_delegation k f d)" by simp
  from store_ok_delegation [OF inv this d'(2) keeps_posted_same _ _ _ s t(3)] show ?thesis by simp
qed

lemma store_ok_claim:
  assumes inv: "supervisor_inv sx d" and worker: "unpadded (delegation_worker_id_str worker)"
    and run: "delegation_claim sx k expected worker at lease d = (r, d')"
  shows "store_ok sx d d'"
proof -
  have c: "delegations_inv sx d" using inv by (simp add: supervisor_inv_def children_inv_def)
  show ?thesis
  proof (cases "claimable (delegations_of sx d k) expected at lease")
    case True
    then obtain s where s: "delegations_of sx d k = Some s" "claimable (Some s) expected at lease"
      by (cases "delegations_of sx d k") (simp_all add: claimable_def)
    note ok = claim_ok [OF c s worker]
    have "dn_state s = DelegationPending" using s(2) by (simp add: claimable_def)
    then show ?thesis
      using store_ok_lease [OF inv s(1) _ _ claimed_evolves [OF s(2)] ok(2,3)] ok(1) run by (simp add: claimed_def)
  next
    case False
    then have "d' = d" using claim_err [OF c False, of worker] run by auto
    then show ?thesis using store_ok_same [OF inv] by simp
  qed
qed

lemma store_ok_heartbeat:
  assumes inv: "supervisor_inv sx d" and run: "delegation_heartbeat sx k expected token at lease d = (r, d')"
  shows "store_ok sx d d'"
proof -
  let ?a = "\<lparr>da_owner_generation = expected, da_fencing_token = token\<rparr>"
  have c: "delegations_inv sx d" using inv by (simp add: supervisor_inv_def children_inv_def)
  show ?thesis
  proof (cases "extendable (delegations_of sx d k) ?a at lease")
    case True
    then obtain s where s: "delegations_of sx d k = Some s" "extendable (Some s) ?a at lease"
      by (cases "delegations_of sx d k") (simp_all add: extendable_def)
    note ok = heartbeat_ok [OF c s]
    have "\<not> delegation_is_terminal (dn_state s)" using s(2) fenced_open by (auto simp: extendable_def)
    then show ?thesis
      using store_ok_lease [OF inv s(1) _ _ extended_evolves_lease [OF s(2)] ok(2,3)] ok(1) run by (simp add: extended_lease_def)
  next
    case False
    then have "d' = d" using heartbeat_err [OF c False] run by auto
    then show ?thesis using store_ok_same [OF inv] by simp
  qed
qed

lemma store_ok_create:
  assumes inv: "supervisor_inv sx d" and ids: "delegation_ids spec" and run: "delegation_create spec at d = (r, d')"
  shows "store_ok sx d d'"
proof (cases "creatable_delegation sx d spec at")
  case True
  note ok = create_ok [OF inv ids True]
  have "keeps_posted d (add_delegation spec at d)" by (rule keeps_posted_same) simp
  moreover have "turns_of sx (add_delegation spec at d) = turns_of sx d" by (rule turns_frame) simp
  moreover have "delegations_of sx d (ds_delegation_id spec) = None"
    using True by (simp add: creatable_delegation_def unused_delegation_def)
  moreover have "d' = add_delegation spec at d" using ok(1) run by simp
  ultimately show ?thesis using ok(2-4) by (auto simp: store_ok_def stores_evolve_def keeps_posted_def)
next
  case False
  then have "d' = d" using create_err [OF inv False] run by auto
  then show ?thesis using store_ok_same [OF inv] by simp
qed

lemma store_ok_create_child:
  assumes inv: "supervisor_inv sx d" and ids: "delegation_ids spec" "storable_config sx child"
    and run: "create_with_child sx now child spec at d = (r, d')"
  shows "store_ok sx d d'"
proof (cases "creatable_pair sx d child spec at")
  case True
  obtain d2 where ok: "create_with_child sx now child spec at d = (Inr (new_delegation spec at), d2)" "supervisor_inv sx d2"
    "delegations_of sx d2 = (delegations_of sx d)(ds_delegation_id spec \<mapsto> new_delegation spec at)"
    "sessions_of sx d2 = (sessions_of sx d)(ds_child_session_id spec \<mapsto> new_session child)"
    "outbox d2 = outbox d" "turns_of sx d2 = turns_of sx d"
    by (rule create_with_child_ok [OF inv ids True])
  have "delegations_of sx d (ds_delegation_id spec) = None" "sessions_of sx d (ds_child_session_id spec) = None"
    using True by (auto simp: creatable_pair_def unused_delegation_def creatable_def)
  moreover have "d' = d2" using ok(1) run by simp
  ultimately show ?thesis using ok by (auto simp: store_ok_def stores_evolve_def)
next
  case False
  then have "d' = d" using create_with_child_err [OF inv ids False, of now] run by auto
  then show ?thesis using store_ok_same [OF inv] by simp
qed

lemma claimed_row_evolves: "cr_delivery_state r = ''pending'' \<Longrightarrow> row_evolves r (claimed_completion claim expires r)"
  by (simp add: row_evolves_def) (simp add: claimed_completion_def)

lemma delivered_row_evolves: "cr_delivery_state r = ''pending'' \<Longrightarrow> row_evolves r (delivered at r)"
  by (simp add: row_evolves_def) (simp add: delivered_def)

lemma released_row_evolves: "cr_delivery_state r = ''pending'' \<Longrightarrow> row_evolves r (released r)"
  by (simp add: row_evolves_def) (simp add: released_def)

lemma store_ok_delivery:
  assumes inv: "supervisor_inv sx d"
  shows "claim_completion sx e claim at expires d = (ro, d') \<Longrightarrow> store_ok sx d d'"
    "acknowledge_completion e claim at d = (rb, d') \<Longrightarrow> store_ok sx d d'"
    "release_completion e claim d = (rb, d') \<Longrightarrow> store_ok sx d d'"
proof -
  have c: "children_inv sx d" "outbox_inv d" using inv by (simp_all add: supervisor_inv_def children_inv_def)
  note same = store_ok_same [OF inv] and checked = outbox_check [OF c(2)]
  show "store_ok sx d d'" if "claim_completion sx e claim at expires d = (ro, d')"
  proof -
    have "d' = d \<or> (\<exists>r. outbox d e = Some r \<and> claimable_completion at r \<and> d' = change_completion e (claimed_completion claim expires) d)"
      using arg_cong [OF claim_completion_eq [OF c(1), of e claim at expires], of snd] that by (auto split: if_splits option.splits)
    then show ?thesis
      using same store_ok_outbox [OF inv, of e _ "claimed_completion claim expires"] checked [of e]
      by (auto simp: claimable_completion_def claimed_row_evolves)
  qed
  show "store_ok sx d d'" if "acknowledge_completion e claim at d = (rb, d')"
  proof -
    have "d' = d \<or> (\<exists>r. outbox d e = Some r \<and> claim_held claim r \<and> d' = change_completion e (delivered (uint at)) d)"
      using arg_cong [OF acknowledge_eq [OF c(2), of e claim at], of snd] that by (auto split: if_splits option.splits)
    then show ?thesis
      using same store_ok_outbox [OF inv, of e _ "delivered (uint at)"] checked [of e]
      by (auto simp: claim_held_def delivered_row_evolves delivered_check)
  qed
  show "store_ok sx d d'" if "release_completion e claim d = (rb, d')"
    using that release_eq [OF c(2), of e claim] same store_ok_outbox [OF inv, of e _ released] checked [of e]
    by (auto simp: claim_held_def released_row_evolves split: if_splits option.splits)
qed

lemma store_ok_expire:
  assumes inv: "supervisor_inv sx d"
    and enc: "\<forall>k s. delegations_of sx d k = Some s \<and> lease_expired at s \<longrightarrow> encodable_end sx (abandoned expiry_reason at s)"
    and run: "reconcile_expired sx at d = (r, d')"
  shows "store_ok sx d d'"
proof -
  have c: "children_inv sx d" using inv by (simp add: supervisor_inv_def)
  show ?thesis
  proof (cases "expirable sx d at")
    case True
    obtain cs d2 where ok: "reconcile_expired sx at d = (Inr cs, d2)" "children_inv sx d2"
      "delegations_of sx d2 = (\<lambda>k. map_option (\<lambda>s. if lease_expired at s then abandoned expiry_reason at s else s) (delegations_of sx d k))"
      "db_sessions d2 = db_sessions d" "db_messages d2 = db_messages d" "db_turns d2 = db_turns d" "keeps_posted d d2"
      using expire_ok [OF c True enc] by blast
    have "delegation_evolves s (abandoned expiry_reason at s)" if "delegations_of sx d k = Some s" "lease_expired at s" for k s
      using that True by (auto simp: expirable_def lease_expired_def intro!: abandoned_evolves)
    from store_ok_reconciled [OF inv ok(2,3,7,4-6) this] show ?thesis using ok(1) run by simp
  next
    case False
    then have "d' = d" using expire_err [OF c False] run by auto
    then show ?thesis using store_ok_same [OF inv] by simp
  qed
qed

lemma store_ok_restart:
  assumes inv: "supervisor_inv sx d"
    and enc: "\<forall>k s. delegations_of sx d k = Some s \<and> delegation_running s \<longrightarrow> encodable_end sx (abandoned (\<lambda>_. reason) at s)"
    and run: "reconcile_running sx reason at d = (r, d')"
  shows "store_ok sx d d'"
proof -
  have c: "children_inv sx d" using inv by (simp add: supervisor_inv_def)
  show ?thesis
  proof (cases "restartable sx d reason at")
    case True
    obtain cs d2 where ok: "reconcile_running sx reason at d = (Inr cs, d2)" "children_inv sx d2"
      "delegations_of sx d2 = (\<lambda>k. map_option (\<lambda>s. if delegation_running s then abandoned (\<lambda>_. reason) at s else s) (delegations_of sx d k))"
      "db_sessions d2 = db_sessions d" "db_messages d2 = db_messages d" "db_turns d2 = db_turns d" "keeps_posted d d2"
      using restart_ok [OF c True enc] by blast
    have "delegation_evolves s (abandoned (\<lambda>_. reason) at s)" if "delegations_of sx d k = Some s" "delegation_running s" for k s
      using that True by (auto simp: restartable_def intro!: abandoned_evolves)
    from store_ok_reconciled [OF inv ok(2,3,7,4-6) this] show ?thesis using ok(1) run by simp
  next
    case False
    then have "d' = d" using restart_err [OF c False] run by auto
    then show ?thesis using store_ok_same [OF inv] by simp
  qed
qed

lemma store_step_ok: "store_step sx d d' \<Longrightarrow> supervisor_inv sx d \<Longrightarrow> store_ok sx d d'"
  by (induction rule: store_step.induct)
     (auto intro: store_ok_foreground store_ok_create store_ok_create_child store_ok_claim store_ok_heartbeat store_ok_cancel
        store_ok_finish store_ok_complete_child store_ok_expire store_ok_restart store_ok_delivery)

text \<open>The four kinds of items of the database, each with its own order, in one history.\<close>

lemma turn_evolves_trans: "turn_evolves t u \<Longrightarrow> turn_evolves u v \<Longrightarrow> turn_evolves t v"
  by (auto simp: turn_evolves_def closed_def turn_running_def)

interpretation delegations: durable_history "store_step sx" "delegations_of sx" "supervisor_inv sx" delegation_evolves for sx
  by unfold_locales (use store_step_ok delegation_evolves_trans in \<open>fastforce simp: store_ok_def stores_evolve_def\<close>)+

interpretation deliveries: durable_history "store_step sx" outbox "supervisor_inv sx" row_evolves for sx
  by unfold_locales (use store_step_ok row_evolves_trans in \<open>fastforce simp: store_ok_def stores_evolve_def\<close>)+

interpretation shared_turns: durable_history "store_step sx" "turns_of sx" "supervisor_inv sx" turn_evolves for sx
  by unfold_locales (use store_step_ok turn_evolves_trans in \<open>fastforce simp: store_ok_def stores_evolve_def\<close>)+

interpretation shared_sessions: durable_history "store_step sx" "sessions_of sx" "supervisor_inv sx" snapshot_evolves for sx
  by unfold_locales (use store_step_ok snapshot_evolves_trans in \<open>fastforce simp: store_ok_def stores_evolve_def\<close>)+

end
