(* ===== verification/Delegation_Properties.thy ===== *)
theory Delegation_Properties
  imports Shared_Database
begin

text \<open>
  The properties of the delegation store and of the shared database, with the delegation of the examples:
  a child \<open>c\<close> of the session \<open>p\<close>, created at 1, claimed at 2 with a lease until 9.
\<close>

section \<open>The delegation of the examples\<close>

definition sample_delegated :: database where
  "sample_delegated = snd (create_with_child sample_serde 5 (sample_config ''c'') sample_delegation 1 sample_sessions)"

definition sample_claimed :: database where
  "sample_claimed = snd (delegation_claim sample_serde (DelegationId ''d'') (OwnerGeneration 1) (DelegationWorkerId ''w'') 2 9 sample_delegated)"

definition sample_pending :: delegation_snapshot where
  "sample_pending = new_delegation sample_delegation 1"

definition sample_running :: delegation_snapshot where
  "sample_running = claimed (DelegationWorkerId ''w'') 2 9 sample_pending"

definition sample_authority :: delegation_authority where
  "sample_authority = \<lparr>da_owner_generation = OwnerGeneration 2, da_fencing_token = FencingToken 1\<rparr>"

lemma sample_ids: "delegation_ids sample_delegation" "unpadded ''w''" "unpadded ''stop''" "unpadded ''g''"
  by (simp_all add: delegation_ids_def sample_delegation_def unpadded_plain plain_char_def)

lemma empty_supervisor: "supervisor_inv sx empty_database" "delegations_of sx empty_database = (\<lambda>_. None)"
proof -
  have "db_delegations empty_database = []" "db_completions empty_database = []" by (simp_all add: empty_database_def)
  then show "supervisor_inv sx empty_database" "delegations_of sx empty_database = (\<lambda>_. None)"
    by (auto simp: supervisor_inv_def children_inv_def delegations_inv_def outbox_linked_def empty_stores outbox_inv_def
        delegations_of_def delegation_at_def row_at_def)
qed

lemma sample_supervisor: "supervisor_inv sample_serde sample_sessions" "delegations_of sample_serde sample_sessions = (\<lambda>_. None)"
  "outbox sample_sessions = (\<lambda>_. None)"
proof -
  have st: "storable_config sample_serde (sample_config ''p'')" by (rule sample_config_storable) (simp add: plain_char_def)
  have c: "creatable sample_serde empty_database (sample_config ''p'')"
    by (simp add: creatable_def sample_config_valid empty_sessions)
  obtain row where d: "sample_sessions = empty_database\<lparr>db_sessions := db_sessions empty_database @ [row]\<rparr>"
    using create_in_transaction(1) [OF empty_sessions(1) st c, of 5]
    by (auto simp: sample_sessions_def session_create_def transaction_def)
  have same: "db_delegations sample_sessions = db_delegations empty_database"
    "db_completions sample_sessions = db_completions empty_database" by (simp_all add: d)
  have "children_inv sample_serde empty_database" using empty_supervisor(1) by (simp add: supervisor_inv_def)
  from children_frame [OF same _ this] have "children_inv sample_serde sample_sessions"
    by (simp add: has_session_def empty_database_def)
  then show "supervisor_inv sample_serde sample_sessions" using sample_stores(1) by (simp add: supervisor_inv_def)
  show "delegations_of sample_serde sample_sessions = (\<lambda>_. None)" using delegations_frame(1) [OF same(1)] empty_supervisor(2) by simp
  show "outbox sample_sessions = (\<lambda>_. None)" using same(2) empty_stores(3) by (simp add: outbox_def fun_eq_iff)
qed

lemma sample_child_storable: "storable_config sample_serde (sample_config ''c'')"
  by (rule sample_config_storable) (simp add: plain_char_def)

lemma sample_pair: "creatable_pair sample_serde sample_sessions (sample_config ''c'') sample_delegation 1"
  by (simp add: creatable_pair_def creatable_def sample_config_valid valid_delegation_def unused_delegation_def sample_supervisor
      sample_sessions sample_delegation_def i64_max_def sample_ids) (simp add: sample_config_def)

lemma sample_delegated: "supervisor_inv sample_serde sample_delegated"
  "delegations_of sample_serde sample_delegated = [DelegationId ''d'' \<mapsto> sample_pending]"
  "sessions_of sample_serde sample_delegated (SessionId ''c'') = Some (new_session (sample_config ''c''))"
  "outbox sample_delegated = (\<lambda>_. None)"
proof -
  obtain d' where d': "create_with_child sample_serde 5 (sample_config ''c'') sample_delegation 1 sample_sessions
      = (Inr (new_delegation sample_delegation 1), d')" "supervisor_inv sample_serde d'"
    "delegations_of sample_serde d'
      = (delegations_of sample_serde sample_sessions)(ds_delegation_id sample_delegation \<mapsto> new_delegation sample_delegation 1)"
    "sessions_of sample_serde d'
      = (sessions_of sample_serde sample_sessions)(ds_child_session_id sample_delegation \<mapsto> new_session (sample_config ''c''))"
    "outbox d' = outbox sample_sessions"
    by (rule create_with_child_ok [OF sample_supervisor(1) sample_ids(1) sample_child_storable sample_pair])
  then show "supervisor_inv sample_serde sample_delegated"
    "delegations_of sample_serde sample_delegated = [DelegationId ''d'' \<mapsto> sample_pending]"
    "sessions_of sample_serde sample_delegated (SessionId ''c'') = Some (new_session (sample_config ''c''))"
    "outbox sample_delegated = (\<lambda>_. None)"
    by (simp_all add: sample_delegated_def sample_supervisor sample_pending_def) (simp_all add: sample_delegation_def)
qed

lemma sample_claimable: "claimable (Some sample_pending) (OwnerGeneration 1) 2 9"
  by (simp add: claimable_def sample_pending_def new_delegation_def generation_left_def i64_max_def)

lemma sample_claimed: "supervisor_inv sample_serde sample_claimed"
  "delegations_of sample_serde sample_claimed = [DelegationId ''d'' \<mapsto> sample_running]"
  "sessions_of sample_serde sample_claimed (SessionId ''c'') = Some (new_session (sample_config ''c''))"
  "outbox sample_claimed = (\<lambda>_. None)"
proof -
  have inv: "delegations_inv sample_serde sample_delegated"
    using sample_delegated(1) by (simp add: supervisor_inv_def children_inv_def)
  have found: "delegations_of sample_serde sample_delegated (DelegationId ''d'') = Some sample_pending" by (simp add: sample_delegated)
  have w: "unpadded (delegation_worker_id_str (DelegationWorkerId ''w''))" by (simp add: sample_ids)
  note ok = claim_ok [OF inv found sample_claimable w]
  have d: "sample_claimed = change_delegation (DelegationId ''d'') (claimed_row (uint (owner_generation_get (next_generation sample_pending)))
      (delegation_worker_id_str (DelegationWorkerId ''w'')) 1 (uint (9 :: u64)) (uint (2 :: u64))) sample_delegated"
    by (simp only: sample_claimed_def ok(1) snd_conv)
  have "\<not> delegation_is_terminal (dn_state sample_pending)" "\<not> delegation_is_terminal (dn_state sample_running)"
    by (simp_all add: sample_pending_def new_delegation_def sample_running_def claimed_def)
  from store_ok_lease [OF sample_delegated(1) found this _ ok(2,3) [folded sample_running_def]] claimed_evolves [OF sample_claimable]
  show "supervisor_inv sample_serde sample_claimed" by (simp add: d sample_running_def store_ok_def)
  show "delegations_of sample_serde sample_claimed = [DelegationId ''d'' \<mapsto> sample_running]"
    using ok(3) by (simp only: d sample_running_def sample_delegated(2)) simp
  have "sessions_of sample_serde sample_claimed = sessions_of sample_serde sample_delegated" by (rule sessions_frame) (simp_all add: d)
  then show "sessions_of sample_serde sample_claimed (SessionId ''c'') = Some (new_session (sample_config ''c''))"
    using sample_delegated(3) by simp
  show "outbox sample_claimed = (\<lambda>_. None)" using sample_delegated(4) by (simp add: d outbox_def fun_eq_iff)
qed

lemma sample_running_simps: "dn_state sample_running = DelegationRunning (DelegationWorkerId ''w'') (FencingToken 1) 9 None"
  "dn_owner_generation sample_running = OwnerGeneration 2" "dn_updated_at_ms sample_running = 2" "dn_spec sample_running = sample_delegation"
  by (simp_all add: sample_running_def claimed_def sample_pending_def new_delegation_def next_generation_def)

lemma sample_end: "dn_spec s = sample_delegation \<Longrightarrow> encodable_end sample_serde (settled (DelegationCompleted ''done'') 4 s)"
  "dn_spec s = sample_delegation \<Longrightarrow> encodable_end sample_serde (settled (DelegationCancelled ''stop'') 5 s)"
  "dn_spec s = sample_delegation \<Longrightarrow> encodable_end sample_serde (settled sample_expiry 9 s)"
  by (simp_all add: encodable_end_def settled_def outcome_completion_def encodes_def sample_serde_def sample_codec_def
      sample_completion_def sample_expiry_def)
     (simp_all add: sample_delegation_def)

lemma sample_finishable: "finishable sample_running sample_authority (DelegationCompleted ''done'') 4"
  by (simp add: finishable_def fenced_def sample_running_simps sample_authority_def legal_outcome_def generation_left_def i64_max_def)

lemma sample_child_appendable:
  "appendable (Some (new_session (sample_config ''c''))) (OwnerGeneration 1) sample_messages"
  by (simp add: appendable_def new_session_def sample_messages_def is_user_def is_assistant_def legal_Cons
      in_turn_Cons i64_max_def)

lemma sample_child_session: "child_session sample_running = SessionId ''c''"
  by (simp add: child_session_def sample_running_simps sample_delegation_def)

definition sample_finished :: database where
  "sample_finished = snd (complete_child sample_serde 6 (DelegationId ''d'') sample_authority (OwnerGeneration 1) sample_messages ''done'' 4
     sample_claimed)"

definition sample_outcome :: delegation_snapshot where
  "sample_outcome = settled (DelegationCompleted ''done'') 4 sample_running"

lemma sample_finished: "supervisor_inv sample_serde sample_finished"
  "delegations_of sample_serde sample_finished = [DelegationId ''d'' \<mapsto> sample_outcome]"
  "outbox sample_finished = [CompletionEventId ''e'' \<mapsto> posted_row sample_serde sample_outcome]"
proof -
  have found: "delegations_of sample_serde sample_claimed (DelegationId ''d'') = Some sample_running" by (simp add: sample_claimed)
  have child: "sessions_of sample_serde sample_claimed (child_session sample_running) = Some (new_session (sample_config ''c''))"
    by (simp add: sample_child_session sample_claimed)
  have ms: "\<forall>m \<in> set sample_messages. storable_message sample_serde m"
    using sample_messages_storable by (simp add: list_all_iff)
  have enc: "encodes (sx_delegation_terminal sample_serde) (DelegationCompleted ''done'')"
    "encodes (sx_completion sample_serde) (outcome_completion (settled (DelegationCompleted ''done'') 4 sample_running))"
    using sample_end(1) [OF sample_running_simps(4)] by (simp_all add: encodable_end_def settled_def)
  note ok = complete_child_ok [OF sample_claimed(1) found sample_finishable child sample_child_appendable ms enc, of 6]
  show "supervisor_inv sample_serde sample_finished"
    "delegations_of sample_serde sample_finished = [DelegationId ''d'' \<mapsto> sample_outcome]"
    "outbox sample_finished = [CompletionEventId ''e'' \<mapsto> posted_row sample_serde sample_outcome]"
    using ok(2,3,5) by (simp_all add: sample_finished_def ok(1) sample_claimed sample_outcome_def)
      (simp add: sample_running_simps sample_delegation_def)
qed

section \<open>The completion of a delegation\<close>

lemma filter_unique_key: "distinct (map key rows) \<Longrightarrow> r \<in> set rows \<Longrightarrow> filter (\<lambda>q. key q = key r) rows = [r]"
  by (induction rows) (auto simp: filter_empty_conv image_iff)

lemma posted_once:
  assumes inv: "children_inv sx d" and found: "delegations_of sx d k = Some t"
  shows "if delegation_is_terminal (dn_state t)
     then \<exists>r. filter (\<lambda>r. cr_delegation_id r = delegation_id_str k) (db_completions d) = [r]
            \<and> outbox d (ds_completion_event_id (dn_spec t)) = Some r
            \<and> decode_completion sx (cr_payload_json r) = Ok (outcome_completion t)
     else \<forall>r \<in> set (db_completions d). cr_delegation_id r \<noteq> delegation_id_str k"
proof -
  have linked: "outbox_linked sx d" and dist: "distinct (map cr_event_id (db_completions d))"
    using inv by (simp_all add: children_inv_def outbox_inv_def)
  have owner: "completion_links sx k t r" if r: "r \<in> set (db_completions d)" "cr_delegation_id r = delegation_id_str k" for r
  proof -
    obtain j u where "delegations_of sx d j = Some u" "completion_links sx j u r" using linked_row [OF linked r(1)] by blast
    moreover have "j = k" using calculation(2) r(2) by (simp add: completion_links_def delegation_id.expand)
    ultimately show ?thesis using found by simp
  qed
  show ?thesis
  proof (cases "delegation_is_terminal (dn_state t)")
    case True
    obtain r where r: "r \<in> set (db_completions d)" "cr_delegation_id r = delegation_id_str k"
      using linked_terminal [OF linked found True] by auto
    have "distinct (map cr_delegation_id (db_completions d))" using linked by (simp add: outbox_linked_def)
    then have "filter (\<lambda>r. cr_delegation_id r = delegation_id_str k) (db_completions d) = [r]"
      using filter_unique_key [of cr_delegation_id, OF _ r(1)] r(2) by simp
    moreover have "outbox d (ds_completion_event_id (dn_spec t)) = Some r"
      using owner [OF r] r(1) row_at_eq [OF dist] by (simp add: outbox_def completion_links_def)
    moreover have "decode_completion sx (cr_payload_json r) = Ok (outcome_completion t)"
      using owner [OF r] by (simp add: decode_completion_def completion_links_def)
    ultimately show ?thesis using True by auto
  next
    case False
    then show ?thesis using owner by (auto simp: completion_links_def)
  qed
qed

definition sample_taken :: database where
  "sample_taken = change_completion (CompletionEventId ''e'') (claimed_completion (DeliveryClaimId ''g'') 20) sample_finished"

definition sample_delivered :: database where
  "sample_delivered = change_completion (CompletionEventId ''e'') (delivered 8) sample_taken"

lemma sample_take:
  "claim_completion sample_serde (CompletionEventId ''e'') (DeliveryClaimId ''g'') 7 20 sample_finished
     = (Ok (Some (outcome_completion sample_outcome)), sample_taken)"
proof -
  have c: "children_inv sample_serde sample_finished" using sample_finished(1) by (simp add: supervisor_inv_def)
  have row: "outbox sample_finished (CompletionEventId ''e'') = Some (posted_row sample_serde sample_outcome)" by (simp add: sample_finished)
  obtain k s where s: "delegations_of sample_serde sample_finished k = Some s"
    "decode_completion sample_serde (cr_payload_json (posted_row sample_serde sample_outcome)) = Inr (outcome_completion s)"
    by (rule outbox_payload [OF c row])
  then have "s = sample_outcome" by (simp add: sample_finished split: if_splits)
  moreover have "claimable_completion 7 (posted_row sample_serde sample_outcome)"
    by (simp add: claimable_completion_def claim_free_def posted_row_def)
  ultimately show ?thesis
    using claim_completion_eq [OF c, of "CompletionEventId ''e''" "DeliveryClaimId ''g''" 7 20] row s(2)
    by (simp add: valid_claim_def i64_max_def sample_taken_def)
qed

lemma sample_taken: "supervisor_inv sample_serde sample_taken"
  "acknowledge_completion (CompletionEventId ''e'') (DeliveryClaimId ''g'') 8 sample_taken = (Ok True, sample_delivered)"
proof -
  have "store_ok sample_serde sample_finished sample_taken" by (rule store_ok_delivery(1) [OF sample_finished(1) sample_take])
  then show inv: "supervisor_inv sample_serde sample_taken" by (simp add: store_ok_def)
  have "outbox sample_taken (CompletionEventId ''e'') = Some (claimed_completion (DeliveryClaimId ''g'') 20 (posted_row sample_serde sample_outcome))"
    using change_completion_outbox [of "claimed_completion (DeliveryClaimId ''g'') 20" "CompletionEventId ''e''" sample_finished]
    by (simp add: sample_taken_def sample_finished)
  moreover have "outbox_inv sample_taken" using inv by (simp add: supervisor_inv_def children_inv_def)
  ultimately show "acknowledge_completion (CompletionEventId ''e'') (DeliveryClaimId ''g'') 8 sample_taken = (Ok True, sample_delivered)"
    using acknowledge_eq [of sample_taken "CompletionEventId ''e''" "DeliveryClaimId ''g''" 8]
    by (simp add: claim_held_def claimed_completion_def posted_row_def sample_outcome_def settled_def sample_delivered_def i64_max_def)
qed

section \<open>Properties\<close>

text \<open>
  \<open>create_with_child\<close> is atomic: exactly when the specification and the configuration are valid and
  agree, the parent exists, and nobody has used the identity, the completion event or the child session, the
  child's session and the pending delegation both appear; otherwise the database is unchanged.
\<close>

theorem create_with_child_is_atomic:
  assumes "supervisor_inv sx d" "delegation_ids spec" "storable_config sx child"
  shows "case create_with_child sx now child spec at d of (r, d') \<Rightarrow>
     supervisor_inv sx d' \<and> (is_ok r \<longleftrightarrow> creatable_pair sx d child spec at)
     \<and> (if is_ok r then r = Ok (new_delegation spec at)
          \<and> delegations_of sx d' = (delegations_of sx d)(ds_delegation_id spec \<mapsto> new_delegation spec at)
          \<and> sessions_of sx d' = (sessions_of sx d)(ds_child_session_id spec \<mapsto> new_session child)
        else d' = d)"
proof (cases "creatable_pair sx d child spec at")
  case True
  show ?thesis by (rule create_with_child_ok [OF assms True, of now]) (use True in simp)
next
  case False
  then show ?thesis using create_with_child_err [OF assms False, of now] assms(1) by auto
qed

theorem create_with_child_is_atomic_witness:
  "case create_with_child sample_serde 5 (sample_config ''c'') sample_delegation 1 sample_sessions of (r, d') \<Rightarrow>
     r = Ok sample_pending \<and> delegations_of sample_serde d' (DelegationId ''d'') = Some sample_pending"
  using create_with_child_is_atomic [OF sample_supervisor(1) sample_ids(1) sample_child_storable, where at = 1 and now = 5] sample_pair
  by (auto simp: sample_pending_def sample_delegation_def split: prod.splits)

text \<open>
  \<open>claim\<close> hands a pending delegation to one worker: it succeeds exactly for a pending delegation at the
  expected generation with a deadline in the future; then the delegation runs for that worker under fencing
  token 1 and the next generation, and no claim whatever can succeed on it any more; otherwise the database
  is unchanged.
\<close>

theorem claim_hands_delegation_to_one_worker:
  assumes "supervisor_inv sx d" "unpadded (delegation_worker_id_str worker)"
  shows "case delegation_claim sx k expected worker now lease d of (r, d') \<Rightarrow>
     supervisor_inv sx d' \<and> (is_ok r \<longleftrightarrow> claimable (delegations_of sx d k) expected now lease)
     \<and> (if is_ok r then
          delegations_of sx d' = (delegations_of sx d)(k \<mapsto> claimed worker now lease (the (delegations_of sx d k)))
          \<and> \<not> is_ok (fst (delegation_claim sx k expected' worker' now' lease' d'))
        else d' = d)"
proof -
  obtain r d' where run: "delegation_claim sx k expected worker now lease d = (r, d')" by (rule prod.exhaust)
  have keep: "supervisor_inv sx d'" using store_ok_claim [OF assms run] by (simp add: store_ok_def)
  then have inv': "delegations_inv sx d'" by (simp add: supervisor_inv_def children_inv_def)
  have inv: "delegations_inv sx d" using assms(1) by (simp add: supervisor_inv_def children_inv_def)
  show ?thesis
  proof (cases "claimable (delegations_of sx d k) expected now lease")
    case True
    then obtain s where s: "delegations_of sx d k = Some s" "claimable (Some s) expected now lease"
      by (cases "delegations_of sx d k") (simp_all add: claimable_def)
    note ok = claim_ok [OF inv s assms(2), unfolded run]
    have "\<not> claimable (delegations_of sx d' k) expected' now' lease'" using ok by (simp add: claimable_def claimed_def)
    from claim_err [OF inv' this, of worker'] have "\<not> is_ok (fst (delegation_claim sx k expected' worker' now' lease' d'))" by auto
    then show ?thesis using run keep ok s True by simp
  next
    case False
    then show ?thesis using claim_err [OF inv False, of worker] run keep by auto
  qed
qed

theorem claim_hands_delegation_to_one_worker_witness:
  "case delegation_claim sample_serde (DelegationId ''d'') (OwnerGeneration 1) (DelegationWorkerId ''w'') 2 9 sample_delegated of
     (r, d') \<Rightarrow> is_ok r \<and> delegations_of sample_serde d' (DelegationId ''d'') = Some sample_running
       \<and> \<not> is_ok (fst (delegation_claim sample_serde (DelegationId ''d'') (OwnerGeneration 2) (DelegationWorkerId ''v'') 10 20 d'))"
  using claim_hands_delegation_to_one_worker [OF sample_delegated(1), where k = "DelegationId ''d''" and worker = "DelegationWorkerId ''w''"
      and expected = "OwnerGeneration 1" and now = 2 and lease = 9 and expected' = "OwnerGeneration 2" and now' = 10 and lease' = 20
      and worker' = "DelegationWorkerId ''v''"]
    sample_claimable
  by (auto simp: sample_delegated sample_ids sample_running_def split: prod.splits)

text \<open>
  C17. Only the current authority writes: a heartbeat or a terminal succeeds exactly when its generation and
  fencing token are the current ones, the lease has not run out, time does not go back, and the lease grows
  or the terminal is legal. A terminal closes the delegation and posts its completion together; a refused
  write changes nothing.
\<close>

theorem only_current_authority_writes:
  assumes "supervisor_inv sx d" "end_encodable sx d k outcome at"
  shows "(case delegation_heartbeat sx k expected token now lease d of (r, d') \<Rightarrow>
       supervisor_inv sx d'
       \<and> (is_ok r \<longleftrightarrow> extendable (delegations_of sx d k) \<lparr>da_owner_generation = expected, da_fencing_token = token\<rparr> now lease)
       \<and> (if is_ok r then delegations_of sx d' = (delegations_of sx d)(k \<mapsto> extended_lease now lease (the (delegations_of sx d k)))
          else d' = d))
     \<and> (case delegation_finish sx k expected token outcome at d of (r, d') \<Rightarrow>
       supervisor_inv sx d'
       \<and> (is_ok r \<longleftrightarrow> (\<exists>s. delegations_of sx d k = Some s
            \<and> finishable s \<lparr>da_owner_generation = expected, da_fencing_token = token\<rparr> outcome at))
       \<and> (if is_ok r then
            let s' = settled outcome at (the (delegations_of sx d k)) in
            r = Ok (outcome_completion s') \<and> delegations_of sx d' = (delegations_of sx d)(k \<mapsto> s')
            \<and> outbox d' = (outbox d)(ds_completion_event_id (dn_spec s') \<mapsto> posted_row sx s')
          else d' = d))"
proof
  let ?a = "\<lparr>da_owner_generation = expected, da_fencing_token = token\<rparr>"
  have c: "children_inv sx d" "delegations_inv sx d" using assms(1) by (simp_all add: supervisor_inv_def children_inv_def)
  obtain r d' where run: "delegation_heartbeat sx k expected token now lease d = (r, d')" by (rule prod.exhaust)
  have keep: "supervisor_inv sx d'" using store_ok_heartbeat [OF assms(1) run] by (simp add: store_ok_def)
  have "(is_ok r \<longleftrightarrow> extendable (delegations_of sx d k) ?a now lease)
       \<and> (if is_ok r then delegations_of sx d' = (delegations_of sx d)(k \<mapsto> extended_lease now lease (the (delegations_of sx d k)))
          else d' = d)"
  proof (cases "extendable (delegations_of sx d k) ?a now lease")
    case True
    then obtain s where s: "delegations_of sx d k = Some s" "extendable (Some s) ?a now lease"
      by (cases "delegations_of sx d k") (simp_all add: extendable_def)
    show ?thesis using heartbeat_ok [OF c(2) s, unfolded run] s True by simp
  next
    case False
    then show ?thesis using heartbeat_err [OF c(2) False] run by auto
  qed
  then show "case delegation_heartbeat sx k expected token now lease d of (r, d') \<Rightarrow>
       supervisor_inv sx d' \<and> (is_ok r \<longleftrightarrow> extendable (delegations_of sx d k) ?a now lease)
       \<and> (if is_ok r then delegations_of sx d' = (delegations_of sx d)(k \<mapsto> extended_lease now lease (the (delegations_of sx d k)))
          else d' = d)"
    using run keep by simp
  obtain rf df where fin: "delegation_finish sx k expected token outcome at d = (rf, df)" by (rule prod.exhaust)
  have keepf: "supervisor_inv sx df" using store_ok_finish [OF assms fin] by (simp add: store_ok_def)
  show "case delegation_finish sx k expected token outcome at d of (r, d') \<Rightarrow>
       supervisor_inv sx d'
       \<and> (is_ok r \<longleftrightarrow> (\<exists>s. delegations_of sx d k = Some s \<and> finishable s ?a outcome at))
       \<and> (if is_ok r then
            let s' = settled outcome at (the (delegations_of sx d k)) in
            r = Ok (outcome_completion s') \<and> delegations_of sx d' = (delegations_of sx d)(k \<mapsto> s')
            \<and> outbox d' = (outbox d)(ds_completion_event_id (dn_spec s') \<mapsto> posted_row sx s')
          else d' = d)"
  proof (cases "\<exists>s. delegations_of sx d k = Some s \<and> finishable s ?a outcome at")
    case True
    then obtain s where s: "delegations_of sx d k = Some s" "finishable s ?a outcome at" by blast
    have e: "encodes (sx_delegation_terminal sx) outcome" "encodes (sx_completion sx) (outcome_completion (settled outcome at s))"
      using assms(2) s(1) by (simp_all add: end_encodable_def encodable_end_def settled_def)
    have "dn_spec (settled outcome at s) = dn_spec s" by (simp add: settled_def)
    then show ?thesis using finish_ok [OF c(1) s e] s keepf fin by (simp add: Let_def)
  next
    case False
    then show ?thesis using finish_err [OF c(1), of k expected token outcome at] fin keepf by auto
  qed
qed

theorem only_current_authority_writes_witness:
  "is_ok (fst (delegation_heartbeat sample_serde (DelegationId ''d'') (OwnerGeneration 2) (FencingToken 1) 3 12 sample_claimed))
     \<and> \<not> is_ok (fst (delegation_heartbeat sample_serde (DelegationId ''d'') (OwnerGeneration 2) (FencingToken 1) 9 12 sample_claimed))
     \<and> is_ok (fst (delegation_finish sample_serde (DelegationId ''d'') (OwnerGeneration 2) (FencingToken 1) (DelegationCompleted ''done'') 4
          sample_claimed))"
proof -
  have enc: "end_encodable sample_serde sample_claimed (DelegationId ''d'') (DelegationCompleted ''done'') 4"
    using sample_end(1) [OF sample_running_simps(4)] by (simp add: end_encodable_def sample_claimed)
  note writes = only_current_authority_writes [OF sample_claimed(1) enc, where expected = "OwnerGeneration 2" and token = "FencingToken 1"]
  have "extendable (Some sample_running) \<lparr>da_owner_generation = OwnerGeneration 2, da_fencing_token = FencingToken 1\<rparr> 3 12"
    "\<not> extendable (Some sample_running) \<lparr>da_owner_generation = OwnerGeneration 2, da_fencing_token = FencingToken 1\<rparr> 9 12"
    by (simp_all add: extendable_def fenced_def sample_running_simps generation_left_def i64_max_def)
  then show ?thesis
    using writes [where now = 3 and lease = 12] writes [where now = 9 and lease = 12] sample_finishable
    by (auto simp: sample_claimed sample_authority_def split: prod.splits)
qed

text \<open>
  C16. \<open>complete_child\<close> joins three stores in one step: exactly when the caller holds the current
  authority and the reply can be appended to the child session at the expected generation, the child session
  grows by the messages, the delegation is completed and its completion is posted; otherwise none of the
  three happens.
\<close>

theorem complete_child_is_atomic:
  assumes "supervisor_inv sx d" "list_all (storable_message sx) messages"
    "end_encodable sx d k (DelegationCompleted summary) at"
  shows "case complete_child sx now k authority generation messages summary at d of (r, d') \<Rightarrow>
     supervisor_inv sx d'
     \<and> (is_ok r \<longleftrightarrow> (\<exists>s. delegations_of sx d k = Some s \<and> finishable s authority (DelegationCompleted summary) at
          \<and> appendable (sessions_of sx d (child_session s)) generation messages))
     \<and> (if is_ok r then
          let s = the (delegations_of sx d k); s' = settled (DelegationCompleted summary) at s in
          delegations_of sx d' = (delegations_of sx d)(k \<mapsto> s')
          \<and> sessions_of sx d' = (sessions_of sx d)(child_session s \<mapsto> extended (the (sessions_of sx d (child_session s))) messages)
          \<and> outbox d' = (outbox d)(ds_completion_event_id (dn_spec s) \<mapsto> posted_row sx s')
        else d' = d)"
proof -
  obtain r d' where run: "complete_child sx now k authority generation messages summary at d = (r, d')" by (rule prod.exhaust)
  have keep: "supervisor_inv sx d'" using store_ok_complete_child [OF assms(1,3,2) run] by (simp add: store_ok_def)
  show ?thesis
  proof (cases "\<exists>s. delegations_of sx d k = Some s \<and> finishable s authority (DelegationCompleted summary) at
      \<and> appendable (sessions_of sx d (child_session s)) generation messages")
    case True
    then obtain s c where s: "delegations_of sx d k = Some s" "finishable s authority (DelegationCompleted summary) at"
      "sessions_of sx d (child_session s) = Some c" "appendable (Some c) generation messages"
      using appendable_Some by metis
    have e: "encodes (sx_delegation_terminal sx) (DelegationCompleted summary)"
      "encodes (sx_completion sx) (outcome_completion (settled (DelegationCompleted summary) at s))"
      using assms(3) s(1) by (simp_all add: end_encodable_def encodable_end_def settled_def)
    have ms: "\<forall>m \<in> set messages. storable_message sx m" using assms(2) by (simp add: list_all_iff)
    note ok = complete_child_ok [OF assms(1) s ms e, of now]
    show ?thesis using ok(1,3-5) run keep s by (simp add: Let_def)
  next
    case False
    then show ?thesis using complete_child_err [OF assms(1), of k authority summary at generation messages now] run keep by auto
  qed
qed

theorem complete_child_is_atomic_witness:
  "case complete_child sample_serde 6 (DelegationId ''d'') sample_authority (OwnerGeneration 1) sample_messages ''done'' 4 sample_claimed of
     (r, d') \<Rightarrow> is_ok r \<and> delegations_of sample_serde d' (DelegationId ''d'') = Some sample_outcome
       \<and> outbox d' (CompletionEventId ''e'') = Some (posted_row sample_serde sample_outcome)"
proof -
  have enc: "end_encodable sample_serde sample_claimed (DelegationId ''d'') (DelegationCompleted ''done'') 4"
    using sample_end(1) [OF sample_running_simps(4)] by (simp add: end_encodable_def sample_claimed)
  have "appendable (sessions_of sample_serde sample_claimed (child_session sample_running)) (OwnerGeneration 1) sample_messages"
    using sample_child_appendable by (simp add: sample_child_session sample_claimed)
  then show ?thesis
    using complete_child_is_atomic [OF sample_claimed(1) sample_messages_storable enc, where now = 6 and authority = sample_authority
        and generation = "OwnerGeneration 1"] sample_finishable
    by (auto simp: sample_claimed sample_outcome_def Let_def sample_running_simps sample_delegation_def split: prod.splits)
qed

text \<open>
  \<open>cancel\<close> refines a small transition: at the expected generation a pending delegation ends as
  cancelled with its completion posted at once, a running one only keeps the request for its worker (and
  keeps its generation, so the worker can still answer), the same request again changes nothing, and
  everything else is refused without an effect.
\<close>

theorem cancel_refines:
  assumes "supervisor_inv sx d" "end_encodable sx d k (DelegationCancelled reason) at"
  shows "case delegation_cancel sx k expected reason at d of (r, d') \<Rightarrow>
     supervisor_inv sx d'
     \<and> (case Option.bind (delegations_of sx d k) (cancel_result expected reason at) of
          None \<Rightarrow> \<not> is_ok r \<and> d' = d
        | Some t \<Rightarrow> r = Ok t \<and> delegations_of sx d' = (delegations_of sx d)(k \<mapsto> t)
            \<and> outbox d' = (if dn_state (the (delegations_of sx d k)) = DelegationPending
                then (outbox d)(ds_completion_event_id (dn_spec t) \<mapsto> posted_row sx t) else outbox d)
            \<and> (delegation_running t \<longrightarrow> dn_owner_generation t = expected))"
proof -
  obtain r d' where run: "delegation_cancel sx k expected reason at d = (r, d')" by (rule prod.exhaust)
  have keep: "supervisor_inv sx d'" using store_ok_cancel [OF assms run] by (simp add: store_ok_def)
  have c: "children_inv sx d" using assms(1) by (simp add: supervisor_inv_def)
  show ?thesis
  proof (cases "Option.bind (delegations_of sx d k) (cancel_result expected reason at)")
    case None
    then have "\<exists>e. delegation_cancel sx k expected reason at d = (Inl e, d)" by (intro cancel_err [OF c]) (simp add: bind_eq_None_conv)
    then show ?thesis using None run keep by auto
  next
    case (Some t)
    then obtain s where s: "delegations_of sx d k = Some s" "cancel_result expected reason at s = Some t"
      by (auto simp: bind_eq_Some_conv)
    have e: "encodes (sx_delegation_terminal sx) (DelegationCancelled reason)"
      "encodes (sx_completion sx) (outcome_completion (settled (DelegationCancelled reason) at s))"
      using assms(2) s(1) by (simp_all add: end_encodable_def encodable_end_def settled_def)
    have spec: "dn_spec t = dn_spec s" using cancelled_evolves [OF s(2)] by (simp add: delegation_evolves_def)
    have "delegation_running t \<longrightarrow> dn_owner_generation t = expected"
      using s(2) by (auto simp: cancel_result_def delegation_running_def settled_def split: if_splits delegation_state.splits option.splits)
    moreover obtain d2 where ok: "delegation_cancel sx k expected reason at d = (Inr t, d2)"
      "delegations_of sx d2 = (delegations_of sx d)(k \<mapsto> t)"
      "outbox d2 = (if dn_state s = DelegationPending
         then (outbox d)(ds_completion_event_id (dn_spec s) \<mapsto> posted_row sx t) else outbox d)"
      by (rule cancel_ok [OF c s e])
    ultimately show ?thesis using Some s(1) run keep spec by simp
  qed
qed

theorem cancel_refines_witness:
  "case delegation_cancel sample_serde (DelegationId ''d'') (OwnerGeneration 1) ''stop'' 5 sample_delegated of (r, d') \<Rightarrow>
     r = Ok (settled (DelegationCancelled ''stop'') 5 sample_pending)
     \<and> outbox d' (CompletionEventId ''e'') = Some (posted_row sample_serde (settled (DelegationCancelled ''stop'') 5 sample_pending))"
proof -
  have "dn_spec sample_pending = sample_delegation" by (simp add: sample_pending_def new_delegation_def)
  from sample_end(2) [OF this]
  have enc: "end_encodable sample_serde sample_delegated (DelegationId ''d'') (DelegationCancelled ''stop'') 5"
    by (simp add: end_encodable_def sample_delegated)
  have "cancel_result (OwnerGeneration 1) ''stop'' 5 sample_pending = Some (settled (DelegationCancelled ''stop'') 5 sample_pending)"
    by (simp add: cancel_result_def sample_ids) (simp add: sample_pending_def new_delegation_def generation_left_def i64_max_def)
  moreover have "dn_state sample_pending = DelegationPending" "dn_spec (settled (DelegationCancelled ''stop'') 5 sample_pending) = sample_delegation"
    by (simp_all add: sample_pending_def new_delegation_def settled_def)
  moreover have "ds_completion_event_id sample_delegation = CompletionEventId ''e''" by (simp add: sample_delegation_def)
  ultimately show ?thesis
    using cancel_refines [OF sample_delegated(1) enc, where expected = "OwnerGeneration 1"]
    by (simp add: sample_delegated split_beta)
qed

text \<open>
  Recovery ends what a lost worker left behind: when no clock ran backwards, \<open>reconcile_expired\<close>
  succeeds, afterwards no running delegation has an expired lease, each that had one is terminal (cancelled
  if that was asked for, of unknown outcome otherwise) and is among the completions returned, and every
  other delegation is as it was.
\<close>

theorem reconcile_expired_leaves_no_expired_lease:
  assumes "supervisor_inv sx d"
    "\<forall>k s. delegations_of sx d k = Some s \<and> lease_expired at s \<longrightarrow> encodable_end sx (abandoned expiry_reason at s)"
  shows "case reconcile_expired sx at d of (r, d') \<Rightarrow>
     supervisor_inv sx d' \<and> (is_ok r \<longleftrightarrow> expirable sx d at)
     \<and> (case r of
          Inl _ \<Rightarrow> d' = d
        | Inr cs \<Rightarrow>
            (\<forall>k s. delegations_of sx d' k = Some s \<longrightarrow> \<not> lease_expired at s)
            \<and> (\<forall>k s. delegations_of sx d k = Some s \<longrightarrow>
                 (if lease_expired at s
                  then delegations_of sx d' k = Some (abandoned expiry_reason at s)
                    \<and> outcome_completion (abandoned expiry_reason at s) \<in> set cs
                  else delegations_of sx d' k = Some s)))"
proof -
  obtain r d' where run: "reconcile_expired sx at d = (r, d')" by (rule prod.exhaust)
  have keep: "supervisor_inv sx d'" using store_ok_expire [OF assms run] by (simp add: store_ok_def)
  have c: "children_inv sx d" using assms(1) by (simp add: supervisor_inv_def)
  show ?thesis
  proof (cases "expirable sx d at")
    case True
    obtain cs d2 where ok: "reconcile_expired sx at d = (Inr cs, d2)"
      "delegations_of sx d2 = (\<lambda>k. map_option (\<lambda>s. if lease_expired at s then abandoned expiry_reason at s else s) (delegations_of sx d k))"
      "set cs = {outcome_completion (abandoned expiry_reason at s) | k s. delegations_of sx d k = Some s \<and> lease_expired at s}"
      using expire_ok [OF c True assms(2)] by blast
    have ended: "\<not> lease_expired at (abandoned expiry_reason at s)" for s
      by (simp add: lease_expired_def delegation_running_def abandoned_def settled_def)
    show ?thesis using ok run keep True ended by auto
  next
    case False
    then show ?thesis using expire_err [OF c False] run keep by auto
  qed
qed

theorem reconcile_expired_leaves_no_expired_lease_witness:
  "case reconcile_expired sample_serde 9 sample_claimed of (r, d') \<Rightarrow>
     is_ok r \<and> delegations_of sample_serde d' (DelegationId ''d'') = Some (settled sample_expiry 9 sample_running)"
proof -
  have expired: "lease_expired 9 sample_running"
    by (simp add: lease_expired_def delegation_running_def sample_running_simps)
  have "show_int 9 = ''9''" by code_simp
  then have end': "abandoned expiry_reason 9 sample_running = settled sample_expiry 9 sample_running"
    by (simp add: abandoned_def abandoned_outcome_def sample_running_simps expiry_reason_def sample_expiry_def)
  have "\<forall>k s. delegations_of sample_serde sample_claimed k = Some s \<and> lease_expired 9 s
      \<longrightarrow> encodable_end sample_serde (abandoned expiry_reason 9 s)"
    using sample_end(3) [OF sample_running_simps(4)] end' by (auto simp: sample_claimed split: if_splits)
  note reconciled = reconcile_expired_leaves_no_expired_lease [OF sample_claimed(1) this]
  have "expirable sample_serde sample_claimed 9"
    by (auto simp: expirable_def sample_claimed abandonable_def sample_running_simps generation_left_def i64_max_def split: if_splits)
  then show ?thesis
    using reconciled expired end' by (auto simp: sample_claimed split: prod.splits sum.splits)
qed

text \<open>
  C15. A delegation ends exactly once: over every history of calls of all stores of the database, a
  delegation keeps its specification, its generation and its clock never go back, a terminal disposition is
  never changed, and a delegation is terminal exactly when exactly one completion is posted for it, whose
  payload reads back as that disposition.
\<close>

theorem delegation_ends_exactly_once:
  assumes "(store_step sx)\<^sup>*\<^sup>* d d'" "supervisor_inv sx d" "delegations_of sx d k = Some s"
  shows "\<exists>t. delegations_of sx d' k = Some t \<and> dn_spec t = dn_spec s
     \<and> owner_generation_get (dn_owner_generation s) \<le> owner_generation_get (dn_owner_generation t)
     \<and> dn_updated_at_ms s \<le> dn_updated_at_ms t
     \<and> (delegation_is_terminal (dn_state s) \<longrightarrow> t = s)
     \<and> (if delegation_is_terminal (dn_state t)
        then \<exists>r. filter (\<lambda>r. cr_delegation_id r = delegation_id_str k) (db_completions d') = [r]
               \<and> outbox d' (ds_completion_event_id (dn_spec s)) = Some r
               \<and> decode_completion sx (cr_payload_json r) = Ok (outcome_completion t)
        else \<forall>r \<in> set (db_completions d'). cr_delegation_id r \<noteq> delegation_id_str k)"
proof -
  obtain t where t: "delegations_of sx d' k = Some t" "delegation_evolves s t"
    using delegations.history_evolves [OF assms] by blast
  have "supervisor_inv sx d'" by (rule delegations.history_invar [OF assms(1,2)])
  then have inv: "children_inv sx d'" by (simp add: supervisor_inv_def)
  have evolved: "dn_spec t = dn_spec s" "owner_generation_get (dn_owner_generation s) \<le> owner_generation_get (dn_owner_generation t)"
    "dn_updated_at_ms s \<le> dn_updated_at_ms t" "delegation_is_terminal (dn_state s) \<longrightarrow> t = s"
    using t(2) by (auto simp: delegation_evolves_def split: delegation_state.splits)
  show ?thesis
    using t(1) evolved posted_once [OF inv t(1)] by auto
qed

theorem delegation_ends_exactly_once_witness:
  "\<exists>r. outbox sample_finished (CompletionEventId ''e'') = Some r
     \<and> decode_completion sample_serde (cr_payload_json r) = Ok (outcome_completion sample_outcome)"
proof -
  have enc: "end_encodable sample_serde sample_claimed (DelegationId ''d'') (DelegationCompleted ''done'') 4"
    using sample_end(1) [OF sample_running_simps(4)] by (simp add: end_encodable_def sample_claimed)
  have "store_step sample_serde sample_claimed sample_finished"
    by (rule store_step.finish_child [OF enc sample_messages_storable, where now = 6 and authority = sample_authority and generation = "OwnerGeneration 1"])
       (unfold sample_finished_def, rule prod.collapse [symmetric])
  then have "(store_step sample_serde)\<^sup>*\<^sup>* sample_claimed sample_finished" by blast
  moreover have "delegation_is_terminal (dn_state sample_outcome)" "ds_completion_event_id (dn_spec sample_running) = CompletionEventId ''e''"
    by (simp_all add: sample_outcome_def settled_def sample_running_simps sample_delegation_def)
  ultimately show ?thesis
    using delegation_ends_exactly_once [OF _ sample_claimed(1), of sample_finished "DelegationId ''d''" sample_running]
    by (auto simp: sample_claimed sample_finished)
qed

text \<open>
  A delivery claim is exclusive: who claims a completion gets what was posted for a terminal delegation;
  until the claim runs out every other claim comes back empty-handed and acknowledgements and releases of
  other consumers have no effect, while the holder can still acknowledge it, which marks it delivered.
\<close>

theorem delivery_claim_is_exclusive:
  assumes "supervisor_inv sx d" "claim_completion sx e claim now expires d = (Ok (Some m), d')"
  shows "(\<exists>k s. delegations_of sx d k = Some s \<and> delegation_is_terminal (dn_state s) \<and> m = outcome_completion s \<and> dm_event_id m = e)
     \<and> (valid_claim now' expires' \<and> now' < expires \<longrightarrow> claim_completion sx e claim' now' expires' d' = (Ok None, d'))
     \<and> (claim' \<noteq> claim \<longrightarrow> snd (acknowledge_completion e claim' at d') = d' \<and> release_completion e claim' d' = (Ok False, d'))
     \<and> (dm_completed_at_ms m \<le> at \<and> uint at \<le> i64_max \<longrightarrow>
          (case acknowledge_completion e claim at d' of (r, d2) \<Rightarrow>
             r = Ok True \<and> outbox d2 e = map_option (delivered (uint at)) (outbox d' e)))"
proof -
  have c: "children_inv sx d" using assms(1) by (simp add: supervisor_inv_def)
  obtain r where r: "outbox d e = Some r" "claimable_completion now r" "valid_claim now expires"
    and d': "d' = change_completion e (claimed_completion claim expires) d"
    and m: "m = projr (decode_completion sx (cr_payload_json r))"
    by (rule claim_taken [OF c assms(2)])
  have "store_ok sx d d'" by (rule store_ok_delivery(1) [OF assms])
  then have c': "children_inv sx d'" "outbox_inv d'" by (simp_all add: store_ok_def supervisor_inv_def children_inv_def)
  have row: "outbox d' e = Some (claimed_completion claim expires r)"
    using change_completion_outbox [of "claimed_completion claim expires" e d] r(1) by (simp add: d')
  obtain k s where s: "delegations_of sx d k = Some s" "completion_links sx k s r" "ds_completion_event_id (dn_spec s) = e"
    "decode_completion sx (cr_payload_json r) = Inr (outcome_completion s)"
    by (rule outbox_payload [OF c r(1)])
  have held: "claim_held c (claimed_completion claim expires r) \<longleftrightarrow> c = claim" for c
    using r(2) by (auto simp: claim_held_def claimed_completion_def claimable_completion_def delivery_claim_id.expand)
  have busy: "\<not> claimable_completion now' (claimed_completion claim expires r)" if "now' < expires"
    using that by (simp add: claimable_completion_def claim_free_def claimed_completion_def word_less_def)
  have posted: "cr_created_at_ms (claimed_completion claim expires r) = uint (dm_completed_at_ms m)"
    using s(2,4) m by (simp add: completion_links_def claimed_completion_def outcome_completion_def)
  have "m = outcome_completion s" "delegation_is_terminal (dn_state s)" "dm_event_id m = e"
    using m s by (simp_all add: completion_links_def outcome_completion_def)
  moreover have "claim_completion sx e claim' now' expires' d' = (Ok None, d')" if "valid_claim now' expires'" "now' < expires"
    by (rule claim_refused(3) [OF c'(1) row busy [OF that(2)] that(1)])
  moreover have "snd (acknowledge_completion e claim' at d') = d'" "release_completion e claim' d' = (Ok False, d')" if "claim' \<noteq> claim"
    using acknowledge_refused(1) [OF c'(2) row] release_eq [OF c'(2), of e claim'] that held row by simp_all
  moreover have "acknowledge_completion e claim at d' = (Ok True, change_completion e (delivered (uint at)) d')"
    if "dm_completed_at_ms m \<le> at" "uint at \<le> i64_max"
    using acknowledge_eq [OF c'(2), of e claim at] that held row posted by (simp add: word_le_def)
  ultimately show ?thesis
    using s(1) change_completion_outbox [OF delivered_posting, where e = e and d = d'] by auto
qed

theorem delivery_claim_is_exclusive_witness:
  "case claim_completion sample_serde (CompletionEventId ''e'') (DeliveryClaimId ''g'') 7 20 sample_finished of (r, d') \<Rightarrow>
     r = Ok (Some (outcome_completion sample_outcome))
     \<and> claim_completion sample_serde (CompletionEventId ''e'') (DeliveryClaimId ''h'') 8 30 d' = (Ok None, d')
     \<and> release_completion (CompletionEventId ''e'') (DeliveryClaimId ''h'') d' = (Ok False, d')"
  using delivery_claim_is_exclusive [OF sample_finished(1) sample_take, where now' = 8 and expires' = 30 and claim' = "DeliveryClaimId ''h''"]
  by (simp add: sample_take valid_claim_def i64_max_def)

text \<open>
  A completion is delivered at most once: after an acknowledgement has succeeded, no history of calls of
  any store makes it available again. Every later claim comes back empty-handed, every later
  acknowledgement or release has no effect, and no foreground turn can start with it.
\<close>

theorem acknowledged_completion_stays_delivered:
  assumes "supervisor_inv sx d" "acknowledge_completion e claim at d = (Ok True, d1)" "(store_step sx)\<^sup>*\<^sup>* d1 d2"
  shows "outbox d2 e = outbox d1 e
     \<and> snd (claim_completion sx e claim' now' expires' d2) = d2 \<and> fst (claim_completion sx e claim' now' expires' d2) \<noteq> Ok (Some m)
     \<and> snd (acknowledge_completion e claim' at' d2) = d2 \<and> fst (acknowledge_completion e claim' at' d2) \<noteq> Ok True
     \<and> release_completion e claim' d2 = (Ok False, d2)
     \<and> (spec_ids spec \<and> e \<in> fst ` set claims \<longrightarrow> \<not> is_ok (fst (start_with_deliveries sx spec prompt expected claims at' d2)))"
proof -
  have c: "outbox_inv d" using assms(1) by (simp add: supervisor_inv_def children_inv_def)
  obtain r where r: "outbox d e = Some r" and d1: "d1 = change_completion e (delivered (uint at)) d"
    by (rule acknowledge_taken [OF c assms(2)])
  have row1: "outbox d1 e = Some (delivered (uint at) r)"
    using change_completion_outbox [OF delivered_posting, where e = e and d = d] r by (simp add: d1)
  have state: "cr_delivery_state (delivered (uint at) r) = ''delivered''" by (simp add: delivered_def)
  have inv1: "supervisor_inv sx d1" using store_ok_delivery(2) [OF assms(1,2)] by (simp add: store_ok_def)
  have inv2: "supervisor_inv sx d2" by (rule deliveries.history_invar [OF assms(3) inv1])
  then have c2: "children_inv sx d2" "outbox_inv d2" "stores_inv sx d2" by (simp_all add: supervisor_inv_def children_inv_def)
  have row2: "outbox d2 e = Some (delivered (uint at) r)"
    by (rule deliveries.history_final [OF assms(3) inv1 row1]) (use state in \<open>simp add: row_evolves_def\<close>)
  have "\<not> claims_owned d2 (fs_session_id spec) (uint at') claims" if "e \<in> fst ` set claims"
    using that row2 state by (force simp: claims_owned_def list_all_iff claim_owned_def)
  then have "\<not> is_ok (fst (start_with_deliveries sx spec prompt expected claims at' d2))" if "spec_ids spec" "e \<in> fst ` set claims"
    using that start_err [OF c2(3), of spec prompt expected at' claims] by fastforce
  moreover have "\<not> claimable_completion now' (delivered (uint at) r)" "\<not> claim_held claim' (delivered (uint at) r)"
    using state by (simp_all add: claimable_completion_def claim_held_def)
  note claim_refused(1,2) [OF c2(1) row2 this(1)] acknowledge_refused [OF c2(2) row2 this(2)]
  moreover have "release_completion e claim' d2 = (Ok False, d2)"
    using release_eq [OF c2(2), of e claim'] row2 state by (simp add: claim_held_def)
  ultimately show ?thesis using row1 row2 by simp
qed


theorem acknowledged_completion_stays_delivered_witness:
  "fst (claim_completion sample_serde (CompletionEventId ''e'') (DeliveryClaimId ''h'') 30 40 sample_delivered)
     \<noteq> Ok (Some (outcome_completion sample_outcome))
     \<and> release_completion (CompletionEventId ''e'') (DeliveryClaimId ''g'') sample_delivered = (Ok False, sample_delivered)"
  using acknowledged_completion_stays_delivered [OF sample_taken rtranclp.rtrancl_refl, where claim' = "DeliveryClaimId ''h''"]
    acknowledged_completion_stays_delivered [OF sample_taken rtranclp.rtrancl_refl, where claim' = "DeliveryClaimId ''g''"]
  by simp

end
