(* ===== verification/Codex_Protocol.thy ===== *)
theory Codex_Protocol
  imports Ports
begin

text \<open>
  \<open>apps/hermesd/src/adapters/codex/protocol.rs\<close>: the records of the app-server protocol with their
  builders, and the JSON that \<open>serde\<close> writes for what Hermes sends (camel-case keys, tags, fields that
  are left out when absent). What \<open>derive(Deserialize)\<close> accepts is generated code: a record of decoders,
  whose \<open>Inl\<close> is the text of the \<open>serde_json\<close> error, is a parameter. \<open>decode_event\<close> is the code's own.
\<close>

section \<open>Identities and handshake\<close>

datatype codex_request_id = RequestIdString string | RequestIdInteger i64

definition jint :: "i64 \<Rightarrow> json" where
  "jint i = JNumber (if 0 \<le> i then PosInt (word_of_int i) else NegInt (word_of_int i))"

fun json_of_request_id :: "codex_request_id \<Rightarrow> json" where
  "json_of_request_id (RequestIdString s) = JString s"
| "json_of_request_id (RequestIdInteger i) = jint i"

record codex_client_info =
  ci_name :: string
  ci_title :: "string option"
  ci_version :: string

record codex_initialize_params =
  ip_client_info :: codex_client_info
  ip_experimental_api :: bool

definition initialize_hermes :: "string \<Rightarrow> codex_initialize_params" where
  "initialize_hermes version =
     \<lparr>ip_client_info = \<lparr>ci_name = ''hermes-rs'', ci_title = Some ''Hermes RS'', ci_version = version\<rparr>,
      ip_experimental_api = False\<rparr>"

definition with_experimental_api :: "bool \<Rightarrow> codex_initialize_params \<Rightarrow> codex_initialize_params" where
  "with_experimental_api enabled params = params\<lparr>ip_experimental_api := enabled\<rparr>"

definition json_of_initialize :: "codex_initialize_params \<Rightarrow> json" where
  "json_of_initialize p = jobject
     [(''clientInfo'', jobject [(''name'', JString (ci_name (ip_client_info p))),
        (''title'', jopt JString (ci_title (ip_client_info p))),
        (''version'', JString (ci_version (ip_client_info p)))]),
      (''capabilities'', jobject [(''experimentalApi'', JBool (ip_experimental_api p))])]"

record codex_initialize_response =
  ir_user_agent :: string
  ir_codex_home :: string
  ir_platform_family :: string
  ir_platform_os :: string

record codex_config_read_params =
  rp_include_layers :: bool
  rp_cwd :: "string option"

definition config_read_for_cwd :: "string \<Rightarrow> codex_config_read_params" where
  "config_read_for_cwd cwd = \<lparr>rp_include_layers = False, rp_cwd = Some cwd\<rparr>"

text \<open>\<open>skip_serializing_if = "std::ops::Not::not"\<close>: a flag is written only when it is set.\<close>

definition jflag :: "string \<Rightarrow> bool \<Rightarrow> (string \<times> json) list" where
  "jflag k b = (if b then [(k, JBool True)] else [])"

definition json_of_config_read :: "codex_config_read_params \<Rightarrow> json" where
  "json_of_config_read p = jobject (jflag ''includeLayers'' (rp_include_layers p) @ jskip ''cwd'' JString (rp_cwd p))"

record codex_config_read_response =
  cf_config :: "(string, json) btree"

definition config_get :: "codex_config_read_response \<Rightarrow> string \<Rightarrow> json option" where
  "config_get response key = btree_get (cf_config response) key"

datatype codex_approval_policy = ApprovalUntrusted | ApprovalOnRequest | ApprovalNever

fun json_of_approval_policy :: "codex_approval_policy \<Rightarrow> json" where
  "json_of_approval_policy ApprovalUntrusted = JString ''untrusted''"
| "json_of_approval_policy ApprovalOnRequest = JString ''on-request''"
| "json_of_approval_policy ApprovalNever = JString ''never''"

datatype codex_sandbox_mode = SandboxReadOnly | SandboxWorkspaceWrite | SandboxDangerFullAccess

fun json_of_sandbox_mode :: "codex_sandbox_mode \<Rightarrow> json" where
  "json_of_sandbox_mode SandboxReadOnly = JString ''read-only''"
| "json_of_sandbox_mode SandboxWorkspaceWrite = JString ''workspace-write''"
| "json_of_sandbox_mode SandboxDangerFullAccess = JString ''danger-full-access''"

section \<open>Dynamic tools\<close>

record codex_function_spec =
  df_name :: string
  df_description :: string
  df_input_schema :: json
  df_defer_loading :: bool

definition function_spec_new :: "string \<Rightarrow> string \<Rightarrow> json \<Rightarrow> codex_function_spec" where
  "function_spec_new name description input_schema =
     \<lparr>df_name = name, df_description = description, df_input_schema = input_schema, df_defer_loading = False\<rparr>"

definition with_deferred_loading :: "bool \<Rightarrow> codex_function_spec \<Rightarrow> codex_function_spec" where
  "with_deferred_loading defer_loading spec = spec\<lparr>df_defer_loading := defer_loading\<rparr>"

datatype codex_tool_spec = ToolFunction codex_function_spec

fun tool_spec_name :: "codex_tool_spec \<Rightarrow> string" where
  "tool_spec_name (ToolFunction f) = df_name f"

fun json_of_tool_spec :: "codex_tool_spec \<Rightarrow> json" where
  "json_of_tool_spec (ToolFunction f) = jobject
     ([(''type'', JString ''function''), (''name'', JString (df_name f)), (''description'', JString (df_description f)),
       (''inputSchema'', df_input_schema f)] @ jflag ''deferLoading'' (df_defer_loading f))"

section \<open>Threads\<close>

record codex_thread_start_params =
  tsp_model :: "string option"
  tsp_cwd :: "string option"
  tsp_approval_policy :: "codex_approval_policy option"
  tsp_sandbox :: "codex_sandbox_mode option"
  tsp_base_instructions :: "string option"
  tsp_developer_instructions :: "string option"
  tsp_config :: "(string, json) btree option"
  tsp_dynamic_tools :: "codex_tool_spec list option"
  tsp_environments :: "json list option"
  tsp_ephemeral :: "bool option"

definition thread_start_new :: codex_thread_start_params where
  "thread_start_new = \<lparr>tsp_model = None, tsp_cwd = None, tsp_approval_policy = None, tsp_sandbox = None,
     tsp_base_instructions = None, tsp_developer_instructions = None, tsp_config = None, tsp_dynamic_tools = None,
     tsp_environments = None, tsp_ephemeral = None\<rparr>"

definition start_with_model :: "string \<Rightarrow> codex_thread_start_params \<Rightarrow> codex_thread_start_params" where
  "start_with_model model p = p\<lparr>tsp_model := Some model\<rparr>"

definition start_with_cwd :: "string \<Rightarrow> codex_thread_start_params \<Rightarrow> codex_thread_start_params" where
  "start_with_cwd cwd p = p\<lparr>tsp_cwd := Some cwd\<rparr>"

definition start_with_approval_policy :: "codex_approval_policy \<Rightarrow> codex_thread_start_params \<Rightarrow> codex_thread_start_params" where
  "start_with_approval_policy policy p = p\<lparr>tsp_approval_policy := Some policy\<rparr>"

definition start_with_sandbox :: "codex_sandbox_mode \<Rightarrow> codex_thread_start_params \<Rightarrow> codex_thread_start_params" where
  "start_with_sandbox sandbox p = p\<lparr>tsp_sandbox := Some sandbox\<rparr>"

definition start_with_base_instructions :: "string \<Rightarrow> codex_thread_start_params \<Rightarrow> codex_thread_start_params" where
  "start_with_base_instructions instructions p = p\<lparr>tsp_base_instructions := Some instructions\<rparr>"

definition start_with_developer_instructions :: "string \<Rightarrow> codex_thread_start_params \<Rightarrow> codex_thread_start_params" where
  "start_with_developer_instructions instructions p = p\<lparr>tsp_developer_instructions := Some instructions\<rparr>"

definition start_with_config :: "(string, json) btree \<Rightarrow> codex_thread_start_params \<Rightarrow> codex_thread_start_params" where
  "start_with_config config p = p\<lparr>tsp_config := Some config\<rparr>"

definition start_with_dynamic_tools :: "codex_tool_spec list \<Rightarrow> codex_thread_start_params \<Rightarrow> codex_thread_start_params" where
  "start_with_dynamic_tools tools p = p\<lparr>tsp_dynamic_tools := Some tools\<rparr>"

definition start_without_environments :: "codex_thread_start_params \<Rightarrow> codex_thread_start_params" where
  "start_without_environments p = p\<lparr>tsp_environments := Some []\<rparr>"

definition start_with_ephemeral :: "bool \<Rightarrow> codex_thread_start_params \<Rightarrow> codex_thread_start_params" where
  "start_with_ephemeral ephemeral p = p\<lparr>tsp_ephemeral := Some ephemeral\<rparr>"

definition json_of_thread_start :: "codex_thread_start_params \<Rightarrow> json" where
  "json_of_thread_start p = jobject
     (jskip ''model'' JString (tsp_model p) @ jskip ''cwd'' JString (tsp_cwd p)
      @ jskip ''approvalPolicy'' json_of_approval_policy (tsp_approval_policy p)
      @ jskip ''sandbox'' json_of_sandbox_mode (tsp_sandbox p)
      @ jskip ''baseInstructions'' JString (tsp_base_instructions p)
      @ jskip ''developerInstructions'' JString (tsp_developer_instructions p)
      @ jskip ''config'' JObject (tsp_config p)
      @ jskip ''dynamicTools'' (JArray \<circ> map json_of_tool_spec) (tsp_dynamic_tools p)
      @ jskip ''environments'' JArray (tsp_environments p) @ jskip ''ephemeral'' JBool (tsp_ephemeral p))"

record codex_thread_resume_params =
  trp_thread_id :: string
  trp_exclude_turns :: bool
  trp_model :: "string option"
  trp_cwd :: "string option"
  trp_approval_policy :: "codex_approval_policy option"
  trp_sandbox :: "codex_sandbox_mode option"

definition thread_resume_new :: "string \<Rightarrow> codex_thread_resume_params" where
  "thread_resume_new thread_id = \<lparr>trp_thread_id = thread_id, trp_exclude_turns = False, trp_model = None, trp_cwd = None,
     trp_approval_policy = None, trp_sandbox = None\<rparr>"

definition resume_without_historical_turns :: "codex_thread_resume_params \<Rightarrow> codex_thread_resume_params" where
  "resume_without_historical_turns p = p\<lparr>trp_exclude_turns := True\<rparr>"

definition resume_with_model :: "string \<Rightarrow> codex_thread_resume_params \<Rightarrow> codex_thread_resume_params" where
  "resume_with_model model p = p\<lparr>trp_model := Some model\<rparr>"

definition resume_with_cwd :: "string \<Rightarrow> codex_thread_resume_params \<Rightarrow> codex_thread_resume_params" where
  "resume_with_cwd cwd p = p\<lparr>trp_cwd := Some cwd\<rparr>"

definition resume_with_approval_policy :: "codex_approval_policy \<Rightarrow> codex_thread_resume_params \<Rightarrow> codex_thread_resume_params" where
  "resume_with_approval_policy policy p = p\<lparr>trp_approval_policy := Some policy\<rparr>"

definition resume_with_sandbox :: "codex_sandbox_mode \<Rightarrow> codex_thread_resume_params \<Rightarrow> codex_thread_resume_params" where
  "resume_with_sandbox sandbox p = p\<lparr>trp_sandbox := Some sandbox\<rparr>"

definition json_of_thread_resume :: "codex_thread_resume_params \<Rightarrow> json" where
  "json_of_thread_resume p = jobject
     ([(''threadId'', JString (trp_thread_id p))] @ jflag ''excludeTurns'' (trp_exclude_turns p)
      @ jskip ''model'' JString (trp_model p) @ jskip ''cwd'' JString (trp_cwd p)
      @ jskip ''approvalPolicy'' json_of_approval_policy (trp_approval_policy p)
      @ jskip ''sandbox'' json_of_sandbox_mode (trp_sandbox p))"

record codex_thread_fork_params =
  tfp_thread_id :: string
  tfp_last_turn_id :: string
  tfp_model :: "string option"
  tfp_model_provider :: "string option"
  tfp_cwd :: "string option"
  tfp_approval_policy :: "codex_approval_policy option"
  tfp_sandbox :: "codex_sandbox_mode option"
  tfp_config :: "(string, json) btree option"
  tfp_developer_instructions :: "string option"
  tfp_ephemeral :: bool
  tfp_exclude_turns :: bool

definition fork_through_turn :: "string \<Rightarrow> string \<Rightarrow> codex_thread_fork_params" where
  "fork_through_turn thread_id last_turn_id =
     \<lparr>tfp_thread_id = thread_id, tfp_last_turn_id = last_turn_id, tfp_model = None, tfp_model_provider = None,
      tfp_cwd = None, tfp_approval_policy = None, tfp_sandbox = None, tfp_config = None,
      tfp_developer_instructions = None, tfp_ephemeral = False, tfp_exclude_turns = True\<rparr>"

definition fork_with_model :: "string \<Rightarrow> codex_thread_fork_params \<Rightarrow> codex_thread_fork_params" where
  "fork_with_model model p = p\<lparr>tfp_model := Some model\<rparr>"

definition fork_with_model_provider :: "string \<Rightarrow> codex_thread_fork_params \<Rightarrow> codex_thread_fork_params" where
  "fork_with_model_provider provider p = p\<lparr>tfp_model_provider := Some provider\<rparr>"

definition fork_with_cwd :: "string \<Rightarrow> codex_thread_fork_params \<Rightarrow> codex_thread_fork_params" where
  "fork_with_cwd cwd p = p\<lparr>tfp_cwd := Some cwd\<rparr>"

definition fork_with_approval_policy :: "codex_approval_policy \<Rightarrow> codex_thread_fork_params \<Rightarrow> codex_thread_fork_params" where
  "fork_with_approval_policy policy p = p\<lparr>tfp_approval_policy := Some policy\<rparr>"

definition fork_with_sandbox :: "codex_sandbox_mode \<Rightarrow> codex_thread_fork_params \<Rightarrow> codex_thread_fork_params" where
  "fork_with_sandbox sandbox p = p\<lparr>tfp_sandbox := Some sandbox\<rparr>"

definition fork_with_config :: "(string, json) btree \<Rightarrow> codex_thread_fork_params \<Rightarrow> codex_thread_fork_params" where
  "fork_with_config config p = p\<lparr>tfp_config := Some config\<rparr>"

definition fork_with_developer_instructions :: "string \<Rightarrow> codex_thread_fork_params \<Rightarrow> codex_thread_fork_params" where
  "fork_with_developer_instructions instructions p = p\<lparr>tfp_developer_instructions := Some instructions\<rparr>"

definition json_of_thread_fork :: "codex_thread_fork_params \<Rightarrow> json" where
  "json_of_thread_fork p = jobject
     ([(''threadId'', JString (tfp_thread_id p)), (''lastTurnId'', JString (tfp_last_turn_id p))]
      @ jskip ''model'' JString (tfp_model p) @ jskip ''modelProvider'' JString (tfp_model_provider p)
      @ jskip ''cwd'' JString (tfp_cwd p)
      @ jskip ''approvalPolicy'' json_of_approval_policy (tfp_approval_policy p)
      @ jskip ''sandbox'' json_of_sandbox_mode (tfp_sandbox p) @ jskip ''config'' JObject (tfp_config p)
      @ jskip ''developerInstructions'' JString (tfp_developer_instructions p)
      @ jflag ''ephemeral'' (tfp_ephemeral p) @ jflag ''excludeTurns'' (tfp_exclude_turns p))"

record codex_thread =
  ct_id :: string

record codex_thread_open_response =
  to_thread :: codex_thread
  to_model :: string
  to_model_provider :: string
  to_cwd :: string
  to_approval_policy :: json
  to_sandbox :: json

section \<open>Turns\<close>

datatype codex_user_input = InputText string

fun json_of_user_input :: "codex_user_input \<Rightarrow> json" where
  "json_of_user_input (InputText text) = jobject [(''type'', JString ''text''), (''text'', JString text)]"

datatype codex_turn_sandbox_policy = TurnReadOnly bool

definition hermes_read_only :: codex_turn_sandbox_policy where
  "hermes_read_only = TurnReadOnly False"

fun json_of_turn_sandbox :: "codex_turn_sandbox_policy \<Rightarrow> json" where
  "json_of_turn_sandbox (TurnReadOnly network_access) =
     jobject [(''type'', JString ''readOnly''), (''networkAccess'', JBool network_access)]"

record codex_turn_start_params =
  tup_thread_id :: string
  tup_input :: "codex_user_input list"
  tup_environments :: "json list option"
  tup_approval_policy :: "codex_approval_policy option"
  tup_sandbox_policy :: "codex_turn_sandbox_policy option"
  tup_model :: "string option"
  tup_effort :: "string option"
  tup_client_user_message_id :: "string option"

definition turn_start_text :: "string \<Rightarrow> string \<Rightarrow> codex_turn_start_params" where
  "turn_start_text thread_id text =
     \<lparr>tup_thread_id = thread_id, tup_input = [InputText text], tup_environments = None, tup_approval_policy = None,
      tup_sandbox_policy = None, tup_model = None, tup_effort = None, tup_client_user_message_id = None\<rparr>"

definition turn_without_environments :: "codex_turn_start_params \<Rightarrow> codex_turn_start_params" where
  "turn_without_environments p = p\<lparr>tup_environments := Some []\<rparr>"

definition turn_with_approval_policy :: "codex_approval_policy \<Rightarrow> codex_turn_start_params \<Rightarrow> codex_turn_start_params" where
  "turn_with_approval_policy policy p = p\<lparr>tup_approval_policy := Some policy\<rparr>"

definition turn_with_sandbox_policy :: "codex_turn_sandbox_policy \<Rightarrow> codex_turn_start_params \<Rightarrow> codex_turn_start_params" where
  "turn_with_sandbox_policy policy p = p\<lparr>tup_sandbox_policy := Some policy\<rparr>"

definition turn_with_model :: "string \<Rightarrow> codex_turn_start_params \<Rightarrow> codex_turn_start_params" where
  "turn_with_model model p = p\<lparr>tup_model := Some model\<rparr>"

definition turn_with_effort :: "string \<Rightarrow> codex_turn_start_params \<Rightarrow> codex_turn_start_params" where
  "turn_with_effort effort p = p\<lparr>tup_effort := Some effort\<rparr>"

definition turn_with_client_user_message_id :: "string \<Rightarrow> codex_turn_start_params \<Rightarrow> codex_turn_start_params" where
  "turn_with_client_user_message_id i p = p\<lparr>tup_client_user_message_id := Some i\<rparr>"

definition json_of_turn_start :: "codex_turn_start_params \<Rightarrow> json" where
  "json_of_turn_start p = jobject
     ([(''threadId'', JString (tup_thread_id p)), (''input'', JArray (map json_of_user_input (tup_input p)))]
      @ jskip ''environments'' JArray (tup_environments p)
      @ jskip ''approvalPolicy'' json_of_approval_policy (tup_approval_policy p)
      @ jskip ''sandboxPolicy'' json_of_turn_sandbox (tup_sandbox_policy p)
      @ jskip ''model'' JString (tup_model p) @ jskip ''effort'' JString (tup_effort p)
      @ jskip ''clientUserMessageId'' JString (tup_client_user_message_id p))"

datatype codex_turn_status = TurnStatusCompleted | TurnStatusInterrupted | TurnStatusFailed | TurnStatusInProgress

text \<open>\<open>Debug\<close> of the status.\<close>

fun debug_turn_status :: "codex_turn_status \<Rightarrow> string" where
  "debug_turn_status TurnStatusCompleted = ''Completed''"
| "debug_turn_status TurnStatusInterrupted = ''Interrupted''"
| "debug_turn_status TurnStatusFailed = ''Failed''"
| "debug_turn_status TurnStatusInProgress = ''InProgress''"

record codex_turn =
  cu_id :: string
  cu_status :: codex_turn_status
  cu_items :: "json list"
  cu_error :: "json option"

record codex_turn_interrupt_params =
  ti_thread_id :: string
  ti_turn_id :: string

definition json_of_turn_interrupt :: "codex_turn_interrupt_params \<Rightarrow> json" where
  "json_of_turn_interrupt p =
     jobject [(''threadId'', JString (ti_thread_id p)), (''turnId'', JString (ti_turn_id p))]"

section \<open>Events\<close>

record codex_agent_message_delta =
  md_thread_id :: string
  md_turn_id :: string
  md_item_id :: string
  md_delta :: string

text \<open>\<open>CodexTurnStarted\<close> and \<open>CodexTurnCompleted\<close> have the same fields.\<close>

record codex_turn_started =
  tst_thread_id :: string
  tst_turn :: codex_turn

record codex_turn_completed =
  tcp_thread_id :: string
  tcp_turn :: codex_turn

datatype codex_notification =
    ThreadStarted codex_thread
  | TurnStarted codex_turn_started
  | AgentMessageDelta codex_agent_message_delta
  | TurnCompleted codex_turn_completed
  | OtherNotification string json

record codex_tool_call_params =
  tc_thread_id :: string
  tc_turn_id :: string
  tc_call_id :: string
  tc_namespace :: "string option"
  tc_tool :: string
  tc_call_arguments :: json

datatype codex_output_item = OutputText string

record codex_tool_call_response =
  tr_content_items :: "codex_output_item list"
  tr_success :: bool

definition tool_response_text :: "string \<Rightarrow> bool \<Rightarrow> codex_tool_call_response" where
  "tool_response_text text success = \<lparr>tr_content_items = [OutputText text], tr_success = success\<rparr>"

fun json_of_output_item :: "codex_output_item \<Rightarrow> json" where
  "json_of_output_item (OutputText text) = jobject [(''type'', JString ''inputText''), (''text'', JString text)]"

definition json_of_tool_response :: "codex_tool_call_response \<Rightarrow> json" where
  "json_of_tool_response r = jobject
     [(''contentItems'', JArray (map json_of_output_item (tr_content_items r))), (''success'', JBool (tr_success r))]"

record codex_server_request =
  sq_id :: codex_request_id
  sq_method :: string
  sq_params :: json
  sq_dynamic_tool_call :: "codex_tool_call_params option"

datatype codex_event = EventNotification codex_notification | EventRequest codex_server_request

record codex_rpc_error =
  re_code :: i64
  re_message :: string
  re_data :: json

datatype inbound_message =
    InboundRequest codex_request_id string json
  | InboundNotification string json
  | InboundResponse codex_request_id json
  | InboundError codex_request_id codex_rpc_error

section \<open>Frames written by Hermes\<close>

definition outbound_request :: "codex_request_id \<Rightarrow> string \<Rightarrow> json \<Rightarrow> json" where
  "outbound_request i method params =
     jobject [(''id'', json_of_request_id i), (''method'', JString method), (''params'', params)]"

definition outbound_notification :: "string \<Rightarrow> json" where
  "outbound_notification method = jobject [(''method'', JString method)]"

definition outbound_response :: "codex_request_id \<Rightarrow> json \<Rightarrow> json" where
  "outbound_response i result = jobject [(''id'', json_of_request_id i), (''result'', result)]"

definition outbound_error :: "codex_request_id \<Rightarrow> codex_rpc_error \<Rightarrow> json" where
  "outbound_error i e = jobject
     [(''id'', json_of_request_id i),
      (''error'', jobject [(''code'', jint (re_code e)), (''message'', JString (re_message e)), (''data'', re_data e)])]"

section \<open>Decoding\<close>

record codex_codec =
  xd_text :: "json \<Rightarrow> string"
  xd_parse :: "string \<Rightarrow> string + json"
  xd_inbound :: "json \<Rightarrow> string + inbound_message"
  xd_tool_call :: "json \<Rightarrow> string + codex_tool_call_params"
  xd_thread_payload :: "json \<Rightarrow> string + codex_thread"
  xd_turn_started :: "json \<Rightarrow> string + codex_turn_started"
  xd_delta :: "json \<Rightarrow> string + codex_agent_message_delta"
  xd_turn_completed :: "json \<Rightarrow> string + codex_turn_completed"
  xd_initialize :: "json \<Rightarrow> string + codex_initialize_response"
  xd_config :: "json \<Rightarrow> string + codex_config_read_response"
  xd_thread_open :: "json \<Rightarrow> string + codex_thread_open_response"
  xd_turn_start :: "json \<Rightarrow> string + codex_turn"
  xd_empty :: "json \<Rightarrow> string + unit"
  xd_lossy :: "string \<Rightarrow> string"

definition parameters_of :: "string \<Rightarrow> string + 'a \<Rightarrow> string + 'a" where
  "parameters_of method = map_err (\<lambda>error. method @ '' parameters: '' @ error)"

definition decode_notification :: "codex_codec \<Rightarrow> string \<Rightarrow> json \<Rightarrow> string + codex_notification" where
  "decode_notification xd method params =
     (if method = ''thread/started'' then and_then (parameters_of method (xd_thread_payload xd params)) (\<lambda>x. Ok (ThreadStarted x))
      else if method = ''turn/started'' then and_then (parameters_of method (xd_turn_started xd params)) (\<lambda>x. Ok (TurnStarted x))
      else if method = ''item/agentMessage/delta''
      then and_then (parameters_of method (xd_delta xd params)) (\<lambda>x. Ok (AgentMessageDelta x))
      else if method = ''turn/completed'' then and_then (parameters_of method (xd_turn_completed xd params)) (\<lambda>x. Ok (TurnCompleted x))
      else Ok (OtherNotification method params))"

fun decode_event :: "codex_codec \<Rightarrow> inbound_message \<Rightarrow> string + codex_event" where
  "decode_event xd (InboundRequest i method params) =
     and_then
       (if method = ''item/tool/call''
        then and_then (parameters_of method (xd_tool_call xd params)) (\<lambda>c. Ok (Some c))
        else Ok None)
       (\<lambda>call. Ok (EventRequest \<lparr>sq_id = i, sq_method = method, sq_params = params, sq_dynamic_tool_call = call\<rparr>))"
| "decode_event xd (InboundNotification method params) =
     and_then (decode_notification xd method params) (\<lambda>n. Ok (EventNotification n))"
| "decode_event xd (InboundResponse _ _) = Err ''received a response where an unsolicited event was required''"
| "decode_event xd (InboundError _ _) = Err ''received a response where an unsolicited event was required''"

end
