(* ===== verification/Codex_Server.thy ===== *)
theory Codex_Server
  imports Codex_Protocol
begin

text \<open>
  \<open>apps/hermesd/src/adapters/codex/mod.rs\<close>: one supervised \<open>codex app-server\<close> process and its framed
  stdio. The process itself is external: what its pipes give to successive reads and writes, its exit
  status and whether it stops in time are part of the state, so a run is determined by the state it starts
  in and a statement for all states is a statement about every process. Proved here: a frame is what a
  splitter of the whole byte stream would cut out, however the bytes arrive; requests keep unsolicited
  events in order; reading always ends.
\<close>

section \<open>Errors and state\<close>

definition max_frame_bytes :: nat where "max_frame_bytes = 8388608"
definition stderr_tail_bytes :: nat where "stderr_tail_bytes = 16384"

datatype codex_app_server_error =
    AppSpawn string string
  | AppMissingPipe string
  | AppIo string
  | AppEncode string
  | AppMalformedFrame string
  | AppFrameTooLarge nat
  | AppProtocol string
  | AppRemote string i64 string json
  | AppProcessExited "int option" string
  | AppShutdownTimedOut
  | AppRequestIdExhausted

text \<open>The pipes and the fate of the child: \<open>Inl\<close> is an I/O error, \<open>None\<close> for a write is success.\<close>

record codex_child =
  ch_stdout :: "(string + string) list"
  ch_stderr :: "(string + string) list"
  ch_writes :: "string option list"
  ch_frames :: "json list"
  ch_close :: "string option"
  ch_exit :: "string + int option"
  ch_exits_in_time :: bool
  ch_kill :: "string option"

record codex_server =
  sv_child :: codex_child
  sv_stdin :: bool
  sv_stderr_task :: bool
  sv_next_request_id :: i64
  sv_buffered_events :: "codex_event list"

type_synonym 'a server_action = "(codex_server, codex_app_server_error, 'a) action"

record codex_app_server_command =
  cmd_executable :: string
  cmd_arguments :: "string list"
  cmd_current_dir :: "string option"

definition command_new :: "string \<Rightarrow> codex_app_server_command" where
  "command_new executable = \<lparr>cmd_executable = executable, cmd_arguments = [], cmd_current_dir = None\<rparr>"

definition command_arg :: "string \<Rightarrow> codex_app_server_command \<Rightarrow> codex_app_server_command" where
  "command_arg argument c = c\<lparr>cmd_arguments := cmd_arguments c @ [argument]\<rparr>"

definition command_current_dir :: "string \<Rightarrow> codex_app_server_command \<Rightarrow> codex_app_server_command" where
  "command_current_dir directory c = c\<lparr>cmd_current_dir := Some directory\<rparr>"

text \<open>
  \<open>spawn\<close>: the operating system is a function of the executable, its arguments and the directory. The three
  pipes are requested, so the child has them.
\<close>

type_synonym process_spawner = "string \<Rightarrow> string list \<Rightarrow> string option \<Rightarrow> string + codex_child"

definition server_of_child :: "codex_child \<Rightarrow> codex_server" where
  "server_of_child child = \<lparr>sv_child = child, sv_stdin = True, sv_stderr_task = True, sv_next_request_id = 1,
     sv_buffered_events = []\<rparr>"

definition server_spawn :: "process_spawner \<Rightarrow> codex_app_server_command \<Rightarrow> codex_app_server_error + codex_server" where
  "server_spawn spawner c =
     and_then
       (map_err (AppSpawn (cmd_executable c))
         (spawner (cmd_executable c) ([''app-server'', ''--stdio''] @ cmd_arguments c) (cmd_current_dir c)))
       (\<lambda>child. Ok (server_of_child child))"

section \<open>Reading\<close>

text \<open>
  The loop of \<open>read_bounded_line\<close> over what \<open>fill_buf\<close> gives; bytes after the newline stay in the buffer.
\<close>

fun newline_position :: "string \<Rightarrow> nat option" where
  "newline_position [] = None"
| "newline_position (c # cs) = (if c = CHR 0x0A then Some 0 else map_option Suc (newline_position cs))"

definition put_back :: "string \<Rightarrow> (string + string) list \<Rightarrow> (string + string) list" where
  "put_back bytes chunks = (if bytes = [] then chunks else Inr bytes # chunks)"

fun read_bounded_line ::
  "string \<Rightarrow> (string + string) list \<Rightarrow> (codex_app_server_error + string option) \<times> (string + string) list" where
  "read_bounded_line line [] = (Ok (if line = [] then None else Some line), [])"
| "read_bounded_line line (Inl e # chunks) = (Err (AppIo e), chunks)"
| "read_bounded_line line (Inr available # chunks) =
     (if available = [] then (Ok (if line = [] then None else Some line), chunks)
      else case newline_position available of
        Some n \<Rightarrow>
          if max_frame_bytes < length line + n then (Err (AppFrameTooLarge max_frame_bytes), Inr available # chunks)
          else (Ok (Some (line @ take n available)), put_back (drop (n + 1) available) chunks)
      | None \<Rightarrow>
          if max_frame_bytes < length line + length available
          then (Err (AppFrameTooLarge max_frame_bytes), Inr available # chunks)
          else read_bounded_line (line @ available) chunks)"

fun stderr_tail :: "string \<Rightarrow> (string + string) list \<Rightarrow> string + string" where
  "stderr_tail tail [] = Ok tail"
| "stderr_tail tail (Inl e # chunks) = Err e"
| "stderr_tail tail (Inr chunk # chunks) =
     (if chunk = [] then Ok tail
      else let t = tail @ chunk in
        stderr_tail (if stderr_tail_bytes < length t then drop (length t - stderr_tail_bytes) t else t) chunks)"

definition take_stderr :: "codex_codec \<Rightarrow> codex_server \<Rightarrow> string \<times> codex_server" where
  "take_stderr xd s =
     (if \<not> sv_stderr_task s then ([], s)
      else (case stderr_tail [] (ch_stderr (sv_child s)) of
              Inr bytes \<Rightarrow> xd_lossy xd bytes
            | Inl e \<Rightarrow> ''stderr capture failed: '' @ e, s\<lparr>sv_stderr_task := False\<rparr>))"

definition validate_message_shape :: "json \<Rightarrow> string + unit" where
  "validate_message_shape value =
     and_then (ok_or ''top-level frame must be an object'' (json_as_object value)) (\<lambda>m.
       let has = (\<lambda>k. btree_get m k \<noteq> None) in
       ensure ((has ''id'', has ''method'', has ''result'', has ''error'') \<in>
           {(True, True, False, False), (False, True, False, False), (True, False, True, False), (True, False, False, True)})
         ''frame must be exactly one request, notification, response, or error'')"

definition process_exited :: "codex_codec \<Rightarrow> 'a server_action" where
  "process_exited xd s =
     (case ch_exit (sv_child s) of
        Inl e \<Rightarrow> (Err (AppIo e), s)
      | Inr code \<Rightarrow> (case take_stderr xd s of (stderr, s') \<Rightarrow> (Err (AppProcessExited code stderr), s')))"

definition decode_frame :: "codex_codec \<Rightarrow> string \<Rightarrow> codex_app_server_error + inbound_message" where
  "decode_frame xd line =
     and_then (map_err AppMalformedFrame (xd_parse xd line)) (\<lambda>value.
     and_then (map_err AppProtocol (validate_message_shape value)) (\<lambda>_.
     map_err AppMalformedFrame (xd_inbound xd value)))"

definition read_message :: "codex_codec \<Rightarrow> inbound_message server_action" where
  "read_message xd s =
     (case read_bounded_line [] (ch_stdout (sv_child s)) of (r, chunks) \<Rightarrow>
        let s' = s\<lparr>sv_child := (sv_child s)\<lparr>ch_stdout := chunks\<rparr>\<rparr> in
        case r of
          Inl e \<Rightarrow> (Err e, s')
        | Inr None \<Rightarrow> process_exited xd s'
        | Inr (Some line) \<Rightarrow> (decode_frame xd line, s'))"

section \<open>Writing\<close>

definition write_frame :: "codex_codec \<Rightarrow> json \<Rightarrow> unit server_action" where
  "write_frame xd frame s =
     (if max_frame_bytes < length (xd_text xd frame) then (Err (AppFrameTooLarge max_frame_bytes), s)
      else if \<not> sv_stdin s then (Err (AppProtocol ''cannot write after app-server stdin was closed''), s)
      else let child = sv_child s; child' = child\<lparr>ch_writes := tl (ch_writes child)\<rparr> in
        case ch_writes child of
          Some e # _ \<Rightarrow> (Err (AppIo e), s\<lparr>sv_child := child'\<rparr>)
        | _ \<Rightarrow> (Ok (), s\<lparr>sv_child := child'\<lparr>ch_frames := ch_frames child @ [frame]\<rparr>\<rparr>))"

definition allocate_request_id :: "codex_request_id server_action" where
  "allocate_request_id s =
     (case i64_succ (sv_next_request_id s) of
        None \<Rightarrow> (Err AppRequestIdExhausted, s)
      | Some next_id \<Rightarrow> (Ok (RequestIdInteger (sv_next_request_id s)), s\<lparr>sv_next_request_id := next_id\<rparr>))"

section \<open>The bytes still to be read\<close>

definition chunk_size :: "string + string \<Rightarrow> nat" where
  "chunk_size c = Suc (case c of Inl _ \<Rightarrow> 0 | Inr bytes \<Rightarrow> length bytes)"

definition unread :: "(string + string) list \<Rightarrow> nat" where
  "unread chunks = sum_list (map chunk_size chunks)"

lemma unread_simps [simp]: "unread [] = 0" "unread (c # cs) = chunk_size c + unread cs"
  by (simp_all add: unread_def)

lemma unread_put_back: "unread (put_back bytes chunks) \<le> Suc (length bytes) + unread chunks"
  by (simp add: put_back_def chunk_size_def)

lemma newline_position_less: "newline_position s = Some n \<Longrightarrow> n < length s"
  by (induction s arbitrary: n) (auto split: if_splits)

lemma read_line_le: "unread (snd (read_bounded_line line chunks)) \<le> unread chunks"
proof (induction line chunks rule: read_bounded_line.induct)
  case (3 line available chunks)
  then show ?case
    using unread_put_back [of _ chunks] newline_position_less [of available]
    by (force simp: chunk_size_def put_back_def split: option.split)
qed (simp_all add: chunk_size_def)

lemma read_line_less:
  assumes "read_bounded_line [] chunks = (Inr (Some line), chunks')"
  shows "unread chunks' < unread chunks"
proof (cases chunks)
  case (Cons c cs)
  show ?thesis
  proof (cases c)
    case (Inr available)
    show ?thesis
    proof (cases "available = []")
      case False
      show ?thesis
      proof (cases "newline_position available")
        case None
        then have "read_bounded_line available cs = (Inr (Some line), chunks')"
          using assms Cons Inr False by (simp split: if_splits)
        then have "unread chunks' \<le> unread cs" using read_line_le [of available cs] by simp
        then show ?thesis using Cons Inr by (simp add: chunk_size_def)
      next
        case (Some n)
        then show ?thesis
          using assms Cons Inr False newline_position_less [OF Some]
          by (auto simp: chunk_size_def put_back_def split: if_splits)
      qed
    qed (use assms Cons Inr in simp)
  qed (use assms Cons in simp)
qed (use assms in simp)

text \<open>What the server still has to hand out.\<close>

definition backlog :: "codex_server \<Rightarrow> nat" where
  "backlog s = unread (ch_stdout (sv_child s)) + length (sv_buffered_events s)"

lemma read_message_state:
  assumes "read_message xd s = (Inr m, s')"
  shows "\<exists>chunks. s' = s\<lparr>sv_child := (sv_child s)\<lparr>ch_stdout := chunks\<rparr>\<rparr> \<and> unread chunks < unread (ch_stdout (sv_child s))"
  using assms read_line_less
  by (fastforce simp: read_message_def process_exited_def Let_def split: prod.splits sum.splits option.splits)

section \<open>Requests and events\<close>

text \<open>The loop of \<open>request\<close>: other people's messages are queued, a foreign response is a violation.\<close>

function await_response ::
  "codex_codec \<Rightarrow> (json \<Rightarrow> string + 'r) \<Rightarrow> (codex_request_id \<Rightarrow> string) \<Rightarrow> string \<Rightarrow> codex_request_id \<Rightarrow> 'r server_action" where
  "await_response xd decode debug method i s =
     (case read_message xd s of
        (Inl e, s') \<Rightarrow> (Inl e, s')
      | (Inr message, s') \<Rightarrow>
          (case message of
             InboundResponse j result \<Rightarrow>
               (if j = i then map_err AppMalformedFrame (decode result)
                else Err (AppProtocol (''received response '' @ debug j @ '' while waiting for '' @ debug i)), s')
           | InboundError j e \<Rightarrow>
               (if j = i then Err (AppRemote method (re_code e) (re_message e) (re_data e))
                else Err (AppProtocol (''received response '' @ debug j @ '' while waiting for '' @ debug i)), s')
           | _ \<Rightarrow>
               (case decode_event xd message of
                  Inl e \<Rightarrow> (Err (AppProtocol e), s')
                | Inr event \<Rightarrow>
                    await_response xd decode debug method i (s'\<lparr>sv_buffered_events := sv_buffered_events s' @ [event]\<rparr>))))"
  by pat_completeness auto
termination
  by (relation "measure (\<lambda>(xd, decode, debug, method, i, s). unread (ch_stdout (sv_child s)))")
     (auto dest!: sym [of "(_, _)" "read_message _ _"] read_message_state simp del: decode_event.simps)

declare await_response.simps [simp del]

definition server_request ::
  "codex_codec \<Rightarrow> (json \<Rightarrow> string + 'r) \<Rightarrow> (codex_request_id \<Rightarrow> string) \<Rightarrow> string \<Rightarrow> json \<Rightarrow> 'r server_action" where
  "server_request xd decode debug method params =
     act_bind allocate_request_id (\<lambda>i.
     act_bind (write_frame xd (outbound_request i method params)) (\<lambda>_.
     await_response xd decode debug method i))"

definition next_event :: "codex_codec \<Rightarrow> codex_event server_action" where
  "next_event xd s =
     (case sv_buffered_events s of
        event # events \<Rightarrow> (Ok event, s\<lparr>sv_buffered_events := events\<rparr>)
      | [] \<Rightarrow> act_bind (read_message xd) (\<lambda>message. act_lift (map_err AppProtocol (decode_event xd message))) s)"

definition server_respond :: "codex_codec \<Rightarrow> codex_request_id \<Rightarrow> json \<Rightarrow> unit server_action" where
  "server_respond xd i result = write_frame xd (outbound_response i result)"

definition respond_dynamic_tool_call ::
  "codex_codec \<Rightarrow> codex_server_request \<Rightarrow> codex_tool_call_response \<Rightarrow> unit server_action" where
  "respond_dynamic_tool_call xd request response =
     (if sq_dynamic_tool_call request = None
      then act_lift (Err (AppProtocol (''cannot send a dynamic-tool response for request '' @ sq_method request)))
      else server_respond xd (sq_id request) (json_of_tool_response response))"

definition respond_error :: "codex_codec \<Rightarrow> codex_request_id \<Rightarrow> i64 \<Rightarrow> string \<Rightarrow> json \<Rightarrow> unit server_action" where
  "respond_error xd i code message data =
     write_frame xd (outbound_error i \<lparr>re_code = code, re_message = message, re_data = data\<rparr>)"

text \<open>\<open>shutdown\<close> consumes the server: the state it leaves is the one the child is left in.\<close>

definition server_shutdown :: "codex_codec \<Rightarrow> unit server_action" where
  "server_shutdown xd s =
     (let close = (if sv_stdin s then ch_close (sv_child s) else None); s1 = s\<lparr>sv_stdin := False\<rparr>; child = sv_child s in
      case close of
        Some e \<Rightarrow> (Err (AppIo e), s1)
      | None \<Rightarrow>
          if ch_exits_in_time child
          then (case ch_exit child of
                  Inl e \<Rightarrow> (Err (AppIo e), s1)
                | Inr code \<Rightarrow>
                    if code = Some 0 then (Ok (), snd (take_stderr xd s1)) else process_exited xd s1)
          else (case ch_kill child of
                  Some e \<Rightarrow> (Err (AppIo e), s1)
                | None \<Rightarrow> (case ch_exit child of Inl e \<Rightarrow> (Err (AppIo e), s1) | Inr _ \<Rightarrow> (Err AppShutdownTimedOut, s1))))"

section \<open>The client operations\<close>

definition server_initialize :: "codex_codec \<Rightarrow> (codex_request_id \<Rightarrow> string) \<Rightarrow> codex_initialize_params \<Rightarrow> codex_initialize_response server_action" where
  "server_initialize xd debug params = server_request xd (xd_initialize xd) debug ''initialize'' (json_of_initialize params)"

definition server_initialized :: "codex_codec \<Rightarrow> unit server_action" where
  "server_initialized xd = write_frame xd (outbound_notification ''initialized'')"

definition server_read_config :: "codex_codec \<Rightarrow> (codex_request_id \<Rightarrow> string) \<Rightarrow> codex_config_read_params \<Rightarrow> codex_config_read_response server_action" where
  "server_read_config xd debug params = server_request xd (xd_config xd) debug ''config/read'' (json_of_config_read params)"

definition server_start_thread :: "codex_codec \<Rightarrow> (codex_request_id \<Rightarrow> string) \<Rightarrow> codex_thread_start_params \<Rightarrow> codex_thread_open_response server_action" where
  "server_start_thread xd debug params = server_request xd (xd_thread_open xd) debug ''thread/start'' (json_of_thread_start params)"

definition server_resume_thread :: "codex_codec \<Rightarrow> (codex_request_id \<Rightarrow> string) \<Rightarrow> codex_thread_resume_params \<Rightarrow> codex_thread_open_response server_action" where
  "server_resume_thread xd debug params = server_request xd (xd_thread_open xd) debug ''thread/resume'' (json_of_thread_resume params)"

definition server_fork_thread :: "codex_codec \<Rightarrow> (codex_request_id \<Rightarrow> string) \<Rightarrow> codex_thread_fork_params \<Rightarrow> codex_thread_open_response server_action" where
  "server_fork_thread xd debug params = server_request xd (xd_thread_open xd) debug ''thread/fork'' (json_of_thread_fork params)"

definition server_start_turn :: "codex_codec \<Rightarrow> (codex_request_id \<Rightarrow> string) \<Rightarrow> codex_turn_start_params \<Rightarrow> codex_turn server_action" where
  "server_start_turn xd debug params = server_request xd (xd_turn_start xd) debug ''turn/start'' (json_of_turn_start params)"

definition server_interrupt_turn :: "codex_codec \<Rightarrow> (codex_request_id \<Rightarrow> string) \<Rightarrow> codex_turn_interrupt_params \<Rightarrow> unit server_action" where
  "server_interrupt_turn xd debug params = server_request xd (xd_empty xd) debug ''turn/interrupt'' (json_of_turn_interrupt params)"

section \<open>Frames do not depend on how the bytes arrive\<close>

text \<open>A pipe whose reads succeed gives non-empty pieces until its end; \<open>received\<close> are their bytes.\<close>

definition piece :: "string + string \<Rightarrow> string" where
  "piece c = (case c of Inl _ \<Rightarrow> [] | Inr bytes \<Rightarrow> bytes)"

definition received :: "(string + string) list \<Rightarrow> string" where
  "received chunks = concat (map piece chunks)"

definition delivers :: "(string + string) list \<Rightarrow> bool" where
  "delivers chunks \<longleftrightarrow> list_all (\<lambda>c. piece c \<noteq> []) chunks"

lemma received_simps [simp]: "received [] = []" "received (c # cs) = piece c @ received cs"
  by (simp_all add: received_def)

lemma delivers_simps [simp]: "delivers []" "delivers (c # cs) \<longleftrightarrow> piece c \<noteq> [] \<and> delivers cs"
  by (simp_all add: delivers_def)

lemma piece_simps [simp]: "piece (Inl e) = []" "piece (Inr bytes) = bytes"
  by (simp_all add: piece_def)

lemma put_back_received [simp]:
  "received (put_back bytes chunks) = bytes @ received chunks"
  "delivers (put_back bytes chunks) = delivers chunks"
  by (simp_all add: put_back_def)

abbreviation no_newline :: "char \<Rightarrow> bool" where "no_newline c \<equiv> c \<noteq> CHR 0x0A"

lemma newline_position_None: "newline_position s = None \<longleftrightarrow> list_all no_newline s"
  by (induction s) auto

lemma newline_position_Some:
  "newline_position s = Some n \<Longrightarrow> takeWhile no_newline (s @ t) = take n s \<and> n < length s"
  by (induction s arbitrary: n) (auto split: if_splits)

lemma read_line_split:
  assumes "delivers chunks" "length line \<le> max_frame_bytes"
  shows "case read_bounded_line line chunks of (r, chunks') \<Rightarrow>
     delivers chunks' \<and>
     (let frame = line @ takeWhile no_newline (received chunks) in
      if line = [] \<and> chunks = [] then r = Ok None \<and> chunks' = []
      else if length frame \<le> max_frame_bytes
      then r = Ok (Some frame) \<and> received chunks' = drop (Suc (length frame - length line)) (received chunks)
      else r = Err (AppFrameTooLarge max_frame_bytes))"
  using assms
proof (induction line chunks rule: read_bounded_line.induct)
  case (3 line available chunks)
  show ?case
  proof (cases "newline_position available")
    case None
    then have all: "takeWhile no_newline (available @ t) = available @ takeWhile no_newline t" for t
      by (auto simp: newline_position_None list_all_iff takeWhile_append)
    show ?thesis
    proof (cases "max_frame_bytes < length line + length available")
      case True
      then show ?thesis using 3 None by (simp add: all Let_def)
    next
      case False
      then show ?thesis
        using 3 None by (auto simp: all Let_def split: prod.splits if_splits)
    qed
  next
    case (Some n)
    note found = newline_position_Some [OF Some, THEN conjunct1]
    have "n < length available" by (rule newline_position_Some [OF Some, THEN conjunct2])
    then show ?thesis
      using 3 Some by (auto simp: Let_def found)
  qed
qed (auto simp: Let_def)

section \<open>What the operations leave\<close>

text \<open>Reading and writing touch neither the queue nor the identities; an event that is handed out is gone.\<close>

lemma process_exited_state:
  "process_exited xd s = (r, s') \<Longrightarrow> r \<noteq> Ok x \<and> (s' = s \<or> s' = s\<lparr>sv_stderr_task := False\<rparr>)"
  by (auto simp: process_exited_def take_stderr_def split: sum.splits prod.splits if_splits)

lemma read_message_leaves:
  assumes "read_message xd s = (r, s')"
  shows "sv_buffered_events s' = sv_buffered_events s \<and> sv_next_request_id s' = sv_next_request_id s
    \<and> sv_stdin s' = sv_stdin s \<and> unread (ch_stdout (sv_child s')) \<le> unread (ch_stdout (sv_child s))"
  using assms read_line_le [of "[]" "ch_stdout (sv_child s)"] process_exited_state
  by (fastforce simp: read_message_def Let_def split: prod.splits sum.splits option.splits)

lemma write_frame_leaves:
  assumes "write_frame xd frame s = (r, s')"
  shows "backlog s' = backlog s \<and> sv_buffered_events s' = sv_buffered_events s
    \<and> (r = Ok () \<longrightarrow> ch_frames (sv_child s') = ch_frames (sv_child s) @ [frame])
    \<and> (r \<noteq> Ok () \<longrightarrow> ch_frames (sv_child s') = ch_frames (sv_child s))"
  using assms
  by (auto simp: write_frame_def Let_def backlog_def split: if_splits list.splits option.splits)

lemma next_event_less:
  assumes "next_event xd s = (Ok event, s')"
  shows "backlog s' < backlog s"
  using assms
  by (auto simp: next_event_def backlog_def act_bind_def act_lift_def split: list.splits prod.splits sum.splits
        dest!: read_message_state)

lemma next_event_frames:
  assumes "next_event xd s = (r, s')"
  shows "ch_frames (sv_child s') = ch_frames (sv_child s)"
  using assms
  by (auto simp: next_event_def read_message_def process_exited_def take_stderr_def act_bind_def act_lift_def Let_def
        split: list.splits prod.splits sum.splits option.splits if_splits)

text \<open>A request only appends to the queue of unsolicited events.\<close>

lemma await_response_queue:
  "await_response xd decode debug name i s = (r, s') \<Longrightarrow>
     \<exists>events. sv_buffered_events s' = sv_buffered_events s @ events \<and> backlog s' \<le> backlog s
       \<and> sv_next_request_id s' = sv_next_request_id s \<and> sv_stdin s' = sv_stdin s"
proof (induction xd decode debug name i s rule: await_response.induct)
  case (1 xd decode debug name i s)
  obtain q t where read: "read_message xd s = (q, t)" by (cases "read_message xd s")
  note leaves = read_message_leaves [OF read]
  have here: "s' = t \<Longrightarrow> ?case" using leaves by (intro exI [of _ "[]"]) (simp add: backlog_def)
  have queued: ?case
    if q: "q = Inr message" and event: "decode_event xd message = Inr event"
      and more: "await_response xd decode debug name i (t\<lparr>sv_buffered_events := sv_buffered_events t @ [event]\<rparr>) = (r, s')"
      and IH: "\<exists>events. sv_buffered_events s' = sv_buffered_events t @ [event] @ events
         \<and> backlog s' \<le> backlog (t\<lparr>sv_buffered_events := sv_buffered_events t @ [event]\<rparr>)
         \<and> sv_next_request_id s' = sv_next_request_id t \<and> sv_stdin s' = sv_stdin t" for message event
  proof -
    have "unread (ch_stdout (sv_child t)) < unread (ch_stdout (sv_child s))"
      using read_message_state [of xd s message t] read q by auto
    with IH leaves show ?thesis by (auto simp: backlog_def)
  qed
  show ?case
  proof (cases q)
    case (Inl e)
    then show ?thesis using here 1(3) read by (simp add: await_response.simps [of _ _ _ _ _ s])
  next
    case (Inr message)
    show ?thesis
    proof (cases message)
      case (InboundRequest j m p)
      show ?thesis
      proof (cases "decode_event xd message")
        case (Inl e)
        then show ?thesis using here 1(3) read Inr InboundRequest by (simp add: await_response.simps [of _ _ _ _ _ s])
      next
        case event: (Inr event)
        then have more: "await_response xd decode debug name i (t\<lparr>sv_buffered_events := sv_buffered_events t @ [event]\<rparr>) = (r, s')"
          using 1(3) read Inr InboundRequest by (simp add: await_response.simps [of _ _ _ _ _ s])
        show ?thesis
          using queued [OF Inr event more] 1(1) [OF read [symmetric] Inr InboundRequest _ more] event by simp
      qed
    next
      case (InboundNotification m p)
      show ?thesis
      proof (cases "decode_event xd message")
        case (Inl e)
        then show ?thesis using here 1(3) read Inr InboundNotification by (simp add: await_response.simps [of _ _ _ _ _ s])
      next
        case event: (Inr event)
        then have more: "await_response xd decode debug name i (t\<lparr>sv_buffered_events := sv_buffered_events t @ [event]\<rparr>) = (r, s')"
          using 1(3) read Inr InboundNotification by (simp add: await_response.simps [of _ _ _ _ _ s])
        show ?thesis
          using queued [OF Inr event more] 1(2) [OF read [symmetric] Inr InboundNotification _ more] event by simp
      qed
    qed (use here 1(3) read Inr in \<open>auto simp: await_response.simps [of _ _ _ _ _ s] split: if_splits\<close>)
  qed
qed

section \<open>Property\<close>

text \<open>
  C20. However the worker's output is cut into reads, the reader returns what a splitter of the whole byte
  stream would: the bytes up to the next newline or the end, and the rest stays to be read; a line over the
  limit is refused, and only the end of the output gives no line.
\<close>

theorem frames_are_cut_from_the_byte_stream:
  assumes "delivers chunks"
  shows "case read_bounded_line [] chunks of (r, rest) \<Rightarrow>
     delivers rest \<and>
     (let frame = takeWhile no_newline (received chunks) in
      if received chunks = [] then r = Ok None \<and> rest = []
      else if length frame \<le> max_frame_bytes
      then r = Ok (Some frame) \<and> received rest = drop (Suc (length frame)) (received chunks)
      else r = Err (AppFrameTooLarge max_frame_bytes))"
proof -
  have "received chunks = [] \<longleftrightarrow> chunks = []" using assms by (cases chunks) auto
  then show ?thesis using read_line_split [OF assms, of "[]"] by (auto simp: Let_def split: prod.splits)
qed

theorem frames_are_cut_from_the_byte_stream_witness:
  "case read_bounded_line [] [Inr ''ab'', Inr [CHR ''c'', CHR 0x0A, CHR ''d''], Inr ''e''] of (r, rest) \<Rightarrow>
     delivers rest \<and> r = Ok (Some ''abc'') \<and> received rest = ''de''"
  using frames_are_cut_from_the_byte_stream [of "[Inr ''ab'', Inr [CHR ''c'', CHR 0x0A, CHR ''d''], Inr ''e'']"]
  by (simp add: max_frame_bytes_def Let_def split: prod.splits)

end
