(* ===== verification/Codex_Authority.thy ===== *)
theory Codex_Authority
  imports Codex_Protocol
begin

text \<open>
  \<open>apps/hermesd/src/adapters/codex/authority.rs\<close>: the restrictions under which a Codex worker reasons.
  Every ambient capability is switched off in the overrides of the thread, and the manifest records what
  is left: the tools that Hermes hosts. A \<open>BTreeSet\<close> read in order is the sorted list of its elements.
\<close>

definition disabled_features :: "string list" where
  "disabled_features =
     [''apps'', ''code_mode'', ''code_mode_only'', ''deferred_executor'', ''enable_mcp_apps'', ''hooks'', ''image_generation'',
      ''memories'', ''multi_agent'', ''multi_agent_v2'', ''plugins'', ''request_permissions_tool'', ''shell_tool'',
      ''tool_suggest'', ''unified_exec'', ''view_image'']"

datatype codex_authority_error = InvalidMcpServers | InvalidDynamicTools string

fun codex_authority_error_text :: "codex_authority_error \<Rightarrow> string" where
  "codex_authority_error_text InvalidMcpServers = ''Codex effective mcp_servers config must be an object or null''"
| "codex_authority_error_text (InvalidDynamicTools m) = ''invalid Hermes dynamic-tool catalog: '' @ m"

record codex_authority_manifest =
  cm_worker :: string
  cm_dynamic_tools :: "string list"
  cm_disabled_mcp_servers :: "string list"
  cm_ambient_environments :: bool
  cm_codex_shell :: bool
  cm_codex_web_search :: bool
  cm_codex_plugins :: bool
  cm_codex_apps :: bool
  cm_codex_hooks :: bool
  cm_codex_multi_agent :: bool

record codex_authority_policy =
  ca_config_overrides :: "(string, json) btree"
  ca_dynamic_tools :: "codex_tool_spec list"
  ca_manifest :: codex_authority_manifest

text \<open>The loop of \<open>validate_dynamic_tools\<close>, with the set of the names seen; the argument is \<open>Debug\<close> of \<open>str\<close>.\<close>

fun tool_names_loop ::
  "(string \<Rightarrow> string) \<Rightarrow> codex_tool_spec list \<Rightarrow> string set \<Rightarrow> codex_authority_error + string set" where
  "tool_names_loop debug [] seen = Ok seen"
| "tool_names_loop debug (tool # tools) seen =
     (let name = tool_spec_name tool in
      if name = [] \<or> trim name \<noteq> name
      then Err (InvalidDynamicTools ''tool names must be non-empty and have no surrounding whitespace'')
      else if name \<in> seen then Err (InvalidDynamicTools (''duplicate tool name '' @ debug name))
      else tool_names_loop debug tools (insert name seen))"

definition validate_dynamic_tools ::
  "(string \<Rightarrow> string) \<Rightarrow> codex_tool_spec list \<Rightarrow> codex_authority_error + string list" where
  "validate_dynamic_tools debug tools =
     (if tools = [] then Err (InvalidDynamicTools ''at least one Hermes-hosted tool is required'')
      else and_then (tool_names_loop debug tools {}) (\<lambda>seen. Ok (sorted_list_of_set seen)))"

definition effective_mcp_server_names :: "codex_config_read_response \<Rightarrow> codex_authority_error + string list" where
  "effective_mcp_server_names effective =
     (case config_get effective ''mcp_servers'' of
        None \<Rightarrow> Ok []
      | Some JNull \<Rightarrow> Ok []
      | Some (JObject servers) \<Rightarrow> Ok (map fst servers)
      | Some _ \<Rightarrow> Err InvalidMcpServers)"

definition authority_overrides :: "string list \<Rightarrow> (string, json) btree" where
  "authority_overrides mcp_server_names = btree_of
     [(''features'', jobject (map (\<lambda>name. (name, JBool False)) disabled_features)),
      (''mcp_servers'', jobject (map (\<lambda>name. (name, jobject [(''enabled'', JBool False)])) mcp_server_names)),
      (''tools'', jobject [(''experimental_request_user_input'', jobject [(''enabled'', JBool False)]),
                           (''update_plan'', jobject [(''enabled'', JBool False)])]),
      (''web_search'', JString ''disabled'')]"

definition authority_policy_new ::
  "(string \<Rightarrow> string) \<Rightarrow> codex_config_read_response \<Rightarrow> codex_tool_spec list
     \<Rightarrow> codex_authority_error + codex_authority_policy" where
  "authority_policy_new debug effective dynamic_tools =
     and_then (validate_dynamic_tools debug dynamic_tools) (\<lambda>tool_names.
     and_then (effective_mcp_server_names effective) (\<lambda>disabled_mcp_servers.
     Ok \<lparr>ca_config_overrides = authority_overrides disabled_mcp_servers, ca_dynamic_tools = dynamic_tools,
         ca_manifest =
           \<lparr>cm_worker = ''codex-app-server'', cm_dynamic_tools = tool_names,
            cm_disabled_mcp_servers = disabled_mcp_servers, cm_ambient_environments = False, cm_codex_shell = False,
            cm_codex_web_search = False, cm_codex_plugins = False, cm_codex_apps = False, cm_codex_hooks = False,
            cm_codex_multi_agent = False\<rparr>\<rparr>))"

definition with_config_override :: "string \<Rightarrow> json \<Rightarrow> codex_authority_policy \<Rightarrow> codex_authority_policy" where
  "with_config_override key value policy =
     policy\<lparr>ca_config_overrides := btree_insert key value (ca_config_overrides policy)\<rparr>"

definition constrain :: "codex_authority_policy \<Rightarrow> codex_thread_start_params \<Rightarrow> codex_thread_start_params" where
  "constrain policy params =
     start_without_environments
       (start_with_dynamic_tools (ca_dynamic_tools policy) (start_with_config (ca_config_overrides policy) params))"

section \<open>What a policy grants\<close>

lemma tool_names_loop_Inr:
  "tool_names_loop debug tools seen = Inr names \<longleftrightarrow>
     (\<forall>t \<in> set tools. unpadded (tool_spec_name t)) \<and> distinct (map tool_spec_name tools)
     \<and> tool_spec_name ` set tools \<inter> seen = {} \<and> names = tool_spec_name ` set tools \<union> seen"
  by (induction debug tools seen rule: tool_names_loop.induct) (auto simp: Let_def unpadded_def)

lemma validate_dynamic_tools_Inr:
  "validate_dynamic_tools debug tools = Inr names \<longleftrightarrow>
     tools \<noteq> [] \<and> (\<forall>t \<in> set tools. unpadded (tool_spec_name t)) \<and> distinct (map tool_spec_name tools)
     \<and> names = sorted_list_of_set (tool_spec_name ` set tools)"
  by (auto simp: validate_dynamic_tools_def and_then_eq_Inr tool_names_loop_Inr)

text \<open>What may reach a worker thread: every listed feature off, every configured MCP server off, no web search.\<close>

definition fail_closed :: "codex_config_read_response \<Rightarrow> (string, json) btree \<Rightarrow> bool" where
  "fail_closed effective overrides \<longleftrightarrow>
     (\<exists>features servers tools.
        btree_get overrides ''features'' = Some features \<and> btree_get overrides ''mcp_servers'' = Some servers
        \<and> btree_get overrides ''tools'' = Some tools \<and> btree_get overrides ''web_search'' = Some (JString ''disabled'')
        \<and> (\<forall>f \<in> set disabled_features. json_get features f = Some (JBool False))
        \<and> (\<forall>m name. config_get effective ''mcp_servers'' = Some (JObject m) \<and> name \<in> set (map fst m) \<longrightarrow>
             Option.bind (json_get servers name) (\<lambda>s. json_get s ''enabled'') = Some (JBool False))
        \<and> (\<forall>name \<in> {''experimental_request_user_input'', ''update_plan''}.
             Option.bind (json_get tools name) (\<lambda>s. json_get s ''enabled'') = Some (JBool False)))"

lemma map_of_const: "map_of (map (\<lambda>x. (x, c)) xs) k = (if k \<in> set xs then Some c else None)"
  by (induction xs) auto

lemma jobject_const: "json_get (jobject (map (\<lambda>x. (x, c)) xs)) k = (if k \<in> set xs then Some c else None)"
  by (simp add: jobject_get rev_map map_of_const)

lemma overrides_get:
  "btree_get (authority_overrides names) ''features'' = Some (jobject (map (\<lambda>name. (name, JBool False)) disabled_features))"
  "btree_get (authority_overrides names) ''mcp_servers''
     = Some (jobject (map (\<lambda>name. (name, jobject [(''enabled'', JBool False)])) names))"
  "btree_get (authority_overrides names) ''tools''
     = Some (jobject [(''experimental_request_user_input'', jobject [(''enabled'', JBool False)]),
                      (''update_plan'', jobject [(''enabled'', JBool False)])])"
  "btree_get (authority_overrides names) ''web_search'' = Some (JString ''disabled'')"
  by (simp_all add: authority_overrides_def btree_get_of)

lemma policy_fail_closed:
  assumes "authority_policy_new debug effective tools = Ok policy"
  shows "fail_closed effective (ca_config_overrides policy)"
    "ca_dynamic_tools policy = tools" "cm_dynamic_tools (ca_manifest policy) = sorted_list_of_set (tool_spec_name ` set tools)"
    "tools \<noteq> []" "\<forall>t \<in> set tools. unpadded (tool_spec_name t)" "distinct (map tool_spec_name tools)"
proof -
  obtain names servers where ok: "validate_dynamic_tools debug tools = Inr names" "effective_mcp_server_names effective = Inr servers"
    and p: "ca_config_overrides policy = authority_overrides servers" "ca_dynamic_tools policy = tools"
      "cm_dynamic_tools (ca_manifest policy) = names"
    using assms by (auto simp: authority_policy_new_def and_then_eq_Inr)
  have "name \<in> set servers" if "config_get effective ''mcp_servers'' = Some (JObject m)" "name \<in> set (map fst m)" for m name
    using ok(2) that by (auto simp: effective_mcp_server_names_def)
  then show "fail_closed effective (ca_config_overrides policy)"
    unfolding p fail_closed_def overrides_get by (auto simp: jobject_const) (auto simp: jobject_get)
  show "ca_dynamic_tools policy = tools" "cm_dynamic_tools (ca_manifest policy) = sorted_list_of_set (tool_spec_name ` set tools)"
    "tools \<noteq> []" "\<forall>t \<in> set tools. unpadded (tool_spec_name t)" "distinct (map tool_spec_name tools)"
    using ok(1) p by (simp_all add: validate_dynamic_tools_Inr)
qed

text \<open>An override under another key leaves the restrictions in force.\<close>

lemma override_fail_closed:
  assumes "fail_closed effective (ca_config_overrides policy)"
    "key \<notin> {''features'', ''mcp_servers'', ''tools'', ''web_search''}"
  shows "fail_closed effective (ca_config_overrides (with_config_override key value policy))"
proof -
  have "btree_get (ca_config_overrides (with_config_override key value policy)) k = btree_get (ca_config_overrides policy) k"
    if "k \<in> {''features'', ''mcp_servers'', ''tools'', ''web_search''}" for k
    using assms(2) that by (auto simp: with_config_override_def btree_get_insert)
  then show ?thesis using assms(1) unfolding fail_closed_def by simp
qed

end
