(* ===== verification/Rust_Path.thy ===== *)
theory Rust_Path
  imports Rust_Text
begin

text \<open>
  \<open>std::path::Path\<close> on Unix: a path is its bytes, and what the code compares are its components.
  Repeated separators and inner \<open>.\<close> vanish in \<open>components()\<close>, a leading \<open>.\<close> of a relative path and
  every \<open>..\<close> stay. \<open>Path == Path\<close>, \<open>starts_with\<close>, \<open>strip_prefix\<close> and \<open>file_name\<close> work on components.
\<close>

section \<open>Splitting\<close>

fun split_on :: "char \<Rightarrow> string \<Rightarrow> string list" where
  "split_on c [] = [[]]"
| "split_on c (x # xs) =
     (if x = c then [] # split_on c xs
      else case split_on c xs of [] \<Rightarrow> [[x]] | p # ps \<Rightarrow> (x # p) # ps)"

fun join_with :: "string \<Rightarrow> string list \<Rightarrow> string" where
  "join_with sep [] = []"
| "join_with sep [p] = p"
| "join_with sep (p # q # ps) = p @ sep @ join_with sep (q # ps)"

lemma split_on_nonempty [simp]: "split_on c s \<noteq> []"
  by (cases s) (auto split: list.splits)

lemma join_Cons [simp]: "join_with sep ((x # p) # ps) = x # join_with sep (p # ps)"
  by (cases ps) simp_all

lemma join_Nil_Cons [simp]: "ps \<noteq> [] \<Longrightarrow> join_with sep ([] # ps) = sep @ join_with sep ps"
  by (cases ps) simp_all

lemma join_split: "join_with [c] (split_on c s) = s"
proof (induction c s rule: split_on.induct)
  case (2 c x xs)
  then show ?case by (cases "split_on c xs") auto
qed simp

lemma split_on_free: "p \<in> set (split_on c s) \<Longrightarrow> c \<notin> set p"
  by (induction c s arbitrary: p rule: split_on.induct) (auto split: if_splits list.splits)

lemma split_on_id: "c \<notin> set s \<Longrightarrow> split_on c s = [s]"
  by (induction c s rule: split_on.induct) auto

lemma split_on_append: "c \<notin> set p \<Longrightarrow> split_on c (p @ c # s) = p # split_on c s"
  by (induction p) auto

lemma split_join: "ps \<noteq> [] \<Longrightarrow> \<forall>p \<in> set ps. c \<notin> set p \<Longrightarrow> split_on c (join_with [c] ps) = ps"
  by (induction "[c]" ps rule: join_with.induct) (auto simp: split_on_id split_on_append)

section \<open>Components\<close>

datatype component = RootDir | CurDir | ParentDir | Normal string

definition component_of :: "string \<Rightarrow> component" where
  "component_of piece = (if piece = ''.'' then CurDir else if piece = ''..'' then ParentDir else Normal piece)"

definition is_absolute :: "string \<Rightarrow> bool" where
  "is_absolute path \<longleftrightarrow> (case path of [] \<Rightarrow> False | c # _ \<Rightarrow> c = CHR ''/'')"

definition path_components :: "string \<Rightarrow> component list" where
  "path_components path =
     (let pieces = split_on (CHR ''/'') path; inner = filter (\<lambda>p. p \<noteq> [] \<and> p \<noteq> ''.'') in
      if is_absolute path then RootDir # map component_of (inner pieces)
      else if hd pieces = ''.'' then CurDir # map component_of (inner (tl pieces))
      else map component_of (inner pieces))"

definition path_eq :: "string \<Rightarrow> string \<Rightarrow> bool" where
  "path_eq p q \<longleftrightarrow> path_components p = path_components q"

definition path_starts_with :: "string \<Rightarrow> string \<Rightarrow> bool" where
  "path_starts_with path base \<longleftrightarrow> prefix (path_components base) (path_components path)"

definition file_name :: "string \<Rightarrow> string option" where
  "file_name path =
     (case rev (path_components path) of Normal name # _ \<Rightarrow> Some name | _ \<Rightarrow> None)"

text \<open>\<open>Component::as_os_str\<close>.\<close>

fun component_str :: "component \<Rightarrow> string" where
  "component_str RootDir = ''/''"
| "component_str CurDir = ''.''"
| "component_str ParentDir = ''..''"
| "component_str (Normal name) = name"

text \<open>\<open>Path::join\<close>: an absolute argument replaces the path.\<close>

definition path_join :: "string \<Rightarrow> string \<Rightarrow> string" where
  "path_join base path =
     (if is_absolute path then path
      else if base = [] then path
      else if last base = CHR ''/'' then base @ path
      else base @ ''/'' @ path)"

lemma path_eq_refl [simp]: "path_eq p p"
  by (simp add: path_eq_def)

lemma path_starts_with_refl [simp]: "path_starts_with p p"
  by (simp add: path_starts_with_def)

lemma path_starts_with_trans: "path_starts_with p q \<Longrightarrow> path_starts_with q r \<Longrightarrow> path_starts_with p r"
  by (auto simp: path_starts_with_def intro: prefix_order.trans)

section \<open>Valid text\<close>

text \<open>\<open>str::from_utf8\<close> accepts exactly the well-formed sequences of the Unicode standard; \<open>to_str\<close> of a path asks for them.\<close>

abbreviation byte_of :: "char \<Rightarrow> nat" where "byte_of \<equiv> of_char"

definition byte_in :: "nat \<Rightarrow> nat \<Rightarrow> char \<Rightarrow> bool" where
  "byte_in low high c \<longleftrightarrow> low \<le> byte_of c \<and> byte_of c \<le> high"

text \<open>The bytes allowed after a leading byte.\<close>

definition tail_bytes :: "char \<Rightarrow> (char \<Rightarrow> bool) list option" where
  "tail_bytes c =
     (if byte_of c < 0x80 then Some []
      else if byte_in 0xC2 0xDF c then Some [byte_in 0x80 0xBF]
      else if byte_of c = 0xE0 then Some [byte_in 0xA0 0xBF, byte_in 0x80 0xBF]
      else if byte_of c = 0xED then Some [byte_in 0x80 0x9F, byte_in 0x80 0xBF]
      else if byte_in 0xE1 0xEF c then Some [byte_in 0x80 0xBF, byte_in 0x80 0xBF]
      else if byte_of c = 0xF0 then Some [byte_in 0x90 0xBF, byte_in 0x80 0xBF, byte_in 0x80 0xBF]
      else if byte_of c = 0xF4 then Some [byte_in 0x80 0x8F, byte_in 0x80 0xBF, byte_in 0x80 0xBF]
      else if byte_in 0xF1 0xF3 c then Some [byte_in 0x80 0xBF, byte_in 0x80 0xBF, byte_in 0x80 0xBF]
      else None)"

text \<open>\<open>pending\<close> is what the character being read still needs.\<close>

fun utf8_from :: "(char \<Rightarrow> bool) list \<Rightarrow> string \<Rightarrow> bool" where
  "utf8_from [] [] = True"
| "utf8_from (p # ps) [] = False"
| "utf8_from [] (c # cs) = (case tail_bytes c of None \<Rightarrow> False | Some ps \<Rightarrow> utf8_from ps cs)"
| "utf8_from (p # ps) (c # cs) = (p c \<and> utf8_from ps cs)"

definition utf8_valid :: "string \<Rightarrow> bool" where
  "utf8_valid s = utf8_from [] s"

definition path_to_str :: "string \<Rightarrow> string option" where
  "path_to_str path = (if utf8_valid path then Some path else None)"

end
