(* ===== verification/Semantic_Json.thy ===== *)
theory Semantic_Json
  imports Protocol
begin

text \<open>
  What \<open>derive(Serialize)\<close> writes for the conversation records of \<open>crates/domain/src/conversation.rs\<close>:
  identities are transparent, names are in snake case, the message kind is the tag \<open>kind\<close>, and optional
  fields marked \<open>skip_serializing_if\<close> are left out.
\<close>

definition json_of_tool_call :: "tool_call \<Rightarrow> json" where
  "json_of_tool_call call = jobject
     [(''id'', JString (tool_call_id_str (tc_id call))), (''name'', JString (tc_name call)),
      (''arguments'', JObject (tc_arguments call))]"

definition json_of_status :: "tool_result_status \<Rightarrow> json" where
  "json_of_status status = JString (status_name status)"

definition json_of_tool_result :: "tool_result \<Rightarrow> json" where
  "json_of_tool_result r = jobject
     ([(''call_id'', JString (tool_call_id_str (tr_call_id r))), (''status'', json_of_status (tr_status r)),
       (''content'', JString (tr_content r))] @ jskip ''execution_key'' JString (tr_execution_key r))"

fun json_of_semantic_message :: "semantic_message \<Rightarrow> json" where
  "json_of_semantic_message (User content display_content) = jobject
     ([(''kind'', JString ''user''), (''content'', JString content)]
      @ jskip ''display_content'' JString display_content)"
| "json_of_semantic_message (AssistantToolRequest content calls reasoning provider_replay) = jobject
     ([(''kind'', JString ''assistant_tool_request''), (''content'', jopt JString content),
       (''calls'', JArray (map json_of_tool_call calls))]
      @ jskip ''reasoning'' JString reasoning @ jskip ''provider_replay'' id provider_replay)"
| "json_of_semantic_message (ToolResultBatch results) = jobject
     [(''kind'', JString ''tool_result_batch''), (''results'', JArray (map json_of_tool_result results))]"
| "json_of_semantic_message (Assistant content reasoning provider_replay) = jobject
     ([(''kind'', JString ''assistant''), (''content'', JString content)]
      @ jskip ''reasoning'' JString reasoning @ jskip ''provider_replay'' id provider_replay)"

end
