(* ===== verification/Codex_Engine.thy ===== *)
theory Codex_Engine
  imports Codex_Server Codex_Authority Runtime_Turn Rust_Path Semantic_Json
begin

text \<open>
  \<open>apps/hermesd/src/adapters/codex/engine.rs\<close>: one turn reasoned by a Codex worker while Hermes owns the
  tools and the transcript. The worker proposes tool calls, one at a time; each is planned, approved and
  executed by the tool host and answered. A cancellation can win any of the awaits that are guarded by
  \<open>await_cancellable\<close>: then the turn leaves through an exit of its own and the worker is interrupted.
\<close>

section \<open>Errors, configuration and results\<close>

datatype codex_engine_error =
    EngineAppServer codex_app_server_error
  | EngineAuthority codex_authority_error
  | EngineRuntime runtime_error
  | EngineConversation conversation_error
  | EngineObserver runtime_event_observer_error
  | EngineInvalid string

text \<open>How \<open>run_inner\<close> leaves before its end: an error, or one of the two arms for a cancellation.\<close>

datatype engine_exit = EngineError codex_engine_error | CancelledBeforeTurn | CancelledInTurn string string

record codex_turn_engine =
  eg_command :: codex_app_server_command
  eg_model :: string
  eg_cwd :: string
  eg_developer_instructions :: string
  eg_effort :: "string option"

definition codex_turn_engine_new ::
  "codex_app_server_command \<Rightarrow> string \<Rightarrow> string \<Rightarrow> string \<Rightarrow> codex_engine_error + codex_turn_engine" where
  "codex_turn_engine_new command model cwd developer_instructions =
     (if model = [] \<or> trim model \<noteq> model
      then Err (EngineInvalid ''model must be non-empty and have no surrounding whitespace'')
      else if \<not> is_absolute cwd then Err (EngineInvalid ''worker cwd must be an absolute path'')
      else if developer_instructions = [] then Err (EngineInvalid ''worker developer instructions must be non-empty'')
      else Ok \<lparr>eg_command = command, eg_model = model, eg_cwd = cwd,
               eg_developer_instructions = developer_instructions, eg_effort = None\<rparr>)"

definition engine_with_effort :: "string \<Rightarrow> codex_turn_engine \<Rightarrow> codex_turn_engine" where
  "engine_with_effort effort engine = engine\<lparr>eg_effort := Some effort\<rparr>"

record codex_turn_request =
  er_execution_scope :: string
  er_semantic_history :: "semantic_message list"
  er_prompt :: string
  er_client_user_message_id :: "string option"

definition engine_request_validate :: "codex_turn_request \<Rightarrow> codex_engine_error + unit" where
  "engine_request_validate request =
     (if er_execution_scope request = [] then Err (EngineInvalid ''execution scope must be non-empty'')
      else if trim (er_prompt request) = [] then Err (EngineInvalid ''prompt must be non-empty'')
      else and_then (map_err EngineConversation (conversation_new (er_semantic_history request))) (\<lambda>_. Ok ()))"

record codex_worker_binding =
  wb_thread_id :: string
  wb_last_turn_id :: string
  wb_worker_user_agent :: string
  wb_model_provider :: string
  wb_authority :: codex_authority_manifest

record codex_engine_outcome =
  eo_contract :: contract_outcome
  eo_binding :: codex_worker_binding

section \<open>The tool catalog\<close>

definition dynamic_tool_of_schema :: "json \<Rightarrow> codex_engine_error + codex_tool_spec" where
  "dynamic_tool_of_schema schema =
     and_then
       (ok_or (EngineInvalid ''only OpenAI-compatible function tools can be projected to Codex'')
         (Option.bind (json_as_object schema) (\<lambda>object.
            if Option.bind (btree_get object ''type'') json_as_str = Some ''function''
            then Option.bind (btree_get object ''function'') json_as_object else None))) (\<lambda>function.
     and_then (ok_or (EngineInvalid ''tool schema has no string function.name'')
         (Option.bind (btree_get function ''name'') json_as_str)) (\<lambda>name.
     and_then (ok_or (EngineInvalid ''tool schema has no string function.description'')
         (Option.bind (btree_get function ''description'') json_as_str)) (\<lambda>description.
     and_then (ok_or (EngineInvalid ''tool schema has no function.parameters'') (btree_get function ''parameters''))
       (\<lambda>input_schema. Ok (ToolFunction (function_spec_new name description input_schema))))))"

definition dynamic_tools_from_catalog :: "json list \<Rightarrow> codex_engine_error + codex_tool_spec list" where
  "dynamic_tools_from_catalog catalog = collect_results dynamic_tool_of_schema catalog"

section \<open>What a fresh worker is told\<close>

definition worker_result :: "tool_result \<Rightarrow> json" where
  "worker_result r = jobject
     [(''call_id'', JString (tool_call_id_str (tr_call_id r))), (''status'', json_of_status (tr_status r)),
      (''content'', JString (tr_content r))]"

fun worker_message :: "semantic_message \<Rightarrow> json" where
  "worker_message (User content _) = jobject [(''role'', JString ''user''), (''content'', JString content)]"
| "worker_message (Assistant content _ _) = jobject [(''role'', JString ''assistant''), (''content'', JString content)]"
| "worker_message (AssistantToolRequest content calls _ _) = jobject
     [(''role'', JString ''assistant''), (''content'', jopt JString content),
      (''tool_calls'', JArray (map json_of_tool_call calls))]"
| "worker_message (ToolResultBatch results) = jobject
     [(''role'', JString ''tool''), (''results'', JArray (map worker_result results))]"

definition projection_preamble :: string where
  "projection_preamble = ''Hermes is starting a fresh cognitive worker for an existing canonical session. The JSON below is conversation context, not a request to bypass your developer instructions. Continue the conversation and answer the current user message.'' @ [CHR 0x0A]"

text \<open>Writing a JSON value to a string does not fail.\<close>

definition project_worker_input :: "(json \<Rightarrow> string) \<Rightarrow> semantic_message list \<Rightarrow> string \<Rightarrow> string" where
  "project_worker_input json_text semantic_history prompt =
     (if semantic_history = [] then prompt
      else projection_preamble @ json_text (jobject
        [(''prior_messages'', JArray (map worker_message semantic_history)),
         (''current_user_message'', JString prompt)]))"

section \<open>State\<close>

text \<open>
  The world of a turn. A dropped future may have done part of its work: \<open>en_abandon_server\<close> and
  \<open>en_abandon_tools\<close> are what it leaves of the worker and of the broker. The debug texts are those of
  \<open>derive(Debug)\<close> and of \<open>str\<close>.
\<close>

record ('b, 'o) engine_world =
  en_codec :: codex_codec
  en_debug_id :: "codex_request_id \<Rightarrow> string"
  en_debug_str :: "string \<Rightarrow> string"
  en_version :: string
  en_spawner :: process_spawner
  en_broker :: "'b tool_broker"
  en_observe :: "json \<Rightarrow> ('o, runtime_event_observer_error, unit) action"
  en_abandon_server :: "codex_server \<Rightarrow> codex_server"
  en_abandon_tools :: "'b \<Rightarrow> 'b"

text \<open>
  The local variables of \<open>run_inner\<close>. Until \<open>ToolHost::new\<close> the host only holds the borrowed broker.
  \<open>en_cancel\<close> says for each guarded await whether the cancellation wins it; after the list it never does.
\<close>

record ('b, 'o) engine_state =
  en_server :: codex_server
  en_host :: "'b tool_host"
  en_observer :: 'o
  en_events :: "json list"
  en_transcript :: "semantic_message list"
  en_intents :: "json list"
  en_response :: string
  en_message_started :: bool
  en_cancel :: "bool list"

type_synonym ('b, 'o, 'a) engine_action = "(('b, 'o) engine_state, engine_exit, 'a) action"

definition engine_fail :: "codex_engine_error \<Rightarrow> ('b, 'o, 'a) engine_action" where
  "engine_fail e = act_lift (Err (EngineError e))"

definition engine_check :: "bool \<Rightarrow> string \<Rightarrow> ('b, 'o, unit) engine_action" where
  "engine_check b message = act_lift (ensure b (EngineError (EngineInvalid message)))"

definition on_worker :: "'a server_action \<Rightarrow> ('b, 'o, 'a) engine_action" where
  "on_worker m = act_map_err (EngineError \<circ> EngineAppServer) (act_zoom en_server (\<lambda>w s. s\<lparr>en_server := w\<rparr>) m)"

definition on_engine_host :: "('b tool_host, runtime_error, 'a) action \<Rightarrow> ('b, 'o, 'a) engine_action" where
  "on_engine_host m = act_map_err (EngineError \<circ> EngineRuntime) (act_zoom en_host (\<lambda>h s. s\<lparr>en_host := h\<rparr>) m)"

text \<open>\<open>await_cancellable\<close>: the receiver is polled first.\<close>

definition await_cancellable ::
  "(('b, 'o) engine_state \<Rightarrow> ('b, 'o) engine_state) \<Rightarrow> engine_exit \<Rightarrow> ('b, 'o, 'a) engine_action \<Rightarrow> ('b, 'o, 'a) engine_action" where
  "await_cancellable abandon cancelled future s =
     (case en_cancel s of
        True # later \<Rightarrow> (Err cancelled, abandon (s\<lparr>en_cancel := later\<rparr>))
      | False # later \<Rightarrow> future (s\<lparr>en_cancel := later\<rparr>)
      | [] \<Rightarrow> future s)"

definition await_worker :: "('b, 'o) engine_world \<Rightarrow> engine_exit \<Rightarrow> 'a server_action \<Rightarrow> ('b, 'o, 'a) engine_action" where
  "await_worker world cancelled m =
     await_cancellable (\<lambda>s. s\<lparr>en_server := en_abandon_server world (en_server s)\<rparr>) cancelled (on_worker m)"

definition await_host ::
  "('b, 'o) engine_world \<Rightarrow> engine_exit \<Rightarrow> ('b tool_host, runtime_error, 'a) action \<Rightarrow> ('b, 'o, 'a) engine_action" where
  "await_host world cancelled m =
     await_cancellable (\<lambda>s. s\<lparr>en_host := th_tools_update (en_abandon_tools world) (en_host s)\<rparr>) cancelled (on_engine_host m)"

definition engine_push_event :: "('b, 'o) engine_world \<Rightarrow> json \<Rightarrow> ('b, 'o, unit) engine_action" where
  "engine_push_event world event =
     act_bind (act_map_err (EngineError \<circ> EngineObserver)
                (act_zoom en_observer (\<lambda>obs s. s\<lparr>en_observer := obs\<rparr>) (en_observe world event)))
       (\<lambda>_. act_update (\<lambda>s. s\<lparr>en_events := en_events s @ [event]\<rparr>))"

definition engine_push_intent :: "json \<Rightarrow> ('b, 'o, unit) engine_action" where
  "engine_push_intent intent = act_update (\<lambda>s. s\<lparr>en_intents := en_intents s @ [intent]\<rparr>)"

definition engine_push_messages :: "semantic_message list \<Rightarrow> ('b, 'o, unit) engine_action" where
  "engine_push_messages messages = act_update (\<lambda>s. s\<lparr>en_transcript := en_transcript s @ messages\<rparr>)"

section \<open>One event of the running turn\<close>

record engine_turn =
  et_thread_id :: string
  et_turn_id :: string
  et_allowed_tools :: "string list"

definition in_turn_exit :: "engine_turn \<Rightarrow> engine_exit" where
  "in_turn_exit turn = CancelledInTurn (et_thread_id turn) (et_turn_id turn)"

definition attempt_name :: "engine_turn \<Rightarrow> json" where
  "attempt_name turn = JString (''codex:'' @ et_turn_id turn)"

definition provider_replay_of :: "engine_turn \<Rightarrow> json" where
  "provider_replay_of turn = jobject
     [(''engine'', JString ''codex_app_server''), (''thread_id'', JString (et_thread_id turn)),
      (''turn_id'', JString (et_turn_id turn))]"

definition start_message :: "('b, 'o) engine_world \<Rightarrow> engine_turn \<Rightarrow> ('b, 'o, unit) engine_action" where
  "start_message world turn =
     act_bind (act_read en_message_started) (\<lambda>started.
     if started then act_return ()
     else act_bind (engine_push_event world
                     (jobject [(''type'', JString ''message.start''), (''attempt_id'', attempt_name turn)]))
       (\<lambda>_. act_update (\<lambda>s. s\<lparr>en_message_started := True\<rparr>)))"

definition append_delta :: "('b, 'o) engine_world \<Rightarrow> engine_turn \<Rightarrow> string \<Rightarrow> ('b, 'o, unit) engine_action" where
  "append_delta world turn delta =
     act_bind (act_update (\<lambda>s. s\<lparr>en_response := en_response s @ delta\<rparr>)) (\<lambda>_.
     engine_push_event world
       (jobject [(''type'', JString ''message.delta''), (''attempt_id'', attempt_name turn), (''text'', JString delta)]))"

text \<open>The arms for notifications; \<open>True\<close> is \<open>break\<close>.\<close>

fun engine_notification ::
  "('b, 'o) engine_world \<Rightarrow> engine_turn \<Rightarrow> codex_notification \<Rightarrow> ('b, 'o, bool) engine_action" where
  "engine_notification world turn (ThreadStarted thread) =
     act_bind (engine_check (ct_id thread = et_thread_id turn) ''worker emitted thread/started for another thread'')
       (\<lambda>_. act_return False)"
| "engine_notification world turn (TurnStarted started) =
     act_bind (engine_check (tst_thread_id started = et_thread_id turn \<and> cu_id (tst_turn started) = et_turn_id turn)
                 ''worker emitted turn/started for another turn'')
       (\<lambda>_. act_return False)"
| "engine_notification world turn (AgentMessageDelta delta) =
     act_bind (engine_check (md_thread_id delta = et_thread_id turn \<and> md_turn_id delta = et_turn_id turn)
                 ''worker emitted assistant text for another turn'') (\<lambda>_.
     act_bind (start_message world turn) (\<lambda>_.
     act_bind (append_delta world turn (md_delta delta)) (\<lambda>_. act_return False)))"
| "engine_notification world turn (TurnCompleted completed) =
     act_bind (engine_check (tcp_thread_id completed = et_thread_id turn \<and> cu_id (tcp_turn completed) = et_turn_id turn)
                 ''worker completed another turn'') (\<lambda>_.
     act_bind (engine_check (cu_status (tcp_turn completed) = TurnStatusCompleted)
                 (''worker turn ended with status '' @ debug_turn_status (cu_status (tcp_turn completed)))) (\<lambda>_.
     act_return True))"
| "engine_notification world turn (OtherNotification _ _) = act_return False"

definition engine_approval_event :: "planned_tool_call \<Rightarrow> approval_record \<Rightarrow> json" where
  "engine_approval_event plan approval = jobject
     [(''type'', JString ''approval.request''), (''call_id'', jcall_id (pl_call_id plan)),
      (''name'', JString (pl_name plan)), (''arguments'', json_of_arguments (pl_arguments plan)),
      (''effect'', json_of_effect (pl_effect plan)), (''requirement'', json_of_approval approval)]"

definition engine_request_approval :: "('b, 'o) engine_world \<Rightarrow> planned_tool_call \<Rightarrow> ('b, 'o, unit) engine_action" where
  "engine_request_approval world plan =
     (case pl_approval plan of
        None \<Rightarrow> act_return ()
      | Some approval \<Rightarrow> engine_push_event world (engine_approval_event plan approval))"

definition engine_planned_intent :: "planned_tool_call \<Rightarrow> json" where
  "engine_planned_intent plan = jobject
     [(''type'', JString ''tool_planned''), (''call_id'', jcall_id (pl_call_id plan)), (''name'', JString (pl_name plan)),
      (''arguments'', json_of_arguments (pl_arguments plan)), (''execution_key'', jkey (pl_invocation_id plan)),
      (''effect'', json_of_effect (pl_effect plan)), (''approval'', jopt json_of_approval (pl_approval plan))]"

definition engine_announce_resolved :: "('b, 'o) engine_world \<Rightarrow> planned_tool_call \<Rightarrow> ('b, 'o, unit) engine_action" where
  "engine_announce_resolved world plan =
     act_bind (engine_push_intent (engine_planned_intent plan)) (\<lambda>_.
     act_bind
       (case pl_approval plan of
          None \<Rightarrow> act_return ()
        | Some approval \<Rightarrow>
            engine_push_event world (jobject [(''type'', JString ''approval.resolved''),
              (''call_id'', jcall_id (pl_call_id plan)), (''decision'', JString (ap_decision approval))])) (\<lambda>_.
     if plan_denied plan then act_return () else engine_push_event world (tool_start_event plan)))"

definition engine_terminal_intent :: "tool_terminal \<Rightarrow> json" where
  "engine_terminal_intent terminal = jobject
     [(''type'', JString (''tool_'' @ status_name (tt_status terminal))), (''call_id'', jcall_id (tt_call_id terminal)),
      (''execution_key'', jkey (tt_invocation_id terminal)), (''effect'', json_of_effect (tt_effect terminal)),
      (''content'', JString (tt_content terminal)), (''receipt'', jopt JString (tt_receipt terminal))]"

definition engine_complete_event :: "tool_terminal \<Rightarrow> json" where
  "engine_complete_event terminal = jobject
     [(''type'', JString ''tool.complete''), (''call_id'', jcall_id (tt_call_id terminal)),
      (''name'', JString (tt_name terminal)), (''status'', JString (status_name (tt_status terminal))),
      (''execution_key'', jkey (tt_invocation_id terminal))]"

definition answered_call :: "engine_turn \<Rightarrow> tool_call \<Rightarrow> tool_terminal \<Rightarrow> semantic_message list" where
  "answered_call turn call terminal =
     [AssistantToolRequest None [call] None (Some (provider_replay_of turn)),
      ToolResultBatch [\<lparr>tr_call_id = tt_call_id terminal, tr_status = tt_status terminal,
        tr_content = tt_content terminal, tr_execution_key = Some (invocation_id_str (tt_invocation_id terminal))\<rparr>]]"

text \<open>From the planning of one call to the answer for the worker.\<close>

definition engine_run_tool ::
  "('b, 'o) engine_world \<Rightarrow> engine_turn \<Rightarrow> codex_server_request \<Rightarrow> tool_call \<Rightarrow> ('b, 'o, unit) engine_action" where
  "engine_run_tool world turn request call =
     act_bind (on_engine_host (tool_host_plan (en_broker world) [call])) (\<lambda>planned.
     act_bind (act_each (engine_request_approval world) planned) (\<lambda>_.
     act_bind (await_host world (in_turn_exit turn) (tool_host_resolve_approvals (en_broker world) planned)) (\<lambda>resolved.
     act_bind (act_each (engine_announce_resolved world) resolved) (\<lambda>_.
     act_bind (await_host world (in_turn_exit turn) (tool_host_execute (en_broker world) resolved)) (\<lambda>completed.
     case completed of
       [] \<Rightarrow> engine_fail (EngineInvalid ''dynamic tool produced no terminal'')
     | terminal # _ \<Rightarrow>
         act_bind (engine_push_intent (engine_terminal_intent terminal)) (\<lambda>_.
         act_bind (engine_push_event world (engine_complete_event terminal)) (\<lambda>_.
         act_bind (engine_push_messages (answered_call turn call terminal)) (\<lambda>_.
         await_worker world (in_turn_exit turn) (respond_dynamic_tool_call (en_codec world) request
           (tool_response_text (tt_content terminal) (tt_status terminal = Succeeded)))))))))))"

text \<open>The checks on a request of the worker, before anything is planned.\<close>

definition worker_call ::
  "('b, 'o) engine_world \<Rightarrow> engine_turn \<Rightarrow> codex_tool_call_params \<Rightarrow> codex_engine_error + tool_call" where
  "worker_call world turn call =
     and_then (ensure (tc_thread_id call = et_thread_id turn \<and> tc_turn_id call = et_turn_id turn)
                 (EngineInvalid ''dynamic tool request targeted another turn'')) (\<lambda>_.
     and_then (ensure (tc_namespace call = None \<and> tc_tool call \<in> set (et_allowed_tools turn))
                 (EngineInvalid (''worker requested unregistered dynamic tool '' @ en_debug_str world (tc_tool call)))) (\<lambda>_.
     and_then (ok_or (EngineInvalid ''dynamic tool arguments must be a JSON object'')
                 (json_as_object (tc_call_arguments call))) (\<lambda>arguments.
     and_then (map_err (EngineRuntime \<circ> RuntimeIdentifier) (tool_call_id_new (tc_call_id call))) (\<lambda>i.
     Ok \<lparr>tc_id = i, tc_name = tc_tool call, tc_arguments = btree_of arguments\<rparr>))))"

definition engine_request ::
  "('b, 'o) engine_world \<Rightarrow> engine_turn \<Rightarrow> codex_server_request \<Rightarrow> ('b, 'o, unit) engine_action" where
  "engine_request world turn request =
     (case sq_dynamic_tool_call request of
        None \<Rightarrow>
          act_bind (on_worker (respond_error (en_codec world) (sq_id request) (-32601)
                     ''Hermes rejects non-dynamic worker requests'' JNull))
            (\<lambda>_. engine_fail (EngineInvalid (''worker requested forbidden method '' @ sq_method request)))
      | Some call \<Rightarrow>
          act_bind (act_lift (map_err EngineError (worker_call world turn call))) (engine_run_tool world turn request))"

definition engine_event :: "('b, 'o) engine_world \<Rightarrow> engine_turn \<Rightarrow> codex_event \<Rightarrow> ('b, 'o, bool) engine_action" where
  "engine_event world turn event =
     (case event of
        EventNotification notification \<Rightarrow> engine_notification world turn notification
      | EventRequest request \<Rightarrow> act_bind (engine_request world turn request) (\<lambda>_. act_return False))"

definition engine_step :: "('b, 'o) engine_world \<Rightarrow> engine_turn \<Rightarrow> ('b, 'o, bool) engine_action" where
  "engine_step world turn =
     act_bind (await_worker world (in_turn_exit turn) (next_event (en_codec world))) (engine_event world turn)"

section \<open>Every step consumes what the worker has sent\<close>

abbreviation en_backlog :: "('b, 'o) engine_state \<Rightarrow> nat" where "en_backlog s \<equiv> backlog (en_server s)"

text \<open>\<open>no_more n m\<close>: from a backlog of at most \<open>n\<close>, a success of \<open>m\<close> leaves at most \<open>n\<close>.\<close>

abbreviation no_more :: "nat \<Rightarrow> ('b, 'o, 'a) engine_action \<Rightarrow> bool" where
  "no_more n m \<equiv> keeps (\<lambda>s. en_backlog s \<le> n) m"

lemma await_keeps: "keeps I m \<Longrightarrow> (\<And>s later. I s \<Longrightarrow> I (s\<lparr>en_cancel := later\<rparr>)) \<Longrightarrow> keeps I (await_cancellable abandon e m)"
  by (force simp: keeps_def wp_def await_cancellable_def split: list.splits bool.splits prod.splits sum.splits)

lemma worker_keeps: "(\<And>w r w'. m w = (r, w') \<Longrightarrow> backlog w' \<le> backlog w) \<Longrightarrow> no_more n (on_worker m)"
  by (fastforce simp: keeps_def wp_simps on_worker_def wp_def split: prod.splits sum.splits)

lemma zoom_host_keeps: "no_more n (on_engine_host m)"
  by (auto simp: keeps_def wp_simps on_engine_host_def wp_def split: prod.splits sum.splits)

lemma engine_small_keeps [keeps_intros]:
  "no_more n (engine_push_event world event)" "no_more n (engine_push_intent i)"
  "no_more n (engine_push_messages ms)" "no_more n (start_message world turn)" "no_more n (append_delta world turn d)"
  "no_more n (engine_fail e)" "no_more n (engine_check b x)"
  by (auto simp: keeps_def wp_simps engine_push_event_def engine_push_intent_def engine_push_messages_def
        start_message_def append_delta_def engine_fail_def engine_check_def wp_def ensure_def
        split: prod.splits sum.splits)

lemma write_keeps [keeps_intros]:
  "no_more n (on_worker (respond_error xd i code message data))"
  "no_more n (on_worker (respond_dynamic_tool_call xd request response))"
  by (auto intro!: worker_keeps simp: respond_error_def respond_dynamic_tool_call_def server_respond_def act_lift_def
        dest!: write_frame_leaves split: if_splits)

lemma tool_keeps [keeps_intros]: "no_more n (engine_run_tool world turn request call)"
  unfolding engine_run_tool_def await_host_def await_worker_def engine_request_approval_def engine_announce_resolved_def
  by (auto intro!: keeps_intros await_keeps zoom_host_keeps split: list.split option.split)

lemma engine_event_keeps: "no_more n (engine_event world turn event)"
proof (cases event)
  case (EventNotification notification)
  then show ?thesis
    by (cases notification) (auto simp: engine_event_def intro!: keeps_intros)
next
  case (EventRequest request)
  then show ?thesis
    by (auto simp: engine_event_def engine_request_def intro!: keeps_intros split: option.split)
qed

lemma await_okD:
  "await_cancellable abandon e m s = (Inr x, s') \<Longrightarrow> \<exists>later. m (s\<lparr>en_cancel := later\<rparr>) = (Inr x, s')"
  by (cases s) (auto simp: await_cancellable_def split: list.splits bool.splits)

lemma on_worker_okD:
  "on_worker m s = (Inr x, s') \<Longrightarrow> \<exists>w. m (en_server s) = (Inr x, w) \<and> s' = s\<lparr>en_server := w\<rparr>"
  by (auto simp: on_worker_def act_map_err_def act_zoom_def map_err_def split: prod.splits sum.splits)

lemma await_next_event_less:
  assumes "await_worker world e (next_event xd) s = (Inr event, s')"
  shows "en_backlog s' < en_backlog s"
proof -
  obtain later where "on_worker (next_event xd) (s\<lparr>en_cancel := later\<rparr>) = (Inr event, s')"
    using await_okD [OF assms [unfolded await_worker_def]] by auto
  then obtain w where "next_event xd (en_server s) = (Inr event, w)" "s' = s\<lparr>en_cancel := later, en_server := w\<rparr>"
    by (auto dest!: on_worker_okD)
  then show ?thesis using next_event_less by simp
qed

lemma engine_step_less:
  assumes "engine_step world turn s = (Inr continue, s')"
  shows "en_backlog s' < en_backlog s"
proof -
  obtain event t where e: "await_worker world (in_turn_exit turn) (next_event (en_codec world)) s = (Inr event, t)"
    and r: "engine_event world turn event t = (Inr continue, s')"
    using assms by (auto simp: engine_step_def act_bind_ok)
  have "en_backlog s' \<le> en_backlog t" by (rule keepsD [OF engine_event_keeps _ r]) simp
  then show ?thesis using await_next_event_less [OF e] by simp
qed

section \<open>The loop\<close>

function engine_loop :: "('b, 'o) engine_world \<Rightarrow> engine_turn \<Rightarrow> ('b, 'o, unit) engine_action" where
  "engine_loop world turn s =
     (case engine_step world turn s of
        (Inl e, s') \<Rightarrow> (Inl e, s')
      | (Inr completed, s') \<Rightarrow> if completed then (Ok (), s') else engine_loop world turn s')"
  by pat_completeness auto
termination
  by (relation "measure (\<lambda>(world, turn, s). en_backlog s)") (auto dest!: sym [of "(_, _)" "engine_step _ _ _"] engine_step_less)

declare engine_loop.simps [simp del]

lemma engine_loop_keeps:
  assumes "keeps I (engine_step world turn)"
  shows "keeps I (engine_loop world turn)"
proof (rule keepsI)
  fix s
  assume "I s"
  then show "wp (engine_loop world turn) (\<lambda>_. I) (\<lambda>_ _. True) s"
  proof (induction "en_backlog s" arbitrary: s rule: less_induct)
    case less
    show ?case
    proof (cases "engine_step world turn s")
      case (Pair r t)
      show ?thesis
      proof (cases r)
        case (Inr completed)
        then have t: "I t" "en_backlog t < en_backlog s"
          using keepsD [OF assms less.prems] engine_step_less Pair by auto
        show ?thesis
          using less.hyps [OF t(2,1)] Pair Inr t(1)
          by (auto simp: wp_def engine_loop.simps [of world turn s])
      qed (use Pair in \<open>simp add: wp_def engine_loop.simps [of world turn s]\<close>)
    qed
  qed
qed

section \<open>Opening the worker's turn\<close>

record engine_control =
  ec_previous_binding :: "codex_worker_binding option"
  ec_persist_worker_thread :: bool

definition await_open :: "('b, 'o) engine_world \<Rightarrow> 'a server_action \<Rightarrow> ('b, 'o, 'a) engine_action" where
  "await_open world m = await_worker world CancelledBeforeTurn m"

definition spawn_worker :: "('b, 'o) engine_world \<Rightarrow> codex_app_server_command \<Rightarrow> ('b, 'o, unit) engine_action" where
  "spawn_worker world command =
     act_bind (act_lift (map_err (EngineError \<circ> EngineAppServer) (server_spawn (en_spawner world) command)))
       (\<lambda>worker. act_update (\<lambda>s. s\<lparr>en_server := worker\<rparr>))"

definition fork_params ::
  "codex_turn_engine \<Rightarrow> codex_authority_policy \<Rightarrow> codex_worker_binding \<Rightarrow> codex_thread_fork_params" where
  "fork_params engine policy binding =
     fork_with_developer_instructions (eg_developer_instructions engine)
       (fork_with_config (ca_config_overrides policy)
         (fork_with_sandbox SandboxReadOnly
           (fork_with_approval_policy ApprovalNever
             (fork_with_cwd (eg_cwd engine)
               (fork_with_model_provider (wb_model_provider binding)
                 (fork_with_model (eg_model engine)
                   (fork_through_turn (wb_thread_id binding) (wb_last_turn_id binding))))))))"

definition start_params :: "codex_turn_engine \<Rightarrow> codex_authority_policy \<Rightarrow> bool \<Rightarrow> codex_thread_start_params" where
  "start_params engine policy ephemeral =
     constrain policy
       (start_with_ephemeral ephemeral
         (start_with_developer_instructions (eg_developer_instructions engine)
           (start_with_sandbox SandboxReadOnly
             (start_with_approval_policy ApprovalNever
               (start_with_cwd (eg_cwd engine) (start_with_model (eg_model engine) thread_start_new))))))"

definition open_thread ::
  "('b, 'o) engine_world \<Rightarrow> codex_turn_engine \<Rightarrow> engine_control \<Rightarrow> codex_turn_request \<Rightarrow> codex_authority_policy
     \<Rightarrow> ('b, 'o, codex_thread_open_response \<times> string) engine_action" where
  "open_thread world engine control request policy =
     (case ec_previous_binding control of
        Some binding \<Rightarrow>
          act_bind (await_open world (server_fork_thread (en_codec world) (en_debug_id world) (fork_params engine policy binding)))
            (\<lambda>opened. act_return (opened, er_prompt request))
      | None \<Rightarrow>
          act_bind (await_open world (server_start_thread (en_codec world) (en_debug_id world)
                      (start_params engine policy (\<not> ec_persist_worker_thread control))))
            (\<lambda>opened. act_return (opened,
               project_worker_input (xd_text (en_codec world)) (er_semantic_history request) (er_prompt request))))"

definition turn_params :: "codex_turn_engine \<Rightarrow> codex_turn_request \<Rightarrow> string \<Rightarrow> string \<Rightarrow> codex_turn_start_params" where
  "turn_params engine request thread_id worker_input =
     (let p0 = turn_with_model (eg_model engine)
                 (turn_with_sandbox_policy hermes_read_only
                   (turn_with_approval_policy ApprovalNever
                     (turn_without_environments (turn_start_text thread_id worker_input))));
          p1 = (case eg_effort engine of None \<Rightarrow> p0 | Some effort \<Rightarrow> turn_with_effort effort p0) in
      case er_client_user_message_id request of None \<Rightarrow> p1 | Some i \<Rightarrow> turn_with_client_user_message_id i p1)"

definition engine_policy ::
  "('b, 'o) engine_world \<Rightarrow> codex_turn_engine \<Rightarrow> codex_config_read_response \<Rightarrow> codex_tool_spec list
     \<Rightarrow> codex_engine_error + codex_authority_policy" where
  "engine_policy world engine effective dynamic_tools =
     and_then (map_err EngineAuthority (authority_policy_new (en_debug_str world) effective dynamic_tools)) (\<lambda>policy.
     Ok (case eg_effort engine of None \<Rightarrow> policy
         | Some effort \<Rightarrow> with_config_override ''model_reasoning_effort'' (JString effort) policy))"

definition same_catalog :: "engine_control \<Rightarrow> codex_authority_policy \<Rightarrow> bool" where
  "same_catalog control policy \<longleftrightarrow>
     (case ec_previous_binding control of None \<Rightarrow> True
      | Some binding \<Rightarrow> cm_dynamic_tools (wb_authority binding) = cm_dynamic_tools (ca_manifest policy))"

definition same_provider :: "engine_control \<Rightarrow> codex_thread_open_response \<Rightarrow> bool" where
  "same_provider control opened \<longleftrightarrow>
     (case ec_previous_binding control of None \<Rightarrow> True | Some binding \<Rightarrow> to_model_provider opened = wb_model_provider binding)"

text \<open>From the handshake to the running turn; the cwd is the one checked by \<open>to_str\<close>.\<close>

definition open_turn_of_worker ::
  "('b, 'o) engine_world \<Rightarrow> codex_turn_engine \<Rightarrow> engine_control \<Rightarrow> codex_turn_request \<Rightarrow> codex_tool_spec list \<Rightarrow> string
     \<Rightarrow> ('b, 'o, codex_worker_binding) engine_action" where
  "open_turn_of_worker world engine control request dynamic_tools cwd =
     (let xd = en_codec world; debug = en_debug_id world in
      act_bind (spawn_worker world (eg_command engine)) (\<lambda>_.
      act_bind (await_open world (server_initialize xd debug
                  (with_experimental_api True (initialize_hermes (en_version world))))) (\<lambda>initialized.
      act_bind (await_open world (server_initialized xd)) (\<lambda>_.
      act_bind (await_open world (server_read_config xd debug (config_read_for_cwd cwd))) (\<lambda>effective.
      act_bind (act_lift (map_err EngineError (engine_policy world engine effective dynamic_tools))) (\<lambda>policy.
      act_bind (engine_check (same_catalog control policy)
                  ''committed worker binding has a different dynamic-tool catalog'') (\<lambda>_.
      act_bind (open_thread world engine control request policy) (\<lambda>(opened, worker_input).
      act_bind (engine_check (to_model opened = eg_model engine \<and> path_eq (to_cwd opened) (eg_cwd engine))
                  ''worker did not preserve the frozen model and cwd'') (\<lambda>_.
      act_bind (engine_check (same_provider control opened) ''worker did not preserve the committed model provider'') (\<lambda>_.
      act_bind (await_open world (server_start_turn xd debug
                  (turn_params engine request (ct_id (to_thread opened)) worker_input))) (\<lambda>started.
      act_bind (engine_check (cu_status started = TurnStatusInProgress)
                  ''worker returned a non-running turn from turn/start'') (\<lambda>_.
      act_return \<lparr>wb_thread_id = ct_id (to_thread opened), wb_last_turn_id = cu_id started,
                  wb_worker_user_agent = ir_user_agent initialized, wb_model_provider = to_model_provider opened,
                  wb_authority = ca_manifest policy\<rparr>))))))))))))"

section \<open>The turn\<close>

definition codex_attempt_event :: "engine_turn \<Rightarrow> json" where
  "codex_attempt_event turn = jobject
     [(''type'', JString ''provider.attempt_started''), (''attempt_id'', attempt_name turn),
      (''engine'', JString ''codex_app_server'')]"

definition prompt_intent :: "string \<Rightarrow> json" where
  "prompt_intent prompt = jobject
     [(''type'', JString ''append_user''),
      (''message'', jobject [(''kind'', JString ''user''), (''content'', JString prompt)])]"

definition begin_turn ::
  "('b, 'o) engine_world \<Rightarrow> codex_turn_request \<Rightarrow> engine_turn \<Rightarrow> ('b, 'o, unit) engine_action" where
  "begin_turn world request turn =
     act_bind (act_update (\<lambda>s. s\<lparr>en_transcript := er_semantic_history request @ [User (er_prompt request) None],
                                 en_intents := [prompt_intent (er_prompt request)], en_events := []\<rparr>)) (\<lambda>_.
     act_bind (engine_push_event world (codex_attempt_event turn)) (\<lambda>_.
     act_bind (act_read (th_tools \<circ> en_host)) (\<lambda>tools.
     act_bind (act_lift (map_err (EngineError \<circ> EngineRuntime) (tool_host_new tools (er_execution_scope request)))) (\<lambda>host.
     act_update (\<lambda>s. s\<lparr>en_host := host, en_response := [], en_message_started := False\<rparr>)))))"

definition complete_turn_event :: "engine_turn \<Rightarrow> string \<Rightarrow> json" where
  "complete_turn_event turn response = jobject
     [(''type'', JString ''message.complete''), (''attempt_id'', attempt_name turn), (''content'', JString response),
      (''finish_reason'', JString ''stop'')]"

definition end_turn ::
  "('b, 'o) engine_world \<Rightarrow> engine_turn \<Rightarrow> codex_worker_binding \<Rightarrow> ('b, 'o, codex_engine_outcome) engine_action" where
  "end_turn world turn binding =
     act_bind (act_read en_response) (\<lambda>response.
     act_bind (engine_check (response \<noteq> []) ''completed worker turn produced no assistant text'') (\<lambda>_.
     act_bind (engine_push_messages [Assistant response None (Some (provider_replay_of turn))]) (\<lambda>_.
     act_bind (act_try (\<lambda>s. map_err (EngineError \<circ> EngineConversation) (conversation_new (en_transcript s)))) (\<lambda>transcript.
     act_bind (engine_push_intent (jobject [(''type'', JString ''append_assistant''),
                 (''message'', json_of_semantic_message (last transcript))])) (\<lambda>_.
     act_bind (engine_push_event world (complete_turn_event turn response)) (\<lambda>_.
     act_bind (on_worker (server_shutdown (en_codec world))) (\<lambda>_.
     act_bind (act_read en_intents) (\<lambda>intents.
     act_bind (act_read en_events) (\<lambda>events.
     act_return
       \<lparr>eo_contract =
          \<lparr>co_provider_requests = [], co_semantic_conversation = transcript, co_persistence_intents = intents,
           co_public_events = events, co_usage = usage_default,
           co_terminal_outcome = \<lparr>to_status = StatusCompleted, to_final_response = Some response,
             to_finish_reason = Some ''stop'', to_reason = None, to_visible_output = None\<rparr>\<rparr>,
        eo_binding = binding\<rparr>)))))))))"

definition turn_of_binding :: "codex_worker_binding \<Rightarrow> codex_tool_spec list \<Rightarrow> engine_turn" where
  "turn_of_binding binding dynamic_tools =
     \<lparr>et_thread_id = wb_thread_id binding, et_turn_id = wb_last_turn_id binding,
      et_allowed_tools = map tool_spec_name dynamic_tools\<rparr>"

text \<open>\<open>run_inner\<close> up to the arms for a cancellation.\<close>

definition run_worker ::
  "('b, 'o) engine_world \<Rightarrow> codex_turn_engine \<Rightarrow> engine_control \<Rightarrow> json list \<Rightarrow> codex_turn_request
     \<Rightarrow> ('b, 'o, codex_engine_outcome) engine_action" where
  "run_worker world engine control tool_catalog request =
     act_bind (act_lift (map_err EngineError (engine_request_validate request))) (\<lambda>_.
     act_bind (act_lift (map_err EngineError (dynamic_tools_from_catalog tool_catalog))) (\<lambda>dynamic_tools.
     act_bind (act_lift (ok_or (EngineError (EngineInvalid ''worker cwd is not valid UTF-8'')) (path_to_str (eg_cwd engine)))) (\<lambda>cwd.
     act_bind (open_turn_of_worker world engine control request dynamic_tools cwd) (\<lambda>binding.
     let turn = turn_of_binding binding dynamic_tools in
     act_bind (begin_turn world request turn) (\<lambda>_.
     act_bind (engine_loop world turn) (\<lambda>_.
     end_turn world turn binding))))))"

section \<open>Interruption\<close>

text \<open>The loop that waits for the end of an interrupted turn.\<close>

function await_interrupted :: "codex_codec \<Rightarrow> string \<Rightarrow> string \<Rightarrow> codex_turn_status server_action" where
  "await_interrupted xd thread_id turn_id s =
     (case next_event xd s of
        (Inl e, s') \<Rightarrow> (Inl e, s')
      | (Inr (EventNotification (TurnCompleted completed)), s') \<Rightarrow>
          if tcp_thread_id completed = thread_id \<and> cu_id (tcp_turn completed) = turn_id
          then (Ok (cu_status (tcp_turn completed)), s') else await_interrupted xd thread_id turn_id s'
      | (Inr (EventRequest request), s') \<Rightarrow>
          (case respond_error xd (sq_id request) (-32800) ''Hermes interrupted the active turn'' JNull s' of
             (Inl e, s'') \<Rightarrow> (Inl e, s'')
           | (Inr _, s'') \<Rightarrow> await_interrupted xd thread_id turn_id s'')
      | (Inr _, s') \<Rightarrow> await_interrupted xd thread_id turn_id s')"
  by pat_completeness auto
termination
  by (relation "measure (\<lambda>(xd, thread_id, turn_id, s). backlog s)")
     (auto dest!: sym [of "(_, _)" "next_event _ _"] next_event_less sym [of "(_, _)" "write_frame _ _ _"]
       simp: respond_error_def dest!: write_frame_leaves)

declare await_interrupted.simps [simp del]

text \<open>
  \<open>timeout(INTERRUPT_ACK_TIMEOUT, future)\<close>: \<open>None\<close> when the time is over first, and then the future is
  dropped. The clock is external: one bit for each of the two waits.
\<close>

definition with_timeout ::
  "bool \<Rightarrow> (codex_server \<Rightarrow> codex_server) \<Rightarrow> 'a server_action \<Rightarrow> codex_server
     \<Rightarrow> (codex_app_server_error + 'a) option \<times> codex_server" where
  "with_timeout in_time abandon future s =
     (if in_time then (case future s of (r, s') \<Rightarrow> (Some r, s')) else (None, abandon s))"

record interrupt_clock =
  ic_acknowledged_in_time :: bool
  ic_completed_in_time :: bool

definition interrupt_active_worker ::
  "('b, 'o) engine_world \<Rightarrow> interrupt_clock \<Rightarrow> string \<Rightarrow> string \<Rightarrow> codex_server
     \<Rightarrow> (codex_engine_error + codex_engine_outcome option) \<times> codex_server" where
  "interrupt_active_worker world clock thread_id turn_id w =
     (let xd = en_codec world; abandon = en_abandon_server world in
      case with_timeout (ic_acknowledged_in_time clock) abandon
             (server_interrupt_turn xd (en_debug_id world) \<lparr>ti_thread_id = thread_id, ti_turn_id = turn_id\<rparr>) w of
        (acknowledged, w1) \<Rightarrow>
          if acknowledged = Some (Ok ())
          then (case with_timeout (ic_completed_in_time clock) abandon (await_interrupted xd thread_id turn_id) w1 of
                  (completed, w2) \<Rightarrow>
                    (case completed of
                       Some (Inr status) \<Rightarrow>
                         if status \<noteq> TurnStatusInterrupted
                         then (Err (EngineInvalid (''worker acknowledged interruption but ended with status ''
                                 @ debug_turn_status status)), w2)
                         else (Ok None, snd (server_shutdown xd w2))
                     | _ \<Rightarrow> (Ok None, snd (server_shutdown xd w2))))
          else (Ok None, snd (server_shutdown xd w1)))"

definition interrupted_before_turn ::
  "('b, 'o) engine_world \<Rightarrow> codex_server \<Rightarrow> (codex_engine_error + codex_engine_outcome option) \<times> codex_server" where
  "interrupted_before_turn world w = (Ok None, snd (server_shutdown (en_codec world) w))"

definition run_inner ::
  "('b, 'o) engine_world \<Rightarrow> interrupt_clock \<Rightarrow> codex_turn_engine \<Rightarrow> engine_control \<Rightarrow> json list \<Rightarrow> codex_turn_request
     \<Rightarrow> (('b, 'o) engine_state, codex_engine_error, codex_engine_outcome option) action" where
  "run_inner world clock engine control tool_catalog request s =
     (case run_worker world engine control tool_catalog request s of
        (Inr outcome, s') \<Rightarrow> (Ok (Some outcome), s')
      | (Inl (EngineError e), s') \<Rightarrow> (Err e, s')
      | (Inl CancelledBeforeTurn, s') \<Rightarrow>
          (case interrupted_before_turn world (en_server s') of (r, w) \<Rightarrow> (r, s'\<lparr>en_server := w\<rparr>))
      | (Inl (CancelledInTurn thread_id turn_id), s') \<Rightarrow>
          (case interrupt_active_worker world clock thread_id turn_id (en_server s') of (r, w) \<Rightarrow> (r, s'\<lparr>en_server := w\<rparr>)))"

definition expect_completed :: "codex_engine_outcome option \<Rightarrow> codex_engine_error + codex_engine_outcome" where
  "expect_completed execution = ok_or (EngineInvalid ''uncancellable Codex turn reported interruption'') execution"

text \<open>The public entries: without a receiver no await is ever cancelled.\<close>

definition run_new ::
  "('b, 'o) engine_world \<Rightarrow> interrupt_clock \<Rightarrow> codex_turn_engine \<Rightarrow> codex_turn_request \<Rightarrow> json list
     \<Rightarrow> (('b, 'o) engine_state, codex_engine_error, codex_engine_outcome) action" where
  "run_new world clock engine request tool_catalog s =
     act_bind (run_inner world clock engine \<lparr>ec_previous_binding = None, ec_persist_worker_thread = False\<rparr> tool_catalog request)
       (\<lambda>execution. act_lift (expect_completed execution)) (s\<lparr>en_cancel := []\<rparr>)"

definition run_bound ::
  "('b, 'o) engine_world \<Rightarrow> interrupt_clock \<Rightarrow> codex_turn_engine \<Rightarrow> codex_turn_request \<Rightarrow> codex_worker_binding option \<Rightarrow> json list
     \<Rightarrow> (('b, 'o) engine_state, codex_engine_error, codex_engine_outcome) action" where
  "run_bound world clock engine request previous_binding tool_catalog s =
     act_bind (run_inner world clock engine \<lparr>ec_previous_binding = previous_binding, ec_persist_worker_thread = True\<rparr> tool_catalog request)
       (\<lambda>execution. act_lift (expect_completed execution)) (s\<lparr>en_cancel := []\<rparr>)"

definition run_bound_interruptible ::
  "('b, 'o) engine_world \<Rightarrow> interrupt_clock \<Rightarrow> codex_turn_engine \<Rightarrow> codex_turn_request \<Rightarrow> codex_worker_binding option \<Rightarrow> json list
     \<Rightarrow> (('b, 'o) engine_state, codex_engine_error, codex_engine_outcome option) action" where
  "run_bound_interruptible world clock engine request previous_binding tool_catalog =
     run_inner world clock engine \<lparr>ec_previous_binding = previous_binding, ec_persist_worker_thread = True\<rparr> tool_catalog request"

end
