(* ===== verification/Codex_Sample.thy ===== *)
theory Codex_Sample
  imports Codex_Engine
begin

text \<open>
  A worker for the examples: it answers the four requests, calls the tool \<open>read\<close> once, streams one piece of
  text and completes. Its decoders read the one-letter frames that it sends.
\<close>

definition sample_parse :: "string \<Rightarrow> string + json" where
  "sample_parse line =
     (if line = ''c'' then Ok (jobject [(''id'', JString line), (''method'', JString ''item/tool/call'')])
      else if line = ''d'' then Ok (jobject [(''method'', JString ''item/agentMessage/delta'')])
      else if line = ''e'' then Ok (jobject [(''method'', JString ''turn/completed'')])
      else Ok (jobject [(''id'', JString line), (''result'', JNull)]))"

definition sample_id :: "json \<Rightarrow> codex_request_id" where
  "sample_id i =
     (if i = JString ''1'' then RequestIdInteger 1 else if i = JString ''2'' then RequestIdInteger 2
      else if i = JString ''3'' then RequestIdInteger 3 else if i = JString ''4'' then RequestIdInteger 4
      else RequestIdString ''c'')"

definition sample_inbound :: "json \<Rightarrow> string + inbound_message" where
  "sample_inbound value =
     (case (json_get value ''id'', json_get value ''method'') of
        (Some i, Some (JString method)) \<Rightarrow> Ok (InboundRequest (sample_id i) method JNull)
      | (None, Some (JString method)) \<Rightarrow> Ok (InboundNotification method JNull)
      | (Some i, _) \<Rightarrow> Ok (InboundResponse (sample_id i) JNull)
      | _ \<Rightarrow> Err ''no frame'')"

definition sample_turn :: "codex_turn_status \<Rightarrow> codex_turn" where
  "sample_turn status = \<lparr>cu_id = ''u'', cu_status = status, cu_items = [], cu_error = None\<rparr>"

definition sample_codec :: codex_codec where
  "sample_codec =
     \<lparr>xd_text = (\<lambda>_. ''{}''), xd_parse = sample_parse, xd_inbound = sample_inbound,
      xd_tool_call = (\<lambda>_. Ok \<lparr>tc_thread_id = ''t'', tc_turn_id = ''u'', tc_call_id = ''a'', tc_namespace = None,
        tc_tool = ''read'', tc_call_arguments = JObject []\<rparr>),
      xd_thread_payload = (\<lambda>_. Ok \<lparr>ct_id = ''t''\<rparr>),
      xd_turn_started = (\<lambda>_. Ok \<lparr>tst_thread_id = ''t'', tst_turn = sample_turn TurnStatusInProgress\<rparr>),
      xd_delta = (\<lambda>_. Ok \<lparr>md_thread_id = ''t'', md_turn_id = ''u'', md_item_id = ''i'', md_delta = ''hi''\<rparr>),
      xd_turn_completed = (\<lambda>_. Ok \<lparr>tcp_thread_id = ''t'', tcp_turn = sample_turn TurnStatusCompleted\<rparr>),
      xd_initialize = (\<lambda>_. Ok \<lparr>ir_user_agent = ''w'', ir_codex_home = ''/'', ir_platform_family = ''unix'', ir_platform_os = ''linux''\<rparr>),
      xd_config = (\<lambda>_. Ok \<lparr>cf_config = []\<rparr>),
      xd_thread_open = (\<lambda>_. Ok \<lparr>to_thread = \<lparr>ct_id = ''t''\<rparr>, to_model = ''m'', to_model_provider = ''p'', to_cwd = ''/'',
        to_approval_policy = JNull, to_sandbox = JNull\<rparr>),
      xd_turn_start = (\<lambda>_. Ok (sample_turn TurnStatusInProgress)), xd_empty = (\<lambda>_. Ok ()), xd_lossy = id\<rparr>"

definition sample_line :: "char \<Rightarrow> string + string" where
  "sample_line c = Inr [c, CHR 0x0A]"

definition sample_child :: codex_child where
  "sample_child =
     \<lparr>ch_stdout = map sample_line ''1234cde'', ch_stderr = [], ch_writes = [], ch_frames = [], ch_close = None,
      ch_exit = Inr (Some 0), ch_exits_in_time = True, ch_kill = None\<rparr>"

definition sample_world :: "(unit, unit) engine_world" where
  "sample_world =
     \<lparr>en_codec = sample_codec, en_debug_id = (\<lambda>_. ''id''), en_debug_str = id, en_version = ''0'',
      en_spawner = (\<lambda>_ _ _. Ok sample_child), en_broker = sample_broker, en_observe = noop_observe,
      en_abandon_server = id, en_abandon_tools = id\<rparr>"

definition sample_engine :: codex_turn_engine where
  "sample_engine = \<lparr>eg_command = command_new ''codex'', eg_model = ''m'', eg_cwd = ''/'', eg_developer_instructions = ''i'',
     eg_effort = None\<rparr>"

definition sample_turn_request :: codex_turn_request where
  "sample_turn_request = \<lparr>er_execution_scope = ''s'', er_semantic_history = [], er_prompt = ''hello'',
     er_client_user_message_id = None\<rparr>"

definition sample_catalog :: "json list" where
  "sample_catalog = [jobject [(''type'', JString ''function''),
     (''function'', jobject [(''name'', JString ''read''), (''description'', JString ''d''), (''parameters'', JNull)])]]"

definition sample_state :: "(unit, unit) engine_state" where
  "sample_state =
     \<lparr>en_server = server_of_child sample_child, en_host = sample_host, en_observer = (), en_events = [], en_transcript = [],
      en_intents = [], en_response = [], en_message_started = False, en_cancel = []\<rparr>"

lemma sample_tools:
  "dynamic_tools_from_catalog sample_catalog = Ok [ToolFunction (function_spec_new ''read'' ''d'' JNull)]"
  by (simp add: sample_catalog_def dynamic_tools_from_catalog_def dynamic_tool_of_schema_def jobject_def btree_get_of)

lemma sample_read:
  "read_bounded_line [] (sample_line c # cs) = (if c = CHR 0x0A then (Ok (Some []), Inr [CHR 0x0A] # cs) else (Ok (Some [c]), cs))"
  by (simp add: sample_line_def max_frame_bytes_def put_back_def)

lemma sample_decode:
  "decode_frame sample_codec ''1'' = Ok (InboundResponse (RequestIdInteger 1) JNull)"
  "decode_frame sample_codec ''2'' = Ok (InboundResponse (RequestIdInteger 2) JNull)"
  "decode_frame sample_codec ''3'' = Ok (InboundResponse (RequestIdInteger 3) JNull)"
  "decode_frame sample_codec ''4'' = Ok (InboundResponse (RequestIdInteger 4) JNull)"
  "decode_frame sample_codec ''c'' = Ok (InboundRequest (RequestIdString ''c'') ''item/tool/call'' JNull)"
  "decode_frame sample_codec ''d'' = Ok (InboundNotification ''item/agentMessage/delta'' JNull)"
  "decode_frame sample_codec ''e'' = Ok (InboundNotification ''turn/completed'' JNull)"
  by (simp_all add: decode_frame_def sample_codec_def sample_parse_def sample_inbound_def sample_id_def
        validate_message_shape_def jobject_def btree_get_of Let_def)


text \<open>The worker after \<open>fs\<close> frames were written, with \<open>lines\<close> still to be read.\<close>

definition sample_server :: "string \<Rightarrow> json list \<Rightarrow> int \<Rightarrow> codex_server" where
  "sample_server lines fs i = \<lparr>sv_child = sample_child\<lparr>ch_stdout := map sample_line lines, ch_frames := fs\<rparr>, sv_stdin = True,
     sv_stderr_task = True, sv_next_request_id = i, sv_buffered_events = []\<rparr>"

lemma sample_read_message:
  "c \<noteq> CHR 0x0A \<Longrightarrow> read_message sample_codec (sample_server (c # cs) fs i) = (decode_frame sample_codec [c], sample_server cs fs i)"
  by (simp add: read_message_def sample_read sample_server_def)

lemma sample_write:
  "write_frame sample_codec frame (sample_server cs fs i) = (Ok (), sample_server cs (fs @ [frame]) i)"
  by (simp add: write_frame_def sample_codec_def max_frame_bytes_def Let_def sample_server_def sample_child_def)

text \<open>A request whose answer is the next line.\<close>

lemma sample_request:
  assumes "c \<noteq> CHR 0x0A" "i \<noteq> i64_max" "decode_frame sample_codec [c] = Ok (InboundResponse (RequestIdInteger i) JNull)"
  shows "server_request sample_codec decode debug method params (sample_server (c # cs) fs i)
    = (map_err AppMalformedFrame (decode JNull), sample_server cs (fs @ [outbound_request (RequestIdInteger i) method params]) (i + 1))"
proof -
  have "allocate_request_id (sample_server (c # cs) fs i) = (Ok (RequestIdInteger i), sample_server (c # cs) fs (i + 1))"
    using assms(2) by (simp add: allocate_request_id_def i64_succ_def sample_server_def)
  then show ?thesis
    using assms by (simp add: server_request_def act_bind_def sample_write await_response.simps sample_read_message)
qed

lemmas sample_requests = server_initialize_def server_initialized_def server_read_config_def server_start_thread_def
  server_start_turn_def

lemma sample_spawned: "server_of_child sample_child = sample_server ''1234cde'' [] 1"
  by (simp add: server_of_child_def sample_server_def sample_child_def)

lemma sample_decoders:
  "xd_initialize sample_codec v = Ok \<lparr>ir_user_agent = ''w'', ir_codex_home = ''/'', ir_platform_family = ''unix'', ir_platform_os = ''linux''\<rparr>"
  "xd_config sample_codec v = Ok \<lparr>cf_config = []\<rparr>"
  "xd_thread_open sample_codec v = Ok \<lparr>to_thread = \<lparr>ct_id = ''t''\<rparr>, to_model = ''m'', to_model_provider = ''p'', to_cwd = ''/'',
        to_approval_policy = JNull, to_sandbox = JNull\<rparr>"
  "xd_turn_start sample_codec v = Ok (sample_turn TurnStatusInProgress)"
  by (simp_all add: sample_codec_def)

lemma sample_validated: "validate_dynamic_tools debug [ToolFunction (function_spec_new ''read'' ''d'' JNull)] = Ok [''read'']"
  by (simp add: validate_dynamic_tools_Inr unpadded_plain plain_char_def function_spec_new_def)

lemma sample_opens:
  "\<exists>binding fs. open_turn_of_worker sample_world sample_engine \<lparr>ec_previous_binding = None, ec_persist_worker_thread = False\<rparr>
     sample_turn_request [ToolFunction (function_spec_new ''read'' ''d'' JNull)] ''/'' sample_state
       = (Ok binding, sample_state\<lparr>en_server := sample_server ''cde'' fs 5\<rparr>)
     \<and> wb_thread_id binding = ''t'' \<and> wb_last_turn_id binding = ''u''"
  by (simp add: open_turn_of_worker_def spawn_worker_def server_spawn_def sample_world_def sample_engine_def act_eval
     sample_state_def await_open_def await_worker_def await_cancellable_def on_worker_def sample_requests open_thread_def
     engine_policy_def authority_policy_new_def sample_validated btree_get_def sample_turn_def effective_mcp_server_names_def config_get_def
     sample_spawned sample_request sample_decode sample_write i64_max_def sample_turn_request_def sample_decoders
     engine_check_def same_catalog_def same_provider_def command_new_def Let_def) blast

definition sample_engine_turn :: engine_turn where
  "sample_engine_turn = \<lparr>et_thread_id = ''t'', et_turn_id = ''u'', et_allowed_tools = [''read'']\<rparr>"

lemma sample_next_event:
  assumes "c \<noteq> CHR 0x0A"
  shows "next_event sample_codec (sample_server (c # cs) fs i) =
     act_bind (act_lift (decode_frame sample_codec [c])) (\<lambda>message. act_lift (map_err AppProtocol (decode_event sample_codec message))) (sample_server cs fs i)"
proof -
  have empty: "sv_buffered_events (sample_server (c # cs) fs i) = []" by (simp add: sample_server_def)
  then show ?thesis using assms by (simp add: next_event_def act_bind_def act_lift_def sample_read_message)
qed

definition sample_tool_request :: codex_server_request where
  "sample_tool_request = \<lparr>sq_id = RequestIdString ''c'', sq_method = ''item/tool/call'', sq_params = JNull,
     sq_dynamic_tool_call = Some \<lparr>tc_thread_id = ''t'', tc_turn_id = ''u'', tc_call_id = ''a'', tc_namespace = None,
        tc_tool = ''read'', tc_call_arguments = JObject []\<rparr>\<rparr>"

lemma sample_events:
  "next_event sample_codec (sample_server (CHR ''c'' # cs) fs i) = (Ok (EventRequest sample_tool_request), sample_server cs fs i)"
  "next_event sample_codec (sample_server (CHR ''d'' # cs) fs i) = (Ok (EventNotification (AgentMessageDelta
     \<lparr>md_thread_id = ''t'', md_turn_id = ''u'', md_item_id = ''i'', md_delta = ''hi''\<rparr>)), sample_server cs fs i)"
  "next_event sample_codec (sample_server (CHR ''e'' # cs) fs i) = (Ok (EventNotification (TurnCompleted
     \<lparr>tcp_thread_id = ''t'', tcp_turn = sample_turn TurnStatusCompleted\<rparr>)), sample_server cs fs i)"
  by (simp_all add: sample_next_event sample_decode act_eval)
     (simp_all add: decode_notification_def parameters_of_def sample_codec_def sample_tool_request_def)

definition sample_terminal_one :: tool_terminal where
  "sample_terminal_one = sample_terminal (sample_allow (sample_plan (sample_call ''a'') (InvocationId ''s:a'')))"

definition sample_answer :: "semantic_message list" where
  "sample_answer = answered_call sample_engine_turn \<lparr>tc_id = ToolCallId ''a'', tc_name = ''read'', tc_arguments = []\<rparr> sample_terminal_one"

lemma sample_plan_one:
  "tool_host_plan sample_broker [\<lparr>tc_id = ToolCallId ''a'', tc_name = ''read'', tc_arguments = []\<rparr>] sample_host
     = (Ok [sample_plan (sample_call ''a'') (InvocationId ''s:a'')], sample_host\<lparr>th_seen_invocation_ids := {InvocationId ''s:a''}\<rparr>)"
  by (simp add: sample_defs tool_host_plan_def allocate_invocation_ids_def
        allocate_invocation_id_def invocation_text_def on_tools_def id_new_ok unpadded_plain plain_char_def
        validate_plans_def act_eval)

lemma sample_worker_call:
  "sq_dynamic_tool_call sample_tool_request = Some call \<Longrightarrow>
   worker_call sample_world sample_engine_turn call = Ok \<lparr>tc_id = ToolCallId ''a'', tc_name = ''read'', tc_arguments = []\<rparr>"
  by (auto simp: sample_tool_request_def worker_call_def sample_engine_turn_def id_new_ok unpadded_plain plain_char_def btree_of_def)

lemma unit_host [simp]: "h\<lparr>th_tools := ()\<rparr> = h" for h :: "unit tool_host"
  by (cases h) simp

lemma unit_observer [simp]: "s\<lparr>en_observer := ()\<rparr> = s" for s :: "('b, unit) engine_state"
  by (cases s) simp

lemma sample_resolve_one:
  "tool_host_resolve_approvals sample_broker [sample_plan call i] h = (Ok [sample_allow (sample_plan call i)], h)"
  by (simp add: sample_defs tool_host_resolve_approvals_def on_tools_def validate_approval_resolution_def
        validate_resolved_call_def approval_pending_def act_eval)

lemma sample_execute_one:
  "tool_host_execute sample_broker [sample_allow (sample_plan call i)] h = (Ok [sample_terminal (sample_allow (sample_plan call i))], h)"
  by (simp add: sample_defs tool_host_execute_def on_tools_def validate_terminals_def hash_map_def act_eval)

lemma sample_push: "engine_push_event sample_world event s = (Ok (), s\<lparr>en_events := en_events s @ [event]\<rparr>)"
  by (simp add: engine_push_event_def sample_world_def noop_observe_def act_eval)

lemma sample_uncancelled: "en_cancel s = [] \<Longrightarrow> await_cancellable abandon e m s = m s"
  by (simp add: await_cancellable_def)

lemma sample_worlds: "en_codec sample_world = sample_codec" "en_broker sample_world = sample_broker"
  by (simp_all add: sample_world_def)

lemma sample_respond:
  "respond_dynamic_tool_call sample_codec sample_tool_request r (sample_server cs fs i) =
     (Ok (), sample_server cs (fs @ [outbound_response (RequestIdString ''c'') (json_of_tool_response r)]) i)"
  by (simp add: respond_dynamic_tool_call_def server_respond_def sample_tool_request_def sample_write)

lemma sample_request_arm:
  "engine_request sample_world sample_engine_turn sample_tool_request s =
     engine_run_tool sample_world sample_engine_turn sample_tool_request \<lparr>tc_id = ToolCallId ''a'', tc_name = ''read'', tc_arguments = []\<rparr> s"
proof -
  obtain call where call: "sq_dynamic_tool_call sample_tool_request = Some call" by (simp add: sample_tool_request_def)
  show ?thesis by (simp add: engine_request_def call sample_worker_call [OF call] act_bind_def act_lift_def)
qed

lemma sample_approvals:
  "pl_approval (sample_plan call i) = Some \<lparr>ap_required = True, ap_decision = ''pending'', ap_principal = ''user''\<rparr>"
  "pl_approval (sample_allow (sample_plan call i)) = Some \<lparr>ap_required = True, ap_decision = ''allow'', ap_principal = ''user''\<rparr>"
  "plan_denied (sample_allow (sample_plan call i)) = False"
  by (simp_all add: sample_plan_def sample_allow_def plan_denied_def approval_denied_def)

lemma sample_step_tool:
  assumes "s = sample_state\<lparr>en_server := sample_server ''cde'' fs 5, en_events := events, en_transcript := ms, en_intents := is\<rparr>"
  shows "\<exists>s' fs' events' is' seen. engine_step sample_world sample_engine_turn s = (Ok False, s')
     \<and> s' = sample_state\<lparr>en_server := sample_server ''de'' fs' 5, en_host := sample_host\<lparr>th_seen_invocation_ids := seen\<rparr>,
          en_events := events', en_transcript := ms @ sample_answer, en_intents := is'\<rparr>"
  unfolding assms
  by (simp add: engine_step_def engine_event_def sample_request_arm engine_run_tool_def await_host_def await_worker_def sample_uncancelled sample_worlds on_worker_def
     on_engine_host_def sample_push engine_push_intent_def engine_push_messages_def act_eval sample_plan_one sample_resolve_one
     sample_execute_one engine_request_approval_def engine_announce_resolved_def sample_respond sample_events sample_state_def sample_approvals
     sample_answer_def sample_terminal_one_def) blast

lemma sample_step_delta:
  "\<exists>events'. engine_step sample_world sample_engine_turn (sample_state\<lparr>en_server := sample_server ''de'' fs 5, en_host := h,
        en_events := events, en_transcript := ms, en_intents := is\<rparr>)
     = (Ok False, sample_state\<lparr>en_server := sample_server ''e'' fs 5, en_host := h, en_events := events', en_transcript := ms,
          en_intents := is, en_response := ''hi'', en_message_started := True\<rparr>)"
  by (simp add: engine_step_def engine_event_def await_worker_def sample_uncancelled sample_worlds on_worker_def
     sample_push act_eval sample_events sample_state_def engine_check_def sample_engine_turn_def start_message_def append_delta_def)

lemma sample_step_done:
  "engine_step sample_world sample_engine_turn (sample_state\<lparr>en_server := sample_server ''e'' fs 5, en_host := h, en_events := events, en_transcript := ms,
          en_intents := is, en_response := ''hi'', en_message_started := True\<rparr>)
     = (Ok True, sample_state\<lparr>en_server := sample_server [] fs 5, en_host := h, en_events := events, en_transcript := ms,
          en_intents := is, en_response := ''hi'', en_message_started := True\<rparr>)"
  by (simp add: engine_step_def engine_event_def await_worker_def sample_uncancelled sample_worlds on_worker_def
     sample_push act_eval sample_events sample_state_def engine_check_def sample_engine_turn_def sample_turn_def)

lemma sample_loop:
  "\<exists>fs' h events' is'. engine_loop sample_world sample_engine_turn
      (sample_state\<lparr>en_server := sample_server ''cde'' fs 5, en_events := events, en_transcript := ms, en_intents := is\<rparr>)
    = (Ok (), sample_state\<lparr>en_server := sample_server [] fs' 5, en_host := h, en_events := events', en_transcript := ms @ sample_answer,
          en_intents := is', en_response := ''hi'', en_message_started := True\<rparr>)"
proof -
  let ?s = "sample_state\<lparr>en_server := sample_server ''cde'' fs 5, en_events := events, en_transcript := ms, en_intents := is\<rparr>"
  obtain fs' h events' is' where "engine_step sample_world sample_engine_turn ?s
    = (Ok False, sample_state\<lparr>en_server := sample_server ''de'' fs' 5, en_host := h, en_events := events',
         en_transcript := ms @ sample_answer, en_intents := is'\<rparr>)"
    using sample_step_tool [OF refl] by blast
  moreover obtain events'' where "engine_step sample_world sample_engine_turn
     (sample_state\<lparr>en_server := sample_server ''de'' fs' 5, en_host := h, en_events := events', en_transcript := ms @ sample_answer, en_intents := is'\<rparr>)
   = (Ok False, sample_state\<lparr>en_server := sample_server ''e'' fs' 5, en_host := h, en_events := events'', en_transcript := ms @ sample_answer,
          en_intents := is', en_response := ''hi'', en_message_started := True\<rparr>)"
    using sample_step_delta by blast
  ultimately have "engine_loop sample_world sample_engine_turn ?s
    = (Ok (), sample_state\<lparr>en_server := sample_server [] fs' 5, en_host := h, en_events := events'', en_transcript := ms @ sample_answer,
          en_intents := is', en_response := ''hi'', en_message_started := True\<rparr>)"
    by (simp add: engine_loop.simps sample_step_done)
  then show ?thesis by blast
qed

lemma sample_shutdown:
  "\<exists>w. server_shutdown sample_codec (sample_server [] fs i) = (Ok (), w)"
  by (simp add: server_shutdown_def sample_server_def sample_child_def Let_def take_stderr_def)

definition sample_control :: engine_control where
  "sample_control = \<lparr>ec_previous_binding = None, ec_persist_worker_thread = False\<rparr>"

definition sample_clock :: interrupt_clock where
  "sample_clock = \<lparr>ic_acknowledged_in_time = True, ic_completed_in_time = True\<rparr>"

lemma sample_ends:
  "\<exists>outcome s'. end_turn sample_world sample_engine_turn binding (sample_state\<lparr>en_server := sample_server [] fs 5, en_host := h, en_events := events,
     en_transcript := [User ''hello'' None] @ sample_answer, en_intents := is, en_response := ''hi'', en_message_started := True\<rparr>)
   = (Ok outcome, s')"
proof -
  obtain w where "server_shutdown sample_codec (sample_server [] fs 5) = (Ok (), w)" using sample_shutdown by blast
  then show ?thesis
    by (simp add: end_turn_def sample_worlds on_worker_def sample_push engine_push_intent_def engine_push_messages_def act_eval
          engine_check_def sample_answer_def answered_call_def sample_terminal_one_def sample_terminal_def sample_allow_def sample_plan_def
          sample_call_def conversation_new_def validate_calls_def)
qed

lemma sample_begin:
  "\<exists>events. begin_turn sample_world sample_turn_request sample_engine_turn (sample_state\<lparr>en_server := sample_server ''cde'' fs 5\<rparr>)
     = (Ok (), sample_state\<lparr>en_server := sample_server ''cde'' fs 5, en_events := events, en_transcript := [User ''hello'' None],
          en_intents := [prompt_intent ''hello'']\<rparr>)"
  by (simp add: begin_turn_def sample_push act_eval tool_host_new_def sample_turn_request_def sample_state_def sample_host_def)

lemma sample_runs:
  "\<exists>outcome s'. run_inner sample_world sample_clock sample_engine sample_control sample_catalog sample_turn_request sample_state
     = (Ok (Some outcome), s')"
proof -
  obtain binding fs where opens: "open_turn_of_worker sample_world sample_engine sample_control
     sample_turn_request [ToolFunction (function_spec_new ''read'' ''d'' JNull)] ''/'' sample_state
       = (Ok binding, sample_state\<lparr>en_server := sample_server ''cde'' fs 5\<rparr>)"
    and ids: "wb_thread_id binding = ''t''" "wb_last_turn_id binding = ''u''"
    using sample_opens unfolding sample_control_def by blast
  have turn: "turn_of_binding binding [ToolFunction (function_spec_new ''read'' ''d'' JNull)] = sample_engine_turn"
    by (simp add: turn_of_binding_def ids sample_engine_turn_def function_spec_new_def)
  obtain events where begins: "begin_turn sample_world sample_turn_request sample_engine_turn (sample_state\<lparr>en_server := sample_server ''cde'' fs 5\<rparr>)
     = (Ok (), sample_state\<lparr>en_server := sample_server ''cde'' fs 5, en_events := events, en_transcript := [User ''hello'' None],
          en_intents := [prompt_intent ''hello'']\<rparr>)"
    using sample_begin by blast
  obtain fs' h events' is' where loops: "engine_loop sample_world sample_engine_turn
      (sample_state\<lparr>en_server := sample_server ''cde'' fs 5, en_events := events, en_transcript := [User ''hello'' None],
         en_intents := [prompt_intent ''hello'']\<rparr>)
    = (Ok (), sample_state\<lparr>en_server := sample_server [] fs' 5, en_host := h, en_events := events',
         en_transcript := [User ''hello'' None] @ sample_answer, en_intents := is', en_response := ''hi'', en_message_started := True\<rparr>)"
    using sample_loop by blast
  obtain outcome s' where ends: "end_turn sample_world sample_engine_turn binding (sample_state\<lparr>en_server := sample_server [] fs' 5, en_host := h, en_events := events',
     en_transcript := [User ''hello'' None] @ sample_answer, en_intents := is', en_response := ''hi'', en_message_started := True\<rparr>)
   = (Ok outcome, s')"
    using sample_ends by blast
  have cwd: "path_to_str (eg_cwd sample_engine) = Some ''/''"
    by (simp add: sample_engine_def path_to_str_def utf8_valid_def tail_bytes_def)
  have "unpadded ''hello''" by (simp add: unpadded_plain plain_char_def)
  then have valid: "engine_request_validate sample_turn_request = Ok ()"
    by (simp add: engine_request_validate_def sample_turn_request_def unpadded_def conversation_new_def)
  have "run_worker sample_world sample_engine sample_control sample_catalog sample_turn_request sample_state = (Ok outcome, s')"
    using opens begins loops ends
    by (simp add: run_worker_def act_bind_def act_lift_def valid sample_tools cwd turn Let_def)
  then show ?thesis by (simp add: run_inner_def)
qed

definition sample_config :: codex_config_read_response where
  "sample_config = \<lparr>cf_config = [(''mcp_servers'', JObject [(''files'', JNull)])]\<rparr>"

definition sample_binding :: codex_worker_binding where
  "sample_binding = \<lparr>wb_thread_id = ''t'', wb_last_turn_id = ''u'', wb_worker_user_agent = ''w'', wb_model_provider = ''p'',
     wb_authority = \<lparr>cm_worker = ''codex-app-server'', cm_dynamic_tools = [''read''], cm_disabled_mcp_servers = [''files''],
       cm_ambient_environments = False, cm_codex_shell = False, cm_codex_web_search = False, cm_codex_plugins = False,
       cm_codex_apps = False, cm_codex_hooks = False, cm_codex_multi_agent = False\<rparr>\<rparr>"

lemma sample_policy:
  "\<exists>policy. engine_policy sample_world sample_engine sample_config [ToolFunction (function_spec_new ''read'' ''d'' JNull)] = Ok policy"
  by (simp add: engine_policy_def authority_policy_new_def sample_validated effective_mcp_server_names_def config_get_def
        sample_config_def btree_get_def sample_engine_def)

end
