(* ===== verification/Codex_Properties.thy ===== *)
theory Codex_Properties
  imports Codex_Sample
begin

text \<open>
  What a completed Codex turn guarantees whatever the worker, the broker and the observer do: the returned
  transcript, whose calls are those the worker asked for and the broker executed, the binding, and the restrictions that every opened worker thread carries.
\<close>

section \<open>The transcript\<close>

text \<open>The part of the state the transcript depends on.\<close>

definition engine_view :: "('b, 'o) engine_state \<Rightarrow> semantic_message list \<times> string \<times> invocation_id set" where
  "engine_view s = (en_transcript s, th_execution_scope (en_host s), th_seen_invocation_ids (en_host s))"

abbreviation keeps_view :: "semantic_message list \<times> string \<times> invocation_id set \<Rightarrow> ('b, 'o, 'a) engine_action \<Rightarrow> bool" where
  "keeps_view v m \<equiv> keeps (\<lambda>s. engine_view s = v) m"

lemma view_small [keeps_intros]:
  "keeps_view v (engine_push_event world event)" "keeps_view v (engine_push_intent i)"
  "keeps_view v (start_message world turn)" "keeps_view v (append_delta world turn d)"
  "keeps_view v (engine_fail e)" "keeps_view v (engine_check b x)" "keeps_view v (on_worker m)"
  by (auto simp: keeps_def wp_simps engine_push_event_def engine_push_intent_def on_worker_def
        start_message_def append_delta_def engine_fail_def engine_check_def wp_def ensure_def engine_view_def
        split: prod.splits sum.splits)

lemma view_await [keeps_intros]: "keeps_view v m \<Longrightarrow> keeps_view v (await_cancellable abandon e m)"
  by (rule await_keeps) (simp_all add: engine_view_def)

lemma view_await_worker [keeps_intros]: "keeps_view v (await_worker world e m)"
  unfolding await_worker_def by (intro keeps_intros)

lemma view_requests [keeps_intros]:
  "keeps_view v (engine_request_approval world plan)" "keeps_view v (engine_announce_resolved world plan)"
  unfolding engine_request_approval_def engine_announce_resolved_def
  by (auto intro!: keeps_intros split: option.split)

lemma view_broker [keeps_intros]:
  "keeps_view v (on_engine_host (tool_host_resolve_approvals broker planned))"
  "keeps_view v (on_engine_host (tool_host_execute broker planned))"
proof -
  have frame: "h' = h\<lparr>th_tools := snd (tb_resolve_approvals broker planned (th_tools h))\<rparr>"
    if "tool_host_resolve_approvals broker planned h = (r, h')" for h h' r
    using tool_host_resolve_frame [of broker planned h] that by simp
  show "keeps_view v (on_engine_host (tool_host_resolve_approvals broker planned))"
    by (auto simp: keeps_def wp_simps on_engine_host_def wp_def engine_view_def dest!: frame split: prod.splits sum.splits)
  have frame': "h' = h\<lparr>th_tools := snd (tb_execute broker planned (th_tools h))\<rparr>"
    if "tool_host_execute broker planned h = (r, h')" for h h' r
    using tool_host_execute_frame [of broker planned h] that by simp
  show "keeps_view v (on_engine_host (tool_host_execute broker planned))"
    by (auto simp: keeps_def wp_simps on_engine_host_def wp_def engine_view_def dest!: frame' split: prod.splits sum.splits)
qed

lemma on_engine_host_okD:
  "on_engine_host m s = (Inr x, s') \<Longrightarrow> \<exists>h. m (en_host s) = (Inr x, h) \<and> s' = s\<lparr>en_host := h\<rparr>"
  by (auto simp: on_engine_host_def act_map_err_def act_zoom_def map_err_def split: prod.splits sum.splits)

lemma await_host_okD:
  assumes "await_host world e m s = (Inr x, s')"
  shows "\<exists>h h'. m h = (Inr x, h')"
  using await_okD [OF assms [unfolded await_host_def]] by (auto dest!: on_engine_host_okD)

text \<open>What is neither the worker's nor the tools' leaves both alone.\<close>

definition engine_ports :: "('b, 'o) engine_state \<Rightarrow> codex_server \<times> 'b tool_host" where
  "engine_ports s = (en_server s, en_host s)"

abbreviation keeps_ports :: "codex_server \<times> 'b tool_host \<Rightarrow> ('b, 'o, 'a) engine_action \<Rightarrow> bool" where
  "keeps_ports v m \<equiv> keeps (\<lambda>s. engine_ports s = v) m"

lemma ports_small [keeps_intros]:
  "keeps_ports v (engine_push_event world event)" "keeps_ports v (engine_push_intent i)" "keeps_ports v (engine_push_messages ms)"
  "keeps_ports v (start_message world turn)" "keeps_ports v (append_delta world turn d)"
  "keeps_ports v (engine_fail e)" "keeps_ports v (engine_check b x)"
  by (auto simp: keeps_def wp_simps engine_push_event_def engine_push_intent_def engine_push_messages_def
        start_message_def append_delta_def engine_fail_def engine_check_def wp_def ensure_def engine_ports_def
        split: prod.splits sum.splits)

lemma ports_requests [keeps_intros]:
  "keeps_ports v (engine_request_approval world plan)" "keeps_ports v (engine_announce_resolved world plan)"
  unfolding engine_request_approval_def engine_announce_resolved_def
  by (auto intro!: keeps_intros split: option.split)

lemma keeps_portsD:
  "keeps_ports (engine_ports s) m \<Longrightarrow> m s = (Inr x, s') \<Longrightarrow> en_server s' = en_server s \<and> en_host s' = en_host s"
  by (drule keepsD) (auto simp: engine_ports_def)

text \<open>The broker's part in one call: planned, decided and executed, one after the other, with one terminal.\<close>

definition performs :: "'b tool_broker \<Rightarrow> tool_call \<Rightarrow> tool_terminal \<Rightarrow> 'b \<Rightarrow> 'b \<Rightarrow> bool" where
  "performs broker call terminal b b' \<longleftrightarrow>
     (\<exists>ids planned b1 resolved b2. tb_plan broker [call] ids b = (Ok planned, b1)
        \<and> tb_resolve_approvals broker planned b1 = (Ok resolved, b2) \<and> tb_execute broker resolved b2 = (Ok [terminal], b'))"

lemma on_tools_ok: "on_tools m h = (Inr x, h') \<longleftrightarrow> (\<exists>b. m (th_tools h) = (Inr x, b) \<and> h' = h\<lparr>th_tools := b\<rparr>)"
  by (auto simp: on_tools_def act_map_err_ok act_zoom_def split: prod.splits)

lemma tool_host_plan_broker:
  "tool_host_plan broker calls h = (Inr planned, h') \<Longrightarrow> \<exists>ids. tb_plan broker calls ids (th_tools h) = (Ok planned, th_tools h')"
  by (auto simp: tool_host_plan_def act_bind_ok on_tools_ok act_read_def act_lift_def act_return_def act_zoom_def split: prod.splits)

lemma tool_host_resolve_broker:
  "tool_host_resolve_approvals broker planned h = (Inr resolved, h') \<Longrightarrow>
     tb_resolve_approvals broker planned (th_tools h) = (Ok resolved, th_tools h')"
  by (auto simp: tool_host_resolve_approvals_def act_bind_ok on_tools_ok act_lift_def act_return_def)

lemma tool_host_execute_broker:
  "tool_host_execute broker resolved h = (Inr completed, h') \<Longrightarrow> tb_execute broker resolved (th_tools h) = (Ok completed, th_tools h')"
  by (auto simp: tool_host_execute_def act_bind_ok on_tools_ok act_lift_def act_return_def)

lemma await_host_ports:
  assumes "await_host world e m s = (Inr x, s')"
  shows "m (en_host s) = (Inr x, en_host s') \<and> en_server s' = en_server s"
proof -
  obtain later where "on_engine_host m (s\<lparr>en_cancel := later\<rparr>) = (Inr x, s')"
    using await_okD [OF assms [unfolded await_host_def]] by blast
  then show ?thesis by (auto dest!: on_engine_host_okD)
qed

lemma await_worker_ports:
  assumes "await_worker world e m s = (Inr x, s')"
  shows "m (en_server s) = (Inr x, en_server s') \<and> en_host s' = en_host s"
proof -
  obtain later where "on_worker m (s\<lparr>en_cancel := later\<rparr>) = (Inr x, s')"
    using await_okD [OF assms [unfolded await_worker_def]] by blast
  then show ?thesis by (auto dest!: on_worker_okD)
qed

text \<open>The answer that goes to the worker for a request of it.\<close>

definition tool_answer :: "codex_server_request \<Rightarrow> tool_terminal \<Rightarrow> json" where
  "tool_answer request terminal =
     outbound_response (sq_id request) (json_of_tool_response (tool_response_text (tt_content terminal) (tt_status terminal = Succeeded)))"

text \<open>One call of the worker: planned under an identity of its own, and answered by its terminal.\<close>

definition answers :: "string \<Rightarrow> tool_call \<Rightarrow> tool_terminal \<Rightarrow> bool" where
  "answers scope call terminal \<longleftrightarrow>
     tt_call_id terminal = tc_id call \<and> tt_invocation_id terminal = kernel_invocation scope (tc_id call)"

lemma engine_run_tool_chain:
  assumes run: "engine_run_tool world turn request call s = (Inr u, s')"
  shows "\<exists>planned s1 s2 resolved s3 s4 terminal rest s5 s6 s7 s8.
     on_engine_host (tool_host_plan (en_broker world) [call]) s = (Inr planned, s1)
     \<and> act_each (engine_request_approval world) planned s1 = (Inr (), s2)
     \<and> await_host world (in_turn_exit turn) (tool_host_resolve_approvals (en_broker world) planned) s2 = (Inr resolved, s3)
     \<and> act_each (engine_announce_resolved world) resolved s3 = (Inr (), s4)
     \<and> await_host world (in_turn_exit turn) (tool_host_execute (en_broker world) resolved) s4 = (Inr (terminal # rest), s5)
     \<and> engine_push_intent (engine_terminal_intent terminal) s5 = (Inr (), s6)
     \<and> engine_push_event world (engine_complete_event terminal) s6 = (Inr (), s7)
     \<and> engine_push_messages (answered_call turn call terminal) s7 = (Inr (), s8)
     \<and> await_worker world (in_turn_exit turn) (respond_dynamic_tool_call (en_codec world) request
           (tool_response_text (tt_content terminal) (tt_status terminal = Succeeded))) s8 = (Inr u, s')"
proof -
  obtain planned s1 s2 resolved s3 s4 completed s5
    where "on_engine_host (tool_host_plan (en_broker world) [call]) s = (Inr planned, s1)"
      "act_each (engine_request_approval world) planned s1 = (Inr (), s2)"
      "await_host world (in_turn_exit turn) (tool_host_resolve_approvals (en_broker world) planned) s2 = (Inr resolved, s3)"
      "act_each (engine_announce_resolved world) resolved s3 = (Inr (), s4)"
      "await_host world (in_turn_exit turn) (tool_host_execute (en_broker world) resolved) s4 = (Inr completed, s5)"
      and rest: "(case completed of
          [] \<Rightarrow> engine_fail (EngineInvalid ''dynamic tool produced no terminal'')
        | terminal # _ \<Rightarrow>
            act_bind (engine_push_intent (engine_terminal_intent terminal)) (\<lambda>_.
            act_bind (engine_push_event world (engine_complete_event terminal)) (\<lambda>_.
            act_bind (engine_push_messages (answered_call turn call terminal)) (\<lambda>_.
            await_worker world (in_turn_exit turn) (respond_dynamic_tool_call (en_codec world) request
              (tool_response_text (tt_content terminal) (tt_status terminal = Succeeded))))))) s5 = (Inr u, s')"
    using run by (auto simp: engine_run_tool_def act_bind_ok)
  then show ?thesis
    by (cases completed) (simp add: engine_fail_def act_lift_def, force simp: act_bind_ok)
qed

lemma keeps_viewD: "keeps_view (engine_view s) m \<Longrightarrow> m s = (Inr x, s') \<Longrightarrow> engine_view s' = engine_view s"
  by (drule keepsD) auto

lemma engine_run_tool_ok:
  assumes run: "engine_run_tool world turn request call s = (Inr u, s')"
  shows "\<exists>terminal. answers (th_execution_scope (en_host s)) call terminal
     \<and> tt_invocation_id terminal \<notin> th_seen_invocation_ids (en_host s)
     \<and> engine_view s' = (en_transcript s @ answered_call turn call terminal, th_execution_scope (en_host s),
         insert (tt_invocation_id terminal) (th_seen_invocation_ids (en_host s)))
     \<and> performs (en_broker world) call terminal (th_tools (en_host s)) (th_tools (en_host s'))
     \<and> write_frame (en_codec world) (tool_answer request terminal) (en_server s) = (Ok (), en_server s')"
proof -
  let ?scope = "th_execution_scope (en_host s)" and ?seen = "th_seen_invocation_ids (en_host s)"
  obtain planned s1 s2 resolved s3 s4 terminal rest s5 s6 s7 s8
    where p: "on_engine_host (tool_host_plan (en_broker world) [call]) s = (Inr planned, s1)"
      and q: "act_each (engine_request_approval world) planned s1 = (Inr (), s2)"
      and r: "await_host world (in_turn_exit turn) (tool_host_resolve_approvals (en_broker world) planned) s2 = (Inr resolved, s3)"
      and a: "act_each (engine_announce_resolved world) resolved s3 = (Inr (), s4)"
      and x: "await_host world (in_turn_exit turn) (tool_host_execute (en_broker world) resolved) s4 = (Inr (terminal # rest), s5)"
      and i: "engine_push_intent (engine_terminal_intent terminal) s5 = (Inr (), s6)"
      and e: "engine_push_event world (engine_complete_event terminal) s6 = (Inr (), s7)"
      and m: "engine_push_messages (answered_call turn call terminal) s7 = (Inr (), s8)"
      and w: "await_worker world (in_turn_exit turn) (respond_dynamic_tool_call (en_codec world) request
           (tool_response_text (tt_content terminal) (tt_status terminal = Succeeded))) s8 = (Inr u, s')"
    using engine_run_tool_chain [OF run] by blast
  obtain h where h: "tool_host_plan (en_broker world) [call] (en_host s) = (Inr planned, h)" "s1 = s\<lparr>en_host := h\<rparr>"
    using on_engine_host_okD [OF p] by blast
  note plan = tool_host_plan_ok [OF h(1)]
  let ?k = "kernel_invocation ?scope (tc_id call)"
  have view1: "engine_view s1 = (en_transcript s, ?scope, insert ?k ?seen)"
    using plan(2,5,6) h(2) by (simp add: engine_view_def insert_is_Un [symmetric] Un_commute)
  have fresh: "?k \<notin> ?seen" using plan(2,4) by simp
  have "list_all2 resolution_of planned resolved" using await_host_okD [OF r] tool_host_resolve_ok by blast
  note frozen = resolutions_frozen(1,2) [OF this]
  have valid: "validate_terminals resolved (terminal # rest) = Inr ()" using await_host_okD [OF x] tool_host_execute_ok by blast
  then obtain plan' where "plan' \<in> set resolved" "terminal_of plan' terminal" by (auto simp: validate_terminals_Inr)
  moreover have "pl_call_id ` set resolved = {tc_id call}" "pl_invocation_id ` set resolved = {?k}"
    using frozen plan(1,2) by (metis list.set_map list.simps(8,9) list.simps(15) set_empty comp_apply)+
  ultimately have answers: "answers ?scope call terminal" by (auto simp: answers_def terminal_of_def)
  have "engine_view s2 = engine_view s1" using q by (rule keeps_viewD [rotated]) (intro keeps_intros)
  moreover have "engine_view s3 = engine_view s2" using r by (rule keeps_viewD [rotated]) (unfold await_host_def, intro keeps_intros)
  moreover have "engine_view s4 = engine_view s3" using a by (rule keeps_viewD [rotated]) (intro keeps_intros)
  moreover have "engine_view s5 = engine_view s4" using x by (rule keeps_viewD [rotated]) (unfold await_host_def, intro keeps_intros)
  moreover have "engine_view s6 = engine_view s5" using i by (rule keeps_viewD [rotated]) (intro keeps_intros)
  moreover have "engine_view s7 = engine_view s6" using e by (rule keeps_viewD [rotated]) (intro keeps_intros)
  moreover have "engine_view s' = engine_view s8" using w by (rule keeps_viewD [rotated]) (intro keeps_intros)
  moreover have "engine_view s8 = (en_transcript s7 @ answered_call turn call terminal, snd (engine_view s7))"
    using m by (auto simp: engine_push_messages_def act_update_def engine_view_def)
  ultimately have view: "engine_view s' = (en_transcript s @ answered_call turn call terminal, ?scope, insert (tt_invocation_id terminal) ?seen)"
    using view1 answers by (auto simp: answers_def engine_view_def)
  have "length (terminal # rest) = length resolved" using valid by (simp add: validate_terminals_def split: if_splits)
  also have "\<dots> = 1" using frozen(1) plan(1) by (metis length_map length_Cons list.size(3) One_nat_def)
  finally have one: "rest = []" by simp
  have p1: "en_server s2 = en_server s1 \<and> en_host s2 = en_host s1"
    using q by (rule keeps_portsD [rotated]) (intro keeps_intros)
  have p2: "en_server s4 = en_server s3 \<and> en_host s4 = en_host s3"
    using a by (rule keeps_portsD [rotated]) (intro keeps_intros)
  have p3: "en_server s8 = en_server s5" "en_host s8 = en_host s5"
    using keeps_portsD [OF ports_small(2) i] keeps_portsD [OF ports_small(1) e] keeps_portsD [OF ports_small(3) m] by simp_all
  note rp = await_host_ports [OF r] and xp = await_host_ports [OF x] and wp = await_worker_ports [OF w]
  obtain ids where "tb_plan (en_broker world) [call] ids (th_tools (en_host s)) = (Ok planned, th_tools (en_host s1))"
    using tool_host_plan_broker [OF h(1)] h(2) by auto
  moreover have "tb_resolve_approvals (en_broker world) planned (th_tools (en_host s1)) = (Ok resolved, th_tools (en_host s3))"
    using tool_host_resolve_broker rp p1 by metis
  moreover have "tb_execute (en_broker world) resolved (th_tools (en_host s3)) = (Ok [terminal], th_tools (en_host s'))"
    using tool_host_execute_broker xp wp p2 p3 one by metis
  ultimately have "performs (en_broker world) call terminal (th_tools (en_host s)) (th_tools (en_host s'))"
    unfolding performs_def by blast
  moreover have "write_frame (en_codec world) (tool_answer request terminal) (en_server s) = (Ok (), en_server s')"
    using wp rp xp p1 p2 p3 h(2)
    by (simp add: respond_dynamic_tool_call_def server_respond_def tool_answer_def act_lift_def split: if_splits)
  ultimately show ?thesis using view answers fresh by (auto simp: answers_def)
qed

definition turn_transcript ::
  "engine_turn \<Rightarrow> string \<Rightarrow> semantic_message list \<Rightarrow> (tool_call \<times> tool_terminal) list \<Rightarrow> ('b, 'o) engine_state \<Rightarrow> bool" where
  "turn_transcript turn scope base calls s \<longleftrightarrow>
     engine_view s = (base @ concat (map (\<lambda>(call, terminal). answered_call turn call terminal) calls), scope,
       set (map (tt_invocation_id \<circ> snd) calls))
     \<and> (\<forall>(call, terminal) \<in> set calls. answers scope call terminal \<and> tc_name call \<in> set (et_allowed_tools turn))
     \<and> distinct (map (tt_invocation_id \<circ> snd) calls)"

lemma keeps_transcript_of_view:
  "(\<And>v. keeps_view v m) \<Longrightarrow> keeps (\<lambda>s. \<exists>calls. turn_transcript turn scope base calls s) m"
  by (fastforce simp: keeps_def wp_def turn_transcript_def split: prod.splits sum.splits)

lemma worker_call_name: "worker_call world turn call = Inr c \<Longrightarrow> tc_name c \<in> set (et_allowed_tools turn)"
  by (auto simp: worker_call_def and_then_eq_Inr)

lemma keeps_transcript_tool:
  assumes "tc_name call \<in> set (et_allowed_tools turn)"
  shows "keeps (\<lambda>s. \<exists>calls. turn_transcript turn scope base calls s) (engine_run_tool world turn request call)"
proof (rule keepsI, elim exE)
  fix s :: "('a, 'b) engine_state" and calls
  assume t: "turn_transcript turn scope base calls s"
  have "\<exists>calls. turn_transcript turn scope base calls s'" if run: "engine_run_tool world turn request call s = (Inr u, s')" for u s'
  proof -
    obtain terminal where "answers (th_execution_scope (en_host s)) call terminal"
      "tt_invocation_id terminal \<notin> th_seen_invocation_ids (en_host s)"
      "engine_view s' = (en_transcript s @ answered_call turn call terminal, th_execution_scope (en_host s),
         insert (tt_invocation_id terminal) (th_seen_invocation_ids (en_host s)))"
      using engine_run_tool_ok [OF run] by auto
    then have "turn_transcript turn scope base (calls @ [(call, terminal)]) s'"
      using t assms by (auto simp: turn_transcript_def engine_view_def)
    then show ?thesis ..
  qed
  then show "wp (engine_run_tool world turn request call) (\<lambda>_ s. \<exists>calls. turn_transcript turn scope base calls s) (\<lambda>_ _. True) s"
    by (intro wp_I) auto
qed

lemma view_notification [keeps_intros]: "keeps_view v (engine_notification world turn notification)"
  by (cases notification) (auto intro!: keeps_intros)

lemma keeps_transcript_step: "keeps (\<lambda>s. \<exists>calls. turn_transcript turn scope base calls s) (engine_step world turn)"
  unfolding engine_step_def
proof (rule keeps_bind)
  show "keeps (\<lambda>s. \<exists>calls. turn_transcript turn scope base calls s) (await_worker world (in_turn_exit turn) (next_event (en_codec world)))"
    by (rule keeps_transcript_of_view) (intro keeps_intros)
  fix event
  show "keeps (\<lambda>s. \<exists>calls. turn_transcript turn scope base calls s) (engine_event world turn event)"
  proof (cases event)
    case (EventNotification notification)
    then show ?thesis
      using keeps_transcript_of_view [OF view_notification] by (simp add: engine_event_def)
  next
    case (EventRequest request)
    have "keeps (\<lambda>s. \<exists>calls. turn_transcript turn scope base calls s) (engine_request world turn request)"
    proof (cases "sq_dynamic_tool_call request")
      case None
      then show ?thesis
        unfolding engine_request_def option.case
        by (auto intro!: keeps_transcript_of_view keeps_intros)
    next
      case (Some call)
      show ?thesis
        unfolding engine_request_def Some option.case
        by (rule keeps_bind_ok) (auto intro: keeps_intros keeps_transcript_tool worker_call_name simp: act_lift_def)
    qed
    then show ?thesis unfolding engine_event_def EventRequest codex_event.case by (rule keeps_bind) (rule keeps_return)
  qed
qed

section \<open>What the worker asked for\<close>

text \<open>The next \<open>n\<close> events of a worker, when nothing is written to it in between.\<close>

primrec read_events :: "codex_codec \<Rightarrow> nat \<Rightarrow> codex_server \<Rightarrow> (codex_event list \<times> codex_server) option" where
  "read_events xd 0 w = Some ([], w)"
| "read_events xd (Suc n) w =
     (case next_event xd w of
        (Inr event, w') \<Rightarrow> map_option (\<lambda>(events, w''). (event # events, w'')) (read_events xd n w')
      | _ \<Rightarrow> None)"

definition turn_completes :: "codex_event \<Rightarrow> bool" where
  "turn_completes event = (case event of EventNotification (TurnCompleted _) \<Rightarrow> True | _ \<Rightarrow> False)"

definition requests_of :: "codex_event list \<Rightarrow> codex_server_request list" where
  "requests_of events = concat (map (\<lambda>event. case event of EventRequest request \<Rightarrow> [request] | _ \<Rightarrow> []) events)"

text \<open>A request of the worker, for this turn and without a namespace, is for this call.\<close>

definition asks_for :: "engine_turn \<Rightarrow> codex_server_request \<Rightarrow> tool_call \<Rightarrow> bool" where
  "asks_for turn request call \<longleftrightarrow>
     (\<exists>params arguments. sq_dynamic_tool_call request = Some params
        \<and> tc_thread_id params = et_thread_id turn \<and> tc_turn_id params = et_turn_id turn \<and> tc_namespace params = None
        \<and> json_as_object (tc_call_arguments params) = Some arguments
        \<and> call = \<lparr>tc_id = ToolCallId (tc_call_id params), tc_name = tc_tool params, tc_arguments = btree_of arguments\<rparr>)"

lemma worker_call_asks:
  assumes "sq_dynamic_tool_call request = Some params" "worker_call world turn params = Inr call"
  shows "asks_for turn request call"
  using assms by (auto simp: asks_for_def worker_call_def and_then_eq_Inr ok_or_def map_err_def split: option.splits sum.splits)

text \<open>The broker's state after a sequence of calls, each performed once with this terminal.\<close>

fun performed :: "'b tool_broker \<Rightarrow> (tool_call \<times> tool_terminal) list \<Rightarrow> 'b \<Rightarrow> 'b \<Rightarrow> bool" where
  "performed broker [] b b' \<longleftrightarrow> b' = b"
| "performed broker ((call, terminal) # calls) b b' \<longleftrightarrow> (\<exists>b1. performs broker call terminal b b1 \<and> performed broker calls b1 b')"

definition same_input :: "codex_server \<Rightarrow> codex_server \<Rightarrow> bool" where
  "same_input v w \<longleftrightarrow> sv_buffered_events v = sv_buffered_events w \<and> ch_stdout (sv_child v) = ch_stdout (sv_child w)"

lemma next_event_same_input:
  assumes "same_input v w" "next_event xd w = (Inr event, w')"
  shows "\<exists>v'. next_event xd v = (Inr event, v') \<and> same_input v' w'"
  using assms
  by (auto simp: same_input_def next_event_def read_message_def process_exited_def act_bind_def act_lift_def Let_def
        split: list.splits prod.splits sum.splits option.splits)

lemma write_frame_same_input: "write_frame xd frame w = (r, w') \<Longrightarrow> same_input w' w"
  by (auto simp: same_input_def write_frame_def Let_def split: if_splits list.splits option.splits)

lemma read_events_snoc:
  "read_events xd n w = Some (events, v) \<Longrightarrow> next_event xd v = (Inr event, v') \<Longrightarrow>
     read_events xd (Suc n) w = Some (events @ [event], v')"
proof (induction n arbitrary: w events)
  case (Suc n)
  then obtain e w1 rest where "next_event xd w = (Inr e, w1)" "read_events xd n w1 = Some (rest, v)" "events = e # rest"
    by (auto split: prod.splits sum.splits)
  then show ?case using Suc.IH [of w1 rest] Suc.prems(2) by simp
qed simp

lemma performed_snoc: "performed broker (calls @ [(call, terminal)]) b b' \<longleftrightarrow> (\<exists>b1. performed broker calls b b1 \<and> performs broker call terminal b1 b')"
proof (induction calls arbitrary: b)
  case (Cons p calls)
  then show ?case by (cases p) (simp, blast)
qed simp

lemma requests_of_snoc: "requests_of (events @ [event]) = requests_of events @ (case event of EventRequest request \<Rightarrow> [request] | _ \<Rightarrow> [])"
  by (simp add: requests_of_def)

text \<open>
  How far the turn has come: the events read since it was opened, the calls they asked for, what was written to the
  worker and what was done to the broker.
\<close>

definition turn_follows ::
  "('b, 'o) engine_world \<Rightarrow> engine_turn \<Rightarrow> codex_server \<Rightarrow> 'b \<Rightarrow> codex_event list \<Rightarrow> (tool_call \<times> tool_terminal) list
     \<Rightarrow> ('b, 'o) engine_state \<Rightarrow> bool" where
  "turn_follows world turn w b events calls s \<longleftrightarrow>
     (\<exists>v. read_events (en_codec world) (length events) w = Some (events, v) \<and> same_input v (en_server s))
     \<and> list_all2 (asks_for turn) (requests_of events) (map fst calls)
     \<and> ch_frames (sv_child (en_server s)) = ch_frames (sv_child w) @ map2 tool_answer (requests_of events) (map snd calls)
     \<and> performed (en_broker world) calls b (th_tools (en_host s))"

lemma notification_ends:
  assumes "engine_notification world turn notification s = (Inr ended, s')"
  shows "ended = turn_completes (EventNotification notification) \<and> en_server s' = en_server s \<and> en_host s' = en_host s"
proof -
  have "keeps_ports (engine_ports s) (engine_notification world turn notification)"
    by (cases notification) (auto intro!: keeps_intros)
  then have "en_server s' = en_server s \<and> en_host s' = en_host s" using assms by (rule keeps_portsD)
  moreover have "ended = turn_completes (EventNotification notification)"
    using assms by (cases notification) (auto simp: turn_completes_def act_bind_ok act_return_def)
  ultimately show ?thesis by simp
qed

lemma engine_step_follows:
  assumes follows: "turn_follows world turn w b events calls s" and trans: "turn_transcript turn scope base calls s"
    and run: "engine_step world turn s = (Inr ended, s')"
  shows "\<exists>event calls'. turn_follows world turn w b (events @ [event]) calls' s' \<and> turn_transcript turn scope base calls' s'
     \<and> ended = turn_completes event"
proof -
  obtain event t where await: "await_worker world (in_turn_exit turn) (next_event (en_codec world)) s = (Inr event, t)"
    and handle: "engine_event world turn event t = (Inr ended, s')"
    using run by (auto simp: engine_step_def act_bind_ok)
  note ports = await_worker_ports [OF await]
  have "engine_view t = engine_view s" using await by (rule keeps_viewD [rotated]) (intro keeps_intros)
  then have trans_t: "turn_transcript turn scope base calls t" using trans by (simp add: turn_transcript_def)
  obtain v where v: "read_events (en_codec world) (length events) w = Some (events, v)" "same_input v (en_server s)"
    using follows by (auto simp: turn_follows_def)
  obtain v' where v': "next_event (en_codec world) v = (Inr event, v')" "same_input v' (en_server t)"
    using next_event_same_input [OF v(2)] ports by blast
  have read: "read_events (en_codec world) (length (events @ [event])) w = Some (events @ [event], v')"
    using read_events_snoc [OF v(1) v'(1)] by simp
  have frames_t: "ch_frames (sv_child (en_server t)) = ch_frames (sv_child w) @ map2 tool_answer (requests_of events) (map snd calls)"
    using follows next_event_frames ports by (metis turn_follows_def)
  have asked: "list_all2 (asks_for turn) (requests_of events) (map fst calls)"
    and done_t: "performed (en_broker world) calls b (th_tools (en_host t))"
    using follows ports by (auto simp: turn_follows_def)
  show ?thesis
  proof (cases event)
    case (EventNotification notification)
    have run_n: "engine_notification world turn notification t = (Inr ended, s')" using handle EventNotification by (simp add: engine_event_def)
    have "engine_view s' = engine_view t" using run_n by (rule keeps_viewD [rotated]) (intro keeps_intros)
    then have "turn_transcript turn scope base calls s'" using trans_t by (simp add: turn_transcript_def)
    moreover have "turn_follows world turn w b (events @ [event]) calls s'"
      using notification_ends [OF run_n] read v'(2) frames_t asked done_t EventNotification
      by (auto simp: turn_follows_def requests_of_snoc)
    ultimately show ?thesis using notification_ends [OF run_n] EventNotification by blast
  next
    case (EventRequest request)
    then have "engine_request world turn request t = (Inr (), s')" "\<not> ended"
      using handle by (auto simp: engine_event_def act_bind_ok act_return_def)
    then obtain params call where call: "sq_dynamic_tool_call request = Some params" "worker_call world turn params = Ok call"
      and tool: "engine_run_tool world turn request call t = (Inr (), s')"
      by (auto simp: engine_request_def act_bind_ok act_lift_def engine_fail_def map_err_def split: option.splits sum.splits)
    obtain terminal where one: "answers (th_execution_scope (en_host t)) call terminal"
      "tt_invocation_id terminal \<notin> th_seen_invocation_ids (en_host t)"
      "engine_view s' = (en_transcript t @ answered_call turn call terminal, th_execution_scope (en_host t),
         insert (tt_invocation_id terminal) (th_seen_invocation_ids (en_host t)))"
      "performs (en_broker world) call terminal (th_tools (en_host t)) (th_tools (en_host s'))"
      "write_frame (en_codec world) (tool_answer request terminal) (en_server t) = (Ok (), en_server s')"
      using engine_run_tool_ok [OF tool] by blast
    have "turn_transcript turn scope base (calls @ [(call, terminal)]) s'"
      using one(1-3) trans_t worker_call_name [OF call(2)] by (auto simp: turn_transcript_def engine_view_def)
    moreover have "same_input v' (en_server s')"
      using v'(2) write_frame_same_input [OF one(5)] by (simp add: same_input_def)
    moreover have "ch_frames (sv_child (en_server s')) = ch_frames (sv_child (en_server t)) @ [tool_answer request terminal]"
      using write_frame_leaves [OF one(5)] by simp
    moreover have "performed (en_broker world) (calls @ [(call, terminal)]) b (th_tools (en_host s'))"
      using done_t one(4) by (auto simp: performed_snoc)
    moreover have "requests_of (events @ [event]) = requests_of events @ [request]" by (simp add: requests_of_snoc EventRequest)
    moreover have "asks_for turn request call" using call by (rule worker_call_asks)
    with asked have "list_all2 (asks_for turn) (requests_of events @ [request]) (map fst calls @ [call])"
      by (intro list_all2_appendI) simp_all
    moreover have "length (requests_of events) = length calls" using list_all2_lengthD [OF asked] by simp
    ultimately have "turn_follows world turn w b (events @ [event]) (calls @ [(call, terminal)]) s'"
      using read frames_t by (simp add: turn_follows_def)
    moreover have "ended = turn_completes event" using \<open>\<not> ended\<close> by (simp add: turn_completes_def EventRequest)
    ultimately show ?thesis using \<open>turn_transcript turn scope base (calls @ [(call, terminal)]) s'\<close> by blast
  qed
qed

lemma engine_loop_follows:
  assumes "engine_loop world turn s = (Inr (), s')"
    and "turn_follows world turn w b events calls s" "turn_transcript turn scope base calls s" "\<not> list_ex turn_completes events"
  shows "\<exists>events' completion calls'. turn_follows world turn w b (events' @ [completion]) calls' s'
     \<and> turn_transcript turn scope base calls' s' \<and> turn_completes completion \<and> \<not> list_ex turn_completes events'"
  using assms
proof (induction "en_backlog s" arbitrary: s events calls rule: less_induct)
  case less
  obtain ended t where step: "engine_step world turn s = (Inr ended, t)"
    using less.prems(1) by (auto simp: engine_loop.simps [of world turn s] split: prod.splits sum.splits)
  obtain event calls' where one: "turn_follows world turn w b (events @ [event]) calls' t" "turn_transcript turn scope base calls' t"
    "ended = turn_completes event"
    using engine_step_follows [OF less.prems(2,3) step] by blast
  show ?case
  proof (cases ended)
    case True
    then show ?thesis
      using one less.prems(1,4) step by (auto simp: engine_loop.simps [of world turn s] intro!: exI [of _ events] exI [of _ event])
  next
    case False
    then have rest: "engine_loop world turn t = (Inr (), s')" using less.prems(1) step by (simp add: engine_loop.simps [of world turn s])
    have "\<not> list_ex turn_completes (events @ [event])" using less.prems(4) one(3) False by simp
    then show ?thesis using less.hyps [OF engine_step_less [OF step] rest one(1,2)] by blast
  qed
qed

section \<open>The text the user saw\<close>

text \<open>The text of a public event that adds to the answer.\<close>

definition delta_text :: "json \<Rightarrow> string" where
  "delta_text event =
     (if json_get event ''type'' = Some (JString ''message.delta'')
      then (case Option.bind (json_get event ''text'') json_as_str of Some text \<Rightarrow> text | None \<Rightarrow> []) else [])"

definition streamed :: "json list \<Rightarrow> string" where
  "streamed events = concat (map delta_text events)"

abbreviation keeps_response :: "('b, 'o, 'a) engine_action \<Rightarrow> bool" where
  "keeps_response m \<equiv> keeps (\<lambda>s. streamed (en_events s) = en_response s) m"

lemma delta_text_other [simp]:
  assumes "''type'' \<notin> set (map fst rest)" "t \<noteq> ''message.delta''"
  shows "delta_text (jobject ((''type'', JString t) # rest)) = []"
proof -
  have "map_of (rev rest) ''type'' = None" using assms(1) by (simp add: map_of_eq_None_iff)
  then show ?thesis using assms(2) by (simp add: delta_text_def jobject_get map_add_def)
qed

lemma delta_text_events [simp]:
  "delta_text (engine_approval_event plan approval) = []" "delta_text (tool_start_event plan) = []"
  "delta_text (engine_complete_event terminal) = []" "delta_text (complete_turn_event turn response) = []"
  "delta_text (codex_attempt_event turn) = []"
  by (simp_all add: engine_approval_event_def tool_start_event_def engine_complete_event_def
        complete_turn_event_def codex_attempt_event_def)

lemma streamed_push: "delta_text event = [] \<Longrightarrow> keeps_response (engine_push_event world event)"
  by (auto simp: keeps_def wp_simps engine_push_event_def wp_def streamed_def split: prod.splits sum.splits)

lemma streamed_small [keeps_intros]:
  "keeps_response (engine_push_intent i)" "keeps_response (engine_push_messages ms)" "keeps_response (on_worker m)"
  "keeps_response (on_engine_host n)" "keeps_response (engine_fail e)" "keeps_response (engine_check b x)"
  "keeps_response (append_delta world turn d)"
  by (auto simp: keeps_def wp_simps engine_push_intent_def engine_push_messages_def on_worker_def on_engine_host_def
        engine_fail_def engine_check_def append_delta_def engine_push_event_def wp_def ensure_def streamed_def
        delta_text_def jobject_get attempt_name_def
        split: prod.splits sum.splits)

lemma streamed_await [keeps_intros]: "keeps_response m \<Longrightarrow> keeps_response (await_cancellable abandon e m)"
  by (rule await_keeps) simp_all

lemma streamed_start [keeps_intros]: "keeps_response (start_message world turn)"
  unfolding start_message_def
  by (auto intro!: keeps_intros streamed_push keeps_update)

lemma streamed_tool [keeps_intros]: "keeps_response (engine_run_tool world turn request call)"
  unfolding engine_run_tool_def await_host_def await_worker_def engine_request_approval_def engine_announce_resolved_def
  by (auto intro!: keeps_intros streamed_push split: list.split option.split)

lemma streamed_step: "keeps_response (engine_step world turn)"
proof -
  have "keeps_response (engine_event world turn event)" for event :: codex_event
  proof (cases event)
    case (EventNotification notification)
    then show ?thesis by (cases notification) (auto simp: engine_event_def intro!: keeps_intros)
  next
    case (EventRequest request)
    then show ?thesis by (auto simp: engine_event_def engine_request_def intro!: keeps_intros split: option.split)
  qed
  then show ?thesis unfolding engine_step_def await_worker_def by (intro keeps_intros)
qed

section \<open>The whole turn\<close>

lemma engine_check_ok: "engine_check b message s = (Inr u, s') \<longleftrightarrow> b \<and> s' = s"
  by (auto simp: engine_check_def act_lift_def ensure_def)

lemma begin_turn_ok:
  assumes "begin_turn world request turn s = (Inr u, s')"
  shows "turn_transcript turn (er_execution_scope request) (er_semantic_history request @ [User (er_prompt request) None]) [] s'
     \<and> streamed (en_events s') = en_response s'"
  using assms
  by (auto simp: begin_turn_def act_bind_ok act_update_def act_read_def act_lift_def tool_host_new_def engine_push_event_def
        act_map_err_ok act_zoom_def turn_transcript_def engine_view_def streamed_def act_map_err_def map_err_def ensure_def
        split: prod.splits sum.splits if_splits)

lemma end_turn_ok:
  assumes "end_turn world turn binding s = (Inr outcome, s')"
  shows "eo_binding outcome = binding \<and> en_response s \<noteq> []
     \<and> legal (co_semantic_conversation (eo_contract outcome))
     \<and> co_semantic_conversation (eo_contract outcome)
         = en_transcript s @ [Assistant (en_response s) None (Some (provider_replay_of turn))]
     \<and> to_final_response (co_terminal_outcome (eo_contract outcome)) = Some (en_response s)
     \<and> streamed (co_public_events (eo_contract outcome)) = streamed (en_events s)"
  using assms
  by (auto simp: end_turn_def act_bind_ok act_update_def act_read_def act_try_def act_return_def engine_check_ok
        engine_push_messages_def engine_push_intent_def engine_push_event_def on_worker_def act_map_err_def act_zoom_def
        map_err_def conversation_new_Inr streamed_def
        split: prod.splits sum.splits)

lemma begin_turn_frame:
  assumes "begin_turn world request turn s = (Inr u, s')"
  shows "en_server s' = en_server s \<and> th_tools (en_host s') = th_tools (en_host s)"
  using assms
  by (auto simp: begin_turn_def act_bind_ok act_update_def act_read_def act_lift_def tool_host_new_def engine_push_event_def
        act_map_err_ok act_zoom_def act_map_err_def map_err_def ensure_def
        split: prod.splits sum.splits if_splits)

lemma server_shutdown_frames:
  "server_shutdown xd w = (r, w') \<Longrightarrow> ch_frames (sv_child w') = ch_frames (sv_child w)"
  by (auto simp: server_shutdown_def process_exited_def take_stderr_def Let_def split: option.splits sum.splits if_splits prod.splits)

lemma end_turn_frame:
  assumes "end_turn world turn binding s = (Inr outcome, s')"
  shows "ch_frames (sv_child (en_server s')) = ch_frames (sv_child (en_server s)) \<and> en_host s' = en_host s"
  using assms
  by (auto simp: end_turn_def act_bind_ok act_update_def act_read_def act_try_def act_return_def engine_check_ok
        engine_push_messages_def engine_push_intent_def engine_push_event_def act_map_err_def act_zoom_def
        map_err_def split: prod.splits sum.splits dest!: on_worker_okD server_shutdown_frames)

lemma host_small [keeps_intros]:
  "keeps (\<lambda>s. en_host s = h) (engine_check b x)" "keeps (\<lambda>s. en_host s = h) (await_worker world e m)"
  by (auto simp: keeps_def wp_def engine_check_def act_lift_def dest!: await_worker_ports split: prod.splits sum.splits)

lemma open_keeps_host: "keeps (\<lambda>s. en_host s = h) (open_turn_of_worker world engine control request tools cwd)"
  unfolding open_turn_of_worker_def spawn_worker_def await_open_def open_thread_def Let_def
  by (auto intro!: keeps_intros keeps_update split: option.split)

lemma run_inner_ok:
  assumes "run_inner world clock engine control catalog request s = (Inr (Some outcome), s')"
  shows "run_worker world engine control catalog request s = (Inr outcome, s')"
  using assms
  by (auto simp: run_inner_def interrupted_before_turn_def interrupt_active_worker_def Let_def
        split: prod.splits sum.splits engine_exit.splits if_splits option.splits)

lemma run_worker_ok:
  assumes "run_worker world engine control catalog request s = (Inr outcome, s')"
  shows "\<exists>tools cwd binding s1 s2 s3.
     dynamic_tools_from_catalog catalog = Inr tools \<and> engine_request_validate request = Inr ()
     \<and> open_turn_of_worker world engine control request tools cwd s = (Inr binding, s1)
     \<and> begin_turn world request (turn_of_binding binding tools) s1 = (Inr (), s2)
     \<and> engine_loop world (turn_of_binding binding tools) s2 = (Inr (), s3)
     \<and> end_turn world (turn_of_binding binding tools) binding s3 = (Inr outcome, s')"
  using assms by (simp add: run_worker_def act_bind_ok act_lift_def Let_def) blast

text \<open>
  C18. A Codex turn that completes returns Hermes' own transcript, whatever the worker, the tools and the
  observer do: the given history, the prompt, then for each call the worker made its request and its
  answer, then the assistant text. The calls are exactly those the worker asked for between the opening of the turn and
  its completion, in that order, each a tool of the catalog. They are also exactly what was done to the tools: planned,
  decided and executed one after the other, each once and under an identity of its own, and the terminal of each
  execution is what stands in the transcript and what was written to the worker as the answer, failed ones included.
  The text is what was streamed to the user; the whole is a legal conversation.
\<close>

theorem codex_turn_owns_the_transcript:
  assumes "run_inner world clock engine control catalog request s = (Ok (Some outcome), s')"
  shows "\<exists>tools cwd opened events completion calls response. let contract = eo_contract outcome; turn = turn_of_binding (eo_binding outcome) tools in
     dynamic_tools_from_catalog catalog = Ok tools \<and> legal (co_semantic_conversation contract)
     \<and> co_semantic_conversation contract = er_semantic_history request @ [User (er_prompt request) None]
         @ concat (map (\<lambda>(call, terminal). answered_call turn call terminal) calls)
         @ [Assistant response None (Some (provider_replay_of turn))]
     \<and> open_turn_of_worker world engine control request tools cwd s = (Ok (eo_binding outcome), opened)
     \<and> map_option fst (read_events (en_codec world) (Suc (length events)) (en_server opened)) = Some (events @ [completion])
     \<and> turn_completes completion \<and> \<not> list_ex turn_completes events
     \<and> list_all2 (asks_for turn) (requests_of events) (map fst calls)
     \<and> performed (en_broker world) calls (th_tools (en_host s)) (th_tools (en_host s'))
     \<and> ch_frames (sv_child (en_server s')) = ch_frames (sv_child (en_server opened)) @ map2 tool_answer (requests_of events) (map snd calls)
     \<and> (\<forall>(call, terminal) \<in> set calls. tc_name call \<in> tool_spec_name ` set tools \<and> tt_call_id terminal = tc_id call
          \<and> tt_invocation_id terminal = kernel_invocation (er_execution_scope request) (tc_id call))
     \<and> distinct (map (tt_invocation_id \<circ> snd) calls)
     \<and> response \<noteq> [] \<and> to_final_response (co_terminal_outcome contract) = Some response
     \<and> streamed (co_public_events contract) = response"
proof -
  obtain tools cwd binding s1 s2 s3 where tools: "dynamic_tools_from_catalog catalog = Inr tools"
    and opened: "open_turn_of_worker world engine control request tools cwd s = (Inr binding, s1)"
    and start: "begin_turn world request (turn_of_binding binding tools) s1 = (Inr (), s2)"
    and loop: "engine_loop world (turn_of_binding binding tools) s2 = (Inr (), s3)"
    and ending: "end_turn world (turn_of_binding binding tools) binding s3 = (Inr outcome, s')"
    using run_worker_ok [OF run_inner_ok [OF assms]] by auto
  let ?turn = "turn_of_binding binding tools" and ?scope = "er_execution_scope request"
  let ?base = "er_semantic_history request @ [User (er_prompt request) None]"
  note ended = end_turn_ok [OF ending] and frame = begin_turn_frame [OF start] end_turn_frame [OF ending]
  have host: "en_host s1 = en_host s" using keepsD [OF open_keeps_host refl opened] .
  have "turn_transcript ?turn ?scope ?base [] s2" "streamed (en_events s2) = en_response s2"
    using begin_turn_ok [OF start] by auto
  moreover have "turn_follows world ?turn (en_server s1) (th_tools (en_host s)) [] [] s2"
    using frame(1) host by (simp add: turn_follows_def requests_of_def same_input_def)
  ultimately obtain events completion calls where follows: "turn_follows world ?turn (en_server s1) (th_tools (en_host s)) (events @ [completion]) calls s3"
    and calls: "turn_transcript ?turn ?scope ?base calls s3" and at_end: "turn_completes completion" "\<not> list_ex turn_completes events"
    and shown: "streamed (en_events s3) = en_response s3"
    using engine_loop_follows [OF loop] keepsD [OF engine_loop_keeps [OF streamed_step] _ loop] by force
  have "requests_of (events @ [completion]) = requests_of events"
    using at_end(1) by (cases completion) (simp_all add: requests_of_snoc turn_completes_def)
  with follows frame(2)
  have "map_option fst (read_events (en_codec world) (Suc (length events)) (en_server s1)) = Some (events @ [completion])"
    "list_all2 (asks_for ?turn) (requests_of events) (map fst calls)"
    "ch_frames (sv_child (en_server s')) = ch_frames (sv_child (en_server s1)) @ map2 tool_answer (requests_of events) (map snd calls)"
    "performed (en_broker world) calls (th_tools (en_host s)) (th_tools (en_host s'))"
    by (auto simp: turn_follows_def simp del: read_events.simps)
  moreover have "en_transcript s3 = ?base @ concat (map (\<lambda>(call, terminal). answered_call ?turn call terminal) calls)"
    "\<forall>(call, terminal) \<in> set calls. tc_name call \<in> tool_spec_name ` set tools \<and> tt_call_id terminal = tc_id call
          \<and> tt_invocation_id terminal = kernel_invocation ?scope (tc_id call)"
    "distinct (map (tt_invocation_id \<circ> snd) calls)"
    using calls by (auto simp: turn_transcript_def engine_view_def answers_def turn_of_binding_def)
  moreover note facts = calculation
  show ?thesis unfolding Let_def
    by (rule exI [of _ tools], rule exI [of _ cwd], rule exI [of _ s1], rule exI [of _ events],
        rule exI [of _ completion], rule exI [of _ calls], rule exI [of _ "en_response s3"])
       (use facts ended tools shown opened at_end in \<open>auto simp del: read_events.simps\<close>)
qed

theorem codex_turn_owns_the_transcript_witness:
  "\<exists>outcome s'. run_inner sample_world sample_clock sample_engine sample_control sample_catalog sample_turn_request sample_state
       = (Ok (Some outcome), s')
     \<and> (\<exists>tools calls response. let contract = eo_contract outcome; turn = turn_of_binding (eo_binding outcome) tools in
          dynamic_tools_from_catalog sample_catalog = Ok tools \<and> legal (co_semantic_conversation contract)
          \<and> co_semantic_conversation contract = [User ''hello'' None]
              @ concat (map (\<lambda>(call, terminal). answered_call turn call terminal) calls)
              @ [Assistant response None (Some (provider_replay_of turn))]
          \<and> performed sample_broker calls () ()
          \<and> streamed (co_public_events contract) = response)"
proof -
  obtain outcome s' where run: "run_inner sample_world sample_clock sample_engine sample_control sample_catalog sample_turn_request sample_state
     = (Ok (Some outcome), s')"
    using sample_runs by blast
  have "er_semantic_history sample_turn_request = []" "er_prompt sample_turn_request = ''hello''"
    by (simp_all add: sample_turn_request_def)
  then show ?thesis
    using run codex_turn_owns_the_transcript [OF run] by (fastforce simp: Let_def sample_worlds)
qed

section \<open>The restrictions of a worker thread\<close>

lemmas thread_builders =
  start_with_model_def start_with_cwd_def start_with_approval_policy_def start_with_sandbox_def start_with_base_instructions_def
  start_with_developer_instructions_def start_with_config_def start_with_dynamic_tools_def start_without_environments_def start_with_ephemeral_def thread_start_new_def
  fork_with_model_def fork_with_model_provider_def fork_with_cwd_def fork_with_approval_policy_def
  fork_with_sandbox_def fork_with_config_def fork_with_developer_instructions_def fork_through_turn_def

lemma engine_policy_ok:
  assumes "engine_policy world engine effective tools = Inr policy"
  shows "fail_closed effective (ca_config_overrides policy) \<and> ca_dynamic_tools policy = tools
     \<and> cm_dynamic_tools (ca_manifest policy) = sorted_list_of_set (tool_spec_name ` set tools)"
proof -
  obtain p where p: "authority_policy_new (en_debug_str world) effective tools = Inr p"
    and policy: "policy = (case eg_effort engine of None \<Rightarrow> p
       | Some effort \<Rightarrow> with_config_override ''model_reasoning_effort'' (JString effort) p)"
    using assms by (auto simp: engine_policy_def and_then_eq_Inr)
  note closed = policy_fail_closed [OF p]
  show ?thesis
    using closed override_fail_closed [OF closed(1), of "''model_reasoning_effort''"]
    by (auto simp: policy with_config_override_def split: option.split)
qed

text \<open>
  C19. Whatever configuration the worker reports, the thread it is asked to open, fresh or forked, runs with
  every ambient feature, every MCP server it has configured and web search switched off, in a read-only
  sandbox without approvals of its own; a fresh thread has no environment and exactly the tools Hermes
  hosts, and the manifest kept as evidence names those tools.
\<close>

theorem worker_thread_is_fail_closed:
  assumes "engine_policy world engine effective tools = Ok policy"
  shows "(\<forall>params \<in> {json_of_thread_start (start_params engine policy ephemeral), json_of_thread_fork (fork_params engine policy binding)}.
       (\<exists>overrides. json_get params ''config'' = Some (JObject overrides) \<and> fail_closed effective overrides)
       \<and> json_get params ''sandbox'' = Some (JString ''read-only'') \<and> json_get params ''approvalPolicy'' = Some (JString ''never''))
     \<and> json_get (json_of_thread_start (start_params engine policy ephemeral)) ''environments'' = Some (JArray [])
     \<and> json_get (json_of_thread_start (start_params engine policy ephemeral)) ''dynamicTools'' = Some (JArray (map json_of_tool_spec tools))
     \<and> cm_dynamic_tools (ca_manifest policy) = sorted_list_of_set (tool_spec_name ` set tools)"
proof -
  note policy = engine_policy_ok [OF assms]
  then show ?thesis
    by (simp add: json_of_thread_start_def json_of_thread_fork_def start_params_def fork_params_def constrain_def jobject_get
          jskip_def jflag_def thread_builders)
qed

theorem worker_thread_is_fail_closed_witness:
  "\<exists>policy overrides. engine_policy sample_world sample_engine sample_config [ToolFunction (function_spec_new ''read'' ''d'' JNull)] = Ok policy
     \<and> json_get (json_of_thread_fork (fork_params sample_engine policy sample_binding)) ''config'' = Some (JObject overrides)
     \<and> fail_closed sample_config overrides
     \<and> json_get (json_of_thread_start (start_params sample_engine policy True)) ''environments'' = Some (JArray [])"
proof -
  obtain policy where policy: "engine_policy sample_world sample_engine sample_config
      [ToolFunction (function_spec_new ''read'' ''d'' JNull)] = Ok policy"
    using sample_policy by blast
  show ?thesis
    using policy worker_thread_is_fail_closed [OF policy, of True sample_binding] by auto
qed

end
