(* ===== verification/Openai.thy ===== *)
theory Openai
  imports Rust_Path Runtime_Turn
begin

text \<open>
  \<open>apps/hermesd/src/adapters/openai.rs\<close>: the provider over an OpenAI-compatible endpoint. Modelled are the
  check of the endpoint, the request that is sent, and the normalization of the stream of server-sent
  events. URLs (crate \<open>url\<close>), HTTP and the decoding of a chunk (\<open>derive(Deserialize)\<close>) are parameters. Proved
  here: whatever the endpoint sends, the normalized stream has the shape that the kernel demands.
\<close>

section \<open>Addresses\<close>

text \<open>\<open>IpAddr::from_str\<close> of the standard library, and \<open>is_loopback\<close>.\<close>

definition decimal_digit :: "char \<Rightarrow> bool" where
  "decimal_digit c \<longleftrightarrow> byte_in 48 57 c"

definition digits_value :: "nat \<Rightarrow> (char \<Rightarrow> nat) \<Rightarrow> string \<Rightarrow> nat" where
  "digits_value base value s = foldl (\<lambda>n c. n * base + value c) 0 s"

definition decimal_value :: "char \<Rightarrow> nat" where
  "decimal_value c = byte_of c - 48"

definition parse_octet :: "string \<Rightarrow> nat option" where
  "parse_octet s =
     (if s \<noteq> [] \<and> length s \<le> 3 \<and> list_all decimal_digit s \<and> (length s = 1 \<or> hd s \<noteq> CHR ''0'')
         \<and> digits_value 10 decimal_value s \<le> 255
      then Some (digits_value 10 decimal_value s) else None)"

definition all_some :: "'a option list \<Rightarrow> 'a list option" where
  "all_some xs = (if None \<in> set xs then None else Some (map the xs))"

definition parse_ipv4 :: "string \<Rightarrow> nat list option" where
  "parse_ipv4 s =
     Option.bind (all_some (map parse_octet (split_on (CHR ''.'') s))) (\<lambda>octets. if length octets = 4 then Some octets else None)"

definition hex_digit :: "char \<Rightarrow> bool" where
  "hex_digit c \<longleftrightarrow> byte_in 48 57 c \<or> byte_in 65 70 c \<or> byte_in 97 102 c"

definition hex_value :: "char \<Rightarrow> nat" where
  "hex_value c = (if byte_in 48 57 c then byte_of c - 48 else if byte_in 65 70 c then byte_of c - 55 else byte_of c - 87)"

definition parse_group :: "string \<Rightarrow> nat option" where
  "parse_group s = (if s \<noteq> [] \<and> length s \<le> 4 \<and> list_all hex_digit s then Some (digits_value 16 hex_value s) else None)"

text \<open>Groups separated by colons; an IPv4 address may stand for the last two.\<close>

fun parse_groups :: "string list \<Rightarrow> nat list option" where
  "parse_groups [] = Some []"
| "parse_groups [s] =
     (case parse_ipv4 s of
        Some [a, b, c, d] \<Rightarrow> Some [a * 256 + b, c * 256 + d]
      | _ \<Rightarrow> map_option (\<lambda>g. [g]) (parse_group s))"
| "parse_groups (s # t # ss) =
     Option.bind (parse_group s) (\<lambda>g. map_option (Cons g) (parse_groups (t # ss)))"

text \<open>The text before and after the first double colon.\<close>

fun split_double_colon :: "string \<Rightarrow> (string \<times> string) option" where
  "split_double_colon (a # b # cs) =
     (if a = CHR '':'' \<and> b = CHR '':'' then Some ([], cs)
      else map_option (\<lambda>(l, r). (a # l, r)) (split_double_colon (b # cs)))"
| "split_double_colon _ = None"

definition groups_of :: "string \<Rightarrow> nat list option" where
  "groups_of s = (if s = [] then Some [] else parse_groups (split_on (CHR '':'') s))"

definition parse_ipv6 :: "string \<Rightarrow> nat list option" where
  "parse_ipv6 s =
     (case split_double_colon s of
        None \<Rightarrow> Option.bind (groups_of s) (\<lambda>groups. if length groups = 8 then Some groups else None)
      | Some (before, after) \<Rightarrow>
          if CHR ''.'' \<in> set before then None
          else Option.bind (groups_of before) (\<lambda>front. Option.bind (groups_of after) (\<lambda>back.
            if length front + length back \<le> 7
            then Some (front @ replicate (8 - length front - length back) 0 @ back) else None)))"

definition is_loopback_address :: "string \<Rightarrow> bool" where
  "is_loopback_address s \<longleftrightarrow>
     (case parse_ipv4 s of
        Some octets \<Rightarrow> hd octets = 127
      | None \<Rightarrow> parse_ipv6 s = Some [0, 0, 0, 0, 0, 0, 0, 1])"

section \<open>The endpoint\<close>

text \<open>What the code asks of a parsed URL; \<open>join\<close> is the crate's.\<close>

record url =
  url_scheme :: string
  url_username :: string
  url_password :: "string option"
  url_host :: "string option"
  url_text :: string

record url_crate =
  uc_parse :: "string \<Rightarrow> string + url"
  uc_join :: "url \<Rightarrow> string \<Rightarrow> string + url"

datatype openai_config_error = InvalidUrl string | InsecureUrl | EmbeddedCredentials | ClientError string

fun openai_config_error_text :: "openai_config_error \<Rightarrow> string" where
  "openai_config_error_text (InvalidUrl e) = ''invalid provider base URL: '' @ e"
| "openai_config_error_text InsecureUrl = ''provider URL must use HTTPS unless it targets a loopback host''"
| "openai_config_error_text EmbeddedCredentials = ''provider URL must not contain embedded credentials''"
| "openai_config_error_text (ClientError e) = ''could not construct provider HTTP client: '' @ e"

definition loopback_host :: "url \<Rightarrow> bool" where
  "loopback_host base \<longleftrightarrow>
     (case url_host base of
        None \<Rightarrow> False
      | Some host \<Rightarrow> to_ascii_lowercase host = ''localhost'' \<or> is_loopback_address host)"

definition trim_end_slashes :: "string \<Rightarrow> string" where
  "trim_end_slashes s = rev (dropWhile (\<lambda>c. c = CHR ''/'') (rev s))"

definition chat_completions_endpoint :: "url_crate \<Rightarrow> string \<Rightarrow> openai_config_error + url" where
  "chat_completions_endpoint uc base_url =
     and_then (map_err InvalidUrl (uc_parse uc (trim_end_slashes base_url @ ''/''))) (\<lambda>base.
     if url_username base \<noteq> [] \<or> url_password base \<noteq> None then Err EmbeddedCredentials
     else if url_scheme base \<noteq> ''https'' \<and> \<not> (url_scheme base = ''http'' \<and> loopback_host base) then Err InsecureUrl
     else map_err InvalidUrl (uc_join uc base ''chat/completions''))"

definition validate_base_url :: "url_crate \<Rightarrow> string \<Rightarrow> openai_config_error + unit" where
  "validate_base_url uc base_url = and_then (chat_completions_endpoint uc base_url) (\<lambda>_. Ok ())"

section \<open>The request\<close>

fun wire_message :: "provider_message \<Rightarrow> json" where
  "wire_message (PSystem content) = jobject [(''role'', JString ''system''), (''content'', JString content)]"
| "wire_message (PUser content) = jobject [(''role'', JString ''user''), (''content'', JString content)]"
| "wire_message (PAssistant content _ tool_calls _) = jobject
     ([(''role'', JString ''assistant''), (''content'', jopt JString content)]
      @ (if tool_calls = [] then [] else [(''tool_calls'', JArray (map json_of_provider_tool_call tool_calls))]))"
| "wire_message (PTool tool_call_id _ content _) = jobject
     [(''role'', JString ''tool''), (''tool_call_id'', JString tool_call_id), (''content'', JString content)]"

definition wire_request :: "chat_completions_request \<Rightarrow> json" where
  "wire_request request = jobject
     ([(''model'', JString (cr_model request)), (''messages'', JArray (map wire_message (cr_messages request))),
       (''stream'', JBool True), (''stream_options'', jobject [(''include_usage'', JBool True)])]
      @ (if cr_tools request = [] then [] else [(''tools'', JArray (cr_tools request))]))"

section \<open>The stream\<close>

record chunk_function =
  kf_name :: "string option"
  kf_arguments :: "string option"

record chunk_tool_call =
  kt_index :: nat
  kt_id :: "string option"
  kt_function :: "chunk_function option"

record chunk_delta =
  kd_content :: "string option"
  kd_reasoning_content :: "string option"
  kd_reasoning :: "string option"
  kd_tool_calls :: "chunk_tool_call list"

record chunk_choice =
  kc_delta :: chunk_delta
  kc_finish_reason :: "string option"

record chunk_usage =
  ku_prompt_tokens :: u64
  ku_completion_tokens :: u64
  ku_total_tokens :: u64
  ku_cached_tokens :: "u64 option"

record chat_completion_chunk =
  kk_choices :: "chunk_choice list"
  kk_usage :: "chunk_usage option"
  kk_error :: "string option"

definition none_or_empty :: "string option \<Rightarrow> bool" where
  "none_or_empty m \<longleftrightarrow> (case m of None \<Rightarrow> True | Some s \<Rightarrow> s = [])"

definition is_semantically_empty :: "chunk_delta \<Rightarrow> bool" where
  "is_semantically_empty d \<longleftrightarrow>
     none_or_empty (kd_content d) \<and> none_or_empty (kd_reasoning_content d) \<and> none_or_empty (kd_reasoning d)
     \<and> kd_tool_calls d = []"

definition tool_call_event :: "chunk_tool_call \<Rightarrow> provider_event" where
  "tool_call_event call =
     (let function = (case kt_function call of None \<Rightarrow> \<lparr>kf_name = None, kf_arguments = None\<rparr> | Some f \<Rightarrow> f) in
      EvToolCallDelta (kt_index call) (kt_id call) (kf_name function) (or_default [] (kf_arguments function)))"

definition or_option :: "'a option \<Rightarrow> 'a option \<Rightarrow> 'a option" where
  "or_option m n = (case m of None \<Rightarrow> n | Some _ \<Rightarrow> m)"

definition nonempty_event :: "(string \<Rightarrow> provider_event) \<Rightarrow> string option \<Rightarrow> provider_event list" where
  "nonempty_event build m = (case m of None \<Rightarrow> [] | Some s \<Rightarrow> if s = [] then [] else [build s])"

definition delta_events :: "chunk_delta \<Rightarrow> provider_event list" where
  "delta_events d =
     nonempty_event EvTextDelta (kd_content d)
     @ nonempty_event EvReasoningDelta (or_option (kd_reasoning_content d) (kd_reasoning d))
     @ map tool_call_event (kd_tool_calls d)"

definition usage_event :: "chunk_usage \<Rightarrow> provider_event" where
  "usage_event u = EvUsage (ku_prompt_tokens u) (ku_completion_tokens u) (ku_total_tokens u)
     (case ku_cached_tokens u of None \<Rightarrow> 0 | Some n \<Rightarrow> n)"

definition data_after_finish :: "string option \<Rightarrow> chunk_choice list \<Rightarrow> bool" where
  "data_after_finish finish_reason choices \<longleftrightarrow>
     (case (finish_reason, choices) of
        (Some completed_reason, choice # _) \<Rightarrow>
          \<not> is_semantically_empty (kc_delta choice)
          \<or> (case kc_finish_reason choice of None \<Rightarrow> False | Some reason \<Rightarrow> reason \<noteq> completed_reason)
      | _ \<Rightarrow> False)"

text \<open>
  \<open>normalized_events\<close>: the source is what the event-stream decoder yields until it ends. The generator stops
  at the first terminal event.
\<close>

fun normalized_events ::
  "(string \<Rightarrow> string + chat_completion_chunk) \<Rightarrow> bool \<Rightarrow> string option \<Rightarrow> (string + string) list
     \<Rightarrow> (provider_error + provider_event) list" where
  "normalized_events parse started finish_reason [] =
     (case finish_reason of None \<Rightarrow> [] | Some reason \<Rightarrow> [Inr (EvCompleted (Some reason) None)])"
| "normalized_events parse started finish_reason (Inl error # source) =
     [Inl (ProviderError (''invalid SSE stream: '' @ error))]"
| "normalized_events parse started finish_reason (Inr event_data # source) =
     (let data = trim event_data in
      if data = ''[DONE]'' then
        (if started then [] else [Inr EvMessageStart])
        @ [Inr (EvCompleted (Some (or_default ''stop'' finish_reason)) None)]
      else if data = [] then normalized_events parse started finish_reason source
      else case parse data of
        Inl error \<Rightarrow> [Inr (EvMalformed (Some (''invalid_chat_completion_chunk: '' @ error)))]
      | Inr chunk \<Rightarrow>
          (case kk_error chunk of
             Some message \<Rightarrow> [Inr (EvError (Some message))]
           | None \<Rightarrow>
               if 1 < length (kk_choices chunk)
               then [Inr (EvMalformed (Some ''multiple_chat_completion_choices_are_not_supported''))]
               else if data_after_finish finish_reason (kk_choices chunk)
               then [Inr (EvMalformed (Some ''provider_emitted_data_after_finish_reason''))]
               else
                 (let start = (if \<not> started \<and> kk_choices chunk \<noteq> [] then [EvMessageStart] else []);
                      deltas = (case kk_choices chunk of [] \<Rightarrow> [] | choice # _ \<Rightarrow> delta_events (kc_delta choice));
                      reason = (case kk_choices chunk of [] \<Rightarrow> finish_reason
                                | choice # _ \<Rightarrow> or_option (kc_finish_reason choice) finish_reason);
                      usage = (case kk_usage chunk of None \<Rightarrow> [] | Some u \<Rightarrow> [usage_event u]) in
                  map Inr (start @ deltas @ usage)
                  @ normalized_events parse (started \<or> kk_choices chunk \<noteq> []) reason source)))"

section \<open>The provider\<close>

definition max_error_body_bytes :: nat where "max_error_body_bytes = 4096"

definition truncate_utf8 :: "string \<Rightarrow> nat \<Rightarrow> string" where
  "truncate_utf8 value max_bytes =
     (if length value \<le> max_bytes then value else take (boundary_below value max_bytes) value)"

text \<open>A response: its status, the text of its body or the events it streams.\<close>

record http_response =
  hr_success :: bool
  hr_status :: string
  hr_text :: "string + string"
  hr_events :: "(string + string) list"

text \<open>The HTTP client is a stateful service: the endpoint, the key and the body that are posted to it.\<close>

type_synonym 'h http_client = "url \<Rightarrow> string option \<Rightarrow> json \<Rightarrow> ('h, string, http_response) action"

record 'h openai_provider =
  op_http :: 'h
  op_endpoint :: url
  op_api_key :: "string option"
  op_next_attempt :: u64

definition openai_with_client ::
  "url_crate \<Rightarrow> string \<Rightarrow> string option \<Rightarrow> 'h \<Rightarrow> openai_config_error + 'h openai_provider" where
  "openai_with_client uc base_url api_key client =
     and_then (chat_completions_endpoint uc base_url) (\<lambda>endpoint.
     Ok \<lparr>op_http = client, op_endpoint = endpoint, op_api_key = api_key, op_next_attempt = 1\<rparr>)"

definition saturating_succ :: "u64 \<Rightarrow> u64" where
  "saturating_succ w = (case u64_succ w of None \<Rightarrow> w | Some v \<Rightarrow> v)"

definition openai_answer ::
  "(string \<Rightarrow> string + chat_completion_chunk) \<Rightarrow> string \<Rightarrow> http_response \<Rightarrow> provider_error + provider_attempt" where
  "openai_answer parse attempt_id response =
     (if \<not> hr_success response then
        (let body = (case hr_text response of Inr text \<Rightarrow> text | Inl error \<Rightarrow> ''could not read error response: '' @ error) in
         Err (ProviderError (''HTTP '' @ hr_status response @ '': '' @ truncate_utf8 body max_error_body_bytes)))
      else Ok \<lparr>at_attempt_id = attempt_id, at_error_policy = StopPolicy,
               at_events = normalized_events parse False None (hr_events response)\<rparr>)"

definition openai_stream ::
  "'h http_client \<Rightarrow> (string \<Rightarrow> string + chat_completion_chunk) \<Rightarrow> chat_completions_request
     \<Rightarrow> ('h openai_provider, provider_error, provider_attempt) action" where
  "openai_stream http parse request =
     act_bind (act_read op_next_attempt) (\<lambda>n.
     act_bind (act_update (\<lambda>p. p\<lparr>op_next_attempt := saturating_succ (op_next_attempt p)\<rparr>)) (\<lambda>_.
     act_bind (act_read (\<lambda>p. (op_endpoint p, op_api_key p))) (\<lambda>(endpoint, api_key).
     act_bind (act_map_err (\<lambda>error. ProviderError (''request failed: '' @ error))
                (act_zoom op_http (\<lambda>h p. p\<lparr>op_http := h\<rparr>) (http endpoint api_key (wire_request request)))) (\<lambda>response.
     act_lift (openai_answer parse (''openai-'' @ show_u64 n) response)))))"

definition openai_provider_port ::
  "'h http_client \<Rightarrow> (string \<Rightarrow> string + chat_completion_chunk) \<Rightarrow> 'h openai_provider provider" where
  "openai_provider_port http parse = \<lparr>pv_stream = openai_stream http parse, pv_remaining_attempts = (\<lambda>_. None)\<rparr>"

section \<open>The shape of the stream\<close>

text \<open>
  What the kernel may rely on: the message starts at most once and before any of its content, no piece of text
  is empty, and the first terminal, or the first error of the transport, is the last event.
\<close>

fun stream_shape :: "bool \<Rightarrow> (provider_error + provider_event) list \<Rightarrow> bool" where
  "stream_shape started [] = True"
| "stream_shape started (Inl error # events) = (events = [])"
| "stream_shape started (Inr EvMessageStart # events) = (\<not> started \<and> stream_shape True events)"
| "stream_shape started (Inr (EvTextDelta text) # events) = (started \<and> text \<noteq> [] \<and> stream_shape started events)"
| "stream_shape started (Inr (EvReasoningDelta text) # events) = (started \<and> text \<noteq> [] \<and> stream_shape started events)"
| "stream_shape started (Inr (EvToolCallDelta _ _ _ _) # events) = (started \<and> stream_shape started events)"
| "stream_shape started (Inr (EvUsage _ _ _ _) # events) = stream_shape started events"
| "stream_shape started (Inr (EvCompleted reason _) # events) = (started \<and> reason \<noteq> None \<and> events = [])"
| "stream_shape started (Inr (EvError _) # events) = (events = [])"
| "stream_shape started (Inr (EvCancelled _) # events) = False"
| "stream_shape started (Inr (EvMalformed _) # events) = (events = [])"

lemma shape_tool_calls: "stream_shape True (map (Inr \<circ> tool_call_event) calls @ events) = stream_shape True events"
  by (induction calls) (auto simp: tool_call_event_def Let_def)

lemma shape_usage: "stream_shape started (map Inr (case u of None \<Rightarrow> [] | Some v \<Rightarrow> [usage_event v]) @ events) = stream_shape started events"
  by (cases u) (auto simp: usage_event_def)

lemma shape_deltas: "stream_shape True (map Inr (delta_events d) @ events) = stream_shape True events"
  by (auto simp: delta_events_def nonempty_event_def shape_tool_calls split: option.split)

text \<open>The message has started when a reason to finish is known.\<close>

lemma normalized_shape:
  "(finish_reason \<noteq> None \<longrightarrow> started) \<Longrightarrow> stream_shape started (normalized_events parse started finish_reason source)"
proof (induction parse started finish_reason source rule: normalized_events.induct)
  case (3 parse started finish_reason event_data source)
  show ?case
  proof (cases "trim event_data = ''[DONE]'' \<or> trim event_data = []")
    case True
    then show ?thesis using 3 by (auto simp: Let_def)
  next
    case False
    show ?thesis
    proof (cases "parse (trim event_data)")
      case (Inr chunk)
      show ?thesis
      proof (cases "kk_error chunk = None \<and> length (kk_choices chunk) \<le> 1 \<and> \<not> data_after_finish finish_reason (kk_choices chunk)")
        case True
        let ?reason = "case kk_choices chunk of [] \<Rightarrow> finish_reason | choice # _ \<Rightarrow> or_option (kc_finish_reason choice) finish_reason"
        have "stream_shape (started \<or> kk_choices chunk \<noteq> [])
            (normalized_events parse (started \<or> kk_choices chunk \<noteq> []) ?reason source)"
          by (rule 3(2) [OF refl _ _ Inr _ _ _ refl refl refl refl]) (use True False 3(3) in \<open>auto split: list.splits\<close>)
        then show ?thesis
          using True False Inr
          by (cases "kk_choices chunk"; cases started) (auto simp: Let_def shape_deltas shape_usage)
      next
        case invalid: False
        then show ?thesis using False Inr by (auto simp: Let_def split: option.split)
      qed
    qed (use False in \<open>simp add: Let_def\<close>)
  qed
qed (auto split: option.split)

section \<open>The kernel accepts it\<close>

definition after_terminal :: "string \<Rightarrow> runtime_error" where
  "after_terminal attempt_id = InvalidTurn (''provider attempt '' @ attempt_id @ '' emitted an event after its terminal'')"

lemma merge_error: "merge_tool_call_delta index call_id name arguments a = Inl e \<Longrightarrow> e \<noteq> after_terminal attempt_id"
  by (auto simp: merge_tool_call_delta_def merge_stable_fragment_def and_then_eq_Inl Let_def after_terminal_def
        split: option.splits if_splits)

lemma act_bind_err:
  "act_bind m k s = (Inl e, s'') \<longleftrightarrow> m s = (Inl e, s'') \<or> (\<exists>x s'. m s = (Inr x, s') \<and> k x s' = (Inl e, s''))"
  by (auto simp: act_bind_def split: sum.splits prod.splits)

lemma push_event_error: "push_event ports event s = (Inl e, s') \<Longrightarrow> e \<noteq> after_terminal attempt_id"
  by (auto simp: push_event_def act_bind_err act_map_err_def map_err_def act_update_def after_terminal_def
        split: prod.splits sum.splits)

lemma attempt_event_error:
  "attempt_event ports attempt_id event a s = (Inl e, s') \<Longrightarrow> e \<noteq> after_terminal attempt_id"
  by (cases event)
     (auto simp: act_bind_err act_return_def act_update_def act_lift_def Let_def dest: merge_error push_event_error)

lemma attempt_event_open:
  "attempt_event ports attempt_id event a s = (Inr a', s') \<Longrightarrow> as_terminal a = None \<Longrightarrow> stream_shape started (Inr event # events)
     \<Longrightarrow> events = [] \<or> as_terminal a' = None \<and> (\<exists>started'. stream_shape started' events)"
  by (cases event)
     (auto simp: act_bind_ok act_return_def act_lift_def act_update_def merge_tool_call_delta_def and_then_eq_Inr Let_def)

lemma kernel_accepts_shape:
  "stream_shape started events \<Longrightarrow> as_terminal a = None
     \<Longrightarrow> attempt_events ports attempt_id events a s = (Inl e, s') \<Longrightarrow> e \<noteq> after_terminal attempt_id"
proof (induction events arbitrary: started a s)
  case (Cons event events)
  show ?case
  proof (cases event)
    case (Inl x)
    then show ?thesis using Cons.prems by (auto simp: act_lift_def after_terminal_def)
  next
    case (Inr ev)
    show ?thesis
    proof (cases "attempt_event ports attempt_id ev a s")
      case (Pair r t)
      show ?thesis
      proof (cases r)
        case (Inl x)
        then have "e = x" "attempt_event ports attempt_id ev a s = (Inl x, t)" using Cons.prems Inr Pair by (auto simp: act_bind_def)
        then show ?thesis using attempt_event_error by blast
      next
        case ok: (Inr a')
        then show ?thesis
          using Cons Inr Pair attempt_event_open [of ports attempt_id ev a s a' t started events]
          by (auto simp: act_bind_def act_return_def)
      qed
    qed
  qed
qed (simp add: act_return_def)

section \<open>Loopback hosts\<close>

lemma loopback_examples:
  "is_loopback_address ''127.0.0.1''" "is_loopback_address ''::1''" "is_loopback_address ''0:0:0:0:0:0:0:1''"
  "\<not> is_loopback_address ''::1.2.3.4''" "\<not> is_loopback_address ''10.0.0.1''" "\<not> is_loopback_address ''[::1]''"
  by code_simp+

text \<open>Nothing that starts with a bracket is an address.\<close>

lemma split_on_hd: "x \<noteq> c \<Longrightarrow> \<exists>p ps. split_on c (x # s) = (x # p) # ps"
  by (simp split: list.split)

lemma parse_ipv4_bracket: "parse_ipv4 (CHR ''['' # s) = None"
proof -
  obtain p ps where "split_on (CHR ''.'') (CHR ''['' # s) = (CHR ''['' # p) # ps"
    using split_on_hd [of "CHR ''[''" "CHR ''.''" s] by auto
  moreover have "\<not> decimal_digit (CHR ''['')" by code_simp
  ultimately show ?thesis by (simp add: parse_ipv4_def parse_octet_def all_some_def del: split_on.simps)
qed

lemma groups_of_bracket: "groups_of (CHR ''['' # s) = None"
proof -
  obtain p ps where split: "split_on (CHR '':'') (CHR ''['' # s) = (CHR ''['' # p) # ps"
    using split_on_hd [of "CHR ''[''" "CHR '':''" s] by auto
  have "parse_group (CHR ''['' # p) = None" by (simp add: parse_group_def) (simp add: hex_digit_def byte_in_def)
  then show ?thesis
    by (cases ps) (simp_all add: groups_of_def split parse_ipv4_bracket del: split_on.simps)
qed

lemma split_double_colon_bracket:
  "split_double_colon (CHR ''['' # s) = Some (l, r) \<Longrightarrow> \<exists>l'. l = CHR ''['' # l'"
  by (cases s) (auto split: if_splits)

lemma bracket_is_no_address: "\<not> is_loopback_address (CHR ''['' # s)"
  by (auto simp: is_loopback_address_def parse_ipv4_bracket parse_ipv6_def groups_of_bracket
      split: option.splits prod.splits if_splits dest!: split_double_colon_bracket)

lemma to_ascii_lowercase_bracket: "to_ascii_lowercase (CHR ''['' # s) \<noteq> ''localhost''"
  by (simp add: to_ascii_lowercase_def)

text \<open>
  C22. Plain HTTP is refused for every host in brackets, the loopback address \<open>[::1]\<close> included, because the host
  of a parsed URL keeps the brackets of an IPv6 literal and \<open>IpAddr\<close> is not written with them. With TLS the same
  host is accepted.
\<close>

theorem bracketed_loopback_is_refused:
  assumes "uc_parse uc (trim_end_slashes base_url @ ''/'') = Ok base"
    "url_host base = Some (''['' @ address @ '']'')" "url_username base = []" "url_password base = None"
  shows "chat_completions_endpoint uc base_url =
     (if url_scheme base = ''https'' then map_err InvalidUrl (uc_join uc base ''chat/completions'') else Err InsecureUrl)"
  using assms bracket_is_no_address [of "address @ '']''"] to_ascii_lowercase_bracket [of "address @ '']''"]
  by (simp add: chat_completions_endpoint_def loopback_host_def)

lemma bracketed_loopback_is_refused_witness:
  "let base = \<lparr>url_scheme = ''http'', url_username = [], url_password = None, url_host = Some ''[::1]'', url_text = ''http://[::1]/''\<rparr>;
       uc = \<lparr>uc_parse = (\<lambda>t. if t = ''http://[::1]/'' then Ok base else Err ''relative URL without a base''),
             uc_join = (\<lambda>u t. Ok (u\<lparr>url_text := url_text u @ t\<rparr>))\<rparr> in
   chat_completions_endpoint uc ''http://[::1]'' = Err InsecureUrl"
  unfolding Let_def
  by (subst bracketed_loopback_is_refused [where address = "''::1''"
        and base = "\<lparr>url_scheme = ''http'', url_username = [], url_password = None, url_host = Some ''[::1]'',
                     url_text = ''http://[::1]/''\<rparr>"]) (simp_all add: trim_end_slashes_def)

section \<open>Property\<close>

text \<open>
  Whatever bytes the endpoint streams, the events of an attempt are well formed: one message start
  before any text, reasoning or tool call, no empty pieces, and only the last event may be a completion
  with a reason, a rejection, or a transport error. So the turn loop never finds an event after a terminal.
\<close>

theorem provider_stream_is_well_formed:
  "case openai_stream http parse request provider of
     (Ok attempt, provider') \<Rightarrow>
       stream_shape False (at_events attempt)
       \<and> (case attempt_events ports (at_attempt_id attempt) (at_events attempt) attempt_start s of
            (Err e, s') \<Rightarrow> e \<noteq> InvalidTurn (''provider attempt '' @ at_attempt_id attempt @ '' emitted an event after its terminal'')
          | (Ok _, s') \<Rightarrow> True)
   | (Err _, provider') \<Rightarrow> True"
proof (cases "openai_stream http parse request provider")
  case (Pair r provider')
  show ?thesis
  proof (cases r)
    case (Inr attempt)
    have "\<exists>(response :: http_response) n. attempt = \<lparr>at_attempt_id = n, at_error_policy = StopPolicy, at_events = normalized_events parse False None (hr_events response)\<rparr>"
      using Pair Inr
      by (auto simp: openai_stream_def openai_answer_def act_eval Let_def split: prod.splits sum.splits if_splits)
    then have shape: "stream_shape False (at_events attempt)" by (auto intro: normalized_shape)
    show ?thesis
      using Pair Inr shape kernel_accepts_shape [OF shape, of attempt_start ports]
      by (auto simp: after_terminal_def attempt_start_def split: prod.splits sum.splits)
  qed (simp add: Pair)
qed

end
