(* ===== verification/Codex_Binding.thy ===== *)
theory Codex_Binding
  imports Session_Store Codex_Sample
begin

text \<open>
  \<open>apps/hermesd/src/adapters/sqlite_codex_binding.rs\<close>: the cache that relates one generation of a Hermes
  session to the head of a Codex thread. The codec of a binding is \<open>serde_json\<close>'s, a parameter. Proved: a
  saved binding is what the same generation loads, and the next append of the session makes it void.
\<close>

section \<open>Validation\<close>

definition codex_worker_kind :: string where "codex_worker_kind = ''codex-app-server''"

definition is_codex_engine :: "engine_config \<Rightarrow> bool" where
  "is_codex_engine c = (case c of EngineCodexAppServer _ _ \<Rightarrow> True | EngineDirect \<Rightarrow> False)"

definition validate_codex_session :: "session_snapshot \<Rightarrow> session_store_error + unit" where
  "validate_codex_session snapshot =
     ensure (sc_transport (ss_config snapshot) = CodexAppServer \<and> is_codex_engine (sc_engine_config (ss_config snapshot)))
       (SessionInvalid ''Codex worker bindings require a Codex app-server session'')"

definition schema_tool_name :: "json \<Rightarrow> session_store_error + string" where
  "schema_tool_name schema =
     ok_or (SessionInvalid ''Codex session contains a malformed dynamic-tool schema'')
       (Option.bind (json_as_object schema) (\<lambda>object.
        if Option.bind (btree_get object ''type'') json_as_str \<noteq> Some ''function'' then None
        else Option.bind (Option.bind (btree_get object ''function'') json_as_object) (\<lambda>function.
             Option.bind (Option.bind (btree_get function ''name'') json_as_str) (\<lambda>name.
             if name \<noteq> [] \<and> trim name = name then Some name else None))))"

definition validate_catalog :: "session_snapshot \<Rightarrow> codex_worker_binding \<Rightarrow> session_store_error + unit" where
  "validate_catalog snapshot binding =
     and_then (collect_results schema_tool_name (sc_tools (ss_config snapshot))) (\<lambda>names.
     ensure (set names = set (cm_dynamic_tools (wb_authority binding)))
       (SessionInvalid ''Codex worker binding does not match the frozen session tool catalog''))"

definition validate_binding :: "codex_worker_binding \<Rightarrow> session_store_error + unit" where
  "validate_binding binding =
     and_then (check_each (\<lambda>(name, value). ensure (\<not> (value = [] \<or> trim value \<noteq> value))
                  (SessionInvalid (''Codex worker binding '' @ name @ '' must be non-empty and unpadded'')))
        [(''thread ID'', wb_thread_id binding), (''last turn ID'', wb_last_turn_id binding),
         (''worker user agent'', wb_worker_user_agent binding), (''model provider'', wb_model_provider binding)]) (\<lambda>_.
     ensure (cm_dynamic_tools (wb_authority binding) \<noteq> [])
       (SessionInvalid ''Codex worker binding must retain at least one Hermes-hosted tool''))"

definition positive_u64 :: "i64 \<Rightarrow> string \<Rightarrow> session_store_error + u64" where
  "positive_u64 value name =
     (if value < 1 then Err (SessionInvalid (name @ '' must be positive''))
      else ok_or (SessionInvalid (name @ '' is out of range'')) (u64_of_i64 value))"

section \<open>Operations\<close>

text \<open>\<open>INSERT .. ON CONFLICT(session_id) DO UPDATE\<close>.\<close>

definition upsert_binding :: "(string \<Rightarrow> 'e) \<Rightarrow> binding_row \<Rightarrow> ('e, unit) db_action" where
  "upsert_binding err row d =
     (if \<not> binding_check row then (Err (err ''CHECK constraint failed''), d)
      else if \<not> has_session d (br_session_id row) then (Err (err ''FOREIGN KEY constraint failed''), d)
      else (Ok (), d\<lparr>db_bindings :=
        if br_session_id row \<in> br_session_id ` set (db_bindings d)
        then map (\<lambda>r. if br_session_id r = br_session_id row then row else r) (db_bindings d)
        else db_bindings d @ [row]\<rparr>))"

definition ensure_generation :: "session_id \<Rightarrow> owner_generation \<Rightarrow> session_snapshot \<Rightarrow> session_store_error + unit" where
  "ensure_generation session_id generation snapshot =
     ensure (ss_owner_generation snapshot = generation)
       (SessionConflict session_id (owner_generation_get generation) (owner_generation_get (ss_owner_generation snapshot)))"

definition binding_of_row ::
  "codex_worker_binding codec \<Rightarrow> serde \<Rightarrow> session_snapshot \<Rightarrow> owner_generation \<Rightarrow> binding_row
     \<Rightarrow> session_store_error + codex_worker_binding option" where
  "binding_of_row bx sx snapshot generation row =
     and_then (positive_u64 (br_owner_generation row) ''stored binding generation'') (\<lambda>stored_generation.
     if stored_generation \<noteq> owner_generation_get generation then Ok None
     else if br_worker_kind row \<noteq> codex_worker_kind
     then Err (SessionInvalid (''session has unsupported worker binding kind '' @ sx_debug_str sx (br_worker_kind row)))
     else
       and_then (map_err (\<lambda>e. SessionInvalid (''stored Codex worker binding is invalid: '' @ e)) (cd_dec bx (br_binding_json row))) (\<lambda>binding.
       and_then (validate_binding binding) (\<lambda>_.
       and_then (validate_catalog snapshot binding) (\<lambda>_. Ok (Some binding)))))"

definition binding_load_current ::
  "codex_worker_binding codec \<Rightarrow> serde \<Rightarrow> session_id \<Rightarrow> owner_generation
     \<Rightarrow> (session_store_error, codex_worker_binding option) db_action" where
  "binding_load_current bx sx session_id generation =
     act_bind (session_load sx session_id) (\<lambda>snapshot.
     act_bind (act_lift (ensure_generation session_id generation snapshot)) (\<lambda>_.
     act_bind (act_lift (validate_codex_session snapshot)) (\<lambda>_.
     act_bind (select_row db_bindings (\<lambda>r. br_session_id r = session_id_str session_id)) (\<lambda>row.
     case row of
       None \<Rightarrow> act_return None
     | Some r \<Rightarrow> act_lift (binding_of_row bx sx snapshot generation r)))))"

definition binding_save ::
  "codex_worker_binding codec \<Rightarrow> serde \<Rightarrow> i64 \<Rightarrow> session_id \<Rightarrow> owner_generation \<Rightarrow> codex_worker_binding
     \<Rightarrow> (session_store_error, unit) db_action" where
  "binding_save bx sx now session_id generation binding =
     act_bind (act_lift (validate_binding binding)) (\<lambda>_.
     act_bind (act_lift (map_err SessionStorage (cd_enc bx binding))) (\<lambda>encoded.
     act_bind (act_lift (ok_or (SessionInvalid ''worker binding generation is out of range'')
                 (i64_of_u64 (owner_generation_get generation)))) (\<lambda>expected.
     transaction
       (act_bind (session_load sx session_id) (\<lambda>snapshot.
        act_bind (act_lift (validate_codex_session snapshot)) (\<lambda>_.
        act_bind (act_lift (validate_catalog snapshot binding)) (\<lambda>_.
        act_bind (act_lift (ensure_generation session_id generation snapshot)) (\<lambda>_.
        upsert_binding SessionStorage
          \<lparr>br_session_id = session_id_str session_id, br_owner_generation = expected, br_worker_kind = codex_worker_kind,
           br_binding_json = encoded, br_updated_at = now\<rparr>))))))))"

section \<open>What a save leaves\<close>

lemma find_map_row:
  "find (\<lambda>r. key r = k) (map (\<lambda>r. if key r = k then row else r) rows) = (if k \<in> key ` set rows then Some row else None)"
  if "key row = k"
  using that by (induction rows) auto

lemma find_append_row:
  "key row \<notin> key ` set rows \<Longrightarrow> find (\<lambda>r. key r = key row) (rows @ [row]) = Some row"
  by (induction rows) auto

lemma upsert_find:
  assumes "upsert_binding err row d = (Inr u, d')"
  shows "find (\<lambda>r. br_session_id r = br_session_id row) (db_bindings d') = Some row \<and> d' = d\<lparr>db_bindings := db_bindings d'\<rparr>
    \<and> binding_check row"
  using assms find_map_row [of br_session_id row, OF refl, of "db_bindings d"] find_append_row [of br_session_id row "db_bindings d"]
  by (auto simp: upsert_binding_def split: if_splits)

lemma binding_save_ok:
  assumes "binding_save bx sx now sid generation binding d = (Inr u, d')"
  shows "\<exists>snapshot encoded. load_snapshot sx sid d = Inr snapshot \<and> ss_owner_generation snapshot = generation
     \<and> validate_codex_session snapshot = Inr () \<and> validate_catalog snapshot binding = Inr () \<and> validate_binding binding = Inr ()
     \<and> cd_enc bx binding = Inr encoded \<and> uint (owner_generation_get generation) \<le> i64_max \<and> owner_generation_get generation \<noteq> 0
     \<and> find (\<lambda>r. br_session_id r = session_id_str sid) (db_bindings d')
         = Some \<lparr>br_session_id = session_id_str sid, br_owner_generation = uint (owner_generation_get generation),
             br_worker_kind = codex_worker_kind, br_binding_json = encoded, br_updated_at = now\<rparr>
     \<and> d' = d\<lparr>db_bindings := db_bindings d'\<rparr>"
  using assms
  by (auto simp: binding_save_def act_bind_ok act_lift_def transaction_ok session_load_def act_try_def i64_of_u64_eq_Some
        ensure_generation_def binding_check_def uint_pos dest!: upsert_find)

lemma load_snapshot_bindings [simp]: "load_snapshot sx sid (d\<lparr>db_bindings := bs\<rparr>) = load_snapshot sx sid d"
  by (rule load_cong) (simp_all add: find_session_def message_rows_def)

lemma stored_generation:
  "uint w \<le> i64_max \<Longrightarrow> w \<noteq> 0 \<Longrightarrow> positive_u64 (uint w) name = Inr w" for w :: u64
  by (simp add: positive_u64_def u64_of_i64_uint uint_pos [symmetric])

lemma sessions_bindings [simp]:
  "sessions_inv sx (d\<lparr>db_bindings := bs\<rparr>) = sessions_inv sx d" "sessions_of sx (d\<lparr>db_bindings := bs\<rparr>) = sessions_of sx d"
proof -
  have "session_row_ok sx (d\<lparr>db_bindings := bs\<rparr>) r = session_row_ok sx d r" for r
    by (simp add: session_row_ok_def message_rows_def)
  then show "sessions_inv sx (d\<lparr>db_bindings := bs\<rparr>) = sessions_inv sx d" by (simp add: sessions_inv_def has_session_def)
  show "sessions_of sx (d\<lparr>db_bindings := bs\<rparr>) = sessions_of sx d" by (rule ext) (simp add: sessions_of_def)
qed

text \<open>An append of the session keeps the bindings.\<close>

lemma append_after_save:
  assumes "sessions_inv sx d" "sessions_of sx d sid = Some s" "list_all (storable_message sx) messages"
    and append: "session_append sx now sid generation messages d = (Inr snapshot, d')"
  shows "snapshot = extended s messages \<and> load_snapshot sx sid d' = Inr (extended s messages) \<and> db_bindings d' = db_bindings d"
proof -
  have run: "append_turn_in_transaction sx now sid generation messages d = (Inr snapshot, d')"
    using append by (simp add: session_append_def transaction_ok)
  have ms: "\<forall>m \<in> set messages. storable_message sx m" using assms(3) by (simp add: list_all_iff)
  have ok: "appendable (Some s) generation messages" using append_in_transaction_Inr [OF run] assms(2) by simp
  then have "ss_owner_generation s = generation" by (simp add: appendable_def)
  then show ?thesis
    using append_in_transaction_ok [OF assms(1,2) ms ok, of now] append_loads(1) [OF assms(1,2) ms, of now] ok run
    by (auto simp: append_database_def)
qed

section \<open>A session for the examples\<close>

definition codex_serde :: serde where
  "codex_serde = sample_serde\<lparr>sx_tools := Sqlite_Schema.sample_codec [(sample_catalog, ''t'')],
     sx_transport := Sqlite_Schema.sample_codec [(CodexAppServer, ''x'')],
     sx_engine_config := Sqlite_Schema.sample_codec [(EngineCodexAppServer EffortHigh HermesOwnedEffectsV1, ''e'')]\<rparr>"

definition codex_config :: session_config where
  "codex_config = (Session_Store.sample_config ''p'')\<lparr>sc_engine_config := EngineCodexAppServer EffortHigh HermesOwnedEffectsV1,
     sc_transport := CodexAppServer, sc_provider_adapter := ''codex-app-server'', sc_base_url := [], sc_tools := sample_catalog\<rparr>"

definition codex_sessions :: database where
  "codex_sessions = snd (session_create codex_serde 5 codex_config empty_database)"

definition binding_codec :: "codex_worker_binding codec" where
  "binding_codec = Sqlite_Schema.sample_codec [(sample_binding, ''b'')]"

lemma codex_config_valid: "validate_config codex_serde codex_config = Ok ()"
proof -
  have "trim ''codex-app-server'' = ''codex-app-server''" "trim ''m'' = ''m''" "trim ''/'' = ''/''"
    using unpadded_plain [of "''codex-app-server''"] unpadded_plain [of "''m''"] unpadded_plain [of "''/''"]
    by (simp_all add: unpadded_def plain_char_def)
  then show ?thesis
    by (simp add: validate_config_def codex_config_def Session_Store.sample_config_def codex_serde_def sample_serde_def
          Sqlite_Schema.sample_codec_def validate_transport_def Session_Store.is_absolute_def supervised_codex_def)
qed

lemma codex_config_storable: "storable_config codex_serde codex_config"
  by (simp add: storable_config_def codex_config_def Session_Store.sample_config_def codex_serde_def sample_serde_def
        Sqlite_Schema.sample_codec_def encodes_def manifest_valid_def
      unpadded_plain plain_char_def digest_ok_def lower_hex_digit_def i64_max_def list_all_iff)

lemma codex_sessions_facts: "sessions_inv codex_serde codex_sessions"
  "sessions_of codex_serde codex_sessions (SessionId ''p'') = Some (new_session codex_config)"
proof -
  have "creatable codex_serde empty_database codex_config" by (simp add: creatable_def codex_config_valid empty_sessions)
  then obtain row where "create_session_in_transaction codex_serde 5 codex_config empty_database
        = (Inr (new_session codex_config), empty_database\<lparr>db_sessions := db_sessions empty_database @ [row]\<rparr>)"
    "sessions_inv codex_serde (empty_database\<lparr>db_sessions := db_sessions empty_database @ [row]\<rparr>)"
    "sessions_of codex_serde (empty_database\<lparr>db_sessions := db_sessions empty_database @ [row]\<rparr>)
       = (sessions_of codex_serde empty_database)(sc_session_id codex_config \<mapsto> new_session codex_config)"
    using create_in_transaction(1) [OF empty_sessions(1) codex_config_storable, of 5] by blast
  then show "sessions_inv codex_serde codex_sessions"
    "sessions_of codex_serde codex_sessions (SessionId ''p'') = Some (new_session codex_config)"
    by (simp_all add: codex_sessions_def session_create_def transaction_def)
       (simp add: codex_config_def Session_Store.sample_config_def)
qed

lemma codex_saved:
  "\<exists>d1. binding_save binding_codec codex_serde 6 (SessionId ''p'') (OwnerGeneration 1) sample_binding codex_sessions = (Ok (), d1)
     \<and> sessions_inv codex_serde d1 \<and> sessions_of codex_serde d1 (SessionId ''p'') = Some (new_session codex_config)"
proof -
  have load: "load_snapshot codex_serde (SessionId ''p'') codex_sessions = Inr (new_session codex_config)"
    using codex_sessions_facts(2) by (auto simp: sessions_of_def split: sum.splits)
  then have found: "has_session codex_sessions ''p''" by (auto simp: load_eq_Inr find_session_has)
  have "validate_binding sample_binding = Ok ()"
    using unpadded_plain [of "''t''"] unpadded_plain [of "''u''"] unpadded_plain [of "''w''"] unpadded_plain [of "''p''"]
    by (simp add: validate_binding_def sample_binding_def unpadded_def plain_char_def)
  moreover have "validate_codex_session (new_session codex_config) = Ok ()"
    by (simp add: validate_codex_session_def new_session_def codex_config_def is_codex_engine_def)
  moreover have "validate_catalog (new_session codex_config) sample_binding = Ok ()"
    using unpadded_plain [of "''read''"]
    by (simp add: validate_catalog_def new_session_def codex_config_def sample_catalog_def schema_tool_name_def sample_binding_def
          unpadded_def plain_char_def jobject_def btree_get_of)
  ultimately show ?thesis
    using load found codex_sessions_facts
    by (simp add: binding_save_def act_eval transaction_def session_load_def binding_codec_def Sqlite_Schema.sample_codec_def
          i64_of_u64_def i64_max_def ensure_generation_def new_session_def upsert_binding_def binding_check_def)
qed

section \<open>Property\<close>

text \<open>
  A binding is usable exactly for the generation it was saved for: after \<open>save\<close> the same generation
  loads it back; once the session has been appended to, the new generation has no binding and the old one
  is refused.
\<close>

theorem codex_binding_is_fenced_by_generation:
  assumes "sessions_inv sx d" "encodes bx binding" "list_all (storable_message sx) messages"
    and save: "binding_save bx sx now sid generation binding d = (Ok (), d1)"
    and append: "session_append sx now' sid generation messages d1 = (Ok snapshot, d2)"
  shows "binding_load_current bx sx sid generation d1 = (Ok (Some binding), d1)
     \<and> binding_load_current bx sx sid (ss_owner_generation snapshot) d2 = (Ok None, d2)
     \<and> (\<exists>actual. binding_load_current bx sx sid generation d2
          = (Err (SessionConflict sid (owner_generation_get generation) actual), d2))"
proof -
  obtain s encoded where s: "load_snapshot sx sid d = Inr s" "ss_owner_generation s = generation"
    and valid: "validate_codex_session s = Inr ()" "validate_catalog s binding = Inr ()" "validate_binding binding = Inr ()"
    and encoded: "cd_enc bx binding = Inr encoded"
    and fits: "uint (owner_generation_get generation) \<le> i64_max" "owner_generation_get generation \<noteq> 0"
    and row: "find (\<lambda>r. br_session_id r = session_id_str sid) (db_bindings d1)
         = Some \<lparr>br_session_id = session_id_str sid, br_owner_generation = uint (owner_generation_get generation),
             br_worker_kind = codex_worker_kind, br_binding_json = encoded, br_updated_at = now\<rparr>"
    and d1: "d1 = d\<lparr>db_bindings := db_bindings d1\<rparr>"
    using binding_save_ok [OF save] by blast
  have load1: "load_snapshot sx sid d1 = Inr s" using s(1) load_snapshot_bindings [of sx sid "db_bindings d1" d] d1 by simp
  then have present: "sessions_of sx d1 sid = Some s" by (simp add: sessions_of_def)
  have decoded: "cd_dec bx encoded = Inr binding" using assms(2) encoded by (auto elim: encodesE)
  have "sessions_inv sx d1" using assms(1) sessions_bindings(1) [of sx "db_bindings d1" d] d1 by simp
  then have snapshot: "snapshot = extended s messages" and load2: "load_snapshot sx sid d2 = Inr (extended s messages)"
    and row2: "db_bindings d2 = db_bindings d1"
    using append_after_save [OF _ present assms(3) append] by auto
  have next_generation: "owner_generation_get (ss_owner_generation snapshot) \<noteq> owner_generation_get generation"
    using s(2) snapshot by (simp add: extended_def)
  then have other: "ss_owner_generation (extended s messages) \<noteq> generation" using snapshot by auto
  have same: "validate_codex_session snapshot = Inr ()" using valid(1) snapshot by (simp add: validate_codex_session_def extended_def)
  show ?thesis
    using other load1 load2 row row2 valid same snapshot s(2) decoded next_generation stored_generation [OF fits]
    by (auto simp: binding_load_current_def act_eval session_load_def ensure_generation_def select_row_def binding_of_row_def)
qed


theorem codex_binding_is_fenced_by_generation_witness:
  "\<exists>d1 d2 snapshot. session_append codex_serde 7 (SessionId ''p'') (OwnerGeneration 1) sample_messages d1 = (Ok snapshot, d2)
     \<and> binding_load_current binding_codec codex_serde (SessionId ''p'') (OwnerGeneration 1) d1 = (Ok (Some sample_binding), d1)
     \<and> binding_load_current binding_codec codex_serde (SessionId ''p'') (ss_owner_generation snapshot) d2 = (Ok None, d2)"
proof -
  obtain d1 where save: "binding_save binding_codec codex_serde 6 (SessionId ''p'') (OwnerGeneration 1) sample_binding codex_sessions = (Ok (), d1)"
    and d1: "sessions_inv codex_serde d1" "sessions_of codex_serde d1 (SessionId ''p'') = Some (new_session codex_config)"
    using codex_saved by blast
  have storable: "list_all (storable_message codex_serde) sample_messages"
    using sample_messages_storable by (simp add: storable_message_def [abs_def] codex_serde_def)
  have ok: "appendable (Some (new_session codex_config)) (OwnerGeneration 1) sample_messages"
    by (simp add: appendable_def new_session_def sample_messages_def is_user_def is_assistant_def legal_Cons
      in_turn_Cons i64_max_def)
  then have append: "session_append codex_serde 7 (SessionId ''p'') (OwnerGeneration 1) sample_messages d1
     = (Ok (extended (new_session codex_config) sample_messages),
        append_database codex_serde 7 (SessionId ''p'') (new_session codex_config) sample_messages d1)"
    using append_in_transaction_ok [OF d1 _ ok, of 7] storable by (simp add: session_append_def transaction_def list_all_iff)
  have "encodes binding_codec sample_binding" by (simp add: encodes_def binding_codec_def Sqlite_Schema.sample_codec_def)
  then show ?thesis
    using append codex_binding_is_fenced_by_generation [OF codex_sessions_facts(1) _ storable save append] by blast
qed

end
