(* ===== verification/Approval.thy ===== *)
theory Approval
  imports Domain_Ids Rust_Text Prelude "HOL-Library.AList" "HOL-Library.Multiset"
begin

text \<open>
  \<open>apps/hermesd/src/adapters/approval.rs\<close>: the live waiters for approvals, a queue per session. A waiter is one
  end of a one-shot channel; the channels are part of the state, so what a waiter receives can be stated.
  The registry is behind a mutex, so a history is a sequence of operations; whether the lock is poisoned is
  part of the state. Proved: no waiter is answered twice, queues are in the order of registration, and a response answers the oldest waiter only.
\<close>

section \<open>State\<close>

datatype approval_decision = Allow | Deny

fun approval_decision_str :: "approval_decision \<Rightarrow> string" where
  "approval_decision_str Allow = ''allow''"
| "approval_decision_str Deny = ''deny''"

datatype approval_control_error = RegistryPoisoned | AlreadyPending tool_call_id | InvalidChoice string

text \<open>\<open>Display\<close>; the argument is \<open>Debug\<close> of \<open>str\<close>.\<close>

fun approval_control_error_text :: "(string \<Rightarrow> string) \<Rightarrow> approval_control_error \<Rightarrow> string" where
  "approval_control_error_text debug RegistryPoisoned = ''approval registry lock poisoned''"
| "approval_control_error_text debug (AlreadyPending call) =
     ''approval is already pending for tool call '' @ tool_call_id_str call"
| "approval_control_error_text debug (InvalidChoice choice) =
     ''unsupported approval choice '' @ debug choice @ ''; expected once or deny''"

text \<open>A channel of \<open>tokio::sync::oneshot\<close>: at most one value passes; either end may be dropped before.\<close>

datatype channel = ChannelOpen | ReceiverDropped | SenderDropped | Delivered approval_decision

record pending_approval =
  pa_call_id :: tool_call_id
  pa_sender :: nat

record approval_control =
  ac_pending :: "(string \<times> pending_approval list) list"
  ac_poisoned :: bool
  ac_channels :: "channel list"

type_synonym 'a approval_action = "(approval_control, approval_control_error, 'a) action"

definition approval_control_default :: approval_control where
  "approval_control_default = \<lparr>ac_pending = [], ac_poisoned = False, ac_channels = []\<rparr>"

text \<open>\<open>sender.send(decision).is_ok()\<close>, and dropping an unused sender or receiver.\<close>

definition send_decision :: "approval_decision \<Rightarrow> nat \<Rightarrow> channel list \<Rightarrow> bool \<times> channel list" where
  "send_decision decision i channels =
     (if i < length channels \<and> channels ! i = ChannelOpen then (True, channels[i := Delivered decision]) else (False, channels))"

definition drop_sender :: "nat \<Rightarrow> channel list \<Rightarrow> channel list" where
  "drop_sender i channels =
     (if i < length channels \<and> channels ! i = ChannelOpen then channels[i := SenderDropped] else channels)"

definition drop_receiver :: "nat \<Rightarrow> approval_control \<Rightarrow> approval_control" where
  "drop_receiver i s =
     (if i < length (ac_channels s) \<and> ac_channels s ! i = ChannelOpen
      then s\<lparr>ac_channels := (ac_channels s)[i := ReceiverDropped]\<rparr> else s)"

definition session_queue :: "string \<Rightarrow> approval_control \<Rightarrow> pending_approval list" where
  "session_queue session s = (case map_of (ac_pending s) session of None \<Rightarrow> [] | Some queue \<Rightarrow> queue)"

text \<open>Write a queue back; an empty one is removed from the map.\<close>

definition put_queue :: "string \<Rightarrow> pending_approval list \<Rightarrow> approval_control \<Rightarrow> approval_control" where
  "put_queue session queue s =
     s\<lparr>ac_pending := if queue = [] then AList.delete session (ac_pending s) else AList.update session queue (ac_pending s)\<rparr>"

section \<open>Operations\<close>

definition approval_register :: "session_id \<Rightarrow> tool_call_id \<Rightarrow> nat approval_action" where
  "approval_register session_id call_id s =
     (let session = session_id_str session_id; queue = session_queue session s; i = length (ac_channels s) in
      if ac_poisoned s then (Err RegistryPoisoned, s)
      else if call_id \<in> set (map pa_call_id queue) then (Err (AlreadyPending call_id), s)
      else (Ok i, (put_queue session (queue @ [\<lparr>pa_call_id = call_id, pa_sender = i\<rparr>]) s)\<lparr>ac_channels := ac_channels s @ [ChannelOpen]\<rparr>))"

definition decision_of_choice :: "string \<Rightarrow> approval_control_error + approval_decision" where
  "decision_of_choice choice =
     (if choice = ''once'' then Ok Allow else if choice = ''deny'' then Ok Deny else Err (InvalidChoice choice))"

definition approval_respond :: "session_id \<Rightarrow> string \<Rightarrow> bool approval_action" where
  "approval_respond session_id choice s =
     (case decision_of_choice choice of
        Inl e \<Rightarrow> (Err e, s)
      | Inr decision \<Rightarrow>
          if ac_poisoned s then (Err RegistryPoisoned, s)
          else (case session_queue (session_id_str session_id) s of
                  [] \<Rightarrow> (Ok False, s)
                | approval # queue \<Rightarrow>
                    (case send_decision decision (pa_sender approval) (ac_channels s) of (sent, channels) \<Rightarrow>
                       (Ok sent, (put_queue (session_id_str session_id) queue s)\<lparr>ac_channels := channels\<rparr>))))"

definition approval_remove :: "session_id \<Rightarrow> tool_call_id \<Rightarrow> approval_control \<Rightarrow> approval_control" where
  "approval_remove session_id call_id s =
     (let session = session_id_str session_id; queue = session_queue session s in
      if ac_poisoned s \<or> queue = [] then s
      else (put_queue session (filter (\<lambda>a. pa_call_id a \<noteq> call_id) queue) s)
             \<lparr>ac_channels := fold (drop_sender \<circ> pa_sender) (filter (\<lambda>a. pa_call_id a = call_id) queue) (ac_channels s)\<rparr>)"

definition deny_waiters :: "pending_approval list \<Rightarrow> channel list \<Rightarrow> channel list" where
  "deny_waiters approvals channels = fold (\<lambda>a cs. snd (send_decision Deny (pa_sender a) cs)) approvals channels"

definition approval_deny_session :: "session_id \<Rightarrow> approval_control \<Rightarrow> approval_control" where
  "approval_deny_session session_id s =
     (let session = session_id_str session_id in
      if ac_poisoned s then s
      else (put_queue session [] s)\<lparr>ac_channels := deny_waiters (session_queue session s) (ac_channels s)\<rparr>)"

definition approval_deny_all :: "approval_control \<Rightarrow> approval_control" where
  "approval_deny_all s =
     (if ac_poisoned s then s
      else s\<lparr>ac_pending := [], ac_channels := deny_waiters (concat (map snd (ac_pending s))) (ac_channels s)\<rparr>)"

section \<open>Histories\<close>

text \<open>What the gateway and the waiting turns do to the registry.\<close>

inductive approval_step :: "approval_control \<Rightarrow> approval_control \<Rightarrow> bool" where
  Register: "approval_step s (snd (approval_register session call s))"
| Respond: "approval_step s (snd (approval_respond session choice s))"
| Remove: "approval_step s (approval_remove session call s)"
| DenySession: "approval_step s (approval_deny_session session s)"
| DenyAll: "approval_step s (approval_deny_all s)"
| DropReceiver: "approval_step s (drop_receiver i s)"
| Poison: "approval_step s (s\<lparr>ac_poisoned := True\<rparr>)"

inductive_cases approval_stepE: "approval_step s s'"

text \<open>
  What every history keeps: one entry per session, no empty queue, and each waiter in one place of one queue,
  its channel not yet used by the registry.
\<close>

definition waiters :: "approval_control \<Rightarrow> nat list" where
  "waiters s = map pa_sender (concat (map snd (ac_pending s)))"

definition unused :: "channel list \<Rightarrow> nat \<Rightarrow> bool" where
  "unused channels i \<longleftrightarrow> i < length channels \<and> channels ! i \<in> {ChannelOpen, ReceiverDropped}"

definition approvals_inv :: "approval_control \<Rightarrow> bool" where
  "approvals_inv s \<longleftrightarrow>
     distinct (map fst (ac_pending s)) \<and> (\<forall>(session, queue) \<in> set (ac_pending s). queue \<noteq> [] \<and> distinct (map pa_call_id queue))
     \<and> distinct (waiters s) \<and> (\<forall>i \<in> set (waiters s). unused (ac_channels s) i)"

section \<open>Every waiter is in one place\<close>

definition senders :: "(string \<times> pending_approval list) list \<Rightarrow> nat multiset" where
  "senders pending = mset (map pa_sender (concat (map snd pending)))"

abbreviation queue_in :: "string \<Rightarrow> (string \<times> pending_approval list) list \<Rightarrow> pending_approval list" where
  "queue_in session pending \<equiv> (case map_of pending session of None \<Rightarrow> [] | Some queue \<Rightarrow> queue)"

lemma senders_simps [simp]: "senders [] = {#}" "senders ((k, q) # rest) = mset (map pa_sender q) + senders rest"
  by (simp_all add: senders_def)

lemma delete_absent: "map_of al k = None \<Longrightarrow> AList.delete k al = al"
  by (simp add: map_of_eq_None_iff)

lemma senders_delete:
  "distinct (map fst pending) \<Longrightarrow> senders (AList.delete k pending) + mset (map pa_sender (queue_in k pending)) = senders pending"
proof (induction pending)
  case (Cons p rest)
  obtain k' q where [simp]: "p = (k', q)" by (cases p)
  show ?case
  proof (cases "k' = k")
    case True
    then have "map_of rest k = None" using Cons.prems by (simp add: map_of_eq_None_iff)
    then show ?thesis using True by (simp add: delete_absent)
  qed (use Cons in \<open>simp add: ac_simps\<close>)
qed simp

lemma senders_update:
  "distinct (map fst pending) \<Longrightarrow>
     senders (AList.update k q pending) + mset (map pa_sender (queue_in k pending)) = senders pending + mset (map pa_sender q)"
proof (induction pending)
  case (Cons p rest)
  then show ?case by (cases p) (auto simp: ac_simps)
qed simp

lemma senders_put:
  assumes "distinct (map fst (ac_pending s))"
  shows "senders (ac_pending (put_queue session q s)) + mset (map pa_sender (session_queue session s))
         = senders (ac_pending s) + mset (map pa_sender q)"
  using senders_delete [OF assms] senders_update [OF assms] by (simp add: put_queue_def session_queue_def)

lemma put_queue_channels [simp]:
  "ac_channels (put_queue session q s) = ac_channels s" "ac_poisoned (put_queue session q s) = ac_poisoned s"
  by (simp_all add: put_queue_def)

lemma session_queue_put:
  "session_queue other (put_queue session q s) = (if other = session then q else session_queue other s)"
  by (auto simp: put_queue_def session_queue_def delete_conv' update_conv')

lemma session_queue_channels [simp]: "session_queue session (s\<lparr>ac_channels := cs\<rparr>) = session_queue session s"
  by (simp add: session_queue_def)

text \<open>The invariant without its channels, and over the multiset of waiters.\<close>

definition queues_ok :: "(string \<times> pending_approval list) list \<Rightarrow> bool" where
  "queues_ok pending \<longleftrightarrow> distinct (map fst pending)
     \<and> (\<forall>(session, queue) \<in> set pending. queue \<noteq> [] \<and> distinct (map pa_call_id queue))"

lemma approvals_inv_alt:
  "approvals_inv s \<longleftrightarrow> queues_ok (ac_pending s) \<and> (\<forall>i. count (senders (ac_pending s)) i \<le> 1)
     \<and> (\<forall>i. i \<in># senders (ac_pending s) \<longrightarrow> unused (ac_channels s) i)"
proof -
  have "senders (ac_pending s) = mset (waiters s)" by (simp add: senders_def waiters_def)
  moreover have "distinct (waiters s) \<longleftrightarrow> (\<forall>i. count (mset (waiters s)) i \<le> 1)"
    unfolding distinct_count_atmost_1
    by (metis One_nat_def count_greater_eq_one_iff count_mset_0_iff le_antisym le_numeral_extra(4) set_mset_mset zero_le_one)
  ultimately show ?thesis by (auto simp: approvals_inv_def queues_ok_def)
qed

lemma update_member: "(k', q') \<in> set (AList.update k q al) \<Longrightarrow> q' = q \<or> (k', q') \<in> set al"
  by (induction al) (auto split: if_splits)

lemma queues_ok_put:
  assumes "queues_ok (ac_pending s)" "distinct (map pa_call_id q)"
  shows "queues_ok (ac_pending (put_queue session q s))"
proof (cases "q = []")
  case True
  then show ?thesis using assms AList.distinct_delete [of "ac_pending s" session]
    by (auto simp: queues_ok_def put_queue_def) (auto simp: AList.delete_eq)
next
  case False
  then show ?thesis using assms
    by (auto simp: queues_ok_def put_queue_def distinct_update dest!: update_member)
qed

section \<open>Every operation keeps the invariant\<close>

text \<open>
  What a step may do: the channels only grow, a channel that is no longer open keeps its value, and a channel
  that is not waited on through the registry is never waited on again.
\<close>

definition channels_kept :: "channel list \<Rightarrow> channel list \<Rightarrow> bool" where
  "channels_kept cs cs' \<longleftrightarrow> length cs \<le> length cs' \<and> (\<forall>i < length cs. cs ! i \<noteq> ChannelOpen \<longrightarrow> cs' ! i = cs ! i)"

definition approvals_kept :: "approval_control \<Rightarrow> approval_control \<Rightarrow> bool" where
  "approvals_kept s s' \<longleftrightarrow> approvals_inv s' \<and> channels_kept (ac_channels s) (ac_channels s')
     \<and> (\<forall>i < length (ac_channels s). i \<notin># senders (ac_pending s) \<longrightarrow> i \<notin># senders (ac_pending s'))"

lemma channels_kept_refl [simp]: "channels_kept cs cs"
  by (simp add: channels_kept_def)

lemma channels_kept_trans: "channels_kept a b \<Longrightarrow> channels_kept b c \<Longrightarrow> channels_kept a c"
  by (fastforce simp: channels_kept_def)

lemma channels_kept_set: "cs ! i = ChannelOpen \<Longrightarrow> channels_kept cs (cs[i := c])"
  by (auto simp: channels_kept_def) (metis nth_list_update_neq)

lemma approvals_kept_trans: "approvals_kept a b \<Longrightarrow> approvals_kept b c \<Longrightarrow> approvals_kept a c"
  by (force simp: approvals_kept_def channels_kept_def)

lemma approvals_kept_refl: "approvals_inv s \<Longrightarrow> approvals_kept s s"
  by (simp add: approvals_kept_def)

text \<open>Using channels: only the named ones change.\<close>

lemma channels_kept_fold:
  assumes "\<And>a cs. channels_kept cs (f a cs) \<and> length (f a cs) = length cs \<and> (\<forall>i. i \<noteq> pa_sender a \<longrightarrow> f a cs ! i = cs ! i)"
  shows "channels_kept cs (fold f q cs) \<and> length (fold f q cs) = length cs
     \<and> (\<forall>i. i \<notin> pa_sender ` set q \<longrightarrow> fold f q cs ! i = cs ! i)"
proof (induction q arbitrary: cs)
  case (Cons a q)
  then show ?case using assms [of cs a] by (auto intro: channels_kept_trans)
qed simp

lemma deny_waiters_kept:
  "channels_kept cs (deny_waiters q cs) \<and> length (deny_waiters q cs) = length cs
     \<and> (\<forall>i. i \<notin> pa_sender ` set q \<longrightarrow> deny_waiters q cs ! i = cs ! i)"
  unfolding deny_waiters_def by (rule channels_kept_fold) (auto simp: send_decision_def channels_kept_set)

lemma drop_senders_kept:
  "channels_kept cs (fold (drop_sender \<circ> pa_sender) q cs) \<and> length (fold (drop_sender \<circ> pa_sender) q cs) = length cs
     \<and> (\<forall>i. i \<notin> pa_sender ` set q \<longrightarrow> fold (drop_sender \<circ> pa_sender) q cs ! i = cs ! i)"
  by (rule channels_kept_fold) (auto simp: drop_sender_def channels_kept_set)

lemma unused_same: "unused cs i \<Longrightarrow> cs' ! i = cs ! i \<Longrightarrow> length cs \<le> length cs' \<Longrightarrow> unused cs' i"
  by (auto simp: unused_def)

lemma approvals_kept_shrink:
  assumes inv: "approvals_inv s" and ok: "queues_ok (ac_pending s')"
    and less: "senders (ac_pending s') + mset used = senders (ac_pending s)"
    and kept: "channels_kept (ac_channels s) (ac_channels s')"
    and same: "\<And>i. i \<notin> set used \<Longrightarrow> ac_channels s' ! i = ac_channels s ! i"
  shows "approvals_kept s s'"
proof -
  have count: "count (senders (ac_pending s')) i + count (mset used) i = count (senders (ac_pending s)) i" for i
    by (simp add: less [symmetric])
  have le1: "count (senders (ac_pending s)) i \<le> 1" for i using inv by (simp add: approvals_inv_alt)
  have sub: "i \<in># senders (ac_pending s) \<and> i \<notin> set used" if "i \<in># senders (ac_pending s')" for i
  proof -
    have pos: "1 \<le> count (senders (ac_pending s')) i" using that by simp
    with count [of i] le1 [of i] have "count (mset used) i = 0" "0 < count (senders (ac_pending s)) i" by linarith+
    then show ?thesis by (simp add: count_mset_0_iff)
  qed
  have "count (senders (ac_pending s')) i \<le> 1" for i using count [of i] le1 [of i] by linarith
  moreover have "unused (ac_channels s') i" if "i \<in># senders (ac_pending s')" for i
    using sub [OF that] inv same kept by (auto simp: approvals_inv_alt channels_kept_def intro: unused_same)
  ultimately show ?thesis using ok kept sub by (auto simp: approvals_kept_def approvals_inv_alt)
qed

lemma queue_distinct:
  "approvals_inv s \<Longrightarrow> distinct (map pa_call_id (session_queue session s))"
  by (auto simp: approvals_inv_def session_queue_def split: option.split dest!: map_of_SomeD)

lemma approval_put_kept:
  assumes inv: "approvals_inv s" and distinct: "distinct (map pa_call_id q)"
    and split: "mset (map pa_sender q) + mset used = mset (map pa_sender (session_queue session s))"
    and kept: "channels_kept (ac_channels s) cs" and same: "\<And>i. i \<notin> set used \<Longrightarrow> cs ! i = ac_channels s ! i"
  shows "approvals_kept s ((put_queue session q s)\<lparr>ac_channels := cs\<rparr>)"
proof (rule approvals_kept_shrink [OF inv, of _ used])
  show "queues_ok (ac_pending ((put_queue session q s)\<lparr>ac_channels := cs\<rparr>))"
    using queues_ok_put inv distinct by (simp add: approvals_inv_alt)
  have "distinct (map fst (ac_pending s))" using inv by (simp add: approvals_inv_def)
  from senders_put [OF this, of session q] split
  have "senders (ac_pending (put_queue session q s)) + mset used + mset (map pa_sender q)
    = senders (ac_pending s) + mset (map pa_sender q)"
    by (metis (no_types, lifting) add.assoc add.commute)
  then show "senders (ac_pending ((put_queue session q s)\<lparr>ac_channels := cs\<rparr>)) + mset used = senders (ac_pending s)"
    by simp
qed (use kept same in simp_all)

lemma register_kept:
  assumes inv: "approvals_inv s"
  shows "approvals_kept s (snd (approval_register session call s))"
proof -
  let ?session = "session_id_str session" and ?n = "length (ac_channels s)"
  let ?q = "session_queue ?session s @ [\<lparr>pa_call_id = call, pa_sender = ?n\<rparr>]"
  let ?s = "(put_queue ?session ?q s)\<lparr>ac_channels := ac_channels s @ [ChannelOpen]\<rparr>"
  have "distinct (map fst (ac_pending s))" using inv by (simp add: approvals_inv_def)
  from senders_put [OF this, of ?session ?q]
  have pending: "senders (ac_pending ?s) = add_mset ?n (senders (ac_pending s))" by simp
  have fresh: "?n \<notin># senders (ac_pending s)" using inv by (auto simp: approvals_inv_alt unused_def)
  have "approvals_kept s ?s" if "call \<notin> set (map pa_call_id (session_queue ?session s))"
  proof -
    have "queues_ok (ac_pending ?s)"
      using queues_ok_put [of s ?q ?session] inv that queue_distinct [OF inv] by (simp add: approvals_inv_alt)
    moreover have "count (senders (ac_pending ?s)) i \<le> 1" for i
      using inv fresh pending by (auto simp: approvals_inv_alt not_in_iff)
    moreover have "unused (ac_channels ?s) i" if "i \<in># senders (ac_pending ?s)" for i
      using that inv pending by (auto simp: approvals_inv_alt unused_def nth_append)
    ultimately show ?thesis using pending
      by (auto simp: approvals_kept_def approvals_inv_alt channels_kept_def nth_append)
  qed
  then show ?thesis using inv by (auto simp: approval_register_def Let_def approvals_kept_refl)
qed

lemma send_decision_kept:
  "channels_kept cs (snd (send_decision d i cs)) \<and> (\<forall>j. j \<noteq> i \<longrightarrow> snd (send_decision d i cs) ! j = cs ! j)"
  by (simp add: send_decision_def channels_kept_set)

lemma respond_kept:
  assumes inv: "approvals_inv s"
  shows "approvals_kept s (snd (approval_respond session choice s))"
proof -
  have "approvals_kept s ((put_queue (session_id_str session) queue s)
      \<lparr>ac_channels := snd (send_decision d (pa_sender a) (ac_channels s))\<rparr>)"
    if "session_queue (session_id_str session) s = a # queue" for a queue d
    using queue_distinct [OF inv, of "session_id_str session"] that
      send_decision_kept [of "ac_channels s" d "pa_sender a"]
    by (intro approval_put_kept [OF inv, where used = "[pa_sender a]"]) auto
  then show ?thesis using inv
    by (auto simp: approval_respond_def approvals_kept_refl split: sum.split list.split prod.split) (metis snd_conv)
qed

lemma split_senders:
  "mset (map pa_sender (filter (\<lambda>a. \<not> P a) q)) + mset (map pa_sender (filter P q)) = mset (map pa_sender q)"
  by (induction q) simp_all

lemma remove_kept:
  assumes inv: "approvals_inv s"
  shows "approvals_kept s (approval_remove session call s)"
proof -
  let ?queue = "session_queue (session_id_str session) s"
  let ?used = "filter (\<lambda>a. pa_call_id a = call) ?queue"
  have "mset (map pa_sender (filter (\<lambda>a. pa_call_id a \<noteq> call) ?queue)) + mset (map pa_sender ?used) = mset (map pa_sender ?queue)"
    by (rule split_senders)
  then show ?thesis
    using inv queue_distinct [OF inv, of "session_id_str session"] drop_senders_kept [of "ac_channels s" ?used]
    by (auto simp: approval_remove_def Let_def approvals_kept_refl distinct_map_filter
          intro!: approval_put_kept [OF inv, where used = "map pa_sender ?used"])
qed

lemma deny_session_kept:
  assumes inv: "approvals_inv s"
  shows "approvals_kept s (approval_deny_session session s)"
  using inv deny_waiters_kept [of "ac_channels s" "session_queue (session_id_str session) s"]
  by (auto simp: approval_deny_session_def Let_def approvals_kept_refl
        intro!: approval_put_kept [OF inv, where used = "map pa_sender (session_queue (session_id_str session) s)"])

lemma deny_all_kept:
  assumes inv: "approvals_inv s"
  shows "approvals_kept s (approval_deny_all s)"
  using inv deny_waiters_kept [of "ac_channels s" "concat (map snd (ac_pending s))"]
  by (auto simp: approval_deny_all_def approvals_kept_refl queues_ok_def senders_def [of "ac_pending s"]
        intro!: approvals_kept_shrink [OF inv, where used = "map pa_sender (concat (map snd (ac_pending s)))"])

lemma drop_receiver_kept:
  assumes inv: "approvals_inv s"
  shows "approvals_kept s (drop_receiver i s)"
proof -
  have "unused ((ac_channels s)[i := ReceiverDropped]) j" if "unused (ac_channels s) j" for j
    using that by (cases "j = i") (auto simp: unused_def)
  then show ?thesis using inv
    by (auto simp: drop_receiver_def approvals_kept_def approvals_inv_alt channels_kept_set)
qed

lemma approval_step_kept:
  assumes "approval_step s s'" "approvals_inv s"
  shows "approvals_kept s s'"
  using assms
proof (cases rule: approval_step.cases)
  case Poison
  with assms(2) show ?thesis by (simp add: approvals_kept_def approvals_inv_alt)
qed (simp_all add: register_kept respond_kept remove_kept deny_session_kept deny_all_kept drop_receiver_kept)

lemma approvals_inv_default: "approvals_inv approval_control_default"
  by (simp add: approvals_inv_def approval_control_default_def waiters_def)

lemma approval_history_kept: "approval_step\<^sup>*\<^sup>* s s' \<Longrightarrow> approvals_inv s \<Longrightarrow> approvals_kept s s'"
proof (induction rule: rtranclp_induct)
  case (step s' s'')
  then have kept: "approvals_kept s s'" by simp
  then have "approvals_inv s'" by (simp add: approvals_kept_def)
  with step.hyps(2) have "approvals_kept s' s''" by (rule approval_step_kept)
  with kept show ?case by (rule approvals_kept_trans)
qed (simp add: approvals_kept_refl)

lemma approval_reachable_inv: "approval_step\<^sup>*\<^sup>* approval_control_default s \<Longrightarrow> approvals_inv s"
  using approval_history_kept approvals_inv_default by (auto simp: approvals_kept_def)

section \<open>Who is answered\<close>

lemma head_waiter:
  assumes inv: "approvals_inv s" and q: "session_queue session s = a # queue"
  shows "unused (ac_channels s) (pa_sender a)"
    and "pa_sender a \<notin># senders (ac_pending (put_queue session queue s))"
proof -
  have d: "distinct (map fst (ac_pending s))" using inv by (simp add: approvals_inv_def)
  from senders_put [OF d, of session queue] q
  have eq: "add_mset (pa_sender a) (senders (ac_pending (put_queue session queue s))) = senders (ac_pending s)" by simp
  then have "pa_sender a \<in># senders (ac_pending s)" by (metis union_single_eq_member add_mset_add_single)
  then show "unused (ac_channels s) (pa_sender a)" using inv by (simp add: approvals_inv_alt)
  have "count (senders (ac_pending s)) (pa_sender a) \<le> 1" using inv by (simp add: approvals_inv_alt)
  then show "pa_sender a \<notin># senders (ac_pending (put_queue session queue s))"
    by (simp add: eq [symmetric] not_in_iff)
qed

lemma respond_accepted:
  assumes "decision_of_choice choice = Ok d" "\<not> ac_poisoned s" "session_queue (session_id_str session) s = a # queue"
  shows "approval_respond session choice s =
     (Ok (fst (send_decision d (pa_sender a) (ac_channels s))),
      (put_queue (session_id_str session) queue s)\<lparr>ac_channels := snd (send_decision d (pa_sender a) (ac_channels s))\<rparr>)"
  using assms by (simp add: approval_respond_def split: prod.split)

lemma answered_is_final:
  assumes inv: "approvals_inv s" and q: "session_queue session s = a # queue" and later: "approval_step\<^sup>*\<^sup>* s' s''"
    and s': "s' = (put_queue session queue s)\<lparr>ac_channels := snd (send_decision d (pa_sender a) (ac_channels s))\<rparr>"
    and inv': "approvals_inv s'"
  shows "pa_sender a \<notin> set (waiters s'') \<and> ac_channels s'' ! pa_sender a = ac_channels s' ! pa_sender a"
proof -
  from head_waiter [OF inv q] have u: "unused (ac_channels s) (pa_sender a)"
    and gone: "pa_sender a \<notin># senders (ac_pending s')" by (simp_all add: s')
  from u have bound: "pa_sender a < length (ac_channels s')" and "ac_channels s' ! pa_sender a \<noteq> ChannelOpen"
    by (auto simp: s' unused_def send_decision_def)
  with approval_history_kept [OF later inv'] gone
  have "pa_sender a \<notin># senders (ac_pending s'')" "ac_channels s'' ! pa_sender a = ac_channels s' ! pa_sender a"
    by (simp_all add: approvals_kept_def channels_kept_def)
  then show ?thesis by (simp add: senders_def waiters_def)
qed

section \<open>Arrival order\<close>

text \<open>Every queue holds its waiters in the order of their channels, which are numbered as they are registered.\<close>

definition arrival_order :: "approval_control \<Rightarrow> bool" where
  "arrival_order s \<longleftrightarrow> (\<forall>session. sorted_wrt (\<lambda>a b. pa_sender a < pa_sender b) (session_queue session s))"

lemma queued_waits:
  assumes "a \<in> set (session_queue session s)"
  shows "pa_sender a \<in> set (waiters s)"
proof (cases "map_of (ac_pending s) session")
  case (Some queue)
  then have "(session, queue) \<in> set (ac_pending s)" "a \<in> set queue" using assms by (auto simp: session_queue_def dest: map_of_SomeD)
  then show ?thesis by (force simp: waiters_def)
qed (use assms in \<open>simp add: session_queue_def\<close>)

lemma queued_unused:
  assumes "approvals_inv s" "a \<in> set (session_queue session s)"
  shows "unused (ac_channels s) (pa_sender a)"
  using assms queued_waits by (auto simp: approvals_inv_def)

lemma sorted_wrt_snoc: "sorted_wrt P (xs @ [x]) \<longleftrightarrow> sorted_wrt P xs \<and> (\<forall>y \<in> set xs. P y x)"
  by (simp add: sorted_wrt_append)

lemma arrival_order_put:
  assumes "arrival_order s" "sorted_wrt (\<lambda>a b. pa_sender a < pa_sender b) q"
  shows "arrival_order ((put_queue session q s)\<lparr>ac_channels := cs\<rparr>)"
  using assms by (simp add: arrival_order_def session_queue_put)

lemma arrival_order_step:
  assumes "approval_step s s'" "approvals_inv s" "arrival_order s"
  shows "arrival_order s'"
proof -
  have sorted: "sorted_wrt (\<lambda>a b. pa_sender a < pa_sender b) (session_queue session s)" for session
    using assms(3) by (simp add: arrival_order_def)
  note put = arrival_order_put [OF assms(3)]
  show ?thesis using assms(1)
  proof (cases rule: approval_step.cases)
    case (Register session call)
    have "\<forall>a \<in> set (session_queue (session_id_str session) s). pa_sender a < length (ac_channels s)"
      using queued_unused [OF assms(2)] by (auto simp: unused_def)
    then show ?thesis using assms(3) sorted Register put
      by (simp add: approval_register_def Let_def sorted_wrt_snoc)
  next
    case (Respond session choice)
    have rest: "sorted_wrt (\<lambda>a b. pa_sender a < pa_sender b) queue" if "session_queue name s = a # queue" for name a queue
      using sorted [of name] that by simp
    then show ?thesis using assms(3) Respond
      by (simp add: approval_respond_def put [OF rest] split: sum.split list.split prod.split)
  next
    case (DenyAll)
    then show ?thesis using assms(3) by (simp add: approval_deny_all_def arrival_order_def session_queue_def)
  next
    case (DropReceiver i)
    then show ?thesis using assms(3) by (simp add: drop_receiver_def arrival_order_def)
  next
    case Poison
    then show ?thesis using assms(3) by (simp add: arrival_order_def session_queue_def)
  qed (simp_all add: approval_remove_def approval_deny_session_def Let_def assms(3) put sorted sorted_wrt_filter)
qed

lemma arrival_order_reachable: "approval_step\<^sup>*\<^sup>* approval_control_default s \<Longrightarrow> arrival_order s"
proof (induction rule: rtranclp_induct)
  case base
  show ?case by (simp add: arrival_order_def session_queue_def approval_control_default_def)
next
  case (step s s')
  then show ?case using arrival_order_step approval_reachable_inv by blast
qed

text \<open>Who waited at an earlier moment of the history, and whom the later queue puts in front of a waiter of that moment.\<close>

lemma earlier_waiter_waited:
  assumes "approval_step\<^sup>*\<^sup>* approval_control_default s1" "approval_step\<^sup>*\<^sup>* s1 s"
    and "i \<in> set (waiters s)" "i < j" "j \<in> set (waiters s1)"
  shows "i \<in> set (waiters s1)"
proof -
  have inv: "approvals_inv s1" using assms(1) by (rule approval_reachable_inv)
  have "i < length (ac_channels s1)" using inv assms(4,5) by (auto simp: approvals_inv_def unused_def)
  moreover have "set (waiters t) = set_mset (senders (ac_pending t))" for t by (simp add: waiters_def senders_def)
  ultimately show ?thesis using approval_history_kept [OF assms(2) inv] assms(3) by (auto simp: approvals_kept_def)
qed

text \<open>
  C21. After any history of registrations, responses, removals, interruptions and dropped waiters, a response is
  for the oldest waiter of its session and nobody else: an accepted choice takes a waiter out of the queue that was
  registered before every other of its session (its channel has the smaller number, and at every earlier moment of the
  history at which another of them was waiting, it was waiting too), leaves every other session's queue alone, and
  delivers the decision exactly when the waiter still listens.
  Whatever happens afterwards that waiter is never answered again and keeps what it was told. A choice that is not
  offered, a poisoned lock and a session without waiters change nothing.
\<close>

theorem response_answers_the_oldest_waiter_once:
  assumes "approval_step\<^sup>*\<^sup>* approval_control_default s"
  shows "case approval_respond session choice s of (r, s') \<Rightarrow>
     (case (decision_of_choice choice, ac_poisoned s, session_queue (session_id_str session) s) of
        (Inr d, False, a # queue) \<Rightarrow>
          r = Ok (ac_channels s ! pa_sender a = ChannelOpen)
          \<and> (\<forall>b \<in> set queue. pa_sender a < pa_sender b
               \<and> (\<forall>s1. approval_step\<^sup>*\<^sup>* approval_control_default s1 \<and> approval_step\<^sup>*\<^sup>* s1 s \<and> pa_sender b \<in> set (waiters s1)
                     \<longrightarrow> pa_sender a \<in> set (waiters s1)))
          \<and> ac_channels s' = (if ac_channels s ! pa_sender a = ChannelOpen
                              then (ac_channels s)[pa_sender a := Delivered d] else ac_channels s)
          \<and> (\<forall>other. session_queue other s' = (if other = session_id_str session then queue else session_queue other s))
          \<and> (\<forall>s''. approval_step\<^sup>*\<^sup>* s' s'' \<longrightarrow>
               pa_sender a \<notin> set (waiters s'') \<and> ac_channels s'' ! pa_sender a = ac_channels s' ! pa_sender a)
      | _ \<Rightarrow> r \<noteq> Ok True \<and> s' = s)"
proof -
  have inv: "approvals_inv s" using assms by (rule approval_reachable_inv)
  show ?thesis
  proof (cases "\<exists>d a queue. decision_of_choice choice = Ok d \<and> \<not> ac_poisoned s
      \<and> session_queue (session_id_str session) s = a # queue")
    case True
    then obtain d a queue where c: "decision_of_choice choice = Ok d" "\<not> ac_poisoned s"
      and q: "session_queue (session_id_str session) s = a # queue" by blast
    define s' where s': "s' = (put_queue (session_id_str session) queue s)
      \<lparr>ac_channels := snd (send_decision d (pa_sender a) (ac_channels s))\<rparr>"
    have eq: "approval_respond session choice s = (Ok (fst (send_decision d (pa_sender a) (ac_channels s))), s')"
      unfolding s' using c q by (rule respond_accepted)
    have inv': "approvals_inv s'" using respond_kept [OF inv, of session choice] by (simp add: approvals_kept_def eq)
    have final: "pa_sender a \<notin> set (waiters s'') \<and> ac_channels s'' ! pa_sender a = ac_channels s' ! pa_sender a"
      if "approval_step\<^sup>*\<^sup>* s' s''" for s''
      using answered_is_final [OF inv q that s' inv'] .
    have queues: "session_queue other s' = (if other = session_id_str session then queue else session_queue other s)" for other
      by (simp add: s' session_queue_put)
    have sent: "fst (send_decision d (pa_sender a) (ac_channels s)) \<longleftrightarrow> ac_channels s ! pa_sender a = ChannelOpen"
      "ac_channels s' = (if ac_channels s ! pa_sender a = ChannelOpen
         then (ac_channels s)[pa_sender a := Delivered d] else ac_channels s)"
      using head_waiter(1) [OF inv q] by (simp_all add: s' send_decision_def unused_def)
    have first: "pa_sender a < pa_sender b" if "b \<in> set queue" for b
      using arrival_order_reachable [OF assms] q that by (auto simp: arrival_order_def dest!: spec [of _ "session_id_str session"])
    have earlier: "pa_sender a \<in> set (waiters s1)"
      if "b \<in> set queue" "approval_step\<^sup>*\<^sup>* approval_control_default s1" "approval_step\<^sup>*\<^sup>* s1 s" "pa_sender b \<in> set (waiters s1)" for b s1
      using earlier_waiter_waited [OF that(2,3) _ first [OF that(1)] that(4)] queued_waits [of a "session_id_str session" s] q by simp
    show ?thesis unfolding eq using c q final queues sent first earlier by simp
  qed (auto simp: approval_respond_def split: sum.split list.split)
qed

lemma response_answers_the_oldest_waiter_once_witness:
  "let session = SessionId ''s''; waiting = snd (approval_register session (ToolCallId ''b'')
         (snd (approval_register session (ToolCallId ''a'') approval_control_default))) in
   fst (approval_respond session ''once'' waiting) = Ok True
   \<and> ac_channels (snd (approval_respond session ''once'' waiting)) = [Delivered Allow, ChannelOpen]"
proof -
  let ?session = "SessionId ''s''"
  let ?s = "snd (approval_register ?session (ToolCallId ''b'')
         (snd (approval_register ?session (ToolCallId ''a'') approval_control_default)))"
  have "approval_step\<^sup>*\<^sup>* approval_control_default ?s"
    by (rule rtranclp.rtrancl_into_rtrancl [OF r_into_rtranclp]) (rule approval_step.Register)+
  from response_answers_the_oldest_waiter_once [OF this, of ?session "''once''"] show ?thesis
    by (simp add: approval_register_def approval_control_default_def session_queue_def put_queue_def
        decision_of_choice_def split: prod.splits)
qed

end
