(* ===== verification/Rust_Files.thy ===== *)
theory Rust_Files
  imports Rust_Path "HOL-Library.List_Lexorder" "HOL-Library.Char_ord"
begin

text \<open>
  More of \<open>std\<close> that the file tools and the terminal use: lossy decoding of bytes, the lines of a text,
  the order of paths, and a saturating addition.
\<close>

section \<open>Lossy decoding\<close>

text \<open>
  \<open>String::from_utf8_lossy\<close>, \<open>OsStr::to_string_lossy\<close> and \<open>Path::display\<close>: every longest part of a byte
  sequence that starts a character without completing it becomes U+FFFD. The first argument is what the character
  being read still needs, the second what was read of it.
\<close>

definition replacement_character :: string where
  "replacement_character = [CHR 0xEF, CHR 0xBF, CHR 0xBD]"

function lossy_from :: "(char \<Rightarrow> bool) list \<Rightarrow> string \<Rightarrow> string \<Rightarrow> string" where
  "lossy_from [] read [] = read"
| "lossy_from (p # ps) read [] = replacement_character"
| "lossy_from [] read (c # cs) =
     read @ (case tail_bytes c of None \<Rightarrow> replacement_character @ lossy_from [] [] cs | Some ps \<Rightarrow> lossy_from ps [c] cs)"
| "lossy_from (p # ps) read (c # cs) =
     (if p c then lossy_from ps (read @ [c]) cs else replacement_character @ lossy_from [] [] (c # cs))"
  by pat_completeness auto
termination
  by (relation "measures [\<lambda>(ps, read, s). length s, \<lambda>(ps, read, s). length ps]") auto

definition to_string_lossy :: "string \<Rightarrow> string" where
  "to_string_lossy s = lossy_from [] [] s"

lemma lossy_from_valid: "utf8_from ps s \<Longrightarrow> lossy_from ps read s = read @ s"
  by (induction ps read s rule: lossy_from.induct) (auto split: option.splits)

lemma to_string_lossy_valid: "utf8_valid s \<Longrightarrow> to_string_lossy s = s"
  by (simp add: to_string_lossy_def utf8_valid_def lossy_from_valid)

lemma to_string_lossy_examples:
  "to_string_lossy [CHR ''a'', CHR 0xE2, CHR 0x80, CHR ''b''] = CHR ''a'' # replacement_character @ ''b''"
  "to_string_lossy [CHR 0xFF, CHR 0xC3, CHR 0xA9] = replacement_character @ [CHR 0xC3, CHR 0xA9]"
  by code_simp+

section \<open>Lines\<close>

text \<open>\<open>str::lines\<close>: a line ends before its newline and a carriage return in front of it; no line follows the last newline.\<close>

definition strip_cr :: "string \<Rightarrow> string" where
  "strip_cr line = (if line \<noteq> [] \<and> last line = CHR 0x0D then butlast line else line)"

definition str_lines :: "string \<Rightarrow> string list" where
  "str_lines s =
     (let pieces = split_on (CHR 0x0A) s in
      map strip_cr (butlast pieces) @ (if last pieces = [] then [] else [last pieces]))"

lemma str_lines_examples:
  "str_lines [] = []"
  "str_lines (''a'' @ [CHR 0x0D, CHR 0x0A, CHR 0x0A] @ ''b'' @ [CHR 0x0D]) = [''a'', [], ''b'' @ [CHR 0x0D]]"
  "str_lines (''one'' @ [CHR 0x0A]) = [''one'']"
  by code_simp+

lemma length_split_on: "length (split_on c s) = Suc (count_list s c)"
  by (induction c s rule: split_on.induct) (auto split: list.splits)

lemma length_str_lines: "length (str_lines s) \<le> Suc (length s)"
proof -
  have "length (str_lines s) \<le> length (split_on (CHR 0x0A) s)"
    by (simp add: str_lines_def Let_def length_split_on)
  also have "\<dots> \<le> Suc (length s)" by (simp add: length_split_on count_le_length)
  finally show ?thesis .
qed

section \<open>The order of paths\<close>

text \<open>\<open>PathBuf\<close> compares by components: the root before \<open>.\<close> before \<open>..\<close> before names, names by their bytes.\<close>

fun component_rank :: "component \<Rightarrow> nat" where
  "component_rank RootDir = 0"
| "component_rank CurDir = 1"
| "component_rank ParentDir = 2"
| "component_rank (Normal name) = 3"

instantiation component :: linorder
begin

definition less_eq_component :: "component \<Rightarrow> component \<Rightarrow> bool" where
  "less_eq_component c d \<longleftrightarrow> component_rank c < component_rank d
     \<or> (component_rank c = component_rank d \<and> component_str c \<le> component_str d)"

definition less_component :: "component \<Rightarrow> component \<Rightarrow> bool" where
  "less_component c d \<longleftrightarrow> c \<le> d \<and> \<not> d \<le> (c :: component)"

instance
proof
  fix c d e :: component
  show "c < d \<longleftrightarrow> c \<le> d \<and> \<not> d \<le> c" by (rule less_component_def)
  show "c \<le> c" by (simp add: less_eq_component_def)
  show "c \<le> d \<Longrightarrow> d \<le> e \<Longrightarrow> c \<le> e" unfolding less_eq_component_def by fastforce
  show "c \<le> d \<Longrightarrow> d \<le> c \<Longrightarrow> c = d"
    by (cases c; cases d) (auto simp: less_eq_component_def)
  show "c \<le> d \<or> d \<le> c" by (auto simp: less_eq_component_def)
qed

end

text \<open>\<open>Vec<PathBuf>::sort\<close>, a stable sort.\<close>

definition sort_paths :: "string list \<Rightarrow> string list" where
  "sort_paths paths = sort_key path_components paths"

text \<open>
  \<open>Path::strip_prefix\<close>. The rest is written with single separators, as it is in a canonical path and in the
  paths the walker makes by joining names to one, which are the only arguments here.
\<close>

definition path_strip_prefix :: "string \<Rightarrow> string \<Rightarrow> string option" where
  "path_strip_prefix path root =
     (if path_starts_with path root
      then Some (join_with ''/'' (map component_str (drop (length (path_components root)) (path_components path)))) else None)"

section \<open>Numbers\<close>

definition usize_saturating_add :: "nat \<Rightarrow> nat \<Rightarrow> nat" where
  "usize_saturating_add a b = min (a + b) (2 ^ 64 - 1)"

lemma show_nat_length: "n < 10 ^ k \<Longrightarrow> 0 < k \<Longrightarrow> length (show_nat n) \<le> k"
proof (induction k arbitrary: n)
  case (Suc k)
  show ?case
  proof (cases "n < 10")
    case False
    with Suc.prems have "0 < k" by (cases k) auto
    moreover have "n div 10 < 10 ^ k" using Suc.prems by (simp add: less_mult_imp_div_less)
    ultimately show ?thesis using Suc.IH False by (subst show_nat.simps) simp
  qed (subst show_nat.simps, simp)
qed simp

section \<open>Searching a text\<close>

definition to_ascii_uppercase :: "string \<Rightarrow> string" where
  "to_ascii_uppercase s =
     map (\<lambda>c. let n = (of_char c :: nat) in if 97 \<le> n \<and> n \<le> 122 then char_of (n - 32) else c) s"

definition str_contains :: "string \<Rightarrow> string \<Rightarrow> bool" where
  "str_contains s pattern \<longleftrightarrow> list_ex (prefix pattern) (suffixes s)"

lemma str_contains_examples:
  "str_contains ''GITHUB_TOKEN'' ''TOKEN''" "\<not> str_contains ''PATH'' ''TOKEN''" "str_contains [] []"
  by code_simp+

end
