(* ===== verification/Local_Tools.thy ===== *)
theory Local_Tools
  imports Rust_Files Ports
begin

text \<open>
  \<open>apps/hermesd/src/adapters/local_tools.rs\<close>: the read-only tools \<open>read_file\<close> and \<open>search_files\<close> under one root.
  The file system, the directory walker of the crate \<open>ignore\<close>, the globs of \<open>globset\<close>, the expressions of
  \<open>regex\<close> and the derived decoders of the arguments are parameters, no two of which are assumed to agree: a
  file may have gone between the walk and the read. Proved: of what is outside the root or protected a result
  shows only how a request for a path ends, and following the continuations of \<open>read_file\<close> shows every line once and ends.
\<close>

section \<open>Limits and names\<close>

definition default_read_lines :: nat where "default_read_lines = 2000"
definition max_read_lines :: nat where "max_read_lines = 2000"
definition max_read_bytes :: nat where "max_read_bytes = 10 * 1024 * 1024"
definition max_result_chars :: nat where "max_result_chars = 100000"
definition max_rendered_line_bytes :: nat where "max_rendered_line_bytes = 4000"
definition default_search_results :: nat where "default_search_results = 50"
definition max_search_results :: nat where "max_search_results = 500"
definition max_search_offset :: nat where "max_search_offset = 10000"
definition max_search_file_bytes :: nat where "max_search_file_bytes = 2 * 1024 * 1024"
definition max_walk_files :: nat where "max_walk_files = 100000"

definition protected_file_names :: "string list" where
  "protected_file_names =
     [''.anthropic_oauth.json'', ''.env'', ''.env.development'', ''.env.local'', ''.env.production'', ''.env.staging'',
      ''.env.test'', ''.envrc'', ''.git-credentials'', ''.netrc'', ''.npmrc'', ''.pgpass'', ''.pypirc'', ''auth.json'',
      ''auth.lock'', ''id_dsa'', ''id_ecdsa'', ''id_ed25519'', ''id_rsa'']"

definition protected_directory_names :: "string list" where
  "protected_directory_names =
     [''.aws'', ''.docker'', ''.git'', ''.gnupg'', ''.hermes-rs'', ''.kube'', ''.ssh'', ''mcp-tokens'']"

definition is_protected_path :: "string \<Rightarrow> bool" where
  "is_protected_path path \<longleftrightarrow>
     (case file_name path of None \<Rightarrow> False
      | Some name \<Rightarrow> to_ascii_lowercase (to_string_lossy name) \<in> set protected_file_names)
     \<or> list_ex (\<lambda>c. to_ascii_lowercase (to_string_lossy (component_str c)) \<in> set protected_directory_names)
         (path_components path)"

section \<open>Surroundings\<close>

datatype search_target = SearchContent | SearchFiles

record read_file_args =
  rf_path :: string
  rf_offset :: nat
  rf_limit :: nat

record search_files_args =
  sf_pattern :: string
  sf_target :: search_target
  sf_path :: string
  sf_file_glob :: "string option"
  sf_limit :: nat
  sf_offset :: nat

text \<open>Errors of the parameters are their \<open>Display\<close> texts; an entry of the walk is whether it is a file, and its path.\<close>

record local_env =
  le_canonicalize :: "string \<Rightarrow> string + string"
  le_is_dir :: "string \<Rightarrow> bool"
  le_is_file :: "string \<Rightarrow> bool"
  le_metadata :: "string \<Rightarrow> string + bool \<times> nat"
  le_read_to_string :: "string \<Rightarrow> string + string"
  le_walk :: "string \<Rightarrow> (string + bool \<times> string) list"
  le_glob :: "string \<Rightarrow> string + (string \<Rightarrow> bool)"
  le_regex :: "string \<Rightarrow> string + (string \<Rightarrow> bool)"
  le_read_file_args :: "json \<Rightarrow> string + read_file_args"
  le_search_files_args :: "json \<Rightarrow> string + search_files_args"
  le_debug_str :: "string \<Rightarrow> string"

datatype local_tools_config_error =
    ResolveRoot string string
  | RootNotDirectory string
  | ProtectedRoot string
  | EmptyExecutionScope

fun local_tools_config_error_text :: "local_tools_config_error \<Rightarrow> string" where
  "local_tools_config_error_text (ResolveRoot path source) =
     ''could not resolve tool root '' @ to_string_lossy path @ '': '' @ source"
| "local_tools_config_error_text (RootNotDirectory path) = ''tool root is not a directory: '' @ to_string_lossy path"
| "local_tools_config_error_text (ProtectedRoot path) =
     ''tool root is a protected credential directory: '' @ to_string_lossy path"
| "local_tools_config_error_text EmptyExecutionScope = ''execution scope must be non-empty''"

record read_only_local_tools =
  lt_root :: string

definition local_tools_new :: "local_env \<Rightarrow> string \<Rightarrow> string \<Rightarrow> local_tools_config_error + read_only_local_tools" where
  "local_tools_new le supplied execution_scope =
     and_then (map_err (ResolveRoot supplied) (le_canonicalize le supplied)) (\<lambda>root.
     and_then (ensure (le_is_dir le root) (RootNotDirectory root)) (\<lambda>_.
     and_then (ensure (\<not> is_protected_path root) (ProtectedRoot root)) (\<lambda>_.
     and_then (ensure (execution_scope \<noteq> []) EmptyExecutionScope) (\<lambda>_.
     Ok \<lparr>lt_root = root\<rparr>))))"

section \<open>Paths\<close>

definition resolve_existing :: "local_env \<Rightarrow> read_only_local_tools \<Rightarrow> string \<Rightarrow> string + string" where
  "resolve_existing le self supplied =
     (if supplied = [] then Err ''path must be non-empty''
      else let candidate = (if is_absolute supplied then supplied else path_join (lt_root self) supplied) in
        and_then (map_err (\<lambda>error. ''could not resolve '' @ to_string_lossy candidate @ '': '' @ error)
                    (le_canonicalize le candidate)) (\<lambda>resolved.
        and_then (ensure (path_starts_with resolved (lt_root self))
                    (''path '' @ to_string_lossy candidate @ '' escapes tool root '' @ to_string_lossy (lt_root self))) (\<lambda>_.
        and_then (ensure (\<not> is_protected_path resolved)
                    (''access denied: '' @ to_string_lossy candidate
                     @ '' is a protected credential or repository-internal path'')) (\<lambda>_.
        Ok resolved))))"

definition display_path :: "string \<Rightarrow> string \<Rightarrow> string" where
  "display_path root path =
     to_string_lossy (case path_strip_prefix path root of None \<Rightarrow> path | Some rest \<Rightarrow> rest)"

definition truncate_line :: "string \<Rightarrow> string" where
  "truncate_line line =
     (if length line \<le> max_rendered_line_bytes then line
      else take (boundary_below line max_rendered_line_bytes) line
        @ [CHR 0xE2, CHR 0x80, CHR 0xA6] @ '' [line truncated]'')"

definition truncate_owned :: "string \<Rightarrow> nat \<Rightarrow> string" where
  "truncate_owned s max_bytes = take (boundary_below s (min max_bytes (length s))) s"

section \<open>Reading a file\<close>

text \<open>The loop over the selected lines: the text so far, and where to continue when the output is full.\<close>

definition rendered_line :: "nat \<Rightarrow> string \<Rightarrow> string" where
  "rendered_line line_number line = show_nat line_number @ ''|'' @ truncate_line line @ [CHR 0x0A]"

fun render_lines :: "nat \<Rightarrow> string \<Rightarrow> string list \<Rightarrow> string \<times> nat option" where
  "render_lines line_number output [] = (output, None)"
| "render_lines line_number output (line # rest) =
     (let rendered = rendered_line line_number line in
      if usize_saturating_add (length output) (length rendered) > max_result_chars then (output, Some line_number)
      else render_lines (line_number + 1) (output @ rendered) rest)"

definition read_page :: "string list \<Rightarrow> nat \<Rightarrow> nat \<Rightarrow> string \<times> nat option" where
  "read_page file_lines offset limit =
     (let start = offset - 1; end_line = min (usize_saturating_add start limit) (length file_lines) in
      case render_lines (start + 1) [] (take (end_line - start) (drop start file_lines)) of
        (output, Some next) \<Rightarrow> (output, Some next)
      | (output, None) \<Rightarrow> (output, if end_line < length file_lines then Some (end_line + 1) else None))"

definition continuation :: "nat option \<Rightarrow> string" where
  "continuation next_offset =
     (case next_offset of None \<Rightarrow> []
      | Some offset \<Rightarrow> ''[More content available; continue with offset='' @ show_nat offset @ '']'')"

definition read_file :: "local_env \<Rightarrow> read_only_local_tools \<Rightarrow> read_file_args \<Rightarrow> string + string" where
  "read_file le self arguments =
     and_then (ensure (rf_offset arguments \<noteq> 0) ''offset must be at least 1'') (\<lambda>_.
     and_then (ensure (\<not> (rf_limit arguments = 0 \<or> rf_limit arguments > max_read_lines))
                 (''limit must be between 1 and '' @ show_nat max_read_lines)) (\<lambda>_.
     and_then (resolve_existing le self (rf_path arguments)) (\<lambda>path.
     and_then (map_err (\<lambda>error. ''could not inspect '' @ to_string_lossy path @ '': '' @ error) (le_metadata le path))
       (\<lambda>(regular, len).
     and_then (ensure regular (''path is not a regular file: '' @ to_string_lossy path)) (\<lambda>_.
     and_then (ensure (\<not> len > max_read_bytes)
                 (''file is too large for read_file ('' @ show_nat len @ '' bytes; maximum '' @ show_nat max_read_bytes @ '')''))
       (\<lambda>_.
     and_then (map_err (\<lambda>error. ''could not read '' @ to_string_lossy path @ '' as UTF-8 text: '' @ error)
                 (le_read_to_string le path)) (\<lambda>content.
     let file_lines = str_lines content in
     if rf_offset arguments - 1 \<ge> length file_lines
     then Ok (''Offset '' @ show_nat (rf_offset arguments) @ '' is beyond the end of ''
              @ display_path (lt_root self) path @ '' ('' @ show_nat (length file_lines) @ '' lines).'')
     else (case read_page file_lines (rf_offset arguments) (rf_limit arguments) of
             (output, next_offset) \<Rightarrow> Ok (output @ continuation next_offset)))))))))"

section \<open>Searching\<close>

definition compile_glob :: "local_env \<Rightarrow> string \<Rightarrow> string + (string \<Rightarrow> bool)" where
  "compile_glob le pattern = map_err (\<lambda>error. ''invalid file glob: '' @ error) (le_glob le pattern)"

definition glob_matches :: "(string \<Rightarrow> bool) \<Rightarrow> string \<Rightarrow> string \<Rightarrow> bool" where
  "glob_matches matcher relative path \<longleftrightarrow>
     matcher relative \<or> (case file_name path of None \<Rightarrow> False | Some name \<Rightarrow> matcher name)"

fun collect_entries :: "string \<Rightarrow> string list \<Rightarrow> (string + bool \<times> string) list \<Rightarrow> string + string list" where
  "collect_entries start files [] = Ok files"
| "collect_entries start files (Inl error # entries) = Err (''could not walk '' @ to_string_lossy start @ '': '' @ error)"
| "collect_entries start files (Inr (is_file, path) # entries) =
     (if \<not> is_file \<or> is_protected_path path then collect_entries start files entries
      else if length (files @ [path]) > max_walk_files
      then Err (''search path contains more than '' @ show_nat max_walk_files @ '' files; narrow the path'')
      else collect_entries start (files @ [path]) entries)"

definition collect_files :: "local_env \<Rightarrow> string \<Rightarrow> string + string list" where
  "collect_files le start =
     (if le_is_file le start then Ok [start]
      else if \<not> le_is_dir le start then Err (''search path is not a file or directory: '' @ to_string_lossy start)
      else collect_entries start [] (le_walk le start))"

text \<open>The loops over the lines of a file and over the files; both end once \<open>match_cap\<close> matches are found.\<close>

fun search_lines :: "(string \<Rightarrow> bool) \<Rightarrow> nat \<Rightarrow> string \<Rightarrow> nat \<Rightarrow> string list \<Rightarrow> string list \<Rightarrow> string list" where
  "search_lines expression match_cap relative index found [] = found"
| "search_lines expression match_cap relative index found (line # rest) =
     (if expression line
      then let found = found @ [relative @ '':'' @ show_nat (index + 1) @ '':'' @ truncate_line line] in
           if length found \<ge> match_cap then found
           else search_lines expression match_cap relative (index + 1) found rest
      else search_lines expression match_cap relative (index + 1) found rest)"

definition searched_content :: "local_env \<Rightarrow> string \<Rightarrow> string option" where
  "searched_content le path =
     (case le_metadata le path of
        Inl _ \<Rightarrow> None
      | Inr (_, len) \<Rightarrow>
          if len > max_search_file_bytes then None
          else (case le_read_to_string le path of Inl _ \<Rightarrow> None | Inr content \<Rightarrow> Some content))"

fun search_contents ::
  "local_env \<Rightarrow> string \<Rightarrow> (string \<Rightarrow> bool) option \<Rightarrow> (string \<Rightarrow> bool) \<Rightarrow> nat \<Rightarrow> string list \<Rightarrow> string list \<Rightarrow> string list" where
  "search_contents le root file_filter expression match_cap found [] = found"
| "search_contents le root file_filter expression match_cap found (path # candidates) =
     (let relative = display_path root path in
      if \<not> (case file_filter of None \<Rightarrow> True | Some matcher \<Rightarrow> glob_matches matcher relative path)
      then search_contents le root file_filter expression match_cap found candidates
      else (case searched_content le path of
              None \<Rightarrow> search_contents le root file_filter expression match_cap found candidates
            | Some content \<Rightarrow>
                let found = search_lines expression match_cap relative 0 found (str_lines content) in
                if length found \<ge> match_cap then found
                else search_contents le root file_filter expression match_cap found candidates))"

definition search_matches ::
  "local_env \<Rightarrow> read_only_local_tools \<Rightarrow> search_files_args \<Rightarrow> (string \<Rightarrow> bool) option \<Rightarrow> string list \<Rightarrow> string + string list" where
  "search_matches le self arguments file_filter candidates =
     (let match_cap = usize_saturating_add (usize_saturating_add (sf_offset arguments) (sf_limit arguments)) 1 in
      case sf_target arguments of
        SearchFiles \<Rightarrow>
          and_then (compile_glob le (sf_pattern arguments)) (\<lambda>matcher.
          Ok (take match_cap (map (display_path (lt_root self))
                (filter (\<lambda>path. glob_matches matcher (display_path (lt_root self) path) path) candidates))))
      | SearchContent \<Rightarrow>
          and_then (map_err (\<lambda>error. ''invalid search regex: '' @ error) (le_regex le (sf_pattern arguments))) (\<lambda>expression.
          Ok (search_contents le (lt_root self) file_filter expression match_cap [] candidates)))"

definition search_output :: "nat \<Rightarrow> nat \<Rightarrow> string list \<Rightarrow> string" where
  "search_output offset limit matches =
     (let available = length matches - offset; selected = take limit (drop offset matches) in
      if selected = [] then ''No matches found.''
      else let output = join_with [CHR 0x0A] selected
             @ (if available > length selected
                then [CHR 0x0A] @ ''[More matches available; continue with offset='' @ show_nat (offset + length selected) @ '']''
                else []) in
           if length output > max_result_chars
           then truncate_owned output max_result_chars @ [CHR 0x0A] @ ''[Results truncated at the output budget]''
           else output)"

definition search_files :: "local_env \<Rightarrow> read_only_local_tools \<Rightarrow> search_files_args \<Rightarrow> string + string" where
  "search_files le self arguments =
     and_then (ensure (sf_pattern arguments \<noteq> []) ''pattern must be non-empty'') (\<lambda>_.
     and_then (ensure (\<not> (sf_limit arguments = 0 \<or> sf_limit arguments > max_search_results))
                 (''limit must be between 1 and '' @ show_nat max_search_results)) (\<lambda>_.
     and_then (ensure (\<not> sf_offset arguments > max_search_offset)
                 (''offset must not exceed '' @ show_nat max_search_offset)) (\<lambda>_.
     and_then (resolve_existing le self (sf_path arguments)) (\<lambda>start.
     and_then (transpose_opt (map_option (compile_glob le) (sf_file_glob arguments))) (\<lambda>file_filter.
     and_then (collect_files le start) (\<lambda>candidates.
     and_then (search_matches le self arguments file_filter (sort_paths candidates)) (\<lambda>matches.
     Ok (search_output (sf_offset arguments) (sf_limit arguments) matches))))))))"

section \<open>The broker\<close>

definition decode_arguments :: "(json \<Rightarrow> string + 'a) \<Rightarrow> tool_arguments \<Rightarrow> string + 'a" where
  "decode_arguments from_value arguments =
     map_err (\<lambda>error. ''invalid tool arguments: '' @ error) (from_value (JObject arguments))"

definition execute_one :: "local_env \<Rightarrow> read_only_local_tools \<Rightarrow> planned_tool_call \<Rightarrow> tool_terminal" where
  "execute_one le self call =
     (let result =
        (if pl_name call = ''read_file''
         then and_then (decode_arguments (le_read_file_args le) (pl_arguments call)) (read_file le self)
         else if pl_name call = ''search_files''
         then and_then (decode_arguments (le_search_files_args le) (pl_arguments call)) (search_files le self)
         else Err (''unknown read-only tool '' @ le_debug_str le (pl_name call)));
       (status, content) = (case result of Inr content \<Rightarrow> (Succeeded, content) | Inl error \<Rightarrow> (Failed, error)) in
      \<lparr>tt_call_id = pl_call_id call, tt_name = pl_name call, tt_status = status, tt_content = content,
       tt_invocation_id = pl_invocation_id call, tt_effect = ReadOnly, tt_receipt = None\<rparr>)"

fun plan_read_only :: "tool_call_id set \<Rightarrow> (tool_call \<times> invocation_id) list \<Rightarrow> tool_broker_error + planned_tool_call list" where
  "plan_read_only seen [] = Ok []"
| "plan_read_only seen ((call, invocation_id) # rest) =
     (if tc_id call \<in> seen then Err (ToolBrokerError (''duplicate tool call id '' @ tool_call_id_str (tc_id call)))
      else and_then (plan_read_only (insert (tc_id call) seen) rest) (\<lambda>plans.
        Ok (\<lparr>pl_call_id = tc_id call, pl_name = tc_name call, pl_arguments = tc_arguments call,
             pl_invocation_id = invocation_id, pl_effect = ReadOnly, pl_approval = None\<rparr> # plans)))"

definition local_plan :: "tool_call list \<Rightarrow> invocation_id list \<Rightarrow> (read_only_local_tools, tool_broker_error, planned_tool_call list) action" where
  "local_plan calls invocation_ids =
     (if length calls \<noteq> length invocation_ids
      then act_lift (Err (ToolBrokerError ''kernel invocation identities must align with model calls''))
      else act_lift (plan_read_only {} (zip calls invocation_ids)))"

definition local_execute :: "local_env \<Rightarrow> planned_tool_call list \<Rightarrow> (read_only_local_tools, tool_broker_error, tool_terminal list) action" where
  "local_execute le calls = act_read (\<lambda>self. map (execute_one le self) calls)"

definition local_tool_broker :: "local_env \<Rightarrow> read_only_local_tools tool_broker" where
  "local_tool_broker le =
     \<lparr>tb_plan = local_plan, tb_resolve_approvals = default_resolve_approvals, tb_execute = local_execute le\<rparr>"

section \<open>The catalog\<close>

definition read_file_schema :: json where
  "read_file_schema =
     jobject [(''type'', JString ''function''),
       (''function'', jobject [(''name'', JString ''read_file''),
          (''description'', JString ''Read a UTF-8 text file under the configured workspace root with line numbers and pagination.''),
          (''parameters'', jobject [(''type'', JString ''object''),
             (''properties'', jobject
                [(''path'', jobject [(''type'', JString ''string''), (''description'', JString ''Path relative to the workspace root, or an absolute path within it.'')]),
                 (''offset'', jobject [(''type'', JString ''integer''), (''minimum'', jnat 1), (''default'', jnat 1)]),
                 (''limit'', jobject [(''type'', JString ''integer''), (''minimum'', jnat 1), (''maximum'', jnat max_read_lines), (''default'', jnat default_read_lines)])]),
             (''required'', JArray [JString ''path'']),
             (''additionalProperties'', JBool False)])])]"

definition search_files_schema :: json where
  "search_files_schema =
     jobject [(''type'', JString ''function''),
       (''function'', jobject [(''name'', JString ''search_files''),
          (''description'', JString ''Search file contents with a regular expression or find files by glob under the configured workspace root.''),
          (''parameters'', jobject [(''type'', JString ''object''),
             (''properties'', jobject
                [(''pattern'', jobject [(''type'', JString ''string'')]),
                 (''target'', jobject [(''type'', JString ''string''), (''enum'', JArray [JString ''content'', JString ''files'']), (''default'', JString ''content'')]),
                 (''path'', jobject [(''type'', JString ''string''), (''default'', JString ''.'')]),
                 (''file_glob'', jobject [(''type'', JString ''string'')]),
                 (''limit'', jobject [(''type'', JString ''integer''), (''minimum'', jnat 1), (''maximum'', jnat max_search_results), (''default'', jnat default_search_results)]),
                 (''offset'', jobject [(''type'', JString ''integer''), (''minimum'', jnat 0), (''default'', jnat 0)])]),
             (''required'', JArray [JString ''pattern'']),
             (''additionalProperties'', JBool False)])])]"

definition local_catalog :: "json list" where
  "local_catalog = [read_file_schema, search_files_schema]"

section \<open>Nothing outside the root is seen\<close>

text \<open>What the tools may look into: canonical paths under the root that are not protected.\<close>

definition visible :: "read_only_local_tools \<Rightarrow> string \<Rightarrow> bool" where
  "visible self path \<longleftrightarrow> path_starts_with path (lt_root self) \<and> \<not> is_protected_path path"

lemma resolved_visible: "resolve_existing le self supplied = Ok path \<Longrightarrow> visible self path"
  by (auto simp: resolve_existing_def visible_def Let_def and_then_def ensure_def split: if_splits sum.splits)

definition walk_stays_below :: "local_env \<Rightarrow> bool" where
  "walk_stays_below le \<longleftrightarrow> (\<forall>start regular path. Inr (regular, path) \<in> set (le_walk le start) \<longrightarrow> path_starts_with path start)"

lemma collect_entries_visible:
  "collect_entries start files entries = Ok files' \<Longrightarrow> list_all (visible self) files \<Longrightarrow>
     \<forall>regular path. Inr (regular, path) \<in> set entries \<longrightarrow> path_starts_with path (lt_root self) \<Longrightarrow>
     list_all (visible self) files'"
proof (induction start files entries rule: collect_entries.induct)
  case (3 start files regular path entries)
  have below: "path_starts_with path (lt_root self)"
    "\<forall>regular path. Inr (regular, path) \<in> set entries \<longrightarrow> path_starts_with path (lt_root self)"
    using 3(5) by auto
  show ?case
  proof (cases "\<not> regular \<or> is_protected_path path")
    case True
    then show ?thesis using 3(3,4) 3(1) [OF True] below(2) by simp
  next
    case False
    then have "visible self path" using below(1) by (simp add: visible_def)
    then have "list_all (visible self) (files @ [path])" using 3(4) by simp
    then show ?thesis using 3(3) 3(2) [OF False] below(2) False by (simp split: if_splits)
  qed
qed simp_all

lemma collect_files_visible:
  assumes "walk_stays_below le" "visible self start" "collect_files le start = Ok files" "path \<in> set files"
  shows "visible self path"
proof -
  have "\<forall>regular path. Inr (regular, path) \<in> set (le_walk le start) \<longrightarrow> path_starts_with path (lt_root self)"
    using assms(1,2) path_starts_with_trans unfolding walk_stays_below_def visible_def by blast
  then have "list_all (visible self) files"
    using assms(2,3) collect_entries_visible [of start "[]" "le_walk le start" files self]
    by (auto simp: collect_files_def split: if_splits)
  then show ?thesis using assms(4) by (simp add: list_all_iff)
qed

text \<open>
  What a request can tell about a path that is not visible: whether it resolves, with which error it does not, whether it
  leads out of the root and otherwise that it is protected; not where it leads.
\<close>

definition resolves_alike :: "read_only_local_tools \<Rightarrow> string + string \<Rightarrow> string + string \<Rightarrow> bool" where
  "resolves_alike self r r' \<longleftrightarrow> r' = r
     \<or> (\<exists>path path'. r = Ok path \<and> r' = Ok path' \<and> path_starts_with path (lt_root self) = path_starts_with path' (lt_root self)
          \<and> (path_starts_with path (lt_root self) \<longrightarrow> is_protected_path path \<and> is_protected_path path'))"

text \<open>The entries of a walk that count: errors, and regular files that are not protected.\<close>

definition listed :: "(string + bool \<times> string) list \<Rightarrow> (string + bool \<times> string) list" where
  "listed entries = filter (\<lambda>entry. case entry of Inl _ \<Rightarrow> True | Inr (regular, path) \<Rightarrow> regular \<and> \<not> is_protected_path path) entries"

text \<open>Two surroundings that agree on the visible paths and, elsewhere, only on how a request for a path ends.\<close>

definition same_inside :: "read_only_local_tools \<Rightarrow> local_env \<Rightarrow> local_env \<Rightarrow> bool" where
  "same_inside self le le' \<longleftrightarrow>
     le_glob le' = le_glob le \<and> le_regex le' = le_regex le \<and> le_read_file_args le' = le_read_file_args le
     \<and> le_search_files_args le' = le_search_files_args le \<and> le_debug_str le' = le_debug_str le
     \<and> (\<forall>path. resolves_alike self (le_canonicalize le path) (le_canonicalize le' path))
     \<and> (\<forall>path. visible self path \<longrightarrow>
          le_metadata le' path = le_metadata le path \<and> le_read_to_string le' path = le_read_to_string le path
          \<and> le_is_file le' path = le_is_file le path \<and> le_is_dir le' path = le_is_dir le path
          \<and> listed (le_walk le' path) = listed (le_walk le path))"

lemma same_inside_fields:
  assumes "same_inside self le le'"
  shows "le_glob le' = le_glob le" "le_regex le' = le_regex le"
    "le_read_file_args le' = le_read_file_args le" "le_search_files_args le' = le_search_files_args le"
    "le_debug_str le' = le_debug_str le"
  using assms by (simp_all add: same_inside_def)

lemma same_inside_files:
  assumes "same_inside self le le'" "visible self path"
  shows "le_metadata le' path = le_metadata le path" "le_read_to_string le' path = le_read_to_string le path"
  using assms by (simp_all add: same_inside_def)

lemma resolves_alike_sym: "resolves_alike self r r' \<Longrightarrow> resolves_alike self r' r"
  by (auto simp: resolves_alike_def)

lemma same_inside_resolve:
  assumes "same_inside self le le'"
  shows "resolve_existing le' self = resolve_existing le self"
proof
  fix supplied
  let ?candidate = "if is_absolute supplied then supplied else path_join (lt_root self) supplied"
  have "resolves_alike self (le_canonicalize le ?candidate) (le_canonicalize le' ?candidate)"
    using assms by (simp add: same_inside_def)
  then show "resolve_existing le' self supplied = resolve_existing le self supplied"
    by (auto simp: resolve_existing_def resolves_alike_def Let_def and_then_def map_err_def ensure_def)
qed

lemma collect_listed: "collect_entries start files (listed entries) = collect_entries start files entries"
  by (induction start files entries rule: collect_entries.induct) (simp_all add: listed_def)

lemma same_inside_collect:
  assumes "same_inside self le le'" "visible self start"
  shows "collect_files le' start = collect_files le start"
proof -
  have "collect_entries start [] (le_walk le' start) = collect_entries start [] (le_walk le start)"
    using assms collect_listed by (metis same_inside_def)
  then show ?thesis using assms by (simp add: collect_files_def same_inside_def)
qed

lemma same_inside_read_file:
  assumes "same_inside self le le'"
  shows "read_file le' self arguments = read_file le self arguments"
proof (cases "resolve_existing le self (rf_path arguments)")
  case (Inr path)
  then have "visible self path" by (rule resolved_visible)
  then show ?thesis by (simp add: read_file_def same_inside_resolve [OF assms] Inr same_inside_files [OF assms])
qed (simp add: read_file_def same_inside_resolve [OF assms])

lemma same_inside_search_contents:
  assumes "same_inside self le le'"
  shows "\<forall>path \<in> set candidates. visible self path \<Longrightarrow>
    search_contents le' root file_filter expression match_cap found candidates
    = search_contents le root file_filter expression match_cap found candidates"
proof (induction candidates arbitrary: found file_filter)
  case (Cons path candidates)
  then have "visible self path" by simp
  then have "searched_content le' path = searched_content le path"
    by (simp add: same_inside_files [OF assms] searched_content_def split: sum.split)
  with Cons show ?case by (simp add: Let_def split: option.split)
qed simp

lemma same_inside_search_files:
  assumes same: "same_inside self le le'" and walk: "walk_stays_below le"
  shows "search_files le' self arguments = search_files le self arguments"
proof -
  have glob: "compile_glob le' = compile_glob le" by (simp add: fun_eq_iff compile_glob_def same_inside_fields [OF same])
  have collect: "collect_files le' start = collect_files le start" if "resolve_existing le self (sf_path arguments) = Ok start" for start
    by (rule same_inside_collect [OF same resolved_visible [OF that]])
  have matches: "search_matches le' self arguments file_filter (sort_paths candidates)
      = search_matches le self arguments file_filter (sort_paths candidates)"
    if "resolve_existing le self (sf_path arguments) = Ok start" "collect_files le start = Ok candidates"
    for start candidates file_filter
  proof -
    have "\<forall>path \<in> set (sort_paths candidates). visible self path"
      using collect_files_visible [OF walk resolved_visible [OF that(1)] that(2)] by (simp add: sort_paths_def)
    then show ?thesis
      by (simp add: search_matches_def glob same_inside_fields [OF same] same_inside_search_contents [OF same] Let_def
          split: search_target.split)
  qed
  show ?thesis
    by (cases "resolve_existing le self (sf_path arguments)")
      (auto simp: search_files_def glob collect same_inside_resolve [OF same] and_then_def matches split: sum.split)
qed

text \<open>
  C23. Whatever a model asks for, what a tool tells about the files is about canonical paths under the root that are no
  protected credentials or repository paths: two file systems that agree on those (their kind, size and contents, and the
  unprotected regular files the walker lists below them) give the same terminals, however much the files, the directories and
  the targets of links elsewhere differ, as long as a requested path elsewhere ends the same way: it does not resolve, with the
  same error, or leads out of the root, or to something protected. So of the rest a model learns whether a path
  exists and nothing else. The walker is assumed to list paths below the directory it starts from, as it is documented
  to with \<open>follow_links(false)\<close>; the ignore files it obeys may lie in parent directories, and what it lists is
  part of the agreement.
\<close>

theorem tools_see_nothing_outside_the_root:
  assumes "walk_stays_below le" "same_inside self le le'"
  shows "local_execute le' calls self = local_execute le calls self"
proof -
  have "read_file le' self = read_file le self" "search_files le' self = search_files le self"
    using same_inside_read_file [OF assms(2)] same_inside_search_files [OF assms(2,1)] by auto
  then show ?thesis
    by (simp add: local_execute_def act_read_def execute_one_def same_inside_fields [OF assms(2)])
qed

text \<open>A root with one note and a credential, and a secret outside.\<close>

definition sample_env :: "string \<Rightarrow> local_env" where
  "sample_env secret =
     \<lparr>le_canonicalize = (\<lambda>path. if path \<in> {''/r/n'', ''/r/.env'', ''/s''} then Ok path else Err ''No such file or directory (os error 2)''),
      le_is_dir = (\<lambda>path. path = ''/r''), le_is_file = (\<lambda>path. path \<noteq> ''/r''),
      le_metadata = (\<lambda>path. Ok (True, 4)),
      le_read_to_string = (\<lambda>path. Ok (if path \<in> {''/s'', ''/r/.env''} then secret else ''note'')),
      le_walk = (\<lambda>start. if start = ''/r'' then [Inr (True, ''/r/n''), Inr (True, ''/r/.env'')] else []),
      le_glob = (\<lambda>pattern. Ok (\<lambda>path. path = pattern)), le_regex = (\<lambda>pattern. Ok (\<lambda>line. line = pattern)),
      le_read_file_args = (\<lambda>json. case json_get json ''path'' of
         Some (JString path) \<Rightarrow> Ok \<lparr>rf_path = path, rf_offset = 1, rf_limit = default_read_lines\<rparr>
       | _ \<Rightarrow> Err ''missing field `path`''),
      le_search_files_args = (\<lambda>json. Err ''missing field `pattern`''),
      le_debug_str = (\<lambda>s. CHR 0x22 # s @ [CHR 0x22])\<rparr>"

definition sample_call :: "string \<Rightarrow> planned_tool_call" where
  "sample_call path = \<lparr>pl_call_id = ToolCallId ''c'', pl_name = ''read_file'', pl_arguments = [(''path'', JString path)],
     pl_invocation_id = InvocationId ''i'', pl_effect = ReadOnly, pl_approval = None\<rparr>"

lemma sample_resolve:
  "resolve_existing (sample_env secret) \<lparr>lt_root = ''/r''\<rparr> ''/s'' = Err ''path /s escapes tool root /r''"
  "resolve_existing (sample_env secret) \<lparr>lt_root = ''/r''\<rparr> ''.env''
   = Err ''access denied: /r/.env is a protected credential or repository-internal path''"
  "resolve_existing (sample_env secret) \<lparr>lt_root = ''/r''\<rparr> ''n'' = Ok ''/r/n''"
  by code_simp+

lemma sample_read_args:
  "le_read_file_args (sample_env secret) (JObject [(''path'', JString path)])
   = Ok \<lparr>rf_path = path, rf_offset = 1, rf_limit = default_read_lines\<rparr>"
  by (simp add: sample_env_def btree_get_def)

text \<open>A surrounding in which the credential is another, \<open>/s\<close> is a directory reached through a link, and more is protected.\<close>

definition other_env :: local_env where
  "other_env = (sample_env ''key2'')
     \<lparr>le_canonicalize := (\<lambda>path. if path = ''/s'' then Ok ''/t'' else if path = ''/r/.env'' then Ok ''/r/.git/k''
        else le_canonicalize (sample_env ''key2'') path),
      le_is_dir := (\<lambda>path. path \<in> {''/r'', ''/s'', ''/t''}), le_is_file := (\<lambda>path. path \<notin> {''/r'', ''/s'', ''/t''}),
      le_walk := (\<lambda>start. if start = ''/r'' then [Inr (False, ''/r/d''), Inr (True, ''/r/n''), Inr (True, ''/r/.git/k'')]
        else if start = ''/t'' then [Inr (True, ''/t/key'')] else [])\<rparr>"

lemma sample_same_inside: "same_inside \<lparr>lt_root = ''/r''\<rparr> (sample_env ''key1'') other_env"
proof -
  let ?self = "\<lparr>lt_root = ''/r''\<rparr>"
  have "\<not> visible ?self ''/s''" "\<not> visible ?self ''/t''" "\<not> visible ?self ''/r/.env''" by code_simp+
  then have hidden: "path \<noteq> ''/s'' \<and> path \<noteq> ''/t'' \<and> path \<noteq> ''/r/.env''" if "visible ?self path" for path
    using that by blast
  have "\<not> path_starts_with ''/s'' ''/r''" "\<not> path_starts_with ''/t'' ''/r''" "path_starts_with ''/r/.env'' ''/r''"
    "path_starts_with ''/r/.git/k'' ''/r''" "is_protected_path ''/r/.env''" "is_protected_path ''/r/.git/k''"
    "\<not> is_protected_path ''/r/n''" by code_simp+
  then show ?thesis
    using hidden by (auto simp: same_inside_def resolves_alike_def listed_def sample_env_def other_env_def)
qed

lemma tools_see_nothing_outside_the_root_witness:
  "local_execute other_env [sample_call ''/s'', sample_call ''n'', sample_call ''.env''] \<lparr>lt_root = ''/r''\<rparr>
   = local_execute (sample_env ''key1'') [sample_call ''/s'', sample_call ''n'', sample_call ''.env''] \<lparr>lt_root = ''/r''\<rparr>
   \<and> map tt_content (map (execute_one (sample_env ''key1'') \<lparr>lt_root = ''/r''\<rparr>)
       [sample_call ''/s'', sample_call ''.env''])
     = [''path /s escapes tool root /r'',
        ''access denied: /r/.env is a protected credential or repository-internal path'']"
proof
  have "path_starts_with ''/r/n'' ''/r''" "path_starts_with ''/r/.env'' ''/r''" by code_simp+
  then have "walk_stays_below (sample_env ''key1'')" by (simp add: walk_stays_below_def sample_env_def)
  then show "local_execute other_env [sample_call ''/s'', sample_call ''n'', sample_call ''.env''] \<lparr>lt_root = ''/r''\<rparr>
   = local_execute (sample_env ''key1'') [sample_call ''/s'', sample_call ''n'', sample_call ''.env''] \<lparr>lt_root = ''/r''\<rparr>"
    using sample_same_inside by (rule tools_see_nothing_outside_the_root)
  show "map tt_content (map (execute_one (sample_env ''key1'') \<lparr>lt_root = ''/r''\<rparr>)
       [sample_call ''/s'', sample_call ''.env''])
     = [''path /s escapes tool root /r'',
        ''access denied: /r/.env is a protected credential or repository-internal path'']"
    by (simp add: execute_one_def sample_call_def decode_arguments_def sample_read_args read_file_def sample_resolve
        ensure_def default_read_lines_def max_read_lines_def)
qed

section \<open>Reading on\<close>

definition numbered :: "nat \<Rightarrow> string list \<Rightarrow> string" where
  "numbered k file_lines = concat (map (\<lambda>(i, line). rendered_line i line) (enumerate k file_lines))"

lemma numbered_simps [simp]:
  "numbered k [] = []" "numbered k (line # rest) = rendered_line k line @ numbered (Suc k) rest"
  by (simp_all add: numbered_def)

lemma numbered_append: "numbered k (ls @ rest) = numbered k ls @ numbered (k + length ls) rest"
  by (induction ls arbitrary: k) simp_all

lemma length_truncate_line: "length (truncate_line line) \<le> 4020"
  using boundary_below_le [of line max_rendered_line_bytes]
  by (simp add: truncate_line_def max_rendered_line_bytes_def)

lemma length_rendered_line:
  assumes "k < 2 ^ 64"
  shows "length (rendered_line k line) \<le> max_result_chars"
proof -
  have "length (show_nat k) \<le> 20" using assms by (intro show_nat_length) simp_all
  then show ?thesis using length_truncate_line [of line] by (simp add: rendered_line_def max_result_chars_def)
qed

lemma render_lines_prefix:
  "\<exists>m \<le> length ls. render_lines k out ls
     = (out @ numbered k (take m ls), if m = length ls then None else Some (k + m))"
proof (induction ls arbitrary: k out)
  case (Cons line rest)
  show ?case
  proof (cases "usize_saturating_add (length out) (length (rendered_line k line)) > max_result_chars")
    case False
    obtain m where "m \<le> length rest"
      "render_lines (k + 1) (out @ rendered_line k line) rest
       = ((out @ rendered_line k line) @ numbered (k + 1) (take m rest), if m = length rest then None else Some (k + 1 + m))"
      using Cons.IH by blast
    with False show ?thesis by (intro exI [of _ "Suc m"]) (simp add: Let_def)
  next
    case True
    then show ?thesis by (intro exI [of _ 0]) (simp add: Let_def)
  qed
qed simp

text \<open>The first line always fits, so a page is never empty.\<close>

lemma render_lines_progress:
  assumes "ls \<noteq> []" "k < 2 ^ 64"
  shows "\<exists>m. 0 < m \<and> m \<le> length ls
     \<and> render_lines k [] ls = (numbered k (take m ls), if m = length ls then None else Some (k + m))"
proof -
  obtain line rest where ls: "ls = line # rest" using assms(1) by (cases ls) auto
  have "\<not> usize_saturating_add 0 (length (rendered_line k line)) > max_result_chars"
    using length_rendered_line [OF assms(2), of line] by (simp add: usize_saturating_add_def)
  moreover obtain m where "m \<le> length rest"
    "render_lines (k + 1) (rendered_line k line) rest
     = (rendered_line k line @ numbered (k + 1) (take m rest), if m = length rest then None else Some (k + 1 + m))"
    using render_lines_prefix [of rest "k + 1" "rendered_line k line"] by blast
  ultimately show ?thesis unfolding ls by (intro exI [of _ "Suc m"]) (simp add: Let_def)
qed

lemma read_page_progress:
  assumes "1 \<le> offset" "offset \<le> length ls" "0 < limit" "length ls < 2 ^ 64"
  shows "\<exists>m. 0 < m \<and> offset - 1 + m \<le> length ls
     \<and> read_page ls offset limit = (numbered offset (take m (drop (offset - 1) ls)),
          if offset - 1 + m = length ls then None else Some (offset + m))"
proof -
  let ?start = "offset - 1"
  define stop where "stop = min (usize_saturating_add ?start limit) (length ls)"
  define page where "page = take (stop - ?start) (drop ?start ls)"
  have start: "offset = Suc ?start" using assms(1) by simp
  have stop: "?start < stop" "stop \<le> length ls"
    using assms by (auto simp: stop_def usize_saturating_add_def)
  then have len: "length page = stop - ?start" and "page \<noteq> []" using assms(1,2) by (auto simp: page_def)
  moreover have "offset < 2 ^ 64" using assms(2,4) by linarith
  ultimately obtain m where m: "0 < m" "m \<le> length page"
    "render_lines offset [] page = (numbered offset (take m page), if m = length page then None else Some (offset + m))"
    using render_lines_progress by blast
  have "take m page = take m (drop ?start ls)" using m(2) len by (simp add: page_def)
  moreover have "read_page ls offset limit =
     (case render_lines offset [] page of (output, Some next) \<Rightarrow> (output, Some next)
      | (output, None) \<Rightarrow> (output, if stop < length ls then Some (stop + 1) else None))"
    using start by (simp only: read_page_def page_def stop_def Let_def Suc_eq_plus1 [symmetric])
  ultimately have "read_page ls offset limit = (numbered offset (take m (drop ?start ls)),
          if ?start + m = length ls then None else Some (offset + m))"
    using m stop len assms(1) by (auto split: if_splits)
  then show ?thesis using m len stop by (intro exI [of _ m]) auto
qed

text \<open>A client that follows the continuations, page by page; \<open>None\<close> if it never stops.\<close>

partial_function (option) follow_pages :: "(nat \<Rightarrow> string \<times> nat option) \<Rightarrow> nat \<Rightarrow> string list option" where
  "follow_pages page offset =
     (case page offset of
        (output, None) \<Rightarrow> Some [output]
      | (output, Some next) \<Rightarrow> Option.bind (follow_pages page next) (\<lambda>outputs. Some (output # outputs)))"

lemma follow_pages_all:
  assumes "1 \<le> offset" "offset \<le> length ls" "0 < limit" "length ls < 2 ^ 64"
  shows "\<exists>outputs. follow_pages (\<lambda>offset. read_page ls offset limit) offset = Some outputs
     \<and> concat outputs = numbered offset (drop (offset - 1) ls)"
  using assms(1,2)
proof (induction "length ls - offset" arbitrary: offset rule: less_induct)
  case less
  obtain m where m: "0 < m" "offset - 1 + m \<le> length ls"
    "read_page ls offset limit = (numbered offset (take m (drop (offset - 1) ls)),
          if offset - 1 + m = length ls then None else Some (offset + m))"
    using read_page_progress [OF less.prems assms(3,4)] by blast
  show ?case
  proof (cases "offset - 1 + m = length ls")
    case True
    then show ?thesis using m by (subst follow_pages.simps) simp
  next
    case False
    then have "offset + m \<le> length ls" "length ls - (offset + m) < length ls - offset"
      using m less.prems by auto
    from less.hyps [OF this(2) _ this(1)] m(1) obtain outputs where
      "follow_pages (\<lambda>offset. read_page ls offset limit) (offset + m) = Some outputs"
      "concat outputs = numbered (offset + m) (drop (offset + m - 1) ls)" by auto
    moreover have "numbered offset (drop (offset - 1) ls)
        = numbered offset (take m (drop (offset - 1) ls)) @ numbered (offset + m) (drop (offset + m - 1) ls)"
    proof -
      have "drop (offset - 1) ls = take m (drop (offset - 1) ls) @ drop (offset + m - 1) ls"
        using less.prems(1) by (metis Nat.add_diff_assoc2 add.commute append_take_drop_id drop_drop)
      moreover have "length (take m (drop (offset - 1) ls)) = m" using m(2) less.prems by simp
      ultimately show ?thesis by (metis numbered_append)
    qed
    ultimately show ?thesis using m(3) False by (subst follow_pages.simps) simp
  qed
qed

lemma read_file_page:
  assumes "resolve_existing le self path = Ok resolved" "le_metadata le resolved = Ok (True, len)" "len \<le> max_read_bytes"
    "le_read_to_string le resolved = Ok content" "1 \<le> offset" "offset \<le> length (str_lines content)"
    "1 \<le> limit" "limit \<le> max_read_lines"
  shows "read_file le self \<lparr>rf_path = path, rf_offset = offset, rf_limit = limit\<rparr>
     = Ok (fst (read_page (str_lines content) offset limit)
           @ continuation (snd (read_page (str_lines content) offset limit)))"
proof -
  have "\<not> length (str_lines content) \<le> offset - 1" using assms(5,6) by linarith
  then show ?thesis using assms by (simp add: read_file_def ensure_def Let_def split: prod.split)
qed

text \<open>
  C24. Reading a file page by page ends and loses nothing: whatever the limit, the pages of \<open>read_file\<close> from the
  first line on, each continued at the offset it names, together show every line of the file once, in order and
  under its number, and each answer of the tool is one such page. The only bound is that a text is shorter than
  the address space; every page makes progress because one rendered line is far below the output budget.
\<close>

theorem reading_on_shows_every_line_once:
  assumes "resolve_existing le self path = Ok resolved" "le_metadata le resolved = Ok (True, len)" "len \<le> max_read_bytes"
    "le_read_to_string le resolved = Ok content" "str_lines content \<noteq> []" "length content < 2 ^ 63"
    "1 \<le> limit" "limit \<le> max_read_lines"
  shows "(\<exists>outputs. follow_pages (\<lambda>offset. read_page (str_lines content) offset limit) 1 = Some outputs
            \<and> concat outputs = numbered 1 (str_lines content))
     \<and> (\<forall>offset \<in> {1..length (str_lines content)}.
          read_file le self \<lparr>rf_path = path, rf_offset = offset, rf_limit = limit\<rparr>
          = Ok (fst (read_page (str_lines content) offset limit)
                @ continuation (snd (read_page (str_lines content) offset limit))))"
proof
  have "length (str_lines content) < 2 ^ 64" using length_str_lines [of content] assms(6) by simp
  moreover have "1 \<le> length (str_lines content)" using assms(5) by (cases "str_lines content") auto
  ultimately show "\<exists>outputs. follow_pages (\<lambda>offset. read_page (str_lines content) offset limit) 1 = Some outputs
            \<and> concat outputs = numbered 1 (str_lines content)"
    using follow_pages_all [of 1 "str_lines content" limit] assms(7) by auto
qed (use assms read_file_page in simp)

lemma reading_on_shows_every_line_once_witness:
  "follow_pages (\<lambda>offset. read_page (str_lines ''note'') offset 2000) 1 = Some [''1|note'' @ [CHR 0x0A]]
   \<and> read_file (sample_env ''key'') \<lparr>lt_root = ''/r''\<rparr> \<lparr>rf_path = ''n'', rf_offset = 1, rf_limit = 2000\<rparr>
     = Ok (''1|note'' @ [CHR 0x0A])"
proof -
  have ls: "str_lines ''note'' = [''note'']" by code_simp
  have one: "digit_char 1 = CHR ''1''" by code_simp
  have page: "read_page [''note''] 1 2000 = (''1|note'' @ [CHR 0x0A], None)"
    using one by (simp add: read_page_def usize_saturating_add_def rendered_line_def truncate_line_def max_result_chars_def
        max_rendered_line_bytes_def show_nat.simps)
  have "read_file (sample_env ''key'') \<lparr>lt_root = ''/r''\<rparr> \<lparr>rf_path = ''n'', rf_offset = 1, rf_limit = 2000\<rparr>
     = Ok (fst (read_page (str_lines ''note'') 1 2000) @ continuation (snd (read_page (str_lines ''note'') 1 2000)))"
    using reading_on_shows_every_line_once [OF sample_resolve(3), of "''key''" 4 "''note''" 2000] ls
    by (simp add: sample_env_def max_read_bytes_def max_read_lines_def)
  then show ?thesis by (subst follow_pages.simps) (simp add: ls page [simplified] continuation_def)
qed

end
