(* ===== verification/Terminal_Tool.thy ===== *)
theory Terminal_Tool
  imports Rust_Files Approval Ports
begin

text \<open>
  \<open>apps/hermesd/src/adapters/terminal.rs\<close> on Unix: the shell tool that runs one command after a live decision.
  A process is what it does: whether it can be spawned, what its pipes give, read by read, how it ends, and whether
  the time limit comes first. The events are what the tool does to processes. Proved: nothing is started
  without an allowing decision and valid arguments, the started shell has no sensitive variable, its process group
  is killed exactly once, and what is kept of a stream does not depend on how its bytes arrive.
\<close>

section \<open>Arguments\<close>

definition terminal_tool_name :: string where "terminal_tool_name = ''terminal''"
definition default_timeout_ms :: nat where "default_timeout_ms = 120000"
definition max_timeout_ms :: nat where "max_timeout_ms = 600000"
definition max_command_chars :: nat where "max_command_chars = 16000"
definition max_stream_bytes :: nat where "max_stream_bytes = 100000"

definition terminal_schema :: json where
  "terminal_schema =
     jobject [(''type'', JString ''function''),
       (''function'', jobject [(''name'', JString terminal_tool_name),
          (''description'', JString ''Run one shell command from the configured workspace root after explicit user approval. The command may read, write, start processes, or access the network. Use at most one terminal call in a response.''),
          (''parameters'', jobject [(''type'', JString ''object''),
             (''properties'', jobject
                [(''command'', jobject [(''type'', JString ''string''),
                    (''description'', JString ''Exact shell command shown to the user for approval.''),
                    (''minLength'', jnat 1), (''maxLength'', jnat max_command_chars)]),
                 (''timeout_ms'', jobject [(''type'', JString ''integer''), (''minimum'', jnat 1),
                    (''maximum'', jnat max_timeout_ms), (''default'', jnat default_timeout_ms)])]),
             (''required'', JArray [JString ''command'']),
             (''additionalProperties'', JBool False)])])]"

record terminal_args =
  ta_command :: string
  ta_timeout_ms :: u64

text \<open>The argument is the derived decoder, with the \<open>Display\<close> text of its error.\<close>

definition terminal_decode :: "(json \<Rightarrow> string + terminal_args) \<Rightarrow> planned_tool_call \<Rightarrow> string + terminal_args" where
  "terminal_decode from_value plan =
     and_then (map_err (\<lambda>error. ''invalid terminal arguments: '' @ error) (from_value (JObject (pl_arguments plan))))
       (\<lambda>arguments.
     and_then (ensure (\<not> (ta_command arguments = [] \<or> trim (ta_command arguments) \<noteq> ta_command arguments))
                 ''terminal command must be non-empty with no surrounding whitespace'') (\<lambda>_.
     and_then (ensure (\<not> char_count (ta_command arguments) > max_command_chars)
                 (''terminal command exceeds '' @ show_nat max_command_chars @ '' characters'')) (\<lambda>_.
     and_then (ensure (\<not> (ta_timeout_ms arguments = 0 \<or> unat (ta_timeout_ms arguments) > max_timeout_ms))
                 (''terminal timeout_ms must be between 1 and '' @ show_nat max_timeout_ms)) (\<lambda>_.
     Ok arguments))))"

definition approval_command :: "(json \<Rightarrow> string + terminal_args) \<Rightarrow> planned_tool_call \<Rightarrow> string + string" where
  "approval_command from_value plan = and_then (terminal_decode from_value plan) (\<lambda>arguments. Ok (ta_command arguments))"

section \<open>Processes\<close>

record shell_spec =
  ss_program :: string
  ss_args :: "string list"
  ss_process_group :: nat
  ss_current_dir :: string
  ss_env_removed :: "string list"

datatype exit_status = Exited int | Signalled

definition exit_success :: "exit_status \<Rightarrow> bool" where
  "exit_success status \<longleftrightarrow> status = Exited 0"

text \<open>Errors of the system are their texts; a pipe is the results of its reads up to the end of the stream.\<close>

record shell_child =
  sc_id :: "nat option"
  sc_stdout :: "(string + string) list option"
  sc_stderr :: "(string + string) list option"
  sc_wait :: "string + exit_status"
  sc_times_out :: bool

record shell_env =
  se_vars :: "string list"
  se_spawn :: "shell_spec \<Rightarrow> string + shell_child"
  se_terminal_args :: "json \<Rightarrow> string + terminal_args"

datatype shell_event = Spawned shell_spec | GroupKilled nat | ChildKilled

definition sensitive_environment_name :: "string \<Rightarrow> bool" where
  "sensitive_environment_name name \<longleftrightarrow>
     list_ex (str_contains (to_ascii_uppercase (to_string_lossy name)))
       [''API_KEY'', ''AUTH'', ''CREDENTIAL'', ''PASSWORD'', ''PASSWD'', ''SECRET'', ''TOKEN'']"

definition shell_command :: "string \<Rightarrow> string \<Rightarrow> string list \<Rightarrow> shell_spec" where
  "shell_command command root vars =
     \<lparr>ss_program = ''/bin/sh'', ss_args = [''-c'', command], ss_process_group = 0, ss_current_dir = root,
      ss_env_removed = filter sensitive_environment_name vars\<rparr>"

text \<open>\<open>ProcessGroupGuard\<close>: terminating takes the identity, so the drop after it does nothing.\<close>

definition guard_terminate :: "nat option \<Rightarrow> shell_event list" where
  "guard_terminate guard = (case guard of None \<Rightarrow> [] | Some process_group_id \<Rightarrow> [GroupKilled process_group_id])"

record captured_stream =
  cs_bytes :: string
  cs_truncated :: bool

fun read_bounded :: "string \<Rightarrow> bool \<Rightarrow> (string + string) list \<Rightarrow> string + captured_stream" where
  "read_bounded bytes truncated [] = Ok \<lparr>cs_bytes = bytes, cs_truncated = truncated\<rparr>"
| "read_bounded bytes truncated (Inl error # reads) = Err error"
| "read_bounded bytes truncated (Inr chunk # reads) =
     (if chunk = [] then Ok \<lparr>cs_bytes = bytes, cs_truncated = truncated\<rparr>
      else let remaining = max_stream_bytes - length bytes; retained = min remaining (length chunk) in
           read_bounded (bytes @ take retained chunk) (truncated \<or> retained < length chunk) reads)"

definition append_stream :: "string \<Rightarrow> string \<Rightarrow> captured_stream \<Rightarrow> string" where
  "append_stream rendered name stream =
     (if cs_bytes stream = [] \<and> \<not> cs_truncated stream then rendered
      else rendered @ (if rendered \<noteq> [] then [CHR 0x0A] else []) @ name @ '':'' @ [CHR 0x0A]
        @ to_string_lossy (cs_bytes stream)
        @ (if cs_truncated stream then [CHR 0x0A] @ ''[output truncated]'' else []))"

definition render_output :: "captured_stream \<Rightarrow> captured_stream \<Rightarrow> string \<Rightarrow> string" where
  "render_output stdout stderr code =
     (let rendered = append_stream (append_stream [] ''stdout'' stdout) ''stderr'' stderr in
      if rendered = [] then ''Command exited with status '' @ code @ '' and produced no output.'' else rendered)"

section \<open>Execution\<close>

definition shell_terminal :: "planned_tool_call \<Rightarrow> tool_result_status \<Rightarrow> string \<Rightarrow> string option \<Rightarrow> tool_terminal" where
  "shell_terminal plan status content receipt =
     \<lparr>tt_call_id = pl_call_id plan, tt_name = pl_name plan, tt_status = status, tt_content = content,
      tt_invocation_id = pl_invocation_id plan, tt_effect = ProcessControl, tt_receipt = receipt\<rparr>"

text \<open>The three futures that are joined; the first error in their order counts.\<close>

definition shell_completion ::
  "shell_child \<Rightarrow> (string + string) list \<Rightarrow> (string + string) list \<Rightarrow> string + exit_status \<times> captured_stream \<times> captured_stream" where
  "shell_completion child stdout stderr =
     and_then (sc_wait child) (\<lambda>status.
     and_then (read_bounded [] False stdout) (\<lambda>out.
     and_then (read_bounded [] False stderr) (\<lambda>err. Ok (status, out, err))))"

definition exit_code_text :: "exit_status \<Rightarrow> string" where
  "exit_code_text status = (case status of Exited code \<Rightarrow> show_int code | Signalled \<Rightarrow> ''signal'')"

text \<open>
  A child that is dropped without having been waited for is killed (\<open>kill_on_drop\<close>), after the guard, which was
  created later.
\<close>

definition run_shell :: "planned_tool_call \<Rightarrow> terminal_args \<Rightarrow> shell_child \<Rightarrow> tool_terminal \<times> shell_event list" where
  "run_shell plan arguments child =
     (let killed = guard_terminate (sc_id child) in
      case (sc_stdout child, sc_stderr child) of
        (None, _) \<Rightarrow> (shell_terminal plan Failed ''terminal command stdout was not captured'' None, killed @ [ChildKilled])
      | (Some _, None) \<Rightarrow> (shell_terminal plan Failed ''terminal command stderr was not captured'' None, killed @ [ChildKilled])
      | (Some stdout, Some stderr) \<Rightarrow>
          if sc_times_out child
          then (shell_terminal plan Failed
                  (''terminal command timed out after '' @ show_u64 (ta_timeout_ms arguments) @ '' ms'') None,
                killed @ [ChildKilled])
          else (case shell_completion child stdout stderr of
                  Inl error \<Rightarrow>
                    (shell_terminal plan Failed (''could not collect terminal command output: '' @ error) None,
                     killed @ (if is_ok (sc_wait child) then [] else [ChildKilled]))
                | Inr (exit_status, out, err) \<Rightarrow>
                    (shell_terminal plan (if exit_success exit_status then Succeeded else Failed)
                       (render_output out err (exit_code_text exit_status))
                       (Some (''exit:'' @ exit_code_text exit_status)),
                     killed)))"

definition terminal_execute ::
  "shell_env \<Rightarrow> string \<Rightarrow> planned_tool_call \<Rightarrow> approval_decision \<Rightarrow> tool_terminal \<times> shell_event list" where
  "terminal_execute se root plan decision =
     (if decision = Deny then (shell_terminal plan Rejected ''User denied terminal command approval.'' None, [])
      else (case terminal_decode (se_terminal_args se) plan of
              Inl error \<Rightarrow> (shell_terminal plan Failed error None, [])
            | Inr arguments \<Rightarrow>
                let spec = shell_command (ta_command arguments) root (se_vars se) in
                (case se_spawn se spec of
                   Inl error \<Rightarrow> (shell_terminal plan Failed (''could not execute terminal command: '' @ error) None, [])
                 | Inr child \<Rightarrow>
                     (case run_shell plan arguments child of (terminal, events) \<Rightarrow> (terminal, Spawned spec # events)))))"

section \<open>Lemmas\<close>

text \<open>What is kept of a stream is its beginning, however the bytes arrive.\<close>

lemma read_bounded_chunks:
  "\<forall>chunk \<in> set chunks. chunk \<noteq> [] \<Longrightarrow> length bytes \<le> max_stream_bytes \<Longrightarrow> truncated \<longrightarrow> length bytes = max_stream_bytes \<Longrightarrow>
     read_bounded bytes truncated (map Inr chunks)
     = Ok \<lparr>cs_bytes = take max_stream_bytes (bytes @ concat chunks),
            cs_truncated = (truncated \<or> length (bytes @ concat chunks) > max_stream_bytes)\<rparr>"
proof (induction chunks arbitrary: bytes truncated)
  case (Cons chunk chunks)
  define kept where "kept = bytes @ take (min (max_stream_bytes - length bytes) (length chunk)) chunk"
  define cut where "cut = (truncated \<or> min (max_stream_bytes - length bytes) (length chunk) < length chunk)"
  have kept: "kept = take max_stream_bytes (bytes @ chunk)" "length kept \<le> max_stream_bytes"
    using Cons.prems(2) by (auto simp: kept_def min_def)
  have cut: "cut \<longrightarrow> length kept = max_stream_bytes" "cut = (truncated \<or> length (bytes @ chunk) > max_stream_bytes)"
    using Cons.prems(2,3) by (auto simp: kept_def cut_def)
  have "read_bounded bytes truncated (map Inr (chunk # chunks)) = read_bounded kept cut (map Inr chunks)"
    using Cons.prems(1) by (simp add: kept_def cut_def Let_def)
  also have "\<dots> = Ok \<lparr>cs_bytes = take max_stream_bytes (kept @ concat chunks),
      cs_truncated = (cut \<or> length (kept @ concat chunks) > max_stream_bytes)\<rparr>"
    using Cons.prems(1) kept(2) cut(1) by (intro Cons.IH) auto
  also have "take max_stream_bytes (kept @ concat chunks) = take max_stream_bytes (bytes @ concat (chunk # chunks))"
    using kept(1) cut by (cases cut) (auto simp: min_def)
  also have "(cut \<or> length (kept @ concat chunks) > max_stream_bytes)
      = (truncated \<or> length (bytes @ concat (chunk # chunks)) > max_stream_bytes)"
    using kept cut Cons.prems(2,3) by (cases cut) auto
  finally show ?case .
qed simp

definition capture :: "string \<Rightarrow> captured_stream" where
  "capture bytes = \<lparr>cs_bytes = take max_stream_bytes bytes, cs_truncated = length bytes > max_stream_bytes\<rparr>"

lemma read_bounded_capture: "\<forall>chunk \<in> set chunks. chunk \<noteq> [] \<Longrightarrow> read_bounded [] False (map Inr chunks) = Ok (capture (concat chunks))"
  by (subst read_bounded_chunks) (simp_all add: capture_def)

text \<open>A command that ends in time reports the beginnings of its streams, and success exactly for exit code zero.\<close>

lemma finished_shell_output:
  assumes "sc_stdout child = Some (map Inr outs)" "sc_stderr child = Some (map Inr errs)"
    "\<forall>chunk \<in> set outs \<union> set errs. chunk \<noteq> []" "sc_wait child = Ok status" "\<not> sc_times_out child"
  shows "fst (run_shell plan arguments child) =
     shell_terminal plan (if exit_success status then Succeeded else Failed)
       (render_output (capture (concat outs)) (capture (concat errs)) (exit_code_text status))
       (Some (''exit:'' @ exit_code_text status))"
  using assms by (simp add: run_shell_def shell_completion_def read_bounded_capture Let_def)

lemma run_shell_events:
  "\<exists>dropped. snd (run_shell plan arguments child) = guard_terminate (sc_id child) @ dropped \<and> set dropped \<subseteq> {ChildKilled}"
  by (auto simp: run_shell_def Let_def split: option.split sum.split)

lemma run_shell_identity:
  "\<exists>status content receipt. fst (run_shell plan arguments child) = shell_terminal plan status content receipt
     \<and> status \<in> {Succeeded, Failed} \<and> (status = Succeeded \<longrightarrow> sc_wait child = Ok (Exited 0) \<and> \<not> sc_times_out child)"
  by (auto simp: run_shell_def shell_completion_def exit_success_def and_then_def Let_def
      split: option.splits sum.splits if_splits)

text \<open>
  C25. A command is started only after the user allowed it and its arguments are valid, once, through \<open>/bin/sh\<close> in the
  root directory, with every sensitive variable of the environment removed. Whatever the command does, its process
  group is killed exactly once, after the start. The terminal answers the call that was planned, as a controlled
  process, and reports success only when the command ended in time with exit code zero.
\<close>

theorem shell_runs_only_what_was_approved:
  assumes "terminal_execute se root plan decision = (t, events)"
  shows "(events = [] \<or>
      (\<exists>arguments child. let spec = shell_command (ta_command arguments) root (se_vars se) in
         decision = Allow \<and> terminal_decode (se_terminal_args se) plan = Ok arguments \<and> se_spawn se spec = Ok child
         \<and> events = Spawned spec # tl events \<and> (\<forall>other. Spawned other \<notin> set (tl events))
         \<and> (\<forall>name \<in> set (se_vars se). sensitive_environment_name name \<longrightarrow> name \<in> set (ss_env_removed spec))
         \<and> filter (\<lambda>e. \<exists>g. e = GroupKilled g) events = guard_terminate (sc_id child)
         \<and> (tt_status t = Succeeded \<longrightarrow> sc_wait child = Ok (Exited 0) \<and> \<not> sc_times_out child)))
    \<and> (events = [] \<longrightarrow> tt_status t \<in> {Rejected, Failed}) \<and> (decision = Deny \<longrightarrow> events = [] \<and> tt_status t = Rejected)
    \<and> tt_call_id t = pl_call_id plan \<and> tt_invocation_id t = pl_invocation_id plan \<and> tt_effect t = ProcessControl"
proof (cases "decision = Deny \<or> \<not> is_ok (terminal_decode (se_terminal_args se) plan)")
  case True
  then show ?thesis using assms
    by (cases decision) (auto simp: terminal_execute_def shell_terminal_def is_ok_def split: sum.splits)
next
  case False
  then obtain arguments where allow: "decision = Allow" and args: "terminal_decode (se_terminal_args se) plan = Ok arguments"
    by (cases decision) (auto simp: is_ok_def split: sum.splits)
  define spec where "spec = shell_command (ta_command arguments) root (se_vars se)"
  show ?thesis
  proof (cases "se_spawn se spec")
    case (Inl error)
    then show ?thesis using assms allow args
      by (auto simp: terminal_execute_def spec_def shell_terminal_def Let_def)
  next
    case (Inr child)
    obtain dropped where events: "snd (run_shell plan arguments child) = guard_terminate (sc_id child) @ dropped"
      "set dropped \<subseteq> {ChildKilled}" using run_shell_events by blast
    obtain status content receipt where terminal: "fst (run_shell plan arguments child) = shell_terminal plan status content receipt"
      "status = Succeeded \<longrightarrow> sc_wait child = Ok (Exited 0) \<and> \<not> sc_times_out child"
      using run_shell_identity by blast
    have eqs: "t = shell_terminal plan status content receipt" "events = Spawned spec # guard_terminate (sc_id child) @ dropped"
      using assms allow args Inr events(1) terminal(1)
      by (auto simp: terminal_execute_def spec_def Let_def split: prod.splits)
    have "filter (\<lambda>e. \<exists>g. e = GroupKilled g) dropped = []" "\<forall>other. Spawned other \<notin> set dropped"
      using events(2) by (auto simp: filter_empty_conv)
    moreover have "filter (\<lambda>e. \<exists>g. e = GroupKilled g) (guard_terminate (sc_id child)) = guard_terminate (sc_id child)"
      "\<forall>other. Spawned other \<notin> set (guard_terminate (sc_id child))"
      by (auto simp: guard_terminate_def split: option.split)
    moreover have "\<forall>name \<in> set (se_vars se). sensitive_environment_name name \<longrightarrow> name \<in> set (ss_env_removed spec)"
      by (simp add: spec_def shell_command_def)
    ultimately have started: "let spec = shell_command (ta_command arguments) root (se_vars se) in
         decision = Allow \<and> terminal_decode (se_terminal_args se) plan = Ok arguments \<and> se_spawn se spec = Ok child
         \<and> events = Spawned spec # tl events \<and> (\<forall>other. Spawned other \<notin> set (tl events))
         \<and> (\<forall>name \<in> set (se_vars se). sensitive_environment_name name \<longrightarrow> name \<in> set (ss_env_removed spec))
         \<and> filter (\<lambda>e. \<exists>g. e = GroupKilled g) events = guard_terminate (sc_id child)
         \<and> (tt_status t = Succeeded \<longrightarrow> sc_wait child = Ok (Exited 0) \<and> \<not> sc_times_out child)"
      using allow args Inr terminal(2) by (simp add: eqs spec_def [symmetric] shell_terminal_def)
    then show ?thesis using allow by (auto simp: eqs shell_terminal_def)
  qed
qed

definition sample_shell :: shell_env where
  "sample_shell =
     \<lparr>se_vars = [''PATH'', ''github_token''],
      se_spawn = (\<lambda>spec. Ok \<lparr>sc_id = Some 7, sc_stdout = Some [Inr ''hi''], sc_stderr = Some [], sc_wait = Ok (Exited 0),
                           sc_times_out = False\<rparr>),
      se_terminal_args = (\<lambda>json. case json_get json ''command'' of
         Some (JString command) \<Rightarrow> Ok \<lparr>ta_command = command, ta_timeout_ms = 120000\<rparr>
       | _ \<Rightarrow> Err ''missing field `command`'')\<rparr>"

definition sample_terminal_call :: planned_tool_call where
  "sample_terminal_call = \<lparr>pl_call_id = ToolCallId ''c'', pl_name = ''terminal'', pl_arguments = [(''command'', JString ''echo'')],
     pl_invocation_id = InvocationId ''i'', pl_effect = ProcessControl, pl_approval = None\<rparr>"

lemma sample_shell_runs:
  assumes "pl_arguments plan = [(''command'', JString ''echo'')]"
  shows "terminal_execute sample_shell ''/r'' plan Allow =
     (shell_terminal plan Succeeded (''stdout:'' @ [CHR 0x0A] @ ''hi'') (Some ''exit:0''),
      [Spawned \<lparr>ss_program = ''/bin/sh'', ss_args = [''-c'', ''echo''], ss_process_group = 0, ss_current_dir = ''/r'',
                ss_env_removed = [''github_token'']\<rparr>, GroupKilled 7])"
    "approval_command (se_terminal_args sample_shell) plan = Ok ''echo''"
proof -
  have "trim ''echo'' = ''echo''" by code_simp
  then have args: "terminal_decode (se_terminal_args sample_shell) plan = Ok \<lparr>ta_command = ''echo'', ta_timeout_ms = 120000\<rparr>"
    by (simp add: assms terminal_decode_def sample_shell_def btree_get_def ensure_def char_count_def
        max_command_chars_def max_timeout_ms_def)
  then show "approval_command (se_terminal_args sample_shell) plan = Ok ''echo''" by (simp add: approval_command_def)
  have env: "sensitive_environment_name ''github_token''" "\<not> sensitive_environment_name ''PATH''" by code_simp+
  have texts: "to_string_lossy ''hi'' = ''hi''" "show_int 0 = ''0''" by code_simp+
  show "terminal_execute sample_shell ''/r'' plan Allow =
     (shell_terminal plan Succeeded (''stdout:'' @ [CHR 0x0A] @ ''hi'') (Some ''exit:0''),
      [Spawned \<lparr>ss_program = ''/bin/sh'', ss_args = [''-c'', ''echo''], ss_process_group = 0, ss_current_dir = ''/r'',
                ss_env_removed = [''github_token'']\<rparr>, GroupKilled 7])"
    unfolding terminal_execute_def using args
    by (simp add: sample_shell_def shell_command_def env run_shell_def shell_completion_def max_stream_bytes_def
        exit_success_def render_output_def append_stream_def exit_code_text_def texts guard_terminate_def)
qed

lemma sample_terminal_arguments: "pl_arguments sample_terminal_call = [(''command'', JString ''echo'')]"
  by (simp add: sample_terminal_call_def)

lemma shell_runs_only_what_was_approved_witness:
  "snd (terminal_execute sample_shell ''/r'' sample_terminal_call Deny) = []
   \<and> tt_effect (fst (terminal_execute sample_shell ''/r'' sample_terminal_call Allow)) = ProcessControl"
  using shell_runs_only_what_was_approved [OF surjective_pairing, of sample_shell "''/r''" sample_terminal_call Deny]
    shell_runs_only_what_was_approved [OF sample_shell_runs(1) [OF sample_terminal_arguments]]
  by (simp add: sample_shell_runs(1) [OF sample_terminal_arguments])

end
