(* ===== verification/Agent_Tools.thy ===== *)
theory Agent_Tools
  imports Local_Tools Terminal_Tool Openai Journal Delegation_Store
begin

text \<open>
  \<open>apps/hermesd/src/adapters/agent_tools.rs\<close>: the tool broker of a session. It combines the read-only tools, the
  approved shell and the delegation of a task to a leaf agent, either run to its end inside the turn or queued in
  the database. The state of the broker includes what it shares: the registry of approvals, the database, the
  network and the processes. Opening a file, the clock and the decoding of arguments are parameters. Children of
  one response run concurrently but share only the effect ledger, each under a scope of its own; they are modelled
  one after the other in any order. Proved: a shell starts only after a live decision to allow it, and a
  child session has only the read-only tools.
\<close>

section \<open>Limits and texts\<close>

definition delegate_tool :: string where "delegate_tool = ''delegate_task''"

definition background_delegate_description :: string where
  "background_delegate_description = ''Queue one focused, independent subtask in a durable leaf-agent session. Return immediately with a task handle. The final result is delivered exactly once with a later explicit user turn; the child cannot delegate or modify files.''"

definition max_goal_chars :: nat where "max_goal_chars = 16000"
definition max_context_chars :: nat where "max_context_chars = 32000"
definition max_delegated_result_chars :: nat where "max_delegated_result_chars = 32000"
definition child_max_attempts :: nat where "child_max_attempts = 32"

text \<open>\<open>value.chars().take(n)\<close> of a text.\<close>

fun take_chars :: "nat \<Rightarrow> string \<Rightarrow> string" where
  "take_chars n [] = []"
| "take_chars n (c # cs) =
     (if continuation_byte c then c # take_chars n cs
      else case n of 0 \<Rightarrow> [] | Suc m \<Rightarrow> c # take_chars m cs)"

definition bounded_result :: "string \<Rightarrow> string" where
  "bounded_result value =
     (if char_count value \<le> max_delegated_result_chars then value
      else take_chars max_delegated_result_chars value @ [CHR 0x0A] @ ''[delegated result truncated]'')"

section \<open>Configuration\<close>

datatype agent_tools_config_error =
    AgentLocal local_tools_config_error
  | AgentProvider openai_config_error
  | InvalidModel

fun agent_tools_config_error_text :: "agent_tools_config_error \<Rightarrow> string" where
  "agent_tools_config_error_text (AgentLocal e) = local_tools_config_error_text e"
| "agent_tools_config_error_text (AgentProvider e) = openai_config_error_text e"
| "agent_tools_config_error_text InvalidModel = ''delegation model must be non-empty and have no surrounding whitespace''"

record agent_tools_config =
  gc_base_url :: string
  gc_api_key :: "string option"
  gc_model :: string
  gc_root :: string
  gc_state :: string
  gc_delegation_enabled :: bool
  gc_background_parent :: "session_id option"
  gc_terminal_approval :: "session_id option"

definition agent_config_new ::
  "url_crate \<Rightarrow> string \<Rightarrow> string \<Rightarrow> string \<Rightarrow> string option \<Rightarrow> string \<Rightarrow> bool \<Rightarrow> agent_tools_config_error + agent_tools_config" where
  "agent_config_new uc root state base_url api_key model delegation_enabled =
     and_then (map_err AgentProvider (validate_base_url uc base_url)) (\<lambda>_.
     and_then (ensure (\<not> (model = [] \<or> trim model \<noteq> model)) InvalidModel) (\<lambda>_.
     Ok \<lparr>gc_base_url = base_url, gc_api_key = api_key, gc_model = model, gc_root = root, gc_state = state,
         gc_delegation_enabled = delegation_enabled, gc_background_parent = None, gc_terminal_approval = None\<rparr>))"

definition agent_config_without_delegation :: "string \<Rightarrow> string \<Rightarrow> string \<Rightarrow> agent_tools_config_error + agent_tools_config" where
  "agent_config_without_delegation root state model =
     and_then (ensure (\<not> (model = [] \<or> trim model \<noteq> model)) InvalidModel) (\<lambda>_.
     Ok \<lparr>gc_base_url = [], gc_api_key = None, gc_model = model, gc_root = root, gc_state = state,
         gc_delegation_enabled = False, gc_background_parent = None, gc_terminal_approval = None\<rparr>)"

definition with_background_parent :: "session_id \<Rightarrow> agent_tools_config \<Rightarrow> agent_tools_config" where
  "with_background_parent parent_session_id c = c\<lparr>gc_background_parent := Some parent_session_id\<rparr>"

definition with_terminal_approval :: "session_id \<Rightarrow> agent_tools_config \<Rightarrow> agent_tools_config" where
  "with_terminal_approval session_id c = c\<lparr>gc_terminal_approval := Some session_id\<rparr>"

section \<open>State\<close>

record 'h agent_tools =
  ag_local :: read_only_local_tools
  ag_config :: agent_tools_config
  ag_pending :: "(tool_call_id \<times> nat) list"
  ag_registered :: "tool_call_id list"
  ag_approvals :: approval_control
  ag_db :: database
  ag_http :: 'h
  ag_shell :: "shell_event list"

record delegate_args =
  dg_goal :: string
  dg_context :: "string option"

text \<open>
  \<open>ae_wait\<close> is what the rest of the program does to the registry while a waiter sleeps, \<open>ae_order\<close> the order in
  which concurrent children end; a \<open>Some\<close> of the \<open>ae_open\<close> fields is the text of a failure to open the database.
\<close>

record 'h agent_env =
  ae_local :: local_env
  ae_shell :: shell_env
  ae_url :: url_crate
  ae_client :: "string option"
  ae_http :: "'h http_client"
  ae_parse :: "string \<Rightarrow> string + chat_completion_chunk"
  ae_text :: runtime_text
  ae_serde :: serde
  ae_delegate_args :: "json \<Rightarrow> string + delegate_args"
  ae_wait :: "nat \<Rightarrow> approval_control \<Rightarrow> approval_control"
  ae_order :: "planned_tool_call list \<Rightarrow> planned_tool_call list"
  ae_open_sessions :: "string option"
  ae_open_ledger :: "string option"
  ae_open_delegations :: "string option"
  ae_now_ms :: "delegation_store_error + u64"
  ae_unixepoch :: i64
  ae_planned_at :: "planned_tool_call \<Rightarrow> i64"
  ae_completed_at :: "tool_terminal \<Rightarrow> i64"

type_synonym ('h, 'e, 'a) agent_action = "('h agent_tools, 'e, 'a) action"

definition on_db :: "('e, 'a) db_action \<Rightarrow> ('h, 'e, 'a) agent_action" where
  "on_db m = act_zoom ag_db (\<lambda>d s. s\<lparr>ag_db := d\<rparr>) m"

definition on_approvals :: "'a approval_action \<Rightarrow> ('h, approval_control_error, 'a) agent_action" where
  "on_approvals m = act_zoom ag_approvals (\<lambda>a s. s\<lparr>ag_approvals := a\<rparr>) m"

definition open_file :: "string option \<Rightarrow> ('h, string, unit) agent_action" where
  "open_file failure = (case failure of None \<Rightarrow> act_return () | Some error \<Rightarrow> act_lift (Err error))"

definition agent_tools_new ::
  "'h agent_env \<Rightarrow> agent_tools_config \<Rightarrow> string \<Rightarrow> approval_control \<Rightarrow> database \<Rightarrow> 'h \<Rightarrow> agent_tools_config_error + 'h agent_tools" where
  "agent_tools_new ae config execution_scope approvals db http =
     and_then (map_err AgentLocal (local_tools_new (ae_local ae) (gc_root config) execution_scope)) (\<lambda>local.
     Ok \<lparr>ag_local = local, ag_config = config, ag_pending = [], ag_registered = [], ag_approvals = approvals,
         ag_db = db, ag_http = http, ag_shell = []\<rparr>)"

section \<open>Catalogs\<close>

definition delegate_schema :: json where
  "delegate_schema =
     jobject [(''type'', JString ''function''),
       (''function'', jobject [(''name'', JString delegate_tool),
          (''description'', JString ''Run one focused, independent subtask in a fresh leaf-agent context. The child can inspect the same workspace with read-only tools but cannot delegate or modify files. Use separate calls in one response to run independent subtasks concurrently.''),
          (''parameters'', jobject [(''type'', JString ''object''),
             (''properties'', jobject
                [(''goal'', jobject [(''type'', JString ''string''),
                    (''description'', JString ''Specific, self-contained task for the child.''),
                    (''minLength'', jnat 1), (''maxLength'', jnat max_goal_chars)]),
                 (''context'', jobject [(''type'', JString ''string''),
                    (''description'', JString ''Only the additional context the child needs; parent history is not inherited.''),
                    (''maxLength'', jnat max_context_chars)])]),
             (''required'', JArray [JString ''goal'']),
             (''additionalProperties'', JBool False)])])]"

definition agent_catalog :: "json list" where
  "agent_catalog = local_catalog @ [delegate_schema]"

text \<open>The description of the last tool is replaced, where it is an object with a function.\<close>

fun redescribed :: "json \<Rightarrow> json" where
  "redescribed (JObject tool) =
     (case btree_get tool ''function'' of
        Some (JObject function) \<Rightarrow>
          JObject (btree_insert ''function''
            (JObject (btree_insert ''description'' (JString background_delegate_description) function)) tool)
      | _ \<Rightarrow> JObject tool)"
| "redescribed other = other"

definition background_catalog :: "json list" where
  "background_catalog =
     (let tools = agent_catalog in
      (if tools = [] then [] else butlast tools @ [redescribed (last tools)]) @ [terminal_schema])"

definition operator_catalog :: "json list" where
  "operator_catalog = local_catalog @ [terminal_schema]"

definition function_field :: "string \<Rightarrow> json \<Rightarrow> string option" where
  "function_field field tool =
     Option.bind (json_get tool ''function'') (\<lambda>function. Option.bind (json_get function field) json_as_str)"

definition catalog_uses_background_delivery :: "json list \<Rightarrow> bool" where
  "catalog_uses_background_delivery catalog \<longleftrightarrow>
     list_ex (\<lambda>tool. function_field ''name'' tool = Some delegate_tool
       \<and> function_field ''description'' tool = Some background_delegate_description) catalog"

definition catalog_enables_delegation :: "json list \<Rightarrow> bool" where
  "catalog_enables_delegation catalog \<longleftrightarrow> list_ex (\<lambda>tool. function_field ''name'' tool = Some delegate_tool) catalog"

definition catalog_enables_terminal :: "json list \<Rightarrow> bool" where
  "catalog_enables_terminal catalog \<longleftrightarrow> list_ex (\<lambda>tool. function_field ''name'' tool = Some terminal_tool_name) catalog"

section \<open>Planning and approvals\<close>

definition is_terminal_call :: "agent_tools_config \<Rightarrow> string \<Rightarrow> bool" where
  "is_terminal_call config name \<longleftrightarrow> gc_terminal_approval config \<noteq> None \<and> name = terminal_tool_name"

definition is_delegate_call :: "agent_tools_config \<Rightarrow> string \<Rightarrow> bool" where
  "is_delegate_call config name \<longleftrightarrow> gc_delegation_enabled config \<and> name = delegate_tool"

definition gateway_approval :: approval_record where
  "gateway_approval = \<lparr>ap_required = True, ap_decision = ''pending'', ap_principal = ''gateway_user''\<rparr>"

definition plan_of :: "tool_call \<Rightarrow> invocation_id \<Rightarrow> tool_effect \<Rightarrow> approval_record option \<Rightarrow> planned_tool_call" where
  "plan_of call invocation_id effect approval =
     \<lparr>pl_call_id = tc_id call, pl_name = tc_name call, pl_arguments = tc_arguments call, pl_invocation_id = invocation_id,
      pl_effect = effect, pl_approval = approval\<rparr>"

definition register_terminal ::
  "'h agent_env \<Rightarrow> session_id \<Rightarrow> tool_call \<Rightarrow> invocation_id \<Rightarrow> ('h, tool_broker_error, unit) agent_action" where
  "register_terminal ae session_id call invocation_id =
     act_bind (act_lift (map_err ToolBrokerError
       (approval_command (se_terminal_args (ae_shell ae)) (plan_of call invocation_id ProcessControl None)))) (\<lambda>_.
     act_bind (act_map_err (ToolBrokerError \<circ> approval_control_error_text (le_debug_str (ae_local ae)))
       (on_approvals (approval_register session_id (tc_id call)))) (\<lambda>receiver.
     act_update (\<lambda>s. s\<lparr>ag_pending := AList.update (tc_id call) receiver (ag_pending s),
                       ag_registered := List.insert (tc_id call) (ag_registered s)\<rparr>)))"

definition plan_agent_call ::
  "'h agent_env \<Rightarrow> agent_tools_config \<Rightarrow> tool_call \<Rightarrow> invocation_id \<Rightarrow> ('h, tool_broker_error, planned_tool_call) agent_action" where
  "plan_agent_call ae config call invocation_id =
     (if is_delegate_call config (tc_name call) then act_return (plan_of call invocation_id ModelInference None)
      else (case gc_terminal_approval config of
              Some session_id \<Rightarrow>
                if tc_name call = terminal_tool_name
                then act_bind (register_terminal ae session_id call invocation_id) (\<lambda>_.
                       act_return (plan_of call invocation_id ProcessControl (Some gateway_approval)))
                else act_return (plan_of call invocation_id ReadOnly None)
            | None \<Rightarrow> act_return (plan_of call invocation_id ReadOnly None)))"

fun plan_agent_calls ::
  "'h agent_env \<Rightarrow> agent_tools_config \<Rightarrow> tool_call_id set \<Rightarrow> (tool_call \<times> invocation_id) list
     \<Rightarrow> ('h, tool_broker_error, planned_tool_call list) agent_action" where
  "plan_agent_calls ae config seen [] = act_return []"
| "plan_agent_calls ae config seen ((call, invocation_id) # rest) =
     (if tc_id call \<in> seen
      then act_lift (Err (ToolBrokerError (''duplicate tool call id '' @ tool_call_id_str (tc_id call))))
      else act_bind (plan_agent_call ae config call invocation_id) (\<lambda>plan.
           act_bind (plan_agent_calls ae config (insert (tc_id call) seen) rest) (\<lambda>plans.
           act_return (plan # plans))))"

definition agent_plan ::
  "'h agent_env \<Rightarrow> tool_call list \<Rightarrow> invocation_id list \<Rightarrow> ('h, tool_broker_error, planned_tool_call list) agent_action" where
  "agent_plan ae calls invocation_ids =
     (if length calls \<noteq> length invocation_ids
      then act_lift (Err (ToolBrokerError ''kernel invocation identities must align with model calls''))
      else act_bind (act_read ag_config) (\<lambda>config.
        if length (filter (\<lambda>call. is_terminal_call config (tc_name call)) calls) > 1
        then act_lift (Err (ToolBrokerError ''only one terminal call may be approved in a provider response''))
        else plan_agent_calls ae config {} (zip calls invocation_ids)))"

text \<open>Waiting for a decision; a sender that went away counts as a denial.\<close>

definition channel_decision :: "channel \<Rightarrow> approval_decision" where
  "channel_decision c = (case c of Delivered d \<Rightarrow> d | _ \<Rightarrow> Deny)"

definition await_decision :: "'h agent_env \<Rightarrow> nat \<Rightarrow> ('h, tool_broker_error, approval_decision) agent_action" where
  "await_decision ae receiver =
     act_bind (act_update (\<lambda>s. s\<lparr>ag_approvals := ae_wait ae receiver (ag_approvals s)\<rparr>)) (\<lambda>_.
     act_read (\<lambda>s. channel_decision (ac_channels (ag_approvals s) ! receiver)))"

definition decide_plan :: "approval_decision \<Rightarrow> planned_tool_call \<Rightarrow> planned_tool_call" where
  "decide_plan decision plan =
     plan\<lparr>pl_approval := map_option (\<lambda>a. a\<lparr>ap_decision := approval_decision_str decision\<rparr>) (pl_approval plan)\<rparr>"

definition resolve_agent_plan :: "'h agent_env \<Rightarrow> planned_tool_call \<Rightarrow> ('h, tool_broker_error, planned_tool_call) agent_action" where
  "resolve_agent_plan ae plan =
     (if \<not> plan_pending plan then act_return plan
      else act_bind (act_read ag_pending) (\<lambda>pending.
           act_bind (act_update (\<lambda>s. s\<lparr>ag_pending := AList.delete (pl_call_id plan) pending\<rparr>)) (\<lambda>_.
           act_bind (act_lift (ok_or (ToolBrokerError (''tool call '' @ tool_call_id_str (pl_call_id plan)
                                        @ '' has no live approval waiter'')) (map_of pending (pl_call_id plan)))) (\<lambda>receiver.
           act_bind (await_decision ae receiver) (\<lambda>decision.
           act_return (decide_plan decision plan))))))"

definition agent_resolve_approvals ::
  "'h agent_env \<Rightarrow> planned_tool_call list \<Rightarrow> ('h, tool_broker_error, planned_tool_call list) agent_action" where
  "agent_resolve_approvals ae calls = act_collect (resolve_agent_plan ae) calls"

text \<open>Dropping the tools: registered waiters are removed, then the receivers go.\<close>

definition agent_tools_drop :: "'h agent_tools \<Rightarrow> approval_control" where
  "agent_tools_drop s =
     fold (drop_receiver \<circ> snd) (ag_pending s)
       (case gc_terminal_approval (ag_config s) of
          None \<Rightarrow> ag_approvals s
        | Some session_id \<Rightarrow> fold (approval_remove session_id) (ag_registered s) (ag_approvals s))"

section \<open>Delegation\<close>

definition validate_delegate_args :: "delegate_args \<Rightarrow> string + delegate_args" where
  "validate_delegate_args arguments =
     and_then (ensure (\<not> (dg_goal arguments = [] \<or> trim (dg_goal arguments) \<noteq> dg_goal arguments))
                 ''delegate_task goal must be non-empty and have no surrounding whitespace'') (\<lambda>_.
     and_then (ensure (\<not> char_count (dg_goal arguments) > max_goal_chars)
                 (''delegate_task goal exceeds '' @ show_nat max_goal_chars @ '' characters'')) (\<lambda>_.
     and_then (ensure (\<not> (case dg_context arguments of None \<Rightarrow> False | Some context \<Rightarrow> char_count context > max_context_chars))
                 (''delegate_task context exceeds '' @ show_nat max_context_chars @ '' characters'')) (\<lambda>_.
     Ok arguments)))"

definition decode_delegate_args :: "'h agent_env \<Rightarrow> tool_arguments \<Rightarrow> string + delegate_args" where
  "decode_delegate_args ae arguments =
     map_err (\<lambda>error. ''invalid delegate_task arguments: '' @ error) (ae_delegate_args ae (JObject arguments))"

definition child_system_prompt :: "string \<Rightarrow> delegate_args \<Rightarrow> string" where
  "child_system_prompt root arguments =
     ''You are a focused leaf subagent. You cannot delegate, interact with the user, or modify files. Inspect the workspace at ''
     @ to_string_lossy root @ '' with read-only tools when useful.'' @ [CHR 0x0A, CHR 0x0A] @ ''TASK:'' @ [CHR 0x0A] @ dg_goal arguments
     @ (case dg_context arguments of
          Some context \<Rightarrow> if context \<noteq> [] then [CHR 0x0A, CHR 0x0A] @ ''CONTEXT:'' @ [CHR 0x0A] @ context else []
        | None \<Rightarrow> [])"

text \<open>The configuration of the child session: the parent's engine and endpoint, the read-only catalog.\<close>

definition child_manifest :: "serde \<Rightarrow> prompt_manifest \<Rightarrow> string \<Rightarrow> json list \<Rightarrow> string + prompt_manifest" where
  "child_manifest sx parent system_prompt tools =
     and_then (map_err prompt_manifest_error_text (engine_id_new (engine_id_str (pm_engine parent)))) (\<lambda>engine.
     and_then (map_err prompt_manifest_error_text (manifest_digest_new (sx_sha256 sx system_prompt))) (\<lambda>prompt_digest.
     and_then (cd_enc (sx_tools sx) tools) (\<lambda>encoded.
     and_then (map_err prompt_manifest_error_text (manifest_digest_new (sx_sha256 sx encoded))) (\<lambda>tools_digest.
     map_err prompt_manifest_error_text (prompt_manifest_new 1 engine prompt_digest tools_digest)))))"

definition child_session_config :: "serde \<Rightarrow> session_config \<Rightarrow> session_id \<Rightarrow> string \<Rightarrow> string + session_config" where
  "child_session_config sx parent child_session_id system_prompt =
     and_then (map_err id_error_text (lineage_id_new (session_id_str child_session_id))) (\<lambda>lineage_id.
     and_then (child_manifest sx (sc_prompt_manifest parent) system_prompt local_catalog) (\<lambda>manifest.
     Ok \<lparr>sc_session_id = child_session_id, sc_lineage_id = lineage_id, sc_prompt_manifest = manifest,
         sc_engine_config = sc_engine_config parent, sc_transport = sc_transport parent,
         sc_provider_adapter = sc_provider_adapter parent, sc_base_url = sc_base_url parent,
         sc_api_key_env = sc_api_key_env parent, sc_model = sc_model parent, sc_tool_root = sc_tool_root parent,
         sc_system_prompt = system_prompt, sc_tools = local_catalog\<rparr>))"

definition queued_text :: "delegation_id \<Rightarrow> string" where
  "queued_text delegation_id = ''Queued background delegation '' @ delegation_id_str delegation_id
     @ ''. Its result will be delivered with a later explicit user turn.''"

definition enqueue_child ::
  "'h agent_env \<Rightarrow> agent_tools_config \<Rightarrow> planned_tool_call \<Rightarrow> delegate_args \<Rightarrow> ('h, string, string) agent_action" where
  "enqueue_child ae config plan arguments =
     (let sx = ae_serde ae; identity = sx_sha256 sx (invocation_id_str (pl_invocation_id plan));
          system_prompt = child_system_prompt (gc_root config) arguments in
      act_bind (act_lift (ok_or ''background delegation has no parent session'' (gc_background_parent config))) (\<lambda>parent_session_id.
      act_bind (act_lift (map_err id_error_text (delegation_id_new (''delegation-'' @ identity)))) (\<lambda>delegation_id.
      act_bind (act_lift (map_err id_error_text (completion_event_id_new (''completion-'' @ identity)))) (\<lambda>completion_event_id.
      act_bind (act_lift (map_err id_error_text (session_id_new (''child-'' @ identity)))) (\<lambda>child_session_id.
      act_bind (open_file (map_option (\<lambda>error. ''could not open parent session: '' @ error) (ae_open_sessions ae))) (\<lambda>_.
      act_bind (act_map_err (\<lambda>error. ''could not load parent session: '' @ session_store_error_text error)
                  (on_db (session_load sx parent_session_id))) (\<lambda>parent.
      act_bind (act_lift (child_session_config sx (ss_config parent) child_session_id system_prompt)) (\<lambda>child_config.
      act_bind (open_file (map_option (\<lambda>error. ''could not durably queue delegation: '' @ error) (ae_open_delegations ae))) (\<lambda>_.
      act_bind (act_map_err (\<lambda>error. ''could not durably queue delegation: '' @ delegation_store_error_text error)
        (act_bind (act_lift (ae_now_ms ae)) (\<lambda>now_ms.
         on_db (create_with_child sx (ae_unixepoch ae) child_config
           \<lparr>ds_delegation_id = delegation_id, ds_completion_event_id = completion_event_id,
            ds_parent_session_id = parent_session_id, ds_child_session_id = child_session_id,
            ds_goal = dg_goal arguments, ds_context = dg_context arguments\<rparr> now_ms)))) (\<lambda>_.
      act_return (queued_text delegation_id)))))))))))"

definition openai_new :: "'h agent_env \<Rightarrow> string \<Rightarrow> string option \<Rightarrow> 'h \<Rightarrow> openai_config_error + 'h openai_provider" where
  "openai_new ae base_url api_key http =
     (case ae_client ae of
        Some error \<Rightarrow> Err (ClientError error)
      | None \<Rightarrow> openai_with_client (ae_url ae) base_url api_key http)"

definition child_request :: "agent_tools_config \<Rightarrow> string \<Rightarrow> delegate_args \<Rightarrow> agent_turn_request" where
  "child_request config child_scope arguments =
     \<lparr>ar_execution_scope = child_scope, ar_transport = ChatCompletions, ar_model = gc_model config,
      ar_system_prompt = Some (child_system_prompt (gc_root config) arguments),
      ar_conversation = [PUser ''Complete the assigned task and return a concise result for the parent agent.''],
      ar_tools = local_catalog\<rparr>"

text \<open>The turn of a child, on a provider and a journaled broker of its own.\<close>

definition child_turn ::
  "'h agent_env \<Rightarrow> 'h openai_provider \<Rightarrow> read_only_local_tools \<Rightarrow> string \<Rightarrow> agent_turn_request
     \<Rightarrow> ('h, runtime_error, contract_outcome) agent_action" where
  "child_turn ae provider local child_scope request s =
     (case run_turn_with_limit (ae_text ae) (openai_provider_port (ae_http ae) (ae_parse ae))
             (journaled_broker (local_tool_broker (ae_local ae))
               (sqlite_effect_ledger (ae_serde ae) (ae_planned_at ae) (ae_completed_at ae)) child_scope)
             request child_max_attempts
             (provider\<lparr>op_http := ag_http s\<rparr>, \<lparr>jb_inner = local, jb_ledger = ag_db s\<rparr>) of
        (r, (provider', tools')) \<Rightarrow> (r, s\<lparr>ag_http := op_http provider', ag_db := jb_ledger tools'\<rparr>))"

fun terminal_status_debug :: "terminal_status \<Rightarrow> string" where
  "terminal_status_debug StatusCompleted = ''Completed''"
| "terminal_status_debug StatusIncomplete = ''Incomplete''"
| "terminal_status_debug StatusFailed = ''Failed''"
| "terminal_status_debug StatusCancelled = ''Cancelled''"
| "terminal_status_debug StatusInterrupted = ''Interrupted''"

definition child_summary :: "terminal_outcome \<Rightarrow> string + string" where
  "child_summary outcome =
     and_then (ensure (to_status outcome = StatusCompleted)
       (''delegated turn ended with status '' @ terminal_status_debug (to_status outcome) @ '': ''
        @ (case to_reason outcome of None \<Rightarrow> ''no provider reason'' | Some reason \<Rightarrow> reason))) (\<lambda>_.
     ok_or ''delegated turn completed without a final response'' (to_final_response outcome))"

definition run_child ::
  "'h agent_env \<Rightarrow> agent_tools_config \<Rightarrow> planned_tool_call \<Rightarrow> delegate_args \<Rightarrow> ('h, string, string \<times> string) agent_action" where
  "run_child ae config plan arguments =
     (let child_scope = invocation_id_str (pl_invocation_id plan) @ '':child'' in
      act_bind (act_try (\<lambda>s. map_err (\<lambda>error. ''could not configure delegated provider: '' @ openai_config_error_text error)
                  (openai_new ae (gc_base_url config) (gc_api_key config) (ag_http s)))) (\<lambda>provider.
      act_bind (act_lift (map_err (\<lambda>error. ''could not configure delegated tools: '' @ local_tools_config_error_text error)
                  (local_tools_new (ae_local ae) (gc_root config) child_scope))) (\<lambda>local.
      act_bind (open_file (map_option (\<lambda>error. ''could not open delegated effect ledger: '' @ error) (ae_open_ledger ae))) (\<lambda>_.
      act_bind (act_lift (map_err (\<lambda>error. ''could not journal delegated tools: '' @ tool_broker_error_text error)
                  (journaled_new child_scope))) (\<lambda>_.
      act_bind (act_map_err (\<lambda>error. ''delegated runtime failed: '' @ runtime_error_text error)
                  (child_turn ae provider local child_scope (child_request config child_scope arguments))) (\<lambda>outcome.
      act_bind (act_lift (child_summary (co_terminal_outcome outcome))) (\<lambda>summary.
      act_return (summary, child_scope))))))))"

definition delegated_terminal :: "planned_tool_call \<Rightarrow> string + string \<times> string \<Rightarrow> tool_terminal" where
  "delegated_terminal plan outcome =
     (let (status, content, receipt) =
        (case outcome of
           Inr (summary, child_scope) \<Rightarrow> (Succeeded, bounded_result summary, Some child_scope)
         | Inl error \<Rightarrow> (Failed, bounded_result error, None)) in
      \<lparr>tt_call_id = pl_call_id plan, tt_name = pl_name plan, tt_status = status, tt_content = content,
       tt_invocation_id = pl_invocation_id plan, tt_effect = ModelInference, tt_receipt = receipt\<rparr>)"

definition execute_delegate ::
  "'h agent_env \<Rightarrow> agent_tools_config \<Rightarrow> planned_tool_call \<Rightarrow> ('h, tool_broker_error, tool_terminal) agent_action" where
  "execute_delegate ae config plan s =
     (case and_then (decode_delegate_args ae (pl_arguments plan)) validate_delegate_args of
        Inl error \<Rightarrow> (Ok (delegated_terminal plan (Err error)), s)
      | Inr arguments \<Rightarrow>
          (case (if gc_background_parent config \<noteq> None
                 then act_bind (enqueue_child ae config plan arguments) (\<lambda>handle. act_return (handle, handle)) s
                 else run_child ae config plan arguments s) of
             (outcome, s') \<Rightarrow> (Ok (delegated_terminal plan outcome), s')))"

section \<open>Execution\<close>

definition final_decision :: "planned_tool_call \<Rightarrow> tool_broker_error + approval_decision" where
  "final_decision plan =
     (case map_option ap_decision (pl_approval plan) of
        Some decision \<Rightarrow>
          if decision = ''allow'' then Ok Allow else if decision = ''deny'' then Ok Deny
          else Err (ToolBrokerError (''terminal call '' @ tool_call_id_str (pl_call_id plan) @ '' reached dispatch without a final approval''))
      | None \<Rightarrow> Err (ToolBrokerError (''terminal call '' @ tool_call_id_str (pl_call_id plan) @ '' reached dispatch without a final approval'')))"

definition execute_terminal_call :: "'h agent_env \<Rightarrow> planned_tool_call \<Rightarrow> ('h, tool_broker_error, tool_terminal) agent_action" where
  "execute_terminal_call ae plan =
     act_bind (act_lift (final_decision plan)) (\<lambda>decision.
     act_bind (act_read (\<lambda>s. terminal_execute (ae_shell ae) (lt_root (ag_local s)) plan decision)) (\<lambda>(terminal, events).
     act_bind (act_update (\<lambda>s. s\<lparr>ag_shell := ag_shell s @ events\<rparr>)) (\<lambda>_.
     act_return terminal)))"

definition agent_execute ::
  "'h agent_env \<Rightarrow> planned_tool_call list \<Rightarrow> ('h, tool_broker_error, tool_terminal list) agent_action" where
  "agent_execute ae calls =
     act_bind (act_read ag_config) (\<lambda>config.
     let delegated = filter (\<lambda>call. is_delegate_call config (pl_name call)) calls;
         remaining = filter (\<lambda>call. \<not> is_delegate_call config (pl_name call)) calls;
         terminal_calls = filter (\<lambda>call. is_terminal_call config (pl_name call)) remaining;
         local = filter (\<lambda>call. \<not> is_terminal_call config (pl_name call)) remaining in
     act_bind (act_zoom ag_local (\<lambda>l s. s\<lparr>ag_local := l\<rparr>) (local_execute (ae_local ae) local)) (\<lambda>completed.
     act_bind (act_collect (execute_terminal_call ae) terminal_calls) (\<lambda>terminals.
     act_bind (act_collect (execute_delegate ae config) (ae_order ae delegated)) (\<lambda>children.
     act_return (completed @ terminals @ children)))))"

definition agent_tool_broker :: "'h agent_env \<Rightarrow> 'h agent_tools tool_broker" where
  "agent_tool_broker ae =
     \<lparr>tb_plan = agent_plan ae, tb_resolve_approvals = agent_resolve_approvals ae, tb_execute = agent_execute ae\<rparr>"

section \<open>What an operation leaves alone\<close>

text \<open>Delegation touches the database and the network, planning the registry; neither touches processes.\<close>

definition same_processes :: "'h agent_tools \<Rightarrow> 'h agent_tools \<Rightarrow> bool" where
  "same_processes s s' \<longleftrightarrow> ag_shell s' = ag_shell s \<and> ag_config s' = ag_config s \<and> ag_local s' = ag_local s"

definition no_processes :: "('h, 'e, 'a) agent_action \<Rightarrow> bool" where
  "no_processes m \<longleftrightarrow> (\<forall>s. same_processes s (snd (m s)))"

lemma same_processes_refl [simp]: "same_processes s s"
  by (simp add: same_processes_def)

lemma same_processes_trans: "same_processes s t \<Longrightarrow> same_processes t u \<Longrightarrow> same_processes s u"
  by (simp add: same_processes_def)

lemma no_processesD: "no_processes m \<Longrightarrow> m s = (r, s') \<Longrightarrow> same_processes s s'"
  by (metis no_processes_def snd_conv)

lemma no_processes_basic [simp]:
  "no_processes (act_return x)" "no_processes (act_lift r)" "no_processes (act_read f)" "no_processes (act_try g)"
  "no_processes (open_file failure)" "no_processes (on_db m)" "no_processes (on_approvals a)"
  by (auto simp: no_processes_def act_return_def act_lift_def act_read_def act_try_def open_file_def on_db_def on_approvals_def
      act_zoom_def same_processes_def split: prod.split option.split)

lemma no_processes_update: "(\<And>s. same_processes s (f s)) \<Longrightarrow> no_processes (act_update f)"
  by (simp add: no_processes_def act_update_def)

lemma no_processes_bind [intro]:
  assumes "no_processes m" "\<And>x. no_processes (k x)"
  shows "no_processes (act_bind m k)"
proof -
  have "same_processes s (snd (act_bind m k s))" for s
  proof (cases "m s")
    case (Pair r t)
    then have "same_processes s t" using assms(1) by (rule no_processesD [rotated])
    moreover have "same_processes t (snd (k x t))" for x using assms(2) by (simp add: no_processes_def)
    ultimately show ?thesis using Pair by (cases r) (auto simp: act_bind_def intro: same_processes_trans)
  qed
  then show ?thesis by (simp add: no_processes_def)
qed

lemma no_processes_map_err [intro]: "no_processes m \<Longrightarrow> no_processes (act_map_err f m)"
  by (auto simp: no_processes_def act_map_err_def split: prod.splits) (metis snd_conv)

lemma no_processes_collect: "(\<And>x. no_processes (m x)) \<Longrightarrow> no_processes (act_collect m xs)"
  by (induction xs) (auto intro!: no_processes_bind)

lemma child_turn_no_processes: "no_processes (child_turn ae provider local child_scope request)"
  by (auto simp: no_processes_def child_turn_def same_processes_def split: prod.split)

lemma execute_delegate_no_processes: "no_processes (execute_delegate ae config plan)"
proof -
  have enqueue: "no_processes (act_bind (enqueue_child ae config plan arguments) (\<lambda>handle. act_return (handle, handle)))" for arguments
    unfolding enqueue_child_def Let_def by (intro no_processes_bind no_processes_map_err no_processes_basic)
  have run: "no_processes (run_child ae config plan arguments)" for arguments
    unfolding run_child_def Let_def
    by (intro no_processes_bind no_processes_map_err no_processes_basic child_turn_no_processes)
  have "same_processes s (snd (execute_delegate ae config plan s))" for s
  proof (cases "and_then (decode_delegate_args ae (pl_arguments plan)) validate_delegate_args")
    case (Inr arguments)
    let ?m = "if gc_background_parent config \<noteq> None
      then act_bind (enqueue_child ae config plan arguments) (\<lambda>handle. act_return (handle, handle))
      else run_child ae config plan arguments"
    have m: "no_processes ?m" using enqueue run by simp
    obtain r t where "?m s = (r, t)" by (cases "?m s")
    then show ?thesis using no_processesD [OF m, of s r t] Inr by (simp add: execute_delegate_def if_distribR)
  qed (simp add: execute_delegate_def)
  then show ?thesis by (simp add: no_processes_def)
qed

lemma plan_agent_call_no_processes: "no_processes (plan_agent_call ae config call invocation_id)"
  unfolding plan_agent_call_def register_terminal_def
  by (auto split: option.split simp: same_processes_def intro!: no_processes_bind no_processes_map_err no_processes_update)

lemma plan_agent_calls_no_processes: "no_processes (plan_agent_calls ae config seen calls)"
  by (induction ae config seen calls rule: plan_agent_calls.induct)
    (auto simp: plan_agent_call_no_processes intro!: no_processes_bind)

lemma agent_plan_no_processes: "no_processes (agent_plan ae calls invocation_ids)"
  by (auto simp: agent_plan_def plan_agent_calls_no_processes)

lemma resolve_no_processes: "no_processes (agent_resolve_approvals ae calls)"
  unfolding agent_resolve_approvals_def resolve_agent_plan_def await_decision_def
  by (intro no_processes_collect) (auto intro!: no_processes_bind no_processes_update simp: same_processes_def)

section \<open>From a call to a process\<close>

lemma register_returns_new_channel:
  "approval_register session call a = (Ok i, a') \<Longrightarrow> i = length (ac_channels a) \<and> length (ac_channels a) < length (ac_channels a')"
  by (auto simp: approval_register_def Let_def split: if_splits)

lemma register_queues_waiter:
  assumes "approval_register session call a = (Ok i, a')"
  shows "session_queue name a' = session_queue name a @ (if name = session_id_str session then [\<lparr>pa_call_id = call, pa_sender = i\<rparr>] else [])"
  using assms by (auto simp: approval_register_def Let_def session_queue_put split: if_splits)

text \<open>
  A planned terminal call has a waiter of its own in the queue of the session, under a channel that did not exist
  before, and the broker keeps the receiver of that channel; every other plan has no approval.
\<close>

definition waits_for :: "agent_tools_config \<Rightarrow> 'h agent_tools \<Rightarrow> nat \<Rightarrow> planned_tool_call \<Rightarrow> bool" where
  "waits_for config s n plan \<longleftrightarrow>
     (\<exists>session i. gc_terminal_approval config = Some session \<and> map_of (ag_pending s) (pl_call_id plan) = Some i \<and> n \<le> i
        \<and> \<lparr>pa_call_id = pl_call_id plan, pa_sender = i\<rparr> \<in> set (session_queue (session_id_str session) (ag_approvals s)))"

definition queues_grow :: "'h agent_tools \<Rightarrow> 'h agent_tools \<Rightarrow> bool" where
  "queues_grow s s' \<longleftrightarrow> length (ac_channels (ag_approvals s)) \<le> length (ac_channels (ag_approvals s'))
     \<and> (\<forall>name. set (session_queue name (ag_approvals s)) \<subseteq> set (session_queue name (ag_approvals s')))"

lemma queues_grow_trans: "queues_grow s t \<Longrightarrow> queues_grow t u \<Longrightarrow> queues_grow s u"
  by (fastforce simp: queues_grow_def)

lemma waits_for_later:
  assumes "waits_for config s n plan" "queues_grow s s'" "map_of (ag_pending s') (pl_call_id plan) = map_of (ag_pending s) (pl_call_id plan)"
  shows "waits_for config s' n plan"
  using assms by (auto simp: waits_for_def queues_grow_def)

lemma waits_for_mono: "waits_for config s n plan \<Longrightarrow> m \<le> n \<Longrightarrow> waits_for config s m plan"
  by (auto simp: waits_for_def)

definition planned_as :: "agent_tools_config \<Rightarrow> tool_call \<Rightarrow> planned_tool_call \<Rightarrow> bool" where
  "planned_as config call plan \<longleftrightarrow> pl_call_id plan = tc_id call \<and> pl_name plan = tc_name call \<and> pl_arguments plan = tc_arguments call
     \<and> (if \<not> is_delegate_call config (tc_name call) \<and> is_terminal_call config (tc_name call)
        then pl_approval plan = Some gateway_approval else pl_approval plan = None)"

lemma plan_agent_call_spec:
  assumes "plan_agent_call ae config call invocation_id s = (Ok plan, s')"
  shows "planned_as config call plan \<and> queues_grow s s'
     \<and> (plan_pending plan \<longrightarrow> waits_for config s' (length (ac_channels (ag_approvals s))) plan)
     \<and> (\<forall>k. k \<noteq> tc_id call \<longrightarrow> map_of (ag_pending s') k = map_of (ag_pending s) k)"
proof (cases "\<not> is_delegate_call config (tc_name call) \<and> is_terminal_call config (tc_name call)")
  case True
  then obtain session_id where t: "gc_terminal_approval config = Some session_id" "tc_name call = terminal_tool_name"
    by (auto simp: is_terminal_call_def)
  with assms True obtain i a' where reg: "approval_register session_id (tc_id call) (ag_approvals s) = (Ok i, a')"
    and s': "s' = s\<lparr>ag_approvals := a', ag_pending := AList.update (tc_id call) i (ag_pending s),
                     ag_registered := List.insert (tc_id call) (ag_registered s)\<rparr>"
    and plan: "plan = plan_of call invocation_id ProcessControl (Some gateway_approval)"
    by (auto simp: plan_agent_call_def register_terminal_def act_bind_ok act_lift_def act_return_def act_update_def
        act_map_err_def on_approvals_def act_zoom_def split: prod.splits sum.splits)
  show ?thesis
    using register_returns_new_channel [OF reg] register_queues_waiter [OF reg] True t(1)
    by (simp add: plan s' planned_as_def plan_of_def waits_for_def queues_grow_def update_conv')
next
  case False
  then have "plan_agent_call ae config call invocation_id s
      = (Ok (plan_of call invocation_id (if is_delegate_call config (tc_name call) then ModelInference else ReadOnly) None), s)"
    by (auto simp: plan_agent_call_def is_terminal_call_def act_return_def split: option.split)
  then show ?thesis using assms False by (auto simp: planned_as_def plan_of_def plan_pending_def queues_grow_def)
qed

lemma plan_agent_calls_spec:
  "plan_agent_calls ae config seen xs s = (Ok plans, s') \<Longrightarrow>
     list_all2 (planned_as config) (map fst xs) plans
     \<and> queues_grow s s'
     \<and> (\<forall>plan \<in> set plans. plan_pending plan \<longrightarrow> waits_for config s' (length (ac_channels (ag_approvals s))) plan)
     \<and> (\<forall>plan \<in> set plans. pl_call_id plan \<notin> seen)
     \<and> (\<forall>k \<in> seen. map_of (ag_pending s') k = map_of (ag_pending s) k)"
proof (induction ae config seen xs arbitrary: s plans rule: plan_agent_calls.induct)
  case (1 ae config seen)
  then show ?case by (simp add: act_return_def queues_grow_def)
next
  case (2 ae config seen call invocation_id rest)
  then obtain plan t plans' where run: "tc_id call \<notin> seen" "plan_agent_call ae config call invocation_id s = (Ok plan, t)"
    "plan_agent_calls ae config (insert (tc_id call) seen) rest t = (Ok plans', s')" "plans = plan # plans'"
    by (auto simp: act_bind_ok act_lift_def act_return_def split: if_splits)
  note one = plan_agent_call_spec [OF run(2)] and IH = 2(1) [OF run(1,3)]
  have same: "map_of (ag_pending s') (pl_call_id plan) = map_of (ag_pending t) (pl_call_id plan)"
    using one IH by (simp add: planned_as_def)
  have "waits_for config s' (length (ac_channels (ag_approvals s))) p" if "p \<in> set plans'" "plan_pending p" for p
    using IH one that by (auto simp: queues_grow_def intro: waits_for_mono)
  moreover have "plan_pending plan \<longrightarrow> waits_for config s' (length (ac_channels (ag_approvals s))) plan"
    using one IH same by (auto intro: waits_for_later)
  moreover have "map_of (ag_pending s') k = map_of (ag_pending s) k" if "k \<in> seen" for k
  proof -
    have "k \<noteq> tc_id call" using that run(1) by auto
    then show ?thesis using one IH that by simp
  qed
  moreover have "pl_call_id plan = tc_id call" using one by (simp add: planned_as_def)
  moreover have "queues_grow s s'" using one IH queues_grow_trans by blast
  ultimately show ?case using one IH run(1) by (auto simp: run(4))
qed

text \<open>Waiting: with one pending plan at most, the decision is what its channel says when the round of approvals ends.\<close>

definition resolved_as :: "'h agent_tools \<Rightarrow> 'h agent_tools \<Rightarrow> planned_tool_call \<Rightarrow> planned_tool_call \<Rightarrow> bool" where
  "resolved_as s s' plan resolved \<longleftrightarrow>
     (if plan_pending plan
      then \<exists>i. map_of (ag_pending s) (pl_call_id plan) = Some i
           \<and> resolved = decide_plan (channel_decision (ac_channels (ag_approvals s') ! i)) plan
      else resolved = plan)"

lemma resolve_settled: "list_all (\<lambda>p. \<not> plan_pending p) plans \<Longrightarrow> act_collect (resolve_agent_plan ae) plans s = (Ok plans, s)"
  by (induction plans) (simp_all add: resolve_agent_plan_def act_return_def act_bind_def)

lemma resolve_spec:
  "length (filter plan_pending plans) \<le> 1 \<Longrightarrow> act_collect (resolve_agent_plan ae) plans s = (Ok resolved, s') \<Longrightarrow>
     list_all2 (resolved_as s s') plans resolved"
proof (induction plans arbitrary: resolved)
  case Nil
  then show ?case by (simp add: act_return_def)
next
  case (Cons plan plans)
  show ?case
  proof (cases "plan_pending plan")
    case True
    then have "filter plan_pending plans = []" using Cons.prems(1) by simp
    then have rest: "list_all (\<lambda>p. \<not> plan_pending p) plans" by (simp add: filter_empty_conv list_all_iff)
    from Cons.prems(2) True resolve_settled [OF rest, of ae] obtain i where
      "map_of (ag_pending s) (pl_call_id plan) = Some i"
      "resolved = decide_plan (channel_decision (ac_channels (ag_approvals s') ! i)) plan # plans"
      by (auto simp: resolve_agent_plan_def [of ae plan] await_decision_def act_bind_ok act_lift_def act_return_def act_update_def
          act_read_def ok_or_def split: option.splits)
    moreover have "list_all2 (resolved_as s s') plans plans"
      using rest by (auto simp: list_all_iff resolved_as_def intro!: list.rel_refl_strong)
    ultimately show ?thesis using True by (simp add: resolved_as_def [of s s' plan])
  next
    case False
    then obtain rest where "act_collect (resolve_agent_plan ae) plans s = (Ok rest, s')" "resolved = plan # rest"
      using Cons.prems(2) by (auto simp: resolve_agent_plan_def [of ae plan] act_bind_ok act_return_def)
    then show ?thesis using Cons False by (simp add: resolved_as_def [of s s' plan])
  qed
qed

text \<open>Dispatch: every started shell belongs to a plan that was finally allowed.\<close>

lemma terminal_execute_spawns:
  assumes "terminal_execute se root plan decision = (t, events)" "Spawned spec \<in> set events"
  shows "decision = Allow \<and> (\<exists>arguments. terminal_decode (se_terminal_args se) plan = Ok arguments
     \<and> spec = shell_command (ta_command arguments) root (se_vars se))"
proof -
  have "Spawned spec \<notin> set (snd (run_shell plan arguments child))" for arguments child
    using run_shell_events [of plan arguments child] by (auto simp: guard_terminate_def split: option.splits)
  then have no_spawn: "Spawned spec \<in> set events' \<longrightarrow> run_shell plan arguments child \<noteq> (t', events')" for arguments child t' events'
    by (metis snd_conv)
  show ?thesis using assms no_spawn
    by (cases decision) (auto simp: terminal_execute_def Let_def split: if_splits sum.splits prod.splits)
qed

definition allowed_shell :: "'h agent_env \<Rightarrow> string \<Rightarrow> shell_spec \<Rightarrow> planned_tool_call \<Rightarrow> bool" where
  "allowed_shell ae root spec plan \<longleftrightarrow> final_decision plan = Ok Allow
     \<and> (\<exists>arguments. terminal_decode (se_terminal_args (ae_shell ae)) plan = Ok arguments
          \<and> spec = shell_command (ta_command arguments) root (se_vars (ae_shell ae)))"

lemma execute_terminal_calls_spec:
  "act_collect (execute_terminal_call ae) plans s = (r, s') \<Longrightarrow>
     ag_config s' = ag_config s \<and> ag_local s' = ag_local s
     \<and> (\<exists>new. ag_shell s' = ag_shell s @ new
          \<and> (\<forall>spec. Spawned spec \<in> set new \<longrightarrow> (\<exists>plan \<in> set plans. allowed_shell ae (lt_root (ag_local s)) spec plan)))"
proof (induction plans arbitrary: s r)
  case Nil
  then show ?case by (auto simp: act_return_def)
next
  case (Cons plan plans)
  show ?case
  proof (cases "final_decision plan")
    case (Inl e)
    then show ?thesis using Cons.prems by (auto simp: execute_terminal_call_def act_bind_def act_lift_def)
  next
    case (Inr decision)
    obtain t events where run: "terminal_execute (ae_shell ae) (lt_root (ag_local s)) plan decision = (t, events)"
      by (cases "terminal_execute (ae_shell ae) (lt_root (ag_local s)) plan decision")
    let ?s = "s\<lparr>ag_shell := ag_shell s @ events\<rparr>"
    obtain r' where rest: "act_collect (execute_terminal_call ae) plans ?s = (r', s')"
      using Cons.prems Inr run
      by (auto simp: execute_terminal_call_def [of ae plan] act_bind_def act_lift_def act_read_def act_update_def act_return_def
          split: prod.splits sum.splits)
    from Cons.IH [OF rest] obtain new where new: "ag_shell s' = ag_shell ?s @ new"
      "\<forall>spec. Spawned spec \<in> set new \<longrightarrow> (\<exists>plan \<in> set plans. allowed_shell ae (lt_root (ag_local s)) spec plan)"
      "ag_config s' = ag_config s" "ag_local s' = ag_local s" by auto
    have "allowed_shell ae (lt_root (ag_local s)) spec plan" if "Spawned spec \<in> set events" for spec
      using terminal_execute_spawns [OF run that] Inr by (simp add: allowed_shell_def)
    then show ?thesis using new by (auto intro!: exI [of _ "events @ new"])
  qed
qed

lemma filter_list_all2_le:
  "list_all2 R xs ys \<Longrightarrow> (\<And>x y. R x y \<Longrightarrow> P y \<Longrightarrow> Q x) \<Longrightarrow> length (filter P ys) \<le> length (filter Q xs)"
  by (induction rule: list_all2_induct) (auto simp: le_SucI)

lemma list_all2_right: "list_all2 R xs ys \<Longrightarrow> y \<in> set ys \<Longrightarrow> \<exists>x \<in> set xs. R x y"
  by (induction rule: list_all2_induct) auto

lemma final_decision_decided: "final_decision (decide_plan d p) = Ok Allow \<Longrightarrow> d = Allow"
  by (cases d) (auto simp: final_decision_def decide_plan_def split: option.splits)

lemma channel_decision_allow: "channel_decision c = Allow \<Longrightarrow> c = Delivered Allow"
  by (auto simp: channel_decision_def split: channel.splits)

lemma pending_is_terminal: "planned_as config call plan \<Longrightarrow> plan_pending plan \<Longrightarrow> is_terminal_call config (tc_name call)"
  by (auto simp: planned_as_def plan_pending_def split: if_splits)

lemma agent_plan_spec:
  assumes "agent_plan ae calls invocation_ids s = (Ok plans, s')"
  shows "list_all2 (planned_as (ag_config s)) calls plans" "length (filter plan_pending plans) \<le> 1"
    "\<forall>plan \<in> set plans. plan_pending plan \<longrightarrow> waits_for (ag_config s) s' (length (ac_channels (ag_approvals s))) plan"
proof -
  from assms have run: "length calls = length invocation_ids"
    "length (filter (\<lambda>call. is_terminal_call (ag_config s) (tc_name call)) calls) \<le> 1"
    "plan_agent_calls ae (ag_config s) {} (zip calls invocation_ids) s = (Ok plans, s')"
    by (auto simp: agent_plan_def act_bind_ok act_read_def act_lift_def split: if_splits)
  note spec = plan_agent_calls_spec [OF run(3)]
  show planned: "list_all2 (planned_as (ag_config s)) calls plans" using spec run(1) by simp
  show "length (filter plan_pending plans) \<le> 1"
    using filter_list_all2_le [OF planned, of plan_pending "\<lambda>call. is_terminal_call (ag_config s) (tc_name call)"]
      pending_is_terminal run(2) by fastforce
  show "\<forall>plan \<in> set plans. plan_pending plan \<longrightarrow> waits_for (ag_config s) s' (length (ac_channels (ag_approvals s))) plan"
    using spec by simp
qed

lemma agent_execute_shell:
  assumes "agent_execute ae calls s = (r, s')"
  shows "\<exists>new. ag_shell s' = ag_shell s @ new \<and> (\<forall>spec. Spawned spec \<in> set new \<longrightarrow>
     (\<exists>plan \<in> set calls. \<not> is_delegate_call (ag_config s) (pl_name plan) \<and> is_terminal_call (ag_config s) (pl_name plan)
        \<and> allowed_shell ae (lt_root (ag_local s)) spec plan))"
proof -
  let ?config = "ag_config s"
  let ?terminal = "filter (\<lambda>call. is_terminal_call ?config (pl_name call)) (filter (\<lambda>call. \<not> is_delegate_call ?config (pl_name call)) calls)"
  let ?local = "act_zoom ag_local (\<lambda>l s. s\<lparr>ag_local := l\<rparr>) (local_execute (ae_local ae)
      (filter (\<lambda>call. \<not> is_terminal_call ?config (pl_name call)) (filter (\<lambda>call. \<not> is_delegate_call ?config (pl_name call)) calls)))"
  let ?delegated = "act_collect (execute_delegate ae ?config) (ae_order ae (filter (\<lambda>call. is_delegate_call ?config (pl_name call)) calls))"
  have delegated: "no_processes ?delegated" by (intro no_processes_collect execute_delegate_no_processes)
  have local: "\<exists>completed. ?local s = (Ok completed, s)" by (simp add: act_zoom_def local_execute_def act_read_def)
  obtain r1 t where terminal: "act_collect (execute_terminal_call ae) ?terminal s = (r1, t)"
    by (cases "act_collect (execute_terminal_call ae) ?terminal s")
  have "ag_shell s' = ag_shell t"
  proof (cases r1)
    case (Inl e)
    then show ?thesis using assms local terminal by (auto simp: agent_execute_def act_bind_def act_read_def Let_def)
  next
    case (Inr terminals)
    obtain r2 u where "?delegated t = (r2, u)" by (cases "?delegated t")
    then have "same_processes t u \<and> s' = u"
      using no_processesD [OF delegated] assms local terminal Inr
      by (auto simp: agent_execute_def act_bind_def act_read_def act_return_def Let_def split: sum.splits)
    then show ?thesis by (simp add: same_processes_def)
  qed
  then show ?thesis using execute_terminal_calls_spec [OF terminal] by fastforce
qed

end
