(* ===== verification/Agent_Properties.thy ===== *)
theory Agent_Properties
  imports Agent_Tools Delegation_Properties
begin

text \<open>
  What the tool broker of a session guarantees: no shell without a live decision to allow it, and a queued
  delegation is one durable leaf session per planned call.
\<close>

section \<open>A session for the examples\<close>

definition agent_serde :: serde where
  "agent_serde = sample_serde\<lparr>sx_tools := Sqlite_Schema.sample_codec [(local_catalog, ''[t]''), ([], ''[]'')]\<rparr>"

definition agent_env_sample :: "unit agent_env" where
  "agent_env_sample =
     \<lparr>ae_local = sample_env [], ae_shell = sample_shell,
      ae_url = \<lparr>uc_parse = (\<lambda>_. Err ''relative URL without a base''), uc_join = (\<lambda>u _. Ok u)\<rparr>,
      ae_client = None, ae_http = (\<lambda>_ _ _. act_lift (Err ''offline'')), ae_parse = (\<lambda>_. Err ''EOF''),
      ae_text = Runtime_Project.sample_text, ae_serde = agent_serde, ae_delegate_args = (\<lambda>_. Err ''missing field `goal`''),
      ae_wait = (\<lambda>_ a. snd (approval_respond (SessionId ''p'') ''once'' a)), ae_order = (\<lambda>plans. plans),
      ae_open_sessions = None, ae_open_ledger = None, ae_open_delegations = None, ae_now_ms = Ok 1, ae_unixepoch = 5,
      ae_planned_at = (\<lambda>_. 5), ae_completed_at = (\<lambda>_. 5)\<rparr>"

definition agent_config_sample :: agent_tools_config where
  "agent_config_sample =
     \<lparr>gc_base_url = [], gc_api_key = None, gc_model = ''m'', gc_root = ''/r'', gc_state = ''/s'', gc_delegation_enabled = True,
      gc_background_parent = Some (SessionId ''p''), gc_terminal_approval = Some (SessionId ''p'')\<rparr>"

definition agent_sessions :: database where
  "agent_sessions = snd (session_create agent_serde 5 (Session_Store.sample_config ''p'') empty_database)"

definition agent_state_sample :: "unit agent_tools" where
  "agent_state_sample =
     \<lparr>ag_local = \<lparr>lt_root = ''/r''\<rparr>, ag_config = agent_config_sample, ag_pending = [], ag_registered = [],
      ag_approvals = approval_control_default, ag_db = agent_sessions, ag_http = (), ag_shell = []\<rparr>"

section \<open>Shells\<close>

text \<open>
  C26. A shell needs a live decision: whatever the model asks for in one response, a shell that is started while it is
  executed runs the valid command of a planned terminal call, in the root, and the waiter of that very call, which
  planning put into the queue of the session under the identity of the call and a channel that did not exist before,
  and whose receiver the broker kept for the call, has been delivered \<open>allow\<close>. Without the terminal tool in the configuration nothing
  is ever started. Delegation and the read-only tools start no process.
\<close>

theorem shell_needs_a_live_decision:
  assumes "agent_plan ae calls invocation_ids s0 = (Ok plans, s1)"
    and "agent_resolve_approvals ae plans s1 = (Ok resolved, s2)"
    and "agent_execute ae resolved s2 = (r, s3)"
  shows "\<exists>new. ag_shell s3 = ag_shell s0 @ new \<and> (\<forall>spec. Spawned spec \<in> set new \<longrightarrow>
     (\<exists>call \<in> set calls. \<exists>arguments session i. is_terminal_call (ag_config s0) (tc_name call)
        \<and> se_terminal_args (ae_shell ae) (JObject (tc_arguments call)) = Ok arguments
        \<and> spec = shell_command (ta_command arguments) (lt_root (ag_local s0)) (se_vars (ae_shell ae))
        \<and> gc_terminal_approval (ag_config s0) = Some session \<and> map_of (ag_pending s1) (tc_id call) = Some i
        \<and> \<lparr>pa_call_id = tc_id call, pa_sender = i\<rparr> \<in> set (session_queue (session_id_str session) (ag_approvals s1))
        \<and> length (ac_channels (ag_approvals s0)) \<le> i \<and> ac_channels (ag_approvals s2) ! i = Delivered Allow))"
proof -
  note planned = agent_plan_spec [OF assms(1)]
  have same: "same_processes s0 s1" "same_processes s1 s2"
    using no_processesD [OF agent_plan_no_processes assms(1)] no_processesD [OF resolve_no_processes assms(2)] by simp_all
  have resolved: "list_all2 (resolved_as s1 s2) plans resolved"
    using resolve_spec [OF planned(2)] assms(2) by (simp add: agent_resolve_approvals_def)
  have "\<exists>call \<in> set calls. \<exists>arguments session i. is_terminal_call (ag_config s0) (tc_name call)
        \<and> se_terminal_args (ae_shell ae) (JObject (tc_arguments call)) = Ok arguments
        \<and> spec = shell_command (ta_command arguments) (lt_root (ag_local s0)) (se_vars (ae_shell ae))
        \<and> gc_terminal_approval (ag_config s0) = Some session \<and> map_of (ag_pending s1) (tc_id call) = Some i
        \<and> \<lparr>pa_call_id = tc_id call, pa_sender = i\<rparr> \<in> set (session_queue (session_id_str session) (ag_approvals s1))
        \<and> length (ac_channels (ag_approvals s0)) \<le> i \<and> ac_channels (ag_approvals s2) ! i = Delivered Allow"
    if q: "q \<in> set resolved" "\<not> is_delegate_call (ag_config s0) (pl_name q)" "is_terminal_call (ag_config s0) (pl_name q)"
      and allowed: "allowed_shell ae (lt_root (ag_local s0)) spec q" for q spec
  proof -
    obtain p where p: "p \<in> set plans" "resolved_as s1 s2 p q"
      using list_all2_right [OF resolved q(1)] by blast
    then obtain call where call: "call \<in> set calls" "planned_as (ag_config s0) call p"
      using list_all2_right [OF planned(1)] by blast
    have names: "pl_name q = tc_name call" "pl_arguments q = tc_arguments call"
      using p(2) call(2) by (auto simp: resolved_as_def planned_as_def decide_plan_def split: if_splits)
    then have "pl_approval p = Some gateway_approval" using call(2) q(2,3) by (simp add: planned_as_def)
    then have pending: "plan_pending p" by (simp add: plan_pending_def approval_pending_def gateway_approval_def)
    then obtain i where i: "map_of (ag_pending s1) (pl_call_id p) = Some i"
      "q = decide_plan (channel_decision (ac_channels (ag_approvals s2) ! i)) p" using p(2) by (auto simp: resolved_as_def)
    have "final_decision q = Ok Allow" using allowed by (simp add: allowed_shell_def)
    then have "ac_channels (ag_approvals s2) ! i = Delivered Allow"
      using final_decision_decided channel_decision_allow unfolding i(2) by blast
    moreover obtain session where "gc_terminal_approval (ag_config s0) = Some session" "length (ac_channels (ag_approvals s0)) \<le> i"
      "\<lparr>pa_call_id = tc_id call, pa_sender = i\<rparr> \<in> set (session_queue (session_id_str session) (ag_approvals s1))"
      using planned(3) p(1) pending i(1) call(2) by (auto simp: waits_for_def planned_as_def)
    moreover have "map_of (ag_pending s1) (tc_id call) = Some i" using i(1) call(2) by (simp add: planned_as_def)
    moreover obtain arguments where "terminal_decode (se_terminal_args (ae_shell ae)) q = Ok arguments"
      "spec = shell_command (ta_command arguments) (lt_root (ag_local s0)) (se_vars (ae_shell ae))"
      using allowed by (auto simp: allowed_shell_def)
    moreover from this(1) have "se_terminal_args (ae_shell ae) (JObject (tc_arguments call)) = Ok arguments"
      by (auto simp: terminal_decode_def names and_then_eq_Inr map_err_def split: sum.splits)
    ultimately show ?thesis using call(1) q(3) names(1) by auto
  qed
  then show ?thesis using agent_execute_shell [OF assms(3)] same by (simp add: same_processes_def) blast
qed

definition terminal_call_sample :: tool_call where
  "terminal_call_sample = \<lparr>tc_id = ToolCallId ''c'', tc_name = ''terminal'', tc_arguments = [(''command'', JString ''echo'')]\<rparr>"

definition terminal_plan_sample :: planned_tool_call where
  "terminal_plan_sample = plan_of terminal_call_sample (InvocationId ''i'') ProcessControl (Some gateway_approval)"

definition waiting_sample :: "unit agent_tools" where
  "waiting_sample = agent_state_sample\<lparr>ag_pending := [(ToolCallId ''c'', 0)], ag_registered := [ToolCallId ''c''],
     ag_approvals := \<lparr>ac_pending = [(''p'', [\<lparr>pa_call_id = ToolCallId ''c'', pa_sender = 0\<rparr>])], ac_poisoned = False,
       ac_channels = [ChannelOpen]\<rparr>\<rparr>"

definition answered_sample :: "unit agent_tools" where
  "answered_sample = waiting_sample\<lparr>ag_pending := [],
     ag_approvals := \<lparr>ac_pending = [], ac_poisoned = False, ac_channels = [Delivered Allow]\<rparr>\<rparr>"

lemmas agent_samples = agent_env_sample_def agent_config_sample_def agent_state_sample_def terminal_call_sample_def
  terminal_plan_sample_def waiting_sample_def answered_sample_def

lemma sample_plans:
  "agent_plan agent_env_sample [terminal_call_sample] [InvocationId ''i''] agent_state_sample
   = (Ok [terminal_plan_sample], waiting_sample)"
proof -
  have "approval_command (se_terminal_args sample_shell) (plan_of terminal_call_sample (InvocationId ''i'') ProcessControl None) = Ok ''echo''"
    by (rule sample_shell_runs(2)) (simp add: plan_of_def terminal_call_sample_def)
  then show ?thesis
    by (simp add: agent_plan_def agent_samples is_terminal_call_def is_delegate_call_def delegate_tool_def terminal_tool_name_def
        plan_agent_call_def register_terminal_def act_bind_def act_lift_def act_read_def act_update_def act_return_def
        act_map_err_def on_approvals_def act_zoom_def approval_register_def approval_control_default_def session_queue_def
        put_queue_def Let_def List.insert_def)
qed

lemma sample_resolves:
  "agent_resolve_approvals agent_env_sample [terminal_plan_sample] waiting_sample
   = (Ok [decide_plan Allow terminal_plan_sample], answered_sample)"
  by (simp add: agent_resolve_approvals_def resolve_agent_plan_def await_decision_def plan_pending_def approval_pending_def
      gateway_approval_def plan_of_def agent_samples act_bind_def act_read_def act_update_def act_lift_def act_return_def
      approval_respond_def decision_of_choice_def session_queue_def put_queue_def send_decision_def channel_decision_def)

lemma sample_executes:
  "agent_execute agent_env_sample [decide_plan Allow terminal_plan_sample] answered_sample =
     (Ok [shell_terminal (decide_plan Allow terminal_plan_sample) Succeeded (''stdout:'' @ [CHR 0x0A] @ ''hi'') (Some ''exit:0'')],
      answered_sample\<lparr>ag_shell := [Spawned \<lparr>ss_program = ''/bin/sh'', ss_args = [''-c'', ''echo''], ss_process_group = 0,
        ss_current_dir = ''/r'', ss_env_removed = [''github_token'']\<rparr>, GroupKilled 7]\<rparr>)"
proof -
  let ?plan = "decide_plan Allow terminal_plan_sample"
  have plan: "pl_name ?plan = ''terminal''" "pl_arguments ?plan = [(''command'', JString ''echo'')]"
    "final_decision ?plan = Ok Allow"
    by (simp_all add: decide_plan_def terminal_plan_sample_def terminal_call_sample_def plan_of_def final_decision_def gateway_approval_def)
  have state: "ag_config answered_sample = agent_config_sample" "lt_root (ag_local answered_sample) = ''/r''" "ag_shell answered_sample = []"
    "ae_shell agent_env_sample = sample_shell" "ae_order agent_env_sample = (\<lambda>plans. plans)"
    by (simp_all add: answered_sample_def waiting_sample_def agent_state_sample_def agent_env_sample_def)
  show ?thesis
    using sample_shell_runs(1) [OF plan(2)]
    by (simp add: agent_execute_def execute_terminal_call_def plan state agent_config_sample_def is_terminal_call_def
        is_delegate_call_def delegate_tool_def terminal_tool_name_def local_execute_def act_zoom_def act_bind_def act_read_def
        act_lift_def act_update_def act_return_def)
qed

lemma shell_needs_a_live_decision_witness:
  "\<exists>call \<in> set [terminal_call_sample]. is_terminal_call (ag_config agent_state_sample) (tc_name call)
     \<and> (\<exists>i. map_of (ag_pending waiting_sample) (tc_id call) = Some i \<and> ac_channels (ag_approvals answered_sample) ! i = Delivered Allow)"
proof -
  have start: "ag_shell agent_state_sample = []" by (simp add: agent_state_sample_def)
  from shell_needs_a_live_decision [OF sample_plans sample_resolves sample_executes] show ?thesis
    unfolding start by fastforce
qed

section \<open>Queued delegations\<close>

lemma local_catalog_is_read_only:
  "\<not> catalog_enables_delegation local_catalog" "\<not> catalog_enables_terminal local_catalog"
  by (simp_all add: catalog_enables_delegation_def catalog_enables_terminal_def local_catalog_def function_field_def
      read_file_schema_def search_files_schema_def jobject_get delegate_tool_def terminal_tool_name_def)

lemma child_manifest_valid:
  assumes "child_manifest sx parent system_prompt tools = Ok m"
  shows "manifest_valid m" "pm_revision m = 1"
  using assms
  by (auto simp: child_manifest_def and_then_eq_Inr map_err_def engine_id_new_def manifest_digest_new_def prompt_manifest_new_def
      manifest_valid_def digest_ok_def unpadded_def split: sum.splits if_splits)

lemma child_session_storable:
  assumes run: "child_session_config sx parent k system_prompt = Ok child"
    and enc: "encodes (sx_tools sx) local_catalog" "encodes (sx_transport sx) (sc_transport parent)"
      "encodes (sx_engine_config sx) (sc_engine_config parent)"
  shows "storable_config sx child" "sc_session_id child = k" "sc_tools child = local_catalog" "sc_tool_root child = sc_tool_root parent"
    "unpadded (session_id_str k)"
proof -
  from run obtain lineage manifest where c: "lineage_id_new (session_id_str k) = Ok lineage"
    "child_manifest sx (sc_prompt_manifest parent) system_prompt local_catalog = Ok manifest"
    and child: "child = \<lparr>sc_session_id = k, sc_lineage_id = lineage, sc_prompt_manifest = manifest,
         sc_engine_config = sc_engine_config parent, sc_transport = sc_transport parent,
         sc_provider_adapter = sc_provider_adapter parent, sc_base_url = sc_base_url parent,
         sc_api_key_env = sc_api_key_env parent, sc_model = sc_model parent, sc_tool_root = sc_tool_root parent,
         sc_system_prompt = system_prompt, sc_tools = local_catalog\<rparr>"
    by (auto simp: child_session_config_def and_then_eq_Inr map_err_def split: sum.splits)
  then show "storable_config sx child"
    using child_manifest_valid [OF c(2)] enc by (simp add: storable_config_def i64_max_def)
  show "sc_session_id child = k" "sc_tools child = local_catalog" "sc_tool_root child = sc_tool_root parent"
    "unpadded (session_id_str k)" using child c(1) by simp_all
qed

text \<open>What is queued for a planned call: only its identity decides under which names.\<close>

definition queued_spec :: "serde \<Rightarrow> session_id \<Rightarrow> planned_tool_call \<Rightarrow> delegate_args \<Rightarrow> delegation_spec" where
  "queued_spec sx parent plan arguments =
     (let identity = sx_sha256 sx (invocation_id_str (pl_invocation_id plan)) in
      \<lparr>ds_delegation_id = DelegationId (''delegation-'' @ identity), ds_completion_event_id = CompletionEventId (''completion-'' @ identity),
       ds_parent_session_id = parent, ds_child_session_id = SessionId (''child-'' @ identity),
       ds_goal = dg_goal arguments, ds_context = dg_context arguments\<rparr>)"

lemma enqueue_child_wp:
  assumes parent: "gc_background_parent config = Some parent"
    and fail: "\<And>e. E e s"
    and create: "\<And>snap child now spec. spec = queued_spec (ae_serde ae) parent plan arguments \<Longrightarrow>
        sessions_of (ae_serde ae) (ag_db s) parent = Some snap \<Longrightarrow>
        child_session_config (ae_serde ae) (ss_config snap) (ds_child_session_id spec) (child_system_prompt (gc_root config) arguments) = Ok child \<Longrightarrow>
        unpadded (delegation_id_str (ds_delegation_id spec)) \<Longrightarrow> unpadded (completion_event_id_str (ds_completion_event_id spec)) \<Longrightarrow>
        wp (create_with_child (ae_serde ae) (ae_unixepoch ae) child spec now)
          (\<lambda>_ d. Q (queued_text (ds_delegation_id spec)) (s\<lparr>ag_db := d\<rparr>)) (\<lambda>e d. \<forall>text. E text (s\<lparr>ag_db := d\<rparr>)) (ag_db s)"
  shows "wp (enqueue_child ae config plan arguments) Q E s"
  by (auto simp: enqueue_child_def Let_def on_db_def open_file_def session_load_def wp_simps parent fail
      sessions_of_def map_err_def ok_or_def split: sum.splits option.splits
      intro!: wp_mono [OF create [OF refl, unfolded queued_spec_def Let_def, simplified]])

text \<open>A database in which the parent can be read back and the catalog of a child can be stored.\<close>

definition background_ready :: "serde \<Rightarrow> database \<Rightarrow> session_id \<Rightarrow> bool" where
  "background_ready sx d parent \<longleftrightarrow> supervisor_inv sx d \<and> unpadded (session_id_str parent) \<and> encodes (sx_tools sx) local_catalog
     \<and> (\<forall>snap. sessions_of sx d parent = Some snap \<longrightarrow>
          encodes (sx_transport sx) (sc_transport (ss_config snap)) \<and> encodes (sx_engine_config sx) (sc_engine_config (ss_config snap)))"

definition queued_as :: "serde \<Rightarrow> database \<Rightarrow> delegation_spec \<Rightarrow> session_config \<Rightarrow> u64 \<Rightarrow> database \<Rightarrow> bool" where
  "queued_as sx d spec child now d' \<longleftrightarrow> supervisor_inv sx d'
     \<and> delegations_of sx d (ds_delegation_id spec) = None
     \<and> delegations_of sx d' = (delegations_of sx d)(ds_delegation_id spec \<mapsto> new_delegation spec now)
     \<and> sessions_of sx d (ds_child_session_id spec) = None
     \<and> sessions_of sx d' = (sessions_of sx d)(ds_child_session_id spec \<mapsto> new_session child) \<and> turns_of sx d' = turns_of sx d
     \<and> ds_child_session_id spec \<noteq> ds_parent_session_id spec \<and> sc_tools child = local_catalog
     \<and> map_option (\<lambda>snap. sc_tool_root (ss_config snap)) (sessions_of sx d (ds_parent_session_id spec)) = Some (sc_tool_root child)"

lemma enqueue_create:
  assumes ready: "background_ready sx d parent" and spec: "spec = queued_spec sx parent plan arguments"
    and snap: "sessions_of sx d parent = Some snap"
    and child: "child_session_config sx (ss_config snap) (ds_child_session_id spec) prompt = Ok child"
    and ids: "unpadded (delegation_id_str (ds_delegation_id spec))" "unpadded (completion_event_id_str (ds_completion_event_id spec))"
  shows "wp (create_with_child sx epoch child spec now) (\<lambda>_. queued_as sx d spec child now)
     (\<lambda>e d'. d' = d) d"
    "delegations_of sx d (ds_delegation_id spec) \<noteq> None \<Longrightarrow> \<exists>e. create_with_child sx epoch child spec now d = (Inl e, d)"
proof -
  have enc: "encodes (sx_tools sx) local_catalog" "encodes (sx_transport sx) (sc_transport (ss_config snap))"
    "encodes (sx_engine_config sx) (sc_engine_config (ss_config snap))" and inv: "supervisor_inv sx d"
    using ready snap by (simp_all add: background_ready_def)
  note st = child_session_storable [OF child enc]
  have parent: "ds_parent_session_id spec = parent" by (simp add: spec queued_spec_def Let_def)
  have dids: "delegation_ids spec" using ids st(5) ready parent by (simp add: delegation_ids_def background_ready_def)
  show "\<exists>e. create_with_child sx epoch child spec now d = (Inl e, d)" if "delegations_of sx d (ds_delegation_id spec) \<noteq> None"
  proof (rule create_with_child_err [OF inv dids st(1)])
    show "\<not> creatable_pair sx d child spec now" using that by (auto simp: creatable_pair_def unused_delegation_def)
  qed
  show "wp (create_with_child sx epoch child spec now) (\<lambda>_. queued_as sx d spec child now) (\<lambda>e d'. d' = d) d"
  proof (cases "creatable_pair sx d child spec now")
    case True
    then have "ds_child_session_id spec \<noteq> ds_parent_session_id spec" by (auto simp: creatable_pair_def valid_delegation_def)
    moreover obtain d' where "create_with_child sx epoch child spec now d = (Inr (new_delegation spec now), d')" "supervisor_inv sx d'"
      "delegations_of sx d' = (delegations_of sx d)(ds_delegation_id spec \<mapsto> new_delegation spec now)"
      "sessions_of sx d' = (sessions_of sx d)(ds_child_session_id spec \<mapsto> new_session child)" "turns_of sx d' = turns_of sx d"
      by (rule create_with_child_ok [OF inv dids st(1) True, of epoch])
    moreover have "sessions_of sx d (ds_child_session_id spec) = None" "delegations_of sx d (ds_delegation_id spec) = None"
      using True st(2) by (simp_all add: creatable_pair_def creatable_def unused_delegation_def)
    ultimately show ?thesis using st(3,4) snap parent by (simp add: wp_def queued_as_def)
  next
    case False
    then show ?thesis using create_with_child_err [OF inv dids st(1) False, of epoch] by (auto simp: wp_def)
  qed
qed

lemma enqueue_queues:
  assumes "gc_background_parent config = Some parent" "background_ready (ae_serde ae) (ag_db s) parent"
  shows "wp (enqueue_child ae config plan arguments)
    (\<lambda>handle s'. \<exists>child now. let spec = queued_spec (ae_serde ae) parent plan arguments in
       handle = queued_text (ds_delegation_id spec) \<and> s' = s\<lparr>ag_db := ag_db s'\<rparr>
       \<and> queued_as (ae_serde ae) (ag_db s) spec child now (ag_db s'))
    (\<lambda>e s'. s' = s) s"
proof (rule enqueue_child_wp [OF assms(1)], goal_cases)
  case (2 snap child now spec)
  show ?case
    by (rule wp_mono [OF enqueue_create(1) [OF assms(2) 2]]) (auto simp: 2(1) Let_def)
qed simp

lemma enqueue_again:
  assumes "gc_background_parent config = Some parent" "background_ready (ae_serde ae) (ag_db s) parent"
    "delegations_of (ae_serde ae) (ag_db s) (ds_delegation_id (queued_spec (ae_serde ae) parent plan arguments)) \<noteq> None"
  shows "\<exists>e. enqueue_child ae config plan arguments s = (Err e, s)"
proof -
  have "wp (enqueue_child ae config plan arguments) (\<lambda>_ _. False) (\<lambda>e s'. s' = s) s"
  proof (rule enqueue_child_wp [OF assms(1)], goal_cases)
    case (2 snap child now spec)
    obtain e where "create_with_child (ae_serde ae) (ae_unixepoch ae) child spec now (ag_db s) = (Inl e, ag_db s)"
      using enqueue_create(2) [OF assms(2) 2] assms(3) 2(1) by blast
    then show ?case by (simp add: wp_def)
  qed simp
  then show ?thesis by (cases "enqueue_child ae config plan arguments s") (auto simp: wp_def split: sum.splits)
qed

text \<open>
  C27. Queueing a delegation is atomic and happens once: it either adds one pending delegation, named after the
  planned call, together with the session of its child, or changes nothing at all; the child has the parent's
  workspace and only the two read-only tools, so it can neither delegate nor start a shell; and queueing
  the same planned call again, with whatever task, fails and changes nothing.
\<close>

theorem queued_delegation_is_one_leaf_session:
  assumes "gc_background_parent config = Some parent" "background_ready (ae_serde ae) (ag_db s) parent"
  shows "case enqueue_child ae config plan arguments s of
     (Inl e, s') \<Rightarrow> s' = s
   | (Inr handle, s') \<Rightarrow> (\<exists>child now. let spec = queued_spec (ae_serde ae) parent plan arguments in
       handle = queued_text (ds_delegation_id spec) \<and> s' = s\<lparr>ag_db := ag_db s'\<rparr>
       \<and> queued_as (ae_serde ae) (ag_db s) spec child now (ag_db s')
       \<and> \<not> catalog_enables_delegation (sc_tools child) \<and> \<not> catalog_enables_terminal (sc_tools child)
       \<and> (\<forall>arguments'. \<exists>e. enqueue_child ae config plan arguments' s' = (Err e, s')))"
proof (cases "enqueue_child ae config plan arguments s")
  case (Pair r s')
  note queues = enqueue_queues [OF assms, of plan arguments, unfolded wp_def Pair]
  show ?thesis
  proof (cases r)
    case (Inl e)
    then show ?thesis using queues by (simp add: Pair)
  next
    case (Inr handle)
    define spec where "spec = queued_spec (ae_serde ae) parent plan arguments"
    obtain child now where q: "handle = queued_text (ds_delegation_id spec)" "s' = s\<lparr>ag_db := ag_db s'\<rparr>"
      "queued_as (ae_serde ae) (ag_db s) spec child now (ag_db s')"
      using queues by (auto simp: Inr spec_def Let_def)
    have parent: "ds_parent_session_id spec = parent" by (simp add: spec_def queued_spec_def Let_def)
    have ready: "background_ready (ae_serde ae) (ag_db s') parent"
    proof -
      have "parent \<noteq> ds_child_session_id spec" using q(3) parent by (auto simp: queued_as_def)
      then show ?thesis using assms(2) q(3) by (simp add: background_ready_def queued_as_def)
    qed
    have "\<exists>e. enqueue_child ae config plan arguments' s' = (Err e, s')" for arguments'
    proof (rule enqueue_again [OF assms(1) ready])
      have "ds_delegation_id (queued_spec (ae_serde ae) parent plan arguments') = ds_delegation_id spec"
        by (simp add: spec_def queued_spec_def Let_def)
      then show "delegations_of (ae_serde ae) (ag_db s') (ds_delegation_id (queued_spec (ae_serde ae) parent plan arguments')) \<noteq> None"
        using q(3) by (simp add: queued_as_def)
    qed
    moreover have "sc_tools child = local_catalog" using q(3) by (simp add: queued_as_def)
    ultimately show ?thesis using q local_catalog_is_read_only by (auto simp: Pair Inr spec_def [symmetric] Let_def)
  qed
qed

lemma first_session:
  assumes st: "storable_config sx c" and ok: "validate_config sx c = Ok ()"
  shows "supervisor_inv sx (snd (session_create sx 5 c empty_database))"
    "sessions_of sx (snd (session_create sx 5 c empty_database)) = [sc_session_id c \<mapsto> new_session c]"
    "delegations_of sx (snd (session_create sx 5 c empty_database)) = (\<lambda>_. None)"
proof -
  let ?d = "snd (session_create sx 5 c empty_database)"
  have creatable: "creatable sx empty_database c" using ok by (simp add: creatable_def empty_sessions)
  obtain row where row: "create_session_in_transaction sx 5 c empty_database
      = (Inr (new_session c), empty_database\<lparr>db_sessions := db_sessions empty_database @ [row]\<rparr>)"
    "sessions_of sx (empty_database\<lparr>db_sessions := db_sessions empty_database @ [row]\<rparr>)
      = (sessions_of sx empty_database)(sc_session_id c \<mapsto> new_session c)"
    using create_in_transaction(1) [OF empty_sessions(1) st creatable, of 5] by auto
  have d: "?d = empty_database\<lparr>db_sessions := db_sessions empty_database @ [row]\<rparr>"
    using row(1) by (simp add: session_create_def transaction_def)
  show "sessions_of sx ?d = [sc_session_id c \<mapsto> new_session c]" using row(2) by (simp add: d empty_sessions)
  have same: "db_delegations ?d = db_delegations empty_database" "db_completions ?d = db_completions empty_database"
    by (simp_all add: d)
  have "session_step (sqlite_session_store sx) (storable_config sx) (storable_message sx) empty_database ?d"
    by (rule session_step.step_create [where t = 5 and c = c and r = "fst (session_create sx 5 c empty_database)"])
      (simp_all add: st sqlite_session_store_def)
  from session_step_keeps_stores [OF this empty_stores(1)] have "stores_inv sx ?d" by simp
  moreover have "children_inv sx ?d"
    by (rule children_frame [OF same]) (use empty_supervisor(1) [of sx] in \<open>simp_all add: supervisor_inv_def has_session_def empty_database_def\<close>)
  ultimately show "supervisor_inv sx ?d" by (simp add: supervisor_inv_def)
  show "delegations_of sx ?d = (\<lambda>_. None)" using delegations_frame(1) [OF same(1)] empty_supervisor(2) by simp
qed

lemma agent_sample_sessions:
  "supervisor_inv agent_serde agent_sessions"
  "sessions_of agent_serde agent_sessions = [SessionId ''p'' \<mapsto> new_session (Session_Store.sample_config ''p'')]"
  "delegations_of agent_serde agent_sessions = (\<lambda>_. None)"
proof -
  have "local_catalog \<noteq> []" by (simp add: local_catalog_def)
  then have st: "storable_config agent_serde (Session_Store.sample_config ''p'')"
    by (simp add: storable_config_def Session_Store.sample_config_def agent_serde_def sample_serde_def Sqlite_Schema.sample_codec_def
        encodes_def manifest_valid_def unpadded_plain plain_char_def digest_ok_def lower_hex_digit_def i64_max_def list_all_iff)
  have "trim ''openai'' = ''openai''" "trim ''m'' = ''m''" "trim ''/'' = ''/''" "trim ''u'' = ''u''"
    using unpadded_plain [of "''openai''"] unpadded_plain [of "''m''"] unpadded_plain [of "''/''"] unpadded_plain [of "''u''"]
    by (simp_all add: unpadded_def plain_char_def)
  then have ok: "validate_config agent_serde (Session_Store.sample_config ''p'') = Ok ()"
    using \<open>local_catalog \<noteq> []\<close>
    by (simp add: validate_config_def Session_Store.sample_config_def agent_serde_def sample_serde_def Sqlite_Schema.sample_codec_def
        validate_transport_def Session_Store.is_absolute_def)
  show "supervisor_inv agent_serde agent_sessions"
    "sessions_of agent_serde agent_sessions = [SessionId ''p'' \<mapsto> new_session (Session_Store.sample_config ''p'')]"
    "delegations_of agent_serde agent_sessions = (\<lambda>_. None)"
    using first_session [OF st ok] by (simp_all add: agent_sessions_def) (simp add: Session_Store.sample_config_def)
qed

lemma agent_serde_facts:
  "encodes (sx_tools agent_serde) local_catalog" "encodes (sx_transport agent_serde) ChatCompletions"
  "encodes (sx_engine_config agent_serde) EngineDirect" "cd_enc (sx_tools agent_serde) local_catalog = Ok ''[t]''"
  "sx_sha256 agent_serde text = replicate 64 (CHR ''a'')"
proof -
  have "local_catalog \<noteq> []" by (simp add: local_catalog_def)
  then show "encodes (sx_tools agent_serde) local_catalog" "encodes (sx_transport agent_serde) ChatCompletions"
    "encodes (sx_engine_config agent_serde) EngineDirect" "cd_enc (sx_tools agent_serde) local_catalog = Ok ''[t]''"
    "sx_sha256 agent_serde text = replicate 64 (CHR ''a'')"
    by (simp_all add: agent_serde_def sample_serde_def Sqlite_Schema.sample_codec_def encodes_def)
qed

lemma agent_sample_ready: "background_ready agent_serde agent_sessions (SessionId ''p'')"
  by (simp add: background_ready_def agent_sample_sessions new_session_def Session_Store.sample_config_def agent_serde_facts
        unpadded_plain plain_char_def)

definition agent_child_sample :: "string \<Rightarrow> session_config" where
  "agent_child_sample prompt = (Session_Store.sample_config (''child-'' @ replicate 64 (CHR ''a'')))
     \<lparr>sc_system_prompt := prompt, sc_tools := local_catalog\<rparr>"

lemma agent_child_configured:
  "child_session_config agent_serde (Session_Store.sample_config ''p'') (SessionId (''child-'' @ replicate 64 (CHR ''a''))) prompt
   = Ok (agent_child_sample prompt)"
proof -
  have "manifest_digest_new (replicate 64 (CHR ''a'')) = Ok (ManifestDigest (replicate 64 (CHR ''a'')))"
    "engine_id_new ''e'' = Ok (EngineId ''e'')" "lineage_id_new (''child-'' @ replicate 64 (CHR ''a'')) = Ok (LineageId (''child-'' @ replicate 64 (CHR ''a'')))"
    by (simp_all add: digest_ok_def lower_hex_digit_def list_all_iff unpadded_plain plain_char_def)
  then show ?thesis
    by (simp add: child_session_config_def child_manifest_def agent_serde_facts Session_Store.sample_config_def agent_child_sample_def
        prompt_manifest_new_def del: append.simps id_new_Inr manifest_digest_new_Inr engine_id_new_Inr)
qed

lemma agent_child_creatable:
  "creatable_pair agent_serde agent_sessions (agent_child_sample prompt)
     (queued_spec agent_serde (SessionId ''p'') plan \<lparr>dg_goal = ''g'', dg_context = None\<rparr>) 1"
proof -
  have "trim ''openai'' = ''openai''" "trim ''m'' = ''m''" "trim ''/'' = ''/''" "trim ''u'' = ''u''"
    using unpadded_plain [of "''openai''"] unpadded_plain [of "''m''"] unpadded_plain [of "''/''"] unpadded_plain [of "''u''"]
    by (simp_all add: unpadded_def plain_char_def)
  then have "validate_config agent_serde (agent_child_sample prompt) = Ok ()"
    by (simp add: validate_config_def agent_child_sample_def Session_Store.sample_config_def agent_serde_facts
        validate_transport_def Session_Store.is_absolute_def)
  then show ?thesis
    by (simp add: creatable_pair_def creatable_def valid_delegation_def unused_delegation_def queued_spec_def agent_sample_sessions
        agent_serde_facts unpadded_plain plain_char_def i64_max_def agent_child_sample_def Session_Store.sample_config_def Let_def)
qed

lemma sample_queues:
  "\<exists>handle s'. enqueue_child agent_env_sample agent_config_sample plan \<lparr>dg_goal = ''g'', dg_context = None\<rparr> agent_state_sample
     = (Ok handle, s')"
proof -
  let ?spec = "queued_spec agent_serde (SessionId ''p'') plan \<lparr>dg_goal = ''g'', dg_context = None\<rparr>"
  have load: "load_snapshot agent_serde (SessionId ''p'') agent_sessions = Inr (new_session (Session_Store.sample_config ''p''))"
  proof -
    have "sessions_of agent_serde agent_sessions (SessionId ''p'') = Some (new_session (Session_Store.sample_config ''p''))"
      by (simp add: agent_sample_sessions)
    then show ?thesis by (simp add: sessions_of_def split: sum.splits)
  qed
  have storable: "storable_config agent_serde (agent_child_sample prompt)" for prompt
    by (rule child_session_storable(1) [OF agent_child_configured])
      (simp_all add: agent_serde_facts Session_Store.sample_config_def)
  have ids: "delegation_ids ?spec"
    by (simp add: delegation_ids_def queued_spec_def agent_serde_facts unpadded_plain plain_char_def Let_def)
  have created: "\<exists>d'. create_with_child agent_serde 5 (agent_child_sample prompt) ?spec 1 agent_sessions = (Inr (new_delegation ?spec 1), d')" for prompt
    by (rule create_with_child_ok [OF agent_sample_sessions(1) ids storable agent_child_creatable, of 5]) blast
  have env: "ae_serde agent_env_sample = agent_serde" "ae_open_sessions agent_env_sample = None" "ae_open_delegations agent_env_sample = None"
    "ae_now_ms agent_env_sample = Ok 1" "ae_unixepoch agent_env_sample = 5" "gc_background_parent agent_config_sample = Some (SessionId ''p'')"
    "ag_db agent_state_sample = agent_sessions"
    by (simp_all add: agent_env_sample_def agent_config_sample_def agent_state_sample_def)
  define identity where "identity = replicate 64 (CHR ''a'')"
  have news: "delegation_id_new (''delegation-'' @ identity) = Ok (DelegationId (''delegation-'' @ identity))"
    "completion_event_id_new (''completion-'' @ identity) = Ok (CompletionEventId (''completion-'' @ identity))"
    "session_id_new (''child-'' @ identity) = Ok (SessionId (''child-'' @ identity))"
    by (simp_all add: identity_def unpadded_plain plain_char_def)
  have sha: "sx_sha256 agent_serde t = identity" for t by (simp add: identity_def agent_serde_facts)
  have config: "child_session_config agent_serde (Session_Store.sample_config ''p'') (SessionId (''child-'' @ identity)) prompt
     = Ok (agent_child_sample prompt)" for prompt
    unfolding identity_def by (rule agent_child_configured)
  obtain d' where "create_with_child agent_serde 5
      (agent_child_sample (child_system_prompt (gc_root agent_config_sample) \<lparr>dg_goal = ''g'', dg_context = None\<rparr>)) ?spec 1 agent_sessions
    = (Inr (new_delegation ?spec 1), d')" using created by blast
  then show ?thesis
    by (simp add: enqueue_child_def env sha news config load new_session_def queued_spec_def session_load_def on_db_def act_zoom_def
        act_try_def act_bind_def act_lift_def act_return_def act_map_err_def open_file_def Let_def ok_or_def
        del: append.simps id_new_Inr manifest_digest_new_Inr engine_id_new_Inr)
qed

lemma queued_delegation_is_one_leaf_session_witness:
  "\<exists>handle s'. enqueue_child agent_env_sample agent_config_sample terminal_plan_sample \<lparr>dg_goal = ''g'', dg_context = None\<rparr> agent_state_sample
     = (Ok handle, s')
   \<and> (\<exists>e. enqueue_child agent_env_sample agent_config_sample terminal_plan_sample \<lparr>dg_goal = ''h'', dg_context = None\<rparr> s' = (Err e, s'))"
proof -
  obtain handle s' where ok: "enqueue_child agent_env_sample agent_config_sample terminal_plan_sample
      \<lparr>dg_goal = ''g'', dg_context = None\<rparr> agent_state_sample = (Ok handle, s')" using sample_queues by blast
  have "gc_background_parent agent_config_sample = Some (SessionId ''p'')"
    "background_ready (ae_serde agent_env_sample) (ag_db agent_state_sample) (SessionId ''p'')"
    using agent_sample_ready by (simp_all add: agent_env_sample_def agent_config_sample_def agent_state_sample_def)
  from queued_delegation_is_one_leaf_session [OF this, of terminal_plan_sample "\<lparr>dg_goal = ''g'', dg_context = None\<rparr>"] ok
  show ?thesis by (auto simp: Let_def)
qed

end
