(* ===== verification/Live_Settings.thy ===== *)
theory Live_Settings
  imports Agent_Tools Codex_Server
begin

text \<open>
  \<open>apps/hermesd/src/cli/chat.rs\<close>, the settings of a live host: from the command line for a new session, from a
  stored session for a resumed one, and the configuration that a new session freezes. An \<open>anyhow::Error\<close> is its
  message, which a context replaces. Environment variables, canonical paths and URLs are parameters. Proved:
  a session gives back the settings it was made with, and no argument can change them.
\<close>

section \<open>Arguments\<close>

datatype provider_preset = PresetOpenAi | PresetOpenRouter | PresetCustom
datatype engine_preset = PresetDirect | PresetCodex
datatype reasoning_preset =
    ReasoningNone | ReasoningMinimal | ReasoningLow | ReasoningMedium | ReasoningHigh | ReasoningXhigh | ReasoningMax | ReasoningUltra

fun effort_of_preset :: "reasoning_preset \<Rightarrow> model_reasoning_effort" where
  "effort_of_preset ReasoningNone = EffortNone"
| "effort_of_preset ReasoningMinimal = EffortMinimal"
| "effort_of_preset ReasoningLow = EffortLow"
| "effort_of_preset ReasoningMedium = EffortMedium"
| "effort_of_preset ReasoningHigh = EffortHigh"
| "effort_of_preset ReasoningXhigh = EffortXhigh"
| "effort_of_preset ReasoningMax = EffortMax"
| "effort_of_preset ReasoningUltra = EffortUltra"

fun reasoning_preset_str :: "reasoning_preset \<Rightarrow> string" where
  "reasoning_preset_str ReasoningNone = ''none''"
| "reasoning_preset_str ReasoningMinimal = ''minimal''"
| "reasoning_preset_str ReasoningLow = ''low''"
| "reasoning_preset_str ReasoningMedium = ''medium''"
| "reasoning_preset_str ReasoningHigh = ''high''"
| "reasoning_preset_str ReasoningXhigh = ''xhigh''"
| "reasoning_preset_str ReasoningMax = ''max''"
| "reasoning_preset_str ReasoningUltra = ''ultra''"

fun engine_preset_str :: "engine_preset \<Rightarrow> string" where
  "engine_preset_str PresetDirect = ''direct''"
| "engine_preset_str PresetCodex = ''codex''"

fun provider_preset_str :: "provider_preset \<Rightarrow> string" where
  "provider_preset_str PresetOpenAi = ''openai''"
| "provider_preset_str PresetOpenRouter = ''openrouter''"
| "provider_preset_str PresetCustom = ''custom''"

fun provider_defaults :: "provider_preset \<Rightarrow> string \<times> string option" where
  "provider_defaults PresetOpenAi = (''https://api.openai.com/v1'', Some ''OPENAI_API_KEY'')"
| "provider_defaults PresetOpenRouter = (''https://openrouter.ai/api/v1'', Some ''OPENROUTER_API_KEY'')"
| "provider_defaults PresetCustom = ([], None)"

text \<open>The argument is \<open>Debug\<close> of \<open>str\<close>.\<close>

definition provider_from_adapter :: "(string \<Rightarrow> string) \<Rightarrow> string \<Rightarrow> string + provider_preset" where
  "provider_from_adapter debug adapter =
     (if adapter = ''openai'' then Ok PresetOpenAi
      else if adapter = ''openrouter'' then Ok PresetOpenRouter
      else if adapter = ''custom'' then Ok PresetCustom
      else Err (''session uses unsupported provider adapter '' @ debug adapter))"

fun transport_debug :: "transport_kind \<Rightarrow> string" where
  "transport_debug ChatCompletions = ''ChatCompletions''"
| "transport_debug AnthropicMessages = ''AnthropicMessages''"
| "transport_debug CodexResponses = ''CodexResponses''"
| "transport_debug CodexAppServer = ''CodexAppServer''"
| "transport_debug BedrockConverse = ''BedrockConverse''"
| "transport_debug GeminiNative = ''GeminiNative''"

definition engine_from_config :: "(string \<Rightarrow> string) \<Rightarrow> session_config \<Rightarrow> string + engine_preset" where
  "engine_from_config debug config =
     (if sc_transport config = ChatCompletions \<and> sc_provider_adapter config \<in> {''openai'', ''openrouter'', ''custom''}
      then Ok PresetDirect
      else if sc_transport config = CodexAppServer \<and> sc_provider_adapter config = ''codex-app-server'' then Ok PresetCodex
      else Err (''session engine is unsupported: transport '' @ transport_debug (sc_transport config) @ '', adapter ''
             @ debug (sc_provider_adapter config)))"

record runtime_args =
  ra_engine :: "engine_preset option"
  ra_provider :: "provider_preset option"
  ra_model :: "string option"
  ra_base_url :: "string option"
  ra_api_key_env :: "string option"
  ra_root :: "string option"
  ra_system :: "string option"
  ra_codex_command :: "string option"
  ra_reasoning :: "reasoning_preset option"

definition push_value :: "string \<Rightarrow> string option \<Rightarrow> string list \<Rightarrow> string list" where
  "push_value flag value arguments = (case value of None \<Rightarrow> arguments | Some v \<Rightarrow> arguments @ [flag, v])"

definition gateway_argv :: "runtime_args \<Rightarrow> string list" where
  "gateway_argv a =
     push_value ''--reasoning'' (map_option reasoning_preset_str (ra_reasoning a))
     (push_value ''--codex-command'' (ra_codex_command a)
     (push_value ''--system'' (ra_system a)
     (push_value ''--root'' (ra_root a)
     (push_value ''--api-key-env'' (ra_api_key_env a)
     (push_value ''--base-url'' (ra_base_url a)
     (push_value ''--model'' (ra_model a)
     (push_value ''--provider'' (map_option provider_preset_str (ra_provider a))
     (push_value ''--engine'' (map_option engine_preset_str (ra_engine a)) []))))))))"

section \<open>Settings\<close>

record live_settings =
  ls_engine :: engine_preset
  ls_provider :: "provider_preset option"
  ls_base_url :: string
  ls_api_key_env :: "string option"
  ls_model :: string
  ls_root :: string
  ls_system_prompt :: string
  ls_tools :: "json list"
  ls_codex_command :: "codex_app_server_command option"
  ls_engine_config :: engine_config

record host_env =
  he_local :: local_env
  he_url :: url_crate
  he_var :: "string \<Rightarrow> string option"

definition resolve_root :: "host_env \<Rightarrow> string \<Rightarrow> string + string" where
  "resolve_root he path =
     map_err (\<lambda>_. ''could not resolve tool root '' @ to_string_lossy path) (le_canonicalize (he_local he) path)"

definition default_system_prompt :: "json list \<Rightarrow> string \<Rightarrow> string" where
  "default_system_prompt tools root =
     ''You are Hermes RS, a precise and helpful agent. You may inspect the workspace at '' @ to_string_lossy root
     @ '' using read_file and search_files. These tools are read-only.''
     @ (if catalog_enables_delegation tools then '' You may delegate focused independent subtasks to isolated leaf agents.'' else [])
     @ (if catalog_enables_terminal tools
        then '' The worker sandbox is read-only, but the Hermes-hosted terminal dynamic tool may run one command at a time after the user explicitly approves it. Use that tool when the user asks you to run a command; do not mistake the worker sandbox for a prohibition on proposing the hosted tool.''
        else '' Never claim to have modified files or run commands.'')"

text \<open>The endpoint and the engine that the arguments ask for.\<close>

definition engine_settings ::
  "host_env \<Rightarrow> runtime_args \<Rightarrow> engine_preset \<Rightarrow> provider_preset
     \<Rightarrow> string + string \<times> string option \<times> codex_app_server_command option \<times> engine_config" where
  "engine_settings he arguments engine provider =
     (case engine of
        PresetDirect \<Rightarrow>
          and_then (ensure (ra_codex_command arguments = None) ''--codex-command requires --engine codex'') (\<lambda>_.
          and_then (ensure (ra_reasoning arguments = None) ''--reasoning currently requires --engine codex'') (\<lambda>_.
          let (default_base_url, default_api_key_env) = provider_defaults provider;
              base_url = (case ra_base_url arguments of None \<Rightarrow> default_base_url | Some url \<Rightarrow> url) in
          and_then (ensure (base_url \<noteq> []) ''--base-url is required with --provider custom'') (\<lambda>_.
          and_then (map_err openai_config_error_text (validate_base_url (he_url he) base_url)) (\<lambda>_.
          Ok (base_url, (case ra_api_key_env arguments of Some name \<Rightarrow> Some name | None \<Rightarrow> default_api_key_env),
              None, EngineDirect)))))
      | PresetCodex \<Rightarrow>
          and_then (ensure (ra_provider arguments = None \<and> ra_base_url arguments = None \<and> ra_api_key_env arguments = None)
            ''--provider, --base-url, and --api-key-env apply only to --engine direct'') (\<lambda>_.
          Ok ([], None,
              Some (command_new (case ra_codex_command arguments of None \<Rightarrow> ''codex'' | Some path \<Rightarrow> path)),
              EngineCodexAppServer
                (effort_of_preset (case ra_reasoning arguments of None \<Rightarrow> ReasoningLow | Some r \<Rightarrow> r)) HermesOwnedEffectsV1)))"

definition engine_or_default :: "runtime_args \<Rightarrow> engine_preset" where
  "engine_or_default arguments = (case ra_engine arguments of None \<Rightarrow> PresetDirect | Some engine \<Rightarrow> engine)"

definition provider_or_default :: "runtime_args \<Rightarrow> provider_preset" where
  "provider_or_default arguments = (case ra_provider arguments of None \<Rightarrow> PresetOpenAi | Some provider \<Rightarrow> provider)"

definition settings_with_tools :: "host_env \<Rightarrow> runtime_args \<Rightarrow> json list \<Rightarrow> string + live_settings" where
  "settings_with_tools he arguments tools =
     (let engine = engine_or_default arguments; provider = provider_or_default arguments in
      and_then (ok_or ''--model is required for a new or ephemeral session'' (ra_model arguments)) (\<lambda>model.
      and_then (ensure (\<not> (model = [] \<or> trim model \<noteq> model)) ''model must be non-empty and have no surrounding whitespace'') (\<lambda>_.
      and_then (resolve_root he (case ra_root arguments of None \<Rightarrow> ''.'' | Some path \<Rightarrow> path)) (\<lambda>root.
      and_then (engine_settings he arguments engine provider) (\<lambda>(base_url, api_key_env, codex_command, engine_config).
      and_then (map_err local_tools_config_error_text (local_tools_new (he_local he) root ''session-config-validation'')) (\<lambda>_.
      Ok \<lparr>ls_engine = engine, ls_provider = (if engine = PresetDirect then Some provider else None), ls_base_url = base_url,
          ls_api_key_env = api_key_env, ls_model = model, ls_root = root,
          ls_system_prompt = (case ra_system arguments of None \<Rightarrow> default_system_prompt tools root | Some prompt \<Rightarrow> prompt),
          ls_tools = tools, ls_codex_command = codex_command, ls_engine_config = engine_config\<rparr>))))))"

definition settings_for_new :: "host_env \<Rightarrow> runtime_args \<Rightarrow> string + live_settings" where
  "settings_for_new he arguments =
     settings_with_tools he arguments
       (case engine_or_default arguments of PresetDirect \<Rightarrow> agent_catalog | PresetCodex \<Rightarrow> local_catalog)"

definition settings_for_gateway :: "host_env \<Rightarrow> runtime_args \<Rightarrow> string + live_settings" where
  "settings_for_gateway he arguments =
     settings_with_tools he arguments
       (case engine_or_default arguments of PresetDirect \<Rightarrow> background_catalog | PresetCodex \<Rightarrow> operator_catalog)"

section \<open>Settings of a stored session\<close>

definition reject_changed :: "string \<Rightarrow> string option \<Rightarrow> string option \<Rightarrow> string + unit" where
  "reject_changed name supplied frozen =
     ensure (\<not> (supplied \<noteq> None \<and> supplied \<noteq> frozen)) (name @ '' cannot change for an existing session'')"

definition direct_from_config :: "session_config \<Rightarrow> provider_preset \<Rightarrow> live_settings" where
  "direct_from_config config provider =
     \<lparr>ls_engine = PresetDirect, ls_provider = Some provider, ls_base_url = sc_base_url config, ls_api_key_env = sc_api_key_env config,
      ls_model = sc_model config, ls_root = sc_tool_root config, ls_system_prompt = sc_system_prompt config, ls_tools = sc_tools config,
      ls_codex_command = None, ls_engine_config = sc_engine_config config\<rparr>"

definition codex_from_snapshot :: "session_snapshot \<Rightarrow> string option \<Rightarrow> live_settings" where
  "codex_from_snapshot snapshot command =
     (let config = ss_config snapshot in
      \<lparr>ls_engine = PresetCodex, ls_provider = None, ls_base_url = sc_base_url config, ls_api_key_env = None,
       ls_model = sc_model config, ls_root = sc_tool_root config, ls_system_prompt = sc_system_prompt config, ls_tools = sc_tools config,
       ls_codex_command = Some (command_new (case command of None \<Rightarrow> ''codex'' | Some path \<Rightarrow> path)),
       ls_engine_config = sc_engine_config config\<rparr>)"

definition settings_for_resume :: "host_env \<Rightarrow> runtime_args \<Rightarrow> session_snapshot \<Rightarrow> string + live_settings" where
  "settings_for_resume he arguments snapshot =
     (let config = ss_config snapshot; debug = le_debug_str (he_local he) in
      and_then (engine_from_config debug config) (\<lambda>engine.
      and_then (ensure (\<not> (case ra_engine arguments of None \<Rightarrow> False | Some value \<Rightarrow> value \<noteq> engine))
        ''--engine cannot change for an existing session'') (\<lambda>_.
      and_then (reject_changed ''--model'' (ra_model arguments) (Some (sc_model config))) (\<lambda>_.
      and_then (reject_changed ''--system'' (ra_system arguments) (Some (sc_system_prompt config))) (\<lambda>_.
      and_then (case ra_root arguments of
          None \<Rightarrow> Ok ()
        | Some supplied \<Rightarrow> and_then (resolve_root he supplied) (\<lambda>resolved.
            ensure (path_eq resolved (sc_tool_root config)) ''--root cannot change for an existing session'')) (\<lambda>_.
      case engine of
        PresetDirect \<Rightarrow>
          and_then (ensure (ra_codex_command arguments = None) ''--codex-command requires a Codex session'') (\<lambda>_.
          and_then (ensure (ra_reasoning arguments = None) ''--reasoning requires a Codex session'') (\<lambda>_.
          and_then (provider_from_adapter debug (sc_provider_adapter config)) (\<lambda>provider.
          and_then (ensure (\<not> (case ra_provider arguments of None \<Rightarrow> False | Some value \<Rightarrow> value \<noteq> provider))
            ''--provider cannot change for an existing session'') (\<lambda>_.
          and_then (reject_changed ''--base-url'' (ra_base_url arguments) (Some (sc_base_url config))) (\<lambda>_.
          and_then (reject_changed ''--api-key-env'' (ra_api_key_env arguments) (sc_api_key_env config)) (\<lambda>_.
          Ok (direct_from_config config provider)))))))
      | PresetCodex \<Rightarrow>
          and_then (ensure (ra_provider arguments = None \<and> ra_base_url arguments = None \<and> ra_api_key_env arguments = None)
            ''--provider, --base-url, and --api-key-env do not apply to a Codex session'') (\<lambda>_.
          (case sc_engine_config config of
             EngineDirect \<Rightarrow> Err ''Codex session has incompatible frozen engine configuration''
           | EngineCodexAppServer effort profile \<Rightarrow>
               and_then (ensure (\<not> (case ra_reasoning arguments of None \<Rightarrow> False | Some value \<Rightarrow> effort_of_preset value \<noteq> effort))
                 ''--reasoning cannot change for an existing session'') (\<lambda>_.
               Ok (codex_from_snapshot snapshot (ra_codex_command arguments)))))))))))"

definition settings_from_snapshot :: "(string \<Rightarrow> string) \<Rightarrow> session_snapshot \<Rightarrow> string + live_settings" where
  "settings_from_snapshot debug snapshot =
     and_then (engine_from_config debug (ss_config snapshot)) (\<lambda>engine.
     case engine of
       PresetDirect \<Rightarrow> and_then (provider_from_adapter debug (sc_provider_adapter (ss_config snapshot))) (\<lambda>provider.
         Ok (direct_from_config (ss_config snapshot) provider))
     | PresetCodex \<Rightarrow> Ok (codex_from_snapshot snapshot None))"

definition settings_for_host :: "(string \<Rightarrow> string) \<Rightarrow> session_snapshot \<Rightarrow> live_settings \<Rightarrow> string + live_settings" where
  "settings_for_host debug snapshot host =
     and_then (settings_from_snapshot debug snapshot) (\<lambda>settings.
     and_then (ensure (ls_engine settings = ls_engine host)
       (''session engine '' @ engine_preset_str (ls_engine settings) @ '' does not match gateway engine ''
        @ engine_preset_str (ls_engine host))) (\<lambda>_.
     Ok (if ls_engine settings = PresetCodex then settings\<lparr>ls_codex_command := ls_codex_command host\<rparr> else settings)))"

section \<open>What a new session freezes\<close>

definition engine_identity :: "live_settings \<Rightarrow> string + string \<times> transport_kind \<times> string" where
  "engine_identity settings =
     (case ls_engine settings of
        PresetDirect \<Rightarrow>
          and_then (ok_or ''direct engine has no configured provider adapter'' (ls_provider settings)) (\<lambda>provider.
          Ok (''rust-v1:chat-completions:'' @ provider_preset_str provider @ '':'' @ ls_model settings,
              ChatCompletions, provider_preset_str provider))
      | PresetCodex \<Rightarrow>
          (case ls_engine_config settings of
             EngineDirect \<Rightarrow> Err ''Codex session has incompatible engine configuration''
           | EngineCodexAppServer effort profile \<Rightarrow>
               Ok (''rust-v1:codex-app-server:'' @ ls_model settings @ '':effort='' @ reasoning_effort_str effort
                     @ '':authority='' @ authority_profile_str profile,
                   CodexAppServer, ''codex-app-server'')))"

definition settings_session_config :: "serde \<Rightarrow> live_settings \<Rightarrow> session_id \<Rightarrow> string + session_config" where
  "settings_session_config sx settings session_id =
     and_then (cd_enc (sx_tools sx) (ls_tools settings)) (\<lambda>tools_bytes.
     and_then (engine_identity settings) (\<lambda>(engine_id, transport, provider_adapter).
     and_then (map_err prompt_manifest_error_text (engine_id_new engine_id)) (\<lambda>engine.
     and_then (ok_or ''tool root is not valid UTF-8'' (path_to_str (ls_root settings))) (\<lambda>root.
     and_then (map_err id_error_text (lineage_id_new (session_id_str session_id))) (\<lambda>lineage_id.
     and_then (map_err prompt_manifest_error_text (manifest_digest_new (sx_sha256 sx (ls_system_prompt settings)))) (\<lambda>prompt_digest.
     and_then (map_err prompt_manifest_error_text (manifest_digest_new (sx_sha256 sx tools_bytes))) (\<lambda>tools_digest.
     and_then (map_err prompt_manifest_error_text (prompt_manifest_new 1 engine prompt_digest tools_digest)) (\<lambda>manifest.
     Ok \<lparr>sc_session_id = session_id, sc_lineage_id = lineage_id, sc_prompt_manifest = manifest,
         sc_engine_config = ls_engine_config settings, sc_transport = transport, sc_provider_adapter = provider_adapter,
         sc_base_url = ls_base_url settings, sc_api_key_env = ls_api_key_env settings, sc_model = ls_model settings,
         sc_tool_root = root, sc_system_prompt = ls_system_prompt settings, sc_tools = ls_tools settings\<rparr>))))))))"

text \<open>The key of the provider, from the environment.\<close>

definition read_api_key :: "host_env \<Rightarrow> string option \<Rightarrow> string + string option" where
  "read_api_key he variable =
     transpose_opt (map_option (\<lambda>name.
       and_then (ok_or (''provider credential environment variable '' @ name @ '' is not set'') (he_var he name)) (\<lambda>key.
       and_then (ensure (key \<noteq> []) (''provider credential environment variable '' @ name @ '' is empty'')) (\<lambda>_.
       Ok key))) variable)"

section \<open>What the settings satisfy\<close>

lemma settings_with_tools_ok:
  assumes "settings_with_tools he arguments tools = Ok settings"
  obtains model root where "ra_model arguments = Some model"
    "resolve_root he (case ra_root arguments of None \<Rightarrow> ''.'' | Some path \<Rightarrow> path) = Ok root"
    "engine_settings he arguments (engine_or_default arguments) (provider_or_default arguments)
     = Ok (ls_base_url settings, ls_api_key_env settings, ls_codex_command settings, ls_engine_config settings)"
    "settings = \<lparr>ls_engine = engine_or_default arguments,
       ls_provider = (if engine_or_default arguments = PresetDirect then Some (provider_or_default arguments) else None),
       ls_base_url = ls_base_url settings, ls_api_key_env = ls_api_key_env settings, ls_model = model, ls_root = root,
       ls_system_prompt = (case ra_system arguments of None \<Rightarrow> default_system_prompt tools root | Some prompt \<Rightarrow> prompt),
       ls_tools = tools, ls_codex_command = ls_codex_command settings, ls_engine_config = ls_engine_config settings\<rparr>"
  using assms by (auto simp: settings_with_tools_def Let_def and_then_eq_Inr)

lemma session_config_ok:
  assumes "settings_session_config sx settings session_id = Ok config"
  obtains engine transport adapter tools_bytes where
    "engine_identity settings = Ok (engine, transport, adapter)" "path_to_str (ls_root settings) = Some (ls_root settings)"
    "cd_enc (sx_tools sx) (ls_tools settings) = Ok tools_bytes" "unpadded engine" "unpadded (session_id_str session_id)"
    "digest_ok (sx_sha256 sx (ls_system_prompt settings))" "digest_ok (sx_sha256 sx tools_bytes)"
    "config = \<lparr>sc_session_id = session_id, sc_lineage_id = LineageId (session_id_str session_id),
       sc_prompt_manifest = \<lparr>pm_revision = 1, pm_engine = EngineId engine,
         pm_system_prompt = ManifestDigest (sx_sha256 sx (ls_system_prompt settings)),
         pm_tool_catalog = ManifestDigest (sx_sha256 sx tools_bytes)\<rparr>,
       sc_engine_config = ls_engine_config settings, sc_transport = transport, sc_provider_adapter = adapter,
       sc_base_url = ls_base_url settings, sc_api_key_env = ls_api_key_env settings, sc_model = ls_model settings,
       sc_tool_root = ls_root settings, sc_system_prompt = ls_system_prompt settings, sc_tools = ls_tools settings\<rparr>"
  using assms
  by (auto simp: settings_session_config_def and_then_eq_Inr path_to_str_def split: if_splits)

lemma config_storable:
  assumes "settings_session_config sx settings session_id = Ok config"
    "encodes (sx_tools sx) (ls_tools settings)" "encodes (sx_transport sx) (sc_transport config)"
    "encodes (sx_engine_config sx) (ls_engine_config settings)"
  shows "storable_config sx config" "sc_session_id config = session_id"
  using assms by (auto elim!: session_config_ok simp del: append.simps simp: storable_config_def manifest_valid_def i64_max_def)

lemma reject_same [simp]: "reject_changed name (Some v) (Some v) = Ok ()" "reject_changed name None frozen = Ok ()"
  by (simp_all add: reject_changed_def)

lemma reject_changed_Inr: "reject_changed name supplied frozen = Inr u \<longleftrightarrow> supplied = None \<or> supplied = frozen"
  by (auto simp: reject_changed_def)

text \<open>The settings that a configuration holds: all but the command that starts Codex.\<close>

lemma settings_of_config:
  assumes new: "settings_with_tools he arguments tools = Ok settings"
    and config: "settings_session_config sx settings session_id = Ok config" and "ss_config snapshot = config"
  shows "if ls_engine settings = PresetDirect
     then (\<exists>provider. engine_from_config debug config = Ok PresetDirect \<and> ls_provider settings = Some provider
       \<and> provider_from_adapter debug (sc_provider_adapter config) = Ok provider \<and> direct_from_config config provider = settings)
     else engine_from_config debug config = Ok PresetCodex
       \<and> codex_from_snapshot snapshot (ra_codex_command arguments) = settings"
proof -
  obtain engine transport adapter bytes where id: "engine_identity settings = Ok (engine, transport, adapter)"
    and c: "config = \<lparr>sc_session_id = session_id, sc_lineage_id = LineageId (session_id_str session_id),
       sc_prompt_manifest = \<lparr>pm_revision = 1, pm_engine = EngineId engine,
         pm_system_prompt = ManifestDigest (sx_sha256 sx (ls_system_prompt settings)),
         pm_tool_catalog = ManifestDigest (sx_sha256 sx bytes)\<rparr>,
       sc_engine_config = ls_engine_config settings, sc_transport = transport, sc_provider_adapter = adapter,
       sc_base_url = ls_base_url settings, sc_api_key_env = ls_api_key_env settings, sc_model = ls_model settings,
       sc_tool_root = ls_root settings, sc_system_prompt = ls_system_prompt settings, sc_tools = ls_tools settings\<rparr>"
    using config by (rule session_config_ok)
  obtain model root where s: "engine_settings he arguments (engine_or_default arguments) (provider_or_default arguments)
     = Ok (ls_base_url settings, ls_api_key_env settings, ls_codex_command settings, ls_engine_config settings)"
    "settings = \<lparr>ls_engine = engine_or_default arguments,
       ls_provider = (if engine_or_default arguments = PresetDirect then Some (provider_or_default arguments) else None),
       ls_base_url = ls_base_url settings, ls_api_key_env = ls_api_key_env settings, ls_model = model, ls_root = root,
       ls_system_prompt = (case ra_system arguments of None \<Rightarrow> default_system_prompt tools root | Some prompt \<Rightarrow> prompt),
       ls_tools = tools, ls_codex_command = ls_codex_command settings, ls_engine_config = ls_engine_config settings\<rparr>"
    using new by (rule settings_with_tools_ok)
  show ?thesis
  proof (cases "engine_or_default arguments")
    case PresetDirect
    have none: "ls_codex_command settings = None" "ls_engine_config settings = EngineDirect"
      using s(1) PresetDirect by (auto simp: engine_settings_def Let_def and_then_eq_Inr split: prod.splits)
    have fields: "ls_engine settings = PresetDirect" "ls_provider settings = Some (provider_or_default arguments)"
      using PresetDirect by (subst s(2); simp)+
    have "transport = ChatCompletions" "adapter = provider_preset_str (provider_or_default arguments)"
      using id fields by (auto simp: engine_identity_def)
    then show ?thesis
      using fields none
      by (cases "provider_or_default arguments"; cases settings)
         (simp_all add: engine_from_config_def c provider_from_adapter_def direct_from_config_def)
  next
    case PresetCodex
    have fields: "ls_engine settings = PresetCodex" "ls_provider settings = None"
      using PresetCodex by (subst s(2); simp)+
    have rest: "ls_base_url settings = []" "ls_api_key_env settings = None" "ls_codex_command settings
       = Some (command_new (case ra_codex_command arguments of None \<Rightarrow> ''codex'' | Some path \<Rightarrow> path))"
      using s(1) PresetCodex by (auto simp: engine_settings_def and_then_eq_Inr)
    have "transport = CodexAppServer" "adapter = ''codex-app-server''"
      using id fields by (auto simp: engine_identity_def split: engine_config.splits)
    then show ?thesis
      using fields rest assms(3) by (cases settings) (simp add: engine_from_config_def c codex_from_snapshot_def)
  qed
qed

lemma settings_engine_args:
  assumes new: "settings_with_tools he arguments tools = Ok settings"
  shows "if ls_engine settings = PresetDirect
     then ra_codex_command arguments = None \<and> ra_reasoning arguments = None
       \<and> (\<forall>p. ra_provider arguments = Some p \<longrightarrow> ls_provider settings = Some p)
       \<and> (\<forall>u. ra_base_url arguments = Some u \<longrightarrow> ls_base_url settings = u)
       \<and> (\<forall>k. ra_api_key_env arguments = Some k \<longrightarrow> ls_api_key_env settings = Some k)
     else ra_provider arguments = None \<and> ra_base_url arguments = None \<and> ra_api_key_env arguments = None
       \<and> (\<exists>effort profile. ls_engine_config settings = EngineCodexAppServer effort profile
           \<and> (\<forall>r. ra_reasoning arguments = Some r \<longrightarrow> effort_of_preset r = effort))"
    "\<forall>e. ra_engine arguments = Some e \<longrightarrow> ls_engine settings = e" "ra_model arguments = Some (ls_model settings)"
    "\<forall>p. ra_system arguments = Some p \<longrightarrow> ls_system_prompt settings = p"
    "\<forall>r. ra_root arguments = Some r \<longrightarrow> resolve_root he r = Ok (ls_root settings)"
proof -
  obtain model root where s: "ra_model arguments = Some model"
    "resolve_root he (case ra_root arguments of None \<Rightarrow> ''.'' | Some path \<Rightarrow> path) = Ok root"
    "engine_settings he arguments (engine_or_default arguments) (provider_or_default arguments)
     = Ok (ls_base_url settings, ls_api_key_env settings, ls_codex_command settings, ls_engine_config settings)"
    "settings = \<lparr>ls_engine = engine_or_default arguments,
       ls_provider = (if engine_or_default arguments = PresetDirect then Some (provider_or_default arguments) else None),
       ls_base_url = ls_base_url settings, ls_api_key_env = ls_api_key_env settings, ls_model = model, ls_root = root,
       ls_system_prompt = (case ra_system arguments of None \<Rightarrow> default_system_prompt tools root | Some prompt \<Rightarrow> prompt),
       ls_tools = tools, ls_codex_command = ls_codex_command settings, ls_engine_config = ls_engine_config settings\<rparr>"
    using new by (rule settings_with_tools_ok)
  have fields: "ls_engine settings = engine_or_default arguments"
    "ls_provider settings = (if engine_or_default arguments = PresetDirect then Some (provider_or_default arguments) else None)"
    "ls_model settings = model" "ls_root settings = root"
    "ls_system_prompt settings = (case ra_system arguments of None \<Rightarrow> default_system_prompt tools root | Some prompt \<Rightarrow> prompt)"
    by (subst s(4); simp)+
  show "\<forall>e. ra_engine arguments = Some e \<longrightarrow> ls_engine settings = e" "ra_model arguments = Some (ls_model settings)"
    "\<forall>p. ra_system arguments = Some p \<longrightarrow> ls_system_prompt settings = p"
    "\<forall>r. ra_root arguments = Some r \<longrightarrow> resolve_root he r = Ok (ls_root settings)"
    using s(1,2) by (auto simp: fields engine_or_default_def)
  show "if ls_engine settings = PresetDirect
     then ra_codex_command arguments = None \<and> ra_reasoning arguments = None
       \<and> (\<forall>p. ra_provider arguments = Some p \<longrightarrow> ls_provider settings = Some p)
       \<and> (\<forall>u. ra_base_url arguments = Some u \<longrightarrow> ls_base_url settings = u)
       \<and> (\<forall>k. ra_api_key_env arguments = Some k \<longrightarrow> ls_api_key_env settings = Some k)
     else ra_provider arguments = None \<and> ra_base_url arguments = None \<and> ra_api_key_env arguments = None
       \<and> (\<exists>effort profile. ls_engine_config settings = EngineCodexAppServer effort profile
           \<and> (\<forall>r. ra_reasoning arguments = Some r \<longrightarrow> effort_of_preset r = effort))"
  proof (cases "engine_or_default arguments")
    case PresetDirect
    then show ?thesis
      using s(3) by (auto simp: fields engine_settings_def Let_def and_then_eq_Inr provider_or_default_def split: prod.splits)
  next
    case PresetCodex
    have "ls_engine_config settings
      = EngineCodexAppServer (effort_of_preset (case ra_reasoning arguments of None \<Rightarrow> ReasoningLow | Some r \<Rightarrow> r)) HermesOwnedEffectsV1"
      "ra_provider arguments = None" "ra_base_url arguments = None" "ra_api_key_env arguments = None"
      using s(3) PresetCodex by (auto simp: engine_settings_def and_then_eq_Inr)
    then show ?thesis using PresetCodex by (simp add: fields)
  qed
qed

lemma resume_with_same_arguments:
  assumes new: "settings_with_tools he arguments tools = Ok settings"
    and config: "settings_session_config sx settings session_id = Ok config" and snapshot: "ss_config snapshot = config"
  shows "settings_for_resume he arguments snapshot = Ok settings"
proof -
  note args = settings_engine_args [OF new] and stored = settings_of_config [OF assms, of "le_debug_str (he_local he)"]
  have c: "sc_model config = ls_model settings" "sc_system_prompt config = ls_system_prompt settings"
    "sc_tool_root config = ls_root settings" "sc_base_url config = ls_base_url settings"
    "sc_api_key_env config = ls_api_key_env settings" "sc_engine_config config = ls_engine_config settings"
    by (rule session_config_ok [OF config]; simp)+
  have common: "reject_changed ''--model'' (ra_model arguments) (Some (sc_model config)) = Ok ()"
    "reject_changed ''--system'' (ra_system arguments) (Some (sc_system_prompt config)) = Ok ()"
    "(case ra_root arguments of None \<Rightarrow> Ok () | Some supplied \<Rightarrow> and_then (resolve_root he supplied) (\<lambda>resolved.
       ensure (path_eq resolved (sc_tool_root config)) ''--root cannot change for an existing session'')) = Ok ()"
    "(case ra_engine arguments of None \<Rightarrow> False | Some value \<Rightarrow> value \<noteq> ls_engine settings) = False"
    using args(2-5) by (cases "ra_system arguments"; cases "ra_root arguments"; cases "ra_engine arguments"; simp add: c)+
  show ?thesis
  proof (cases "ls_engine settings")
    case PresetDirect
    obtain provider where p: "engine_from_config (le_debug_str (he_local he)) config = Ok PresetDirect"
      "ls_provider settings = Some provider" "direct_from_config config provider = settings"
      "provider_from_adapter (le_debug_str (he_local he)) (sc_provider_adapter config) = Ok provider"
      using stored PresetDirect by auto
    have "reject_changed ''--base-url'' (ra_base_url arguments) (Some (sc_base_url config)) = Ok ()"
      "reject_changed ''--api-key-env'' (ra_api_key_env arguments) (sc_api_key_env config) = Ok ()"
      "(case ra_provider arguments of None \<Rightarrow> False | Some value \<Rightarrow> value \<noteq> provider) = False"
      "ra_codex_command arguments = None" "ra_reasoning arguments = None"
      using args(1) PresetDirect p(2)
      by (cases "ra_base_url arguments"; cases "ra_api_key_env arguments"; cases "ra_provider arguments"; simp add: c)+
    then show ?thesis
      using p common(1-3) common(4) [unfolded PresetDirect] by (simp add: settings_for_resume_def snapshot)
  next
    case PresetCodex
    obtain effort profile where e: "ls_engine_config settings = EngineCodexAppServer effort profile"
      "(case ra_reasoning arguments of None \<Rightarrow> False | Some value \<Rightarrow> effort_of_preset value \<noteq> effort) = False"
      using args(1) PresetCodex by (auto split: option.splits)
    show ?thesis
      using stored args(1) common(1-3) common(4) [unfolded PresetCodex] e PresetCodex by (simp add: settings_for_resume_def snapshot c)
  qed
qed

text \<open>Whatever the arguments, a resumed host differs from the stored settings in the Codex command at most.\<close>

lemma resume_keeps_config:
  assumes "settings_for_resume he arguments snapshot = Ok resumed"
  shows "\<exists>stored. settings_from_snapshot (le_debug_str (he_local he)) snapshot = Ok stored
    \<and> resumed = stored\<lparr>ls_codex_command := ls_codex_command resumed\<rparr>"
proof -
  obtain engine where e: "engine_from_config (le_debug_str (he_local he)) (ss_config snapshot) = Ok engine"
    using assms by (auto simp: settings_for_resume_def Let_def and_then_eq_Inr)
  show ?thesis
  proof (cases engine)
    case PresetDirect
    then show ?thesis
      using assms e
      by (auto simp: settings_for_resume_def settings_from_snapshot_def Let_def and_then_eq_Inr direct_from_config_def)
  next
    case PresetCodex
    then show ?thesis
      using assms e
      by (auto simp: settings_for_resume_def settings_from_snapshot_def Let_def and_then_eq_Inr codex_from_snapshot_def
          split: engine_config.splits)
  qed
qed

lemma snapshot_settings:
  assumes "settings_with_tools he arguments tools = Ok settings"
    "settings_session_config sx settings session_id = Ok config" "ss_config snapshot = config"
  shows "\<exists>stored. settings_from_snapshot debug snapshot = Ok stored \<and> stored = settings\<lparr>ls_codex_command := ls_codex_command stored\<rparr>"
  using settings_of_config [OF assms, of debug]
  by (cases "ls_engine settings") (auto simp: settings_from_snapshot_def codex_from_snapshot_def Let_def assms(3))

section \<open>Property\<close>

text \<open>
  A session keeps the settings it was created with. What \<open>create\<close> stored and returned is what a later
  \<open>load\<close> gives; from it \<open>from_snapshot\<close> rebuilds the settings, \<open>for_resume\<close> with the arguments of the creation gives
  exactly the settings back, and \<open>for_resume\<close> with any other arguments is refused or gives settings that differ in
  the Codex command only: model, prompt, root, tools, endpoint, credential name and engine are frozen.
\<close>

theorem session_keeps_its_settings:
  assumes "settings_with_tools he arguments tools = Ok settings"
    "settings_session_config sx settings session_id = Ok config"
    "encodes (sx_tools sx) tools" "encodes (sx_transport sx) (sc_transport config)"
    "encodes (sx_engine_config sx) (ls_engine_config settings)"
    "sessions_inv sx d" "session_create sx now config d = (Ok created, d')"
  shows "session_load sx session_id d' = (Ok created, d')
    \<and> (\<exists>command. settings_from_snapshot debug created = Ok (settings\<lparr>ls_codex_command := command\<rparr>))
    \<and> settings_for_resume he arguments created = Ok settings
    \<and> (case settings_for_resume he other created of Err e \<Rightarrow> True
       | Ok resumed \<Rightarrow> resumed = settings\<lparr>ls_codex_command := ls_codex_command resumed\<rparr>)"
proof -
  have "ls_tools settings = tools" by (rule settings_with_tools_ok [OF assms(1)]) (metis live_settings.select_convs(8))
  then have st: "storable_config sx config" and id: "sc_session_id config = session_id"
    using config_storable [OF assms(2)] assms(3-5) by auto
  have run: "create_session_in_transaction sx now config d = (Inr created, d')"
    using assms(7) by (simp add: session_create_def transaction_ok)
  then have "creatable sx d config" using create_in_transaction(2) [OF assms(6) st, of now] by fastforce
  then have made: "created = new_session config" "sessions_of sx d' = (sessions_of sx d)(session_id \<mapsto> created)"
    using create_in_transaction(1) [OF assms(6) st, of now] run by (auto simp: id)
  have "sessions_of sx d' session_id = Some created" by (simp add: made(2))
  then have load: "session_load sx session_id d' = (Ok created, d')"
    by (simp add: session_load_def act_try_def sessions_of_def split: sum.splits)
  have c: "ss_config created = config" by (simp add: made(1) new_session_def)
  obtain stored where stored: "settings_from_snapshot debug created = Ok stored"
    "stored = settings\<lparr>ls_codex_command := ls_codex_command stored\<rparr>"
    using snapshot_settings [OF assms(1,2) c] by blast
  have "resumed = settings\<lparr>ls_codex_command := ls_codex_command resumed\<rparr>"
    if "settings_for_resume he other created = Ok resumed" for resumed
  proof -
    obtain old where "settings_from_snapshot (le_debug_str (he_local he)) created = Ok old"
      "resumed = old\<lparr>ls_codex_command := ls_codex_command resumed\<rparr>"
      using resume_keeps_config [OF \<open>settings_for_resume he other created = Ok resumed\<close>] by blast
    moreover have "old = settings\<lparr>ls_codex_command := ls_codex_command old\<rparr>"
      using snapshot_settings [OF assms(1,2) c, of "le_debug_str (he_local he)"] calculation(1) by auto
    ultimately show ?thesis by (metis live_settings.surjective live_settings.update_convs(9))
  qed
  then show ?thesis
    using load stored resume_with_same_arguments [OF assms(1,2) c] by (auto split: sum.splits)
qed

text \<open>A host whose root is \<open>/r\<close>, and a direct session with an endpoint on the command line.\<close>

definition sample_host :: host_env where
  "sample_host =
     \<lparr>he_local = (sample_env [])\<lparr>le_canonicalize := (\<lambda>path. Ok ''/r'')\<rparr>,
      he_url = \<lparr>uc_parse = (\<lambda>t. Ok \<lparr>url_scheme = ''https'', url_username = [], url_password = None, url_host = Some ''h'', url_text = t\<rparr>),
        uc_join = (\<lambda>u t. Ok (u\<lparr>url_text := url_text u @ t\<rparr>))\<rparr>,
      he_var = (\<lambda>_. None)\<rparr>"

definition sample_arguments :: runtime_args where
  "sample_arguments =
     \<lparr>ra_engine = None, ra_provider = Some PresetCustom, ra_model = Some ''m'', ra_base_url = Some ''u'', ra_api_key_env = None,
      ra_root = None, ra_system = Some ''s'', ra_codex_command = None, ra_reasoning = None\<rparr>"

definition sample_settings :: live_settings where
  "sample_settings =
     \<lparr>ls_engine = PresetDirect, ls_provider = Some PresetCustom, ls_base_url = ''u'', ls_api_key_env = None, ls_model = ''m'',
      ls_root = ''/r'', ls_system_prompt = ''s'', ls_tools = [], ls_codex_command = None, ls_engine_config = EngineDirect\<rparr>"

definition sample_live_config :: session_config where
  "sample_live_config =
     \<lparr>sc_session_id = SessionId ''n'', sc_lineage_id = LineageId ''n'',
      sc_prompt_manifest = \<lparr>pm_revision = 1, pm_engine = EngineId ''rust-v1:chat-completions:custom:m'',
        pm_system_prompt = ManifestDigest (replicate 64 (CHR ''a'')), pm_tool_catalog = ManifestDigest (replicate 64 (CHR ''a''))\<rparr>,
      sc_engine_config = EngineDirect, sc_transport = ChatCompletions, sc_provider_adapter = ''custom'', sc_base_url = ''u'',
      sc_api_key_env = None, sc_model = ''m'', sc_tool_root = ''/r'', sc_system_prompt = ''s'', sc_tools = []\<rparr>"

lemma sample_settings_made: "settings_with_tools sample_host sample_arguments [] = Ok sample_settings"
proof -
  have "trim ''m'' = ''m''" using unpadded_plain [of "''m''"] by (simp add: unpadded_def plain_char_def)
  moreover have "\<not> is_protected_path ''/r''" by code_simp
  ultimately show ?thesis
    by (simp add: settings_with_tools_def sample_arguments_def sample_settings_def sample_host_def resolve_root_def sample_env_def
        engine_or_default_def provider_or_default_def engine_settings_def Let_def ensure_def validate_base_url_def
        chat_completions_endpoint_def local_tools_new_def)
qed

lemma sample_config_made: "settings_session_config sample_serde sample_settings (SessionId ''n'') = Ok sample_live_config"
proof -
  have "unpadded ''n''" "unpadded ''rust-v1:chat-completions:custom:m''" by (rule unpadded_plain; simp add: plain_char_def)+
  moreover have "digest_ok (replicate 64 (CHR ''a''))" by (simp add: digest_ok_def lower_hex_digit_def list_all_iff)
  moreover have "utf8_valid ''/r''" by code_simp
  ultimately show ?thesis
    by (simp add: settings_session_config_def sample_settings_def sample_live_config_def sample_serde_def
        Sqlite_Schema.sample_codec_def engine_identity_def and_then_eq_Inr path_to_str_def)
qed

lemma sample_live_created:
  "session_create sample_serde 5 sample_live_config empty_database
   = (Ok (new_session sample_live_config), snd (session_create sample_serde 5 sample_live_config empty_database))"
proof -
  have "trim ''custom'' = ''custom''" "trim ''m'' = ''m''" "trim ''/r'' = ''/r''" "trim ''u'' = ''u''"
    using unpadded_plain [of "''custom''"] unpadded_plain [of "''m''"] unpadded_plain [of "''/r''"] unpadded_plain [of "''u''"]
    by (simp_all add: unpadded_def plain_char_def)
  then have "creatable sample_serde empty_database sample_live_config"
    by (simp add: creatable_def empty_sessions validate_config_def sample_live_config_def sample_serde_def Sqlite_Schema.sample_codec_def
        validate_transport_def is_absolute_def)
  moreover have "storable_config sample_serde sample_live_config"
    using config_storable(1) [OF sample_config_made]
    by (simp add: sample_settings_def sample_live_config_def sample_serde_def Sqlite_Schema.sample_codec_def encodes_def)
  ultimately have "fst (create_session_in_transaction sample_serde 5 sample_live_config empty_database) = Ok (new_session sample_live_config)"
    using create_in_transaction(1) [OF empty_sessions(1) _ _, of sample_serde sample_live_config 5] by auto
  then show ?thesis by (auto simp: session_create_def transaction_def split: prod.splits sum.splits)
qed

lemma session_keeps_its_settings_witness:
  "(\<exists>command. settings_from_snapshot (\<lambda>s. s) (new_session sample_live_config) = Ok (sample_settings\<lparr>ls_codex_command := command\<rparr>))
   \<and> settings_for_resume sample_host sample_arguments (new_session sample_live_config) = Ok sample_settings
   \<and> settings_for_resume sample_host (sample_arguments\<lparr>ra_model := Some ''n''\<rparr>) (new_session sample_live_config)
     = Err ''--model cannot change for an existing session''"
proof -
  have "encodes (sx_tools sample_serde) []" "encodes (sx_transport sample_serde) (sc_transport sample_live_config)"
    "encodes (sx_engine_config sample_serde) (ls_engine_config sample_settings)"
    by (simp_all add: sample_settings_def sample_live_config_def sample_serde_def Sqlite_Schema.sample_codec_def encodes_def)
  note run = session_keeps_its_settings [OF sample_settings_made sample_config_made this empty_sessions(1) sample_live_created,
      where debug = "\<lambda>s. s"]
  have "settings_for_resume sample_host (sample_arguments\<lparr>ra_model := Some ''n''\<rparr>) (new_session sample_live_config)
     = Err ''--model cannot change for an existing session''"
    by (simp add: settings_for_resume_def sample_arguments_def sample_live_config_def new_session_def engine_from_config_def
        reject_changed_def ensure_def)
  then show ?thesis using run by blast
qed

end
