(* ===== verification/Frames.thy ===== *)
theory Frames
  imports Runtime_Turn Codex_Engine
begin

text \<open>
  What an operation may do to its state whether it returns or fails: \<open>moves R m\<close> says that every run of \<open>m\<close>
  goes from a state to a related one. A turn and the Codex engine touch the broker only through its three
  operations, so a preorder that these respect is respected by the whole turn.
\<close>

definition moves :: "('s \<Rightarrow> 's \<Rightarrow> bool) \<Rightarrow> ('s, 'e, 'a) action \<Rightarrow> bool" where
  "moves R m \<longleftrightarrow> (\<forall>s. R s (snd (m s)))"

lemma movesD: "moves R m \<Longrightarrow> m s = (r, s') \<Longrightarrow> R s s'"
  by (metis moves_def snd_conv)

lemma movesI: "(\<And>s r s'. m s = (r, s') \<Longrightarrow> R s s') \<Longrightarrow> moves R m"
  unfolding moves_def by (metis prod.collapse)

text \<open>Preorders on states, and those that only look at a part.\<close>

locale frame =
  fixes R :: "'s \<Rightarrow> 's \<Rightarrow> bool"
  assumes refl [simp]: "R s s"
    and trans: "R s t \<Longrightarrow> R t u \<Longrightarrow> R s u"
begin

lemma basic [simp]:
  "moves R (act_return x)" "moves R (act_lift r)" "moves R (act_read f)" "moves R (act_try g)"
  by (simp_all add: moves_def act_return_def act_lift_def act_read_def act_try_def)

lemma update: "(\<And>s. R s (f s)) \<Longrightarrow> moves R (act_update f)"
  by (simp add: moves_def act_update_def)

lemma bind: "moves R m \<Longrightarrow> (\<And>x. moves R (k x)) \<Longrightarrow> moves R (act_bind m k)"
  by (rule movesI) (auto simp: act_bind_def split: prod.splits sum.splits dest: movesD intro: trans)

lemma map_err: "moves R m \<Longrightarrow> moves R (act_map_err f m)"
  by (rule movesI) (auto simp: act_map_err_def split: prod.splits dest: movesD)

lemma each: "(\<And>x. x \<in> set xs \<Longrightarrow> moves R (f x)) \<Longrightarrow> moves R (act_each f xs)"
  by (induction xs) (auto intro: bind)

lemma collect: "(\<And>x. moves R (f x)) \<Longrightarrow> moves R (act_collect f xs)"
  by (induction xs) (auto intro!: bind)

lemma zoom: "moves Q m \<Longrightarrow> (\<And>s t. Q (get s) t \<Longrightarrow> R s (put t s)) \<Longrightarrow> moves R (act_zoom get put m)"
  by (rule movesI) (auto simp: act_zoom_def split: prod.splits dest: movesD)

lemmas steps = basic bind map_err each collect

end

text \<open>Brokers that respect a preorder.\<close>

definition broker_moves :: "('b \<Rightarrow> 'b \<Rightarrow> bool) \<Rightarrow> 'b tool_broker \<Rightarrow> bool" where
  "broker_moves R broker \<longleftrightarrow>
     (\<forall>calls ids. moves R (tb_plan broker calls ids)) \<and> (\<forall>plans. moves R (tb_resolve_approvals broker plans))
     \<and> (\<forall>plans. moves R (tb_execute broker plans))"

definition on_host_tools :: "('b \<Rightarrow> 'b \<Rightarrow> bool) \<Rightarrow> 'b tool_host \<Rightarrow> 'b tool_host \<Rightarrow> bool" where
  "on_host_tools R h h' \<longleftrightarrow> R (th_tools h) (th_tools h')"

definition on_turn_tools :: "('b \<Rightarrow> 'b \<Rightarrow> bool) \<Rightarrow> ('p, 'b, 'o) turn_state \<Rightarrow> ('p, 'b, 'o) turn_state \<Rightarrow> bool" where
  "on_turn_tools R s s' \<longleftrightarrow> R (th_tools (tu_host s)) (th_tools (tu_host s'))"

definition on_engine_tools :: "('b \<Rightarrow> 'b \<Rightarrow> bool) \<Rightarrow> ('b, 'o) engine_state \<Rightarrow> ('b, 'o) engine_state \<Rightarrow> bool" where
  "on_engine_tools R s s' \<longleftrightarrow> R (th_tools (en_host s)) (th_tools (en_host s'))"

locale broker_frame = frame R for R :: "'b \<Rightarrow> 'b \<Rightarrow> bool" +
  fixes broker :: "'b tool_broker"
  assumes broker: "broker_moves R broker"

sublocale broker_frame \<subseteq> host: frame "on_host_tools R"
  by unfold_locales (auto simp: on_host_tools_def intro: trans)

sublocale broker_frame \<subseteq> turn: frame "on_turn_tools R :: ('p, 'b, 'o) turn_state \<Rightarrow> _"
  by unfold_locales (auto simp: on_turn_tools_def intro: trans)

sublocale broker_frame \<subseteq> engine: frame "on_engine_tools R :: ('b, 'o) engine_state \<Rightarrow> _"
  by unfold_locales (auto simp: on_engine_tools_def intro: trans)

section \<open>The turn\<close>

context broker_frame
begin

lemma on_tools_moves: "moves R m \<Longrightarrow> moves (on_host_tools R) (on_tools m)"
  unfolding on_tools_def by (intro host.map_err host.zoom) (auto simp: on_host_tools_def)

lemma host_moves:
  "moves (on_host_tools R) (tool_host_plan broker calls)"
  "moves (on_host_tools R) (tool_host_resolve_approvals broker plans)"
  "moves (on_host_tools R) (tool_host_execute broker plans)"
proof -
  have "moves (\<lambda>_ _. True) m" for m :: "('x, 'e, 'a) action" by (simp add: moves_def)
  then have "moves (on_host_tools R) (act_zoom th_seen_invocation_ids (\<lambda>seen h. h\<lparr>th_seen_invocation_ids := seen\<rparr>) m)"
    for m :: "(invocation_id set, runtime_error, invocation_id list) action"
    by (rule host.zoom) (simp add: on_host_tools_def)
  then show "moves (on_host_tools R) (tool_host_plan broker calls)"
    unfolding tool_host_plan_def using broker by (intro host.steps on_tools_moves) (auto simp: broker_moves_def)
qed (use broker in \<open>auto simp: tool_host_resolve_approvals_def tool_host_execute_def broker_moves_def
       intro!: host.bind on_tools_moves\<close>)

lemma on_host_moves: "moves (on_host_tools R) m \<Longrightarrow> moves (on_turn_tools R) (on_host m :: ('p, 'b, 'o, 'a) turn_action)"
  unfolding on_host_def by (rule turn.zoom [where Q = "on_host_tools R"]) (simp_all add: on_host_tools_def on_turn_tools_def)

lemma turn_small:
  "moves (on_turn_tools R) (push_event ports event)" "moves (on_turn_tools R) (push_intent intent)"
  "moves (on_turn_tools R) (push_messages ms)"
  by (auto simp: moves_def push_event_def push_intent_def push_messages_def act_bind_def act_map_err_def act_zoom_def
      act_update_def on_turn_tools_def split: prod.splits sum.splits)

lemma tool_round_moves:
  assumes "tp_tools ports = broker"
  shows "moves (on_turn_tools R) (run_tool_round ports calls :: ('p, 'b, 'o, unit) turn_action)"
  unfolding run_tool_round_def request_approval_def announce_resolved_def announce_terminal_def assms
  by (intro turn.steps turn_small on_host_moves host_moves) (auto intro!: turn.steps turn_small split: option.split)

lemma attempt_events_moves: "moves (on_turn_tools R) (attempt_events ports attempt_id events a :: ('p, 'b, 'o, _) turn_action)"
proof (induction ports attempt_id events a rule: attempt_events.induct)
  case (3 ports attempt_id event events a)
  have "moves (on_turn_tools R) (attempt_event ports attempt_id event a)"
    by (cases event) (auto simp: Let_def on_turn_tools_def intro!: turn.steps turn_small turn.update)
  then show ?case using 3 by (auto intro!: turn.bind)
qed simp_all

lemma run_attempt_moves:
  assumes "tp_tools ports = broker"
  shows "moves (on_turn_tools R) (run_attempt ports request :: ('p, 'b, 'o, _) turn_action)"
proof -
  have provider: "moves (on_turn_tools R) (act_zoom tu_provider (\<lambda>p s. s\<lparr>tu_provider := p\<rparr>) m :: ('p, 'b, 'o) turn_state \<Rightarrow> _)"
    for m :: "('p, 'e, 'a) action"
    by (rule turn.zoom [where Q = "\<lambda>_ _. True"]) (simp_all add: moves_def on_turn_tools_def)
  have final: "moves (on_turn_tools R) (handle_terminal ports attempt_id policy a :: ('p, 'b, 'o, _) turn_action)" for attempt_id policy a
    unfolding handle_terminal_def finish_final_message_def finish_with_calls_def Let_def
    by (auto intro!: turn.steps turn_small tool_round_moves assms split: option.split attempt_terminal.split)
  show ?thesis
    unfolding run_attempt_def
    by (intro turn.steps turn_small attempt_events_moves provider final turn.update) (simp add: on_turn_tools_def)
qed

lemma turn_loop_moves:
  assumes "tp_tools ports = broker"
  shows "moves (on_turn_tools R) (turn_loop ports request max_attempts remaining :: ('p, 'b, 'o, _) turn_action)"
  by (induction remaining) (auto intro!: turn.bind run_attempt_moves assms split: option.split)

lemma run_turn_moves:
  assumes "tp_tools ports = broker" "run_turn_with_limit_observed ports request max_attempts (p, b, obs) = (r, (p', b', obs'))"
  shows "R b b'"
proof (cases "if max_attempts = 0 then Err (InvalidTurn ''turn provider-attempt budget must be greater than zero'')
    else and_then (validate_request request) (\<lambda>_. tool_host_new b (ar_execution_scope request))")
  case (Inl e)
  then show ?thesis using assms(2) by (auto simp: run_turn_with_limit_observed_def)
next
  case (Inr host)
  obtain s' where run: "act_bind (turn_loop ports request max_attempts max_attempts) (finish_turn ports) (turn_start request p host obs)
      = (r, s')" "b' = th_tools (tu_host s')"
    using assms(2) Inr by (auto simp: run_turn_with_limit_observed_def split: prod.splits)
  have "moves (on_turn_tools R) (act_bind (turn_loop ports request max_attempts max_attempts) (finish_turn ports))"
    unfolding finish_turn_def by (intro turn.steps turn_loop_moves assms(1))
  from movesD [OF this run(1)] have "R (th_tools host) b'" by (simp add: on_turn_tools_def turn_start_def run(2))
  moreover have "th_tools host = b"
    using Inr by (auto simp: tool_host_new_def and_then_eq_Inr split: if_splits)
  ultimately show ?thesis by simp
qed

section \<open>The Codex engine\<close>

lemma engine_small:
  "moves (on_engine_tools R) (engine_push_event world event)" "moves (on_engine_tools R) (engine_push_intent i)"
  "moves (on_engine_tools R) (engine_push_messages ms)" "moves (on_engine_tools R) (on_worker m)"
  "moves (on_engine_tools R) (engine_fail e)" "moves (on_engine_tools R) (engine_check c message)"
  by (auto simp: moves_def engine_push_event_def engine_push_intent_def engine_push_messages_def on_worker_def engine_fail_def
      engine_check_def act_lift_def act_bind_def act_map_err_def act_zoom_def act_update_def on_engine_tools_def
      split: prod.splits sum.splits)

lemma await_moves:
  assumes "moves (on_engine_tools R) m" "\<And>s. on_engine_tools R s (abandon s)"
  shows "moves (on_engine_tools R) (await_cancellable abandon e m)"
proof (rule movesI)
  fix s r s'
  assume run: "await_cancellable abandon e m s = (r, s')"
  have skip: "on_engine_tools R s t" if "on_engine_tools R (s\<lparr>en_cancel := later\<rparr>) t" for later t
    using that by (simp add: on_engine_tools_def)
  show "on_engine_tools R s s'"
  proof (cases "en_cancel s")
    case Nil
    then show ?thesis using run movesD [OF assms(1)] by (simp add: await_cancellable_def)
  next
    case (Cons cancelled later)
    then show ?thesis
      using run skip [OF assms(2), of later] skip [OF movesD [OF assms(1)], of later]
      by (cases cancelled) (auto simp: await_cancellable_def)
  qed
qed

lemma await_worker_moves: "moves (on_engine_tools R) (await_worker world e m)"
  unfolding await_worker_def by (rule await_moves) (simp_all add: engine_small on_engine_tools_def)

lemma await_host_moves:
  assumes "\<And>b. R b (en_abandon_tools world b)" "moves (on_host_tools R) m"
  shows "moves (on_engine_tools R) (await_host world e m)"
proof -
  have "moves (on_engine_tools R) (on_engine_host m)"
    unfolding on_engine_host_def
    by (intro engine.map_err engine.zoom [where Q = "on_host_tools R"] assms(2)) (simp add: on_host_tools_def on_engine_tools_def)
  then show ?thesis
    unfolding await_host_def by (rule await_moves) (simp add: on_engine_tools_def assms(1))
qed

lemma on_engine_host_moves: "moves (on_host_tools R) m \<Longrightarrow> moves (on_engine_tools R) (on_engine_host m)"
  unfolding on_engine_host_def
  by (intro engine.map_err engine.zoom [where Q = "on_host_tools R"]) (simp_all add: on_host_tools_def on_engine_tools_def)

lemma engine_tool_moves:
  assumes "en_broker world = broker" "\<And>b. R b (en_abandon_tools world b)"
  shows "moves (on_engine_tools R) (engine_run_tool world turn request call)"
  unfolding engine_run_tool_def engine_request_approval_def engine_announce_resolved_def assms(1)
  by (intro engine.steps engine_small on_engine_host_moves host_moves await_host_moves assms(2) await_worker_moves)
     (auto intro!: engine.steps engine_small await_worker_moves split: option.split list.split)

lemma engine_event_moves:
  assumes "en_broker world = broker" "\<And>b. R b (en_abandon_tools world b)"
  shows "moves (on_engine_tools R) (engine_event world turn event)"
proof (cases event)
  case (EventNotification notification)
  then show ?thesis
    by (cases notification)
       (auto simp: engine_event_def start_message_def append_delta_def on_engine_tools_def intro!: engine.steps engine_small engine.update)
next
  case (EventRequest request)
  then show ?thesis
    by (auto simp: engine_event_def engine_request_def intro!: engine.steps engine_small engine_tool_moves assms split: option.split)
qed

lemma engine_loop_moves:
  assumes "en_broker world = broker" "\<And>b. R b (en_abandon_tools world b)"
  shows "moves (on_engine_tools R) (engine_loop world turn)"
proof -
  have step: "moves (on_engine_tools R) (engine_step world turn)"
    unfolding engine_step_def by (intro engine.bind await_worker_moves engine_event_moves assms)
  have "on_engine_tools R s (snd (engine_loop world turn s))" for s
  proof (induction "en_backlog s" arbitrary: s rule: less_induct)
    case less
    obtain r t where t: "engine_step world turn s = (r, t)" by (cases "engine_step world turn s")
    have first: "on_engine_tools R s t" by (rule movesD [OF step t])
    show ?case
    proof (cases r)
      case (Inr completed)
      have "on_engine_tools R t (snd (engine_loop world turn t))"
        using less [of t] engine_step_less [of world turn s completed t] t Inr by simp
      then show ?thesis
        using first t Inr by (auto simp: engine_loop.simps [of world turn s] intro: engine.trans)
    qed (use first t in \<open>simp add: engine_loop.simps [of world turn s]\<close>)
  qed
  then show ?thesis by (simp add: moves_def)
qed

lemma open_turn_moves: "moves (on_engine_tools R) (open_turn_of_worker world engine control request tools cwd)"
  unfolding open_turn_of_worker_def open_thread_def spawn_worker_def await_open_def Let_def
  by (intro engine.steps engine_small await_worker_moves engine.update)
     (auto simp: on_engine_tools_def intro!: engine.steps engine_small await_worker_moves split: option.split prod.split)

lemma begin_turn_moves: "moves (on_engine_tools R) (begin_turn world request turn)"
proof -
  have tail: "moves (on_engine_tools R) (act_bind (act_read (th_tools \<circ> en_host)) (\<lambda>tools.
     act_bind (act_lift (map_err (EngineError \<circ> EngineRuntime) (tool_host_new tools (er_execution_scope request)))) (\<lambda>host.
     act_update (\<lambda>s. s\<lparr>en_host := host, en_response := [], en_message_started := False\<rparr>))))"
    by (simp add: moves_def act_bind_def act_read_def act_lift_def act_update_def tool_host_new_def on_engine_tools_def)
  show ?thesis
    unfolding begin_turn_def by (rule engine.bind [OF engine.update], simp add: on_engine_tools_def)
      (rule engine.bind [OF engine_small(1) tail])
qed

lemma run_worker_moves:
  assumes "en_broker world = broker" "\<And>b. R b (en_abandon_tools world b)"
  shows "moves (on_engine_tools R) (run_worker world engine control catalog request)"
  unfolding run_worker_def end_turn_def Let_def
  by (intro engine.steps engine_small open_turn_moves begin_turn_moves engine_loop_moves assms)

lemma run_inner_moves:
  assumes "en_broker world = broker" "\<And>b. R b (en_abandon_tools world b)"
  shows "moves (on_engine_tools R) (run_inner world clock engine control catalog request)"
proof (rule movesI)
  fix s r s'
  assume run: "run_inner world clock engine control catalog request s = (r, s')"
  obtain r1 t where t: "run_worker world engine control catalog request s = (r1, t)"
    by (cases "run_worker world engine control catalog request s")
  have "th_tools (en_host s') = th_tools (en_host t)"
  proof (cases r1)
    case (Inl exit)
    then show ?thesis using run t by (cases exit) (auto simp: run_inner_def split: prod.splits)
  qed (use run t in \<open>simp add: run_inner_def\<close>)
  then show "on_engine_tools R s s'"
    using movesD [OF run_worker_moves [OF assms] t] by (simp add: on_engine_tools_def)
qed

end

end
