(* ===== verification/Live_Turn.thy ===== *)
theory Live_Turn
  imports Live_Settings Codex_Binding Codex_Engine Frames Agent_Properties
begin

text \<open>
  \<open>apps/hermesd/src/cli/chat.rs\<close>, the execution of one turn on either engine, and the \<open>chat\<close> command on it: an
  ephemeral turn, or a durable one that creates or resumes its session and appends what the turn said. An
  \<open>anyhow::Error\<close> is its message. One database file is shared by the session store, the tools and the effect
  ledger. The clock of a dropped future is external: a turn on the direct engine that loses the race against its
  cancellation leaves an arbitrary part of its work.
\<close>

section \<open>Texts of errors\<close>

definition debug_exit_code :: "int option \<Rightarrow> string" where
  "debug_exit_code code = (case code of None \<Rightarrow> ''None'' | Some c \<Rightarrow> ''Some('' @ show_int c @ '')'')"

fun codex_app_server_error_text :: "codex_app_server_error \<Rightarrow> string" where
  "codex_app_server_error_text (AppSpawn executable source) =
     ''could not spawn Codex app-server '' @ to_string_lossy executable @ '': '' @ source"
| "codex_app_server_error_text (AppMissingPipe pipe) = ''Codex app-server did not expose its '' @ pipe @ '' pipe''"
| "codex_app_server_error_text (AppIo e) = ''Codex app-server transport failed: '' @ e"
| "codex_app_server_error_text (AppEncode e) = ''could not encode Codex app-server message: '' @ e"
| "codex_app_server_error_text (AppMalformedFrame e) = ''Codex app-server emitted a malformed protocol frame: '' @ e"
| "codex_app_server_error_text (AppFrameTooLarge limit) = ''Codex app-server frame exceeded '' @ show_nat limit @ '' bytes''"
| "codex_app_server_error_text (AppProtocol m) = ''Codex app-server protocol violation: '' @ m"
| "codex_app_server_error_text (AppRemote m code message data) =
     ''Codex app-server rejected '' @ m @ '' with RPC error '' @ show_int code @ '': '' @ message"
| "codex_app_server_error_text (AppProcessExited code stderr) = ''Codex app-server exited with status '' @ debug_exit_code code"
| "codex_app_server_error_text AppShutdownTimedOut = ''Codex app-server did not exit within the shutdown timeout''"
| "codex_app_server_error_text AppRequestIdExhausted = ''Codex app-server request identity space was exhausted''"

fun codex_engine_error_text :: "codex_engine_error \<Rightarrow> string" where
  "codex_engine_error_text (EngineAppServer e) = codex_app_server_error_text e"
| "codex_engine_error_text (EngineAuthority e) = codex_authority_error_text e"
| "codex_engine_error_text (EngineRuntime e) = runtime_error_text e"
| "codex_engine_error_text (EngineConversation e) = conversation_error_text e"
| "codex_engine_error_text (EngineObserver (RuntimeEventObserverError m)) = ''runtime event observer failed: '' @ m"
| "codex_engine_error_text (EngineInvalid m) = ''invalid Codex engine turn: '' @ m"

section \<open>State\<close>

text \<open>
  What a turn works on: the database, the network as the provider and as the delegated turns see it, the registry of
  approvals, the processes that were started, and the observer.
\<close>

record ('h, 'o) live_state =
  lv_db :: database
  lv_http :: 'h
  lv_child_http :: 'h
  lv_approvals :: approval_control
  lv_shell :: "shell_event list"
  lv_observer :: 'o

text \<open>
  \<open>ve_no_worker\<close> stands for the absent worker before it is spawned, \<open>ve_dropped\<close> is what a dropped direct turn leaves.
\<close>

record ('h, 'o) live_env =
  ve_host :: host_env
  ve_agent :: "'h agent_env"
  ve_observe :: "json \<Rightarrow> ('o, runtime_event_observer_error, unit) action"
  ve_codex :: "('h agent_tools, 'o) engine_world"
  ve_clock :: interrupt_clock
  ve_no_worker :: codex_server
  ve_binding :: "codex_worker_binding codec"
  ve_open_bindings :: "session_store_error option"
  ve_dropped :: "'h agent_tools \<Rightarrow> 'h agent_tools"
  ve_home :: "string option"

text \<open>\<open>TurnHooks\<close>: the polls of the cancellation, if there is one, are known in advance.\<close>

record turn_hooks =
  tk_observed :: bool
  tk_approvals :: bool
  tk_cancellation :: "bool list option"

record live_turn_outcome =
  lo_contract :: contract_outcome
  lo_worker_binding :: "codex_worker_binding option"

type_synonym ('h, 'o, 'a) live_action = "(('h, 'o) live_state, string, 'a) action"

section \<open>The tools of a turn\<close>

definition live_tools_config ::
  "live_settings \<Rightarrow> url_crate \<Rightarrow> string \<Rightarrow> string option \<Rightarrow> string + agent_tools_config" where
  "live_tools_config settings uc state api_key =
     map_err agent_tools_config_error_text
       (case ls_engine settings of
          PresetDirect \<Rightarrow> agent_config_new uc (ls_root settings) state (ls_base_url settings) api_key (ls_model settings)
                           (catalog_enables_delegation (ls_tools settings))
        | PresetCodex \<Rightarrow> agent_config_without_delegation (ls_root settings) state (ls_model settings))"

definition live_background_parent ::
  "live_settings \<Rightarrow> session_id option \<Rightarrow> agent_tools_config \<Rightarrow> string + agent_tools_config" where
  "live_background_parent settings session_id config =
     (if catalog_uses_background_delivery (ls_tools settings)
      then and_then (ok_or ''durable background delegation requires an owning parent session'' session_id)
             (\<lambda>parent. Ok (with_background_parent parent config))
      else Ok config)"

definition live_terminal_approval ::
  "live_settings \<Rightarrow> session_id option \<Rightarrow> bool \<Rightarrow> agent_tools_config \<Rightarrow> string + agent_tools_config" where
  "live_terminal_approval settings session_id approvals config =
     (if catalog_enables_terminal (ls_tools settings)
      then and_then (ok_or ''terminal tool requires an owning session'' session_id) (\<lambda>owner.
           and_then (ensure approvals ''terminal tool requires a live session approval channel'') (\<lambda>_.
           Ok (with_terminal_approval owner config)))
      else Ok config)"

text \<open>Everything up to the journaled broker: the credential and the tools.\<close>

definition prepare_turn ::
  "('h, 'o) live_env \<Rightarrow> live_settings \<Rightarrow> string \<Rightarrow> string \<Rightarrow> session_id option \<Rightarrow> bool
     \<Rightarrow> ('h, 'o, string option \<times> 'h agent_tools) live_action" where
  "prepare_turn ve settings scope state session_id approvals = act_try (\<lambda>s.
     and_then (case ls_engine settings of PresetDirect \<Rightarrow> read_api_key (ve_host ve) (ls_api_key_env settings) | PresetCodex \<Rightarrow> Ok None) (\<lambda>api_key.
     and_then (live_tools_config settings (ae_url (ve_agent ve)) state api_key) (\<lambda>base.
     and_then (live_background_parent settings session_id base) (\<lambda>delegating.
     and_then (live_terminal_approval settings session_id approvals delegating) (\<lambda>config.
     and_then (map_err agent_tools_config_error_text
                 (agent_tools_new (ve_agent ve) config scope (lv_approvals s) (lv_db s) (lv_child_http s))) (\<lambda>tools.
     and_then (ensure (ae_open_ledger (ve_agent ve) = None) (''could not open effect ledger '' @ to_string_lossy state)) (\<lambda>_.
     and_then (map_err tool_broker_error_text (journaled_new scope)) (\<lambda>_.
     Ok (api_key, tools\<lparr>ag_shell := lv_shell s\<rparr>)))))))))"

text \<open>\<open>JournaledToolBroker\<close> over these tools: the ledger is in the database the tools use.\<close>

definition on_file_ledger :: "(effect_ledger_error, unit) db_action \<Rightarrow> ('h, tool_broker_error, unit) agent_action" where
  "on_file_ledger m = act_map_err (ToolBrokerError \<circ> effect_ledger_error_text) (on_db m)"

definition agent_ledger :: "'h agent_env \<Rightarrow> database effect_ledger" where
  "agent_ledger ae = sqlite_effect_ledger (ae_serde ae) (ae_planned_at ae) (ae_completed_at ae)"

definition live_broker :: "'h agent_env \<Rightarrow> string \<Rightarrow> 'h agent_tools tool_broker" where
  "live_broker ae scope =
     \<lparr>tb_plan = (\<lambda>calls ids. journal_plan (agent_plan ae calls ids)
        (\<lambda>plans. on_file_ledger (el_record_plans (agent_ledger ae) scope plans)) calls ids),
      tb_resolve_approvals = (\<lambda>plans. journal_resolve (agent_resolve_approvals ae plans)
        (\<lambda>resolved. on_file_ledger (el_record_approvals (agent_ledger ae) resolved)) plans),
      tb_execute = (\<lambda>plans. journal_execute (agent_execute ae plans)
        (\<lambda>terminals. on_file_ledger (el_record_terminals (agent_ledger ae) terminals)))\<rparr>"

text \<open>The turn is over: the tools are dropped, what they shared stays.\<close>

definition leave_turn :: "'h agent_tools \<Rightarrow> 'o \<Rightarrow> ('h, 'o) live_state \<Rightarrow> ('h, 'o) live_state" where
  "leave_turn tools observer s =
     s\<lparr>lv_db := ag_db tools, lv_child_http := ag_http tools, lv_approvals := agent_tools_drop tools,
       lv_shell := ag_shell tools, lv_observer := observer\<rparr>"

definition live_observe ::
  "('h, 'o) live_env \<Rightarrow> turn_hooks \<Rightarrow> json \<Rightarrow> ('o, runtime_event_observer_error, unit) action" where
  "live_observe ve hooks = (if tk_observed hooks then ve_observe ve else (\<lambda>event. act_return ()))"

section \<open>The direct engine\<close>

definition live_request ::
  "live_settings \<Rightarrow> string \<Rightarrow> provider_message list \<Rightarrow> string \<Rightarrow> agent_turn_request" where
  "live_request settings scope history prompt =
     \<lparr>ar_execution_scope = scope, ar_transport = ChatCompletions, ar_model = ls_model settings,
      ar_system_prompt = Some (ls_system_prompt settings), ar_conversation = history @ [PUser prompt],
      ar_tools = ls_tools settings\<rparr>"

definition live_ports ::
  "('h, 'o) live_env \<Rightarrow> turn_hooks \<Rightarrow> string \<Rightarrow> ('h openai_provider, 'h agent_tools, 'o) turn_ports" where
  "live_ports ve hooks scope =
     \<lparr>tp_text = ae_text (ve_agent ve), tp_provider = openai_provider_port (ae_http (ve_agent ve)) (ae_parse (ve_agent ve)),
      tp_tools = live_broker (ve_agent ve) scope, tp_observe = live_observe ve hooks\<rparr>"

text \<open>The race of the turn against its cancellation, which is polled first.\<close>

definition race_direct ::
  "('h, 'o) live_env \<Rightarrow> turn_hooks \<Rightarrow> string \<Rightarrow> agent_turn_request \<Rightarrow> 'h openai_provider \<Rightarrow> 'h agent_tools
     \<Rightarrow> ('h, 'o, live_turn_outcome option) live_action" where
  "race_direct ve hooks scope request provider tools s =
     (if (case tk_cancellation hooks of None \<Rightarrow> False | Some polls \<Rightarrow> True \<in> set polls)
      then (Ok None, leave_turn (ve_dropped ve tools) (lv_observer s) s)
      else (case run_turn_observed (live_ports ve hooks scope) request (provider, tools, lv_observer s) of
              (r, (provider', tools', observer)) \<Rightarrow>
                (map_err runtime_error_text (and_then r (\<lambda>contract.
                   Ok (Some \<lparr>lo_contract = contract, lo_worker_binding = None\<rparr>))),
                 (leave_turn tools' observer s)\<lparr>lv_http := op_http provider'\<rparr>)))"

definition direct_turn ::
  "('h, 'o) live_env \<Rightarrow> turn_hooks \<Rightarrow> live_settings \<Rightarrow> semantic_message list \<Rightarrow> string \<Rightarrow> string \<Rightarrow> string option \<Rightarrow> 'h agent_tools
     \<Rightarrow> ('h, 'o, live_turn_outcome option) live_action" where
  "direct_turn ve hooks settings history prompt scope api_key tools =
     act_bind (act_try (\<lambda>s. map_err openai_config_error_text (openai_new (ve_agent ve) (ls_base_url settings) api_key (lv_http s)))) (\<lambda>provider.
     act_bind (act_lift (map_err runtime_error_text (project_conversation (ae_text (ve_agent ve)) history))) (\<lambda>projected.
     race_direct ve hooks scope (live_request settings scope projected prompt) provider tools))"

section \<open>The Codex engine\<close>

definition live_engine :: "live_settings \<Rightarrow> string + codex_turn_engine" where
  "live_engine settings =
     and_then (ok_or ''Codex engine has no configured app-server command'' (ls_codex_command settings)) (\<lambda>command.
     and_then (map_err codex_engine_error_text
                 (codex_turn_engine_new command (ls_model settings) (ls_root settings) (ls_system_prompt settings))) (\<lambda>engine.
     case ls_engine_config settings of
       EngineCodexAppServer effort profile \<Rightarrow> Ok (engine_with_effort (reasoning_effort_str effort) engine)
     | EngineDirect \<Rightarrow> Err ''Codex session has incompatible frozen engine configuration''))"

definition previous_binding ::
  "('h, 'o) live_env \<Rightarrow> (session_id \<times> owner_generation) option \<Rightarrow> ('h, 'o, codex_worker_binding option) live_action" where
  "previous_binding ve durable =
     (case durable of
        None \<Rightarrow> act_return None
      | Some (session_id, generation) \<Rightarrow>
          act_map_err session_store_error_text
            (act_bind (case ve_open_bindings ve of None \<Rightarrow> act_return () | Some error \<Rightarrow> act_lift (Err error)) (\<lambda>_.
             act_zoom lv_db (\<lambda>d s. s\<lparr>lv_db := d\<rparr>)
               (binding_load_current (ve_binding ve) (ae_serde (ve_agent ve)) session_id generation))))"

definition engine_of_turn ::
  "('h, 'o) live_env \<Rightarrow> turn_hooks \<Rightarrow> string \<Rightarrow> ('h agent_tools, 'o) engine_world" where
  "engine_of_turn ve hooks scope =
     (ve_codex ve)\<lparr>en_broker := live_broker (ve_agent ve) scope, en_observe := live_observe ve hooks\<rparr>"

definition engine_start ::
  "('h, 'o) live_env \<Rightarrow> turn_hooks \<Rightarrow> 'h agent_tools \<Rightarrow> 'o \<Rightarrow> ('h agent_tools, 'o) engine_state" where
  "engine_start ve hooks tools observer =
     \<lparr>en_server = ve_no_worker ve,
      en_host = \<lparr>th_tools = tools, th_execution_scope = [], th_seen_invocation_ids = {}\<rparr>,
      en_observer = observer, en_events = [], en_transcript = [], en_intents = [], en_response = [],
      en_message_started = False,
      en_cancel = (case tk_cancellation hooks of None \<Rightarrow> [] | Some polls \<Rightarrow> polls)\<rparr>"

text \<open>Which entry of the engine runs the turn.\<close>

definition engine_entry ::
  "('h agent_tools, 'o) engine_world \<Rightarrow> interrupt_clock \<Rightarrow> turn_hooks \<Rightarrow> session_id option \<Rightarrow> codex_turn_engine
     \<Rightarrow> codex_turn_request \<Rightarrow> codex_worker_binding option \<Rightarrow> json list
     \<Rightarrow> (('h agent_tools, 'o) engine_state, string, codex_engine_outcome option) action" where
  "engine_entry world clock hooks session_id engine request binding catalog =
     (if tk_cancellation hooks \<noteq> None
      then act_bind (act_lift (ok_or ''interruptible Codex execution requires a durable session'' session_id)) (\<lambda>_.
           act_map_err codex_engine_error_text (run_bound_interruptible world clock engine request binding catalog))
      else if session_id \<noteq> None
      then act_bind (act_map_err codex_engine_error_text (run_bound world clock engine request binding catalog))
             (\<lambda>outcome. act_return (Some outcome))
      else act_bind (act_map_err codex_engine_error_text (run_new world clock engine request catalog))
             (\<lambda>outcome. act_return (Some outcome)))"

definition run_codex ::
  "('h, 'o) live_env \<Rightarrow> turn_hooks \<Rightarrow> live_settings \<Rightarrow> string \<Rightarrow> session_id option \<Rightarrow> codex_turn_engine \<Rightarrow> codex_turn_request
     \<Rightarrow> codex_worker_binding option \<Rightarrow> 'h agent_tools \<Rightarrow> ('h, 'o, live_turn_outcome option) live_action" where
  "run_codex ve hooks settings scope session_id engine request binding tools s =
     (case engine_entry (engine_of_turn ve hooks scope) (ve_clock ve) hooks session_id engine request binding (ls_tools settings)
             (engine_start ve hooks tools (lv_observer s)) of
        (r, e) \<Rightarrow>
          (and_then r (\<lambda>execution. Ok (map_option (\<lambda>outcome.
             \<lparr>lo_contract = eo_contract outcome, lo_worker_binding = Some (eo_binding outcome)\<rparr>) execution)),
           leave_turn (th_tools (en_host e)) (en_observer e) s))"

definition codex_live_turn ::
  "('h, 'o) live_env \<Rightarrow> turn_hooks \<Rightarrow> live_settings \<Rightarrow> semantic_message list \<Rightarrow> string \<Rightarrow> string
     \<Rightarrow> (session_id \<times> owner_generation) option \<Rightarrow> 'h agent_tools \<Rightarrow> ('h, 'o, live_turn_outcome option) live_action" where
  "codex_live_turn ve hooks settings history prompt scope durable tools =
     act_bind (act_lift (live_engine settings)) (\<lambda>engine.
     act_bind (previous_binding ve durable) (\<lambda>binding.
     run_codex ve hooks settings scope (map_option fst durable) engine
       \<lparr>er_execution_scope = scope, er_semantic_history = history, er_prompt = prompt, er_client_user_message_id = Some scope\<rparr>
       binding tools))"

section \<open>The turn\<close>

definition execute_turn_inner ::
  "('h, 'o) live_env \<Rightarrow> live_settings \<Rightarrow> semantic_message list \<Rightarrow> string \<Rightarrow> string \<Rightarrow> string
     \<Rightarrow> (session_id \<times> owner_generation) option \<Rightarrow> turn_hooks \<Rightarrow> ('h, 'o, live_turn_outcome option) live_action" where
  "execute_turn_inner ve settings history prompt scope state durable hooks =
     act_bind (prepare_turn ve settings scope state (map_option fst durable) (tk_approvals hooks)) (\<lambda>(api_key, tools).
     case ls_engine settings of
       PresetDirect \<Rightarrow> direct_turn ve hooks settings history prompt scope api_key tools
     | PresetCodex \<Rightarrow> codex_live_turn ve hooks settings history prompt scope durable tools)"

definition expect_live_completion :: "live_turn_outcome option \<Rightarrow> string + live_turn_outcome" where
  "expect_live_completion execution = ok_or ''uncancellable live turn reported interruption'' execution"

definition execute_turn ::
  "('h, 'o) live_env \<Rightarrow> live_settings \<Rightarrow> semantic_message list \<Rightarrow> string \<Rightarrow> string \<Rightarrow> string
     \<Rightarrow> (session_id \<times> owner_generation) option \<Rightarrow> ('h, 'o, live_turn_outcome) live_action" where
  "execute_turn ve settings history prompt scope state durable =
     act_bind (execute_turn_inner ve settings history prompt scope state durable
                 \<lparr>tk_observed = False, tk_approvals = False, tk_cancellation = None\<rparr>)
       (\<lambda>execution. act_lift (expect_live_completion execution))"

definition execute_turn_observed ::
  "('h, 'o) live_env \<Rightarrow> live_settings \<Rightarrow> semantic_message list \<Rightarrow> string \<Rightarrow> string \<Rightarrow> string
     \<Rightarrow> session_id \<times> owner_generation \<Rightarrow> bool list \<Rightarrow> ('h, 'o, live_turn_outcome option) live_action" where
  "execute_turn_observed ve settings history prompt scope state durable cancellation =
     execute_turn_inner ve settings history prompt scope state (Some durable)
       \<lparr>tk_observed = True, tk_approvals = True, tk_cancellation = Some cancellation\<rparr>"

definition completed_response :: "contract_outcome \<Rightarrow> string + string" where
  "completed_response contract =
     (let terminal = co_terminal_outcome contract in
      and_then (ensure (to_status terminal = StatusCompleted)
        (''agent turn ended with status '' @ terminal_status_debug (to_status terminal) @ '': ''
         @ (case to_reason terminal of None \<Rightarrow> ''no provider reason'' | Some reason \<Rightarrow> reason))) (\<lambda>_.
      ok_or ''completed agent turn had no final response'' (to_final_response terminal)))"

text \<open>A binding that cannot be saved is only a warning.\<close>

definition persist_worker_binding ::
  "('h, 'o) live_env \<Rightarrow> session_id \<Rightarrow> owner_generation \<Rightarrow> codex_worker_binding option \<Rightarrow> database \<Rightarrow> database" where
  "persist_worker_binding ve session_id generation binding d =
     (case binding of
        None \<Rightarrow> d
      | Some b \<Rightarrow>
          (case ve_open_bindings ve of
             Some error \<Rightarrow> d
           | None \<Rightarrow> snd (binding_save (ve_binding ve) (ae_serde (ve_agent ve)) (ae_unixepoch (ve_agent ve)) session_id generation b d)))"

section \<open>The chat command\<close>

definition live_db :: "('e, 'a) db_action \<Rightarrow> (('h, 'o) live_state, 'e, 'a) action" where
  "live_db m = act_zoom lv_db (\<lambda>d s. s\<lparr>lv_db := d\<rparr>) m"

definition state_path :: "('h, 'o) live_env \<Rightarrow> string option \<Rightarrow> string + string" where
  "state_path ve override =
     (case override of
        Some path \<Rightarrow> Ok path
      | None \<Rightarrow> and_then (ok_or ''could not determine home directory for session state'' (ve_home ve)) (\<lambda>home.
                  Ok (path_join home ''.hermes-rs/state.db'')))"

definition open_state :: "('h, 'o) live_env \<Rightarrow> string \<Rightarrow> ('h, 'o, unit) live_action" where
  "open_state ve state =
     act_lift (ensure (ae_open_sessions (ve_agent ve) = None) (''could not open session state '' @ to_string_lossy state))"

definition turn_scope :: "session_id \<Rightarrow> owner_generation \<Rightarrow> string" where
  "turn_scope session_id generation =
     ''session:'' @ session_id_str session_id @ '':generation:'' @ show_u64 (owner_generation_get generation)"

definition create_session_for_chat ::
  "('h, 'o) live_env \<Rightarrow> runtime_args \<Rightarrow> session_id \<Rightarrow> ('h, 'o, session_snapshot \<times> live_settings) live_action" where
  "create_session_for_chat ve arguments session_id =
     (let sx = ae_serde (ve_agent ve) in
      act_bind (act_lift (settings_for_new (ve_host ve) arguments)) (\<lambda>settings.
      act_bind (act_lift (settings_session_config sx settings session_id)) (\<lambda>config.
      act_bind (act_map_err session_store_error_text (live_db (session_create sx (ae_unixepoch (ve_agent ve)) config))) (\<lambda>snapshot.
      act_return (snapshot, settings)))))"

text \<open>A load never changes the state, so its result decides how to go on.\<close>

definition open_session_for_chat ::
  "('h, 'o) live_env \<Rightarrow> runtime_args \<Rightarrow> session_id \<Rightarrow> ('h, 'o, session_snapshot \<times> live_settings) live_action" where
  "open_session_for_chat ve arguments session_id s =
     (case live_db (session_load (ae_serde (ve_agent ve)) session_id) s of
        (Inr snapshot, s') \<Rightarrow>
          act_bind (act_lift (settings_for_resume (ve_host ve) arguments snapshot)) (\<lambda>settings. act_return (snapshot, settings)) s'
      | (Inl error, s') \<Rightarrow>
          (case error of
             SessionNotFound _ \<Rightarrow> create_session_for_chat ve arguments session_id s'
           | _ \<Rightarrow> (Err (session_store_error_text error), s')))"

text \<open>The turn of an open session and its commit.\<close>

definition durable_turn ::
  "('h, 'o) live_env \<Rightarrow> live_settings \<Rightarrow> session_snapshot \<Rightarrow> string \<Rightarrow> string \<Rightarrow> ('h, 'o, string) live_action" where
  "durable_turn ve settings snapshot prompt state =
     (let sx = ae_serde (ve_agent ve); owner = sc_session_id (ss_config snapshot); generation = ss_owner_generation snapshot;
          previous_len = length (ss_conversation snapshot) in
      act_bind (execute_turn ve settings (ss_conversation snapshot) prompt (turn_scope owner generation) state
                  (Some (owner, generation))) (\<lambda>outcome.
      act_bind (act_lift (completed_response (lo_contract outcome))) (\<lambda>response.
      act_bind (act_lift (ensure (previous_len \<le> length (co_semantic_conversation (lo_contract outcome)))
                  ''runtime returned a conversation shorter than its durable prefix'')) (\<lambda>_.
      act_bind (act_map_err session_store_error_text (live_db (session_append sx (ae_unixepoch (ve_agent ve)) owner generation
                  (drop previous_len (co_semantic_conversation (lo_contract outcome)))))) (\<lambda>committed.
      act_bind (act_update (\<lambda>s. s\<lparr>lv_db := persist_worker_binding ve owner (ss_owner_generation committed)
                  (lo_worker_binding outcome) (lv_db s)\<rparr>)) (\<lambda>_.
      act_return response))))))"

definition run_durable_chat ::
  "('h, 'o) live_env \<Rightarrow> runtime_args \<Rightarrow> string \<Rightarrow> string \<Rightarrow> string option \<Rightarrow> ('h, 'o, string) live_action" where
  "run_durable_chat ve arguments session_name prompt override =
     act_bind (act_lift (map_err id_error_text (session_id_new session_name))) (\<lambda>session_id.
     act_bind (act_lift (state_path ve override)) (\<lambda>state.
     act_bind (open_state ve state) (\<lambda>_.
     act_bind (open_session_for_chat ve arguments session_id) (\<lambda>(snapshot, settings).
     durable_turn ve settings snapshot prompt state))))"

text \<open>\<open>scope\<close> is \<open>live_execution_scope\<close>: the process and the clock.\<close>

definition run_ephemeral_chat ::
  "('h, 'o) live_env \<Rightarrow> runtime_args \<Rightarrow> string \<Rightarrow> string + string \<Rightarrow> string option \<Rightarrow> ('h, 'o, string) live_action" where
  "run_ephemeral_chat ve arguments prompt scope override =
     act_bind (act_lift (settings_for_new (ve_host ve) arguments)) (\<lambda>settings.
     act_bind (act_lift scope) (\<lambda>execution_scope.
     act_bind (act_lift (state_path ve override)) (\<lambda>state.
     act_bind (execute_turn ve settings [] prompt execution_scope state None) (\<lambda>outcome.
     act_lift (completed_response (lo_contract outcome))))))"

fun join_words :: "string list \<Rightarrow> string" where
  "join_words [] = []"
| "join_words [word] = word"
| "join_words (word # words) = word @ '' '' @ join_words words"

definition run_chat ::
  "('h, 'o) live_env \<Rightarrow> string option \<Rightarrow> runtime_args \<Rightarrow> string list \<Rightarrow> string + string \<Rightarrow> string option
     \<Rightarrow> ('h, 'o, string) live_action" where
  "run_chat ve session arguments words scope override =
     (let prompt = join_words words in
      act_bind (act_lift (ensure (trim prompt \<noteq> []) ''prompt must be non-empty'')) (\<lambda>_.
      case session of
        Some name \<Rightarrow> run_durable_chat ve arguments name prompt override
      | None \<Rightarrow> run_ephemeral_chat ve arguments prompt scope override))"

definition session_line :: "session_summary \<Rightarrow> string" where
  "session_line s = session_id_str (sm_session_id s) @ [CHR 0x09] @ sm_provider_adapter s @ [CHR 0x09] @ sm_model s
     @ [CHR 0x09] @ ''generation='' @ show_u64 (owner_generation_get (sm_owner_generation s))
     @ [CHR 0x09] @ ''messages='' @ show_nat (sm_message_count s)"

definition list_sessions :: "('h, 'o) live_env \<Rightarrow> string option \<Rightarrow> ('h, 'o, string list) live_action" where
  "list_sessions ve override =
     act_bind (act_lift (state_path ve override)) (\<lambda>state.
     act_bind (open_state ve state) (\<lambda>_.
     act_bind (act_map_err session_store_error_text (live_db session_list)) (\<lambda>sessions.
     act_return (if sessions = [] then [''No durable sessions.''] else map session_line sessions))))"

text \<open>\<open>cli/effect.rs\<close>: the effects that are planned and have no end.\<close>

definition effect_line :: "pending_effect \<Rightarrow> string" where
  "effect_line e = invocation_id_str (pl_invocation_id (pe_plan e)) @ [CHR 0x09] @ pe_execution_scope e @ [CHR 0x09]
     @ pl_name (pe_plan e) @ [CHR 0x09] @ tool_effect_name (pl_effect (pe_plan e))"

definition list_pending_effects :: "('h, 'o) live_env \<Rightarrow> string option \<Rightarrow> ('h, 'o, string list) live_action" where
  "list_pending_effects ve override =
     act_bind (act_lift (state_path ve override)) (\<lambda>state.
     act_bind (act_lift (ensure (ae_open_ledger (ve_agent ve) = None) (''could not open effect ledger '' @ to_string_lossy state))) (\<lambda>_.
     act_bind (act_map_err effect_ledger_error_text (live_db (pending_effects (ae_serde (ve_agent ve))))) (\<lambda>pending.
     act_return (if pending = [] then [''No pending effects.''] else map effect_line pending))))"

end
