(* ===== verification/Gateway_Wire.thy ===== *)
theory Gateway_Wire
  imports Live_Turn Foreground_Store Delegation_Store
begin

text \<open>
  \<open>protocol/src/gateway.rs\<close>: the JSON-RPC frames between the gateway and its clients, and what the gateway shows in them:
  settings, transcripts, delegations and an interrupted turn. A frame is a JSON value, its text is left to
  \<open>serde_json\<close>, as is the decoder of a request line. The frames that were written, and the faults of the
  pipe, are the state of the writer.
\<close>

section \<open>Frames\<close>

definition json_rpc_version :: string where
  "json_rpc_version = ''2.0''"

record gateway_request =
  gq_jsonrpc :: string
  gq_id :: json
  gq_method :: string
  gq_params :: json

record gateway_failure =
  gf_id :: json
  gf_code :: int
  gf_message :: string
  gf_data :: "json option"

record gateway_event =
  ge_kind :: string
  ge_session_id :: "string option"
  ge_payload :: "json option"

definition gateway_success :: "json \<Rightarrow> json \<Rightarrow> json" where
  "gateway_success request_id result = jobject [(''jsonrpc'', JString json_rpc_version), (''id'', request_id), (''result'', result)]"

definition gateway_failure_new :: "json \<Rightarrow> int \<Rightarrow> string \<Rightarrow> gateway_failure" where
  "gateway_failure_new request_id code message =
     \<lparr>gf_id = request_id, gf_code = code, gf_message = message, gf_data = None\<rparr>"

definition json_of_failure :: "gateway_failure \<Rightarrow> json" where
  "json_of_failure f = jobject
     [(''jsonrpc'', JString json_rpc_version), (''id'', gf_id f),
      (''error'', jobject ([(''code'', jint (gf_code f)), (''message'', JString (gf_message f))] @ jskip ''data'' id (gf_data f)))]"

definition event_frame :: "gateway_event \<Rightarrow> json" where
  "event_frame e = jobject
     [(''jsonrpc'', JString json_rpc_version), (''method'', JString ''event''),
      (''params'', jobject ([(''type'', JString (ge_kind e))] @ jskip ''session_id'' JString (ge_session_id e)
         @ jskip ''payload'' id (ge_payload e)))]"

definition global_event :: "string \<Rightarrow> json option \<Rightarrow> json" where
  "global_event kind payload = event_frame \<lparr>ge_kind = kind, ge_session_id = None, ge_payload = payload\<rparr>"

definition session_event :: "string \<Rightarrow> string \<Rightarrow> json option \<Rightarrow> json" where
  "session_event kind session_id payload =
     event_frame \<lparr>ge_kind = kind, ge_session_id = Some session_id, ge_payload = payload\<rparr>"

section \<open>The writer\<close>

text \<open>\<open>FrameWriter\<close>; \<open>fr_faults\<close> says which of the next writes fail, and how. A frame that fails is not counted.\<close>

record frame_writer =
  fr_sent :: "json list"
  fr_faults :: "string option list"

definition writer_send :: "json \<Rightarrow> (frame_writer, string, unit) action" where
  "writer_send out w =
     (case fr_faults w of
        Some fault # faults \<Rightarrow> (Err fault, w\<lparr>fr_faults := faults\<rparr>)
      | None # faults \<Rightarrow> (Ok (), w\<lparr>fr_sent := fr_sent w @ [out], fr_faults := faults\<rparr>)
      | [] \<Rightarrow> (Ok (), w\<lparr>fr_sent := fr_sent w @ [out]\<rparr>))"

definition writer_try_event :: "string \<Rightarrow> session_id \<Rightarrow> json option \<Rightarrow> (frame_writer, string, unit) action" where
  "writer_try_event kind session_id payload = writer_send (session_event kind (session_id_str session_id) payload)"

definition writer_event :: "string \<Rightarrow> session_id \<Rightarrow> json option \<Rightarrow> frame_writer \<Rightarrow> frame_writer" where
  "writer_event kind session_id payload w = snd (writer_try_event kind session_id payload w)"

text \<open>\<open>emit_runtime_event\<close>: what a client sees of the events of a turn.\<close>

definition field_or_null :: "string \<Rightarrow> json \<Rightarrow> json" where
  "field_or_null name event = jopt id (json_get event name)"

definition approval_payload :: "json \<Rightarrow> json" where
  "approval_payload event = jobject
     [(''allow_permanent'', JBool False), (''choices'', JArray [JString ''once'', JString ''deny'']),
      (''command'', JString (case Option.bind (Option.bind (json_get event ''arguments'') (\<lambda>arguments. json_get arguments ''command''))
                                   json_as_str of None \<Rightarrow> [] | Some command \<Rightarrow> command)),
      (''description'', JString ''terminal command requires approval'')]"

definition emit_runtime_event :: "session_id \<Rightarrow> json \<Rightarrow> (frame_writer, string, unit) action" where
  "emit_runtime_event session_id event =
     (case Option.bind (json_get event ''type'') json_as_str of
        None \<Rightarrow> act_return ()
      | Some kind \<Rightarrow>
          if kind = ''message.delta'' \<or> kind = ''reasoning.delta''
          then (case Option.bind (json_get event ''text'') json_as_str of
                  None \<Rightarrow> act_return ()
                | Some shown \<Rightarrow> writer_try_event kind session_id (Some (jobject [(''text'', JString shown)])))
          else if kind = ''tool.start''
          then writer_try_event kind session_id (Some (jobject
                 [(''tool_id'', field_or_null ''call_id'' event), (''name'', field_or_null ''name'' event), (''args_text'', JString [])]))
          else if kind = ''tool.complete''
          then writer_try_event kind session_id (Some (jobject
                 [(''tool_id'', field_or_null ''call_id'' event), (''name'', field_or_null ''name'' event),
                  (''summary'', field_or_null ''status'' event)]))
          else if kind = ''approval.request'' then writer_try_event kind session_id (Some (approval_payload event))
          else act_return ())"

definition observe_for_gateway :: "session_id \<Rightarrow> json \<Rightarrow> (frame_writer, runtime_event_observer_error, unit) action" where
  "observe_for_gateway session_id event = act_map_err RuntimeEventObserverError (emit_runtime_event session_id event)"

section \<open>Durable records as JSON\<close>

definition json_of_delegation_spec :: "delegation_spec \<Rightarrow> json" where
  "json_of_delegation_spec s = jobject
     [(''delegation_id'', JString (delegation_id_str (ds_delegation_id s))),
      (''completion_event_id'', JString (completion_event_id_str (ds_completion_event_id s))),
      (''parent_session_id'', JString (session_id_str (ds_parent_session_id s))),
      (''child_session_id'', JString (session_id_str (ds_child_session_id s))),
      (''goal'', JString (ds_goal s)), (''context'', jopt JString (ds_context s))]"

fun json_of_delegation_terminal :: "delegation_terminal \<Rightarrow> json" where
  "json_of_delegation_terminal (DelegationCompleted summary) =
     jobject [(''status'', JString ''completed''), (''summary'', JString summary)]"
| "json_of_delegation_terminal (DelegationFailed error) =
     jobject [(''status'', JString ''failed''), (''error'', JString error)]"
| "json_of_delegation_terminal (DelegationCancelled reason) =
     jobject [(''status'', JString ''cancelled''), (''reason'', JString reason)]"
| "json_of_delegation_terminal (DelegationOutcomeUnknown reason) =
     jobject [(''status'', JString ''outcome_unknown''), (''reason'', JString reason)]"

definition json_of_cancellation :: "delegation_cancellation \<Rightarrow> json" where
  "json_of_cancellation c = jobject [(''reason'', JString (dc_reason c)), (''requested_at_ms'', ju64 (dc_requested_at_ms c))]"

fun json_of_delegation_state :: "delegation_state \<Rightarrow> json" where
  "json_of_delegation_state DelegationPending = jobject [(''state'', JString ''pending'')]"
| "json_of_delegation_state (DelegationRunning worker token lease cancellation) = jobject
     ([(''state'', JString ''running''), (''worker_id'', JString (delegation_worker_id_str worker)),
       (''fencing_token'', ju64 (fencing_token_get token)), (''lease_expires_at_ms'', ju64 lease)]
      @ jskip ''cancellation'' json_of_cancellation cancellation)"
| "json_of_delegation_state (DelegationTerminal outcome at) = jobject
     [(''state'', JString ''terminal''), (''outcome'', json_of_delegation_terminal outcome), (''completed_at_ms'', ju64 at)]"

definition json_of_delegation :: "delegation_snapshot \<Rightarrow> json" where
  "json_of_delegation d = jobject
     [(''spec'', json_of_delegation_spec (dn_spec d)), (''owner_generation'', ju64 (owner_generation_get (dn_owner_generation d))),
      (''state'', json_of_delegation_state (dn_state d)), (''created_at_ms'', ju64 (dn_created_at_ms d)),
      (''updated_at_ms'', ju64 (dn_updated_at_ms d))]"

section \<open>Settings and transcripts\<close>

definition zero_usage :: "string \<Rightarrow> json" where
  "zero_usage model = jobject
     [(''active_subagents'', jnat 0), (''calls'', jnat 0), (''input'', jnat 0), (''model'', JString model), (''output'', jnat 0),
      (''total'', jnat 0)]"

definition session_info :: "string \<Rightarrow> live_settings \<Rightarrow> json" where
  "session_info version settings = jobject
     [(''cwd'', JString (ls_root settings)), (''engine'', JString (engine_preset_str (ls_engine settings))),
      (''model'', JString (ls_model settings)), (''skills'', jobject []),
      (''tools'', jobject
         [(''workspace'', JArray [JString ''read_file'', JString ''search_files'']),
          (''delegation'', JArray (if catalog_enables_delegation (ls_tools settings) then [JString ''delegate_task''] else [])),
          (''terminal'', JArray (if catalog_enables_terminal (ls_tools settings) then [JString ''terminal''] else []))]),
      (''usage'', zero_usage (ls_model settings)), (''version'', JString version)]"

definition config_value :: "(string, json) btree \<Rightarrow> json" where
  "config_value params =
     (let key = (case Option.bind (btree_get params ''key'') json_as_str of None \<Rightarrow> ''full'' | Some k \<Rightarrow> k) in
      if key = ''full'' then jobject [(''config'', jobject
        [(''approvals'', jobject [(''destructive_slash_confirm'', JBool True)]),
         (''display'', jobject [(''streaming'', JBool True), (''tui_auto_resume_recent'', JBool False)])])]
      else if key = ''mtime'' then jobject [(''mtime'', jnat 0), (''mcp_rev'', JString [])]
      else jobject [(''value'', JNull)])"

fun join_lines :: "string list \<Rightarrow> string" where
  "join_lines [] = []"
| "join_lines [line] = line"
| "join_lines (line # lines) = line @ [CHR 0x0A] @ join_lines lines"

fun transcript_entry :: "semantic_message \<Rightarrow> json" where
  "transcript_entry (User content display_content) = jobject
     [(''role'', JString ''user''), (''text'', JString (case display_content of None \<Rightarrow> content | Some shown \<Rightarrow> shown))]"
| "transcript_entry (Assistant content reasoning replay) = jobject [(''role'', JString ''assistant''), (''text'', JString content)]"
| "transcript_entry (AssistantToolRequest content calls reasoning replay) = jobject
     [(''role'', JString ''assistant''), (''text'', JString (opt_str content)),
      (''context'', JString (show_nat (length calls) @ '' tool call(s)''))]"
| "transcript_entry (ToolResultBatch results) = jobject
     [(''role'', JString ''tool''), (''text'', JString (join_lines (map tr_content results)))]"

definition transcript :: "semantic_message list \<Rightarrow> json list" where
  "transcript messages = map transcript_entry messages"

text \<open>\<open>resume_projection\<close>: a turn that was not committed is shown, and never sent again.\<close>

record resume_view =
  rv_messages :: "json list"
  rv_inflight :: json
  rv_recovery :: json

fun recovery_note :: "foreground_turn_terminal \<Rightarrow> (string \<times> string) option" where
  "recovery_note foreground_turn_terminal.TurnCompleted = None"
| "recovery_note (TurnInterrupted reason) = Some (reason, ''Foreground turn interrupted; it was not committed or replayed.'')"
| "recovery_note (TurnFailed reason) = Some (reason, ''Foreground turn failed before commit; it was not replayed.'')"
| "recovery_note (TurnOutcomeUnknown reason) =
     Some (reason, ''Foreground turn outcome is unknown after restart; it was not replayed.'')"

definition json_of_recovery :: "foreground_turn_snapshot \<Rightarrow> foreground_turn_terminal \<Rightarrow> u64 \<Rightarrow> string \<Rightarrow> json" where
  "json_of_recovery turn outcome at reason = jobject
     [(''auto_replayed'', JBool False), (''had_background_delivery'', JBool (fn_provider_prompt turn \<noteq> fs_prompt (fn_spec turn))),
      (''completed_at_ms'', ju64 at), (''prompt'', JString (fs_prompt (fn_spec turn))),
      (''provider_prompt'', JString (fn_provider_prompt turn)), (''reason'', JString reason),
      (''started_at_ms'', ju64 (fn_started_at_ms turn)), (''status'', JString (foreground_terminal_status outcome)),
      (''turn_id'', JString (foreground_turn_id_str (fs_turn_id (fn_spec turn))))]"

definition resume_projection :: "semantic_message list \<Rightarrow> foreground_turn_snapshot option \<Rightarrow> bool \<Rightarrow> resume_view" where
  "resume_projection conversation latest busy =
     (let committed = \<lparr>rv_messages = transcript conversation, rv_inflight = JNull, rv_recovery = JNull\<rparr> in
      case latest of
        None \<Rightarrow> committed
      | Some turn \<Rightarrow>
          (case fn_state turn of
             TurnRunning \<Rightarrow> committed\<lparr>rv_inflight := jobject
               [(''user'', JString (fs_prompt (fn_spec turn))), (''assistant'', JString []), (''streaming'', JBool busy)]\<rparr>
           | TurnTerminal outcome at \<Rightarrow>
               (case recovery_note outcome of
                  None \<Rightarrow> committed
                | Some (reason, note) \<Rightarrow> committed
                    \<lparr>rv_messages := transcript conversation
                       @ [jobject [(''role'', JString ''user''), (''text'', JString (fs_prompt (fn_spec turn)))],
                          jobject [(''role'', JString ''system''), (''text'', JString note)]],
                     rv_recovery := json_of_recovery turn outcome at reason\<rparr>)))"

section \<open>Errors and parameters\<close>

record rpc_error =
  rp_code :: int
  rp_message :: string

definition rpc_error_new :: "int \<Rightarrow> string \<Rightarrow> rpc_error" where
  "rpc_error_new code message = \<lparr>rp_code = code, rp_message = message\<rparr>"

definition internal_error :: "string \<Rightarrow> rpc_error" where
  "internal_error message = rpc_error_new 5000 message"

definition foreground_rpc_error :: "foreground_store_error \<Rightarrow> rpc_error" where
  "foreground_rpc_error error = rpc_error_new
     (case error of
        TurnSessionBusy _ \<Rightarrow> 4090
      | TurnSessionNotFound _ \<Rightarrow> 4040
      | TurnGenerationConflict _ _ _ \<Rightarrow> 4093
      | TurnAlreadyExists _ \<Rightarrow> 4093
      | TurnNotRunning _ _ \<Rightarrow> 4093
      | TurnInvalid _ \<Rightarrow> 4002
      | TurnNotFound _ \<Rightarrow> 5000
      | TurnStorage _ \<Rightarrow> 5000) (foreground_store_error_text error)"

definition delegation_rpc_error :: "delegation_store_error \<Rightarrow> rpc_error" where
  "delegation_rpc_error error = rpc_error_new
     (case error of
        DelegationNotFound _ \<Rightarrow> 4041
      | DelegationInvalid _ \<Rightarrow> 4002
      | DelegationStorage _ \<Rightarrow> 5000
      | _ \<Rightarrow> 4093) (delegation_store_error_text error)"

text \<open>A session that is not stored, against any other failure of the store.\<close>

definition session_rpc_error :: "session_store_error \<Rightarrow> rpc_error" where
  "session_rpc_error error =
     (case error of SessionNotFound _ \<Rightarrow> rpc_error_new 4040 (session_store_error_text error)
      | _ \<Rightarrow> internal_error (session_store_error_text error))"

definition approval_rpc_error :: "(string \<Rightarrow> string) \<Rightarrow> approval_control_error \<Rightarrow> rpc_error" where
  "approval_rpc_error debug error =
     (case error of InvalidChoice _ \<Rightarrow> rpc_error_new (-32602) (approval_control_error_text debug error)
      | _ \<Rightarrow> internal_error (approval_control_error_text debug error))"

definition non_empty_param :: "string \<Rightarrow> (string, json) btree \<Rightarrow> rpc_error + string" where
  "non_empty_param name params =
     ok_or (rpc_error_new (-32602) (name @ '' is required''))
       (Option.bind (Option.bind (btree_get params name) json_as_str) non_empty)"

definition session_param :: "(string, json) btree \<Rightarrow> rpc_error + string" where
  "session_param = non_empty_param ''session_id''"

definition delegation_param :: "(string, json) btree \<Rightarrow> rpc_error + delegation_id" where
  "delegation_param params =
     and_then (non_empty_param ''delegation_id'' params) (\<lambda>v.
     map_err (\<lambda>e. rpc_error_new 4000 (id_error_text e)) (delegation_id_new v))"

end
