(* ===== verification/Background.thy ===== *)
theory Background
  imports Live_Turn Delegation_Store
begin

text \<open>
  \<open>apps/hermesd/src/cli/background.rs\<close>: the supervisor of background delegations. It claims pending delegations, runs each
  child as a turn of its own session while it extends the lease and looks for a cancellation, and records one
  terminal. What the other tasks of the process do to the database meanwhile, and what an aborted turn has
  already done, are part of the schedule of a child.
\<close>

section \<open>Signals\<close>

text \<open>A channel of \<open>oneshot::Sender<String>\<close>; \<open>SignalClosed\<close> when one of its ends was dropped unused.\<close>

datatype signal_channel = SignalOpen | SignalSent string | SignalClosed

record background_control =
  bc_senders :: "string \<Rightarrow> nat option"
  bc_channels :: "signal_channel list"
  bc_poisoned :: bool

definition background_control_default :: background_control where
  "background_control_default = \<lparr>bc_senders = (\<lambda>_. None), bc_channels = [], bc_poisoned = False\<rparr>"

definition close_signal :: "nat \<Rightarrow> signal_channel list \<Rightarrow> signal_channel list" where
  "close_signal i channels =
     (if i < length channels \<and> channels ! i = SignalOpen then channels[i := SignalClosed] else channels)"

definition close_sender :: "string \<Rightarrow> background_control \<Rightarrow> signal_channel list" where
  "close_sender k c = (case bc_senders c k of None \<Rightarrow> bc_channels c | Some i \<Rightarrow> close_signal i (bc_channels c))"

text \<open>A sender that is replaced is dropped.\<close>

definition background_register :: "string \<Rightarrow> (background_control, string, nat) action" where
  "background_register k c =
     (if bc_poisoned c then (Err ''background-control lock poisoned'', c)
      else (Ok (length (bc_channels c)),
            c\<lparr>bc_senders := (bc_senders c)(k \<mapsto> length (bc_channels c)), bc_channels := close_sender k c @ [SignalOpen]\<rparr>))"

definition background_signal :: "string \<Rightarrow> string \<Rightarrow> background_control \<Rightarrow> bool \<times> background_control" where
  "background_signal k reason c =
     (if bc_poisoned c then (False, c)
      else (case bc_senders c k of
              None \<Rightarrow> (False, c)
            | Some i \<Rightarrow>
                (if i < length (bc_channels c) \<and> bc_channels c ! i = SignalOpen
                 then (True, c\<lparr>bc_senders := (bc_senders c)(k := None), bc_channels := (bc_channels c)[i := SignalSent reason]\<rparr>)
                 else (False, c\<lparr>bc_senders := (bc_senders c)(k := None)\<rparr>))))"

definition background_remove :: "string \<Rightarrow> background_control \<Rightarrow> background_control" where
  "background_remove k c =
     (if bc_poisoned c then c else c\<lparr>bc_senders := (bc_senders c)(k := None), bc_channels := close_sender k c\<rparr>)"

section \<open>The environment of a worker\<close>

text \<open>\<open>Debug\<close> of a state, the two readings of the clock at the end, and what a turn that is dropped leaves.\<close>

record ('h, 'o) worker_env =
  bw_live :: "('h, 'o) live_env"
  bw_debug_state :: "delegation_state \<Rightarrow> string"
  bw_completed_ms :: "string + u64"
  bw_retry_ms :: "string + u64"
  bw_dropped :: "('h, 'o) live_state \<Rightarrow> ('h, 'o) live_state"

definition lease_duration_ms :: u64 where "lease_duration_ms = 90000"

definition pending_scan_limit :: nat where "pending_scan_limit = 32"

definition child_prompt :: string where
  "child_prompt = ''Complete the assigned task and return a concise result for the parent agent.''"

definition u64_saturating_add :: "u64 \<Rightarrow> u64 \<Rightarrow> u64" where
  "u64_saturating_add a b = (if uint a + uint b < 2 ^ 64 then a + b else - 1)"

definition lease_deadline :: "u64 \<Rightarrow> u64" where
  "lease_deadline now_ms = u64_saturating_add now_ms lease_duration_ms"

definition normalized_reason :: "string \<Rightarrow> string \<Rightarrow> string" where
  "normalized_reason message fallback = (if trim message = [] then fallback else trim message)"

definition normalized_error :: "string \<Rightarrow> string" where
  "normalized_error message = normalized_reason message ''background delegation failed''"

definition cancellation_reason :: "delegation_snapshot \<Rightarrow> string option" where
  "cancellation_reason s =
     (case dn_state s of DelegationRunning _ _ _ cancellation \<Rightarrow> map_option dc_reason cancellation | _ \<Rightarrow> None)"

definition running_authority ::
  "(delegation_state \<Rightarrow> string) \<Rightarrow> delegation_snapshot \<Rightarrow> string + fencing_token \<times> owner_generation" where
  "running_authority debug s =
     (case dn_state s of
        DelegationRunning _ token _ _ \<Rightarrow> Ok (token, dn_owner_generation s)
      | other \<Rightarrow> Err (''claimed delegation is not running: '' @ debug other))"

text \<open>The value of a fallible call, for a caller that goes on after an error.\<close>

definition act_attempt :: "('s, 'e, 'a) action \<Rightarrow> ('s, 'f, 'e + 'a) action" where
  "act_attempt m s = (case m s of (r, s') \<Rightarrow> (Ok r, s'))"

definition open_delegations :: "('h, 'o) live_env \<Rightarrow> ('h, 'o, unit) live_action" where
  "open_delegations ve = act_lift (case ae_open_delegations (ve_agent ve) of None \<Rightarrow> Ok () | Some error \<Rightarrow> Err error)"

definition on_delegations :: "(delegation_store_error, 'a) db_action \<Rightarrow> ('h, 'o, 'a) live_action" where
  "on_delegations m = act_map_err delegation_store_error_text (live_db m)"

definition open_sessions :: "('h, 'o) live_env \<Rightarrow> ('h, 'o, unit) live_action" where
  "open_sessions ve = act_lift (case ae_open_sessions (ve_agent ve) of None \<Rightarrow> Ok () | Some error \<Rightarrow> Err error)"

definition on_sessions :: "(session_store_error, 'a) db_action \<Rightarrow> ('h, 'o, 'a) live_action" where
  "on_sessions m = act_map_err session_store_error_text (live_db m)"

section \<open>The end of a child\<close>

datatype child_exit = ChildOutcome "string + live_turn_outcome" | ChildCancelled string

definition worker_finish ::
  "('h, 'o) worker_env \<Rightarrow> delegation_snapshot \<Rightarrow> owner_generation \<Rightarrow> fencing_token \<Rightarrow> delegation_terminal \<Rightarrow> u64
     \<Rightarrow> ('h, 'o, unit) live_action" where
  "worker_finish we claim generation token outcome at =
     act_bind (on_delegations (delegation_finish (ae_serde (ve_agent (bw_live we))) (ds_delegation_id (dn_spec claim)) generation token
                 outcome at)) (\<lambda>_. act_return ())"

definition worker_load :: "('h, 'o) worker_env \<Rightarrow> delegation_snapshot \<Rightarrow> ('h, 'o, delegation_snapshot) live_action" where
  "worker_load we claim = on_delegations (delegation_load (ae_serde (ve_agent (bw_live we))) (ds_delegation_id (dn_spec claim)))"

text \<open>A failed commit is a cancellation when one was requested meanwhile, under the authority that holds now.\<close>

definition commit_failed ::
  "('h, 'o) worker_env \<Rightarrow> delegation_snapshot \<Rightarrow> string \<Rightarrow> ('h, 'o, unit) live_action" where
  "commit_failed we claim error =
     act_bind (worker_load we claim) (\<lambda>snapshot.
     case cancellation_reason snapshot of
       None \<Rightarrow> act_lift (Err error)
     | Some reason \<Rightarrow>
         act_bind (act_lift (running_authority (bw_debug_state we) snapshot)) (\<lambda>(fence, generation).
         act_bind (act_lift (bw_retry_ms we)) (\<lambda>at.
         worker_finish we claim generation fence (DelegationCancelled reason) at)))"

text \<open>The binding of a committed child; a session that cannot be read is only a warning.\<close>

definition persist_child_binding ::
  "('h, 'o) worker_env \<Rightarrow> delegation_snapshot \<Rightarrow> codex_worker_binding option \<Rightarrow> ('h, 'o) live_state \<Rightarrow> ('h, 'o) live_state" where
  "persist_child_binding we claim binding s =
     (case binding of
        None \<Rightarrow> s
      | Some b \<Rightarrow>
          (let ve = bw_live we; child = ds_child_session_id (dn_spec claim) in
           case act_bind (open_sessions ve) (\<lambda>_. on_sessions (session_load (ae_serde (ve_agent ve)) child)) s of
             (Inl warning, s') \<Rightarrow> s'
           | (Inr snapshot, s') \<Rightarrow>
               s'\<lparr>lv_db := persist_worker_binding ve child (ss_owner_generation snapshot) (Some b) (lv_db s')\<rparr>))"

definition commit_outcome ::
  "('h, 'o) worker_env \<Rightarrow> delegation_snapshot \<Rightarrow> owner_generation \<Rightarrow> fencing_token \<Rightarrow> owner_generation \<Rightarrow> u64
     \<Rightarrow> string + live_turn_outcome \<Rightarrow> ('h, 'o, unit) live_action" where
  "commit_outcome we claim generation token child_generation at outcome =
     (let ve = bw_live we in
      case and_then outcome (\<lambda>o'. and_then (completed_response (lo_contract o')) (\<lambda>summary. Ok (o', summary))) of
        Inr (o', summary) \<Rightarrow>
          act_bind (act_attempt (on_delegations
            (complete_child (ae_serde (ve_agent ve)) (ae_unixepoch (ve_agent ve)) (ds_delegation_id (dn_spec claim))
               \<lparr>da_owner_generation = generation, da_fencing_token = token\<rparr> child_generation
               (co_semantic_conversation (lo_contract o')) summary at))) (\<lambda>result.
          case result of
            Inl error \<Rightarrow> commit_failed we claim error
          | Inr _ \<Rightarrow> act_update (persist_child_binding we claim (lo_worker_binding o')))
      | Inl error \<Rightarrow>
          act_bind (act_attempt (worker_finish we claim generation token (DelegationFailed (normalized_error error)) at)) (\<lambda>result.
          case result of Inl e \<Rightarrow> commit_failed we claim e | Inr _ \<Rightarrow> act_return ()))"

definition finish_execution ::
  "('h, 'o) worker_env \<Rightarrow> delegation_snapshot \<Rightarrow> owner_generation \<Rightarrow> fencing_token \<Rightarrow> owner_generation \<Rightarrow> child_exit
     \<Rightarrow> ('h, 'o, unit) live_action" where
  "finish_execution we claim generation token child_generation exit =
     act_bind (act_lift (bw_completed_ms we)) (\<lambda>at.
     act_bind (open_delegations (bw_live we)) (\<lambda>_.
     case exit of
       ChildCancelled reason \<Rightarrow> worker_finish we claim generation token (DelegationCancelled reason) at
     | ChildOutcome outcome \<Rightarrow>
         act_bind (worker_load we claim) (\<lambda>current.
         case cancellation_reason current of
           Some reason \<Rightarrow> worker_finish we claim generation token (DelegationCancelled reason) at
         | None \<Rightarrow> commit_outcome we claim generation token child_generation at outcome)))"

section \<open>The run of a child\<close>

text \<open>
  What happens before the turn ends: a poll for a cancellation, a heartbeat with the time it reads, a signal (or
  the loss of its sender), and what the rest of the process does to the database.
\<close>

datatype child_event = ChildPolled | ChildBeat "string + u64" | ChildSignalled "string option" | ChildOthers "database \<Rightarrow> database"

text \<open>Leaving the loop early drops the turn; so does an error.\<close>

definition abandon_child :: "('h, 'o) worker_env \<Rightarrow> 'a \<times> ('h, 'o) live_state \<Rightarrow> 'a \<times> ('h, 'o) live_state" where
  "abandon_child we r = (fst r, bw_dropped we (snd r))"

fun child_loop ::
  "('h, 'o) worker_env \<Rightarrow> delegation_snapshot \<Rightarrow> fencing_token \<Rightarrow> ('h, 'o, live_turn_outcome) live_action \<Rightarrow> child_event list
     \<Rightarrow> owner_generation \<Rightarrow> ('h, 'o, owner_generation \<times> child_exit) live_action" where
  "child_loop we claim token turn [] generation s = (case turn s of (r, s') \<Rightarrow> (Ok (generation, ChildOutcome r), s'))"
| "child_loop we claim token turn (ChildSignalled (Some reason) # events) generation s =
     abandon_child we (Ok (generation, ChildCancelled reason), s)"
| "child_loop we claim token turn (ChildSignalled None # events) generation s =
     child_loop we claim token turn events generation s"
| "child_loop we claim token turn (ChildOthers f # events) generation s =
     child_loop we claim token turn events generation (s\<lparr>lv_db := f (lv_db s)\<rparr>)"
| "child_loop we claim token turn (ChildPolled # events) generation s =
     (case act_bind (open_delegations (bw_live we)) (\<lambda>_. worker_load we claim) s of
        (Inl e, s') \<Rightarrow> abandon_child we (Err e, s')
      | (Inr snapshot, s') \<Rightarrow>
          (case cancellation_reason snapshot of
             Some reason \<Rightarrow> abandon_child we (Ok (generation, ChildCancelled reason), s')
           | None \<Rightarrow> child_loop we claim token turn events generation s'))"
| "child_loop we claim token turn (ChildBeat now # events) generation s =
     (case act_bind (act_lift now) (\<lambda>now_ms. act_bind (open_delegations (bw_live we)) (\<lambda>_.
             on_delegations (delegation_heartbeat (ae_serde (ve_agent (bw_live we))) (ds_delegation_id (dn_spec claim)) generation token
               now_ms (lease_deadline now_ms)))) s of
        (Inl e, s') \<Rightarrow> abandon_child we (Err e, s')
      | (Inr snapshot, s') \<Rightarrow>
          (case cancellation_reason snapshot of
             Some reason \<Rightarrow> abandon_child we (Ok (dn_owner_generation snapshot, ChildCancelled reason), s')
           | None \<Rightarrow> child_loop we claim token turn events (dn_owner_generation snapshot) s'))"

definition delegation_scope :: "delegation_snapshot \<Rightarrow> owner_generation \<Rightarrow> string" where
  "delegation_scope claim generation =
     ''delegation:'' @ delegation_id_str (ds_delegation_id (dn_spec claim)) @ '':generation:'' @ show_u64 (owner_generation_get generation)"

definition execute_claim ::
  "('h, 'o) worker_env \<Rightarrow> delegation_snapshot \<Rightarrow> string \<Rightarrow> child_event list \<Rightarrow> ('h, 'o, unit) live_action" where
  "execute_claim we claim state events =
     (let ve = bw_live we; sx = ae_serde (ve_agent ve); child_id = ds_child_session_id (dn_spec claim) in
      act_bind (act_lift (running_authority (bw_debug_state we) claim)) (\<lambda>(token, generation).
      act_bind (open_sessions ve) (\<lambda>_.
      act_bind (on_sessions (session_load sx child_id)) (\<lambda>child.
      act_bind (act_lift (ensure (ss_conversation child = []) ''pending delegation child session was not empty'')) (\<lambda>_.
      act_bind (act_lift (settings_from_snapshot (sx_debug_str sx) child)) (\<lambda>settings.
      act_bind (child_loop we claim token
                  (execute_turn ve settings (ss_conversation child) child_prompt (delegation_scope claim generation) state
                     (Some (child_id, ss_owner_generation child))) events generation) (\<lambda>(held, exit).
      finish_execution we claim held token (ss_owner_generation child) exit)))))))"

section \<open>The supervisor\<close>

record ('h, 'o) supervisor =
  su_live :: "('h, 'o) live_state"
  su_control :: background_control
  su_jobs :: "(delegation_snapshot \<times> nat) list"

definition supervisor_live :: "(('h, 'o) live_state, 'e, 'a) action \<Rightarrow> (('h, 'o) supervisor, 'e, 'a) action" where
  "supervisor_live m = act_zoom su_live (\<lambda>l s. s\<lparr>su_live := l\<rparr>) m"

text \<open>A claim whose signal path cannot be registered ends at once.\<close>

definition start_job ::
  "('h, 'o) worker_env \<Rightarrow> delegation_worker_id \<Rightarrow> u64 \<Rightarrow> delegation_snapshot \<Rightarrow> ('h, 'o) supervisor \<Rightarrow> ('h, 'o) supervisor" where
  "start_job we worker_id now_ms delegation s =
     (let ve = bw_live we; sx = ae_serde (ve_agent ve) in
      case supervisor_live (act_bind (open_delegations ve) (\<lambda>_. on_delegations
             (delegation_claim sx (ds_delegation_id (dn_spec delegation)) (dn_owner_generation delegation) worker_id now_ms
                (lease_deadline now_ms)))) s of
        (Inl e, s') \<Rightarrow> s'
      | (Inr taken, s') \<Rightarrow>
          (case background_register (delegation_id_str (ds_delegation_id (dn_spec taken))) (su_control s') of
             (Inr receiver, control) \<Rightarrow> s'\<lparr>su_control := control, su_jobs := su_jobs s' @ [(taken, receiver)]\<rparr>
           | (Inl error, control) \<Rightarrow>
               (case running_authority (bw_debug_state we) taken of
                  Inl e \<Rightarrow> s'
                | Inr (token, generation) \<Rightarrow>
                    snd (supervisor_live (act_bind (open_delegations ve) (\<lambda>_. worker_finish we taken generation token
                           (DelegationFailed (normalized_error error)) now_ms)) s'))))"

definition supervise_once :: "('h, 'o) worker_env \<Rightarrow> delegation_worker_id \<Rightarrow> u64 \<Rightarrow> ('h, 'o) supervisor \<Rightarrow> ('h, 'o) supervisor" where
  "supervise_once we worker_id now_ms s =
     (let ve = bw_live we; sx = ae_serde (ve_agent ve) in
      case supervisor_live (act_bind (open_delegations ve) (\<lambda>_. on_delegations
             (act_bind (reconcile_expired sx now_ms) (\<lambda>_. pending_delegations sx pending_scan_limit)))) s of
        (Inl e, s') \<Rightarrow> s'
      | (Inr pending, s') \<Rightarrow> fold (start_job we worker_id now_ms) pending s')"

text \<open>One of the spawned jobs, through its end; its sender is removed whatever happened.\<close>

definition finish_job ::
  "('h, 'o) worker_env \<Rightarrow> string \<Rightarrow> child_event list \<Rightarrow> nat \<Rightarrow> ('h, 'o) supervisor \<Rightarrow> ('h, 'o) supervisor" where
  "finish_job we state events i s =
     (if i < length (su_jobs s)
      then (case su_jobs s ! i of (claim, receiver) \<Rightarrow>
             (case supervisor_live (execute_claim we claim state events) s of
                (r, s') \<Rightarrow> s'\<lparr>su_control := background_remove (delegation_id_str (ds_delegation_id (dn_spec claim)))
                                (su_control s')\<lparr>bc_channels := close_signal receiver (bc_channels (su_control s'))\<rparr>,
                             su_jobs := take i (su_jobs s') @ drop (Suc i) (su_jobs s')\<rparr>))
      else s)"

end
