(* ===== verification/Gateway.thy ===== *)
theory Gateway
  imports Gateway_Wire Background Approval
begin

text \<open>
  \<open>apps/hermesd/src/cli/gateway.rs\<close>: the long-lived host. It answers the requests of a client one after the other and
  runs each accepted prompt as a task of its own, which commits or ends the turn it claimed and then gives the
  session back. The readings of the clock, the process id and the decoder of a line are parameters.
\<close>

section \<open>State\<close>

text \<open>A channel of \<open>oneshot::Sender<()>\<close>: open, used, or its sender dropped. The receiver sees the last two alike.\<close>

datatype cancel_channel = CancelOpen | CancelSent | CancelDropped

datatype turn_exit = ExitCompleted string | ExitFailed string | ExitInterrupted

text \<open>How far a spawned turn is: its work, then \<open>busy.remove\<close>, then \<open>controls.remove\<close>, then its last frames.\<close>

datatype turn_phase = PhaseSpawned | PhaseEnded "string + turn_exit" | PhaseReleased "string + turn_exit"
  | PhaseForgotten "string + turn_exit" | PhaseFinished

record gateway_task =
  gk_claim :: foreground_turn_snapshot
  gk_session :: session_id
  gk_receiver :: nat
  gk_phase :: turn_phase

record 'h gateway =
  gt_live :: "('h, frame_writer) live_state"
  gt_busy :: "string set"
  gt_busy_poisoned :: bool
  gt_controls :: "string \<Rightarrow> nat option"
  gt_controls_poisoned :: bool
  gt_channels :: "cancel_channel list"
  gt_signals :: background_control
  gt_turns :: "gateway_task list"

record 'h gateway_env =
  gv_live :: "('h, frame_writer) live_env"
  gv_settings :: live_settings
  gv_state :: string
  gv_pid :: nat
  gv_nanos :: "string + nat"
  gv_now_ms :: "nat \<Rightarrow> string + u64"
  gv_end_ms :: "string + u64"
  gv_env_present :: "string \<Rightarrow> bool"
  gv_decode :: "string \<Rightarrow> string + gateway_request"
  gv_pretty :: "json \<Rightarrow> string + string"
  gv_open_turns :: "foreground_store_error option"
  gv_version :: string

type_synonym ('h, 'e, 'a) gateway_action = "('h gateway, 'e, 'a) action"

abbreviation gv_serde :: "'h gateway_env \<Rightarrow> serde" where
  "gv_serde ge \<equiv> ae_serde (ve_agent (gv_live ge))"

definition on_live :: "(('h, frame_writer) live_state, 'e, 'a) action \<Rightarrow> ('h, 'e, 'a) gateway_action" where
  "on_live m = act_zoom gt_live (\<lambda>l s. s\<lparr>gt_live := l\<rparr>) m"

definition on_writer :: "(frame_writer, 'e, 'a) action \<Rightarrow> (('h, frame_writer) live_state, 'e, 'a) action" where
  "on_writer m = act_zoom lv_observer (\<lambda>w s. s\<lparr>lv_observer := w\<rparr>) m"

definition gateway_send :: "json \<Rightarrow> ('h, string, unit) gateway_action" where
  "gateway_send out = on_live (on_writer (writer_send out))"

definition reply_failure :: "json \<Rightarrow> rpc_error \<Rightarrow> ('h, string, unit) gateway_action" where
  "reply_failure request_id error =
     gateway_send (json_of_failure (gateway_failure_new request_id (rp_code error) (rp_message error)))"

section \<open>Stores\<close>

definition gateway_sessions ::
  "'h gateway_env \<Rightarrow> (session_store_error \<Rightarrow> rpc_error) \<Rightarrow> (session_store_error, 'a) db_action \<Rightarrow> ('h, rpc_error, 'a) gateway_action" where
  "gateway_sessions ge failure m =
     act_bind (act_map_err internal_error (on_live (open_sessions (gv_live ge)))) (\<lambda>_. act_map_err failure (on_live (live_db m)))"

definition gateway_delegations ::
  "'h gateway_env \<Rightarrow> (delegation_store_error, 'a) db_action \<Rightarrow> ('h, rpc_error, 'a) gateway_action" where
  "gateway_delegations ge m =
     act_bind (act_map_err internal_error (on_live (open_delegations (gv_live ge)))) (\<lambda>_.
     act_map_err delegation_rpc_error (on_live (live_db m)))"

definition on_turns ::
  "'h gateway_env \<Rightarrow> (foreground_store_error, 'a) db_action \<Rightarrow> (('h, frame_writer) live_state, foreground_store_error, 'a) action" where
  "on_turns ge m = act_bind (act_lift (case gv_open_turns ge of None \<Rightarrow> Ok () | Some error \<Rightarrow> Err error)) (\<lambda>_. live_db m)"

section \<open>Fresh identities and the clock\<close>

definition hex_char :: "nat \<Rightarrow> char" where
  "hex_char d = char_of (if d < 10 then 48 + d else 87 + d)"

fun show_hex :: "nat \<Rightarrow> string" where
  "show_hex n = (if n < 16 then [hex_char n] else show_hex (n div 16) @ [hex_char (n mod 16)])"

declare show_hex.simps [simp del]

definition fresh_name :: "'h gateway_env \<Rightarrow> string \<Rightarrow> string \<Rightarrow> string + string" where
  "fresh_name ge kind infix_text = and_then (gv_nanos ge) (\<lambda>now. Ok (kind @ ''-'' @ show_nat (gv_pid ge) @ infix_text @ ''-'' @ show_hex now))"

definition fresh_session_id :: "'h gateway_env \<Rightarrow> string + session_id" where
  "fresh_session_id ge = and_then (fresh_name ge ''rs'' []) (\<lambda>name. map_err id_error_text (session_id_new name))"

definition fresh_turn_id :: "'h gateway_env \<Rightarrow> string + foreground_turn_id" where
  "fresh_turn_id ge = and_then (fresh_name ge ''turn'' []) (\<lambda>name. map_err id_error_text (foreground_turn_id_new name))"

definition fresh_delivery_claim_id :: "'h gateway_env \<Rightarrow> delegation_completion \<Rightarrow> string + delivery_claim_id" where
  "fresh_delivery_claim_id ge completion =
     and_then (fresh_name ge ''delivery'' (''-'' @ completion_event_id_str (dm_event_id completion)))
       (\<lambda>name. map_err id_error_text (delivery_claim_id_new name))"

definition terminal_time_ms :: "'h gateway_env \<Rightarrow> u64 \<Rightarrow> u64" where
  "terminal_time_ms ge started_at_ms = max (case gv_end_ms ge of Inl e \<Rightarrow> started_at_ms | Inr now \<Rightarrow> now) started_at_ms"

section \<open>Requests about sessions\<close>

definition is_busy :: "string \<Rightarrow> 'h gateway \<Rightarrow> bool" where
  "is_busy sid g \<longleftrightarrow> \<not> gt_busy_poisoned g \<and> sid \<in> gt_busy g"

definition session_status :: "bool \<Rightarrow> json" where
  "session_status busy = JString (if busy then ''working'' else ''idle'')"

definition param_str :: "string \<Rightarrow> (string, json) btree \<Rightarrow> string option" where
  "param_str name params = Option.bind (btree_get params name) json_as_str"

definition check_frozen_params :: "'h gateway_env \<Rightarrow> (string, json) btree \<Rightarrow> rpc_error + unit" where
  "check_frozen_params ge params =
     and_then (case param_str ''model'' params of
                 Some requested \<Rightarrow> ensure (requested = ls_model (gv_settings ge)) (rpc_error_new 4091
                   (''gateway model is frozen as '' @ ls_model (gv_settings ge) @ ''; requested '' @ requested))
               | None \<Rightarrow> Ok ()) (\<lambda>_.
     case Option.bind (param_str ''cwd'' params) non_empty of
       None \<Rightarrow> Ok ()
     | Some cwd \<Rightarrow>
         and_then (map_err (\<lambda>e. rpc_error_new 4001 (''invalid cwd: '' @ e)) (le_canonicalize (he_local (ve_host (gv_live ge))) cwd)) (\<lambda>resolved.
         ensure (resolved = ls_root (gv_settings ge)) (rpc_error_new 4092 ''gateway workspace root is immutable for this process'')))"

definition gateway_create :: "'h gateway_env \<Rightarrow> (string, json) btree \<Rightarrow> ('h, rpc_error, json) gateway_action" where
  "gateway_create ge params =
     act_bind (act_lift (check_frozen_params ge params)) (\<lambda>_.
     act_bind (act_lift (map_err internal_error (fresh_session_id ge))) (\<lambda>session_id.
     act_bind (act_lift (map_err internal_error (settings_session_config (gv_serde ge) (gv_settings ge) session_id))) (\<lambda>config.
     act_bind (gateway_sessions ge (internal_error \<circ> session_store_error_text)
       (session_create (gv_serde ge) (ae_unixepoch (ve_agent (gv_live ge))) config)) (\<lambda>_.
     act_return (jobject
       [(''session_id'', JString (session_id_str session_id)), (''stored_session_id'', JString (session_id_str session_id)),
        (''message_count'', jnat 0), (''messages'', JArray []), (''info'', session_info (gv_version ge) (gv_settings ge))])))))"

definition gateway_resume :: "'h gateway_env \<Rightarrow> (string, json) btree \<Rightarrow> ('h, rpc_error, json) gateway_action" where
  "gateway_resume ge params =
     (let sx = gv_serde ge in
      act_bind (act_lift (and_then (session_param params) (\<lambda>name. map_err (internal_error \<circ> id_error_text) (session_id_new name)))) (\<lambda>session_id.
      act_bind (gateway_sessions ge session_rpc_error (session_load sx session_id)) (\<lambda>snapshot.
      act_bind (act_lift (map_err (rpc_error_new 4094) (settings_for_host (sx_debug_str sx) snapshot (gv_settings ge)))) (\<lambda>settings.
      act_bind (act_map_err (internal_error \<circ> foreground_store_error_text) (on_live (on_turns ge (latest_turn sx session_id)))) (\<lambda>latest.
      act_bind (act_read (is_busy (session_id_str session_id))) (\<lambda>busy.
      let view = resume_projection (ss_conversation snapshot) latest busy; name = JString (session_id_str session_id) in
      act_return (jobject
        [(''session_id'', name), (''resumed'', name), (''session_key'', name),
         (''message_count'', jnat (length (ss_conversation snapshot))), (''messages'', JArray (rv_messages view)),
         (''inflight'', rv_inflight view), (''recovery'', rv_recovery view), (''running'', JBool busy),
         (''status'', session_status busy), (''started_at'', jnat 0), (''info'', session_info (gv_version ge) settings)])))))))"

definition active_session_entry :: "'h gateway \<Rightarrow> session_summary \<Rightarrow> json" where
  "active_session_entry g session =
     (let name = JString (session_id_str (sm_session_id session)) in jobject
      [(''id'', name), (''session_key'', name), (''message_count'', jnat (sm_message_count session)),
       (''model'', JString (sm_model session)), (''preview'', JString []), (''started_at'', jnat 0),
       (''status'', session_status (is_busy (session_id_str (sm_session_id session)) g)), (''title'', name)])"

definition session_entry :: "session_summary \<Rightarrow> json" where
  "session_entry session =
     (let name = JString (session_id_str (sm_session_id session)) in jobject
      [(''id'', name), (''message_count'', jnat (sm_message_count session)), (''preview'', JString []),
       (''source'', JString ''hermes-rs''), (''started_at'', jnat 0), (''title'', name)])"

definition gateway_list_sessions :: "'h gateway_env \<Rightarrow> bool \<Rightarrow> ('h, rpc_error, json) gateway_action" where
  "gateway_list_sessions ge active_shape =
     act_bind (gateway_sessions ge (internal_error \<circ> session_store_error_text) session_list) (\<lambda>sessions.
     act_bind (act_read (\<lambda>g. g)) (\<lambda>g.
     act_return (jobject [(''sessions'', JArray (map (if active_shape then active_session_entry g else session_entry) sessions))])))"

definition gateway_most_recent :: "'h gateway_env \<Rightarrow> ('h, rpc_error, json) gateway_action" where
  "gateway_most_recent ge =
     act_bind (gateway_sessions ge (internal_error \<circ> session_store_error_text) session_list) (\<lambda>sessions.
     act_return (case sessions of
         session # _ \<Rightarrow> (let name = JString (session_id_str (sm_session_id session)) in jobject
           [(''session_id'', name), (''source'', JString ''hermes-rs''), (''started_at'', jnat 0), (''title'', name)])
       | [] \<Rightarrow> jobject [(''session_id'', JNull)]))"

section \<open>Requests about delegations\<close>

definition authorized_parent :: "'h gateway_env \<Rightarrow> (string, json) btree \<Rightarrow> ('h, rpc_error, session_id) gateway_action" where
  "authorized_parent ge params =
     act_bind (act_lift (and_then (session_param params) (\<lambda>name. map_err (rpc_error_new 4000 \<circ> id_error_text) (session_id_new name)))) (\<lambda>session_id.
     act_bind (gateway_sessions ge session_rpc_error (session_load (gv_serde ge) session_id)) (\<lambda>_.
     act_return session_id))"

definition load_owned_delegation ::
  "'h gateway_env \<Rightarrow> session_id \<Rightarrow> delegation_id \<Rightarrow> ('h, rpc_error, delegation_snapshot) gateway_action" where
  "load_owned_delegation ge parent delegation_id =
     act_bind (gateway_delegations ge (delegation_load (gv_serde ge) delegation_id)) (\<lambda>delegation.
     act_bind (act_lift (ensure (ds_parent_session_id (dn_spec delegation) = parent)
       (rpc_error_new 4041 (''delegation not found: '' @ delegation_id_str delegation_id)))) (\<lambda>_.
     act_return delegation))"

definition max_delegation_list_limit :: nat where "max_delegation_list_limit = 500"

definition delegation_list_limit :: "(string, json) btree \<Rightarrow> rpc_error + nat" where
  "delegation_list_limit params =
     (case btree_get params ''limit'' of
        None \<Rightarrow> Ok 100
      | Some v \<Rightarrow>
          ok_or (rpc_error_new (-32602) (''delegation limit must be between 1 and '' @ show_nat max_delegation_list_limit))
            (Option.bind (json_as_u64 v) (\<lambda>w. if 1 \<le> unat w \<and> unat w \<le> max_delegation_list_limit then Some (unat w) else None)))"

definition gateway_list_delegations :: "'h gateway_env \<Rightarrow> (string, json) btree \<Rightarrow> ('h, rpc_error, json) gateway_action" where
  "gateway_list_delegations ge params =
     act_bind (authorized_parent ge params) (\<lambda>session_id.
     act_bind (act_lift (delegation_list_limit params)) (\<lambda>limit.
     act_bind (gateway_delegations ge (list_for_parent (gv_serde ge) session_id limit)) (\<lambda>delegations.
     act_return (jobject [(''delegations'', JArray (map json_of_delegation delegations))]))))"

definition gateway_delegation_status :: "'h gateway_env \<Rightarrow> (string, json) btree \<Rightarrow> ('h, rpc_error, json) gateway_action" where
  "gateway_delegation_status ge params =
     act_bind (authorized_parent ge params) (\<lambda>session_id.
     act_bind (act_lift (delegation_param params)) (\<lambda>delegation_id.
     act_bind (load_owned_delegation ge session_id delegation_id) (\<lambda>delegation.
     act_return (jobject [(''delegation'', json_of_delegation delegation)]))))"

definition cancellation_param :: "(string, json) btree \<Rightarrow> rpc_error + string" where
  "cancellation_param params =
     (case btree_get params ''reason'' of
        None \<Rightarrow> Ok ''client requested background cancellation''
      | Some v \<Rightarrow>
          ok_or (rpc_error_new (-32602) ''cancellation reason must be non-empty with no surrounding whitespace'')
            (Option.bind (json_as_str v) (\<lambda>reason. if trim reason \<noteq> [] \<and> trim reason = reason then Some reason else None)))"

definition signal_worker :: "delegation_id \<Rightarrow> string \<Rightarrow> ('h, 'e, bool) gateway_action" where
  "signal_worker delegation_id reason g =
     (case background_signal (delegation_id_str delegation_id) reason (gt_signals g) of
        (sent, signals) \<Rightarrow> (Ok sent, g\<lparr>gt_signals := signals\<rparr>))"

definition cancel_answer :: "bool \<Rightarrow> bool \<Rightarrow> delegation_snapshot \<Rightarrow> json" where
  "cancel_answer already_requested signalled delegation = jobject
     [(''accepted'', JBool True), (''already_requested'', JBool already_requested), (''signalled'', JBool signalled),
      (''delegation'', json_of_delegation delegation)]"

text \<open>One attempt; no value when somebody else changed the owner generation in between.\<close>

definition cancel_attempt ::
  "'h gateway_env \<Rightarrow> session_id \<Rightarrow> delegation_id \<Rightarrow> string \<Rightarrow> nat \<Rightarrow> ('h, rpc_error, json option) gateway_action" where
  "cancel_attempt ge parent delegation_id requested_reason attempt =
     act_bind (load_owned_delegation ge parent delegation_id) (\<lambda>current.
     if delegation_is_terminal (dn_state current)
     then act_return (Some (jobject [(''accepted'', JBool False), (''already_terminal'', JBool True),
                                     (''delegation'', json_of_delegation current)]))
     else (case cancellation_reason current of
       Some reason \<Rightarrow> act_bind (signal_worker delegation_id reason) (\<lambda>signalled. act_return (Some (cancel_answer True signalled current)))
     | None \<Rightarrow>
         act_bind (act_lift (map_err internal_error (gv_now_ms ge attempt))) (\<lambda>now_ms.
         act_bind (act_map_err internal_error (on_live (open_delegations (gv_live ge)))) (\<lambda>_.
         act_bind (act_attempt (on_live (live_db (delegation_cancel (gv_serde ge) delegation_id (dn_owner_generation current)
             requested_reason now_ms)))) (\<lambda>outcome.
         case outcome of
           Inr done_cancel \<Rightarrow>
             act_bind (signal_worker delegation_id requested_reason) (\<lambda>signalled.
             act_return (Some (cancel_answer False signalled done_cancel)))
         | Inl (DelegationGenerationConflict _ _ _) \<Rightarrow> act_return None
         | Inl error \<Rightarrow> act_lift (Err (delegation_rpc_error error)))))))"

fun cancel_retries ::
  "'h gateway_env \<Rightarrow> session_id \<Rightarrow> delegation_id \<Rightarrow> string \<Rightarrow> nat list \<Rightarrow> ('h, rpc_error, json) gateway_action" where
  "cancel_retries ge parent delegation_id reason [] =
     act_lift (Err (rpc_error_new 4093 ''delegation ownership kept changing while cancellation was requested''))"
| "cancel_retries ge parent delegation_id reason (attempt # attempts) =
     act_bind (cancel_attempt ge parent delegation_id reason attempt) (\<lambda>answer.
     case answer of Some result \<Rightarrow> act_return result | None \<Rightarrow> cancel_retries ge parent delegation_id reason attempts)"

definition gateway_cancel_delegation :: "'h gateway_env \<Rightarrow> (string, json) btree \<Rightarrow> ('h, rpc_error, json) gateway_action" where
  "gateway_cancel_delegation ge params =
     act_bind (authorized_parent ge params) (\<lambda>session_id.
     act_bind (act_lift (delegation_param params)) (\<lambda>delegation_id.
     act_bind (act_lift (cancellation_param params)) (\<lambda>reason.
     cancel_retries ge session_id delegation_id reason [0, 1, 2])))"

section \<open>Requests about a running turn\<close>

definition use_channel :: "nat \<Rightarrow> cancel_channel \<Rightarrow> cancel_channel list \<Rightarrow> cancel_channel list" where
  "use_channel i to channels = (if i < length channels \<and> channels ! i = CancelOpen then channels[i := to] else channels)"

text \<open>Take the sender of a session out of the map and send, or drop it.\<close>

definition take_control :: "string \<Rightarrow> cancel_channel \<Rightarrow> 'h gateway \<Rightarrow> 'h gateway" where
  "take_control sid to g =
     (case gt_controls g sid of
        None \<Rightarrow> g
      | Some i \<Rightarrow> g\<lparr>gt_controls := (gt_controls g)(sid := None), gt_channels := use_channel i to (gt_channels g)\<rparr>)"

definition gateway_interrupt :: "'h gateway_env \<Rightarrow> (string, json) btree \<Rightarrow> ('h, rpc_error, json) gateway_action" where
  "gateway_interrupt ge params =
     act_bind (authorized_parent ge params) (\<lambda>sid.
     act_bind (act_try (\<lambda>g. ensure (\<not> gt_controls_poisoned g) (rpc_error_new 5000 ''turn-control lock poisoned''))) (\<lambda>_.
     act_bind (act_update (take_control (session_id_str sid) CancelSent)) (\<lambda>_.
     act_bind (act_update (\<lambda>g. g\<lparr>gt_live := (gt_live g)\<lparr>lv_approvals := approval_deny_session sid (lv_approvals (gt_live g))\<rparr>\<rparr>)) (\<lambda>_.
     act_return (jobject [(''ok'', JBool True), (''status'', JString ''interrupted'')])))))"

definition gateway_respond_approval :: "'h gateway_env \<Rightarrow> (string, json) btree \<Rightarrow> ('h, rpc_error, json) gateway_action" where
  "gateway_respond_approval ge params =
     act_bind (authorized_parent ge params) (\<lambda>session_id.
     act_bind (act_lift (ok_or (rpc_error_new (-32602) ''approval choice is required'') (param_str ''choice'' params))) (\<lambda>choice.
     act_bind (act_map_err (approval_rpc_error (sx_debug_str (gv_serde ge)))
       (on_live (act_zoom lv_approvals (\<lambda>a s. s\<lparr>lv_approvals := a\<rparr>) (approval_respond session_id choice)))) (\<lambda>resolved.
     act_return (jobject [(''resolved'', JBool resolved)]))))"

section \<open>The dispatcher\<close>

definition fixed_answer :: "'h gateway_env \<Rightarrow> string \<Rightarrow> (string, json) btree \<Rightarrow> rpc_error + json" where
  "fixed_answer ge name params =
     (if name = ''setup.status'' then Ok (jobject [(''provider_configured'',
          JBool (case ls_api_key_env (gv_settings ge) of None \<Rightarrow> True | Some variable \<Rightarrow> gv_env_present ge variable))])
      else if name = ''config.get'' then Ok (config_value params)
      else if name = ''session.close'' then and_then (session_param params) (\<lambda>_. Ok (jobject [(''closed'', JBool True)]))
      else if name = ''input.detect_drop'' then and_then (session_param params) (\<lambda>_. Ok (jobject [(''matched'', JBool False)]))
      else if name = ''commands.catalog'' then Ok (jobject [(''canon'', jobject []), (''categories'', JArray []), (''pairs'', JArray []),
          (''skill_count'', jnat 0), (''sub'', jobject [])])
      else if name = ''complete.slash'' \<or> name = ''complete.path'' then Ok (jobject [(''items'', JArray [])])
      else if name = ''session.usage'' then Ok (zero_usage (ls_model (gv_settings ge)))
      else if name = ''system.battery'' then Ok (jobject [(''available'', JBool False)])
      else if name = ''terminal.resize'' then and_then (session_param params) (\<lambda>_. Ok (jobject [(''ok'', JBool True)]))
      else if name = ''wake.start'' then Ok (jobject [(''reason'', JString ''unsupported''), (''started'', JBool False)])
      else Err (rpc_error_new (-32601) (''method not found: '' @ name)))"

definition gateway_call :: "'h gateway_env \<Rightarrow> string \<Rightarrow> (string, json) btree \<Rightarrow> ('h, rpc_error, json) gateway_action" where
  "gateway_call ge name params =
     (if name = ''session.create'' then gateway_create ge params
      else if name = ''session.resume'' \<or> name = ''session.activate'' then gateway_resume ge params
      else if name = ''session.interrupt'' then gateway_interrupt ge params
      else if name = ''session.list'' then gateway_list_sessions ge False
      else if name = ''session.active_list'' then gateway_list_sessions ge True
      else if name = ''session.most_recent'' then gateway_most_recent ge
      else if name = ''delegation.list'' then gateway_list_delegations ge params
      else if name = ''delegation.status'' then gateway_delegation_status ge params
      else if name = ''delegation.cancel'' then gateway_cancel_delegation ge params
      else if name = ''approval.respond'' then gateway_respond_approval ge params
      else act_lift (fixed_answer ge name params))"

end
