(* ===== verification/Live_Properties.thy ===== *)
theory Live_Properties
  imports Live_Turn Frames Turn_Properties Codex_Properties Agent_Properties
begin

text \<open>
  What a chat turn does to its session, on either engine, through all of its tools: it appends the turn or leaves
  the session as it was.
\<close>

section \<open>The history stays in front\<close>

definition reads_after :: "runtime_text \<Rightarrow> semantic_message list \<Rightarrow> provider_message list \<Rightarrow> bool" where
  "reads_after rt ms projected \<longleftrightarrow> (\<forall>rest. no_tool_head rest \<longrightarrow>
     semanticize_loop rt (projected @ rest) = and_then (semanticize_loop rt rest) (\<lambda>later. Ok (map provider_view ms @ later))
     \<and> (ms = [] \<or> no_tool_head (projected @ rest)))"

lemma reads_afterI:
  assumes "\<And>rest. no_tool_head rest \<Longrightarrow> semanticize_loop rt (projected @ rest)
      = and_then (semanticize_loop rt rest) (\<lambda>later. Ok (map provider_view ms @ later))"
    "\<And>rest. no_tool_head rest \<Longrightarrow> ms \<noteq> [] \<Longrightarrow> no_tool_head (projected @ rest)"
  shows "reads_after rt ms projected"
  using assms by (auto simp: reads_after_def)

lemma reads_afterD:
  "reads_after rt ms projected \<Longrightarrow> no_tool_head rest \<Longrightarrow> semanticize_loop rt (projected @ rest)
      = and_then (semanticize_loop rt rest) (\<lambda>later. Ok (map provider_view ms @ later))"
  by (simp add: reads_after_def)

lemma and_then_and_then: "and_then (and_then m k) k' = and_then m (\<lambda>x. and_then (k x) k')"
  by (cases m) simp_all

lemma project_reads_after:
  "legal ms \<Longrightarrow> list_all (projectable rt) ms \<Longrightarrow>
     \<exists>pss. collect_results (project_message rt) ms = Inr pss \<and> reads_after rt ms (concat pss)"
  "in_turn ms \<Longrightarrow> list_all (projectable rt) ms \<Longrightarrow>
     \<exists>pss. collect_results (project_message rt) ms = Inr pss \<and> reads_after rt ms (concat pss)"
proof (induction rule: legal_in_turn.inducts)
  case (legal_user ms c d)
  then obtain pss where pss: "collect_results (project_message rt) ms = Inr pss" "reads_after rt ms (concat pss)" by auto
  then have "reads_after rt (User c d # ms) (concat ([PUser c] # pss))"
    by (intro reads_afterI) (simp_all add: reads_afterD and_then_and_then no_tool_head_def)
  then show ?case using pss(1) by auto
next
  case (in_turn_done ms c r p)
  then obtain pss where pss: "collect_results (project_message rt) ms = Inr pss" "reads_after rt ms (concat pss)" by auto
  then have "reads_after rt (Assistant c r p # ms) (concat ([PAssistant (Some c) r [] p] # pss))"
    by (intro reads_afterI) (simp_all add: reads_afterD and_then_and_then no_tool_head_def)
  then show ?case using pss(1) by auto
next
  case (in_turn_round calls results ms c r p)
  obtain pcs where pcs: "collect_results (provider_call_of rt) calls = Inr pcs"
    "collect_results (semantic_call_of rt) pcs = Inr calls" "pcs = [] \<longleftrightarrow> calls = []"
    using in_turn_round.prems calls_round_trip [of rt calls] by auto
  obtain pms where pms: "collect_results project_result results = Inr pms"
    "\<And>rest. no_tool_head rest \<Longrightarrow> take_tool_results rt (pms @ rest) = Inr (results, rest)"
    using in_turn_round.prems results_round_trip [of results] by auto
  obtain pss where pss: "collect_results (project_message rt) ms = Inr pss" "reads_after rt ms (concat pss)"
    using in_turn_round by auto
  have head: "no_tool_head (concat pss @ rest)" if "no_tool_head rest" for rest
    using pss that by (cases "ms = []") (simp_all add: reads_after_def)
  let ?m = "PAssistant (non_empty (opt_str c)) (non_empty (opt_str r)) pcs p"
  have "pcs \<noteq> []" using pcs(3) in_turn_round.hyps(1) by (simp add: calls_legal_def)
  then have "reads_after rt (AssistantToolRequest c calls r p # ToolResultBatch results # ms) (concat ([?m] # pms # pss))"
    using pcs(2) pms(2) [OF head] in_turn_round.hyps(2)
    by (intro reads_afterI) (simp_all add: reads_afterD [OF pss(2)] and_then_and_then no_tool_head_def)
  then show ?case using pcs(1) pms(1) pss(1) by (auto simp: provider_tool_request_def)
qed (auto simp: reads_after_def and_then_def split: sum.split)

lemma semanticize_after_history:
  assumes "legal history" "list_all (projectable rt) history" "project_conversation rt history = Ok projected"
    "semanticize rt (projected @ PUser prompt # new) = Ok conversation"
  shows "\<exists>later. conversation = map provider_view history @ User prompt None # later \<and> semanticize_loop rt new = Ok later"
proof -
  obtain pss where pss: "collect_results (project_message rt) history = Inr pss" "reads_after rt history (concat pss)"
    using project_reads_after(1) [OF assms(1,2)] by blast
  then have "projected = concat pss" using assms(1,3) by (simp add: project_conversation_def conversation_new_legal)
  moreover have "no_tool_head (PUser prompt # new)" by (simp add: no_tool_head_def)
  ultimately show ?thesis
    using pss(2) assms(4) by (auto simp: reads_after_def semanticize_def and_then_eq_Inr conversation_new_Inr)
qed

section \<open>What the tools do to the database\<close>

context frame
begin

lemma transaction_moves: "moves R m \<Longrightarrow> moves R (transaction m)"
  by (rule movesI) (auto simp: transaction_def split: prod.splits sum.splits dest: movesD)

end

text \<open>The ledger and the bindings are tables of their own.\<close>

definition same_stores :: "database \<Rightarrow> database \<Rightarrow> bool" where
  "same_stores d d' \<longleftrightarrow> db_sessions d' = db_sessions d \<and> db_messages d' = db_messages d \<and> db_turns d' = db_turns d
     \<and> db_delegations d' = db_delegations d \<and> db_completions d' = db_completions d"

interpretation stores: frame same_stores
  by unfold_locales (auto simp: same_stores_def)

lemma same_stores_load:
  assumes "same_stores d d'"
  shows "load_snapshot sx k d' = load_snapshot sx k d" "session_row_ok sx d' r = session_row_ok sx d r" "has_session d' i = has_session d i"
proof -
  show load: "load_snapshot sx k d' = load_snapshot sx k d" for k
    using assms by (intro load_cong) (simp_all add: same_stores_def find_session_def message_rows_def)
  show "session_row_ok sx d' r = session_row_ok sx d r"
    using assms by (simp add: session_row_ok_def load message_rows_def same_stores_def)
  show "has_session d' i = has_session d i" using assms by (simp add: has_session_def same_stores_def)
qed

lemma same_stores_keep:
  assumes "same_stores d d'"
  shows "supervisor_inv sx d' = supervisor_inv sx d" "sessions_of sx d' = sessions_of sx d" "turns_of sx d' = turns_of sx d"
    "delegations_of sx d' = delegations_of sx d"
proof -
  note same = assms [unfolded same_stores_def]
  show sessions: "sessions_of sx d' = sessions_of sx d" by (rule ext) (simp add: sessions_of_def same_stores_load [OF assms])
  show turns: "turns_of sx d' = turns_of sx d" by (rule ext) (simp add: turns_of_def turn_at_def same)
  show delegations: "delegations_of sx d' = delegations_of sx d" by (rule ext) (simp add: delegations_of_def delegation_at_def same)
  show "supervisor_inv sx d' = supervisor_inv sx d"
    by (simp add: supervisor_inv_def stores_inv_def children_inv_def sessions_inv_def turns_inv_def outbox_inv_def delegations_inv_def
        outbox_linked_def same same_stores_load [OF assms] delegations)
qed

lemma effect_writes:
  "moves same_stores (insert_effect err row)" "moves same_stores (update_effects err p f)" "moves same_stores (find_effect k)"
  by (auto simp: moves_def same_stores_def insert_effect_def update_effects_def run_update_def run_insert_def find_effect_def act_read_def
      select_row_def split: sum.split prod.split)

lemma ledger_moves:
  "moves same_stores (el_record_plans (sqlite_effect_ledger sx planned_at completed_at) scope plans)"
  "moves same_stores (el_record_approvals (sqlite_effect_ledger sx planned_at completed_at) plans)"
  "moves same_stores (el_record_terminals (sqlite_effect_ledger sx planned_at completed_at) terminals)"
proof -
  have updates: "moves same_stores (approval_updates sx seen plans)" for seen plans
    by (induction sx seen plans rule: approval_updates.induct) (auto intro!: stores.steps effect_writes)
  show "moves same_stores (el_record_plans (sqlite_effect_ledger sx planned_at completed_at) scope plans)"
    by (auto simp: sqlite_effect_ledger_def record_plans_def ensure_unrecorded_def insert_plan_def
        intro!: stores.steps stores.transaction_moves effect_writes)
  show "moves same_stores (el_record_approvals (sqlite_effect_ledger sx planned_at completed_at) plans)"
    by (auto simp: sqlite_effect_ledger_def record_approvals_def apply_approval_def
        intro!: stores.steps stores.transaction_moves effect_writes updates)
  show "moves same_stores (el_record_terminals (sqlite_effect_ledger sx planned_at completed_at) terminals)"
    by (auto simp: sqlite_effect_ledger_def record_terminals_def ensure_matching_plan_def apply_terminal_def Let_def
        intro!: stores.steps stores.transaction_moves effect_writes)
qed

text \<open>
  The tools may add delegations with the sessions of their children, and change no session, no turn and no delegation.
  What \<open>serde_json\<close> must do for that: encode and decode the catalog of a child and the frozen choices of an engine.
\<close>

definition codecs_ok :: "serde \<Rightarrow> bool" where
  "codecs_ok sx \<longleftrightarrow> encodes (sx_tools sx) local_catalog \<and> (\<forall>t. encodes (sx_transport sx) t) \<and> (\<forall>c. encodes (sx_engine_config sx) c)"

definition tools_frame :: "serde \<Rightarrow> database \<Rightarrow> database \<Rightarrow> bool" where
  "tools_frame sx d d' \<longleftrightarrow> (supervisor_inv sx d \<longrightarrow>
     supervisor_inv sx d' \<and> sessions_of sx d \<subseteq>\<^sub>m sessions_of sx d' \<and> turns_of sx d' = turns_of sx d
     \<and> delegations_of sx d \<subseteq>\<^sub>m delegations_of sx d')"

definition agent_frame :: "serde \<Rightarrow> 'h agent_tools \<Rightarrow> 'h agent_tools \<Rightarrow> bool" where
  "agent_frame sx s s' \<longleftrightarrow> tools_frame sx (ag_db s) (ag_db s')"

interpretation database_frame: frame "tools_frame sx" for sx
  by unfold_locales (auto simp: tools_frame_def intro: map_le_trans)

interpretation agent_frame: frame "agent_frame sx" for sx
  by unfold_locales (auto simp: agent_frame_def intro: database_frame.trans)

lemma same_stores_frame: "same_stores d d' \<Longrightarrow> tools_frame sx d d'"
  by (simp add: tools_frame_def same_stores_keep)

lemma moves_same_frame: "moves same_stores m \<Longrightarrow> moves (tools_frame sx) m"
  by (simp add: moves_def same_stores_frame)

lemma agent_frame_db: "moves (tools_frame sx) m \<Longrightarrow> moves (agent_frame sx) (on_db m)"
  unfolding on_db_def by (rule agent_frame.zoom [where Q = "tools_frame sx"]) (simp_all add: agent_frame_def)

lemma agent_frame_small:
  "moves (agent_frame sx) (on_approvals a)" "moves (agent_frame sx) (open_file failure)"
  by (auto simp: moves_def on_approvals_def open_file_def act_zoom_def act_return_def act_lift_def agent_frame_def
      split: prod.split option.split)

lemma agent_frame_update: "(\<And>s. ag_db (f s) = ag_db s) \<Longrightarrow> moves (agent_frame sx) (act_update f)"
  by (rule agent_frame.update) (simp add: agent_frame_def)

lemma enqueue_frame:
  assumes ok: "codecs_ok (ae_serde ae)"
  shows "moves (agent_frame (ae_serde ae)) (enqueue_child ae config plan arguments)"
proof (rule movesI)
  fix s r s'
  assume run: "enqueue_child ae config plan arguments s = (r, s')"
  show "agent_frame (ae_serde ae) s s'"
  proof (cases "gc_background_parent config")
    case None
    then have "s' = s" using run by (simp add: enqueue_child_def Let_def act_bind_def act_lift_def)
    then show ?thesis by simp
  next
    case (Some parent)
    have "wp (enqueue_child ae config plan arguments) (\<lambda>_. agent_frame (ae_serde ae) s) (\<lambda>_. agent_frame (ae_serde ae) s) s"
    proof (rule enqueue_child_wp [OF Some], goal_cases)
      case (2 snap child now spec)
      show ?case
      proof (cases "supervisor_inv (ae_serde ae) (ag_db s)")
        case True
        then have "unpadded (session_id_str parent)"
          using session_of_row [of "ae_serde ae" "ag_db s" parent snap] 2(2)
          by (auto simp: supervisor_inv_def stores_inv_def sessions_inv_def config_from_raw_def and_then_eq_Inr session_id_error_def)
        then have "background_ready (ae_serde ae) (ag_db s) parent"
          using True ok by (simp add: background_ready_def codecs_ok_def)
        from enqueue_create(1) [OF this 2] show ?thesis
          by (rule wp_mono) (auto simp: queued_as_def agent_frame_def tools_frame_def map_le_def dom_def)
      next
        case False
        then show ?thesis by (simp add: wp_def agent_frame_def tools_frame_def split: prod.split sum.split)
      qed
    qed simp
    then show ?thesis using run by (simp add: wp_def split: sum.splits)
  qed
qed

lemma file_ledger_frame: "moves same_stores m \<Longrightarrow> moves (agent_frame sx) (on_file_ledger m)"
  unfolding on_file_ledger_def by (intro agent_frame.map_err agent_frame_db moves_same_frame)

text \<open>A child that runs inside the turn writes the ledger and nothing else.\<close>

definition child_frame :: "('b, database) journaled \<Rightarrow> ('b, database) journaled \<Rightarrow> bool" where
  "child_frame j j' \<longleftrightarrow> same_stores (jb_ledger j) (jb_ledger j')"

interpretation child_frame: frame child_frame
  by unfold_locales (auto simp: child_frame_def intro: stores.trans)

lemma on_inner_child_frame: "moves child_frame (on_inner m)"
  unfolding on_inner_def by (rule child_frame.zoom [where Q = "\<lambda>_ _. True"]) (simp_all add: moves_def child_frame_def)

lemma on_ledger_child_frame: "moves same_stores m \<Longrightarrow> moves child_frame (on_ledger m)"
  unfolding on_ledger_def
  by (intro child_frame.map_err child_frame.zoom [where Q = same_stores]) (simp_all add: child_frame_def)

interpretation child_broker: broker_frame child_frame
  "journaled_broker (local_tool_broker le) (sqlite_effect_ledger sx planned_at completed_at) scope" for le sx planned_at completed_at scope
proof
  show "broker_moves child_frame (journaled_broker (local_tool_broker le) (sqlite_effect_ledger sx planned_at completed_at) scope)"
    by (auto simp: broker_moves_def journaled_broker_def journaled_plan_def journal_plan_def journaled_resolve_approvals_def
        journal_resolve_def journaled_execute_def journal_execute_def Let_def
        intro!: child_frame.steps on_inner_child_frame on_ledger_child_frame ledger_moves)
qed

lemma child_turn_frame: "moves (agent_frame sx) (child_turn ae provider local scope request)"
proof (rule movesI)
  fix s r s'
  assume "child_turn ae provider local scope request s = (r, s')"
  then obtain p' b' obs' where run: "run_turn_with_limit_observed
      (quiet (ae_text ae) (openai_provider_port (ae_http ae) (ae_parse ae))
        (journaled_broker (local_tool_broker (ae_local ae))
          (sqlite_effect_ledger (ae_serde ae) (ae_planned_at ae) (ae_completed_at ae)) scope)) request child_max_attempts
      (provider\<lparr>op_http := ag_http s\<rparr>, \<lparr>jb_inner = local, jb_ledger = ag_db s\<rparr>, ()) = (r, (p', b', obs'))"
    and db: "ag_db s' = jb_ledger b'"
    by (auto simp: child_turn_def run_turn_with_limit_def act_zoom_def split: prod.splits)
  have "child_frame \<lparr>jb_inner = local, jb_ledger = ag_db s\<rparr> b'"
    by (rule child_broker.run_turn_moves [OF _ run]) (simp add: quiet_def)
  then show "agent_frame sx s s'" by (simp add: child_frame_def agent_frame_def db same_stores_frame)
qed

lemma delegate_frame:
  assumes ok: "codecs_ok (ae_serde ae)"
  shows "moves (agent_frame (ae_serde ae)) (execute_delegate ae config plan)"
proof (rule movesI)
  fix s r s'
  assume run: "execute_delegate ae config plan s = (r, s')"
  have child: "moves (agent_frame (ae_serde ae)) (run_child ae config plan arguments)" for arguments
    unfolding run_child_def Let_def by (intro agent_frame.steps agent_frame_small child_turn_frame)
  have queued: "moves (agent_frame (ae_serde ae)) (act_bind (enqueue_child ae config plan arguments) (\<lambda>handle. act_return (handle, handle)))" for arguments
    by (intro agent_frame.steps enqueue_frame ok)
  show "agent_frame (ae_serde ae) s s'"
  proof (cases "and_then (decode_delegate_args ae (pl_arguments plan)) validate_delegate_args")
    case (Inl e)
    then show ?thesis using run by (simp add: execute_delegate_def)
  next
    case (Inr arguments)
    then show ?thesis
      using run movesD [OF queued, of arguments s] movesD [OF child, of arguments s]
      by (auto simp: execute_delegate_def split: prod.splits if_splits)
  qed
qed

lemma plan_calls_frame: "moves (agent_frame sx) (plan_agent_calls ae config seen xs)"
proof -
  have "moves (agent_frame sx) (plan_agent_call ae config call i)" for ae :: "'a agent_env" and config call i
    by (auto simp: plan_agent_call_def register_terminal_def intro!: agent_frame.steps agent_frame_small agent_frame_update
        split: option.split)
  then show ?thesis
    by (induction ae config seen xs rule: plan_agent_calls.induct) (auto intro!: agent_frame.steps)
qed

lemma live_broker_frame:
  assumes ok: "codecs_ok (ae_serde ae)"
  shows "broker_moves (agent_frame (ae_serde ae)) (live_broker ae scope)"
proof -
  let ?R = "agent_frame (ae_serde ae)"
  have plan: "moves ?R (agent_plan ae calls ids)" for calls ids
    by (auto simp: agent_plan_def intro!: agent_frame.steps plan_calls_frame)
  have resolve: "moves ?R (agent_resolve_approvals ae calls)" for calls
    by (auto simp: agent_resolve_approvals_def resolve_agent_plan_def await_decision_def
        intro!: agent_frame.steps agent_frame_update)
  have local: "moves ?R (act_zoom ag_local (\<lambda>l s. s\<lparr>ag_local := l\<rparr>) m)" for m :: "(read_only_local_tools, 'e, 'x) action"
    by (rule agent_frame.zoom [where Q = "\<lambda>_ _. True"]) (simp_all add: moves_def agent_frame_def)
  have execute: "moves ?R (agent_execute ae calls)" for calls
    by (auto simp: agent_execute_def execute_terminal_call_def Let_def
        intro!: agent_frame.steps local delegate_frame [OF ok] agent_frame_update split: prod.split)
  show ?thesis
    by (auto simp: broker_moves_def live_broker_def journal_plan_def journal_resolve_def journal_execute_def Let_def agent_ledger_def
        intro!: agent_frame.steps plan resolve execute file_ledger_frame ledger_moves)
qed

section \<open>A turn through the host\<close>

text \<open>A dropped future has done part of its work, and that is work of the tools.\<close>

definition drops_part :: "('h, 'o) live_env \<Rightarrow> bool" where
  "drops_part ve \<longleftrightarrow> (\<forall>tools. agent_frame (ae_serde (ve_agent ve)) tools (ve_dropped ve tools)
     \<and> agent_frame (ae_serde (ve_agent ve)) tools (en_abandon_tools (ve_codex ve) tools))"

definition live_frame :: "serde \<Rightarrow> ('h, 'o) live_state \<Rightarrow> ('h, 'o) live_state \<Rightarrow> bool" where
  "live_frame sx s s' \<longleftrightarrow> tools_frame sx (lv_db s) (lv_db s')"

interpretation live_frame: frame "live_frame sx" for sx
  by unfold_locales (auto simp: live_frame_def intro: database_frame.trans)

lemma live_db_frame: "moves (tools_frame sx) m \<Longrightarrow> moves (live_frame sx) (live_db m)"
  unfolding live_db_def by (rule live_frame.zoom [where Q = "tools_frame sx"]) (simp_all add: live_frame_def)

lemma leave_turn_frame:
  assumes "ag_db tools = lv_db s" "agent_frame sx tools tools'"
  shows "live_frame sx s (leave_turn tools' observer s)"
  using assms by (simp add: live_frame_def agent_frame_def leave_turn_def)

lemma prepare_turn_ok:
  "prepare_turn ve settings scope state session_id approvals s = (r, s') \<Longrightarrow>
     s' = s \<and> (\<forall>key tools. r = Ok (key, tools) \<longrightarrow> ag_db tools = lv_db s)"
  by (auto simp: prepare_turn_def act_try_def and_then_eq_Inr agent_tools_new_def)

lemma direct_turn_frame:
  assumes ok: "codecs_ok (ae_serde (ve_agent ve))" "drops_part ve" and db: "ag_db tools = lv_db s"
    and run: "direct_turn ve hooks settings history prompt scope key tools s = (r, s')"
  shows "live_frame (ae_serde (ve_agent ve)) s s'"
proof -
  let ?sx = "ae_serde (ve_agent ve)"
  have race: "live_frame ?sx s t" if "race_direct ve hooks scope request provider tools s = (q, t)" for request provider q t
  proof (cases "case tk_cancellation hooks of None \<Rightarrow> False | Some polls \<Rightarrow> True \<in> set polls")
    case True
    then show ?thesis
      using that ok(2) leave_turn_frame [OF db] by (auto simp: race_direct_def drops_part_def)
  next
    case False
    obtain q1 p1 tools1 o1 where turn: "run_turn_observed (live_ports ve hooks scope) request (provider, tools, lv_observer s) = (q1, (p1, tools1, o1))"
      by (metis prod.collapse)
    have "agent_frame ?sx tools tools1"
      by (rule broker_frame.run_turn_moves [OF broker_frame.intro _ turn [unfolded run_turn_observed_def]])
         (auto simp: live_ports_def broker_frame_axioms_def live_broker_frame [OF ok(1)] agent_frame.frame_axioms)
    then have "live_frame ?sx s (leave_turn tools1 o1 s)" by (rule leave_turn_frame [OF db])
    moreover have "t = (leave_turn tools1 o1 s)\<lparr>lv_http := op_http p1\<rparr>"
      using that turn False by (simp add: race_direct_def)
    ultimately show ?thesis by (simp add: live_frame_def)
  qed
  then show ?thesis
    using run by (auto simp: direct_turn_def act_bind_def act_try_def act_lift_def split: sum.splits)
qed

lemma engine_entry_frame:
  assumes ok: "codecs_ok (ae_serde (ve_agent ve))" "drops_part ve"
    and run: "engine_entry (engine_of_turn ve hooks scope) clock hooks session_id engine request binding catalog e = (r, e')"
  shows "agent_frame (ae_serde (ve_agent ve)) (th_tools (en_host e)) (th_tools (en_host e'))"
proof -
  let ?sx = "ae_serde (ve_agent ve)" and ?world = "engine_of_turn ve hooks scope"
  let ?R = "on_engine_tools (agent_frame ?sx)"
  have inner: "moves ?R (run_inner ?world clock engine control catalog request)" for control
    by (rule broker_frame.run_inner_moves [OF broker_frame.intro])
       (use ok in \<open>auto simp: engine_of_turn_def broker_frame_axioms_def live_broker_frame drops_part_def agent_frame.frame_axioms\<close>)
  have frame: "frame ?R" by unfold_locales (auto simp: on_engine_tools_def intro: agent_frame.trans)
  have uncancelled: "moves ?R (\<lambda>s. m (s\<lparr>en_cancel := []\<rparr>))" if "moves ?R m" for m :: "(('a agent_tools, 'b) engine_state, 'e, 'x) action"
  proof (rule movesI)
    fix s r s'
    assume "m (s\<lparr>en_cancel := []\<rparr>) = (r, s')"
    from movesD [OF that this] show "?R s s'" by (simp add: on_engine_tools_def)
  qed
  have "moves ?R (engine_entry ?world clock hooks session_id engine request binding catalog)"
    unfolding engine_entry_def run_bound_interruptible_def run_bound_def run_new_def
    by (auto intro!: frame.steps [OF frame] inner uncancelled)
  from movesD [OF this run] show ?thesis by (simp add: on_engine_tools_def)
qed

lemma codex_turn_frame:
  assumes ok: "codecs_ok (ae_serde (ve_agent ve))" "drops_part ve" and db: "ag_db tools = lv_db s"
    and run: "codex_live_turn ve hooks settings history prompt scope durable tools s = (r, s')"
  shows "live_frame (ae_serde (ve_agent ve)) s s'"
proof -
  let ?sx = "ae_serde (ve_agent ve)"
  have load: "binding_load_current bx sx k g d = (q, d') \<Longrightarrow> d' = d" for bx sx k g d q d'
    by (auto simp: binding_load_current_def act_bind_def session_load_def act_try_def act_lift_def select_row_def act_read_def
        act_return_def split: sum.splits option.splits)
  have binding: "s1 = s" if "previous_binding ve durable s = (q, s1)" for q s1
    using that load
    by (auto simp: previous_binding_def act_return_def act_map_err_def act_bind_def act_lift_def act_zoom_def
        split: option.splits prod.splits sum.splits)
  have ran: "live_frame ?sx s s1" if "run_codex ve hooks settings scope session_id engine request b tools s = (q, s1)"
    for session_id engine request b q s1
  proof -
    obtain q1 e where e: "engine_entry (engine_of_turn ve hooks scope) (ve_clock ve) hooks session_id engine request b (ls_tools settings)
        (engine_start ve hooks tools (lv_observer s)) = (q1, e)"
      by (metis prod.collapse)
    from engine_entry_frame [OF ok e] have "agent_frame ?sx tools (th_tools (en_host e))" by (simp add: engine_start_def)
    from leave_turn_frame [OF db this] show ?thesis using that e by (auto simp: run_codex_def)
  qed
  show ?thesis
  proof (cases "live_engine settings")
    case (Inl e)
    then show ?thesis using run by (simp add: codex_live_turn_def act_bind_def act_lift_def)
  next
    case (Inr engine)
    obtain q t where t: "previous_binding ve durable s = (q, t)" by (cases "previous_binding ve durable s")
    then show ?thesis
      using run Inr binding [OF t] ran by (cases q) (auto simp: codex_live_turn_def act_bind_def act_lift_def)
  qed
qed

lemma execute_turn_frame:
  assumes ok: "codecs_ok (ae_serde (ve_agent ve))" "drops_part ve"
  shows "moves (live_frame (ae_serde (ve_agent ve))) (execute_turn_inner ve settings history prompt scope state durable hooks)"
proof (rule movesI)
  fix s r s'
  assume run: "execute_turn_inner ve settings history prompt scope state durable hooks s = (r, s')"
  obtain q t where t: "prepare_turn ve settings scope state (map_option fst durable) (tk_approvals hooks) s = (q, t)"
    by (cases "prepare_turn ve settings scope state (map_option fst durable) (tk_approvals hooks) s")
  note prepared = prepare_turn_ok [OF t]
  show "live_frame (ae_serde (ve_agent ve)) s s'"
  proof (cases q)
    case (Inl e)
    then show ?thesis using run t prepared by (simp add: execute_turn_inner_def act_bind_def)
  next
    case (Inr kt)
    obtain key tools where kt: "kt = (key, tools)" by (cases kt)
    then show ?thesis
      using run t prepared Inr direct_turn_frame [OF ok, of tools s] codex_turn_frame [OF ok, of tools s]
      by (auto simp: execute_turn_inner_def act_bind_def split: engine_preset.splits)
  qed
qed

section \<open>The answer comes last\<close>

lemma take_results_last:
  "take_tool_results rt (ms @ [PAssistant c r ps p]) = Inr (results, rest) \<Longrightarrow> \<exists>ms'. rest = ms' @ [PAssistant c r ps p]"
proof (induction ms arbitrary: results)
  case (Cons m ms)
  then show ?case by (cases m) (auto simp: and_then_eq_Inr)
qed simp

lemma semanticize_last:
  "semanticize_loop rt ms = Inr sem \<Longrightarrow> ms = before @ [PAssistant (Some text) r [] p] \<Longrightarrow>
   \<exists>earlier. sem = earlier @ [Assistant text r p]"
proof (induction rt ms arbitrary: sem before rule: semanticize_loop.induct)
  case (2 rt u messages)
  then show ?case by (cases before) auto
next
  case (3 rt content messages)
  obtain sem' where sem: "semanticize_loop rt messages = Inr sem'" "sem = User content None # sem'"
    using 3(2) by (auto simp: and_then_eq_Inr)
  obtain later where "messages = later @ [PAssistant (Some text) r [] p]" using 3(3) by (cases before) auto
  from 3(1) [OF sem(1) this] show ?case using sem(2) by (metis append_Cons)
next
  case (4 rt content reasoning calls replay messages)
  show ?case
  proof (cases before)
    case Nil
    then show ?thesis using 4 by (auto simp: and_then_eq_Inr)
  next
    case (Cons b later)
    then have ms: "messages = later @ [PAssistant (Some text) r [] p]" using 4(4) by simp
    show ?thesis
    proof (cases "calls = []")
      case True
      then obtain sem' where "semanticize_loop rt messages = Inr sem'" "sem = Assistant (opt_str content) reasoning replay # sem'"
        using 4(3) by (auto simp: and_then_eq_Inr)
      then show ?thesis using 4(1) [OF True _ ms] by (metis append_Cons)
    next
      case False
      then obtain cs batch sem' where parts: "collect_results (semantic_call_of rt) calls = Inr cs" "take_tool_results rt messages = Inr batch"
        "map tr_call_id (fst batch) = map tc_id cs" "semanticize_loop rt (snd batch) = Inr sem'"
        "sem = AssistantToolRequest content cs reasoning replay # ToolResultBatch (fst batch) # sem'"
        using 4(3) by (auto simp: and_then_eq_Inr split: if_splits)
      obtain later' where "snd batch = later' @ [PAssistant (Some text) r [] p]"
        using take_results_last [of rt later "Some text" r "[]" p "fst batch" "snd batch"] parts(2) by (auto simp: ms)
      then obtain earlier where "sem' = earlier @ [Assistant text r p]"
        using 4(2) [OF False parts(1,2)] parts(3,4) by auto
      then show ?thesis using parts(5) by (metis append_Cons)
    qed
  qed
next
  case 5
  from 5(1) show ?case by simp
qed simp

lemma final_message:
  assumes "turn_loop ports request max_attempts remaining s = (Inr terminal, s')" "to_final_response terminal = Some text"
  shows "\<exists>before r p. tu_raw_messages s' = before @ [PAssistant (Some text) r [] p]"
  using assms
proof (induction remaining arbitrary: s)
  case (Suc remaining)
  obtain outcome t where attempt: "run_attempt ports request s = (Inr outcome, t)"
    and rest: "(case outcome of Some terminal \<Rightarrow> act_return terminal | None \<Rightarrow> turn_loop ports request max_attempts remaining) t = (Inr terminal, s')"
    using Suc.prems(1) by (auto simp: act_bind_ok)
  show ?case
  proof (cases outcome)
    case None
    then show ?thesis using Suc.IH rest Suc.prems(2) by auto
  next
    case (Some ended)
    then have ended: "ended = terminal" "t = s'" using rest by (auto simp: act_return_def)
    from attempt obtain attempt p where "rest_of_attempt ports attempt (opened request attempt p s) = (Inr outcome, t)"
      by (rule run_attempt_ok)
    then obtain a s2 where h: "handle_terminal ports (at_attempt_id attempt) (at_error_policy attempt) a s2 = (Inr (Some terminal), s')"
      unfolding Some ended by (auto simp: rest_of_attempt_ok)
    then obtain finish replay where f: "finish_final_message ports (at_attempt_id attempt) a finish replay s2 = (Inr (Some terminal), s')"
      using Suc.prems(2)
      by (auto simp: handle_terminal_def finish_with_calls_def failed_outcome_def act_bind_ok act_return_def
          split: option.splits attempt_terminal.splits if_splits)
    then show ?thesis
      using Suc.prems(2)
      by (auto simp: finish_final_message_def Let_def act_bind_ok act_return_def push_messages_def push_intent_def act_update_def push_event_ok)
  qed
qed (simp add: act_lift_def)

section \<open>What a completed turn says\<close>

text \<open>
  The history, shown as a provider sees it, then the prompt, then the rest of the turn up to the answer.
\<close>

definition says_turn :: "semantic_message list \<Rightarrow> string \<Rightarrow> string \<Rightarrow> semantic_message list \<Rightarrow> bool" where
  "says_turn history prompt response conversation \<longleftrightarrow>
     (\<exists>shown between r p. length shown = length history
        \<and> conversation = shown @ User prompt None # between @ [Assistant response r p])"

lemma direct_turn_says:
  assumes history: "legal history" "list_all (projectable (ae_text (ve_agent ve))) history"
    and run: "direct_turn ve hooks settings history prompt scope key tools s = (Ok (Some outcome), s')"
    and response: "completed_response (lo_contract outcome) = Ok response"
  shows "says_turn history prompt response (co_semantic_conversation (lo_contract outcome))"
proof -
  let ?rt = "ae_text (ve_agent ve)" and ?ports = "live_ports ve hooks scope"
  obtain provider projected where projected: "project_conversation ?rt history = Ok projected"
    and race: "race_direct ve hooks scope (live_request settings scope projected prompt) provider tools s = (Ok (Some outcome), s')"
    using run by (auto simp: direct_turn_def act_bind_ok act_try_def act_lift_def)
  let ?request = "live_request settings scope projected prompt"
  obtain contract p' tools' obs' where turn: "run_turn_with_limit_observed ?ports ?request max_attempts_per_turn (provider, tools, lv_observer s)
      = (Inr contract, (p', tools', obs'))" and out: "lo_contract outcome = contract"
    using race by (auto simp: race_direct_def run_turn_observed_def and_then_eq_Inr split: if_splits prod.splits)
  show ?thesis
    using turn
  proof (rule run_turn_ok)
    fix host t
    assume loop: "turn_loop ?ports ?request max_attempts_per_turn max_attempts_per_turn (turn_start ?request provider host (lv_observer s))
        = (Inr (co_terminal_outcome contract), t)"
      and sem: "semanticize (tp_text ?ports) (tu_raw_messages t) = Inr (co_semantic_conversation contract)"
    have "to_final_response (co_terminal_outcome contract) = Some response"
      using response by (simp add: completed_response_def Let_def out and_then_eq_Inr)
    from final_message [OF loop this] obtain before r p where last: "tu_raw_messages t = before @ [PAssistant (Some response) r [] p]" by blast
    have "grown ?request (turn_start ?request provider host (lv_observer s))" by (simp add: grown_def turn_start_def)
    from keepsD [OF growing_conversation.keeps_turn_loop this loop]
    obtain new where new: "tu_raw_messages t = projected @ PUser prompt # new" by (auto simp: grown_def live_request_def)
    have rt_eq: "tp_text ?ports = ?rt" by (simp add: live_ports_def)
    from semanticize_after_history [OF history projected, of prompt new] sem obtain later where
      later: "co_semantic_conversation contract = map provider_view history @ User prompt None # later"
      by (auto simp: rt_eq new)
    have "semanticize_loop ?rt (tu_raw_messages t) = Inr (co_semantic_conversation contract)"
      using sem by (auto simp: semanticize_def rt_eq and_then_eq_Inr conversation_new_Inr)
    from semanticize_last [OF this last] obtain earlier where ends: "co_semantic_conversation contract = earlier @ [Assistant response r p]" by blast
    obtain between where "later = between @ [Assistant response r p]"
    proof (cases later rule: rev_cases)
      case Nil
      then show ?thesis using later ends by (cases "rev history") auto
    next
      case (snoc between m)
      then have "later = between @ [Assistant response r p]" using later ends by simp
      then show ?thesis by (rule that)
    qed
    then have "length (map provider_view history) = length history
      \<and> co_semantic_conversation contract = map provider_view history @ User prompt None # between @ [Assistant response r p]"
      using later by simp
    then show ?thesis unfolding says_turn_def out by blast
  qed
qed

lemma run_inner_says:
  assumes "run_inner world clock engine control catalog request s = (Ok (Some outcome), s')"
  shows "\<exists>response. to_final_response (co_terminal_outcome (eo_contract outcome)) = Some response
     \<and> says_turn (er_semantic_history request) (er_prompt request) response (co_semantic_conversation (eo_contract outcome))"
proof -
  obtain tools binding s1 s2 s3 where
    start: "begin_turn world request (turn_of_binding binding tools) s1 = (Inr (), s2)"
    and loop: "engine_loop world (turn_of_binding binding tools) s2 = (Inr (), s3)"
    and ending: "end_turn world (turn_of_binding binding tools) binding s3 = (Inr outcome, s')"
    using run_worker_ok [OF run_inner_ok [OF assms]] by auto
  let ?base = "er_semantic_history request @ [User (er_prompt request) None]" and ?turn = "turn_of_binding binding tools"
  have "\<exists>calls. turn_transcript ?turn (er_execution_scope request) ?base calls s2" using begin_turn_ok [OF start] by auto
  from keepsD [OF engine_loop_keeps [OF keeps_transcript_step] this loop]
  obtain between where "en_transcript s3 = ?base @ between" by (auto simp: turn_transcript_def engine_view_def)
  then show ?thesis using end_turn_ok [OF ending] by (auto simp: says_turn_def)
qed

section \<open>The session of a chat\<close>

text \<open>What \<open>serde_json\<close> encoded it decodes to the same value.\<close>

definition faithful :: "'a codec \<Rightarrow> bool" where
  "faithful c \<longleftrightarrow> (\<forall>x. is_ok (cd_enc c x) \<longrightarrow> encodes c x)"

definition serde_ok :: "serde \<Rightarrow> bool" where
  "serde_ok sx \<longleftrightarrow> codecs_ok sx \<and> faithful (sx_tools sx) \<and> faithful (sx_message sx)"

lemma inserted_messages_encode:
  "act_each (insert_turn_message sx sid start) (enumerate k ms) d = (Inr u, d') \<Longrightarrow> list_all (\<lambda>m. is_ok (cd_enc (sx_message sx) m)) ms"
  by (induction ms arbitrary: k d) (auto simp: act_bind_ok insert_turn_message_def act_lift_def is_ok_iff)

lemma appended_messages_storable:
  assumes "serde_ok sx" "session_append sx now sid g ms d = (Inr r, d')"
  shows "list_all (storable_message sx) ms"
proof -
  have "append_turn_in_transaction sx now sid g ms d = (Inr r, d')" using assms(2) by (simp add: session_append_def transaction_ok)
  then obtain start k d1 d2 u where "act_each (insert_turn_message sx sid start) (enumerate k ms) d1 = (Inr u, d2)"
    by (auto simp: append_turn_in_transaction_def act_bind_ok Let_def)
  from inserted_messages_encode [OF this] show ?thesis
    using assms(1) by (simp add: list_all_iff serde_ok_def faithful_def storable_message_def)
qed

lemma session_step_keeps:
  assumes "supervisor_inv sx d" "session_step (sqlite_session_store sx) (storable_config sx) (storable_message sx) d d'"
  shows "supervisor_inv sx d'"
  using store_ok_foreground [OF step_session [OF assms(2)] assms(1)] by (simp add: store_ok_def)

lemma sessions_inv_of: "supervisor_inv sx d \<Longrightarrow> sessions_inv sx d"
  by (simp add: supervisor_inv_def stores_inv_def)

lemma append_keeps_supervisor:
  assumes inv: "supervisor_inv sx d" and ok: "serde_ok sx" and run: "session_append sx now sid g ms d = (Inr r, d')"
  shows "supervisor_inv sx d' \<and> appendable (sessions_of sx d sid) g ms \<and> r = extended (the (sessions_of sx d sid)) ms
     \<and> sessions_of sx d' = (sessions_of sx d)(sid \<mapsto> r)"
proof -
  note fits = appended_messages_storable [OF ok run]
  have so: "so_append (sqlite_session_store sx now) sid g ms d = (Inr r, d')" using run by (simp add: sqlite_session_store_def)
  show ?thesis
    using sqlite_sessions.append_ok [OF sessions_inv_of [OF inv] fits so]
      session_step_keeps [OF inv step_append [of "storable_message sx" ms "sqlite_session_store sx" now, OF fits so]] by blast
qed

lemma create_keeps_supervisor:
  assumes inv: "supervisor_inv sx d" and fits: "storable_config sx c" and run: "session_create sx now c d = (Inr r, d')"
  shows "supervisor_inv sx d' \<and> sessions_of sx d (sc_session_id c) = None \<and> r = new_session c
     \<and> sessions_of sx d' = (sessions_of sx d)(sc_session_id c \<mapsto> r)"
proof -
  have so: "so_create (sqlite_session_store sx now) c d = (Inr r, d')" using run by (simp add: sqlite_session_store_def)
  have body: "create_session_in_transaction sx now c d = (Inr r, d')" using run by (simp add: session_create_def transaction_ok)
  then have "r = new_session c"
    using create_in_transaction [OF sessions_inv_of [OF inv] fits, of now] by (cases "creatable sx d c") fastforce+
  then show ?thesis
    using sqlite_sessions.create_ok [OF sessions_inv_of [OF inv] fits so]
      session_step_keeps [OF inv step_create [of "storable_config sx" c "sqlite_session_store sx" now, OF fits so]] by blast
qed

lemma binding_save_moves: "moves same_stores (binding_save bx sx now sid g b)"
proof -
  have "moves same_stores (upsert_binding e row)" for e row
    by (auto simp: moves_def upsert_binding_def same_stores_def)
  then show ?thesis
    unfolding binding_save_def session_load_def by (intro stores.steps stores.transaction_moves) auto
qed

lemma persisted_binding: "same_stores d (persist_worker_binding ve sid g binding d)"
  using binding_save_moves by (auto simp: persist_worker_binding_def moves_def split: option.split)

lemma live_db_ok: "live_db m s = (Inr x, s') \<longleftrightarrow> (\<exists>d. m (lv_db s) = (Inr x, d) \<and> s' = s\<lparr>lv_db := d\<rparr>)"
  by (auto simp: live_db_def act_zoom_def split: prod.split)

text \<open>The session a chat works on: the stored one or an empty one.\<close>

definition opened_as :: "serde \<Rightarrow> session_id \<Rightarrow> database \<Rightarrow> database \<Rightarrow> session_snapshot \<Rightarrow> bool" where
  "opened_as sx sid d d' snapshot \<longleftrightarrow> supervisor_inv sx d' \<and> sc_session_id (ss_config snapshot) = sid
     \<and> sessions_of sx d' = (sessions_of sx d)(sid \<mapsto> snapshot)
     \<and> (sessions_of sx d sid = Some snapshot \<or> sessions_of sx d sid = None \<and> (\<exists>c. snapshot = new_session c))"

lemma open_session_ok:
  assumes ok: "serde_ok (ae_serde (ve_agent ve))" and inv: "supervisor_inv (ae_serde (ve_agent ve)) (lv_db s)"
    and run: "open_session_for_chat ve arguments sid s = (Inr (snapshot, settings), s')"
  shows "opened_as (ae_serde (ve_agent ve)) sid (lv_db s) (lv_db s') snapshot"
proof (cases "load_snapshot (ae_serde (ve_agent ve)) sid (lv_db s)")
  case (Inr loaded)
  then have stored: "sessions_of (ae_serde (ve_agent ve)) (lv_db s) sid = Some loaded" by (simp add: sessions_of_def)
  from session_of_row [OF sessions_inv_of [OF inv] this] config_from_raw_Inr
  have "sc_session_id (ss_config loaded) = sid" by fastforce
  then show ?thesis
    using run Inr stored inv
    by (auto simp: open_session_for_chat_def live_db_def session_load_def act_zoom_def act_try_def act_bind_ok act_lift_def
        act_return_def opened_as_def fun_upd_idem)
next
  case (Inl e)
  then have create: "create_session_for_chat ve arguments sid s = (Inr (snapshot, settings), s')"
    using run
    by (auto simp: open_session_for_chat_def live_db_def session_load_def act_zoom_def act_try_def split: session_store_error.splits)
  then obtain config where config: "settings_session_config (ae_serde (ve_agent ve)) settings sid = Inr config"
    and made: "session_create (ae_serde (ve_agent ve)) (ae_unixepoch (ve_agent ve)) config (lv_db s) = (Inr snapshot, lv_db s')"
    by (auto simp: create_session_for_chat_def Let_def act_bind_ok act_lift_def act_map_err_ok live_db_ok
        act_return_def)
  have "is_ok (cd_enc (sx_tools (ae_serde (ve_agent ve))) (ls_tools settings))"
    using config by (auto elim!: session_config_ok)
  then have "storable_config (ae_serde (ve_agent ve)) config" "sc_session_id config = sid"
    using config_storable [OF config] ok by (simp_all add: serde_ok_def faithful_def codecs_ok_def)
  from create_keeps_supervisor [OF inv this(1) made] this(2) show ?thesis
    by (auto simp: opened_as_def new_session_def)
qed

lemma create_session_err:
  assumes run: "create_session_for_chat ve arguments sid s = (Inl e, s')"
  shows "lv_db s' = lv_db s"
proof -
  have create: "live_db (session_create sx now config) s = (Inl e, s') \<Longrightarrow> lv_db s' = lv_db s" for sx now config e
    by (auto simp: live_db_def act_zoom_def session_create_def split: prod.splits dest: transaction_rollback)
  show ?thesis
    using run create
    by (fastforce simp: create_session_for_chat_def Let_def act_bind_def act_lift_def act_map_err_def map_err_def act_return_def
        split: sum.splits prod.splits)
qed

lemma open_session_err:
  assumes run: "open_session_for_chat ve arguments sid s = (Inl e, s')"
  shows "lv_db s' = lv_db s"
proof (cases "load_snapshot (ae_serde (ve_agent ve)) sid (lv_db s)")
  case (Inr loaded)
  then show ?thesis
    using run by (auto simp: open_session_for_chat_def live_db_def session_load_def act_zoom_def act_try_def act_bind_def act_lift_def
        act_return_def split: sum.splits)
next
  case (Inl error)
  have opened: "live_db (session_load (ae_serde (ve_agent ve)) sid) s = (Inl error, s)"
    using Inl by (simp add: live_db_def session_load_def act_zoom_def act_try_def)
  show ?thesis
    using run opened create_session_err [of ve arguments sid s e s'] by (cases error) (simp_all add: open_session_for_chat_def)
qed

text \<open>One chat: at most the turn is added to its session.\<close>

definition chatted :: "serde \<Rightarrow> session_id \<Rightarrow> string \<Rightarrow> database \<Rightarrow> string + string \<Rightarrow> database \<Rightarrow> bool" where
  "chatted sx sid prompt d r d' \<longleftrightarrow> supervisor_inv sx d'
     \<and> (\<forall>k. k \<noteq> sid \<longrightarrow> sessions_of sx d k \<noteq> None \<longrightarrow> sessions_of sx d' k = sessions_of sx d k)
     \<and> (case r of
          Inr response \<Rightarrow> \<exists>old between reasoning replay. (sessions_of sx d sid = Some old \<or> sessions_of sx d sid = None \<and> (\<exists>c. old = new_session c))
            \<and> sessions_of sx d' sid = Some (extended old (User prompt None # between @ [Assistant response reasoning replay]))
        | Inl e \<Rightarrow> sessions_of sx d' sid = sessions_of sx d sid
            \<or> sessions_of sx d sid = None \<and> (\<exists>c. sessions_of sx d' sid = Some (new_session c)))"

lemma opened_frame:
  assumes "opened_as sx sid d0 d1 snapshot" "tools_frame sx d1 d2"
  shows "supervisor_inv sx d2 \<and> sessions_of sx d2 sid = Some snapshot
     \<and> (\<forall>k. k \<noteq> sid \<longrightarrow> sessions_of sx d0 k \<noteq> None \<longrightarrow> sessions_of sx d2 k = sessions_of sx d0 k)"
  using assms by (auto simp: opened_as_def tools_frame_def map_le_def dom_def)

lemma chat_failed:
  assumes "opened_as sx sid d0 d1 snapshot" "tools_frame sx d1 d2"
  shows "chatted sx sid prompt d0 (Inl e) d2"
  using opened_frame [OF assms] assms(1) by (auto simp: chatted_def opened_as_def)

lemma engine_entry_inner:
  assumes "engine_entry world clock hooks session_id engine request binding catalog e = (Ok (Some outcome), e')"
  shows "\<exists>control e0. run_inner world clock engine control catalog request e0 = (Ok (Some outcome), e')"
  using assms
  by (auto simp: engine_entry_def run_bound_interruptible_def run_bound_def run_new_def expect_completed_def act_bind_ok act_map_err_ok
      act_lift_def act_return_def split: if_splits)

lemma codex_turn_says:
  assumes run: "codex_live_turn ve hooks settings history prompt scope durable tools s = (Ok (Some outcome), s')"
    and response: "completed_response (lo_contract outcome) = Ok response"
  shows "says_turn history prompt response (co_semantic_conversation (lo_contract outcome))"
proof -
  let ?request = "\<lparr>er_execution_scope = scope, er_semantic_history = history, er_prompt = prompt, er_client_user_message_id = Some scope\<rparr>"
  obtain engine binding s1 where "run_codex ve hooks settings scope (map_option fst durable) engine ?request binding tools s1
      = (Ok (Some outcome), s')"
    using run by (auto simp: codex_live_turn_def act_bind_ok)
  then obtain e e' q where "engine_entry (engine_of_turn ve hooks scope) (ve_clock ve) hooks (map_option fst durable) engine ?request binding
      (ls_tools settings) q = (Ok (Some e), e')" and out: "lo_contract outcome = eo_contract e"
    by (auto simp: run_codex_def and_then_eq_Inr split: prod.splits)
  from engine_entry_inner [OF this(1)] run_inner_says
  obtain shown where shown: "to_final_response (co_terminal_outcome (eo_contract e)) = Some shown"
    "says_turn history prompt shown (co_semantic_conversation (eo_contract e))"
    by (metis codex_turn_request.select_convs(2,3))
  moreover have "shown = response" using response shown(1) by (simp add: completed_response_def Let_def out and_then_eq_Inr)
  ultimately show ?thesis by (simp add: out)
qed

lemma execute_turn_says:
  assumes history: "legal history" "list_all (projectable (ae_text (ve_agent ve))) history"
    and run: "execute_turn_inner ve settings history prompt scope state durable hooks s = (Ok (Some outcome), s')"
    and response: "completed_response (lo_contract outcome) = Ok response"
  shows "says_turn history prompt response (co_semantic_conversation (lo_contract outcome))"
proof -
  obtain key tools s1 where "(case ls_engine settings of PresetDirect \<Rightarrow> direct_turn ve hooks settings history prompt scope key tools
      | PresetCodex \<Rightarrow> codex_live_turn ve hooks settings history prompt scope durable tools) s1 = (Ok (Some outcome), s')"
    using run by (auto simp: execute_turn_inner_def act_bind_ok)
  then show ?thesis
    using direct_turn_says [OF history _ response] codex_turn_says [OF _ response] by (cases "ls_engine settings") auto
qed

lemma says_turn_drop:
  assumes "says_turn history prompt response conversation"
  shows "length history \<le> length conversation
     \<and> (\<exists>between r p. drop (length history) conversation = User prompt None # between @ [Assistant response r p])"
  using assms by (auto simp: says_turn_def)

lemma execute_turn_ok:
  assumes "execute_turn ve settings history prompt scope state durable s = (r, s')" "serde_ok (ae_serde (ve_agent ve))" "drops_part ve"
  shows "tools_frame (ae_serde (ve_agent ve)) (lv_db s) (lv_db s')"
    "r = Inr outcome \<Longrightarrow> \<exists>hooks. execute_turn_inner ve settings history prompt scope state durable hooks s = (Ok (Some outcome), s')"
proof -
  have "moves (live_frame (ae_serde (ve_agent ve))) (execute_turn ve settings history prompt scope state durable)"
    unfolding execute_turn_def using assms(2,3) by (intro live_frame.steps execute_turn_frame) (simp_all add: serde_ok_def)
  from movesD [OF this assms(1)] show "tools_frame (ae_serde (ve_agent ve)) (lv_db s) (lv_db s')" by (simp add: live_frame_def)
qed (use assms(1) in \<open>auto simp: execute_turn_def act_bind_ok act_lift_def expect_live_completion_def\<close>)

lemma durable_turn_chats:
  assumes ok: "serde_ok (ae_serde (ve_agent ve))" "drops_part ve"
    and opened: "opened_as (ae_serde (ve_agent ve)) sid d (lv_db s) snapshot"
    and readable: "list_all (projectable (ae_text (ve_agent ve))) (ss_conversation snapshot)"
    and run: "durable_turn ve settings snapshot prompt state s = (r, s')"
  shows "chatted (ae_serde (ve_agent ve)) sid prompt d r (lv_db s')"
proof -
  let ?sx = "ae_serde (ve_agent ve)" and ?g = "ss_owner_generation snapshot" and ?history = "ss_conversation snapshot"
  have owner: "sc_session_id (ss_config snapshot) = sid" using opened by (simp add: opened_as_def)
  obtain q s1 where turn: "execute_turn ve settings ?history prompt (turn_scope sid ?g) state (Some (sid, ?g)) s = (q, s1)"
    by (cases "execute_turn ve settings ?history prompt (turn_scope sid ?g) state (Some (sid, ?g)) s")
  note ran = execute_turn_ok [OF turn ok]
  note framed = opened_frame [OF opened ran(1)] and failed = chat_failed [OF opened ran(1)]
  show ?thesis
  proof (cases "and_then q (\<lambda>outcome. completed_response (lo_contract outcome))")
    case (Inl e)
    then show ?thesis
      using run turn failed [of prompt]
      by (cases q) (auto simp: durable_turn_def Let_def act_bind_def act_lift_def owner dest: sym split: sum.splits)
  next
    case (Inr response)
    then obtain outcome where outcome: "q = Inr outcome" "completed_response (lo_contract outcome) = Ok response"
      by (auto simp: and_then_eq_Inr)
    let ?all = "co_semantic_conversation (lo_contract outcome)"
    have "sessions_of ?sx (lv_db s) sid = Some snapshot" "sessions_inv ?sx (lv_db s)"
      using opened by (simp_all add: opened_as_def sessions_inv_of)
    then have legal: "legal ?history" using session_of_row by blast
    obtain hooks where "execute_turn_inner ve settings ?history prompt (turn_scope sid ?g) state (Some (sid, ?g)) hooks s = (Ok (Some outcome), s1)"
      using ran(2) outcome(1) by blast
    from says_turn_drop [OF execute_turn_says [OF legal readable this outcome(2)]]
    obtain between reasoning replay where long: "length ?history \<le> length ?all"
      and new: "drop (length ?history) ?all = User prompt None # between @ [Assistant response reasoning replay]" by blast
    obtain a d2 where append: "session_append ?sx (ae_unixepoch (ve_agent ve)) sid ?g (drop (length ?history) ?all) (lv_db s1) = (a, d2)"
      by (cases "session_append ?sx (ae_unixepoch (ve_agent ve)) sid ?g (drop (length ?history) ?all) (lv_db s1)")
    show ?thesis
    proof (cases a)
      case (Inl e)
      then have "d2 = lv_db s1" using append by (auto simp: session_append_def dest: transaction_rollback)
      then show ?thesis
        using run turn outcome long append Inl failed
        by (auto simp: durable_turn_def Let_def act_bind_def act_lift_def owner act_map_err_def map_err_def live_db_def act_zoom_def ensure_def)
    next
      case (Inr committed)
      then have ends: "r = Inr response" "lv_db s' = persist_worker_binding ve sid (ss_owner_generation committed) (lo_worker_binding outcome) d2"
        using run turn outcome long append
        by (auto simp: durable_turn_def Let_def act_bind_def act_lift_def owner act_map_err_def map_err_def live_db_def act_zoom_def
            ensure_def act_update_def act_return_def)
      note kept = append_keeps_supervisor [OF _ ok(1) append [unfolded Inr]]
      have "same_stores d2 (lv_db s')" by (simp add: ends(2) persisted_binding)
      from same_stores_keep [OF this] kept framed new opened show ?thesis
        by (auto simp: chatted_def ends(1) opened_as_def)
    qed
  qed
qed

text \<open>
  C28. The \<open>chat\<close> command on a named session changes at most that session, whichever engine runs the turn and whatever the
  provider or the worker, the tools, the delegated turns and the ledger do: if it answers, the session, created
  empty when there was none, has become exactly one turn longer, from the prompt to the answer that was printed,
  and has the next generation; if it fails, the session is as it was, or was created and is empty. Every other
  session is as it was, and the database is consistent.
\<close>

theorem durable_chat_appends_one_turn:
  assumes "serde_ok (ae_serde (ve_agent ve))" "drops_part ve" "supervisor_inv (ae_serde (ve_agent ve)) (lv_db s)"
    and "\<forall>old. sessions_of (ae_serde (ve_agent ve)) (lv_db s) (SessionId name) = Some old
      \<longrightarrow> list_all (projectable (ae_text (ve_agent ve))) (ss_conversation old)"
  shows "case run_durable_chat ve arguments name prompt override s of (r, s') \<Rightarrow>
     chatted (ae_serde (ve_agent ve)) (SessionId name) prompt (lv_db s) r (lv_db s')"
proof (cases "run_durable_chat ve arguments name prompt override s")
  case (Pair r s')
  let ?sx = "ae_serde (ve_agent ve)" and ?sid = "SessionId name"
  have unchanged: "chatted ?sx ?sid prompt (lv_db s) (Inl e) d" if "d = lv_db s" for e d
    using that assms(3) by (simp add: chatted_def)
  show ?thesis
  proof (cases "session_id_new name = Inr ?sid \<and> is_ok (state_path ve override) \<and> ae_open_sessions (ve_agent ve) = None")
    case False
    then have "s' = s \<and> (\<exists>e. r = Inl e)"
      using Pair
      by (auto simp: run_durable_chat_def open_state_def act_bind_def act_lift_def map_err_def ensure_def session_id_new_def opaque_id_new_def opaque_id_check_def
          dest: sym [of "Inl _"] split: sum.splits if_splits)
    then show ?thesis using Pair unchanged by auto
  next
    case True
    then obtain state where state: "state_path ve override = Inr state" by (auto simp: is_ok_iff)
    then have run: "act_bind (open_session_for_chat ve arguments ?sid) (\<lambda>(snapshot, settings). durable_turn ve settings snapshot prompt state) s = (r, s')"
      using Pair True by (simp add: run_durable_chat_def open_state_def act_bind_def act_lift_def ensure_def id_new_ok)
    obtain q s1 where opens: "open_session_for_chat ve arguments ?sid s = (q, s1)" by (cases "open_session_for_chat ve arguments ?sid s")
    show ?thesis
    proof (cases q)
      case (Inl e)
      then show ?thesis using run opens open_session_err [of ve arguments ?sid s e s1] Pair unchanged by (auto simp: act_bind_def)
    next
      case (Inr opened)
      obtain snapshot settings where os: "opened = (snapshot, settings)" by (cases opened)
      note opened = open_session_ok [OF assms(1,3) opens [unfolded Inr os]]
      have "list_all (projectable (ae_text (ve_agent ve))) (ss_conversation snapshot)"
        using opened assms(4) by (auto simp: opened_as_def new_session_def)
      then show ?thesis
        using durable_turn_chats [OF assms(1,2) opened, of settings prompt state r s'] run opens Pair Inr os
        by (simp add: act_bind_def)
    qed
  qed
qed

section \<open>A chat for the example\<close>

definition live_serde :: serde where
  "live_serde = agent_serde\<lparr>sx_transport := Sqlite_Schema.sample_codec [(ChatCompletions, ''c''), (CodexAppServer, ''x''), (AnthropicMessages, ''a''),
       (CodexResponses, ''r''), (BedrockConverse, ''b''), (GeminiNative, ''g'')],
     sx_engine_config := Sqlite_Schema.sample_codec ((EngineDirect, ''d'') # map (\<lambda>(e, t). (EngineCodexAppServer e HermesOwnedEffectsV1, t))
       [(EffortNone, ''0''), (EffortMinimal, ''1''), (EffortLow, ''2''), (EffortMedium, ''3''), (EffortHigh, ''4''), (EffortXhigh, ''5''),
        (EffortMax, ''6''), (EffortUltra, ''7'')])\<rparr>"

definition live_env_sample :: "(unit, unit) live_env" where
  "live_env_sample =
     \<lparr>ve_host = Live_Settings.sample_host, ve_agent = agent_env_sample\<lparr>ae_serde := live_serde\<rparr>, ve_observe = noop_observe,
      ve_codex = \<lparr>en_codec = en_codec sample_world, en_debug_id = (\<lambda>_. ''id''), en_debug_str = id, en_version = ''0'',
        en_spawner = en_spawner sample_world, en_broker = live_broker agent_env_sample [], en_observe = noop_observe,
        en_abandon_server = id, en_abandon_tools = id\<rparr>,
      ve_clock = sample_clock, ve_no_worker = server_of_child sample_child,
      ve_binding = binding_codec, ve_open_bindings = None, ve_dropped = id, ve_home = None\<rparr>"

definition live_state_sample :: "(unit, unit) live_state" where
  "live_state_sample =
     \<lparr>lv_db = empty_database, lv_http = (), lv_child_http = (), lv_approvals = approval_control_default, lv_shell = [],
      lv_observer = ()\<rparr>"

lemma sample_codec_faithful:
  assumes "distinct (map snd table)"
  shows "faithful (Sqlite_Schema.sample_codec table)"
proof -
  have "map_of (map prod.swap table) t = Some x" if "map_of table x = Some t" for x t
    using map_of_SomeD [OF that] assms by (intro map_of_is_SomeI) (force simp: o_def)+
  then show ?thesis
    by (auto simp: faithful_def encodes_def Sqlite_Schema.sample_codec_def is_ok_iff split: option.splits)
qed

lemma live_serde_ok: "serde_ok live_serde"
proof -
  have "encodes (sx_transport live_serde) t" for t
    by (cases t) (simp_all add: live_serde_def encodes_def Sqlite_Schema.sample_codec_def)
  moreover have "encodes (sx_engine_config live_serde) (EngineCodexAppServer e p)" for e p
    by (cases e; cases p) (simp_all add: live_serde_def encodes_def Sqlite_Schema.sample_codec_def)
  then have "encodes (sx_engine_config live_serde) c" for c
    by (cases c) (simp_all add: live_serde_def encodes_def Sqlite_Schema.sample_codec_def)
  moreover have "encodes (sx_tools live_serde) local_catalog"
    by (simp add: live_serde_def agent_serde_def encodes_def Sqlite_Schema.sample_codec_def)
  moreover have "faithful (sx_tools live_serde)" "faithful (sx_message live_serde)"
    by (simp_all add: live_serde_def agent_serde_def sample_serde_def sample_codec_faithful)
  ultimately show ?thesis by (simp add: serde_ok_def codecs_ok_def)
qed

theorem durable_chat_appends_one_turn_witness:
  "case run_durable_chat live_env_sample sample_arguments ''n'' ''hi'' (Some ''/s'') live_state_sample of (r, s') \<Rightarrow>
     chatted live_serde (SessionId ''n'') ''hi'' empty_database r (lv_db s')"
proof -
  have "serde_ok (ae_serde (ve_agent live_env_sample))" "drops_part live_env_sample"
    "supervisor_inv (ae_serde (ve_agent live_env_sample)) (lv_db live_state_sample)"
    by (simp_all add: live_env_sample_def live_state_sample_def drops_part_def live_serde_ok empty_supervisor)
  moreover have "sessions_of (ae_serde (ve_agent live_env_sample)) (lv_db live_state_sample) (SessionId ''n'') = None"
    by (simp add: live_state_sample_def empty_sessions)
  ultimately show ?thesis
    using durable_chat_appends_one_turn [where arguments = sample_arguments and ve = live_env_sample and s = live_state_sample and name = "''n''" and prompt = "''hi''" and override = "Some ''/s''"]
    by (simp add: live_env_sample_def live_state_sample_def)
qed

end
