(* ===== verification/Gateway_Properties.thy ===== *)
theory Gateway_Properties
  imports Gateway_Turn Live_Properties
begin

text \<open>
  What becomes of an accepted prompt: its turn is committed or recorded as ended, unless a chat command appends to the
  session meanwhile, and the cleanup of one turn can reach the next one.
\<close>

section \<open>The end of a foreground turn\<close>

lemma terminate_cases:
  assumes inv: "supervisor_inv sx d" and enc: "faithful (sx_foreground_terminal sx)"
    and run: "terminate_turn sx tid expected outcome at d = (r, d')"
  shows "(\<exists>e. r = Inl e) \<and> d' = d
    \<or> (\<exists>t. turns_of sx d tid = Some t \<and> r = Inr (closed outcome at t) \<and> supervisor_inv sx d'
         \<and> sessions_of sx d' = sessions_of sx d \<and> turns_of sx d' = (turns_of sx d)(tid \<mapsto> closed outcome at t))"
proof -
  have stores: "stores_inv sx d" using inv by (simp add: supervisor_inv_def)
  show ?thesis
  proof (cases "terminable sx d tid expected outcome at \<and> is_ok (cd_enc (sx_foreground_terminal sx) outcome)")
    case True
    then have e: "encodes (sx_foreground_terminal sx) outcome" using enc by (simp add: faithful_def)
    obtain t s where t: "turns_of sx d tid = Some t" "closable (Some t) expected at" "sessions_of sx d (turn_session t) = Some s"
      "ss_owner_generation s = expected" "terminal_detail_ok outcome"
      using True by (auto simp: terminable_def)
    note ok = terminate_ok [OF stores t e]
    have "store_ok sx d d'"
      using store_ok_foreground [OF step_terminate [OF e run] inv] .
    then have "supervisor_inv sx d'" by (simp add: store_ok_def)
    then show ?thesis using ok run t(1) by auto
  next
    case False
    then show ?thesis
    proof (cases "terminable sx d tid expected outcome at")
      case True
      let ?body = "transaction (act_bind (open_turn tid expected at) (\<lambda>(raw, session_id).
        act_bind (act_map_err turn_session_error (session_load sx session_id)) (\<lambda>session.
        act_bind (act_lift (ensure_session_generation session expected)) (\<lambda>_.
        close_turn sx tid expected raw outcome at))))"
      have "\<not> is_ok (cd_enc (sx_foreground_terminal sx) outcome)" using False True by simp
      then have "?body d \<noteq> (Inr u, d1)" for u d1
        by (auto simp: transaction_ok act_bind_ok close_turn_def act_lift_def is_ok_iff map_err_def split: prod.splits sum.splits)
      then obtain e where "?body d = (Inl e, d)"
        by (metis (no_types, lifting) sum.exhaust surj_pair transaction_rollback)
      then show ?thesis
        using run by (auto simp: terminate_turn_def act_bind_def act_lift_def ensure_def split: sum.splits if_splits)
    next
      case False
      from terminate_err [OF stores this] show ?thesis using run by auto
    qed
  qed
qed

lemma complete_cases:
  assumes inv: "supervisor_inv sx d" and ok: "serde_ok sx" and enc: "faithful (sx_foreground_terminal sx)"
    and run: "complete_turn sx now tid expected messages at d = (r, d')"
  shows "(\<exists>e. r = Inl e) \<and> d' = d
    \<or> (\<exists>t s. turns_of sx d tid = Some t \<and> sessions_of sx d (turn_session t) = Some s \<and> r = Inr (extended s messages) \<and> supervisor_inv sx d'
         \<and> sessions_of sx d' = (sessions_of sx d)(turn_session t \<mapsto> extended s messages)
         \<and> turns_of sx d' = (turns_of sx d)(tid \<mapsto> closed foreground_turn_terminal.TurnCompleted at t))"
proof (cases r)
  case (Inl e)
  then show ?thesis using run by (auto simp: complete_turn_def dest: transaction_rollback)
next
  case (Inr snapshot)
  have stores: "stores_inv sx d" using inv by (simp add: supervisor_inv_def)
  obtain sid d1 d2 raw u where append: "append_turn_in_transaction sx now sid expected messages d1 = (Inr snapshot, d2)"
    and close: "close_turn sx tid expected raw foreground_turn_terminal.TurnCompleted at d2 = (Inr u, d')"
    using run Inr by (auto simp: complete_turn_def transaction_ok act_bind_ok act_map_err_ok act_return_def)
  have "session_append sx now sid expected messages d1 = (Inr snapshot, d2)" using append by (simp add: session_append_def transaction_ok)
  then have ms: "list_all (storable_message sx) messages" by (rule appended_messages_storable [OF ok])
  have "is_ok (cd_enc (sx_foreground_terminal sx) foreground_turn_terminal.TurnCompleted)"
    using close by (auto simp: close_turn_def act_bind_ok act_lift_def is_ok_iff)
  then have e: "encodes (sx_foreground_terminal sx) foreground_turn_terminal.TurnCompleted" using enc by (simp add: faithful_def)
  obtain t s where t: "turns_of sx d tid = Some t" "closable (Some t) expected at"
    "sessions_of sx d (turn_session t) = Some s" "appendable (Some s) expected messages"
    using complete_turn_Inr [OF stores, of now tid expected messages at snapshot d'] run Inr
    by (auto dest: appendable_Some)
  note ends = completable_ok [OF stores t ms e, of now]
  have "supervisor_inv sx d'" using store_ok_foreground [OF step_complete [OF ms e run] inv] by (simp add: store_ok_def)
  then show ?thesis using ends run t by auto
qed

section \<open>The work of a turn\<close>

text \<open>The hypotheses: faithful codecs, aborted futures that did part of their work, and the turn that was claimed.\<close>

definition gateway_ok :: "'h gateway_env \<Rightarrow> bool" where
  "gateway_ok ge \<longleftrightarrow> serde_ok (gv_serde ge) \<and> faithful (sx_foreground_terminal (gv_serde ge)) \<and> drops_part (gv_live ge)"

definition holds_claim :: "'h gateway_env \<Rightarrow> database \<Rightarrow> foreground_turn_snapshot \<Rightarrow> session_snapshot \<Rightarrow> bool" where
  "holds_claim ge d claim old \<longleftrightarrow> supervisor_inv (gv_serde ge) d
     \<and> turns_of (gv_serde ge) d (fs_turn_id (fn_spec claim)) = Some claim
     \<and> sessions_of (gv_serde ge) d (fs_session_id (fn_spec claim)) = Some old
     \<and> list_all (projectable (ae_text (ve_agent (gv_live ge)))) (ss_conversation old)"

text \<open>The messages of a committed turn: what the provider was asked, shown to clients as what the user typed.\<close>

definition commits_turn :: "foreground_turn_snapshot \<Rightarrow> string \<Rightarrow> semantic_message list \<Rightarrow> bool" where
  "commits_turn claim response messages \<longleftrightarrow> (\<exists>between reasoning replay.
     messages = User (fn_provider_prompt claim)
         (if fn_provider_prompt claim = fs_prompt (fn_spec claim) then None else Some (fs_prompt (fn_spec claim)))
       # between @ [Assistant response reasoning replay])"

lemma on_turns_ok:
  "on_turns ge m s = (Inr x, s') \<longleftrightarrow> gv_open_turns ge = None \<and> (\<exists>d. m (lv_db s) = (Inr x, d) \<and> s' = s\<lparr>lv_db := d\<rparr>)"
  by (auto simp: on_turns_def act_bind_def act_lift_def live_db_def act_zoom_def split: option.splits prod.splits sum.splits)

lemma on_turns_err:
  "on_turns ge m s = (Inl e, s') \<Longrightarrow> s' = s \<or> (\<exists>d. m (lv_db s) = (Inl e, d) \<and> s' = s\<lparr>lv_db := d\<rparr>)"
  by (auto simp: on_turns_def act_bind_def act_lift_def live_db_def act_zoom_def split: option.splits prod.splits sum.splits)

lemma live_state_same [simp]: "s\<lparr>lv_db := lv_db s\<rparr> = s"
  by simp

lemma commit_turn_cases:
  assumes ok: "gateway_ok ge" and inv: "supervisor_inv (gv_serde ge) (lv_db s)"
    and says: "\<And>response. completed_response (lo_contract outcome) = Ok response \<Longrightarrow>
      says_turn history (fn_provider_prompt claim) response (co_semantic_conversation (lo_contract outcome))"
    and run: "commit_turn ge claim (length history) outcome s = (r, s')"
  shows "(\<exists>e. r = Inl e) \<and> lv_db s' = lv_db s
    \<or> (\<exists>response t old messages. r = Inr response \<and> commits_turn claim response messages
         \<and> turns_of (gv_serde ge) (lv_db s) (fs_turn_id (fn_spec claim)) = Some t
         \<and> sessions_of (gv_serde ge) (lv_db s) (turn_session t) = Some old
         \<and> supervisor_inv (gv_serde ge) (lv_db s')
         \<and> sessions_of (gv_serde ge) (lv_db s') = (sessions_of (gv_serde ge) (lv_db s))(turn_session t \<mapsto> extended old messages)
         \<and> turns_of (gv_serde ge) (lv_db s') = (turns_of (gv_serde ge) (lv_db s))(fs_turn_id (fn_spec claim)
              \<mapsto> closed foreground_turn_terminal.TurnCompleted (terminal_time_ms ge (fn_started_at_ms claim)) t))"
proof (cases "completed_response (lo_contract outcome)")
  case (Inl e)
  then have "r = Inl e \<and> s' = s" using run by (simp add: commit_turn_def Let_def act_bind_def act_lift_def)
  then show ?thesis by simp
next
  case (Inr response)
  let ?sx = "gv_serde ge" and ?all = "co_semantic_conversation (lo_contract outcome)" and ?tid = "fs_turn_id (fn_spec claim)"
  obtain between reasoning replay where long: "length history \<le> length ?all"
    and new: "drop (length history) ?all = User (fn_provider_prompt claim) None # between @ [Assistant response reasoning replay]"
    using says_turn_drop [OF says [OF Inr]] by blast
  define messages where "messages = User (fn_provider_prompt claim)
      (if fn_provider_prompt claim = fs_prompt (fn_spec claim) then None else Some (fs_prompt (fn_spec claim)))
    # between @ [Assistant response reasoning replay]"
  have messages: "with_visible_prompt claim (drop (length history) ?all) = Ok messages" "commits_turn claim response messages"
    by (simp add: with_visible_prompt_def new messages_def) (auto simp: commits_turn_def messages_def)
  obtain q s1 where complete: "on_turns ge (complete_turn ?sx (ae_unixepoch (ve_agent (gv_live ge))) ?tid (fn_owner_generation claim)
      messages (terminal_time_ms ge (fn_started_at_ms claim))) s = (q, s1)"
    by fastforce
  show ?thesis
  proof (cases q)
    case (Inl e)
    from on_turns_err [OF complete [unfolded Inl]] have "lv_db s1 = lv_db s"
      by (auto simp: complete_turn_def dest: transaction_rollback)
    then show ?thesis
      using run Inr long messages(1) complete Inl
      by (auto simp: commit_turn_def Let_def act_bind_def act_lift_def act_map_err_def map_err_def ensure_def)
  next
    case (Inr committed)
    then obtain d where d: "complete_turn ?sx (ae_unixepoch (ve_agent (gv_live ge))) ?tid (fn_owner_generation claim) messages
        (terminal_time_ms ge (fn_started_at_ms claim)) (lv_db s) = (Inr committed, d)" "s1 = s\<lparr>lv_db := d\<rparr>"
      using complete by (auto simp: on_turns_ok)
    note completed = complete_cases [OF inv _ _ d(1)]
    have ends: "r = Inr response" "lv_db s' = persist_worker_binding (gv_live ge) (fs_session_id (fn_spec claim))
        (ss_owner_generation committed) (lo_worker_binding outcome) d"
      using run \<open>completed_response _ = _\<close> long messages(1) complete Inr d(2)
      by (auto simp: commit_turn_def Let_def act_bind_def act_lift_def act_map_err_def map_err_def ensure_def act_update_def act_return_def)
    have "same_stores d (lv_db s')" by (simp add: ends(2) persisted_binding)
    note kept = same_stores_keep [OF this]
    show ?thesis using completed ok kept messages(2) ends(1) by (auto simp: gateway_ok_def)
  qed
qed

lemma observed_turn_ok:
  assumes "execute_turn_observed ve settings history prompt scope state durable polls s = (r, s')"
    "serde_ok (ae_serde (ve_agent ve))" "drops_part ve"
  shows "tools_frame (ae_serde (ve_agent ve)) (lv_db s) (lv_db s')"
    "legal history \<Longrightarrow> list_all (projectable (ae_text (ve_agent ve))) history \<Longrightarrow> r = Inr (Some outcome) \<Longrightarrow>
       completed_response (lo_contract outcome) = Ok response \<Longrightarrow>
       says_turn history prompt response (co_semantic_conversation (lo_contract outcome))"
proof -
  show "tools_frame (ae_serde (ve_agent ve)) (lv_db s) (lv_db s')"
    using movesD [OF execute_turn_frame] assms by (fastforce simp: execute_turn_observed_def serde_ok_def live_frame_def)
  assume "legal history" "list_all (projectable (ae_text (ve_agent ve))) history" "r = Inr (Some outcome)"
    "completed_response (lo_contract outcome) = Ok response"
  then show "says_turn history prompt response (co_semantic_conversation (lo_contract outcome))"
    using execute_turn_says assms(1) by (fastforce simp: execute_turn_observed_def)
qed

text \<open>A turn that is not committed has changed no session and no turn.\<close>

lemma run_session_turn_cases:
  assumes ok: "gateway_ok ge" and claim: "holds_claim ge (lv_db s) claim old"
    and run: "run_session_turn ge polls claim s = (r, s')"
  shows "(\<exists>response messages. r = Inr (Some response) \<and> commits_turn claim response messages
         \<and> supervisor_inv (gv_serde ge) (lv_db s')
         \<and> sessions_of (gv_serde ge) (lv_db s) \<subseteq>\<^sub>m (sessions_of (gv_serde ge) (lv_db s'))(turn_session claim \<mapsto> old)
         \<and> sessions_of (gv_serde ge) (lv_db s') (turn_session claim) = Some (extended old messages)
         \<and> turns_of (gv_serde ge) (lv_db s') = (turns_of (gv_serde ge) (lv_db s))(fs_turn_id (fn_spec claim)
              \<mapsto> closed foreground_turn_terminal.TurnCompleted (terminal_time_ms ge (fn_started_at_ms claim)) claim))
    \<or> (r = Inr None \<or> (\<exists>e. r = Inl e)) \<and> tools_frame (gv_serde ge) (lv_db s) (lv_db s')"
proof -
  let ?sx = "gv_serde ge" and ?sid = "fs_session_id (fn_spec claim)"
  let ?ve = "(gv_live ge)\<lparr>ve_observe := observe_for_gateway ?sid\<rparr>"
  have same: "tools_frame ?sx d d" for d by simp
  have stored: "load_snapshot ?sx ?sid (lv_db s) = Inr old" and inv: "supervisor_inv ?sx (lv_db s)"
    and owned: "sessions_of ?sx (lv_db s) ?sid = Some old"
    and mine: "turns_of ?sx (lv_db s) (fs_turn_id (fn_spec claim)) = Some claim"
    and readable: "list_all (projectable (ae_text (ve_agent (gv_live ge)))) (ss_conversation old)"
    using claim by (simp_all add: holds_claim_def sessions_of_def split: sum.splits)
  have load: "on_sessions (session_load ?sx ?sid) s = (Inr old, s)"
    using stored by (simp add: on_sessions_def act_map_err_def map_err_def live_db_def act_zoom_def session_load_def act_try_def)
  show ?thesis
  proof (cases "ae_open_sessions (ve_agent (gv_live ge)) = None \<and> ss_owner_generation old = fn_owner_generation claim
      \<and> is_ok (settings_for_host (sx_debug_str ?sx) old (gv_settings ge))")
    case False
    then have "(\<exists>e. r = Inl e) \<and> s' = s"
      using run load
      by (auto simp: run_session_turn_def Let_def act_bind_def open_sessions_def act_lift_def ensure_def is_ok_iff split: sum.splits option.splits)
    then show ?thesis by auto
  next
    case True
    then obtain settings where settings: "settings_for_host (sx_debug_str ?sx) old (gv_settings ge) = Inr settings"
      by (auto simp: is_ok_iff)
    obtain q s1 where turn: "execute_turn_observed ?ve settings (ss_conversation old) (fn_provider_prompt claim)
        (turn_scope (sc_session_id (ss_config old)) (ss_owner_generation old)) (gv_state ge) (?sid, fn_owner_generation claim) polls s = (q, s1)"
      by fastforce
    have rest: "(case q of Inl e \<Rightarrow> (Err e, s1) | Inr None \<Rightarrow> (Ok None, s1)
         | Inr (Some outcome) \<Rightarrow> act_bind (commit_turn ge claim (length (ss_conversation old)) outcome) (\<lambda>response. act_return (Some response)) s1)
         = (r, s')"
      using run load True settings turn
      by (auto simp: run_session_turn_def Let_def act_bind_def [of "open_sessions _"] act_bind_def [of "on_sessions _"] act_bind_def [of "act_lift _"]
          act_bind_def [of "execute_turn_observed _ _ _ _ _ _ _ _"] open_sessions_def act_lift_def ensure_def act_return_def
          split: sum.splits option.splits)
    have ve: "serde_ok (ae_serde (ve_agent ?ve))" "drops_part ?ve"
      using ok by (simp_all add: gateway_ok_def drops_part_def)
    note ran = observed_turn_ok [OF turn ve]
    have framed: "tools_frame ?sx (lv_db s) (lv_db s1)" using ran(1) by simp
    have kept: "supervisor_inv ?sx (lv_db s1)" "sessions_of ?sx (lv_db s) \<subseteq>\<^sub>m sessions_of ?sx (lv_db s1)"
      "turns_of ?sx (lv_db s1) = turns_of ?sx (lv_db s)"
      using framed inv by (simp_all add: tools_frame_def)
    have legal: "legal (ss_conversation old)" using session_of_row [OF sessions_inv_of [OF inv] owned] by blast
    show ?thesis
    proof (cases "\<exists>outcome. q = Inr (Some outcome)")
      case False
      then have "(r = Inr None \<or> (\<exists>e. r = Inl e)) \<and> s' = s1" using rest by (auto split: sum.splits option.splits)
      then show ?thesis using framed by auto
    next
      case True
      then obtain outcome where outcome: "q = Inr (Some outcome)" by blast
      obtain p s2 where commit: "commit_turn ge claim (length (ss_conversation old)) outcome s1 = (p, s2)" by fastforce
      have says: "says_turn (ss_conversation old) (fn_provider_prompt claim) response (co_semantic_conversation (lo_contract outcome))"
        if "completed_response (lo_contract outcome) = Ok response" for response
        using ran(2) [OF legal _ outcome that] readable by simp
      from commit_turn_cases [OF ok kept(1) says commit] consider (failed) e where "p = Inl e" "lv_db s2 = lv_db s1"
        | (committed) response t found messages where "p = Inr response" "commits_turn claim response messages"
          "turns_of ?sx (lv_db s1) (fs_turn_id (fn_spec claim)) = Some t" "sessions_of ?sx (lv_db s1) (turn_session t) = Some found"
          "supervisor_inv ?sx (lv_db s2)"
          "sessions_of ?sx (lv_db s2) = (sessions_of ?sx (lv_db s1))(turn_session t \<mapsto> extended found messages)"
          "turns_of ?sx (lv_db s2) = (turns_of ?sx (lv_db s1))(fs_turn_id (fn_spec claim)
             \<mapsto> closed foreground_turn_terminal.TurnCompleted (terminal_time_ms ge (fn_started_at_ms claim)) t)"
        by blast
      then show ?thesis
      proof cases
        case failed
        then have "r = Inl e" "s' = s2" using rest outcome commit by (simp_all add: act_bind_def)
        then show ?thesis using failed framed by auto
      next
        case committed
        then have ends: "r = Inr (Some response)" "s' = s2" using rest outcome commit by (simp_all add: act_bind_def act_return_def)
        have "t = claim" using committed(3) kept(3) mine by simp
        moreover have "found = old"
          using committed(4) kept(2) owned \<open>t = claim\<close> by (auto simp: map_le_def turn_session_def dom_def)
        ultimately show ?thesis
          using committed kept(2,3) owned by (auto simp: ends map_le_def turn_session_def dom_def)
      qed
    qed
  qed
qed

definition turn_exited ::
  "'h gateway_env \<Rightarrow> foreground_turn_snapshot \<Rightarrow> session_snapshot \<Rightarrow> database \<Rightarrow> string + turn_exit \<Rightarrow> database \<Rightarrow> bool" where
  "turn_exited ge claim old d r d' \<longleftrightarrow>
     (let sx = gv_serde ge; sid = fs_session_id (fn_spec claim); turns = turns_of sx d;
          ended = (\<lambda>outcome. turns(fs_turn_id (fn_spec claim) \<mapsto> closed outcome (terminal_time_ms ge (fn_started_at_ms claim)) claim)) in
      supervisor_inv sx d' \<and> (\<forall>k. k \<noteq> sid \<longrightarrow> sessions_of sx d k \<noteq> None \<longrightarrow> sessions_of sx d' k = sessions_of sx d k)
      \<and> (case r of
           Inr (ExitCompleted response) \<Rightarrow> \<exists>messages. commits_turn claim response messages
             \<and> sessions_of sx d' sid = Some (extended old messages) \<and> turns_of sx d' = ended foreground_turn_terminal.TurnCompleted
         | Inr (ExitFailed shown) \<Rightarrow> sessions_of sx d' sid = Some old \<and> (\<exists>reason. turns_of sx d' = ended (TurnFailed reason))
         | Inr ExitInterrupted \<Rightarrow> sessions_of sx d' sid = Some old \<and> (\<exists>reason. turns_of sx d' = ended (TurnInterrupted reason))
         | Inl e \<Rightarrow> sessions_of sx d' sid = Some old \<and> turns_of sx d' = turns))"

lemma terminate_live_cases:
  assumes ok: "gateway_ok ge" and inv: "supervisor_inv (gv_serde ge) (lv_db s)"
    and mine: "turns_of (gv_serde ge) (lv_db s) (fs_turn_id (fn_spec claim)) = Some claim"
    and run: "terminate_live ge claim outcome s = (r, s')"
  shows "supervisor_inv (gv_serde ge) (lv_db s') \<and> sessions_of (gv_serde ge) (lv_db s') = sessions_of (gv_serde ge) (lv_db s)
     \<and> turns_of (gv_serde ge) (lv_db s') = (case r of Inl e \<Rightarrow> turns_of (gv_serde ge) (lv_db s)
        | Inr u \<Rightarrow> (turns_of (gv_serde ge) (lv_db s))(fs_turn_id (fn_spec claim)
            \<mapsto> closed outcome (terminal_time_ms ge (fn_started_at_ms claim)) claim))"
proof -
  let ?m = "terminate_turn (gv_serde ge) (fs_turn_id (fn_spec claim)) (fn_owner_generation claim) outcome
      (terminal_time_ms ge (fn_started_at_ms claim))"
  have enc: "faithful (sx_foreground_terminal (gv_serde ge))" using ok by (simp add: gateway_ok_def)
  obtain q s1 where q: "on_turns ge ?m s = (q, s1)" by fastforce
  have r: "r = (case q of Inl e \<Rightarrow> Inl (foreground_store_error_text e) | Inr x \<Rightarrow> Inr ())" "s' = s1"
    using run q by (auto simp: terminate_live_def act_bind_def act_map_err_def map_err_def act_return_def split: sum.splits)
  show ?thesis
  proof (cases q)
    case (Inl e)
    from on_turns_err [OF q [unfolded Inl]] show ?thesis using terminate_cases [OF inv enc] inv r Inl by fastforce
  next
    case (Inr x)
    then obtain d where "?m (lv_db s) = (Inr x, d)" "s1 = s\<lparr>lv_db := d\<rparr>" using q by (auto simp: on_turns_ok)
    then show ?thesis using terminate_cases [OF inv enc, of "fs_turn_id (fn_spec claim)"] mine r Inr by fastforce
  qed
qed

text \<open>
  C29. A turn of the gateway is committed or it is not, whatever the engine, the tools, the client and the clock do: if the client is
  told a response, the session is exactly one turn longer, from the prompt to that response, with what the user typed
  as the shown prompt, and the durable turn is completed; if it is told a failure or an interruption, the session is as
  it was and the durable turn ended that way; and if not even that could be written, both are as they were.
  Every other session is untouched.
\<close>

theorem gateway_turn_commits_or_ends:
  assumes "gateway_ok ge" "holds_claim ge (lv_db s) claim old"
  shows "case task_exit ge polls claim s of (r, s') \<Rightarrow> turn_exited ge claim old (lv_db s) r (lv_db s')"
proof -
  let ?sx = "gv_serde ge" and ?sid = "fs_session_id (fn_spec claim)"
  let ?s = "s\<lparr>lv_observer := writer_event ''message.start'' ?sid None (lv_observer s)\<rparr>"
  obtain q s1 where q: "run_session_turn ge polls claim ?s = (q, s1)" by fastforce
  have "holds_claim ge (lv_db ?s) claim old" using assms(2) by simp
  note cases = run_session_turn_cases [OF assms(1) this q]
  have claim: "supervisor_inv ?sx (lv_db s)" "turns_of ?sx (lv_db s) (fs_turn_id (fn_spec claim)) = Some claim"
    "sessions_of ?sx (lv_db s) ?sid = Some old"
    using assms(2) by (simp_all add: holds_claim_def)
  from cases consider (committed) response messages where "q = Inr (Some response)" "commits_turn claim response messages"
      "supervisor_inv ?sx (lv_db s1)" "sessions_of ?sx (lv_db s) \<subseteq>\<^sub>m (sessions_of ?sx (lv_db s1))(turn_session claim \<mapsto> old)"
      "sessions_of ?sx (lv_db s1) (turn_session claim) = Some (extended old messages)"
      "turns_of ?sx (lv_db s1) = (turns_of ?sx (lv_db s))(fs_turn_id (fn_spec claim)
         \<mapsto> closed foreground_turn_terminal.TurnCompleted (terminal_time_ms ge (fn_started_at_ms claim)) claim)"
    | (ended) "q = Inr None \<or> (\<exists>e. q = Inl e)" "tools_frame ?sx (lv_db s) (lv_db s1)"
    by fastforce
  then show ?thesis
  proof cases
    case committed
    then have "task_exit ge polls claim s = (Ok (ExitCompleted response), s1)" using q by (simp add: task_exit_def)
    then show ?thesis
      using committed by (auto simp: turn_exited_def Let_def turn_session_def map_le_def dom_def)
  next
    case ended
    then have kept: "supervisor_inv ?sx (lv_db s1)" "sessions_of ?sx (lv_db s) \<subseteq>\<^sub>m sessions_of ?sx (lv_db s1)"
      "turns_of ?sx (lv_db s1) = turns_of ?sx (lv_db s)"
      using claim(1) by (simp_all add: tools_frame_def)
    then have mine: "turns_of ?sx (lv_db s1) (fs_turn_id (fn_spec claim)) = Some claim" using claim(2) by simp
    define outcome where "outcome = (case q of Inl e \<Rightarrow> TurnFailed (normalized_reason e ''foreground turn failed'')
      | Inr _ \<Rightarrow> TurnInterrupted ''client requested foreground interruption'')"
    obtain p s2 where p: "terminate_live ge claim outcome s1 = (p, s2)" by fastforce
    have "task_exit ge polls claim s = (case p of Inl e \<Rightarrow> Inl e
        | Inr _ \<Rightarrow> Inr (case q of Inl e \<Rightarrow> ExitFailed (''Error: '' @ e) | Inr _ \<Rightarrow> ExitInterrupted), s2)"
      using ended(1) q p by (auto simp: task_exit_def outcome_def act_bind_def act_return_def split: sum.splits)
    then show ?thesis
      using terminate_live_cases [OF assms(1) kept(1) mine p] kept claim(3) ended(1)
      by (auto simp: turn_exited_def Let_def outcome_def map_le_def dom_def split: sum.splits)
  qed
qed

section \<open>Another writer of the session\<close>

text \<open>
  C38. A turn that is running when somebody else appends to its session, as the \<open>chat\<close> command may do, can never end:
  it can neither be committed nor be terminated, in any way and at any time, and its session accepts no other
  turn, until a new gateway reconciles it.
\<close>

theorem outside_append_strands_the_turn:
  assumes "supervisor_inv sx d" "serde_ok sx"
    and "turns_of sx d tid = Some turn" "turn_running turn" "fn_owner_generation turn = generation"
    and "session_append sx now (turn_session turn) generation outside d = (Ok committed, d')"
    and "spec_ids spec" "fs_session_id spec = turn_session turn"
  shows "(\<exists>e. complete_turn sx now' tid generation messages at d' = (Err e, d'))
     \<and> (\<exists>e. terminate_turn sx tid generation outcome at d' = (Err e, d'))
     \<and> (\<exists>e. start_with_deliveries sx spec prompt expected claims at d' = (Err e, d'))
     \<and> turns_of sx d' tid = Some turn"
proof -
  obtain old where old: "sessions_of sx d (turn_session turn) = Some old" "ss_owner_generation old = generation"
    "uint (owner_generation_get generation) < i64_max" "committed = extended old outside"
    "sessions_of sx d' (turn_session turn) = Some committed" and inv: "supervisor_inv sx d'"
    using append_keeps_supervisor [OF assms(1,2,6)] by (auto simp: appendable_def split: option.splits)
  have stores: "stores_inv sx d'" "sessions_inv sx d" using inv sessions_inv_of [OF assms(1)] by (simp_all add: supervisor_inv_def)
  have "append_turn_in_transaction sx now (turn_session turn) generation outside d = (Ok committed, d')"
    using assms(6) by (simp add: session_append_def transaction_ok)
  moreover have "\<forall>m \<in> set outside. storable_message sx m"
    using appended_messages_storable [OF assms(2,6)] by (simp add: list_all_iff)
  ultimately have "d' = append_database sx now (turn_session turn) old outside d"
    using append_in_transaction_ok [OF stores(2) old(1), of outside generation now] append_in_transaction_Inr old(1) by fastforce
  then have turns: "turns_of sx d' = turns_of sx d" using turns_frame(1) [of d' d] by simp
  have fresh: "ss_owner_generation committed \<noteq> generation"
    using old(2,4) extended_evolves(2) [of old outside] old(3) by auto
  have mine: "turns_of sx d' tid = Some turn" using turns assms(3) by simp
  have "\<not> terminable sx d' tid generation outcome at" using mine old(5) fresh by (auto simp: terminable_def)
  moreover have "\<not> is_ok (fst (complete_turn sx now' tid generation messages at d'))"
  proof
    assume "is_ok (fst (complete_turn sx now' tid generation messages at d'))"
    then obtain r d2 where "complete_turn sx now' tid generation messages at d' = (Inr r, d2)"
      by (cases "complete_turn sx now' tid generation messages at d'") (auto simp: is_ok_iff)
    from complete_turn_Inr [OF stores(1) this] show False using mine old(5) fresh by (auto simp: appendable_def)
  qed
  then have "\<exists>e. complete_turn sx now' tid generation messages at d' = (Err e, d')"
    by (cases "complete_turn sx now' tid generation messages at d'"; cases "fst (complete_turn sx now' tid generation messages at d')")
       (auto simp: complete_turn_def dest: transaction_rollback)
  moreover have "\<not> startable sx d' spec prompt expected at"
    using mine assms(4,8) by (auto simp: startable_def)
  ultimately show ?thesis using terminate_err [OF stores(1)] start_err [OF stores(1) assms(7)] mine by blast
qed

section \<open>The cleanup of a turn that has ended\<close>

text \<open>
  C39. The task of a turn that has ended gives its session back before it removes its cancellation sender. A prompt for the
  same session that is accepted in between loses its own sender to that removal, and its turn sees a cancellation
  although no client asked for one.
\<close>

theorem late_cleanup_cancels_the_next_turn:
  assumes "i < length (gt_turns g)" "gk_phase (gt_turns g ! i) = PhaseReleased result" "gk_session (gt_turns g ! i) = sid"
    and "\<not> gt_controls_poisoned g" "accept_turn ge request_id sid claim deliveries g = (Ok (), g')"
  shows "gk_session (last (gt_turns g')) = sid \<and> gk_phase (last (gt_turns g')) = PhaseSpawned
     \<and> \<not> cancel_seen g' (gk_receiver (last (gt_turns g')))
     \<and> cancel_seen (task_step ge polls i g') (gk_receiver (last (gt_turns g')))"
proof -
  let ?task = "\<lparr>gk_claim = claim, gk_session = sid, gk_receiver = length (gt_channels g), gk_phase = PhaseSpawned\<rparr>"
  have len: "length (gt_channels (take_control key to g)) = length (gt_channels g)" for key to
    by (simp add: take_control_def use_channel_def split: option.split)
  have frame: "gt_turns (take_control key to g) = gt_turns g" "gt_controls_poisoned (take_control key to g) = gt_controls_poisoned g" for key to
    by (simp_all add: take_control_def split: option.split)
  from assms(4,5) have sent: "gt_turns g' = gt_turns g @ [?task]" "gt_controls g' (session_id_str sid) = Some (length (gt_channels g))"
    "length (gt_channels g') = Suc (length (gt_channels g))" "gt_channels g' ! length (gt_channels g) = CancelOpen"
    "\<not> gt_controls_poisoned g'"
    by (auto simp: accept_turn_def Let_def gateway_send_def on_live_def act_zoom_def give_up_turn_def act_bind_def act_lift_def act_update_def
        act_attempt_def frame len nth_append split: prod.splits sum.splits)
  then show ?thesis
    using assms(1-3)
    by (simp add: cancel_seen_def task_step_def Let_def nth_append forget_control_def take_control_def use_channel_def set_phase_def)
qed

section \<open>A gateway for the examples\<close>

definition submit_sample :: gateway_request where
  "submit_sample = \<lparr>gq_jsonrpc = ''2.0'', gq_id = jnat 7, gq_method = ''prompt.submit'',
     gq_params = jobject [(''session_id'', JString ''p''), (''text'', JString ''q'')]\<rparr>"

definition gateway_env_sample :: "unit gateway_env" where
  "gateway_env_sample =
     \<lparr>gv_live = \<lparr>ve_host = Live_Settings.sample_host, ve_agent = agent_env_sample\<lparr>ae_serde := live_serde\<rparr>,
        ve_observe = (\<lambda>_. act_return ()),
        ve_codex = \<lparr>en_codec = en_codec sample_world, en_debug_id = (\<lambda>_. ''id''), en_debug_str = id, en_version = ''0'',
          en_spawner = en_spawner sample_world, en_broker = live_broker agent_env_sample [], en_observe = (\<lambda>_. act_return ()),
          en_abandon_server = id, en_abandon_tools = id\<rparr>,
        ve_clock = sample_clock, ve_no_worker = server_of_child sample_child, ve_binding = binding_codec, ve_open_bindings = None,
        ve_dropped = id, ve_home = None\<rparr>,
      gv_settings = sample_settings, gv_state = ''/s'', gv_pid = 1, gv_nanos = Ok 10, gv_now_ms = (\<lambda>_. Ok 3), gv_end_ms = Ok 9,
      gv_env_present = (\<lambda>_. False), gv_decode = (\<lambda>_. Ok submit_sample), gv_pretty = (\<lambda>_. Ok []), gv_open_turns = None, gv_version = ''0''\<rparr>"

definition live_sessions :: database where
  "live_sessions = snd (session_create live_serde 5 (Session_Store.sample_config ''p'') empty_database)"

definition live_started :: database where
  "live_started = snd (start_with_deliveries live_serde Foreground_Store.sample_spec ''q'' (OwnerGeneration 1) [] 3 live_sessions)"

lemma live_config:
  assumes "plain_char c"
  shows "storable_config live_serde (Session_Store.sample_config [c])" "validate_config live_serde (Session_Store.sample_config [c]) = Ok ()"
proof -
  have catalog: "local_catalog \<noteq> []" by (simp add: local_catalog_def)
  then show "storable_config live_serde (Session_Store.sample_config [c])"
    using assms
    by (simp add: storable_config_def Session_Store.sample_config_def live_serde_def agent_serde_def sample_serde_def
        Sqlite_Schema.sample_codec_def encodes_def manifest_valid_def unpadded_plain plain_char_def digest_ok_def lower_hex_digit_def
        i64_max_def list_all_iff)
  have "trim ''openai'' = ''openai''" "trim ''m'' = ''m''" "trim ''/'' = ''/''" "trim ''u'' = ''u''"
    using unpadded_plain [of "''openai''"] unpadded_plain [of "''m''"] unpadded_plain [of "''/''"] unpadded_plain [of "''u''"]
    by (simp_all add: unpadded_def plain_char_def)
  then show "validate_config live_serde (Session_Store.sample_config [c]) = Ok ()"
    using catalog
    by (simp add: validate_config_def Session_Store.sample_config_def live_serde_def agent_serde_def sample_serde_def
        Sqlite_Schema.sample_codec_def validate_transport_def Session_Store.is_absolute_def)
qed

lemma live_sessions_facts:
  "supervisor_inv live_serde live_sessions"
  "sessions_of live_serde live_sessions = [SessionId ''p'' \<mapsto> new_session (Session_Store.sample_config ''p'')]"
  "turns_of live_serde live_sessions = (\<lambda>_. None)" "db_completions live_sessions = []" "db_delegations live_sessions = []"
  "db_turns live_sessions = []"
proof -
  have plain: "plain_char (CHR ''p'')" by (simp add: plain_char_def)
  note st = live_config(1) [OF plain] and ok = live_config(2) [OF plain]
  show "supervisor_inv live_serde live_sessions"
    "sessions_of live_serde live_sessions = [SessionId ''p'' \<mapsto> new_session (Session_Store.sample_config ''p'')]"
    using first_session [OF st ok] by (simp_all add: live_sessions_def) (simp add: Session_Store.sample_config_def)
  have "creatable live_serde empty_database (Session_Store.sample_config ''p'')" by (simp add: creatable_def empty_sessions ok)
  from create_in_transaction(1) [OF empty_sessions(1) st this, of 5]
  obtain row where "create_session_in_transaction live_serde 5 (Session_Store.sample_config ''p'') empty_database
      = (Inr (new_session (Session_Store.sample_config ''p'')), empty_database\<lparr>db_sessions := db_sessions empty_database @ [row]\<rparr>)"
    by blast
  then have d: "live_sessions = empty_database\<lparr>db_sessions := db_sessions empty_database @ [row]\<rparr>"
    by (simp add: live_sessions_def session_create_def transaction_def)
  show "db_completions live_sessions = []" "db_delegations live_sessions = []" "db_turns live_sessions = []" by (subst d, simp add: empty_database_def)+
  have "db_turns live_sessions = db_turns empty_database" by (subst d) simp
  from turns_frame(1) [OF this] show "turns_of live_serde live_sessions = (\<lambda>_. None)" by (simp add: empty_stores)
qed

lemma live_started_facts:
  "supervisor_inv live_serde live_started" "turns_of live_serde live_started = [ForegroundTurnId ''t'' \<mapsto> Foreground_Store.sample_turn]"
  "sessions_of live_serde live_started = [SessionId ''p'' \<mapsto> new_session (Session_Store.sample_config ''p'')]"
proof -
  have stores: "stores_inv live_serde live_sessions" using live_sessions_facts(1) by (simp add: supervisor_inv_def)
  have st: "startable live_serde live_sessions Foreground_Store.sample_spec ''q'' (OwnerGeneration 1) 3"
    using unpadded_trim_nonempty [of "''q''"]
    by (simp add: startable_def Foreground_Store.sample_spec_def live_sessions_facts new_session_def i64_max_def unpadded_plain
        plain_char_def sql_nonempty_def)
  have "claims_owned live_sessions (fs_session_id Foreground_Store.sample_spec) (uint (3 :: u64)) []"
    by (simp add: claims_owned_def)
  note started = start_ok [OF stores sample_spec_ids st this]
  have d: "live_started = started_in (started_row Foreground_Store.sample_spec ''q'' (OwnerGeneration 1) 3) (uint (3 :: u64)) [] live_sessions"
    by (simp add: live_started_def started(1))
  have ok: "start_with_deliveries live_serde Foreground_Store.sample_spec ''q'' (OwnerGeneration 1) [] 3 live_sessions
      = (Ok Foreground_Store.sample_turn, live_started)"
    "sessions_of live_serde live_started = sessions_of live_serde live_sessions"
    "turns_of live_serde live_started = (turns_of live_serde live_sessions)(fs_turn_id Foreground_Store.sample_spec \<mapsto> Foreground_Store.sample_turn)"
    using started(1,3,4) by (simp_all add: d Foreground_Store.sample_turn_def)
  from store_ok_foreground [OF step_start [OF sample_spec_ids ok(1)] live_sessions_facts(1)]
  show "supervisor_inv live_serde live_started" by (simp add: store_ok_def)
  show "turns_of live_serde live_started = [ForegroundTurnId ''t'' \<mapsto> Foreground_Store.sample_turn]"
    "sessions_of live_serde live_started = [SessionId ''p'' \<mapsto> new_session (Session_Store.sample_config ''p'')]"
    using ok(2,3) live_sessions_facts by (simp_all add: Foreground_Store.sample_spec_def)
qed

lemma sample_turn_facts:
  "turn_running Foreground_Store.sample_turn" "fn_owner_generation Foreground_Store.sample_turn = OwnerGeneration 1"
  "turn_session Foreground_Store.sample_turn = SessionId ''p''" "fs_turn_id (fn_spec Foreground_Store.sample_turn) = ForegroundTurnId ''t''"
  "fs_session_id (fn_spec Foreground_Store.sample_turn) = SessionId ''p''"
  by (simp_all add: Foreground_Store.sample_turn_def started_turn_def turn_running_def turn_session_def Foreground_Store.sample_spec_def)

definition live_chatted :: database where
  "live_chatted = snd (session_append live_serde 7 (SessionId ''p'') (OwnerGeneration 1) Session_Store.sample_messages live_started)"

lemma live_chat_appends:
  "session_append live_serde 7 (SessionId ''p'') (OwnerGeneration 1) Session_Store.sample_messages live_started
   = (Ok (extended (new_session (Session_Store.sample_config ''p'')) Session_Store.sample_messages), live_chatted)"
proof -
  have inv: "sessions_inv live_serde live_started" by (rule sessions_inv_of [OF live_started_facts(1)])
  have s: "sessions_of live_serde live_started (SessionId ''p'') = Some (new_session (Session_Store.sample_config ''p''))"
    by (simp add: live_started_facts(3))
  have ms: "\<forall>m \<in> set Session_Store.sample_messages. storable_message live_serde m"
    by (simp add: Session_Store.sample_messages_def storable_message_def live_serde_def agent_serde_def sample_serde_def encodes_def
        Sqlite_Schema.sample_codec_def)
  have "appendable (Some (new_session (Session_Store.sample_config ''p''))) (OwnerGeneration 1) Session_Store.sample_messages"
    using sample_appendable by (simp add: sample_sessions)
  from append_in_transaction_ok [OF inv s ms this, of 7] show ?thesis
    by (simp add: live_chatted_def session_append_def transaction_def)
qed

theorem outside_append_strands_the_turn_witness:
  "(\<exists>e. complete_turn live_serde 8 (ForegroundTurnId ''t'') (OwnerGeneration 1) Session_Store.sample_messages 9 live_chatted = (Err e, live_chatted))
   \<and> (\<exists>e. terminate_turn live_serde (ForegroundTurnId ''t'') (OwnerGeneration 1) (TurnFailed ''bad'') 9 live_chatted = (Err e, live_chatted))
   \<and> (\<exists>e. start_with_deliveries live_serde (Foreground_Store.sample_spec\<lparr>fs_turn_id := ForegroundTurnId ''u''\<rparr>) ''q'' (OwnerGeneration 2) [] 9
        live_chatted = (Err e, live_chatted))"
proof -
  have "turns_of live_serde live_started (ForegroundTurnId ''t'') = Some Foreground_Store.sample_turn" by (simp add: live_started_facts(2))
  moreover have "spec_ids (Foreground_Store.sample_spec\<lparr>fs_turn_id := ForegroundTurnId ''u''\<rparr>)"
    "fs_session_id (Foreground_Store.sample_spec\<lparr>fs_turn_id := ForegroundTurnId ''u''\<rparr>) = turn_session Foreground_Store.sample_turn"
    by (simp_all add: spec_ids_def Foreground_Store.sample_spec_def unpadded_plain plain_char_def Foreground_Store.sample_turn_def
        started_turn_def turn_session_def)
  ultimately show ?thesis
    using outside_append_strands_the_turn [OF live_started_facts(1) live_serde_ok _ sample_turn_facts(1,2)
        live_chat_appends [folded sample_turn_facts(3)]]
    by blast
qed

theorem gateway_turn_commits_or_ends_witness:
  "case task_exit gateway_env_sample [] Foreground_Store.sample_turn \<lparr>lv_db = live_started, lv_http = (), lv_child_http = (),
       lv_approvals = approval_control_default, lv_shell = [], lv_observer = \<lparr>fr_sent = [], fr_faults = []\<rparr>\<rparr> of (r, s') \<Rightarrow>
     turn_exited gateway_env_sample Foreground_Store.sample_turn (new_session (Session_Store.sample_config ''p'')) live_started r (lv_db s')"
proof -
  have serde: "gv_serde gateway_env_sample = live_serde" by (simp add: gateway_env_sample_def)
  have "faithful (sx_foreground_terminal live_serde)"
    by (simp add: live_serde_def agent_serde_def sample_serde_def sample_codec_faithful)
  then have "gateway_ok gateway_env_sample"
    by (simp add: gateway_ok_def serde live_serde_ok) (simp add: gateway_env_sample_def drops_part_def)
  moreover have "holds_claim gateway_env_sample live_started Foreground_Store.sample_turn (new_session (Session_Store.sample_config ''p''))"
    by (simp add: holds_claim_def serde live_started_facts sample_turn_facts new_session_def)
  ultimately show ?thesis
    using gateway_turn_commits_or_ends [where ge = gateway_env_sample and polls = "[]" and claim = Foreground_Store.sample_turn
        and old = "new_session (Session_Store.sample_config ''p'')"
        and s = "\<lparr>lv_db = live_started, lv_http = (), lv_child_http = (),
       lv_approvals = approval_control_default, lv_shell = [], lv_observer = \<lparr>fr_sent = [], fr_faults = []\<rparr>\<rparr>"]
    by (simp add: serde live_started_facts(1))
qed

definition gateway_sample :: "unit gateway" where
  "gateway_sample =
     \<lparr>gt_live = \<lparr>lv_db = live_started, lv_http = (), lv_child_http = (), lv_approvals = approval_control_default, lv_shell = [],
        lv_observer = \<lparr>fr_sent = [], fr_faults = []\<rparr>\<rparr>,
      gt_busy = {''p''}, gt_busy_poisoned = False, gt_controls = [''p'' \<mapsto> 0], gt_controls_poisoned = False, gt_channels = [CancelOpen],
      gt_signals = background_control_default,
      gt_turns = [\<lparr>gk_claim = Foreground_Store.sample_turn, gk_session = SessionId ''p'', gk_receiver = 0,
                    gk_phase = PhaseReleased (Ok ExitInterrupted)\<rparr>]\<rparr>"

theorem late_cleanup_cancels_the_next_turn_witness:
  "\<exists>g'. accept_turn gateway_env_sample JNull (SessionId ''p'') Foreground_Store.sample_turn 0 gateway_sample = (Ok (), g')
     \<and> \<not> cancel_seen g' (gk_receiver (last (gt_turns g')))
     \<and> cancel_seen (task_step gateway_env_sample [] 0 g') (gk_receiver (last (gt_turns g')))"
proof -
  obtain g' where accepted: "accept_turn gateway_env_sample JNull (SessionId ''p'') Foreground_Store.sample_turn 0 gateway_sample = (Ok (), g')"
    by (simp add: accept_turn_def gateway_sample_def Let_def gateway_send_def on_live_def on_writer_def act_zoom_def writer_send_def take_control_def)
  have "0 < length (gt_turns gateway_sample)" "gk_phase (gt_turns gateway_sample ! 0) = PhaseReleased (Ok ExitInterrupted)"
    "gk_session (gt_turns gateway_sample ! 0) = SessionId ''p''" "\<not> gt_controls_poisoned gateway_sample"
    by (simp_all add: gateway_sample_def)
  from late_cleanup_cancels_the_next_turn [OF this accepted, of "[]"] accepted show ?thesis by blast
qed

end
