(* ===== verification/Gateway_Clients.thy ===== *)
theory Gateway_Clients
  imports Gateway_Properties
begin

text \<open>
  What a client of the gateway can rely on: one answer per request, one turn per session at a time, and an acknowledged
  prompt is a durable turn.
\<close>

section \<open>What a request leaves alone\<close>

abbreviation frames_sent :: "'h gateway \<Rightarrow> json list" where
  "frames_sent g \<equiv> fr_sent (lv_observer (gt_live g))"

definition same_tasks :: "'h gateway \<Rightarrow> 'h gateway \<Rightarrow> bool" where
  "same_tasks g g' \<longleftrightarrow> gt_busy g' = gt_busy g \<and> gt_turns g' = gt_turns g \<and> gt_busy_poisoned g' = gt_busy_poisoned g
     \<and> gt_controls_poisoned g' = gt_controls_poisoned g"

definition quiet :: "'h gateway \<Rightarrow> 'h gateway \<Rightarrow> bool" where
  "quiet g g' \<longleftrightarrow> same_tasks g g' \<and> lv_observer (gt_live g') = lv_observer (gt_live g)"

interpretation quiet: frame quiet
  by unfold_locales (auto simp: quiet_def same_tasks_def)

lemma attempt_moves: "moves R m \<Longrightarrow> moves R (act_attempt m)"
  by (rule movesI) (auto simp: act_attempt_def split: prod.splits dest: movesD)

lemma quiet_db [simp]: "moves quiet (on_live (live_db m))"
  by (auto simp: moves_def on_live_def live_db_def act_zoom_def quiet_def same_tasks_def split: prod.splits)

lemma quiet_live [simp]:
  "moves quiet (on_live (open_sessions ve))" "moves quiet (on_live (open_delegations ve))" "moves quiet (on_live (on_turns ge m'))"
  "moves quiet (on_live (on_delegations m''))"
  by (auto simp: moves_def on_live_def open_sessions_def open_delegations_def on_turns_def on_delegations_def act_lift_def act_bind_def
      act_map_err_def live_db_def act_zoom_def quiet_def same_tasks_def split: prod.splits sum.splits option.splits)

lemma quiet_stores [simp]: "moves quiet (gateway_sessions ge f m)" "moves quiet (gateway_delegations ge m')"
  unfolding gateway_sessions_def gateway_delegations_def by (intro quiet.steps attempt_moves; simp)+

lemma quiet_parent [simp]: "moves quiet (authorized_parent ge params)" "moves quiet (load_owned_delegation ge parent k)"
  unfolding authorized_parent_def load_owned_delegation_def by (intro quiet.steps; simp)+

lemma quiet_signal [simp]: "moves quiet (signal_worker k reason)"
  by (auto simp: moves_def signal_worker_def quiet_def same_tasks_def split: prod.splits)

lemma quiet_cancel [simp]: "moves quiet (cancel_attempt ge parent k reason attempt)"
  unfolding cancel_attempt_def
  by (intro quiet.steps attempt_moves; auto intro!: quiet.steps attempt_moves split: option.split sum.split delegation_store_error.split)

lemma quiet_retries [simp]: "moves quiet (cancel_retries ge parent k reason attempts)"
  by (induction attempts) (auto intro!: quiet.steps split: option.split)

lemma take_control_quiet: "quiet g (take_control key to g)"
  by (simp add: take_control_def quiet_def same_tasks_def split: option.split)

lemma quiet_requests [simp]:
  "moves quiet (gateway_create ge params)" "moves quiet (gateway_resume ge params)" "moves quiet (gateway_list_sessions ge shape)"
  "moves quiet (gateway_most_recent ge)" "moves quiet (gateway_list_delegations ge params)" "moves quiet (gateway_delegation_status ge params)"
  "moves quiet (gateway_cancel_delegation ge params)" "moves quiet (gateway_interrupt ge params)"
proof -
  show "moves quiet (gateway_create ge params)" "moves quiet (gateway_list_sessions ge shape)" "moves quiet (gateway_most_recent ge)"
    "moves quiet (gateway_list_delegations ge params)" "moves quiet (gateway_delegation_status ge params)"
    "moves quiet (gateway_cancel_delegation ge params)"
    unfolding gateway_create_def gateway_list_sessions_def gateway_most_recent_def gateway_list_delegations_def
      gateway_delegation_status_def gateway_cancel_delegation_def
    by (intro quiet.steps; simp del: cancel_retries.simps)+
  show "moves quiet (gateway_resume ge params)"
    unfolding gateway_resume_def Let_def by (intro quiet.steps; simp)
  show "moves quiet (gateway_interrupt ge params)"
    unfolding gateway_interrupt_def by (intro quiet.steps quiet.update; simp add: take_control_quiet) (simp add: quiet_def same_tasks_def)
qed

lemma quiet_respond [simp]: "moves quiet (gateway_respond_approval ge params)"
proof -
  have "moves quiet (on_live (act_zoom lv_approvals (\<lambda>a s. s\<lparr>lv_approvals := a\<rparr>) m))" for m :: "(approval_control, 'x, 'y) action"
    by (auto simp: moves_def on_live_def act_zoom_def quiet_def same_tasks_def split: prod.splits)
  note this [simp]
  show ?thesis unfolding gateway_respond_approval_def by (intro quiet.steps; simp)
qed

lemma quiet_call: "moves quiet (gateway_call ge name params)"
  by (simp add: gateway_call_def)

lemma quiet_release [simp]: "moves quiet (release_deliveries ge deliveries)"
  unfolding release_deliveries_def by (rule quiet.update) (simp add: quiet_def same_tasks_def)

lemma quiet_claims [simp]: "moves quiet (claim_parent_completions ge sid at)"
proof -
  have one: "moves quiet (claim_one ge at completion)" for completion
    unfolding claim_one_def by (intro quiet.steps; simp)
  have "moves quiet (claim_each ge at available got)" for available got
    by (induction available arbitrary: got) (auto intro!: quiet.steps attempt_moves one split: sum.split option.split)
  then show ?thesis unfolding claim_parent_completions_def by (intro quiet.steps; simp)
qed

section \<open>One answer per request\<close>

definition answers :: "json \<Rightarrow> json \<Rightarrow> bool" where
  "answers request_id out \<longleftrightarrow> (\<exists>result. out = gateway_success request_id result)
     \<or> (\<exists>code message. out = json_of_failure (gateway_failure_new request_id code message))"

lemma send_cases:
  assumes "gateway_send out g = (r, g')"
  shows "same_tasks g g' \<and> (case r of Inl e \<Rightarrow> frames_sent g' = frames_sent g | Inr u \<Rightarrow> frames_sent g' = frames_sent g @ [out])"
    "lv_db (gt_live g') = lv_db (gt_live g)"
  using assms
  by (auto simp: gateway_send_def on_live_def on_writer_def act_zoom_def writer_send_def same_tasks_def split: prod.splits list.splits option.splits)

text \<open>A prompt whose session was marked busy is refused and the session given back, or a task holds the session.\<close>

definition prompt_refused :: "json \<Rightarrow> string \<Rightarrow> 'h gateway \<Rightarrow> string + unit \<Rightarrow> 'h gateway \<Rightarrow> bool" where
  "prompt_refused request_id key g r g' \<longleftrightarrow> same_tasks (clear_busy key g) g'
     \<and> (case r of Inl e \<Rightarrow> frames_sent g' = frames_sent g
        | Inr u \<Rightarrow> \<exists>code message. frames_sent g' = frames_sent g @ [json_of_failure (gateway_failure_new request_id code message)])"

definition prompt_accepted :: "json \<Rightarrow> session_id \<Rightarrow> 'h gateway \<Rightarrow> string + unit \<Rightarrow> 'h gateway \<Rightarrow> bool" where
  "prompt_accepted request_id sid g r g' \<longleftrightarrow> r = Ok ()
     \<and> (\<exists>claim receiver result. same_tasks (g\<lparr>gt_turns := gt_turns g
            @ [\<lparr>gk_claim = claim, gk_session = sid, gk_receiver = receiver, gk_phase = PhaseSpawned\<rparr>]\<rparr>) g'
          \<and> frames_sent g' = frames_sent g @ [gateway_success request_id result])"

lemma quiet_then:
  "quiet g h \<Longrightarrow> prompt_refused request_id key h r g' \<Longrightarrow> prompt_refused request_id key g r g'"
  "quiet g h \<Longrightarrow> prompt_accepted request_id sid h r g' \<Longrightarrow> prompt_accepted request_id sid g r g'"
  by (cases r; auto simp: quiet_def same_tasks_def prompt_refused_def prompt_accepted_def clear_busy_def)+

lemma clear_busy_frame [simp]:
  "gt_live (clear_busy key g) = gt_live g" "gt_turns (clear_busy key g) = gt_turns g"
  "gt_busy_poisoned (clear_busy key g) = gt_busy_poisoned g" "gt_controls_poisoned (clear_busy key g) = gt_controls_poisoned g"
  by (simp_all add: clear_busy_def)

lemma refuse_cases:
  assumes "refuse_prompt request_id sid error g = (r, g')"
  shows "prompt_refused request_id (session_id_str sid) g r g'"
  using assms send_cases(1) [of "json_of_failure (gateway_failure_new request_id (rp_code error) (rp_message error))" "clear_busy (session_id_str sid) g"]
  by (auto simp: refuse_prompt_def act_bind_def act_update_def reply_failure_def prompt_refused_def split: sum.splits)

lemma give_up_cases:
  assumes "give_up_turn ge key claim reason error g = (r, g')"
  shows "\<exists>e. r = Inl e" "same_tasks (clear_busy key g) g'" "frames_sent g' = frames_sent g"
proof -
  have "moves quiet (act_attempt (on_live (terminate_live ge claim (TurnFailed reason))) :: ('a, string, string + unit) gateway_action)"
    by (rule attempt_moves)
       (auto simp: moves_def on_live_def terminate_live_def on_turns_def act_lift_def act_bind_def act_return_def
          act_map_err_def live_db_def act_zoom_def quiet_def same_tasks_def split: prod.splits sum.splits option.splits)
  moreover obtain h p where run: "on_live (terminate_live ge claim (TurnFailed reason)) (clear_turn key g) = (p, h)" by fastforce
  then have h: "(act_attempt (on_live (terminate_live ge claim (TurnFailed reason))) :: ('a, string, string + unit) gateway_action)
      (clear_turn key g) = (Inr p, h)" by (simp add: act_attempt_def)
  ultimately have same: "quiet (clear_turn key g) h" by (rule movesD)
  have "quiet (clear_busy key g) (clear_turn key g)"
    by (simp add: clear_turn_def forget_control_def take_control_quiet)
  then have "quiet (clear_busy key g) h" using same quiet.trans by blast
  moreover have "r = Inl error" "g' = h" using assms h by (simp_all add: give_up_turn_def act_bind_def act_update_def act_lift_def)
  ultimately show "\<exists>e. r = Inl e" "same_tasks (clear_busy key g) g'" "frames_sent g' = frames_sent g"
    by (simp_all add: quiet_def)
qed

lemma accept_send:
  assumes "accept_turn ge request_id sid claim deliveries g = (r, g')" "\<not> gt_controls_poisoned g"
  obtains h q k where "quiet g h" "gt_live h = gt_live g" "gateway_send (gateway_success request_id (jobject
      [(''delivered_background_completions'', jnat deliveries), (''status'', JString ''streaming'')])) h = (q, k)"
    "(case q of Inl error \<Rightarrow> give_up_turn ge (session_id_str sid) claim ''gateway could not acknowledge the accepted turn'' error k
      | Inr _ \<Rightarrow> (Ok (), k\<lparr>gt_turns := gt_turns k @ [\<lparr>gk_claim = claim, gk_session = sid, gk_receiver = length (gt_channels g),
           gk_phase = PhaseSpawned\<rparr>]\<rparr>)) = (r, g')"
proof -
  let ?g = "take_control (session_id_str sid) CancelDropped g"
  define h where "h = ?g\<lparr>gt_controls := (gt_controls ?g)(session_id_str sid \<mapsto> length (gt_channels g)),
    gt_channels := gt_channels ?g @ [CancelOpen]\<rparr>"
  obtain q k where send: "gateway_send (gateway_success request_id (jobject
      [(''delivered_background_completions'', jnat deliveries), (''status'', JString ''streaming'')])) h = (q, k)" by fastforce
  show thesis
  proof (rule that [OF _ _ send])
    show "quiet g h" using take_control_quiet [of g "session_id_str sid" CancelDropped] by (simp add: h_def quiet_def same_tasks_def)
    show "gt_live h = gt_live g" by (simp add: h_def take_control_def split: option.split)
    show "(case q of Inl error \<Rightarrow> give_up_turn ge (session_id_str sid) claim ''gateway could not acknowledge the accepted turn'' error k
      | Inr _ \<Rightarrow> (Ok (), k\<lparr>gt_turns := gt_turns k @ [\<lparr>gk_claim = claim, gk_session = sid, gk_receiver = length (gt_channels g),
           gk_phase = PhaseSpawned\<rparr>]\<rparr>)) = (r, g')"
      using assms send by (simp add: accept_turn_def Let_def h_def split: sum.splits prod.splits)
  qed
qed

lemma accept_cases:
  assumes "accept_turn ge request_id sid claim deliveries g = (r, g')"
  shows "prompt_refused request_id (session_id_str sid) g r g' \<or> prompt_accepted request_id sid g r g'"
proof (cases "gt_controls_poisoned g")
  case True
  then have "give_up_turn ge (session_id_str sid) claim ''turn-control lock poisoned'' ''turn-control lock poisoned'' g = (r, g')"
    using assms by (simp add: accept_turn_def Let_def)
  from give_up_cases [OF this] show ?thesis by (auto simp: prompt_refused_def)
next
  case False
  let ?key = "session_id_str sid"
  obtain h q k where h: "quiet g h" and send: "gateway_send (gateway_success request_id (jobject
      [(''delivered_background_completions'', jnat deliveries), (''status'', JString ''streaming'')])) h = (q, k)"
    and run: "(case q of Inl error \<Rightarrow> give_up_turn ge ?key claim ''gateway could not acknowledge the accepted turn'' error k
      | Inr _ \<Rightarrow> (Ok (), k\<lparr>gt_turns := gt_turns k @ [\<lparr>gk_claim = claim, gk_session = sid, gk_receiver = length (gt_channels g),
           gk_phase = PhaseSpawned\<rparr>]\<rparr>)) = (r, g')"
    by (rule accept_send [OF assms False])
  note sent = send_cases(1) [OF send]
  show ?thesis
  proof (cases q)
    case (Inl error)
    then have "give_up_turn ge ?key claim ''gateway could not acknowledge the accepted turn'' error k = (r, g')" using run by simp
    from give_up_cases [OF this] have "prompt_refused request_id ?key h r g'"
      using sent Inl by (auto simp: prompt_refused_def same_tasks_def clear_busy_def)
    then show ?thesis using quiet_then(1) [OF h] by blast
  next
    case (Inr u)
    then have r: "r = Inr ()" and g': "g' = k\<lparr>gt_turns := gt_turns k @ [\<lparr>gk_claim = claim, gk_session = sid,
        gk_receiver = length (gt_channels g), gk_phase = PhaseSpawned\<rparr>]\<rparr>" using run by simp_all
    have "same_tasks h k" "frames_sent k = frames_sent h @ [gateway_success request_id (jobject
        [(''delivered_background_completions'', jnat deliveries), (''status'', JString ''streaming'')])]"
      using sent Inr by simp_all
    then have "prompt_accepted request_id sid h r g'" unfolding prompt_accepted_def r g' same_tasks_def by fastforce
    then show ?thesis using quiet_then(2) [OF h] by blast
  qed
qed

lemma attempt_eq: "act_attempt m s = (r, s') \<longleftrightarrow> (\<exists>p. m s = (p, s') \<and> r = Inr p)"
  by (auto simp: act_attempt_def split: prod.splits)

lemma start_submitted_cases:
  assumes "start_submitted ge request_id sid prompt turn_id at snapshot g = (r, g')"
  shows "prompt_refused request_id (session_id_str sid) g r g' \<or> prompt_accepted request_id sid g r g'"
proof -
  let ?key = "session_id_str sid"
  obtain got h where claims: "claim_parent_completions ge sid at g = (got, h)" by fastforce
  have h: "quiet g h" by (rule movesD [OF quiet_claims claims])
  note attempt = act_attempt_def
  show ?thesis
  proof (cases got)
    case (Inl error)
    then have "refuse_prompt request_id sid (rpc_error_new 5000 error) h = (r, g')"
      using assms claims by (simp add: start_submitted_def act_bind_def attempt)
    then show ?thesis using quiet_then(1) [OF h refuse_cases] by blast
  next
    case (Inr deliveries)
    note got = this
    have released: "prompt_refused request_id ?key g r g'"
      if "act_bind (release_deliveries ge deliveries) (\<lambda>_. refuse_prompt request_id sid error) k = (r, g')" "quiet g k" for error k
    proof -
      obtain l where l: "(release_deliveries ge deliveries :: ('a, string, unit) gateway_action) k = (Inr (), l)" by (simp add: release_deliveries_def act_update_def)
      have "quiet k l" by (rule movesD [OF quiet_release l])
      then have "quiet g l" using that(2) quiet.trans by blast
      moreover have "refuse_prompt request_id sid error l = (r, g')" using that(1) l by (simp add: act_bind_def)
      ultimately show ?thesis using quiet_then(1) [OF _ refuse_cases] by blast
    qed
    show ?thesis
    proof (cases "provider_prompt (gv_pretty ge) prompt deliveries")
      case (Inl error)
      then have "act_bind (release_deliveries ge deliveries) (\<lambda>_. refuse_prompt request_id sid (rpc_error_new 5000 error)) h = (r, g')"
        using assms claims got by (simp add: start_submitted_def act_bind_def attempt)
      then show ?thesis using released h by blast
    next
      case (Inr for_provider)
      obtain outcome k where start: "on_live (on_turns ge (start_with_deliveries (gv_serde ge)
          \<lparr>fs_turn_id = turn_id, fs_session_id = sid, fs_prompt = prompt\<rparr> for_provider (ss_owner_generation snapshot)
          (delivery_pairs deliveries) at)) h = (outcome, k)" by fastforce
      have k: "quiet g k" using movesD [OF quiet_live(3) start] h quiet.trans by blast
      have rest: "(case outcome of
          Inl error \<Rightarrow> act_bind (release_deliveries ge deliveries) (\<lambda>_. refuse_prompt request_id sid (foreground_rpc_error error))
        | Inr claim \<Rightarrow> accept_turn ge request_id sid claim (length deliveries)) k = (r, g')"
        using assms claims got Inr start by (simp add: start_submitted_def act_bind_def attempt)
      show ?thesis
      proof (cases outcome)
        case (Inl error)
        then show ?thesis using rest released k by simp
      next
        case (Inr claim)
        then have "accept_turn ge request_id sid claim (length deliveries) k = (r, g')" using rest by simp
        from accept_cases [OF this] show ?thesis using quiet_then [OF k] by blast
      qed
    qed
  qed
qed

lemma submit_busy_cases:
  assumes "submit_busy ge request_id sid prompt turn_id at g = (r, g')"
  shows "prompt_refused request_id (session_id_str sid) g r g' \<or> prompt_accepted request_id sid g r g'"
proof (cases "ae_open_sessions (ve_agent (gv_live ge))")
  case (Some error)
  then have "r = Inl error" "g' = clear_busy (session_id_str sid) g"
    using assms by (simp_all add: submit_busy_def act_bind_def act_update_def act_lift_def)
  then show ?thesis by (simp add: prompt_refused_def same_tasks_def)
next
  case None
  obtain loaded h where load: "on_live (live_db (session_load (gv_serde ge) sid)) g = (loaded, h)" by fastforce
  have h: "quiet g h" by (rule movesD [OF quiet_db load])
  have rest: "(case loaded of
      Inl error \<Rightarrow> refuse_prompt request_id sid (rpc_error_new 4040 (session_store_error_text error))
    | Inr snapshot \<Rightarrow> (case settings_for_host (sx_debug_str (gv_serde ge)) snapshot (gv_settings ge) of
          Inl error \<Rightarrow> refuse_prompt request_id sid (rpc_error_new 4094 error)
        | Inr _ \<Rightarrow> start_submitted ge request_id sid prompt turn_id at snapshot)) h = (r, g')"
    using assms None load by (simp add: submit_busy_def act_bind_def act_attempt_def)
  then have "prompt_refused request_id (session_id_str sid) h r g' \<or> prompt_accepted request_id sid h r g'"
    using refuse_cases start_submitted_cases by (fastforce split: sum.splits)
  then show ?thesis using quiet_then [OF h] by blast
qed

text \<open>A request that is answered in one go.\<close>

definition request_answered :: "json \<Rightarrow> 'h gateway \<Rightarrow> string + unit \<Rightarrow> 'h gateway \<Rightarrow> bool" where
  "request_answered request_id g r g' \<longleftrightarrow> same_tasks g g'
     \<and> (case r of Inl e \<Rightarrow> frames_sent g' = frames_sent g | Inr u \<Rightarrow> \<exists>out. answers request_id out \<and> frames_sent g' = frames_sent g @ [out])"

lemma reply_answered:
  "reply_failure request_id error g = (r, g') \<Longrightarrow> request_answered request_id g r g'"
  "gateway_send (gateway_success request_id result) g = (r, g') \<Longrightarrow> request_answered request_id g r g'"
  unfolding reply_failure_def request_answered_def answers_def
  by (cases r; use send_cases(1) in \<open>fastforce\<close>)+

lemma refused_answered:
  assumes "prompt_refused request_id key (g\<lparr>gt_busy := insert key (gt_busy g)\<rparr>) r g'" "key \<notin> gt_busy g" "\<not> gt_busy_poisoned g"
  shows "request_answered request_id g r g'"
  using assms by (cases r) (auto simp: prompt_refused_def request_answered_def answers_def same_tasks_def clear_busy_def)

lemma gateway_submit_cases:
  assumes "gateway_submit ge request_id params g = (r, g')"
  shows "request_answered request_id g r g'
    \<or> (\<exists>sid. session_id_str sid \<notin> gt_busy g \<and> \<not> gt_busy_poisoned g
        \<and> prompt_accepted request_id sid (g\<lparr>gt_busy := insert (session_id_str sid) (gt_busy g)\<rparr>) r g')"
proof (cases "\<exists>sid prompt turn_id at. and_then (session_param params) (\<lambda>name. map_err (rpc_error_new 4000 \<circ> id_error_text) (session_id_new name)) = Inr sid
    \<and> param_str ''text'' params = Some prompt \<and> trim prompt \<noteq> [] \<and> fresh_turn_id ge = Inr turn_id \<and> gv_now_ms ge 0 = Inr at
    \<and> \<not> gt_busy_poisoned g \<and> session_id_str sid \<notin> gt_busy g")
  case True
  then obtain sid prompt turn_id at where c: "and_then (session_param params) (\<lambda>name. map_err (rpc_error_new 4000 \<circ> id_error_text) (session_id_new name)) = Inr sid"
    "param_str ''text'' params = Some prompt" "trim prompt \<noteq> []" "fresh_turn_id ge = Inr turn_id" "gv_now_ms ge 0 = Inr at"
    "\<not> gt_busy_poisoned g" "session_id_str sid \<notin> gt_busy g" by blast
  then have "submit_busy ge request_id sid prompt turn_id at (g\<lparr>gt_busy := insert (session_id_str sid) (gt_busy g)\<rparr>) = (r, g')"
    using assms by (simp add: gateway_submit_def act_bind_def act_lift_def act_try_def ensure_def act_read_def act_update_def)
  from submit_busy_cases [OF this] refused_answered c(6,7) show ?thesis by blast
next
  case False
  have same: "request_answered request_id g (Inl e) g" for e by (simp add: request_answered_def same_tasks_def)
  have "request_answered request_id g r g'"
    using assms False same reply_answered(1)
    by (auto simp: gateway_submit_def act_bind_def act_lift_def act_try_def ensure_def act_read_def split: sum.splits option.splits if_splits)
  then show ?thesis ..
qed

lemma gateway_dispatch_cases:
  assumes "gateway_dispatch ge request g = (r, g')"
  shows "request_answered (gq_id request) g r g'
    \<or> (\<exists>sid. session_id_str sid \<notin> gt_busy g \<and> \<not> gt_busy_poisoned g
        \<and> prompt_accepted (gq_id request) sid (g\<lparr>gt_busy := insert (session_id_str sid) (gt_busy g)\<rparr>) r g')"
proof (cases "gq_jsonrpc request = json_rpc_version \<and> json_as_object (gq_params request) \<noteq> None")
  case False
  then have "request_answered (gq_id request) g r g'"
    using assms by (auto simp: gateway_dispatch_def split: if_splits option.splits intro: reply_answered(1))
  then show ?thesis ..
next
  case True
  then obtain params where params: "json_as_object (gq_params request) = Some params" by blast
  show ?thesis
  proof (cases "gq_method request = ''prompt.submit''")
    case True
    then have "gateway_submit ge (gq_id request) params g = (r, g')"
      using assms \<open>gq_jsonrpc request = _ \<and> _\<close> params by (simp add: gateway_dispatch_def)
    then show ?thesis by (rule gateway_submit_cases)
  next
    case False
    obtain outcome h where call: "gateway_call ge (gq_method request) params g = (outcome, h)" by fastforce
    have h: "quiet g h" by (rule movesD [OF quiet_call call])
    have "(case outcome of Inr result \<Rightarrow> gateway_send (gateway_success (gq_id request) result)
        | Inl error \<Rightarrow> reply_failure (gq_id request) error) h = (r, g')"
      using assms True False params call by (simp add: gateway_dispatch_def act_bind_def act_attempt_def)
    then have "request_answered (gq_id request) h r g'" using reply_answered by (fastforce split: sum.splits)
    then have "request_answered (gq_id request) g r g'"
      using h by (cases r) (auto simp: request_answered_def quiet_def same_tasks_def)
    then show ?thesis ..
  qed
qed

text \<open>
  C32. A request is answered exactly once, under its own identity, whatever it asks for and whatever fails on the way: either one
  frame is written, a success or a failure with the identity of the request, or the host stops and none is.
\<close>

theorem one_answer_per_request:
  "case gateway_dispatch ge request g of
     (Inr _, g') \<Rightarrow> \<exists>out. answers (gq_id request) out \<and> frames_sent g' = frames_sent g @ [out]
   | (Inl _, g') \<Rightarrow> frames_sent g' = frames_sent g"
proof -
  obtain r g' where run: "gateway_dispatch ge request g = (r, g')" by fastforce
  from gateway_dispatch_cases [OF run] show ?thesis
    unfolding run by (cases r) (auto simp: request_answered_def prompt_accepted_def answers_def)
qed

section \<open>One turn per session\<close>

definition holds_session :: "gateway_task \<Rightarrow> bool" where
  "holds_session t \<longleftrightarrow> (case gk_phase t of PhaseSpawned \<Rightarrow> True | PhaseEnded _ \<Rightarrow> True | _ \<Rightarrow> False)"

definition held_keys :: "'h gateway \<Rightarrow> string list" where
  "held_keys g = map (\<lambda>t. session_id_str (gk_session t)) (filter holds_session (gt_turns g))"

definition busy_exact :: "'h gateway \<Rightarrow> bool" where
  "busy_exact g \<longleftrightarrow> \<not> gt_busy_poisoned g \<and> gt_busy g = set (held_keys g) \<and> distinct (held_keys g)"

text \<open>
  A history of the host: lines of its input, steps of its tasks in any order, and what other tasks and processes do to the
  stores, the approvals and the signals. The environment of each step, with its clock, is its own.
\<close>

inductive gateway_runs :: "'h gateway \<Rightarrow> 'h gateway \<Rightarrow> bool" for g where
  runs_refl: "gateway_runs g g"
| runs_line: "gateway_runs g h \<Longrightarrow> gateway_line ge line h = (Ok (), h') \<Longrightarrow> gateway_runs g h'"
| runs_task: "gateway_runs g h \<Longrightarrow> i < length (gt_turns h) \<Longrightarrow> gateway_runs g (task_step ge polls i h)"
| runs_others: "gateway_runs g h \<Longrightarrow> gateway_runs g (h\<lparr>gt_live := live, gt_signals := signals\<rparr>)"

lemma busy_exact_frame: "same_tasks g h \<Longrightarrow> busy_exact h = busy_exact g"
  by (simp add: busy_exact_def held_keys_def same_tasks_def)

lemma dispatch_busy_exact:
  assumes "busy_exact g" "gateway_dispatch ge request g = (r, g')"
  shows "busy_exact g'"
  using gateway_dispatch_cases [OF assms(2)]
proof
  assume "request_answered (gq_id request) g r g'"
  then show ?thesis using assms(1) busy_exact_frame by (auto simp: request_answered_def)
next
  assume "\<exists>sid. session_id_str sid \<notin> gt_busy g \<and> \<not> gt_busy_poisoned g
        \<and> prompt_accepted (gq_id request) sid (g\<lparr>gt_busy := insert (session_id_str sid) (gt_busy g)\<rparr>) r g'"
  then obtain sid claim receiver where new: "session_id_str sid \<notin> gt_busy g"
    "same_tasks (g\<lparr>gt_busy := insert (session_id_str sid) (gt_busy g), gt_turns := gt_turns g
       @ [\<lparr>gk_claim = claim, gk_session = sid, gk_receiver = receiver, gk_phase = PhaseSpawned\<rparr>]\<rparr>) g'"
    by (auto simp: prompt_accepted_def)
  show ?thesis
    using assms(1) new(1) by (simp add: busy_exact_frame [OF new(2)]) (simp add: busy_exact_def held_keys_def holds_session_def)
qed

lemma filter_turns_exact: "busy_exact (g\<lparr>gt_turns := filter (\<lambda>t. gk_phase t \<noteq> PhaseFinished) (gt_turns g)\<rparr>) = busy_exact g"
proof -
  have "filter holds_session (filter (\<lambda>t. gk_phase t \<noteq> PhaseFinished) ts) = filter holds_session ts" for ts
    by (auto simp: holds_session_def intro!: filter_cong)
  then show ?thesis by (simp add: busy_exact_def held_keys_def)
qed

lemma line_busy_exact:
  assumes "busy_exact g" "gateway_line ge line g = (r, g')"
  shows "busy_exact g'"
proof -
  have replied: "busy_exact h" if "reply_failure request_id error g = (q, h)" for request_id error q h
    using reply_answered(1) [OF that] assms(1) busy_exact_frame by (auto simp: request_answered_def)
  show ?thesis
  proof (cases "gv_decode ge line")
    case (Inl error)
    then show ?thesis using assms replied by (auto simp: gateway_line_def act_return_def split: if_splits)
  next
    case (Inr request)
    obtain q h where q: "gateway_dispatch ge request g = (q, h)" by fastforce
    note exact = dispatch_busy_exact [OF assms(1) q]
    show ?thesis
      using assms Inr q exact
      by (auto simp: gateway_line_def act_bind_def act_return_def act_update_def filter_turns_exact split: sum.splits if_splits)
  qed
qed

lemma held_keys_phase:
  assumes "i < length (gt_turns g)"
  shows "held_keys (set_phase i phase g) = map (\<lambda>t. session_id_str (gk_session t))
    (filter holds_session (take i (gt_turns g)) @ filter holds_session [(gt_turns g ! i)\<lparr>gk_phase := phase\<rparr>]
     @ filter holds_session (drop (Suc i) (gt_turns g)))"
    "held_keys g = map (\<lambda>t. session_id_str (gk_session t)) (filter holds_session (take i (gt_turns g))
       @ filter holds_session [gt_turns g ! i] @ filter holds_session (drop (Suc i) (gt_turns g)))"
proof -
  show "held_keys (set_phase i phase g) = map (\<lambda>t. session_id_str (gk_session t))
    (filter holds_session (take i (gt_turns g)) @ filter holds_session [(gt_turns g ! i)\<lparr>gk_phase := phase\<rparr>]
     @ filter holds_session (drop (Suc i) (gt_turns g)))"
    using assms by (simp add: held_keys_def set_phase_def upd_conv_take_nth_drop)
  have "gt_turns g = take i (gt_turns g) @ [gt_turns g ! i] @ drop (Suc i) (gt_turns g)"
    using assms by (simp add: id_take_nth_drop)
  then show "held_keys g = map (\<lambda>t. session_id_str (gk_session t)) (filter holds_session (take i (gt_turns g))
       @ filter holds_session [gt_turns g ! i] @ filter holds_session (drop (Suc i) (gt_turns g)))"
    unfolding held_keys_def by (metis filter_append)
qed

lemma task_busy_exact:
  assumes "busy_exact g" "i < length (gt_turns g)"
  shows "busy_exact (task_step ge polls i g)"
proof -
  let ?t = "gt_turns g ! i"
  let ?key = "session_id_str (gk_session ?t)"
  have kept: "busy_exact (set_phase i phase h)"
    if "gt_turns h = gt_turns g" "gt_busy h = gt_busy g" "gt_busy_poisoned h = gt_busy_poisoned g"
      "holds_session (?t\<lparr>gk_phase := phase\<rparr>) = holds_session ?t" for phase and h :: "'a gateway"
  proof -
    have "held_keys (set_phase i phase h) = held_keys h"
      using held_keys_phase(1) [of i h phase] held_keys_phase(2) [of i h] that(1,4) assms(2) by simp
    then show ?thesis using assms(1) that by (simp add: busy_exact_def) (simp add: set_phase_def held_keys_def)
  qed
  show ?thesis
  proof (cases "gk_phase ?t")
    case PhaseSpawned
    then show ?thesis by (auto simp: task_step_def Let_def holds_session_def intro: kept split: prod.split)
  next
    case (PhaseEnded result)
    have held: "holds_session ?t" "\<not> holds_session (?t\<lparr>gk_phase := PhaseReleased result\<rparr>)" by (simp_all add: holds_session_def PhaseEnded)
    note keys = held_keys_phase(1) [OF assms(2), of "PhaseReleased result"] held_keys_phase(2) [OF assms(2)]
    have "held_keys (set_phase i (PhaseReleased result) (clear_busy ?key g)) = held_keys (set_phase i (PhaseReleased result) g)"
      by (simp add: held_keys_def set_phase_def)
    moreover have "gt_busy (set_phase i (PhaseReleased result) (clear_busy ?key g)) = gt_busy g - {?key}"
      using assms(1) by (simp add: busy_exact_def set_phase_def clear_busy_def)
    ultimately show ?thesis
      using assms(1) keys held by (auto simp: task_step_def Let_def PhaseEnded busy_exact_def set_phase_def)
  next
    case (PhaseReleased result)
    have "same_tasks g (forget_control ?key g)"
      using take_control_quiet [of g ?key CancelDropped] by (auto simp: forget_control_def quiet_def same_tasks_def)
    then show ?thesis by (simp add: task_step_def Let_def PhaseReleased) (rule kept; simp add: same_tasks_def holds_session_def PhaseReleased)
  next
    case (PhaseForgotten result)
    then show ?thesis by (simp add: task_step_def Let_def) (rule kept; simp add: holds_session_def)
  next
    case PhaseFinished
    then show ?thesis using assms(1) by (simp add: task_step_def)
  qed
qed

lemma distinct_filter_nth:
  "distinct (map f (filter P xs)) \<Longrightarrow> i < length xs \<Longrightarrow> j < length xs \<Longrightarrow> P (xs ! i) \<Longrightarrow> P (xs ! j) \<Longrightarrow> f (xs ! i) = f (xs ! j)
     \<Longrightarrow> i = j"
proof (induction xs arbitrary: i j)
  case (Cons x xs)
  have new: "f (xs ! k) \<noteq> f x" if "P x" "k < length xs" "P (xs ! k)" for k
    using Cons.prems(1) that nth_mem [of k xs] by (auto simp: image_iff)
  show ?case
  proof (cases i)
    case 0
    then show ?thesis using Cons.prems new [of "j - 1"] by (cases j) auto
  next
    case (Suc i')
    then show ?thesis using Cons.prems new [of i'] Cons.IH [of i' "j - 1"] by (cases j) (auto split: if_splits)
  qed
qed simp

lemma runs_busy_exact: "gateway_runs g h \<Longrightarrow> busy_exact g \<Longrightarrow> busy_exact h"
  by (induction rule: gateway_runs.induct)
     (auto intro: line_busy_exact task_busy_exact simp: busy_exact_frame [of h "h\<lparr>gt_live := live, gt_signals := signals\<rparr>" for h live signals]
        same_tasks_def)

text \<open>
  C30. A session is busy exactly while one task holds it, and at most one does, over every history of requests, steps of the tasks
  and outside changes; and no task holds it for good: once its turn has ended, its next step gives the session back.
\<close>

theorem one_turn_per_session:
  assumes "gateway_runs g h" "gt_turns g = []" "gt_busy g = {}" "\<not> gt_busy_poisoned g"
  shows "(\<forall>key. is_busy key h \<longleftrightarrow> (\<exists>t \<in> set (gt_turns h). holds_session t \<and> session_id_str (gk_session t) = key))
    \<and> (\<forall>i j. i < length (gt_turns h) \<and> j < length (gt_turns h) \<and> holds_session (gt_turns h ! i) \<and> holds_session (gt_turns h ! j)
          \<and> session_id_str (gk_session (gt_turns h ! i)) = session_id_str (gk_session (gt_turns h ! j)) \<longrightarrow> i = j)
    \<and> (\<forall>ge polls i result. i < length (gt_turns h) \<and> gk_phase (gt_turns h ! i) = PhaseEnded result \<longrightarrow>
          \<not> is_busy (session_id_str (gk_session (gt_turns h ! i))) (task_step ge polls i h))"
proof -
  have "busy_exact g" using assms(2-4) by (simp add: busy_exact_def held_keys_def)
  then have exact: "busy_exact h" by (rule runs_busy_exact [OF assms(1)])
  have "is_busy key h \<longleftrightarrow> (\<exists>t \<in> set (gt_turns h). holds_session t \<and> session_id_str (gk_session t) = key)" for key
    using exact by (auto simp: is_busy_def busy_exact_def held_keys_def)
  moreover have "i = j" if "i < length (gt_turns h) \<and> j < length (gt_turns h) \<and> holds_session (gt_turns h ! i) \<and> holds_session (gt_turns h ! j)
      \<and> session_id_str (gk_session (gt_turns h ! i)) = session_id_str (gk_session (gt_turns h ! j))" for i j
    using distinct_filter_nth [of "\<lambda>t. session_id_str (gk_session t)" holds_session "gt_turns h" i j] exact that
    by (simp add: busy_exact_def held_keys_def)
  moreover have "\<not> is_busy (session_id_str (gk_session (gt_turns h ! i))) (task_step ge polls i h)"
    if "i < length (gt_turns h) \<and> gk_phase (gt_turns h ! i) = PhaseEnded result" for i result polls and ge :: "'a gateway_env"
    using that exact by (simp add: task_step_def Let_def is_busy_def clear_busy_def set_phase_def busy_exact_def)
  ultimately show ?thesis by (intro conjI allI impI)
qed

section \<open>An acknowledged prompt is a durable turn\<close>

definition keeps_stores :: "serde \<Rightarrow> 'h gateway \<Rightarrow> 'h gateway \<Rightarrow> bool" where
  "keeps_stores sx g g' \<longleftrightarrow> (supervisor_inv sx (lv_db (gt_live g)) \<longrightarrow> supervisor_inv sx (lv_db (gt_live g'))
     \<and> sessions_of sx (lv_db (gt_live g')) = sessions_of sx (lv_db (gt_live g))
     \<and> turns_of sx (lv_db (gt_live g')) = turns_of sx (lv_db (gt_live g)))"

interpretation stored: frame "keeps_stores sx"
  by unfold_locales (auto simp: keeps_stores_def)

lemma change_completion_keeps: "sessions_of sx (change_completion e f d) = sessions_of sx d" "turns_of sx (change_completion e f d) = turns_of sx d"
  by (rule sessions_frame turns_frame; simp)+

lemma claim_keeps:
  assumes "supervisor_inv sx d"
  shows "claim_completion sx e claim at expires d = (r, d') \<Longrightarrow>
      supervisor_inv sx d' \<and> sessions_of sx d' = sessions_of sx d \<and> turns_of sx d' = turns_of sx d"
    "release_completion e claim d = (q, d') \<Longrightarrow>
      supervisor_inv sx d' \<and> sessions_of sx d' = sessions_of sx d \<and> turns_of sx d' = turns_of sx d"
proof -
  have c: "children_inv sx d" "outbox_inv d" using assms by (simp_all add: supervisor_inv_def children_inv_def)
  show "supervisor_inv sx d' \<and> sessions_of sx d' = sessions_of sx d \<and> turns_of sx d' = turns_of sx d"
    if "claim_completion sx e claim at expires d = (r, d')"
    using store_ok_delivery(1) [OF assms that] arg_cong [OF claim_completion_eq [OF c(1), of e claim at expires], of snd] that
    by (auto simp: store_ok_def change_completion_keeps split: if_splits option.splits)
  show "supervisor_inv sx d' \<and> sessions_of sx d' = sessions_of sx d \<and> turns_of sx d' = turns_of sx d"
    if "release_completion e claim d = (q, d')"
    using store_ok_delivery(3) [OF assms that] release_eq [OF c(2), of e claim] that
    by (auto simp: store_ok_def change_completion_keeps split: if_splits option.splits)
qed

lemma release_keeps: "supervisor_inv sx d \<Longrightarrow> supervisor_inv sx (release_each cs d)
    \<and> sessions_of sx (release_each cs d) = sessions_of sx d \<and> turns_of sx (release_each cs d) = turns_of sx d"
proof (induction cs arbitrary: d)
  case (Cons c cs)
  obtain q d1 where "release_completion (dm_event_id (cc_completion c)) (cc_claim_id c) d = (q, d1)" by fastforce
  then show ?case using claim_keeps(2) [OF Cons.prems] Cons.IH [of d1] by simp
qed simp

lemma claims_keep: "moves (keeps_stores (gv_serde ge)) (claim_parent_completions ge sid at)"
proof -
  let ?sx = "gv_serde ge"
  have opened: "moves (keeps_stores ?sx) (on_live (open_delegations (gv_live ge)))"
    by (auto simp: moves_def on_live_def open_delegations_def act_lift_def act_zoom_def keeps_stores_def split: prod.splits)
  have db: "moves (keeps_stores ?sx) (on_live (on_delegations m))"
    if "\<And>d r d'. supervisor_inv ?sx d \<Longrightarrow> m d = (r, d') \<Longrightarrow> supervisor_inv ?sx d' \<and> sessions_of ?sx d' = sessions_of ?sx d
      \<and> turns_of ?sx d' = turns_of ?sx d" for m :: "(delegation_store_error, 'z) db_action"
    using that by (fastforce simp: moves_def on_live_def on_delegations_def act_map_err_def live_db_def act_zoom_def keeps_stores_def
        split: prod.splits)
  have released: "moves (keeps_stores ?sx) (release_deliveries ge deliveries)" for deliveries
    unfolding release_deliveries_def
    by (rule stored.update) (auto simp: keeps_stores_def release_delivery_claims_def release_keeps)
  have one: "moves (keeps_stores ?sx) (claim_one ge at completion)" for completion
    unfolding claim_one_def using opened db [OF claim_keeps(1)] by (intro stored.steps; simp)
  have "moves (keeps_stores ?sx) (claim_each ge at available got)" for available got
    by (induction available arbitrary: got) (auto intro!: stored.steps attempt_moves one released split: sum.split option.split)
  moreover have "moves (keeps_stores ?sx) (on_live (on_delegations (available_completions_for ?sx sid at completion_delivery_limit)))"
    by (rule db) (auto simp: available_completions_for_def act_bind_def act_lift_def act_try_def split: sum.splits)
  ultimately show ?thesis unfolding claim_parent_completions_def using opened by (intro stored.steps; simp)
qed

text \<open>What the task of an accepted prompt is given: its running turn, the session it was started on, and its completions.\<close>

definition durable_prompt :: "'h gateway_env \<Rightarrow> string \<Rightarrow> 'h gateway \<Rightarrow> 'h gateway \<Rightarrow> bool" where
  "durable_prompt ge prompt g g' \<longleftrightarrow> (\<exists>task old deliveries.
     let sx = gv_serde ge; d = lv_db (gt_live g); d' = lv_db (gt_live g'); claim = gk_claim task in
     gt_turns g' = gt_turns g @ [task] \<and> gk_phase task = PhaseSpawned \<and> supervisor_inv sx d'
     \<and> fs_session_id (fn_spec claim) = gk_session task \<and> fs_prompt (fn_spec claim) = prompt
     \<and> turns_of sx d (fs_turn_id (fn_spec claim)) = None
     \<and> turns_of sx d' = (turns_of sx d)(fs_turn_id (fn_spec claim) \<mapsto> claim) \<and> turn_running claim
     \<and> (\<forall>tid t. turns_of sx d tid = Some t \<and> turn_session t = gk_session task \<longrightarrow> \<not> turn_running t)
     \<and> sessions_of sx d' = sessions_of sx d \<and> sessions_of sx d (gk_session task) = Some old
     \<and> ss_owner_generation old = fn_owner_generation claim
     \<and> provider_prompt (gv_pretty ge) prompt deliveries = Ok (fn_provider_prompt claim)
     \<and> (\<forall>c \<in> set deliveries. \<exists>r. outbox d' (dm_event_id (cc_completion c)) = Some r \<and> cr_delivery_state r = ''delivered''))"

lemma accept_task:
  assumes "accept_turn ge request_id sid claim deliveries g = (r, g')"
  shows "gt_turns g' = gt_turns g \<or> lv_db (gt_live g') = lv_db (gt_live g)
     \<and> (\<exists>receiver. gt_turns g' = gt_turns g @ [\<lparr>gk_claim = claim, gk_session = sid, gk_receiver = receiver, gk_phase = PhaseSpawned\<rparr>])"
proof -
  have frame: "gt_turns (take_control key to h) = gt_turns h" "gt_live (take_control key to h) = gt_live h" for key to and h :: "'a gateway"
    by (simp_all add: take_control_def split: option.split)
  have gave_up: "gt_turns h' = gt_turns h" if "give_up_turn ge key claim reason error h = (q, h')" for key reason error q h h'
    using give_up_cases(2) [OF that] by (simp add: same_tasks_def)
  show ?thesis
  proof (cases "gt_controls_poisoned g")
    case True
    then show ?thesis using assms by (auto simp: accept_turn_def Let_def dest: gave_up)
  next
    case False
    obtain h q k where h: "quiet g h" "gt_live h = gt_live g" "gateway_send (gateway_success request_id (jobject
      [(''delivered_background_completions'', jnat deliveries), (''status'', JString ''streaming'')])) h = (q, k)"
      "(case q of Inl error \<Rightarrow> give_up_turn ge (session_id_str sid) claim ''gateway could not acknowledge the accepted turn'' error k
        | Inr _ \<Rightarrow> (Ok (), k\<lparr>gt_turns := gt_turns k @ [\<lparr>gk_claim = claim, gk_session = sid, gk_receiver = length (gt_channels g),
           gk_phase = PhaseSpawned\<rparr>]\<rparr>)) = (r, g')"
      by (rule accept_send [OF assms False])
    have "gt_turns k = gt_turns g" "lv_db (gt_live k) = lv_db (gt_live g)"
      using send_cases [OF h(3)] h(1,2) by (simp_all add: same_tasks_def quiet_def)
    then show ?thesis using h(4) by (auto split: sum.splits dest: gave_up)
  qed
qed

lemma start_submitted_durable:
  assumes "start_submitted ge request_id sid prompt turn_id at snapshot g = (r, g')"
    and "supervisor_inv (gv_serde ge) (lv_db (gt_live g))" "unpadded (session_id_str sid)" "unpadded (foreground_turn_id_str turn_id)"
    and "gt_turns g' \<noteq> gt_turns g"
  shows "durable_prompt ge prompt g g'"
proof -
  let ?sx = "gv_serde ge"
  obtain got h where claims: "claim_parent_completions ge sid at g = (got, h)" by fastforce
  have h: "quiet g h" "keeps_stores ?sx g h" by (rule movesD [OF quiet_claims claims], rule movesD [OF claims_keep claims])
  have refused: "gt_turns l' = gt_turns l" if "refuse_prompt request_id sid error l = (q, l')" for error q l l'
    using refuse_cases [OF that] by (simp add: prompt_refused_def same_tasks_def)
  have released: "gt_turns l' = gt_turns l"
    if "act_bind (release_deliveries ge deliveries) (\<lambda>_. refuse_prompt request_id sid error) l = (q, l')" for deliveries error q l l'
    using that by (auto simp: act_bind_def release_deliveries_def act_update_def dest: refused)
  have turns: "gt_turns h = gt_turns g" using h(1) by (simp add: quiet_def same_tasks_def)
  obtain deliveries where got: "got = Inr deliveries"
    using assms(1,5) claims turns by (auto simp: start_submitted_def act_bind_def act_attempt_def split: sum.splits dest: refused)
  obtain for_provider where shown: "provider_prompt (gv_pretty ge) prompt deliveries = Inr for_provider"
    using assms(1,5) claims turns got
    by (auto simp: start_submitted_def act_bind_def [of "act_attempt _"] act_attempt_def split: sum.splits dest: released)
  let ?spec = "\<lparr>fs_turn_id = turn_id, fs_session_id = sid, fs_prompt = prompt\<rparr>"
  let ?start = "start_with_deliveries ?sx ?spec for_provider (ss_owner_generation snapshot) (delivery_pairs deliveries) at"
  obtain outcome k where start: "on_live (on_turns ge ?start) h = (outcome, k)" by fastforce
  have k: "gt_turns k = gt_turns g" using movesD [OF quiet_live(3) start] turns by (simp add: quiet_def same_tasks_def)
  obtain claim where claim: "outcome = Inr claim" and accept: "accept_turn ge request_id sid claim (length deliveries) k = (r, g')"
    using assms(1,5) claims k got shown start
    by (auto simp: start_submitted_def act_bind_def [of "act_attempt _"] act_attempt_def split: sum.splits dest: released)
  obtain d where d: "?start (lv_db (gt_live h)) = (Inr claim, d)" "lv_db (gt_live k) = d"
    using start claim by (auto simp: on_live_def act_zoom_def on_turns_ok split: prod.splits)
  have inv: "supervisor_inv ?sx (lv_db (gt_live h))" "sessions_of ?sx (lv_db (gt_live h)) = sessions_of ?sx (lv_db (gt_live g))"
    "turns_of ?sx (lv_db (gt_live h)) = turns_of ?sx (lv_db (gt_live g))"
    using h(2) assms(2) by (simp_all add: keeps_stores_def)
  then have stores: "stores_inv ?sx (lv_db (gt_live h))" by (simp add: supervisor_inv_def)
  have ids: "spec_ids ?spec" using assms(3,4) by (simp add: spec_ids_def)
  have st: "startable ?sx (lv_db (gt_live h)) ?spec for_provider (ss_owner_generation snapshot) at"
    "claims_owned (lv_db (gt_live h)) (fs_session_id ?spec) (uint at) (delivery_pairs deliveries)"
    using start_err [OF stores ids] d(1) by (metis Inl_Inr_False prod.inject)+
  note started = start_ok [OF stores ids st]
  have ends: "claim = started_turn ?spec for_provider (ss_owner_generation snapshot) at"
    "turns_of ?sx d = (turns_of ?sx (lv_db (gt_live h)))(turn_id \<mapsto> claim)" "sessions_of ?sx d = sessions_of ?sx (lv_db (gt_live h))"
    "outbox d e = (if e \<in> fst ` set (delivery_pairs deliveries) then map_option (delivered (uint at)) (outbox (lv_db (gt_live h)) e)
       else outbox (lv_db (gt_live h)) e)" for e
    using started d(1) by simp_all
  have posted: "\<exists>r. outbox d (dm_event_id (cc_completion c)) = Some r \<and> cr_delivery_state r = ''delivered''" if "c \<in> set deliveries" for c
  proof -
    have "claim_owned (lv_db (gt_live h)) sid (uint at) (dm_event_id (cc_completion c), cc_claim_id c)"
      using st(2) that by (auto simp: claims_owned_def list_all_iff delivery_pairs_def)
    moreover have "dm_event_id (cc_completion c) \<in> fst ` set (delivery_pairs deliveries)" using that by (force simp: delivery_pairs_def)
    ultimately show ?thesis by (auto simp: ends(4) claim_owned_def delivered_def split: option.splits)
  qed
  have "supervisor_inv ?sx d" using store_ok_foreground [OF step_start [OF ids d(1)] inv(1)] by (simp add: store_ok_def)
  moreover obtain receiver where "gt_turns g' = gt_turns g @ [\<lparr>gk_claim = claim, gk_session = sid, gk_receiver = receiver, gk_phase = PhaseSpawned\<rparr>]"
    "lv_db (gt_live g') = d"
    using accept_task [OF accept] assms(5) k d(2) by auto
  ultimately show ?thesis
    using st(1) inv(2,3) ends(1-3) shown posted
    unfolding durable_prompt_def Let_def startable_def
    by (intro exI [of _ "\<lparr>gk_claim = claim, gk_session = sid, gk_receiver = receiver, gk_phase = PhaseSpawned\<rparr>"] exI [of _ deliveries])
       (auto simp: started_turn_def turn_running_def)
qed

lemma gateway_submit_durable:
  assumes "gateway_submit ge request_id params g = (r, g')"
    and inv: "supervisor_inv (gv_serde ge) (lv_db (gt_live g))" and new: "gt_turns g' \<noteq> gt_turns g"
  obtains prompt where "param_str ''text'' params = Some prompt" "trim prompt \<noteq> []" "durable_prompt ge prompt g g'"
proof -
  let ?sid = "and_then (session_param params) (\<lambda>name. map_err (rpc_error_new 4000 \<circ> id_error_text) (session_id_new name))"
  have replied: "gt_turns h' = gt_turns h" if "reply_failure request_id error h = (q, h')" for error q h h'
    using reply_answered(1) [OF that] by (simp add: request_answered_def same_tasks_def)
  obtain sid where sid: "?sid = Inr sid"
    using assms(1) new by (cases "?sid") (auto simp: gateway_submit_def dest: replied)
  obtain prompt where prompt: "param_str ''text'' params = Some prompt" "trim prompt \<noteq> []"
    using assms(1) new sid by (auto simp: gateway_submit_def split: option.splits if_splits dest: replied)
  have "\<exists>turn_id at. fresh_turn_id ge = Inr turn_id \<and> gv_now_ms ge 0 = Inr at \<and> \<not> gt_busy_poisoned g \<and> session_id_str sid \<notin> gt_busy g
      \<and> submit_busy ge request_id sid prompt turn_id at (g\<lparr>gt_busy := insert (session_id_str sid) (gt_busy g)\<rparr>) = (r, g')"
    using assms(1) new sid prompt
    by (auto simp: gateway_submit_def act_bind_def act_lift_def act_try_def ensure_def act_read_def act_update_def
        split: sum.splits if_splits dest: replied)
  then obtain turn_id at where busy: "fresh_turn_id ge = Inr turn_id"
    "submit_busy ge request_id sid prompt turn_id at (g\<lparr>gt_busy := insert (session_id_str sid) (gt_busy g)\<rparr>) = (r, g')" by blast
  let ?g = "g\<lparr>gt_busy := insert (session_id_str sid) (gt_busy g)\<rparr>"
  have refused: "gt_turns h' = gt_turns h" if "refuse_prompt request_id sid error h = (q, h')" for error q h h'
    using refuse_cases [OF that] by (simp add: prompt_refused_def same_tasks_def)
  have load: "on_live (live_db (session_load (gv_serde ge) sid)) ?g = (load_snapshot (gv_serde ge) sid (lv_db (gt_live g)), ?g)"
    by (simp add: on_live_def live_db_def act_zoom_def session_load_def act_try_def)
  have "ae_open_sessions (ve_agent (gv_live ge)) = None"
    using busy(2) new by (auto simp: submit_busy_def act_bind_def act_update_def act_lift_def split: option.splits)
  then obtain snapshot where "start_submitted ge request_id sid prompt turn_id at snapshot ?g = (r, g')"
    using busy(2) new load
    by (auto simp: submit_busy_def act_bind_def [of "act_attempt _"] act_attempt_def split: sum.splits dest: refused)
  moreover have "unpadded (session_id_str sid)"
  proof -
    obtain name where "map_err (rpc_error_new 4000 \<circ> id_error_text) (session_id_new name) = Inr sid" using sid by (auto simp: and_then_eq_Inr)
    then have "session_id_new name = Inr sid" by (cases "session_id_new name") (simp_all add: map_err_def)
    then show ?thesis by simp
  qed
  moreover have "unpadded (foreground_turn_id_str turn_id)"
  proof -
    obtain name where "map_err id_error_text (foreground_turn_id_new name) = Inr turn_id"
      using busy(1) by (auto simp: fresh_turn_id_def and_then_eq_Inr)
    then have "foreground_turn_id_new name = Inr turn_id" by (cases "foreground_turn_id_new name") (simp_all add: map_err_def)
    then show ?thesis by simp
  qed
  ultimately have "durable_prompt ge prompt ?g g'" using start_submitted_durable inv new by fastforce
  then have "durable_prompt ge prompt g g'" by (simp add: durable_prompt_def)
  then show ?thesis using that prompt by blast
qed

text \<open>
  C31. An acknowledged prompt is a durable turn: a task is spawned only for a prompt that was acknowledged with a success, and
  then its turn is in the database as the only running one of its session, with what the user typed, the generation of
  the session it was started on, and the prompt for the provider; the completions in that prompt are marked as delivered
  in the same step, and no session has changed.
\<close>

theorem acknowledged_prompt_is_durable:
  assumes "supervisor_inv (gv_serde ge) (lv_db (gt_live g))"
    and "gateway_dispatch ge request g = (r, g')" "gt_turns g' \<noteq> gt_turns g"
  shows "r = Ok () \<and> (\<exists>params prompt result. gq_method request = ''prompt.submit'' \<and> json_as_object (gq_params request) = Some params
     \<and> param_str ''text'' params = Some prompt \<and> trim prompt \<noteq> []
     \<and> frames_sent g' = frames_sent g @ [gateway_success (gq_id request) result] \<and> durable_prompt ge prompt g g')"
proof -
  have "\<not> request_answered (gq_id request) g r g'" using assms(3) by (simp add: request_answered_def same_tasks_def)
  then have accepted: "r = Ok ()" "\<exists>result. frames_sent g' = frames_sent g @ [gateway_success (gq_id request) result]"
    using gateway_dispatch_cases [OF assms(2)] by (auto simp: prompt_accepted_def)
  have replied: "gt_turns h' = gt_turns h" if "reply_failure request_id error h = (q, h')" for request_id error q and h h' :: "'a gateway"
    using reply_answered(1) [OF that] by (simp add: request_answered_def same_tasks_def)
  have sent: "gt_turns h' = gt_turns h" if "gateway_send out h = (q, h')" for out q and h h' :: "'a gateway"
    using send_cases(1) [OF that] by (simp add: same_tasks_def)
  have called: "gt_turns h' = gt_turns h" if "gateway_call ge name params h = (q, h')" for name params q and h h' :: "'a gateway"
    using movesD [OF quiet_call that] by (simp add: quiet_def same_tasks_def)
  have both: "gt_turns k = gt_turns h"
    if "gateway_call ge name params h = (q, h')" "reply_failure request_id error h' = (p, k) \<or> gateway_send out h' = (p, k)"
    for name params q request_id error out p and h h' k :: "'a gateway"
    using called [OF that(1)] that(2) replied sent by metis
  obtain params where submit: "json_as_object (gq_params request) = Some params" "gq_method request = ''prompt.submit''"
    "gateway_submit ge (gq_id request) params g = (r, g')"
    using assms(2,3)
    by (auto simp: gateway_dispatch_def act_bind_def act_attempt_def split: if_splits option.splits sum.splits prod.splits
        dest: replied both)
  show ?thesis
    by (rule gateway_submit_durable [OF submit(3) assms(1,3)]) (use accepted submit in blast)
qed

section \<open>A client for the examples\<close>

definition gateway_idle :: "unit gateway" where
  "gateway_idle = gateway_sample\<lparr>gt_live := (gt_live gateway_sample)\<lparr>lv_db := live_sessions\<rparr>, gt_busy := {}, gt_controls := (\<lambda>_. None),
     gt_channels := [], gt_turns := []\<rparr>"

lemma idle_facts:
  "supervisor_inv live_serde (lv_db (gt_live gateway_idle))" "gv_serde gateway_env_sample = live_serde" "lv_db (gt_live gateway_idle) = live_sessions"
  by (simp_all add: gateway_idle_def gateway_sample_def live_sessions_facts gateway_env_sample_def)

lemma sample_turn_name: "fresh_turn_id gateway_env_sample = Inr (ForegroundTurnId ''turn-1-a'')"
proof -
  have "unpadded ''turn-1-a''" by (rule unpadded_plain) (simp_all add: plain_char_def)
  moreover have "show_nat 1 = ''1''" by code_simp
  moreover have "show_hex 10 = ''a''" by code_simp
  ultimately show ?thesis
    by (simp add: fresh_turn_id_def fresh_name_def gateway_env_sample_def map_err_def id_new_ok)
qed

definition fresh_sample_spec :: foreground_turn_spec where
  "fresh_sample_spec = Foreground_Store.sample_spec\<lparr>fs_turn_id := ForegroundTurnId ''turn-1-a''\<rparr>"

lemma idle_start: "\<exists>d. start_with_deliveries live_serde fresh_sample_spec ''q'' (OwnerGeneration 1) [] 3 live_sessions
    = (Ok (started_turn fresh_sample_spec ''q'' (OwnerGeneration 1) 3), d)"
proof -
  have stores: "stores_inv live_serde live_sessions" using live_sessions_facts(1) by (simp add: supervisor_inv_def)
  have "startable live_serde live_sessions fresh_sample_spec ''q'' (OwnerGeneration 1) 3"
    using unpadded_trim_nonempty [of "''q''"]
    by (simp add: startable_def fresh_sample_spec_def Foreground_Store.sample_spec_def live_sessions_facts new_session_def i64_max_def unpadded_plain
        plain_char_def sql_nonempty_def)
  moreover have "spec_ids fresh_sample_spec"
    by (simp add: spec_ids_def fresh_sample_spec_def Foreground_Store.sample_spec_def unpadded_plain plain_char_def)
  moreover have "claims_owned live_sessions (fs_session_id fresh_sample_spec) (uint (3 :: u64)) []" by (simp add: claims_owned_def)
  ultimately show ?thesis using start_ok(1) [OF stores] by blast
qed

lemma no_completions:
  assumes "db_completions d = []"
  shows "available_completions_for sx parent 3 completion_delivery_limit d = (Inr [], d)"
proof -
  have "i64_of_u64 3 = Some 3" "i64_of_usize 32 = Some 32" by (simp_all add: i64_of_u64_def i64_of_usize_def i64_max_def)
  then show ?thesis
    using assms by (simp add: available_completions_for_def act_bind_def act_lift_def act_try_def ensure_def completion_delivery_limit_def
        delegation_to_i64_def delegation_usize_to_i64_def)
qed

definition gateway_marked :: "unit gateway" where
  "gateway_marked = gateway_idle\<lparr>gt_busy := {''p''}\<rparr>"

lemma marked_db: "lv_db (gt_live gateway_marked) = live_sessions"
  by (simp add: gateway_marked_def gateway_idle_def)

lemma marked_live: "on_live (live_db m) gateway_marked = (Inr x, gateway_marked)" if "m live_sessions = (Inr x, live_sessions)"
  using that by (simp add: on_live_def act_zoom_def live_db_def marked_db)

lemma marked_claims: "claim_parent_completions gateway_env_sample (SessionId ''p'') 3 gateway_marked = (Ok [], gateway_marked)"
proof -
  have "on_live (on_delegations (available_completions_for live_serde (SessionId ''p'') 3 completion_delivery_limit)) gateway_marked
      = (Inr [], gateway_marked)"
    using no_completions [OF live_sessions_facts(4)]
    by (simp add: on_live_def act_zoom_def on_delegations_def act_map_err_def live_db_def map_err_def marked_db)
  moreover have "on_live (open_delegations (gv_live gateway_env_sample)) gateway_marked = (Inr (), gateway_marked)"
    by (simp add: on_live_def open_delegations_def act_lift_def act_zoom_def) (simp add: gateway_env_sample_def agent_env_sample_def)
  ultimately show ?thesis by (simp add: claim_parent_completions_def act_bind_def idle_facts(2) act_return_def)
qed

lemma idle_turns: "gt_turns gateway_idle = []" "gt_busy gateway_idle = {}" "\<not> gt_busy_poisoned gateway_idle"
  by (simp_all add: gateway_idle_def gateway_sample_def)

lemma idle_submitted:
  "\<exists>g' t. gateway_dispatch gateway_env_sample submit_sample gateway_idle = (Ok (), g') \<and> gt_turns g' = [t]
     \<and> gk_session t = SessionId ''p'' \<and> gk_phase t = PhaseSpawned"
proof -
  let ?ge = gateway_env_sample and ?sid = "SessionId ''p''" and ?turn = "started_turn fresh_sample_spec ''q'' (OwnerGeneration 1) 3"
  let ?snapshot = "new_session (Session_Store.sample_config ''p'')"
  let ?params = "btree_of [(''session_id'', JString ''p''), (''text'', JString ''q'')]"
  have spec: "\<lparr>fs_turn_id = ForegroundTurnId ''turn-1-a'', fs_session_id = ?sid, fs_prompt = ''q''\<rparr> = fresh_sample_spec"
    by (simp add: fresh_sample_spec_def Foreground_Store.sample_spec_def)
  obtain d where "start_with_deliveries live_serde fresh_sample_spec ''q'' (OwnerGeneration 1) [] 3 live_sessions = (Inr ?turn, d)"
    using idle_start by blast
  then have start: "on_live (on_turns ?ge (start_with_deliveries live_serde fresh_sample_spec ''q'' (OwnerGeneration 1) [] 3)) gateway_marked
      = (Inr ?turn, gateway_marked\<lparr>gt_live := (gt_live gateway_marked)\<lparr>lv_db := d\<rparr>\<rparr>)"
    by (simp add: on_live_def act_zoom_def on_turns_def act_bind_def act_lift_def live_db_def marked_db) (simp add: gateway_env_sample_def act_zoom_def marked_db)
  obtain g' t where accept: "accept_turn ?ge (jnat 7) ?sid ?turn 0 (gateway_marked\<lparr>gt_live := (gt_live gateway_marked)\<lparr>lv_db := d\<rparr>\<rparr>) = (Ok (), g')"
    "gt_turns g' = [t]" "gk_session t = ?sid" "gk_phase t = PhaseSpawned"
    by (simp add: accept_turn_def gateway_marked_def gateway_idle_def gateway_sample_def Let_def gateway_send_def on_live_def on_writer_def
        act_zoom_def writer_send_def take_control_def)
  have pretty: "provider_prompt (gv_pretty ?ge) ''q'' [] = Inr ''q''" by (simp add: provider_prompt_def)
  have generation: "ss_owner_generation ?snapshot = OwnerGeneration 1" by (simp add: new_session_def)
  have "start_submitted ?ge (jnat 7) ?sid ''q'' (ForegroundTurnId ''turn-1-a'') 3 ?snapshot gateway_marked = (Ok (), g')"
    using marked_claims pretty start accept(1)
    by (simp add: start_submitted_def act_bind_def act_attempt_def idle_facts(2) spec generation delivery_pairs_def)
  moreover have "on_live (live_db (session_load live_serde ?sid)) gateway_marked = (Inr ?snapshot, gateway_marked)"
  proof (rule marked_live)
    have "sessions_of live_serde live_sessions ?sid = Some ?snapshot" by (simp add: live_sessions_facts(2))
    then show "session_load live_serde ?sid live_sessions = (Inr ?snapshot, live_sessions)"
      by (auto simp: session_load_def act_try_def sessions_of_def split: sum.splits)
  qed
  moreover have "is_ok (settings_for_host (sx_debug_str live_serde) ?snapshot (gv_settings ?ge))"
    by (simp add: settings_for_host_def settings_from_snapshot_def engine_from_config_def provider_from_adapter_def new_session_def
        Session_Store.sample_config_def direct_from_config_def gateway_env_sample_def sample_settings_def ensure_def is_ok_iff)
  moreover have "ae_open_sessions (ve_agent (gv_live ?ge)) = None" by (simp add: gateway_env_sample_def agent_env_sample_def)
  ultimately have "submit_busy ?ge (jnat 7) ?sid ''q'' (ForegroundTurnId ''turn-1-a'') 3 gateway_marked = (Ok (), g')"
    by (auto simp: submit_busy_def act_bind_def [of "act_attempt _"] act_attempt_def idle_facts(2) is_ok_iff)
  moreover have "gateway_dispatch ?ge submit_sample gateway_idle
      = submit_busy ?ge (jnat 7) ?sid ''q'' (ForegroundTurnId ''turn-1-a'') 3 gateway_marked"
  proof -
    have typed: "trim ''q'' \<noteq> []" by (rule unpadded_trim_nonempty) (simp_all add: unpadded_plain plain_char_def)
    have named: "map_err f (session_id_new ''p'') = Inr ?sid" for f :: "id_error \<Rightarrow> rpc_error"
      using unpadded_plain [of "''p''"] by (simp add: map_err_def plain_char_def id_new_ok)
    have "session_param ?params = Inr ''p''" "param_str ''text'' ?params = Some ''q''"
      by (simp_all add: session_param_def non_empty_param_def non_empty_def param_str_def btree_get_of ok_or_def)
    moreover have "gv_now_ms ?ge 0 = Ok 3" by (simp add: gateway_env_sample_def)
    ultimately show ?thesis
      by (simp add: gateway_dispatch_def submit_sample_def json_rpc_version_def jobject_def gateway_submit_def
          act_bind_def act_lift_def act_try_def ensure_def act_read_def act_update_def sample_turn_name gateway_marked_def named typed idle_turns)
  qed
  ultimately show ?thesis using accept(2-4) by auto
qed

theorem acknowledged_prompt_is_durable_witness:
  "\<exists>g'. gateway_dispatch gateway_env_sample submit_sample gateway_idle = (Ok (), g') \<and> durable_prompt gateway_env_sample ''q'' gateway_idle g'"
proof -
  obtain g' where run: "gateway_dispatch gateway_env_sample submit_sample gateway_idle = (Ok (), g')" "gt_turns g' \<noteq> gt_turns gateway_idle"
    using idle_submitted idle_turns(1) by fastforce
  have "supervisor_inv (gv_serde gateway_env_sample) (lv_db (gt_live gateway_idle))" using idle_facts by simp
  from acknowledged_prompt_is_durable [OF this run] show ?thesis
    using run(1) by (auto simp: submit_sample_def jobject_def param_str_def btree_get_of)
qed

theorem one_turn_per_session_witness:
  "\<exists>g'. gateway_runs gateway_idle g' \<and> is_busy ''p'' g' \<and> (\<forall>key. key \<noteq> ''p'' \<longrightarrow> \<not> is_busy key g')"
proof -
  obtain g' t where run: "gateway_dispatch gateway_env_sample submit_sample gateway_idle = (Ok (), g')" "gt_turns g' = [t]"
    "gk_session t = SessionId ''p''" "gk_phase t = PhaseSpawned"
    using idle_submitted by blast
  have "trim ''x'' = ''x''" using unpadded_plain [of "''x''"] by (simp add: unpadded_def plain_char_def)
  moreover have "gv_decode gateway_env_sample ''x'' = Inr submit_sample" by (simp add: gateway_env_sample_def)
  moreover have "g'\<lparr>gt_turns := [t]\<rparr> = g'" using run(2) by simp
  ultimately have "gateway_line gateway_env_sample ''x'' gateway_idle = (Ok (), g')"
    using run by (simp add: gateway_line_def act_bind_def act_update_def)
  from runs_line [OF runs_refl this] have reached: "gateway_runs gateway_idle g'" .
  from one_turn_per_session [OF this idle_turns] have "is_busy key g' \<longleftrightarrow> key = ''p''" for key
    using run by (auto simp: holds_session_def)
  then show ?thesis using reached by blast
qed

end
