(* ===== verification/Background_Properties.thy ===== *)
theory Background_Properties
  imports Gateway_Properties
begin

text \<open>
  What the worker of a background delegation guarantees: a child ends as it is recorded. Its session gets one turn exactly when
  its delegation is recorded as completed, and a requested cancellation wins over everything the child did.
\<close>

section \<open>The end of a delegation\<close>

definition endings_ok :: "serde \<Rightarrow> bool" where
  "endings_ok sx \<longleftrightarrow> faithful (sx_delegation_terminal sx) \<and> faithful (sx_completion sx)"

lemma settle_encodes:
  assumes "settle_delegation sx k authority raw outcome at d = (Inr m, d')" "shown_row sx raw s" "endings_ok sx"
  shows "encodes (sx_delegation_terminal sx) outcome" "encodes (sx_completion sx) (outcome_completion (settled outcome at s))"
proof -
  have "is_ok (cd_enc (sx_delegation_terminal sx) outcome)" "is_ok (cd_enc (sx_completion sx) (outcome_completion (settled outcome at s)))"
    using assms(1)
    by (auto simp: settle_delegation_def act_bind_ok act_lift_def completion_from_raw_eq [OF assms(2)] insert_completion_def is_ok_iff
        map_err_def split: sum.splits)
  then show "encodes (sx_delegation_terminal sx) outcome" "encodes (sx_completion sx) (outcome_completion (settled outcome at s))"
    using assms(3) by (simp_all add: endings_ok_def faithful_def)
qed

lemma finish_cases:
  assumes inv: "supervisor_inv sx d" and enc: "endings_ok sx"
    and run: "delegation_finish sx k expected token outcome at d = (r, d')"
  shows "(\<exists>e. r = Inl e) \<and> d' = d
    \<or> (\<exists>s m. delegations_of sx d k = Some s \<and> r = Inr m \<and> supervisor_inv sx d' \<and> legal_outcome s outcome
         \<and> delegations_of sx d' = (delegations_of sx d)(k \<mapsto> settled outcome at s) \<and> sessions_of sx d' = sessions_of sx d
         \<and> turns_of sx d' = turns_of sx d)"
proof (cases r)
  case (Inl e)
  then show ?thesis
    using run by (auto simp: delegation_finish_def Let_def act_bind_def act_lift_def split: sum.splits dest: transaction_rollback)
next
  case (Inr m)
  have c: "children_inv sx d" "delegations_inv sx d" using inv by (simp_all add: supervisor_inv_def children_inv_def)
  obtain raw d1 where opened: "open_delegation k \<lparr>da_owner_generation = expected, da_fencing_token = token\<rparr> outcome at d = (Inr raw, d1)"
    and settle: "settle_delegation sx k \<lparr>da_owner_generation = expected, da_fencing_token = token\<rparr> raw outcome at d1 = (Inr m, d')"
    using run Inr by (auto simp: delegation_finish_def Let_def act_bind_ok transaction_ok act_lift_def)
  obtain s where s: "delegations_of sx d k = Some s" "shown_row sx raw s"
    using open_delegation_Inr [OF c(2) opened] by metis
  have guard: "finishable s \<lparr>da_owner_generation = expected, da_fencing_token = token\<rparr> outcome at"
    using finish_err [OF c(1), of k expected token outcome at] s(1) run Inr by fastforce
  note enc' = settle_encodes [OF settle s(2) enc]
  note ok = finish_ok [OF c(1) s(1) guard enc']
  have "end_encodable sx d k outcome at" using enc' s(1) by (simp add: end_encodable_def encodable_end_def settled_def)
  then have "supervisor_inv sx d'" using store_ok_finish [OF inv _ run] by (simp add: store_ok_def)
  moreover have "d' = settle_in sx k outcome at s d" using ok(1) run by simp
  ultimately show ?thesis
    using Inr s(1) guard ok(3) sessions_frame(1) [of d' d sx] turns_frame(1) [of d' d sx] by (simp add: finishable_def)
qed

lemma complete_child_cases:
  assumes inv: "supervisor_inv sx d" and enc: "endings_ok sx" "serde_ok sx"
    and run: "complete_child sx now k authority generation messages summary at d = (r, d')"
  shows "(\<exists>e. r = Inl e) \<and> d' = d
    \<or> (\<exists>s c m. delegations_of sx d k = Some s \<and> sessions_of sx d (child_session s) = Some c \<and> r = Inr m \<and> supervisor_inv sx d'
         \<and> legal_outcome s (DelegationCompleted summary)
         \<and> delegations_of sx d' = (delegations_of sx d)(k \<mapsto> settled (DelegationCompleted summary) at s)
         \<and> sessions_of sx d' = (sessions_of sx d)(child_session s \<mapsto> extended c messages))"
proof (cases r)
  case (Inl e)
  then show ?thesis
    using run by (auto simp: complete_child_def Let_def act_bind_def [of "act_lift _"] act_lift_def split: sum.splits dest: transaction_rollback)
next
  case (Inr m)
  have c: "delegations_inv sx d" using inv by (simp add: supervisor_inv_def children_inv_def)
  obtain raw d1 sid u d2 where opened: "open_delegation k authority (DelegationCompleted summary) at d = (Inr raw, d1)"
    and append: "append_turn_in_transaction sx now sid generation messages d1 = (Inr u, d2)"
    and settle: "settle_delegation sx k authority raw (DelegationCompleted summary) at d2 = (Inr m, d')"
    using run Inr by (auto simp: complete_child_def Let_def act_bind_ok transaction_ok act_lift_def act_map_err_ok)
  obtain s where s: "delegations_of sx d k = Some s" "shown_row sx raw s" using open_delegation_Inr [OF c opened] by metis
  have "session_append sx now sid generation messages d1 = (Inr u, d2)" using append by (simp add: session_append_def transaction_ok)
  then have ms: "list_all (storable_message sx) messages" by (rule appended_messages_storable [OF enc(2)])
  have guard: "finishable s authority (DelegationCompleted summary) at" "appendable (sessions_of sx d (child_session s)) generation messages"
    using complete_child_err [OF inv, of k authority summary at generation messages now] s(1) run Inr by fastforce+
  obtain child where child: "sessions_of sx d (child_session s) = Some child" "appendable (Some child) generation messages"
    using guard(2) by (metis appendable_Some)
  have ms': "\<forall>m \<in> set messages. storable_message sx m" using ms by (simp add: list_all_iff)
  note ok = complete_child_ok [OF inv s(1) guard(1) child ms' settle_encodes [OF settle s(2) enc(1)], of now]
  show ?thesis using ok run Inr s(1) child(1) guard(1) by (simp add: finishable_def)
qed

section \<open>What happens while the child runs\<close>

text \<open>The session of the child is left alone, and so is the specification of its delegation.\<close>

definition child_kept :: "serde \<Rightarrow> delegation_snapshot \<Rightarrow> database \<Rightarrow> database \<Rightarrow> bool" where
  "child_kept sx claim d d' \<longleftrightarrow> (supervisor_inv sx d \<longrightarrow> supervisor_inv sx d'
     \<and> (\<forall>c. sessions_of sx d (child_session claim) = Some c \<longrightarrow> sessions_of sx d' (child_session claim) = Some c)
     \<and> (\<forall>s. delegations_of sx d (ds_delegation_id (dn_spec claim)) = Some s \<longrightarrow>
          (\<exists>t. delegations_of sx d' (ds_delegation_id (dn_spec claim)) = Some t \<and> dn_spec t = dn_spec s)))"

interpretation kept: frame "child_kept sx claim"
  by unfold_locales (auto simp: child_kept_def)

lemma tools_keep_child: "tools_frame sx d d' \<Longrightarrow> child_kept sx claim d d'"
  by (auto simp: tools_frame_def child_kept_def map_le_def dom_def)

lemma heartbeat_keeps_child:
  assumes "delegation_heartbeat sx k expected token now lease d = (r, d')"
  shows "child_kept sx claim d d'"
proof (cases "supervisor_inv sx d")
  case True
  then have c: "delegations_inv sx d" by (simp add: supervisor_inv_def children_inv_def)
  show ?thesis
  proof (cases "extendable (delegations_of sx d k) \<lparr>da_owner_generation = expected, da_fencing_token = token\<rparr> now lease")
    case True
    then obtain s where s: "delegations_of sx d k = Some s"
      "extendable (Some s) \<lparr>da_owner_generation = expected, da_fencing_token = token\<rparr> now lease"
      by (cases "delegations_of sx d k") (simp_all add: extendable_def)
    note ok = heartbeat_ok [OF c s]
    have "supervisor_inv sx d'" using store_ok_heartbeat [OF \<open>supervisor_inv sx d\<close> assms] by (simp add: store_ok_def)
    moreover have "sessions_of sx d' = sessions_of sx d" using ok(1) assms by (intro sessions_frame) auto
    moreover have "delegations_of sx d' = (delegations_of sx d)(k \<mapsto> extended_lease now lease s)" using ok(1,3) assms by simp
    ultimately show ?thesis using s(1) by (auto simp: child_kept_def extended_lease_def)
  next
    case False
    then show ?thesis using heartbeat_err [OF c False] assms by auto
  qed
qed (simp add: child_kept_def)

text \<open>The hypotheses on a worker: faithful codecs, and an aborted turn that did part of the work of its tools.\<close>

definition worker_ok :: "('h, 'o) worker_env \<Rightarrow> bool" where
  "worker_ok we \<longleftrightarrow> serde_ok (ae_serde (ve_agent (bw_live we))) \<and> endings_ok (ae_serde (ve_agent (bw_live we))) \<and> drops_part (bw_live we)
     \<and> (\<forall>s. live_frame (ae_serde (ve_agent (bw_live we))) s (bw_dropped we s))"

definition others_keep :: "serde \<Rightarrow> delegation_snapshot \<Rightarrow> child_event list \<Rightarrow> bool" where
  "others_keep sx claim events \<longleftrightarrow> (\<forall>f d. ChildOthers f \<in> set events \<longrightarrow> child_kept sx claim d (f d))"

lemma load_same:
  "act_bind (open_delegations ve) (\<lambda>_. worker_load we claim) s = (r, s') \<Longrightarrow> s' = s"
  "worker_load we claim s = (r, s') \<Longrightarrow> s' = s"
  by (auto simp: act_bind_def open_delegations_def act_lift_def worker_load_def on_delegations_def act_map_err_def live_db_def act_zoom_def
      delegation_load_def act_try_def load_delegation_def split: option.splits sum.splits prod.splits)

lemma beat_keeps_child:
  assumes "act_bind (act_lift now) (\<lambda>now_ms. act_bind (open_delegations ve) (\<lambda>_. on_delegations
     (delegation_heartbeat sx k generation token now_ms (lease_deadline now_ms)))) s = (r, s')"
  shows "child_kept sx claim (lv_db s) (lv_db s')"
proof (cases now)
  case (Inr t)
  obtain q d where "delegation_heartbeat sx k generation token t (lease_deadline t) (lv_db s) = (q, d)" by fastforce
  then show ?thesis
    using assms Inr heartbeat_keeps_child [of sx k generation token t "lease_deadline t" "lv_db s" q d claim]
    by (auto simp: act_bind_def act_lift_def open_delegations_def on_delegations_def act_map_err_def live_db_def act_zoom_def split: option.splits)
qed (use assms in \<open>simp add: act_bind_def act_lift_def\<close>)

lemma child_loop_cases:
  assumes ok: "worker_ok we"
    and turn: "\<And>s r s'. turn s = (r, s') \<Longrightarrow> child_kept (ae_serde (ve_agent (bw_live we))) claim (lv_db s) (lv_db s') \<and> (\<forall>out. r = Inr out \<longrightarrow> Q out)"
  shows "others_keep (ae_serde (ve_agent (bw_live we))) claim events \<Longrightarrow> child_loop we claim token turn events generation s = (r, s') \<Longrightarrow>
     child_kept (ae_serde (ve_agent (bw_live we))) claim (lv_db s) (lv_db s') \<and> (\<forall>held out. r = Inr (held, ChildOutcome (Inr out)) \<longrightarrow> Q out)"
proof (induction events arbitrary: generation s)
  case Nil
  then show ?case using turn by (auto split: prod.splits)
next
  case (Cons event events)
  let ?sx = "ae_serde (ve_agent (bw_live we))"
  have dropped: "child_kept ?sx claim (lv_db t) (lv_db (bw_dropped we t))" for t
    using ok by (intro tools_keep_child) (simp add: worker_ok_def live_frame_def)
  have later: "others_keep ?sx claim events" using Cons.prems(1) by (simp add: others_keep_def)
  note IH = Cons.IH [OF later]
  show ?case
  proof (cases event)
    case ChildPolled
    obtain q t where q: "act_bind (open_delegations (bw_live we)) (\<lambda>_. worker_load we claim) s = (q, t)" by fastforce
    have t: "t = s" using q by (rule load_same(1))
    show ?thesis
    proof (cases "\<exists>snapshot. q = Inr snapshot \<and> cancellation_reason snapshot = None")
      case True
      then have "child_loop we claim token turn events generation s = (r, s')" using Cons.prems(2) ChildPolled q t by auto
      then show ?thesis by (rule IH)
    next
      case False
      then have "s' = bw_dropped we s \<and> (\<forall>held out. r \<noteq> Inr (held, ChildOutcome (Inr out)))"
        using Cons.prems(2) ChildPolled q t by (cases q) (auto simp: abandon_child_def split: option.splits)
      then show ?thesis using dropped by simp
    qed
  next
    case (ChildBeat now)
    obtain q t where q: "act_bind (act_lift now) (\<lambda>now_ms. act_bind (open_delegations (bw_live we)) (\<lambda>_.
             on_delegations (delegation_heartbeat ?sx (ds_delegation_id (dn_spec claim)) generation token now_ms (lease_deadline now_ms)))) s = (q, t)"
      by fastforce
    note beat = beat_keeps_child [OF q, of claim]
    show ?thesis
    proof (cases "\<exists>snapshot. q = Inr snapshot \<and> cancellation_reason snapshot = None")
      case True
      then obtain held where "child_loop we claim token turn events held t = (r, s')" using Cons.prems(2) ChildBeat q by auto
      from IH [OF this] show ?thesis using beat kept.trans by blast
    next
      case False
      then have "s' = bw_dropped we t \<and> (\<forall>held out. r \<noteq> Inr (held, ChildOutcome (Inr out)))"
        using Cons.prems(2) ChildBeat q by (cases q) (auto simp: abandon_child_def split: option.splits)
      then show ?thesis using dropped [of t] beat kept.trans by blast
    qed
  next
    case (ChildSignalled reason)
    then show ?thesis using Cons.prems(2) dropped [of s] IH by (cases reason) (auto simp: abandon_child_def)
  next
    case (ChildOthers f)
    have "child_kept ?sx claim (lv_db s) (f (lv_db s))" using Cons.prems(1) ChildOthers by (simp add: others_keep_def)
    then show ?thesis using Cons.prems(2) ChildOthers IH [of generation "s\<lparr>lv_db := f (lv_db s)\<rparr>"] kept.trans by auto
  qed
qed

section \<open>The verdict\<close>

definition child_ended :: "serde \<Rightarrow> delegation_snapshot \<Rightarrow> session_snapshot \<Rightarrow> string + unit \<Rightarrow> database \<Rightarrow> bool" where
  "child_ended sx claim child r d \<longleftrightarrow> supervisor_inv sx d \<and>
     (case r of
        Inl e \<Rightarrow> sessions_of sx d (child_session claim) = Some child
      | Inr u \<Rightarrow> \<exists>before at outcome. delegations_of sx d (ds_delegation_id (dn_spec claim)) = Some (settled outcome at before)
          \<and> dn_spec before = dn_spec claim \<and> legal_outcome before outcome
          \<and> (case outcome of
               DelegationCompleted summary \<Rightarrow> \<exists>between reasoning replay. sessions_of sx d (child_session claim)
                 = Some (extended child (User child_prompt None # between @ [Assistant summary reasoning replay]))
             | _ \<Rightarrow> sessions_of sx d (child_session claim) = Some child))"

text \<open>The stores while the worker decides: nothing has happened to the session of the child.\<close>

definition child_open :: "serde \<Rightarrow> delegation_snapshot \<Rightarrow> session_snapshot \<Rightarrow> database \<Rightarrow> bool" where
  "child_open sx claim child d \<longleftrightarrow> supervisor_inv sx d \<and> sessions_of sx d (child_session claim) = Some child
     \<and> (\<exists>t. delegations_of sx d (ds_delegation_id (dn_spec claim)) = Some t \<and> dn_spec t = dn_spec claim)"

lemma child_open_kept: "child_open sx claim child d \<Longrightarrow> child_kept sx claim d d' \<Longrightarrow> child_open sx claim child d'"
  by (auto simp: child_open_def child_kept_def)

lemma failed_child: "child_open sx claim child d \<Longrightarrow> child_ended sx claim child (Inl e) d"
  by (simp add: child_open_def child_ended_def)

lemma child_completedI:
  assumes "supervisor_inv sx d" "delegations_of sx d (ds_delegation_id (dn_spec claim)) = Some (settled (DelegationCompleted summary) at before)"
    "dn_spec before = dn_spec claim" "legal_outcome before (DelegationCompleted summary)"
    "sessions_of sx d (child_session claim) = Some (extended child (User child_prompt None # between @ [Assistant summary reasoning replay]))"
  shows "child_ended sx claim child (Inr u) d"
  unfolding child_ended_def sum.case using assms
  by (intro conjI exI [of _ before] exI [of _ at] exI [of _ "DelegationCompleted summary"]) (simp_all only: delegation_terminal.case, blast)

lemma child_untouchedI:
  assumes "supervisor_inv sx d" "delegations_of sx d (ds_delegation_id (dn_spec claim)) = Some (settled outcome at before)"
    "dn_spec before = dn_spec claim" "legal_outcome before outcome" "\<forall>summary. outcome \<noteq> DelegationCompleted summary"
    "sessions_of sx d (child_session claim) = Some child"
  shows "child_ended sx claim child (Inr u) d"
  unfolding child_ended_def sum.case using assms
  by (intro conjI exI [of _ before] exI [of _ at] exI [of _ outcome]) (cases outcome; simp)+

lemma worker_finish_cases:
  assumes ok: "worker_ok we" and here: "child_open (ae_serde (ve_agent (bw_live we))) claim child (lv_db s)"
    and outcome: "\<forall>summary. outcome \<noteq> DelegationCompleted summary"
    and run: "worker_finish we claim generation token outcome at s = (r, s')"
  shows "child_ended (ae_serde (ve_agent (bw_live we))) claim child r (lv_db s') \<and> ((\<exists>e. r = Inl e) \<longrightarrow> lv_db s' = lv_db s)"
proof -
  let ?sx = "ae_serde (ve_agent (bw_live we))" and ?k = "ds_delegation_id (dn_spec claim)"
  obtain q d where q: "delegation_finish ?sx ?k generation token outcome at (lv_db s) = (q, d)" by fastforce
  have r: "r = (case q of Inl e \<Rightarrow> Inl (delegation_store_error_text e) | Inr _ \<Rightarrow> Inr ())" "lv_db s' = d"
    using run q by (auto simp: worker_finish_def act_bind_def on_delegations_def act_map_err_def map_err_def live_db_def act_zoom_def
        act_return_def split: sum.splits)
  have inv: "supervisor_inv ?sx (lv_db s)" and child: "sessions_of ?sx (lv_db s) (child_session claim) = Some child"
    using here by (simp_all add: child_open_def)
  obtain t where t: "delegations_of ?sx (lv_db s) ?k = Some t" "dn_spec t = dn_spec claim" using here by (auto simp: child_open_def)
  from finish_cases [OF inv _ q] ok consider (failed) e where "q = Inl e" "d = lv_db s"
    | (done_it) m where "q = Inr m" "supervisor_inv ?sx d" "legal_outcome t outcome"
      "delegations_of ?sx d = (delegations_of ?sx (lv_db s))(?k \<mapsto> settled outcome at t)" "sessions_of ?sx d = sessions_of ?sx (lv_db s)"
    using t(1) by (auto simp: worker_ok_def)
  then show ?thesis
  proof cases
    case failed
    then show ?thesis using r inv child by (simp add: child_ended_def)
  next
    case done_it
    then have "child_ended ?sx claim child (Inr ()) (lv_db s')"
      using r t child outcome by (intro child_untouchedI) simp_all
    then show ?thesis using r done_it(1) by simp
  qed
qed

lemma commit_failed_cases:
  assumes ok: "worker_ok we" and here: "child_open (ae_serde (ve_agent (bw_live we))) claim child (lv_db s)"
    and run: "commit_failed we claim error s = (r, s')"
  shows "child_ended (ae_serde (ve_agent (bw_live we))) claim child r (lv_db s')"
proof -
  obtain q t where load: "worker_load we claim s = (q, t)" by fastforce
  have t: "t = s" using load by (rule load_same(2))
  show ?thesis
  proof (cases "\<exists>e. r = Inl e \<and> s' = s")
    case True
    then show ?thesis using failed_child [OF here] by blast
  next
    case False
    then obtain reason fence generation at where "worker_finish we claim generation fence (DelegationCancelled reason) at s = (r, s')"
      using run load unfolding t
      by (auto simp: commit_failed_def act_bind_def act_lift_def split: sum.splits option.splits prod.splits)
    from worker_finish_cases [OF ok here _ this] show ?thesis by simp
  qed
qed

lemma child_binding_same: "same_stores (lv_db s) (lv_db (persist_child_binding we claim binding s))"
proof (cases binding)
  case (Some b)
  let ?load = "act_bind (open_sessions (bw_live we)) (\<lambda>_. on_sessions (session_load (ae_serde (ve_agent (bw_live we))) (ds_child_session_id (dn_spec claim))))"
  obtain q t where q: "?load s = (q, t)" by fastforce
  then have "lv_db t = lv_db s"
    by (auto simp: act_bind_def open_sessions_def act_lift_def on_sessions_def act_map_err_def live_db_def act_zoom_def session_load_def act_try_def
        split: option.splits)
  moreover have "lv_db (persist_child_binding we claim binding s) = lv_db t \<or>
      (\<exists>g. lv_db (persist_child_binding we claim binding s) = persist_worker_binding (bw_live we) (ds_child_session_id (dn_spec claim)) g (Some b) (lv_db t))"
    using q by (cases q) (auto simp: persist_child_binding_def Let_def Some)
  ultimately show ?thesis by (auto simp: persisted_binding)
qed (simp add: persist_child_binding_def same_stores_def)

lemma commit_outcome_cases:
  assumes ok: "worker_ok we" and here: "child_open (ae_serde (ve_agent (bw_live we))) claim child (lv_db s)"
    and says: "\<And>out summary. outcome = Inr out \<Longrightarrow> completed_response (lo_contract out) = Ok summary \<Longrightarrow>
      says_turn [] child_prompt summary (co_semantic_conversation (lo_contract out))"
    and run: "commit_outcome we claim generation token child_generation at outcome s = (r, s')"
  shows "child_ended (ae_serde (ve_agent (bw_live we))) claim child r (lv_db s')"
proof (cases "and_then outcome (\<lambda>out. and_then (completed_response (lo_contract out)) (\<lambda>summary. Ok (out, summary)))")
  case (Inl error)
  obtain q t where q: "worker_finish we claim generation token (DelegationFailed (normalized_error error)) at s = (q, t)" by fastforce
  note finished = worker_finish_cases [OF ok here _ q]
  show ?thesis
  proof (cases q)
    case (Inl e)
    then have "commit_failed we claim e t = (r, s')"
      using run q \<open>and_then _ _ = _\<close> by (simp add: commit_outcome_def Let_def act_bind_def act_attempt_def)
    moreover have "lv_db t = lv_db s" using finished Inl by simp
    ultimately show ?thesis using commit_failed_cases [OF ok _, of claim child t e r s'] here by simp
  next
    case (Inr u)
    then have "r = q" "s' = t"
      using run q \<open>and_then _ _ = _\<close> by (simp_all add: commit_outcome_def Let_def act_bind_def act_attempt_def act_return_def)
    then show ?thesis using finished by simp
  qed
next
  case (Inr pair)
  let ?sx = "ae_serde (ve_agent (bw_live we))" and ?k = "ds_delegation_id (dn_spec claim)"
  obtain out summary where pair: "pair = (out, summary)" by fastforce
  then have out: "outcome = Inr out" "completed_response (lo_contract out) = Ok summary" using Inr by (auto simp: and_then_eq_Inr)
  obtain q d where q: "complete_child ?sx (ae_unixepoch (ve_agent (bw_live we))) ?k \<lparr>da_owner_generation = generation, da_fencing_token = token\<rparr>
      child_generation (co_semantic_conversation (lo_contract out)) summary at (lv_db s) = (q, d)" by fastforce
  have rest: "(case q of Inl e \<Rightarrow> commit_failed we claim (delegation_store_error_text e)
      | Inr _ \<Rightarrow> act_update (persist_child_binding we claim (lo_worker_binding out))) (s\<lparr>lv_db := d\<rparr>) = (r, s')"
    using run q Inr pair
    by (simp add: commit_outcome_def Let_def act_bind_def act_attempt_def on_delegations_def act_map_err_def map_err_def live_db_def act_zoom_def
        split: sum.splits)
  have inv: "supervisor_inv ?sx (lv_db s)" and known: "sessions_of ?sx (lv_db s) (child_session claim) = Some child"
    using here by (simp_all add: child_open_def)
  obtain t where t: "delegations_of ?sx (lv_db s) ?k = Some t" "dn_spec t = dn_spec claim" using here by (auto simp: child_open_def)
  have oks: "endings_ok ?sx" "serde_ok ?sx" using ok by (simp_all add: worker_ok_def)
  from complete_child_cases [OF inv oks q] show ?thesis
  proof (elim disjE conjE exE)
    fix e
    assume "q = Inl e" "d = lv_db s"
    then show ?thesis using rest commit_failed_cases [OF ok, of claim child "s\<lparr>lv_db := d\<rparr>"] here by simp
  next
    fix t' c m
    assume done_it: "delegations_of ?sx (lv_db s) ?k = Some t'" "sessions_of ?sx (lv_db s) (child_session t') = Some c" "q = Inr m"
      "supervisor_inv ?sx d" "legal_outcome t' (DelegationCompleted summary)"
      "delegations_of ?sx d = (delegations_of ?sx (lv_db s))(?k \<mapsto> settled (DelegationCompleted summary) at t')"
      "sessions_of ?sx d = (sessions_of ?sx (lv_db s))(child_session t' \<mapsto> extended c (co_semantic_conversation (lo_contract out)))"
    have same: "t' = t" "child_session t' = child_session claim" "c = child"
      using done_it(1,2) t known by (auto simp: child_session_def)
    obtain between reasoning replay where turn: "co_semantic_conversation (lo_contract out)
        = User child_prompt None # between @ [Assistant summary reasoning replay]"
      using says_turn_drop [OF says [OF out]] by auto
    have r: "r = Inr ()" and s': "s' = persist_child_binding we claim (lo_worker_binding out) (s\<lparr>lv_db := d\<rparr>)"
      using rest done_it(3) by (simp_all add: act_update_def)
    have "same_stores d (lv_db s')" using child_binding_same [of "s\<lparr>lv_db := d\<rparr>" we claim "lo_worker_binding out"] by (simp add: s')
    note bound = same_stores_keep [OF this]
    have "delegations_of ?sx (lv_db s') ?k = Some (settled (DelegationCompleted summary) at t)" "supervisor_inv ?sx (lv_db s')"
      "sessions_of ?sx (lv_db s') (child_session claim) = Some (extended child (User child_prompt None # between @ [Assistant summary reasoning replay]))"
      using done_it same by (simp_all add: bound turn)
    then show ?thesis unfolding r using done_it(5) same(1) t(2) by (intro child_completedI) simp_all
  qed
qed

lemma finish_execution_cases:
  assumes ok: "worker_ok we" and here: "child_open (ae_serde (ve_agent (bw_live we))) claim child (lv_db s)"
    and says: "\<And>out summary. exit = ChildOutcome (Inr out) \<Longrightarrow> completed_response (lo_contract out) = Ok summary \<Longrightarrow>
      says_turn [] child_prompt summary (co_semantic_conversation (lo_contract out))"
    and run: "finish_execution we claim generation token child_generation exit s = (r, s')"
  shows "child_ended (ae_serde (ve_agent (bw_live we))) claim child r (lv_db s')"
proof (cases "\<exists>e. r = Inl e \<and> s' = s")
  case True
  then show ?thesis using failed_child [OF here] by blast
next
  case False
  note failed = this
  obtain at where at: "bw_completed_ms we = Inr at" "act_bind (open_delegations (bw_live we)) (\<lambda>_.
     case exit of
       ChildCancelled reason \<Rightarrow> worker_finish we claim generation token (DelegationCancelled reason) at
     | ChildOutcome outcome \<Rightarrow>
         act_bind (worker_load we claim) (\<lambda>current.
         case cancellation_reason current of
           Some reason \<Rightarrow> worker_finish we claim generation token (DelegationCancelled reason) at
         | None \<Rightarrow> commit_outcome we claim generation token child_generation at outcome)) s = (r, s')"
    using run failed by (cases "bw_completed_ms we") (auto simp: finish_execution_def act_bind_def act_lift_def)
  have opened: "open_delegations (bw_live we) s = (Inr (), s)"
    using at(2) failed by (auto simp: act_bind_def open_delegations_def act_lift_def split: option.splits)
  note finished = worker_finish_cases [OF ok here]
  show ?thesis
  proof (cases exit)
    case (ChildCancelled reason)
    then show ?thesis using at(2) opened finished [of "DelegationCancelled reason"] by (simp add: act_bind_def)
  next
    case (ChildOutcome outcome)
    obtain q t where load: "worker_load we claim s = (q, t)" by fastforce
    have t: "t = s" using load by (rule load_same(2))
    obtain current where q: "q = Inr current" using at(2) opened ChildOutcome load failed t by (cases q) (auto simp: act_bind_def)
    show ?thesis
    proof (cases "cancellation_reason current")
      case None
      then have "commit_outcome we claim generation token child_generation at outcome s = (r, s')"
        using at(2) opened ChildOutcome load q t by (simp add: act_bind_def)
      then show ?thesis using commit_outcome_cases [OF ok here] says ChildOutcome by blast
    next
      case (Some reason)
      then show ?thesis using at(2) opened ChildOutcome load q t finished [of "DelegationCancelled reason"] by (simp add: act_bind_def)
    qed
  qed
qed


section \<open>A child for the examples\<close>

definition live_delegated :: database where
  "live_delegated = snd (create_with_child live_serde 5 (Session_Store.sample_config ''c'') sample_delegation 1 live_sessions)"

definition live_claimed :: database where
  "live_claimed = snd (delegation_claim live_serde (DelegationId ''d'') (OwnerGeneration 1) (DelegationWorkerId ''w'') 2 9 live_delegated)"

lemma live_delegated_facts:
  "supervisor_inv live_serde live_delegated" "delegations_of live_serde live_delegated (DelegationId ''d'') = Some sample_pending"
  "sessions_of live_serde live_delegated (SessionId ''c'') = Some (new_session (Session_Store.sample_config ''c''))"
  "sessions_of live_serde live_delegated (SessionId ''p'') = Some (new_session (Session_Store.sample_config ''p''))"
proof -
  have plain: "plain_char (CHR ''c'')" by (simp add: plain_char_def)
  have none: "delegations_of live_serde live_sessions = (\<lambda>_. None)"
    using live_sessions_facts(5) by (simp add: fun_eq_iff delegations_of_def delegation_at_def row_at_def)
  have pair: "creatable_pair live_serde live_sessions (Session_Store.sample_config ''c'') sample_delegation 1"
    by (simp add: creatable_pair_def creatable_def live_config(2) [OF plain] valid_delegation_def unused_delegation_def none live_sessions_facts(2)
        sample_delegation_def i64_max_def sample_ids) (simp add: Session_Store.sample_config_def)
  obtain d' where d': "create_with_child live_serde 5 (Session_Store.sample_config ''c'') sample_delegation 1 live_sessions
      = (Inr (new_delegation sample_delegation 1), d')" "supervisor_inv live_serde d'"
    "delegations_of live_serde d' = (delegations_of live_serde live_sessions)(ds_delegation_id sample_delegation \<mapsto> new_delegation sample_delegation 1)"
    "sessions_of live_serde d'
      = (sessions_of live_serde live_sessions)(ds_child_session_id sample_delegation \<mapsto> new_session (Session_Store.sample_config ''c''))"
    by (rule create_with_child_ok [OF live_sessions_facts(1) sample_ids(1) live_config(1) [OF plain] pair])
  then show "supervisor_inv live_serde live_delegated" "delegations_of live_serde live_delegated (DelegationId ''d'') = Some sample_pending"
    "sessions_of live_serde live_delegated (SessionId ''c'') = Some (new_session (Session_Store.sample_config ''c''))"
    "sessions_of live_serde live_delegated (SessionId ''p'') = Some (new_session (Session_Store.sample_config ''p''))"
    by (simp_all add: live_delegated_def sample_pending_def live_sessions_facts(2)) (simp_all add: sample_delegation_def)
qed

lemma live_claimed_facts:
  "supervisor_inv live_serde live_claimed" "sessions_of live_serde live_claimed = sessions_of live_serde live_delegated"
  "delegations_of live_serde live_claimed (DelegationId ''d'') = Some sample_running"
proof -
  have inv: "delegations_inv live_serde live_delegated" using live_delegated_facts(1) by (simp add: supervisor_inv_def children_inv_def)
  have w: "unpadded (delegation_worker_id_str (DelegationWorkerId ''w''))" by (simp add: sample_ids)
  note ok = claim_ok [OF inv live_delegated_facts(2) sample_claimable w]
  have d: "live_claimed = change_delegation (DelegationId ''d'') (claimed_row (uint (owner_generation_get (next_generation sample_pending)))
      (delegation_worker_id_str (DelegationWorkerId ''w'')) 1 (uint (9 :: u64)) (uint (2 :: u64))) live_delegated"
    by (simp only: live_claimed_def ok(1) snd_conv)
  have "delegation_claim live_serde (DelegationId ''d'') (OwnerGeneration 1) (DelegationWorkerId ''w'') 2 9 live_delegated = (Inr sample_running, live_claimed)"
    using ok(1) by (simp only: live_claimed_def sample_running_def) simp
  from store_ok_claim [OF live_delegated_facts(1) w this] show "supervisor_inv live_serde live_claimed" by (simp add: store_ok_def)
  show "sessions_of live_serde live_claimed = sessions_of live_serde live_delegated" by (rule sessions_frame) (simp_all add: d)
  show "delegations_of live_serde live_claimed (DelegationId ''d'') = Some sample_running"
    using ok(3) by (simp only: d sample_running_def) simp
qed

lemma live_claimed_open: "child_open live_serde sample_running (new_session (Session_Store.sample_config ''c'')) live_claimed"
proof -
  have "ds_delegation_id sample_delegation = DelegationId ''d''" "ds_child_session_id sample_delegation = SessionId ''c''"
    by (simp_all add: sample_delegation_def)
  then show ?thesis
    using live_claimed_facts live_delegated_facts(3) by (simp add: child_open_def child_session_def sample_running_simps(4))
qed

definition worker_sample :: "(unit, frame_writer) worker_env" where
  "worker_sample = \<lparr>bw_live = gv_live gateway_env_sample, bw_debug_state = (\<lambda>_. ''state''), bw_completed_ms = Ok 4, bw_retry_ms = Ok 5, bw_dropped = id\<rparr>"


end
