(* ===== verification/Gateway_Delegations.thy ===== *)
theory Gateway_Delegations
  imports Gateway_Clients Background_Properties
begin

text \<open>
  The requests of a client about background delegations: they reach only the delegations of the session they name, and a
  cancellation is durable before it is acknowledged.
\<close>

section \<open>A cancellation in the database\<close>

lemma cancel_pending_encodes:
  assumes "cancel_pending sx k expected reason at raw d = (Inr u, d')" "shown_row sx raw s" "endings_ok sx"
  shows "encodes (sx_delegation_terminal sx) (DelegationCancelled reason)"
    "encodes (sx_completion sx) (outcome_completion (settled (DelegationCancelled reason) at s))"
proof -
  let ?o = "DelegationCancelled reason"
  have "is_ok (cd_enc (sx_delegation_terminal sx) ?o)" "is_ok (cd_enc (sx_completion sx) (outcome_completion (settled ?o at s)))"
    using assms(1)
    by (auto simp: cancel_pending_def Let_def act_bind_ok act_lift_def completion_from_raw_eq [OF assms(2)] insert_completion_def is_ok_iff
        map_err_def split: sum.splits)
  then show "encodes (sx_delegation_terminal sx) ?o" "encodes (sx_completion sx) (outcome_completion (settled ?o at s))"
    using assms(3) by (simp_all add: endings_ok_def faithful_def)
qed

text \<open>A pending delegation whose end cannot be written is left alone; a running one needs no encoding.\<close>

lemma cancel_encodes:
  assumes inv: "children_inv sx d" and enc: "endings_ok sx" and s: "delegations_of sx d k = Some s" "dn_state s = DelegationPending"
  obtains "encodes (sx_delegation_terminal sx) (DelegationCancelled reason)"
      "encodes (sx_completion sx) (outcome_completion (settled (DelegationCancelled reason) at s))"
    | e where "delegation_cancel sx k expected reason at d = (Inl e, d)"
proof -
  have dinv: "delegations_inv sx d" using inv by (simp add: children_inv_def)
  obtain raw where raw: "delegation_at d k = Some raw" "shown_row sx raw s" by (rule shown_row [OF dinv s(1)])
  have pending: "dr_state raw = ''pending''" using row_states(1) [OF raw(2)] s(2) by simp
  show ?thesis
  proof (cases "\<exists>u d1. cancel_pending sx k expected reason at raw d = (Inr u, d1)")
    case True
    then show ?thesis using cancel_pending_encodes [OF _ raw(2) enc] that(1) by blast
  next
    case False
    then obtain e d1 where "cancel_pending sx k expected reason at raw d = (Inl e, d1)" by (metis prod.exhaust sum.exhaust)
    then have "\<exists>e. delegation_cancel sx k expected reason at d = (Inl e, d)"
      using raw(1) pending
      by (auto simp: delegation_cancel_def act_bind_def act_lift_def transaction_def load_delegation_def act_try_def delegation_at_def split: sum.splits)
    then show ?thesis using that(2) by blast
  qed
qed

lemma cancel_cases:
  assumes inv: "supervisor_inv sx d" and enc: "endings_ok sx"
    and run: "delegation_cancel sx k expected reason at d = (r, d')"
  shows "(\<exists>e. r = Inl e) \<and> d' = d
    \<or> (\<exists>s t. delegations_of sx d k = Some s \<and> cancel_result expected reason at s = Some t \<and> r = Inr t \<and> supervisor_inv sx d'
         \<and> delegations_of sx d' = (delegations_of sx d)(k \<mapsto> t) \<and> sessions_of sx d' = sessions_of sx d \<and> turns_of sx d' = turns_of sx d)"
proof -
  have c: "children_inv sx d" using inv by (simp add: supervisor_inv_def)
  show ?thesis
  proof (cases "\<exists>s t. delegations_of sx d k = Some s \<and> cancel_result expected reason at s = Some t")
    case False
    then show ?thesis using cancel_err [OF c, of k expected reason at] run by fastforce
  next
    case True
    then obtain s t where s: "delegations_of sx d k = Some s" "cancel_result expected reason at s = Some t" by blast
    show ?thesis
    proof (cases "\<exists>e. delegation_cancel sx k expected reason at d = (Inl e, d)")
      case True
      then show ?thesis using run by auto
    next
      case False
      have e: "encodes (sx_delegation_terminal sx) (DelegationCancelled reason)"
        "encodes (sx_completion sx) (outcome_completion (settled (DelegationCancelled reason) at s))" if "dn_state s = DelegationPending"
        using cancel_encodes [OF c enc s(1) that] False by blast+
      obtain d2 where ok: "delegation_cancel sx k expected reason at d = (Inr t, d2)" "children_inv sx d2"
        "delegations_of sx d2 = (delegations_of sx d)(k \<mapsto> t)" "db_sessions d2 = db_sessions d" "db_messages d2 = db_messages d"
        "db_turns d2 = db_turns d" "keeps_posted d d2"
        using cancel_ok [OF c s e] by metis
      then have d2: "d' = d2" "r = Inr t" using run by simp_all
      have "supervisor_inv sx d'"
        using store_ok_delegation [OF inv ok(2,3,7,4-6) s(1) cancelled_evolves [OF s(2)]] d2 by (simp add: store_ok_def)
      moreover have "sessions_of sx d' = sessions_of sx d" "turns_of sx d' = turns_of sx d"
        using ok(4-6) d2 by (auto intro: sessions_frame turns_frame)
      ultimately show ?thesis using s ok(3) d2 by blast
    qed
  qed
qed

lemma cancel_result_requested:
  "cancel_result expected reason at s = Some t \<Longrightarrow> dn_spec t = dn_spec s \<and> (delegation_is_terminal (dn_state t) \<or> cancellation_reason t \<noteq> None)"
  by (auto simp: cancel_result_def cancellation_reason_def settled_def split: if_splits delegation_state.splits option.splits)

section \<open>The requests\<close>

text \<open>What a client may learn or change: one delegation of the session it named.\<close>

definition reaches_own :: "serde \<Rightarrow> session_id \<Rightarrow> delegation_id \<Rightarrow> database \<Rightarrow> delegation_snapshot \<Rightarrow> delegation_snapshot \<Rightarrow> database \<Rightarrow> bool" where
  "reaches_own sx parent k d s t d' \<longleftrightarrow> delegations_of sx d k = Some s \<and> ds_parent_session_id (dn_spec s) = parent \<and> supervisor_inv sx d'
     \<and> delegations_of sx d' = (delegations_of sx d)(k \<mapsto> t) \<and> sessions_of sx d' = sessions_of sx d \<and> turns_of sx d' = turns_of sx d
     \<and> (delegation_is_terminal (dn_state s) \<longrightarrow> t = s)"

lemma reaches_same:
  "supervisor_inv sx d \<Longrightarrow> delegations_of sx d k = Some s \<Longrightarrow> ds_parent_session_id (dn_spec s) = parent \<Longrightarrow> reaches_own sx parent k d s s d"
  by (simp add: reaches_own_def fun_upd_idem)

lemma stores_db_cases:
  assumes "gateway_delegations ge m g = (r, g')"
  shows "(\<exists>e. r = Inl e) \<and> g' = g \<or> (\<exists>q d. m (lv_db (gt_live g)) = (q, d) \<and> g' = g\<lparr>gt_live := (gt_live g)\<lparr>lv_db := d\<rparr>\<rparr>
     \<and> r = map_err delegation_rpc_error q)"
  using assms
  by (auto simp: gateway_delegations_def act_bind_def act_map_err_def on_live_def act_zoom_def open_delegations_def act_lift_def live_db_def
      map_err_def split: option.splits prod.splits sum.splits)

lemma gateway_same [simp]: "g\<lparr>gt_live := (gt_live g)\<lparr>lv_db := lv_db (gt_live g)\<rparr>\<rparr> = g"
  by simp

lemma load_state: "delegation_load sx k d = (q, d') \<Longrightarrow> d' = d"
  by (auto simp: delegation_load_def act_bind_def load_delegation_def act_try_def act_lift_def split: option.splits sum.splits)

lemma delegation_load_of: "delegation_load sx k d = (Inr s, d') \<Longrightarrow> delegations_of sx d k = Some s"
  by (auto simp: delegation_load_def delegations_of_def delegation_at_def act_bind_ok load_delegation_def act_try_def act_lift_def
      split: option.splits sum.splits)

lemma owned_cases:
  assumes "load_owned_delegation ge parent k g = (r, g')"
  shows "g' = g \<and> (\<forall>s. r = Inr s \<longrightarrow> delegations_of (gv_serde ge) (lv_db (gt_live g)) k = Some s \<and> ds_parent_session_id (dn_spec s) = parent)"
proof -
  obtain q h where q: "gateway_delegations ge (delegation_load (gv_serde ge) k) g = (q, h)" by fastforce
  have h: "h = g" using stores_db_cases [OF q] by (auto dest: load_state)
  have "delegations_of (gv_serde ge) (lv_db (gt_live g)) k = Some s" if loaded: "q = Inr s" for s
  proof -
    obtain p d where p: "delegation_load (gv_serde ge) k (lv_db (gt_live g)) = (p, d)" "q = map_err delegation_rpc_error p"
      using stores_db_cases [OF q] loaded by auto
    then have "p = Inr s" using loaded by (cases p) (simp_all add: map_err_def)
    then show ?thesis using p(1) delegation_load_of by blast
  qed
  then show ?thesis
    using assms q h by (auto simp: load_owned_delegation_def act_bind_def act_lift_def act_return_def ensure_def split: sum.splits if_splits)
qed

lemma parent_cases:
  assumes "authorized_parent ge params g = (r, g')"
  shows "g' = g \<and> (\<forall>sid. r = Inr sid \<longrightarrow> and_then (session_param params) (\<lambda>name. map_err (rpc_error_new 4000 \<circ> id_error_text) (session_id_new name)) = Ok sid)"
  using assms
  by (auto simp: authorized_parent_def act_bind_def act_lift_def gateway_sessions_def act_map_err_def on_live_def act_zoom_def open_sessions_def
      live_db_def session_load_def act_try_def act_return_def map_err_def split: option.splits prod.splits sum.splits)

definition cancel_answered :: "'h gateway_env \<Rightarrow> session_id \<Rightarrow> delegation_id \<Rightarrow> 'h gateway \<Rightarrow> 'h gateway \<Rightarrow> bool" where
  "cancel_answered ge parent k g g' \<longleftrightarrow> (\<exists>s t. reaches_own (gv_serde ge) parent k (lv_db (gt_live g)) s t (lv_db (gt_live g'))
     \<and> (delegation_is_terminal (dn_state t) \<or> cancellation_reason t \<noteq> None))"

lemma signal_same: "signal_worker k reason g = (r, g') \<Longrightarrow> gt_live g' = gt_live g \<and> (\<exists>sent. r = Inr sent)"
  by (auto simp: signal_worker_def split: prod.splits)

lemma cancel_attempt_cases:
  assumes inv: "supervisor_inv (gv_serde ge) (lv_db (gt_live g))"
    and enc: "endings_ok (gv_serde ge)"
    and run: "cancel_attempt ge parent k reason attempt g = (r, g')"
  shows "case r of Inr (Some answer) \<Rightarrow> cancel_answered ge parent k g g' | _ \<Rightarrow> g' = g"
proof -
  let ?sx = "gv_serde ge" and ?d = "lv_db (gt_live g)"
  obtain q h where load: "load_owned_delegation ge parent k g = (q, h)" by fastforce
  note owned = owned_cases [OF load]
  show ?thesis
  proof (cases q)
    case (Inl e)
    then show ?thesis using run load owned by (auto simp: cancel_attempt_def act_bind_def)
  next
    case (Inr current)
    then have s: "delegations_of ?sx ?d k = Some current" "ds_parent_session_id (dn_spec current) = parent" "h = g" using owned by auto
    note same = reaches_same [OF inv s(1,2)]
    show ?thesis
    proof (cases "delegation_is_terminal (dn_state current) \<or> cancellation_reason current \<noteq> None")
      case True
      then have "(\<exists>answer. r = Inr (Some answer)) \<and> gt_live g' = gt_live g"
        using run load Inr s(3)
        by (auto simp: cancel_attempt_def act_bind_def act_return_def dest: signal_same split: prod.splits sum.splits if_splits)
      moreover from this have "cancel_answered ge parent k g g'"
        unfolding cancel_answered_def using same True by (intro exI [of _ current]) auto
      ultimately show ?thesis by auto
    next
      case False
      note waiting = this
      obtain t where now: "gv_now_ms ge attempt = Inr t \<or> (\<exists>e. r = Inl e) \<and> g' = g"
        using run load Inr s(3) False
        by (cases "gv_now_ms ge attempt") (auto simp: cancel_attempt_def act_bind_def act_lift_def map_err_def)
      show ?thesis
      proof (cases "(\<exists>e. r = Inl e) \<and> g' = g")
        case True
        then show ?thesis by auto
      next
        case False
        then have now': "gv_now_ms ge attempt = Inr t" using now by blast
        obtain p d where cancel: "delegation_cancel ?sx k (dn_owner_generation current) reason t ?d = (p, d)" by fastforce
        let ?h = "g\<lparr>gt_live := (gt_live g)\<lparr>lv_db := d\<rparr>\<rparr>"
        have rest: "(case p of
            Inr cancelled \<Rightarrow> act_bind (signal_worker k reason) (\<lambda>signalled. act_return (Some (cancel_answer False signalled cancelled)))
          | Inl (DelegationGenerationConflict _ _ _) \<Rightarrow> act_return None
          | Inl error \<Rightarrow> act_lift (Err (delegation_rpc_error error))) ?h = (r, g')"
          using run load Inr s(3) waiting now' False cancel
          by (auto simp: cancel_attempt_def act_bind_def [of "load_owned_delegation _ _ _"] act_bind_def [of "act_lift _"]
              act_bind_def [of "act_map_err _ _"] act_bind_def [of "act_attempt _"] act_lift_def map_err_def act_map_err_def on_live_def act_zoom_def
              open_delegations_def act_attempt_def live_db_def split: option.splits)
        from cancel_cases [OF inv enc cancel] consider (failed) e where "p = Inl e" "d = ?d"
          | (cancelled) t' where "cancel_result (dn_owner_generation current) reason t current = Some t'" "p = Inr t'" "supervisor_inv ?sx d"
            "delegations_of ?sx d = (delegations_of ?sx ?d)(k \<mapsto> t')" "sessions_of ?sx d = sessions_of ?sx ?d" "turns_of ?sx d = turns_of ?sx ?d"
          using s(1) by auto
        then show ?thesis
        proof cases
          case failed
          then show ?thesis using rest by (auto simp: act_return_def act_lift_def split: delegation_store_error.splits)
        next
          case cancelled
          then have "(\<exists>answer. r = Inr (Some answer)) \<and> lv_db (gt_live g') = d"
            using rest by (auto simp: act_bind_def act_return_def dest: signal_same split: prod.splits sum.splits)
          moreover have "reaches_own ?sx parent k ?d current t' d"
            using cancelled s waiting by (simp add: reaches_own_def)
          ultimately have "(\<exists>answer. r = Inr (Some answer)) \<and> reaches_own ?sx parent k ?d current t' (lv_db (gt_live g'))"
            by simp
          moreover have "delegation_is_terminal (dn_state t') \<or> cancellation_reason t' \<noteq> None"
            using cancel_result_requested [OF cancelled(1)] by simp
          ultimately show ?thesis unfolding cancel_answered_def by fastforce
        qed
      qed
    qed
  qed
qed

lemma cancel_retries_cases:
  assumes "supervisor_inv (gv_serde ge) (lv_db (gt_live g))"
    and "endings_ok (gv_serde ge)"
    and "cancel_retries ge parent k reason attempts g = (r, g')"
  shows "case r of Inr answer \<Rightarrow> cancel_answered ge parent k g g' | Inl _ \<Rightarrow> g' = g"
  using assms(3)
proof (induction attempts)
  case Nil
  then show ?case by (auto simp: act_lift_def)
next
  case (Cons attempt attempts)
  obtain q h where q: "cancel_attempt ge parent k reason attempt g = (q, h)" by fastforce
  note first = cancel_attempt_cases [OF assms(1) assms(2) q]
  show ?case
    using Cons q first by (auto simp: act_bind_def act_return_def split: sum.splits option.splits)
qed

text \<open>
  C33. A client reaches only the delegations of the session it names, and a cancellation is durable before it is acknowledged: a
  status or a cancel request succeeds only for a delegation that this session commissioned; a status changes nothing, an
  acknowledged cancellation leaves the delegation ended or under a durable request to end, and a refused one changes
  nothing, of that delegation or any other, and of no session.
\<close>

theorem client_reaches_only_its_delegations:
  assumes "supervisor_inv (gv_serde ge) (lv_db (gt_live g))" "endings_ok (gv_serde ge)"
    and "name \<in> {''delegation.status'', ''delegation.cancel''}"
  shows "case gateway_call ge name params g of
     (Inl _, g') \<Rightarrow> g' = g
   | (Inr answer, g') \<Rightarrow> \<exists>parent k s t.
        and_then (session_param params) (\<lambda>name. map_err (rpc_error_new 4000 \<circ> id_error_text) (session_id_new name)) = Ok parent
      \<and> delegation_param params = Ok k \<and> reaches_own (gv_serde ge) parent k (lv_db (gt_live g)) s t (lv_db (gt_live g'))
      \<and> (if name = ''delegation.status'' then t = s \<and> answer = jobject [(''delegation'', json_of_delegation s)]
         else delegation_is_terminal (dn_state t) \<or> cancellation_reason t \<noteq> None)"
proof -
  let ?sx = "gv_serde ge" and ?d = "lv_db (gt_live g)"
  obtain r g' where run: "gateway_call ge name params g = (r, g')" by fastforce
  obtain q h where parent: "authorized_parent ge params g = (q, h)" by fastforce
  note authorized = parent_cases [OF parent]
  show ?thesis
  proof (cases "\<exists>sid k. q = Inr sid \<and> delegation_param params = Inr k")
    case False
    then have "(\<exists>e. r = Inl e) \<and> g' = g"
      using run assms(3) parent authorized
      by (auto simp: gateway_call_def gateway_delegation_status_def gateway_cancel_delegation_def act_bind_def act_lift_def split: sum.splits)
    then show ?thesis unfolding run by auto
  next
    case True
    then obtain sid k where sid: "q = Inr sid" and k: "delegation_param params = Inr k" by blast
    have h: "h = g" and named: "and_then (session_param params) (\<lambda>name. map_err (rpc_error_new 4000 \<circ> id_error_text) (session_id_new name)) = Ok sid"
      using authorized sid by auto
    show ?thesis
    proof (cases "name = ''delegation.status''")
      case True
      obtain p l where load: "load_owned_delegation ge sid k g = (p, l)" by fastforce
      note owned = owned_cases [OF load]
      have "(case p of Inl e \<Rightarrow> (Inl e, l) | Inr s \<Rightarrow> (Inr (jobject [(''delegation'', json_of_delegation s)]), l)) = (r, g')"
        using run True parent sid k h load
        by (simp add: gateway_call_def gateway_delegation_status_def act_bind_def act_lift_def act_return_def split: sum.splits)
      then show ?thesis
        using owned named k True reaches_same [OF assms(1), of k _ sid] unfolding run by (cases p) auto
    next
      case False
      then have cancel: "name = ''delegation.cancel''" using assms(3) by simp
      show ?thesis
      proof (cases "cancellation_param params")
        case (Inl e)
        then have "r = Inl e \<and> g' = g"
          using run cancel parent sid k h
          by (simp add: gateway_call_def gateway_cancel_delegation_def act_bind_def act_lift_def)
        then show ?thesis unfolding run by simp
      next
        case (Inr reason)
        then have "cancel_retries ge sid k reason [0, 1, 2] g = (r, g')"
          using run cancel parent sid k h
          by (simp add: gateway_call_def gateway_cancel_delegation_def act_bind_def [of "authorized_parent _ _"] act_bind_def [of "act_lift _"]
              act_lift_def del: cancel_retries.simps)
        note retried = cancel_retries_cases [OF assms(1) assms(2) this]
        show ?thesis using retried named k False unfolding run by (cases r) (auto simp: cancel_answered_def)
      qed
    qed
  qed
qed

definition gateway_claimed :: "unit gateway" where
  "gateway_claimed = gateway_sample\<lparr>gt_live := (gt_live gateway_sample)\<lparr>lv_db := live_claimed\<rparr>\<rparr>"

definition claimed_params :: "(string, json) btree" where
  "claimed_params = btree_of [(''session_id'', JString ''p''), (''delegation_id'', JString ''d'')]"

lemma claimed_params:
  "and_then (session_param claimed_params) (\<lambda>name. map_err (rpc_error_new 4000 \<circ> id_error_text) (session_id_new name)) = Ok (SessionId ''p'')"
  "delegation_param claimed_params = Ok (DelegationId ''d'')"
proof -
  have "session_param claimed_params = Inr ''p''" "non_empty_param ''delegation_id'' claimed_params = Inr ''d''"
    by (simp_all add: session_param_def non_empty_param_def non_empty_def claimed_params_def btree_get_of ok_or_def)
  moreover have "map_err f (session_id_new ''p'') = Inr (SessionId ''p'')" "map_err f (delegation_id_new ''d'') = Inr (DelegationId ''d'')"
    for f :: "id_error \<Rightarrow> rpc_error"
    using unpadded_plain [of "''p''"] unpadded_plain [of "''d''"] by (simp_all add: map_err_def plain_char_def id_new_ok)
  ultimately show "and_then (session_param claimed_params) (\<lambda>name. map_err (rpc_error_new 4000 \<circ> id_error_text) (session_id_new name)) = Ok (SessionId ''p'')"
    "delegation_param claimed_params = Ok (DelegationId ''d'')"
    by (simp_all add: delegation_param_def)
qed

lemma claimed_answers:
  "gateway_call gateway_env_sample ''delegation.status'' claimed_params gateway_claimed
    = (Inr (jobject [(''delegation'', json_of_delegation sample_running)]), gateway_claimed)"
proof -
  let ?ge = gateway_env_sample
  have db: "lv_db (gt_live gateway_claimed) = live_claimed" by (simp add: gateway_claimed_def)
  have serde: "gv_serde ?ge = live_serde" by (simp add: gateway_env_sample_def)
  have opened: "open_sessions (gv_live ?ge) = act_return ()" "open_delegations (gv_live ?ge) = act_return ()"
    by (simp_all add: open_sessions_def open_delegations_def act_lift_def act_return_def gateway_env_sample_def agent_env_sample_def fun_eq_iff)
  have "sessions_of live_serde live_claimed (SessionId ''p'') = Some (new_session (Session_Store.sample_config ''p''))"
    by (subst live_claimed_facts(2)) (rule live_delegated_facts(4))
  then have "session_load live_serde (SessionId ''p'') live_claimed = (Inr (new_session (Session_Store.sample_config ''p'')), live_claimed)"
    by (auto simp: session_load_def act_try_def sessions_of_def split: sum.splits)
  then have "authorized_parent ?ge claimed_params gateway_claimed = (Inr (SessionId ''p''), gateway_claimed)"
    using claimed_params(1)
    by (simp add: authorized_parent_def act_bind_def act_lift_def gateway_sessions_def act_map_err_def
        on_live_def act_zoom_def live_db_def act_return_def serde opened db)
  moreover have "ds_parent_session_id (dn_spec sample_running) = SessionId ''p''"
    by (simp add: sample_running_simps(4)) (simp add: sample_delegation_def)
  then have "load_owned_delegation ?ge (SessionId ''p'') (DelegationId ''d'') gateway_claimed = (Inr sample_running, gateway_claimed)"
    using load_shown [OF live_claimed_facts(3)]
    by (simp add: load_owned_delegation_def gateway_delegations_def act_bind_def act_lift_def act_map_err_def on_live_def act_zoom_def
        live_db_def act_return_def serde opened db ensure_def)
  ultimately show ?thesis
    by (simp add: gateway_call_def gateway_delegation_status_def act_bind_def act_lift_def act_return_def claimed_params(2))
qed

theorem client_reaches_only_its_delegations_witness:
  "\<exists>s. reaches_own live_serde (SessionId ''p'') (DelegationId ''d'') live_claimed s s live_claimed
     \<and> gateway_call gateway_env_sample ''delegation.status'' claimed_params gateway_claimed
         = (Inr (jobject [(''delegation'', json_of_delegation s)]), gateway_claimed)"
proof -
  have here: "gv_serde gateway_env_sample = live_serde" "lv_db (gt_live gateway_claimed) = live_claimed"
    by (simp_all add: gateway_env_sample_def gateway_claimed_def)
  have "endings_ok live_serde"
    by (simp add: endings_ok_def live_serde_def agent_serde_def sample_serde_def sample_codec_faithful)
  then show ?thesis
    using client_reaches_only_its_delegations
        [where ge = gateway_env_sample and g = gateway_claimed and name = "''delegation.status''" and params = claimed_params]
      live_claimed_facts(1)
    by (auto simp: here claimed_answers claimed_params)
qed

end
