(* ===== verification/Tui_Model.thy ===== *)
theory Tui_Model
  imports Gateway_Wire
begin

text \<open>
  \<open>apps/hermesd/src/cli/tui/model.rs\<close>: what the terminal client shows, and how the frames of the gateway change it. The
  model is a disposable projection: a resumed session replaces what the client showed of it. The decoders that
  \<open>derive(Deserialize)\<close> generates are a parameter; what they read of a JSON object is stated beside the records.
\<close>

section \<open>State\<close>

record tui_session =
  us_id :: string
  us_message_count :: nat

record transcript_message =
  ut_role :: string
  ut_text :: string

record tool_activity =
  ua_id :: string
  ua_name :: string
  ua_status :: string

record approval_view =
  uv_command :: string
  uv_description :: string
  uv_selected :: nat

datatype tui_screen = ScreenLoading | ScreenSessions | ScreenChat

datatype model_action = Resume string | ReloadActive

datatype pending_request = PendingList | PendingCreate | PendingResume | PendingSubmit | PendingApproval | PendingInterrupt

record app_model =
  um_screen :: tui_screen
  um_sessions :: "tui_session list"
  um_selected_session :: nat
  um_active_session :: "string option"
  um_messages :: "transcript_message list"
  um_tools :: "tool_activity list"
  um_streaming :: string
  um_draft :: string
  um_approval :: "approval_view option"
  um_busy :: bool
  um_interrupting :: bool
  um_status :: string
  um_engine :: string
  um_model :: string
  um_error :: "string option"
  um_scroll :: "16 word"
  um_pending :: "u64 \<Rightarrow> pending_request option"

definition app_model_default :: app_model where
  "app_model_default =
     \<lparr>um_screen = ScreenLoading, um_sessions = [], um_selected_session = 0, um_active_session = None, um_messages = [],
      um_tools = [], um_streaming = [], um_draft = [], um_approval = None, um_busy = False, um_interrupting = False,
      um_status = ''starting gateway'', um_engine = [], um_model = [], um_error = None, um_scroll = 0, um_pending = (\<lambda>_. None)\<rparr>"

definition track :: "u64 \<Rightarrow> pending_request \<Rightarrow> app_model \<Rightarrow> app_model" where
  "track i request m = m\<lparr>um_pending := (um_pending m)(i \<mapsto> request)\<rparr>"

definition begin_submit :: "string \<Rightarrow> app_model \<Rightarrow> app_model" where
  "begin_submit prompt m =
     m\<lparr>um_messages := um_messages m @ [\<lparr>ut_role = ''user'', ut_text = prompt\<rparr>], um_streaming := [], um_tools := [], um_busy := True,
       um_interrupting := False, um_status := ''starting turn'', um_error := None\<rparr>"

section \<open>What is received\<close>

record response_error =
  uf_code :: int
  uf_message :: string

record response_envelope =
  ur_id :: json
  ur_result :: "json option"
  ur_error :: "response_error option"

record event_params =
  ue_kind :: string
  ue_session_id :: "string option"
  ue_payload :: "json option"

record tui_session_info =
  ui_engine :: string
  ui_model :: string

record resumed_session =
  ud_session_id :: string
  ud_messages :: "transcript_message list"
  ud_running :: bool
  ud_status :: string
  ud_info :: tui_session_info

record tool_payload =
  up_tool_id :: "string option"
  up_name :: "string option"
  up_summary :: "string option"

text \<open>The generated decoders; an approval is decoded to its command and its description.\<close>

record tui_codec =
  uc_response :: "json \<Rightarrow> string + response_envelope"
  uc_event :: "json \<Rightarrow> string + event_params"
  uc_list :: "json \<Rightarrow> string + tui_session list"
  uc_created :: "json \<Rightarrow> string + string"
  uc_resumed :: "json \<Rightarrow> string + resumed_session"
  uc_text :: "json \<Rightarrow> string + string"
  uc_tool :: "json \<Rightarrow> string + tool_payload"
  uc_approval :: "json \<Rightarrow> string + string \<times> string"
  uc_info :: "json \<Rightarrow> string + tui_session_info"

section \<open>Responses\<close>

type_synonym 'a model_update = "(app_model, string, 'a) action"

definition show_resumed :: "resumed_session \<Rightarrow> app_model \<Rightarrow> app_model" where
  "show_resumed r m =
     m\<lparr>um_active_session := Some (ud_session_id r), um_messages := ud_messages r, um_tools := [], um_streaming := [],
       um_approval := None, um_busy := ud_running r, um_interrupting := False, um_status := ud_status r,
       um_engine := ui_engine (ud_info r), um_model := ui_model (ud_info r), um_screen := ScreenChat, um_scroll := 0\<rparr>"

fun apply_response :: "tui_codec \<Rightarrow> pending_request \<Rightarrow> json \<Rightarrow> model_action list model_update" where
  "apply_response cx PendingList result =
     act_bind (act_lift (uc_list cx result)) (\<lambda>sessions.
     act_bind (act_update (\<lambda>m. m\<lparr>um_sessions := sessions, um_selected_session := min (um_selected_session m) (length sessions - 1),
       um_screen := ScreenSessions, um_status := ''select or create a session''\<rparr>)) (\<lambda>_.
     act_return []))"
| "apply_response cx PendingCreate result =
     act_bind (act_lift (uc_created cx result)) (\<lambda>sid. act_return [Resume sid])"
| "apply_response cx PendingResume result =
     act_bind (act_lift (uc_resumed cx result)) (\<lambda>resumed.
     act_bind (act_update (show_resumed resumed)) (\<lambda>_. act_return []))"
| "apply_response cx PendingSubmit result =
     act_bind (act_update (\<lambda>m. m\<lparr>um_busy := True, um_status := ''working''\<rparr>)) (\<lambda>_. act_return [])"
| "apply_response cx PendingApproval result =
     act_bind (act_update (\<lambda>m. m\<lparr>um_approval := None, um_status := ''working''\<rparr>)) (\<lambda>_. act_return [])"
| "apply_response cx PendingInterrupt result =
     act_bind (act_update (\<lambda>m. m\<lparr>um_interrupting := True, um_status := ''interrupting''\<rparr>)) (\<lambda>_. act_return [])"

section \<open>Events\<close>

definition begin_tool :: "tool_payload \<Rightarrow> app_model \<Rightarrow> app_model" where
  "begin_tool p m =
     m\<lparr>um_tools := um_tools m @ [\<lparr>ua_id = (case up_tool_id p of Some i \<Rightarrow> i | None \<Rightarrow> ''tool-'' @ show_nat (length (um_tools m))),
         ua_name = (case up_name p of Some n \<Rightarrow> n | None \<Rightarrow> ''tool''), ua_status = ''running''\<rparr>],
       um_status := ''using tool''\<rparr>"

text \<open>The last tool of that identity, if there is one.\<close>

fun end_tool :: "string \<Rightarrow> string \<Rightarrow> tool_activity list \<Rightarrow> tool_activity list" where
  "end_tool i status [] = []"
| "end_tool i status (tool # tools) =
     (if ua_id tool = i \<and> i \<notin> set (map ua_id tools) then tool\<lparr>ua_status := status\<rparr> # tools else tool # end_tool i status tools)"

definition complete_tool :: "tool_payload \<Rightarrow> app_model \<Rightarrow> app_model" where
  "complete_tool p m =
     m\<lparr>um_tools := end_tool (case up_tool_id p of Some i \<Rightarrow> i | None \<Rightarrow> [])
         (case up_summary p of Some summary \<Rightarrow> summary | None \<Rightarrow> ''completed'') (um_tools m)\<rparr>"

definition show_approval :: "string \<times> string \<Rightarrow> app_model \<Rightarrow> app_model" where
  "show_approval p m =
     m\<lparr>um_approval := Some \<lparr>uv_command = fst p, uv_description = snd p, uv_selected = 0\<rparr>, um_status := ''approval required''\<rparr>"

definition decoded :: "string + 'p \<Rightarrow> ('p \<Rightarrow> app_model \<Rightarrow> app_model) \<Rightarrow> model_action list model_update" where
  "decoded payload change = act_bind (act_lift payload) (\<lambda>p. act_bind (act_update (change p)) (\<lambda>_. act_return []))"

definition apply_event :: "tui_codec \<Rightarrow> event_params \<Rightarrow> model_action list model_update" where
  "apply_event cx event =
     act_bind (act_read (\<lambda>m. case (um_active_session m, ue_session_id event) of (Some active, Some sid) \<Rightarrow> active \<noteq> sid | _ \<Rightarrow> False)) (\<lambda>foreign.
     if foreign then act_return []
     else let payload = (case ue_payload event of None \<Rightarrow> JNull | Some p \<Rightarrow> p); kind = ue_kind event in
       if kind = ''gateway.ready'' then decoded (Ok ()) (\<lambda>_ m. m\<lparr>um_status := ''gateway ready''\<rparr>)
       else if kind = ''message.start'' then decoded (Ok ()) (\<lambda>_ m. m\<lparr>um_busy := True, um_status := ''working''\<rparr>)
       else if kind = ''message.delta'' then decoded (uc_text cx payload) (\<lambda>t m. m\<lparr>um_streaming := um_streaming m @ t\<rparr>)
       else if kind = ''reasoning.delta'' then decoded (Ok ()) (\<lambda>_ m. m\<lparr>um_status := ''reasoning''\<rparr>)
       else if kind = ''tool.start'' then decoded (uc_tool cx payload) begin_tool
       else if kind = ''tool.complete'' then decoded (uc_tool cx payload) complete_tool
       else if kind = ''approval.request'' then decoded (uc_approval cx payload) show_approval
       else if kind = ''message.complete''
       then act_bind (act_update (\<lambda>m. m\<lparr>um_busy := False, um_interrupting := False, um_approval := None, um_status := ''idle''\<rparr>))
              (\<lambda>_. act_return [ReloadActive])
       else if kind = ''session.info''
       then decoded (uc_info cx payload) (\<lambda>info m. m\<lparr>um_engine := ui_engine info, um_model := ui_model info\<rparr>)
       else act_return [])"

section \<open>Frames\<close>

definition is_event_frame :: "json \<Rightarrow> bool" where
  "is_event_frame message \<longleftrightarrow> Option.bind (json_get message ''method'') json_as_str = Some ''event''"

definition show_error :: "response_error \<Rightarrow> app_model \<Rightarrow> app_model" where
  "show_error error m =
     m\<lparr>um_error := Some (uf_message error @ '' ('' @ show_int (uf_code error) @ '')''), um_busy := False, um_interrupting := False\<rparr>"

definition take_pending :: "u64 \<Rightarrow> pending_request model_update" where
  "take_pending i =
     act_bind (act_read (\<lambda>m. um_pending m i)) (\<lambda>found.
     act_bind (act_update (\<lambda>m. m\<lparr>um_pending := (um_pending m)(i := None)\<rparr>)) (\<lambda>_.
     act_lift (ok_or (''gateway returned unknown response id '' @ show_nat (unat i)) found)))"

definition apply_frame :: "tui_codec \<Rightarrow> json \<Rightarrow> model_action list model_update" where
  "apply_frame cx message =
     (if is_event_frame message then act_bind (act_lift (uc_event cx message)) (apply_event cx)
      else
        act_bind (act_lift (uc_response cx message)) (\<lambda>envelope.
        act_bind (act_lift (ok_or ''response id is not u64'' (json_as_u64 (ur_id envelope)))) (\<lambda>i.
        act_bind (take_pending i) (\<lambda>pending.
        case ur_error envelope of
          Some error \<Rightarrow> act_bind (act_update (show_error error)) (\<lambda>_. act_return [])
        | None \<Rightarrow> act_bind (act_lift (ok_or ''response omitted result'' (ur_result envelope))) (apply_response cx pending)))))"

end
