(* ===== verification/Tui_Client.thy ===== *)
theory Tui_Client
  imports Tui_Model Rust_Files
begin

text \<open>
  \<open>apps/hermesd/src/cli/tui/client.rs\<close> and \<open>mod.rs\<close>: the requests of the terminal client, what its keys do, and its loop
  over frames and terminal events. The pipe to the gateway is the requests that were written and the faults of
  the writes; its standard input stays open until the client is shut down.
\<close>

section \<open>The child process\<close>

definition gateway_child_arguments :: "string \<Rightarrow> string list \<Rightarrow> string list" where
  "gateway_child_arguments state gateway_arguments = [''--state'', state, ''gateway''] @ gateway_arguments"

text \<open>The task that reads standard output sends one frame per line, and nothing after a failure.\<close>

datatype line_read = LineRead string | LineEnd | LineError string

fun stdout_frames :: "(string \<Rightarrow> string + json) \<Rightarrow> line_read list \<Rightarrow> (string + json) list" where
  "stdout_frames parse [] = []"
| "stdout_frames parse (LineRead line # rest) =
     (case parse line of
        Inl e \<Rightarrow> [Err (''gateway emitted malformed frame: '' @ line)]
      | Inr message \<Rightarrow> Ok message # stdout_frames parse rest)"
| "stdout_frames parse (LineEnd # rest) = [Err ''gateway stdout closed'']"
| "stdout_frames parse (LineError e # rest) = [Err e]"

definition gateway_stderr_tail_bytes :: nat where "gateway_stderr_tail_bytes = 16 * 1024"

definition gateway_stderr_tail :: "string \<Rightarrow> string" where
  "gateway_stderr_tail bytes = (if length bytes > gateway_stderr_tail_bytes then drop (length bytes - gateway_stderr_tail_bytes) bytes else bytes)"

text \<open>How the child ends: \<open>None\<close> is the timeout of the first wait.\<close>

record child_status =
  ce_success :: bool
  ce_shown :: string

record child_end =
  ce_stdin :: "string + unit"
  ce_wait :: "(string + child_status) option"
  ce_kill :: "string + unit"
  ce_killed :: "string + child_status"
  ce_stderr :: "string + string"

definition client_shutdown :: "child_end \<Rightarrow> string + unit" where
  "client_shutdown e =
     and_then (ce_stdin e) (\<lambda>_.
     and_then (case ce_wait e of Some status \<Rightarrow> status | None \<Rightarrow> and_then (ce_kill e) (\<lambda>_. ce_killed e)) (\<lambda>status.
     and_then (ce_stderr e) (\<lambda>bytes.
     ensure (ce_success status)
       (''gateway exited with '' @ ce_shown status @ '': '' @ trim (to_string_lossy (gateway_stderr_tail bytes))))))"

section \<open>Requests\<close>

record gateway_client =
  gc_next_id :: u64
  gc_sent :: "gateway_request list"
  gc_faults :: "string option list"

definition client_start :: "string option list \<Rightarrow> gateway_client" where
  "client_start faults = \<lparr>gc_next_id = 1, gc_sent = [], gc_faults = faults\<rparr>"

definition client_request :: "string \<Rightarrow> json \<Rightarrow> (gateway_client, string, u64) action" where
  "client_request name params c =
     (let i = gc_next_id c; request = \<lparr>gq_jsonrpc = json_rpc_version, gq_id = ju64 i, gq_method = name, gq_params = params\<rparr> in
      if unat i + 1 = 2 ^ 64 then (Err ''gateway request identity space exhausted'', c)
      else (case gc_faults c of
          Some fault # faults \<Rightarrow> (Err fault, c\<lparr>gc_next_id := i + 1, gc_faults := faults\<rparr>)
        | faults \<Rightarrow> (Ok i, c\<lparr>gc_next_id := i + 1, gc_sent := gc_sent c @ [request], gc_faults := tl faults\<rparr>)))"

record tui =
  tu_model :: app_model
  tu_client :: gateway_client

type_synonym 'a tui_action = "(tui, string, 'a) action"

definition on_model :: "(app_model, string, 'a) action \<Rightarrow> 'a tui_action" where
  "on_model = act_zoom tu_model (\<lambda>m s. s\<lparr>tu_model := m\<rparr>)"

definition on_client :: "(gateway_client, string, 'a) action \<Rightarrow> 'a tui_action" where
  "on_client = act_zoom tu_client (\<lambda>c s. s\<lparr>tu_client := c\<rparr>)"

definition changes :: "(app_model \<Rightarrow> app_model) \<Rightarrow> unit tui_action" where
  "changes change = on_model (act_update change)"

definition track_request :: "pending_request \<Rightarrow> string \<Rightarrow> json \<Rightarrow> unit tui_action" where
  "track_request pending name params =
     act_bind (on_client (client_request name params)) (\<lambda>i. changes (track i pending))"

definition tui_active_session :: "string tui_action" where
  "tui_active_session = on_model (act_try (\<lambda>m. ok_or ''no active session'' (um_active_session m)))"

definition tui_resume :: "string \<Rightarrow> unit tui_action" where
  "tui_resume sid =
     act_bind (changes (\<lambda>m. m\<lparr>um_screen := ScreenLoading, um_status := ''loading canonical session''\<rparr>)) (\<lambda>_.
     track_request PendingResume ''session.resume'' (jobject [(''session_id'', JString sid)]))"

definition tui_interrupt :: "unit tui_action" where
  "tui_interrupt =
     act_bind (on_model (act_read um_interrupting)) (\<lambda>interrupting.
     if interrupting then act_return ()
     else act_bind tui_active_session (\<lambda>sid.
          act_bind (changes (\<lambda>m. m\<lparr>um_interrupting := True, um_status := ''interrupting''\<rparr>)) (\<lambda>_.
          track_request PendingInterrupt ''session.interrupt'' (jobject [(''session_id'', JString sid)]))))"

definition respond_approval :: "string \<Rightarrow> unit tui_action" where
  "respond_approval choice =
     act_bind tui_active_session (\<lambda>sid.
     track_request PendingApproval ''approval.respond'' (jobject [(''session_id'', JString sid), (''choice'', JString choice)]))"

fun apply_model_action :: "model_action \<Rightarrow> unit tui_action" where
  "apply_model_action (Resume sid) = tui_resume sid"
| "apply_model_action ReloadActive = act_bind tui_active_session tui_resume"

section \<open>Keys\<close>

text \<open>A character key carries the UTF-8 bytes of its character; of the modifiers the code asks for Control and for none.\<close>

datatype key_code = KeyChar string | KeyEnter | KeyEsc | KeyUp | KeyDown | KeyLeft | KeyRight | KeyPageUp | KeyPageDown
  | KeyBackspace | KeyF nat | KeyOther

datatype key_kind = KeyPress | KeyRepeat | KeyRelease

record key_event =
  ke_code :: key_code
  ke_control :: bool
  ke_other_modifiers :: bool
  ke_kind :: key_kind

definition plain_key :: "key_event \<Rightarrow> bool" where
  "plain_key key \<longleftrightarrow> \<not> ke_control key \<and> \<not> ke_other_modifiers key"

definition ctrl_c :: "key_event \<Rightarrow> bool" where
  "ctrl_c key \<longleftrightarrow> ke_code key = KeyChar ''c'' \<and> ke_control key"

text \<open>\<open>String::pop\<close> removes the last character with all of its bytes.\<close>

definition pop_char :: "string \<Rightarrow> string" where
  "pop_char s = take (boundary_below s (length s - 1)) s"

definition one_line :: "string \<Rightarrow> string" where
  "one_line = map (\<lambda>c. if c = CHR 0x0D \<or> c = CHR 0x0A then CHR '' '' else c)"

definition scroll_up :: "16 word \<Rightarrow> 16 word" where
  "scroll_up w = (if unat w + 8 < 2 ^ 16 then w + 8 else - 1)"

definition scroll_down :: "16 word \<Rightarrow> 16 word" where
  "scroll_down w = (if 8 \<le> unat w then w - 8 else 0)"

definition handle_session_key :: "key_event \<Rightarrow> bool tui_action" where
  "handle_session_key key =
     act_bind (on_model (act_read id)) (\<lambda>m.
     if ke_code key = KeyChar ''q'' \<and> plain_key key then act_return True
     else if ctrl_c key then act_return True
     else if ke_code key = KeyUp
     then act_bind (changes (\<lambda>m. m\<lparr>um_selected_session := um_selected_session m - 1\<rparr>)) (\<lambda>_. act_return False)
     else if ke_code key = KeyDown
     then act_bind (changes (\<lambda>m. m\<lparr>um_selected_session := min (um_selected_session m + 1) (length (um_sessions m) - 1)\<rparr>)) (\<lambda>_. act_return False)
     else if ke_code key = KeyEnter \<and> um_sessions m \<noteq> []
     then act_bind (tui_resume (us_id (um_sessions m ! um_selected_session m))) (\<lambda>_. act_return False)
     else if ke_code key = KeyChar ''n'' \<and> plain_key key
     then act_bind (changes (\<lambda>m. m\<lparr>um_screen := ScreenLoading, um_status := ''creating session''\<rparr>)) (\<lambda>_.
          act_bind (track_request PendingCreate ''session.create'' (jobject [])) (\<lambda>_. act_return False))
     else act_return False)"

definition handle_approval_key :: "key_event \<Rightarrow> bool tui_action" where
  "handle_approval_key key =
     act_bind (on_model (act_try (\<lambda>m. ok_or ''approval disappeared'' (um_approval m)))) (\<lambda>approval.
     let pick = (\<lambda>n. changes (\<lambda>m. m\<lparr>um_approval := Some (approval\<lparr>uv_selected := n\<rparr>)\<rparr>)); code = ke_code key in
     act_bind (if code = KeyLeft \<or> code = KeyUp then pick 0
       else if code = KeyRight \<or> code = KeyDown then pick 1
       else if code = KeyChar ''y'' \<and> plain_key key then respond_approval ''once''
       else if (code = KeyChar ''n'' \<or> code = KeyEsc) \<and> plain_key key then respond_approval ''deny''
       else if code = KeyEnter then respond_approval (if uv_selected approval = 0 then ''once'' else ''deny'')
       else if ctrl_c key then tui_interrupt
       else act_return ()) (\<lambda>_. act_return False))"

definition submit_draft :: "bool tui_action" where
  "submit_draft =
     act_bind tui_active_session (\<lambda>sid.
     act_bind (on_model (act_read um_draft)) (\<lambda>prompt.
     act_bind (changes (\<lambda>m. begin_submit prompt (m\<lparr>um_draft := []\<rparr>))) (\<lambda>_.
     act_bind (track_request PendingSubmit ''prompt.submit'' (jobject [(''session_id'', JString sid), (''text'', JString prompt)])) (\<lambda>_.
     act_return False))))"

definition compose_key :: "key_event \<Rightarrow> app_model \<Rightarrow> bool tui_action" where
  "compose_key key m =
     (let code = ke_code key; then_stay = (\<lambda>a. act_bind a (\<lambda>_. act_return False)) in
      if code = KeyEsc \<and> um_busy m then then_stay tui_interrupt
      else if code = KeyF 2 \<and> \<not> um_busy m
      then then_stay (act_bind (changes (\<lambda>m. m\<lparr>um_screen := ScreenLoading, um_status := ''loading sessions''\<rparr>)) (\<lambda>_.
             track_request PendingList ''session.list'' (jobject [])))
      else if code = KeyPageUp then then_stay (changes (\<lambda>m. m\<lparr>um_scroll := scroll_up (um_scroll m)\<rparr>))
      else if code = KeyPageDown then then_stay (changes (\<lambda>m. m\<lparr>um_scroll := scroll_down (um_scroll m)\<rparr>))
      else if code = KeyBackspace \<and> \<not> um_busy m then then_stay (changes (\<lambda>m. m\<lparr>um_draft := pop_char (um_draft m)\<rparr>))
      else if code = KeyEnter \<and> \<not> um_busy m \<and> trim (um_draft m) \<noteq> [] then submit_draft
      else (case code of
          KeyChar character \<Rightarrow>
            if \<not> um_busy m \<and> \<not> ke_control key then then_stay (changes (\<lambda>m. m\<lparr>um_draft := um_draft m @ character\<rparr>))
            else act_return False
        | _ \<Rightarrow> act_return False))"

definition handle_chat_key :: "key_event \<Rightarrow> bool tui_action" where
  "handle_chat_key key =
     act_bind (on_model (act_read id)) (\<lambda>m.
     if um_approval m \<noteq> None then handle_approval_key key
     else if ctrl_c key
     then (if um_draft m \<noteq> [] then act_bind (changes (\<lambda>m. m\<lparr>um_draft := []\<rparr>)) (\<lambda>_. act_return False)
           else if um_busy m then act_bind tui_interrupt (\<lambda>_. act_return False)
           else act_return True)
     else compose_key key m)"

definition handle_key :: "key_event \<Rightarrow> bool tui_action" where
  "handle_key key =
     act_bind (on_model (act_read um_screen)) (\<lambda>screen.
     case screen of
       ScreenLoading \<Rightarrow> act_return (ctrl_c key)
     | ScreenSessions \<Rightarrow> handle_session_key key
     | ScreenChat \<Rightarrow> handle_chat_key key)"

datatype terminal_event = TermKey key_event | TermPaste string | TermOther

fun handle_terminal_event :: "terminal_event \<Rightarrow> bool tui_action" where
  "handle_terminal_event (TermKey key) = (if ke_kind key = KeyPress then handle_key key else act_return False)"
| "handle_terminal_event (TermPaste pasted) =
     act_bind (changes (\<lambda>m. if um_screen m = ScreenChat \<and> \<not> um_busy m then m\<lparr>um_draft := um_draft m @ one_line pasted\<rparr> else m))
       (\<lambda>_. act_return False)"
| "handle_terminal_event TermOther = act_return False"

section \<open>The loop\<close>

text \<open>
  One round: draw, then take a frame or a terminal event. The rounds are a list from outside; when it ends the client
  still waits. The result says whether the user left.
\<close>

datatype tui_input = FrameInput "string + json" | TerminalInput "(string + terminal_event) option"

record tui_round =
  tr_draw :: "string + unit"
  tr_input :: tui_input

fun handle_input :: "tui_codec \<Rightarrow> tui_input \<Rightarrow> bool tui_action" where
  "handle_input cx (FrameInput message) =
     act_bind (act_lift message) (\<lambda>f.
     act_bind (on_model (apply_frame cx f)) (\<lambda>actions.
     act_bind (act_each apply_model_action actions) (\<lambda>_. act_return False)))"
| "handle_input cx (TerminalInput event) =
     act_bind (act_lift (case event of None \<Rightarrow> Err ''terminal event stream closed'' | Some e \<Rightarrow> e)) handle_terminal_event"

fun tui_loop :: "tui_codec \<Rightarrow> tui_round list \<Rightarrow> bool tui_action" where
  "tui_loop cx [] = act_return False"
| "tui_loop cx (round # rounds) =
     act_bind (act_lift (tr_draw round)) (\<lambda>_.
     act_bind (handle_input cx (tr_input round)) (\<lambda>quit.
     if quit then act_return True else tui_loop cx rounds))"

definition run_loop :: "tui_codec \<Rightarrow> tui_round list \<Rightarrow> bool tui_action" where
  "run_loop cx rounds =
     act_bind (track_request PendingList ''session.list'' (jobject [])) (\<lambda>_. tui_loop cx rounds)"

definition tui_start :: "string option list \<Rightarrow> tui" where
  "tui_start faults = \<lparr>tu_model = app_model_default, tu_client = client_start faults\<rparr>"

text \<open>\<open>run_tui\<close> shuts the gateway down in every case, and reports the failure of the loop first.\<close>

definition run_tui :: "tui_codec \<Rightarrow> string option list \<Rightarrow> tui_round list \<Rightarrow> child_end \<Rightarrow> string + unit" where
  "run_tui cx faults rounds ended = and_then (fst (run_loop cx rounds (tui_start faults))) (\<lambda>_. client_shutdown ended)"

end
