(* ===== verification/Tui_Properties.thy ===== *)
theory Tui_Properties
  imports Tui_Client Gateway_Clients
begin

text \<open>
  What the terminal client guarantees: its requests are told apart and answered once, it sends only what a key asked for, and
  a resumed session shows what the database holds. Approvals carry no identity on the wire, so a key pressed twice can
  reach a command that was never shown.
\<close>

section \<open>Requests and their answers\<close>

fun request_name :: "pending_request \<Rightarrow> string" where
  "request_name PendingList = ''session.list''"
| "request_name PendingCreate = ''session.create''"
| "request_name PendingResume = ''session.resume''"
| "request_name PendingSubmit = ''prompt.submit''"
| "request_name PendingApproval = ''approval.respond''"
| "request_name PendingInterrupt = ''session.interrupt''"

definition selected_ok :: "app_model \<Rightarrow> bool" where
  "selected_ok m \<longleftrightarrow> um_sessions m = [] \<or> um_selected_session m < length (um_sessions m)"

definition requests_tracked :: "tui \<Rightarrow> bool" where
  "requests_tracked s \<longleftrightarrow>
     (let next = unat (gc_next_id (tu_client s)); sent = gc_sent (tu_client s) in
      1 \<le> next \<and> map gq_id sent = map (\<lambda>n. ju64 (of_nat n)) [1..<next]
      \<and> (\<forall>i p. um_pending (tu_model s) i = Some p \<longrightarrow> unat i \<in> {1..<next} \<and> gq_method (sent ! (unat i - 1)) = request_name p)
      \<and> selected_ok (tu_model s))"

text \<open>What every operation on the model may do to the requests that wait.\<close>

definition fewer_waiting :: "app_model \<Rightarrow> app_model \<Rightarrow> bool" where
  "fewer_waiting m m' \<longleftrightarrow> um_pending m' \<subseteq>\<^sub>m um_pending m \<and> (selected_ok m \<longrightarrow> selected_ok m')"

interpretation waiting: frame fewer_waiting
  by unfold_locales (auto simp: fewer_waiting_def intro: map_le_trans)

lemma fewer_same:
  "um_pending m' = um_pending m \<Longrightarrow> um_sessions m' = um_sessions m \<Longrightarrow> um_selected_session m' = um_selected_session m \<Longrightarrow> fewer_waiting m m'"
  by (simp add: fewer_waiting_def selected_ok_def)

lemma decoded_waiting: "(\<And>p m. fewer_waiting m (change p m)) \<Longrightarrow> moves fewer_waiting (decoded payload change)"
  unfolding decoded_def by (intro waiting.steps waiting.update)

lemma event_waiting: "moves fewer_waiting (apply_event cx event)"
  unfolding apply_event_def Let_def
  by (auto intro!: waiting.steps waiting.update decoded_waiting fewer_same simp: begin_tool_def complete_tool_def show_approval_def)

lemma response_waiting: "moves fewer_waiting (apply_response cx pending result)"
proof (cases pending)
  case PendingList
  have "fewer_waiting m (m\<lparr>um_sessions := ss, um_selected_session := min (um_selected_session m) (length ss - 1), um_screen := x, um_status := t\<rparr>)"
    for m ss x t by (cases ss) (simp_all add: fewer_waiting_def selected_ok_def min_def)
  then show ?thesis using PendingList by (auto intro!: waiting.steps waiting.update)
qed (auto intro!: waiting.steps waiting.update fewer_same simp: show_resumed_def)

lemma frame_waiting: "moves fewer_waiting (apply_frame cx message)"
proof -
  have "fewer_waiting m (m\<lparr>um_pending := (um_pending m)(i := None)\<rparr>)" for m i
    by (simp add: fewer_waiting_def selected_ok_def map_le_def)
  then have "moves fewer_waiting (take_pending i)" for i
    unfolding take_pending_def by (intro waiting.steps waiting.update)
  then show ?thesis
    unfolding apply_frame_def
    by (auto intro!: waiting.steps waiting.update event_waiting response_waiting fewer_same simp: show_error_def split: option.split)
qed

lemma keeps_model:
  assumes "moves fewer_waiting m"
  shows "keeps requests_tracked (on_model m)"
proof (rule keepsI)
  fix s assume s: "requests_tracked s"
  obtain r t where run: "m (tu_model s) = (r, t)" by fastforce
  have "fewer_waiting (tu_model s) t" by (rule movesD [OF assms run])
  then have "requests_tracked (s\<lparr>tu_model := t\<rparr>)"
    using s by (auto simp: requests_tracked_def Let_def fewer_waiting_def map_le_def dom_def)
  then show "wp (on_model m) (\<lambda>_. requests_tracked) (\<lambda>_ _. True) s"
    by (simp add: wp_def on_model_def act_zoom_def run split: sum.split)
qed

lemma keeps_changes: "(\<And>m. fewer_waiting m (f m)) \<Longrightarrow> keeps requests_tracked (changes f)"
  unfolding changes_def by (intro keeps_model waiting.update)

lemma word_below: "unat (w :: u64) < 2 ^ 64"
  using unsigned_less [where 'a = nat, of w] by simp

lemma keeps_track:
  assumes "name = request_name pending"
  shows "keeps requests_tracked (track_request pending name params)"
proof (rule keepsI)
  fix s assume s: "requests_tracked s"
  let ?c = "tu_client s"
  let ?i = "gc_next_id ?c"
  let ?q = "\<lparr>gq_jsonrpc = json_rpc_version, gq_id = ju64 ?i, gq_method = name, gq_params = params\<rparr>"
  have "length (map gq_id (gc_sent ?c)) = unat ?i - 1" using s by (simp add: requests_tracked_def Let_def)
  then have len: "length (gc_sent ?c) = unat ?i - 1" by simp
  show "wp (track_request pending name params) (\<lambda>_. requests_tracked) (\<lambda>_ _. True) s"
  proof (cases "unat ?i + 1 = 2 ^ 64 \<or> (\<exists>fault faults. gc_faults ?c = Some fault # faults)")
    case True
    then show ?thesis
      by (auto simp: wp_def track_request_def on_client_def act_zoom_def act_bind_def client_request_def Let_def)
  next
    case False
    then have "unat ?i + 1 < 2 ^ 64" using word_below [of ?i] by linarith
    then have next_id: "unat (?i + 1) = unat ?i + 1" by (simp add: unat_word_ariths)
    let ?s = "\<lparr>tu_model = track ?i pending (tu_model s),
       tu_client = ?c\<lparr>gc_next_id := ?i + 1, gc_sent := gc_sent ?c @ [?q], gc_faults := tl (gc_faults ?c)\<rparr>, \<dots> = tui.more s\<rparr>"
    have waiting: "unat j \<in> {1..<unat ?i + 1} \<and> gq_method ((gc_sent ?c @ [?q]) ! (unat j - 1)) = request_name p"
      if "((um_pending (tu_model s))(?i \<mapsto> pending)) j = Some p" for j p
    proof (cases "j = ?i")
      case True
      moreover have "(gc_sent ?c @ [?q]) ! (unat ?i - 1) = ?q" by (simp only: len [symmetric] nth_append_length)
      ultimately show ?thesis using that s assms by (simp add: requests_tracked_def Let_def)
    next
      case False
      then have "unat j \<in> {1..<unat ?i}" "gq_method (gc_sent ?c ! (unat j - 1)) = request_name p"
        using that s by (auto simp: requests_tracked_def Let_def)
      then show ?thesis using len by (auto simp: nth_append)
    qed
    have "[1..<unat ?i + 1] = [1..<unat ?i] @ [unat ?i]" using s by (simp add: requests_tracked_def Let_def)
    then have "requests_tracked ?s"
      using s waiting next_id
      by (auto simp: requests_tracked_def Let_def track_def selected_ok_def simp del: One_nat_def)
    moreover have "track_request pending name params s = (Ok (), ?s)"
      using False
      by (cases s) (auto simp: track_request_def on_client_def changes_def on_model_def act_zoom_def act_bind_def act_update_def
          client_request_def Let_def split: list.splits option.splits)
    ultimately show ?thesis by (simp add: wp_def)
  qed
qed


lemma keeps_read_model: "keeps requests_tracked (on_model (act_read f))" "keeps requests_tracked (on_model (act_try g))"
  by (intro keeps_model waiting.steps)+

lemmas tui_keeps = keeps_intros keeps_read_model keeps_changes keeps_track

lemma keeps_requests:
  "keeps requests_tracked (tui_resume sid)" "keeps requests_tracked tui_interrupt" "keeps requests_tracked (respond_approval choice)"
  "keeps requests_tracked (apply_model_action action)" "keeps requests_tracked submit_draft"
proof -
  show resume: "keeps requests_tracked (tui_resume sid)" for sid
    unfolding tui_resume_def by (intro tui_keeps) (simp_all add: fewer_same)
  show "keeps requests_tracked tui_interrupt"
    unfolding tui_interrupt_def tui_active_session_def by (intro tui_keeps) (simp_all add: fewer_same)
  show "keeps requests_tracked (respond_approval choice)"
    unfolding respond_approval_def tui_active_session_def by (intro tui_keeps) simp
  show "keeps requests_tracked (apply_model_action action)"
    by (cases action) (auto simp: tui_active_session_def intro!: tui_keeps resume)
  show "keeps requests_tracked submit_draft"
    unfolding submit_draft_def tui_active_session_def by (intro tui_keeps) (simp_all add: fewer_same begin_submit_def)
qed

lemma keeps_keys:
  "keeps requests_tracked (handle_session_key key)" "keeps requests_tracked (handle_approval_key key)"
  "keeps requests_tracked (compose_key key m)"
proof -
  have select: "fewer_waiting m (m\<lparr>um_selected_session := um_selected_session m - 1\<rparr>)"
    "fewer_waiting m (m\<lparr>um_selected_session := min (um_selected_session m + 1) (length (um_sessions m) - 1)\<rparr>)" for m
    by (cases "um_sessions m"; auto simp: fewer_waiting_def selected_ok_def)+
  show "keeps requests_tracked (handle_session_key key)"
    unfolding handle_session_key_def by (intro tui_keeps keeps_requests) (simp_all add: fewer_same select [simplified])
  show "keeps requests_tracked (handle_approval_key key)"
    unfolding handle_approval_key_def Let_def by (intro tui_keeps keeps_requests) (simp_all add: fewer_same)
  show "keeps requests_tracked (compose_key key m)"
    unfolding compose_key_def Let_def
    by (auto intro!: tui_keeps keeps_requests simp: fewer_same split: key_code.split)
qed

lemma keeps_input: "keeps requests_tracked (handle_input cx input)"
proof (cases input)
  case (FrameInput message)
  then show ?thesis by (auto intro!: tui_keeps keeps_requests keeps_model frame_waiting)
next
  case (TerminalInput event)
  have "keeps requests_tracked (handle_key key)" for key
    unfolding handle_key_def handle_chat_key_def
  proof (intro keeps_bind keeps_read_model, goal_cases)
    case (1 screen)
    show ?case
      by (cases screen) (simp_all add: keeps_return keeps_keys, intro tui_keeps keeps_keys keeps_requests, simp_all add: fewer_same)
  qed
  then have "keeps requests_tracked (handle_terminal_event e)" for e
    by (cases e) (simp_all add: keeps_return, intro tui_keeps, simp add: fewer_same)
  then show ?thesis using TerminalInput by (auto intro!: tui_keeps)
qed

lemma keeps_loop: "keeps requests_tracked (tui_loop cx rounds)"
  by (induction rounds) (auto intro!: tui_keeps keeps_input)

text \<open>
  C37. The client tells its requests apart: while it runs, its requests carry the identities 1, 2, 3 and so on, each waiting
  entry belongs to a request that was sent under its identity and asks for what the entry says, and the selected session
  exists.
\<close>

theorem tui_answers_belong_to_requests:
  assumes "run_loop cx rounds (tui_start faults) = (Inr quit, s)"
  shows "requests_tracked s"
proof -
  have "requests_tracked (tui_start faults)"
    by (simp add: requests_tracked_def tui_start_def client_start_def app_model_default_def selected_ok_def)
  moreover have "keeps requests_tracked (run_loop cx rounds)"
    unfolding run_loop_def by (intro tui_keeps keeps_loop) simp
  ultimately show ?thesis using keepsD assms by metis
qed


section \<open>What a key may send\<close>

text \<open>
  The reason of every request: the key that was pressed, and what the client showed at that moment.
\<close>

fun pressed_key :: "tui_input \<Rightarrow> key_event option" where
  "pressed_key (TerminalInput (Some (Inr (TermKey key)))) = (if ke_kind key = KeyPress then Some key else None)"
| "pressed_key _ = None"

definition asked_in_chat :: "key_event \<Rightarrow> app_model \<Rightarrow> string \<Rightarrow> gateway_request \<Rightarrow> bool" where
  "asked_in_chat key m sid q \<longleftrightarrow>
     gq_method q = ''prompt.submit'' \<and> ke_code key = KeyEnter \<and> um_approval m = None \<and> \<not> um_busy m \<and> trim (um_draft m) \<noteq> []
       \<and> gq_params q = jobject [(''session_id'', JString sid), (''text'', JString (um_draft m))]
   \<or> gq_method q = ''approval.respond'' \<and> (\<exists>view choice. um_approval m = Some view
       \<and> gq_params q = jobject [(''session_id'', JString sid), (''choice'', JString choice)]
       \<and> (choice = ''once'' \<and> (ke_code key = KeyChar ''y'' \<and> plain_key key \<or> ke_code key = KeyEnter \<and> uv_selected view = 0)
          \<or> choice = ''deny'' \<and> (ke_code key \<in> {KeyChar ''n'', KeyEsc} \<and> plain_key key \<or> ke_code key = KeyEnter \<and> uv_selected view \<noteq> 0)))
   \<or> gq_method q = ''session.interrupt'' \<and> \<not> um_interrupting m \<and> (ctrl_c key \<or> ke_code key = KeyEsc)
       \<and> (um_busy m \<or> um_approval m \<noteq> None) \<and> gq_params q = jobject [(''session_id'', JString sid)]"

definition asked_for :: "tui_input \<Rightarrow> app_model \<Rightarrow> gateway_request \<Rightarrow> bool" where
  "asked_for input m q \<longleftrightarrow>
     (case pressed_key input of
        None \<Rightarrow> (\<exists>f. input = FrameInput (Ok f)) \<and> gq_method q = ''session.resume''
      | Some key \<Rightarrow>
          (case um_screen m of
             ScreenLoading \<Rightarrow> False
           | ScreenSessions \<Rightarrow>
               gq_method q = ''session.create'' \<and> ke_code key = KeyChar ''n'' \<and> plain_key key
             \<or> gq_method q = ''session.resume'' \<and> ke_code key = KeyEnter \<and> um_sessions m \<noteq> []
               \<and> gq_params q = jobject [(''session_id'', JString (us_id (um_sessions m ! um_selected_session m)))]
           | ScreenChat \<Rightarrow>
               gq_method q = ''session.list'' \<and> ke_code key = KeyF 2 \<and> \<not> um_busy m \<and> um_approval m = None
             \<or> (\<exists>sid. um_active_session m = Some sid \<and> asked_in_chat key m sid q)))"

text \<open>Operations that send nothing, or one request.\<close>

definition sends :: "(gateway_request \<Rightarrow> bool) \<Rightarrow> tui \<Rightarrow> tui \<Rightarrow> bool" where
  "sends P s s' \<longleftrightarrow> (\<exists>new. gc_sent (tu_client s') = gc_sent (tu_client s) @ new \<and> list_all P new)"

interpretation sending: frame "sends P"
  by unfold_locales (auto simp: sends_def)

lemma sends_mono: "moves (sends P) a \<Longrightarrow> (\<And>q. P q \<Longrightarrow> Q q) \<Longrightarrow> moves (sends Q) a"
  by (auto simp: moves_def sends_def list_all_iff) blast

lemma sends_model [simp]: "moves (sends P) (on_model a)" "moves (sends P) (changes f)"
  by (auto simp: moves_def sends_def on_model_def changes_def act_zoom_def split: prod.splits)

lemma sends_request:
  assumes "\<And>q. gq_method q = name \<Longrightarrow> gq_params q = params \<Longrightarrow> P q"
  shows "moves (sends P) (track_request pending name params)"
proof -
  have "moves (sends P) (on_client (client_request name params))"
    using assms
    by (auto simp: moves_def sends_def on_client_def act_zoom_def client_request_def Let_def split: prod.splits list.splits option.splits if_splits)
  then show ?thesis unfolding track_request_def by (intro sending.steps sends_model)
qed

lemma sends_session:
  assumes "\<And>sid. um_active_session (tu_model s) = Some sid \<Longrightarrow> sends P s (snd (k sid s))"
  shows "sends P s (snd (act_bind tui_active_session k s))"
  using assms
  by (cases "um_active_session (tu_model s)")
    (simp_all add: tui_active_session_def on_model_def act_zoom_def act_try_def act_bind_def ok_or_def sends_def)

lemma sends_changed:
  "sends P (s\<lparr>tu_model := m\<rparr>) s' = sends P s s'"
  by (simp add: sends_def)

lemma sends_from: "moves (sends P) a \<Longrightarrow> sends P s (snd (a (s\<lparr>tu_model := m\<rparr>)))"
  by (metis moves_def sends_changed)

lemma act_bind_changes: "act_bind (changes f) k s = k () (s\<lparr>tu_model := f (tu_model s)\<rparr>)"
  by (simp add: act_bind_def changes_def on_model_def act_zoom_def act_update_def)

lemma act_bind_model: "act_bind (on_model (act_read f)) k s = k (f (tu_model s)) s"
  by (simp add: act_bind_def on_model_def act_zoom_def act_read_def)

lemma sends_done: "moves (sends P) a \<Longrightarrow> sends P s (snd (act_bind a (\<lambda>_. act_return x) s))"
  using sending.steps by (metis moves_def)

lemma sends_resume:
  assumes "\<And>q. gq_method q = ''session.resume'' \<Longrightarrow> gq_params q = jobject [(''session_id'', JString sid)] \<Longrightarrow> P q"
  shows "moves (sends P) (tui_resume sid)"
  unfolding tui_resume_def using assms by (intro sending.steps sends_model sends_request)

lemma sends_interrupt:
  assumes "\<And>q sid. um_active_session (tu_model s) = Some sid \<Longrightarrow> \<not> um_interrupting (tu_model s) \<Longrightarrow> gq_method q = ''session.interrupt''
     \<Longrightarrow> gq_params q = jobject [(''session_id'', JString sid)] \<Longrightarrow> P q"
  shows "sends P s (snd (act_bind tui_interrupt (\<lambda>_. act_return x) s))"
proof (cases "um_interrupting (tu_model s)")
  case True
  then show ?thesis by (simp add: tui_interrupt_def act_bind_def act_return_def on_model_def act_zoom_def act_read_def sends_def)
next
  case False
  have "sends P s (snd (act_bind tui_active_session (\<lambda>sid. act_bind (changes (\<lambda>m. m\<lparr>um_interrupting := True, um_status := ''interrupting''\<rparr>))
      (\<lambda>_. track_request PendingInterrupt ''session.interrupt'' (jobject [(''session_id'', JString sid)]))) s))" (is "sends P s (snd (?a s))")
    by (rule sends_session) (use assms False in \<open>auto simp: act_bind_changes intro!: sends_from sends_request\<close>)
  moreover have "tui_interrupt s = ?a s" using False by (simp add: tui_interrupt_def act_bind_model)
  ultimately show ?thesis by (auto simp: act_bind_def act_return_def split: prod.splits sum.splits)
qed

lemma sends_answer:
  assumes "\<And>q sid. um_active_session (tu_model s) = Some sid \<Longrightarrow> gq_method q = ''approval.respond''
     \<Longrightarrow> gq_params q = jobject [(''session_id'', JString sid), (''choice'', JString choice)] \<Longrightarrow> P q"
  shows "sends P s (snd (act_bind (respond_approval choice) (\<lambda>_. act_return x) s))"
proof -
  have "sends P s (snd (respond_approval choice s))"
    unfolding respond_approval_def by (rule sends_session) (use assms sends_request in \<open>auto simp: moves_def\<close>)
  then show ?thesis by (auto simp: act_bind_def act_return_def split: prod.splits sum.splits)
qed

lemma sends_moves: "moves (sends P) a \<Longrightarrow> sends P s (snd (a s))"
  by (simp add: moves_def)

lemma sends_simple:
  "sends P s (snd (act_bind (changes f) (\<lambda>_. act_return x) s))" "sends P s (snd (act_return x s))"
  by (simp_all add: act_bind_changes act_return_def sends_changed) (simp_all add: sends_def)

lemma sends_resume_done:
  assumes "\<And>q. gq_method q = ''session.resume'' \<Longrightarrow> gq_params q = jobject [(''session_id'', JString sid)] \<Longrightarrow> P q"
  shows "sends P s (snd (act_bind (tui_resume sid) (\<lambda>_. act_return x) s))"
  by (rule sends_done [OF sends_resume]) (rule assms)

lemma sends_loading:
  assumes "\<And>q. gq_method q = name \<Longrightarrow> gq_params q = params \<Longrightarrow> P q"
  shows "sends P s (snd (act_bind (changes f) (\<lambda>_. act_bind (track_request pending name params) (\<lambda>_. act_return x)) s))"
    "sends P s (snd (act_bind (act_bind (changes f) (\<lambda>_. track_request pending name params)) (\<lambda>_. act_return x) s))"
  by (rule sends_moves, intro sending.steps sends_model sends_request, erule assms, assumption)+

lemma bind_return [simp]: "act_bind (act_return x) k = k x"
  by (simp add: fun_eq_iff act_bind_def act_return_def)

lemmas sends_last = sends_simple sends_resume_done sends_loading sends_answer sends_interrupt

lemma session_key_sends:
  assumes "ke_kind key = KeyPress" "um_screen (tu_model s) = ScreenSessions"
  shows "sends (asked_for (TerminalInput (Some (Ok (TermKey key)))) (tu_model s)) s (snd (handle_session_key key s))"
  unfolding handle_session_key_def act_bind_model
  using assms by (auto simp: asked_for_def intro!: sends_last)

lemma act_bind_approval:
  "um_approval (tu_model s) = Some view
     \<Longrightarrow> act_bind (on_model (act_try (\<lambda>m. ok_or ''approval disappeared'' (um_approval m)))) k s = k view s"
  by (simp add: act_bind_def on_model_def act_zoom_def act_try_def ok_or_def)

lemma approval_key_sends:
  assumes "ke_kind key = KeyPress" "um_screen (tu_model s) = ScreenChat" "um_approval (tu_model s) = Some view"
  shows "sends (asked_for (TerminalInput (Some (Ok (TermKey key)))) (tu_model s)) s (snd (handle_approval_key key s))"
  unfolding handle_approval_key_def act_bind_approval [OF assms(3)] Let_def
  using assms by (auto simp: asked_for_def asked_in_chat_def intro!: sends_last)

lemma submit_sends:
  assumes "\<And>q sid. um_active_session (tu_model s) = Some sid \<Longrightarrow> gq_method q = ''prompt.submit''
     \<Longrightarrow> gq_params q = jobject [(''session_id'', JString sid), (''text'', JString (um_draft (tu_model s)))] \<Longrightarrow> P q"
  shows "sends P s (snd (submit_draft s))"
  unfolding submit_draft_def act_bind_model
  by (rule sends_session) (use assms in \<open>auto intro!: sends_loading\<close>)

lemma chat_key_sends:
  assumes "ke_kind key = KeyPress" "um_screen (tu_model s) = ScreenChat"
  shows "sends (asked_for (TerminalInput (Some (Ok (TermKey key)))) (tu_model s)) s (snd (handle_chat_key key s))"
proof (cases "um_approval (tu_model s)")
  case None
  have "sends (asked_for (TerminalInput (Some (Ok (TermKey key)))) (tu_model s)) s (snd (compose_key key (tu_model s) s))" if "\<not> ctrl_c key"
    unfolding compose_key_def Let_def
    using assms None that
    by (auto simp: asked_for_def asked_in_chat_def intro!: sends_last submit_sends split: key_code.split)
  then show ?thesis
    unfolding handle_chat_key_def act_bind_model
    using assms None by (auto simp: asked_for_def asked_in_chat_def intro!: sends_last)
next
  case (Some view)
  then show ?thesis using approval_key_sends [OF assms Some] by (simp add: handle_chat_key_def act_bind_model)
qed

text \<open>
  C36. The client sends what the user asked for and nothing else: a prompt only when Enter is pressed while no turn runs and no
  approval is shown, with what was typed; an approval only while one is shown, allowed once only by y or by Enter on that
  choice; frames of the gateway make it reload a session and cause no other request.
\<close>

theorem tui_sends_what_was_asked:
  "\<exists>new. gc_sent (tu_client (snd (handle_input cx input s))) = gc_sent (tu_client s) @ new \<and> list_all (asked_for input (tu_model s)) new"
proof -
  have "sends (asked_for input (tu_model s)) s (snd (handle_input cx input s))"
  proof (cases input)
    case (FrameInput message)
    show ?thesis
    proof (cases message)
      case (Inl e)
      then show ?thesis using FrameInput by (simp add: act_bind_def act_lift_def sends_def)
    next
      case (Inr f)
      have "moves (sends (asked_for input (tu_model s))) (apply_model_action action)" for action
        by (cases action; simp add: tui_active_session_def; intro sending.steps sends_model sends_resume)
          (simp_all add: asked_for_def FrameInput Inr)
      then show ?thesis using FrameInput by (auto intro!: sends_moves sending.steps sends_model)
    qed
  next
    case (TerminalInput event)
    show ?thesis
    proof (cases "\<exists>key. event = Some (Ok (TermKey key)) \<and> ke_kind key = KeyPress")
      case True
      then obtain key where key: "event = Some (Ok (TermKey key))" "ke_kind key = KeyPress" by blast
      then show ?thesis
        using TerminalInput session_key_sends [OF key(2), of s] chat_key_sends [OF key(2), of s]
        by (cases "um_screen (tu_model s)") (simp_all add: act_bind_def [of "act_lift _"] act_lift_def handle_key_def act_bind_model sends_simple)
    next
      case False
      have "sends P s (snd (handle_terminal_event e s))" if "event = Some (Ok e)" for e P
        using that False by (cases e) (auto intro: sends_simple)
      then show ?thesis
        using TerminalInput by (cases event) (auto simp: act_bind_def act_lift_def sends_def split: sum.splits)
    qed
  qed
  then show ?thesis by (simp add: sends_def)
qed

section \<open>A resumed session\<close>

text \<open>What the generated decoders read of a JSON object that has all fields of the record.\<close>

definition read_field :: "json \<Rightarrow> string \<Rightarrow> (json \<Rightarrow> 'a option) \<Rightarrow> 'a option" where
  "read_field v name get = Option.bind (json_get v name) get"

fun read_bool :: "json \<Rightarrow> bool option" where
  "read_bool (JBool b) = Some b"
| "read_bool _ = None"

fun read_list :: "(json \<Rightarrow> 'a option) \<Rightarrow> json \<Rightarrow> 'a list option" where
  "read_list get (JArray vs) = those (map get vs)"
| "read_list get _ = None"

definition read_shown :: "json \<Rightarrow> transcript_message option" where
  "read_shown v = Option.bind (read_field v ''role'' json_as_str) (\<lambda>role.
     Option.bind (read_field v ''text'' json_as_str) (\<lambda>t. Some \<lparr>ut_role = role, ut_text = t\<rparr>))"

definition read_info :: "json \<Rightarrow> tui_session_info option" where
  "read_info v = Option.bind (read_field v ''engine'' json_as_str) (\<lambda>engine.
     Option.bind (read_field v ''model'' json_as_str) (\<lambda>model. Some \<lparr>ui_engine = engine, ui_model = model\<rparr>))"

definition read_resumed :: "json \<Rightarrow> resumed_session option" where
  "read_resumed v =
     Option.bind (read_field v ''session_id'' json_as_str) (\<lambda>sid.
     Option.bind (read_field v ''messages'' (read_list read_shown)) (\<lambda>messages.
     Option.bind (read_field v ''running'' read_bool) (\<lambda>running.
     Option.bind (read_field v ''status'' json_as_str) (\<lambda>status.
     Option.bind (read_field v ''info'' read_info) (\<lambda>info.
     Some \<lparr>ud_session_id = sid, ud_messages = messages, ud_running = running, ud_status = status, ud_info = info\<rparr>)))))"

definition read_success :: "json \<Rightarrow> response_envelope option" where
  "read_success v = (case (json_get v ''id'', json_get v ''error'') of
     (Some i, None) \<Rightarrow> Some \<lparr>ur_id = i, ur_result = (case json_get v ''result'' of Some JNull \<Rightarrow> None | result \<Rightarrow> result), ur_error = None\<rparr>
   | _ \<Rightarrow> None)"

definition codec_reads :: "tui_codec \<Rightarrow> bool" where
  "codec_reads cx \<longleftrightarrow> (\<forall>v e. read_success v = Some e \<longrightarrow> uc_response cx v = Ok e)
     \<and> (\<forall>v r. read_resumed v = Some r \<longrightarrow> uc_resumed cx v = Ok r)"

definition tui_codec_sample :: tui_codec where
  "tui_codec_sample =
     \<lparr>uc_response = (\<lambda>v. ok_or ''invalid'' (read_success v)), uc_event = (\<lambda>_. Err ''invalid''),
      uc_list = (\<lambda>_. Ok [\<lparr>us_id = ''p'', us_message_count = 0\<rparr>]), uc_created = (\<lambda>_. Ok ''p''),
      uc_resumed = (\<lambda>v. ok_or ''invalid'' (read_resumed v)), uc_text = (\<lambda>_. Ok []), uc_tool = (\<lambda>_. Err ''invalid''),
      uc_approval = (\<lambda>_. Err ''invalid''), uc_info = (\<lambda>_. Err ''invalid'')\<rparr>"

definition listing_rounds :: "tui_round list" where
  "listing_rounds =
     [\<lparr>tr_draw = Ok (), tr_input = FrameInput (Ok (gateway_success (ju64 1) (jobject [(''sessions'', JArray [])])))\<rparr>,
      \<lparr>tr_draw = Ok (), tr_input = TerminalInput (Some (Ok (TermKey \<lparr>ke_code = KeyEnter, ke_control = False, ke_other_modifiers = False, ke_kind = KeyPress\<rparr>)))\<rparr>]"

lemma track_request_ok:
  assumes "gc_faults (tu_client s) = []" "unat (gc_next_id (tu_client s)) + 1 < 2 ^ 64"
  shows "track_request pending name params s = (Ok (),
    s\<lparr>tu_model := track (gc_next_id (tu_client s)) pending (tu_model s),
      tu_client := (tu_client s)\<lparr>gc_next_id := gc_next_id (tu_client s) + 1,
        gc_sent := gc_sent (tu_client s) @ [\<lparr>gq_jsonrpc = json_rpc_version, gq_id = ju64 (gc_next_id (tu_client s)),
          gq_method = name, gq_params = params\<rparr>]\<rparr>\<rparr>)"
  using assms
  by (cases "tu_client s")
    (simp add: track_request_def on_client_def act_zoom_def act_bind_def client_request_def Let_def changes_def on_model_def act_update_def)

lemma listing_runs:
  "\<exists>s. run_loop tui_codec_sample listing_rounds (tui_start []) = (Ok False, s) \<and> um_pending (tu_model s) 2 = Some PendingResume"
proof -
  let ?f = "gateway_success (ju64 1) (jobject [(''sessions'', JArray [])])"
  let ?m = "track 1 PendingList app_model_default"
  let ?m1 = "?m\<lparr>um_pending := (\<lambda>_. None), um_sessions := [\<lparr>us_id = ''p'', us_message_count = 0\<rparr>], um_screen := ScreenSessions,
    um_status := ''select or create a session''\<rparr>"
  let ?c = "\<lparr>gc_next_id = 2, gc_sent = [\<lparr>gq_jsonrpc = json_rpc_version, gq_id = ju64 1, gq_method = ''session.list'', gq_params = jobject []\<rparr>],
    gc_faults = []\<rparr>"
  have "\<not> is_event_frame ?f" by (simp add: is_event_frame_def gateway_success_def jobject_get)
  moreover have "uc_response tui_codec_sample ?f = Ok \<lparr>ur_id = ju64 1, ur_result = Some (jobject [(''sessions'', JArray [])]), ur_error = None\<rparr>"
    by (simp add: tui_codec_sample_def read_success_def gateway_success_def jobject_get ok_or_def) (simp add: jobject_def)
  ultimately have "apply_frame tui_codec_sample ?f ?m = (Ok [], ?m1)"
    by (simp add: apply_frame_def take_pending_def act_bind_def act_lift_def act_read_def act_update_def act_return_def ju64_def ok_or_def
        track_def app_model_default_def tui_codec_sample_def fun_eq_iff)
  moreover have "track_request PendingList ''session.list'' (jobject []) (tui_start []) = (Ok (), \<lparr>tu_model = ?m, tu_client = ?c\<rparr>)"
    by (simp add: track_request_ok tui_start_def client_start_def)
  ultimately have "run_loop tui_codec_sample listing_rounds (tui_start [])
      = act_bind (tui_resume ''p'') (\<lambda>_. act_return False) \<lparr>tu_model = ?m1, tu_client = ?c\<rparr>"
    by (simp add: run_loop_def listing_rounds_def act_bind_def act_lift_def act_return_def on_model_def act_zoom_def handle_key_def act_read_def
        handle_session_key_def ctrl_c_def track_def app_model_default_def split: prod.split sum.split)
  also have "\<dots> = (Ok False, snd (track_request PendingResume ''session.resume'' (jobject [(''session_id'', JString ''p'')])
      \<lparr>tu_model = ?m1\<lparr>um_screen := ScreenLoading, um_status := ''loading canonical session''\<rparr>, tu_client = ?c\<rparr>))"
    by (simp add: tui_resume_def track_request_ok act_bind_def changes_def on_model_def act_zoom_def act_update_def act_return_def)
  finally show ?thesis by (simp add: track_request_ok track_def)
qed

theorem tui_answers_belong_to_requests_witness:
  "\<exists>s. run_loop tui_codec_sample listing_rounds (tui_start []) = (Ok False, s) \<and> requests_tracked s
     \<and> um_pending (tu_model s) 2 = Some PendingResume"
  using listing_runs tui_answers_belong_to_requests [of tui_codec_sample listing_rounds "[]" False] by blast

text \<open>What a stored conversation looks like in the client, and the note about a turn that was not committed.\<close>

fun shown_entry :: "semantic_message \<Rightarrow> transcript_message" where
  "shown_entry (User content display) = \<lparr>ut_role = ''user'', ut_text = (case display of None \<Rightarrow> content | Some shown \<Rightarrow> shown)\<rparr>"
| "shown_entry (Assistant content reasoning replay) = \<lparr>ut_role = ''assistant'', ut_text = content\<rparr>"
| "shown_entry (AssistantToolRequest content calls reasoning replay) = \<lparr>ut_role = ''assistant'', ut_text = opt_str content\<rparr>"
| "shown_entry (ToolResultBatch results) = \<lparr>ut_role = ''tool'', ut_text = join_lines (map tr_content results)\<rparr>"

definition shown_recovery :: "foreground_turn_snapshot option \<Rightarrow> transcript_message list" where
  "shown_recovery latest =
     (case latest of
        Some turn \<Rightarrow>
          (case fn_state turn of
             TurnTerminal outcome at \<Rightarrow>
               (case recovery_note outcome of
                  Some (reason, note) \<Rightarrow> [\<lparr>ut_role = ''user'', ut_text = fs_prompt (fn_spec turn)\<rparr>, \<lparr>ut_role = ''system'', ut_text = note\<rparr>]
                | None \<Rightarrow> [])
           | _ \<Rightarrow> [])
      | None \<Rightarrow> [])"

lemma read_entry: "read_shown (transcript_entry m) = Some (shown_entry m)"
  by (cases m rule: shown_entry.cases) (simp_all add: read_shown_def read_field_def jobject_get)

lemma those_append: "those (xs @ ys) = Option.bind (those xs) (\<lambda>as. Option.bind (those ys) (\<lambda>bs. Some (as @ bs)))"
  by (induction xs) (simp_all split: option.split Option.bind_split)

lemma read_projection:
  "those (map read_shown (rv_messages (resume_projection conversation latest busy)))
     = Some (map shown_entry conversation @ shown_recovery latest)"
proof -
  have "those (map read_shown (transcript conversation)) = Some (map shown_entry conversation)"
    by (induction conversation) (simp_all add: transcript_def read_entry)
  then show ?thesis
    by (auto simp: resume_projection_def Let_def shown_recovery_def those_append read_shown_def read_field_def jobject_get
        split: option.split foreground_turn_state.split)
qed

lemma zoom_ok: "act_zoom get put m s = (Inr x, s') \<longleftrightarrow> (\<exists>t. m (get s) = (Inr x, t) \<and> s' = put t s)"
  by (auto simp: act_zoom_def split: prod.splits)

lemma resume_parts:
  assumes "gateway_resume ge params g = (Inr result, g')"
  obtains sid snapshot latest settings where
    "and_then (session_param params) (\<lambda>name. map_err (internal_error \<circ> id_error_text) (session_id_new name)) = Ok sid"
    "sessions_of (gv_serde ge) (lv_db (gt_live g)) sid = Some snapshot"
    "latest_turn (gv_serde ge) sid (lv_db (gt_live g)) = (Inr latest, lv_db (gt_live g))"
    "settings_for_host (sx_debug_str (gv_serde ge)) snapshot (gv_settings ge) = Inr settings"
    "result = (let view = resume_projection (ss_conversation snapshot) latest (is_busy (session_id_str sid) g);
        name = JString (session_id_str sid) in
      jobject [(''session_id'', name), (''resumed'', name), (''session_key'', name),
         (''message_count'', jnat (length (ss_conversation snapshot))), (''messages'', JArray (rv_messages view)),
         (''inflight'', rv_inflight view), (''recovery'', rv_recovery view), (''running'', JBool (is_busy (session_id_str sid) g)),
         (''status'', session_status (is_busy (session_id_str sid) g)), (''started_at'', jnat 0), (''info'', session_info (gv_version ge) settings)])"
proof -
  let ?sx = "gv_serde ge"
  have load: "h = g \<and> sessions_of ?sx (lv_db (gt_live g)) sid = Some snapshot"
    if "gateway_sessions ge session_rpc_error (session_load ?sx sid) g = (Inr snapshot, h)" for sid snapshot h
    using that
    by (auto simp: gateway_sessions_def act_bind_ok act_map_err_ok on_live_def zoom_ok open_sessions_def act_lift_def live_db_def
        session_load_def act_try_def sessions_of_def split: sum.splits option.splits)
  have latest: "h = g \<and> latest_turn ?sx sid (lv_db (gt_live g)) = (Inr latest, lv_db (gt_live g))"
    if "act_map_err (internal_error \<circ> foreground_store_error_text) (on_live (on_turns ge (latest_turn ?sx sid))) g = (Inr latest, h)" for sid latest h
    using that
    by (auto simp: act_map_err_ok on_live_def zoom_ok on_turns_def act_bind_ok act_lift_def live_db_def split: option.splits dest: latest_same)
  let ?answer = "\<lambda>sid snapshot latest settings h. (let view = resume_projection (ss_conversation snapshot) latest (is_busy (session_id_str sid) h);
        name = JString (session_id_str sid) in
      jobject [(''session_id'', name), (''resumed'', name), (''session_key'', name),
         (''message_count'', jnat (length (ss_conversation snapshot))), (''messages'', JArray (rv_messages view)),
         (''inflight'', rv_inflight view), (''recovery'', rv_recovery view), (''running'', JBool (is_busy (session_id_str sid) h)),
         (''status'', session_status (is_busy (session_id_str sid) h)), (''started_at'', jnat 0), (''info'', session_info (gv_version ge) settings)])"
  obtain sid snapshot latest' settings h1 h2 where parts:
    "and_then (session_param params) (\<lambda>name. map_err (internal_error \<circ> id_error_text) (session_id_new name)) = Ok sid"
    "gateway_sessions ge session_rpc_error (session_load ?sx sid) g = (Inr snapshot, h1)"
    "map_err (rpc_error_new 4094) (settings_for_host (sx_debug_str ?sx) snapshot (gv_settings ge)) = Inr settings"
    "act_map_err (internal_error \<circ> foreground_store_error_text) (on_live (on_turns ge (latest_turn ?sx sid))) h1 = (Inr latest', h2)"
    "result = ?answer sid snapshot latest' settings h2"
    using assms by (auto simp: gateway_resume_def Let_def act_bind_ok act_lift_def act_read_def act_return_def)
  have h1: "h1 = g" "sessions_of ?sx (lv_db (gt_live g)) sid = Some snapshot" using load [OF parts(2)] by auto
  note latest = latest [OF parts(4) [unfolded h1(1)]]
  have "settings_for_host (sx_debug_str ?sx) snapshot (gv_settings ge) = Inr settings"
    using parts(3) by (auto simp: map_err_def split: sum.splits)
  then show ?thesis using that [OF parts(1) h1(2)] latest parts(5) by simp
qed

text \<open>
  C35. A resumed session shows what the database holds: when the gateway answers \<open>session.resume\<close>, the client replaces everything
  it showed of a session by the stored conversation, one entry per message, with the note about a turn that was not
  committed, and by whether a turn of the session runs; nothing of what it showed before survives.
\<close>

theorem resumed_session_shows_what_is_stored:
  assumes "codec_reads cx" "gateway_resume ge params g = (Inr result, g')" "um_pending m i = Some PendingResume"
  shows "\<exists>sid snapshot latest settings.
     and_then (session_param params) (\<lambda>name. map_err (internal_error \<circ> id_error_text) (session_id_new name)) = Ok sid
     \<and> sessions_of (gv_serde ge) (lv_db (gt_live g)) sid = Some snapshot
     \<and> latest_turn (gv_serde ge) sid (lv_db (gt_live g)) = (Inr latest, lv_db (gt_live g))
     \<and> settings_for_host (sx_debug_str (gv_serde ge)) snapshot (gv_settings ge) = Inr settings
     \<and> apply_frame cx (gateway_success (ju64 i) result) m
       = (Ok [], m\<lparr>um_pending := (um_pending m)(i := None), um_screen := ScreenChat,
                   um_active_session := Some (session_id_str sid),
                   um_messages := map shown_entry (ss_conversation snapshot) @ shown_recovery latest,
                   um_tools := [], um_streaming := [], um_approval := None,
                   um_busy := is_busy (session_id_str sid) g, um_interrupting := False,
                   um_status := (if is_busy (session_id_str sid) g then ''working'' else ''idle''),
                   um_engine := engine_preset_str (ls_engine settings), um_model := ls_model settings, um_scroll := 0\<rparr>)"
proof -
  let ?sx = "gv_serde ge" and ?d = "lv_db (gt_live g)"
  obtain sid snapshot latest settings where parts:
    "and_then (session_param params) (\<lambda>name. map_err (internal_error \<circ> id_error_text) (session_id_new name)) = Ok sid"
    "sessions_of ?sx ?d sid = Some snapshot" "latest_turn ?sx sid ?d = (Inr latest, ?d)"
    "settings_for_host (sx_debug_str ?sx) snapshot (gv_settings ge) = Inr settings"
    and result: "result = (let view = resume_projection (ss_conversation snapshot) latest (is_busy (session_id_str sid) g);
        name = JString (session_id_str sid) in
      jobject [(''session_id'', name), (''resumed'', name), (''session_key'', name),
         (''message_count'', jnat (length (ss_conversation snapshot))), (''messages'', JArray (rv_messages view)),
         (''inflight'', rv_inflight view), (''recovery'', rv_recovery view), (''running'', JBool (is_busy (session_id_str sid) g)),
         (''status'', session_status (is_busy (session_id_str sid) g)), (''started_at'', jnat 0), (''info'', session_info (gv_version ge) settings)])"
    by (rule resume_parts [OF assms(2)])
  let ?r = "\<lparr>ud_session_id = session_id_str sid, ud_messages = map shown_entry (ss_conversation snapshot) @ shown_recovery latest,
     ud_running = is_busy (session_id_str sid) g, ud_status = (if is_busy (session_id_str sid) g then ''working'' else ''idle''),
     ud_info = \<lparr>ui_engine = engine_preset_str (ls_engine settings), ui_model = ls_model settings\<rparr>\<rparr>"
  have "read_resumed result = Some ?r"
    by (simp add: result Let_def read_resumed_def read_field_def jobject_get read_projection session_status_def session_info_def read_info_def)
  then have "uc_resumed cx result = Ok ?r" using assms(1) by (simp add: codec_reads_def)
  moreover have "uc_response cx (gateway_success (ju64 i) result) = Ok \<lparr>ur_id = ju64 i, ur_result = Some result, ur_error = None\<rparr>"
  proof -
    have "result \<noteq> JNull" by (simp add: result Let_def jobject_def)
    then have "read_success (gateway_success (ju64 i) result) = Some \<lparr>ur_id = ju64 i, ur_result = Some result, ur_error = None\<rparr>"
      by (cases result) (simp_all add: read_success_def gateway_success_def jobject_get)
    then show ?thesis using assms(1) by (simp add: codec_reads_def)
  qed
  moreover have "\<not> is_event_frame (gateway_success (ju64 i) result)"
    by (simp add: is_event_frame_def gateway_success_def jobject_get)
  ultimately have "apply_frame cx (gateway_success (ju64 i) result) m = (Ok [], show_resumed ?r (m\<lparr>um_pending := (um_pending m)(i := None)\<rparr>))"
    using assms(3)
    by (simp add: apply_frame_def take_pending_def act_bind_def act_lift_def act_read_def act_update_def act_return_def ju64_def ok_or_def)
  then show ?thesis using parts by (simp add: show_resumed_def)
qed

lemma idle_resumes:
  "\<exists>result g'. gateway_resume gateway_env_sample (btree_of [(''session_id'', JString ''p'')]) gateway_idle = (Inr result, g')"
proof -
  let ?ge = gateway_env_sample and ?sid = "SessionId ''p''" and ?snapshot = "new_session (Session_Store.sample_config ''p'')"
  have named: "map_err f (session_id_new ''p'') = Inr ?sid" for f :: "id_error \<Rightarrow> rpc_error"
    using unpadded_plain [of "''p''"] by (simp add: map_err_def plain_char_def id_new_ok)
  have params: "session_param (btree_of [(''session_id'', JString ''p'')]) = Inr ''p''"
    by (simp add: session_param_def non_empty_param_def non_empty_def btree_get_of ok_or_def)
  have "sessions_of live_serde live_sessions ?sid = Some ?snapshot" by (simp add: live_sessions_facts(2))
  then have "session_load live_serde ?sid live_sessions = (Inr ?snapshot, live_sessions)"
    by (auto simp: session_load_def act_try_def sessions_of_def split: sum.splits)
  moreover have "ae_open_sessions (ve_agent (gv_live ?ge)) = None" "gv_open_turns ?ge = None"
    by (simp_all add: gateway_env_sample_def agent_env_sample_def)
  ultimately have load: "gateway_sessions ?ge session_rpc_error (session_load live_serde ?sid) gateway_idle = (Inr ?snapshot, gateway_idle)"
    by (simp add: gateway_sessions_def act_bind_def act_map_err_def on_live_def act_zoom_def open_sessions_def act_lift_def live_db_def idle_facts)
  have "latest_turn live_serde ?sid live_sessions = (Inr None, live_sessions)"
    by (simp add: latest_turn_def act_bind_def act_read_def act_return_def live_sessions_facts(6))
  then have latest: "act_map_err f (on_live (on_turns ?ge (latest_turn live_serde ?sid))) gateway_idle = (Inr None, gateway_idle)" for f :: "foreground_store_error \<Rightarrow> rpc_error"
    using \<open>gv_open_turns ?ge = None\<close>
    by (simp add: act_map_err_def on_live_def act_zoom_def on_turns_def act_bind_def act_lift_def live_db_def idle_facts)
  have "is_ok (settings_for_host (sx_debug_str live_serde) ?snapshot (gv_settings ?ge))"
    by (simp add: settings_for_host_def settings_from_snapshot_def engine_from_config_def provider_from_adapter_def new_session_def
        Session_Store.sample_config_def direct_from_config_def gateway_env_sample_def sample_settings_def ensure_def is_ok_iff)
  then obtain settings where "settings_for_host (sx_debug_str live_serde) ?snapshot (gv_settings ?ge) = Inr settings" by (auto simp: is_ok_iff)
  then show ?thesis
    using load latest
    by (simp add: gateway_resume_def Let_def act_bind_def act_lift_def act_read_def act_return_def params named idle_facts(2))
qed

definition resuming_tui :: app_model where
  "resuming_tui = app_model_default\<lparr>um_streaming := ''stale'', um_messages := [\<lparr>ut_role = ''user'', ut_text = ''stale''\<rparr>],
     um_tools := [\<lparr>ua_id = ''t'', ua_name = ''shell'', ua_status = ''stale''\<rparr>], um_interrupting := True, um_scroll := 3,
     um_pending := [4 \<mapsto> PendingResume]\<rparr>"

theorem resumed_session_shows_what_is_stored_witness:
  "\<exists>result g' m. gateway_resume gateway_env_sample (btree_of [(''session_id'', JString ''p'')]) gateway_idle = (Inr result, g')
     \<and> apply_frame tui_codec_sample (gateway_success (ju64 4) result) resuming_tui = (Ok [], m)
     \<and> um_active_session m \<noteq> None \<and> um_messages m = [] \<and> um_streaming m = [] \<and> um_tools m = [] \<and> um_scroll m = 0
     \<and> \<not> um_interrupting m \<and> um_screen m = ScreenChat \<and> um_pending m = (\<lambda>_. None)"
proof -
  obtain result g' where resumed: "gateway_resume gateway_env_sample (btree_of [(''session_id'', JString ''p'')]) gateway_idle = (Inr result, g')"
    using idle_resumes by blast
  have codec: "codec_reads tui_codec_sample" by (simp add: codec_reads_def tui_codec_sample_def ok_or_def)
  have waiting: "um_pending resuming_tui 4 = Some PendingResume" by (simp add: resuming_tui_def)
  have db: "gv_serde gateway_env_sample = live_serde" "lv_db (gt_live gateway_idle) = live_sessions"
    by (simp_all add: gateway_env_sample_def live_db_def idle_facts)
  have empty: "ss_conversation snapshot = []" if "sessions_of live_serde live_sessions sid = Some snapshot" for sid snapshot
    using that by (auto simp: live_sessions_facts(2) new_session_def split: if_splits)
  have none: "latest = None" if "latest_turn live_serde sid live_sessions = (Inr latest, live_sessions)" for sid latest
    using that by (simp add: latest_turn_def act_bind_def act_read_def act_return_def live_sessions_facts(6))
  show ?thesis
    using resumed_session_shows_what_is_stored [OF codec resumed waiting] resumed
    by (auto simp: db shown_recovery_def resuming_tui_def dest!: empty none)
qed

section \<open>An answer names no command\<close>

definition key_y :: key_event where
  "key_y = \<lparr>ke_code = KeyChar ''y'', ke_control = False, ke_other_modifiers = False, ke_kind = KeyPress\<rparr>"

definition allow_params :: "string \<Rightarrow> json" where
  "allow_params sid = jobject [(''session_id'', JString sid), (''choice'', JString ''once'')]"

definition asked_of :: "gateway_request \<Rightarrow> string \<times> json" where
  "asked_of q = (gq_method q, gq_params q)"

text \<open>Pressing y sends an answer and leaves the question on the screen.\<close>

lemma press_y:
  assumes "um_screen (tu_model s) = ScreenChat" "um_approval (tu_model s) = Some view" "um_active_session (tu_model s) = Some sid"
    and "gc_faults (tu_client s) = []" "unat (gc_next_id (tu_client s)) + 1 < 2 ^ 64"
  shows "handle_key key_y s = (Ok False,
    s\<lparr>tu_model := track (gc_next_id (tu_client s)) PendingApproval (tu_model s),
      tu_client := (tu_client s)\<lparr>gc_next_id := gc_next_id (tu_client s) + 1,
        gc_sent := gc_sent (tu_client s) @ [\<lparr>gq_jsonrpc = json_rpc_version, gq_id = ju64 (gc_next_id (tu_client s)),
          gq_method = ''approval.respond'', gq_params = allow_params sid\<rparr>]\<rparr>\<rparr>)"
proof -
  let ?c = "tu_client s"
  have "handle_approval_key key_y s = act_bind (respond_approval ''once'') (\<lambda>_. act_return False) s"
    using assms(2)
    by (simp add: key_y_def handle_approval_key_def plain_key_def Let_def act_bind_approval)
  then have "handle_key key_y s = act_bind (respond_approval ''once'') (\<lambda>_. act_return False) s"
    using assms(1,2) by (simp add: handle_key_def act_bind_model handle_chat_key_def)
  then show ?thesis
    using assms(3) track_request_ok [OF assms(4,5)]
    by (simp add: respond_approval_def tui_active_session_def allow_params_def act_bind_def [of "on_model _"] on_model_def act_zoom_def
        act_try_def act_return_def ok_or_def) (simp add: act_bind_def act_zoom_def act_try_def act_return_def)
qed

text \<open>
  C40. A second press of y reaches a command that was never shown: while the client shows one question, every press sends the same
  answer, which names no call; when the second answer arrives after the next command was registered, that command is
  allowed, and the screen has shown only the first one.
\<close>

theorem second_answer_allows_an_unseen_command:
  assumes "um_screen (tu_model s) = ScreenChat" "um_approval (tu_model s) = Some view"
    and "um_active_session (tu_model s) = Some (session_id_str session)"
    and "gc_faults (tu_client s) = []" "unat (gc_next_id (tu_client s)) + 2 < 2 ^ 64"
    and "\<not> ac_poisoned a" "session_queue (session_id_str session) a = [first]" "approvals_inv a" "ac_channels a ! pa_sender first = ChannelOpen"
  shows "\<exists>s1 s2 a1 i a2 a3. handle_key key_y s = (Ok False, s1) \<and> handle_key key_y s1 = (Ok False, s2)
    \<and> map asked_of (gc_sent (tu_client s2))
      = map asked_of (gc_sent (tu_client s)) @ replicate 2 (''approval.respond'', allow_params (session_id_str session))
    \<and> um_approval (tu_model s2) = Some view
    \<and> approval_respond session ''once'' a = (Ok True, a1) \<and> approval_register session call a1 = (Ok i, a2)
    \<and> approval_respond session ''once'' a2 = (Ok True, a3) \<and> ac_channels a3 ! i = Delivered Allow"
proof -
  let ?sid = "session_id_str session" and ?c = "tu_client s"
  have below: "unat (gc_next_id ?c + 1) = unat (gc_next_id ?c) + 1" using assms(5) by (simp add: unat_word_ariths)
  obtain s1 where s1: "handle_key key_y s = (Ok False, s1)" "um_screen (tu_model s1) = ScreenChat" "um_approval (tu_model s1) = Some view"
    "um_active_session (tu_model s1) = Some ?sid" "gc_faults (tu_client s1) = []" "gc_next_id (tu_client s1) = gc_next_id ?c + 1"
    "map asked_of (gc_sent (tu_client s1)) = map asked_of (gc_sent ?c) @ [(''approval.respond'', allow_params ?sid)]"
    using press_y [OF assms(1-4)] assms(1-5) by (simp add: track_def asked_of_def)
  obtain s2 where s2: "handle_key key_y s1 = (Ok False, s2)" "um_approval (tu_model s2) = Some view"
    "map asked_of (gc_sent (tu_client s2)) = map asked_of (gc_sent ?c) @ replicate 2 (''approval.respond'', allow_params ?sid)"
    using press_y [OF s1(2-5)] s1 assms(5) below by (simp add: track_def asked_of_def numeral_2_eq_2)
  have "pa_sender first < length (ac_channels a)"
  proof -
    have "map_of (ac_pending a) ?sid = Some [first]" using assms(7) by (simp add: session_queue_def split: option.splits)
    then have "pa_sender first \<in> set (waiters a)" by (force simp: waiters_def dest: map_of_SomeD)
    then show ?thesis using assms(8) by (auto simp: approvals_inv_def unused_def)
  qed
  then obtain a1 where a1: "approval_respond session ''once'' a = (Ok True, a1)" "session_queue ?sid a1 = []" "\<not> ac_poisoned a1"
    using assms(6,7,9) by (simp add: approval_respond_def decision_of_choice_def send_decision_def session_queue_put)
  obtain i a2 where a2: "approval_register session call a1 = (Ok i, a2)" "i = length (ac_channels a1)"
    "session_queue ?sid a2 = [\<lparr>pa_call_id = call, pa_sender = i\<rparr>]" "\<not> ac_poisoned a2" "ac_channels a2 = ac_channels a1 @ [ChannelOpen]"
    using a1(2,3) by (simp add: approval_register_def Let_def session_queue_put)
  obtain a3 where "approval_respond session ''once'' a2 = (Ok True, a3)" "ac_channels a3 ! i = Delivered Allow"
    using a2(2-5) by (simp add: approval_respond_def decision_of_choice_def send_decision_def)
  then show ?thesis using s1(1) s2 a1(1) a2(1) by blast
qed

definition asking_tui :: tui where
  "asking_tui = \<lparr>tu_model = app_model_default\<lparr>um_screen := ScreenChat, um_active_session := Some ''p'', um_busy := True,
       um_approval := Some \<lparr>uv_command = ''ls'', uv_description = ''d'', uv_selected = 0\<rparr>\<rparr>,
     tu_client = \<lparr>gc_next_id = 3, gc_sent = [], gc_faults = []\<rparr>\<rparr>"

definition asking_registry :: approval_control where
  "asking_registry = snd (approval_register (SessionId ''p'') (ToolCallId ''a'') approval_control_default)"

theorem second_answer_allows_an_unseen_command_witness:
  "\<exists>s1 s2 a1 i a2 a3. handle_key key_y asking_tui = (Ok False, s1) \<and> handle_key key_y s1 = (Ok False, s2)
    \<and> map asked_of (gc_sent (tu_client s2)) = replicate 2 (''approval.respond'', allow_params ''p'')
    \<and> um_approval (tu_model s2) = Some \<lparr>uv_command = ''ls'', uv_description = ''d'', uv_selected = 0\<rparr>
    \<and> approval_respond (SessionId ''p'') ''once'' asking_registry = (Ok True, a1)
    \<and> approval_register (SessionId ''p'') (ToolCallId ''b'') a1 = (Ok i, a2)
    \<and> approval_respond (SessionId ''p'') ''once'' a2 = (Ok True, a3) \<and> ac_channels a3 ! i = Delivered Allow"
proof -
  have registry: "asking_registry = \<lparr>ac_pending = [(''p'', [\<lparr>pa_call_id = ToolCallId ''a'', pa_sender = 0\<rparr>])], ac_poisoned = False,
      ac_channels = [ChannelOpen]\<rparr>"
    by (simp add: asking_registry_def approval_register_def approval_control_default_def Let_def session_queue_def put_queue_def)
  have "approvals_inv asking_registry" by (simp add: registry approvals_inv_def waiters_def unused_def)
  then show ?thesis
    using second_answer_allows_an_unseen_command [where s = asking_tui and view = "\<lparr>uv_command = ''ls'', uv_description = ''d'', uv_selected = 0\<rparr>"
        and session = "SessionId ''p''" and a = asking_registry and first = "\<lparr>pa_call_id = ToolCallId ''a'', pa_sender = 0\<rparr>"
        and call = "ToolCallId ''b''"]
    by (simp add: asking_tui_def registry session_queue_def)
qed

end
