(* ===== verification/Spec2Isabelle.thy ===== *)
theory Spec2Isabelle
  imports Turn_Properties Journal Delegation_Properties Codex_Properties
    Openai Codex_Binding Approval Local_Tools Terminal_Tool Agent_Properties
    Gateway_Delegations Tui_Properties
begin

text \<open>
  Hermes is an agent kernel. A session is a conversation with a language model; a turn sends the conversation to a
  provider, runs the tools the model asks for, and ends with the message of the assistant. What must survive a crash is in
  one SQLite database: sessions, planned tool effects, background delegations with their completions, foreground turns.

  The parts. \<open>crates/domain\<close> has the identities and records, \<open>crates/protocol\<close> what is sent between processes,
  \<open>crates/ports\<close> the traits, \<open>crates/runtime\<close> the turn over those traits. \<open>apps/hermesd\<close> has the adapters behind the
  traits (SQLite stores, an HTTP provider, the Codex worker, file and shell tools, approvals) and the commands: \<open>chat\<close> runs
  one turn, \<open>gateway\<close> serves clients over JSON lines and runs their turns as tasks, and its background supervisor runs
  queued delegations as turns of child sessions; \<open>tui\<close> is a client of a gateway that it starts as a child process.

  What the code shares: the database, through one connection for each store; the approval registry, between the tool broker
  of a turn and the gateway; the registry of signals, between the gateway and the workers of delegations; the sets of busy
  sessions and of cancellation senders, between the gateway and the tasks of its turns.
\<close>

section \<open>Theories and sources\<close>

text \<open>
  General. \<open>Prelude\<close>: results, actions (a state transformer with a result, \<open>act_bind\<close> is \<open>?\<close>), words, the weakest
  preconditions of actions. \<open>Rust_Text\<close>, \<open>Rust_Files\<close>, \<open>Rust_Path\<close>, \<open>Json\<close>, \<open>Semantic_Json\<close>: what the sources use of
  the standard library and of \<open>serde_json::Value\<close>. \<open>Frames\<close>: the locale of relations that every step of an operation
  keeps, on every exit. \<open>History\<close>: the locale of stores changed by steps of many clients.

  \<open>crates\<close>. \<open>Domain_Ids\<close> (\<open>domain/src/id.rs\<close>, \<open>prompt.rs\<close>), \<open>Domain_Conversation\<close> (\<open>conversation.rs\<close>, \<open>effect.rs\<close>),
  \<open>Domain_Lifecycle\<close> (\<open>delegation.rs\<close>, \<open>foreground.rs\<close>), \<open>Protocol\<close> (\<open>protocol/src/lib.rs\<close>, \<open>delegation.rs\<close>,
  \<open>foreground.rs\<close>), \<open>Gateway_Wire\<close> (\<open>protocol/src/gateway.rs\<close>), \<open>Ports\<close> (\<open>ports/src/lib.rs\<close>). A trait object is a record
  of operations. \<open>runtime/src/lib.rs\<close> is \<open>Runtime_Project\<close> (semantic and provider messages), \<open>Runtime_ToolHost\<close> (planning,
  approval and invocation identities), \<open>Runtime_Turn\<close> (\<open>run_turn_with_limit_observed\<close>: \<open>turn_loop\<close>, \<open>run_attempt\<close>,
  \<open>attempt_event\<close>, \<open>handle_terminal\<close>) and \<open>Journal\<close> (\<open>JournaledToolBroker\<close>).

  Stores, in \<open>apps/hermesd/src/adapters\<close>. \<open>Sqlite_Schema\<close> has the tables as lists of rows with the checks of the schema,
  and the codecs of the JSON columns as the record \<open>serde\<close>; \<open>Sqlite_Tables\<close> the updates by key. \<open>Effect_Ledger\<close> and
  \<open>Session_Store\<close> (\<open>sqlite.rs\<close>), \<open>Foreground_Store\<close> (\<open>sqlite_foreground.rs\<close>), \<open>Delegation_Store\<close> and \<open>Outbox\<close>
  (\<open>sqlite_delegation.rs\<close>), \<open>Codex_Binding\<close> (\<open>sqlite_codex_binding.rs\<close>). A method of a store is an action on \<open>database\<close>;
  \<open>transaction\<close> gives back the old database on an error. The abstract states are \<open>sessions_of\<close>, \<open>turns_of\<close>,
  \<open>delegations_of\<close> and \<open>outbox\<close>, from identities to snapshots; the refinements are in those theories and in
  \<open>Delegation_Rows\<close>, \<open>Delegation_Creation\<close>, \<open>Delegation_Leases\<close>, \<open>Delegation_Outcomes\<close>, \<open>Delegation_Delivery\<close> and
  \<open>Delegation_Reconcile\<close>; \<open>Shared_Database\<close> puts all stores into one history.

  Engines and tools, in \<open>apps/hermesd/src/adapters\<close>. \<open>Openai\<close> (\<open>openai.rs\<close>); \<open>Codex_Protocol\<close>, \<open>Codex_Authority\<close>,
  \<open>Codex_Server\<close>, \<open>Codex_Engine\<close> (\<open>codex/protocol.rs\<close>, \<open>authority.rs\<close>, \<open>mod.rs\<close>, \<open>engine.rs\<close>), with a worker for
  examples in \<open>Codex_Sample\<close>; \<open>Approval\<close> (\<open>approval.rs\<close>), \<open>Local_Tools\<close> (\<open>local_tools.rs\<close>), \<open>Terminal_Tool\<close>
  (\<open>terminal.rs\<close>), \<open>Agent_Tools\<close> (\<open>agent_tools.rs\<close>).

  Commands, in \<open>apps/hermesd/src/cli\<close>. \<open>Live_Settings\<close> and \<open>Live_Turn\<close> (\<open>chat.rs\<close>, \<open>state.rs\<close>, \<open>effect.rs\<close>), \<open>Gateway\<close>
  and \<open>Gateway_Turn\<close> (\<open>gateway.rs\<close>: \<open>gateway_call\<close> is the dispatcher, \<open>gateway_submit\<close> accepts a prompt, \<open>task_step\<close> is
  one step of the task of a turn), \<open>Tui_Model\<close> and \<open>Tui_Client\<close> (\<open>tui/model.rs\<close>, \<open>tui/client.rs\<close>, \<open>tui/mod.rs\<close>:
  \<open>apply_frame\<close>, \<open>handle_key\<close>, \<open>run_loop\<close>), \<open>Background\<close> (\<open>background.rs\<close>: \<open>supervise_once\<close>, \<open>execute_claim\<close>, \<open>child_loop\<close>).
\<close>

section \<open>What is shown\<close>

text \<open>
  The turn (\<open>Turn_Properties\<close>): it only extends the conversation it was given, every request carries that conversation, an
  attempt is repeated only while the user has seen nothing, the requests to the provider stay in the budget however the turn
  ends, invocation identities are never reused, and an approval freezes the plan it was asked for. \<open>Journal\<close>: no tool runs before its plan is in the
  ledger. \<open>Domain_Conversation\<close>, \<open>Runtime_Project\<close>: the validation is the grammar of conversations, and a projection
  reads back.

  The stores: each operation refines a guarded update of the abstract state, on success and on every error, and the history
  lemmas lift this to all interleavings of all stores on one database. A delegation ends exactly once with one
  completion, only the holder of the current generation, token and lease writes, a foreground turn claims its session
  and its completions together, the reconciliations leave nothing running.

  Engines and tools: the transcript of a Codex turn holds exactly the calls the worker asked for and the broker executed,
  worker threads carry their restrictions or the turn fails, responses reach the oldest waiter once, frames are cut from the
  bytes however they arrive; of what is not under the root a tool shows only how a request for a path ends,
  reading on shows every line once, and a shell runs only a command that was shown and approved by a live decision for it.

  The commands: a durable chat makes its session one turn longer or leaves it (\<open>Live_Properties\<close>); an accepted prompt is
  a durable turn, a session has one turn at a time, each request has one answer (\<open>Gateway_Clients\<close>); the turn is
  committed or recorded as ended (\<open>Gateway_Properties\<close>); clients reach only delegations of the session they name
  (\<open>Gateway_Delegations\<close>); a background child ends as it is recorded, cancellations included (\<open>Background_Properties\<close>).
  The terminal client tells its requests apart, sends only what a key asked for, and shows a resumed session as it is stored
  (\<open>Tui_Properties\<close>). Four theorems state what the code does against its intention: \<open>bracketed_loopback_is_refused\<close>,
  \<open>outside_append_strands_the_turn\<close>, \<open>late_cleanup_cancels_the_next_turn\<close> and
  \<open>second_answer_allows_an_unseen_command\<close>.
\<close>

section \<open>Bounds\<close>

text \<open>
  No definition takes fuel that is not a bound of the code. \<open>turn_loop\<close> recurses on the attempts that remain of the limit of
  the request, an attempt on the finite list of events its stream gives. Loops over rows, delegations and deliveries recurse
  on lists. The reader and the writer of the Codex process recurse on what the pipes give. A retried cancellation has the
  three attempts of the code. Reading a long file page by page is shown to end, since every page makes progress. Timers and
  selections are schedules, lists of events chosen from outside: \<open>child_event\<close> for a background child, the polls of
  \<open>task_step\<close>, the decisions of \<open>task_exit\<close>, the rounds of \<open>tui_loop\<close>; a property holds for all of them.

  Integers of the database are \<open>int\<close> with the checked conversions to and from the 64-bit words of the records; counters of
  usage wrap as in a release build; floating-point numbers are their bits.
\<close>

section \<open>What is assumed and what is not modelled\<close>

text \<open>
  Parameters of the definitions: the text that \<open>serde_json\<close> and \<open>Debug\<close> write and the derived decoders, SHA-256, the \<open>url\<close>
  crate and the HTTP client, the file system with globs, regular expressions and the directory walker, the clock, the
  environment, whether a file of the state directory opens. The hypotheses on them say that a codec reads back what it wrote
  where it wrote something (\<open>encodes\<close> for one value, \<open>faithful\<close>, \<open>serde_ok\<close>, \<open>codecs_ok\<close>, \<open>endings_ok\<close>), and that a
  turn that is dropped at an await has done some part of its work and nothing else (\<open>drops_part\<close>, in \<open>gateway_ok\<close> and
  \<open>worker_ok\<close>).

  SQLite is a list of rows for each table and serializable transactions: no I/O errors, lock timeouts or failing commits, no
  migrations. Errors of \<open>anyhow\<close> are their messages. A child process is what its pipes and its exit give; the Windows
  variants are left out. Children that a turn runs concurrently are taken one after the other, in every order. The turn
  of a gateway task is one step with respect to the requests; what happens around it is taken apart. Provider turns of a
  session and of its children see their own state of the network. The keys of a written JSON object are in order.

  Taken as one step although the code makes several: the two queries that load a session; taking a waiter from its queue and
  sending to it, which happens after the lock is released; the work of the task of a turn between the requests. A direct turn that
  is dropped leaves the observer as it was when it started. The guard of a process group kills on the first way out of its
  scope. The loss of the sender of a signal ends nothing in \<open>child_loop\<close>: the source would poll a receiver that has ended, but
  the registry holds the sender as long as the child runs.

  Not modelled: \<open>contracts.rs\<close>, which replays the recorded fixtures of the contract tests against the runtime; \<open>cli/tui/render.rs\<close>,
  which draws the model of the terminal client; \<open>main.rs\<close> and \<open>cli/mod.rs\<close>, the declarations of
  the argument parser; \<open>adapters/mod.rs\<close>, declarations of modules.
\<close>

end
